(* ===== verification/Prelude.thy ===== *)
theory Prelude
  imports Main "HOL-Library.Word" "HOL-Library.Monad_Syntax"
begin

unbundle bit_operations_syntax

text \<open>
  Shared vocabulary of the development: the machine integers of the C sources, array accesses
  that fault outside their bounds, the error numbers the drivers return, and the generic facts
  on words, lists and options that the component theories use.

  A C operation whose behaviour the standard leaves undefined at some argument (an access outside
  an array, a call through a null pointer) is an \<^typ>\<open>'a option\<close>: \<^term>\<open>None\<close> is the fault.
  Loops and sequences of such operations are written with the option monad.
\<close>

named_theorems wf_intros \<open>operations preserve well-formedness of their component\<close>
named_theorems frame_simps \<open>fields that an operation leaves alone\<close>
named_theorems fault_simps \<open>conditions under which an array access does not fault\<close>

section \<open>Machine integers\<close>

type_synonym u8 = "8 word"
type_synonym u16 = "16 word"
type_synonym u32 = "32 word"
type_synonym u64 = "64 word"

type_synonym addr = nat

text \<open>Linux error numbers; the drivers return them negated, the cuse replies as they are.\<close>

definition EINTR :: int where "EINTR = 4"
definition EAGAIN :: int where "EAGAIN = 11"
definition ENOMEM :: int where "ENOMEM = 12"
definition ENODEV :: int where "ENODEV = 19"
definition EINVAL :: int where "EINVAL = 22"

lemmas errno_defs = EINTR_def EAGAIN_def ENOMEM_def ENODEV_def EINVAL_def

section \<open>Arrays\<close>

text \<open>Reading and writing one element of a C array, and copying a block into one.\<close>

definition arr_get :: "'a list \<Rightarrow> nat \<Rightarrow> 'a option" where
  "arr_get xs i = (if i < length xs then Some (xs ! i) else None)"

definition arr_set :: "'a list \<Rightarrow> nat \<Rightarrow> 'a \<Rightarrow> 'a list option" where
  "arr_set xs i v = (if i < length xs then Some (xs[i := v]) else None)"

definition arr_slice :: "'a list \<Rightarrow> nat \<Rightarrow> nat \<Rightarrow> 'a list option" where
  "arr_slice xs i n = (if i + n \<le> length xs then Some (take n (drop i xs)) else None)"

text \<open>\<open>blit xs i ys\<close> is \<open>memcpy(&xs[i], ys, |ys|)\<close>.\<close>

definition blit :: "'a list \<Rightarrow> nat \<Rightarrow> 'a list \<Rightarrow> 'a list" where
  "blit xs i ys = take i xs @ ys @ drop (i + length ys) xs"

definition arr_blit :: "'a list \<Rightarrow> nat \<Rightarrow> 'a list \<Rightarrow> 'a list option" where
  "arr_blit xs i ys = (if i + length ys \<le> length xs then Some (blit xs i ys) else None)"

lemma arr_get_Some [fault_simps]: "i < length xs \<Longrightarrow> arr_get xs i = Some (xs ! i)"
  by (simp add: arr_get_def)

lemma arr_set_Some [fault_simps]: "i < length xs \<Longrightarrow> arr_set xs i v = Some (xs[i := v])"
  by (simp add: arr_set_def)

lemma arr_slice_Some [fault_simps]:
  "i + n \<le> length xs \<Longrightarrow> arr_slice xs i n = Some (take n (drop i xs))"
  by (simp add: arr_slice_def)

lemma arr_blit_Some [fault_simps]:
  "i + length ys \<le> length xs \<Longrightarrow> arr_blit xs i ys = Some (blit xs i ys)"
  by (simp add: arr_blit_def)

lemma length_blit [simp]: "i + length ys \<le> length xs \<Longrightarrow> length (blit xs i ys) = length xs"
  by (simp add: blit_def)

lemma nth_blit:
  assumes "i + length ys \<le> length xs" and "j < length xs"
  shows "blit xs i ys ! j = (if i \<le> j \<and> j < i + length ys then ys ! (j - i) else xs ! j)"
proof (cases "j < i + length ys")
  case True
  with assms show ?thesis by (auto simp: blit_def nth_append)
next
  case False
  with assms show ?thesis by (auto simp: blit_def nth_append)
qed

lemma nth_blit_outside [simp]:
  "i + length ys \<le> length xs \<Longrightarrow> j < length xs \<Longrightarrow> j < i \<or> i + length ys \<le> j \<Longrightarrow>
   blit xs i ys ! j = xs ! j"
  by (auto simp: nth_blit)

lemma nth_blit_inside:
  "i + length ys \<le> length xs \<Longrightarrow> k < length ys \<Longrightarrow> blit xs i ys ! (i + k) = ys ! k"
  by (simp add: nth_blit)

lemma take_drop_blit:
  assumes "i + length ys \<le> length xs"
  shows "take (length ys) (drop i (blit xs i ys)) = ys"
  using assms by (simp add: blit_def)

lemma take_blit_before: "n \<le> i \<Longrightarrow> i \<le> length xs \<Longrightarrow> take n (blit xs i ys) = take n xs"
  by (simp add: blit_def min_def)

section \<open>Words\<close>

lemma unat_u8_less: "unat (b :: u8) < 256"
  by (rule order_less_le_trans [OF unsigned_less]) simp

lemma unat_ucast_u8_u16 [simp]: "unat (ucast (b :: u8) :: u16) = unat b"
  by (simp add: unsigned_ucast_eq take_bit_nat_eq_self unat_u8_less less_trans [OF unat_u8_less])

lemma single_bit: "v = 2 ^ n \<Longrightarrow> (w :: 'a :: len word) AND v \<noteq> 0 \<longleftrightarrow> bit w n"
  using and_exp_eq_0_iff_not_bit [of w n] by simp

lemma bit_power_iff: "v = 2 ^ m \<Longrightarrow> m < LENGTH('a) \<Longrightarrow> bit (v :: 'a :: len word) n \<longleftrightarrow> n = m"
  by (auto simp: bit_exp_iff)

section \<open>Lists and options\<close>

lemma bind_eq_Some: "Option.bind x f = Some y \<longleftrightarrow> (\<exists>a. x = Some a \<and> f a = Some y)"
  by (cases x) auto

lemma bind_Some_map: "Option.bind x (\<lambda>a. Some (g a)) = map_option g x"
  by (cases x) auto

text \<open>A counted loop whose body may fault.\<close>

fun for_each :: "nat list \<Rightarrow> (nat \<Rightarrow> 'a \<Rightarrow> 'a option) \<Rightarrow> 'a \<Rightarrow> 'a option" where
  "for_each [] body x = Some x"
| "for_each (i # is) body x = do { x \<leftarrow> body i x; for_each is body x }"

lemma for_each_append: "for_each (xs @ ys) body x = Option.bind (for_each xs body x) (for_each ys body)"
proof (induction xs arbitrary: x)
  case (Cons a xs)
  then show ?case by (cases "body a x") simp_all
qed simp

definition the_default :: "'a \<Rightarrow> 'a option \<Rightarrow> 'a" where
  "the_default d x = (case x of None \<Rightarrow> d | Some a \<Rightarrow> a)"

lemma the_default_simps [simp]: "the_default d None = d" "the_default d (Some a) = a"
  by (simp_all add: the_default_def)

text \<open>A sum over a list of which one element changes.\<close>

lemma sum_list_map_update:
  fixes f :: "'a \<Rightarrow> 'b :: comm_monoid_add"
  assumes "i < length xs"
  shows "sum_list (map f (xs[i := y])) + f (xs ! i) = sum_list (map f xs) + f y"
  using assms
proof (induction xs arbitrary: i)
  case (Cons x xs)
  then show ?case by (cases i) (auto simp: ac_simps)
qed simp

lemma exchange_sums:
  fixes a b :: "'a :: cancel_comm_monoid_add"
  assumes "S' + a = S + b" and "M' + b = M + a"
  shows "M' + S' = M + S"
proof -
  have "(M' + S') + (a + b) = (M + S) + (a + b)"
    using assms by (metis (no_types, lifting) add.assoc add.commute)
  then show ?thesis by simp
qed

lemma list_of_length_6:
  assumes "length xs = 6"
  shows "xs = [xs ! 0, xs ! 1, xs ! 2, xs ! 3, xs ! 4, xs ! 5]"
  using assms by (auto intro!: nth_equalityI simp: less_Suc_eq numeral_eq_Suc)


section \<open>Character arrays\<close>

definition NUL :: char where "NUL = CHR 0x00"

text \<open>The string in a character array ends before its first null character; reading one that has
  none runs past the array.\<close>

definition c_string :: "string \<Rightarrow> string" where
  "c_string a = takeWhile (\<lambda>c. c \<noteq> NUL) a"

text \<open>\<open>strcpy(dst, s)\<close> for a literal \<open>s\<close>, and \<open>strncpy(dst, src, n)\<close> with \<open>n = sizeof(dst)\<close>, which copies at
  most \<open>n\<close> characters and fills up with null characters.\<close>

definition c_strcpy :: "string \<Rightarrow> string \<Rightarrow> string option" where
  "c_strcpy dst s = arr_blit dst 0 (s @ [NUL])"

definition c_strncpy :: "string \<Rightarrow> string \<Rightarrow> string option" where
  "c_strncpy dst src = (let n = length dst; s = c_string src in
     if length s = length src \<and> n > length src then None
     else Some (take n (s @ replicate n NUL)))"

lemma length_c_string: "length (c_string a) \<le> length a"
  by (simp add: c_string_def length_takeWhile_le)

lemma c_strncpy_spec:
  assumes "length (c_string src) < length src" and "length (c_string src) < length dst"
  shows "\<exists>a. c_strncpy dst src = Some a \<and> length a = length dst \<and> c_string a = c_string src"
proof -
  let ?s = "c_string src"
  have s: "\<forall>c \<in> set ?s. c \<noteq> NUL" by (auto simp: c_string_def dest: set_takeWhileD)
  have eq: "take (length dst) (?s @ replicate (length dst) NUL) = ?s @ replicate (length dst - length ?s) NUL"
    using assms(2) by (simp add: min_def)
  have "c_string (?s @ replicate (length dst - length ?s) NUL) = ?s"
    using s assms(2) unfolding c_string_def by (simp add: takeWhile_append2 takeWhile_replicate)
  then show ?thesis using assms by (simp add: c_strncpy_def Let_def eq)
qed

end
