(* ===== verification/Uart_Bus.thy ===== *)
theory Uart_Bus
  imports Prelude
begin

text \<open>
  The register file of a 16550 UART behind the bus interface of the drivers.

  The drivers reach the chip only through reading and writing numbered registers
  (\<^verbatim>\<open>src/src/uio-testbench/bus/rtuart_bus_ops.h\<close>). The locale \<open>uart_registers\<close> states what they rely on for
  the registers that hold what was written to them: the line control register, the divisor latches
  that replace registers 0 and 1 while its top bit (DLAB) is set, the interrupt enable register, the
  modem control register; reading a register and writing the transmitter holding register or the FIFO
  control register leave them alone. The simulated bus \<^verbatim>\<open>src/src/uio-testbench/bus/dummy_bus.c\<close> provides it.
  \<^term>\<open>None\<close> is an access outside the register array.
\<close>

section \<open>Register numbers\<close>

definition PC16550_REG_RBR :: int where "PC16550_REG_RBR = 0"
definition PC16550_REG_THR :: int where "PC16550_REG_THR = 0"
definition PC16550_REG_IER :: int where "PC16550_REG_IER = 1"
definition PC16550_REG_IIR :: int where "PC16550_REG_IIR = 2"
definition PC16550_REG_FCR :: int where "PC16550_REG_FCR = 2"
definition PC16550_REG_LCR :: int where "PC16550_REG_LCR = 3"
definition PC16550_REG_MCR :: int where "PC16550_REG_MCR = 4"
definition PC16550_REG_LSR :: int where "PC16550_REG_LSR = 5"
definition PC16550_REG_MSR :: int where "PC16550_REG_MSR = 6"
definition PC16550_REG_SCR :: int where "PC16550_REG_SCR = 7"
definition PC16550_REG_DLL :: int where "PC16550_REG_DLL = 0"
definition PC16550_REG_DLM :: int where "PC16550_REG_DLM = 1"

lemmas pc16550_reg_defs = PC16550_REG_RBR_def PC16550_REG_THR_def PC16550_REG_IER_def PC16550_REG_IIR_def
  PC16550_REG_FCR_def PC16550_REG_LCR_def PC16550_REG_MCR_def PC16550_REG_LSR_def PC16550_REG_MSR_def
  PC16550_REG_SCR_def PC16550_REG_DLL_def PC16550_REG_DLM_def

definition PC16550_LCR_DLAB :: u8 where "PC16550_LCR_DLAB = 0x80"

section \<open>The interface\<close>

text \<open>What the latching registers hold.\<close>

record uart_view =
  v_lcr :: u8
  v_dll :: u8
  v_dlm :: u8
  v_ier :: u8
  v_mcr :: u8

type_synonym 'b reg_read = "int \<Rightarrow> 'b \<Rightarrow> (u8 \<times> 'b) option"
type_synonym 'b reg_write = "int \<Rightarrow> u8 \<Rightarrow> 'b \<Rightarrow> 'b option"

locale uart_registers =
  fixes rd :: "'b reg_read"
    and wr :: "'b reg_write"
    and ok :: "'b \<Rightarrow> bool"
    and view :: "'b \<Rightarrow> uart_view"
  assumes rd_lcr: "ok b \<Longrightarrow> rd PC16550_REG_LCR b = Some (v_lcr (view b), b)"
    and wr_lcr: "ok b \<Longrightarrow> \<exists>b'. wr PC16550_REG_LCR v b = Some b' \<and> ok b' \<and> view b' = (view b)\<lparr>v_lcr := v\<rparr>"
    and rd_dll: "ok b \<Longrightarrow> bit (v_lcr (view b)) 7 \<Longrightarrow> rd PC16550_REG_DLL b = Some (v_dll (view b), b)"
    and wr_dll: "ok b \<Longrightarrow> bit (v_lcr (view b)) 7 \<Longrightarrow>
      \<exists>b'. wr PC16550_REG_DLL v b = Some b' \<and> ok b' \<and> view b' = (view b)\<lparr>v_dll := v\<rparr>"
    and rd_dlm: "ok b \<Longrightarrow> bit (v_lcr (view b)) 7 \<Longrightarrow> rd PC16550_REG_DLM b = Some (v_dlm (view b), b)"
    and wr_dlm: "ok b \<Longrightarrow> bit (v_lcr (view b)) 7 \<Longrightarrow>
      \<exists>b'. wr PC16550_REG_DLM v b = Some b' \<and> ok b' \<and> view b' = (view b)\<lparr>v_dlm := v\<rparr>"
    and rd_ier: "ok b \<Longrightarrow> \<not> bit (v_lcr (view b)) 7 \<Longrightarrow> rd PC16550_REG_IER b = Some (v_ier (view b), b)"
    and wr_ier: "ok b \<Longrightarrow> \<not> bit (v_lcr (view b)) 7 \<Longrightarrow>
      \<exists>b'. wr PC16550_REG_IER v b = Some b' \<and> ok b' \<and> view b' = (view b)\<lparr>v_ier := v\<rparr>"
    and rd_mcr: "ok b \<Longrightarrow> rd PC16550_REG_MCR b = Some (v_mcr (view b), b)"
    and wr_mcr: "ok b \<Longrightarrow> \<exists>b'. wr PC16550_REG_MCR v b = Some b' \<and> ok b' \<and> view b' = (view b)\<lparr>v_mcr := v\<rparr>"
    and wr_fcr: "ok b \<Longrightarrow> \<exists>b'. wr PC16550_REG_FCR v b = Some b' \<and> ok b' \<and> view b' = view b"
    and wr_thr: "ok b \<Longrightarrow> \<not> bit (v_lcr (view b)) 7 \<Longrightarrow>
      \<exists>b'. wr PC16550_REG_THR v b = Some b' \<and> ok b' \<and> view b' = view b"
    and rd_any: "ok b \<Longrightarrow> 0 \<le> reg \<Longrightarrow> reg < 8 \<Longrightarrow> \<exists>v b'. rd reg b = Some (v, b') \<and> ok b' \<and> view b' = view b"

section \<open>The simulated bus\<close>

definition REGNO_RBR :: int where "REGNO_RBR = 0"
definition REGNO_THR :: int where "REGNO_THR = 0"
definition REGNO_IER :: int where "REGNO_IER = 1"
definition REGNO_IIR :: int where "REGNO_IIR = 2"
definition REGNO_FCR :: int where "REGNO_FCR = 8 + 2"
definition REGNO_LCR :: int where "REGNO_LCR = 3"
definition REGNO_MCR :: int where "REGNO_MCR = 4"
definition REGNO_LSR :: int where "REGNO_LSR = 5"
definition REGNO_MSR :: int where "REGNO_MSR = 6"
definition REGNO_SCRATCH :: int where "REGNO_SCRATCH = 7"
definition REGNO_DLAB_LSB :: int where "REGNO_DLAB_LSB = 8 + 0"
definition REGNO_DLAB_MSB :: int where "REGNO_DLAB_MSB = 8 + 1"

lemmas regno_defs = REGNO_RBR_def REGNO_THR_def REGNO_IER_def REGNO_IIR_def REGNO_FCR_def REGNO_LCR_def
  REGNO_MCR_def REGNO_LSR_def REGNO_MSR_def REGNO_SCRATCH_def REGNO_DLAB_LSB_def REGNO_DLAB_MSB_def

record dummy_bus =
  register_values :: "u8 list"

definition reg_get :: "u8 list \<Rightarrow> int \<Rightarrow> u8 option" where
  "reg_get regs i = (if i < 0 then None else arr_get regs (nat i))"

definition reg_set :: "u8 list \<Rightarrow> int \<Rightarrow> u8 \<Rightarrow> u8 list option" where
  "reg_set regs i v = (if i < 0 then None else arr_set regs (nat i) v)"

fun reg_sets :: "(int \<times> u8) list \<Rightarrow> u8 list \<Rightarrow> u8 list option" where
  "reg_sets [] regs = Some regs"
| "reg_sets ((i, v) # ws) regs = do { regs \<leftarrow> reg_set regs i v; reg_sets ws regs }"

definition dummy_bus_init_internal_registers :: "u8 list \<Rightarrow> u8 list option" where
  "dummy_bus_init_internal_registers regs = reg_sets
     [(REGNO_RBR, 0), (REGNO_THR, 0), (REGNO_IER, 0), (REGNO_IIR, 1), (REGNO_FCR, 0), (REGNO_LCR, 0),
      (REGNO_MCR, 0), (REGNO_LSR, 0x60), (REGNO_MSR, 0), (REGNO_SCRATCH, 0), (REGNO_DLAB_LSB, 0),
      (REGNO_DLAB_MSB, 0)] regs"

definition dummy_bus_read_internal_reg :: "u8 list \<Rightarrow> int \<Rightarrow> u8 option" where
  "dummy_bus_read_internal_reg regs regno = reg_get regs regno"

definition dummy_bus_write_internal_reg :: "u8 list \<Rightarrow> int \<Rightarrow> u8 \<Rightarrow> u8 list option" where
  "dummy_bus_write_internal_reg regs regno val =
     (if regno = REGNO_THR then reg_set regs regno val
      else if regno = REGNO_IIR then reg_set regs REGNO_FCR val
      else reg_set regs regno val)"

definition dummy_bus_read_reg :: "int \<Rightarrow> dummy_bus \<Rightarrow> u8 option" where
  "dummy_bus_read_reg regno bus = do {
     r \<leftarrow> reg_get (register_values bus) REGNO_LCR;
     (let dlab = r AND 0x80 in
      if dlab \<noteq> 0 \<and> regno \<le> 1
      then dummy_bus_read_internal_reg (register_values bus) (regno + 8)
      else dummy_bus_read_internal_reg (register_values bus) regno) }"

definition dummy_bus_write_reg :: "int \<Rightarrow> u8 \<Rightarrow> dummy_bus \<Rightarrow> dummy_bus option" where
  "dummy_bus_write_reg regno val bus = do {
     r \<leftarrow> reg_get (register_values bus) REGNO_LCR;
     (let dlab = r AND 0x80 in do {
        regs \<leftarrow> (if dlab \<noteq> 0 \<and> regno \<le> 1
                then dummy_bus_write_internal_reg (register_values bus) (regno + 8) val
                else dummy_bus_write_internal_reg (register_values bus) regno val);
        Some (bus\<lparr>register_values := regs\<rparr>) }) }"

text \<open>The 8, 16 and 32 bit accesses of the bus: all move one octet. \<open>dummy_read_u8\<close> and
  \<open>dummy_write_u8\<close> are what the 16550 driver uses.\<close>

definition dummy_read_u8 :: "dummy_bus reg_read" where
  "dummy_read_u8 reg bus = do { v \<leftarrow> dummy_bus_read_reg reg bus; Some (v, bus) }"

definition dummy_read_u16 :: "int \<Rightarrow> dummy_bus \<Rightarrow> (u16 \<times> dummy_bus) option" where
  "dummy_read_u16 reg bus = do { v \<leftarrow> dummy_bus_read_reg reg bus; Some (ucast v, bus) }"

definition dummy_read_u32 :: "int \<Rightarrow> dummy_bus \<Rightarrow> (u32 \<times> dummy_bus) option" where
  "dummy_read_u32 reg bus = do { v \<leftarrow> dummy_bus_read_reg reg bus; Some (ucast v, bus) }"

definition dummy_write_u8 :: "dummy_bus reg_write" where
  "dummy_write_u8 reg val bus = dummy_bus_write_reg reg val bus"

definition dummy_write_u16 :: "int \<Rightarrow> u16 \<Rightarrow> dummy_bus \<Rightarrow> dummy_bus option" where
  "dummy_write_u16 reg val bus = dummy_bus_write_reg reg (ucast val) bus"

definition dummy_write_u32 :: "int \<Rightarrow> u32 \<Rightarrow> dummy_bus \<Rightarrow> dummy_bus option" where
  "dummy_write_u32 reg val bus = dummy_bus_write_reg reg (ucast val) bus"

text \<open>The registers that the initialisation leaves alone hold whatever was in the allocated memory.\<close>

definition dummy_bus_create :: "u8 list \<Rightarrow> dummy_bus option" where
  "dummy_bus_create memory = do {
     regs \<leftarrow> dummy_bus_init_internal_registers (take 0x3f memory);
     Some \<lparr>register_values = regs\<rparr> }"

section \<open>The simulated bus provides the interface\<close>

definition dummy_ok :: "dummy_bus \<Rightarrow> bool" where
  "dummy_ok bus \<longleftrightarrow> length (register_values bus) = 0x3f"

definition dummy_view :: "dummy_bus \<Rightarrow> uart_view" where
  "dummy_view bus = (let r = register_values bus in
     \<lparr>v_lcr = r ! 3, v_dll = r ! 8, v_dlm = r ! 9, v_ier = r ! 1, v_mcr = r ! 4\<rparr>)"

lemma test_bit_mask:
  fixes w :: u8
  assumes "m = 2 ^ k" and "k < 8"
  shows "w AND m = 0 \<longleftrightarrow> \<not> bit w k"
proof -
  have "w AND 2 ^ k = (if bit w k then 2 ^ k else 0)"
    using assms(2) by (intro bit_eqI) (auto simp: bit_simps)
  moreover have "(2 :: u8) ^ k \<noteq> 0" using assms(2) by simp
  ultimately show ?thesis using assms(1) by simp
qed

lemma dlab_bit: "(w :: u8) AND 0x80 = 0 \<longleftrightarrow> \<not> bit w 7"
  by (rule test_bit_mask) simp_all

lemmas dummy_bus_defs = dummy_read_u8_def dummy_write_u8_def dummy_bus_read_reg_def dummy_bus_write_reg_def
  dummy_bus_read_internal_reg_def dummy_bus_write_internal_reg_def reg_get_def reg_set_def regno_defs
  pc16550_reg_defs arr_get_def arr_set_def Let_def dlab_bit

interpretation db: uart_registers dummy_read_u8 dummy_write_u8 dummy_ok dummy_view
  by unfold_locales (auto simp: dummy_bus_defs dummy_ok_def dummy_view_def)

lemma dummy_bus_create_spec:
  assumes "length memory \<ge> 0x3f"
  shows "\<exists>bus. dummy_bus_create memory = Some bus \<and> dummy_ok bus \<and>
     dummy_view bus = \<lparr>v_lcr = 0, v_dll = 0, v_dlm = 0, v_ier = 0, v_mcr = 0\<rparr> \<and>
     register_values bus ! 2 = 1 \<and> register_values bus ! 5 = 0x60"
  using assms
  by (cases "memory = []") (simp_all add: dummy_bus_create_def dummy_bus_init_internal_registers_def reg_set_def arr_set_def regno_defs
      dummy_ok_def dummy_view_def Let_def min_def)

end
