(* ===== verification/Rtuart.thy ===== *)
theory Rtuart
  imports Prelude
begin

text \<open>
  The vocabulary between a UART driver and its client
  (\<^verbatim>\<open>src/src/uio-testbench/uart/rtuart.h\<close>): notifications, line events and modem outputs, and how
  \<^verbatim>\<open>src/src/uio-testbench/uart/pc16c550.c\<close> keeps the mask of enabled notifications. A
  notification is one bit of the mask; an interrupt clears the bit before it calls the client.
\<close>

section \<open>Constants\<close>

definition UART_NOTIFY_TXEMPTY :: u32 where "UART_NOTIFY_TXEMPTY = 0x01"
definition UART_NOTIFY_TXREADY :: u32 where "UART_NOTIFY_TXREADY = 0x02"
definition UART_NOTIFY_RXAVAILABLE :: u32 where "UART_NOTIFY_RXAVAILABLE = 0x04"
definition UART_NOTIFY_INPUTCHANGED :: u32 where "UART_NOTIFY_INPUTCHANGED = 0x08"
definition UART_NOTIFY_LINEEVENT :: u32 where "UART_NOTIFY_LINEEVENT = 0x10"

definition RTUART_EVENT_OVERRUN_ERROR :: u32 where "RTUART_EVENT_OVERRUN_ERROR = 1"
definition RTUART_EVENT_PARITY_ERROR :: u32 where "RTUART_EVENT_PARITY_ERROR = 2"
definition RTUART_EVENT_FRAMING_ERROR :: u32 where "RTUART_EVENT_FRAMING_ERROR = 4"
definition RTUART_EVENT_BREAK :: u32 where "RTUART_EVENT_BREAK = 8"

definition RTUART_OUTPUT_DTR :: u32 where "RTUART_OUTPUT_DTR = 1"
definition RTUART_OUTPUT_RTS :: u32 where "RTUART_OUTPUT_RTS = 2"
definition RTUART_OUTPUT_GENERIC0 :: u32 where "RTUART_OUTPUT_GENERIC0 = 4"
definition RTUART_OUTPUT_GENERIC1 :: u32 where "RTUART_OUTPUT_GENERIC1 = 8"

lemmas rtuart_const_defs = UART_NOTIFY_TXEMPTY_def UART_NOTIFY_TXREADY_def
  UART_NOTIFY_RXAVAILABLE_def UART_NOTIFY_INPUTCHANGED_def UART_NOTIFY_LINEEVENT_def
  RTUART_EVENT_OVERRUN_ERROR_def RTUART_EVENT_PARITY_ERROR_def RTUART_EVENT_FRAMING_ERROR_def
  RTUART_EVENT_BREAK_def RTUART_OUTPUT_DTR_def RTUART_OUTPUT_RTS_def

text \<open>The callbacks of a client (\<^verbatim>\<open>rtuart_client.h\<close>); \<open>'s\<close> is the state of the driver and its client.\<close>

record 's rtuart_client_callbacks =
  cb_transmitter_has_space :: "(int \<Rightarrow> 's \<Rightarrow> 's option) option"
  cb_transmitter_empty :: "('s \<Rightarrow> 's option) option"
  cb_receiver_data_available :: "(int \<Rightarrow> 's \<Rightarrow> 's option) option"
  cb_modem_input_changed :: "(u32 \<Rightarrow> u32 \<Rightarrow> 's \<Rightarrow> 's option) option"
  cb_line_status_event :: "(u32 \<Rightarrow> 's \<Rightarrow> 's option) option"

section \<open>The notification mask\<close>

definition notify_enable :: "u32 \<Rightarrow> u32 \<Rightarrow> u32" where
  "notify_enable msk n = (if msk AND n \<noteq> n then msk OR n else msk)"

definition notify_disable :: "u32 \<Rightarrow> u32 \<Rightarrow> u32" where
  "notify_disable msk n = (if msk AND n \<noteq> n then msk AND NOT n else msk)"

text \<open>\<open>u->notify_mask &= ~n\<close> in the interrupt handler.\<close>

definition notify_clear :: "u32 \<Rightarrow> u32 \<Rightarrow> u32" where
  "notify_clear msk n = msk AND NOT n"

text \<open>The contract of the mask: enabling adds exactly the requested bits; disabling only takes
  away requested bits.\<close>

locale notification_mask =
  fixes enable :: "u32 \<Rightarrow> u32 \<Rightarrow> u32"
    and disable :: "u32 \<Rightarrow> u32 \<Rightarrow> u32"
  assumes bit_enable: "bit (enable m n) i \<longleftrightarrow> bit m i \<or> bit n i"
    and bit_disable_le: "bit (disable m n) i \<Longrightarrow> bit m i"
    and bit_disable_other: "bit m i \<Longrightarrow> \<not> bit n i \<Longrightarrow> bit (disable m n) i"
begin

lemma bit_disable_outside: "\<not> bit n i \<Longrightarrow> bit (disable m n) i \<longleftrightarrow> bit m i"
  using bit_disable_le bit_disable_other by blast

lemma enable_idem: "enable (enable m n) n = enable m n"
  by (rule bit_eqI) (auto simp: bit_enable)

lemma enable_commute: "enable (enable m n) k = enable (enable m k) n"
  by (rule bit_eqI) (auto simp: bit_enable)

end

interpretation nm: notification_mask notify_enable
  notify_disable
proof
  fix m n :: u32 and i :: nat
  show "bit (notify_enable m n) i \<longleftrightarrow> bit m i \<or> bit n i"
  proof (cases "m AND n = n")
    case True
    then have "bit n i \<Longrightarrow> bit m i" by (metis bit_and_iff)
    with True show ?thesis by (auto simp: notify_enable_def)
  next
    case False
    then show ?thesis by (simp add: notify_enable_def bit_or_iff)
  qed
  show "bit (notify_disable m n) i \<Longrightarrow> bit m i"
    by (auto simp: notify_disable_def bit_and_iff split: if_splits)
  show "bit m i \<Longrightarrow> \<not> bit n i \<Longrightarrow> bit (notify_disable m n) i"
    by (auto simp: notify_disable_def bit_simps dest: bit_imp_le_length)
qed

lemma bit_notify_clear: "bit (notify_clear m n) i \<longleftrightarrow> bit m i \<and> \<not> bit n i"
  by (auto simp: notify_clear_def bit_simps dest: bit_imp_le_length)

lemma notify_bits [simp]:
  "bit UART_NOTIFY_TXEMPTY i \<longleftrightarrow> i = 0"
  "bit UART_NOTIFY_TXREADY i \<longleftrightarrow> i = 1"
  "bit UART_NOTIFY_RXAVAILABLE i \<longleftrightarrow> i = 2"
  "bit UART_NOTIFY_INPUTCHANGED i \<longleftrightarrow> i = 3"
  "bit UART_NOTIFY_LINEEVENT i \<longleftrightarrow> i = 4"
proof -
  have *: "bit ((2 :: u32) ^ k) i \<longleftrightarrow> i = k" if "k < 32" for k
    using that by (auto simp: bit_exp_iff)
  show "bit UART_NOTIFY_TXEMPTY i \<longleftrightarrow> i = 0" by (simp add: rtuart_const_defs bit_1_iff)
  show "bit UART_NOTIFY_TXREADY i \<longleftrightarrow> i = 1" using * [of 1] by (simp add: rtuart_const_defs)
  show "bit UART_NOTIFY_RXAVAILABLE i \<longleftrightarrow> i = 2" using * [of 2] by (simp add: rtuart_const_defs)
  show "bit UART_NOTIFY_INPUTCHANGED i \<longleftrightarrow> i = 3" using * [of 3] by (simp add: rtuart_const_defs)
  show "bit UART_NOTIFY_LINEEVENT i \<longleftrightarrow> i = 4" using * [of 4] by (simp add: rtuart_const_defs)
qed

text \<open>Two masks tested for one bit.\<close>

definition notify_on :: "u32 \<Rightarrow> u32 \<Rightarrow> bool" where
  "notify_on msk n \<longleftrightarrow> msk AND n \<noteq> 0"

lemma test_bit_lt32: "bit (w :: u32) i \<Longrightarrow> i < 32"
  using bit_imp_le_length [of w i] by simp

lemma notify_on_iff: "notify_on m n \<longleftrightarrow> (\<exists>i. bit m i \<and> bit n i)"
  unfolding notify_on_def bit_eq_iff
  by (auto simp: bit_and_iff intro: exI dest: test_bit_lt32)

lemma notify_on_bits:
  "notify_on m UART_NOTIFY_TXEMPTY \<longleftrightarrow> bit m 0"
  "notify_on m UART_NOTIFY_TXREADY \<longleftrightarrow> bit m 1"
  "notify_on m UART_NOTIFY_RXAVAILABLE \<longleftrightarrow> bit m 2"
  by (simp_all add: notify_on_iff)

end
