(* ===== verification/Pc16c550.thy ===== *)
theory Pc16c550
  imports Uart_Bus Rtuart
begin

text \<open>
  The interrupt driven 16550 driver (\<^verbatim>\<open>src/src/uio-testbench/uart/pc16c550.c\<close>): formats, baud rate,
  break, modem lines, FIFO control, notifications and the interrupt handler.

  \<open>rd\<close> and \<open>wr\<close> are the bus operations and \<open>u_bus\<close> the state behind them. A client is a record of
  callbacks, each of which may be missing, that work on the driver and a state of their own; a
  missing client is the record without callbacks. Two loops depend on the chip: waiting for the
  transmitter and the loop of the interrupt handler; not returning is \<^term>\<open>None\<close>, like an access
  outside an array.
\<close>

section \<open>State and register access\<close>

record 'b rtuart_pc16c550 =
  u_bus :: 'b
  u_notify_mask :: u32
  u_address_offset :: u32
  u_irqno :: int
  u_fcr_shadow :: u8
  u_base_clock :: u32

definition reg_at :: "'b rtuart_pc16c550 \<Rightarrow> int \<Rightarrow> int" where
  "reg_at u reg = sint (word_of_int reg + u_address_offset u)"

definition rtuart_read_u8 :: "'b reg_read \<Rightarrow> int \<Rightarrow> 'b rtuart_pc16c550 \<Rightarrow> (u8 \<times> 'b rtuart_pc16c550) option" where
  "rtuart_read_u8 rd reg u = do { (v, b) \<leftarrow> rd (reg_at u reg) (u_bus u); Some (v, u\<lparr>u_bus := b\<rparr>) }"

definition rtuart_write_u8 :: "'b reg_write \<Rightarrow> int \<Rightarrow> u8 \<Rightarrow> 'b rtuart_pc16c550 \<Rightarrow> 'b rtuart_pc16c550 option" where
  "rtuart_write_u8 wr reg val u = do { b \<leftarrow> wr (reg_at u reg) val (u_bus u); Some (u\<lparr>u_bus := b\<rparr>) }"

abbreviation pc16c550_get_rbr where "pc16c550_get_rbr rd \<equiv> rtuart_read_u8 rd PC16550_REG_RBR"
abbreviation pc16c550_set_thr where "pc16c550_set_thr wr v \<equiv> rtuart_write_u8 wr PC16550_REG_THR v"
abbreviation pc16c550_set_ier where "pc16c550_set_ier wr v \<equiv> rtuart_write_u8 wr PC16550_REG_IER v"
abbreviation pc16c550_get_iir where "pc16c550_get_iir rd \<equiv> rtuart_read_u8 rd PC16550_REG_IIR"
abbreviation pc16c550_set_fcr where "pc16c550_set_fcr wr v \<equiv> rtuart_write_u8 wr PC16550_REG_FCR v"
abbreviation pc16c550_get_lcr where "pc16c550_get_lcr rd \<equiv> rtuart_read_u8 rd PC16550_REG_LCR"
abbreviation pc16c550_set_lcr where "pc16c550_set_lcr wr v \<equiv> rtuart_write_u8 wr PC16550_REG_LCR v"
abbreviation pc16c550_get_mcr where "pc16c550_get_mcr rd \<equiv> rtuart_read_u8 rd PC16550_REG_MCR"
abbreviation pc16c550_set_mcr where "pc16c550_set_mcr wr v \<equiv> rtuart_write_u8 wr PC16550_REG_MCR v"
abbreviation pc16c550_get_lsr where "pc16c550_get_lsr rd \<equiv> rtuart_read_u8 rd PC16550_REG_LSR"
abbreviation pc16c550_get_msr where "pc16c550_get_msr rd \<equiv> rtuart_read_u8 rd PC16550_REG_MSR"
abbreviation pc16c550_get_dll where "pc16c550_get_dll rd \<equiv> rtuart_read_u8 rd PC16550_REG_DLL"
abbreviation pc16c550_set_dll where "pc16c550_set_dll wr v \<equiv> rtuart_write_u8 wr PC16550_REG_DLL v"
abbreviation pc16c550_get_dlm where "pc16c550_get_dlm rd \<equiv> rtuart_read_u8 rd PC16550_REG_DLM"

text \<open>The macro names the divisor latch and writes the line control register.\<close>

abbreviation pc16c550_set_dlm where "pc16c550_set_dlm wr v \<equiv> rtuart_write_u8 wr PC16550_REG_LCR v"

section \<open>Format, baud rate, break and modem lines\<close>

definition PC16550_LSR_OVERRUN_ERROR :: u8 where "PC16550_LSR_OVERRUN_ERROR = 2"
definition PC16550_LSR_PARITY_ERROR :: u8 where "PC16550_LSR_PARITY_ERROR = 4"
definition PC16550_LSR_FRAMING_ERROR :: u8 where "PC16550_LSR_FRAMING_ERROR = 8"
definition PC16550_LSR_BREAK_INTERRUPT :: u8 where "PC16550_LSR_BREAK_INTERRUPT = 0x10"
definition PC16550_LSR_THRE :: u8 where "PC16550_LSR_THRE = 0x20"
definition PC16550_LSR_TRANSMITTER_EMPTY :: u8 where "PC16550_LSR_TRANSMITTER_EMPTY = 0x40"

lemmas pc16550_lsr_defs = PC16550_LSR_OVERRUN_ERROR_def PC16550_LSR_PARITY_ERROR_def
  PC16550_LSR_FRAMING_ERROR_def PC16550_LSR_BREAK_INTERRUPT_def PC16550_LSR_THRE_def
  PC16550_LSR_TRANSMITTER_EMPTY_def

definition uart16550_lsr_to_event :: "u8 \<Rightarrow> u32" where
  "uart16550_lsr_to_event lsr =
     (if lsr AND PC16550_LSR_OVERRUN_ERROR \<noteq> 0 then RTUART_EVENT_OVERRUN_ERROR else 0) OR
     (if lsr AND PC16550_LSR_PARITY_ERROR \<noteq> 0 then RTUART_EVENT_PARITY_ERROR else 0) OR
     (if lsr AND PC16550_LSR_FRAMING_ERROR \<noteq> 0 then RTUART_EVENT_FRAMING_ERROR else 0) OR
     (if lsr AND PC16550_LSR_BREAK_INTERRUPT \<noteq> 0 then RTUART_EVENT_BREAK else 0)"

definition pc16c550_set_format ::
  "'b reg_read \<Rightarrow> 'b reg_write \<Rightarrow> int \<Rightarrow> char \<Rightarrow> int \<Rightarrow> 'b rtuart_pc16c550 \<Rightarrow> 'b rtuart_pc16c550 option" where
  "pc16c550_set_format rd wr databits parity stopbits u = do {
     (lcr, u) \<leftarrow> pc16c550_get_lcr rd u;
     let lcr = lcr AND NOT 0x3f;
     let lcr = lcr OR word_of_int (databits - 5);
     let lcr = lcr OR (if stopbits > 10 then 4 else 0);
     let lcr = lcr OR push_bit 3 (if parity = CHR ''e'' then 3 else if parity = CHR ''o'' then 1 else 0);
     pc16c550_set_lcr wr lcr u }"

definition pc16c550_get_format ::
  "'b reg_read \<Rightarrow> 'b rtuart_pc16c550 \<Rightarrow> ((int \<times> char \<times> int) \<times> 'b rtuart_pc16c550) option" where
  "pc16c550_get_format rd u = do {
     (lcr, u) \<leftarrow> pc16c550_get_lcr rd u;
     Some ((uint (lcr AND 3) + 5,
            if lcr AND 8 \<noteq> 0 then (if lcr AND 0x10 \<noteq> 0 then CHR ''e'' else CHR ''o'') else CHR ''n'',
            if lcr AND 4 \<noteq> 0 then 20 else 10), u) }"

definition pc16c550_set_baudrate_divisor ::
  "'b reg_read \<Rightarrow> 'b reg_write \<Rightarrow> u32 \<Rightarrow> 'b rtuart_pc16c550 \<Rightarrow> 'b rtuart_pc16c550 option" where
  "pc16c550_set_baudrate_divisor rd wr divisor u = do {
     (lcr, u) \<leftarrow> pc16c550_get_lcr rd u;
     u \<leftarrow> pc16c550_set_lcr wr (lcr OR PC16550_LCR_DLAB) u;
     u \<leftarrow> pc16c550_set_dll wr (ucast divisor) u;
     u \<leftarrow> pc16c550_set_dlm wr (ucast (drop_bit 8 divisor)) u;
     pc16c550_set_lcr wr lcr u }"

definition pc16c550_get_baudrate_divisor ::
  "'b reg_read \<Rightarrow> 'b reg_write \<Rightarrow> 'b rtuart_pc16c550 \<Rightarrow> (u32 \<times> 'b rtuart_pc16c550) option" where
  "pc16c550_get_baudrate_divisor rd wr u = do {
     (lcr, u) \<leftarrow> pc16c550_get_lcr rd u;
     u \<leftarrow> pc16c550_set_lcr wr (lcr OR PC16550_LCR_DLAB) u;
     (dll, u) \<leftarrow> pc16c550_get_dll rd u;
     (dlm, u) \<leftarrow> pc16c550_get_dlm rd u;
     u \<leftarrow> pc16c550_set_lcr wr lcr u;
     Some (ucast dll OR push_bit 8 (ucast dlm), u) }"

text \<open>The clock quotient is computed in 64 bits, from a 32 bit clock.\<close>

definition pc16c550_baseclock :: "'b rtuart_pc16c550 \<Rightarrow> u64" where
  "pc16c550_baseclock u = ucast (u_base_clock u)"

definition pc16c550_oversampling :: u64 where
  "pc16c550_oversampling = 16"

definition pc16c550_set_baudrate ::
  "'b reg_read \<Rightarrow> 'b reg_write \<Rightarrow> u32 \<Rightarrow> 'b rtuart_pc16c550 \<Rightarrow> (int \<times> 'b rtuart_pc16c550) option" where
  "pc16c550_set_baudrate rd wr baudrate u = (
     if baudrate = 0 then Some (-1, u)
     else do {
       u \<leftarrow> pc16c550_set_baudrate_divisor rd wr
              (ucast ((pc16c550_baseclock u div pc16c550_oversampling) div ucast baudrate)) u;
       Some (0, u) })"

definition pc16c550_get_baudrate ::
  "'b reg_read \<Rightarrow> 'b reg_write \<Rightarrow> 'b rtuart_pc16c550 \<Rightarrow> (u32 \<times> 'b rtuart_pc16c550) option" where
  "pc16c550_get_baudrate rd wr u = do {
     (divisor, u) \<leftarrow> pc16c550_get_baudrate_divisor rd wr u;
     if divisor = 0 then None
     else Some (ucast ((pc16c550_baseclock u div pc16c550_oversampling) div ucast divisor), u) }"

definition pc16c550_set_break ::
  "'b reg_read \<Rightarrow> 'b reg_write \<Rightarrow> bool \<Rightarrow> 'b rtuart_pc16c550 \<Rightarrow> 'b rtuart_pc16c550 option" where
  "pc16c550_set_break rd wr on u = do {
     (lcr, u) \<leftarrow> pc16c550_get_lcr rd u;
     pc16c550_set_lcr wr (if on then lcr OR 0x40 else lcr AND NOT 0x40) u }"

definition pc16c550_get_break :: "'b reg_read \<Rightarrow> 'b rtuart_pc16c550 \<Rightarrow> (bool \<times> 'b rtuart_pc16c550) option" where
  "pc16c550_get_break rd u = do {
     (lcr, u) \<leftarrow> pc16c550_get_lcr rd u;
     Some (lcr AND 0x40 \<noteq> 0, u) }"

definition pc16c550_get_line_status :: "'b reg_read \<Rightarrow> 'b rtuart_pc16c550 \<Rightarrow> (u32 \<times> 'b rtuart_pc16c550) option" where
  "pc16c550_get_line_status rd u = do { (lsr, u) \<leftarrow> pc16c550_get_lsr rd u; Some (ucast lsr, u) }"

definition pc16c550_set_modem_lines ::
  "'b reg_read \<Rightarrow> 'b reg_write \<Rightarrow> u32 \<Rightarrow> u32 \<Rightarrow> 'b rtuart_pc16c550 \<Rightarrow> 'b rtuart_pc16c550 option" where
  "pc16c550_set_modem_lines rd wr msk line u = do {
     (mcr, u) \<leftarrow> pc16c550_get_mcr rd u;
     let mcr = mcr AND ucast (NOT msk);
     let mcr = mcr OR ucast (msk AND line);
     pc16c550_set_mcr wr mcr u }"

section \<open>FIFO control\<close>

definition pc16c550_get_fcr :: "'b rtuart_pc16c550 \<Rightarrow> u8" where
  "pc16c550_get_fcr u = u_fcr_shadow u"

definition pc16c550_rmw_fcr :: "'b reg_write \<Rightarrow> u8 \<Rightarrow> u8 \<Rightarrow> 'b rtuart_pc16c550 \<Rightarrow> 'b rtuart_pc16c550 option" where
  "pc16c550_rmw_fcr wr msk val u = (
     let u = u\<lparr>u_fcr_shadow := u_fcr_shadow u AND NOT msk\<rparr>;
         u = u\<lparr>u_fcr_shadow := u_fcr_shadow u OR (msk AND val AND NOT 6)\<rparr>
     in pc16c550_set_fcr wr (u_fcr_shadow u OR (msk AND val)) u)"

definition pc16c550_set_fifo_enable :: "'b reg_write \<Rightarrow> bool \<Rightarrow> 'b rtuart_pc16c550 \<Rightarrow> 'b rtuart_pc16c550 option" where
  "pc16c550_set_fifo_enable wr on u = pc16c550_rmw_fcr wr 7 (if on then 7 else 0) u"

definition pc16c550_get_fifo_enable :: "'b rtuart_pc16c550 \<Rightarrow> bool" where
  "pc16c550_get_fifo_enable u \<longleftrightarrow> u_fcr_shadow u AND 1 \<noteq> 0"

definition pc16c550_flush_fifo ::
  "'b reg_write \<Rightarrow> bool \<Rightarrow> bool \<Rightarrow> 'b rtuart_pc16c550 \<Rightarrow> 'b rtuart_pc16c550 option" where
  "pc16c550_flush_fifo wr flush_tx flush_rx u =
     pc16c550_rmw_fcr wr 6 ((if flush_tx then 4 else 0) OR (if flush_rx then 2 else 0)) u"

definition pc16c550_set_rxfifo_trigger_level ::
  "'b reg_write \<Rightarrow> int \<Rightarrow> 'b rtuart_pc16c550 \<Rightarrow> (int \<times> 'b rtuart_pc16c550) option" where
  "pc16c550_set_rxfifo_trigger_level wr level u = (
     if level = 14 then do { u \<leftarrow> pc16c550_rmw_fcr wr 0xC0 (push_bit 6 3) u; Some (0, u) }
     else if level = 8 then do { u \<leftarrow> pc16c550_rmw_fcr wr 0xC0 (push_bit 6 2) u; Some (0, u) }
     else if level = 4 then do { u \<leftarrow> pc16c550_rmw_fcr wr 0xC0 (push_bit 6 1) u; Some (0, u) }
     else if level = 1 then do { u \<leftarrow> pc16c550_rmw_fcr wr 0xC0 (push_bit 6 0) u; Some (0, u) }
     else Some (-1, u))"

definition pc16c550_get_rxfifo_trigger_level :: "'b rtuart_pc16c550 \<Rightarrow> int option" where
  "pc16c550_get_rxfifo_trigger_level u = arr_get [1, 4, 8, 14] (unat (pc16c550_get_fcr u))"

definition pc16c550_set_txfifo_trigger_level :: "int \<Rightarrow> int" where
  "pc16c550_set_txfifo_trigger_level level = -1"

definition pc16c550_get_tx_fifo_size :: "'b rtuart_pc16c550 \<Rightarrow> int" where
  "pc16c550_get_tx_fifo_size u = (if pc16c550_get_fifo_enable u then 16 else 1)"

definition pc16c550_get_rx_fifo_size :: "'b rtuart_pc16c550 \<Rightarrow> int" where
  "pc16c550_get_rx_fifo_size u = pc16c550_get_tx_fifo_size u"

definition pc16c550_get_tx_fifo_free :: int where "pc16c550_get_tx_fifo_free = -1"
definition pc16c550_get_rx_fifo_level :: int where "pc16c550_get_rx_fifo_level = -1"

fun pc16c550_write_chars :: "'b reg_write \<Rightarrow> u8 list \<Rightarrow> 'b rtuart_pc16c550 \<Rightarrow> 'b rtuart_pc16c550 option" where
  "pc16c550_write_chars wr [] u = Some u"
| "pc16c550_write_chars wr (c # cs) u = do { u \<leftarrow> pc16c550_set_thr wr c u; pc16c550_write_chars wr cs u }"

fun pc16c550_read_chars :: "'b reg_read \<Rightarrow> nat \<Rightarrow> 'b rtuart_pc16c550 \<Rightarrow> (u8 list \<times> 'b rtuart_pc16c550) option" where
  "pc16c550_read_chars rd 0 u = Some ([], u)"
| "pc16c550_read_chars rd (Suc n) u = do {
     (c, u) \<leftarrow> pc16c550_get_rbr rd u;
     (cs, u) \<leftarrow> pc16c550_read_chars rd n u;
     Some (c # cs, u) }"

section \<open>Notifications\<close>

text \<open>The interrupt enable bits that a notification mask stands for.\<close>

definition ier_of :: "u32 \<Rightarrow> u8" where
  "ier_of n =
     (if n AND UART_NOTIFY_RXAVAILABLE \<noteq> 0 then 1 else 0) OR
     (if n AND UART_NOTIFY_TXREADY \<noteq> 0 then 2 else 0) OR
     (if n AND UART_NOTIFY_LINEEVENT \<noteq> 0 then 4 else 0) OR
     (if n AND UART_NOTIFY_INPUTCHANGED \<noteq> 0 then 8 else 0)"

definition pc16c550_uart_update_notification ::
  "'b reg_write \<Rightarrow> 'b rtuart_pc16c550 \<Rightarrow> 'b rtuart_pc16c550 option" where
  "pc16c550_uart_update_notification wr u = pc16c550_set_ier wr (ier_of (u_notify_mask u)) u"

definition pc16c550_uart_enable_notification ::
  "'b reg_write \<Rightarrow> u32 \<Rightarrow> 'b rtuart_pc16c550 \<Rightarrow> 'b rtuart_pc16c550 option" where
  "pc16c550_uart_enable_notification wr n u = (
     if u_notify_mask u AND n \<noteq> n
     then pc16c550_uart_update_notification wr (u\<lparr>u_notify_mask := u_notify_mask u OR n\<rparr>)
     else Some u)"

definition pc16c550_uart_disable_notification ::
  "'b reg_write \<Rightarrow> u32 \<Rightarrow> 'b rtuart_pc16c550 \<Rightarrow> 'b rtuart_pc16c550 option" where
  "pc16c550_uart_disable_notification wr n u = (
     if u_notify_mask u AND n \<noteq> n
     then pc16c550_uart_update_notification wr (u\<lparr>u_notify_mask := u_notify_mask u AND NOT n\<rparr>)
     else Some u)"

section \<open>The interrupt handler\<close>

type_synonym ('b, 'c) ust = "'b rtuart_pc16c550 \<times> 'c"

partial_function (option) wait_transmitter_empty ::
  "'b reg_read \<Rightarrow> 'b rtuart_pc16c550 \<Rightarrow> 'b rtuart_pc16c550 option" where
  "wait_transmitter_empty rd u = do {
     (lsr, u) \<leftarrow> pc16c550_get_lsr rd u;
     if lsr AND PC16550_LSR_TRANSMITTER_EMPTY = 0 then wait_transmitter_empty rd u else Some u }"

definition lsr_line_event :: "('b, 'c) ust rtuart_client_callbacks \<Rightarrow> u8 \<Rightarrow> ('b, 'c) ust \<Rightarrow> ('b, 'c) ust option" where
  "lsr_line_event cb lsr s = (let ev = uart16550_lsr_to_event lsr in
     if ev \<noteq> 0 then (case cb_line_status_event cb of None \<Rightarrow> Some s | Some f \<Rightarrow> f ev s) else Some s)"

definition lsr_transmitter ::
  "'b reg_read \<Rightarrow> ('b, 'c) ust rtuart_client_callbacks \<Rightarrow> u8 \<Rightarrow> ('b, 'c) ust \<Rightarrow> ('b, 'c) ust option" where
  "lsr_transmitter rd cb lsr = (\<lambda>(u, c).
     if lsr AND PC16550_LSR_THRE \<noteq> 0 \<and> u_notify_mask u AND UART_NOTIFY_TXEMPTY \<noteq> 0
     then (let u = u\<lparr>u_notify_mask := u_notify_mask u AND NOT UART_NOTIFY_TXEMPTY\<rparr> in
       case cb_transmitter_empty cb of
         None \<Rightarrow> Some (u, c)
       | Some f \<Rightarrow>
           if lsr AND PC16550_LSR_TRANSMITTER_EMPTY \<noteq> 0 then f (u, c)
           else do { u \<leftarrow> wait_transmitter_empty rd u; f (u, c) })
     else Some (u, c))"

definition uart16550_handle_lsr ::
  "'b reg_read \<Rightarrow> ('b, 'c) ust rtuart_client_callbacks \<Rightarrow> ('b, 'c) ust \<Rightarrow> ('b, 'c) ust option" where
  "uart16550_handle_lsr rd cb = (\<lambda>(u, c). do {
     (lsr, u) \<leftarrow> pc16c550_get_lsr rd u;
     u \<leftarrow> (if lsr AND PC16550_LSR_BREAK_INTERRUPT \<noteq> 0
          then do { (_, u) \<leftarrow> pc16c550_get_rbr rd u; Some u } else Some u);
     s \<leftarrow> lsr_line_event cb lsr (u, c);
     lsr_transmitter rd cb lsr s })"

definition uart16550_rxempty_task_handler ::
  "'b reg_read \<Rightarrow> ('b, 'c) ust rtuart_client_callbacks \<Rightarrow> ('b, 'c) ust \<Rightarrow> ('b, 'c) ust option" where
  "uart16550_rxempty_task_handler rd cb s =
     (if u_notify_mask (fst s) AND UART_NOTIFY_TXEMPTY \<noteq> 0 then uart16550_handle_lsr rd cb s else Some s)"

definition flush_rx :: "'b reg_write \<Rightarrow> ('b, 'c) ust \<Rightarrow> ('b, 'c) ust option" where
  "flush_rx wr = (\<lambda>(u, c). do { u \<leftarrow> pc16c550_flush_fifo wr False True u; Some (u, c) })"

definition irq_modem_status ::
  "'b reg_read \<Rightarrow> ('b, 'c) ust rtuart_client_callbacks \<Rightarrow> ('b, 'c) ust \<Rightarrow> ('b, 'c) ust option" where
  "irq_modem_status rd cb = (\<lambda>(u, c). do {
     (msr, u) \<leftarrow> pc16c550_get_msr rd u;
     case cb_modem_input_changed cb of
       None \<Rightarrow> Some (u, c)
     | Some f \<Rightarrow> f (ucast (drop_bit 4 msr AND 15)) (ucast (msr AND 15)) (u, c) })"

definition irq_thr_empty :: "('b, 'c) ust rtuart_client_callbacks \<Rightarrow> ('b, 'c) ust \<Rightarrow> ('b, 'c) ust option" where
  "irq_thr_empty cb = (\<lambda>(u, c).
     if u_notify_mask u AND UART_NOTIFY_TXREADY \<noteq> 0
     then (let u = u\<lparr>u_notify_mask := u_notify_mask u AND NOT UART_NOTIFY_TXREADY\<rparr> in
       case cb_transmitter_has_space cb of
         None \<Rightarrow> Some (u, c)
       | Some f \<Rightarrow> f (pc16c550_get_tx_fifo_size u) (u, c))
     else Some (u, c))"

definition irq_rx_data ::
  "'b reg_write \<Rightarrow> ('b, 'c) ust rtuart_client_callbacks \<Rightarrow> int \<Rightarrow> ('b, 'c) ust \<Rightarrow> ('b, 'c) ust option" where
  "irq_rx_data wr cb level = (\<lambda>(u, c).
     if u_notify_mask u AND UART_NOTIFY_RXAVAILABLE \<noteq> 0
     then (let u = u\<lparr>u_notify_mask := u_notify_mask u AND NOT UART_NOTIFY_RXAVAILABLE\<rparr> in
       case cb_receiver_data_available cb of
         None \<Rightarrow> flush_rx wr (u, c)
       | Some f \<Rightarrow> f level (u, c))
     else flush_rx wr (u, c))"

definition irq_leave :: "'b reg_write \<Rightarrow> int \<Rightarrow> ('b, 'c) ust \<Rightarrow> (int option \<times> ('b, 'c) ust) option" where
  "irq_leave wr r = (\<lambda>(u, c). do { u \<leftarrow> pc16c550_uart_update_notification wr u; Some (Some r, (u, c)) })"

definition irq_again :: "('b, 'c) ust option \<Rightarrow> (int option \<times> ('b, 'c) ust) option" where
  "irq_again m = do { s \<leftarrow> m; Some (None, s) }"

text \<open>One iteration of the handler's loop for the interrupt identification \<open>iir\<close>: the result to
  leave the loop with, if any.\<close>

definition irq_case ::
  "'b reg_read \<Rightarrow> 'b reg_write \<Rightarrow> ('b, 'c) ust rtuart_client_callbacks \<Rightarrow> u8 \<Rightarrow> ('b, 'c) ust \<Rightarrow>
    (int option \<times> ('b, 'c) ust) option" where
  "irq_case rd wr cb iir s = (let i = iir AND 0xf in
     if i = 1 then do { s \<leftarrow> uart16550_handle_lsr rd cb s; irq_leave wr 0 s }
     else if i = 0 then irq_again (irq_modem_status rd cb s)
     else if i = 2 then irq_again (irq_thr_empty cb s)
     else if i = 4 then irq_again (irq_rx_data wr cb 8 s)
     else if i = 0xC then irq_again (irq_rx_data wr cb (-1) s)
     else if i = 6 then irq_again (uart16550_handle_lsr rd cb s)
     else irq_leave wr (-1) s)"

partial_function (option) pc16c550_handle_irq ::
  "'b reg_read \<Rightarrow> 'b reg_write \<Rightarrow> ('b, 'c) ust rtuart_client_callbacks \<Rightarrow> ('b, 'c) ust \<Rightarrow> (int \<times> ('b, 'c) ust) option" where
  "pc16c550_handle_irq rd wr cb s = do {
     (iir, u) \<leftarrow> pc16c550_get_iir rd (fst s);
     (r, s) \<leftarrow> irq_case rd wr cb iir (u, snd s);
     (case r of None \<Rightarrow> pc16c550_handle_irq rd wr cb s | Some r \<Rightarrow> Some (r, s)) }"

definition pc16c550_periodic_check ::
  "'b reg_read \<Rightarrow> ('b, 'c) ust rtuart_client_callbacks \<Rightarrow> ('b, 'c) ust \<Rightarrow> ('b, 'c) ust option" where
  "pc16c550_periodic_check rd cb s = uart16550_rxempty_task_handler rd cb s"

section \<open>Creation\<close>

text \<open>The allocated memory is not cleared: the notification mask is what it held.\<close>

definition pc16c550_create :: "u32 \<Rightarrow> u64 \<Rightarrow> 'b \<Rightarrow> 'b rtuart_pc16c550" where
  "pc16c550_create memory base_clock bus = \<lparr>u_bus = bus, u_notify_mask = memory, u_address_offset = 0,
     u_irqno = 0, u_fcr_shadow = 0, u_base_clock = ucast base_clock\<rparr>"

definition pc16c550_create_at :: "u32 \<Rightarrow> u64 \<Rightarrow> u64 \<Rightarrow> int \<Rightarrow> 'b \<Rightarrow> 'b rtuart_pc16c550" where
  "pc16c550_create_at memory base_clock address_offset irqno bus =
     (pc16c550_create memory base_clock bus)\<lparr>u_address_offset := ucast address_offset, u_irqno := irqno\<rparr>"

section \<open>Configuration on a register file\<close>

lemma reg_at_zero [simp]:
  "u_address_offset u = 0 \<Longrightarrow> reg_at u PC16550_REG_LCR = PC16550_REG_LCR"
  "u_address_offset u = 0 \<Longrightarrow> reg_at u PC16550_REG_DLL = PC16550_REG_DLL"
  "u_address_offset u = 0 \<Longrightarrow> reg_at u PC16550_REG_DLM = PC16550_REG_DLM"
  "u_address_offset u = 0 \<Longrightarrow> reg_at u PC16550_REG_IER = PC16550_REG_IER"
  "u_address_offset u = 0 \<Longrightarrow> reg_at u PC16550_REG_IIR = PC16550_REG_IIR"
  by (simp_all add: reg_at_def pc16550_reg_defs)

lemma or_dlab_bit: "bit (w OR PC16550_LCR_DLAB) 7"
  by (simp add: PC16550_LCR_DLAB_def bit_or_iff)

definition format_octet :: "int \<Rightarrow> char \<Rightarrow> int \<Rightarrow> u8" where
  "format_octet databits parity stopbits = word_of_int (databits - 5) OR (if stopbits > 10 then 4 else 0) OR
     push_bit 3 (if parity = CHR ''e'' then 3 else if parity = CHR ''o'' then 1 else 0)"

definition format_of :: "u8 \<Rightarrow> int \<times> char \<times> int" where
  "format_of lcr = (uint (lcr AND 3) + 5,
     if lcr AND 8 \<noteq> 0 then (if lcr AND 0x10 \<noteq> 0 then CHR ''e'' else CHR ''o'') else CHR ''n'',
     if lcr AND 4 \<noteq> 0 then 20 else 10)"

lemma and_low_or: "m AND NOT 0x3F = 0 \<Longrightarrow> (w AND NOT 0x3F OR c) AND m = c AND (m :: u8)"
proof -
  have "(w AND NOT 0x3F) AND m = w AND (m AND NOT 0x3F)" by (simp only: ac_simps)
  then show "m AND NOT 0x3F = 0 \<Longrightarrow> ?thesis" by (simp only: bit.conj_disj_distrib2) simp
qed

lemma format_of_low: "format_of (w AND NOT 0x3F OR c) = format_of c"
proof -
  have "(w AND NOT 0x3F OR c) AND m = c AND m" if "m \<in> {3, 4, 8, 0x10}" for m
    by (rule and_low_or) (use that in auto)
  then have "(w AND NOT 0x3F OR c) AND 3 = c AND 3" "(w AND NOT 0x3F OR c) AND 4 = c AND 4"
      "(w AND NOT 0x3F OR c) AND 8 = c AND 8" "(w AND NOT 0x3F OR c) AND 0x10 = c AND 0x10"
    by blast+
  then show ?thesis unfolding format_of_def by (simp only:)
qed

lemma format_of_octet:
  assumes "databits \<in> {5, 6, 7, 8}" and "parity \<in> {CHR ''n'', CHR ''e'', CHR ''o''}" and "stopbits \<in> {10, 20}"
  shows "format_of (format_octet databits parity stopbits) = (databits, parity, stopbits)"
  using assms by (elim insertE emptyE; simp add: format_of_def format_octet_def push_bit_eq_mult)

context uart_registers
begin

definition c_ok :: "'b rtuart_pc16c550 \<Rightarrow> bool" where
  "c_ok u \<longleftrightarrow> ok (u_bus u) \<and> u_address_offset u = 0"

abbreviation cview :: "'b rtuart_pc16c550 \<Rightarrow> uart_view" where
  "cview u \<equiv> view (u_bus u)"

lemma c_reads:
  "c_ok u \<Longrightarrow> pc16c550_get_lcr rd u = Some (v_lcr (cview u), u)"
  "c_ok u \<Longrightarrow> bit (v_lcr (cview u)) 7 \<Longrightarrow> pc16c550_get_dll rd u = Some (v_dll (cview u), u)"
  "c_ok u \<Longrightarrow> bit (v_lcr (cview u)) 7 \<Longrightarrow> pc16c550_get_dlm rd u = Some (v_dlm (cview u), u)"
  by (simp_all add: c_ok_def rtuart_read_u8_def rd_lcr rd_dll rd_dlm)

lemma c_set_lcr:
  assumes "c_ok u"
  obtains u' where "pc16c550_set_lcr wr v u = Some u'" "c_ok u'" "cview u' = (cview u)\<lparr>v_lcr := v\<rparr>"
    "u' = u\<lparr>u_bus := u_bus u'\<rparr>"
  using wr_lcr [of "u_bus u" v] assms by (auto simp: rtuart_write_u8_def c_ok_def)

lemma c_set_dll:
  assumes "c_ok u" and "bit (v_lcr (cview u)) 7"
  obtains u' where "pc16c550_set_dll wr v u = Some u'" "c_ok u'" "cview u' = (cview u)\<lparr>v_dll := v\<rparr>"
    "u' = u\<lparr>u_bus := u_bus u'\<rparr>"
  using wr_dll [of "u_bus u" v] assms by (auto simp: rtuart_write_u8_def c_ok_def)

lemma c_set_format:
  assumes "c_ok u" and "databits \<in> {5, 6, 7, 8}" and "parity \<in> {CHR ''n'', CHR ''e'', CHR ''o''}"
    and "stopbits \<in> {10, 20}"
  shows "\<exists>u'. pc16c550_set_format rd wr databits parity stopbits u = Some u' \<and>
     pc16c550_get_format rd u' = Some ((databits, parity, stopbits), u')"
proof -
  let ?v = "v_lcr (cview u) AND NOT 0x3F OR format_octet databits parity stopbits"
  obtain u' where u': "pc16c550_set_lcr wr ?v u = Some u'" "c_ok u'" "cview u' = (cview u)\<lparr>v_lcr := ?v\<rparr>"
    by (rule c_set_lcr [OF assms(1)])
  have "pc16c550_set_format rd wr databits parity stopbits u = Some u'"
    using u'(1) by (simp add: pc16c550_set_format_def c_reads assms(1) format_octet_def Let_def or.assoc)
  moreover have "pc16c550_get_format rd u' = Some (format_of (v_lcr (cview u')), u')"
    by (simp add: pc16c550_get_format_def c_reads u'(2) format_of_def)
  moreover have "format_of (v_lcr (cview u')) = (databits, parity, stopbits)"
  proof -
    have "v_lcr (cview u') = ?v" by (simp add: u'(3))
    then show ?thesis by (simp only: format_of_low format_of_octet [OF assms(2-4)])
  qed
  ultimately show ?thesis by simp
qed

lemma c_set_divisor:
  assumes "c_ok u"
  obtains u' where "pc16c550_set_baudrate_divisor rd wr d u = Some u'" "c_ok u'"
    "cview u' = (cview u)\<lparr>v_dll := ucast d\<rparr>" "u' = u\<lparr>u_bus := u_bus u'\<rparr>"
proof -
  let ?l = "v_lcr (cview u)"
  obtain u1 where u1: "pc16c550_set_lcr wr (?l OR PC16550_LCR_DLAB) u = Some u1" "c_ok u1"
      "cview u1 = (cview u)\<lparr>v_lcr := ?l OR PC16550_LCR_DLAB\<rparr>" "u1 = u\<lparr>u_bus := u_bus u1\<rparr>"
    by (rule c_set_lcr [OF assms])
  obtain u2 where u2: "pc16c550_set_dll wr (ucast d) u1 = Some u2" "c_ok u2"
      "cview u2 = (cview u1)\<lparr>v_dll := ucast d\<rparr>" "u2 = u1\<lparr>u_bus := u_bus u2\<rparr>"
    by (rule c_set_dll [OF u1(2)]) (simp_all add: u1(3) or_dlab_bit)
  obtain u3 where u3: "pc16c550_set_lcr wr (ucast (drop_bit 8 d)) u2 = Some u3" "c_ok u3"
      "cview u3 = (cview u2)\<lparr>v_lcr := ucast (drop_bit 8 d)\<rparr>" "u3 = u2\<lparr>u_bus := u_bus u3\<rparr>"
    by (rule c_set_lcr [OF u2(2)])
  obtain u4 where u4: "pc16c550_set_lcr wr ?l u3 = Some u4" "c_ok u4"
      "cview u4 = (cview u3)\<lparr>v_lcr := ?l\<rparr>" "u4 = u3\<lparr>u_bus := u_bus u4\<rparr>"
    by (rule c_set_lcr [OF u3(2)])
  have "pc16c550_set_baudrate_divisor rd wr d u = Some u4"
    by (simp add: pc16c550_set_baudrate_divisor_def c_reads(1) assms u1(1) u2(1) u3(1) u4(1))
  moreover have "cview u4 = (cview u)\<lparr>v_dll := ucast d\<rparr>" by (simp add: u4(3) u3(3) u2(3) u1(3))
  moreover have "u4 = u\<lparr>u_bus := u_bus u4\<rparr>"
    by (subst u4(4), subst u3(4), subst u2(4), subst u1(4)) simp
  ultimately show thesis using that u4(2) by blast
qed

lemma c_get_divisor:
  assumes "c_ok u"
  obtains u' where "pc16c550_get_baudrate_divisor rd wr u =
      Some (ucast (v_dll (cview u)) OR push_bit 8 (ucast (v_dlm (cview u))), u')" "c_ok u'" "cview u' = cview u"
    "u' = u\<lparr>u_bus := u_bus u'\<rparr>"
proof -
  let ?l = "v_lcr (cview u)"
  obtain u1 where u1: "pc16c550_set_lcr wr (?l OR PC16550_LCR_DLAB) u = Some u1" "c_ok u1"
      "cview u1 = (cview u)\<lparr>v_lcr := ?l OR PC16550_LCR_DLAB\<rparr>" "u1 = u\<lparr>u_bus := u_bus u1\<rparr>"
    by (rule c_set_lcr [OF assms])
  obtain u2 where u2: "pc16c550_set_lcr wr ?l u1 = Some u2" "c_ok u2"
      "cview u2 = (cview u1)\<lparr>v_lcr := ?l\<rparr>" "u2 = u1\<lparr>u_bus := u_bus u2\<rparr>"
    by (rule c_set_lcr [OF u1(2)])
  have "pc16c550_get_baudrate_divisor rd wr u =
      Some (ucast (v_dll (cview u)) OR push_bit 8 (ucast (v_dlm (cview u))), u2)"
    by (simp add: pc16c550_get_baudrate_divisor_def c_reads assms u1(1,2,3) or_dlab_bit u2(1))
  moreover have "cview u2 = cview u" by (simp add: u2(3) u1(3))
  moreover have "u2 = u\<lparr>u_bus := u_bus u2\<rparr>" by (subst u2(4), subst u1(4)) simp
  ultimately show thesis using that u2(2) by blast
qed

lemma c_divisor_low_octet:
  assumes "c_ok u"
  shows "\<exists>u' u''. pc16c550_set_baudrate_divisor rd wr d u = Some u' \<and>
     pc16c550_get_baudrate_divisor rd wr u' =
       Some (ucast (ucast d :: u8) OR push_bit 8 (ucast (v_dlm (cview u))), u'')"
proof -
  obtain u' where u': "pc16c550_set_baudrate_divisor rd wr d u = Some u'" "c_ok u'"
      "cview u' = (cview u)\<lparr>v_dll := ucast d\<rparr>"
    by (rule c_set_divisor [OF assms])
  obtain u'' where "pc16c550_get_baudrate_divisor rd wr u' =
      Some (ucast (v_dll (cview u')) OR push_bit 8 (ucast (v_dlm (cview u'))), u'')"
    by (rule c_get_divisor [OF u'(2)])
  then show ?thesis using u' by simp
qed

end

lemma unat_small_octet: "unat (d :: u32) < 256 \<Longrightarrow> ucast (ucast d :: u8) = d"
  by (rule word_unat_eq_iff [THEN iffD2]) (simp add: unsigned_ucast_eq unsigned_take_bit_eq take_bit_nat_eq_self)

lemma unat_ucast_u32_u64 [simp]: "unat (ucast (w :: u32) :: u64) = unat w"
  by (simp add: unsigned_ucast_eq take_bit_nat_eq_self less_trans [OF unsigned_less])

lemma baud_divisor:
  assumes "unat clk div 16 = unat (baud :: u32) * k" and "0 < k" and "k < 256" and "baud \<noteq> 0"
  defines "q \<equiv> (ucast (clk :: u32) :: u64) div pc16c550_oversampling"
  defines "d \<equiv> ucast (q div ucast baud) :: u32"
  shows "unat d = k" and "ucast (q div ucast d) = baud"
proof -
  have b: "unat baud > 0" using assms(4) by (simp add: unat_gt_0)
  have q: "unat q = unat baud * k"
    using assms(1) by (simp add: q_def pc16c550_oversampling_def unat_div_distrib)
  have "unat (q div ucast baud) = k" using b by (simp add: unat_div_distrib q)
  then show d: "unat d = k" using assms(3) by (simp add: d_def unsigned_ucast_eq take_bit_nat_eq_self)
  have "unat (q div ucast d) = unat baud" using assms(2) by (simp add: unat_div_distrib q d)
  moreover have "unat baud < 2 ^ 32" using unsigned_less [of baud] by simp
  ultimately show "ucast (q div ucast d) = baud"
    by (intro word_unat_eq_iff [THEN iffD2]) (simp add: unsigned_ucast_eq take_bit_nat_eq_self)
qed

context uart_registers
begin

lemma c_baudrate_roundtrip:
  assumes "c_ok u" and "v_dlm (cview u) = 0" and "baud \<noteq> 0"
    and "unat (u_base_clock u) div 16 = unat baud * k" and "0 < k" and "k < 256"
  shows "\<exists>u' u''. pc16c550_set_baudrate rd wr baud u = Some (0, u') \<and>
     pc16c550_get_baudrate rd wr u' = Some (baud, u'')"
proof -
  let ?q = "(ucast (u_base_clock u) :: u64) div pc16c550_oversampling"
  let ?d = "ucast (?q div ucast baud) :: u32"
  have d: "unat ?d = k" "ucast (?q div ucast ?d) = baud"
    using baud_divisor [OF assms(4-6,3)] by simp_all
  have d0: "?d \<noteq> 0" using d(1) assms(5) by auto
  obtain u' where u': "pc16c550_set_baudrate_divisor rd wr ?d u = Some u'" "c_ok u'"
      "cview u' = (cview u)\<lparr>v_dll := ucast ?d\<rparr>" "u' = u\<lparr>u_bus := u_bus u'\<rparr>"
    by (rule c_set_divisor [OF assms(1)])
  obtain u'' where u'': "pc16c550_get_baudrate_divisor rd wr u' =
      Some (ucast (v_dll (cview u')) OR push_bit 8 (ucast (v_dlm (cview u'))), u'')" "u'' = u'\<lparr>u_bus := u_bus u''\<rparr>"
    by (rule c_get_divisor [OF u'(2)])
  have "pc16c550_get_baudrate_divisor rd wr u' = Some (?d, u'')"
    using u''(1) assms(2,6) d(1) by (simp add: u'(3) unat_small_octet)
  moreover have "u_base_clock u'' = u_base_clock u" by (subst u''(2), subst u'(4)) simp
  ultimately have "pc16c550_get_baudrate rd wr u' = Some (baud, u'')"
    using d0 d(2) by (simp add: pc16c550_get_baudrate_def pc16c550_baseclock_def)
  moreover have "pc16c550_set_baudrate rd wr baud u = Some (0, u')"
    using u'(1) assms(3) by (simp add: pc16c550_set_baudrate_def pc16c550_baseclock_def)
  ultimately show ?thesis by blast
qed

end

section \<open>The interrupt handler leaves the interrupts enabled that were asked for\<close>

lemma update_notification_mask:
  "pc16c550_uart_update_notification wr u = Some u' \<Longrightarrow>
    u_notify_mask u' = u_notify_mask u \<and> reg_at u' = reg_at u \<and>
    wr (reg_at u PC16550_REG_IER) (ier_of (u_notify_mask u)) (u_bus u) = Some (u_bus u')"
  by (auto simp: pc16c550_uart_update_notification_def rtuart_write_u8_def bind_eq_Some reg_at_def)

lemma irq_case_leaves:
  assumes "irq_case rd wr cb iir s = Some (Some r, s')"
  shows "r \<in> {0, -1} \<and> (\<exists>u0. pc16c550_uart_update_notification wr u0 = Some (fst s'))"
  using assms
  by (auto simp: irq_case_def irq_leave_def irq_again_def Let_def bind_eq_Some split: if_splits prod.splits)

lemma handle_irq_leaves:
  fixes wr :: "'b reg_write" and s :: "('b, 'c) ust"
  assumes "pc16c550_handle_irq rd wr cb s = Some (r, s')"
  shows "r \<in> {0, -1} \<and> (\<exists>u0. pc16c550_uart_update_notification wr u0 = Some (fst s'))"
proof -
  define P where "P wr (s :: ('b, 'c) ust) x \<longleftrightarrow> fst x \<in> {0 :: int, -1} \<and>
     (\<exists>u0. pc16c550_uart_update_notification wr u0 = Some (fst (snd x :: ('b, 'c) ust)))" for wr :: "'b reg_write" and s x
  have "P wr s (r, s')"
    using assms
  proof (rule pc16c550_handle_irq.raw_induct [of "\<lambda>rd wr cb s x. P wr s x", rotated])
    fix f :: "'b reg_read \<Rightarrow> 'b reg_write \<Rightarrow> ('b, 'c) ust rtuart_client_callbacks \<Rightarrow> ('b, 'c) ust \<Rightarrow> (int \<times> ('b, 'c) ust) option"
      and rd wr cb s and x :: "int \<times> ('b, 'c) ust"
    assume IH: "\<And>rd wr cb s x. f rd wr cb s = Some x \<Longrightarrow> P wr s x"
      and st: "do { (iir, u) \<leftarrow> pc16c550_get_iir rd (fst s); (r, s) \<leftarrow> irq_case rd wr cb iir (u, snd s);
         (case r of None \<Rightarrow> f rd wr cb s | Some r \<Rightarrow> Some (r, s)) } = Some x"
    then obtain iir u r s1 where *: "irq_case rd wr cb iir (u, snd s) = Some (r, s1)"
        "(case r of None \<Rightarrow> f rd wr cb s1 | Some r \<Rightarrow> Some (r, s1)) = Some x"
      by (auto simp: bind_eq_Some)
    show "P wr s x"
    proof (cases r)
      case None
      then show ?thesis using IH * unfolding P_def by simp
    next
      case (Some r')
      then show ?thesis using irq_case_leaves [of rd wr cb iir _ r' s1] * unfolding P_def by auto
    qed
  qed
  then show ?thesis by (simp add: P_def)
qed

section \<open>Events, notifications and FIFO levels\<close>

lemma lsr_to_event_table: "uart16550_lsr_to_event lsr = ucast (drop_bit 1 lsr AND 15)"
proof -
  have t: "lsr AND 2 = 0 \<longleftrightarrow> \<not> bit lsr 1" "lsr AND 4 = 0 \<longleftrightarrow> \<not> bit lsr 2" "lsr AND 8 = 0 \<longleftrightarrow> \<not> bit lsr 3"
      "lsr AND 0x10 = 0 \<longleftrightarrow> \<not> bit lsr 4"
    using test_bit_mask [of 2 1 lsr] test_bit_mask [of 4 2 lsr] test_bit_mask [of 8 3 lsr] test_bit_mask [of "0x10" 4 lsr]
    by simp_all
  have m: "bit (15 :: u8) i \<longleftrightarrow> i < 4" for i
    using bit_mask_iff [where 'a = u8, of 4 i] by (auto simp: mask_eq_exp_minus_1)
  have b: "bit (1 :: u32) i \<longleftrightarrow> i = 0" "bit (2 :: u32) i \<longleftrightarrow> i = 1" "bit (4 :: u32) i \<longleftrightarrow> i = 2" "bit (8 :: u32) i \<longleftrightarrow> i = 3" for i
    using notify_bits [of i] by (simp_all add: rtuart_const_defs)
  show ?thesis
    unfolding uart16550_lsr_to_event_def pc16550_lsr_defs rtuart_const_defs t
  proof (rule bit_eqI)
    fix i
    have c: "bit (if P then (x :: u32) else 0) i \<longleftrightarrow> P \<and> bit x i" for P x by simp
    have "bit (ucast (drop_bit 1 lsr AND 15) :: u32) i \<longleftrightarrow> i < 4 \<and> bit lsr (Suc i)"
      by (auto simp only: bit_unsigned_iff bit_and_iff m bit_drop_bit_eq o_def)
         (auto dest: bit_imp_le_length)
    moreover have "i < 4 \<longleftrightarrow> i = 0 \<or> i = 1 \<or> i = 2 \<or> i = 3" by auto
    ultimately show "bit ((if \<not> \<not> bit lsr 1 then 1 else 0) OR (if \<not> \<not> bit lsr 2 then 2 else 0) OR
        (if \<not> \<not> bit lsr 3 then 4 else 0) OR (if \<not> \<not> bit lsr 4 then 8 else 0) :: u32) i \<longleftrightarrow>
        bit (ucast (drop_bit 1 lsr AND 15) :: u32) i"
      by (simp only: bit_or_iff c b) (auto simp: numeral_eq_Suc)
  qed
qed

lemma enable_disable_masks:
  assumes "pc16c550_uart_enable_notification wr n u = Some u1" and "pc16c550_uart_disable_notification wr n u = Some u2"
  shows "u_notify_mask u1 = notify_enable (u_notify_mask u) n" "u_notify_mask u2 = notify_disable (u_notify_mask u) n"
  using assms by (auto simp: pc16c550_uart_enable_notification_def pc16c550_uart_disable_notification_def
      notify_enable_def notify_disable_def dest: update_notification_mask split: if_splits)

lemma disable_single:
  assumes "k < 32"
  shows "notify_disable msk (2 ^ k) = msk"
proof (cases "bit msk k")
  have e: "bit (2 ^ k :: u32) j \<longleftrightarrow> j = k" for j using assms by (auto simp: bit_exp_iff)
  case True
  then have "msk AND 2 ^ k = 2 ^ k" using e by (intro bit_eqI) (auto simp only: bit_and_iff)
  then show ?thesis by (simp add: notify_disable_def)
next
  have e: "bit (2 ^ k :: u32) j \<longleftrightarrow> j = k" for j using assms by (auto simp: bit_exp_iff)
  case False
  then have "msk AND NOT (2 ^ k) = msk"
    using e by (intro bit_eqI) (auto simp only: bit_and_iff bit_not_iff)
  then show ?thesis by (simp add: notify_disable_def)
qed

lemma rmw_fcr_shadow:
  "pc16c550_rmw_fcr wr msk val u = Some u' \<Longrightarrow>
    u_fcr_shadow u' = u_fcr_shadow u AND NOT msk OR (msk AND val AND NOT 6)"
  by (auto simp: pc16c550_rmw_fcr_def Let_def rtuart_write_u8_def bind_eq_Some)

lemma rmw_fcr_no_reset:
  assumes "pc16c550_rmw_fcr wr msk val u = Some u'" and "u_fcr_shadow u AND 6 = 0"
  shows "u_fcr_shadow u' AND 6 = 0"
proof -
  have "(u_fcr_shadow u AND NOT msk) AND 6 = (u_fcr_shadow u AND 6) AND NOT msk" by (simp only: ac_simps)
  moreover have "(msk AND val AND NOT 6) AND (6 :: u8) = msk AND val AND (NOT 6 AND 6)" by (simp only: ac_simps)
  ultimately show ?thesis
    using assms(2) unfolding rmw_fcr_shadow [OF assms(1)] by (simp only: bit.conj_disj_distrib2) simp
qed

lemma trigger_level_shadow:
  assumes "pc16c550_set_rxfifo_trigger_level wr level u = Some (0, u')" and "level \<noteq> 1"
  shows "bit (u_fcr_shadow u') 6 \<or> bit (u_fcr_shadow u') 7"
  using assms
  by (auto simp: pc16c550_set_rxfifo_trigger_level_def bind_eq_Some push_bit_eq_mult bit_or_iff dest!: rmw_fcr_shadow
      split: if_splits)

lemma octet_bit_ge:
  assumes "bit (w :: u8) k"
  shows "2 ^ k \<le> unat w"
proof (rule ccontr)
  assume "\<not> 2 ^ k \<le> unat w"
  then have "take_bit k (unat w) = unat w" by (simp add: take_bit_nat_eq_self)
  then have "\<not> bit (unat w) k" by (metis bit_take_bit_iff less_irrefl)
  then show False using assms by (simp add: bit_unsigned_iff)
qed

section \<open>Properties\<close>

definition demo_memory :: "u8 list" where "demo_memory = replicate 0x3f 0"

definition demo_regs :: dummy_bus where
  "demo_regs = the_default \<lparr>register_values = []\<rparr> (dummy_bus_create demo_memory)"

definition demo_uart :: "dummy_bus rtuart_pc16c550" where
  "demo_uart = pc16c550_create 0 8000000 demo_regs"

lemma demo_uart_facts:
  "dummy_ok (u_bus demo_uart)" "u_address_offset demo_uart = 0"
  "dummy_view (u_bus demo_uart) = \<lparr>v_lcr = 0, v_dll = 0, v_dlm = 0, v_ier = 0, v_mcr = 0\<rparr>"
  "u_base_clock demo_uart = 8000000" "u_fcr_shadow demo_uart = 0" "u_notify_mask demo_uart = 0"
  using dummy_bus_create_spec [of demo_memory]
  by (auto simp: demo_uart_def pc16c550_create_def demo_regs_def demo_memory_def)

text \<open>
  The line format is stored: with five to eight data bits, no, even or odd parity and one or two
  stop bits (given as 10 and 20), what was set is read back.
\<close>

theorem pc16c550_format_roundtrip:
  assumes "dummy_ok (u_bus u)" and "u_address_offset u = 0" and "databits \<in> {5, 6, 7, 8}"
    and "parity \<in> {CHR ''n'', CHR ''e'', CHR ''o''}" and "stopbits \<in> {10, 20}"
  shows "\<exists>u'. pc16c550_set_format dummy_read_u8 dummy_write_u8 databits parity stopbits u = Some u' \<and>
     pc16c550_get_format dummy_read_u8 u' = Some ((databits, parity, stopbits), u')"
  using db.c_set_format [of u, OF _ assms(3-5)] assms(1,2) by (simp add: db.c_ok_def)

theorem pc16c550_format_roundtrip_witness:
  "\<exists>u'. pc16c550_set_format dummy_read_u8 dummy_write_u8 8 (CHR ''n'') 20 demo_uart = Some u' \<and>
     pc16c550_get_format dummy_read_u8 u' = Some ((8, CHR ''n'', 20), u')"
  by (rule pc16c550_format_roundtrip) (simp_all add: demo_uart_facts)

text \<open>
  Baud rates with a divisor below 256 work: when the base clock is 16 times the baud rate times a
  factor from 1 to 255 (up to a remainder below 16) and the upper divisor latch is zero, as after
  reset, the baud rate that was set is the one that is read back.
\<close>

theorem pc16c550_baudrate_roundtrip:
  assumes "dummy_ok (u_bus u)" and "u_address_offset u = 0" and "v_dlm (dummy_view (u_bus u)) = 0"
    and "baud \<noteq> 0" and "unat (u_base_clock u) div 16 = unat baud * k" and "0 < k" and "k < 256"
  shows "\<exists>u' u''. pc16c550_set_baudrate dummy_read_u8 dummy_write_u8 baud u = Some (0, u') \<and>
     pc16c550_get_baudrate dummy_read_u8 dummy_write_u8 u' = Some (baud, u'')"
  using db.c_baudrate_roundtrip [of u, OF _ assms(3-7)] assms(1,2) by (simp add: db.c_ok_def)

theorem pc16c550_baudrate_roundtrip_witness:
  "\<exists>u' u''. pc16c550_set_baudrate dummy_read_u8 dummy_write_u8 250000 demo_uart = Some (0, u') \<and>
     pc16c550_get_baudrate dummy_read_u8 dummy_write_u8 u' = Some (250000, u'')"
  by (rule pc16c550_baudrate_roundtrip [where k = 2]) (simp_all add: demo_uart_facts)

text \<open>
  The upper octet of the divisor is never set: after setting any divisor the chip holds its low
  octet below whatever its upper divisor latch was before, because the macro for that latch writes the
  line control register.
\<close>

theorem divisor_high_octet_lost:
  assumes "dummy_ok (u_bus u)" and "u_address_offset u = 0"
  shows "\<exists>u' u''. pc16c550_set_baudrate_divisor dummy_read_u8 dummy_write_u8 d u = Some u' \<and>
     pc16c550_get_baudrate_divisor dummy_read_u8 dummy_write_u8 u' =
       Some (ucast (ucast d :: u8) OR push_bit 8 (ucast (v_dlm (dummy_view (u_bus u)))), u'')"
  using db.c_divisor_low_octet [of u d] assms by (simp add: db.c_ok_def)

theorem divisor_high_octet_lost_witness:
  "\<exists>u' u''. pc16c550_set_baudrate_divisor dummy_read_u8 dummy_write_u8 0x1234 demo_uart = Some u' \<and>
     pc16c550_get_baudrate_divisor dummy_read_u8 dummy_write_u8 u' = Some (0x34, u'')"
  using divisor_high_octet_lost [of demo_uart "0x1234"] by (simp add: demo_uart_facts)

text \<open>
  Interrupts follow the notifications: whatever the bus and the client do, when the interrupt
  handler returns, its last access is a write to the interrupt enable register of exactly the
  interrupts that the notification mask it leaves behind asks for, and its result is 0 or -1.
\<close>

theorem irq_exit_syncs_ier:
  assumes "pc16c550_handle_irq rd wr cb s = Some (r, s')"
  shows "r \<in> {0, -1} \<and>
     (\<exists>b. wr (reg_at (fst s') PC16550_REG_IER) (ier_of (u_notify_mask (fst s'))) b = Some (u_bus (fst s')))"
proof -
  obtain u0 where u0: "pc16c550_uart_update_notification wr u0 = Some (fst s')" and r: "r \<in> {0, -1}"
    using handle_irq_leaves [OF assms] by blast
  show ?thesis using r update_notification_mask [OF u0] by metis
qed

definition demo_no_client :: "(dummy_bus, unit) ust rtuart_client_callbacks" where
  "demo_no_client = \<lparr>cb_transmitter_has_space = None, cb_transmitter_empty = None, cb_receiver_data_available = None,
     cb_modem_input_changed = None, cb_line_status_event = None\<rparr>"

lemma demo_irq:
  "\<exists>s'. pc16c550_handle_irq dummy_read_u8 dummy_write_u8 demo_no_client (demo_uart\<lparr>u_notify_mask := 6\<rparr>, ()) = Some (0, s')"
  by (subst pc16c550_handle_irq.simps)
     (simp add: demo_uart_def pc16c550_create_def demo_regs_def demo_memory_def dummy_bus_create_def
       dummy_bus_init_internal_registers_def rtuart_read_u8_def rtuart_write_u8_def reg_at_def dummy_bus_defs irq_case_def
       uart16550_handle_lsr_def lsr_line_event_def lsr_transmitter_def uart16550_lsr_to_event_def pc16550_lsr_defs
       rtuart_const_defs demo_no_client_def irq_leave_def pc16c550_uart_update_notification_def ier_of_def
       min_def)

theorem irq_exit_syncs_ier_witness:
  "\<exists>s' b. pc16c550_handle_irq dummy_read_u8 dummy_write_u8 demo_no_client (demo_uart\<lparr>u_notify_mask := 6\<rparr>, ()) = Some (0, s') \<and>
     dummy_write_u8 (reg_at (fst s') PC16550_REG_IER) (ier_of (u_notify_mask (fst s'))) b = Some (u_bus (fst s'))"
  using demo_irq irq_exit_syncs_ier by blast

text \<open>
  The line events are the error bits of the line status register shifted down, so the table
  lookup that a comment proposes for the conversion, by the four bits above the lowest, is possible.
\<close>

theorem lsr_events_are_error_bits:
  "uart16550_lsr_to_event lsr = ucast (drop_bit 1 lsr AND 15)"
  by (rule lsr_to_event_table)

text \<open>
  A single notification cannot be disabled: the test in front is the one of enabling, so
  disabling one notification leaves the mask as it is, whether the notification is enabled or not.
\<close>

theorem single_notification_not_disabled:
  assumes "pc16c550_uart_disable_notification wr (2 ^ k) u = Some u'" and "k < 32"
  shows "u_notify_mask u' = u_notify_mask u"
proof -
  have "u_notify_mask u' = notify_disable (u_notify_mask u) (2 ^ k)"
    using assms(1) by (auto simp: pc16c550_uart_disable_notification_def notify_disable_def
        dest: update_notification_mask split: if_splits)
  then show ?thesis using disable_single [OF assms(2)] by simp
qed

theorem single_notification_not_disabled_witness:
  "\<exists>u'. pc16c550_uart_disable_notification dummy_write_u8 (2 ^ 2) (demo_uart\<lparr>u_notify_mask := 4\<rparr>) = Some u' \<and>
     u_notify_mask u' = 4"
proof -
  have *: "pc16c550_uart_disable_notification dummy_write_u8 (2 ^ 2) (demo_uart\<lparr>u_notify_mask := 4\<rparr>) =
      Some (demo_uart\<lparr>u_notify_mask := 4\<rparr>)"
    by (simp add: pc16c550_uart_disable_notification_def)
  show ?thesis using single_notification_not_disabled [OF *] * by simp
qed

text \<open>
  The receive trigger level cannot be read back: after a level of 4, 8 or 14 was set, reading it
  indexes a table of four entries with a FIFO control octet of at least 64.
\<close>

theorem trigger_level_not_readable:
  assumes "pc16c550_set_rxfifo_trigger_level wr level u = Some (0, u')" and "level \<noteq> 1"
  shows "pc16c550_get_rxfifo_trigger_level u' = None"
proof -
  have "64 \<le> unat (u_fcr_shadow u')"
    using trigger_level_shadow [OF assms] octet_bit_ge [of "u_fcr_shadow u'" 6] octet_bit_ge [of "u_fcr_shadow u'" 7]
    by auto
  then show ?thesis by (simp add: pc16c550_get_rxfifo_trigger_level_def pc16c550_get_fcr_def arr_get_def)
qed

theorem trigger_level_not_readable_witness:
  "\<exists>u'. pc16c550_set_rxfifo_trigger_level dummy_write_u8 8 demo_uart = Some (0, u') \<and>
     pc16c550_get_rxfifo_trigger_level u' = None"
proof -
  have "\<exists>u'. pc16c550_set_rxfifo_trigger_level dummy_write_u8 8 demo_uart = Some (0, u')"
    using db.wr_fcr [OF demo_uart_facts(1), of 128] demo_uart_facts(2,5)
    by (auto simp: pc16c550_set_rxfifo_trigger_level_def pc16c550_rmw_fcr_def rtuart_write_u8_def Let_def reg_at_def
        pc16550_reg_defs)
  then show ?thesis using trigger_level_not_readable by fastforce
qed

end
