(* ===== verification/Dmx512_Frame.thy ===== *)
theory Dmx512_Frame
  imports Prelude
begin

text \<open>
  The frame that every part of the system exchanges
  (\<^verbatim>\<open>src/src/include/linux/dmx512/dmx512frame.h\<close>): its flags, its record and its well-formedness.
  The C union of \<open>startcode\<close>/\<open>payload\<close> with \<open>data\<close> is the one list \<open>f_data\<close> of 513 octets;
  the two readings are \<open>f_startcode\<close> and \<open>f_payload\<close>.
\<close>

section \<open>Flags\<close>

definition DMX512_FLAG_NOBREAK :: u16 where "DMX512_FLAG_NOBREAK = 0x0001"
definition DMX512_FLAG_IS_RDM :: u16 where "DMX512_FLAG_IS_RDM = 0x0040"
definition DMX512_FLAG_IS_RDM_DISC :: u16 where "DMX512_FLAG_IS_RDM_DISC = 0x0080"
definition DMX512_FLAGS_IS_TRANSMIT_FRAME :: u16 where "DMX512_FLAGS_IS_TRANSMIT_FRAME = 0x8000"

lemmas dmx512_flag_defs = DMX512_FLAG_NOBREAK_def DMX512_FLAG_IS_RDM_def
  DMX512_FLAG_IS_RDM_DISC_def DMX512_FLAGS_IS_TRANSMIT_FRAME_def

text \<open>\<open>x & mask\<close> used as a condition.\<close>

definition has_flag :: "u16 \<Rightarrow> u16 \<Rightarrow> bool" where
  "has_flag x m \<longleftrightarrow> x AND m \<noteq> 0"

section \<open>The frame\<close>

record dmx512frame =
  f_port :: u16
  f_flags :: u16
  f_breaksize :: u8
  f_unused :: "u8 list"
  f_payload_size :: u16
  f_data :: "u8 list"
  f_timestamp :: "int \<times> int"
  f_back_timestamp :: "int \<times> int"

definition f_startcode :: "dmx512frame \<Rightarrow> u8" where
  "f_startcode f = f_data f ! 0"

definition f_payload :: "dmx512frame \<Rightarrow> u8 list" where
  "f_payload f = drop 1 (f_data f)"

text \<open>The array sizes of the C type: \<open>unused[3]\<close> and \<open>data[513]\<close>.\<close>

definition frame_wf :: "dmx512frame \<Rightarrow> bool" where
  "frame_wf f \<longleftrightarrow> length (f_data f) = 513 \<and> length (f_unused f) = 3"

text \<open>\<open>sizeof(struct dmx512frame)\<close>: the packed layout with two 16-octet \<open>struct timespec\<close>.\<close>

definition sizeof_dmx512frame :: nat where
  "sizeof_dmx512frame = 2 + 2 + 1 + 3 + 2 + 513 + 16 + 16"

definition zero_frame :: dmx512frame where
  "zero_frame = \<lparr>f_port = 0, f_flags = 0, f_breaksize = 0, f_unused = [0, 0, 0],
     f_payload_size = 0, f_data = replicate 513 0, f_timestamp = (0, 0),
     f_back_timestamp = (0, 0)\<rparr>"

lemma frame_wf_zero [simp, wf_intros]: "frame_wf zero_frame"
  by (simp add: frame_wf_def zero_frame_def)

lemma frame_wf_length [simp]: "frame_wf f \<Longrightarrow> length (f_data f) = 513"
  by (simp add: frame_wf_def)

lemma frame_wf_upd [simp, wf_intros]:
  "frame_wf f \<Longrightarrow> frame_wf (f\<lparr>f_port := p\<rparr>)"
  "frame_wf f \<Longrightarrow> frame_wf (f\<lparr>f_flags := fl\<rparr>)"
  "frame_wf f \<Longrightarrow> frame_wf (f\<lparr>f_breaksize := b\<rparr>)"
  "frame_wf f \<Longrightarrow> frame_wf (f\<lparr>f_payload_size := n\<rparr>)"
  "frame_wf f \<Longrightarrow> length d = 513 \<Longrightarrow> frame_wf (f\<lparr>f_data := d\<rparr>)"
  by (simp_all add: frame_wf_def)

end
