(* ===== verification/Rdm.thy ===== *)
theory Rdm
  imports Dmx512_Frame
begin

text \<open>
  The RDM part of the uart driver (\<^verbatim>\<open>src/src/uio-testbench/dmx512/rtuart_dmx512_client.c\<close>, lines 180
  to 464): recognising RDM frames, their checksum, the replies the driver synthesises when a
  discovery request collides or times out, and the decoder of the 24-octet discovery response.

  Octet arrays are accessed with \<^const>\<open>arr_get\<close> and its kin, so a result \<^term>\<open>None\<close> is an access
  outside \<open>data[513]\<close>. A C \<open>int\<close> that can be negative is an \<^typ>\<open>int\<close>.
\<close>

section \<open>Constants\<close>

definition SC_RDM :: u8 where "SC_RDM = 0xCC"
definition SC_SUB_MESSAGE :: u8 where "SC_SUB_MESSAGE = 0x01"
definition DISCOVERY_COMMAND :: u8 where "DISCOVERY_COMMAND = 0x10"
definition DISCOVERY_COMMAND_RESPONSE :: u8 where "DISCOVERY_COMMAND_RESPONSE = 0x11"
definition RESPONSE_TYPE_NOREPLY :: u8 where "RESPONSE_TYPE_NOREPLY = 0xff"
definition DISC_UNIQUE_BRANCH :: u16 where "DISC_UNIQUE_BRANCH = 0x0001"

abbreviation (input) "DMX_POS_STARTCODE \<equiv> 0 :: nat"
abbreviation (input) "RDM_POS_SUBSTARTCODE \<equiv> 1 :: nat"
abbreviation (input) "RDM_POS_LENGTH \<equiv> 2 :: nat"
abbreviation (input) "RDM_POS_DEST_UID \<equiv> 3 :: nat"
abbreviation (input) "RDM_POS_SRC_UID \<equiv> 9 :: nat"
abbreviation (input) "RDM_POS_RESPONSE_TYPE \<equiv> 16 :: nat"
abbreviation (input) "RDM_POS_COMMAND_CLASS \<equiv> 20 :: nat"
abbreviation (input) "RDM_POS_PID \<equiv> 21 :: nat"
abbreviation (input) "RDM_POS_PDL \<equiv> 23 :: nat"
abbreviation (input) "RDM_DISCOVER_REPLY_MAX_FRAMESIZE \<equiv> 24 :: nat"

lemmas rdm_const_defs = SC_RDM_def SC_SUB_MESSAGE_def DISCOVERY_COMMAND_def
  DISCOVERY_COMMAND_RESPONSE_def RESPONSE_TYPE_NOREPLY_def DISC_UNIQUE_BRANCH_def

section \<open>Recognising RDM frames\<close>

text \<open>The predicates index up to slot 23 of an array of at least that size (\<open>data[513]\<close>).\<close>

definition dmx512frame_is_rdm_discover :: "u8 list \<Rightarrow> bool" where
  "dmx512frame_is_rdm_discover d \<longleftrightarrow>
     d ! DMX_POS_STARTCODE = SC_RDM \<and>
     d ! RDM_POS_SUBSTARTCODE = SC_SUB_MESSAGE \<and>
     d ! RDM_POS_COMMAND_CLASS = DISCOVERY_COMMAND \<and>
     d ! RDM_POS_PID = ucast (drop_bit 8 DISC_UNIQUE_BRANCH) \<and>
     d ! (RDM_POS_PID + 1) = ucast DISC_UNIQUE_BRANCH \<and>
     d ! RDM_POS_PDL = 12"

definition dmx512frame_is_rdm_discover_reply :: "u8 list \<Rightarrow> bool" where
  "dmx512frame_is_rdm_discover_reply d \<longleftrightarrow>
     d ! DMX_POS_STARTCODE = SC_RDM \<and>
     d ! RDM_POS_SUBSTARTCODE = SC_SUB_MESSAGE \<and>
     d ! RDM_POS_COMMAND_CLASS = DISCOVERY_COMMAND_RESPONSE \<and>
     d ! RDM_POS_PID = ucast (drop_bit 8 DISC_UNIQUE_BRANCH) \<and>
     d ! (RDM_POS_PID + 1) = ucast DISC_UNIQUE_BRANCH \<and>
     d ! RDM_POS_PDL = 0"

definition dmx512frame_is_rdm :: "u8 list \<Rightarrow> bool" where
  "dmx512frame_is_rdm d \<longleftrightarrow>
     d ! DMX_POS_STARTCODE = SC_RDM \<and> d ! RDM_POS_SUBSTARTCODE = SC_SUB_MESSAGE"

section \<open>Checksum and sizes\<close>

definition rdm_sum :: "u8 list \<Rightarrow> u16" where
  "rdm_sum bs = foldl (\<lambda>sum b. sum + ucast b) 0 bs"

text \<open>\<open>dmx512frame_calculate_rdm_checksum(&data[off], size)\<close>; a size below 1 sums nothing.\<close>

definition dmx512frame_calculate_rdm_checksum :: "u8 list \<Rightarrow> nat \<Rightarrow> int \<Rightarrow> u16 option" where
  "dmx512frame_calculate_rdm_checksum d off sz = map_option rdm_sum (arr_slice d off (nat sz))"

definition arr_set_int :: "u8 list \<Rightarrow> int \<Rightarrow> u8 \<Rightarrow> u8 list option" where
  "arr_set_int d i v = (if i < 0 then None else arr_set d (nat i) v)"

definition update_rdm_checksum :: "dmx512frame \<Rightarrow> dmx512frame option" where
  "update_rdm_checksum f = (
     let rdm_framesize = int (unat (f_payload_size f)) - 1 in
     if rdm_framesize > 254 then Some f
     else do {
       d \<leftarrow> arr_set (f_data f) RDM_POS_RESPONSE_TYPE RESPONSE_TYPE_NOREPLY;
       cc \<leftarrow> arr_get d RDM_POS_COMMAND_CLASS;
       d \<leftarrow> arr_set d RDM_POS_COMMAND_CLASS (cc OR 1);
       rdmcs \<leftarrow> dmx512frame_calculate_rdm_checksum d 0 rdm_framesize;
       d \<leftarrow> arr_set_int d rdm_framesize (ucast (drop_bit 8 rdmcs));
       d \<leftarrow> arr_set_int d (rdm_framesize + 1) (ucast rdmcs);
       Some (f\<lparr>f_data := d\<rparr>) })"

definition update_rdm_sizes_from_pdl :: "dmx512frame \<Rightarrow> dmx512frame option" where
  "update_rdm_sizes_from_pdl f = do {
     pdl \<leftarrow> arr_get (f_data f) RDM_POS_PDL;
     let frameSizeWithoutChecksum = RDM_DISCOVER_REPLY_MAX_FRAMESIZE + unat pdl;
     d \<leftarrow> arr_set (f_data f) RDM_POS_LENGTH (of_nat frameSizeWithoutChecksum);
     Some (f\<lparr>f_data := d, f_payload_size := of_nat (frameSizeWithoutChecksum + 2 - 1)\<rparr>) }"

section \<open>Synthesised discovery replies\<close>

text \<open>The common body of the two replies; \<open>fill\<close> is the source UID octet.\<close>

definition rdm_discovery_reply_with :: "u8 \<Rightarrow> dmx512frame \<Rightarrow> dmx512frame option" where
  "rdm_discovery_reply_with fill f = do {
     src \<leftarrow> arr_slice (f_data f) RDM_POS_SRC_UID 6;
     d \<leftarrow> arr_blit (f_data f) RDM_POS_DEST_UID src;
     d \<leftarrow> arr_blit d RDM_POS_SRC_UID (replicate 6 fill);
     d \<leftarrow> arr_set d RDM_POS_COMMAND_CLASS DISCOVERY_COMMAND_RESPONSE;
     d \<leftarrow> arr_set d RDM_POS_PDL 0;
     f \<leftarrow> update_rdm_sizes_from_pdl (f\<lparr>f_data := d\<rparr>);
     update_rdm_checksum f }"

definition rdm_discovery_reply_collision :: "dmx512frame \<Rightarrow> dmx512frame option" where
  "rdm_discovery_reply_collision f = rdm_discovery_reply_with 0xFF f"

definition rdm_discovery_reply_timeout :: "dmx512frame \<Rightarrow> dmx512frame option" where
  "rdm_discovery_reply_timeout f = rdm_discovery_reply_with 0 f"

section \<open>The discovery response on the wire\<close>

text \<open>Searching the preamble separator: its position, -1 when it has not come yet, -2 on any other
  octet than the preamble. The loop stops at the first decisive octet.\<close>

fun find_preamble_from :: "u8 list \<Rightarrow> nat \<Rightarrow> nat \<Rightarrow> nat \<Rightarrow> int option" where
  "find_preamble_from d off i 0 = Some (-1)"
| "find_preamble_from d off i (Suc n) = do {
     b \<leftarrow> arr_get d (off + i);
     if b = 0xAA then Some (int i)
     else if b \<noteq> 0xFE then Some (-2)
     else find_preamble_from d off (Suc i) n }"

definition dmx512rtuart_find_preamble :: "u8 list \<Rightarrow> nat \<Rightarrow> nat \<Rightarrow> int option" where
  "dmx512rtuart_find_preamble d off sz = find_preamble_from d off 0 sz"

text \<open>The loop \<open>for (i = 0; i < 16; i += 2)\<close> over the octet pairs; \<open>n\<close> pairs remain.\<close>

fun check_pairs :: "u8 list \<Rightarrow> nat \<Rightarrow> nat \<Rightarrow> bool option" where
  "check_pairs d off 0 = Some True"
| "check_pairs d off (Suc n) = do {
     a \<leftarrow> arr_get d off;
     if a AND 0xAA \<noteq> 0xAA then Some False
     else do {
       b \<leftarrow> arr_get d (off + 1);
       if b AND 0x55 \<noteq> 0x55 then Some False
       else check_pairs d (off + 2) n } }"

text \<open>\<open>for (i = 0; i < 6; ++i) data[SRC_UID + i] = buf[2*i] & buf[2*i+1]\<close>, \<open>buf\<close> at offset \<open>off\<close>.\<close>

fun decode_uid :: "nat \<Rightarrow> nat \<Rightarrow> u8 list \<Rightarrow> u8 list option" where
  "decode_uid off 0 d = Some d"
| "decode_uid off (Suc n) d = do {
     let i = 6 - Suc n;
     a \<leftarrow> arr_get d (off + 2 * i);
     b \<leftarrow> arr_get d (off + 2 * i + 1);
     d \<leftarrow> arr_set d (RDM_POS_SRC_UID + i) (a AND b);
     decode_uid off n d }"

definition dmx512rtuart_complete_rdm_discovery_reply :: "dmx512frame \<Rightarrow> (int \<times> dmx512frame) option" where
  "dmx512rtuart_complete_rdm_discovery_reply f = (
     let d = f_data f; count = unat (f_payload_size f) + 1 in do {
     ppos \<leftarrow> dmx512rtuart_find_preamble d 256 count;
     let off = (if ppos > -1 then 256 + nat ppos + 1 else 256);
     ok \<leftarrow> (if ppos > -1 then check_pairs d off 8 else Some True);
     if \<not> ok then Some (-1, f)
     else do {
       calccrc \<leftarrow> dmx512frame_calculate_rdm_checksum d off 12;
       b12 \<leftarrow> arr_get d (off + 12);
       b13 \<leftarrow> arr_get d (off + 13);
       b14 \<leftarrow> arr_get d (off + 14);
       b15 \<leftarrow> arr_get d (off + 15);
       let crc = push_bit 8 (ucast (b12 AND b13)) + ucast (b14 AND b15);
       if calccrc \<noteq> crc then Some (-1, f)
       else do {
         src \<leftarrow> arr_slice d RDM_POS_SRC_UID 6;
         d \<leftarrow> arr_blit d RDM_POS_DEST_UID src;
         d \<leftarrow> decode_uid off 6 d;
         d \<leftarrow> arr_set d RDM_POS_COMMAND_CLASS DISCOVERY_COMMAND_RESPONSE;
         d \<leftarrow> arr_set d RDM_POS_PDL 0;
         f \<leftarrow> update_rdm_sizes_from_pdl (f\<lparr>f_data := d\<rparr>);
         let rdm_framesize = int (unat (f_payload_size f)) - 1;
         rdmcs \<leftarrow> dmx512frame_calculate_rdm_checksum (f_data f) 0 rdm_framesize;
         d \<leftarrow> arr_set_int (f_data f) rdm_framesize (ucast (drop_bit 8 rdmcs));
         d \<leftarrow> arr_set_int d (rdm_framesize + 1) (ucast rdmcs);
         Some (0, f\<lparr>f_data := d\<rparr>) } } })"

text \<open>The octets a responder sends (\<open>dmx512_rtuart_client_send_frame\<close>, lines 1141 to 1165): seven
  preamble octets and the separator, each UID octet twice, and the checksum of those twelve.\<close>

definition encode_pair :: "u8 \<Rightarrow> u8 list" where
  "encode_pair b = [0xAA OR b, 0x55 OR b]"

definition discovery_reply_octets :: "u8 list \<Rightarrow> u8 list" where
  "discovery_reply_octets uid = (
     let euid = concat (map encode_pair uid); checksum = rdm_sum euid in
     replicate 7 0xFE @ [0xAA] @ euid @
     encode_pair (ucast (drop_bit 8 checksum)) @ encode_pair (ucast checksum))"

section \<open>Octet pairs and sums\<close>

lemma encode_pair_decode: "(0xAA OR b) AND (0x55 OR b) = (b :: u8)"
proof -
  have "(0xAA OR b) AND (0x55 OR b) = (0xAA AND 0x55) OR (b :: u8)"
    by (simp only: bit.disj_conj_distrib2)
  then show ?thesis by simp
qed

lemma or_and_absorb: "(a OR b) AND a = (a :: u8)"
  by (rule bit_eqI) (auto simp: bit_and_iff bit_or_iff)

lemma or_or_merge: "(a OR b) OR (c OR b) = (a OR c) OR (b :: u8)"
  by (rule bit_eqI) (auto simp: bit_or_iff)

lemma encode_pair_masks: "(0xAA OR b) AND 0xAA = (0xAA :: u8)" "(0x55 OR b) AND 0x55 = (0x55 :: u8)"
  by (rule or_and_absorb)+

lemma encode_pair_sum:
  "(ucast (0xAA OR b :: u8) + ucast (0x55 OR b :: u8) :: u16) = ucast b + 255"
proof -
  let ?x = "0xAA OR b" and ?y = "0x55 OR b"
  have "?x OR ?y = (0xAA OR 0x55) OR b"
    by (rule or_or_merge)
  also have "(0xAA OR 0x55 :: u8) = - 1" by simp
  finally have o: "?x OR ?y = (- 1 :: u8)" by simp
  have "(ucast ?x + ucast ?y :: u16) = (ucast ?x AND ucast ?y) + (ucast ?x OR ucast ?y)"
    by (simp add: word_plus_and_or)
  also have "\<dots> = ucast (?x AND ?y) + ucast (?x OR ?y)"
    by (simp only: unsigned_and_eq unsigned_or_eq)
  finally have "(ucast ?x + ucast ?y :: u16) = ucast b + ucast (- 1 :: u8)"
    by (simp only: encode_pair_decode o)
  moreover have "ucast (- 1 :: u8) = (255 :: u16)"
  proof -
    have "(- 1 :: u8) = 255" by simp
    then show ?thesis by (simp only:) simp
  qed
  ultimately show ?thesis by simp
qed

lemma rdm_sum_foldl: "foldl (\<lambda>sum b. sum + ucast b) s bs = (s :: u16) + rdm_sum bs"
proof (induction bs arbitrary: s)
  case (Cons b bs)
  from Cons [of "s + ucast b"] Cons [of "ucast b"] show ?case by (simp add: rdm_sum_def)
qed (simp add: rdm_sum_def)

lemma rdm_sum_simps [simp]:
  "rdm_sum [] = 0" "rdm_sum (b # bs) = ucast b + rdm_sum bs"
  "rdm_sum (as @ bs) = rdm_sum as + rdm_sum bs"
proof -
  show "rdm_sum [] = 0" by (simp add: rdm_sum_def)
  show *: "rdm_sum (b # bs) = ucast b + rdm_sum bs" for b bs
    using rdm_sum_foldl [of "ucast b" bs] by (simp add: rdm_sum_def)
  show "rdm_sum (as @ bs) = rdm_sum as + rdm_sum bs"
    by (induction as) (simp_all add: * rdm_sum_def [of "[]"] add.assoc)
qed

lemma rdm_sum_encoded:
  "rdm_sum (concat (map encode_pair uid)) = rdm_sum uid + of_nat (255 * length uid)"
proof (induction uid)
  case (Cons b uid)
  have "rdm_sum (concat (map encode_pair (b # uid))) =
      (ucast (0xAA OR b) + ucast (0x55 OR b)) + rdm_sum (concat (map encode_pair uid))"
    by (simp add: encode_pair_def add.assoc)
  then show ?case by (simp only: encode_pair_sum Cons) (simp add: algebra_simps)
qed simp

text \<open>The checksum octets of a frame: the 16-bit sum of the octets before them, high octet first.\<close>

definition rdm_checksum_ok :: "u8 list \<Rightarrow> nat \<Rightarrow> bool" where
  "rdm_checksum_ok d n \<longleftrightarrow> d ! n = ucast (drop_bit 8 (rdm_sum (take n d))) \<and>
     d ! (n + 1) = ucast (rdm_sum (take n d))"

lemma put_checksum_ok:
  assumes "n + 1 < length d"
  shows "rdm_checksum_ok (d[n := ucast (drop_bit 8 (rdm_sum (take n d))),
    n + 1 := ucast (rdm_sum (take n d))]) n"
  using assms by (simp add: rdm_checksum_ok_def)

section \<open>The synthesised replies are well-formed RDM frames\<close>

lemma update_rdm_sizes_Some:
  assumes "frame_wf f"
  shows "update_rdm_sizes_from_pdl f = Some (f\<lparr>
     f_data := (f_data f)[RDM_POS_LENGTH := of_nat (24 + unat (f_data f ! RDM_POS_PDL))],
     f_payload_size := of_nat (25 + unat (f_data f ! RDM_POS_PDL))\<rparr>)"
  using assms by (simp add: update_rdm_sizes_from_pdl_def fault_simps add.commute)

lemma update_rdm_checksum_Some:
  assumes "frame_wf f" and "0 < unat (f_payload_size f)" and "unat (f_payload_size f) \<le> 255"
  defines "n \<equiv> unat (f_payload_size f) - 1"
    and "d \<equiv> (f_data f)[RDM_POS_RESPONSE_TYPE := RESPONSE_TYPE_NOREPLY,
      RDM_POS_COMMAND_CLASS := f_data f ! RDM_POS_COMMAND_CLASS OR 1]"
  shows "update_rdm_checksum f = Some (f\<lparr>f_data :=
     d[n := ucast (drop_bit 8 (rdm_sum (take n d))), n + 1 := ucast (rdm_sum (take n d))]\<rparr>)"
proof -
  have n: "int (unat (f_payload_size f)) - 1 = int n" "nat (int n + 1) = Suc n" "n \<le> 254"
    using assms(2,3) by (simp_all add: n_def)
  show ?thesis
    using assms(1) n(3) unfolding update_rdm_checksum_def Let_def n(1)
    by (simp add: fault_simps dmx512frame_calculate_rdm_checksum_def arr_set_int_def d_def
        nth_list_update n(2))
qed

text \<open>The reply to a discovery request, whatever the source UID it carries.\<close>

lemma rdm_discovery_reply_with_ok:
  assumes "frame_wf f" and "dmx512frame_is_rdm_discover (f_data f)"
  shows "\<exists>f'. rdm_discovery_reply_with fill f = Some f' \<and> frame_wf f' \<and>
     dmx512frame_is_rdm_discover_reply (f_data f') \<and> rdm_checksum_ok (f_data f') 24 \<and>
     f_payload_size f' = 25 \<and> f_data f' ! RDM_POS_LENGTH = 24 \<and>
     f_data f' ! RDM_POS_RESPONSE_TYPE = RESPONSE_TYPE_NOREPLY \<and>
     take 6 (drop RDM_POS_DEST_UID (f_data f')) = take 6 (drop RDM_POS_SRC_UID (f_data f)) \<and>
     take 6 (drop RDM_POS_SRC_UID (f_data f')) = replicate 6 fill \<and>
     f_flags f' = f_flags f \<and> f_port f' = f_port f"
proof -
  define d0 where "d0 = (blit (blit (f_data f) 3 (take 6 (drop 9 (f_data f)))) 9 (replicate 6 fill))
    [RDM_POS_COMMAND_CLASS := DISCOVERY_COMMAND_RESPONSE, RDM_POS_PDL := 0]"
  define d1 where "d1 = d0[RDM_POS_LENGTH := 24, RDM_POS_RESPONSE_TYPE := RESPONSE_TYPE_NOREPLY]"
  define d2 where "d2 = d1[24 := ucast (drop_bit 8 (rdm_sum (take 24 d1))), 25 := ucast (rdm_sum (take 24 d1))]"
  have len: "length (f_data f) = 513" "length d0 = 513" "length d1 = 513" "length d2 = 513"
    using assms(1) by (simp_all add: d0_def d1_def d2_def)
  have sz: "update_rdm_sizes_from_pdl (f\<lparr>f_data := d0\<rparr>) =
      Some (f\<lparr>f_data := d0[RDM_POS_LENGTH := 24], f_payload_size := 25\<rparr>)"
    using assms(1) len by (simp add: update_rdm_sizes_Some) (simp add: d0_def nth_list_update)
  have cc: "d0 ! RDM_POS_COMMAND_CLASS OR 1 = DISCOVERY_COMMAND_RESPONSE"
    using len by (simp add: d0_def nth_list_update rdm_const_defs)
  have "d0[RDM_POS_LENGTH := 24, RDM_POS_RESPONSE_TYPE := RESPONSE_TYPE_NOREPLY,
      RDM_POS_COMMAND_CLASS := d0 ! RDM_POS_COMMAND_CLASS OR 1] = d1"
    using cc len by (intro nth_equalityI) (auto simp: d1_def d0_def nth_list_update)
  then have cs: "update_rdm_checksum (f\<lparr>f_data := d0[RDM_POS_LENGTH := 24], f_payload_size := 25\<rparr>) =
      Some (f\<lparr>f_data := d2, f_payload_size := 25\<rparr>)"
    using assms(1) len by (subst update_rdm_checksum_Some) (simp_all add: d2_def)
  have "rdm_discovery_reply_with fill f = Some (f\<lparr>f_data := d2, f_payload_size := 25\<rparr>)"
    using assms(1) len sz cs by (simp add: rdm_discovery_reply_with_def fault_simps flip: d0_def)
  moreover have "rdm_checksum_ok d2 24"
    using put_checksum_ok [of 24 d1] len by (simp add: d2_def)
  moreover have "dmx512frame_is_rdm_discover_reply d2"
    using assms(2) len
    by (simp add: dmx512frame_is_rdm_discover_def dmx512frame_is_rdm_discover_reply_def d2_def d1_def
        d0_def nth_list_update)
  moreover have "take 6 (drop 3 d2) = take 6 (drop 9 (f_data f))" "take 6 (drop 9 d2) = replicate 6 fill"
    using len by (auto intro!: nth_equalityI simp: d2_def d1_def d0_def nth_list_update nth_blit)
  moreover have "d2 ! 2 = 24" "d2 ! 16 = RESPONSE_TYPE_NOREPLY"
    using len by (simp_all add: d2_def d1_def d0_def nth_list_update)
  ultimately show ?thesis using assms(1) len by simp
qed

section \<open>Decoding the discovery response\<close>

lemma find_preamble_hit:
  "(\<forall>j < k. d ! (off + i + j) = 0xFE) \<Longrightarrow> d ! (off + i + k) = 0xAA \<Longrightarrow> off + i + k < length d \<Longrightarrow>
   k < n \<Longrightarrow> find_preamble_from d off i n = Some (int (i + k))"
proof (induction k arbitrary: i n)
  case 0
  then show ?case by (cases n) (auto simp: fault_simps)
next
  case (Suc k)
  obtain n' where n: "n = Suc n'" using Suc.prems(4) by (cases n) auto
  have "d ! (off + i) = 0xFE" using Suc.prems(1) by (metis add.right_neutral zero_less_Suc)
  moreover have "\<forall>j < k. d ! (off + Suc i + j) = 0xFE"
    using Suc.prems(1) by (metis add_Suc_right add_Suc_shift Suc_less_eq)
  then have "find_preamble_from d off (Suc i) n' = Some (int (Suc i + k))"
    using Suc.prems n by (intro Suc.IH) auto
  ultimately show ?case using n Suc.prems by (simp add: fault_simps)
qed

lemma check_pairs_ok:
  "(\<forall>j < n. d ! (off + 2 * j) AND 0xAA = 0xAA \<and> d ! (off + 2 * j + 1) AND 0x55 = 0x55) \<Longrightarrow>
   off + 2 * n \<le> length d \<Longrightarrow> check_pairs d off n = Some True"
proof (induction n arbitrary: off)
  case (Suc n)
  have "\<forall>j < n. d ! (off + 2 + 2 * j) AND 0xAA = 0xAA \<and> d ! (off + 2 + 2 * j + 1) AND 0x55 = 0x55"
  proof (intro allI impI)
    fix j assume "j < n"
    then show "d ! (off + 2 + 2 * j) AND 0xAA = 0xAA \<and> d ! (off + 2 + 2 * j + 1) AND 0x55 = 0x55"
      using Suc.prems(1) [rule_format, of "Suc j"] by (simp add: add.assoc)
  qed
  then have "check_pairs d (off + 2) n = Some True" using Suc.prems(2) by (intro Suc.IH) auto
  then show ?case using Suc.prems(1) [rule_format, of 0] Suc.prems(2) by (simp add: fault_simps)
qed simp

lemma check_pairs_no_fault:
  "off + 2 * n \<le> length d \<Longrightarrow> \<exists>b. check_pairs d off n = Some b"
  by (induction n arbitrary: off) (auto simp: fault_simps)

lemma decode_uid_blit:
  assumes "15 \<le> off" and "off + 12 \<le> length d"
  shows "decode_uid off 6 d =
     Some (blit d 9 (map (\<lambda>i. d ! (off + 2 * i) AND d ! (off + 2 * i + 1)) [0..<6]))"
proof -
  have "decode_uid off 6 d = Some (d[9 := d ! off AND d ! (off + 1),
      10 := d ! (off + 2) AND d ! (off + 3), 11 := d ! (off + 4) AND d ! (off + 5),
      12 := d ! (off + 6) AND d ! (off + 7), 13 := d ! (off + 8) AND d ! (off + 9),
      14 := d ! (off + 10) AND d ! (off + 11)])"
    using assms by (simp add: numeral_eq_Suc fault_simps)
  also have "\<dots> = Some (blit d 9 (map (\<lambda>i. d ! (off + 2 * i) AND d ! (off + 2 * i + 1)) [0..<6]))"
    using assms by (auto intro!: nth_equalityI simp: nth_list_update nth_blit upt_rec numeral_eq_Suc)
  finally show ?thesis .
qed

lemma length_discovery_reply_octets:
  "length uid = 6 \<Longrightarrow> length (discovery_reply_octets uid) = 24"
  by (simp add: discovery_reply_octets_def Let_def encode_pair_def length_concat comp_def
      sum_list_triv)

text \<open>The sixteen octets after the separator: the UID and its checksum, each octet as a pair.\<close>

definition reply_words :: "u8 list \<Rightarrow> u8 list" where
  "reply_words uid = (let c = rdm_sum (concat (map encode_pair uid)) in
     uid @ [ucast (drop_bit 8 c), ucast c])"

lemma discovery_reply_octets_eq:
  "discovery_reply_octets uid =
     replicate 7 0xFE @ [0xAA] @ concat (map encode_pair (reply_words uid))"
  by (simp add: discovery_reply_octets_def reply_words_def Let_def)

lemma length_encoded [simp]: "length (concat (map encode_pair ws)) = 2 * length ws"
  by (induction ws) (simp_all add: encode_pair_def)

lemma nth_encoded:
  "j < length ws \<Longrightarrow> concat (map encode_pair ws) ! (2 * j) = 0xAA OR ws ! j \<and>
     concat (map encode_pair ws) ! (2 * j + 1) = 0x55 OR ws ! j"
proof (induction ws arbitrary: j)
  case (Cons w ws)
  show ?case
  proof (cases j)
    case (Suc i)
    then show ?thesis using Cons.IH [of i] Cons.prems by (simp add: encode_pair_def)
  qed (simp add: encode_pair_def)
qed simp

lemma checksum_split: "push_bit 8 (ucast (ucast (drop_bit 8 c) :: u8)) + ucast (ucast c :: u8) = (c :: u16)"
proof -
  have "push_bit 8 (ucast (ucast (drop_bit 8 c) :: u8)) = (push_bit 8 (drop_bit 8 c) :: u16)"
    by (rule bit_eqI) (auto simp: bit_simps)
  moreover have "ucast (ucast c :: u8) = (take_bit 8 c :: u16)"
    by (rule bit_eqI) (auto simp: bit_simps)
  ultimately show ?thesis by (simp add: bits_ident)
qed

text \<open>What the decoder sees of a response of which \<open>k\<close> preamble octets arrived.\<close>

definition received_response :: "dmx512frame \<Rightarrow> nat \<Rightarrow> u8 list \<Rightarrow> bool" where
  "received_response f k uid \<longleftrightarrow> k \<le> 7 \<and> f_payload_size f = of_nat (k + 16) \<and>
     take (k + 17) (drop 256 (f_data f)) = drop (7 - k) (discovery_reply_octets uid)"

lemma received_response_nth:
  assumes "frame_wf f" and "length uid = 6" and "received_response f k uid"
  shows "\<forall>j < k. f_data f ! (256 + j) = 0xFE" and "f_data f ! (256 + k) = 0xAA"
    and "\<forall>j < 16. f_data f ! (256 + k + 1 + j) = concat (map encode_pair (reply_words uid)) ! j"
    and "k \<le> 7" and "unat (f_payload_size f) = k + 16"
proof -
  let ?e = "concat (map encode_pair (reply_words uid))"
  have k: "k \<le> 7" and ps: "f_payload_size f = of_nat (k + 16)"
    and t: "take (k + 17) (drop 256 (f_data f)) = replicate k 0xFE @ [0xAA] @ ?e"
    using assms(3) by (simp_all add: received_response_def discovery_reply_octets_eq)
  have nth: "f_data f ! (256 + j) = (replicate k 0xFE @ [0xAA] @ ?e) ! j" if "j < k + 17" for j
    using that k assms(1) unfolding t [symmetric] by simp
  show "\<forall>j < k. f_data f ! (256 + j) = 0xFE" using nth by (simp add: nth_append)
  show "f_data f ! (256 + k) = 0xAA" using nth [of k] by (simp add: nth_append)
  show "\<forall>j < 16. f_data f ! (256 + k + 1 + j) = ?e ! j"
  proof (intro allI impI)
    fix j :: nat assume "j < 16"
    then show "f_data f ! (256 + k + 1 + j) = ?e ! j"
      using nth [of "k + 1 + j"] by (simp add: nth_append add.assoc)
  qed
  show "k \<le> 7" by (rule k)
  show "unat (f_payload_size f) = k + 16"
    using k unfolding ps unat_of_nat by simp
qed

lemma received_response_accepted:
  assumes "frame_wf f" and "length uid = 6" and "received_response f k uid"
  defines "d \<equiv> f_data f" and "off \<equiv> 256 + k + 1"
    and "c \<equiv> rdm_sum (concat (map encode_pair uid))"
  shows "dmx512rtuart_find_preamble d 256 (unat (f_payload_size f) + 1) = Some (int k)"
    and "off + 16 \<le> 513" and "check_pairs d off 8 = Some True"
    and "dmx512frame_calculate_rdm_checksum d off 12 = Some c"
    and "push_bit 8 (ucast (d ! (off + 12) AND d ! (off + 13))) +
      ucast (d ! (off + 14) AND d ! (off + 15)) = c"
    and "\<And>d0. length d0 = 513 \<Longrightarrow> (\<And>j. 256 \<le> j \<Longrightarrow> j < 513 \<Longrightarrow> d0 ! j = d ! j) \<Longrightarrow>
      decode_uid off 6 d0 = Some (blit d0 9 uid)"
proof -
  let ?ws = "reply_words uid"
  note r = received_response_nth [OF assms(1-3), folded d_def]
  have len: "length d = 513" "length ?ws = 8"
    using assms(1,2) by (simp_all add: d_def reply_words_def Let_def)
  show off: "off + 16 \<le> 513" using r(4) by (simp add: off_def)
  have pairs: "d ! (off + 2 * j) = 0xAA OR ?ws ! j" "d ! (off + 2 * j + 1) = 0x55 OR ?ws ! j"
    if "j < 8" for j
    using that r(3) [rule_format, of "2 * j"] r(3) [rule_format, of "2 * j + 1"] nth_encoded [of j ?ws] len
    by (simp_all add: off_def)
  show "dmx512rtuart_find_preamble d 256 (unat (f_payload_size f) + 1) = Some (int k)"
    using find_preamble_hit [of k d 256 0 "17 + k"] r len by (simp add: dmx512rtuart_find_preamble_def)
  show "check_pairs d off 8 = Some True"
    using pairs off len by (intro check_pairs_ok) (simp_all add: encode_pair_masks)
  have "take 12 (drop off d) = concat (map encode_pair uid)"
  proof (rule nth_equalityI)
    fix j assume "j < length (take 12 (drop off d))"
    then show "take 12 (drop off d) ! j = concat (map encode_pair uid) ! j"
      using r(3) [rule_format, of j] off len assms(2)
      by (simp add: off_def reply_words_def Let_def nth_append)
  qed (use off len assms(2) in simp)
  then show "dmx512frame_calculate_rdm_checksum d off 12 = Some c"
    using off len by (simp add: dmx512frame_calculate_rdm_checksum_def fault_simps c_def)
  have w: "?ws ! 6 = ucast (drop_bit 8 c)" "?ws ! 7 = ucast c" "\<forall>j < 6. ?ws ! j = uid ! j"
    using assms(2) by (simp_all add: reply_words_def Let_def nth_append c_def)
  show "push_bit 8 (ucast (d ! (off + 12) AND d ! (off + 13))) +
      ucast (d ! (off + 14) AND d ! (off + 15)) = c"
  proof -
    have "d ! (off + 12) AND d ! (off + 13) = ucast (drop_bit 8 c)"
      "d ! (off + 14) AND d ! (off + 15) = ucast c"
      using pairs [of 6] pairs [of 7] w by (simp_all add: encode_pair_decode add.commute)
    then show ?thesis by (simp add: checksum_split)
  qed
  fix d0 :: "u8 list" assume d0: "length d0 = 513" "\<And>j. 256 \<le> j \<Longrightarrow> j < 513 \<Longrightarrow> d0 ! j = d ! j"
  have "map (\<lambda>i. d0 ! (off + 2 * i) AND d0 ! (off + 2 * i + 1)) [0..<6] = uid"
    using assms(2) pairs w(3) off d0(2)
    by (intro nth_equalityI) (simp_all add: off_def encode_pair_decode)
  then show "decode_uid off 6 d0 = Some (blit d0 9 uid)"
    using decode_uid_blit [of off d0] off d0(1) by (simp add: off_def)
qed

lemma complete_rdm_discovery_reply_ok:
  assumes "frame_wf f" and "length uid = 6" and "received_response f k uid"
    and "dmx512frame_is_rdm_discover (f_data f)"
  shows "\<exists>f'. dmx512rtuart_complete_rdm_discovery_reply f = Some (0, f') \<and> frame_wf f' \<and>
     take 6 (drop RDM_POS_SRC_UID (f_data f')) = uid \<and>
     take 6 (drop RDM_POS_DEST_UID (f_data f')) = take 6 (drop RDM_POS_SRC_UID (f_data f)) \<and>
     dmx512frame_is_rdm_discover_reply (f_data f') \<and> rdm_checksum_ok (f_data f') 24 \<and>
     f_payload_size f' = 25 \<and> f_data f' ! RDM_POS_LENGTH = 24"
proof -
  let ?d = "f_data f"
  define off where "off = 256 + k + 1"
  note acc = received_response_accepted [OF assms(1-3), folded off_def]
  have len: "length ?d = 513" using assms(1) by simp
  define d0 where "d0 = blit ?d 3 (take 6 (drop 9 ?d))"
  define d1 where "d1 = (blit d0 9 uid)[20 := DISCOVERY_COMMAND_RESPONSE, 23 := 0]"
  define d2 where "d2 = d1[2 := 24]"
  define d3 where "d3 = d2[24 := ucast (drop_bit 8 (rdm_sum (take 24 d2))), 25 := ucast (rdm_sum (take 24 d2))]"
  have len': "length d0 = 513" "length d1 = 513" "length d2 = 513" "length d3 = 513"
    using len assms(2) by (simp_all add: d0_def d1_def d2_def d3_def)
  have dec: "decode_uid off 6 d0 = Some (blit d0 9 uid)"
    using acc(6) [OF len'(1)] len by (simp add: d0_def)
  have sz: "update_rdm_sizes_from_pdl (f\<lparr>f_data := d1\<rparr>) = Some (f\<lparr>f_data := d2, f_payload_size := 25\<rparr>)"
    using assms(1,2) len'
    by (simp add: update_rdm_sizes_Some d2_def) (simp add: d1_def nth_list_update)
  have "dmx512rtuart_complete_rdm_discovery_reply f = Some (0, f\<lparr>f_data := d3, f_payload_size := 25\<rparr>)"
  proof -
    have o: "256 + nat (int k) + 1 = off" "int k > - 1" by (simp_all add: off_def)
    show ?thesis
      unfolding dmx512rtuart_complete_rdm_discovery_reply_def Let_def acc(1) bind.bind_lunit o(1)
      using acc(2-5) len dec sz len' assms(2) o(2)
      by (simp add: fault_simps d0_def [symmetric] d1_def [symmetric] arr_set_int_def
          dmx512frame_calculate_rdm_checksum_def [of d2] d3_def)
  qed
  moreover have "rdm_checksum_ok d3 24" using put_checksum_ok [of 24 d2] len' by (simp add: d3_def)
  moreover have "take 6 (drop 9 d3) = uid" "take 6 (drop 3 d3) = take 6 (drop 9 ?d)"
    using len len' assms(2)
    by (auto intro!: nth_equalityI simp: d3_def d2_def d1_def d0_def nth_list_update nth_blit)
  moreover have "dmx512frame_is_rdm_discover_reply d3" "d3 ! 2 = 24"
    using assms(2,4) len len'
    by (simp_all add: dmx512frame_is_rdm_discover_def dmx512frame_is_rdm_discover_reply_def d3_def d2_def
        d1_def d0_def nth_list_update)
  ultimately show ?thesis using assms(1) len' by simp
qed

lemma find_preamble_range:
  "off + i + n \<le> length d \<Longrightarrow>
   \<exists>p. find_preamble_from d off i n = Some p \<and> p < int (i + n) \<and> (p = -1 \<or> p = -2 \<or> int i \<le> p)"
proof (induction n arbitrary: i)
  case (Suc n)
  then show ?case using Suc.IH [of "Suc i"] by (force simp: fault_simps)
qed simp

lemma complete_rdm_discovery_reply_total:
  assumes "frame_wf f" and "unat (f_payload_size f) \<le> 240"
  shows "\<exists>r f'. dmx512rtuart_complete_rdm_discovery_reply f = Some (r, f') \<and> frame_wf f' \<and>
     (r = 0 \<or> r = -1 \<and> f' = f)"
proof -
  let ?d = "f_data f"
  have len: "length ?d = 513" using assms(1) by simp
  obtain p where p: "dmx512rtuart_find_preamble ?d 256 (unat (f_payload_size f) + 1) = Some p"
      "p \<le> 240"
  proof -
    obtain p where "find_preamble_from ?d 256 0 (unat (f_payload_size f) + 1) = Some p"
        and "p < int (0 + (unat (f_payload_size f) + 1))"
      using find_preamble_range [of 256 0 "unat (f_payload_size f) + 1" ?d] assms(2) len by auto
    moreover have "int (0 + (unat (f_payload_size f) + 1)) \<le> 241"
      using assms(2) by linarith
    ultimately show thesis
      using that [of p] unfolding dmx512rtuart_find_preamble_def by linarith
  qed
  define off where "off = (if p > -1 then 256 + nat p + 1 else 256)"
  have off: "15 \<le> off" "off + 16 \<le> 513" using p(2) by (auto simp: off_def)
  obtain ok where ok: "(if p > -1 then check_pairs ?d off 8 else Some True) = Some ok"
    using check_pairs_no_fault [of off 8 ?d] off len by (cases "p > -1") auto
  have len0: "length (blit ?d 3 (take 6 (drop 9 ?d))) = 513" using len by simp
  show ?thesis
    unfolding dmx512rtuart_complete_rdm_discovery_reply_def Let_def p(1) bind.bind_lunit
      off_def [symmetric] ok
    using off len assms(1)
    by (simp add: fault_simps dmx512frame_calculate_rdm_checksum_def decode_uid_blit len0
        update_rdm_sizes_Some nth_list_update arr_set_int_def)
qed

section \<open>Properties\<close>

text \<open>A discovery request from UID \<open>01:02:..:06\<close> and the response of UID \<open>A1:..:A6\<close> behind it.\<close>

definition demo_request :: dmx512frame where
  "demo_request = zero_frame\<lparr>f_payload_size := 37, f_data := blit ((replicate 513 0)
     [0 := SC_RDM, 1 := SC_SUB_MESSAGE, 2 := 36, 20 := DISCOVERY_COMMAND, 22 := 1, 23 := 12])
     9 [1, 2, 3, 4, 5, 6]\<rparr>"

definition demo_uid :: "u8 list" where
  "demo_uid = [0xA1, 0xA2, 0xA3, 0xA4, 0xA5, 0xA6]"

definition demo_response :: dmx512frame where
  "demo_response = demo_request\<lparr>f_payload_size := 23,
     f_data := blit (f_data demo_request) 256 (discovery_reply_octets demo_uid)\<rparr>"

lemma demo_rdm_facts:
  "frame_wf demo_request" "dmx512frame_is_rdm_discover (f_data demo_request)" "length demo_uid = 6"
  "frame_wf demo_response" "dmx512frame_is_rdm_discover (f_data demo_response)"
  "received_response demo_response 7 demo_uid"
proof -
  have l: "length (f_data demo_request) = 513" "length (discovery_reply_octets demo_uid) = 24"
    by (simp_all add: demo_request_def length_discovery_reply_octets demo_uid_def)
  show "frame_wf demo_request" by (simp add: demo_request_def)
  show r: "dmx512frame_is_rdm_discover (f_data demo_request)"
    by (simp add: demo_request_def dmx512frame_is_rdm_discover_def rdm_const_defs nth_list_update)
  show "length demo_uid = 6" by (simp add: demo_uid_def)
  show "frame_wf demo_response"
    using l by (simp add: demo_response_def demo_request_def)
  show "dmx512frame_is_rdm_discover (f_data demo_response)"
    using r l by (simp add: demo_response_def dmx512frame_is_rdm_discover_def)
  show "received_response demo_response 7 demo_uid"
    using take_drop_blit [of 256 "discovery_reply_octets demo_uid" "f_data demo_request"] l
    by (simp add: received_response_def demo_response_def)
qed

text \<open>
  C5. Discovery round trip: when the receive buffer behind a copy of the discovery request holds the
  octets a responder with UID \<open>uid\<close> sends, of whose seven preamble octets any \<open>k\<close> arrived, the
  decoder accepts and turns the frame into the RDM discovery reply of that UID: source \<open>uid\<close>,
  destination the requester, command class response, length octet and payload size of an empty
  reply, and a valid RDM checksum.
\<close>

theorem rdm_discovery_roundtrip:
  assumes "frame_wf f" and "length uid = 6" and "received_response f k uid"
    and "dmx512frame_is_rdm_discover (f_data f)"
  shows "\<exists>f'. dmx512rtuart_complete_rdm_discovery_reply f = Some (0, f') \<and> frame_wf f' \<and>
     take 6 (drop RDM_POS_SRC_UID (f_data f')) = uid \<and>
     take 6 (drop RDM_POS_DEST_UID (f_data f')) = take 6 (drop RDM_POS_SRC_UID (f_data f)) \<and>
     dmx512frame_is_rdm_discover_reply (f_data f') \<and> rdm_checksum_ok (f_data f') 24 \<and>
     f_payload_size f' = 25 \<and> f_data f' ! RDM_POS_LENGTH = 24"
  using assms by (rule complete_rdm_discovery_reply_ok)

theorem rdm_discovery_roundtrip_witness:
  "\<exists>f'. dmx512rtuart_complete_rdm_discovery_reply demo_response = Some (0, f') \<and>
     take 6 (drop 9 (f_data f')) = [0xA1, 0xA2, 0xA3, 0xA4, 0xA5, 0xA6]"
  using rdm_discovery_roundtrip [OF demo_rdm_facts(4,3,6,5)] by (auto simp: demo_uid_def)

text \<open>
  The replies the driver synthesises from a discovery request, for a collision (source UID all
  ones) and for silence (source UID zero), are well-formed RDM discovery replies addressed to the
  requester, with the response type \<open>RESPONSE_TYPE_NOREPLY\<close>, a length octet that agrees with the
  payload size and a valid checksum.
\<close>

theorem rdm_synthesised_replies:
  assumes "frame_wf f" and "dmx512frame_is_rdm_discover (f_data f)"
  shows "\<exists>c t. rdm_discovery_reply_collision f = Some c \<and> rdm_discovery_reply_timeout f = Some t \<and>
     take 6 (drop RDM_POS_SRC_UID (f_data c)) = replicate 6 0xFF \<and>
     take 6 (drop RDM_POS_SRC_UID (f_data t)) = replicate 6 0 \<and>
     (\<forall>f' \<in> {c, t}. frame_wf f' \<and> dmx512frame_is_rdm_discover_reply (f_data f') \<and>
        rdm_checksum_ok (f_data f') 24 \<and> f_payload_size f' = 25 \<and> f_data f' ! RDM_POS_LENGTH = 24 \<and>
        f_data f' ! RDM_POS_RESPONSE_TYPE = RESPONSE_TYPE_NOREPLY \<and>
        take 6 (drop RDM_POS_DEST_UID (f_data f')) = take 6 (drop RDM_POS_SRC_UID (f_data f)))"
proof -
  obtain c where c: "rdm_discovery_reply_with 0xFF f = Some c" and
    *: "frame_wf c" "dmx512frame_is_rdm_discover_reply (f_data c)" "rdm_checksum_ok (f_data c) 24"
       "f_payload_size c = 25" "f_data c ! RDM_POS_LENGTH = 24"
       "f_data c ! RDM_POS_RESPONSE_TYPE = RESPONSE_TYPE_NOREPLY"
       "take 6 (drop RDM_POS_DEST_UID (f_data c)) = take 6 (drop RDM_POS_SRC_UID (f_data f))"
       "take 6 (drop RDM_POS_SRC_UID (f_data c)) = replicate 6 0xFF"
    using rdm_discovery_reply_with_ok [where fill = "0xFF", OF assms] by blast
  obtain t where t: "rdm_discovery_reply_with 0 f = Some t" and
    **: "frame_wf t" "dmx512frame_is_rdm_discover_reply (f_data t)" "rdm_checksum_ok (f_data t) 24"
       "f_payload_size t = 25" "f_data t ! RDM_POS_LENGTH = 24"
       "f_data t ! RDM_POS_RESPONSE_TYPE = RESPONSE_TYPE_NOREPLY"
       "take 6 (drop RDM_POS_DEST_UID (f_data t)) = take 6 (drop RDM_POS_SRC_UID (f_data f))"
       "take 6 (drop RDM_POS_SRC_UID (f_data t)) = replicate 6 0"
    using rdm_discovery_reply_with_ok [where fill = 0, OF assms] by blast
  show ?thesis
    using c t * ** by (simp add: rdm_discovery_reply_collision_def rdm_discovery_reply_timeout_def)
qed

theorem rdm_synthesised_replies_witness:
  "\<exists>c. rdm_discovery_reply_collision demo_request = Some c \<and> f_payload_size c = 25 \<and>
     take 6 (drop 9 (f_data c)) = replicate 6 0xFF"
  using rdm_synthesised_replies [OF demo_rdm_facts(1,2)] by auto

text \<open>
  The decoder never reads or writes outside the frame as long as at most 241 octets were
  received, and it rejects without touching the frame or accepts: there is no partial update.
\<close>

theorem rdm_decoder_safe:
  assumes "frame_wf f" and "unat (f_payload_size f) \<le> 240"
  shows "\<exists>r f'. dmx512rtuart_complete_rdm_discovery_reply f = Some (r, f') \<and> frame_wf f' \<and>
     (r = 0 \<or> r = -1 \<and> f' = f)"
  using assms by (rule complete_rdm_discovery_reply_total)

theorem rdm_decoder_safe_witness:
  "\<exists>r f'. dmx512rtuart_complete_rdm_discovery_reply (zero_frame\<lparr>f_payload_size := 240\<rparr>) = Some (r, f')"
  using rdm_decoder_safe [of "zero_frame\<lparr>f_payload_size := 240\<rparr>"] by auto

end
