(* ===== verification/Kernel_List.thy ===== *)
theory Kernel_List
  imports Prelude
begin

text \<open>
  The doubly linked list of \<^verbatim>\<open>src/src/kernel_emulation/include/linux/list.h\<close>, at the level of
  its \<open>next\<close> and \<open>prev\<close> pointers. A heap maps the address of a list node to the node;
  writing through a pointer that is not in the heap is a fault (\<^term>\<open>None\<close>).

  \<open>dll h hp xs\<close> says that the circular list with head node \<open>hp\<close> holds the nodes \<open>xs\<close> in this
  order. Each operation is related to the list operation it implements, and changes no node
  outside the list and the node added or removed.
\<close>

section \<open>Nodes and the heap\<close>

record list_head =
  lh_next :: addr
  lh_prev :: addr

type_synonym lheap = "addr \<rightharpoonup> list_head"

definition set_next :: "addr \<Rightarrow> addr \<Rightarrow> lheap \<Rightarrow> lheap option" where
  "set_next p v h = (case h p of None \<Rightarrow> None | Some n \<Rightarrow> Some (h(p \<mapsto> n\<lparr>lh_next := v\<rparr>)))"

definition set_prev :: "addr \<Rightarrow> addr \<Rightarrow> lheap \<Rightarrow> lheap option" where
  "set_prev p v h = (case h p of None \<Rightarrow> None | Some n \<Rightarrow> Some (h(p \<mapsto> n\<lparr>lh_prev := v\<rparr>)))"

definition get_next :: "addr \<Rightarrow> lheap \<Rightarrow> addr option" where
  "get_next p h = map_option lh_next (h p)"

definition get_prev :: "addr \<Rightarrow> lheap \<Rightarrow> addr option" where
  "get_prev p h = map_option lh_prev (h p)"

section \<open>The operations of list.h\<close>

definition INIT_LIST_HEAD :: "addr \<Rightarrow> lheap \<Rightarrow> lheap option" where
  "INIT_LIST_HEAD p h = do { h \<leftarrow> set_next p p h; set_prev p p h }"

text \<open>\<open>__list_add\<close> and \<open>__list_del\<close>, the internal operations on known neighbours.\<close>

definition ll_list_add :: "addr \<Rightarrow> addr \<Rightarrow> addr \<Rightarrow> lheap \<Rightarrow> lheap option" where
  "ll_list_add add prev next h = do {
     h \<leftarrow> set_prev next add h;
     h \<leftarrow> set_next add next h;
     h \<leftarrow> set_prev add prev h;
     set_next prev add h }"

definition list_add :: "addr \<Rightarrow> addr \<Rightarrow> lheap \<Rightarrow> lheap option" where
  "list_add add head h = do { n \<leftarrow> get_next head h; ll_list_add add head n h }"

definition list_add_tail :: "addr \<Rightarrow> addr \<Rightarrow> lheap \<Rightarrow> lheap option" where
  "list_add_tail add head h = do { p \<leftarrow> get_prev head h; ll_list_add add p head h }"

definition ll_list_del :: "addr \<Rightarrow> addr \<Rightarrow> lheap \<Rightarrow> lheap option" where
  "ll_list_del prev next h = do { h \<leftarrow> set_prev next prev h; set_next prev next h }"

definition list_del :: "addr \<Rightarrow> lheap \<Rightarrow> lheap option" where
  "list_del entry h = do {
     p \<leftarrow> get_prev entry h;
     n \<leftarrow> get_next entry h;
     ll_list_del p n h }"

definition list_del_init :: "addr \<Rightarrow> lheap \<Rightarrow> lheap option" where
  "list_del_init entry h = do {
     p \<leftarrow> get_prev entry h;
     n \<leftarrow> get_next entry h;
     h \<leftarrow> ll_list_del p n h;
     INIT_LIST_HEAD entry h }"

definition list_empty :: "addr \<Rightarrow> lheap \<Rightarrow> bool option" where
  "list_empty head h = do { n \<leftarrow> get_next head h; Some (n = head) }"

definition list_entry_is_last :: "addr \<Rightarrow> addr \<Rightarrow> lheap \<Rightarrow> bool option" where
  "list_entry_is_last entry head h = do { p \<leftarrow> get_prev head h; Some (p = entry) }"

definition list_splice :: "addr \<Rightarrow> addr \<Rightarrow> lheap \<Rightarrow> lheap option" where
  "list_splice lst head h = do {
     first \<leftarrow> get_next lst h;
     if first \<noteq> lst then do {
       last \<leftarrow> get_prev lst h;
       at \<leftarrow> get_next head h;
       h \<leftarrow> set_prev first head h;
       h \<leftarrow> set_next head first h;
       h \<leftarrow> set_next last at h;
       set_prev at last h }
     else Some h }"

text \<open>
  \<open>list_for_each\<close> visits the nodes from \<open>pos\<close> until it is back at the head. The macro does not
  bound its iterations; the model counts down \<open>fuel\<close>, and \<open>list_for_each_dll\<close> below shows that
  the length of the list plus one is enough.
\<close>

fun list_for_each :: "nat \<Rightarrow> addr \<Rightarrow> addr \<Rightarrow> lheap \<Rightarrow> addr list option" where
  "list_for_each 0 pos head h = None"
| "list_for_each (Suc fuel) pos head h =
     (if pos = head then Some []
      else do { n \<leftarrow> get_next pos h;
                xs \<leftarrow> list_for_each fuel n head h;
                Some (pos # xs) })"

section \<open>Well-formed lists\<close>

definition link :: "lheap \<Rightarrow> addr \<Rightarrow> addr \<Rightarrow> bool" where
  "link h p q \<longleftrightarrow> get_next p h = Some q \<and> get_prev q h = Some p"

fun chain :: "lheap \<Rightarrow> addr \<Rightarrow> addr list \<Rightarrow> addr \<Rightarrow> bool" where
  "chain h p [] q = link h p q"
| "chain h p (x # xs) q = (link h p x \<and> chain h x xs q)"

definition dll :: "lheap \<Rightarrow> addr \<Rightarrow> addr list \<Rightarrow> bool" where
  "dll h hp xs \<longleftrightarrow> distinct (hp # xs) \<and> chain h hp xs hp"

lemma chain_append: "chain h p (xs @ y # ys) q \<longleftrightarrow> chain h p xs y \<and> chain h y ys q"
  by (induction xs arbitrary: p) auto

lemma get_set_next:
  "set_next p v h = Some h' \<Longrightarrow> get_next q h' = (if q = p then Some v else get_next q h)"
  "set_next p v h = Some h' \<Longrightarrow> get_prev q h' = get_prev q h"
  "set_next p v h = Some h' \<Longrightarrow> q \<noteq> p \<Longrightarrow> h' q = h q"
  "set_next p v h = Some h' \<Longrightarrow> dom h' = dom h"
  by (auto simp: set_next_def get_next_def get_prev_def split: option.splits if_splits)

lemma get_set_prev:
  "set_prev p v h = Some h' \<Longrightarrow> get_prev q h' = (if q = p then Some v else get_prev q h)"
  "set_prev p v h = Some h' \<Longrightarrow> get_next q h' = get_next q h"
  "set_prev p v h = Some h' \<Longrightarrow> q \<noteq> p \<Longrightarrow> h' q = h q"
  "set_prev p v h = Some h' \<Longrightarrow> dom h' = dom h"
  by (auto simp: set_prev_def get_next_def get_prev_def split: option.splits if_splits)

lemma set_next_ex: "p \<in> dom h \<Longrightarrow> \<exists>h'. set_next p v h = Some h'"
  by (auto simp: set_next_def)

lemma set_prev_ex: "p \<in> dom h \<Longrightarrow> \<exists>h'. set_prev p v h = Some h'"
  by (auto simp: set_prev_def)

lemma linkD:
  "link h p q \<Longrightarrow> p \<in> dom h" "link h p q \<Longrightarrow> q \<in> dom h"
  "link h p q \<Longrightarrow> get_next p h = Some q" "link h p q \<Longrightarrow> get_prev q h = Some p"
  by (auto simp: link_def get_next_def get_prev_def)

lemma chain_dom: "chain h p xs q \<Longrightarrow> insert p (insert q (set xs)) \<subseteq> dom h"
  by (induction xs arbitrary: p) (auto dest: linkD)

lemma chain_cong:
  assumes "\<And>x. x \<in> insert p (set xs) \<Longrightarrow> get_next x h' = get_next x h"
    and "\<And>x. x \<in> insert q (set xs) \<Longrightarrow> get_prev x h' = get_prev x h"
  shows "chain h' p xs q = chain h p xs q"
  using assms by (induction xs arbitrary: p) (auto simp: link_def)

lemma chain_frame:
  assumes "\<And>x. x \<noteq> a \<Longrightarrow> x \<noteq> e \<Longrightarrow> get_next x h' = get_next x h"
    and "\<And>x. x \<noteq> b \<Longrightarrow> x \<noteq> e \<Longrightarrow> get_prev x h' = get_prev x h"
    and "a \<notin> insert p (set xs)" and "b \<notin> insert q (set xs)"
    and "e \<notin> insert p (insert q (set xs))"
  shows "chain h' p xs q = chain h p xs q"
  using assms by (intro chain_cong) (metis insert_iff)+

lemma chain_first: "chain h p xs q \<Longrightarrow> get_next p h = Some (case xs of [] \<Rightarrow> q | x # _ \<Rightarrow> x)"
  by (cases xs) (auto dest: linkD)

lemma chain_last: "chain h p xs q \<Longrightarrow> get_prev q h = Some (if xs = [] then p else last xs)"
  by (induction xs arbitrary: p) (auto dest: linkD split: if_splits)

lemma dll_frame:
  assumes "dll h hp xs" and "\<And>x. x \<in> insert hp (set xs) \<Longrightarrow> h' x = h x"
  shows "dll h' hp xs"
proof -
  have "chain h' hp xs hp = chain h hp xs hp"
    using assms(2) by (intro chain_cong) (auto simp: get_next_def get_prev_def)
  then show ?thesis using assms(1) by (simp add: dll_def)
qed

section \<open>Correctness of the operations\<close>

lemma ll_list_add_link:
  assumes "link h p q" and "e \<in> dom h" and "e \<noteq> p" and "e \<noteq> q"
  obtains h' where "ll_list_add e p q h = Some h'" "link h' p e" "link h' e q"
    "\<And>x. x \<noteq> p \<Longrightarrow> x \<noteq> e \<Longrightarrow> get_next x h' = get_next x h"
    "\<And>x. x \<noteq> q \<Longrightarrow> x \<noteq> e \<Longrightarrow> get_prev x h' = get_prev x h"
    "\<And>x. x \<notin> {p, q, e} \<Longrightarrow> h' x = h x" "dom h' = dom h"
proof -
  from assms obtain h1 where h1: "set_prev q e h = Some h1"
    using linkD(2) set_prev_ex by blast
  note f1 = get_set_prev [OF h1]
  from assms f1 obtain h2 where h2: "set_next e q h1 = Some h2" using set_next_ex by blast
  note f2 = get_set_next [OF h2]
  from assms f1 f2 obtain h3 where h3: "set_prev e p h2 = Some h3" using set_prev_ex by blast
  note f3 = get_set_prev [OF h3]
  from assms f1 f2 f3 obtain h4 where h4: "set_next p e h3 = Some h4"
    using linkD(1) set_next_ex by metis
  note f4 = get_set_next [OF h4]
  show ?thesis
  proof
    show "ll_list_add e p q h = Some h4" by (simp add: ll_list_add_def h1 h2 h3 h4)
    show "link h4 p e" and "link h4 e q" using assms f1 f2 f3 f4 by (simp_all add: link_def)
  qed (use f1 f2 f3 f4 in auto)
qed

text \<open>Inserting a fresh node between two neighbours of a list, wherever they are.\<close>

lemma dll_insert:
  assumes "dll h hp (xs @ ys)" and "e \<in> dom h" and "e \<notin> set (hp # xs @ ys)"
    and p: "p = (if xs = [] then hp else last xs)"
    and q: "q = (case ys of [] \<Rightarrow> hp | y # _ \<Rightarrow> y)"
  obtains h' where "ll_list_add e p q h = Some h'" "dll h' hp (xs @ e # ys)"
    "\<And>x. x \<notin> insert e (set (hp # xs @ ys)) \<Longrightarrow> h' x = h x" "dom h' = dom h"
proof -
  have d: "distinct (hp # xs @ ys)" and whole: "chain h hp (xs @ ys) hp"
    using assms(1) by (simp_all add: dll_def)
  have lk: "link h p q"
    using whole by (cases xs rule: rev_cases; cases ys) (auto simp: p q chain_append)
  have "e \<noteq> p" "e \<noteq> q" using assms(3) by (auto simp: p q split: list.splits if_splits)
  with lk assms(2) obtain h' where h':
      "ll_list_add e p q h = Some h'" "link h' p e" "link h' e q"
      "\<And>x. x \<noteq> p \<Longrightarrow> x \<noteq> e \<Longrightarrow> get_next x h' = get_next x h"
      "\<And>x. x \<noteq> q \<Longrightarrow> x \<noteq> e \<Longrightarrow> get_prev x h' = get_prev x h"
      "\<And>x. x \<notin> {p, q, e} \<Longrightarrow> h' x = h x" "dom h' = dom h"
    using ll_list_add_link by (metis (no_types, lifting))
  have "chain h' hp xs e"
  proof (cases xs rule: rev_cases)
    case Nil
    with h'(2) p show ?thesis by simp
  next
    case (snoc zs z)
    have "chain h' hp zs z = chain h hp zs z"
    proof (rule chain_frame [OF h'(4,5)])
      show "p \<notin> insert hp (set zs)" and "e \<notin> insert hp (insert z (set zs))"
        using d assms(3) snoc p by auto
      show "q \<notin> insert z (set zs)" using d snoc q by (cases ys) auto
    qed
    moreover have "chain h hp zs z" using whole snoc by (simp add: chain_append)
    ultimately show ?thesis using snoc h'(2) p by (simp add: chain_append)
  qed
  moreover have "chain h' e ys hp"
  proof (cases ys)
    case Nil
    with h'(3) q show ?thesis by simp
  next
    case (Cons z zs)
    have "chain h' z zs hp = chain h z zs hp"
    proof (rule chain_frame [OF h'(4,5)])
      show "q \<notin> insert hp (set zs)" and "e \<notin> insert z (insert hp (set zs))"
        using d assms(3) Cons q by auto
      show "p \<notin> insert z (set zs)" using d Cons p by (cases xs rule: rev_cases) auto
    qed
    moreover have "chain h z zs hp" using whole Cons by (simp add: chain_append)
    ultimately show ?thesis using Cons h'(3) q by simp
  qed
  ultimately have "dll h' hp (xs @ e # ys)"
    using assms(1,3) by (auto simp: dll_def chain_append)
  moreover have "h' x = h x" if "x \<notin> insert e (set (hp # xs @ ys))" for x
    using that by (intro h'(6)) (auto simp: p q split: list.splits if_splits)
  ultimately show ?thesis using that h'(1,7) by blast
qed

lemma list_add_tail_dll:
  assumes "dll h hp xs" and "e \<in> dom h" and "e \<notin> set (hp # xs)"
  obtains h' where "list_add_tail e hp h = Some h'" "dll h' hp (xs @ [e])"
    "\<And>x. x \<notin> insert e (set (hp # xs)) \<Longrightarrow> h' x = h x" "dom h' = dom h"
proof -
  have "get_prev hp h = Some (if xs = [] then hp else last xs)"
    using assms(1) chain_last by (auto simp: dll_def)
  then show ?thesis
    using dll_insert [of h hp xs "[]" e "if xs = [] then hp else last xs" hp] assms that
    by (auto simp: list_add_tail_def)
qed

lemma list_add_dll:
  assumes "dll h hp xs" and "e \<in> dom h" and "e \<notin> set (hp # xs)"
  obtains h' where "list_add e hp h = Some h'" "dll h' hp (e # xs)"
    "\<And>x. x \<notin> insert e (set (hp # xs)) \<Longrightarrow> h' x = h x" "dom h' = dom h"
proof -
  have "get_next hp h = Some (case xs of [] \<Rightarrow> hp | y # _ \<Rightarrow> y)"
    using assms(1) chain_first by (auto simp: dll_def)
  then show ?thesis
    using dll_insert [of h hp "[]" xs e hp "case xs of [] \<Rightarrow> hp | y # _ \<Rightarrow> y"] assms that
    by (auto simp: list_add_def)
qed

lemma ll_list_del_link:
  assumes "p \<in> dom h" and "q \<in> dom h"
  obtains h' where "ll_list_del p q h = Some h'" "link h' p q"
    "\<And>x. x \<noteq> p \<Longrightarrow> get_next x h' = get_next x h"
    "\<And>x. x \<noteq> q \<Longrightarrow> get_prev x h' = get_prev x h"
    "\<And>x. x \<notin> {p, q} \<Longrightarrow> h' x = h x" "dom h' = dom h"
proof -
  from assms obtain h1 where h1: "set_prev q p h = Some h1" using set_prev_ex by blast
  note f1 = get_set_prev [OF h1]
  from assms f1 obtain h2 where h2: "set_next p q h1 = Some h2" using set_next_ex by blast
  note f2 = get_set_next [OF h2]
  show ?thesis
  proof
    show "ll_list_del p q h = Some h2" by (simp add: ll_list_del_def h1 h2)
    show "link h2 p q" using f1 f2 by (simp add: link_def)
  qed (use f1 f2 in auto)
qed

lemma list_del_dll:
  assumes "dll h hp (xs @ e # ys)"
  obtains h' where "list_del e h = Some h'" "dll h' hp (xs @ ys)" "h' e = h e"
    "\<And>x. x \<notin> set (hp # xs @ ys) \<Longrightarrow> h' x = h x" "dom h' = dom h"
proof -
  define p where "p = (if xs = [] then hp else last xs)"
  define q where "q = (case ys of [] \<Rightarrow> hp | y # _ \<Rightarrow> y)"
  have d: "distinct (hp # xs @ e # ys)" and c: "chain h hp xs e" "chain h e ys hp"
    using assms by (simp_all add: dll_def chain_append)
  have pq: "get_prev e h = Some p" "get_next e h = Some q"
    using c chain_last chain_first by (auto simp: p_def q_def)
  have "p \<in> dom h"
    using chain_dom [OF c(1)] by (cases xs rule: rev_cases) (auto simp: p_def)
  moreover have "q \<in> dom h"
    using chain_dom [OF c(2)] by (cases ys) (auto simp: q_def)
  ultimately obtain h' where h': "ll_list_del p q h = Some h'" "link h' p q"
      "\<And>x. x \<noteq> p \<Longrightarrow> get_next x h' = get_next x h" "\<And>x. x \<noteq> q \<Longrightarrow> get_prev x h' = get_prev x h"
      "\<And>x. x \<notin> {p, q} \<Longrightarrow> h' x = h x" "dom h' = dom h"
    using ll_list_del_link by (metis (no_types, lifting))
  have ne: "e \<noteq> p" "e \<noteq> q" using d by (auto simp: p_def q_def split: list.splits if_splits)
  have "chain h' hp (xs @ ys) hp"
  proof (cases xs rule: rev_cases)
    case Nil
    show ?thesis
    proof (cases ys)
      case (Cons z zs)
      have "chain h' z zs hp = chain h z zs hp"
        using d Cons Nil by (intro chain_frame [of p e _ _ q]) (auto simp: h' p_def q_def)
      then show ?thesis using c Cons Nil h'(2) by (simp add: p_def q_def)
    qed (use Nil h'(2) in \<open>simp add: p_def q_def\<close>)
  next
    case (snoc us u)
    have u: "chain h' hp us u = chain h hp us u"
      using d snoc by (intro chain_frame [of p e _ _ q])
        (auto simp: h' p_def q_def split: list.splits)
    show ?thesis
    proof (cases ys)
      case (Cons z zs)
      have "chain h' z zs hp = chain h z zs hp"
        using d Cons snoc by (intro chain_frame [of p e _ _ q]) (auto simp: h' p_def q_def)
      then show ?thesis using u c Cons snoc h'(2) by (simp add: p_def q_def chain_append)
    qed (use u c snoc h'(2) in \<open>simp add: p_def q_def chain_append\<close>)
  qed
  moreover have "h' x = h x" if "x \<notin> set (hp # xs @ ys)" for x
    using that by (intro h'(5)) (auto simp: p_def q_def split: list.splits if_splits)
  moreover have "list_del e h = Some h'" using pq h'(1) by (simp add: list_del_def)
  ultimately show ?thesis using that d h'(5,6) ne by (auto simp: dll_def)
qed

lemma INIT_LIST_HEAD_dll:
  assumes "p \<in> dom h"
  obtains h' where "INIT_LIST_HEAD p h = Some h'" "dll h' p []"
    "\<And>x. x \<noteq> p \<Longrightarrow> h' x = h x" "dom h' = dom h"
proof -
  from assms obtain h1 where h1: "set_next p p h = Some h1" using set_next_ex by blast
  note f1 = get_set_next [OF h1]
  from assms f1 obtain h2 where h2: "set_prev p p h1 = Some h2" using set_prev_ex by blast
  note f2 = get_set_prev [OF h2]
  show ?thesis
  proof
    show "INIT_LIST_HEAD p h = Some h2" by (simp add: INIT_LIST_HEAD_def h1 h2)
    show "dll h2 p []" using f1 f2 by (simp add: dll_def link_def)
  qed (use f1 f2 in auto)
qed

lemma list_empty_dll: "dll h hp xs \<Longrightarrow> list_empty hp h = Some (xs = [])"
  using chain_first [of h hp xs hp] by (cases xs) (auto simp: dll_def list_empty_def)

lemma list_first_dll: "dll h hp (x # xs) \<Longrightarrow> get_next hp h = Some x"
  using chain_first [of h hp "x # xs" hp] by (simp add: dll_def)

lemma list_entry_is_last_dll:
  "dll h hp xs \<Longrightarrow> xs \<noteq> [] \<Longrightarrow> list_entry_is_last e hp h = Some (e = last xs)"
  using chain_last [of h hp xs hp] by (auto simp: dll_def list_entry_is_last_def)

lemma list_for_each_chain:
  "chain h p xs hp \<Longrightarrow> hp \<notin> set xs \<Longrightarrow> get_next p h = Some n \<Longrightarrow> length xs < fuel \<Longrightarrow>
   list_for_each fuel n hp h = Some xs"
proof (induction xs arbitrary: p n fuel)
  case Nil
  then show ?case by (cases fuel) (auto dest: linkD)
next
  case (Cons x xs)
  obtain f where f: "fuel = Suc f" using Cons.prems(4) by (cases fuel) auto
  have n: "n = x" using Cons.prems(1,3) by (auto dest: linkD)
  have "get_next x h = Some (case xs of [] \<Rightarrow> hp | y # _ \<Rightarrow> y)"
    using Cons.prems(1) chain_first by auto
  then show ?case using Cons f n by auto
qed

lemma list_for_each_dll:
  assumes "dll h hp xs" and "get_next hp h = Some n"
  shows "list_for_each (Suc (length xs)) n hp h = Some xs"
  using assms by (intro list_for_each_chain) (auto simp: dll_def)

text \<open>Splicing: the nodes of a list between two neighbours of another one.\<close>

lemma splice_chain:
  assumes "chain h lst zs lst" and "zs \<noteq> []" and "f = hd zs" and "l = last zs"
    and "link h' hp f" and "link h' l at"
    and nx: "\<And>x. x \<noteq> hp \<Longrightarrow> x \<noteq> l \<Longrightarrow> get_next x h' = get_next x h"
    and pv: "\<And>x. x \<noteq> f \<Longrightarrow> x \<noteq> at \<Longrightarrow> get_prev x h' = get_prev x h"
    and "distinct zs" and "hp \<notin> set zs" and "at \<notin> set zs"
  shows "chain h' hp zs at"
proof -
  obtain us where us: "zs = us @ [l]" using assms(2,4) by (metis append_butlast_last_id)
  have "chain h' hp us l"
  proof (cases us)
    case Nil
    then show ?thesis using us assms(3,5) by simp
  next
    case (Cons u vs)
    have "chain h' u vs l = chain h u vs l"
      using us Cons assms(3,9-11) by (intro chain_cong nx pv) auto
    then show ?thesis using us Cons assms(1,3,5) by (simp add: chain_append)
  qed
  then show ?thesis using us assms(6) by (simp add: chain_append)
qed

lemma list_splice_dll:
  assumes "dll h hp xs" and "dll h lst zs" and "set (hp # xs) \<inter> set (lst # zs) = {}"
  shows "\<exists>h'. list_splice lst hp h = Some h' \<and> dll h' hp (zs @ xs) \<and>
     (\<forall>x. x \<notin> set (hp # xs @ zs) \<longrightarrow> h' x = h x)"
proof (cases "zs = []")
  case True
  then show ?thesis using assms by (auto simp: list_splice_def dll_def link_def)
next
  case False
  define f l at where "f = hd zs" and "l = last zs" and "at = (case xs of [] \<Rightarrow> hp | x # _ \<Rightarrow> x)"
  have cs: "chain h hp xs hp" "chain h lst zs lst" and d: "distinct (hp # xs)" "distinct (lst # zs)"
    using assms(1,2) by (simp_all add: dll_def)
  have fl: "f \<in> set zs" "l \<in> set zs" "at \<in> set (hp # xs)" using False by (auto simp: f_def l_def at_def split: list.split)
  have in_dom: "f \<in> dom h" "l \<in> dom h" "at \<in> dom h" "hp \<in> dom h"
    using fl chain_dom [OF cs(1)] chain_dom [OF cs(2)] by auto
  have gets: "get_next lst h = Some f" "get_prev lst h = Some l" "get_next hp h = Some at"
    using chain_first [OF cs(2)] chain_last [OF cs(2)] chain_first [OF cs(1)] False
    by (auto simp: f_def l_def at_def split: list.splits)
  obtain h1 where h1: "set_prev f hp h = Some h1" using set_prev_ex [OF in_dom(1)] by blast
  note g1 = get_set_prev [OF h1]
  obtain h2 where h2: "set_next hp f h1 = Some h2" using set_next_ex [of hp h1 f] in_dom(4) g1(4) by auto
  note g2 = get_set_next [OF h2]
  obtain h3 where h3: "set_next l at h2 = Some h3" using set_next_ex [of l h2 at] in_dom(2) g1(4) g2(4) by auto
  note g3 = get_set_next [OF h3]
  obtain h' where h': "set_prev at l h3 = Some h'" using set_prev_ex [of at h3 l] in_dom(3) g1(4) g2(4) g3(4) by auto
  note g4 = get_set_prev [OF h']
  have ne: "hp \<noteq> l" "f \<noteq> at" "f \<noteq> lst" using fl assms(3) d by auto
  have lk: "link h' hp f" "link h' l at" using g1 g2 g3 g4 ne by (simp_all add: link_def)
  have fr: "\<And>x. x \<noteq> hp \<Longrightarrow> x \<noteq> l \<Longrightarrow> get_next x h' = get_next x h"
    "\<And>x. x \<noteq> f \<Longrightarrow> x \<noteq> at \<Longrightarrow> get_prev x h' = get_prev x h" using g1 g2 g3 g4 by simp_all
  have zs: "chain h' hp zs at"
    by (rule splice_chain [OF cs(2) False f_def l_def lk fr]) (use d fl assms(3) in auto)
  have "chain h' hp (zs @ xs) hp"
  proof (cases xs)
    case Nil
    then show ?thesis using zs by (simp add: at_def)
  next
    case (Cons y ys)
    have "chain h' y ys hp = chain h y ys hp"
      using Cons d fl assms(3) by (intro chain_cong fr) (auto simp: at_def)
    then show ?thesis using zs Cons cs(1) by (simp add: chain_append at_def)
  qed
  then have "dll h' hp (zs @ xs)" using d assms(3) by (auto simp: dll_def)
  moreover have "list_splice lst hp h = Some h'" using gets ne(3) h1 h2 h3 h' by (simp add: list_splice_def)
  moreover have "h' x = h x" if "x \<notin> set (hp # xs @ zs)" for x
  proof -
    have "x \<noteq> f" "x \<noteq> l" "x \<noteq> at" "x \<noteq> hp" using that fl by auto
    then show ?thesis using g1(3) g2(3) g3(3) g4(3) by simp
  qed
  ultimately show ?thesis by blast
qed

section \<open>Properties\<close>

text \<open>
  C20. On a well-formed list with head \<open>hp\<close> and nodes \<open>xs @ e # ys\<close>: \<open>list_del\<close> removes \<open>e\<close> and only
  \<open>e\<close>, a following \<open>list_add_tail\<close> of the same node appends it, \<open>list_add\<close> instead puts it first,
  \<open>list_empty\<close> tells whether nodes are left, \<open>list_entry_is_last\<close> tells whether a node is the last one,
  and \<open>list_for_each\<close> visits all nodes in order and ends. \<open>list_splice\<close> puts the nodes of a second
  list that shares no node with the first in front of those of the first. No step faults, and no node
  outside of the lists is written.
\<close>

theorem list_operations_correct:
  assumes "dll h hp (xs @ e # ys)" and "dll h lst zs" and "set (hp # xs @ e # ys) \<inter> set (lst # zs) = {}"
  shows "(\<exists>h1 h2 h3. list_del e h = Some h1 \<and> dll h1 hp (xs @ ys) \<and>
     list_add_tail e hp h1 = Some h2 \<and> dll h2 hp (xs @ ys @ [e]) \<and>
     list_add e hp h1 = Some h3 \<and> dll h3 hp (e # xs @ ys) \<and>
     list_empty hp h1 = Some (xs @ ys = []) \<and>
     (\<forall>n. get_next hp h2 = Some n \<longrightarrow>
        list_for_each (Suc (length (xs @ ys @ [e]))) n hp h2 = Some (xs @ ys @ [e])) \<and>
     (\<forall>x. x \<notin> set (hp # xs @ e # ys) \<longrightarrow> h1 x = h x \<and> h2 x = h x \<and> h3 x = h x)) \<and>
   list_entry_is_last x hp h = Some (x = last (xs @ e # ys)) \<and>
   (\<exists>h4. list_splice lst hp h = Some h4 \<and> dll h4 hp (zs @ xs @ e # ys) \<and>
     (\<forall>x. x \<notin> set (hp # (xs @ e # ys) @ zs) \<longrightarrow> h4 x = h x))"
proof -
  obtain h1 where h1: "list_del e h = Some h1" "dll h1 hp (xs @ ys)" "h1 e = h e"
      "\<And>x. x \<notin> set (hp # xs @ ys) \<Longrightarrow> h1 x = h x" "dom h1 = dom h"
    by (rule list_del_dll [OF assms(1)]) blast
  have e: "e \<in> dom h1" "e \<notin> set (hp # xs @ ys)"
    using assms(1) h1(5) chain_dom [of h hp "xs @ e # ys" hp] by (auto simp: dll_def)
  obtain h2 where h2: "list_add_tail e hp h1 = Some h2" "dll h2 hp ((xs @ ys) @ [e])"
      "\<And>x. x \<notin> insert e (set (hp # xs @ ys)) \<Longrightarrow> h2 x = h1 x"
    by (rule list_add_tail_dll [OF h1(2) e]) blast
  obtain h3 where h3: "list_add e hp h1 = Some h3" "dll h3 hp (e # xs @ ys)"
      "\<And>x. x \<notin> insert e (set (hp # xs @ ys)) \<Longrightarrow> h3 x = h1 x"
    by (rule list_add_dll [OF h1(2) e]) blast
  have last: "list_entry_is_last x hp h = Some (x = last (xs @ e # ys))"
    by (rule list_entry_is_last_dll [OF assms(1)]) simp
  have ops: "\<exists>h1 h2 h3. list_del e h = Some h1 \<and> dll h1 hp (xs @ ys) \<and>
     list_add_tail e hp h1 = Some h2 \<and> dll h2 hp (xs @ ys @ [e]) \<and>
     list_add e hp h1 = Some h3 \<and> dll h3 hp (e # xs @ ys) \<and>
     list_empty hp h1 = Some (xs @ ys = []) \<and>
     (\<forall>n. get_next hp h2 = Some n \<longrightarrow>
        list_for_each (Suc (length (xs @ ys @ [e]))) n hp h2 = Some (xs @ ys @ [e])) \<and>
     (\<forall>x. x \<notin> set (hp # xs @ e # ys) \<longrightarrow> h1 x = h x \<and> h2 x = h x \<and> h3 x = h x)"
    using h1 h2 h3 list_for_each_dll [OF h2(2)] list_empty_dll [OF h1(2)]
    by (intro exI [of _ h1] exI [of _ h2] exI [of _ h3]) auto
  show ?thesis by (intro conjI ops last list_splice_dll [OF assms])
qed

theorem list_operations_correct_witness:
  "let h = [1 \<mapsto> \<lparr>lh_next = 2, lh_prev = 3\<rparr>, 2 \<mapsto> \<lparr>lh_next = 3, lh_prev = 1\<rparr>, 3 \<mapsto> \<lparr>lh_next = 1, lh_prev = 2\<rparr>,
        4 \<mapsto> \<lparr>lh_next = 5, lh_prev = 5\<rparr>, 5 \<mapsto> \<lparr>lh_next = 4, lh_prev = 4\<rparr>] in
   dll h 1 ([] @ 2 # [3]) \<and> (\<exists>h1. list_del 2 h = Some h1 \<and> dll h1 1 [3]) \<and>
   (\<exists>h4. list_splice 4 1 h = Some h4 \<and> dll h4 1 [5, 2, 3])"
proof -
  let ?h = "[1 \<mapsto> \<lparr>lh_next = 2, lh_prev = 3\<rparr>, 2 \<mapsto> \<lparr>lh_next = 3, lh_prev = 1\<rparr>, 3 \<mapsto> \<lparr>lh_next = 1, lh_prev = 2\<rparr>,
        4 \<mapsto> \<lparr>lh_next = 5, lh_prev = 5\<rparr>, 5 \<mapsto> \<lparr>lh_next = 4, lh_prev = 4\<rparr>] :: lheap"
  have "dll ?h 1 ([] @ 2 # [3])" "dll ?h 4 [5]" "set (1 # [] @ 2 # [3]) \<inter> set (4 # [5 :: addr]) = {}"
    by (simp_all add: dll_def link_def get_next_def get_prev_def)
  then show ?thesis
    unfolding Let_def using list_operations_correct [of ?h 1 "[]" 2 "[3]" 4 "[5]" 0] by auto
qed

end
