(* ===== verification/Framequeue.thy ===== *)
theory Framequeue
  imports Kernel_List Dmx512_Frame
begin

text \<open>
  The frame queue of \<^verbatim>\<open>src/src/drivers/dmx512/core/dmx512framequeue.c\<close>, which the kernel core and
  the cuse framework both use, on the pointer structure of \<^verbatim>\<open>kernel_emulation/include/linux/list.h\<close>.
  A queue entry embeds its list node as first member, so entry and node share an address.
  The locks of the queue are not modelled: each operation is one atomic step.

  The abstract queue is a HOL list of entries. The locale \<open>frame_queue\<close> states what a client may
  rely on; it is interpreted on the pointer code and on the abstract lists, which the other
  components use.
\<close>

section \<open>Memory\<close>

definition NULL :: addr where "NULL = 0"

record fqmem =
  fq_links :: lheap
  fq_frames :: "addr \<rightharpoonup> dmx512frame"

section \<open>The operations of dmx512framequeue.c\<close>

definition dmx512_framequeue_init :: "addr \<Rightarrow> fqmem \<Rightarrow> fqmem option" where
  "dmx512_framequeue_init q m =
     (if q = NULL then Some m
      else do { h \<leftarrow> INIT_LIST_HEAD q (fq_links m); Some (m\<lparr>fq_links := h\<rparr>) })"

definition dmx512_framequeue_entry_free :: "addr \<Rightarrow> fqmem \<Rightarrow> fqmem" where
  "dmx512_framequeue_entry_free e m =
     (if e = NULL then m
      else m\<lparr>fq_links := (fq_links m)(e := None), fq_frames := (fq_frames m)(e := None)\<rparr>)"

text \<open>\<open>kzalloc\<close> is a parameter: \<open>p\<close> is the block it returned (or \<open>NULL\<close>), \<open>n\<close> and \<open>f\<close> its contents.\<close>

definition dmx512_framequeue_entry_alloc ::
    "addr \<Rightarrow> list_head \<Rightarrow> dmx512frame \<Rightarrow> fqmem \<Rightarrow> (addr \<times> fqmem) option" where
  "dmx512_framequeue_entry_alloc p n f m =
     (if p \<noteq> NULL then do {
        h \<leftarrow> INIT_LIST_HEAD p ((fq_links m)(p \<mapsto> n));
        Some (p, m\<lparr>fq_links := h, fq_frames := (fq_frames m)(p \<mapsto> f)\<rparr>) }
      else Some (NULL, m))"

definition dmx512_framequeue_isempty :: "addr \<Rightarrow> fqmem \<Rightarrow> bool option" where
  "dmx512_framequeue_isempty q m = list_empty q (fq_links m)"

text \<open>\<open>_dmx512_framequeue_get\<close> and \<open>_dmx512_framequeue_front\<close> run with the lock held.\<close>

definition u_dmx512_framequeue_get :: "addr \<Rightarrow> fqmem \<Rightarrow> (addr \<times> fqmem) option" where
  "u_dmx512_framequeue_get q m =
     (if q = NULL then Some (NULL, m)
      else do {
        em \<leftarrow> list_empty q (fq_links m);
        if \<not> em then do {
          e \<leftarrow> get_next q (fq_links m);
          if e \<noteq> NULL then do {
            h \<leftarrow> list_del e (fq_links m);
            Some (e, m\<lparr>fq_links := h\<rparr>) }
          else Some (e, m) }
        else Some (NULL, m) })"

definition dmx512_framequeue_get :: "addr \<Rightarrow> fqmem \<Rightarrow> (addr \<times> fqmem) option" where
  "dmx512_framequeue_get q m =
     (if q = NULL then Some (NULL, m) else u_dmx512_framequeue_get q m)"

definition u_dmx512_framequeue_front :: "addr \<Rightarrow> fqmem \<Rightarrow> addr option" where
  "u_dmx512_framequeue_front q m =
     (if q = NULL then Some NULL
      else do {
        em \<leftarrow> list_empty q (fq_links m);
        if \<not> em then get_next q (fq_links m) else Some NULL })"

definition dmx512_framequeue_front :: "addr \<Rightarrow> fqmem \<Rightarrow> addr option" where
  "dmx512_framequeue_front q m =
     (if q = NULL then Some NULL else u_dmx512_framequeue_front q m)"

definition dmx512_framequeue_put :: "addr \<Rightarrow> addr \<Rightarrow> fqmem \<Rightarrow> (int \<times> fqmem) option" where
  "dmx512_framequeue_put q e m =
     (if q = NULL \<or> e = NULL then Some (-1, m)
      else do { h \<leftarrow> list_add_tail e q (fq_links m); Some (0, m\<lparr>fq_links := h\<rparr>) })"

text \<open>The loop of \<open>dmx512_framequeue_cleanup\<close> runs until the queue is empty; \<open>None\<close> is a fault or
  a loop that never ends.\<close>

partial_function (option) framequeue_cleanup_loop :: "addr \<Rightarrow> fqmem \<Rightarrow> fqmem option" where
  "framequeue_cleanup_loop q m =
     Option.bind (u_dmx512_framequeue_get q m) (\<lambda>r.
       if fst r \<noteq> NULL
       then framequeue_cleanup_loop q (dmx512_framequeue_entry_free (fst r) (snd r))
       else Some (snd r))"

definition dmx512_framequeue_cleanup :: "addr \<Rightarrow> fqmem \<Rightarrow> fqmem option" where
  "dmx512_framequeue_cleanup q m = (if q = NULL then Some m else framequeue_cleanup_loop q m)"

section \<open>The abstract queue\<close>

record dmx512_framequeue_entry =
  fqe_id :: addr
  fqe_frame :: dmx512frame

type_synonym framequeue = "dmx512_framequeue_entry list"

definition fq_put :: "framequeue \<Rightarrow> dmx512_framequeue_entry \<Rightarrow> framequeue" where
  "fq_put q e = q @ [e]"

definition fq_get :: "framequeue \<Rightarrow> dmx512_framequeue_entry option \<times> framequeue" where
  "fq_get q = (case q of [] \<Rightarrow> (None, []) | e # es \<Rightarrow> (Some e, es))"

definition fq_isempty :: "framequeue \<Rightarrow> bool" where
  "fq_isempty q \<longleftrightarrow> q = []"

definition fq_cleanup :: "framequeue \<Rightarrow> framequeue" where
  "fq_cleanup q = []"

lemma fq_get_simps [simp]:
  "fq_get [] = (None, [])" "fq_get (e # es) = (Some e, es)"
  by (simp_all add: fq_get_def)

definition fq_ids :: "framequeue \<Rightarrow> addr list" where
  "fq_ids q = map fqe_id q"

lemma fq_ids_simps [simp]:
  "fq_ids [] = []" "fq_ids (e # es) = fqe_id e # fq_ids es" "fq_ids (q @ q') = fq_ids q @ fq_ids q'"
  by (simp_all add: fq_ids_def)

text \<open>The memory represents the queue: the links form the list of the entries' addresses and each
  entry holds its frame.\<close>

definition fq_repr :: "fqmem \<Rightarrow> addr \<Rightarrow> framequeue \<Rightarrow> bool" where
  "fq_repr m q es \<longleftrightarrow> NULL \<notin> dom (fq_links m) \<and> dll (fq_links m) q (fq_ids es) \<and>
     (\<forall>e \<in> set es. fq_frames m (fqe_id e) = Some (fqe_frame e))"

text \<open>An allocated entry that is not in the queue.\<close>

definition fq_fresh :: "fqmem \<Rightarrow> addr \<Rightarrow> framequeue \<Rightarrow> dmx512_framequeue_entry \<Rightarrow> bool" where
  "fq_fresh m q es e \<longleftrightarrow> fqe_id e \<in> dom (fq_links m) \<and> fqe_id e \<notin> set (q # fq_ids es) \<and>
     fq_frames m (fqe_id e) = Some (fqe_frame e)"

lemma fq_reprD:
  assumes "fq_repr m q es"
  shows "q \<noteq> NULL" and "dll (fq_links m) q (fq_ids es)" and "NULL \<notin> dom (fq_links m)"
    and "NULL \<notin> set (fq_ids es)"
  using assms chain_dom [of "fq_links m" q "fq_ids es" q] by (auto simp: fq_repr_def dll_def)

section \<open>The pointer code implements the abstract queue\<close>

lemma framequeue_put_repr:
  assumes "fq_repr m q es" and "fq_fresh m q es e"
  obtains m' where "dmx512_framequeue_put q (fqe_id e) m = Some (0, m')" "fq_repr m' q (fq_put es e)"
    "fq_frames m' = fq_frames m" "dom (fq_links m') = dom (fq_links m)"
    "\<And>x. x \<notin> insert (fqe_id e) (set (q # fq_ids es)) \<Longrightarrow> fq_links m' x = fq_links m x"
proof -
  have "fqe_id e \<in> dom (fq_links m)" "fqe_id e \<notin> set (q # fq_ids es)"
    using assms(2) by (simp_all add: fq_fresh_def)
  with fq_reprD(2) [OF assms(1)] obtain h' where h':
      "list_add_tail (fqe_id e) q (fq_links m) = Some h'" "dll h' q (fq_ids es @ [fqe_id e])"
      "\<And>x. x \<notin> insert (fqe_id e) (set (q # fq_ids es)) \<Longrightarrow> h' x = fq_links m x"
      "dom h' = dom (fq_links m)"
    using list_add_tail_dll by (metis (no_types, lifting))
  have "fqe_id e \<noteq> NULL" using assms(2) fq_reprD(3) [OF assms(1)] by (auto simp: fq_fresh_def)
  with h' show ?thesis
    using that [of "m\<lparr>fq_links := h'\<rparr>"] assms fq_reprD(1) [OF assms(1)]
    by (auto simp: dmx512_framequeue_put_def fq_put_def fq_repr_def fq_fresh_def)
qed

lemma framequeue_get_repr_Nil:
  "fq_repr m q [] \<Longrightarrow> u_dmx512_framequeue_get q m = Some (NULL, m)"
  using fq_reprD(1,2) [of m q "[]"]
  by (auto simp: u_dmx512_framequeue_get_def list_empty_dll)

lemma framequeue_get_repr_Cons:
  assumes "fq_repr m q (e # es)"
  obtains m' where "u_dmx512_framequeue_get q m = Some (fqe_id e, m')" "fq_repr m' q es"
    "fq_frames m' = fq_frames m" "dom (fq_links m') = dom (fq_links m)"
    "\<And>x. x \<notin> set (q # fq_ids es) \<Longrightarrow> fq_links m' x = fq_links m x"
proof -
  have d: "dll (fq_links m) q (fqe_id e # fq_ids es)" using fq_reprD(2) [OF assms] by simp
  then obtain h' where h': "list_del (fqe_id e) (fq_links m) = Some h'" "dll h' q (fq_ids es)"
      "\<And>x. x \<notin> set (q # fq_ids es) \<Longrightarrow> h' x = fq_links m x" "dom h' = dom (fq_links m)"
    using list_del_dll [of "fq_links m" q "[]" "fqe_id e" "fq_ids es"]
    by (metis (no_types, lifting) append_Nil)
  have "fqe_id e \<noteq> NULL" using fq_reprD(4) [OF assms] by simp
  then have "u_dmx512_framequeue_get q m = Some (fqe_id e, m\<lparr>fq_links := h'\<rparr>)"
    using fq_reprD(1) [OF assms] d h'(1)
    by (simp add: u_dmx512_framequeue_get_def list_empty_dll list_first_dll)
  with h' show ?thesis
    using that [of "m\<lparr>fq_links := h'\<rparr>"] assms by (auto simp: fq_repr_def)
qed

lemma framequeue_isempty_repr:
  "fq_repr m q es \<Longrightarrow> dmx512_framequeue_isempty q m = Some (fq_isempty es)"
  by (simp add: dmx512_framequeue_isempty_def list_empty_dll [OF fq_reprD(2)] fq_isempty_def fq_ids_def)

lemma framequeue_front_repr:
  assumes "fq_repr m q es"
  shows "dmx512_framequeue_front q m = Some (case es of [] \<Rightarrow> NULL | e # _ \<Rightarrow> fqe_id e)"
  using fq_reprD(1,2) [OF assms]
  by (cases es) (auto simp: dmx512_framequeue_front_def u_dmx512_framequeue_front_def
      list_empty_dll list_first_dll)

text \<open>Entries not in a queue can be freed without touching it.\<close>

lemma framequeue_free_repr:
  assumes "fq_repr m q es" and "a \<notin> set (q # fq_ids es)"
  shows "fq_repr (dmx512_framequeue_entry_free a m) q es"
proof -
  have "dll ((fq_links m)(a := None)) q (fq_ids es)"
    using assms(2) by (intro dll_frame [OF fq_reprD(2) [OF assms(1)]]) auto
  then show ?thesis
    using assms by (auto simp: dmx512_framequeue_entry_free_def fq_repr_def fq_ids_def)
qed

lemma framequeue_cleanup_loop_repr:
  assumes "fq_repr m q es"
  shows "\<exists>m'. framequeue_cleanup_loop q m = Some m' \<and> fq_repr m' q [] \<and>
     dom (fq_links m') = dom (fq_links m) - set (fq_ids es) \<and>
     (\<forall>x. x \<notin> set (q # fq_ids es) \<longrightarrow> fq_links m' x = fq_links m x \<and> fq_frames m' x = fq_frames m x)"
  using assms
proof (induction es arbitrary: m)
  case Nil
  then show ?case
    using framequeue_get_repr_Nil [OF Nil] by (simp add: framequeue_cleanup_loop.simps [of q m])
next
  case (Cons e es)
  from Cons.prems obtain m1 where m1: "u_dmx512_framequeue_get q m = Some (fqe_id e, m1)"
      "fq_repr m1 q es" "fq_frames m1 = fq_frames m" "dom (fq_links m1) = dom (fq_links m)"
      "\<And>x. x \<notin> set (q # fq_ids es) \<Longrightarrow> fq_links m1 x = fq_links m x"
    by (rule framequeue_get_repr_Cons) blast
  have e: "fqe_id e \<noteq> NULL" "fqe_id e \<notin> set (q # fq_ids es)"
    using fq_reprD(2,4) [OF Cons.prems] by (auto simp: dll_def)
  obtain m' where m': "framequeue_cleanup_loop q (dmx512_framequeue_entry_free (fqe_id e) m1) = Some m'"
      "fq_repr m' q []" "dom (fq_links m') = dom (fq_links m1) - {fqe_id e} - set (fq_ids es)"
      "\<And>x. x \<notin> set (q # fq_ids es) \<Longrightarrow> x \<noteq> fqe_id e \<Longrightarrow>
         fq_links m' x = fq_links m1 x \<and> fq_frames m' x = fq_frames m1 x"
    using Cons.IH [OF framequeue_free_repr [OF m1(2) e(2)]] e(1)
    by (auto simp: dmx512_framequeue_entry_free_def dom_fun_upd simp del: fun_upd_apply)
      (metis fun_upd_other)
  have "framequeue_cleanup_loop q m = Some m'"
    using m1(1) m'(1) e(1) by (simp add: framequeue_cleanup_loop.simps [of q m])
  moreover have "dom (fq_links m') = dom (fq_links m) - set (fq_ids (e # es))"
    using m'(3) m1(4) by auto
  moreover have "\<forall>x. x \<notin> set (q # fq_ids (e # es)) \<longrightarrow>
      fq_links m' x = fq_links m x \<and> fq_frames m' x = fq_frames m x"
    using m'(4) m1(3,5) by auto
  ultimately show ?case using m'(2) by blast
qed

section \<open>The interface\<close>

text \<open>Putting a list of entries, and getting up to \<open>n\<close> entries, with the operations of an interface.\<close>

fun put_all :: "('q \<Rightarrow> 'e \<Rightarrow> 'm \<Rightarrow> 'm option) \<Rightarrow> 'q \<Rightarrow> 'e list \<Rightarrow> 'm \<Rightarrow> 'm option" where
  "put_all put q [] m = Some m"
| "put_all put q (e # es) m = Option.bind (put q e m) (put_all put q es)"

fun get_upto :: "('q \<Rightarrow> 'm \<Rightarrow> ('e option \<times> 'm) option) \<Rightarrow> 'q \<Rightarrow> nat \<Rightarrow> 'm \<Rightarrow> ('e list \<times> 'm) option" where
  "get_upto get q 0 m = Some ([], m)"
| "get_upto get q (Suc n) m = do {
     (r, m) \<leftarrow> get q m;
     case r of None \<Rightarrow> Some ([], m)
     | Some e \<Rightarrow> do { (es, m) \<leftarrow> get_upto get q n m; Some (e # es, m) } }"

locale frame_queue =
  fixes repr :: "'m \<Rightarrow> 'q \<Rightarrow> 'e list \<Rightarrow> bool"
    and fresh :: "'m \<Rightarrow> 'q \<Rightarrow> 'e list \<Rightarrow> 'e \<Rightarrow> bool"
    and key :: "'e \<Rightarrow> addr"
    and put :: "'q \<Rightarrow> 'e \<Rightarrow> 'm \<Rightarrow> 'm option"
    and get :: "'q \<Rightarrow> 'm \<Rightarrow> ('e option \<times> 'm) option"
    and isempty :: "'q \<Rightarrow> 'm \<Rightarrow> bool option"
  assumes put_repr: "repr m q es \<Longrightarrow> fresh m q es e \<Longrightarrow>
      \<exists>m'. put q e m = Some m' \<and> repr m' q (es @ [e])"
    and put_fresh: "repr m q es \<Longrightarrow> fresh m q es e \<Longrightarrow> fresh m q es e' \<Longrightarrow> key e' \<noteq> key e \<Longrightarrow>
      put q e m = Some m' \<Longrightarrow> fresh m' q (es @ [e]) e'"
    and get_Nil: "repr m q [] \<Longrightarrow> get q m = Some (None, m)"
    and get_Cons: "repr m q (e # es) \<Longrightarrow> \<exists>m'. get q m = Some (Some e, m') \<and> repr m' q es"
    and isempty_repr: "repr m q es \<Longrightarrow> isempty q m = Some (es = [])"
begin

lemma put_all_repr:
  assumes "repr m q es" and "\<forall>e \<in> set xs. fresh m q es e" and "distinct (map key xs)"
  shows "\<exists>m'. put_all put q xs m = Some m' \<and> repr m' q (es @ xs)"
  using assms
proof (induction xs arbitrary: m es)
  case Nil
  then show ?case by simp
next
  case (Cons x xs)
  from Cons.prems obtain m1 where m1: "put q x m = Some m1" "repr m1 q (es @ [x])"
    using put_repr [of m q es x] by auto
  have "\<forall>e \<in> set xs. fresh m1 q (es @ [x]) e"
    using put_fresh [OF Cons.prems(1) _ _ _ m1(1)] Cons.prems(2,3) by (auto simp: image_iff)
  then show ?case using Cons.IH [OF m1(2)] Cons.prems(3) m1(1) by auto
qed

lemma get_upto_repr:
  assumes "repr m q (xs @ ys)"
  shows "\<exists>m'. get_upto get q (length xs) m = Some (xs, m') \<and> repr m' q ys"
  using assms
proof (induction xs arbitrary: m)
  case Nil
  then show ?case by simp
next
  case (Cons x xs)
  then obtain m1 where m1: "get q m = Some (Some x, m1)" "repr m1 q (xs @ ys)"
    using get_Cons [of m q x "xs @ ys"] by auto
  then show ?case using Cons.IH [OF m1(2)] by auto
qed

text \<open>First in, first out: what was put comes back in the same order, after what was there.\<close>

lemma fifo:
  assumes "repr m q es" and "\<forall>e \<in> set xs. fresh m q es e" and "distinct (map key xs)"
  shows "\<exists>m1 m2. put_all put q xs m = Some m1 \<and> repr m1 q (es @ xs) \<and>
     get_upto get q (length es + length xs) m1 = Some (es @ xs, m2) \<and> repr m2 q [] \<and>
     get q m2 = Some (None, m2)"
proof -
  obtain m1 where m1: "put_all put q xs m = Some m1" "repr m1 q (es @ xs)"
    using put_all_repr [OF assms] by blast
  obtain m2 where m2: "get_upto get q (length (es @ xs)) m1 = Some (es @ xs, m2)" "repr m2 q []"
    using get_upto_repr [of m1 q "es @ xs" "[]"] m1(2) by auto
  then show ?thesis using m1 get_Nil [OF m2(2)] by auto
qed

end

text \<open>The pointer code as an instance: an entry is read back from its address.\<close>

definition fqm_put :: "addr \<Rightarrow> dmx512_framequeue_entry \<Rightarrow> fqmem \<Rightarrow> fqmem option" where
  "fqm_put q e m = map_option snd (dmx512_framequeue_put q (fqe_id e) m)"

definition fqm_get :: "addr \<Rightarrow> fqmem \<Rightarrow> (dmx512_framequeue_entry option \<times> fqmem) option" where
  "fqm_get q m = do {
     (a, m) \<leftarrow> dmx512_framequeue_get q m;
     if a = NULL then Some (None, m)
     else do { f \<leftarrow> fq_frames m a; Some (Some \<lparr>fqe_id = a, fqe_frame = f\<rparr>, m) } }"

interpretation pq: frame_queue fq_repr fq_fresh fqe_id fqm_put fqm_get dmx512_framequeue_isempty
proof
  fix m q es e assume *: "fq_repr m q es" "fq_fresh m q es e"
  show "\<exists>m'. fqm_put q e m = Some m' \<and> fq_repr m' q (es @ [e])"
    by (rule framequeue_put_repr [OF *]) (auto simp: fqm_put_def fq_put_def)
next
  fix m q es e e' m'
  assume *: "fq_repr m q es" "fq_fresh m q es e" and "fq_fresh m q es e'" "fqe_id e' \<noteq> fqe_id e"
    "fqm_put q e m = Some m'"
  then show "fq_fresh m' q (es @ [e]) e'"
    by - (rule framequeue_put_repr [OF *], auto simp: fqm_put_def fq_fresh_def)
next
  fix m q assume *: "fq_repr m q []"
  then show "fqm_get q m = Some (None, m)"
    using framequeue_get_repr_Nil [OF *] fq_reprD(1) [OF *]
    by (simp add: fqm_get_def dmx512_framequeue_get_def)
next
  fix m q e es assume *: "fq_repr m q (e # es)"
  show "\<exists>m'. fqm_get q m = Some (Some e, m') \<and> fq_repr m' q es"
    using fq_reprD(1,4) [OF *] *
    by - (rule framequeue_get_repr_Cons [OF *],
      auto simp: fqm_get_def dmx512_framequeue_get_def fq_repr_def)
next
  fix m q es assume "fq_repr m q es"
  then show "dmx512_framequeue_isempty q m = Some (es = [])"
    by (simp add: framequeue_isempty_repr fq_isempty_def)
qed

text \<open>The abstract queue as an instance; there is one queue per list, so the queue's name is \<open>()\<close>.\<close>

interpretation aq: frame_queue "\<lambda>m q es. m = es" "\<lambda>m q es e. fqe_id e \<notin> set (fq_ids es)" fqe_id
  "\<lambda>(q :: unit) e m. Some (fq_put m e)" "\<lambda>q m. Some (fq_get m)" "\<lambda>q m. Some (fq_isempty m)"
  by unfold_locales (auto simp: fq_put_def fq_isempty_def)

section \<open>Properties\<close>

text \<open>A memory with an empty queue at address 1 and two allocated entries at 2 and 3.\<close>

definition demo_entry :: "addr \<Rightarrow> u16 \<Rightarrow> dmx512_framequeue_entry" where
  "demo_entry a n = \<lparr>fqe_id = a, fqe_frame = zero_frame\<lparr>f_payload_size := n\<rparr>\<rparr>"

definition demo_mem :: fqmem where
  "demo_mem = \<lparr>fq_links = [1 \<mapsto> \<lparr>lh_next = 1, lh_prev = 1\<rparr>, 2 \<mapsto> \<lparr>lh_next = 2, lh_prev = 2\<rparr>,
        3 \<mapsto> \<lparr>lh_next = 3, lh_prev = 3\<rparr>, 4 \<mapsto> \<lparr>lh_next = 4, lh_prev = 4\<rparr>],
     fq_frames = [2 \<mapsto> fqe_frame (demo_entry 2 7), 3 \<mapsto> fqe_frame (demo_entry 3 9)]\<rparr>"

lemma demo_mem_facts:
  "fq_repr demo_mem 1 []" "fq_repr demo_mem 4 []"
  "fq_fresh demo_mem 1 [] (demo_entry 2 7)" "fq_fresh demo_mem 1 [] (demo_entry 3 9)"
  "fqe_id (demo_entry a n) = a"
  by (simp_all add: fq_repr_def fq_fresh_def demo_mem_def demo_entry_def dll_def link_def
      get_next_def get_prev_def NULL_def)

text \<open>
  The frame queue is first in, first out on the pointers: from any queue that holds \<open>es\<close>,
  putting distinct allocated entries \<open>xs\<close> never fails, and \<open>dmx512_framequeue_get\<close> then returns
  exactly \<open>es @ xs\<close> in order, each entry with the frame it was put with, and then \<open>NULL\<close>.
\<close>

theorem framequeue_fifo:
  assumes "fq_repr m q es" and "\<forall>e \<in> set xs. fq_fresh m q es e" and "distinct (map fqe_id xs)"
  shows "\<exists>m1 m2. put_all fqm_put q xs m = Some m1 \<and> fq_repr m1 q (es @ xs) \<and>
     get_upto fqm_get q (length es + length xs) m1 = Some (es @ xs, m2) \<and> fq_repr m2 q [] \<and>
     fqm_get q m2 = Some (None, m2)"
  using assms by (rule pq.fifo)

theorem framequeue_fifo_witness:
  "\<exists>m1 m2. put_all fqm_put 1 [demo_entry 2 7, demo_entry 3 9] demo_mem = Some m1 \<and>
     get_upto fqm_get 1 2 m1 = Some ([demo_entry 2 7, demo_entry 3 9], m2)"
proof -
  have "\<forall>e \<in> set [demo_entry 2 7, demo_entry 3 9]. fq_fresh demo_mem 1 [] e"
    using demo_mem_facts(3,4) by simp
  moreover have "distinct (map fqe_id [demo_entry 2 7, demo_entry 3 9])"
    by (simp add: demo_entry_def)
  moreover have "length [] + length [demo_entry 2 7, demo_entry 3 9] = 2" by simp
  ultimately show ?thesis
    using framequeue_fifo [OF demo_mem_facts(1), of "[demo_entry 2 7, demo_entry 3 9]"]
    by (metis append_Nil)
qed

text \<open>
  C11. Each operation of \<^verbatim>\<open>dmx512framequeue.c\<close> simulates the abstract queue: \<open>put\<close> appends, \<open>get\<close>
  removes and returns the first entry (\<open>NULL\<close> when empty), \<open>front\<close> only looks at it, \<open>isempty\<close>
  decides emptiness, and \<open>cleanup\<close> terminates with an empty queue and every entry freed.
\<close>

theorem framequeue_refines:
  assumes "fq_repr m q es"
  shows "(\<forall>e. fq_fresh m q es e \<longrightarrow>
       (\<exists>m'. dmx512_framequeue_put q (fqe_id e) m = Some (0, m') \<and> fq_repr m' q (fq_put es e))) \<and>
    (\<exists>a m'. dmx512_framequeue_get q m = Some (a, m') \<and> fq_repr m' q (snd (fq_get es)) \<and>
       a = (case fst (fq_get es) of None \<Rightarrow> NULL | Some e \<Rightarrow> fqe_id e)) \<and>
    dmx512_framequeue_front q m = Some (case es of [] \<Rightarrow> NULL | e # _ \<Rightarrow> fqe_id e) \<and>
    dmx512_framequeue_isempty q m = Some (fq_isempty es) \<and>
    (\<exists>m'. dmx512_framequeue_cleanup q m = Some m' \<and> fq_repr m' q (fq_cleanup es) \<and>
       dom (fq_links m') = dom (fq_links m) - set (fq_ids es))"
proof (intro conjI allI impI)
  fix e assume "fq_fresh m q es e"
  from assms this show "\<exists>m'. dmx512_framequeue_put q (fqe_id e) m = Some (0, m') \<and> fq_repr m' q (fq_put es e)"
    by (rule framequeue_put_repr) blast
next
  show "\<exists>a m'. dmx512_framequeue_get q m = Some (a, m') \<and> fq_repr m' q (snd (fq_get es)) \<and>
       a = (case fst (fq_get es) of None \<Rightarrow> NULL | Some e \<Rightarrow> fqe_id e)"
  proof (cases es)
    case Nil
    then show ?thesis using assms fq_reprD(1) [OF assms] framequeue_get_repr_Nil
      by (auto simp: dmx512_framequeue_get_def)
  next
    case (Cons e es')
    from assms [unfolded Cons] show ?thesis
      by (rule framequeue_get_repr_Cons)
        (use Cons fq_reprD(1) [OF assms] in \<open>auto simp: dmx512_framequeue_get_def\<close>)
  qed
next
  show "\<exists>m'. dmx512_framequeue_cleanup q m = Some m' \<and> fq_repr m' q (fq_cleanup es) \<and>
       dom (fq_links m') = dom (fq_links m) - set (fq_ids es)"
    using framequeue_cleanup_loop_repr [OF assms] fq_reprD(1) [OF assms]
    by (auto simp: dmx512_framequeue_cleanup_def fq_cleanup_def)
qed (use assms in \<open>simp_all add: framequeue_front_repr framequeue_isempty_repr\<close>)

theorem framequeue_refines_witness:
  "fq_repr demo_mem 1 [] \<and> dmx512_framequeue_isempty 1 demo_mem = Some True \<and>
   (\<exists>m'. dmx512_framequeue_put 1 2 demo_mem = Some (0, m') \<and> fq_repr m' 1 [demo_entry 2 7])"
  using framequeue_refines [OF demo_mem_facts(1)] demo_mem_facts
  by (auto simp: fq_isempty_def fq_put_def dest!: spec [of _ "demo_entry 2 7"])

text \<open>
  Queues do not interfere: for two queues whose heads and entries are disjoint, \<open>put\<close>, \<open>get\<close>
  and \<open>cleanup\<close> on one leave the other, its order and its frames as they were. This is what lets
  the free pool and the receive queues share one allocation.
\<close>

theorem framequeue_separate:
  assumes "fq_repr m q es" and "fq_repr m q2 es2"
    and dis: "set (q # fq_ids es) \<inter> set (q2 # fq_ids es2) = {}"
  shows "(\<forall>e m'. fq_fresh m q es e \<and> fqe_id e \<notin> set (q2 # fq_ids es2) \<and>
            dmx512_framequeue_put q (fqe_id e) m = Some (0, m') \<longrightarrow> fq_repr m' q2 es2) \<and>
    (\<forall>a m'. dmx512_framequeue_get q m = Some (a, m') \<longrightarrow> fq_repr m' q2 es2) \<and>
    (\<forall>m'. dmx512_framequeue_cleanup q m = Some m' \<longrightarrow> fq_repr m' q2 es2)"
proof -
  have keep: "fq_repr m' q2 es2"
    if "\<forall>x. x \<notin> X \<longrightarrow> fq_links m' x = fq_links m x \<and> fq_frames m' x = fq_frames m x"
      and "X \<inter> set (q2 # fq_ids es2) = {}" and "NULL \<notin> dom (fq_links m')" for m' X
  proof -
    have "dll (fq_links m') q2 (fq_ids es2)"
      using that by (intro dll_frame [OF fq_reprD(2) [OF assms(2)]]) auto
    moreover have "\<forall>e \<in> set es2. fq_frames m' (fqe_id e) = Some (fqe_frame e)"
    proof
      fix e assume e: "e \<in> set es2"
      then have "fqe_id e \<notin> X" using that(2) by (auto simp: fq_ids_def)
      then show "fq_frames m' (fqe_id e) = Some (fqe_frame e)"
        using that(1) assms(2) e by (simp add: fq_repr_def)
    qed
    ultimately show ?thesis using that(3) by (simp add: fq_repr_def)
  qed
  have put: "fq_repr m' q2 es2" if "fq_fresh m q es e" "fqe_id e \<notin> set (q2 # fq_ids es2)"
    "dmx512_framequeue_put q (fqe_id e) m = Some (0, m')" for e m'
  proof (rule framequeue_put_repr [OF assms(1) that(1)])
    fix m1 assume "dmx512_framequeue_put q (fqe_id e) m = Some (0, m1)" "fq_frames m1 = fq_frames m"
      "dom (fq_links m1) = dom (fq_links m)"
      "\<And>x. x \<notin> insert (fqe_id e) (set (q # fq_ids es)) \<Longrightarrow> fq_links m1 x = fq_links m x"
    then show ?thesis using that dis fq_reprD(3) [OF assms(1)]
      by (intro keep [of "insert (fqe_id e) (set (q # fq_ids es))"]) auto
  qed
  have get: "fq_repr m' q2 es2" if g: "dmx512_framequeue_get q m = Some (a, m')" for a m'
  proof (cases es)
    case Nil
    then show ?thesis using g assms fq_reprD(1) [OF assms(1)] framequeue_get_repr_Nil
      by (auto simp: dmx512_framequeue_get_def)
  next
    case (Cons e es')
    show ?thesis
    proof (rule framequeue_get_repr_Cons [OF assms(1) [unfolded Cons]])
      fix m1 assume "u_dmx512_framequeue_get q m = Some (fqe_id e, m1)" "fq_frames m1 = fq_frames m"
        "dom (fq_links m1) = dom (fq_links m)"
        "\<And>x. x \<notin> set (q # fq_ids es') \<Longrightarrow> fq_links m1 x = fq_links m x"
      then show ?thesis using g dis Cons fq_reprD(1,3) [OF assms(1)]
        by (intro keep [of "set (q # fq_ids es')"]) (auto simp: dmx512_framequeue_get_def)
    qed
  qed
  have "fq_repr m' q2 es2" if "dmx512_framequeue_cleanup q m = Some m'" for m'
    using that framequeue_cleanup_loop_repr [OF assms(1)] fq_reprD(1,3) [OF assms(1)] dis
    by (intro keep [of "set (q # fq_ids es)"]) (auto simp: dmx512_framequeue_cleanup_def)
  with put get show ?thesis by blast
qed

theorem framequeue_separate_witness:
  "\<exists>m'. dmx512_framequeue_put 1 2 demo_mem = Some (0, m') \<and> fq_repr m' 4 []"
proof -
  obtain m' where m': "dmx512_framequeue_put 1 2 demo_mem = Some (0, m')"
    by (rule framequeue_put_repr [OF demo_mem_facts(1,3)]) (auto simp: demo_mem_facts)
  then show ?thesis
    using framequeue_separate [OF demo_mem_facts(1,2)] demo_mem_facts
    by (auto dest!: spec [of _ "demo_entry 2 7"])
qed

end
