(* ===== verification/Dmx_Uart_Port.thy ===== *)
theory Dmx_Uart_Port
  imports Rtuart Rdm Framequeue "HOL-Library.Multiset"
begin

text \<open>
  The DMX512/RDM port state machine on top of a UART
  (\<^verbatim>\<open>src/src/uio-testbench/dmx512/rtuart_dmx512_client.c\<close>). A port owns at most one frame it
  receives into and one frame it transmits; UART callbacks, the RDM timer and \<open>send_frame\<close> move
  it through its states.

  The calls that leave the component (UART operations, timers, frames handed to the DMX core) are
  an effect log. What the environment returns is an argument: the frame that
  \<open>dmx512_get_frame\<close> gives, and the octets waiting in the receive FIFO. \<^term>\<open>None\<close> as the result
  of a handler is undefined behaviour of the C code (an access outside the 513 octets of a frame).
\<close>

section \<open>State\<close>

datatype dmx512_uart_state =
    PORT_STATE_DOWN | PORT_STATE_IDLE
  | PORT_STATE_EXPECT_STARTCODE | PORT_STATE_RECEIVE_DMXDATA
  | PORT_STATE_EXPECT_RDM_FRAME | PORT_STATE_RECEIVE_RDMDATA
  | PORT_STATE_RDMDISC_RECV_PREAMBLE | PORT_STATE_RDMDISC_RECV_DATA | PORT_STATE_LAST_RXSTATE
  | PORT_STATE_TRANSMIT_BREAK | PORT_STATE_TRANSMIT_DATA
  | PORT_STATE_WAIT_FOR_TX_COMPLETE | PORT_STATE_LAST_TXSTATE

text \<open>The numbers of the enumeration, which the code compares.\<close>

fun state_no :: "dmx512_uart_state \<Rightarrow> nat" where
  "state_no PORT_STATE_DOWN = 0"
| "state_no PORT_STATE_IDLE = 1"
| "state_no PORT_STATE_EXPECT_STARTCODE = 0x100"
| "state_no PORT_STATE_RECEIVE_DMXDATA = 0x101"
| "state_no PORT_STATE_EXPECT_RDM_FRAME = 0x102"
| "state_no PORT_STATE_RECEIVE_RDMDATA = 0x103"
| "state_no PORT_STATE_RDMDISC_RECV_PREAMBLE = 0x104"
| "state_no PORT_STATE_RDMDISC_RECV_DATA = 0x105"
| "state_no PORT_STATE_LAST_RXSTATE = 0x106"
| "state_no PORT_STATE_TRANSMIT_BREAK = 0x200"
| "state_no PORT_STATE_TRANSMIT_DATA = 0x201"
| "state_no PORT_STATE_WAIT_FOR_TX_COMPLETE = 0x202"
| "state_no PORT_STATE_LAST_TXSTATE = 0x203"

definition PORT_STATE_FIRST_RXSTATE :: nat where "PORT_STATE_FIRST_RXSTATE = 0x100"
definition PORT_STATE_FIRST_TXSTATE :: nat where "PORT_STATE_FIRST_TXSTATE = 0x200"

definition is_txstate :: "dmx512_uart_state \<Rightarrow> bool" where
  "is_txstate s \<longleftrightarrow> state_no s \<ge> PORT_STATE_FIRST_TXSTATE \<and> state_no s < state_no PORT_STATE_LAST_TXSTATE"

definition is_rxstate :: "dmx512_uart_state \<Rightarrow> bool" where
  "is_rxstate s \<longleftrightarrow> state_no s \<ge> PORT_STATE_FIRST_RXSTATE \<and> state_no s \<le> state_no PORT_STATE_LAST_RXSTATE"

text \<open>The bit fields of \<open>slot_count_lock\<close> keep their widths.\<close>

record slot_count_lock =
  lk_enabled :: bool
  lk_locked :: bool
  lk_required_count :: "6 word"
  lk_matching_frame_count :: "6 word"
  lk_matching_slot_count :: "10 word"

text \<open>\<open>rx.data\<close> points into the received frame's data, is null, or is null plus an offset.\<close>

datatype dptr = Null | Data nat | Wild

fun dptr_add :: "dptr \<Rightarrow> nat \<Rightarrow> dptr" where
  "dptr_add (Data o1) n = Data (o1 + n)"
| "dptr_add Null n = (if n = 0 then Null else Wild)"
| "dptr_add Wild n = Wild"

datatype port_effect =
    SetFormat int char int | SetBaudrate nat | SetFifoEnable bool | SetRxTrigger int
  | SetTxTrigger int | SetModemLines u32 u32 | FlushFifo bool bool | WaitTxFifo
  | WriteChars "u8 list" | TimerSet int | TimerDelete
  | Submitted dmx512_framequeue_entry | GotFrame "dmx512_framequeue_entry option"
  | PutFrame "dmx512_framequeue_entry option" | ReceivedFrame "dmx512_framequeue_entry option"

text \<open>\<open>p_timer_ok\<close> is what \<open>timer_create\<close> answers; \<open>p_notify\<close> is the UART's notification mask.\<close>

record dmx512_uart_port =
  p_state :: dmx512_uart_state
  rx_frame :: "dmx512_framequeue_entry option"
  rx_data :: dptr
  rx_count :: nat
  rx_lock :: slot_count_lock
  rx_expected :: nat
  tx_frame :: "dmx512_framequeue_entry option"
  tx_ptr :: "nat option"
  tx_remain :: nat
  timer_active :: bool
  timer_call :: bool
  p_timer_ok :: bool
  p_notify :: u32
  p_log :: "port_effect list"

type_synonym port = dmx512_uart_port

abbreviation rx_locked :: "port \<Rightarrow> bool" where
  "rx_locked p \<equiv> lk_locked (rx_lock p)"

section \<open>Effects\<close>

definition emit :: "port_effect \<Rightarrow> port \<Rightarrow> port" where
  "emit e p = p\<lparr>p_log := p_log p @ [e]\<rparr>"

definition next_state :: "dmx512_uart_state \<Rightarrow> port \<Rightarrow> port" where
  "next_state s p = p\<lparr>p_state := s\<rparr>"

definition uart_enable_notification :: "u32 \<Rightarrow> port \<Rightarrow> port" where
  "uart_enable_notification n p =
     p\<lparr>p_notify := notify_enable (p_notify p) n\<rparr>"

definition uart_disable_notification :: "u32 \<Rightarrow> port \<Rightarrow> port" where
  "uart_disable_notification n p =
     p\<lparr>p_notify := notify_disable (p_notify p) n\<rparr>"

definition dmx512rtuart_stop_rdm_timer :: "port \<Rightarrow> port" where
  "dmx512rtuart_stop_rdm_timer p =
     (if timer_active p then emit TimerDelete (p\<lparr>timer_active := False\<rparr>) else p)"

definition dmx512rtuart_start_rdm_timer :: "int \<Rightarrow> port \<Rightarrow> port" where
  "dmx512rtuart_start_rdm_timer us p =
     (if \<not> timer_active p \<and> \<not> p_timer_ok p then p
      else emit (TimerSet us) (p\<lparr>timer_active := True\<rparr>))"

definition dmx512_rtuart_client_enable_rs485_transmitter :: "bool \<Rightarrow> port \<Rightarrow> port" where
  "dmx512_rtuart_client_enable_rs485_transmitter on p =
     emit (SetModemLines RTUART_OUTPUT_RTS (if on then RTUART_OUTPUT_RTS else 0)) p"

definition DISCOVERY_REQUEST_REPLY_TIMEOUT :: int where "DISCOVERY_REQUEST_REPLY_TIMEOUT = 5000"
definition TIMEOUT_RDMDISCOVERY_LENGTH :: int where "TIMEOUT_RDMDISCOVERY_LENGTH = 5000"
definition TIMEOUT_RDMFRAME_PEROCTET :: int where "TIMEOUT_RDMFRAME_PEROCTET = 60"
definition TIMEOUT_RDMFRAME_STATIC :: int where "TIMEOUT_RDMFRAME_STATIC = 3000"
definition TIMEOUT_RDM_EOP_TO_SOP :: int where "TIMEOUT_RDM_EOP_TO_SOP = 5000"
definition TIMEOUT_RDM_SOP_TO_EOP :: int where
  "TIMEOUT_RDM_SOP_TO_EOP = 3000 + TIMEOUT_RDMFRAME_PEROCTET * 256"

section \<open>Handing frames out\<close>

definition upd_frame :: "(dmx512frame \<Rightarrow> dmx512frame) \<Rightarrow> dmx512_framequeue_entry \<Rightarrow> dmx512_framequeue_entry" where
  "upd_frame g e = e\<lparr>fqe_frame := g (fqe_frame e)\<rparr>"

definition dmx512rtuart_checkout_tx_frame :: "port \<Rightarrow> dmx512_framequeue_entry option \<times> port" where
  "dmx512rtuart_checkout_tx_frame p = (case tx_frame p of
     None \<Rightarrow> (None, p)
   | Some f \<Rightarrow> (Some f, p\<lparr>tx_ptr := None, tx_remain := 0, tx_frame := None\<rparr>))"

text \<open>The slot count lock after a frame of \<open>payload_size\<close> slots.\<close>

definition update_lock :: "u16 \<Rightarrow> slot_count_lock \<Rightarrow> slot_count_lock" where
  "update_lock payload_size l =
     (if lk_locked l then
        (if payload_size \<noteq> ucast (lk_matching_slot_count l)
         then l\<lparr>lk_locked := False, lk_matching_frame_count := 0,
                lk_matching_slot_count := ucast payload_size\<rparr>
         else l)
      else if payload_size = ucast (lk_matching_slot_count l) then
        (let l = l\<lparr>lk_matching_frame_count := lk_matching_frame_count l + 1\<rparr> in
         if lk_required_count l = lk_matching_frame_count l then l\<lparr>lk_locked := True\<rparr> else l)
      else l\<lparr>lk_matching_frame_count := 0, lk_matching_slot_count := ucast payload_size\<rparr>)"

definition dmx512_uart_update_automatic_framecount_locking :: "port \<Rightarrow> port" where
  "dmx512_uart_update_automatic_framecount_locking p = (case rx_frame p of
     None \<Rightarrow> p
   | Some f \<Rightarrow>
       if f_startcode (fqe_frame f) = 0
       then p\<lparr>rx_lock := update_lock (f_payload_size (fqe_frame f)) (rx_lock p)\<rparr>
       else p)"

text \<open>\<open>payload_size = rx.count - 1\<close> in 16 bits; the count stays far below \<open>2\<^sup>3\<^sup>2\<close>.\<close>

definition dmx512rtuart_checkout_rx_frame :: "port \<Rightarrow> dmx512_framequeue_entry option \<times> port" where
  "dmx512rtuart_checkout_rx_frame p = (case rx_frame p of
     None \<Rightarrow> (None, p)
   | Some f \<Rightarrow>
       let f = upd_frame (\<lambda>fr. fr\<lparr>f_payload_size := of_nat (rx_count p) - 1\<rparr>) f;
           p = p\<lparr>rx_frame := Some f\<rparr>;
           p = (if f_startcode (fqe_frame f) = 0
                then dmx512_uart_update_automatic_framecount_locking p else p)
       in (Some f, p\<lparr>rx_data := Null, rx_count := 0, rx_frame := None\<rparr>))"

definition put_rx_frame :: "port \<Rightarrow> port" where
  "put_rx_frame p = (case dmx512rtuart_checkout_rx_frame p of (f, p) \<Rightarrow> emit (PutFrame f) p)"

definition received_rx_frame :: "port \<Rightarrow> port" where
  "received_rx_frame p = (case dmx512rtuart_checkout_rx_frame p of (f, p) \<Rightarrow> emit (ReceivedFrame f) p)"

definition put_tx_frame :: "port \<Rightarrow> port" where
  "put_tx_frame p = (case dmx512rtuart_checkout_tx_frame p of (f, p) \<Rightarrow> emit (PutFrame f) p)"

text \<open>\<open>dmx512_received_frame(&port->dmx, reply(dmx512rtuart_checkout_tx_frame(port)))\<close>; the reply
  functions pass a null pointer through.\<close>

definition received_tx_reply :: "(dmx512frame \<Rightarrow> dmx512frame option) \<Rightarrow> port \<Rightarrow> port option" where
  "received_tx_reply reply p = (case dmx512rtuart_checkout_tx_frame p of
     (None, p) \<Rightarrow> Some (emit (ReceivedFrame None) p)
   | (Some f, p) \<Rightarrow> do {
       fr \<leftarrow> reply (fqe_frame f);
       Some (emit (ReceivedFrame (Some (f\<lparr>fqe_frame := fr\<rparr>))) p) })"

section \<open>UART callbacks\<close>

text \<open>\<open>space_available > port->tx.remain\<close> compares unsigned numbers, so every negative value counts
  as more than what remains. \<open>WaitTxFifo\<close> is the busy wait for an empty FIFO.\<close>

definition dmx512rtuart_transmitter_has_space :: "int \<Rightarrow> port \<Rightarrow> port option" where
  "dmx512rtuart_transmitter_has_space space_available p = (case tx_frame p of
     None \<Rightarrow> Some p
   | Some f \<Rightarrow> (case tx_ptr p of
       None \<Rightarrow> Some (put_tx_frame p)
     | Some ptr \<Rightarrow>
         if p_state p = PORT_STATE_WAIT_FOR_TX_COMPLETE then Some p
         else if tx_remain p > 0 then
           let remain = (if space_available < 0 \<or> space_available > int (tx_remain p)
                         then tx_remain p else nat space_available);
               c = (if remain > 12 then 12 else remain)
           in do {
             octets \<leftarrow> arr_slice (f_data (fqe_frame f)) ptr c;
             let p = emit (WriteChars octets) (emit WaitTxFifo p);
             let p = p\<lparr>tx_ptr := Some (ptr + c), tx_remain := tx_remain p - c\<rparr>;
             Some (uart_enable_notification UART_NOTIFY_TXREADY p) }
         else Some (uart_enable_notification UART_NOTIFY_TXEMPTY
                (next_state PORT_STATE_WAIT_FOR_TX_COMPLETE p))))"

definition dmx512rtuart_handle_rdm_timeout :: "port \<Rightarrow> port option" where
  "dmx512rtuart_handle_rdm_timeout p = (
     if tx_frame p = None then Some p
     else if p_state p \<in> {PORT_STATE_RDMDISC_RECV_PREAMBLE, PORT_STATE_RDMDISC_RECV_DATA} then
       let p = dmx512rtuart_stop_rdm_timer p in
       if rx_count p > 0
       then received_tx_reply rdm_discovery_reply_collision (put_rx_frame p)
       else received_tx_reply rdm_discovery_reply_timeout (put_rx_frame p)
     else if p_state p = PORT_STATE_EXPECT_RDM_FRAME then
       received_tx_reply update_rdm_checksum (put_rx_frame p)
     else if p_state p = PORT_STATE_RECEIVE_RDMDATA then
       received_tx_reply update_rdm_checksum (put_rx_frame p)
     else Some p)"

text \<open>The timer thread's handler.\<close>

definition posix_timer_thread_handler :: "port \<Rightarrow> port option" where
  "posix_timer_thread_handler p = dmx512rtuart_handle_rdm_timeout (p\<lparr>timer_call := True\<rparr>)"

definition dmx512_rtuart_periodical :: "port \<Rightarrow> port" where
  "dmx512_rtuart_periodical p = (if timer_call p then p\<lparr>timer_call := False\<rparr> else p)"

text \<open>\<open>got\<close> is the frame \<open>dmx512_get_frame\<close> returns when it is called.\<close>

definition tx_complete_idle :: "port \<Rightarrow> port" where
  "tx_complete_idle p = next_state PORT_STATE_IDLE (put_tx_frame p)"

definition dmx512rtuart_transmitter_empty :: "dmx512_framequeue_entry option \<Rightarrow> port \<Rightarrow> port" where
  "dmx512rtuart_transmitter_empty got p = (
     if p_state p = PORT_STATE_TRANSMIT_BREAK then
       let p = uart_disable_notification UART_NOTIFY_TXEMPTY p;
           p = emit (SetBaudrate 250000) p;
           p = next_state PORT_STATE_TRANSMIT_DATA p
       in uart_enable_notification UART_NOTIFY_TXREADY p
     else if p_state p \<noteq> PORT_STATE_WAIT_FOR_TX_COMPLETE then p
     else
       let p = dmx512_rtuart_client_enable_rs485_transmitter False p;
           p = uart_enable_notification UART_NOTIFY_LINEEVENT p;
           p = emit (FlushFifo False True) p;
           p = uart_enable_notification UART_NOTIFY_LINEEVENT p
       in case tx_frame p of
         None \<Rightarrow> tx_complete_idle p
       | Some t \<Rightarrow>
           if has_flag (f_flags (fqe_frame t)) DMX512_FLAG_IS_RDM then
             if has_flag (f_flags (fqe_frame t)) DMX512_FLAG_IS_RDM_DISC then
               (let p = emit (GotFrame got) (p\<lparr>rx_frame := got\<rparr>) in
                case got of
                  None \<Rightarrow> tx_complete_idle p
                | Some g \<Rightarrow>
                    let p = p\<lparr>rx_frame := Some (g\<lparr>fqe_frame := fqe_frame t\<rparr>)\<rparr>;
                        p = next_state PORT_STATE_RDMDISC_RECV_PREAMBLE p;
                        p = p\<lparr>rx_expected := 0, rx_data := Data 256, rx_count := 0\<rparr>;
                        p = dmx512rtuart_start_rdm_timer DISCOVERY_REQUEST_REPLY_TIMEOUT p
                    in uart_enable_notification UART_NOTIFY_RXAVAILABLE p)
             else
               (let p = p\<lparr>rx_expected := 256\<rparr>;
                    p = next_state PORT_STATE_EXPECT_RDM_FRAME p
                in dmx512rtuart_start_rdm_timer TIMEOUT_RDM_EOP_TO_SOP p)
           else tx_complete_idle p)"

definition is_between :: "int \<Rightarrow> int \<Rightarrow> int \<Rightarrow> bool" where
  "is_between pos start end' \<longleftrightarrow> start \<le> pos \<and> pos \<le> end'"

section \<open>Looking at received octets\<close>

definition rx_flags :: "port \<Rightarrow> u16" where
  "rx_flags p = (case rx_frame p of None \<Rightarrow> 0 | Some f \<Rightarrow> f_flags (fqe_frame f))"

definition set_rx_flags :: "u16 \<Rightarrow> port \<Rightarrow> port" where
  "set_rx_flags fl p = p\<lparr>rx_frame := map_option (upd_frame (\<lambda>fr. fr\<lparr>f_flags := fl\<rparr>)) (rx_frame p)\<rparr>"

text \<open>\<open>data[pos - start_pos]\<close>, where \<open>data\<close> is \<open>rx.data\<close>.\<close>

definition rx_octet :: "int \<Rightarrow> int \<Rightarrow> port \<Rightarrow> u8 option" where
  "rx_octet pos start_pos p = (case (rx_frame p, rx_data p) of
     (Some f, Data o1) \<Rightarrow>
       (let i = int o1 + (pos - start_pos) in
        if i < 0 then None else arr_get (f_data (fqe_frame f)) (nat i))
   | _ \<Rightarrow> None)"

definition check_startcode :: "int \<Rightarrow> int \<Rightarrow> port \<Rightarrow> port option" where
  "check_startcode start_pos sz p = (
     if \<not> has_flag (rx_flags p) DMX512_FLAG_IS_RDM \<and> start_pos = 0 \<and> sz > 0 then do {
       b \<leftarrow> rx_octet 0 0 p;
       if b = SC_RDM then Some (set_rx_flags (rx_flags p OR DMX512_FLAG_IS_RDM) p)
       else if b = 0 then
         Some (p\<lparr>rx_expected := (if rx_locked p then unat (lk_matching_slot_count (rx_lock p)) else 512)\<rparr>)
       else Some p }
     else Some p)"

definition check_substartcode :: "int \<Rightarrow> int \<Rightarrow> port \<Rightarrow> port option" where
  "check_substartcode start_pos sz p = (
     if has_flag (rx_flags p) DMX512_FLAG_IS_RDM \<and>
        is_between (int RDM_POS_SUBSTARTCODE) start_pos (start_pos + sz) then do {
       b \<leftarrow> rx_octet (int RDM_POS_SUBSTARTCODE) start_pos p;
       if b \<noteq> SC_SUB_MESSAGE
       then Some (set_rx_flags (rx_flags p AND NOT DMX512_FLAG_IS_RDM) p)
       else Some p }
     else Some p)"

definition check_length :: "int \<Rightarrow> int \<Rightarrow> port \<Rightarrow> port option" where
  "check_length start_pos sz p = (
     if has_flag (rx_flags p) DMX512_FLAG_IS_RDM \<and>
        is_between (int RDM_POS_LENGTH) start_pos (start_pos + sz) then do {
       b \<leftarrow> rx_octet (int RDM_POS_LENGTH) start_pos p;
       let p = p\<lparr>rx_expected := unat b + 2 - 1\<rparr>;
       let p = dmx512rtuart_stop_rdm_timer p;
       Some (dmx512rtuart_start_rdm_timer (TIMEOUT_RDMFRAME_STATIC +
               (int (rx_expected p) - int RDM_POS_LENGTH) * TIMEOUT_RDMFRAME_PEROCTET) p) }
     else Some p)"

definition check_discover :: "int \<Rightarrow> int \<Rightarrow> port \<Rightarrow> port option" where
  "check_discover start_pos sz p = (
     if has_flag (rx_flags p) DMX512_FLAG_IS_RDM \<and>
        is_between (int RDM_POS_PDL) start_pos (start_pos + sz) then do {
       f \<leftarrow> rx_frame p;
       if dmx512frame_is_rdm_discover (f_data (fqe_frame f))
       then Some (set_rx_flags (rx_flags p OR DMX512_FLAG_IS_RDM_DISC) p)
       else Some p }
     else Some p)"

text \<open>The frame is dereferenced before its null test.\<close>

definition dmx512_check_received_data :: "int \<Rightarrow> int \<Rightarrow> port \<Rightarrow> port option" where
  "dmx512_check_received_data start_pos sz p = (
     if rx_frame p = None then None
     else if has_flag (rx_flags p) DMX512_FLAG_IS_RDM_DISC then Some p
     else do {
       p \<leftarrow> check_startcode start_pos sz p;
       p \<leftarrow> check_substartcode start_pos sz p;
       p \<leftarrow> check_length start_pos sz p;
       check_discover start_pos sz p })"

section \<open>Receiving\<close>

text \<open>\<open>rtuart_read_chars(uart, port->rx.data, n)\<close> with \<open>fifo\<close> waiting: it stores at most \<open>n\<close>
  octets and returns how many. A negative \<open>n\<close> becomes a huge \<open>size_t\<close>, larger than the frame.\<close>

definition rtuart_read_chars :: "int \<Rightarrow> u8 list \<Rightarrow> port \<Rightarrow> (nat \<times> port) option" where
  "rtuart_read_chars n fifo p = (case (rx_frame p, rx_data p) of
     (Some f, Data o1) \<Rightarrow>
       if n < 0 then None
       else do {
         let chars = take (nat n) fifo;
         d \<leftarrow> arr_blit (f_data (fqe_frame f)) o1 chars;
         Some (length chars, p\<lparr>rx_frame := Some (upd_frame (\<lambda>fr. fr\<lparr>f_data := d\<rparr>) f)\<rparr>) }
   | _ \<Rightarrow> None)"

definition rx_advance :: "nat \<Rightarrow> port \<Rightarrow> port" where
  "rx_advance ret p = p\<lparr>rx_data := dptr_add (rx_data p) ret, rx_count := rx_count p + ret\<rparr>"

text \<open>The frame is complete: the request, if any, goes back, the frame goes up.\<close>

definition rx_complete :: "port \<Rightarrow> port" where
  "rx_complete p = (
     let p = (case tx_frame p of
                Some t \<Rightarrow> if has_flag (f_flags (fqe_frame t)) DMX512_FLAG_IS_RDM
                          then dmx512rtuart_stop_rdm_timer p else p
              | None \<Rightarrow> p)
     in next_state PORT_STATE_IDLE (received_rx_frame (put_tx_frame p)))"

text \<open>States \<open>EXPECT_STARTCODE\<close>, \<open>RECEIVE_DMXDATA\<close> and \<open>RECEIVE_RDMDATA\<close>. A null \<open>rx.data\<close> ends the
  process.\<close>

definition receive_frame_data :: "int \<Rightarrow> int \<Rightarrow> int \<Rightarrow> u8 list \<Rightarrow> port \<Rightarrow> port option" where
  "receive_frame_data cnt max_size toread fifo p = do {
     (ret, p) \<leftarrow> rtuart_read_chars toread fifo p;
     p \<leftarrow> (if ret > 0 then do {
              p \<leftarrow> dmx512_check_received_data (int (rx_count p)) (int ret) p;
              let p = rx_advance ret p;
              Some (if int (rx_count p) \<ge> max_size \<and> rx_frame p \<noteq> None
                    then rx_complete p
                    else uart_enable_notification UART_NOTIFY_RXAVAILABLE p) }
           else Some p);
     Some (if cnt > toread then emit (FlushFifo False True) p else p) }"

text \<open>The preamble of a discovery response was looked for in the \<open>ret\<close> octets just read.\<close>

definition disc_preamble :: "nat \<Rightarrow> port \<Rightarrow> port option" where
  "disc_preamble ret p = (case (rx_frame p, rx_data p) of
     (Some f, Data o1) \<Rightarrow> do {
       pos \<leftarrow> dmx512rtuart_find_preamble (f_data (fqe_frame f)) o1 ret;
       if pos = -2 then do {
         let p = put_rx_frame (dmx512rtuart_stop_rdm_timer p);
         p \<leftarrow> received_tx_reply rdm_discovery_reply_collision p;
         Some (next_state PORT_STATE_IDLE p) }
       else if pos > -1 then
         Some (next_state PORT_STATE_RDMDISC_RECV_DATA
                (p\<lparr>rx_expected := (rx_count p + nat pos + 16) mod 2 ^ 16\<rparr>))
       else Some p }
   | _ \<Rightarrow> None)"

definition disc_complete :: "port \<Rightarrow> port option" where
  "disc_complete p = (
     let p = dmx512rtuart_stop_rdm_timer p in
     case dmx512rtuart_checkout_rx_frame p of
       (None, p) \<Rightarrow> do {
         p \<leftarrow> received_tx_reply rdm_discovery_reply_collision p;
         Some (next_state PORT_STATE_IDLE (emit (PutFrame None) p)) }
     | (Some rxframe, p) \<Rightarrow> do {
         (r, fr) \<leftarrow> dmx512rtuart_complete_rdm_discovery_reply (fqe_frame rxframe);
         let rxframe = rxframe\<lparr>fqe_frame := fr\<rparr>;
         p \<leftarrow> (if r < 0 then do {
                  p \<leftarrow> received_tx_reply rdm_discovery_reply_collision p;
                  Some (emit (PutFrame (Some rxframe)) p) }
                else Some (emit (ReceivedFrame (Some rxframe)) (put_tx_frame p)));
         Some (next_state PORT_STATE_IDLE p) })"

definition receive_disc_data :: "int \<Rightarrow> u8 list \<Rightarrow> port \<Rightarrow> port option" where
  "receive_disc_data cnt fifo p = do {
     (ret, p) \<leftarrow> rtuart_read_chars cnt fifo p;
     if ret > 0 then do {
       p \<leftarrow> (if p_state p = PORT_STATE_RDMDISC_RECV_PREAMBLE then disc_preamble ret p else Some p);
       let p = rx_advance ret p;
       if p_state p = PORT_STATE_RDMDISC_RECV_DATA \<and>
          rx_count p \<ge> rx_expected p + 1 \<and> rx_frame p \<noteq> None
       then disc_complete p
       else Some (uart_enable_notification UART_NOTIFY_RXAVAILABLE p) }
     else Some p }"

definition dmx512rtuart_receiver_data_available :: "int \<Rightarrow> u8 list \<Rightarrow> port \<Rightarrow> port option" where
  "dmx512rtuart_receiver_data_available count0 fifo p = (
     let cnt = (if count0 = -1 then 1 else count0);
         max_size = int (rx_expected p) + 1;
         toread = (if int (rx_count p) + cnt < max_size then cnt
                   else max_size - int (rx_count p))
     in
     if is_txstate (p_state p) then Some p
     else if rx_frame p = None then
       Some (next_state PORT_STATE_IDLE (emit (FlushFifo False True) p))
     else if p_state p \<in> {PORT_STATE_EXPECT_STARTCODE, PORT_STATE_RECEIVE_DMXDATA} then
       receive_frame_data cnt max_size toread fifo (next_state PORT_STATE_RECEIVE_DMXDATA p)
     else if p_state p = PORT_STATE_RECEIVE_RDMDATA then
       receive_frame_data cnt max_size toread fifo p
     else if p_state p = PORT_STATE_RDMDISC_RECV_PREAMBLE then
       receive_disc_data cnt fifo
         (dmx512rtuart_start_rdm_timer TIMEOUT_RDMDISCOVERY_LENGTH (dmx512rtuart_stop_rdm_timer p))
     else if p_state p = PORT_STATE_RDMDISC_RECV_DATA then receive_disc_data cnt fifo p
     else Some (emit (FlushFifo False True) p))"

section \<open>Line events\<close>

definition flush_on_break :: "port \<Rightarrow> port" where
  "flush_on_break p = (
     if state_no (p_state p) \<le> state_no PORT_STATE_RECEIVE_DMXDATA \<and> rx_frame p \<noteq> None \<and>
        p_state p \<noteq> PORT_STATE_EXPECT_STARTCODE
     then (let p = (received_rx_frame p)\<lparr>rx_frame := None\<rparr> in
           if is_rxstate (p_state p) then next_state PORT_STATE_IDLE p else p)
     else p)"

definition start_reception :: "dmx512_framequeue_entry option \<Rightarrow> port \<Rightarrow> port" where
  "start_reception got p = (
     let p = (if p_state p = PORT_STATE_EXPECT_RDM_FRAME
              then dmx512rtuart_start_rdm_timer TIMEOUT_RDM_SOP_TO_EOP (dmx512rtuart_stop_rdm_timer p)
              else p);
         p = emit (GotFrame got) (p\<lparr>rx_frame := got\<rparr>)
     in case got of
       None \<Rightarrow> p
     | Some g \<Rightarrow>
         let p = p\<lparr>rx_data := Data 0, rx_count := 0,
                   rx_frame := Some (upd_frame (\<lambda>fr. fr\<lparr>f_data := replicate 513 0xCE\<rparr>) g)\<rparr>;
             p = (if p_state p = PORT_STATE_EXPECT_RDM_FRAME
                  then next_state PORT_STATE_RECEIVE_RDMDATA (p\<lparr>rx_expected := 256\<rparr>)
                  else (next_state PORT_STATE_EXPECT_STARTCODE p)\<lparr>rx_expected := 512\<rparr>)
         in uart_enable_notification UART_NOTIFY_RXAVAILABLE p)"

definition handle_break :: "dmx512_framequeue_entry option \<Rightarrow> port \<Rightarrow> port" where
  "handle_break got p = (
     let p = flush_on_break p in
     if p_state p \<in> {PORT_STATE_IDLE, PORT_STATE_EXPECT_RDM_FRAME} then start_reception got p
     else if p_state p = PORT_STATE_EXPECT_STARTCODE \<and> rx_frame p \<noteq> None
     then p\<lparr>rx_data := Data 0, rx_count := 0\<rparr>
     else p)"

definition dmx512rtuart_line_status_event :: "u32 \<Rightarrow> dmx512_framequeue_entry option \<Rightarrow> port \<Rightarrow> port" where
  "dmx512rtuart_line_status_event eventmask got p = (
     if is_txstate (p_state p) then p
     else
       let p = (if eventmask AND RTUART_EVENT_BREAK \<noteq> 0 then handle_break got p else p)
       in uart_enable_notification UART_NOTIFY_LINEEVENT p)"

section \<open>Sending and set-up\<close>

text \<open>A discovery reply is sent without a break as the encoded octets behind offset 256.\<close>

definition encode_tx_frame :: "port \<Rightarrow> port option" where
  "encode_tx_frame p = (case tx_frame p of
     None \<Rightarrow> None
   | Some f \<Rightarrow>
       let fr = fqe_frame f; d = f_data fr in
       if \<not> dmx512frame_is_rdm d then Some p
       else
         let fr = fr\<lparr>f_flags := f_flags fr OR DMX512_FLAG_IS_RDM\<rparr> in
         if dmx512frame_is_rdm_discover d then
           Some (p\<lparr>tx_frame := Some (f\<lparr>fqe_frame :=
                   fr\<lparr>f_flags := f_flags fr OR DMX512_FLAG_IS_RDM_DISC\<rparr>\<rparr>)\<rparr>)
         else if dmx512frame_is_rdm_discover_reply d then do {
           uid \<leftarrow> arr_slice d RDM_POS_SRC_UID 6;
           d \<leftarrow> arr_blit d 256 (discovery_reply_octets uid);
           Some (p\<lparr>tx_frame := Some (f\<lparr>fqe_frame :=
                     fr\<lparr>f_data := d, f_flags := f_flags fr OR DMX512_FLAG_NOBREAK\<rparr>\<rparr>),
                   tx_ptr := Some 256, tx_remain := 24\<rparr>) }
         else Some (p\<lparr>tx_frame := Some (f\<lparr>fqe_frame := fr\<rparr>)\<rparr>))"

definition flush_for_send :: "port \<Rightarrow> port" where
  "flush_for_send p = (
     if rx_frame p \<noteq> None then
       let p = (received_rx_frame p)\<lparr>rx_frame := None\<rparr> in
       if is_rxstate (p_state p) then next_state PORT_STATE_IDLE p else p
     else p)"

definition tx_flags :: "port \<Rightarrow> u16" where
  "tx_flags p = (case tx_frame p of None \<Rightarrow> 0 | Some f \<Rightarrow> f_flags (fqe_frame f))"

definition start_transmission :: "port \<Rightarrow> port" where
  "start_transmission p = (
     let p = uart_disable_notification (UART_NOTIFY_LINEEVENT OR UART_NOTIFY_RXAVAILABLE) p;
         p = dmx512_rtuart_client_enable_rs485_transmitter True p
     in if \<not> has_flag (tx_flags p) DMX512_FLAG_NOBREAK then
          let p = uart_disable_notification UART_NOTIFY_TXREADY p;
              p = emit (WriteChars [0]) (emit (SetBaudrate (250000 div 3)) p)
          in uart_enable_notification UART_NOTIFY_TXEMPTY p
        else uart_enable_notification UART_NOTIFY_TXREADY (next_state PORT_STATE_TRANSMIT_DATA p))"

definition dmx512_rtuart_client_send_frame :: "dmx512_framequeue_entry \<Rightarrow> port \<Rightarrow> port option" where
  "dmx512_rtuart_client_send_frame frame p = (
     let p = flush_for_send p in
     if tx_frame p \<noteq> None then Some (emit (PutFrame (Some frame)) p)
     else do {
       let p = next_state PORT_STATE_TRANSMIT_BREAK p;
       let p = p\<lparr>tx_frame := Some frame, tx_ptr := Some 0,
                 tx_remain := 1 + unat (f_payload_size (fqe_frame frame))\<rparr>;
       p \<leftarrow> encode_tx_frame p;
       Some (start_transmission p) })"

definition dmx512_rtuart_client_is_busy :: "port \<Rightarrow> bool" where
  "dmx512_rtuart_client_is_busy p \<longleftrightarrow> tx_frame p \<noteq> None"

definition dmx512_rtuart_start :: "port \<Rightarrow> port" where
  "dmx512_rtuart_start p = (
     let p = emit (SetFormat 8 (CHR ''n'') 20) p;
         p = emit (SetBaudrate 250000) p;
         p = emit (SetFifoEnable True) p;
         p = emit (SetRxTrigger 8) p;
         p = emit (SetTxTrigger 2) p
     in uart_enable_notification (UART_NOTIFY_LINEEVENT OR UART_NOTIFY_INPUTCHANGED) p)"

text \<open>The zeroed structure of a new port; \<open>tmr\<close> is what \<open>timer_create\<close> will answer and \<open>m\<close> the
  notification mask of the UART.\<close>

definition zero_port :: "bool \<Rightarrow> u32 \<Rightarrow> port" where
  "zero_port tmr m = \<lparr>p_state = PORT_STATE_DOWN, rx_frame = None, rx_data = Null, rx_count = 0,
     rx_lock = \<lparr>lk_enabled = False, lk_locked = False, lk_required_count = 0,
       lk_matching_frame_count = 0, lk_matching_slot_count = 0\<rparr>, rx_expected = 0,
     tx_frame = None, tx_ptr = None, tx_remain = 0, timer_active = False, timer_call = False,
     p_timer_ok = tmr, p_notify = m, p_log = []\<rparr>"

definition dmx512_rtuart_client_create :: "bool \<Rightarrow> u32 \<Rightarrow> port" where
  "dmx512_rtuart_client_create tmr m = (
     let p = zero_port tmr m;
         p = p\<lparr>rx_lock := (rx_lock p)\<lparr>lk_required_count := 10\<rparr>\<rparr>;
         p = next_state PORT_STATE_DOWN p;
         p = dmx512_rtuart_start p;
         p = dmx512_rtuart_client_enable_rs485_transmitter False p;
         p = uart_enable_notification UART_NOTIFY_LINEEVENT p
     in next_state PORT_STATE_IDLE p)"

section \<open>The port and its interrupt source\<close>

text \<open>
  What happens to a port, as \<open>pc16c550_handle_irq\<close> and \<open>uart16550_handle_lsr\<close> dispatch it: a
  one-shot notification is cleared and its callback called when it is enabled; receive data that
  is not asked for is flushed; line events always come through. The timer thread and
  \<open>send_frame\<close> may run between any two callbacks. The flush, which the handler does on the bus, is an
  entry of the port's log here; the branches of the handler that call no callback of the port (modem
  status, no cause) are not events. A port is created on a UART whose notification mask is 0:
  \<open>pc16c550_create\<close> does not initialise it, so this is an assumption on the memory it gets.
\<close>

datatype port_event =
    EvTxSpace int | EvTxEmpty "dmx512_framequeue_entry option" | EvRxData int "u8 list"
  | EvLine u32 "dmx512_framequeue_entry option" | EvTimeout | EvPeriodical
  | EvSend dmx512_framequeue_entry

definition notify_taken :: "u32 \<Rightarrow> port \<Rightarrow> port" where
  "notify_taken n p = p\<lparr>p_notify := notify_clear (p_notify p) n\<rparr>"

fun deliver :: "port_event \<Rightarrow> port \<Rightarrow> port option" where
  "deliver (EvTxSpace space) p =
     (if notify_on (p_notify p) UART_NOTIFY_TXREADY
      then dmx512rtuart_transmitter_has_space space (notify_taken UART_NOTIFY_TXREADY p) else Some p)"
| "deliver (EvTxEmpty got) p =
     (if notify_on (p_notify p) UART_NOTIFY_TXEMPTY
      then Some (dmx512rtuart_transmitter_empty got (notify_taken UART_NOTIFY_TXEMPTY p)) else Some p)"
| "deliver (EvRxData cnt fifo) p =
     (if notify_on (p_notify p) UART_NOTIFY_RXAVAILABLE
      then dmx512rtuart_receiver_data_available cnt fifo (notify_taken UART_NOTIFY_RXAVAILABLE p)
      else Some (emit (FlushFifo False True) p))"
| "deliver (EvLine eventmask got) p = Some (dmx512rtuart_line_status_event eventmask got p)"
| "deliver EvTimeout p = posix_timer_thread_handler p"
| "deliver EvPeriodical p = Some (dmx512_rtuart_periodical p)"
| "deliver (EvSend e) p = dmx512_rtuart_client_send_frame e (emit (Submitted e) p)"

inductive port_reachable :: "port \<Rightarrow> bool" where
  created: "port_reachable (dmx512_rtuart_client_create tmr 0)"
| step: "port_reachable p \<Longrightarrow> deliver ev p = Some p' \<Longrightarrow> port_reachable p'"

section \<open>Ownership of frames\<close>

fun acquired1 :: "port_effect \<Rightarrow> addr multiset" where
  "acquired1 (Submitted e) = {#fqe_id e#}"
| "acquired1 (GotFrame (Some e)) = {#fqe_id e#}"
| "acquired1 _ = {#}"

fun released1 :: "port_effect \<Rightarrow> addr multiset" where
  "released1 (PutFrame (Some e)) = {#fqe_id e#}"
| "released1 (ReceivedFrame (Some e)) = {#fqe_id e#}"
| "released1 _ = {#}"

definition held1 :: "dmx512_framequeue_entry option \<Rightarrow> addr multiset" where
  "held1 f = (case f of None \<Rightarrow> {#} | Some e \<Rightarrow> {#fqe_id e#})"

text \<open>The frames a port took over so far, and those it handed back or still holds.\<close>

definition taken :: "port \<Rightarrow> addr multiset" where
  "taken p = sum_list (map acquired1 (p_log p))"

definition returned :: "port \<Rightarrow> addr multiset" where
  "returned p = sum_list (map released1 (p_log p))"

definition accounted :: "port \<Rightarrow> addr multiset" where
  "accounted p = returned p + held1 (rx_frame p) + held1 (tx_frame p)"

lemma held1_simps [simp]: "held1 None = {#}" "held1 (Some e) = {#fqe_id e#}"
  by (simp_all add: held1_def)

lemma released1_put [simp]: "released1 (PutFrame f) = held1 f" "released1 (ReceivedFrame f) = held1 f"
  "acquired1 (GotFrame f) = held1 f"
  by (cases f; simp)+

lemma fqe_id_upd_frame [simp]: "fqe_id (upd_frame g e) = fqe_id e"
  by (simp add: upd_frame_def)

lemma held1_map [simp]: "held1 (map_option (upd_frame g) f) = held1 f"
  by (cases f) simp_all

lemma emit_sel [simp]:
  "p_state (emit e p) = p_state p" "rx_frame (emit e p) = rx_frame p" "rx_data (emit e p) = rx_data p"
  "rx_count (emit e p) = rx_count p" "rx_lock (emit e p) = rx_lock p"
  "rx_expected (emit e p) = rx_expected p" "tx_frame (emit e p) = tx_frame p"
  "tx_ptr (emit e p) = tx_ptr p" "tx_remain (emit e p) = tx_remain p"
  "timer_active (emit e p) = timer_active p" "p_notify (emit e p) = p_notify p"
  "p_log (emit e p) = p_log p @ [e]"
  "taken (emit e p) = taken p + acquired1 e" "returned (emit e p) = returned p + released1 e"
  "accounted (emit e p) = accounted p + released1 e"
  by (simp_all add: emit_def taken_def returned_def accounted_def ac_simps)

lemma simple_sel [simp]:
  "rx_frame (next_state s p) = rx_frame p" "rx_data (next_state s p) = rx_data p"
  "rx_count (next_state s p) = rx_count p" "rx_lock (next_state s p) = rx_lock p"
  "rx_expected (next_state s p) = rx_expected p" "tx_frame (next_state s p) = tx_frame p"
  "tx_ptr (next_state s p) = tx_ptr p" "tx_remain (next_state s p) = tx_remain p"
  "p_notify (next_state s p) = p_notify p" "p_state (next_state s p) = s"
  "taken (next_state s p) = taken p" "returned (next_state s p) = returned p"
  "p_log (next_state s p) = p_log p"
  by (simp_all add: next_state_def taken_def returned_def accounted_def)

lemma ledger_upd [simp]:
  "taken (p\<lparr>p_state := x_p_state\<rparr>) = taken p"
  "taken (p\<lparr>rx_frame := x_rx_frame\<rparr>) = taken p"
  "taken (p\<lparr>rx_data := x_rx_data\<rparr>) = taken p"
  "taken (p\<lparr>rx_count := x_rx_count\<rparr>) = taken p"
  "taken (p\<lparr>rx_lock := x_rx_lock\<rparr>) = taken p"
  "taken (p\<lparr>rx_expected := x_rx_expected\<rparr>) = taken p"
  "taken (p\<lparr>tx_frame := x_tx_frame\<rparr>) = taken p"
  "taken (p\<lparr>tx_ptr := x_tx_ptr\<rparr>) = taken p"
  "taken (p\<lparr>tx_remain := x_tx_remain\<rparr>) = taken p"
  "taken (p\<lparr>timer_active := x_timer_active\<rparr>) = taken p"
  "taken (p\<lparr>timer_call := x_timer_call\<rparr>) = taken p"
  "taken (p\<lparr>p_notify := x_p_notify\<rparr>) = taken p"
  "returned (p\<lparr>p_state := x_p_state\<rparr>) = returned p"
  "returned (p\<lparr>rx_frame := x_rx_frame\<rparr>) = returned p"
  "returned (p\<lparr>rx_data := x_rx_data\<rparr>) = returned p"
  "returned (p\<lparr>rx_count := x_rx_count\<rparr>) = returned p"
  "returned (p\<lparr>rx_lock := x_rx_lock\<rparr>) = returned p"
  "returned (p\<lparr>rx_expected := x_rx_expected\<rparr>) = returned p"
  "returned (p\<lparr>tx_frame := x_tx_frame\<rparr>) = returned p"
  "returned (p\<lparr>tx_ptr := x_tx_ptr\<rparr>) = returned p"
  "returned (p\<lparr>tx_remain := x_tx_remain\<rparr>) = returned p"
  "returned (p\<lparr>timer_active := x_timer_active\<rparr>) = returned p"
  "returned (p\<lparr>timer_call := x_timer_call\<rparr>) = returned p"
  "returned (p\<lparr>p_notify := x_p_notify\<rparr>) = returned p"
  by (simp_all add: taken_def returned_def)

lemma enable_sel [simp]:
  "p_state (uart_enable_notification n p) = p_state p"
  "rx_frame (uart_enable_notification n p) = rx_frame p"
  "rx_data (uart_enable_notification n p) = rx_data p"
  "rx_count (uart_enable_notification n p) = rx_count p"
  "rx_lock (uart_enable_notification n p) = rx_lock p"
  "rx_expected (uart_enable_notification n p) = rx_expected p"
  "tx_frame (uart_enable_notification n p) = tx_frame p"
  "tx_ptr (uart_enable_notification n p) = tx_ptr p"
  "tx_remain (uart_enable_notification n p) = tx_remain p"
  "taken (uart_enable_notification n p) = taken p"
  "returned (uart_enable_notification n p) = returned p"
  "bit (p_notify (uart_enable_notification n p)) i \<longleftrightarrow> bit (p_notify p) i \<or> bit n i"
  by (simp_all add: uart_enable_notification_def nm.bit_enable)

lemma disable_sel [simp]:
  "p_state (uart_disable_notification n p) = p_state p"
  "rx_frame (uart_disable_notification n p) = rx_frame p"
  "rx_data (uart_disable_notification n p) = rx_data p"
  "rx_count (uart_disable_notification n p) = rx_count p"
  "rx_lock (uart_disable_notification n p) = rx_lock p"
  "rx_expected (uart_disable_notification n p) = rx_expected p"
  "tx_frame (uart_disable_notification n p) = tx_frame p"
  "tx_ptr (uart_disable_notification n p) = tx_ptr p"
  "tx_remain (uart_disable_notification n p) = tx_remain p"
  "taken (uart_disable_notification n p) = taken p"
  "returned (uart_disable_notification n p) = returned p"
  by (simp_all add: uart_disable_notification_def)

lemma notify_taken_sel [simp]:
  "p_state (notify_taken n p) = p_state p" "rx_frame (notify_taken n p) = rx_frame p"
  "rx_data (notify_taken n p) = rx_data p" "rx_count (notify_taken n p) = rx_count p"
  "rx_lock (notify_taken n p) = rx_lock p" "rx_expected (notify_taken n p) = rx_expected p"
  "tx_frame (notify_taken n p) = tx_frame p" "tx_ptr (notify_taken n p) = tx_ptr p"
  "tx_remain (notify_taken n p) = tx_remain p" "taken (notify_taken n p) = taken p"
  "returned (notify_taken n p) = returned p"
  "bit (p_notify (notify_taken n p)) i \<longleftrightarrow> bit (p_notify p) i \<and> \<not> bit n i"
  by (simp_all add: notify_taken_def bit_notify_clear)

lemma disable_bit [simp]:
  "\<not> bit (p_notify p) i \<Longrightarrow> \<not> bit (p_notify (uart_disable_notification n p)) i"
  by (auto simp: uart_disable_notification_def dest: nm.bit_disable_le)

lemma stop_timer_sel [simp]:
  "p_state (dmx512rtuart_stop_rdm_timer p) = p_state p"
  "rx_frame (dmx512rtuart_stop_rdm_timer p) = rx_frame p"
  "rx_data (dmx512rtuart_stop_rdm_timer p) = rx_data p"
  "rx_count (dmx512rtuart_stop_rdm_timer p) = rx_count p"
  "rx_lock (dmx512rtuart_stop_rdm_timer p) = rx_lock p"
  "rx_expected (dmx512rtuart_stop_rdm_timer p) = rx_expected p"
  "tx_frame (dmx512rtuart_stop_rdm_timer p) = tx_frame p"
  "tx_ptr (dmx512rtuart_stop_rdm_timer p) = tx_ptr p"
  "tx_remain (dmx512rtuart_stop_rdm_timer p) = tx_remain p"
  "p_notify (dmx512rtuart_stop_rdm_timer p) = p_notify p"
  "taken (dmx512rtuart_stop_rdm_timer p) = taken p"
  "returned (dmx512rtuart_stop_rdm_timer p) = returned p"
  "timer_active (dmx512rtuart_stop_rdm_timer p) = False"
  by (simp_all add: dmx512rtuart_stop_rdm_timer_def)

lemma start_timer_sel [simp]:
  "p_state (dmx512rtuart_start_rdm_timer us p) = p_state p"
  "rx_frame (dmx512rtuart_start_rdm_timer us p) = rx_frame p"
  "rx_data (dmx512rtuart_start_rdm_timer us p) = rx_data p"
  "rx_count (dmx512rtuart_start_rdm_timer us p) = rx_count p"
  "rx_lock (dmx512rtuart_start_rdm_timer us p) = rx_lock p"
  "rx_expected (dmx512rtuart_start_rdm_timer us p) = rx_expected p"
  "tx_frame (dmx512rtuart_start_rdm_timer us p) = tx_frame p"
  "tx_ptr (dmx512rtuart_start_rdm_timer us p) = tx_ptr p"
  "tx_remain (dmx512rtuart_start_rdm_timer us p) = tx_remain p"
  "p_notify (dmx512rtuart_start_rdm_timer us p) = p_notify p"
  "taken (dmx512rtuart_start_rdm_timer us p) = taken p"
  "returned (dmx512rtuart_start_rdm_timer us p) = returned p"
  by (simp_all add: dmx512rtuart_start_rdm_timer_def)

lemma rs485_sel [simp]:
  "p_state (dmx512_rtuart_client_enable_rs485_transmitter on p) = p_state p"
  "rx_frame (dmx512_rtuart_client_enable_rs485_transmitter on p) = rx_frame p"
  "rx_data (dmx512_rtuart_client_enable_rs485_transmitter on p) = rx_data p"
  "rx_count (dmx512_rtuart_client_enable_rs485_transmitter on p) = rx_count p"
  "rx_lock (dmx512_rtuart_client_enable_rs485_transmitter on p) = rx_lock p"
  "rx_expected (dmx512_rtuart_client_enable_rs485_transmitter on p) = rx_expected p"
  "tx_frame (dmx512_rtuart_client_enable_rs485_transmitter on p) = tx_frame p"
  "tx_ptr (dmx512_rtuart_client_enable_rs485_transmitter on p) = tx_ptr p"
  "tx_remain (dmx512_rtuart_client_enable_rs485_transmitter on p) = tx_remain p"
  "p_notify (dmx512_rtuart_client_enable_rs485_transmitter on p) = p_notify p"
  "taken (dmx512_rtuart_client_enable_rs485_transmitter on p) = taken p"
  "returned (dmx512_rtuart_client_enable_rs485_transmitter on p) = returned p"
  by (simp_all add: dmx512_rtuart_client_enable_rs485_transmitter_def)

lemma put_tx_sel [simp]:
  "p_state (put_tx_frame p) = p_state p" "rx_frame (put_tx_frame p) = rx_frame p"
  "rx_data (put_tx_frame p) = rx_data p" "rx_count (put_tx_frame p) = rx_count p"
  "rx_lock (put_tx_frame p) = rx_lock p" "rx_expected (put_tx_frame p) = rx_expected p"
  "p_notify (put_tx_frame p) = p_notify p" "taken (put_tx_frame p) = taken p"
  "timer_active (put_tx_frame p) = timer_active p" "tx_frame (put_tx_frame p) = None"
  "returned (put_tx_frame p) = returned p + held1 (tx_frame p)"
  by (cases "tx_frame p"; simp add: put_tx_frame_def dmx512rtuart_checkout_tx_frame_def)+

lemma put_rx_frame_sel [simp]:
  "p_state (put_rx_frame p) = p_state p" "tx_frame (put_rx_frame p) = tx_frame p"
  "tx_ptr (put_rx_frame p) = tx_ptr p" "tx_remain (put_rx_frame p) = tx_remain p"
  "rx_expected (put_rx_frame p) = rx_expected p" "p_notify (put_rx_frame p) = p_notify p"
  "taken (put_rx_frame p) = taken p" "timer_active (put_rx_frame p) = timer_active p"
  "rx_frame (put_rx_frame p) = None" "returned (put_rx_frame p) = returned p + held1 (rx_frame p)"
  by (cases "rx_frame p"; simp add: put_rx_frame_def dmx512rtuart_checkout_rx_frame_def Let_def
      dmx512_uart_update_automatic_framecount_locking_def)+

lemma received_rx_frame_sel [simp]:
  "p_state (received_rx_frame p) = p_state p" "tx_frame (received_rx_frame p) = tx_frame p"
  "tx_ptr (received_rx_frame p) = tx_ptr p" "tx_remain (received_rx_frame p) = tx_remain p"
  "rx_expected (received_rx_frame p) = rx_expected p"
  "p_notify (received_rx_frame p) = p_notify p" "taken (received_rx_frame p) = taken p"
  "timer_active (received_rx_frame p) = timer_active p" "rx_frame (received_rx_frame p) = None"
  "returned (received_rx_frame p) = returned p + held1 (rx_frame p)"
  by (cases "rx_frame p"; simp add: received_rx_frame_def dmx512rtuart_checkout_rx_frame_def Let_def
      dmx512_uart_update_automatic_framecount_locking_def)+

lemma received_tx_reply_sel:
  assumes "received_tx_reply reply p = Some p'"
  shows "p_state p' = p_state p" "rx_frame p' = rx_frame p" "rx_data p' = rx_data p"
    "rx_count p' = rx_count p" "rx_lock p' = rx_lock p" "rx_expected p' = rx_expected p"
    "p_notify p' = p_notify p" "taken p' = taken p" "tx_frame p' = None"
    "returned p' = returned p + held1 (tx_frame p)"
  using assms
  by (cases "tx_frame p";
      auto simp: received_tx_reply_def dmx512rtuart_checkout_tx_frame_def bind_eq_Some)+

section \<open>The state invariant\<close>

text \<open>
  A transmitting port holds the frame it sends and none it receives; an idle port, or one that
  waits for the break of an RDM reply, receives into no frame; a discovery response is only
  received for a request; the one-shot notifications of the transmitter are only enabled in the
  states that handle them; and every frame taken over was handed back or is still held.
\<close>

abbreviation disc_states :: "dmx512_uart_state set" where
  "disc_states \<equiv> {PORT_STATE_RDMDISC_RECV_PREAMBLE, PORT_STATE_RDMDISC_RECV_DATA}"

definition port_inv :: "port \<Rightarrow> bool" where
  "port_inv p \<longleftrightarrow>
     (is_txstate (p_state p) \<longrightarrow> tx_frame p \<noteq> None \<and> rx_frame p = None) \<and>
     (p_state p \<in> {PORT_STATE_IDLE, PORT_STATE_EXPECT_RDM_FRAME} \<longrightarrow> rx_frame p = None) \<and>
     p_state p \<notin> {PORT_STATE_DOWN, PORT_STATE_LAST_RXSTATE, PORT_STATE_LAST_TXSTATE} \<and>
     (p_state p \<in> disc_states \<longrightarrow> rx_frame p \<noteq> None \<longrightarrow> tx_frame p \<noteq> None) \<and>
     (tx_frame p \<noteq> None \<longrightarrow> tx_ptr p \<noteq> None) \<and>
     (bit (p_notify p) 1 \<longrightarrow> p_state p = PORT_STATE_TRANSMIT_DATA) \<and>
     (bit (p_notify p) 0 \<longrightarrow> p_state p \<in> {PORT_STATE_TRANSMIT_BREAK, PORT_STATE_WAIT_FOR_TX_COMPLETE}) \<and>
     taken p = accounted p"

lemma is_txstate_simps [simp]:
  "is_txstate s \<longleftrightarrow> s \<in> {PORT_STATE_TRANSMIT_BREAK, PORT_STATE_TRANSMIT_DATA, PORT_STATE_WAIT_FOR_TX_COMPLETE}"
  by (cases s) (simp_all add: is_txstate_def PORT_STATE_FIRST_TXSTATE_def)

lemma is_rxstate_simps [simp]:
  "is_rxstate s \<longleftrightarrow> s \<in> disc_states \<union> {PORT_STATE_EXPECT_STARTCODE, PORT_STATE_RECEIVE_DMXDATA,
     PORT_STATE_EXPECT_RDM_FRAME, PORT_STATE_RECEIVE_RDMDATA, PORT_STATE_LAST_RXSTATE}"
  by (cases s) (simp_all add: is_rxstate_def PORT_STATE_FIRST_RXSTATE_def)

lemma port_inv_create: "port_inv (dmx512_rtuart_client_create tmr 0)"
  by (simp add: dmx512_rtuart_client_create_def dmx512_rtuart_start_def zero_port_def port_inv_def
      Let_def accounted_def bit_or_iff) (simp add: taken_def returned_def)

lemma port_inv_has_space:
  assumes "port_inv p" and "bit (p_notify p) 1"
    and "dmx512rtuart_transmitter_has_space n (notify_taken UART_NOTIFY_TXREADY p) = Some p'"
  shows "port_inv p'"
  using assms
  by (auto simp: port_inv_def dmx512rtuart_transmitter_has_space_def Let_def accounted_def bind_eq_Some
      split: option.splits if_splits)

lemma port_inv_empty:
  assumes "port_inv p" and "bit (p_notify p) 0"
  shows "port_inv (dmx512rtuart_transmitter_empty got (notify_taken UART_NOTIFY_TXEMPTY p))"
  using assms
  by (auto simp: port_inv_def dmx512rtuart_transmitter_empty_def Let_def accounted_def tx_complete_idle_def
      ac_simps split: option.split)

text \<open>A reply that goes up in place of its request, after the frame received into went back.\<close>

lemma port_inv_reply:
  assumes "received_tx_reply reply (put_rx_frame q) = Some p'"
    and "port_inv p" and "\<not> is_txstate (p_state p)"
    and "p_state q = p_state p" "rx_frame q = rx_frame p" "tx_frame q = tx_frame p"
      "p_notify q = p_notify p" "taken q = taken p" "returned q = returned p"
  shows "port_inv p'"
  using received_tx_reply_sel [OF assms(1)] assms(2-)
  by (auto simp: port_inv_def accounted_def ac_simps)

lemma port_inv_timeout:
  assumes "port_inv p" and "posix_timer_thread_handler p = Some p'"
  shows "port_inv p'"
  using assms
  by (auto simp: posix_timer_thread_handler_def dmx512rtuart_handle_rdm_timeout_def Let_def
      split: if_splits elim!: port_inv_reply) (auto simp: port_inv_def accounted_def)

lemma port_inv_line:
  assumes "port_inv p"
  shows "port_inv (dmx512rtuart_line_status_event m got p)"
  using assms
  by (cases "p_state p"; cases got; auto simp: port_inv_def dmx512rtuart_line_status_event_def handle_break_def flush_on_break_def
      start_reception_def Let_def accounted_def ac_simps split: option.split)

text \<open>Ports that differ only in what was received and in timers.\<close>

definition same_port :: "port \<Rightarrow> port \<Rightarrow> bool" where
  "same_port p q \<longleftrightarrow> p_state q = p_state p \<and> tx_frame q = tx_frame p \<and> tx_ptr q = tx_ptr p \<and>
     p_notify q = p_notify p \<and> taken q = taken p \<and> returned q = returned p \<and>
     held1 (rx_frame q) = held1 (rx_frame p)"

lemma held1_eq_empty [simp]: "held1 f = {#} \<longleftrightarrow> f = None"
  by (cases f) simp_all

lemma same_port_rx: "same_port p q \<Longrightarrow> rx_frame q = None \<longleftrightarrow> rx_frame p = None"
  unfolding same_port_def by (metis held1_eq_empty)

lemma same_port_inv: "same_port p q \<Longrightarrow> port_inv p \<Longrightarrow> port_inv q"
  using same_port_rx [of p q] by (simp add: same_port_def port_inv_def accounted_def)

lemma same_port_refl [simp]: "same_port p p"
  by (simp add: same_port_def)

lemma same_port_trans: "same_port p q \<Longrightarrow> same_port q r \<Longrightarrow> same_port p r"
  by (simp add: same_port_def)

lemma same_port_upd [simp]:
  "same_port p (q\<lparr>rx_expected := n\<rparr>) \<longleftrightarrow> same_port p q"
  "same_port p (rx_advance k q) \<longleftrightarrow> same_port p q"
  "same_port p (set_rx_flags fl q) \<longleftrightarrow> same_port p q"
  "same_port p (dmx512rtuart_stop_rdm_timer q) \<longleftrightarrow> same_port p q"
  "same_port p (dmx512rtuart_start_rdm_timer us q) \<longleftrightarrow> same_port p q"
  "same_port (dmx512rtuart_stop_rdm_timer p) q \<longleftrightarrow> same_port p q"
  "same_port (dmx512rtuart_start_rdm_timer us p) q \<longleftrightarrow> same_port p q"
  by (simp_all add: same_port_def rx_advance_def set_rx_flags_def)

lemma same_port_read: "rtuart_read_chars n fifo p = Some (ret, q) \<Longrightarrow> same_port p q"
  by (auto simp: rtuart_read_chars_def same_port_def Let_def bind_eq_Some split: option.splits dptr.splits if_splits)

lemma same_port_checks:
  "check_startcode s n p = Some q \<Longrightarrow> same_port p q"
  "check_substartcode s n p = Some q \<Longrightarrow> same_port p q"
  "check_length s n p = Some q \<Longrightarrow> same_port p q"
  "check_discover s n p = Some q \<Longrightarrow> same_port p q"
  by (auto simp: check_startcode_def check_substartcode_def check_length_def check_discover_def
      Let_def bind_eq_Some split: if_splits)

lemma same_port_check_received:
  assumes "dmx512_check_received_data s n p = Some q"
  shows "same_port p q"
  using assms
  by (auto simp: dmx512_check_received_data_def bind_eq_Some split: if_splits
      dest!: same_port_checks intro: same_port_trans)

lemma port_inv_rx_complete:
  assumes "port_inv p" and "\<not> is_txstate (p_state p)"
  shows "port_inv (rx_complete p)"
  using assms by (auto simp: rx_complete_def port_inv_def accounted_def ac_simps Let_def split: option.split)

lemma port_inv_rx_enable:
  "port_inv p \<Longrightarrow> port_inv (uart_enable_notification UART_NOTIFY_RXAVAILABLE p)"
  "port_inv p \<Longrightarrow> port_inv (emit (FlushFifo a b) p)"
  by (auto simp: port_inv_def accounted_def)

lemma port_inv_frame_data:
  assumes "receive_frame_data c mx n fifo p = Some p'" and "port_inv p" and "\<not> is_txstate (p_state p)"
  shows "port_inv p'"
proof -
  obtain ret q where q: "rtuart_read_chars n fifo p = Some (ret, q)" and
    r: "(if ret > 0 then do {
           p \<leftarrow> dmx512_check_received_data (int (rx_count q)) (int ret) q;
           let p = rx_advance ret p;
           Some (if int (rx_count p) \<ge> mx \<and> rx_frame p \<noteq> None then rx_complete p
                 else uart_enable_notification UART_NOTIFY_RXAVAILABLE p) }
         else Some q) \<bind> (\<lambda>p. Some (if c > n then emit (FlushFifo False True) p else p)) = Some p'"
    using assms(1) by (auto simp: receive_frame_data_def bind_eq_Some)
  have pq: "same_port p q" using q by (rule same_port_read)
  have ok: "port_inv t" "\<not> is_txstate (p_state t)" if "same_port p t" for t
    using that assms(2,3) same_port_inv by (auto simp: same_port_def)
  show ?thesis
  proof (cases "ret > 0")
    case True
    then obtain t where t: "dmx512_check_received_data (int (rx_count q)) (int ret) q = Some t"
      and p': "p' = (let p = rx_advance ret t;
          p = (if int (rx_count p) \<ge> mx \<and> rx_frame p \<noteq> None then rx_complete p
               else uart_enable_notification UART_NOTIFY_RXAVAILABLE p)
        in if c > n then emit (FlushFifo False True) p else p)"
      using r by (auto simp: bind_eq_Some Let_def)
    have "same_port p (rx_advance ret t)"
      using same_port_trans [OF pq same_port_check_received [OF t]] by simp
    then show ?thesis using ok port_inv_rx_complete port_inv_rx_enable unfolding p' Let_def by presburger
  next
    case False
    then show ?thesis using r ok [OF pq] port_inv_rx_enable(2) by (auto split: if_splits)
  qed
qed

text \<open>Going idle once the frames are accounted for.\<close>

lemma port_inv_idle:
  assumes "rx_frame p = None" and "tx_frame p = None" and "taken p = returned p"
    and "\<not> bit (p_notify p) 0" and "\<not> bit (p_notify p) 1"
  shows "port_inv (next_state PORT_STATE_IDLE p)"
  using assms by (simp add: port_inv_def accounted_def)

text \<open>What a reply leaves of a port that waited for a discovery response.\<close>

lemma port_inv_disc_complete:
  assumes "disc_complete p = Some p'" and "port_inv p" and "p_state p \<in> disc_states"
  shows "port_inv p'"
proof -
  define q where "q = dmx512rtuart_stop_rdm_timer p"
  have q: "same_port p q" by (simp add: q_def)
  obtain f r where cq: "dmx512rtuart_checkout_rx_frame q = (f, r)" by fastforce
  have r: "p_state r = p_state p" "tx_frame r = tx_frame p" "p_notify r = p_notify p"
      "taken r = taken p" "returned r = returned p" "rx_frame r = None" "held1 f = held1 (rx_frame p)"
    using cq q by (auto simp: dmx512rtuart_checkout_rx_frame_def same_port_def Let_def
        dmx512_uart_update_automatic_framecount_locking_def split: option.splits if_splits)
  show ?thesis
  proof (cases f)
    case None
    then obtain t where t: "received_tx_reply rdm_discovery_reply_collision r = Some t"
        and p': "p' = next_state PORT_STATE_IDLE (emit (PutFrame None) t)"
      using assms(1) cq by (auto simp: disc_complete_def q_def [symmetric] bind_eq_Some Let_def)
    show ?thesis using received_tx_reply_sel [OF t] r assms(2,3) None unfolding p'
      by (auto simp: port_inv_def accounted_def)
  next
    case (Some e)
    then obtain i fr where c: "dmx512rtuart_complete_rdm_discovery_reply (fqe_frame e) = Some (i, fr)"
        and s: "(if i < 0 then do {
                   p \<leftarrow> received_tx_reply rdm_discovery_reply_collision r;
                   Some (emit (PutFrame (Some (e\<lparr>fqe_frame := fr\<rparr>))) p) }
                 else Some (emit (ReceivedFrame (Some (e\<lparr>fqe_frame := fr\<rparr>))) (put_tx_frame r)))
                \<bind> (\<lambda>p. Some (next_state PORT_STATE_IDLE p)) = Some p'"
      using assms(1) cq by (auto simp: disc_complete_def q_def [symmetric] bind_eq_Some Let_def)
    have nb: "\<not> bit (p_notify r) 0" "\<not> bit (p_notify r) 1" "taken r = returned r + held1 f + held1 (tx_frame r)"
      using r assms(2,3) by (cases "p_state p"; simp add: port_inv_def accounted_def)+
    show ?thesis
    proof (cases "i < 0")
      case True
      then obtain t where t: "received_tx_reply rdm_discovery_reply_collision r = Some t"
          and p': "p' = next_state PORT_STATE_IDLE (emit (PutFrame (Some (e\<lparr>fqe_frame := fr\<rparr>))) t)"
        using s by (auto simp: bind_eq_Some)
      note tt = received_tx_reply_sel [OF t]
      show ?thesis
        unfolding p' by (rule port_inv_idle) (use tt nb r Some in \<open>simp_all add: ac_simps\<close>)
    next
      case False
      then have p': "p' = next_state PORT_STATE_IDLE
          (emit (ReceivedFrame (Some (e\<lparr>fqe_frame := fr\<rparr>))) (put_tx_frame r))"
        using s by simp
      show ?thesis
        unfolding p' by (rule port_inv_idle) (use nb r Some in \<open>simp_all add: ac_simps\<close>)
    qed
  qed
qed

lemma port_inv_disc_preamble:
  assumes "disc_preamble ret p = Some q" and "port_inv p" and "p_state p = PORT_STATE_RDMDISC_RECV_PREAMBLE"
  shows "port_inv q"
proof -
  obtain f o1 pos where fo: "rx_frame p = Some f" "rx_data p = Data o1"
      "dmx512rtuart_find_preamble (f_data (fqe_frame f)) o1 ret = Some pos"
    using assms(1) by (auto simp: disc_preamble_def bind_eq_Some split: option.splits dptr.splits)
  show ?thesis
  proof (cases "pos = -2")
    case True
    then obtain t where t: "received_tx_reply rdm_discovery_reply_collision
          (put_rx_frame (dmx512rtuart_stop_rdm_timer p)) = Some t"
        and q: "q = next_state PORT_STATE_IDLE t"
      using assms(1) fo by (auto simp: disc_preamble_def bind_eq_Some Let_def)
    note tt = received_tx_reply_sel [OF t]
    show ?thesis
      unfolding q
      by (rule port_inv_idle) (use tt assms(2,3) in \<open>simp_all add: port_inv_def accounted_def ac_simps\<close>)
  next
    case False
    then show ?thesis
      using assms fo by (auto simp: disc_preamble_def port_inv_def accounted_def split: if_splits)
  qed
qed

lemma port_inv_disc_data:
  assumes "receive_disc_data c fifo p = Some p'" and "port_inv p" and "p_state p \<in> disc_states"
  shows "port_inv p'"
proof -
  obtain ret q where q: "rtuart_read_chars c fifo p = Some (ret, q)"
    using assms(1) by (auto simp: receive_disc_data_def bind_eq_Some)
  have pq: "same_port p q" using q by (rule same_port_read)
  have iq: "port_inv q" and sq: "p_state q \<in> disc_states"
    using pq assms(2,3) same_port_inv by (auto simp: same_port_def)
  show ?thesis
  proof (cases "ret > 0")
    case True
    then obtain t where t: "(if p_state q = PORT_STATE_RDMDISC_RECV_PREAMBLE then disc_preamble ret q
        else Some q) = Some t" and p': "(let p = rx_advance ret t in
          if p_state p = PORT_STATE_RDMDISC_RECV_DATA \<and> rx_count p \<ge> rx_expected p + 1 \<and> rx_frame p \<noteq> None
          then disc_complete p else Some (uart_enable_notification UART_NOTIFY_RXAVAILABLE p)) = Some p'"
      using assms(1) q by (auto simp: receive_disc_data_def bind_eq_Some)
    have "port_inv t" using t iq sq port_inv_disc_preamble [of ret q t] by (auto split: if_splits)
    then have "port_inv (rx_advance ret t)" using same_port_inv [of t "rx_advance ret t"] by simp
    then show ?thesis
      using p' port_inv_disc_complete [of "rx_advance ret t" p'] port_inv_rx_enable(1)
      by (auto simp: Let_def split: if_splits)
  next
    case False
    then show ?thesis using assms(1) q iq by (auto simp: receive_disc_data_def)
  qed
qed

lemma port_inv_data_available:
  assumes "dmx512rtuart_receiver_data_available c fifo p = Some p'" and "port_inv p"
  shows "port_inv p'"
proof -
  have st: "port_inv (next_state PORT_STATE_RECEIVE_DMXDATA p)"
    if "p_state p \<in> {PORT_STATE_EXPECT_STARTCODE, PORT_STATE_RECEIVE_DMXDATA}"
    using that assms(2) by (cases "p_state p"; simp add: port_inv_def accounted_def)
  have idle: "port_inv (next_state PORT_STATE_IDLE (emit (FlushFifo False True) p))"
    if "rx_frame p = None" "\<not> is_txstate (p_state p)"
    using that assms(2) by (auto simp: port_inv_def accounted_def)
  have tm: "port_inv (dmx512rtuart_start_rdm_timer us (dmx512rtuart_stop_rdm_timer p))" for us
    by (rule same_port_inv [OF _ assms(2)]) simp
  show ?thesis
  proof (cases "is_txstate (p_state p) \<or> rx_frame p = None")
    case True
    then show ?thesis
      using assms idle by (auto simp: dmx512rtuart_receiver_data_available_def Let_def split: if_splits)
  next
    case False
    define k where "k = (if c = - 1 then 1 else c)"
    define mx where "mx = int (rx_expected p) + 1"
    define n where "n = (if int (rx_count p) + k < mx then k else mx - int (rx_count p))"
    note r = assms(1) [unfolded dmx512rtuart_receiver_data_available_def Let_def,
        folded k_def mx_def, folded n_def]
    show ?thesis
    proof (cases "p_state p \<in> {PORT_STATE_EXPECT_STARTCODE, PORT_STATE_RECEIVE_DMXDATA}")
      case True
      then have "receive_frame_data k mx n fifo (next_state PORT_STATE_RECEIVE_DMXDATA p) = Some p'"
        using r False by (auto simp del: not_None_eq)
      then show ?thesis by (rule port_inv_frame_data [OF _ st [OF True]]) simp
    next
      case not_dmx: False
      consider (rdm) "p_state p = PORT_STATE_RECEIVE_RDMDATA"
        | (preamble) "p_state p = PORT_STATE_RDMDISC_RECV_PREAMBLE"
        | (disc) "p_state p = PORT_STATE_RDMDISC_RECV_DATA"
        | (other) "p_state p \<notin> disc_states \<union> {PORT_STATE_RECEIVE_RDMDATA}" by blast
      then show ?thesis
      proof cases
        case rdm
        then have "receive_frame_data k mx n fifo p = Some p'" using r False by (auto simp del: not_None_eq)
        then show ?thesis by (rule port_inv_frame_data [OF _ assms(2)]) (simp add: rdm)
      next
        case preamble
        then have "receive_disc_data k fifo (dmx512rtuart_start_rdm_timer TIMEOUT_RDMDISCOVERY_LENGTH
            (dmx512rtuart_stop_rdm_timer p)) = Some p'"
          using r False by (auto simp del: not_None_eq)
        then show ?thesis by (rule port_inv_disc_data [OF _ tm]) (simp add: preamble)
      next
        case disc
        then have "receive_disc_data k fifo p = Some p'" using r False by (auto simp del: not_None_eq)
        then show ?thesis by (rule port_inv_disc_data [OF _ assms(2)]) (simp add: disc)
      next
        case other
        then have "p' = emit (FlushFifo False True) p" using r False not_dmx by (auto simp del: not_None_eq)
        then show ?thesis by (simp add: port_inv_rx_enable(2) [OF assms(2)])
      qed
    qed
  qed
qed

text \<open>Sending: the frame that was being received goes up, and then the port is busy or starts.\<close>

lemma flush_for_send_sel:
  "tx_frame (flush_for_send p) = tx_frame p" "tx_ptr (flush_for_send p) = tx_ptr p"
  "p_notify (flush_for_send p) = p_notify p" "rx_frame (flush_for_send p) = None"
  "taken (flush_for_send p) = taken p"
  "returned (flush_for_send p) = returned p + held1 (rx_frame p)"
  "p_state (flush_for_send p) =
     (if rx_frame p \<noteq> None \<and> is_rxstate (p_state p) then PORT_STATE_IDLE else p_state p)"
  by (auto simp: flush_for_send_def Let_def)

lemma encode_tx_frame_sel:
  assumes "encode_tx_frame p = Some q"
  shows "p_state q = p_state p" "rx_frame q = rx_frame p" "p_notify q = p_notify p" "taken q = taken p"
    "returned q = returned p" "held1 (tx_frame q) = held1 (tx_frame p)" "tx_frame q \<noteq> None"
    "tx_ptr p \<noteq> None \<longrightarrow> tx_ptr q \<noteq> None" "rx_data q = rx_data p" "rx_count q = rx_count p"
    "rx_lock q = rx_lock p" "rx_expected q = rx_expected p"
  using assms by (auto simp: encode_tx_frame_def Let_def bind_eq_Some split: option.splits if_splits)

lemma start_transmission_inv:
  assumes "p_state p = PORT_STATE_TRANSMIT_BREAK" "rx_frame p = None" "tx_frame p \<noteq> None" "tx_ptr p \<noteq> None"
    "\<not> bit (p_notify p) 0" "\<not> bit (p_notify p) 1" "taken p = accounted p"
  shows "port_inv (start_transmission p)"
  using assms by (auto simp: start_transmission_def Let_def port_inv_def accounted_def)

lemma port_inv_send:
  assumes "port_inv p" and "dmx512_rtuart_client_send_frame e (emit (Submitted e) p) = Some p'"
  shows "port_inv p'"
proof (cases "tx_frame p = None")
  case True
  define q where "q = next_state PORT_STATE_TRANSMIT_BREAK (flush_for_send (emit (Submitted e) p))
      \<lparr>tx_frame := Some e, tx_ptr := Some 0, tx_remain := 1 + unat (f_payload_size (fqe_frame e))\<rparr>"
  obtain r where r: "encode_tx_frame q = Some r" and p': "p' = start_transmission r"
    using assms(2) True
    by (auto simp: dmx512_rtuart_client_send_frame_def q_def flush_for_send_sel bind_eq_Some)
  show ?thesis
    unfolding p' by (rule start_transmission_inv)
      (use encode_tx_frame_sel [OF r] assms(1) True in
        \<open>auto simp: q_def flush_for_send_sel port_inv_def accounted_def\<close>)
next
  case False
  then have p': "p' = emit (PutFrame (Some e)) (flush_for_send (emit (Submitted e) p))"
    using assms(2) by (simp add: dmx512_rtuart_client_send_frame_def flush_for_send_sel)
  show ?thesis
    using assms(1) False unfolding p' port_inv_def accounted_def
    by (auto simp: flush_for_send_sel ac_simps)
qed

section \<open>Every reachable port\<close>

lemma port_inv_deliver:
  assumes "port_inv p" and "deliver ev p = Some p'"
  shows "port_inv p'"
proof (cases ev)
  case (EvTxSpace n)
  then show ?thesis using assms port_inv_has_space by (auto simp: notify_on_bits split: if_splits)
next
  case (EvTxEmpty got)
  then show ?thesis using assms port_inv_empty by (auto simp: notify_on_bits split: if_splits)
next
  case (EvRxData c fifo)
  have "port_inv (notify_taken UART_NOTIFY_RXAVAILABLE p)"
    using assms(1) by (simp add: port_inv_def accounted_def)
  then have "port_inv q"
    if "dmx512rtuart_receiver_data_available c fifo (notify_taken UART_NOTIFY_RXAVAILABLE p) = Some q" for q
    using that port_inv_data_available by blast
  moreover have "deliver (EvRxData c fifo) p = Some p'" using assms(2) EvRxData by simp
  ultimately show ?thesis
    using port_inv_rx_enable(2) [OF assms(1), of False True]
    by (cases "notify_on (p_notify p) UART_NOTIFY_RXAVAILABLE") auto
next
  case (EvLine m got)
  then show ?thesis using assms port_inv_line by auto
next
  case EvTimeout
  then show ?thesis using assms port_inv_timeout by auto
next
  case EvPeriodical
  then have "same_port p p'"
    using assms(2) by (auto simp: dmx512_rtuart_periodical_def same_port_def)
  then show ?thesis using assms(1) by (rule same_port_inv)
next
  case (EvSend e)
  then show ?thesis using assms port_inv_send by auto
qed

lemma port_reachable_inv: "port_reachable p \<Longrightarrow> port_inv p"
  by (induction rule: port_reachable.induct) (auto intro: port_inv_create port_inv_deliver)

section \<open>Transmission\<close>

fun deliver_all :: "port_event list \<Rightarrow> port \<Rightarrow> port option" where
  "deliver_all [] p = Some p"
| "deliver_all (ev # evs) p = do { p \<leftarrow> deliver ev p; deliver_all evs p }"

lemma deliver_all_append [simp]:
  "deliver_all (xs @ ys) p = do { p \<leftarrow> deliver_all xs p; deliver_all ys p }"
proof (induction xs arbitrary: p)
  case (Cons ev xs)
  then show ?case by (cases "deliver ev p") simp_all
qed simp

text \<open>The octets written to the UART, in order.\<close>

fun written1 :: "port_effect \<Rightarrow> u8 list" where
  "written1 (WriteChars cs) = cs"
| "written1 _ = []"

definition written :: "port \<Rightarrow> u8 list" where
  "written p = concat (map written1 (p_log p))"

lemma written_sel [simp]:
  "written (emit e p) = written p @ written1 e"
  "written (next_state s p) = written p"
  "written (uart_enable_notification n p) = written p"
  "written (uart_disable_notification n p) = written p"
  "written (notify_taken n p) = written p"
  "written (dmx512_rtuart_client_enable_rs485_transmitter on p) = written p"
  "written (put_tx_frame p) = written p"
  by (simp_all add: written_def next_state_def uart_enable_notification_def uart_disable_notification_def
      notify_taken_def dmx512_rtuart_client_enable_rs485_transmitter_def put_tx_frame_def
      dmx512rtuart_checkout_tx_frame_def split: option.split)

lemma written_upd [simp]:
  "written (p\<lparr>tx_frame := a\<rparr>) = written p" "written (p\<lparr>tx_ptr := b\<rparr>) = written p"
  "written (p\<lparr>tx_remain := c\<rparr>) = written p"
  by (simp_all add: written_def)

lemma put_tx_log [simp]: "p_log (put_tx_frame p) = p_log p @ [PutFrame (tx_frame p)]"
  by (simp add: put_tx_frame_def dmx512rtuart_checkout_tx_frame_def split: option.split)

text \<open>A port in the middle of a transmission: \<open>r\<close> octets from offset \<open>o1\<close> remain.\<close>

definition sending :: "dmx512_framequeue_entry \<Rightarrow> nat \<Rightarrow> nat \<Rightarrow> port \<Rightarrow> bool" where
  "sending e o1 r p \<longleftrightarrow> p_state p = PORT_STATE_TRANSMIT_DATA \<and> tx_frame p = Some e \<and>
     tx_ptr p = Some o1 \<and> tx_remain p = r \<and> rx_frame p = None \<and> bit (p_notify p) 1"

lemma sending_step:
  assumes "sending e o1 r p" and "frame_wf (fqe_frame e)" and "o1 + r \<le> 513" and "0 < r"
    and "s < 0 \<or> 12 \<le> s"
  shows "\<exists>p'. deliver (EvTxSpace s) p = Some p' \<and> sending e (o1 + min r 12) (r - min r 12) p' \<and>
     written p' = written p @ take (min r 12) (drop o1 (f_data (fqe_frame e)))"
proof (cases "s < 0 \<or> s > int r")
  case True
  with assms(1-4) show ?thesis
    by (auto simp: sending_def dmx512rtuart_transmitter_has_space_def notify_on_bits Let_def
        arr_slice_def min_def)
next
  case False
  then have "12 \<le> r" "nat s > 12 \<or> nat s = 12" using assms(5) by auto
  with False assms(1-4) show ?thesis
    by (auto simp: sending_def dmx512rtuart_transmitter_has_space_def notify_on_bits Let_def
        arr_slice_def min_def)
qed

lemma sending_all:
  assumes "sending e o1 r p" and "frame_wf (fqe_frame e)" and "o1 + r \<le> 513"
    and "s < 0 \<or> 12 \<le> s" and "r \<le> 12 * n"
  shows "\<exists>m \<le> n. \<exists>p'. deliver_all (replicate m (EvTxSpace s)) p = Some p' \<and> sending e (o1 + r) 0 p' \<and>
     written p' = written p @ take r (drop o1 (f_data (fqe_frame e)))"
  using assms
proof (induction n arbitrary: o1 r p)
  case 0
  then show ?case by (intro exI [of _ 0]) simp
next
  case (Suc n)
  show ?case
  proof (cases "r = 0")
    case True
    with Suc.prems show ?thesis by (intro exI [of _ 0]) simp
  next
    case False
    let ?k = "min r 12"
    obtain q where q: "deliver (EvTxSpace s) p = Some q" "sending e (o1 + ?k) (r - ?k) q"
        "written q = written p @ take ?k (drop o1 (f_data (fqe_frame e)))"
      using sending_step [of e o1 r p s] Suc.prems False by auto
    have "(o1 + ?k) + (r - ?k) \<le> 513" "r - ?k \<le> 12 * n" "o1 + ?k + (r - ?k) = o1 + r"
      using Suc.prems(3,5) by auto
    then obtain m p' where m: "m \<le> n" "deliver_all (replicate m (EvTxSpace s)) q = Some p'"
        "sending e (o1 + r) 0 p'"
        "written p' = written q @ take (r - ?k) (drop (o1 + ?k) (f_data (fqe_frame e)))"
      using Suc.IH [OF q(2) Suc.prems(2) _ Suc.prems(4)] by auto
    have "take ?k (drop o1 (f_data (fqe_frame e))) @ take (r - ?k) (drop (o1 + ?k) (f_data (fqe_frame e)))
        = take r (drop o1 (f_data (fqe_frame e)))"
      using take_add [of ?k "r - ?k" "drop o1 (f_data (fqe_frame e))"] by (simp add: add.commute)
    then show ?thesis
      using m q by (intro exI [of _ "Suc m"] conjI exI [of _ p']) simp_all
  qed
qed

end
