(* ===== verification/Dmx_Uart_Transfer.thy ===== *)
theory Dmx_Uart_Transfer
  imports Dmx_Uart_Port
begin

text \<open>
  What a port does over whole transfers: a frame that is sent leaves the UART completely and in
  order and then goes back to its owner; a discovery response that answers a request goes up
  decoded; the slot count lock snaps in after the required number of equal frames. Each theorem is
  about a sequence of the events of \<^verbatim>\<open>Dmx_Uart_Port\<close>.
\<close>

section \<open>Sending one frame\<close>

lemma send_start:
  assumes "port_inv p" and "tx_frame p = None" and "rx_frame p = None"
    and "\<not> dmx512frame_is_rdm (f_data (fqe_frame e))"
    and "\<not> has_flag (f_flags (fqe_frame e)) DMX512_FLAG_NOBREAK"
  shows "\<exists>q. deliver_all [EvSend e, EvTxEmpty got] p = Some q \<and>
     sending e 0 (1 + unat (f_payload_size (fqe_frame e))) q \<and> written q = written p @ [0]"
  using assms
  by (auto simp: dmx512_rtuart_client_send_frame_def flush_for_send_def encode_tx_frame_def
      start_transmission_def tx_flags_def dmx512rtuart_transmitter_empty_def notify_on_bits sending_def Let_def)

lemma send_finish:
  assumes "sending e n 0 p" and "\<not> has_flag (f_flags (fqe_frame e)) DMX512_FLAG_IS_RDM"
  shows "\<exists>q. deliver_all [EvTxSpace s, EvTxEmpty got] p = Some q \<and> p_state q = PORT_STATE_IDLE \<and>
     tx_frame q = None \<and> rx_frame q = None \<and> written q = written p \<and>
     last (p_log q) = PutFrame (Some e)"
  using assms
  by (auto simp: sending_def dmx512rtuart_transmitter_has_space_def dmx512rtuart_transmitter_empty_def
      notify_on_bits Let_def tx_complete_idle_def)

text \<open>How many interrupts with room for twelve octets a frame takes.\<close>

lemma send_frame_complete:
  assumes "port_inv p" and "tx_frame p = None" and "rx_frame p = None" and "frame_wf (fqe_frame e)"
    and "unat (f_payload_size (fqe_frame e)) \<le> 512"
    and "\<not> dmx512frame_is_rdm (f_data (fqe_frame e))"
    and "f_flags (fqe_frame e) = 0" and "s < 0 \<or> 12 \<le> s"
  shows "\<exists>m \<le> 43. \<exists>q. deliver_all ([EvSend e, EvTxEmpty None] @ replicate m (EvTxSpace s) @
       [EvTxSpace s, EvTxEmpty None]) p = Some q \<and> p_state q = PORT_STATE_IDLE \<and> tx_frame q = None \<and>
     written q = written p @ [0] @ take (1 + unat (f_payload_size (fqe_frame e))) (f_data (fqe_frame e)) \<and>
     last (p_log q) = PutFrame (Some e)"
proof -
  let ?r = "1 + unat (f_payload_size (fqe_frame e))"
  have fl: "\<not> has_flag (f_flags (fqe_frame e)) m" for m
    using assms(7) by (simp add: has_flag_def)
  obtain q1 where q1: "deliver_all [EvSend e, EvTxEmpty None] p = Some q1" "sending e 0 ?r q1"
      "written q1 = written p @ [0]"
    using send_start [OF assms(1,2,3,6) fl] by blast
  obtain m q2 where q2: "m \<le> 43" "deliver_all (replicate m (EvTxSpace s)) q1 = Some q2"
      "sending e (0 + ?r) 0 q2" "written q2 = written q1 @ take ?r (drop 0 (f_data (fqe_frame e)))"
    using sending_all [OF q1(2) assms(4) _ assms(8), of 43] assms(5) by auto
  obtain q3 where q3: "deliver_all [EvTxSpace s, EvTxEmpty None] q2 = Some q3"
      "p_state q3 = PORT_STATE_IDLE" "tx_frame q3 = None" "written q3 = written q2"
      "last (p_log q3) = PutFrame (Some e)"
    using send_finish [OF q2(3) fl] by blast
  have "deliver_all ([EvSend e, EvTxEmpty None] @ replicate m (EvTxSpace s) @
      [EvTxSpace s, EvTxEmpty None]) p = Some q3"
    unfolding deliver_all_append q1(1) q2(2) q3(1) bind.bind_lunit ..
  moreover have "written q3 = written p @ [0] @ take ?r (f_data (fqe_frame e))"
    using q1(3) q2(4) q3(4) by simp
  ultimately show ?thesis using q2(1) q3 by blast
qed

text \<open>A frame that comes while another one is transmitted.\<close>

lemma send_frame_busy:
  assumes "tx_frame p \<noteq> None"
  shows "\<exists>q. deliver (EvSend e) p = Some q \<and> tx_frame q = tx_frame p \<and>
     tx_ptr q = tx_ptr p \<and> tx_remain q = tx_remain p \<and> written q = written p \<and>
     last (p_log q) = PutFrame (Some e)"
proof -
  have w: "written (received_rx_frame q) = written q" "written (q\<lparr>rx_frame := f\<rparr>) = written q" for q f
    by (simp_all add: written_def received_rx_frame_def dmx512rtuart_checkout_rx_frame_def Let_def
        dmx512_uart_update_automatic_framecount_locking_def split: option.split)
  show ?thesis
    using assms by (auto simp: dmx512_rtuart_client_send_frame_def flush_for_send_def Let_def w)
qed

section \<open>The slot count lock\<close>

definition initial_lock :: slot_count_lock where
  "initial_lock = rx_lock (dmx512_rtuart_client_create True 0)"

lemma initial_lock_sel:
  "initial_lock = \<lparr>lk_enabled = False, lk_locked = False, lk_required_count = 10,
     lk_matching_frame_count = 0, lk_matching_slot_count = 0\<rparr>"
  by (simp add: initial_lock_def dmx512_rtuart_client_create_def dmx512_rtuart_start_def zero_port_def Let_def)

text \<open>After \<open>k + 1\<close> frames of the same size the first of which set the size.\<close>

lemma lock_count:
  assumes "lk_required_count l = 10" and "\<not> lk_locked l"
    and "lk_matching_frame_count l = 0" and "n = ucast (lk_matching_slot_count l)" and "k \<le> 10"
  shows "(update_lock n ^^ k) l = l\<lparr>lk_matching_frame_count := of_nat k, lk_locked := (k = 10)\<rparr>"
  using assms(5)
proof (induction k)
  case 0
  then show ?case using assms by simp
next
  case (Suc k)
  have neq: "(10 :: 6 word) = of_nat (Suc k) \<longleftrightarrow> Suc k = 10"
  proof -
    have "(of_nat 10 :: 6 word) = of_nat (Suc k) \<longleftrightarrow> (10 :: nat) = Suc k"
    proof
      assume "(of_nat 10 :: 6 word) = of_nat (Suc k)"
      then have "unat (of_nat 10 :: 6 word) = unat (of_nat (Suc k) :: 6 word)" by (rule arg_cong)
      then show "10 = Suc k" using Suc.prems unfolding unat_of_nat by simp
    qed (simp only:)
    then show ?thesis by auto
  qed
  have "(update_lock n ^^ Suc k) l =
      update_lock n (l\<lparr>lk_matching_frame_count := of_nat k, lk_locked := (k = 10)\<rparr>)"
    using Suc by simp
  also have "\<dots> = l\<lparr>lk_matching_frame_count := of_nat (Suc k), lk_locked := (Suc k = 10)\<rparr>"
    using Suc.prems assms neq by (simp add: update_lock_def Let_def add.commute)
  finally show ?case .
qed

lemma lock_stays:
  assumes "lk_locked l" and "n = ucast (lk_matching_slot_count l)"
  shows "(update_lock n ^^ k) l = l"
  using assms by (induction k) (simp_all add: update_lock_def)

lemma lock_first:
  assumes "unat n < 1024" and "n \<noteq> 0"
  shows "update_lock n initial_lock = initial_lock\<lparr>lk_matching_slot_count := ucast n\<rparr>"
    and "ucast (ucast n :: 10 word) = n"
proof -
  have "unat (take_bit 10 n) = unat n"
    using assms(1) by (simp add: unsigned_take_bit_eq take_bit_nat_eq_self_iff)
  then have "take_bit 10 n = n" by (rule unsigned_word_eqI)
  moreover have "ucast (ucast n :: 10 word) = take_bit 10 n"
    by (rule bit_eqI) (auto simp: bit_simps)
  ultimately show "ucast (ucast n :: 10 word) = n" by simp
  show "update_lock n initial_lock = initial_lock\<lparr>lk_matching_slot_count := ucast n\<rparr>"
    using assms(2) by (simp add: update_lock_def initial_lock_sel)
qed

text \<open>Fewer than eleven equal frames do not lock, eleven and more do.\<close>

lemma lock_after_first:
  assumes "n \<noteq> 0" and "unat n < 1024" and "j \<le> 10"
  shows "(update_lock n ^^ Suc j) initial_lock = initial_lock\<lparr>lk_matching_slot_count := ucast n,
     lk_matching_frame_count := of_nat j, lk_locked := (j = 10)\<rparr>"
proof -
  define l where "l = initial_lock\<lparr>lk_matching_slot_count := ucast n\<rparr>"
  have l: "lk_required_count l = 10" "\<not> lk_locked l" "lk_matching_frame_count l = 0"
      "n = ucast (lk_matching_slot_count l)"
    using lock_first(2) [OF assms(2,1)] by (simp_all add: l_def initial_lock_sel)
  have "(update_lock n ^^ Suc j) initial_lock = (update_lock n ^^ j) l"
    by (simp add: funpow_Suc_right l_def lock_first(1) [OF assms(2,1)] del: funpow.simps)
  then show ?thesis using lock_count [OF l assms(3)] by (simp add: l_def)
qed

lemma lock_early:
  assumes "n \<noteq> 0" and "unat n < 1024" and "\<not> k \<ge> 11"
  shows "\<not> lk_locked ((update_lock n ^^ k) initial_lock)"
proof (cases k)
  case 0
  then show ?thesis by (simp add: initial_lock_sel)
next
  case (Suc j)
  then show ?thesis using lock_after_first [OF assms(1,2), of j] assms(3) by (simp del: funpow.simps)
qed

lemma lock_late:
  assumes "n \<noteq> 0" and "unat n < 1024" and "k \<ge> 11"
  shows "lk_locked ((update_lock n ^^ k) initial_lock)"
    and "ucast (lk_matching_slot_count ((update_lock n ^^ k) initial_lock)) = n"
proof -
  define l where "l = (update_lock n ^^ Suc 10) initial_lock"
  have l: "lk_locked l" "n = ucast (lk_matching_slot_count l)"
    using lock_after_first [OF assms(1,2), of 10] lock_first(2) [OF assms(2,1)]
    by (simp_all add: l_def del: funpow.simps)
  obtain j where "k = j + Suc 10" using assms(3) by (metis add.commute le_Suc_ex Suc_numeral semiring_norm(5,8))
  then have "(update_lock n ^^ k) initial_lock = l"
    using lock_stays [OF l, of j] by (simp only: funpow_add o_apply l_def)
  then show "lk_locked ((update_lock n ^^ k) initial_lock)"
    and "ucast (lk_matching_slot_count ((update_lock n ^^ k) initial_lock)) = n" using l by simp_all
qed

text \<open>A frame size that differs from the locked one.\<close>

lemma lock_lost:
  assumes "lk_locked l" and "n \<noteq> ucast (lk_matching_slot_count l)"
  shows "\<not> lk_locked (update_lock n l)" and "lk_matching_frame_count (update_lock n l) = 0"
  using assms by (simp_all add: update_lock_def)

section \<open>A discovery response\<close>

text \<open>A port that waits for the response to a discovery request \<open>t\<close> and received the first \<open>j\<close>
  octets of \<open>octs\<close>, which start with \<open>k\<close> preamble octets and the separator, into the frame \<open>r\<close>.\<close>

definition preambled :: "nat \<Rightarrow> u8 list \<Rightarrow> bool" where
  "preambled k octs \<longleftrightarrow> k \<le> 7 \<and> length octs = k + 17 \<and> (\<forall>j < k. octs ! j = 0xFE) \<and> octs ! k = 0xAA"

definition disc_at :: "dmx512_framequeue_entry \<Rightarrow> addr \<Rightarrow> nat \<Rightarrow> u8 list \<Rightarrow> nat \<Rightarrow> port \<Rightarrow> bool" where
  "disc_at t r k octs j p \<longleftrightarrow>
     p_state p = (if j \<le> k then PORT_STATE_RDMDISC_RECV_PREAMBLE else PORT_STATE_RDMDISC_RECV_DATA) \<and>
     (k < j \<longrightarrow> rx_expected p = k + 16) \<and> tx_frame p = Some t \<and>
     rx_frame p = Some \<lparr>fqe_id = r, fqe_frame =
       (fqe_frame t)\<lparr>f_data := blit (f_data (fqe_frame t)) 256 (take j octs)\<rparr>\<rparr> \<and>
     rx_data p = Data (256 + j) \<and> rx_count p = j"

lemma blit_append:
  assumes "i + length ys + length zs \<le> length xs"
  shows "blit (blit xs i ys) (i + length ys) zs = blit xs i (ys @ zs)"
proof -
  have "length ys = 0" if "length xs \<le> i" using assms that by linarith
  then show ?thesis using assms by (auto simp: blit_def min_def ac_simps)
qed

lemma find_preamble_none:
  "(\<forall>j < n. d ! (off + i + j) = 0xFE) \<Longrightarrow> off + i + n \<le> length d \<Longrightarrow>
   find_preamble_from d off i n = Some (-1)"
proof (induction n arbitrary: i)
  case (Suc n)
  have "d ! (off + i) = 0xFE" using Suc.prems(1) by (metis add.right_neutral zero_less_Suc)
  moreover have "\<forall>j < n. d ! (off + Suc i + j) = 0xFE"
    using Suc.prems(1) by (metis add_Suc_right add_Suc_shift Suc_less_eq)
  then have "find_preamble_from d off (Suc i) n = Some (-1)" using Suc by simp
  ultimately show ?case using Suc.prems by (simp add: fault_simps)
qed simp

text \<open>Reading the next \<open>n\<close> octets.\<close>

lemma disc_read:
  assumes "disc_at t r k octs j p" and "frame_wf (fqe_frame t)" and "preambled k octs" and "j + n \<le> k + 17"
  shows "rtuart_read_chars (int n) (take n (drop j octs)) p = Some (n, p\<lparr>rx_frame := Some
     \<lparr>fqe_id = r, fqe_frame = (fqe_frame t)\<lparr>f_data := blit (f_data (fqe_frame t)) 256 (take (j + n) octs)\<rparr>\<rparr>\<rparr>)"
proof -
  let ?d = "f_data (fqe_frame t)"
  have len: "length ?d = 513" "length octs = k + 17" "k \<le> 7"
    using assms(2,3) by (simp_all add: preambled_def)
  have j: "length (take j octs) = j" "length (take n (drop j octs)) = n" using len assms(4) by auto
  have b: "blit (blit ?d 256 (take j octs)) (256 + j) (take n (drop j octs)) = blit ?d 256 (take (j + n) octs)"
    using blit_append [of 256 "take j octs" "take n (drop j octs)" ?d] j len assms(4)
    by (simp add: take_add)
  have "arr_blit (blit ?d 256 (take j octs)) (256 + j) (take n (drop j octs)) =
      Some (blit ?d 256 (take (j + n) octs))"
    using j len assms(4) by (simp add: arr_blit_def b)
  then show ?thesis
    using assms(1) j by (simp add: rtuart_read_chars_def disc_at_def upd_frame_def)
qed


lemma disc_at_upd [simp]:
  "disc_at t r k octs j (notify_taken m p) \<longleftrightarrow> disc_at t r k octs j p"
  "disc_at t r k octs j (dmx512rtuart_start_rdm_timer us p) \<longleftrightarrow> disc_at t r k octs j p"
  "disc_at t r k octs j (dmx512rtuart_stop_rdm_timer p) \<longleftrightarrow> disc_at t r k octs j p"
  "disc_at t r k octs j (uart_enable_notification m p) \<longleftrightarrow> disc_at t r k octs j p"
  by (simp_all add: disc_at_def)

text \<open>The state a chunk of \<open>n\<close> octets leads to before completion is considered.\<close>

lemma disc_chunk:
  assumes "disc_at t r k octs j p" and "frame_wf (fqe_frame t)" and "preambled k octs"
    and "j + n \<le> k + 17" and "0 < n"
  shows "\<exists>q. disc_at t r k octs (j + n) q \<and>
     receive_disc_data (int n) (take n (drop j octs)) p =
       (if j + n = k + 17 then disc_complete q
        else Some (uart_enable_notification UART_NOTIFY_RXAVAILABLE q))"
proof -
  let ?fr = "(fqe_frame t)\<lparr>f_data := blit (f_data (fqe_frame t)) 256 (take (j + n) octs)\<rparr>"
  define p1 where "p1 = p\<lparr>rx_frame := Some \<lparr>fqe_id = r, fqe_frame = ?fr\<rparr>\<rparr>"
  note rd = disc_read [OF assms(1-4), folded p1_def]
  have len: "length (f_data (fqe_frame t)) = 513" "length octs = k + 17" "k \<le> 7"
    using assms(2,3) by (simp_all add: preambled_def)
  have oct: "f_data ?fr ! (256 + i) = octs ! i" if "i < j + n" for i
    using that len assms(4) by (simp add: nth_blit)
  have p1: "p_state p1 = p_state p" "rx_frame p1 = Some \<lparr>fqe_id = r, fqe_frame = ?fr\<rparr>" "rx_data p1 = Data (256 + j)"
      "rx_count p1 = j" "tx_frame p1 = Some t" "rx_expected p1 = rx_expected p"
    using assms(1) by (simp_all add: p1_def disc_at_def)
  show ?thesis
  proof (cases "j \<le> k \<and> k < j + n")
    case True
    have "find_preamble_from (f_data ?fr) (256 + j) 0 n = Some (int (0 + (k - j)))"
      using oct [of k] True len assms(3,4)
      by (intro find_preamble_hit) (auto simp: preambled_def nth_blit)
    moreover have "(j + nat (int k - int j) + 16) mod 65536 = k + 16"
    proof -
      have "j + nat (int k - int j) = k" using True by arith
      then show ?thesis using len by simp
    qed
    ultimately have "disc_preamble n p1 =
        Some (next_state PORT_STATE_RDMDISC_RECV_DATA (p1\<lparr>rx_expected := k + 16\<rparr>))"
      using p1 True len by (simp add: disc_preamble_def dmx512rtuart_find_preamble_def)
    then show ?thesis
      using rd p1 assms(1,4,5) True
      by (intro exI [of _ "rx_advance n (next_state PORT_STATE_RDMDISC_RECV_DATA (p1\<lparr>rx_expected := k + 16\<rparr>))"])
         (auto simp: receive_disc_data_def disc_at_def rx_advance_def)
  next
    case False
    show ?thesis
    proof (cases "j \<le> k")
      case True
      have "find_preamble_from (f_data ?fr) (256 + j) 0 n = Some (-1)"
        using oct True False len assms(3,4)
        by (intro find_preamble_none) (auto simp: preambled_def nth_blit)
      then have "disc_preamble n p1 = Some p1"
        using p1 True len by (simp add: disc_preamble_def dmx512rtuart_find_preamble_def)
      then show ?thesis
        using rd p1 assms(1,4,5) True False
        by (intro exI [of _ "rx_advance n p1"])
           (auto simp: receive_disc_data_def disc_at_def rx_advance_def)
    next
      case later: False
      then show ?thesis
        using rd p1 assms(1,4,5)
        by (intro exI [of _ "rx_advance n p1"])
           (auto simp: receive_disc_data_def disc_at_def rx_advance_def)
    qed
  qed
qed


lemma disc_finish:
  assumes "disc_at t r k octs (k + 17) p" and "frame_wf (fqe_frame t)" and "preambled k octs"
    and "octs = drop (7 - k) (discovery_reply_octets uid)" and "length uid = 6"
    and "dmx512frame_is_rdm_discover (f_data (fqe_frame t))"
  shows "\<exists>q fr'. disc_complete p = Some q \<and> p_state q = PORT_STATE_IDLE \<and> tx_frame q = None \<and>
     rx_frame q = None \<and>
     drop (length (p_log q) - 2) (p_log q) = [PutFrame (Some t), ReceivedFrame (Some \<lparr>fqe_id = r, fqe_frame = fr'\<rparr>)] \<and>
     take 6 (drop RDM_POS_SRC_UID (f_data fr')) = uid \<and>
     take 6 (drop RDM_POS_DEST_UID (f_data fr')) = take 6 (drop RDM_POS_SRC_UID (f_data (fqe_frame t))) \<and>
     dmx512frame_is_rdm_discover_reply (f_data fr') \<and> rdm_checksum_ok (f_data fr') 24"
proof -
  let ?fr = "(fqe_frame t)\<lparr>f_data := blit (f_data (fqe_frame t)) 256 octs, f_payload_size := of_nat (k + 16)\<rparr>"
  have len: "length (f_data (fqe_frame t)) = 513" "length octs = k + 17" "k \<le> 7"
    using assms(2,3) by (simp_all add: preambled_def)
  have low: "f_data ?fr ! i = f_data (fqe_frame t) ! i" if "i < 256" for i
    using that len by simp
  have wf: "frame_wf ?fr" using assms(2) len by (simp add: frame_wf_def)
  have rec: "received_response ?fr k uid"
    using len assms(4) take_drop_blit [of 256 octs "f_data (fqe_frame t)"] by (simp add: received_response_def)
  have disc: "dmx512frame_is_rdm_discover (f_data ?fr)"
    using assms(6) low by (simp add: dmx512frame_is_rdm_discover_def)
  obtain fr' where fr': "dmx512rtuart_complete_rdm_discovery_reply ?fr = Some (0, fr')"
      "take 6 (drop RDM_POS_SRC_UID (f_data fr')) = uid"
      "take 6 (drop RDM_POS_DEST_UID (f_data fr')) = take 6 (drop RDM_POS_SRC_UID (f_data ?fr))"
      "dmx512frame_is_rdm_discover_reply (f_data fr')" "rdm_checksum_ok (f_data fr') 24"
    using complete_rdm_discovery_reply_ok [OF wf assms(5) rec disc] by blast
  have src: "take 6 (drop 9 (f_data ?fr)) = take 6 (drop 9 (f_data (fqe_frame t)))"
    using len low by (auto intro!: nth_equalityI)
  have sc: "f_startcode ?fr \<noteq> 0"
    using disc by (simp add: f_startcode_def dmx512frame_is_rdm_discover_def SC_RDM_def)
  define p1 where "p1 = dmx512rtuart_stop_rdm_timer p"
  have co: "dmx512rtuart_checkout_rx_frame p1 = (Some \<lparr>fqe_id = r, fqe_frame = ?fr\<rparr>,
      p1\<lparr>rx_frame := None, rx_data := Null, rx_count := 0\<rparr>)"
    using assms(1) len sc by (simp add: disc_at_def p1_def dmx512rtuart_checkout_rx_frame_def upd_frame_def
        Let_def add.commute)
  have tx: "tx_frame p1 = Some t" using assms(1) by (simp add: disc_at_def p1_def)
  show ?thesis
    using fr' src co tx by (simp add: disc_complete_def p1_def [symmetric] Let_def)
qed

text \<open>The response arrives in chunks of any sizes.\<close>

definition rx_events :: "u8 list list \<Rightarrow> port_event list" where
  "rx_events cs = map (\<lambda>c. EvRxData (int (length c)) c) cs"

lemma disc_deliver:
  assumes "disc_at t r k octs j p" and "bit (p_notify p) 2" and "c \<noteq> []"
  shows "\<exists>q. disc_at t r k octs j q \<and> deliver (EvRxData (int (length c)) c) p = receive_disc_data (int (length c)) c q"
proof -
  define p1 where "p1 = notify_taken UART_NOTIFY_RXAVAILABLE p"
  have p1: "disc_at t r k octs j p1" using assms(1) by (simp add: p1_def)
  have ne: "rx_frame p1 \<noteq> None" using p1 by (simp add: disc_at_def)
  have d: "deliver (EvRxData (int (length c)) c) p =
      dmx512rtuart_receiver_data_available (int (length c)) c p1"
    using assms(2) by (simp add: p1_def notify_on_bits)
  show ?thesis
  proof (cases "j \<le> k")
    case True
    then have "p_state p1 = PORT_STATE_RDMDISC_RECV_PREAMBLE" using p1 by (simp add: disc_at_def)
    then show ?thesis
      unfolding d using p1 ne
      by (intro exI [of _ "dmx512rtuart_start_rdm_timer TIMEOUT_RDMDISCOVERY_LENGTH
            (dmx512rtuart_stop_rdm_timer p1)"])
         (simp add: dmx512rtuart_receiver_data_available_def del: not_None_eq)
  next
    case False
    then have "p_state p1 = PORT_STATE_RDMDISC_RECV_DATA" using p1 by (simp add: disc_at_def)
    then show ?thesis
      unfolding d using p1 ne
      by (intro exI [of _ p1]) (simp add: dmx512rtuart_receiver_data_available_def del: not_None_eq)
  qed
qed

lemma bind_deliver_nil [simp]: "x \<bind> deliver_all [] = x"
  by (cases x) simp_all

lemma disc_chunks:
  assumes "disc_at t r k octs j p" and "bit (p_notify p) 2" and "frame_wf (fqe_frame t)" and "preambled k octs"
    and "concat cs = drop j octs" and "[] \<notin> set cs" and "cs \<noteq> []"
  shows "\<exists>q. disc_at t r k octs (k + 17) q \<and> deliver_all (rx_events cs) p = disc_complete q"
  using assms(1,2,5,6,7)
proof (induction cs arbitrary: j p)
  case (Cons c cs)
  have len: "length octs = k + 17" using assms(4) by (simp add: preambled_def)
  let ?n = "length c"
  have c: "c = take ?n (drop j octs)" "concat cs = drop (j + ?n) octs"
    using Cons.prems(3) by (auto simp: append_eq_conv_conj add.commute)
  have n1: "0 < ?n" using Cons.prems(4) by auto
  have "?n + length (concat cs) = k + 17 - j"
    using arg_cong [OF Cons.prems(3), of length] len by (simp del: length_concat)
  with n1 have n: "0 < ?n" "j + ?n \<le> k + 17" by linarith+
  obtain p0 where p0: "disc_at t r k octs j p0" and
    d: "deliver (EvRxData (int ?n) c) p = receive_disc_data (int ?n) c p0"
    using disc_deliver [OF Cons.prems(1,2)] n(1) by blast
  obtain q where q: "disc_at t r k octs (j + ?n) q" and
    rd: "receive_disc_data (int ?n) c p0 = (if j + ?n = k + 17 then disc_complete q
        else Some (uart_enable_notification UART_NOTIFY_RXAVAILABLE q))"
    using disc_chunk [OF p0 assms(3,4) n(2,1)] c(1) by auto
  show ?case
  proof (cases "j + ?n = k + 17")
    case True
    then have "concat cs = []" using c(2) len by simp
    then have "cs = []" using Cons.prems(4) by (cases cs) auto
    then show ?thesis using q rd d True by (auto simp: rx_events_def)
  next
    case False
    then have ne: "cs \<noteq> []" using c(2) len n(2) by auto
    let ?q = "uart_enable_notification UART_NOTIFY_RXAVAILABLE q"
    have "\<exists>q'. disc_at t r k octs (k + 17) q' \<and> deliver_all (rx_events cs) ?q = disc_complete q'"
      using Cons.prems(4) q ne by (intro Cons.IH [where j = "j + ?n"] c(2)) simp_all
    then show ?thesis using d rd False by (simp add: rx_events_def)
  qed
qed simp

lemma preambled_response:
  assumes "length uid = 6" and "k \<le> 7"
  shows "preambled k (drop (7 - k) (discovery_reply_octets uid))"
proof -
  have *: "drop (7 - k) (discovery_reply_octets uid) =
      replicate k 0xFE @ [0xAA] @ concat (map encode_pair (reply_words uid))"
    using assms(2) by (simp add: discovery_reply_octets_eq)
  have "length (reply_words uid) = 8" using assms(1) by (simp add: reply_words_def Let_def)
  then show ?thesis unfolding preambled_def * using assms(2) by (simp add: nth_append)
qed

text \<open>The request was sent and the port turned around.\<close>

lemma turn_around:
  assumes "p_state p = PORT_STATE_WAIT_FOR_TX_COMPLETE" and "bit (p_notify p) 0" and "tx_frame p = Some t"
    and "has_flag (f_flags (fqe_frame t)) DMX512_FLAG_IS_RDM"
    and "has_flag (f_flags (fqe_frame t)) DMX512_FLAG_IS_RDM_DISC"
  shows "\<exists>q. deliver (EvTxEmpty (Some g)) p = Some q \<and> disc_at t (fqe_id g) k octs 0 q \<and> bit (p_notify q) 2"
  using assms
  by (simp add: dmx512rtuart_transmitter_empty_def notify_on_bits Let_def disc_at_def blit_def)

section \<open>Properties\<close>

definition demo_port :: port where
  "demo_port = dmx512_rtuart_client_create True 0"

definition demo_dmx :: dmx512_framequeue_entry where
  "demo_dmx = demo_entry 7 24"

lemma demo_port_inv: "port_inv demo_port" "tx_frame demo_port = None" "rx_frame demo_port = None"
  unfolding demo_port_def
  by (rule port_inv_create)
     (simp_all add: dmx512_rtuart_client_create_def dmx512_rtuart_start_def zero_port_def Let_def)

text \<open>
  C1. Frames are neither lost nor duplicated: in every state that callbacks, timeouts and
  \<open>send_frame\<close> can lead a port to, the frames it took over (submitted to it or got from the pool) are
  exactly those it gave back or passed up, plus the at most two it still holds.
\<close>

theorem port_frames_conserved:
  assumes "port_reachable p"
  shows "taken p = returned p + held1 (rx_frame p) + held1 (tx_frame p)"
  using port_reachable_inv [OF assms] by (simp add: port_inv_def accounted_def)

theorem port_frames_conserved_witness:
  "let p = dmx512rtuart_line_status_event RTUART_EVENT_BREAK (Some demo_dmx) demo_port in
   taken p = returned p + held1 (rx_frame p) + held1 (tx_frame p)"
  unfolding Let_def demo_port_def
  by (rule port_frames_conserved,
      rule port_reachable.step [OF port_reachable.created, of "EvLine RTUART_EVENT_BREAK (Some demo_dmx)"])
     simp

text \<open>
  C4. The state machine is consistent in every reachable state: while a port transmits it holds the
  frame it sends and receives into none, an idle port receives into none, a discovery response is
  only received while its request is held, the transmitter's notifications are enabled only in the
  states that handle them, and the placeholder values of the enumeration never occur.
\<close>

theorem port_states_consistent:
  assumes "port_reachable p"
  shows "(p_state p \<in> {PORT_STATE_TRANSMIT_BREAK, PORT_STATE_TRANSMIT_DATA, PORT_STATE_WAIT_FOR_TX_COMPLETE}
      \<longrightarrow> dmx512_rtuart_client_is_busy p \<and> rx_frame p = None) \<and>
    (p_state p \<in> {PORT_STATE_IDLE, PORT_STATE_EXPECT_RDM_FRAME} \<longrightarrow> rx_frame p = None) \<and>
    (p_state p \<in> disc_states \<and> rx_frame p \<noteq> None \<longrightarrow> dmx512_rtuart_client_is_busy p) \<and>
    (notify_on (p_notify p) UART_NOTIFY_TXREADY \<longrightarrow> p_state p = PORT_STATE_TRANSMIT_DATA) \<and>
    (notify_on (p_notify p) UART_NOTIFY_TXEMPTY \<longrightarrow>
      p_state p \<in> {PORT_STATE_TRANSMIT_BREAK, PORT_STATE_WAIT_FOR_TX_COMPLETE}) \<and>
    p_state p \<notin> {PORT_STATE_DOWN, PORT_STATE_LAST_RXSTATE, PORT_STATE_LAST_TXSTATE}"
proof -
  note inv = port_reachable_inv [OF assms, unfolded port_inv_def]
  show ?thesis
    using inv unfolding dmx512_rtuart_client_is_busy_def notify_on_bits is_txstate_simps by blast
qed

theorem port_states_consistent_witness:
  "let p = dmx512rtuart_line_status_event RTUART_EVENT_BREAK None demo_port in
   p_state p = PORT_STATE_IDLE \<longrightarrow> rx_frame p = None"
proof -
  have "port_reachable (dmx512rtuart_line_status_event RTUART_EVENT_BREAK None demo_port)"
    unfolding demo_port_def
    by (rule port_reachable.step [OF port_reachable.created, of "EvLine RTUART_EVENT_BREAK None"]) simp
  then show ?thesis using port_states_consistent by (simp add: Let_def)
qed

text \<open>
  C3. A frame that is submitted to an idle port, with no frame in transmission and none being
  received, is sent completely, provided it is not an RDM frame, carries no flags, has at most 512
  slots and every transmitter interrupt finds room for twelve octets or more: after the break,
  written as one zero octet at a third of the baud rate, at most 43 such interrupts write the start
  code and all slots in order, each once, and the frame then goes back to its owner with the port
  idle again. A frame that is submitted while another one is transmitted is given back at once
  without an octet of it being written, and the other transmission goes on.
\<close>

theorem send_frame_transmits_all:
  assumes "port_inv p" and "frame_wf (fqe_frame e)"
    and "unat (f_payload_size (fqe_frame e)) \<le> 512"
    and "\<not> dmx512frame_is_rdm (f_data (fqe_frame e))"
    and "f_flags (fqe_frame e) = 0" and "s < 0 \<or> 12 \<le> s"
  shows "(tx_frame p = None \<and> rx_frame p = None \<longrightarrow>
     (\<exists>m \<le> 43. \<exists>q. deliver_all ([EvSend e, EvTxEmpty None] @ replicate m (EvTxSpace s) @
       [EvTxSpace s, EvTxEmpty None]) p = Some q \<and> p_state q = PORT_STATE_IDLE \<and> tx_frame q = None \<and>
     written q = written p @ [0] @ take (1 + unat (f_payload_size (fqe_frame e))) (f_data (fqe_frame e)) \<and>
     last (p_log q) = PutFrame (Some e))) \<and>
    (tx_frame p \<noteq> None \<longrightarrow> (\<exists>q. deliver (EvSend e) p = Some q \<and> tx_frame q = tx_frame p \<and>
     tx_ptr q = tx_ptr p \<and> tx_remain q = tx_remain p \<and> written q = written p \<and>
     last (p_log q) = PutFrame (Some e)))"
  using send_frame_complete [OF assms(1) _ _ assms(2-6)] send_frame_busy by blast

theorem send_frame_transmits_all_witness:
  "\<exists>m \<le> 43. \<exists>q. deliver_all ([EvSend demo_dmx, EvTxEmpty None] @ replicate m (EvTxSpace 16) @
       [EvTxSpace 16, EvTxEmpty None]) demo_port = Some q \<and> last (p_log q) = PutFrame (Some demo_dmx)"
proof -
  have *: "frame_wf (fqe_frame demo_dmx)" "unat (f_payload_size (fqe_frame demo_dmx)) \<le> 512"
      "\<not> dmx512frame_is_rdm (f_data (fqe_frame demo_dmx))" "f_flags (fqe_frame demo_dmx) = 0"
      "(16 :: int) < 0 \<or> 12 \<le> (16 :: int)"
    by (simp_all add: demo_dmx_def demo_entry_def zero_frame_def frame_wf_def dmx512frame_is_rdm_def
        SC_RDM_def)
  show ?thesis using send_frame_transmits_all [OF demo_port_inv(1) *] demo_port_inv(2,3) by blast
qed

text \<open>
  The slot count lock snaps in exactly when, after a first frame of \<open>n\<close> slots with start code
  zero, ten further frames of the same size have come, stays as long as the size stays, and is lost
  with the first frame of another size, which starts the count afresh.
\<close>

theorem slot_count_lock_snaps_in:
  assumes "n \<noteq> 0" and "unat n < 1024"
  shows "(lk_locked ((update_lock n ^^ k) initial_lock) \<longleftrightarrow> k \<ge> 11) \<and>
     (m \<noteq> n \<and> k \<ge> 11 \<longrightarrow> \<not> lk_locked (update_lock m ((update_lock n ^^ k) initial_lock)) \<and>
       lk_matching_frame_count (update_lock m ((update_lock n ^^ k) initial_lock)) = 0)"
proof (cases "k \<ge> 11")
  case True
  then show ?thesis using lock_late [OF assms] lock_lost [of "(update_lock n ^^ k) initial_lock" m] by simp
next
  case False
  then show ?thesis using lock_early [OF assms] by simp
qed

theorem slot_count_lock_snaps_in_witness:
  "\<not> lk_locked ((update_lock 24 ^^ 10) initial_lock) \<and> lk_locked ((update_lock 24 ^^ 11) initial_lock)"
  using slot_count_lock_snaps_in [of 24 10 0] slot_count_lock_snaps_in [of 24 11 0] by simp

text \<open>
  C2. A discovery exchange works end to end: once the discovery request \<open>t\<close> has left the
  transmitter and a frame \<open>g\<close> from the pool is there to receive into, the response of a device with
  UID \<open>uid\<close>, of which any \<open>k\<close> preamble octets arrive and which the UART delivers in chunks of any
  sizes, returns the request to its owner and passes up, in the frame \<open>g\<close>, a discovery reply from
  that UID to the requester with a valid checksum; the port is idle again.
\<close>

theorem discovery_response_delivered:
  assumes "p_state p = PORT_STATE_WAIT_FOR_TX_COMPLETE" and "notify_on (p_notify p) UART_NOTIFY_TXEMPTY"
    and "tx_frame p = Some t" and "has_flag (f_flags (fqe_frame t)) DMX512_FLAG_IS_RDM"
    and "has_flag (f_flags (fqe_frame t)) DMX512_FLAG_IS_RDM_DISC" and "frame_wf (fqe_frame t)"
    and "dmx512frame_is_rdm_discover (f_data (fqe_frame t))" and "length uid = 6" and "k \<le> 7"
    and "concat cs = drop (7 - k) (discovery_reply_octets uid)" and "[] \<notin> set cs"
  shows "\<exists>q fr'. deliver_all (EvTxEmpty (Some g) # rx_events cs) p = Some q \<and>
     p_state q = PORT_STATE_IDLE \<and> tx_frame q = None \<and> rx_frame q = None \<and>
     drop (length (p_log q) - 2) (p_log q) =
       [PutFrame (Some t), ReceivedFrame (Some \<lparr>fqe_id = fqe_id g, fqe_frame = fr'\<rparr>)] \<and>
     take 6 (drop RDM_POS_SRC_UID (f_data fr')) = uid \<and>
     take 6 (drop RDM_POS_DEST_UID (f_data fr')) = take 6 (drop RDM_POS_SRC_UID (f_data (fqe_frame t))) \<and>
     dmx512frame_is_rdm_discover_reply (f_data fr') \<and> rdm_checksum_ok (f_data fr') 24"
proof -
  let ?octs = "drop (7 - k) (discovery_reply_octets uid)"
  have pre: "preambled k ?octs" using assms(8,9) by (rule preambled_response)
  obtain p1 where p1: "deliver (EvTxEmpty (Some g)) p = Some p1" "disc_at t (fqe_id g) k ?octs 0 p1"
      "bit (p_notify p1) 2"
    using turn_around [OF assms(1) _ assms(3-5)] assms(2) unfolding notify_on_bits by blast
  have "cs \<noteq> []" using assms(10) pre by (auto simp: preambled_def)
  then obtain p2 where p2: "disc_at t (fqe_id g) k ?octs (k + 17) p2"
      "deliver_all (rx_events cs) p1 = disc_complete p2"
    using disc_chunks [OF p1(2,3) assms(6) pre] assms(10,11) by auto
  have "deliver_all (EvTxEmpty (Some g) # rx_events cs) p = disc_complete p2"
    unfolding deliver_all.simps(2) p1(1) bind.bind_lunit by (rule p2(2))
  then show ?thesis using disc_finish [OF p2(1) assms(6) pre refl assms(8,7)] by simp
qed

definition demo_request_entry :: dmx512_framequeue_entry where
  "demo_request_entry = \<lparr>fqe_id = 3, fqe_frame = demo_request\<lparr>f_flags := 0xC0\<rparr>\<rparr>"

theorem discovery_response_delivered_witness:
  "\<exists>q. deliver_all (EvTxEmpty (Some demo_dmx) # rx_events [discovery_reply_octets demo_uid])
     (demo_port\<lparr>p_state := PORT_STATE_WAIT_FOR_TX_COMPLETE, p_notify := 1,
        tx_frame := Some demo_request_entry\<rparr>) = Some q \<and> p_state q = PORT_STATE_IDLE"
proof -
  let ?p = "demo_port\<lparr>p_state := PORT_STATE_WAIT_FOR_TX_COMPLETE, p_notify := 1,
        tx_frame := Some demo_request_entry\<rparr>"
  have a: "p_state ?p = PORT_STATE_WAIT_FOR_TX_COMPLETE" "notify_on (p_notify ?p) UART_NOTIFY_TXEMPTY"
      "tx_frame ?p = Some demo_request_entry"
    by (simp_all add: notify_on_bits)
  have b: "has_flag (f_flags (fqe_frame demo_request_entry)) DMX512_FLAG_IS_RDM"
      "has_flag (f_flags (fqe_frame demo_request_entry)) DMX512_FLAG_IS_RDM_DISC"
      "frame_wf (fqe_frame demo_request_entry)"
      "dmx512frame_is_rdm_discover (f_data (fqe_frame demo_request_entry))"
    using demo_rdm_facts by (simp_all add: demo_request_entry_def has_flag_def dmx512_flag_defs)
  have c: "length demo_uid = 6" "7 \<le> (7 :: nat)"
      "concat [discovery_reply_octets demo_uid] = drop (7 - 7) (discovery_reply_octets demo_uid)"
      "[] \<notin> set [discovery_reply_octets demo_uid]"
    using demo_rdm_facts length_discovery_reply_octets [of demo_uid] by auto
  show ?thesis using discovery_response_delivered [OF a b c] by blast
qed

section \<open>A length octet that is too small\<close>

text \<open>The state after a break and a first chunk of eight octets that announces an RDM frame of
  \<open>len + 2\<close> octets.\<close>

definition short_rdm_chunk :: "u8 \<Rightarrow> u8 list" where
  "short_rdm_chunk len = [SC_RDM, SC_SUB_MESSAGE, len, 0, 0, 0, 0, 0]"

lemma short_rdm_first_chunk:
  "\<exists>q. deliver_all [EvLine RTUART_EVENT_BREAK (Some demo_dmx), EvRxData 8 (short_rdm_chunk len)] demo_port = Some q \<and>
     p_state q = PORT_STATE_RECEIVE_DMXDATA \<and> rx_frame q \<noteq> None \<and> rx_data q = Data 8 \<and>
     rx_count q = 8 \<and> rx_expected q = unat len + 1 \<and> bit (p_notify q) 2"
proof -
  define d where "d = blit (replicate 513 0xCE) 0 (short_rdm_chunk len)"
  have d: "d ! 0 = SC_RDM" "d ! 1 = SC_SUB_MESSAGE" "d ! 2 = len" "length d = 513"
    by (simp_all add: d_def short_rdm_chunk_def nth_blit)
  define q where "q = dmx512rtuart_line_status_event RTUART_EVENT_BREAK (Some demo_dmx) demo_port"
  have q: "p_state q = PORT_STATE_EXPECT_STARTCODE" "rx_data q = Data 0" "rx_count q = 0" "rx_expected q = 512"
      "rx_frame q = Some (upd_frame (\<lambda>fr. fr\<lparr>f_data := replicate 513 0xCE\<rparr>) demo_dmx)" "bit (p_notify q) 2"
      "tx_frame q = None"
    by (simp_all add: q_def dmx512rtuart_line_status_event_def handle_break_def flush_on_break_def
        start_reception_def demo_port_def dmx512_rtuart_client_create_def dmx512_rtuart_start_def zero_port_def
        Let_def rtuart_const_defs)
  have bl: "arr_blit (replicate 513 0xCE) 0 (short_rdm_chunk len) = Some d"
    by (simp add: arr_blit_def d_def short_rdm_chunk_def)
  have lc: "length (short_rdm_chunk len) = 8" by (simp add: short_rdm_chunk_def)
  have fl: "f_flags (fqe_frame demo_dmx) = 0" by (simp add: demo_dmx_def demo_entry_def zero_frame_def)
  show ?thesis
    using q d
    by (simp add: q_def [symmetric] notify_on_bits dmx512rtuart_receiver_data_available_def receive_frame_data_def
        rtuart_read_chars_def bl lc upd_frame_def
        dmx512_check_received_data_def check_startcode_def check_substartcode_def check_length_def check_discover_def
        rx_flags_def set_rx_flags_def rx_octet_def arr_get_def has_flag_def dmx512_flag_defs fl is_between_def
        rx_advance_def Let_def)
qed

text \<open>
  The receiver trusts the length octet of an RDM frame: when a break is followed by a chunk of
  eight octets that starts an RDM frame with a length octet below 6, the size the port then expects
  is smaller than what it already holds, the number of octets to read becomes negative, and the next
  data interrupt asks the UART for that many as an unsigned size, which is outside the frame
  whatever arrives.
\<close>

theorem short_rdm_length_overruns:
  assumes "unat len < 6"
  shows "deliver_all [EvLine RTUART_EVENT_BREAK (Some demo_dmx), EvRxData 8 (short_rdm_chunk len),
     EvRxData 8 fifo] demo_port = None"
proof -
  obtain q where q: "deliver_all [EvLine RTUART_EVENT_BREAK (Some demo_dmx),
       EvRxData 8 (short_rdm_chunk len)] demo_port = Some q"
      "p_state q = PORT_STATE_RECEIVE_DMXDATA" "rx_frame q \<noteq> None" "rx_data q = Data 8"
      "rx_count q = 8" "rx_expected q = unat len + 1" "bit (p_notify q) 2"
    using short_rdm_first_chunk by blast
  have "int (unat len) < 6" using assms by linarith
  then have "deliver (EvRxData 8 fifo) q = None"
    using q(2-7)
    by (auto simp: notify_on_bits dmx512rtuart_receiver_data_available_def receive_frame_data_def
        rtuart_read_chars_def Let_def)
  moreover have "deliver_all ([EvLine RTUART_EVENT_BREAK (Some demo_dmx),
      EvRxData 8 (short_rdm_chunk len)] @ [EvRxData 8 fifo]) demo_port = deliver_all [EvRxData 8 fifo] q"
    unfolding deliver_all_append q(1) by (rule bind.bind_lunit)
  ultimately show ?thesis by (simp only: append.simps deliver_all.simps(2) bind.bind_lzero)
qed

theorem short_rdm_length_overruns_witness:
  "deliver_all [EvLine RTUART_EVENT_BREAK (Some demo_dmx), EvRxData 8 (short_rdm_chunk 0),
     EvRxData 8 [1, 2, 3, 4, 5, 6, 7, 8]] demo_port = None"
  using short_rdm_length_overruns [of 0] by simp

end
