(* ===== verification/Uart_Port_Irq.thy ===== *)
theory Uart_Port_Irq
  imports Pc16c550 Dmx_Uart_Transfer
begin

text \<open>
  The 16550 driver with a DMX512 port as its client: the port's callbacks
  (\<^verbatim>\<open>rtuart_dmx512_client.c\<close>) behind the interrupt handler (\<^verbatim>\<open>pc16c550.c\<close>).

  The port's model keeps the notification mask itself and logs what it writes to the UART; the
  driver's model has the mask in the UART. \<open>with_mask\<close> lets a callback work on the one mask. What the
  receive FIFO holds and which frame the pool gives are functions of the state of the bus.
\<close>

definition with_mask :: "(port \<Rightarrow> port option) \<Rightarrow> ('b, port) ust \<Rightarrow> ('b, port) ust option" where
  "with_mask f = (\<lambda>(u, p). do {
     p' \<leftarrow> f (p\<lparr>p_notify := u_notify_mask u\<rparr>);
     Some (u\<lparr>u_notify_mask := p_notify p'\<rparr>, p') })"

definition dmx512rtuart_callbacks ::
  "('b \<Rightarrow> dmx512_framequeue_entry option) \<Rightarrow> ('b \<Rightarrow> u8 list) \<Rightarrow> ('b, port) ust rtuart_client_callbacks" where
  "dmx512rtuart_callbacks got fifo =
    \<lparr>cb_transmitter_has_space = Some (\<lambda>space. with_mask (dmx512rtuart_transmitter_has_space space)),
     cb_transmitter_empty = Some (\<lambda>s. with_mask (\<lambda>p. Some (dmx512rtuart_transmitter_empty (got (u_bus (fst s))) p)) s),
     cb_receiver_data_available =
       Some (\<lambda>cnt s. with_mask (dmx512rtuart_receiver_data_available cnt (fifo (u_bus (fst s)))) s),
     cb_modem_input_changed = Some (\<lambda>values change s. Some s),
     cb_line_status_event =
       Some (\<lambda>ev s. with_mask (\<lambda>p. Some (dmx512rtuart_line_status_event ev (got (u_bus (fst s))) p)) s)\<rparr>"

text \<open>The mask of the port is the one of the UART.\<close>

definition in_sync :: "('b, port) ust \<Rightarrow> bool" where
  "in_sync s \<longleftrightarrow> p_notify (snd s) = u_notify_mask (fst s)"

definition after_event :: "'b rtuart_pc16c550 \<Rightarrow> port option \<Rightarrow> ('b, port) ust option" where
  "after_event u m = do { p' \<leftarrow> m; Some (u\<lparr>u_notify_mask := p_notify p'\<rparr>, p') }"

lemma with_mask_taken:
  assumes "in_sync (u, p)"
  shows "with_mask f (u\<lparr>u_notify_mask := u_notify_mask u AND NOT n\<rparr>, p) = after_event u (f (notify_taken n p))"
proof -
  have "p\<lparr>p_notify := u_notify_mask u AND NOT n\<rparr> = notify_taken n p"
    using assms by (simp add: in_sync_def notify_taken_def notify_clear_def)
  then show ?thesis by (simp add: with_mask_def after_event_def)
qed

lemma with_mask_sync:
  assumes "in_sync (u, p)"
  shows "with_mask f (u, p) = after_event u (f p)"
proof -
  have "p\<lparr>p_notify := u_notify_mask u\<rparr> = p" using assms by (simp add: in_sync_def)
  then show ?thesis by (simp add: with_mask_def after_event_def)
qed

lemma after_event_same: "in_sync (u, p) \<Longrightarrow> after_event u (Some p) = Some (u, p)"
  by (simp add: in_sync_def after_event_def)

lemma sync_on: "in_sync (u, p) \<Longrightarrow> u_notify_mask u AND n \<noteq> 0 \<longleftrightarrow> notify_on (p_notify p) n"
  by (simp add: in_sync_def notify_on_def)

section \<open>Each branch of the handler is an event of the port\<close>

lemma fifo_size_mask: "pc16c550_get_tx_fifo_size (u\<lparr>u_notify_mask := m\<rparr>) = pc16c550_get_tx_fifo_size u"
  by (simp add: pc16c550_get_tx_fifo_size_def pc16c550_get_fifo_enable_def)

lemma thr_empty_event:
  assumes "in_sync (u, p)"
  shows "irq_thr_empty (dmx512rtuart_callbacks got fifo) (u, p) =
     after_event u (deliver (EvTxSpace (pc16c550_get_tx_fifo_size u)) p)"
  using assms
  by (simp add: irq_thr_empty_def dmx512rtuart_callbacks_def sync_on with_mask_taken after_event_same fifo_size_mask Let_def)

lemma rx_data_event:
  assumes "in_sync (u, p)" and "notify_on (p_notify p) UART_NOTIFY_RXAVAILABLE"
  shows "irq_rx_data wr (dmx512rtuart_callbacks got fifo) level (u, p) =
     after_event u (deliver (EvRxData level (fifo (u_bus u))) p)"
  using assms
  by (simp add: irq_rx_data_def dmx512rtuart_callbacks_def sync_on with_mask_taken Let_def)

lemma line_event:
  assumes "in_sync (u, p)" and "uart16550_lsr_to_event lsr \<noteq> 0"
  shows "lsr_line_event (dmx512rtuart_callbacks got fifo) lsr (u, p) =
     after_event u (deliver (EvLine (uart16550_lsr_to_event lsr) (got (u_bus u))) p)"
  using assms
  by (simp add: lsr_line_event_def dmx512rtuart_callbacks_def with_mask_sync Let_def)

lemma tx_empty_event:
  assumes "in_sync (u, p)" and "lsr AND PC16550_LSR_THRE \<noteq> 0" and "lsr AND PC16550_LSR_TRANSMITTER_EMPTY \<noteq> 0"
  shows "lsr_transmitter rd (dmx512rtuart_callbacks got fifo) lsr (u, p) =
     after_event u (deliver (EvTxEmpty (got (u_bus u))) p)"
  using assms
  by (simp add: lsr_transmitter_def dmx512rtuart_callbacks_def sync_on with_mask_taken after_event_same Let_def)

section \<open>The handler keeps the port reachable\<close>

definition sync_reach :: "('b, port) ust \<Rightarrow> bool" where
  "sync_reach s \<longleftrightarrow> in_sync s \<and> port_reachable (snd s)"

lemma after_event_reach:
  assumes "after_event u (deliver ev p) = Some s'" and "port_reachable p"
  shows "sync_reach s'"
  using assms by (auto simp: after_event_def bind_eq_Some sync_reach_def in_sync_def intro: port_reachable.step)

lemma event_reach:
  assumes "sync_reach s" and "in_sync (fst s, snd s) \<Longrightarrow> m = after_event (fst s) (deliver ev (snd s))" and "m = Some s'"
  shows "sync_reach s'"
  using assms after_event_reach [of "fst s" ev "snd s" s'] by (simp add: sync_reach_def del: deliver.simps)

lemma sync_reach_bus:
  "sync_reach (u, p) \<Longrightarrow> u_notify_mask u' = u_notify_mask u \<Longrightarrow> sync_reach (u', p)"
  by (simp add: sync_reach_def in_sync_def)

lemma read_mask: "rtuart_read_u8 rd reg u = Some (v, u') \<Longrightarrow> u_notify_mask u' = u_notify_mask u"
  by (auto simp: rtuart_read_u8_def bind_eq_Some)

lemma flush_mask: "flush_rx wr (u, p) = Some (u', p') \<Longrightarrow> u_notify_mask u' = u_notify_mask u \<and> p' = p"
  by (auto simp: flush_rx_def pc16c550_flush_fifo_def pc16c550_rmw_fcr_def rtuart_write_u8_def Let_def bind_eq_Some)

lemma wait_mask:
  assumes "wait_transmitter_empty rd u = Some u'"
  shows "u_notify_mask u' = u_notify_mask u"
  using assms
proof (rule wait_transmitter_empty.raw_induct [of "\<lambda>rd u u'. u_notify_mask u' = u_notify_mask u", rotated])
  fix f rd u u'
  assume IH: "\<And>rd u u'. f rd u = Some u' \<Longrightarrow> u_notify_mask u' = u_notify_mask u"
    and st: "do { (lsr, u) \<leftarrow> pc16c550_get_lsr rd u;
       if lsr AND PC16550_LSR_TRANSMITTER_EMPTY = 0 then f rd u else Some u } = Some u'"
  obtain lsr u1 where *: "pc16c550_get_lsr rd u = Some (lsr, u1)"
      "(if lsr AND PC16550_LSR_TRANSMITTER_EMPTY = 0 then f rd u1 else Some u1) = Some u'"
    using st by (auto simp: bind_eq_Some)
  show "u_notify_mask u' = u_notify_mask u"
    using *(2) IH [of rd u1 u'] read_mask [OF *(1)] by (auto split: if_splits)
qed

lemma thr_empty_reach:
  assumes "sync_reach s" and "irq_thr_empty (dmx512rtuart_callbacks got fifo) s = Some s'"
  shows "sync_reach s'"
  using event_reach [OF assms(1) thr_empty_event] assms(2) by simp

lemma rx_data_reach:
  assumes "sync_reach s" and "irq_rx_data wr (dmx512rtuart_callbacks got fifo) level s = Some s'"
  shows "sync_reach s'"
proof (cases "notify_on (p_notify (snd s)) UART_NOTIFY_RXAVAILABLE")
  case True
  then show ?thesis
    using event_reach [OF assms(1) rx_data_event] assms(2) by simp
next
  case False
  then have "flush_rx wr s = Some s'"
    using assms sync_on [of "fst s" "snd s"] by (cases s) (simp add: irq_rx_data_def sync_reach_def)
  then show ?thesis
    using assms(1) flush_mask [of wr "fst s" "snd s" "fst s'" "snd s'"] by (simp add: sync_reach_def in_sync_def)
qed

lemma line_event_reach:
  assumes "sync_reach s" and "lsr_line_event (dmx512rtuart_callbacks got fifo) lsr s = Some s'"
  shows "sync_reach s'"
proof (cases "uart16550_lsr_to_event lsr = 0")
  case True
  then show ?thesis using assms by (simp add: lsr_line_event_def)
next
  case False
  then show ?thesis
    using event_reach [OF assms(1) line_event] assms(2) by simp
qed

lemma transmitter_reach:
  assumes "sync_reach s" and "lsr_transmitter rd (dmx512rtuart_callbacks got fifo) lsr s = Some s'"
  shows "sync_reach s'"
proof -
  obtain u p where s: "s = (u, p)" by fastforce
  have sy: "in_sync (u, p)" "port_reachable p" using assms(1) by (simp_all add: s sync_reach_def)
  let ?u = "u\<lparr>u_notify_mask := u_notify_mask u AND NOT UART_NOTIFY_TXEMPTY\<rparr>"
  let ?f = "\<lambda>u. with_mask (\<lambda>p. Some (dmx512rtuart_transmitter_empty (got (u_bus u)) p)) (u, p)"
  have "s' = s \<or> notify_on (p_notify p) UART_NOTIFY_TXEMPTY \<and>
      (?f ?u = Some s' \<or> (\<exists>u1. wait_transmitter_empty rd ?u = Some u1 \<and> ?f u1 = Some s'))"
    using assms(2) sync_on [OF sy(1)]
    by (auto simp: s lsr_transmitter_def dmx512rtuart_callbacks_def bind_eq_Some Let_def split: if_splits)
  then consider "s' = s" | u1 where "notify_on (p_notify p) UART_NOTIFY_TXEMPTY"
      "u_notify_mask u1 = u_notify_mask ?u" "?f u1 = Some s'"
    using wait_mask [of rd ?u] by blast
  then show ?thesis
  proof cases
    case 1
    then show ?thesis using assms(1) by simp
  next
    case (2 u1)
    have "u1 = (u1\<lparr>u_notify_mask := u_notify_mask u\<rparr>)\<lparr>u_notify_mask := u_notify_mask u AND NOT UART_NOTIFY_TXEMPTY\<rparr>"
      using 2(2) by simp
    then have "?f u1 = after_event (u1\<lparr>u_notify_mask := u_notify_mask u\<rparr>) (deliver (EvTxEmpty (got (u_bus u1))) p)"
      using with_mask_taken [of "u1\<lparr>u_notify_mask := u_notify_mask u\<rparr>" p _ UART_NOTIFY_TXEMPTY] sy(1) 2(1)
      by (simp add: in_sync_def)
    then show ?thesis using 2(3) after_event_reach [OF _ sy(2)] by metis
  qed
qed

lemma handle_lsr_reach:
  assumes "sync_reach s" and "uart16550_handle_lsr rd (dmx512rtuart_callbacks got fifo) s = Some s'"
  shows "sync_reach s'"
proof -
  obtain lsr u1 u2 s2 where *: "pc16c550_get_lsr rd (fst s) = Some (lsr, u1)" "u_notify_mask u2 = u_notify_mask u1"
      "lsr_line_event (dmx512rtuart_callbacks got fifo) lsr (u2, snd s) = Some s2"
      "lsr_transmitter rd (dmx512rtuart_callbacks got fifo) lsr s2 = Some s'"
    using assms(2) by (cases s) (auto simp: uart16550_handle_lsr_def bind_eq_Some split: if_splits dest: read_mask)
  have "sync_reach (u2, snd s)"
    using sync_reach_bus [of "fst s" "snd s" u2] assms(1) read_mask [OF *(1)] *(2) by simp
  then show ?thesis using line_event_reach *(3) transmitter_reach *(4) by blast
qed

lemma modem_reach:
  assumes "sync_reach s" and "irq_modem_status rd (dmx512rtuart_callbacks got fifo) s = Some s'"
  shows "sync_reach s'"
  using assms by (cases s) (auto simp: irq_modem_status_def dmx512rtuart_callbacks_def bind_eq_Some
      dest: read_mask intro: sync_reach_bus)

lemma leave_reach:
  assumes "sync_reach s" and "irq_leave wr c s = Some (r, s')"
  shows "sync_reach s'"
  using assms by (cases s) (auto simp: irq_leave_def bind_eq_Some dest!: update_notification_mask intro: sync_reach_bus)

lemma irq_case_reach:
  assumes "sync_reach s" and "irq_case rd wr (dmx512rtuart_callbacks got fifo) iir s = Some (r, s')"
  shows "sync_reach s'"
  using assms(2) unfolding irq_case_def Let_def irq_again_def
  by (auto simp: bind_eq_Some split: if_splits
      intro: leave_reach [rotated] handle_lsr_reach [OF assms(1)] modem_reach [OF assms(1)] thr_empty_reach [OF assms(1)]
        rx_data_reach [OF assms(1)] assms(1) dest: handle_lsr_reach [OF assms(1)])

lemma handle_irq_reach:
  fixes s :: "('b, port) ust"
  assumes "pc16c550_handle_irq rd wr (dmx512rtuart_callbacks got fifo) s = Some (r, s')" and "sync_reach s"
  shows "sync_reach s'"
proof -
  define P where "P cb (s :: ('b, port) ust) x \<longleftrightarrow> (cb = dmx512rtuart_callbacks got fifo \<longrightarrow> sync_reach s \<longrightarrow>
     sync_reach (snd x :: ('b, port) ust))" for cb s and x :: "int \<times> ('b, port) ust"
  have "P (dmx512rtuart_callbacks got fifo) s (r, s')"
    using assms(1)
  proof (rule pc16c550_handle_irq.raw_induct [of "\<lambda>rd wr cb s x. P cb s x", rotated])
    fix f :: "'b reg_read \<Rightarrow> 'b reg_write \<Rightarrow> ('b, port) ust rtuart_client_callbacks \<Rightarrow> ('b, port) ust \<Rightarrow> (int \<times> ('b, port) ust) option"
      and rd wr cb s and x :: "int \<times> ('b, port) ust"
    assume IH: "\<And>rd wr cb s x. f rd wr cb s = Some x \<Longrightarrow> P cb s x"
      and st: "do { (iir, u) \<leftarrow> pc16c550_get_iir rd (fst s); (r, s) \<leftarrow> irq_case rd wr cb iir (u, snd s);
         (case r of None \<Rightarrow> f rd wr cb s | Some r \<Rightarrow> Some (r, s)) } = Some x"
    obtain iir u r s1 where *: "pc16c550_get_iir rd (fst s) = Some (iir, u)"
        "irq_case rd wr cb iir (u, snd s) = Some (r, s1)"
        "(case r of None \<Rightarrow> f rd wr cb s1 | Some r \<Rightarrow> Some (r, s1)) = Some x"
      using st by (auto simp: bind_eq_Some)
    show "P cb s x"
      unfolding P_def
    proof (intro impI)
      assume cb: "cb = dmx512rtuart_callbacks got fifo" and s: "sync_reach s"
      have "sync_reach (u, snd s)" using sync_reach_bus [of "fst s" "snd s" u] s read_mask [OF *(1)] by simp
      then have "sync_reach s1" using irq_case_reach *(2) cb by blast
      then show "sync_reach (snd x)" using *(3) IH [of rd wr cb s1 x] cb by (auto simp: P_def split: option.splits)
    qed
  qed
  then show ?thesis using assms(2) by (simp add: P_def)
qed

section \<open>Properties\<close>

text \<open>
  Four branches of the driver's interrupt handler are events of the port model: with the port as
  the client and one notification mask, a transmit interrupt delivers the event "space in the FIFO",
  a receive interrupt with the notification enabled the event "data", a line status with an error
  the event "line", and an empty transmitter the event "transmitter empty". A receive interrupt with the
  notification off empties the FIFO on the bus, which the port model only logs, and the modem status
  and the interrupt without a cause do not reach the port.
\<close>

theorem interrupt_delivers_events:
  assumes "p_notify p = u_notify_mask u"
  shows "irq_thr_empty (dmx512rtuart_callbacks got fifo) (u, p) =
       after_event u (deliver (EvTxSpace (pc16c550_get_tx_fifo_size u)) p) \<and>
     (notify_on (p_notify p) UART_NOTIFY_RXAVAILABLE \<longrightarrow>
       irq_rx_data wr (dmx512rtuart_callbacks got fifo) level (u, p) =
         after_event u (deliver (EvRxData level (fifo (u_bus u))) p)) \<and>
     (uart16550_lsr_to_event lsr \<noteq> 0 \<longrightarrow>
       lsr_line_event (dmx512rtuart_callbacks got fifo) lsr (u, p) =
         after_event u (deliver (EvLine (uart16550_lsr_to_event lsr) (got (u_bus u))) p)) \<and>
     (lsr AND PC16550_LSR_THRE \<noteq> 0 \<and> lsr AND PC16550_LSR_TRANSMITTER_EMPTY \<noteq> 0 \<longrightarrow>
       lsr_transmitter rd (dmx512rtuart_callbacks got fifo) lsr (u, p) =
         after_event u (deliver (EvTxEmpty (got (u_bus u))) p))"
proof -
  have sy: "in_sync (u, p)" using assms by (simp add: in_sync_def)
  show ?thesis
    by (intro conjI impI thr_empty_event [OF sy] rx_data_event [OF sy] line_event [OF sy] tx_empty_event [OF sy]) auto
qed

theorem interrupt_delivers_events_witness:
  "irq_thr_empty (dmx512rtuart_callbacks (\<lambda>_. None) (\<lambda>_. [])) (demo_uart\<lparr>u_notify_mask := p_notify demo_port\<rparr>, demo_port) =
     after_event (demo_uart\<lparr>u_notify_mask := p_notify demo_port\<rparr>) (deliver (EvTxSpace 1) demo_port)"
proof -
  have z: "pc16c550_get_tx_fifo_size (demo_uart\<lparr>u_notify_mask := p_notify demo_port\<rparr>) = 1"
    by (simp add: pc16c550_get_tx_fifo_size_def pc16c550_get_fifo_enable_def demo_uart_facts)
  have s: "p_notify demo_port = u_notify_mask (demo_uart\<lparr>u_notify_mask := p_notify demo_port\<rparr>)" by simp
  show ?thesis
    using interrupt_delivers_events [OF s, of "\<lambda>_. None" "\<lambda>_. []" dummy_write_u8 0 0 dummy_read_u8] unfolding z by blast
qed

text \<open>
  C13. Interrupts keep the promises of the port: when the interrupt handler returns, whatever the chip
  signalled and however often, a port that was in a reachable state is in one again, works on the
  same notification mask as the UART, and all frames it took over are given back or still held.
\<close>

theorem interrupts_keep_port:
  assumes "pc16c550_handle_irq rd wr (dmx512rtuart_callbacks got fifo) (u, p) = Some (r, (u', p'))"
    and "port_reachable p" and "p_notify p = u_notify_mask u"
  shows "port_reachable p' \<and> p_notify p' = u_notify_mask u' \<and>
     taken p' = returned p' + held1 (rx_frame p') + held1 (tx_frame p')"
proof -
  have "sync_reach (u', p')"
    using handle_irq_reach [OF assms(1)] assms(2,3) by (simp add: sync_reach_def in_sync_def)
  then have *: "port_reachable p'" "p_notify p' = u_notify_mask u'" by (simp_all add: sync_reach_def in_sync_def)
  show ?thesis using * port_reachable_inv [OF *(1)] by (simp add: port_inv_def accounted_def)
qed

theorem interrupts_keep_port_witness:
  "\<exists>r u' p'. pc16c550_handle_irq dummy_read_u8 dummy_write_u8 (dmx512rtuart_callbacks (\<lambda>_. None) (\<lambda>_. []))
       (demo_uart\<lparr>u_notify_mask := p_notify demo_port\<rparr>, demo_port) = Some (r, (u', p')) \<and>
     port_reachable p' \<and> p_notify p' = u_notify_mask u'"
proof -
  let ?cb = "dmx512rtuart_callbacks (\<lambda>_. None) (\<lambda>_. []) :: (dummy_bus, port) ust rtuart_client_callbacks"
  let ?u = "demo_uart\<lparr>u_notify_mask := p_notify demo_port\<rparr>"
  have "\<not> notify_on (p_notify demo_port) UART_NOTIFY_TXEMPTY"
    by (simp add: demo_port_def dmx512_rtuart_client_create_def dmx512_rtuart_start_def zero_port_def Let_def
        notify_on_bits bit_or_iff)
  then have n: "p_notify demo_port AND 1 = 0"
    by (simp add: notify_on_def rtuart_const_defs)
  have "\<exists>s'. pc16c550_handle_irq dummy_read_u8 dummy_write_u8 ?cb (?u, demo_port) = Some (0, s')"
    by (subst pc16c550_handle_irq.simps)
       (simp add: demo_uart_def pc16c550_create_def demo_regs_def demo_memory_def dummy_bus_create_def
         dummy_bus_init_internal_registers_def rtuart_read_u8_def rtuart_write_u8_def reg_at_def dummy_bus_defs irq_case_def
         uart16550_handle_lsr_def lsr_line_event_def lsr_transmitter_def uart16550_lsr_to_event_def pc16550_lsr_defs
         rtuart_const_defs irq_leave_def pc16c550_uart_update_notification_def ier_of_def n min_def)
  then obtain u' p' where *: "pc16c550_handle_irq dummy_read_u8 dummy_write_u8 ?cb (?u, demo_port) = Some (0, (u', p'))"
    by auto
  have "port_reachable demo_port" unfolding demo_port_def by (rule port_reachable.created)
  from interrupts_keep_port [OF * this] show ?thesis using * by auto
qed

end
