(* ===== verification/Dmx512_Core.thy ===== *)
theory Dmx512_Core
  imports Framequeue "HOL-Library.Multiset"
begin

text \<open>
  The kernel core of the DMX512 drivers (\<^verbatim>\<open>src/src/drivers/dmx512/core/dmx512.c\<close>): devices with
  their ports and receive queues, the pool of free frames, and the file operations.

  Devices and ports are objects at addresses; 0 is the null pointer, \<^term>\<open>None\<close> the result of an
  access through a pointer to nothing. The kernel's linked lists are lists of addresses and the
  frame queues the abstract queues that \<^verbatim>\<open>Framequeue\<close> shows the linked ones to implement. A driver's
  \<open>send_frame\<close> and \<open>transmitter_has_space\<close> callbacks are numbers that the parameters \<open>call_send\<close>
  and \<open>call_has_space\<close> interpret. What the kernel answers (allocation, \<open>misc_register\<close>, copying from
  and to user space) are arguments. The lock makes each operation one step.
\<close>

section \<open>State\<close>

record dmx512_device =
  dv_name :: string
  dv_data :: addr
  dv_ports :: "addr list"
  dv_rxframequeue :: framequeue

record dmx512_port =
  pt_device :: addr
  pt_name :: string
  pt_capabilities :: u64
  pt_send_frame :: "nat option"
  pt_transmitter_has_space :: "nat option"
  pt_userptr :: addr

record dmx512_core =
  co_devs :: "addr \<rightharpoonup> dmx512_device"
  co_prts :: "addr \<rightharpoonup> dmx512_port"
  dmx512_devices :: "addr list"
  dmx512_ports :: "addr list"
  free_framequeue :: framequeue
  module_refs :: nat

type_synonym core = dmx512_core

definition MAX_DMXPORT_NAME :: nat where "MAX_DMXPORT_NAME = 128"
definition DMX512_CAP_RDM :: u64 where "DMX512_CAP_RDM = 1"

text \<open>Updates of one object.\<close>

definition upd_dev :: "addr \<Rightarrow> (dmx512_device \<Rightarrow> dmx512_device) \<Rightarrow> core \<Rightarrow> core option" where
  "upd_dev d g c = (case co_devs c d of
     None \<Rightarrow> None | Some dv \<Rightarrow> Some (c\<lparr>co_devs := (co_devs c)(d \<mapsto> g dv)\<rparr>))"

definition upd_prt :: "addr \<Rightarrow> (dmx512_port \<Rightarrow> dmx512_port) \<Rightarrow> core \<Rightarrow> core option" where
  "upd_prt p g c = (case co_prts c p of
     None \<Rightarrow> None | Some pt \<Rightarrow> Some (c\<lparr>co_prts := (co_prts c)(p \<mapsto> g pt)\<rparr>))"

section \<open>Ports\<close>

definition dmx512_add_port :: "addr \<Rightarrow> addr \<Rightarrow> core \<Rightarrow> (int \<times> core) option" where
  "dmx512_add_port dev port c = do {
     c \<leftarrow> upd_prt port (\<lambda>pt. pt\<lparr>pt_device := dev\<rparr>) c;
     c \<leftarrow> upd_dev dev (\<lambda>dv. dv\<lparr>dv_ports := dv_ports dv @ [port]\<rparr>) c;
     Some (0, c\<lparr>dmx512_ports := dmx512_ports c @ [port]\<rparr>) }"

text \<open>\<open>list_del\<close> unlinks the port from the list it is in, its device's.\<close>

definition dmx512_remove_port :: "addr \<Rightarrow> core \<Rightarrow> (int \<times> core) option" where
  "dmx512_remove_port port c = do {
     pt \<leftarrow> co_prts c port;
     c \<leftarrow> upd_dev (pt_device pt) (\<lambda>dv. dv\<lparr>dv_ports := remove1 port (dv_ports dv)\<rparr>) c;
     let c = c\<lparr>dmx512_ports := remove1 port (dmx512_ports c)\<rparr>;
     c \<leftarrow> upd_prt port (\<lambda>pt. pt\<lparr>pt_device := NULL\<rparr>) c;
     Some (0, c) }"

fun port_index_from :: "addr list \<Rightarrow> addr \<Rightarrow> int \<Rightarrow> int" where
  "port_index_from [] port index = -1"
| "port_index_from (p # ps) port index =
     (if port = p then index else port_index_from ps port (index + 1))"

definition dmx512_port_index :: "addr \<Rightarrow> core \<Rightarrow> int option" where
  "dmx512_port_index port c = (
     if port = NULL then Some (-1)
     else do {
       pt \<leftarrow> co_prts c port;
       dv \<leftarrow> co_devs c (pt_device pt);
       Some (port_index_from (dv_ports dv) port 0) })"

fun port_by_index_from :: "addr list \<Rightarrow> int \<Rightarrow> int \<Rightarrow> addr" where
  "port_by_index_from [] index i = NULL"
| "port_by_index_from (p # ps) index i =
     (if index = i then p else port_by_index_from ps index (i + 1))"

definition dmx512_port_by_index :: "addr \<Rightarrow> int \<Rightarrow> core \<Rightarrow> addr option" where
  "dmx512_port_by_index device index c = (
     if device = NULL then Some NULL
     else do {
       dv \<leftarrow> co_devs c device;
       Some (port_by_index_from (dv_ports dv) index 0) })"

text \<open>\<open>a\<close> is the address the allocation gives, 0 when it fails; \<open>strcpy\<close> does not check the size of
  the name.\<close>

definition dmx512_create_port :: "addr \<Rightarrow> string \<Rightarrow> u64 \<Rightarrow> addr \<Rightarrow> core \<Rightarrow> ((int + addr) \<times> core) option" where
  "dmx512_create_port dmx portname capabilities a c = (
     if a = NULL then Some (Inl (- ENOMEM), c)
     else if length portname \<ge> MAX_DMXPORT_NAME then None
     else Some (Inr a, c\<lparr>co_prts := (co_prts c)(a \<mapsto> \<lparr>pt_device = dmx, pt_name = portname,
            pt_capabilities = capabilities, pt_send_frame = None, pt_transmitter_has_space = None,
            pt_userptr = NULL\<rparr>)\<rparr>))"

definition dmx512_delete_port :: "addr \<Rightarrow> core \<Rightarrow> core option" where
  "dmx512_delete_port port c = (
     if port = NULL then Some c
     else do {
       (_, c) \<leftarrow> dmx512_remove_port port c;
       Some (c\<lparr>co_prts := (co_prts c)(port := None)\<rparr>) })"

definition dmx512_port_set_sendframe :: "addr \<Rightarrow> nat option \<Rightarrow> core \<Rightarrow> core option" where
  "dmx512_port_set_sendframe port callback_fn c = (
     if port = NULL then Some c else upd_prt port (\<lambda>pt. pt\<lparr>pt_send_frame := callback_fn\<rparr>) c)"

definition dmx512_port_set_userptr :: "addr \<Rightarrow> addr \<Rightarrow> core \<Rightarrow> core option" where
  "dmx512_port_set_userptr port userptr c = (
     if port = NULL then Some c else upd_prt port (\<lambda>pt. pt\<lparr>pt_userptr := userptr\<rparr>) c)"

definition dmx512_port_userptr :: "addr \<Rightarrow> core \<Rightarrow> addr option" where
  "dmx512_port_userptr port c = (
     if port = NULL then Some NULL else map_option pt_userptr (co_prts c port))"

definition dmx512_port_name :: "addr \<Rightarrow> core \<Rightarrow> string option option" where
  "dmx512_port_name port c = (
     if port = NULL then Some None else map_option (\<lambda>pt. Some (pt_name pt)) (co_prts c port))"

section \<open>Devices\<close>

definition dmx512_create_device :: "string option \<Rightarrow> addr \<Rightarrow> core \<Rightarrow> (int + addr) \<times> core" where
  "dmx512_create_device name a c = (
     if a = NULL then (Inl (- ENOMEM), c)
     else (Inr a, c\<lparr>co_devs := (co_devs c)(a \<mapsto>
            \<lparr>dv_name = (case name of None \<Rightarrow> ''unknown'' | Some n \<Rightarrow> n), dv_data = NULL,
              dv_ports = [], dv_rxframequeue = []\<rparr>)\<rparr>))"

definition dmx512_delete_device :: "addr \<Rightarrow> core \<Rightarrow> core" where
  "dmx512_delete_device device c =
     (if device = NULL then c else c\<lparr>co_devs := (co_devs c)(device := None)\<rparr>)"

text \<open>\<open>err\<close> is the answer of \<open>misc_register\<close>. The device is in the list before it is asked.\<close>

definition register_dmx512_device :: "addr \<Rightarrow> addr \<Rightarrow> int \<Rightarrow> core \<Rightarrow> (int \<times> core) option" where
  "register_dmx512_device dev data err c = do {
     c \<leftarrow> upd_dev dev (\<lambda>dv. dv\<lparr>dv_data := data, dv_ports := [], dv_rxframequeue := []\<rparr>) c;
     Some (err, c\<lparr>dmx512_devices := dev # dmx512_devices c\<rparr>) }"

text \<open>The loop over the device's ports: each is removed and freed.\<close>

fun remove_ports :: "addr list \<Rightarrow> core \<Rightarrow> core option" where
  "remove_ports [] c = Some c"
| "remove_ports (p # ps) c = do {
     (_, c) \<leftarrow> dmx512_remove_port p c;
     remove_ports ps (c\<lparr>co_prts := (co_prts c)(p := None)\<rparr>) }"

definition unregister_dmx512_device :: "addr \<Rightarrow> core \<Rightarrow> (int \<times> core) option" where
  "unregister_dmx512_device dev c = (
     if dev = NULL then Some (0, c)
     else do {
       dv \<leftarrow> co_devs c dev;
       c \<leftarrow> remove_ports (dv_ports dv) c;
       let c = c\<lparr>dmx512_devices := remove1 dev (dmx512_devices c)\<rparr>;
       c \<leftarrow> upd_dev dev (\<lambda>dv. dv\<lparr>dv_rxframequeue := fq_cleanup (dv_rxframequeue dv)\<rparr>) c;
       Some (0, c) })"

text \<open>The inner function returns -1 and does nothing.\<close>

definition devm_register_dmx512_device :: "addr \<Rightarrow> addr \<Rightarrow> core \<Rightarrow> int \<times> core" where
  "devm_register_dmx512_device dmx data c = (0, c)"

definition dmx512_device_name :: "addr \<Rightarrow> core \<Rightarrow> string option option" where
  "dmx512_device_name dmx c = (
     if dmx = NULL then Some None else map_option (\<lambda>dv. Some (dv_name dv)) (co_devs c dmx))"

section \<open>Frames between drivers and the core\<close>

definition dmx512_received_frame :: "addr \<Rightarrow> dmx512_framequeue_entry \<Rightarrow> core \<Rightarrow> (int \<times> core) option" where
  "dmx512_received_frame port frame c = (
     if port = NULL then Some (-1, c)
     else do {
       pt \<leftarrow> co_prts c port;
       if pt_device pt = NULL then Some (-1, c)
       else do {
         i \<leftarrow> dmx512_port_index port c;
         let frame = frame\<lparr>fqe_frame := (fqe_frame frame)\<lparr>f_port := word_of_int i\<rparr>\<rparr>;
         c \<leftarrow> upd_dev (pt_device pt) (\<lambda>dv. dv\<lparr>dv_rxframequeue := fq_put (dv_rxframequeue dv) frame\<rparr>) c;
         Some (0, c) } })"

definition dmx512_put_frame :: "addr \<Rightarrow> dmx512_framequeue_entry option \<Rightarrow> core \<Rightarrow> core" where
  "dmx512_put_frame port frame c = (case frame of
     None \<Rightarrow> c
   | Some e \<Rightarrow> c\<lparr>free_framequeue := fq_put (free_framequeue c) e\<rparr>)"

definition dmx512_get_frame :: "addr \<Rightarrow> core \<Rightarrow> dmx512_framequeue_entry option \<times> core" where
  "dmx512_get_frame port c = (case fq_get (free_framequeue c) of
     (e, q) \<Rightarrow> (e, c\<lparr>free_framequeue := q\<rparr>))"

section \<open>File operations\<close>

definition dmx512_device_open :: "addr \<Rightarrow> bool \<Rightarrow> core \<Rightarrow> int \<times> core" where
  "dmx512_device_open dmx try_module_get c = (
     if dmx = NULL then (- ENODEV, c)
     else if \<not> try_module_get then (- ENODEV, c)
     else (0, c\<lparr>module_refs := module_refs c + 1\<rparr>))"

definition dmx512_device_release :: "addr \<Rightarrow> core \<Rightarrow> int \<times> core" where
  "dmx512_device_release dmx c = (
     if dmx = NULL then (- ENODEV, c) else (0, c\<lparr>module_refs := module_refs c - 1\<rparr>))"

text \<open>A read returns a number and the frame copied to the caller, or waits for a frame; a wait that
  ends, with a frame or by a signal, continues with \<open>device_read_get\<close>. \<open>copied\<close> says whether
  \<open>copy_to_user\<close> succeeds.\<close>

datatype read_result = ReadReturns int "dmx512frame option" | ReadWaits

definition device_read_get :: "addr \<Rightarrow> bool \<Rightarrow> core \<Rightarrow> (read_result \<times> core) option" where
  "device_read_get dmx copied c = do {
     dv \<leftarrow> co_devs c dmx;
     (case fq_get (dv_rxframequeue dv) of
        (None, q) \<Rightarrow> Some (ReadReturns 0 None, c)
      | (Some e, q) \<Rightarrow> do {
          c \<leftarrow> upd_dev dmx (\<lambda>dv. dv\<lparr>dv_rxframequeue := q\<rparr>) c;
          let c = c\<lparr>free_framequeue := fq_put (free_framequeue c) e\<rparr>;
          Some (if copied then (ReadReturns (int sizeof_dmx512frame) (Some (fqe_frame e)), c)
                else (ReadReturns 0 None, c)) }) }"

definition dmx512_device_read :: "addr \<Rightarrow> bool \<Rightarrow> nat \<Rightarrow> bool \<Rightarrow> core \<Rightarrow> (read_result \<times> core) option" where
  "dmx512_device_read dmx nonblock sz copied c = (
     if sz < sizeof_dmx512frame then Some (ReadReturns (- EINVAL) None, c)
     else do {
       dv \<leftarrow> co_devs c dmx;
       if fq_isempty (dv_rxframequeue dv) then
         Some (if nonblock then (ReadReturns (- EAGAIN) None, c) else (ReadWaits, c))
       else device_read_get dmx copied c })"

text \<open>\<open>user\<close> is the frame \<open>copy_from_user\<close> delivers, \<^term>\<open>None\<close> when the copy fails.\<close>

definition dmx512_device_write ::
  "(nat \<Rightarrow> addr \<Rightarrow> dmx512_framequeue_entry \<Rightarrow> core \<Rightarrow> core option) \<Rightarrow> (nat \<Rightarrow> addr \<Rightarrow> core \<Rightarrow> bool) \<Rightarrow>
   addr \<Rightarrow> nat \<Rightarrow> dmx512frame option \<Rightarrow> core \<Rightarrow> (int \<times> core) option" where
  "dmx512_device_write call_send call_has_space dmx sz user c = (
     if dmx = NULL then Some (- ENODEV, c)
     else case fq_get (free_framequeue c) of
       (None, _) \<Rightarrow> Some (- ENOMEM, c)
     | (Some e, q) \<Rightarrow>
         let c = c\<lparr>free_framequeue := q\<rparr> in
         (case (if sz \<ge> sizeof_dmx512frame then user else None) of
            None \<Rightarrow> Some (- EINVAL, c\<lparr>free_framequeue := fq_put (free_framequeue c) e\<rparr>)
          | Some fr \<Rightarrow> do {
              let e = e\<lparr>fqe_frame := fr\<rparr>;
              p \<leftarrow> dmx512_port_by_index dmx (int (unat (f_port fr))) c;
              if p = NULL then Some (- EINVAL, c\<lparr>free_framequeue := fq_put (free_framequeue c) e\<rparr>)
              else do {
                pt \<leftarrow> co_prts c p;
                if (case pt_transmitter_has_space pt of None \<Rightarrow> True | Some h \<Rightarrow> call_has_space h p c)
                then do {
                  f \<leftarrow> pt_send_frame pt;
                  c \<leftarrow> call_send f p e c;
                  Some (int sizeof_dmx512frame, c) }
                else Some (- EAGAIN, c\<lparr>free_framequeue := fq_put (free_framequeue c) e\<rparr>) } }))"

definition POLLIN :: u32 where "POLLIN = 0x0001"
definition POLLRDNORM :: u32 where "POLLRDNORM = 0x0040"

definition dmx512_device_poll :: "addr \<Rightarrow> core \<Rightarrow> u32 option" where
  "dmx512_device_poll dmx c = (
     if dmx = NULL then Some 0
     else do {
       dv \<leftarrow> co_devs c dmx;
       Some (if \<not> fq_isempty (dv_rxframequeue dv) then POLLIN OR POLLRDNORM else 0) })"

definition dmx512_device_ioctl :: "u32 \<Rightarrow> u64 \<Rightarrow> core \<Rightarrow> int \<times> core" where
  "dmx512_device_ioctl command arg c = (0, c)"

section \<open>Loading and unloading\<close>

text \<open>\<open>allocs\<close> are the addresses of the sixteen allocations, 0 where one fails.\<close>

definition dmx512_core_init :: "addr list \<Rightarrow> core \<Rightarrow> int \<times> core" where
  "dmx512_core_init allocs c = (0, c\<lparr>free_framequeue :=
     foldl (\<lambda>q a. if a = NULL then q else fq_put q \<lparr>fqe_id = a, fqe_frame = zero_frame\<rparr>) [] allocs\<rparr>)"

definition dmx512_core_exit :: "core \<Rightarrow> core" where
  "dmx512_core_exit c = c\<lparr>free_framequeue := fq_cleanup (free_framequeue c)\<rparr>"

definition empty_core :: core where
  "empty_core = \<lparr>co_devs = Map.empty, co_prts = Map.empty, dmx512_devices = [], dmx512_ports = [],
     free_framequeue = [], module_refs = 0\<rparr>"

section \<open>Well-formedness\<close>

text \<open>
  Registered devices exist and are listed once; the ports of a device exist, are listed once and
  point back to it; the ports of all devices are the global port list.
\<close>

definition core_wf :: "core \<Rightarrow> bool" where
  "core_wf c \<longleftrightarrow> distinct (dmx512_devices c) \<and> NULL \<notin> set (dmx512_devices c) \<and>
     set (dmx512_devices c) \<subseteq> dom (co_devs c) \<and> NULL \<notin> dom (co_prts c) \<and>
     (\<forall>d \<in> set (dmx512_devices c). \<forall>dv. co_devs c d = Some dv \<longrightarrow> distinct (dv_ports dv) \<and>
        (\<forall>p \<in> set (dv_ports dv). \<exists>pt. co_prts c p = Some pt \<and> pt_device pt = d \<and> p \<in> set (dmx512_ports c)))"

text \<open>The frames the core holds: the pool and the receive queues of the registered devices.\<close>

definition rx_ids :: "core \<Rightarrow> addr \<Rightarrow> addr multiset" where
  "rx_ids c d = (case co_devs c d of None \<Rightarrow> {#} | Some dv \<Rightarrow> mset (fq_ids (dv_rxframequeue dv)))"

definition core_frames :: "core \<Rightarrow> addr multiset" where
  "core_frames c = mset (fq_ids (free_framequeue c)) + sum_list (map (rx_ids c) (dmx512_devices c))"

lemma port_index_from_nth:
  "distinct ps \<Longrightarrow> i < length ps \<Longrightarrow> port_index_from ps (ps ! i) k = k + int i"
proof (induction ps arbitrary: i k)
  case (Cons p ps)
  then show ?case by (cases i) auto
qed simp

lemma port_index_from_notin: "p \<notin> set ps \<Longrightarrow> port_index_from ps p k = -1"
  by (induction ps arbitrary: k) auto

lemma port_by_index_from_nth:
  "i < length ps \<Longrightarrow> port_by_index_from ps (k + int i) k = ps ! i"
proof (induction ps arbitrary: i k)
  case (Cons p ps)
  show ?case
  proof (cases i)
    case (Suc j)
    have "port_by_index_from ps (k + 1 + int j) (k + 1) = ps ! j" using Cons Suc by simp
    then show ?thesis using Suc by (simp add: add.assoc add.left_commute)
  qed simp
qed simp

lemma port_by_index_from_out:
  "index < k \<or> index \<ge> k + int (length ps) \<Longrightarrow> port_by_index_from ps index k = NULL"
  by (induction ps arbitrary: k) auto

lemma sum_list_rx_upd:
  assumes "distinct ds" and "d \<in> set ds" and "co_devs c d = Some dv"
    and "\<And>x. x \<noteq> d \<Longrightarrow> rx_ids c' x = rx_ids c x"
  shows "sum_list (map (rx_ids c') ds) + rx_ids c d = sum_list (map (rx_ids c) ds) + rx_ids c' d"
  using assms(1,2)
proof (induction ds)
  case (Cons x ds)
  show ?case
  proof (cases "x = d")
    case True
    then have "sum_list (map (rx_ids c') ds) = sum_list (map (rx_ids c) ds)"
      using Cons.prems by (intro arg_cong [of _ _ sum_list] map_cong refl assms(4)) auto
    then show ?thesis using True by (simp add: ac_simps)
  next
    case False
    then show ?thesis using Cons assms(4) by (simp add: ac_simps)
  qed
qed simp

text \<open>Replacing the receive queue of one registered device.\<close>

lemma core_frames_rx_upd:
  assumes "core_wf c" and "d \<in> set (dmx512_devices c)" and "co_devs c d = Some dv"
  shows "core_frames (c\<lparr>co_devs := (co_devs c)(d \<mapsto> dv\<lparr>dv_rxframequeue := q\<rparr>)\<rparr>) + mset (fq_ids (dv_rxframequeue dv))
     = core_frames c + mset (fq_ids q)"
proof -
  let ?c = "c\<lparr>co_devs := (co_devs c)(d \<mapsto> dv\<lparr>dv_rxframequeue := q\<rparr>)\<rparr>"
  have "sum_list (map (rx_ids ?c) (dmx512_devices c)) + rx_ids c d =
      sum_list (map (rx_ids c) (dmx512_devices c)) + rx_ids ?c d"
    using assms by (intro sum_list_rx_upd) (auto simp: core_wf_def rx_ids_def)
  then show ?thesis using assms(3) by (simp add: core_frames_def rx_ids_def ac_simps)
qed

lemma core_wf_rx_upd:
  assumes "core_wf c" and "co_devs c d = Some dv"
  shows "core_wf (c\<lparr>co_devs := (co_devs c)(d \<mapsto> dv\<lparr>dv_rxframequeue := q\<rparr>)\<rparr>)"
  using assms unfolding core_wf_def by auto

lemma core_wf_free [simp]: "core_wf (c\<lparr>free_framequeue := q\<rparr>) \<longleftrightarrow> core_wf c"
  by (simp add: core_wf_def)

lemma rx_ids_free [simp]: "rx_ids (c\<lparr>free_framequeue := q\<rparr>) = rx_ids c"
  by (simp add: rx_ids_def fun_eq_iff)

lemma core_frames_free:
  "core_frames (c\<lparr>free_framequeue := q\<rparr>) + mset (fq_ids (free_framequeue c)) = core_frames c + mset (fq_ids q)"
  by (simp add: core_frames_def ac_simps)

lemma core_frames_put:
  "core_frames (c\<lparr>free_framequeue := fq_put (free_framequeue c) e\<rparr>) = add_mset (fqe_id e) (core_frames c)"
  by (simp add: core_frames_def fq_put_def)

lemma core_frames_get:
  assumes "free_framequeue c = e # q"
  shows "core_frames c = add_mset (fqe_id e) (core_frames (c\<lparr>free_framequeue := q\<rparr>))"
  using assms by (simp add: core_frames_def)

text \<open>The \<open>i\<close>-th port of a registered device.\<close>

definition port_at :: "core \<Rightarrow> addr \<Rightarrow> nat \<Rightarrow> addr \<Rightarrow> bool" where
  "port_at c d i p \<longleftrightarrow> d \<in> set (dmx512_devices c) \<and>
     (\<exists>dv. co_devs c d = Some dv \<and> i < length (dv_ports dv) \<and> dv_ports dv ! i = p)"

lemma port_atD:
  assumes "core_wf c" and "port_at c d i p"
  obtains dv pt where "d \<in> set (dmx512_devices c)" "d \<noteq> NULL" "p \<noteq> NULL" "co_devs c d = Some dv"
    "i < length (dv_ports dv)" "dv_ports dv ! i = p" "distinct (dv_ports dv)"
    "co_prts c p = Some pt" "pt_device pt = d"
proof -
  obtain dv where dv: "d \<in> set (dmx512_devices c)" "co_devs c d = Some dv" "i < length (dv_ports dv)"
      "dv_ports dv ! i = p"
    using assms(2) by (auto simp: port_at_def)
  then have "p \<in> set (dv_ports dv)" by auto
  then obtain pt where pt: "co_prts c p = Some pt" "pt_device pt = d" "distinct (dv_ports dv)"
    using assms(1) dv unfolding core_wf_def by blast
  have "d \<noteq> NULL" "p \<noteq> NULL" using assms(1) dv pt by (auto simp: core_wf_def)
  then show thesis using that dv pt by blast
qed

lemma port_at_index:
  assumes "core_wf c" and "port_at c d i p"
  shows "dmx512_port_index p c = Some (int i)" and "dmx512_port_by_index d (int i) c = Some p"
  by (rule port_atD [OF assms]; auto simp: dmx512_port_index_def dmx512_port_by_index_def
      port_index_from_nth port_by_index_from_nth [where k = 0, simplified])+

lemma received_frame_spec:
  assumes "core_wf c" and "port_at c d i p" and "co_devs c d = Some dv"
  shows "dmx512_received_frame p e c = Some (0, c\<lparr>co_devs := (co_devs c)(d \<mapsto> dv\<lparr>dv_rxframequeue :=
     dv_rxframequeue dv @ [e\<lparr>fqe_frame := (fqe_frame e)\<lparr>f_port := of_nat i\<rparr>\<rparr>]\<rparr>)\<rparr>)"
proof -
  obtain pt where "p \<noteq> NULL" "d \<noteq> NULL" "co_prts c p = Some pt" "pt_device pt = d"
    using port_atD [OF assms(1,2)] by metis
  then show ?thesis
    using port_at_index(1) [OF assms(1,2)] assms(3)
    by (simp add: dmx512_received_frame_def upd_dev_def fq_put_def)
qed

lemma received_frame_conserves:
  assumes "core_wf c" and "port_at c d i p" and "dmx512_received_frame p e c = Some (r, c')"
  shows "core_wf c'" and "core_frames c' = add_mset (fqe_id e) (core_frames c)"
    and "dmx512_devices c' = dmx512_devices c" and "co_prts c' = co_prts c"
proof -
  obtain dv where dv: "d \<in> set (dmx512_devices c)" "co_devs c d = Some dv" using assms(2) by (auto simp: port_at_def)
  let ?q = "dv_rxframequeue dv @ [e\<lparr>fqe_frame := (fqe_frame e)\<lparr>f_port := of_nat i\<rparr>\<rparr>]"
  have c': "c' = c\<lparr>co_devs := (co_devs c)(d \<mapsto> dv\<lparr>dv_rxframequeue := ?q\<rparr>)\<rparr>"
    using received_frame_spec [OF assms(1,2) dv(2)] assms(3) by simp
  show "core_wf c'" unfolding c' by (rule core_wf_rx_upd [OF assms(1) dv(2)])
  show "core_frames c' = add_mset (fqe_id e) (core_frames c)"
    using core_frames_rx_upd [OF assms(1) dv, of ?q] unfolding c' by simp
  show "dmx512_devices c' = dmx512_devices c" "co_prts c' = co_prts c" unfolding c' by simp_all
qed

lemma device_read_get_spec:
  assumes "core_wf c" and "d \<in> set (dmx512_devices c)" and "co_devs c d = Some dv"
    and "dv_rxframequeue dv = e # q"
  shows "\<exists>c'. device_read_get d copied c =
       Some (if copied then ReadReturns (int sizeof_dmx512frame) (Some (fqe_frame e)) else ReadReturns 0 None, c') \<and>
     core_wf c' \<and> core_frames c' = core_frames c \<and> free_framequeue c' = free_framequeue c @ [e] \<and>
     co_devs c' = (co_devs c)(d \<mapsto> dv\<lparr>dv_rxframequeue := q\<rparr>) \<and> dmx512_devices c' = dmx512_devices c \<and>
     co_prts c' = co_prts c"
proof -
  define c1 where "c1 = c\<lparr>co_devs := (co_devs c)(d \<mapsto> dv\<lparr>dv_rxframequeue := q\<rparr>)\<rparr>"
  define c2 where "c2 = c1\<lparr>free_framequeue := fq_put (free_framequeue c1) e\<rparr>"
  have "core_wf c1" unfolding c1_def by (rule core_wf_rx_upd [OF assms(1,3)])
  then have wf: "core_wf c2" by (simp add: c2_def)
  have "add_mset (fqe_id e) (core_frames c1 + mset (fq_ids q)) = core_frames c + mset (fq_ids q)"
    using core_frames_rx_upd [OF assms(1-3), of q] assms(4) by (simp add: c1_def)
  then have "core_frames c2 = core_frames c"
    by (simp add: c2_def core_frames_put flip: union_mset_add_mset_left)
  then show ?thesis
    using wf assms(3,4)
    by (intro exI [of _ c2]) (simp add: device_read_get_def upd_dev_def c1_def c2_def fq_put_def)
qed

lemma device_read_conserves:
  assumes "core_wf c" and "d \<in> set (dmx512_devices c)" and "dmx512_device_read d nb sz copied c = Some (r, c')"
  shows "core_wf c'" and "core_frames c' = core_frames c"
proof -
  obtain dv where dv: "co_devs c d = Some dv" using assms(1,2) by (auto simp: core_wf_def)
  show "core_wf c'" "core_frames c' = core_frames c"
    using assms dv device_read_get_spec [OF assms(1,2) dv, of _ _ copied]
    by (cases "dv_rxframequeue dv"; auto simp: dmx512_device_read_def fq_isempty_def split: if_splits)+
qed

section \<open>The contract of a driver\<close>

text \<open>
  What the core relies on when it hands a frame to a driver's \<open>send_frame\<close>: in the states the
  driver's invariant describes the call returns, keeps the core well-formed and the invariant, and
  the frame ends up in the core again, in the pool or in a receive queue.
\<close>

locale dmx512_driver =
  fixes call_send :: "nat \<Rightarrow> addr \<Rightarrow> dmx512_framequeue_entry \<Rightarrow> core \<Rightarrow> core option"
    and drv_inv :: "core \<Rightarrow> bool"
  assumes send_ok: "core_wf c \<Longrightarrow> drv_inv c \<Longrightarrow> port_at c d i p \<Longrightarrow> co_prts c p = Some pt \<Longrightarrow>
      pt_send_frame pt = Some f \<Longrightarrow>
      \<exists>c'. call_send f p e c = Some c' \<and> core_wf c' \<and> drv_inv c' \<and>
        core_frames c' = add_mset (fqe_id e) (core_frames c)"
    and send_set: "core_wf c \<Longrightarrow> drv_inv c \<Longrightarrow> port_at c d i p \<Longrightarrow> co_prts c p = Some pt \<Longrightarrow>
      pt_send_frame pt \<noteq> None"
    and inv_free: "drv_inv (c\<lparr>free_framequeue := q\<rparr>) = drv_inv c"
begin

lemma write_to_port:
  assumes "core_wf c" and "drv_inv c" and "free_framequeue c = e # q" and "port_at c d i p"
    and "unat (f_port fr) = i" and "sz \<ge> sizeof_dmx512frame" and "co_prts c p = Some pt"
    and "pt_transmitter_has_space pt = None" and "pt_send_frame pt = Some f"
  shows "dmx512_device_write call_send hs d sz (Some fr) c =
     map_option (Pair (int sizeof_dmx512frame)) (call_send f p (e\<lparr>fqe_frame := fr\<rparr>) (c\<lparr>free_framequeue := q\<rparr>))"
proof -
  let ?c = "c\<lparr>free_framequeue := q\<rparr>"
  have pa: "port_at ?c d i p" "core_wf ?c" using assms(1,4) by (simp_all add: port_at_def)
  have "d \<noteq> NULL" "p \<noteq> NULL" by (rule port_atD [OF assms(1,4)]; simp)+
  then show ?thesis
    using port_at_index(2) [OF pa(2,1)] assms(3,5-9)
    by (cases "call_send f p (e\<lparr>fqe_frame := fr\<rparr>) ?c") (auto simp: dmx512_device_write_def)
qed

lemma write_conserves:
  assumes "core_wf c" and "drv_inv c" and "d \<in> set (dmx512_devices c)"
  shows "\<exists>r c'. dmx512_device_write call_send hs d sz user c = Some (r, c') \<and> core_wf c' \<and> drv_inv c' \<and>
     core_frames c' = core_frames c"
proof (cases "free_framequeue c")
  case Nil
  then show ?thesis using assms by (simp add: dmx512_device_write_def core_wf_def)
next
  case (Cons e q)
  let ?c = "c\<lparr>free_framequeue := q\<rparr>"
  have cf: "core_frames c = add_mset (fqe_id e) (core_frames ?c)" by (rule core_frames_get [OF Cons])
  have dn: "d \<noteq> NULL" using assms(1,3) by (auto simp: core_wf_def)
  obtain dv where dv: "co_devs c d = Some dv" using assms(1,3) by (auto simp: core_wf_def)
  have putback: "core_wf (?c\<lparr>free_framequeue := fq_put (free_framequeue ?c) x\<rparr>)"
      "drv_inv (?c\<lparr>free_framequeue := fq_put (free_framequeue ?c) x\<rparr>)"
      "core_frames (?c\<lparr>free_framequeue := fq_put (free_framequeue ?c) x\<rparr>) = core_frames c"
    if "fqe_id x = fqe_id e" for x
    using that assms cf core_frames_put [of ?c x] inv_free by simp_all
  show ?thesis
  proof (cases "if sz \<ge> sizeof_dmx512frame then user else None")
    case None
    then show ?thesis using Cons dn putback [of e] by (simp add: dmx512_device_write_def)
  next
    case (Some fr)
    define e' where "e' = e\<lparr>fqe_frame := fr\<rparr>"
    have id: "fqe_id e' = fqe_id e" by (simp add: e'_def)
    let ?i = "unat (f_port fr)"
    show ?thesis
    proof (cases "?i < length (dv_ports dv)")
      case False
      then have "port_by_index_from (dv_ports dv) (int ?i) 0 = NULL"
        by (intro port_by_index_from_out) linarith
      then have "dmx512_port_by_index d (int ?i) ?c = Some NULL"
        using dv dn by (simp add: dmx512_port_by_index_def)
      then show ?thesis
        using Cons dn putback [OF id] Some unfolding e'_def by (simp add: dmx512_device_write_def)
    next
      case True
      define p where "p = dv_ports dv ! ?i"
      have pa: "port_at ?c d ?i p" using True dv assms(3) by (simp add: port_at_def p_def)
      have wf: "core_wf ?c" "drv_inv ?c" using assms by (simp_all add: inv_free)
      obtain pt where pt: "co_prts ?c p = Some pt" "p \<noteq> NULL" by (rule port_atD [OF wf(1) pa]) auto
      obtain f where f: "pt_send_frame pt = Some f" using send_set [OF wf pa pt(1)] by auto
      obtain c' where c': "call_send f p e' ?c = Some c'" "core_wf c'" "drv_inv c'"
          "core_frames c' = add_mset (fqe_id e') (core_frames ?c)"
        using send_ok [OF wf pa pt(1) f] by blast
      note bi = port_at_index(2) [OF wf(1) pa]
      show ?thesis
      proof (cases "case pt_transmitter_has_space pt of None \<Rightarrow> True | Some h \<Rightarrow> hs h p ?c")
        case True
        then show ?thesis
          using Cons dn Some bi pt f c' cf id by (simp add: dmx512_device_write_def e'_def [symmetric])
      next
        case False
        then show ?thesis
          using Cons dn Some bi pt putback [OF id] by (simp add: dmx512_device_write_def e'_def [symmetric])
      qed
    qed
  qed
qed

end

end
