(* ===== verification/Dmx512_Dummy.thy ===== *)
theory Dmx512_Dummy
  imports Dmx512_Core
begin

text \<open>
  The dummy driver (\<^verbatim>\<open>src/src/drivers/dmx512/boards/dmx512_dummy.c\<close>): two devices with the same
  number of ports, port \<open>i\<close> of one connected to port \<open>i\<close> of the other. A frame sent to a port is
  received on the connected port.
\<close>

section \<open>The driver\<close>

text \<open>The number of the callback \<open>dmx512_dummy_send_frame\<close>.\<close>

definition DUMMY_SEND :: nat where "DUMMY_SEND = 1"

definition dmx512_dummy_send_frame :: "addr \<Rightarrow> dmx512_framequeue_entry \<Rightarrow> core \<Rightarrow> (int \<times> core) option" where
  "dmx512_dummy_send_frame port frame c = do {
     dst_port \<leftarrow> dmx512_port_userptr port c;
     if dst_port \<noteq> NULL then do { (_, c) \<leftarrow> dmx512_received_frame dst_port frame c; Some (0, c) }
     else Some (0, c) }"

definition dummy_call :: "nat \<Rightarrow> addr \<Rightarrow> dmx512_framequeue_entry \<Rightarrow> core \<Rightarrow> core option" where
  "dummy_call f port frame c =
     (if f = DUMMY_SEND then map_option snd (dmx512_dummy_send_frame port frame c) else None)"

text \<open>Decimal digits, for \<open>snprintf(portname, 128, "%s-%d", ...)\<close>.\<close>

fun dec_digits :: "nat \<Rightarrow> string" where
  "dec_digits n = (if n < 10 then [char_of (48 + n)] else dec_digits (n div 10) @ [char_of (48 + n mod 10)])"

declare dec_digits.simps [simp del]

definition dummy_port_name :: "string \<Rightarrow> nat \<Rightarrow> string" where
  "dummy_port_name name i = take 127 (name @ ''-'' @ dec_digits i)"

text \<open>The loop over the ports; \<open>as\<close> are the addresses the allocations give. A failed allocation is
  an error pointer, which is not null, and the next call dereferences it.\<close>

fun create_dummy_ports :: "string \<Rightarrow> addr \<Rightarrow> addr list \<Rightarrow> nat \<Rightarrow> core \<Rightarrow> core option" where
  "create_dummy_ports name dmx [] i c = Some c"
| "create_dummy_ports name dmx (a # as) i c = do {
     (r, c) \<leftarrow> dmx512_create_port dmx (dummy_port_name name i) DMX512_CAP_RDM a c;
     (case r of
        Inl err \<Rightarrow> None
      | Inr port \<Rightarrow> do {
          c \<leftarrow> dmx512_port_set_sendframe port (Some DUMMY_SEND) c;
          (_, c) \<leftarrow> dmx512_add_port dmx port c;
          create_dummy_ports name dmx as (i + 1) c }) }"

text \<open>\<open>a\<close> is the address of the device, \<open>err\<close> the answer of \<open>misc_register\<close>.\<close>

definition create_dummy_dmx_device ::
  "string \<Rightarrow> addr \<Rightarrow> int \<Rightarrow> addr list \<Rightarrow> core \<Rightarrow> ((int + addr) \<times> core) option" where
  "create_dummy_dmx_device name a err as c = (case dmx512_create_device (Some name) a c of
     (Inl e, c) \<Rightarrow> Some (Inl e, c)
   | (Inr dmx, c) \<Rightarrow> do {
       (ret, c) \<leftarrow> register_dmx512_device dmx NULL err c;
       if ret < 0 then Some (Inl ret, c\<lparr>co_devs := (co_devs c)(dmx := None)\<rparr>)
       else do {
         c \<leftarrow> create_dummy_ports name dmx as 0 c;
         Some (Inr dmx, c) } })"

fun connect_ports :: "addr \<Rightarrow> addr \<Rightarrow> nat \<Rightarrow> nat \<Rightarrow> core \<Rightarrow> core option" where
  "connect_ports dmx0 dmx1 i 0 c = Some c"
| "connect_ports dmx0 dmx1 i (Suc n) c = do {
     p0 \<leftarrow> dmx512_port_by_index dmx0 (int i) c;
     p1 \<leftarrow> dmx512_port_by_index dmx1 (int i) c;
     c \<leftarrow> dmx512_port_set_userptr p0 p1 c;
     p1 \<leftarrow> dmx512_port_by_index dmx1 (int i) c;
     p0 \<leftarrow> dmx512_port_by_index dmx0 (int i) c;
     c \<leftarrow> dmx512_port_set_userptr p1 p0 c;
     connect_ports dmx0 dmx1 (i + 1) n c }"

text \<open>Result: the return value and the two devices the driver remembers.\<close>

definition dmx512_dummy_driver_init ::
  "addr \<Rightarrow> int \<Rightarrow> addr list \<Rightarrow> addr \<Rightarrow> int \<Rightarrow> addr list \<Rightarrow> core \<Rightarrow> (int \<times> (addr \<times> addr) \<times> core) option" where
  "dmx512_dummy_driver_init a0 err0 as0 a1 err1 as1 c = do {
     (r0, c) \<leftarrow> create_dummy_dmx_device ''card0'' a0 err0 as0 c;
     (case r0 of
        Inl e \<Rightarrow> Some (e, (NULL, NULL), c)
      | Inr dmx0 \<Rightarrow> do {
          (r1, c) \<leftarrow> create_dummy_dmx_device ''card1'' a1 err1 as1 c;
          (case r1 of
             Inl e \<Rightarrow> do {
               (_, c) \<leftarrow> unregister_dmx512_device dmx0 c;
               Some (e, (NULL, NULL), dmx512_delete_device dmx0 c) }
           | Inr dmx1 \<Rightarrow> do {
               c \<leftarrow> connect_ports dmx0 dmx1 0 (length as0) c;
               Some (0, (dmx0, dmx1), c) }) }) }"

definition dmx512_dummy_driver_exit :: "addr \<times> addr \<Rightarrow> core \<Rightarrow> core option" where
  "dmx512_dummy_driver_exit devs c = do {
     (_, c) \<leftarrow> unregister_dmx512_device (fst devs) c;
     (_, c) \<leftarrow> unregister_dmx512_device (snd devs) c;
     Some (dmx512_delete_device (snd devs) (dmx512_delete_device (fst devs) c)) }"

section \<open>The driver keeps the core's contract\<close>

text \<open>Every port of a registered device sends to a port of a registered device.\<close>

definition dummy_inv :: "core \<Rightarrow> bool" where
  "dummy_inv c \<longleftrightarrow> (\<forall>d i p pt. port_at c d i p \<and> co_prts c p = Some pt \<longrightarrow>
     pt_send_frame pt = Some DUMMY_SEND \<and> pt_transmitter_has_space pt = None \<and>
     (\<exists>d' i'. port_at c d' i' (pt_userptr pt)))"

lemma port_at_free [simp]: "port_at (c\<lparr>free_framequeue := q\<rparr>) d i p = port_at c d i p"
  by (simp add: port_at_def)

lemma port_at_rx [simp]:
  "co_devs c x = Some dv \<Longrightarrow>
   port_at (c\<lparr>co_devs := (co_devs c)(x \<mapsto> dv\<lparr>dv_rxframequeue := q\<rparr>)\<rparr>) d i p = port_at c d i p"
  by (auto simp: port_at_def)

lemma dummy_inv_rx:
  assumes "co_devs c x = Some dv"
  shows "dummy_inv (c\<lparr>co_devs := (co_devs c)(x \<mapsto> dv\<lparr>dv_rxframequeue := q\<rparr>)\<rparr>) = dummy_inv c"
  using assms by (simp add: dummy_inv_def)

lemma dummy_send_spec:
  assumes "core_wf c" and "port_at c d i p" and "co_prts c p = Some pt" and "port_at c d' i' (pt_userptr pt)"
    and "co_devs c d' = Some dv"
  shows "dummy_call DUMMY_SEND p e c = Some (c\<lparr>co_devs := (co_devs c)(d' \<mapsto> dv\<lparr>dv_rxframequeue :=
     dv_rxframequeue dv @ [e\<lparr>fqe_frame := (fqe_frame e)\<lparr>f_port := of_nat i'\<rparr>\<rparr>]\<rparr>)\<rparr>)"
proof -
  have "p \<noteq> NULL" by (rule port_atD [OF assms(1,2)])
  moreover have "pt_userptr pt \<noteq> NULL" by (rule port_atD [OF assms(1,4)])
  ultimately show ?thesis
    using received_frame_spec [OF assms(1,4,5)] assms(3)
    by (simp add: dummy_call_def dmx512_dummy_send_frame_def dmx512_port_userptr_def)
qed

interpretation dummy: dmx512_driver dummy_call dummy_inv
proof
  fix c d i p pt f e
  assume wf: "core_wf c" and inv: "dummy_inv c" and pa: "port_at c d i p" and pt: "co_prts c p = Some pt"
  show "pt_send_frame pt \<noteq> None" using inv pa pt by (auto simp: dummy_inv_def)
  assume f: "pt_send_frame pt = Some f"
  obtain d' i' where pa': "f = DUMMY_SEND" "port_at c d' i' (pt_userptr pt)"
    using inv pa pt f unfolding dummy_inv_def by fastforce
  obtain dv where dv: "d' \<in> set (dmx512_devices c)" "co_devs c d' = Some dv"
    using pa'(2) by (auto simp: port_at_def)
  let ?q = "dv_rxframequeue dv @ [e\<lparr>fqe_frame := (fqe_frame e)\<lparr>f_port := of_nat i'\<rparr>\<rparr>]"
  show "\<exists>c'. dummy_call f p e c = Some c' \<and> core_wf c' \<and> dummy_inv c' \<and>
      core_frames c' = add_mset (fqe_id e) (core_frames c)"
    using dummy_send_spec [OF wf pa pt pa'(2) dv(2)] core_wf_rx_upd [OF wf dv(2), of ?q]
      core_frames_rx_upd [OF wf dv, of ?q] dummy_inv_rx [OF dv(2), of ?q] inv pa'(1)
    by simp
next
  fix c q
  show "dummy_inv (c\<lparr>free_framequeue := q\<rparr>) = dummy_inv c" by (simp add: dummy_inv_def)
qed

section \<open>Setting the cards up\<close>

definition dummy_port :: "addr \<Rightarrow> string \<Rightarrow> addr \<Rightarrow> dmx512_port" where
  "dummy_port d nm u = \<lparr>pt_device = d, pt_name = nm, pt_capabilities = DMX512_CAP_RDM,
     pt_send_frame = Some DUMMY_SEND, pt_transmitter_has_space = None, pt_userptr = u\<rparr>"

lemma create_dummy_ports_spec:
  assumes "distinct as" and "NULL \<notin> set as" and "co_devs c d = Some dv"
  shows "\<exists>c'. create_dummy_ports nm d as i c = Some c' \<and>
     co_devs c' = (co_devs c)(d \<mapsto> dv\<lparr>dv_ports := dv_ports dv @ as\<rparr>) \<and>
     (\<forall>x. x \<notin> set as \<longrightarrow> co_prts c' x = co_prts c x) \<and>
     (\<forall>x \<in> set as. \<exists>n. co_prts c' x = Some (dummy_port d n NULL)) \<and>
     dmx512_ports c' = dmx512_ports c @ as \<and> dmx512_devices c' = dmx512_devices c \<and>
     free_framequeue c' = free_framequeue c"
  using assms
proof (induction "as" arbitrary: i c dv)
  case Nil
  then show ?case by (auto simp: fun_upd_idem)
next
  case (Cons a "as")
  let ?n = "dummy_port_name nm i"
  define c1 where "c1 = c\<lparr>co_prts := (co_prts c)(a \<mapsto> dummy_port d ?n NULL),
      co_devs := (co_devs c)(d \<mapsto> dv\<lparr>dv_ports := dv_ports dv @ [a]\<rparr>), dmx512_ports := dmx512_ports c @ [a]\<rparr>"
  have "length ?n < MAX_DMXPORT_NAME" by (simp add: dummy_port_name_def MAX_DMXPORT_NAME_def)
  then have step: "create_dummy_ports nm d (a # as) i c = create_dummy_ports nm d as (i + 1) c1"
    using Cons.prems
    by (simp add: dmx512_create_port_def dmx512_port_set_sendframe_def dmx512_add_port_def upd_prt_def upd_dev_def
        c1_def dummy_port_def)
  have "co_devs c1 d = Some (dv\<lparr>dv_ports := dv_ports dv @ [a]\<rparr>)" by (simp add: c1_def)
  from Cons.IH [OF _ _ this, of "i + 1"] obtain c' where c': "create_dummy_ports nm d as (i + 1) c1 = Some c'"
      "co_devs c' = (co_devs c1)(d \<mapsto> dv\<lparr>dv_ports := dv_ports dv @ [a] @ as\<rparr>)"
      "\<forall>x. x \<notin> set as \<longrightarrow> co_prts c' x = co_prts c1 x"
      "\<forall>x \<in> set as. \<exists>n. co_prts c' x = Some (dummy_port d n NULL)"
      "dmx512_ports c' = dmx512_ports c1 @ as" "dmx512_devices c' = dmx512_devices c1"
      "free_framequeue c' = free_framequeue c1"
    using Cons.prems(1,2) by (simp del: fun_upd_apply) blast
  show ?case
    unfolding step using c' Cons.prems(1) by (intro exI [of _ c']) (auto simp: c1_def)
qed

lemma create_dummy_dmx_device_spec:
  assumes "distinct as" and "NULL \<notin> set as" and "a \<noteq> NULL" and "0 \<le> err"
  shows "\<exists>c'. create_dummy_dmx_device nm a err as c = Some (Inr a, c') \<and>
     co_devs c' = (co_devs c)(a \<mapsto> \<lparr>dv_name = nm, dv_data = NULL, dv_ports = as, dv_rxframequeue = []\<rparr>) \<and>
     (\<forall>x. x \<notin> set as \<longrightarrow> co_prts c' x = co_prts c x) \<and>
     (\<forall>x \<in> set as. \<exists>n. co_prts c' x = Some (dummy_port a n NULL)) \<and>
     dmx512_ports c' = dmx512_ports c @ as \<and> dmx512_devices c' = a # dmx512_devices c \<and>
     free_framequeue c' = free_framequeue c"
proof -
  define dv where "dv = \<lparr>dv_name = nm, dv_data = NULL, dv_ports = [], dv_rxframequeue = []\<rparr>"
  define c1 where "c1 = c\<lparr>co_devs := (co_devs c)(a \<mapsto> dv), dmx512_devices := a # dmx512_devices c\<rparr>"
  have "create_dummy_dmx_device nm a err as c =
      do { c \<leftarrow> create_dummy_ports nm a as 0 c1; Some (Inr a, c) }"
    using assms(3,4)
    by (simp add: create_dummy_dmx_device_def dmx512_create_device_def register_dmx512_device_def upd_dev_def
        c1_def dv_def)
  moreover have "co_devs c1 a = Some dv" by (simp add: c1_def)
  ultimately show ?thesis
    using create_dummy_ports_spec [OF assms(1,2), of c1 a dv nm 0] by (auto simp: c1_def dv_def)
qed

text \<open>Ports of two devices of which the first \<open>k\<close> pairs are connected.\<close>

definition connected :: "addr \<Rightarrow> addr list \<Rightarrow> addr \<Rightarrow> addr list \<Rightarrow> nat \<Rightarrow> core \<Rightarrow> bool" where
  "connected d0 ps0 d1 ps1 k c \<longleftrightarrow>
     (\<exists>dv0 dv1. co_devs c d0 = Some dv0 \<and> dv_ports dv0 = ps0 \<and> co_devs c d1 = Some dv1 \<and> dv_ports dv1 = ps1) \<and>
     (\<forall>j < length ps0. (\<exists>n. co_prts c (ps0 ! j) = Some (dummy_port d0 n (if j < k then ps1 ! j else NULL))) \<and>
        (\<exists>n. co_prts c (ps1 ! j) = Some (dummy_port d1 n (if j < k then ps0 ! j else NULL))))"

lemma connect_step:
  assumes "connected d0 ps0 d1 ps1 k c" and "k < length ps0" and "length ps1 = length ps0"
    and "distinct (ps0 @ ps1)" and "NULL \<notin> set (ps0 @ ps1)" and "d0 \<noteq> NULL" and "d1 \<noteq> NULL"
  shows "\<exists>c'. connect_ports d0 d1 k (Suc n) c = connect_ports d0 d1 (k + 1) n c' \<and> connected d0 ps0 d1 ps1 (k + 1) c' \<and>
     co_devs c' = co_devs c \<and> dmx512_devices c' = dmx512_devices c \<and> dmx512_ports c' = dmx512_ports c \<and>
     free_framequeue c' = free_framequeue c \<and> dom (co_prts c') = dom (co_prts c)"
proof -
  let ?p0 = "ps0 ! k" and ?p1 = "ps1 ! k"
  obtain n0 n1 where n: "co_prts c ?p0 = Some (dummy_port d0 n0 NULL)" "co_prts c ?p1 = Some (dummy_port d1 n1 NULL)"
    using assms(1,2) by (auto simp: connected_def)
  have "?p0 \<in> set ps0" "?p1 \<in> set ps1" using assms(2,3) by simp_all
  then have nn: "?p0 \<noteq> NULL" "?p1 \<noteq> NULL" "?p0 \<noteq> ?p1"
    using assms(4,5) by (auto simp: disjoint_iff)
  have byi: "dmx512_port_by_index d0 (int k) c' = Some ?p0" "dmx512_port_by_index d1 (int k) c' = Some ?p1"
    if "co_devs c' = co_devs c" for c'
    using that assms(1-3,6,7) port_by_index_from_nth [where k = 0, simplified]
    by (auto simp: connected_def dmx512_port_by_index_def)
  define c' where "c' = c\<lparr>co_prts := (co_prts c)(?p0 \<mapsto> dummy_port d0 n0 ?p1, ?p1 \<mapsto> dummy_port d1 n1 ?p0)\<rparr>"
  have eq: "connect_ports d0 d1 k (Suc n) c = connect_ports d0 d1 (k + 1) n c'"
    using n nn by (simp add: byi dmx512_port_set_userptr_def upd_prt_def c'_def dummy_port_def)
  have other: "co_prts c' (ps0 ! j) = co_prts c (ps0 ! j)" "co_prts c' (ps1 ! j) = co_prts c (ps1 ! j)"
    if "j < length ps0" "j \<noteq> k" for j
    using that assms(2-4) by (auto simp: c'_def nth_eq_iff_index_eq in_set_conv_nth disjoint_iff)
  have "connected d0 ps0 d1 ps1 (k + 1) c'"
    unfolding connected_def
  proof (intro conjI allI impI)
    show "\<exists>dv0 dv1. co_devs c' d0 = Some dv0 \<and> dv_ports dv0 = ps0 \<and> co_devs c' d1 = Some dv1 \<and> dv_ports dv1 = ps1"
      using assms(1) by (simp add: connected_def c'_def)
    fix j assume j: "j < length ps0"
    show "\<exists>n. co_prts c' (ps0 ! j) = Some (dummy_port d0 n (if j < k + 1 then ps1 ! j else NULL))"
      "\<exists>n. co_prts c' (ps1 ! j) = Some (dummy_port d1 n (if j < k + 1 then ps0 ! j else NULL))"
      using assms(1) j other [OF j] nn by (cases "j = k"; auto simp: connected_def c'_def less_Suc_eq)+
  qed
  moreover have "dom (co_prts c') = dom (co_prts c)" using n by (auto simp: c'_def)
  ultimately show ?thesis using eq by (intro exI [of _ c']) (simp add: c'_def)
qed

lemma connect_all:
  assumes "connected d0 ps0 d1 ps1 k c" and "k + n = length ps0" and "length ps1 = length ps0"
    and "distinct (ps0 @ ps1)" and "NULL \<notin> set (ps0 @ ps1)" and "d0 \<noteq> NULL" and "d1 \<noteq> NULL"
  shows "\<exists>c'. connect_ports d0 d1 k n c = Some c' \<and> connected d0 ps0 d1 ps1 (length ps0) c' \<and>
     co_devs c' = co_devs c \<and> dmx512_devices c' = dmx512_devices c \<and> dmx512_ports c' = dmx512_ports c \<and>
     free_framequeue c' = free_framequeue c \<and> dom (co_prts c') = dom (co_prts c)"
  using assms(1,2)
proof (induction n arbitrary: k c)
  case 0
  then show ?case by simp
next
  case (Suc n)
  obtain c1 where c1: "connect_ports d0 d1 k (Suc n) c = connect_ports d0 d1 (k + 1) n c1"
      "connected d0 ps0 d1 ps1 (k + 1) c1" "co_devs c1 = co_devs c" "dmx512_devices c1 = dmx512_devices c"
      "dmx512_ports c1 = dmx512_ports c" "free_framequeue c1 = free_framequeue c"
      "dom (co_prts c1) = dom (co_prts c)"
    using connect_step [OF Suc.prems(1) _ assms(3-7), of n] Suc.prems(2) by auto
  show ?case using Suc.IH [OF c1(2)] Suc.prems(2) c1 by auto
qed

text \<open>What the driver's initialisation has to leave: the two cards with connected ports.\<close>

definition cards_up :: "addr \<Rightarrow> addr list \<Rightarrow> addr \<Rightarrow> addr list \<Rightarrow> core \<Rightarrow> bool" where
  "cards_up a0 as0 a1 as1 c \<longleftrightarrow> dmx512_devices c = [a1, a0] \<and> connected a0 as0 a1 as1 (length as0) c \<and>
     dmx512_ports c = as0 @ as1 \<and> NULL \<notin> dom (co_prts c)"

lemma cards_up_port:
  assumes "cards_up a0 as0 a1 as1 c" and "j < length as0"
  shows "\<exists>n. co_prts c (as0 ! j) = Some (dummy_port a0 n (as1 ! j))"
    and "\<exists>n. co_prts c (as1 ! j) = Some (dummy_port a1 n (as0 ! j))"
  using assms unfolding cards_up_def connected_def by metis+

lemma cards_up_wf:
  assumes "cards_up a0 as0 a1 as1 c" and "distinct (as0 @ as1)" and "length as1 = length as0"
    and "a0 \<noteq> a1" and "a0 \<noteq> NULL" and "a1 \<noteq> NULL"
  shows "core_wf c" and "dummy_inv c"
    and "i < length as0 \<Longrightarrow> port_at c a0 i (as0 ! i) \<and> port_at c a1 i (as1 ! i)"
proof -
  obtain dv0 dv1 where dv: "co_devs c a0 = Some dv0" "dv_ports dv0 = as0" "co_devs c a1 = Some dv1" "dv_ports dv1 = as1"
    using assms(1) by (auto simp: cards_up_def connected_def)
  note prt = cards_up_port [OF assms(1)]
  have devs: "dmx512_devices c = [a1, a0]" "dmx512_ports c = as0 @ as1" "NULL \<notin> dom (co_prts c)"
    using assms(1) by (simp_all add: cards_up_def)
  show "core_wf c"
    unfolding core_wf_def using devs dv assms(2-6) prt
    by (auto simp: in_set_conv_nth dummy_port_def) (metis dmx512_port.select_convs(1) prt)+
  have pa: "port_at c d i p \<longleftrightarrow> i < length as0 \<and> (d = a0 \<and> p = as0 ! i \<or> d = a1 \<and> p = as1 ! i)" for d i p
    using devs dv assms(3,4) by (auto simp: port_at_def)
  show "i < length as0 \<Longrightarrow> port_at c a0 i (as0 ! i) \<and> port_at c a1 i (as1 ! i)" for i
    by (simp add: pa)
  show "dummy_inv c"
    unfolding dummy_inv_def pa using prt by (fastforce simp: dummy_port_def)
qed

lemma dummy_init_spec:
  assumes "distinct (as0 @ as1)" and "length as1 = length as0" and "NULL \<notin> set (as0 @ as1)"
    and "a0 \<noteq> a1" and "a0 \<noteq> NULL" and "a1 \<noteq> NULL" and "0 \<le> err0" and "0 \<le> err1"
    and "dmx512_devices c = []" and "dmx512_ports c = []" and "co_prts c = Map.empty"
  shows "\<exists>c'. dmx512_dummy_driver_init a0 err0 as0 a1 err1 as1 c = Some (0, (a0, a1), c') \<and>
     cards_up a0 as0 a1 as1 c' \<and> free_framequeue c' = free_framequeue c \<and>
     (\<forall>d \<in> {a0, a1}. \<exists>dv. co_devs c' d = Some dv \<and> dv_rxframequeue dv = [])"
proof -
  have d: "distinct as0" "NULL \<notin> set as0" "distinct as1" "NULL \<notin> set as1" "set as0 \<inter> set as1 = {}"
    using assms(1,3) by auto
  obtain c1 where c1: "create_dummy_dmx_device ''card0'' a0 err0 as0 c = Some (Inr a0, c1)"
      "co_devs c1 = (co_devs c)(a0 \<mapsto> \<lparr>dv_name = ''card0'', dv_data = NULL, dv_ports = as0, dv_rxframequeue = []\<rparr>)"
      "\<forall>x. x \<notin> set as0 \<longrightarrow> co_prts c1 x = co_prts c x"
      "\<forall>x \<in> set as0. \<exists>n. co_prts c1 x = Some (dummy_port a0 n NULL)"
      "dmx512_ports c1 = dmx512_ports c @ as0" "dmx512_devices c1 = a0 # dmx512_devices c"
      "free_framequeue c1 = free_framequeue c"
    using create_dummy_dmx_device_spec [OF d(1,2) assms(5,7), of "''card0''" c] by blast
  obtain c2 where c2: "create_dummy_dmx_device ''card1'' a1 err1 as1 c1 = Some (Inr a1, c2)"
      "co_devs c2 = (co_devs c1)(a1 \<mapsto> \<lparr>dv_name = ''card1'', dv_data = NULL, dv_ports = as1, dv_rxframequeue = []\<rparr>)"
      "\<forall>x. x \<notin> set as1 \<longrightarrow> co_prts c2 x = co_prts c1 x"
      "\<forall>x \<in> set as1. \<exists>n. co_prts c2 x = Some (dummy_port a1 n NULL)"
      "dmx512_ports c2 = dmx512_ports c1 @ as1" "dmx512_devices c2 = a1 # dmx512_devices c1"
      "free_framequeue c2 = free_framequeue c1"
    using create_dummy_dmx_device_spec [OF d(3,4) assms(6,8), of "''card1''" c1] by blast
  have "connected a0 as0 a1 as1 0 c2"
    unfolding connected_def
  proof (intro conjI allI impI)
    show "\<exists>dv0 dv1. co_devs c2 a0 = Some dv0 \<and> dv_ports dv0 = as0 \<and> co_devs c2 a1 = Some dv1 \<and> dv_ports dv1 = as1"
      using c1(2) c2(2) assms(4) by simp
    fix j assume j: "j < length as0"
    have "as0 ! j \<in> set as0" "as1 ! j \<in> set as1" using j assms(2) by simp_all
    then show "\<exists>n. co_prts c2 (as0 ! j) = Some (dummy_port a0 n (if j < 0 then as1 ! j else NULL))"
      "\<exists>n. co_prts c2 (as1 ! j) = Some (dummy_port a1 n (if j < 0 then as0 ! j else NULL))"
      using c1(4) c2(3,4) d(5) by auto
  qed
  from connect_all [OF this, of "length as0"] obtain c3 where
    c3: "connect_ports a0 a1 0 (length as0) c2 = Some c3" "connected a0 as0 a1 as1 (length as0) c3"
      "co_devs c3 = co_devs c2" "dmx512_devices c3 = dmx512_devices c2" "dmx512_ports c3 = dmx512_ports c2"
      "free_framequeue c3 = free_framequeue c2" "dom (co_prts c3) = dom (co_prts c2)"
    using assms(1-6) by auto
  have "co_prts c2 NULL = None" using c1(3) c2(3) d(2,4) assms(11) by simp
  then show ?thesis
    using c1 c2 c3 assms(4,9,10) by (intro exI [of _ c3]) (auto simp: dmx512_dummy_driver_init_def cards_up_def)
qed

section \<open>Properties\<close>

text \<open>The core with a pool of sixteen frames and a card of two ports each.\<close>

definition demo_core :: core where
  "demo_core = snd (dmx512_core_init [21..<37] empty_core)"

lemma demo_core_sel:
  "free_framequeue demo_core = map (\<lambda>a. \<lparr>fqe_id = a, fqe_frame = zero_frame\<rparr>) [21..<37]"
  "dmx512_devices demo_core = []" "dmx512_ports demo_core = []" "co_prts demo_core = Map.empty"
proof -
  have "NULL \<notin> set as \<Longrightarrow>
    foldl (\<lambda>q a. if a = NULL then q else fq_put q \<lparr>fqe_id = a, fqe_frame = zero_frame\<rparr>) q0 as =
      q0 @ map (\<lambda>a. \<lparr>fqe_id = a, fqe_frame = zero_frame\<rparr>) as" for "as" q0
    by (induction "as" arbitrary: q0) (auto simp: fq_put_def)
  from this [of "[21..<37]" "[]"]
  show "free_framequeue demo_core = map (\<lambda>a. \<lparr>fqe_id = a, fqe_frame = zero_frame\<rparr>) [21..<37]"
    by (simp add: demo_core_def dmx512_core_init_def NULL_def del: upt_rec_numeral)
qed (simp_all add: demo_core_def dmx512_core_init_def empty_core_def)

text \<open>
  C22. The dummy cards are connected crosswise: after the driver is loaded, a frame written to port
  \<open>i\<close> of the first card is what a read from the second card returns, octet for octet, with the
  port number \<open>i\<close>, and the pool has all its frames again, the one used behind the others.
\<close>

theorem dummy_loopback:
  assumes "distinct (as0 @ as1)" and "length as1 = length as0" and "NULL \<notin> set (as0 @ as1)"
    and "a0 \<noteq> a1" and "a0 \<noteq> NULL" and "a1 \<noteq> NULL" and "0 \<le> err0" and "0 \<le> err1"
    and "dmx512_devices c = []" and "dmx512_ports c = []" and "co_prts c = Map.empty"
    and "free_framequeue c = e # q" and "unat (f_port fr) < length as0" and "sz \<ge> sizeof_dmx512frame"
  shows "\<exists>c1 c2 c3. dmx512_dummy_driver_init a0 err0 as0 a1 err1 as1 c = Some (0, (a0, a1), c1) \<and>
     dmx512_device_write dummy_call hs a0 sz (Some fr) c1 = Some (int sizeof_dmx512frame, c2) \<and>
     dmx512_device_read a1 nonblock sz True c2 =
       Some (ReadReturns (int sizeof_dmx512frame) (Some fr), c3) \<and>
     fq_ids (free_framequeue c3) = fq_ids q @ [fqe_id e]"
proof -
  obtain c1 where c1: "dmx512_dummy_driver_init a0 err0 as0 a1 err1 as1 c = Some (0, (a0, a1), c1)"
      "cards_up a0 as0 a1 as1 c1" "free_framequeue c1 = e # q"
      and rx: "\<forall>d \<in> {a0, a1}. \<exists>dv. co_devs c1 d = Some dv \<and> dv_rxframequeue dv = []"
    using dummy_init_spec [OF assms(1-11)] assms(12) by auto
  let ?i = "unat (f_port fr)" and ?e = "e\<lparr>fqe_frame := fr\<rparr>"
  note up = cards_up_wf [OF c1(2) assms(1,2,4-6)]
  have pa: "port_at c1 a0 ?i (as0 ! ?i)" "port_at c1 a1 ?i (as1 ! ?i)" using up(3) [OF assms(13)] by auto
  obtain nm where pt: "co_prts c1 (as0 ! ?i) = Some (dummy_port a0 nm (as1 ! ?i))"
    using cards_up_port(1) [OF c1(2) assms(13)] by blast
  obtain dv where dv: "co_devs c1 a1 = Some dv" "dv_rxframequeue dv = []" using rx by auto
  let ?c = "c1\<lparr>free_framequeue := q\<rparr>"
  define c2 where "c2 = ?c\<lparr>co_devs := (co_devs c1)(a1 \<mapsto> dv\<lparr>dv_rxframequeue := [?e]\<rparr>)\<rparr>"
  have fr: "fr\<lparr>f_port := f_port fr\<rparr> = fr" by simp
  have "dummy_call DUMMY_SEND (as0 ! ?i) ?e ?c = Some c2"
    using dummy_send_spec [of ?c a0 ?i "as0 ! ?i" "dummy_port a0 nm (as1 ! ?i)" a1 ?i dv ?e] up(1) pa pt dv fr
    by (simp add: dummy_port_def c2_def)
  then have w: "dmx512_device_write dummy_call hs a0 sz (Some fr) c1 = Some (int sizeof_dmx512frame, c2)"
    using dummy.write_to_port [OF up(1,2) c1(3) pa(1) refl assms(14) pt, of DUMMY_SEND]
    by (simp add: dummy_port_def)
  have wf2: "core_wf c2" unfolding c2_def using core_wf_rx_upd [of ?c a1 dv "[?e]"] up(1) dv(1) by simp
  obtain c3 where "device_read_get a1 True c2 = Some (ReadReturns (int sizeof_dmx512frame) (Some fr), c3)"
      "free_framequeue c3 = q @ [?e]"
    using device_read_get_spec [OF wf2, of a1 "dv\<lparr>dv_rxframequeue := [?e]\<rparr>" ?e "[]" True] c1(2)
    by (auto simp: c2_def cards_up_def)
  then have "dmx512_device_read a1 nonblock sz True c2 = Some (ReadReturns (int sizeof_dmx512frame) (Some fr), c3) \<and>
      fq_ids (free_framequeue c3) = fq_ids q @ [fqe_id e]"
    using assms(14) by (simp add: dmx512_device_read_def fq_isempty_def c2_def)
  then show ?thesis using c1(1) w by blast
qed

theorem dummy_loopback_witness:
  "\<exists>c1 c2 c3. dmx512_dummy_driver_init 1 0 [3, 4] 2 0 [5, 6] demo_core = Some (0, (1, 2), c1) \<and>
     dmx512_device_write dummy_call (\<lambda>_ _ _. True) 1 555 (Some (zero_frame\<lparr>f_port := 1\<rparr>)) c1 = Some (555, c2) \<and>
     dmx512_device_read 2 True 555 True c2 = Some (ReadReturns 555 (Some (zero_frame\<lparr>f_port := 1\<rparr>)), c3)"
proof -
  have free: "free_framequeue demo_core = \<lparr>fqe_id = 21, fqe_frame = zero_frame\<rparr> #
      map (\<lambda>a. \<lparr>fqe_id = a, fqe_frame = zero_frame\<rparr>) [22..<37]"
    by (simp add: demo_core_sel(1) upt_conv_Cons del: upt_rec_numeral)
  have a: "distinct ([3, 4] @ [5, 6 :: addr])" "length [5, 6 :: addr] = length [3, 4 :: addr]"
      "NULL \<notin> set ([3, 4] @ [5, 6])" "(1 :: addr) \<noteq> 2" "1 \<noteq> NULL" "2 \<noteq> NULL" "0 \<le> (0 :: int)" "0 \<le> (0 :: int)"
    by (simp_all add: NULL_def)
  have b: "unat (f_port (zero_frame\<lparr>f_port := 1\<rparr>)) < length [3, 4 :: addr]" "555 \<ge> sizeof_dmx512frame"
    by (simp_all add: sizeof_dmx512frame_def)
  show ?thesis
    using dummy_loopback [OF a demo_core_sel(2-4) free b, of "\<lambda>_ _ _. True" True]
    by (simp add: sizeof_dmx512frame_def) blast
qed

text \<open>Taking a frame for a reader leaves the cards connected.\<close>

lemma read_get_dummy:
  assumes "core_wf c" and "dummy_inv c" and "d \<in> set (dmx512_devices c)"
  shows "\<exists>n f c'. device_read_get d copied c = Some (ReadReturns n f, c') \<and> core_wf c' \<and> dummy_inv c' \<and>
     core_frames c' = core_frames c"
proof -
  obtain dv where dv: "co_devs c d = Some dv" using assms(1,3) by (auto simp: core_wf_def)
  show ?thesis
  proof (cases "dv_rxframequeue dv")
    case Nil
    then show ?thesis using dv assms(1,2) by (simp add: device_read_get_def fq_get_def)
  next
    case (Cons e q)
    obtain c' where c': "device_read_get d copied c =
         Some (if copied then ReadReturns (int sizeof_dmx512frame) (Some (fqe_frame e)) else ReadReturns 0 None, c')"
        "core_wf c'" "core_frames c' = core_frames c" "co_devs c' = (co_devs c)(d \<mapsto> dv\<lparr>dv_rxframequeue := q\<rparr>)"
        "dmx512_devices c' = dmx512_devices c" "co_prts c' = co_prts c"
      using device_read_get_spec [OF assms(1,3) dv Cons, of copied] by blast
    have "port_at c' d' i p = port_at c d' i p" for d' i p
      using c'(4,5) dv by (auto simp: port_at_def)
    then have "dummy_inv c'" using assms(2) c'(6) by (simp add: dummy_inv_def)
    then show ?thesis using c'(1-3) by (cases copied) auto
  qed
qed

text \<open>
  C23. The file operations of the core neither lose nor duplicate frames: with the dummy driver every
  write of a registered device returns; every read either returns, or waits when it may block, asks
  for enough octets and the receive queue is empty, which changes nothing; and the rest of a read that has
  waited returns whether or not a frame has come. Each of the three keeps the core well-formed and the cards
  connected, and leaves the same frames in the pool and the receive queues together.
\<close>

theorem core_file_operations_conserve:
  assumes "core_wf c" and "dummy_inv c" and "d \<in> set (dmx512_devices c)"
  shows "(\<exists>r c'. dmx512_device_write dummy_call hs d sz user c = Some (r, c') \<and> core_wf c' \<and> dummy_inv c' \<and>
       core_frames c' = core_frames c) \<and>
     (\<exists>r c'. dmx512_device_read d nonblock sz copied c = Some (r, c') \<and> core_wf c' \<and> dummy_inv c' \<and>
       core_frames c' = core_frames c \<and>
       (r = ReadWaits \<longleftrightarrow> \<not> nonblock \<and> sizeof_dmx512frame \<le> sz \<and>
          map_option dv_rxframequeue (co_devs c d) = Some []) \<and> (r = ReadWaits \<longrightarrow> c' = c)) \<and>
     (\<exists>n f c'. device_read_get d copied c = Some (ReadReturns n f, c') \<and> core_wf c' \<and> dummy_inv c' \<and>
       core_frames c' = core_frames c)"
proof -
  obtain dv where dv: "co_devs c d = Some dv" using assms(1,3) by (auto simp: core_wf_def)
  obtain n f c1 where g: "device_read_get d copied c = Some (ReadReturns n f, c1)" "core_wf c1" "dummy_inv c1"
      "core_frames c1 = core_frames c"
    using read_get_dummy [OF assms] by blast
  have "\<exists>r c'. dmx512_device_read d nonblock sz copied c = Some (r, c') \<and> core_wf c' \<and> dummy_inv c' \<and>
       core_frames c' = core_frames c \<and>
       (r = ReadWaits \<longleftrightarrow> \<not> nonblock \<and> sizeof_dmx512frame \<le> sz \<and>
          map_option dv_rxframequeue (co_devs c d) = Some []) \<and> (r = ReadWaits \<longrightarrow> c' = c)"
    using g dv assms(1,2)
    by (cases "dv_rxframequeue dv"; cases "sz < sizeof_dmx512frame"; cases nonblock)
       (simp_all add: dmx512_device_read_def fq_isempty_def)
  then show ?thesis using dummy.write_conserves [OF assms] g by blast
qed

lemma demo_cards:
  "\<exists>c. dmx512_dummy_driver_init 1 0 [3, 4] 2 0 [5, 6] demo_core = Some (0, (1, 2), c) \<and> core_wf c \<and> dummy_inv c \<and>
     dmx512_devices c = [2, 1] \<and> (\<exists>dv. co_devs c 1 = Some dv \<and> dv_ports dv = [3, 4])"
proof -
  have a: "distinct ([3, 4] @ [5, 6 :: addr])" "length [5, 6 :: addr] = length [3, 4 :: addr]"
      "NULL \<notin> set ([3, 4] @ [5, 6])" "(1 :: addr) \<noteq> 2" "1 \<noteq> NULL" "2 \<noteq> NULL" "0 \<le> (0 :: int)" "0 \<le> (0 :: int)"
    by (simp_all add: NULL_def)
  obtain c where c: "dmx512_dummy_driver_init 1 0 [3, 4] 2 0 [5, 6] demo_core = Some (0, (1, 2), c)"
      "cards_up 1 [3, 4] 2 [5, 6] c"
    using dummy_init_spec [OF a demo_core_sel(2-4)] by blast
  show ?thesis
    using c cards_up_wf [OF c(2) a(1,2,4-6)] by (auto simp: cards_up_def connected_def)
qed

theorem core_file_operations_conserve_witness:
  "\<exists>c. dmx512_dummy_driver_init 1 0 [3, 4] 2 0 [5, 6] demo_core = Some (0, (1, 2), c) \<and>
     (\<exists>r c'. dmx512_device_write dummy_call (\<lambda>_ _ _. True) 1 555 (Some zero_frame) c = Some (r, c') \<and>
        core_frames c' = core_frames c) \<and>
     (\<exists>r c'. dmx512_device_read 1 True 555 True c = Some (r, c') \<and> r \<noteq> ReadWaits \<and> dummy_inv c')"
proof -
  obtain c where c: "dmx512_dummy_driver_init 1 0 [3, 4] 2 0 [5, 6] demo_core = Some (0, (1, 2), c)"
      "core_wf c" "dummy_inv c" "dmx512_devices c = [2, 1]"
    using demo_cards by blast
  have "1 \<in> set (dmx512_devices c)" using c(4) by simp
  from core_file_operations_conserve [OF c(2,3) this, of "\<lambda>_ _ _. True" 555 "Some zero_frame" True True]
  show ?thesis using c(1) by blast
qed

text \<open>
  Port numbers and ports correspond: the port the core finds for index \<open>i\<close> of a registered
  device has index \<open>i\<close>, every port of the device is found under its index, and there is no port
  for a negative index or one at or above the number of ports.
\<close>

theorem port_index_inverse:
  assumes "core_wf c" and "d \<in> set (dmx512_devices c)" and "co_devs c d = Some dv"
  shows "(\<forall>i < length (dv_ports dv). dmx512_port_by_index d (int i) c = Some (dv_ports dv ! i) \<and>
       dmx512_port_index (dv_ports dv ! i) c = Some (int i)) \<and>
     (\<forall>k. k < 0 \<or> k \<ge> int (length (dv_ports dv)) \<longrightarrow> dmx512_port_by_index d k c = Some NULL)"
proof -
  have "port_at c d i (dv_ports dv ! i)" if "i < length (dv_ports dv)" for i
    using that assms by (simp add: port_at_def)
  moreover have "dmx512_port_by_index d k c = Some NULL" if "k < 0 \<or> k \<ge> int (length (dv_ports dv))" for k
    using that assms port_by_index_from_out [of k 0 "dv_ports dv"]
    by (auto simp: dmx512_port_by_index_def core_wf_def)
  ultimately show ?thesis using port_at_index [OF assms(1)] by blast
qed

theorem port_index_inverse_witness:
  "\<exists>c. dmx512_dummy_driver_init 1 0 [3, 4] 2 0 [5, 6] demo_core = Some (0, (1, 2), c) \<and>
     dmx512_port_by_index 1 1 c = Some 4 \<and> dmx512_port_index 4 c = Some 1 \<and>
     dmx512_port_by_index 1 2 c = Some NULL"
proof -
  obtain c dv where c: "dmx512_dummy_driver_init 1 0 [3, 4] 2 0 [5, 6] demo_core = Some (0, (1, 2), c)"
      "core_wf c" "dmx512_devices c = [2, 1]" "co_devs c 1 = Some dv" "dv_ports dv = [3, 4]"
    using demo_cards by blast
  have "1 \<in> set (dmx512_devices c)" using c(3) by simp
  note pi = port_index_inverse [OF c(2) this c(4), unfolded c(5)]
  have "dmx512_port_by_index 1 (int 1) c = Some ([3, 4] ! 1) \<and> dmx512_port_index ([3, 4] ! 1) c = Some (int 1)"
    using pi by (metis One_nat_def length_Cons lessI list.size(3))
  moreover have "dmx512_port_by_index 1 2 c = Some NULL" using pi by simp
  ultimately show ?thesis using c(1) by simp
qed

end
