(* ===== verification/Cuse_Dev.thy ===== *)
theory Cuse_Dev
  imports Framequeue "HOL-Library.Multiset"
begin

text \<open>
  The user space device (\<^verbatim>\<open>src/src/cuse-drivers/dmx512_cuse_dev.c\<close>): cards whose open files are
  contexts with port filters, a pending read, a poll handle and a queue of received frames, and one
  pool of frames for all cards.

  Requests and poll handles are numbers. The replies given to FUSE are the log of the state. What
  FUSE answers (whether a pending request was interrupted) and the operations of the card's driver
  are parameters. \<^term>\<open>None\<close> is undefined behaviour. The request's card is always there: the session is
  created with it.
\<close>

section \<open>State\<close>

type_synonym req = nat
type_synonym pollhandle = nat

record cuse_context =
  cx_in_use :: bool
  cx_nonblocking :: bool
  cx_port_mask :: u64
  cx_port_txmask :: u64
  cx_read_req :: "req option"
  cx_pollhandle :: "pollhandle option"
  cx_framequeue :: framequeue

definition DMX512_CUSE_CONTEXT_COUNT :: nat where "DMX512_CUSE_CONTEXT_COUNT = 32"

datatype iov = Iov addr nat

text \<open>The tuples of the information requests. The card and the port information have the same
  layout; \<open>in_number\<close> is the port count of the one and the port index of the other.\<close>

record dmx4linux2_key_value_tuple =
  kv_key :: u32
  kv_changable :: bool
  kv_maxlength :: "9 word"
  kv_value :: string

record dmx4linux2_info =
  in_card_index :: int
  in_number :: int
  in_tuple_count :: int
  in_tuples :: addr

datatype cuse_reply =
    ReplyErr req int
  | ReplyBuf req "dmx512frame option"
  | ReplyOpen req nat
  | ReplyWrite req nat
  | ReplyIoctl req "u64 option"
  | ReplyIoctlRetry req "iov list" "iov list"
  | ReplyIoctlIov req dmx4linux2_info "dmx4linux2_key_value_tuple list option"
  | ReplyPoll req u32
  | NotifyPoll pollhandle
  | DestroyPoll pollhandle

record cuse =
  cu_contexts :: "addr \<rightharpoonup> cuse_context list"
  cu_free :: framequeue
  cu_log :: "cuse_reply list"

definition reply :: "cuse_reply \<Rightarrow> cuse \<Rightarrow> cuse" where
  "reply r s = s\<lparr>cu_log := cu_log s @ [r]\<rparr>"

definition zero_context :: cuse_context where
  "zero_context = \<lparr>cx_in_use = False, cx_nonblocking = False, cx_port_mask = 0, cx_port_txmask = 0,
     cx_read_req = None, cx_pollhandle = None, cx_framequeue = []\<rparr>"

text \<open>The zeroed card that a session is created with.\<close>

definition dmx512_cuse_create_card :: "addr \<Rightarrow> cuse \<Rightarrow> cuse" where
  "dmx512_cuse_create_card crd s =
     s\<lparr>cu_contexts := (cu_contexts s)(crd \<mapsto> replicate DMX512_CUSE_CONTEXT_COUNT zero_context)\<rparr>"

section \<open>Contexts\<close>

definition dmx512_cuse_context_index_valid :: "int \<Rightarrow> bool" where
  "dmx512_cuse_context_index_valid index \<longleftrightarrow> index \<ge> 0 \<and> index < int DMX512_CUSE_CONTEXT_COUNT"

definition dmx512_cuse_context :: "addr \<Rightarrow> int \<Rightarrow> cuse \<Rightarrow> cuse_context option" where
  "dmx512_cuse_context crd index s = (
     if dmx512_cuse_context_index_valid index
     then do { cs \<leftarrow> cu_contexts s crd; arr_get cs (nat index) } else None)"

definition set_context :: "addr \<Rightarrow> nat \<Rightarrow> cuse_context \<Rightarrow> cuse \<Rightarrow> cuse" where
  "set_context crd i ctx s = s\<lparr>cu_contexts := (cu_contexts s)(crd :=
     map_option (\<lambda>cs. cs[i := ctx]) (cu_contexts s crd))\<rparr>"

fun free_context_from :: "cuse_context list \<Rightarrow> int \<Rightarrow> int" where
  "free_context_from [] i = -1"
| "free_context_from (ctx # cs) i = (if \<not> cx_in_use ctx then i else free_context_from cs (i + 1))"

definition dmx512_cuse_free_context_index :: "addr \<Rightarrow> cuse \<Rightarrow> int" where
  "dmx512_cuse_free_context_index crd s = (case cu_contexts s crd of
     None \<Rightarrow> -1 | Some cs \<Rightarrow> free_context_from cs 0)"

section \<open>Frames\<close>

definition cuse_get_frame :: "cuse \<Rightarrow> dmx512_framequeue_entry option \<times> cuse" where
  "cuse_get_frame s = (case fq_get (cu_free s) of (e, q) \<Rightarrow> (e, s\<lparr>cu_free := q\<rparr>))"

definition cuse_put_frame :: "dmx512_framequeue_entry \<Rightarrow> cuse \<Rightarrow> cuse" where
  "cuse_put_frame e s = s\<lparr>cu_free := fq_put (cu_free s) e\<rparr>"

text \<open>\<open>1 << port\<close> is a shift of a 32 bit \<open>int\<close> that is then widened: bit 31 extends into the upper
  half and larger shifts are undefined.\<close>

definition port_bit :: "u16 \<Rightarrow> u64 option" where
  "port_bit port = (let n = unat port in
     if n < 31 then Some (2 ^ n) else if n = 31 then Some 0xFFFFFFFF80000000 else None)"

text \<open>
  The body of the loop over the contexts: the context and the pool afterwards and the replies given.
  \<open>interrupted\<close> is \<open>fuse_req_interrupted\<close>.
\<close>

definition offer_ctx :: "(req \<Rightarrow> bool) \<Rightarrow> dmx512frame \<Rightarrow> cuse_context \<Rightarrow> framequeue \<Rightarrow>
    (cuse_context \<times> framequeue \<times> cuse_reply list) option" where
  "offer_ctx interrupted frame ctx free = (
     let (ctx, rs) = (case cx_read_req ctx of
           None \<Rightarrow> (ctx, [])
         | Some r \<Rightarrow> if interrupted r then (ctx\<lparr>cx_read_req := None\<rparr>, [ReplyErr r EINTR]) else (ctx, []));
         port_mask = (if has_flag (f_flags frame) DMX512_FLAGS_IS_TRANSMIT_FRAME
                      then cx_port_txmask ctx else cx_port_mask ctx)
     in
     if cx_in_use ctx \<and> unat (f_port frame) < 64 then do {
       b \<leftarrow> port_bit (f_port frame);
       if port_mask AND b \<noteq> 0 then
         Some (case cx_read_req ctx of
            Some r \<Rightarrow> (ctx\<lparr>cx_read_req := None\<rparr>, free, rs @ [ReplyBuf r (Some frame)])
          | None \<Rightarrow>
              (case cx_pollhandle ctx of
                 None \<Rightarrow> (ctx, free, rs)
               | Some ph \<Rightarrow>
                   (case fq_get free of
                      (None, free) \<Rightarrow> (ctx, free, rs @ [NotifyPoll ph])
                    | (Some e, free) \<Rightarrow>
                        (ctx\<lparr>cx_framequeue := fq_put (cx_framequeue ctx) (e\<lparr>fqe_frame := frame\<rparr>)\<rparr>, free,
                         rs @ [NotifyPoll ph]))))
       else Some (ctx, free, rs) }
     else Some (ctx, free, rs))"

definition offer_frame :: "(req \<Rightarrow> bool) \<Rightarrow> addr \<Rightarrow> dmx512frame \<Rightarrow> nat \<Rightarrow> cuse \<Rightarrow> cuse option" where
  "offer_frame interrupted crd frame i s = do {
     ctx \<leftarrow> dmx512_cuse_context crd (int i) s;
     (ctx, free, rs) \<leftarrow> offer_ctx interrupted frame ctx (cu_free s);
     Some (set_context crd i ctx (s\<lparr>cu_free := free, cu_log := cu_log s @ rs\<rparr>)) }"

fun offer_frame_to :: "(req \<Rightarrow> bool) \<Rightarrow> addr \<Rightarrow> dmx512frame \<Rightarrow> nat list \<Rightarrow> cuse \<Rightarrow> cuse option" where
  "offer_frame_to interrupted crd frame [] s = Some s"
| "offer_frame_to interrupted crd frame (i # is) s = do {
     s \<leftarrow> offer_frame interrupted crd frame i s;
     offer_frame_to interrupted crd frame is s }"

definition dmx512_cuse_handle_received_frame ::
  "(req \<Rightarrow> bool) \<Rightarrow> addr \<Rightarrow> dmx512frame \<Rightarrow> cuse \<Rightarrow> cuse option" where
  "dmx512_cuse_handle_received_frame interrupted crd frame s =
     offer_frame_to interrupted crd frame [0..<DMX512_CUSE_CONTEXT_COUNT] s"

section \<open>File operations\<close>

definition dmx512_cuse_open :: "req \<Rightarrow> addr \<Rightarrow> bool \<Rightarrow> cuse \<Rightarrow> cuse" where
  "dmx512_cuse_open req crd nonblock s = (
     let index = dmx512_cuse_free_context_index crd s in
     if index = -1 then reply (ReplyErr req ENOMEM) s
     else
       let ctx = zero_context\<lparr>cx_in_use := True, cx_port_mask := 0, cx_nonblocking := nonblock,
                    cx_framequeue := []\<rparr>
       in reply (ReplyOpen req (nat index)) (set_context crd (nat index) ctx s))"

definition dmx512_cuse_release :: "req \<Rightarrow> addr \<Rightarrow> int \<Rightarrow> cuse \<Rightarrow> cuse" where
  "dmx512_cuse_release req crd fh s = (case dmx512_cuse_context crd fh s of
     None \<Rightarrow> reply (ReplyErr req EINVAL) s
   | Some ctx \<Rightarrow>
       let ctx = ctx\<lparr>cx_in_use := False, cx_port_mask := 0,
                    cx_framequeue := fq_cleanup (cx_framequeue ctx)\<rparr>
       in reply (ReplyErr req 0) (set_context crd (nat fh) ctx s))"

text \<open>\<open>fi\<close> is \<^term>\<open>None\<close> for a null file info; the requested size is not looked at.\<close>

definition dmx512_cuse_read :: "req \<Rightarrow> addr \<Rightarrow> nat \<Rightarrow> int option \<Rightarrow> cuse \<Rightarrow> cuse" where
  "dmx512_cuse_read req crd sz fi s = (case fi of
     None \<Rightarrow> reply (ReplyErr req EINVAL) s
   | Some fh \<Rightarrow> (case dmx512_cuse_context crd fh s of
       None \<Rightarrow> reply (ReplyErr req EINVAL) s
     | Some ctx \<Rightarrow>
         (case fq_get (cx_framequeue ctx) of
            (Some e, q) \<Rightarrow>
              cuse_put_frame e (reply (ReplyBuf req (Some (fqe_frame e)))
                (set_context crd (nat fh) (ctx\<lparr>cx_framequeue := q\<rparr>) s))
          | (None, q) \<Rightarrow>
              if cx_nonblocking ctx then reply (ReplyBuf req None) s
              else
                let s = (case cx_read_req ctx of None \<Rightarrow> s | Some r \<Rightarrow> reply (ReplyErr r EINTR) s)
                in set_context crd (nat fh) (ctx\<lparr>cx_read_req := Some req\<rparr>) s)))"

text \<open>\<open>sendFrame\<close> is the operation of the card's driver.\<close>

definition dmx512_cuse_write ::
  "(req \<Rightarrow> bool) \<Rightarrow> (addr \<Rightarrow> dmx512frame \<Rightarrow> cuse \<Rightarrow> cuse option) \<Rightarrow>
   req \<Rightarrow> addr \<Rightarrow> dmx512frame \<Rightarrow> nat \<Rightarrow> int option \<Rightarrow> cuse \<Rightarrow> cuse option" where
  "dmx512_cuse_write interrupted sendFrame req crd buf sz fi s = (case fi of
     None \<Rightarrow> Some (reply (ReplyErr req EINVAL) s)
   | Some fh \<Rightarrow> (case dmx512_cuse_context crd fh s of
       None \<Rightarrow> Some (reply (ReplyErr req EINVAL) s)
     | Some ctx \<Rightarrow>
         if sz < sizeof_dmx512frame then Some (reply (ReplyErr req EINVAL) s)
         else do {
           let frame = buf\<lparr>f_flags := f_flags buf OR DMX512_FLAGS_IS_TRANSMIT_FRAME\<rparr>;
           s \<leftarrow> sendFrame crd frame s;
           s \<leftarrow> dmx512_cuse_handle_received_frame interrupted crd frame s;
           Some (reply (ReplyWrite req sz) s) }))"

definition CUSE_POLLIN :: u32 where "CUSE_POLLIN = 1"

definition dmx512_cuse_poll :: "req \<Rightarrow> addr \<Rightarrow> int \<Rightarrow> pollhandle option \<Rightarrow> cuse \<Rightarrow> cuse" where
  "dmx512_cuse_poll req crd fh ph s = (case dmx512_cuse_context crd fh s of
     None \<Rightarrow> reply (ReplyErr req EINVAL) s
   | Some ctx \<Rightarrow>
       let s = (case ph of
                  None \<Rightarrow> s
                | Some h \<Rightarrow>
                    let s = set_context crd (nat fh) (ctx\<lparr>cx_pollhandle := Some h\<rparr>) s in
                    (case cx_pollhandle ctx of None \<Rightarrow> s | Some oldph \<Rightarrow> reply (DestroyPoll oldph) s))
       in reply (ReplyPoll req (if fq_isempty (cx_framequeue ctx) then 0 else CUSE_POLLIN)) s)"

text \<open>Destroying a card ends its pending reads; the driver's clean-up is not modelled here.\<close>

fun interrupt_reads :: "addr \<Rightarrow> nat list \<Rightarrow> cuse \<Rightarrow> cuse" where
  "interrupt_reads crd [] s = s"
| "interrupt_reads crd (i # is) s = interrupt_reads crd is (case dmx512_cuse_context crd (int i) s of
     None \<Rightarrow> s
   | Some ctx \<Rightarrow>
       (case cx_read_req ctx of
          None \<Rightarrow> s
        | Some r \<Rightarrow> set_context crd i (ctx\<lparr>cx_read_req := None\<rparr>) (reply (ReplyErr r EINTR) s)))"

definition dmx512_cuse_destroy :: "addr \<Rightarrow> cuse \<Rightarrow> cuse" where
  "dmx512_cuse_destroy crd s = (
     let s = interrupt_reads crd [0..<DMX512_CUSE_CONTEXT_COUNT] s
     in s\<lparr>cu_contexts := (cu_contexts s)(crd := None)\<rparr>)"

text \<open>Loading: \<open>allocs\<close> are the addresses of the 8192 frames, 0 where an allocation fails.\<close>

definition CUSE_POOL_SIZE :: nat where "CUSE_POOL_SIZE = 32 * 32 * 2 * 4"

definition cuse_core_init :: "addr list \<Rightarrow> cuse \<Rightarrow> cuse" where
  "cuse_core_init allocs s = s\<lparr>cu_free :=
     foldl (\<lambda>q a. if a = NULL then q else fq_put q \<lparr>fqe_id = a, fqe_frame = zero_frame\<rparr>) []
       (take CUSE_POOL_SIZE allocs)\<rparr>"

definition cuse_core_exit :: "cuse \<Rightarrow> cuse" where
  "cuse_core_exit s = s\<lparr>cu_free := fq_cleanup (cu_free s)\<rparr>"

section \<open>Requests for information\<close>

definition sizeof_info :: nat where "sizeof_info = 24"
definition sizeof_pointer :: nat where "sizeof_pointer = 8"
definition sizeof_tuple :: nat where "sizeof_tuple = 264"

text \<open>\<open>tuple_count * sizeof(struct dmx4linux2_key_value_tuple)\<close> as a \<open>size_t\<close>.\<close>

definition tuples_len :: "dmx4linux2_info \<Rightarrow> nat" where
  "tuples_len ci = nat ((in_tuple_count ci * int sizeof_tuple) mod 2 ^ 64)"

text \<open>
  A query asks the caller's kernel for the structure, then for the tuples it points to and room for
  the answer, and then hands both to the driver's \<open>query\<close>, which changes them or fails. \<open>tuples_in\<close>
  are the tuples behind the structure, \<open>malloc_ok\<close> says whether their copy can be allocated.
\<close>

definition cuse_query_info ::
  "(dmx4linux2_info \<Rightarrow> dmx4linux2_key_value_tuple list option \<Rightarrow>
     int \<times> dmx4linux2_info \<times> dmx4linux2_key_value_tuple list option) \<Rightarrow> bool \<Rightarrow>
   req \<Rightarrow> addr \<Rightarrow> nat \<Rightarrow> dmx4linux2_info \<Rightarrow> dmx4linux2_key_value_tuple list \<Rightarrow> nat \<Rightarrow> cuse \<Rightarrow> cuse" where
  "cuse_query_info query malloc_ok req adr in_bufsz ci tuples_in out_bufsz s = (
     let tuple_iov = (if in_tuples ci \<noteq> NULL then [Iov (in_tuples ci) (tuples_len ci)] else []) in
     if in_bufsz = 0 then reply (ReplyIoctlRetry req [Iov adr sizeof_info] []) s
     else if out_bufsz = 0 then
       reply (ReplyIoctlRetry req (Iov adr sizeof_info # tuple_iov)
                (Iov adr (sizeof_info - sizeof_pointer) # tuple_iov)) s
     else
       let tuples = (if in_tuples ci \<noteq> NULL \<and> malloc_ok then Some tuples_in else None) in
       (case query ci tuples of
          (r, out, tuples) \<Rightarrow>
            if r \<noteq> 0 then reply (ReplyErr req EINVAL) s
            else reply (ReplyIoctlIov req out (if in_tuples ci \<noteq> NULL then tuples else None)) s))"

definition dmx512_cuse_query_card_info where
  "dmx512_cuse_query_card_info queryCardInfo malloc_ok req adr in_bufsz ci tuples_in out_bufsz s =
     cuse_query_info (case queryCardInfo of None \<Rightarrow> (\<lambda>ci t. (EINVAL, ci, t)) | Some q \<Rightarrow> q)
       malloc_ok req adr in_bufsz ci tuples_in out_bufsz s"

definition dmx512_cuse_query_port_info where
  "dmx512_cuse_query_port_info queryPortInfo malloc_ok req adr in_bufsz pi tuples_in out_bufsz s =
     cuse_query_info (case queryPortInfo of None \<Rightarrow> (\<lambda>pi t. (EINVAL, pi, t)) | Some q \<Rightarrow> (\<lambda>pi t. q pi t (in_number pi)))
       malloc_ok req adr in_bufsz pi tuples_in out_bufsz s"

text \<open>A change asks for the structure, then for its tuples, and hands them to the driver.\<close>

definition cuse_change_info ::
  "(dmx4linux2_info \<Rightarrow> dmx4linux2_key_value_tuple list \<Rightarrow> int) \<Rightarrow>
   req \<Rightarrow> addr \<Rightarrow> nat \<Rightarrow> dmx4linux2_info \<Rightarrow> dmx4linux2_key_value_tuple list \<Rightarrow> cuse \<Rightarrow> cuse" where
  "cuse_change_info change req adr in_bufsz ci tuples_in s = (
     if in_bufsz = 0 then reply (ReplyIoctlRetry req [Iov adr sizeof_info] []) s
     else if in_tuple_count ci > 0 \<and> in_bufsz - sizeof_info = 0 then
       reply (ReplyIoctlRetry req [Iov adr sizeof_info, Iov (in_tuples ci) (tuples_len ci)] []) s
     else if change ci tuples_in \<noteq> 0 then reply (ReplyErr req EINVAL) s
     else reply (ReplyIoctl req None) s)"

definition dmx512_cuse_change_card_info where
  "dmx512_cuse_change_card_info changeCardInfo req adr in_bufsz ci tuples_in s =
     cuse_change_info (case changeCardInfo of None \<Rightarrow> (\<lambda>ci t. EINVAL) | Some c \<Rightarrow> c)
       req adr in_bufsz ci tuples_in s"

definition dmx512_cuse_change_port_info where
  "dmx512_cuse_change_port_info changePortInfo req adr in_bufsz pi tuples_in s =
     cuse_change_info (case changePortInfo of None \<Rightarrow> (\<lambda>pi t. EINVAL) | Some c \<Rightarrow> (\<lambda>pi t. c pi t (in_number pi)))
       req adr in_bufsz pi tuples_in s"

section \<open>The ioctl\<close>

definition DMX4LINUX2_VERSION :: u64 where "DMX4LINUX2_VERSION = 0x30000"

datatype ioctl_cmd =
    DMX512_IOCTL_VERSION | DMX512_IOCTL_SET_PORT_FILTER | DMX512_IOCTL_GET_PORT_FILTER
  | DMX512_IOCTL_SET_PORT_TXFILTER | DMX512_IOCTL_GET_PORT_TXFILTER
  | DMX512_IOCTL_QUERY_CARD_INFO | DMX512_IOCTL_CHANGE_CARD_INFO
  | DMX512_IOCTL_QUERY_PORT_INFO | DMX512_IOCTL_CHANGE_PORT_INFO | UnknownIoctl nat

text \<open>The driver's operations that the information requests call.\<close>

record cuse_info_ops =
  op_queryCardInfo :: "(dmx4linux2_info \<Rightarrow> dmx4linux2_key_value_tuple list option \<Rightarrow>
     int \<times> dmx4linux2_info \<times> dmx4linux2_key_value_tuple list option) option"
  op_changeCardInfo :: "(dmx4linux2_info \<Rightarrow> dmx4linux2_key_value_tuple list \<Rightarrow> int) option"
  op_queryPortInfo :: "(dmx4linux2_info \<Rightarrow> dmx4linux2_key_value_tuple list option \<Rightarrow> int \<Rightarrow>
     int \<times> dmx4linux2_info \<times> dmx4linux2_key_value_tuple list option) option"
  op_changePortInfo :: "(dmx4linux2_info \<Rightarrow> dmx4linux2_key_value_tuple list \<Rightarrow> int \<Rightarrow> int) option"

text \<open>The input of an ioctl: a number for the filters, a structure with its tuples otherwise.\<close>

record ioctl_input =
  io_value :: u64
  io_info :: dmx4linux2_info
  io_tuples :: "dmx4linux2_key_value_tuple list"

definition dmx512_cuse_ioctl ::
  "cuse_info_ops \<Rightarrow> bool \<Rightarrow> req \<Rightarrow> addr \<Rightarrow> ioctl_cmd \<Rightarrow> addr \<Rightarrow> int \<Rightarrow> ioctl_input \<Rightarrow> nat \<Rightarrow> nat \<Rightarrow> cuse \<Rightarrow> cuse" where
  "dmx512_cuse_ioctl ops malloc_ok req crd cmd arg fh inp in_bufsz out_bufsz s =
    (case dmx512_cuse_context crd fh s of
       None \<Rightarrow> reply (ReplyErr req EINVAL) s
     | Some ctx \<Rightarrow>
        (case cmd of
           DMX512_IOCTL_VERSION \<Rightarrow>
             if out_bufsz = 0 then reply (ReplyIoctlRetry req [] [Iov arg 8]) s
             else reply (ReplyIoctl req (Some DMX4LINUX2_VERSION)) s
         | DMX512_IOCTL_SET_PORT_FILTER \<Rightarrow>
             if in_bufsz = 0 then reply (ReplyIoctlRetry req [Iov arg 8] []) s
             else reply (ReplyIoctl req None)
                    (set_context crd (nat fh) (ctx\<lparr>cx_port_mask := io_value inp\<rparr>) s)
         | DMX512_IOCTL_GET_PORT_FILTER \<Rightarrow>
             if out_bufsz = 0 then reply (ReplyIoctlRetry req [] [Iov arg 8]) s
             else reply (ReplyIoctl req (Some (cx_port_mask ctx))) s
         | DMX512_IOCTL_SET_PORT_TXFILTER \<Rightarrow>
             if in_bufsz = 0 then reply (ReplyIoctlRetry req [Iov arg 8] []) s
             else reply (ReplyIoctl req None)
                    (set_context crd (nat fh) (ctx\<lparr>cx_port_txmask := io_value inp\<rparr>) s)
         | DMX512_IOCTL_GET_PORT_TXFILTER \<Rightarrow>
             if out_bufsz = 0 then reply (ReplyIoctlRetry req [] [Iov arg 8]) s
             else reply (ReplyIoctl req (Some (cx_port_txmask ctx))) s
         | DMX512_IOCTL_QUERY_CARD_INFO \<Rightarrow>
             dmx512_cuse_query_card_info (op_queryCardInfo ops) malloc_ok req arg in_bufsz (io_info inp)
               (io_tuples inp) out_bufsz s
         | DMX512_IOCTL_CHANGE_CARD_INFO \<Rightarrow>
             dmx512_cuse_change_card_info (op_changeCardInfo ops) req arg in_bufsz (io_info inp) (io_tuples inp) s
         | DMX512_IOCTL_QUERY_PORT_INFO \<Rightarrow>
             dmx512_cuse_query_port_info (op_queryPortInfo ops) malloc_ok req arg in_bufsz (io_info inp)
               (io_tuples inp) out_bufsz s
         | DMX512_IOCTL_CHANGE_PORT_INFO \<Rightarrow>
             dmx512_cuse_change_port_info (op_changePortInfo ops) req arg in_bufsz (io_info inp) (io_tuples inp) s
         | UnknownIoctl n \<Rightarrow> reply (ReplyErr req EINVAL) s))"

section \<open>File descriptor watchers\<close>

record fdwatcher =
  fw_fd :: int
  fw_callback :: nat
  fw_user :: addr

record fdwatchers =
  g_fdwatchers :: "fdwatcher list"
  g_num_fdwatchers :: nat

definition MAX_FD_WATCHERS :: nat where "MAX_FD_WATCHERS = 256"

text \<open>The zeroed array the program starts with.\<close>

definition zero_fdwatchers :: fdwatchers where
  "zero_fdwatchers = \<lparr>g_fdwatchers = replicate MAX_FD_WATCHERS \<lparr>fw_fd = 0, fw_callback = 0, fw_user = NULL\<rparr>,
     g_num_fdwatchers = 0\<rparr>"

text \<open>The loop's condition does not involve its counter: it runs past the end of the array.\<close>

fun find_fd_from :: "fdwatcher list \<Rightarrow> int \<Rightarrow> int \<Rightarrow> int option" where
  "find_fd_from [] fd i = None"
| "find_fd_from (w # ws) fd i = (if fw_fd w = fd then Some i else find_fd_from ws fd (i + 1))"

definition dmx512_cuse_fdwatcher_find_fd :: "int \<Rightarrow> fdwatchers \<Rightarrow> int option" where
  "dmx512_cuse_fdwatcher_find_fd fd g =
     (if g_num_fdwatchers g < MAX_FD_WATCHERS then find_fd_from (g_fdwatchers g) fd 0 else Some (-1))"

definition dmx512_cuse_fdwatcher_add :: "fdwatcher \<Rightarrow> fdwatchers \<Rightarrow> (int \<times> fdwatchers) option" where
  "dmx512_cuse_fdwatcher_add w g = do {
     i \<leftarrow> dmx512_cuse_fdwatcher_find_fd (fw_fd w) g;
     if i \<noteq> -1 then Some (- EINVAL, g)
     else do {
       first_free_entry \<leftarrow> dmx512_cuse_fdwatcher_find_fd (-1) g;
       if first_free_entry < 0 then Some (- ENOMEM, g)
       else do {
         ws \<leftarrow> arr_set (g_fdwatchers g) (nat first_free_entry) w;
         Some (0, g\<lparr>g_fdwatchers := ws,
                  g_num_fdwatchers := max (nat first_free_entry + 1) (g_num_fdwatchers g)\<rparr>) } } }"

definition dmx512_cuse_fdwatcher_remove :: "fdwatcher \<Rightarrow> fdwatchers \<Rightarrow> (int \<times> fdwatchers) option" where
  "dmx512_cuse_fdwatcher_remove w g = do {
     i \<leftarrow> dmx512_cuse_fdwatcher_find_fd (fw_fd w) g;
     if i < 0 then Some (- EINVAL, g)
     else do {
       ws \<leftarrow> arr_set (g_fdwatchers g) (nat i) \<lparr>fw_fd = -1, fw_callback = 0, fw_user = NULL\<rparr>;
       Some (0, g\<lparr>g_fdwatchers := ws\<rparr>) } }"

section \<open>Accounting for frames and readers\<close>

text \<open>Every card has its 32 contexts.\<close>

definition cuse_wf :: "cuse \<Rightarrow> bool" where
  "cuse_wf s \<longleftrightarrow> (\<forall>c cs. cu_contexts s c = Some cs \<longrightarrow> length cs = DMX512_CUSE_CONTEXT_COUNT)"

definition ctx_frames :: "cuse_context \<Rightarrow> addr multiset" where
  "ctx_frames ctx = mset (fq_ids (cx_framequeue ctx))"

definition ctx_pending :: "cuse_context \<Rightarrow> req multiset" where
  "ctx_pending ctx = (case cx_read_req ctx of None \<Rightarrow> {#} | Some r \<Rightarrow> {#r#})"

text \<open>The frames of a card and of the pool, and the readers of a card that were answered or still
  wait.\<close>

definition card_frames :: "addr \<Rightarrow> cuse \<Rightarrow> addr multiset" where
  "card_frames crd s = mset (fq_ids (cu_free s)) +
     sum_list (map ctx_frames (the_default [] (cu_contexts s crd)))"

fun answered1 :: "cuse_reply \<Rightarrow> req multiset" where
  "answered1 (ReplyErr r e) = {#r#}"
| "answered1 (ReplyBuf r f) = {#r#}"
| "answered1 (ReplyOpen r i) = {#r#}"
| "answered1 (ReplyWrite r n) = {#r#}"
| "answered1 (ReplyIoctl r v) = {#r#}"
| "answered1 (ReplyIoctlRetry r i j) = {#r#}"
| "answered1 (ReplyIoctlIov r i t) = {#r#}"
| "answered1 (ReplyPoll r m) = {#r#}"
| "answered1 (NotifyPoll h) = {#}"
| "answered1 (DestroyPoll h) = {#}"

definition card_readers :: "addr \<Rightarrow> cuse \<Rightarrow> req multiset" where
  "card_readers crd s = sum_list (map answered1 (cu_log s)) +
     sum_list (map ctx_pending (the_default [] (cu_contexts s crd)))"

lemma reply_sel [simp]:
  "cu_contexts (reply r s) = cu_contexts s" "cu_free (reply r s) = cu_free s"
  "cu_log (reply r s) = cu_log s @ [r]"
  by (simp_all add: reply_def)

lemma set_context_sel [simp]:
  "cu_contexts (set_context crd i ctx s) = (cu_contexts s)(crd := map_option (\<lambda>cs. cs[i := ctx]) (cu_contexts s crd))"
  "cu_free (set_context crd i ctx s) = cu_free s" "cu_log (set_context crd i ctx s) = cu_log s"
  by (simp_all add: set_context_def)

lemma context_Some:
  assumes "dmx512_cuse_context crd fh s = Some ctx"
  obtains cs where "cu_contexts s crd = Some cs" "nat fh < length cs" "cs ! nat fh = ctx" "0 \<le> fh"
    "nat fh < DMX512_CUSE_CONTEXT_COUNT"
  using assms
  by (auto simp: dmx512_cuse_context_def dmx512_cuse_context_index_valid_def arr_get_def bind_eq_Some
      split: if_splits)

lemma context_index:
  assumes "cu_contexts s crd = Some cs" and "i < length cs" and "i < DMX512_CUSE_CONTEXT_COUNT"
  shows "dmx512_cuse_context crd (int i) s = Some (cs ! i)"
  using assms by (simp add: dmx512_cuse_context_def dmx512_cuse_context_index_valid_def arr_get_def)

text \<open>Replacing one context.\<close>

lemma card_upd:
  assumes "cu_contexts s crd = Some cs" and "i < length cs" and "cu_contexts s' = (cu_contexts s)(crd \<mapsto> cs[i := ctx])"
    and "mset (fq_ids (cu_free s')) + ctx_frames ctx = mset (fq_ids (cu_free s)) + ctx_frames (cs ! i)"
    and "sum_list (map answered1 (cu_log s')) + ctx_pending ctx =
         sum_list (map answered1 (cu_log s)) + ctx_pending (cs ! i) + extra"
  shows "card_frames crd s' = card_frames crd s" and "card_readers crd s' = card_readers crd s + extra"
proof -
  show "card_frames crd s' = card_frames crd s"
    using exchange_sums [OF sum_list_map_update [OF assms(2), of ctx_frames ctx] assms(4)] assms(1,3)
    by (simp add: card_frames_def)
  have "sum_list (map answered1 (cu_log s')) + ctx_pending ctx =
      (sum_list (map answered1 (cu_log s)) + extra) + ctx_pending (cs ! i)"
    using assms(5) by (simp add: ac_simps)
  from exchange_sums [OF sum_list_map_update [OF assms(2), of ctx_pending ctx] this]
  show "card_readers crd s' = card_readers crd s + extra"
    using assms(1,3) by (simp add: card_readers_def ac_simps)
qed

text \<open>What one pass of the loop does to its context; the rest of the card stays.\<close>

lemma offer_ctx_conserves:
  assumes "offer_ctx intr fr ctx free = Some (ctx', free', rs)"
  shows "mset (fq_ids free') + ctx_frames ctx' = mset (fq_ids free) + ctx_frames ctx"
    and "sum_list (map answered1 rs) + ctx_pending ctx' = ctx_pending ctx"
  using assms
  by (auto simp: offer_ctx_def Let_def ctx_frames_def ctx_pending_def bind_eq_Some fq_get_def fq_put_def
      split: option.splits if_splits list.splits)

lemma offer_frame_effect:
  assumes "offer_frame intr crd fr i s = Some s'" and "cu_contexts s crd = Some cs"
    and "i < length cs" and "i < DMX512_CUSE_CONTEXT_COUNT"
  shows "\<exists>ctx. cu_contexts s' = (cu_contexts s)(crd \<mapsto> cs[i := ctx]) \<and>
     mset (fq_ids (cu_free s')) + ctx_frames ctx = mset (fq_ids (cu_free s)) + ctx_frames (cs ! i) \<and>
     sum_list (map answered1 (cu_log s')) + ctx_pending ctx =
       sum_list (map answered1 (cu_log s)) + ctx_pending (cs ! i)"
proof -
  obtain ctx free rs where c: "offer_ctx intr fr (cs ! i) (cu_free s) = Some (ctx, free, rs)"
      and s': "s' = set_context crd i ctx (s\<lparr>cu_free := free, cu_log := cu_log s @ rs\<rparr>)"
    using assms context_index [OF assms(2-4)] by (auto simp: offer_frame_def bind_eq_Some)
  show ?thesis
    using offer_ctx_conserves [OF c] assms(2) unfolding s'
    by (intro exI [of _ ctx]) (simp add: add.assoc)
qed

lemma offer_frame_conserves:
  assumes "offer_frame intr crd fr i s = Some s'" and "cu_contexts s crd = Some cs"
    and "length cs = DMX512_CUSE_CONTEXT_COUNT" and "i < DMX512_CUSE_CONTEXT_COUNT"
  shows "card_frames crd s' = card_frames crd s" and "card_readers crd s' = card_readers crd s"
    and "\<exists>cs'. cu_contexts s' = (cu_contexts s)(crd \<mapsto> cs') \<and> length cs' = DMX512_CUSE_CONTEXT_COUNT \<and>
       (\<forall>j < DMX512_CUSE_CONTEXT_COUNT. j \<noteq> i \<longrightarrow> cs' ! j = cs ! j)"
proof -
  have i: "i < length cs" using assms(3,4) by simp
  obtain ctx where ctx: "cu_contexts s' = (cu_contexts s)(crd \<mapsto> cs[i := ctx])"
      "mset (fq_ids (cu_free s')) + ctx_frames ctx = mset (fq_ids (cu_free s)) + ctx_frames (cs ! i)"
      "sum_list (map answered1 (cu_log s')) + ctx_pending ctx =
       sum_list (map answered1 (cu_log s)) + ctx_pending (cs ! i) + {#}"
    using offer_frame_effect [OF assms(1,2) i assms(4)] by auto
  show "card_frames crd s' = card_frames crd s" "card_readers crd s' = card_readers crd s"
    using card_upd [OF assms(2) i ctx] by simp_all
  show "\<exists>cs'. cu_contexts s' = (cu_contexts s)(crd \<mapsto> cs') \<and> length cs' = DMX512_CUSE_CONTEXT_COUNT \<and>
       (\<forall>j < DMX512_CUSE_CONTEXT_COUNT. j \<noteq> i \<longrightarrow> cs' ! j = cs ! j)"
    using ctx(1) assms(3) by (intro exI [of _ "cs[i := ctx]"]) simp
qed

lemma offer_frame_to_conserves:
  assumes "offer_frame_to intr crd fr is s = Some s'" and "cu_contexts s crd = Some cs"
    and "length cs = DMX512_CUSE_CONTEXT_COUNT" and "set is \<subseteq> {..<DMX512_CUSE_CONTEXT_COUNT}"
  shows "card_frames crd s' = card_frames crd s \<and> card_readers crd s' = card_readers crd s \<and>
    (\<exists>cs'. cu_contexts s' = (cu_contexts s)(crd \<mapsto> cs') \<and> length cs' = DMX512_CUSE_CONTEXT_COUNT \<and>
       (\<forall>j < DMX512_CUSE_CONTEXT_COUNT. j \<notin> set is \<longrightarrow> cs' ! j = cs ! j))"
  using assms
proof (induction "is" arbitrary: s cs)
  case Nil
  then show ?case by (auto intro!: exI [of _ cs] simp: fun_upd_idem)
next
  case (Cons i "is")
  obtain s1 where s1: "offer_frame intr crd fr i s = Some s1" "offer_frame_to intr crd fr is s1 = Some s'"
    using Cons.prems(1) by (auto simp: bind_eq_Some)
  have i: "i < DMX512_CUSE_CONTEXT_COUNT" using Cons.prems(4) by simp
  obtain cs1 where cs1: "cu_contexts s1 = (cu_contexts s)(crd \<mapsto> cs1)" "length cs1 = DMX512_CUSE_CONTEXT_COUNT"
      "\<forall>j < DMX512_CUSE_CONTEXT_COUNT. j \<noteq> i \<longrightarrow> cs1 ! j = cs ! j"
    using offer_frame_conserves(3) [OF s1(1) Cons.prems(2,3) i] by blast
  have "cu_contexts s1 crd = Some cs1" using cs1(1) by simp
  note ih = Cons.IH [OF s1(2) this cs1(2)]
  obtain cs' where cs': "cu_contexts s' = (cu_contexts s1)(crd \<mapsto> cs')" "length cs' = DMX512_CUSE_CONTEXT_COUNT"
      "\<forall>j < DMX512_CUSE_CONTEXT_COUNT. j \<notin> set is \<longrightarrow> cs' ! j = cs1 ! j"
    using ih Cons.prems(4) by (simp del: fun_upd_apply) blast
  have "cu_contexts s' = (cu_contexts s)(crd \<mapsto> cs')" using cs'(1) cs1(1) by simp
  then show ?case
    using ih Cons.prems(4) offer_frame_conserves(1,2) [OF s1(1) Cons.prems(2,3) i] cs'(2,3) cs1(3)
    by (intro conjI exI [of _ cs']) simp_all
qed

lemma offer_frame_to_log: "offer_frame_to intr crd fr is s = Some s' \<Longrightarrow> \<exists>xs. cu_log s' = cu_log s @ xs"
proof (induction "is" arbitrary: s)
  case (Cons i "is")
  then obtain s1 where s1: "offer_frame intr crd fr i s = Some s1" "offer_frame_to intr crd fr is s1 = Some s'"
    by (auto simp: bind_eq_Some)
  have "\<exists>xs. cu_log s1 = cu_log s @ xs" using s1(1) by (auto simp: offer_frame_def bind_eq_Some)
  then show ?case using Cons.IH [OF s1(2)] by auto
qed simp

text \<open>The context of an open file that reads a frame it is given.\<close>

lemma offer_frame_at:
  assumes "offer_frame_to intr crd fr is s = Some s'" and "cu_contexts s crd = Some cs"
    and "length cs = DMX512_CUSE_CONTEXT_COUNT" and "set is \<subseteq> {..<DMX512_CUSE_CONTEXT_COUNT}"
    and "i \<in> set is" and "distinct is"
  shows "\<exists>free ctx free' rs cs'. offer_ctx intr fr (cs ! i) free = Some (ctx, free', rs) \<and>
     cu_contexts s' crd = Some cs' \<and> cs' ! i = ctx \<and> (\<exists>xs ys. cu_log s' = cu_log s @ xs @ rs @ ys)"
  using assms
proof (induction "is" arbitrary: s cs)
  case (Cons k "is")
  obtain s1 where s1: "offer_frame intr crd fr k s = Some s1" "offer_frame_to intr crd fr is s1 = Some s'"
    using Cons.prems(1) by (auto simp: bind_eq_Some)
  have k: "k < length cs" "k < DMX512_CUSE_CONTEXT_COUNT" using Cons.prems(3,4) by simp_all
  obtain ctx free' rs where c: "offer_ctx intr fr (cs ! k) (cu_free s) = Some (ctx, free', rs)"
      "s1 = set_context crd k ctx (s\<lparr>cu_free := free', cu_log := cu_log s @ rs\<rparr>)"
    using s1(1) context_index [OF Cons.prems(2) k] by (auto simp: offer_frame_def bind_eq_Some)
  have cs1: "cu_contexts s1 crd = Some (cs[k := ctx])" "length (cs[k := ctx]) = DMX512_CUSE_CONTEXT_COUNT"
      "cu_log s1 = cu_log s @ rs"
    using c(2) Cons.prems(2,3) by simp_all
  have log: "\<exists>xs. cu_log s' = cu_log s1 @ xs"
    using s1(2) by (rule offer_frame_to_log)
  show ?case
  proof (cases "i = k")
    case True
    then have "i \<notin> set is" using Cons.prems(6) by simp
    then obtain cs' where "cu_contexts s' crd = Some cs'" "cs' ! i = cs[k := ctx] ! i"
      using offer_frame_to_conserves [OF s1(2) cs1(1,2)] Cons.prems(4) k True by auto
    moreover obtain ys where "cu_log s' = cu_log s @ [] @ rs @ ys" using log cs1(3) by auto
    ultimately show ?thesis using c(1) True k by fastforce
  next
    case False
    then have "i \<in> set is" "distinct is" "set is \<subseteq> {..<DMX512_CUSE_CONTEXT_COUNT}"
      using Cons.prems(4-6) by simp_all
    from Cons.IH [OF s1(2) cs1(1,2) this(3,1,2)] obtain fr0 ctx1 fr1 rs1 cs' xs ys where
      r: "offer_ctx intr fr (cs ! i) fr0 = Some (ctx1, fr1, rs1)" "cu_contexts s' crd = Some cs'" "cs' ! i = ctx1"
        "cu_log s' = cu_log s1 @ xs @ rs1 @ ys"
      using False by auto
    have "cu_log s' = cu_log s @ (rs @ xs) @ rs1 @ ys" using r(4) cs1(3) by simp
    then show ?thesis using r(1-3) by blast
  qed
qed simp

lemma port_bit_defined: "unat port < 32 \<Longrightarrow> \<exists>b. port_bit port = Some b"
  by (auto simp: port_bit_def Let_def)

lemma offer_ctx_total:
  assumes "unat (f_port fr) < 32"
  shows "\<exists>r. offer_ctx intr fr ctx free = Some r"
proof -
  obtain b where "port_bit (f_port fr) = Some b" using port_bit_defined [OF assms] by blast
  then have "offer_ctx intr fr ctx free \<noteq> None"
    by (simp add: offer_ctx_def Let_def split: prod.split del: not_None_eq)
  then show ?thesis by blast
qed

lemma offer_frame_to_total:
  assumes "unat (f_port fr) < 32" and "cu_contexts s crd = Some cs" and "length cs = DMX512_CUSE_CONTEXT_COUNT"
    and "set is \<subseteq> {..<DMX512_CUSE_CONTEXT_COUNT}"
  shows "\<exists>s'. offer_frame_to intr crd fr is s = Some s'"
  using assms(2-4)
proof (induction "is" arbitrary: s cs)
  case (Cons i "is")
  have i: "i < length cs" "i < DMX512_CUSE_CONTEXT_COUNT" using Cons.prems(2,3) by simp_all
  obtain ctx free rs where "offer_ctx intr fr (cs ! i) (cu_free s) = Some (ctx, free, rs)"
    using offer_ctx_total [OF assms(1), of intr "cs ! i" "cu_free s"] by (metis prod_cases3)
  then obtain s1 where s1: "offer_frame intr crd fr i s = Some s1" "cu_contexts s1 crd = Some (cs[i := ctx])"
    using context_index [OF Cons.prems(1) i] Cons.prems(1) by (simp add: offer_frame_def)
  then show ?case using Cons.IH [OF s1(2)] Cons.prems(2,3) by simp
qed simp

lemma handle_received_ok:
  assumes "cuse_wf s" and "cu_contexts s crd = Some cs" and "unat (f_port fr) < 32"
  shows "\<exists>s'. dmx512_cuse_handle_received_frame intr crd fr s = Some s' \<and> cuse_wf s' \<and>
     card_frames crd s' = card_frames crd s \<and> card_readers crd s' = card_readers crd s"
proof -
  have len: "length cs = DMX512_CUSE_CONTEXT_COUNT" using assms(1,2) by (simp add: cuse_wf_def)
  have is32: "set [0..<DMX512_CUSE_CONTEXT_COUNT] \<subseteq> {..<DMX512_CUSE_CONTEXT_COUNT}" by auto
  obtain s' where s': "offer_frame_to intr crd fr [0..<DMX512_CUSE_CONTEXT_COUNT] s = Some s'"
    using offer_frame_to_total [OF assms(3,2) len is32] by blast
  note c = offer_frame_to_conserves [OF s' assms(2) len is32]
  have "cuse_wf s'" using c assms(1) by (auto simp: cuse_wf_def split: if_splits)
  then show ?thesis using c s' by (simp add: dmx512_cuse_handle_received_frame_def)
qed

lemma read_ok:
  assumes "cuse_wf s" and "dmx512_cuse_context crd fh s = Some ctx"
  shows "card_frames crd (dmx512_cuse_read req crd sz (Some fh) s) = card_frames crd s"
    and "card_readers crd (dmx512_cuse_read req crd sz (Some fh) s) = card_readers crd s + {#req#}"
proof -
  obtain cs where cs: "cu_contexts s crd = Some cs" "nat fh < length cs" "cs ! nat fh = ctx"
    using context_Some [OF assms(2)] by blast
  have key: "\<exists>ctx'. cu_contexts (dmx512_cuse_read req crd sz (Some fh) s) = (cu_contexts s)(crd \<mapsto> cs[nat fh := ctx']) \<and>
      mset (fq_ids (cu_free (dmx512_cuse_read req crd sz (Some fh) s))) + ctx_frames ctx' =
        mset (fq_ids (cu_free s)) + ctx_frames (cs ! nat fh) \<and>
      sum_list (map answered1 (cu_log (dmx512_cuse_read req crd sz (Some fh) s))) + ctx_pending ctx' =
        sum_list (map answered1 (cu_log s)) + ctx_pending (cs ! nat fh) + {#req#}"
  proof (cases "cx_framequeue ctx")
    case Nil
    show ?thesis
    proof (cases "cx_nonblocking ctx")
      case True
      then show ?thesis using Nil cs assms(2)
        by (intro exI [of _ ctx]) (auto simp: dmx512_cuse_read_def fun_upd_idem)
    next
      case False
      then show ?thesis using Nil cs assms(2)
        by (intro exI [of _ "ctx\<lparr>cx_read_req := Some req\<rparr>"])
           (auto simp: dmx512_cuse_read_def ctx_frames_def ctx_pending_def split: option.split)
    qed
  next
    case (Cons e q)
    then show ?thesis using cs assms(2)
      by (intro exI [of _ "ctx\<lparr>cx_framequeue := q\<rparr>"])
         (auto simp: dmx512_cuse_read_def cuse_put_frame_def fq_put_def ctx_frames_def ctx_pending_def)
  qed
  show "card_frames crd (dmx512_cuse_read req crd sz (Some fh) s) = card_frames crd s"
    and "card_readers crd (dmx512_cuse_read req crd sz (Some fh) s) = card_readers crd s + {#req#}"
    using key card_upd [OF cs(1,2)] by metis+
qed

text \<open>Opening a file: the first free context.\<close>

lemma free_context_from_spec:
  "free_context_from cs k = -1 \<and> (\<forall>c \<in> set cs. cx_in_use c) \<or>
   (\<exists>i < length cs. free_context_from cs k = k + int i \<and> \<not> cx_in_use (cs ! i) \<and> (\<forall>j < i. cx_in_use (cs ! j)))"
  if "0 \<le> k"
  using that
proof (induction cs arbitrary: k)
  case (Cons c cs)
  show ?case
  proof (cases "cx_in_use c")
    case False
    then show ?thesis by (intro disjI2 exI [of _ 0]) simp
  next
    case True
    from Cons.IH [of "k + 1"] Cons.prems
    consider "free_context_from cs (k + 1) = -1" "\<forall>c \<in> set cs. cx_in_use c"
      | i where "i < length cs" "free_context_from cs (k + 1) = k + 1 + int i" "\<not> cx_in_use (cs ! i)"
          "\<forall>j < i. cx_in_use (cs ! j)"
      by auto
    then show ?thesis
    proof cases
      case 1
      then show ?thesis using True by simp
    next
      case (2 i)
      then show ?thesis
        using True by (intro disjI2 exI [of _ "Suc i"]) (auto simp: nth_Cons split: nat.split)
    qed
  qed
qed simp

section \<open>What the contexts are told of a frame\<close>

text \<open>
  The filter of an open file selects a frame with the bit of its port; \<open>frame_replies\<close> is what the
  device then owes the context: the answer to its read, or the notification of its poller, and in any
  case the end of an interrupted read.
\<close>

definition selects_frame :: "dmx512frame \<Rightarrow> cuse_context \<Rightarrow> bool" where
  "selects_frame fr c \<longleftrightarrow> cx_in_use c \<and>
     bit (if has_flag (f_flags fr) DMX512_FLAGS_IS_TRANSMIT_FRAME then cx_port_txmask c else cx_port_mask c)
       (unat (f_port fr))"

definition poll_replies :: "cuse_context \<Rightarrow> cuse_reply list" where
  "poll_replies c = (case cx_pollhandle c of None \<Rightarrow> [] | Some h \<Rightarrow> [NotifyPoll h])"

definition frame_replies :: "(req \<Rightarrow> bool) \<Rightarrow> dmx512frame \<Rightarrow> cuse_context \<Rightarrow> cuse_reply list" where
  "frame_replies intr fr c = (case cx_read_req c of
     None \<Rightarrow> if selects_frame fr c then poll_replies c else []
   | Some r \<Rightarrow>
       if intr r then ReplyErr r EINTR # (if selects_frame fr c then poll_replies c else [])
       else if selects_frame fr c then [ReplyBuf r (Some fr)] else [])"

text \<open>What becomes of a context: a selected one waits no more, one that is not selected is left alone.\<close>

definition context_served :: "(req \<Rightarrow> bool) \<Rightarrow> dmx512frame \<Rightarrow> cuse_context \<Rightarrow> cuse_context \<Rightarrow> bool" where
  "context_served intr fr c c' \<longleftrightarrow>
     (selects_frame fr c \<longrightarrow> cx_read_req c' = None) \<and>
     (\<not> selects_frame fr c \<longrightarrow>
        c' = (case cx_read_req c of None \<Rightarrow> c | Some r \<Rightarrow> if intr r then c\<lparr>cx_read_req := None\<rparr> else c))"

lemma offer_ctx_replies:
  assumes "offer_ctx intr fr c free = Some (c', free', rs)" and "unat (f_port fr) < 31"
  shows "rs = frame_replies intr fr c \<and> context_served intr fr c c'"
proof -
  have b: "port_bit (f_port fr) = Some (2 ^ unat (f_port fr))" using assms(2) by (simp add: port_bit_def)
  have bm: "m AND 2 ^ unat (f_port fr) = 0 \<longleftrightarrow> \<not> bit m (unat (f_port fr))" for m :: u64
    using assms(2) by (simp add: and_exp_eq_0_iff_not_bit)
  note d = offer_ctx_def b frame_replies_def context_served_def selects_frame_def poll_replies_def
  obtain x y where q: "fq_get free = (x, y)" by fastforce
  show ?thesis
  proof (cases "cx_read_req c")
    case None
    then show ?thesis
      using assms by (auto simp: d q bm Let_def split: if_splits option.splits)
  next
    case (Some r)
    then show ?thesis
      using assms by (cases "intr r") (auto simp: d q bm Let_def split: if_splits option.splits)
  qed
qed

lemma offer_frame_to_replies:
  assumes "unat (f_port fr) < 31"
    and "offer_frame_to intr crd fr is s = Some s'" and "cu_contexts s crd = Some cs"
    and "length cs = DMX512_CUSE_CONTEXT_COUNT" and "set is \<subseteq> {..<DMX512_CUSE_CONTEXT_COUNT}" and "distinct is"
  shows "\<exists>cs'. cu_contexts s' crd = Some cs' \<and> length cs' = length cs \<and>
     cu_log s' = cu_log s @ concat (map (\<lambda>i. frame_replies intr fr (cs ! i)) is) \<and>
     (\<forall>i \<in> set is. context_served intr fr (cs ! i) (cs' ! i)) \<and> (\<forall>i. i \<notin> set is \<longrightarrow> cs' ! i = cs ! i)"
  using assms(2-)
proof (induction "is" arbitrary: s cs)
  case (Cons k "is")
  obtain s1 where s1: "offer_frame intr crd fr k s = Some s1" "offer_frame_to intr crd fr is s1 = Some s'"
    using Cons.prems(1) by (auto simp: bind_eq_Some)
  have k: "k < length cs" "k < DMX512_CUSE_CONTEXT_COUNT" "k \<notin> set is" "distinct is"
    using Cons.prems(3-5) by simp_all
  obtain c free' rs where c: "offer_ctx intr fr (cs ! k) (cu_free s) = Some (c, free', rs)"
      "s1 = set_context crd k c (s\<lparr>cu_free := free', cu_log := cu_log s @ rs\<rparr>)"
    using s1(1) context_index [OF Cons.prems(2) k(1,2)] by (auto simp: offer_frame_def bind_eq_Some)
  note r = offer_ctx_replies [OF c(1) assms(1)]
  have cs1: "cu_contexts s1 crd = Some (cs[k := c])" "length (cs[k := c]) = DMX512_CUSE_CONTEXT_COUNT"
      "cu_log s1 = cu_log s @ frame_replies intr fr (cs ! k)"
    using c(2) r Cons.prems(2,3) by simp_all
  have is1: "set is \<subseteq> {..<DMX512_CUSE_CONTEXT_COUNT}" using Cons.prems(4) by simp
  have other: "map (\<lambda>i. frame_replies intr fr (cs[k := c] ! i)) is = map (\<lambda>i. frame_replies intr fr (cs ! i)) is"
      "\<And>i. i \<in> set is \<Longrightarrow> cs[k := c] ! i = cs ! i"
    using k(3) by (auto intro!: arg_cong [of _ _ "frame_replies intr fr"] nth_list_update_neq)
  obtain cs' where cs': "cu_contexts s' crd = Some cs'" "length cs' = length cs"
      "cu_log s' = cu_log s1 @ concat (map (\<lambda>i. frame_replies intr fr (cs ! i)) is)"
      "\<And>i. i \<in> set is \<Longrightarrow> context_served intr fr (cs ! i) (cs' ! i)"
      "\<And>i. i \<notin> set is \<Longrightarrow> cs' ! i = cs[k := c] ! i"
    using Cons.IH [OF s1(2) cs1(1,2) is1 k(4)] unfolding other(1) using other(2) by fastforce
  have "cs' ! k = c" using cs'(5) k(1,3) by simp
  then show ?case using cs' cs1(3) r by (intro exI [of _ cs']) auto
qed simp

lemma handle_received_replies:
  assumes "cuse_wf s" and "cu_contexts s crd = Some cs" and "unat (f_port fr) < 31"
  shows "\<exists>s' cs'. dmx512_cuse_handle_received_frame intr crd fr s = Some s' \<and>
     cu_log s' = cu_log s @ concat (map (frame_replies intr fr) cs) \<and>
     cu_contexts s' crd = Some cs' \<and> list_all2 (context_served intr fr) cs cs'"
proof -
  have len: "length cs = DMX512_CUSE_CONTEXT_COUNT" using assms(1,2) by (simp add: cuse_wf_def)
  obtain s' where s': "offer_frame_to intr crd fr [0..<DMX512_CUSE_CONTEXT_COUNT] s = Some s'"
    using offer_frame_to_total [OF _ assms(2) len, of fr "[0..<DMX512_CUSE_CONTEXT_COUNT]" intr]
      assms(3) by (auto simp: atLeast0LessThan)
  have m: "map (\<lambda>i. frame_replies intr fr (cs ! i)) [0..<DMX512_CUSE_CONTEXT_COUNT] = map (frame_replies intr fr) cs"
    unfolding len [symmetric] by (rule nth_equalityI) simp_all
  show ?thesis
    using offer_frame_to_replies [OF assms(3) s' assms(2) len] s' len unfolding m
    by (auto simp: dmx512_cuse_handle_received_frame_def list_all2_conv_all_nth atLeast0LessThan)
qed

section \<open>Properties\<close>

definition demo_ctx :: cuse_context where
  "demo_ctx = zero_context\<lparr>cx_in_use := True, cx_port_mask := 4, cx_read_req := Some 9\<rparr>"

definition demo_cuse :: cuse where
  "demo_cuse = \<lparr>cu_contexts = [1 \<mapsto> (replicate DMX512_CUSE_CONTEXT_COUNT zero_context)[0 := demo_ctx]],
     cu_free = [], cu_log = []\<rparr>"

lemma demo_cuse_sel:
  "cuse_wf demo_cuse" "cu_contexts demo_cuse 1 = Some ((replicate DMX512_CUSE_CONTEXT_COUNT zero_context)[0 := demo_ctx])"
  "dmx512_cuse_context 1 0 demo_cuse = Some demo_ctx"
  by (simp_all add: demo_cuse_def cuse_wf_def dmx512_cuse_context_def dmx512_cuse_context_index_valid_def arr_get_def
      DMX512_CUSE_CONTEXT_COUNT_def)

text \<open>
  C12. Frames and readers of a user space card are accounted for: handing a received frame to the
  contexts of a card (for the ports 0 to 31) always returns, moves frames only between the pool and
  the queues of the contexts, and answers every pending read at most once and forgets none; a read
  gives its frame back to the pool and adds exactly itself to the readers that are answered or wait.
\<close>

theorem cuse_frames_and_readers_conserved:
  assumes "cuse_wf s" and "dmx512_cuse_context crd fh s = Some ctx" and "unat (f_port fr) < 32"
  shows "(\<exists>s'. dmx512_cuse_handle_received_frame intr crd fr s = Some s' \<and> cuse_wf s' \<and>
       card_frames crd s' = card_frames crd s \<and> card_readers crd s' = card_readers crd s) \<and>
     card_frames crd (dmx512_cuse_read req crd sz (Some fh) s) = card_frames crd s \<and>
     card_readers crd (dmx512_cuse_read req crd sz (Some fh) s) = card_readers crd s + {#req#}"
proof -
  obtain cs where "cu_contexts s crd = Some cs" using context_Some [OF assms(2)] by blast
  then show ?thesis
    using handle_received_ok [OF assms(1) _ assms(3), of crd cs intr] read_ok [OF assms(1,2)] by blast
qed

theorem cuse_frames_and_readers_conserved_witness:
  "\<exists>s'. dmx512_cuse_handle_received_frame (\<lambda>_. False) 1 (zero_frame\<lparr>f_port := 2\<rparr>) demo_cuse = Some s' \<and>
     card_readers 1 s' = card_readers 1 demo_cuse"
proof -
  have "unat (f_port (zero_frame\<lparr>f_port := 2\<rparr>)) < 32" by simp
  from cuse_frames_and_readers_conserved [OF demo_cuse_sel(1,3) this, of "\<lambda>_. False" 0 0]
  show ?thesis by blast
qed

lemma received_frame_at:
  assumes "cuse_wf s" and "dmx512_cuse_handle_received_frame intr crd fr s = Some s'"
    and "dmx512_cuse_context crd (int i) s = Some ctx" and "cx_in_use ctx" and "unat (f_port fr) < 31"
    and "m = (if has_flag (f_flags fr) DMX512_FLAGS_IS_TRANSMIT_FRAME then cx_port_txmask ctx else cx_port_mask ctx)"
  shows "\<exists>ctx' rs. dmx512_cuse_context crd (int i) s' = Some ctx' \<and> (\<exists>xs ys. cu_log s' = cu_log s @ xs @ rs @ ys) \<and>
     (bit m (unat (f_port fr)) \<longrightarrow>
       (\<forall>r. cx_read_req ctx = Some r \<and> \<not> intr r \<longrightarrow> rs = [ReplyBuf r (Some fr)] \<and> cx_read_req ctx' = None) \<and>
       (\<forall>h. cx_read_req ctx = None \<and> cx_pollhandle ctx = Some h \<longrightarrow> rs = [NotifyPoll h])) \<and>
     (\<not> bit m (unat (f_port fr)) \<longrightarrow>
       (\<forall>r. cx_read_req ctx = Some r \<and> \<not> intr r \<longrightarrow> rs = [] \<and> ctx' = ctx))"
proof -
  obtain cs where cs: "cu_contexts s crd = Some cs" "i < length cs" "cs ! i = ctx" "i < DMX512_CUSE_CONTEXT_COUNT"
    using context_Some [OF assms(3)] by auto
  have len: "length cs = DMX512_CUSE_CONTEXT_COUNT" using assms(1) cs(1) by (simp add: cuse_wf_def)
  have ho: "offer_frame_to intr crd fr [0..<DMX512_CUSE_CONTEXT_COUNT] s = Some s'"
    using assms(2) by (simp add: dmx512_cuse_handle_received_frame_def)
  have is32: "set [0..<DMX512_CUSE_CONTEXT_COUNT] \<subseteq> {..<DMX512_CUSE_CONTEXT_COUNT}" by auto
  obtain free ctx' free' rs cs' where o: "offer_ctx intr fr ctx free = Some (ctx', free', rs)"
      "cu_contexts s' crd = Some cs'" "cs' ! i = ctx'" "\<exists>xs ys. cu_log s' = cu_log s @ xs @ rs @ ys"
    using offer_frame_at [OF ho cs(1) len is32, of i, unfolded cs(3)] cs(4) by (simp only: set_upt) force
  have "length cs' = DMX512_CUSE_CONTEXT_COUNT"
    using offer_frame_to_conserves [OF ho cs(1) len is32] o(2) by auto
  then have ctx': "dmx512_cuse_context crd (int i) s' = Some ctx'"
    using context_index [OF o(2), of i] o(3) cs(4) by simp
  have b: "port_bit (f_port fr) = Some (2 ^ unat (f_port fr))" using assms(5) by (simp add: port_bit_def)
  have bm: "m AND 2 ^ unat (f_port fr) \<noteq> 0 \<longleftrightarrow> bit m (unat (f_port fr))"
    using assms(5) by (simp add: and_exp_eq_0_iff_not_bit)
  have "(bit m (unat (f_port fr)) \<longrightarrow>
       (\<forall>r. cx_read_req ctx = Some r \<and> \<not> intr r \<longrightarrow> rs = [ReplyBuf r (Some fr)] \<and> cx_read_req ctx' = None) \<and>
       (\<forall>h. cx_read_req ctx = None \<and> cx_pollhandle ctx = Some h \<longrightarrow> rs = [NotifyPoll h])) \<and>
     (\<not> bit m (unat (f_port fr)) \<longrightarrow>
       (\<forall>r. cx_read_req ctx = Some r \<and> \<not> intr r \<longrightarrow> rs = [] \<and> ctx' = ctx))"
    using o(1) assms(4-6) bm unfolding offer_ctx_def b
    by (auto simp: Let_def split: option.splits prod.splits if_splits)
  then show ?thesis using ctx' o(4) by blast
qed

text \<open>
  C24. What a received frame tells the files of a card, for a port below 31: handing it over returns
  and adds to the replies of the device exactly those owed to the contexts, in their order. An open
  file whose filter has the port's bit set is answered with the frame when its read is pending and
  not interrupted; without such a read its poller is notified, when there is one; either way no read
  of it waits any more. A file whose filter does not have the bit is neither answered with the frame
  nor notified, whether it reads or polls, and its context stays as it is. A read that was
  interrupted ends with \<open>EINTR\<close> in both cases.
\<close>

theorem received_frame_reaches_readers:
  assumes "cuse_wf s" and "cu_contexts s crd = Some cs" and "unat (f_port fr) < 31"
  shows "\<exists>s' cs'. dmx512_cuse_handle_received_frame intr crd fr s = Some s' \<and>
     cu_log s' = cu_log s @ concat (map (frame_replies intr fr) cs) \<and>
     cu_contexts s' crd = Some cs' \<and> list_all2 (context_served intr fr) cs cs'"
  using assms by (rule handle_received_replies)

theorem received_frame_reaches_readers_witness:
  "\<exists>s'. dmx512_cuse_handle_received_frame (\<lambda>_. False) 1 (zero_frame\<lparr>f_port := 2\<rparr>) demo_cuse = Some s' \<and>
     cu_log s' = [ReplyBuf 9 (Some (zero_frame\<lparr>f_port := 2\<rparr>))]"
proof -
  let ?fr = "zero_frame\<lparr>f_port := 2\<rparr>" and ?f = "frame_replies (\<lambda>_. False) (zero_frame\<lparr>f_port := 2\<rparr>)"
  have p: "unat (f_port ?fr) < 31" by simp
  have "?f zero_context = []" "?f demo_ctx = [ReplyBuf 9 (Some ?fr)]"
    by (simp_all add: frame_replies_def selects_frame_def demo_ctx_def zero_context_def zero_frame_def has_flag_def
        bit_numeral_rec)
  then have r: "concat (map ?f ((replicate DMX512_CUSE_CONTEXT_COUNT zero_context)[0 := demo_ctx])) =
      [ReplyBuf 9 (Some ?fr)]"
    by (simp add: DMX512_CUSE_CONTEXT_COUNT_def numeral_eq_Suc)
  have "cu_log demo_cuse = []" by (simp add: demo_cuse_def)
  then show ?thesis
    using received_frame_reaches_readers [OF demo_cuse_sel(1,2) p, of "\<lambda>_. False"] unfolding r by auto
qed

text \<open>
  Opening a file takes the first context that is not in use, with filters that select no port and
  an empty queue, and leaves the other contexts alone; it is refused with \<open>ENOMEM\<close> exactly when all
  32 contexts of the card are in use.
\<close>

theorem open_takes_first_free_context:
  assumes "cuse_wf s" and "cu_contexts s crd = Some cs"
  shows "(\<forall>c \<in> set cs. cx_in_use c) \<and> dmx512_cuse_open req crd nb s = reply (ReplyErr req ENOMEM) s \<or>
     (\<exists>i < 32. \<not> cx_in_use (cs ! i) \<and> (\<forall>j < i. cx_in_use (cs ! j)) \<and>
        cu_contexts (dmx512_cuse_open req crd nb s) = (cu_contexts s)(crd \<mapsto>
          cs[i := zero_context\<lparr>cx_in_use := True, cx_nonblocking := nb\<rparr>]) \<and>
        cu_log (dmx512_cuse_open req crd nb s) = cu_log s @ [ReplyOpen req i])"
proof -
  have len: "length cs = 32" using assms by (simp add: cuse_wf_def DMX512_CUSE_CONTEXT_COUNT_def)
  show ?thesis
    using free_context_from_spec [of 0 cs] len assms(2)
    by (auto simp: dmx512_cuse_open_def dmx512_cuse_free_context_index_def zero_context_def)
qed

theorem open_takes_first_free_context_witness:
  "\<exists>i < 32. cu_log (dmx512_cuse_open 5 1 True demo_cuse) = [ReplyOpen 5 i]"
proof -
  let ?cs = "(replicate DMX512_CUSE_CONTEXT_COUNT zero_context)[0 := demo_ctx]"
  have "\<not> (\<forall>c \<in> set ?cs. cx_in_use c)"
    by (simp add: DMX512_CUSE_CONTEXT_COUNT_def zero_context_def numeral_eq_Suc)
  then show ?thesis
    using open_takes_first_free_context [OF demo_cuse_sel(1,2), of 5 True] by (auto simp: demo_cuse_def)
qed

text \<open>
  The port filters are stored: what \<open>SET_PORT_FILTER\<close> or \<open>SET_PORT_TXFILTER\<close> was given is what the
  corresponding \<open>GET\<close> of the same file answers, for the one filter without disturbing the other, and
  every other file keeps its filters.
\<close>

theorem port_filter_roundtrip:
  assumes "cuse_wf s" and "dmx512_cuse_context crd fh s = Some ctx" and "ib \<noteq> 0" and "ob \<noteq> 0"
  shows "(let s' = dmx512_cuse_ioctl ops mk req crd DMX512_IOCTL_SET_PORT_FILTER arg fh inp ib 0 s;
          s'' = dmx512_cuse_ioctl ops mk req crd DMX512_IOCTL_GET_PORT_FILTER arg fh inp 0 ob s';
          t'' = dmx512_cuse_ioctl ops mk req crd DMX512_IOCTL_GET_PORT_TXFILTER arg fh inp 0 ob s'
       in cu_log s'' = cu_log s @ [ReplyIoctl req None, ReplyIoctl req (Some (io_value inp))] \<and>
          cu_log t'' = cu_log s @ [ReplyIoctl req None, ReplyIoctl req (Some (cx_port_txmask ctx))] \<and>
          (\<forall>fh'. fh' \<noteq> fh \<longrightarrow> dmx512_cuse_context crd fh' s' = dmx512_cuse_context crd fh' s)) \<and>
     (let s' = dmx512_cuse_ioctl ops mk req crd DMX512_IOCTL_SET_PORT_TXFILTER arg fh inp ib 0 s;
          s'' = dmx512_cuse_ioctl ops mk req crd DMX512_IOCTL_GET_PORT_TXFILTER arg fh inp 0 ob s'
       in cu_log s'' = cu_log s @ [ReplyIoctl req None, ReplyIoctl req (Some (io_value inp))])"
proof -
  obtain cs where cs: "cu_contexts s crd = Some cs" "nat fh < length cs" "cs ! nat fh = ctx" "0 \<le> fh"
      "nat fh < DMX512_CUSE_CONTEXT_COUNT"
    using context_Some [OF assms(2)] by blast
  have get: "dmx512_cuse_context crd fh (reply r (set_context crd (nat fh) c s)) = Some c" for c r
    using cs by (simp add: dmx512_cuse_context_def dmx512_cuse_context_index_valid_def arr_get_def)
  have other: "dmx512_cuse_context crd fh' (reply r (set_context crd (nat fh) c s)) = dmx512_cuse_context crd fh' s"
    if "fh' \<noteq> fh" for c r fh'
    using that cs
    by (auto simp: dmx512_cuse_context_def dmx512_cuse_context_index_valid_def arr_get_def nth_list_update
        eq_nat_nat_iff)
  show ?thesis
    using assms(2-4) by (simp add: dmx512_cuse_ioctl_def get other Let_def)
qed

theorem port_filter_roundtrip_witness:
  "let inp = \<lparr>io_value = 6, io_info = \<lparr>in_card_index = 0, in_number = 0, in_tuple_count = 0, in_tuples = 0\<rparr>, io_tuples = []\<rparr>;
       ops = \<lparr>op_queryCardInfo = None, op_changeCardInfo = None, op_queryPortInfo = None, op_changePortInfo = None\<rparr>;
       s' = dmx512_cuse_ioctl ops True 5 1 DMX512_IOCTL_SET_PORT_FILTER 0 0 inp 8 0 demo_cuse
   in cu_log (dmx512_cuse_ioctl ops True 5 1 DMX512_IOCTL_GET_PORT_FILTER 0 0 inp 0 8 s') =
        [ReplyIoctl 5 None, ReplyIoctl 5 (Some 6)]"
  using port_filter_roundtrip [OF demo_cuse_sel(1,3), of 8 8
      "\<lparr>op_queryCardInfo = None, op_changeCardInfo = None, op_queryPortInfo = None, op_changePortInfo = None\<rparr>" True 5 0
      "\<lparr>io_value = 6, io_info = \<lparr>in_card_index = 0, in_number = 0, in_tuple_count = 0, in_tuples = 0\<rparr>, io_tuples = []\<rparr>"]
  by (simp add: Let_def demo_cuse_def)

text \<open>
  Closing a file loses its queued frames: they are freed instead of going back to the pool, so
  that the frames of the card and the pool become fewer by exactly those that were queued.
\<close>

theorem release_shrinks_pool:
  assumes "dmx512_cuse_context crd fh s = Some ctx"
  shows "card_frames crd (dmx512_cuse_release req crd fh s) + ctx_frames ctx = card_frames crd s \<and>
     cu_free (dmx512_cuse_release req crd fh s) = cu_free s"
proof -
  obtain cs where cs: "cu_contexts s crd = Some cs" "nat fh < length cs" "cs ! nat fh = ctx"
    using context_Some [OF assms] by blast
  let ?c = "ctx\<lparr>cx_in_use := False, cx_port_mask := 0, cx_framequeue := fq_cleanup (cx_framequeue ctx)\<rparr>"
  have "sum_list (map ctx_frames (cs[nat fh := ?c])) + ctx_frames ctx = sum_list (map ctx_frames cs)"
    using sum_list_map_update [OF cs(2), of ctx_frames ?c] cs(3) by (simp add: ctx_frames_def fq_cleanup_def)
  then show ?thesis
    using assms cs(1) by (simp add: dmx512_cuse_release_def card_frames_def Let_def add.assoc)
qed

theorem release_shrinks_pool_witness:
  "card_frames 1 (dmx512_cuse_release 5 1 0 demo_cuse) + ctx_frames demo_ctx = card_frames 1 demo_cuse"
  using release_shrinks_pool [OF demo_cuse_sel(3)] by simp

text \<open>
  A port above 30 is not filtered as meant: a frame for port 31 passes every filter that has any
  of the bits 31 to 63 set, and for the ports 32 to 63 the shift that computes the bit is undefined
  as soon as a file is open.
\<close>

theorem high_ports_not_filtered:
  "(\<forall>k. 31 \<le> k \<and> k < 64 \<longrightarrow> (\<exists>b. port_bit 31 = Some b \<and> (2 :: u64) ^ k AND b \<noteq> 0)) \<and>
   (32 \<le> unat p \<and> unat p < 64 \<longrightarrow> cx_in_use ctx \<longrightarrow>
      offer_ctx intr (fr\<lparr>f_port := p\<rparr>) ctx free = None)"
proof -
  have "bit (0xFFFFFFFF80000000 :: u64) k" if "31 \<le> k" "k < 64" for k
  proof -
    have "(0xFFFFFFFF80000000 :: u64) = - (2 ^ 31)" by simp
    then show ?thesis using that by (simp only: bit_minus_exp_iff) simp
  qed
  then have "bit ((2 :: u64) ^ k AND 0xFFFFFFFF80000000) k" if "31 \<le> k" "k < 64" for k
    using that by (simp add: bit_and_iff bit_exp_iff)
  then have "(2 :: u64) ^ k AND 0xFFFFFFFF80000000 \<noteq> 0" if "31 \<le> k" "k < 64" for k
    using that by (metis bit_0_eq bot_fun_def bot_bool_def)
  then show ?thesis
    by (auto simp: port_bit_def offer_ctx_def Let_def split: option.split)
qed

theorem high_ports_not_filtered_witness:
  "(\<exists>b. port_bit 31 = Some b \<and> (2 :: u64) ^ 40 AND b \<noteq> 0) \<and>
   offer_ctx (\<lambda>_. False) (zero_frame\<lparr>f_port := 40\<rparr>) demo_ctx [] = None"
proof -
  note h = high_ports_not_filtered [of 40 demo_ctx "\<lambda>_. False" zero_frame "[]"]
  have "31 \<le> (40 :: nat) \<and> (40 :: nat) < 64" by simp
  with h have "\<exists>b. port_bit 31 = Some b \<and> (2 :: u64) ^ 40 AND b \<noteq> 0" by blast
  moreover have "offer_ctx (\<lambda>_. False) (zero_frame\<lparr>f_port := 40\<rparr>) demo_ctx [] = None"
    using h by (simp add: demo_ctx_def)
  ultimately show ?thesis ..
qed

text \<open>
  A file descriptor watcher cannot be added first: in the zeroed table the search for its
  descriptor, when that is not 0, runs past the end of the table, which is undefined.
\<close>

theorem fdwatcher_add_overruns:
  "fw_fd w \<noteq> 0 \<longrightarrow> dmx512_cuse_fdwatcher_add w zero_fdwatchers = None"
proof -
  have "fd \<noteq> 0 \<Longrightarrow> find_fd_from (replicate n \<lparr>fw_fd = 0, fw_callback = 0, fw_user = NULL\<rparr>) fd i = None" for n fd i
    by (induction n arbitrary: i) simp_all
  then show ?thesis
    by (simp add: dmx512_cuse_fdwatcher_add_def dmx512_cuse_fdwatcher_find_fd_def zero_fdwatchers_def MAX_FD_WATCHERS_def
        del: replicate.simps)
qed

theorem fdwatcher_add_overruns_witness:
  "dmx512_cuse_fdwatcher_add \<lparr>fw_fd = 5, fw_callback = 1, fw_user = 0\<rparr> zero_fdwatchers = None"
  using fdwatcher_add_overruns [of "\<lparr>fw_fd = 5, fw_callback = 1, fw_user = 0\<rparr>"] by simp

end
