(* ===== verification/Cuse_Loop.thy ===== *)
theory Cuse_Loop
  imports Cuse_Dev
begin

text \<open>
  The loop-back cards of \<^verbatim>\<open>src/src/cuse-drivers/dmx512_cuse_loop_device.c\<close>: two user space cards with
  sixteen ports each; what is written to one card is received on the other. Each card keeps a
  customer name and a label per port, which the information requests read and change.
\<close>

section \<open>State\<close>

record testdmx_card =
  td_other_card :: addr
  td_num_ports :: int
  td_customer_name :: string
  td_port_labels :: "string list"

definition DMX4LINUX2_ID_NONE :: u32 where "DMX4LINUX2_ID_NONE = 0"
definition DMX4LINUX2_ID_MANUFACTURER :: u32 where "DMX4LINUX2_ID_MANUFACTURER = 1"
definition DMX4LINUX2_ID_PRODUCT :: u32 where "DMX4LINUX2_ID_PRODUCT = 2"
definition DMX4LINUX2_ID_SERIAL_NUMBER :: u32 where "DMX4LINUX2_ID_SERIAL_NUMBER = 3"
definition DMX4LINUX2_ID_CUSTOMER_NAME :: u32 where "DMX4LINUX2_ID_CUSTOMER_NAME = 4"
definition DMX4LINUX2_ID_PORT_LABEL :: u32 where "DMX4LINUX2_ID_PORT_LABEL = 5"

lemmas tuple_id_defs = DMX4LINUX2_ID_NONE_def DMX4LINUX2_ID_MANUFACTURER_def DMX4LINUX2_ID_PRODUCT_def
  DMX4LINUX2_ID_SERIAL_NUMBER_def DMX4LINUX2_ID_CUSTOMER_NAME_def DMX4LINUX2_ID_PORT_LABEL_def

definition supported_card_tuples :: "u32 list" where
  "supported_card_tuples = [DMX4LINUX2_ID_MANUFACTURER, DMX4LINUX2_ID_PRODUCT, DMX4LINUX2_ID_SERIAL_NUMBER,
     DMX4LINUX2_ID_CUSTOMER_NAME]"

definition supported_port_tuples :: "u32 list" where
  "supported_port_tuples = [DMX4LINUX2_ID_PORT_LABEL]"

text \<open>The arrays: a name of 64 characters and sixteen labels of 64, each holding a terminated string.\<close>

definition testdmx_wf :: "testdmx_card \<Rightarrow> bool" where
  "testdmx_wf u \<longleftrightarrow> length (td_customer_name u) = 64 \<and> length (c_string (td_customer_name u)) < 64 \<and>
     length (td_port_labels u) = 16 \<and> (\<forall>l \<in> set (td_port_labels u). length l = 64 \<and> length (c_string l) < 64)"

type_synonym kv = dmx4linux2_key_value_tuple

section \<open>Information about a card\<close>

definition fill_card_key :: "nat \<Rightarrow> kv list \<Rightarrow> kv list option" where
  "fill_card_key i ts = do {
     t \<leftarrow> arr_get ts i;
     if kv_key t = DMX4LINUX2_ID_NONE then do {
       k \<leftarrow> arr_get supported_card_tuples i;
       arr_set ts i (t\<lparr>kv_key := k\<rparr>) }
     else Some ts }"

definition fill_card_value :: "testdmx_card \<Rightarrow> nat \<Rightarrow> kv list \<Rightarrow> kv list option" where
  "fill_card_value user i ts = do {
     t \<leftarrow> arr_get ts i;
     t \<leftarrow> (if kv_key t = DMX4LINUX2_ID_MANUFACTURER then do {
               v \<leftarrow> c_strcpy (kv_value t) ''llg-Dmx4linux2''; Some (t\<lparr>kv_value := v\<rparr>) }
           else if kv_key t = DMX4LINUX2_ID_PRODUCT then do {
               v \<leftarrow> c_strcpy (kv_value t) ''dummydmx''; Some (t\<lparr>kv_value := v\<rparr>) }
           else if kv_key t = DMX4LINUX2_ID_SERIAL_NUMBER then do {
               v \<leftarrow> c_strcpy (kv_value t) ''0123456789''; Some (t\<lparr>kv_value := v\<rparr>) }
           else if kv_key t = DMX4LINUX2_ID_CUSTOMER_NAME then do {
               v \<leftarrow> c_strncpy (kv_value t) (td_customer_name user);
               Some (t\<lparr>kv_value := v, kv_changable := True, kv_maxlength := 63\<rparr>) }
           else do { v \<leftarrow> c_strcpy (kv_value t) ''''; Some (t\<lparr>kv_value := v\<rparr>) });
     arr_set ts i t }"

text \<open>\<open>cardno\<close> and \<open>user\<close> are the card's configuration; the return value is 0.\<close>

definition testdmx_queryCardInfo ::
  "int \<Rightarrow> testdmx_card \<Rightarrow> dmx4linux2_info \<Rightarrow> kv list option \<Rightarrow> (int \<times> dmx4linux2_info \<times> kv list option) option" where
  "testdmx_queryCardInfo cardno user cardinfo tuples = (
     let cardinfo = cardinfo\<lparr>in_card_index := cardno, in_number := td_num_ports user\<rparr>;
         n = nat (in_tuple_count cardinfo)
     in case tuples of
       Some ts \<Rightarrow> do {
         ts \<leftarrow> for_each [0..<n] fill_card_key ts;
         ts \<leftarrow> for_each [0..<min n (length supported_card_tuples)] (fill_card_value user) ts;
         Some (0, cardinfo, Some ts) }
     | None \<Rightarrow> Some (0, cardinfo\<lparr>in_tuple_count := int (length supported_card_tuples)\<rparr>, None))"

definition change_card_tuple :: "kv list \<Rightarrow> nat \<Rightarrow> testdmx_card \<Rightarrow> testdmx_card option" where
  "change_card_tuple ts i user = do {
     t \<leftarrow> arr_get ts i;
     if kv_key t = DMX4LINUX2_ID_CUSTOMER_NAME then do {
       v \<leftarrow> c_strncpy (td_customer_name user) (kv_value t);
       Some (user\<lparr>td_customer_name := v\<rparr>) }
     else Some user }"

definition testdmx_changeCardInfo ::
  "int \<Rightarrow> dmx4linux2_info \<Rightarrow> kv list \<Rightarrow> testdmx_card \<Rightarrow> (int \<times> testdmx_card) option" where
  "testdmx_changeCardInfo cardno cardinfo ts user = (
     if in_card_index cardinfo \<noteq> cardno then Some (-1, user)
     else if in_tuple_count cardinfo > 0 then do {
       user \<leftarrow> for_each [0..<nat (in_tuple_count cardinfo)] (change_card_tuple ts) user;
       Some (0, user) }
     else Some (0, user))"

section \<open>Information about a port\<close>

definition fill_port_key :: "nat \<Rightarrow> kv list \<Rightarrow> kv list option" where
  "fill_port_key i ts = do {
     t \<leftarrow> arr_get ts i;
     if kv_key t = DMX4LINUX2_ID_NONE then do {
       k \<leftarrow> arr_get supported_port_tuples i;
       arr_set ts i (t\<lparr>kv_key := k\<rparr>) }
     else Some ts }"

text \<open>A port index is only bounded from above; a negative one indexes in front of the labels.\<close>

definition fill_port_value :: "testdmx_card \<Rightarrow> int \<Rightarrow> nat \<Rightarrow> kv list \<Rightarrow> kv list option" where
  "fill_port_value user portIndex i ts = do {
     t \<leftarrow> arr_get ts i;
     t \<leftarrow> (if kv_key t = DMX4LINUX2_ID_PORT_LABEL then do {
               l \<leftarrow> (if portIndex < 0 then None else arr_get (td_port_labels user) (nat portIndex));
               v \<leftarrow> c_strncpy (kv_value t) l;
               Some (t\<lparr>kv_value := v, kv_changable := True, kv_maxlength := 63\<rparr>) }
           else Some (t\<lparr>kv_key := DMX4LINUX2_ID_NONE\<rparr>));
     arr_set ts i t }"

definition testdmx_queryPortInfo ::
  "int \<Rightarrow> testdmx_card \<Rightarrow> dmx4linux2_info \<Rightarrow> kv list option \<Rightarrow> int \<Rightarrow>
   (int \<times> dmx4linux2_info \<times> kv list option) option" where
  "testdmx_queryPortInfo cardno user portinfo tuples portIndex = (
     if portIndex \<ge> td_num_ports user \<or> portIndex \<ge> 16 then Some (-1, portinfo, tuples)
     else
       let portinfo = portinfo\<lparr>in_card_index := cardno, in_number := portIndex\<rparr>;
           n = nat (in_tuple_count portinfo)
       in case (if in_tuple_count portinfo > 0 then tuples else None) of
         Some ts \<Rightarrow> do {
           ts \<leftarrow> for_each [0..<min n (length supported_port_tuples)] fill_port_key ts;
           ts \<leftarrow> for_each [0..<n] (fill_port_value user portIndex) ts;
           Some (0, portinfo, Some ts) }
       | None \<Rightarrow> Some (0, portinfo\<lparr>in_tuple_count := int (length supported_port_tuples)\<rparr>, tuples))"

definition change_port_tuple :: "kv list \<Rightarrow> int \<Rightarrow> nat \<Rightarrow> testdmx_card \<Rightarrow> testdmx_card option" where
  "change_port_tuple ts portIndex i user = do {
     t \<leftarrow> arr_get ts i;
     if kv_key t = DMX4LINUX2_ID_PORT_LABEL then do {
       l \<leftarrow> (if portIndex < 0 then None else arr_get (td_port_labels user) (nat portIndex));
       v \<leftarrow> c_strncpy l (kv_value t);
       ls \<leftarrow> arr_set (td_port_labels user) (nat portIndex) v;
       Some (user\<lparr>td_port_labels := ls\<rparr>) }
     else Some user }"

definition testdmx_changePortInfo ::
  "int \<Rightarrow> dmx4linux2_info \<Rightarrow> kv list \<Rightarrow> int \<Rightarrow> testdmx_card \<Rightarrow> (int \<times> testdmx_card) option" where
  "testdmx_changePortInfo cardno portinfo ts portIndex user = (
     if portIndex \<ge> td_num_ports user \<or> portIndex \<ge> 16 then Some (-1, user)
     else if in_card_index portinfo \<noteq> cardno then Some (-1, user)
     else if in_number portinfo \<noteq> portIndex then Some (-1, user)
     else if in_tuple_count portinfo > 0 then do {
       user \<leftarrow> for_each [0..<nat (in_tuple_count portinfo)] (change_port_tuple ts portIndex) user;
       Some (0, user) }
     else Some (0, user))"

section \<open>Connecting the cards\<close>

text \<open>The two cards by number; \<open>this_card\<close> is the address of the card that is initialised.\<close>

definition testdmx_init :: "int \<Rightarrow> addr \<Rightarrow> testdmx_card \<times> testdmx_card \<Rightarrow> testdmx_card \<times> testdmx_card" where
  "testdmx_init cardno this_card cards = (
     if cardno \<noteq> 0 then ((fst cards)\<lparr>td_other_card := this_card\<rparr>, snd cards)
     else (fst cards, (snd cards)\<lparr>td_other_card := this_card\<rparr>))"

definition testdmx_cleanup :: "int \<Rightarrow> testdmx_card \<times> testdmx_card \<Rightarrow> testdmx_card \<times> testdmx_card" where
  "testdmx_cleanup cardno cards = testdmx_init cardno NULL cards"

definition testdmx_sendFrame ::
  "(req \<Rightarrow> bool) \<Rightarrow> testdmx_card \<Rightarrow> dmx512frame \<Rightarrow> cuse \<Rightarrow> cuse option" where
  "testdmx_sendFrame interrupted user frame s =
     dmx512_cuse_handle_received_frame interrupted (td_other_card user) frame s"

text \<open>What \<open>main\<close> puts into the zeroed cards.\<close>

definition testdmx_label :: "nat \<Rightarrow> string" where
  "testdmx_label i = take 64 (''Port-'' @ [char_of (65 + i)] @ replicate 64 NUL)"

definition testdmx_start_card :: testdmx_card where
  "testdmx_start_card = \<lparr>td_other_card = NULL, td_num_ports = 16,
     td_customer_name = take 64 (''customer label'' @ replicate 64 NUL),
     td_port_labels = map testdmx_label [0..<16]\<rparr>"

section \<open>Properties\<close>

lemma testdmx_start_wf: "testdmx_wf testdmx_start_card"
proof -
  have "NUL \<noteq> char_of (65 + i :: nat)" if "i < 16" for i
  proof
    assume "NUL = char_of (65 + i)"
    then have "of_char NUL = (of_char (char_of (65 + i) :: char) :: nat)" by (rule arg_cong)
    then show False using that by (simp add: NUL_def)
  qed
  then have "length (c_string (testdmx_label i)) < 64" if "i < 16" for i
    using that by (auto simp: c_string_def testdmx_label_def NUL_def takeWhile_replicate numeral_eq_Suc)
  then show ?thesis
    by (simp add: testdmx_wf_def testdmx_start_card_def testdmx_label_def c_string_def NUL_def numeral_eq_Suc)
qed

text \<open>
  The customer name of a card can be changed and read back: a name of fewer than 64 characters
  that a change request carries is what the next query answers, as a changeable value of at most 63
  characters.
\<close>

theorem card_name_roundtrip:
  assumes "testdmx_wf u" and "kv_key t = DMX4LINUX2_ID_CUSTOMER_NAME" and "length (kv_value t) = 256"
    and "length (c_string (kv_value t)) < 64" and "in_card_index ci = cardno" and "in_tuple_count ci = 1"
    and "kv_key t' = DMX4LINUX2_ID_CUSTOMER_NAME" and "length (kv_value t') = 256" and "in_tuple_count ci' = 1"
  shows "\<exists>u' out r. testdmx_changeCardInfo cardno ci [t] u = Some (0, u') \<and> testdmx_wf u' \<and>
     testdmx_queryCardInfo cardno u' ci' (Some [t']) = Some (0, out, Some [r]) \<and>
     c_string (kv_value r) = c_string (kv_value t) \<and> kv_changable r \<and> kv_maxlength r = 63"
proof -
  have l: "length (td_customer_name u) = 64" using assms(1) by (simp add: testdmx_wf_def)
  obtain a where a: "c_strncpy (td_customer_name u) (kv_value t) = Some a" "length a = 64"
      "c_string a = c_string (kv_value t)"
    using c_strncpy_spec [of "kv_value t" "td_customer_name u"] assms(3,4) l by auto
  define u' where "u' = u\<lparr>td_customer_name := a\<rparr>"
  have ch: "testdmx_changeCardInfo cardno ci [t] u = Some (0, u')"
    using assms(2,5,6) a(1) by (simp add: testdmx_changeCardInfo_def change_card_tuple_def arr_get_def u'_def)
  have wf: "testdmx_wf u'" using assms(1,4) a by (simp add: testdmx_wf_def u'_def)
  obtain b where b: "c_strncpy (kv_value t') a = Some b" "c_string b = c_string a"
    using c_strncpy_spec [of a "kv_value t'"] assms(4,8) a by auto
  have "testdmx_queryCardInfo cardno u' ci' (Some [t']) = Some (0, ci'\<lparr>in_card_index := cardno, in_number := td_num_ports u'\<rparr>,
      Some [t'\<lparr>kv_value := b, kv_changable := True, kv_maxlength := 63\<rparr>])"
    using assms(7,9) b(1)
    by (simp add: testdmx_queryCardInfo_def fill_card_key_def fill_card_value_def arr_get_def arr_set_def Let_def
        supported_card_tuples_def tuple_id_defs u'_def)
  then show ?thesis using ch wf a(3) b(2) by auto
qed

definition demo_tuple :: "u32 \<Rightarrow> string \<Rightarrow> kv" where
  "demo_tuple k v = \<lparr>kv_key = k, kv_changable = False, kv_maxlength = 0, kv_value = take 256 (v @ replicate 256 NUL)\<rparr>"

definition demo_info :: "int \<Rightarrow> dmx4linux2_info" where
  "demo_info n = \<lparr>in_card_index = 0, in_number = n, in_tuple_count = 1, in_tuples = 1\<rparr>"

lemma demo_tuple_sel:
  "kv_key (demo_tuple k v) = k" "length (kv_value (demo_tuple k v)) = 256"
  "c_string (kv_value (demo_tuple k ''hall'')) = ''hall''"
  by (simp_all add: demo_tuple_def c_string_def NUL_def numeral_eq_Suc)

theorem card_name_roundtrip_witness:
  "\<exists>u' out r. testdmx_changeCardInfo 0 (demo_info 0) [demo_tuple DMX4LINUX2_ID_CUSTOMER_NAME ''hall''] testdmx_start_card = Some (0, u') \<and>
     testdmx_queryCardInfo 0 u' (demo_info 0) (Some [demo_tuple DMX4LINUX2_ID_CUSTOMER_NAME '''']) = Some (0, out, Some [r]) \<and>
     c_string (kv_value r) = ''hall''"
proof -
  have s: "length (c_string (kv_value (demo_tuple DMX4LINUX2_ID_CUSTOMER_NAME ''hall''))) < 64"
    by (simp add: demo_tuple_sel)
  have i: "in_card_index (demo_info 0) = 0" "in_tuple_count (demo_info 0) = 1" by (simp_all add: demo_info_def)
  show ?thesis
    using card_name_roundtrip [OF testdmx_start_wf demo_tuple_sel(1,2) s i demo_tuple_sel(1,2) i(2)]
    by (fastforce simp: demo_tuple_sel)
qed

text \<open>
  The label of a port can be changed and read back in the same way for each of the sixteen
  ports, and changing one leaves the labels of the others alone.
\<close>

theorem port_label_roundtrip:
  assumes "testdmx_wf u" and "td_num_ports u = 16" and "p < 16" and "kv_key t = DMX4LINUX2_ID_PORT_LABEL"
    and "length (kv_value t) = 256" and "length (c_string (kv_value t)) < 64"
    and "in_card_index pi = cardno" and "in_number pi = int p" and "in_tuple_count pi = 1"
    and "kv_key t' = DMX4LINUX2_ID_PORT_LABEL" and "length (kv_value t') = 256" and "in_tuple_count pi' = 1"
  shows "\<exists>u' out r. testdmx_changePortInfo cardno pi [t] (int p) u = Some (0, u') \<and> testdmx_wf u' \<and>
     testdmx_queryPortInfo cardno u' pi' (Some [t']) (int p) = Some (0, out, Some [r]) \<and>
     c_string (kv_value r) = c_string (kv_value t) \<and>
     (\<forall>q < 16. q \<noteq> p \<longrightarrow> td_port_labels u' ! q = td_port_labels u ! q)"
proof -
  let ?ls = "td_port_labels u"
  have l: "length ?ls = 16" "length (?ls ! p) = 64" using assms(1,3) by (simp_all add: testdmx_wf_def)
  obtain a where a: "c_strncpy (?ls ! p) (kv_value t) = Some a" "length a = 64" "c_string a = c_string (kv_value t)"
    using c_strncpy_spec [of "kv_value t" "?ls ! p"] assms(5,6) l by auto
  define u' where "u' = u\<lparr>td_port_labels := ?ls[p := a]\<rparr>"
  have ch: "testdmx_changePortInfo cardno pi [t] (int p) u = Some (0, u')"
    using assms(2-4,7-9) a(1) l
    by (simp add: testdmx_changePortInfo_def change_port_tuple_def arr_get_def arr_set_def u'_def)
  have wf: "testdmx_wf u'"
    using assms(1,6) a by (auto simp: testdmx_wf_def u'_def dest!: subsetD [OF set_update_subset_insert])
  obtain b where b: "c_strncpy (kv_value t') a = Some b" "c_string b = c_string a"
    using c_strncpy_spec [of a "kv_value t'"] assms(6,11) a by auto
  have "testdmx_queryPortInfo cardno u' pi' (Some [t']) (int p) = Some (0, pi'\<lparr>in_card_index := cardno, in_number := int p\<rparr>,
      Some [t'\<lparr>kv_value := b, kv_changable := True, kv_maxlength := 63\<rparr>])"
    using assms(2,3,10,12) b(1) l
    by (simp add: testdmx_queryPortInfo_def fill_port_key_def fill_port_value_def arr_get_def arr_set_def Let_def
        supported_port_tuples_def tuple_id_defs u'_def)
  then show ?thesis using ch wf a(3) b(2) by (auto simp: u'_def)
qed

theorem port_label_roundtrip_witness:
  "\<exists>u' out r. testdmx_changePortInfo 0 (demo_info 3) [demo_tuple DMX4LINUX2_ID_PORT_LABEL ''hall''] 3 testdmx_start_card = Some (0, u') \<and>
     testdmx_queryPortInfo 0 u' (demo_info 3) (Some [demo_tuple DMX4LINUX2_ID_PORT_LABEL '''']) 3 = Some (0, out, Some [r]) \<and>
     c_string (kv_value r) = ''hall''"
proof -
  have s: "length (c_string (kv_value (demo_tuple DMX4LINUX2_ID_PORT_LABEL ''hall''))) < 64"
    by (simp add: demo_tuple_sel)
  have i: "in_card_index (demo_info 3) = 0" "in_number (demo_info 3) = int 3" "in_tuple_count (demo_info 3) = 1"
    by (simp_all add: demo_info_def)
  have n: "td_num_ports testdmx_start_card = 16" "(3 :: nat) < 16" by (simp_all add: testdmx_start_card_def)
  show ?thesis
    using port_label_roundtrip [OF testdmx_start_wf n demo_tuple_sel(1,2) s i demo_tuple_sel(1,2) i(3)]
    by (fastforce simp: demo_tuple_sel)
qed

text \<open>
  The loop-back cards apply the wrong filter: a written frame carries the transmit flag when it
  is handed to the other card, so a file of the other card that selects every port with its receive
  filter and none with its transmit filter is not given the frame; its read stays pending.
\<close>

theorem loop_frame_uses_txfilter:
  assumes "has_flag (f_flags fr) DMX512_FLAGS_IS_TRANSMIT_FRAME" and "cuse_wf s"
    and "testdmx_sendFrame (\<lambda>_. False) user fr s = Some s'"
    and "dmx512_cuse_context (td_other_card user) (int i) s = Some ctx" and "cx_port_txmask ctx = 0"
  shows "dmx512_cuse_context (td_other_card user) (int i) s' = Some ctx"
proof -
  let ?c = "td_other_card user"
  obtain cs where cs: "cu_contexts s ?c = Some cs" "i < length cs" "cs ! i = ctx" "i < DMX512_CUSE_CONTEXT_COUNT"
    using context_Some [OF assms(4)] by auto
  have len: "length cs = DMX512_CUSE_CONTEXT_COUNT" using assms(2) cs(1) by (simp add: cuse_wf_def)
  have ho: "offer_frame_to (\<lambda>_. False) ?c fr [0..<DMX512_CUSE_CONTEXT_COUNT] s = Some s'"
    using assms(3) by (simp add: testdmx_sendFrame_def dmx512_cuse_handle_received_frame_def)
  have is32: "set [0..<DMX512_CUSE_CONTEXT_COUNT] \<subseteq> {..<DMX512_CUSE_CONTEXT_COUNT}" by auto
  obtain free ctx' free' rs cs' where o: "offer_ctx (\<lambda>_. False) fr ctx free = Some (ctx', free', rs)"
      "cu_contexts s' ?c = Some cs'" "cs' ! i = ctx'"
    using offer_frame_at [OF ho cs(1) len is32, of i, unfolded cs(3)] cs(4) by (simp only: set_upt) force
  have "length cs' = DMX512_CUSE_CONTEXT_COUNT"
    using offer_frame_to_conserves [OF ho cs(1) len is32] o(2) by auto
  moreover have "ctx' = ctx"
    using o(1) assms(1,5) by (auto simp: offer_ctx_def Let_def bind_eq_Some split: if_splits option.splits)
  ultimately show ?thesis using context_index [OF o(2), of i] o(3) cs(4) by simp
qed

theorem loop_frame_uses_txfilter_witness:
  "\<exists>s'. testdmx_sendFrame (\<lambda>_. False) (testdmx_start_card\<lparr>td_other_card := 1\<rparr>)
       (zero_frame\<lparr>f_port := 2, f_flags := 0x8000\<rparr>) demo_cuse = Some s' \<and>
     dmx512_cuse_context 1 0 s' = Some demo_ctx \<and> cx_port_mask demo_ctx = 4 \<and> cx_read_req demo_ctx = Some 9"
proof -
  let ?fr = "zero_frame\<lparr>f_port := 2, f_flags := 0x8000\<rparr>" and ?u = "testdmx_start_card\<lparr>td_other_card := 1\<rparr>"
  have p: "unat (f_port ?fr) < 32" by simp
  obtain s' where "dmx512_cuse_handle_received_frame (\<lambda>_. False) 1 ?fr demo_cuse = Some s'"
    using handle_received_ok [OF demo_cuse_sel(1,2) p] by blast
  then have s': "testdmx_sendFrame (\<lambda>_. False) ?u ?fr demo_cuse = Some s'" by (simp add: testdmx_sendFrame_def)
  have f: "has_flag (f_flags ?fr) DMX512_FLAGS_IS_TRANSMIT_FRAME" by (simp add: has_flag_def dmx512_flag_defs)
  have c: "dmx512_cuse_context (td_other_card ?u) (int 0) demo_cuse = Some demo_ctx" "cx_port_txmask demo_ctx = 0"
    using demo_cuse_sel(3) by (simp_all add: demo_ctx_def zero_context_def)
  show ?thesis
    using loop_frame_uses_txfilter [OF f demo_cuse_sel(1) s' c] s' by (auto simp: demo_ctx_def)
qed

end
