(* ===== verification/Dmx_Controller.thy ===== *)
theory Dmx_Controller
  imports Prelude
begin

text \<open>
  Access to the DMX controller core over a memory window (\<^verbatim>\<open>src/src/uio/uio.c\<close> and
  \<^verbatim>\<open>src/src/cuse-drivers/uio_dmxcontroller.h\<close>): four registers of the core and four of each port, the first
  of which is the port's fifo.

  The device behind the window is a parameter: what reading and writing an element of the window, and
  enabling its interrupt, does to the state of the device. An \<open>unsigned long\<close> is a \<^typ>\<open>u64\<close>.
\<close>

section \<open>The window\<close>

record 'd uio_dev =
  ud_read :: "nat \<Rightarrow> 'd \<Rightarrow> u64 \<times> 'd"
  ud_write :: "nat \<Rightarrow> u64 \<Rightarrow> 'd \<Rightarrow> 'd"
  ud_irq :: "bool \<Rightarrow> 'd \<Rightarrow> 'd"

text \<open>A handle is the device or null.\<close>

definition uio_poke :: "'d uio_dev \<Rightarrow> nat \<Rightarrow> u64 \<Rightarrow> 'd option \<Rightarrow> 'd option" where
  "uio_poke D address val h = (case h of Some d \<Rightarrow> Some (ud_write D (address div 4) val d) | None \<Rightarrow> None)"

definition uio_peek :: "'d uio_dev \<Rightarrow> nat \<Rightarrow> 'd option \<Rightarrow> u64 \<times> 'd option" where
  "uio_peek D address h = (case h of
     Some d \<Rightarrow> (case ud_read D (address div 4) d of (v, d) \<Rightarrow> (v, Some d))
   | None \<Rightarrow> (0, None))"

text \<open>The interrupt calls use the descriptor in the handle without a test; \<^term>\<open>None\<close> is the access to null.\<close>

definition uio_enable_interrupt :: "'d uio_dev \<Rightarrow> 'd option \<Rightarrow> 'd option option" where
  "uio_enable_interrupt D h = (case h of Some d \<Rightarrow> Some (Some (ud_irq D True d)) | None \<Rightarrow> None)"

definition uio_disable_interrupt :: "'d uio_dev \<Rightarrow> 'd option \<Rightarrow> 'd option option" where
  "uio_disable_interrupt D h = (case h of Some d \<Rightarrow> Some (Some (ud_irq D False d)) | None \<Rightarrow> None)"

section \<open>Registers\<close>

definition DMX_IPCOREIDENT_REGNO :: nat where "DMX_IPCOREIDENT_REGNO = 0"
definition DMX_IPCOREIDENT_MAGIC :: u64 where "DMX_IPCOREIDENT_MAGIC = 0x444D5801"
definition DMX_IPCORE_CONFIG_REGNO :: nat where "DMX_IPCORE_CONFIG_REGNO = 1"
definition DMX_IPCORE_CONFIG_PORTCOUNT :: "u64 \<Rightarrow> u64" where "DMX_IPCORE_CONFIG_PORTCOUNT x = x AND 63"
definition DMX_IRQ_STATUS_REGNO :: nat where "DMX_IRQ_STATUS_REGNO = 2"
definition DMX_IRQ_ENABLE_REGNO :: nat where "DMX_IRQ_ENABLE_REGNO = 3"
definition DMX_FIFODATA_REGNO :: nat where "DMX_FIFODATA_REGNO = 0"
definition DMX_PORTCONFIG_REGNO :: nat where "DMX_PORTCONFIG_REGNO = 1"
definition DMX_STATUS_REGNO :: nat where "DMX_STATUS_REGNO = 2"
definition DMX_FIFOCONFIG_REGNO :: nat where "DMX_FIFOCONFIG_REGNO = 3"

definition DMX_RXFIFO_BREAK :: "u64 \<Rightarrow> bool" where "DMX_RXFIFO_BREAK s \<longleftrightarrow> bit s 8"
definition DMX_RXFIFO_DATA :: "u64 \<Rightarrow> u64" where "DMX_RXFIFO_DATA s = s AND 0xff"
definition DMX_STATUS_TXFIFOEMPTY :: "u64 \<Rightarrow> bool" where "DMX_STATUS_TXFIFOEMPTY s \<longleftrightarrow> bit s 28"
definition DMX_STATUS_RXFIFOEMPTY :: "u64 \<Rightarrow> bool" where "DMX_STATUS_RXFIFOEMPTY s \<longleftrightarrow> bit s 24"

lemmas dmx_regno_defs = DMX_IPCOREIDENT_REGNO_def DMX_IPCORE_CONFIG_REGNO_def DMX_IRQ_STATUS_REGNO_def
  DMX_IRQ_ENABLE_REGNO_def DMX_FIFODATA_REGNO_def DMX_PORTCONFIG_REGNO_def DMX_STATUS_REGNO_def
  DMX_FIFOCONFIG_REGNO_def

lemmas dmx_field_defs = DMX_RXFIFO_BREAK_def DMX_RXFIFO_DATA_def DMX_STATUS_TXFIFOEMPTY_def DMX_STATUS_RXFIFOEMPTY_def

section \<open>Accesses\<close>

definition write_dmx_reg :: "'d uio_dev \<Rightarrow> nat \<Rightarrow> u64 \<Rightarrow> 'd option \<Rightarrow> 'd option" where
  "write_dmx_reg D regno v h = uio_poke D (4 * regno) v h"

definition read_dmx_reg :: "'d uio_dev \<Rightarrow> nat \<Rightarrow> 'd option \<Rightarrow> u64 \<times> 'd option" where
  "read_dmx_reg D regno h = uio_peek D (4 * regno) h"

definition dmx_portregister_regno :: "nat \<Rightarrow> nat \<Rightarrow> nat" where
  "dmx_portregister_regno portno regno = 4 * (1 + portno) + regno"

definition dmx_portregister_offset :: "nat \<Rightarrow> nat \<Rightarrow> nat" where
  "dmx_portregister_offset portno regno = 4 * (4 * (1 + portno) + regno)"

definition write_dmx_port_reg :: "'d uio_dev \<Rightarrow> nat \<Rightarrow> nat \<Rightarrow> u64 \<Rightarrow> 'd option \<Rightarrow> 'd option" where
  "write_dmx_port_reg D portno regno v h = uio_poke D (dmx_portregister_offset portno regno) v h"

definition read_dmx_port_reg :: "'d uio_dev \<Rightarrow> nat \<Rightarrow> nat \<Rightarrow> 'd option \<Rightarrow> u64 \<times> 'd option" where
  "read_dmx_port_reg D portno regno h = uio_peek D (dmx_portregister_offset portno regno) h"

definition write_fifo :: "'d uio_dev \<Rightarrow> nat \<Rightarrow> u64 \<Rightarrow> 'd option \<Rightarrow> 'd option" where
  "write_fifo D portno v h = write_dmx_port_reg D portno DMX_FIFODATA_REGNO v h"

definition read_fifo :: "'d uio_dev \<Rightarrow> nat \<Rightarrow> 'd option \<Rightarrow> u64 \<times> 'd option" where
  "read_fifo D portno h = read_dmx_port_reg D portno DMX_FIFODATA_REGNO h"

definition read_fifo_status :: "'d uio_dev \<Rightarrow> nat \<Rightarrow> 'd option \<Rightarrow> u64 \<times> 'd option" where
  "read_fifo_status D portno h = read_dmx_port_reg D portno DMX_STATUS_REGNO h"

definition read_port_config :: "'d uio_dev \<Rightarrow> nat \<Rightarrow> 'd option \<Rightarrow> u64 \<times> 'd option" where
  "read_port_config D portno h = read_dmx_port_reg D portno DMX_PORTCONFIG_REGNO h"

definition write_port_config :: "'d uio_dev \<Rightarrow> nat \<Rightarrow> u64 \<Rightarrow> 'd option \<Rightarrow> 'd option" where
  "write_port_config D portno v h = write_dmx_port_reg D portno DMX_PORTCONFIG_REGNO v h"

definition read_fifo_config :: "'d uio_dev \<Rightarrow> nat \<Rightarrow> 'd option \<Rightarrow> u64 \<times> 'd option" where
  "read_fifo_config D portno h = read_dmx_port_reg D portno DMX_FIFOCONFIG_REGNO h"

definition write_fifo_config :: "'d uio_dev \<Rightarrow> nat \<Rightarrow> u64 \<Rightarrow> 'd option \<Rightarrow> 'd option" where
  "write_fifo_config D portno v h = write_dmx_port_reg D portno DMX_FIFOCONFIG_REGNO v h"

definition is_dmx1_ipcore :: "'d uio_dev \<Rightarrow> 'd option \<Rightarrow> bool \<times> 'd option" where
  "is_dmx1_ipcore D h = (case read_dmx_reg D DMX_IPCOREIDENT_REGNO h of (v, h) \<Rightarrow> (v = DMX_IPCOREIDENT_MAGIC, h))"

definition dmx1_port_count :: "'d uio_dev \<Rightarrow> 'd option \<Rightarrow> nat \<times> 'd option" where
  "dmx1_port_count D h = (case read_dmx_reg D DMX_IPCORE_CONFIG_REGNO h of
     (v, h) \<Rightarrow> (unat (DMX_IPCORE_CONFIG_PORTCOUNT v), h))"

definition dmx_write_global_irqenable :: "'d uio_dev \<Rightarrow> u64 \<Rightarrow> 'd option \<Rightarrow> 'd option" where
  "dmx_write_global_irqenable D v h = write_dmx_reg D DMX_IRQ_ENABLE_REGNO v h"

definition dmx_read_global_irqenable :: "'d uio_dev \<Rightarrow> 'd option \<Rightarrow> u64 \<times> 'd option" where
  "dmx_read_global_irqenable D h = read_dmx_reg D DMX_IRQ_ENABLE_REGNO h"

definition dmx_read_global_irqstatus :: "'d uio_dev \<Rightarrow> 'd option \<Rightarrow> u64 \<times> 'd option" where
  "dmx_read_global_irqstatus D h = read_dmx_reg D DMX_IRQ_STATUS_REGNO h"

section \<open>Separation of the registers\<close>

text \<open>Which element of the window an access reaches.\<close>

lemma port_register_element: "dmx_portregister_offset p r div 4 = dmx_portregister_regno p r"
  by (simp add: dmx_portregister_offset_def dmx_portregister_regno_def)

lemma portregister_inj:
  assumes "r < 4" and "r' < 4" and "dmx_portregister_regno p r = dmx_portregister_regno p' r'"
  shows "p = p' \<and> r = r'"
  using assms unfolding dmx_portregister_regno_def by presburger

lemma portregister_not_global: "r < 4 \<Longrightarrow> dmx_portregister_regno p r' \<noteq> r"
  by (simp add: dmx_portregister_regno_def)

lemma write_fifo_Some: "write_fifo D p v (Some d) = Some (ud_write D (4 + 4 * p) v d)"
  by (simp add: write_fifo_def write_dmx_port_reg_def uio_poke_def port_register_element
      dmx_portregister_regno_def dmx_regno_defs)

lemma read_fifo_Some: "read_fifo D p (Some d) = (case ud_read D (4 + 4 * p) d of (v, d) \<Rightarrow> (v, Some d))"
  by (simp add: read_fifo_def read_dmx_port_reg_def uio_peek_def port_register_element
      dmx_portregister_regno_def dmx_regno_defs)

lemma read_status_Some: "read_fifo_status D p (Some d) = (case ud_read D (6 + 4 * p) d of (v, d) \<Rightarrow> (v, Some d))"
  by (simp add: read_fifo_status_def read_dmx_port_reg_def uio_peek_def port_register_element
      dmx_portregister_regno_def dmx_regno_defs)

end
