(* ===== verification/Cuse_Llgip.thy ===== *)
theory Cuse_Llgip
  imports Cuse_Loop Dmx_Controller
begin

text \<open>
  The user space card on the DMX controller core (\<^verbatim>\<open>src/src/cuse-drivers/dmx512_cuse_llgip.c\<close>, compiled
  as it is checked in: with learning of the frame size and without RDM). Each port of the core has a
  receive fifo whose words are breaks and octets; a state machine collects them to frames, learns the
  size of the frames, and then completes a frame as soon as it has that size.

  \<open>dl\<close> is the call \<open>dmx512_cuse_handle_received_frame(card, frame)\<close> on the state of the CUSE
  device. \<^term>\<open>None\<close> is an access outside an array or a fifo that never gets empty.
\<close>

section \<open>State\<close>

record llgdmx_port =
  lp_state :: u32
  lp_frame :: dmx512frame
  lp_port_label :: string
  lp_expected_rx_frame_size :: u16
  lr_enabled :: bool
  lr_locked :: bool
  lr_learnedsize :: u16
  lr_lastsize :: u16
  lr_repetion_count :: int
  lr_repetion_count_treshold :: int

record 'd dmxllgip_card =
  lc_customer_name :: string
  lc_uio :: "'d option"
  lc_card :: addr
  lc_num_ports :: nat
  lc_ports :: "llgdmx_port list"

section \<open>Information about the card and its ports\<close>

definition llgip_card_tuples :: "u32 list" where
  "llgip_card_tuples = [DMX4LINUX2_ID_MANUFACTURER, DMX4LINUX2_ID_PRODUCT, DMX4LINUX2_ID_SERIAL_NUMBER]"

definition llgip_card_key :: "nat \<Rightarrow> kv list \<Rightarrow> kv list option" where
  "llgip_card_key i ts = do {
     t \<leftarrow> arr_get ts i;
     if kv_key t = DMX4LINUX2_ID_NONE then do {
       k \<leftarrow> arr_get llgip_card_tuples i;
       arr_set ts i (t\<lparr>kv_key := k\<rparr>) }
     else Some ts }"

definition llgip_card_value :: "nat \<Rightarrow> kv list \<Rightarrow> kv list option" where
  "llgip_card_value i ts = do {
     t \<leftarrow> arr_get ts i;
     v \<leftarrow> c_strcpy (kv_value t)
       (if kv_key t = DMX4LINUX2_ID_MANUFACTURER then ''LLG''
        else if kv_key t = DMX4LINUX2_ID_PRODUCT then ''dmxllgip''
        else if kv_key t = DMX4LINUX2_ID_SERIAL_NUMBER then ''????????'' else '''');
     arr_set ts i (t\<lparr>kv_value := v\<rparr>) }"

definition dmxllgip_queryCardInfo ::
  "int \<Rightarrow> 'd dmxllgip_card option \<Rightarrow> dmx4linux2_info \<Rightarrow> kv list option \<Rightarrow> (int \<times> dmx4linux2_info \<times> kv list option) option" where
  "dmxllgip_queryCardInfo cardno user cardinfo tuples = (case user of
     None \<Rightarrow> Some (-1, cardinfo, tuples)
   | Some user \<Rightarrow>
       let cardinfo = cardinfo\<lparr>in_card_index := cardno, in_number := int (lc_num_ports user)\<rparr>;
           n = nat (in_tuple_count cardinfo)
       in case tuples of
         Some ts \<Rightarrow> do {
           ts \<leftarrow> for_each [0..<n] llgip_card_key ts;
           ts \<leftarrow> for_each [0..<min n (length llgip_card_tuples)] llgip_card_value ts;
           Some (0, cardinfo, Some ts) }
       | None \<Rightarrow> Some (0, cardinfo\<lparr>in_tuple_count := int (length llgip_card_tuples)\<rparr>, None))"

definition llgip_change_card_tuple :: "kv list \<Rightarrow> nat \<Rightarrow> 'd dmxllgip_card \<Rightarrow> 'd dmxllgip_card option" where
  "llgip_change_card_tuple ts i user = do {
     t \<leftarrow> arr_get ts i;
     if kv_key t = DMX4LINUX2_ID_CUSTOMER_NAME then do {
       v \<leftarrow> c_strncpy (lc_customer_name user) (kv_value t);
       Some (user\<lparr>lc_customer_name := v\<rparr>) }
     else Some user }"

definition dmxllgip_changeCardInfo ::
  "int \<Rightarrow> dmx4linux2_info \<Rightarrow> kv list option \<Rightarrow> 'd dmxllgip_card option \<Rightarrow> (int \<times> 'd dmxllgip_card option) option" where
  "dmxllgip_changeCardInfo cardno cardinfo tuples user = (case user of
     None \<Rightarrow> Some (-1, None)
   | Some u \<Rightarrow>
       if in_card_index cardinfo \<noteq> cardno then Some (-1, user)
       else (case tuples of
         Some ts \<Rightarrow>
           if in_tuple_count cardinfo > 0 then do {
             u \<leftarrow> for_each [0..<nat (in_tuple_count cardinfo)] (llgip_change_card_tuple ts) u;
             Some (0, Some u) }
           else Some (0, user)
       | None \<Rightarrow> Some (0, user)))"

definition llgip_port_key :: "nat \<Rightarrow> kv list \<Rightarrow> kv list option" where
  "llgip_port_key i ts = do {
     t \<leftarrow> arr_get ts i;
     if kv_key t = DMX4LINUX2_ID_NONE then do {
       k \<leftarrow> arr_get [DMX4LINUX2_ID_PORT_LABEL] i;
       arr_set ts i (t\<lparr>kv_key := k\<rparr>) }
     else Some ts }"

definition llgip_port_value :: "'d dmxllgip_card \<Rightarrow> nat \<Rightarrow> nat \<Rightarrow> kv list \<Rightarrow> kv list option" where
  "llgip_port_value user portIndex i ts = do {
     t \<leftarrow> arr_get ts i;
     t \<leftarrow> (if kv_key t = DMX4LINUX2_ID_PORT_LABEL then do {
               p \<leftarrow> arr_get (lc_ports user) portIndex;
               v \<leftarrow> c_strncpy (kv_value t) (lp_port_label p);
               Some (t\<lparr>kv_value := v, kv_changable := False, kv_maxlength := 63\<rparr>) }
           else Some (t\<lparr>kv_key := DMX4LINUX2_ID_NONE\<rparr>));
     arr_set ts i t }"

text \<open>The port index is compared as an unsigned number, so that a negative one is refused.\<close>

definition llgip_bad_port :: "int \<Rightarrow> 'd dmxllgip_card \<Rightarrow> bool" where
  "llgip_bad_port portIndex user \<longleftrightarrow> unat (word_of_int portIndex :: u32) \<ge> lc_num_ports user"

definition dmxllgip_queryPortInfo ::
  "int \<Rightarrow> 'd dmxllgip_card option \<Rightarrow> dmx4linux2_info \<Rightarrow> kv list option \<Rightarrow> int \<Rightarrow>
   (int \<times> dmx4linux2_info \<times> kv list option) option" where
  "dmxllgip_queryPortInfo cardno user portinfo tuples portIndex = (case user of
     None \<Rightarrow> Some (-1, portinfo, tuples)
   | Some user \<Rightarrow>
       if llgip_bad_port portIndex user then Some (-1, portinfo, tuples)
       else
         let portinfo = portinfo\<lparr>in_card_index := cardno, in_number := portIndex\<rparr>;
             n = nat (in_tuple_count portinfo)
         in case (if in_tuple_count portinfo > 0 then tuples else None) of
           Some ts \<Rightarrow> do {
             ts \<leftarrow> for_each [0..<min n 1] llgip_port_key ts;
             ts \<leftarrow> for_each [0..<n] (llgip_port_value user (nat portIndex)) ts;
             Some (0, portinfo, Some ts) }
         | None \<Rightarrow> Some (0, portinfo\<lparr>in_tuple_count := 1\<rparr>, tuples))"

definition llgip_change_port_tuple :: "kv list \<Rightarrow> nat \<Rightarrow> nat \<Rightarrow> 'd dmxllgip_card \<Rightarrow> 'd dmxllgip_card option" where
  "llgip_change_port_tuple ts portIndex i user = do {
     t \<leftarrow> arr_get ts i;
     if kv_key t = DMX4LINUX2_ID_PORT_LABEL then do {
       p \<leftarrow> arr_get (lc_ports user) portIndex;
       v \<leftarrow> c_strncpy (lp_port_label p) (kv_value t);
       ps \<leftarrow> arr_set (lc_ports user) portIndex (p\<lparr>lp_port_label := v\<rparr>);
       Some (user\<lparr>lc_ports := ps\<rparr>) }
     else Some user }"

definition dmxllgip_changePortInfo ::
  "int \<Rightarrow> dmx4linux2_info \<Rightarrow> kv list option \<Rightarrow> int \<Rightarrow> 'd dmxllgip_card option \<Rightarrow> (int \<times> 'd dmxllgip_card option) option" where
  "dmxllgip_changePortInfo cardno portinfo tuples portIndex user = (case user of
     None \<Rightarrow> Some (-1, None)
   | Some u \<Rightarrow>
       if llgip_bad_port portIndex u then Some (-1, user)
       else if in_card_index portinfo \<noteq> cardno then Some (-1, user)
       else (case tuples of
         Some ts \<Rightarrow>
           if in_tuple_count portinfo > 0 then do {
             u \<leftarrow> for_each [0..<nat (in_tuple_count portinfo)] (llgip_change_port_tuple ts (nat portIndex)) u;
             Some (0, Some u) }
           else Some (0, user)
       | None \<Rightarrow> Some (0, user)))"

section \<open>Reception\<close>

type_synonym 's deliver = "dmx512frame \<Rightarrow> 's \<Rightarrow> 's option"

definition upd_frame :: "(dmx512frame \<Rightarrow> dmx512frame) \<Rightarrow> llgdmx_port \<Rightarrow> llgdmx_port" where
  "upd_frame g p = p\<lparr>lp_frame := g (lp_frame p)\<rparr>"

definition llgip_lose_lock :: "llgdmx_port \<Rightarrow> llgdmx_port" where
  "llgip_lose_lock p = p\<lparr>lr_locked := False, lr_learnedsize := 512, lr_lastsize := 512, lr_repetion_count := 0\<rparr>"

text \<open>At a break: learning the size of a frame with start code 0, or comparing it.\<close>

definition llgip_learn :: "llgdmx_port \<Rightarrow> llgdmx_port" where
  "llgip_learn p = (
     let sz = f_payload_size (lp_frame p) in
     if sz > 0 \<and> f_startcode (lp_frame p) = 0 then
       (if \<not> lr_locked p then
          (if lr_enabled p then
             let p = (if sz = lr_lastsize p then p\<lparr>lr_repetion_count := lr_repetion_count p + 1\<rparr>
                      else p\<lparr>lr_repetion_count := 0\<rparr>);
                 p = (if lr_repetion_count p > lr_repetion_count_treshold p
                      then p\<lparr>lr_locked := True, lr_learnedsize := lr_lastsize p\<rparr> else p)
             in p\<lparr>lr_lastsize := sz\<rparr>
           else p)
        else if sz \<noteq> lr_lastsize p then llgip_lose_lock p else p)
     else p)"

definition llgip_rx_break :: "'s deliver \<Rightarrow> nat \<Rightarrow> u64 \<Rightarrow> llgdmx_port \<times> 's \<Rightarrow> (llgdmx_port \<times> 's) option" where
  "llgip_rx_break dl portno x ps = (case ps of (p, s) \<Rightarrow> do {
     c \<leftarrow> arr_get (f_unused (lp_frame p)) 0;
     let p = upd_frame (\<lambda>f. f\<lparr>f_unused := (f_unused f)[0 := c + 1]\<rparr>) p;
     let p = llgip_learn p;
     (p, s) \<leftarrow> (if f_payload_size (lp_frame p) > 0 then do {
         s \<leftarrow> dl (lp_frame p) s;
         Some (upd_frame (\<lambda>f. f\<lparr>f_payload_size := 0\<rparr>) p, s) }
       else Some (p, s));
     Some ((upd_frame (\<lambda>f. f\<lparr>f_port := of_nat portno, f_flags := 0,
         f_breaksize := ucast (drop_bit 2 (DMX_RXFIFO_DATA x)), f_payload_size := 0\<rparr>) p)\<lparr>lp_state := 1\<rparr>, s) })"

text \<open>The octet in state 1 is the start code, in state 2 the next slot.\<close>

definition llgip_rx_startcode :: "u64 \<Rightarrow> llgdmx_port \<Rightarrow> llgdmx_port option" where
  "llgip_rx_startcode x p = (
     if DMX_RXFIFO_DATA x = 0 then do {
       d \<leftarrow> arr_set (f_data (lp_frame p)) 0 (ucast (DMX_RXFIFO_DATA x));
       Some ((upd_frame (\<lambda>f. f\<lparr>f_payload_size := 1, f_data := d\<rparr>) p)\<lparr>lp_state := 2,
         lp_expected_rx_frame_size := (if lr_locked p then lr_learnedsize p else 520)\<rparr>) }
     else Some (p\<lparr>lp_state := 0\<rparr>))"

definition llgip_rx_slot :: "'s deliver \<Rightarrow> u64 \<Rightarrow> llgdmx_port \<times> 's \<Rightarrow> (llgdmx_port \<times> 's) option" where
  "llgip_rx_slot dl x ps = (case ps of (p, s) \<Rightarrow>
     let sz = f_payload_size (lp_frame p) in
     if sz < 513 then do {
       d \<leftarrow> arr_set (f_data (lp_frame p)) (unat sz) (ucast (DMX_RXFIFO_DATA x));
       let p = upd_frame (\<lambda>f. f\<lparr>f_data := d, f_payload_size := sz + 1\<rparr>) p;
       if lr_locked p \<and> f_payload_size (lp_frame p) = lr_learnedsize p then do {
         s \<leftarrow> dl (lp_frame p) s;
         Some ((upd_frame (\<lambda>f. f\<lparr>f_payload_size := 0\<rparr>) p)\<lparr>lp_state := 0\<rparr>, s) }
       else Some (p, s) }
     else Some (p, s))"

definition llgip_rx_word :: "'s deliver \<Rightarrow> nat \<Rightarrow> u64 \<Rightarrow> llgdmx_port \<times> 's \<Rightarrow> (llgdmx_port \<times> 's) option" where
  "llgip_rx_word dl portno x ps = (
     if DMX_RXFIFO_BREAK x then llgip_rx_break dl portno x ps
     else (case ps of (p, s) \<Rightarrow>
       if lp_state p = 0 then Some (if lr_locked p then llgip_lose_lock p else p, s)
       else if lp_state p = 1 then map_option (\<lambda>p. (p, s)) (llgip_rx_startcode x p)
       else if lp_state p = 2 then llgip_rx_slot dl x (p, s)
       else Some (p\<lparr>lp_state := 0\<rparr>, s)))"

definition read_rx_fifo :: "'d uio_dev \<Rightarrow> nat \<Rightarrow> 'd option \<Rightarrow> u64 \<times> 'd option" where
  "read_rx_fifo D portno h = read_fifo D portno h"

partial_function (option) llgip_rx_loop ::
  "'d uio_dev \<Rightarrow> 's deliver \<Rightarrow> nat \<Rightarrow> 'd option \<Rightarrow> llgdmx_port \<times> 's \<Rightarrow> ('d option \<times> llgdmx_port \<times> 's) option" where
  "llgip_rx_loop D dl portno h ps = (case read_rx_fifo D portno h of (x, h) \<Rightarrow>
     if DMX_STATUS_RXFIFOEMPTY x then Some (h, ps)
     else do {
       ps \<leftarrow> llgip_rx_word dl portno x ps;
       llgip_rx_loop D dl portno h ps })"

definition llgdmx_check_rx_port ::
  "'d uio_dev \<Rightarrow> 's deliver \<Rightarrow> nat \<Rightarrow> 'd dmxllgip_card \<times> 's \<Rightarrow> ('d dmxllgip_card \<times> 's) option" where
  "llgdmx_check_rx_port D dl portno cs = (case cs of (c, s) \<Rightarrow> do {
     p \<leftarrow> arr_get (lc_ports c) portno;
     (h, p, s) \<leftarrow> llgip_rx_loop D dl portno (lc_uio c) (p, s);
     Some (c\<lparr>lc_uio := h, lc_ports := (lc_ports c)[portno := p]\<rparr>, s) })"

definition llgdmx_check_rx ::
  "'d uio_dev \<Rightarrow> 's deliver \<Rightarrow> 'd dmxllgip_card \<times> 's \<Rightarrow> ('d dmxllgip_card \<times> 's) option" where
  "llgdmx_check_rx D dl cs = (case cs of (c, s) \<Rightarrow>
     case dmx_read_global_irqstatus D (lc_uio c) of (irqstat, h) \<Rightarrow>
       for_each [0..<lc_num_ports c]
         (\<lambda>i cs. if bit irqstat i then llgdmx_check_rx_port D dl i cs else Some cs) (c\<lparr>lc_uio := h\<rparr>, s))"

section \<open>Set-up\<close>

definition llgdmx_setup_receiver :: "'d uio_dev \<Rightarrow> 'd dmxllgip_card \<Rightarrow> 'd dmxllgip_card option" where
  "llgdmx_setup_receiver D c = (
     let h = fold (\<lambda>i. write_fifo_config D i (push_bit 27 1 OR push_bit 26 1 OR push_bit 12 100 OR 513))
               [0..<lc_num_ports c] (lc_uio c);
         h = dmx_write_global_irqenable D (push_bit (lc_num_ports c) 1 - 1) h
     in do { h \<leftarrow> uio_enable_interrupt D h; Some (c\<lparr>lc_uio := h\<rparr>) })"

definition llgdmx_cleanup_receiver :: "'d uio_dev \<Rightarrow> 'd dmxllgip_card \<Rightarrow> 'd dmxllgip_card option" where
  "llgdmx_cleanup_receiver D c = do {
     h \<leftarrow> uio_disable_interrupt D (lc_uio c);
     Some (c\<lparr>lc_uio := dmx_write_global_irqenable D 0 h\<rparr>) }"

definition dmxllgip_init :: "'d uio_dev \<Rightarrow> addr \<Rightarrow> 'd dmxllgip_card option \<Rightarrow> (int \<times> 'd dmxllgip_card option) option" where
  "dmxllgip_init D crd user = (case user of
     None \<Rightarrow> Some (-1, None)
   | Some u \<Rightarrow>
       if lc_uio u = None then Some (-1, user)
       else do { u \<leftarrow> llgdmx_setup_receiver D (u\<lparr>lc_card := crd\<rparr>); Some (0, Some u) })"

text \<open>The result of \<open>dmxllgip_cleanup\<close> is not set by the code.\<close>

definition dmxllgip_cleanup :: "'d uio_dev \<Rightarrow> 'd dmxllgip_card option \<Rightarrow> 'd dmxllgip_card option" where
  "dmxllgip_cleanup D user = do {
     u \<leftarrow> user;
     if lc_card u \<noteq> NULL then do {
       u \<leftarrow> (if lc_uio u \<noteq> None then llgdmx_cleanup_receiver D u else Some u);
       Some (u\<lparr>lc_card := NULL\<rparr>) }
     else Some u }"

section \<open>Transmission\<close>

partial_function (option) dmxllgip_ll_waitForTransmitterToBecomeEmpty ::
  "'d uio_dev \<Rightarrow> nat \<Rightarrow> 'd option \<Rightarrow> 'd option option" where
  "dmxllgip_ll_waitForTransmitterToBecomeEmpty D port h = (case read_fifo_status D port h of (s, h) \<Rightarrow>
     if \<not> DMX_STATUS_TXFIFOEMPTY s then dmxllgip_ll_waitForTransmitterToBecomeEmpty D port h else Some h)"

definition llgip_breaksize :: "u8 \<Rightarrow> nat" where
  "llgip_breaksize b = (if unat b < 22 then 22 else if unat b > 63 then 63 else unat b)"

definition dmxllgip_ll_sendFrame :: "'d uio_dev \<Rightarrow> dmx512frame \<Rightarrow> 'd option \<Rightarrow> 'd option option" where
  "dmxllgip_ll_sendFrame D frame h = (
     if h = None then Some h
     else
       let port = unat (f_port frame);
           h = write_fifo D port (0x100 + of_nat (llgip_breaksize (f_breaksize frame) * 4) + 3) h;
           h = write_fifo D port (ucast (f_startcode frame)) h
       in for_each [0..<unat (f_payload_size frame)]
            (\<lambda>i h. do { v \<leftarrow> arr_get (f_payload frame) i; Some (write_fifo D port (ucast v) h) }) h)"

definition dmxllgip_sendFrame ::
  "'d uio_dev \<Rightarrow> dmx512frame option \<Rightarrow> 'd dmxllgip_card \<Rightarrow> (int \<times> 'd dmxllgip_card) option" where
  "dmxllgip_sendFrame D frame user = (case frame of
     None \<Rightarrow> Some (-1, user)
   | Some f \<Rightarrow>
       if lc_uio user \<noteq> None \<and> f_port f < 20 \<and> f_payload_size f > 0 then do {
         h \<leftarrow> dmxllgip_ll_waitForTransmitterToBecomeEmpty D (unat (f_port f)) (lc_uio user);
         h \<leftarrow> dmxllgip_ll_sendFrame D f h;
         Some (0, user\<lparr>lc_uio := h\<rparr>) }
       else Some (-1, user))"

text \<open>The interrupt: the read of the descriptor that waits for it has no effect on the card.\<close>

definition handle_llgdmx_interrupt ::
  "'d uio_dev \<Rightarrow> 's deliver \<Rightarrow> 'd dmxllgip_card \<times> 's \<Rightarrow> ('d dmxllgip_card \<times> 's) option" where
  "handle_llgdmx_interrupt D dl cs = do {
     (c, s) \<leftarrow> llgdmx_check_rx D dl cs;
     h \<leftarrow> uio_enable_interrupt D (lc_uio c);
     Some (c\<lparr>lc_uio := h\<rparr>, s) }"

section \<open>Start\<close>

definition zero_llgdmx_port :: llgdmx_port where
  "zero_llgdmx_port = \<lparr>lp_state = 0, lp_frame = zero_frame, lp_port_label = replicate 64 NUL,
     lp_expected_rx_frame_size = 0, lr_enabled = False, lr_locked = False, lr_learnedsize = 0, lr_lastsize = 0,
     lr_repetion_count = 0, lr_repetion_count_treshold = 0\<rparr>"

text \<open>What \<open>main\<close> sets up once the window is open; \<open>label i\<close> is the printed label. The port count of the
  core indexes the array of 32 ports.\<close>

definition llgip_main_setup ::
  "'d uio_dev \<Rightarrow> (nat \<Rightarrow> string) \<Rightarrow> 'd option \<Rightarrow> (int \<times> 'd dmxllgip_card option) option" where
  "llgip_main_setup D label uio = (
     if uio = None then Some (2, None)
     else (case is_dmx1_ipcore D uio of (ok, uio) \<Rightarrow>
       if \<not> ok then Some (2, None)
       else (case dmx1_port_count D uio of (port_count, uio) \<Rightarrow> do {
         ports \<leftarrow> for_each [0..<port_count] (\<lambda>i ps. do {
           p \<leftarrow> arr_get ps i;
           arr_set ps i (p\<lparr>lr_repetion_count_treshold := 20, lr_enabled := True\<rparr>) }) (replicate 32 zero_llgdmx_port);
         ports \<leftarrow> for_each [0..<port_count] (\<lambda>i ps. do {
           p \<leftarrow> arr_get ps i;
           arr_set ps i (p\<lparr>lp_port_label := take 64 (take 62 (label i) @ replicate 64 NUL)\<rparr>) }) ports;
         Some (0, Some \<lparr>lc_customer_name = take 64 (''customer label'' @ replicate 64 NUL), lc_uio = uio,
           lc_card = NULL, lc_num_ports = 14, lc_ports = ports\<rparr>) })))"

section \<open>Words of the fifo\<close>

fun llgip_rx_words :: "'s deliver \<Rightarrow> nat \<Rightarrow> u64 list \<Rightarrow> llgdmx_port \<times> 's \<Rightarrow> (llgdmx_port \<times> 's) option" where
  "llgip_rx_words dl portno [] ps = Some ps"
| "llgip_rx_words dl portno (x # xs) ps = do { ps \<leftarrow> llgip_rx_word dl portno x ps; llgip_rx_words dl portno xs ps }"

lemma llgip_rx_words_append:
  "llgip_rx_words dl portno (xs @ ys) ps = Option.bind (llgip_rx_words dl portno xs ps) (llgip_rx_words dl portno ys)"
proof (induction xs arbitrary: ps)
  case (Cons x xs)
  then show ?case by (cases "llgip_rx_word dl portno x ps") simp_all
qed simp

text \<open>A fifo that gives these words and then is empty.\<close>

fun fifo_gives :: "'d uio_dev \<Rightarrow> nat \<Rightarrow> 'd \<Rightarrow> u64 list \<Rightarrow> 'd \<Rightarrow> bool" where
  "fifo_gives D portno d [] d' \<longleftrightarrow> (\<exists>x. read_fifo D portno (Some d) = (x, Some d') \<and> DMX_STATUS_RXFIFOEMPTY x)"
| "fifo_gives D portno d (w # ws) d' \<longleftrightarrow>
     (\<exists>d1. read_fifo D portno (Some d) = (w, Some d1) \<and> \<not> DMX_STATUS_RXFIFOEMPTY w \<and> fifo_gives D portno d1 ws d')"

lemma rx_loop_words:
  assumes "fifo_gives D portno d ws d'"
  shows "llgip_rx_loop D dl portno (Some d) ps = map_option (\<lambda>ps. (Some d', ps)) (llgip_rx_words dl portno ws ps)"
  using assms
proof (induction ws arbitrary: d ps)
  case Nil
  then show ?case by (subst llgip_rx_loop.simps) (auto simp: read_rx_fifo_def)
next
  case (Cons w ws)
  then obtain d1 where d1: "read_fifo D portno (Some d) = (w, Some d1)" "\<not> DMX_STATUS_RXFIFOEMPTY w"
      "fifo_gives D portno d1 ws d'" by auto
  then have "llgip_rx_loop D dl portno (Some d) ps =
      Option.bind (llgip_rx_word dl portno w ps) (llgip_rx_loop D dl portno (Some d1))"
    by (subst llgip_rx_loop.simps) (simp add: read_rx_fifo_def)
  then show ?case using Cons.IH [OF d1(3)] by (cases "llgip_rx_word dl portno w ps") simp_all
qed

lemma octet_word [simp]:
  "\<not> DMX_RXFIFO_BREAK (ucast (v :: u8))" "DMX_RXFIFO_DATA (ucast v) = ucast v" "(ucast (ucast v :: u64) :: u8) = v"
proof -
  show "\<not> DMX_RXFIFO_BREAK (ucast v)" using bit_imp_le_length [of v 8] by (auto simp: DMX_RXFIFO_BREAK_def bit_simps)
  have m: "(0xff :: u64) = mask 8" by (simp add: mask_eq_exp_minus_1)
  show "DMX_RXFIFO_DATA (ucast v) = ucast v" unfolding DMX_RXFIFO_DATA_def m
    by (intro bit_eqI) (auto simp: bit_simps dest: bit_imp_le_length)
  show "(ucast (ucast v :: u64) :: u8) = v" by (rule bit_eqI) (simp add: bit_simps)
qed

section \<open>The invariant of a port\<close>

definition llgip_inv :: "nat \<Rightarrow> llgdmx_port \<Rightarrow> bool" where
  "llgip_inv portno p \<longleftrightarrow> frame_wf (lp_frame p) \<and> f_payload_size (lp_frame p) \<le> 513 \<and>
     lp_state p \<in> {0, 1, 2} \<and> (lp_state p \<noteq> 2 \<longrightarrow> f_payload_size (lp_frame p) = 0) \<and>
     (lp_state p \<noteq> 0 \<longrightarrow> f_port (lp_frame p) = of_nat portno) \<and> 0 \<le> lr_repetion_count_treshold p \<and> (lr_locked p \<longrightarrow> lr_learnedsize p = lr_lastsize p)"

lemma upd_frame_sel [simp]:
  "lp_frame (upd_frame g p) = g (lp_frame p)" "lp_state (upd_frame g p) = lp_state p"
  "lr_locked (upd_frame g p) = lr_locked p" "lr_learnedsize (upd_frame g p) = lr_learnedsize p"
  "lr_lastsize (upd_frame g p) = lr_lastsize p" "lr_enabled (upd_frame g p) = lr_enabled p"
  "lr_repetion_count (upd_frame g p) = lr_repetion_count p"
  "lr_repetion_count_treshold (upd_frame g p) = lr_repetion_count_treshold p"
  by (simp_all add: upd_frame_def)

lemma learn_sel [simp]:
  "lp_frame (llgip_learn p) = lp_frame p" "lp_state (llgip_learn p) = lp_state p"
  "lr_repetion_count_treshold (llgip_learn p) = lr_repetion_count_treshold p" "lr_enabled (llgip_learn p) = lr_enabled p"
  by (simp_all add: llgip_learn_def llgip_lose_lock_def Let_def)

lemma learn_inv: "llgip_inv portno p \<Longrightarrow> llgip_inv portno (llgip_learn p)"
  by (auto simp: llgip_inv_def llgip_learn_def llgip_lose_lock_def Let_def)

text \<open>Every frame a port delivers is well-formed, has between 1 and 513 octets and the number of the port.\<close>

definition deliverable :: "nat \<Rightarrow> dmx512frame \<Rightarrow> bool" where
  "deliverable portno f \<longleftrightarrow> f_port f = of_nat portno \<and> frame_wf f \<and> 0 < f_payload_size f \<and> f_payload_size f \<le> 513"

text \<open>A break in one equation: the frame collected so far is delivered, the next one begins.\<close>

definition break_counted :: "llgdmx_port \<Rightarrow> llgdmx_port" where
  "break_counted p = upd_frame (\<lambda>f. f\<lparr>f_unused := (f_unused f)[0 := f_unused f ! 0 + 1]\<rparr>) p"

definition after_break :: "nat \<Rightarrow> u64 \<Rightarrow> llgdmx_port \<Rightarrow> llgdmx_port" where
  "after_break portno x p = (upd_frame (\<lambda>f. f\<lparr>f_port := of_nat portno, f_flags := 0,
     f_breaksize := ucast (drop_bit 2 (DMX_RXFIFO_DATA x)), f_payload_size := 0\<rparr>) p)\<lparr>lp_state := 1\<rparr>"

lemma rx_break_eq:
  assumes "frame_wf (lp_frame p)"
  shows "llgip_rx_break dl portno x (p, s) =
     map_option (\<lambda>s. (after_break portno x (llgip_learn (break_counted p)), s))
       (if f_payload_size (lp_frame p) > 0 then dl (lp_frame (break_counted p)) s else Some s)"
proof -
  have "f_unused (lp_frame p) \<noteq> []" using assms by (auto simp: frame_wf_def)
  then show ?thesis by (cases "dl (lp_frame (break_counted p)) s")
    (simp_all add: llgip_rx_break_def arr_get_def break_counted_def after_break_def upd_frame_def Let_def)
qed

lemma llgip_break_inv:
  assumes "llgip_inv portno p"
  shows "llgip_inv portno (break_counted p)" "llgip_inv portno (after_break portno x p)"
  using assms by (simp_all add: llgip_inv_def frame_wf_def break_counted_def after_break_def)

lemma size_suc: "sz < (513 :: u16) \<Longrightarrow> unat (sz + 1) = unat sz + 1 \<and> sz + 1 \<le> 513 \<and> unat sz < 513"
  by (simp add: word_less_nat_alt word_le_nat_alt unat_word_ariths)

text \<open>A slot is stored; with a learned size the last one completes the frame.\<close>

definition slot_stored :: "u8 \<Rightarrow> llgdmx_port \<Rightarrow> llgdmx_port" where
  "slot_stored v p = upd_frame (\<lambda>f. f\<lparr>f_data := (f_data f)[unat (f_payload_size f) := v],
     f_payload_size := f_payload_size f + 1\<rparr>) p"

definition frame_done :: "llgdmx_port \<Rightarrow> llgdmx_port" where
  "frame_done p = (upd_frame (\<lambda>f. f\<lparr>f_payload_size := 0\<rparr>) p)\<lparr>lp_state := 0\<rparr>"

lemma slot_stored_sel [simp]:
  "f_payload_size (lp_frame (slot_stored v p)) = f_payload_size (lp_frame p) + 1"
  "f_data (lp_frame (slot_stored v p)) = (f_data (lp_frame p))[unat (f_payload_size (lp_frame p)) := v]"
  "lr_locked (slot_stored v p) = lr_locked p" "lr_learnedsize (slot_stored v p) = lr_learnedsize p"
  "lp_state (slot_stored v p) = lp_state p"
  by (simp_all add: slot_stored_def)

lemma rx_slot_eq:
  assumes "frame_wf (lp_frame p)" and "f_payload_size (lp_frame p) < 513"
  shows "llgip_rx_slot dl x (p, s) = (let q = slot_stored (ucast (DMX_RXFIFO_DATA x)) p in
     if lr_locked p \<and> f_payload_size (lp_frame p) + 1 = lr_learnedsize p
     then map_option (\<lambda>s. (frame_done q, s)) (dl (lp_frame q) s) else Some (q, s))"
proof -
  have "arr_set (f_data (lp_frame p)) (unat (f_payload_size (lp_frame p))) v =
      Some ((f_data (lp_frame p))[unat (f_payload_size (lp_frame p)) := v])" for v
    using assms by (simp add: arr_set_def frame_wf_def word_less_nat_alt)
  then show ?thesis using assms(2)
    by (simp add: llgip_rx_slot_def slot_stored_def frame_done_def upd_frame_def Let_def bind_Some_map)
qed

lemma slot_stored_inv:
  assumes "llgip_inv portno p" and "lp_state p = 2" and "f_payload_size (lp_frame p) < 513"
  shows "llgip_inv portno (slot_stored v p)" "deliverable portno (lp_frame (slot_stored v p))" "llgip_inv portno (frame_done (slot_stored v p))"
proof -
  show "llgip_inv portno (slot_stored v p)"
    using assms size_suc [OF assms(3)] by (simp add: slot_stored_def llgip_inv_def frame_wf_def)
  then show "deliverable portno (lp_frame (slot_stored v p))" "llgip_inv portno (frame_done (slot_stored v p))"
    using size_suc [OF assms(3)] assms(2)
    by (simp_all add: deliverable_def llgip_inv_def frame_done_def frame_wf_def word_less_nat_alt)
qed

section \<open>Receivers of frames\<close>

text \<open>What a port relies on when it passes a frame up: the receiver takes every deliverable frame in a state
  that satisfies its invariant \<open>P\<close>, and keeps that invariant.\<close>

locale frame_receiver =
  fixes dl :: "dmx512frame \<Rightarrow> 's \<Rightarrow> 's option"
    and P :: "'s \<Rightarrow> bool"
    and portno :: nat
  assumes received: "deliverable portno f \<Longrightarrow> P s \<Longrightarrow> \<exists>s'. dl f s = Some s' \<and> P s'"
begin

lemma rx_break_ok:
  assumes "llgip_inv portno p" and "P s"
  shows "\<exists>p' s'. llgip_rx_break dl portno x (p, s) = Some (p', s') \<and> llgip_inv portno p' \<and> P s'"
proof -
  have i: "llgip_inv portno (after_break portno x (llgip_learn (break_counted p)))"
    by (intro llgip_break_inv(2) learn_inv llgip_break_inv(1) assms(1))
  have e: "llgip_rx_break dl portno x (p, s) = map_option (\<lambda>s. (after_break portno x (llgip_learn (break_counted p)), s))
       (if f_payload_size (lp_frame p) > 0 then dl (lp_frame (break_counted p)) s else Some s)"
    by (rule rx_break_eq) (use assms(1) in \<open>simp add: llgip_inv_def\<close>)
  show ?thesis
  proof (cases "f_payload_size (lp_frame p) > 0")
    case True
    then have "deliverable portno (lp_frame (break_counted p))"
      using assms(1) by (auto simp: llgip_inv_def deliverable_def break_counted_def frame_wf_def)
    then obtain s' where "dl (lp_frame (break_counted p)) s = Some s'" "P s'" using received assms(2) by blast
    then show ?thesis using e i True by simp
  next
    case False
    then show ?thesis using e i assms(2) by simp
  qed
qed

lemma rx_slot_ok:
  assumes "llgip_inv portno p" and "lp_state p = 2" and "P s"
  shows "\<exists>p' s'. llgip_rx_slot dl x (p, s) = Some (p', s') \<and> llgip_inv portno p' \<and> P s'"
proof (cases "f_payload_size (lp_frame p) < 513")
  case True
  let ?q = "slot_stored (ucast (DMX_RXFIFO_DATA x)) p"
  note q = slot_stored_inv [OF assms(1,2) True]
  obtain s' where "dl (lp_frame ?q) s = Some s'" "P s'" using received [OF q(2) assms(3)] by blast
  then show ?thesis using rx_slot_eq [of p dl x s] True assms(1,3) q(1,3) by (simp add: llgip_inv_def Let_def)
next
  case False
  then show ?thesis using assms(1,3) by (simp add: llgip_rx_slot_def)
qed

lemma rx_word_ok:
  assumes "llgip_inv portno p" and "P s"
  shows "\<exists>p' s'. llgip_rx_word dl portno x (p, s) = Some (p', s') \<and> llgip_inv portno p' \<and> P s'"
proof -
  have st: "lp_state p = 0 \<or> lp_state p = 1 \<or> lp_state p = 2" using assms(1) by (simp add: llgip_inv_def)
  have "\<exists>p'. llgip_rx_startcode x p = Some p' \<and> llgip_inv portno p'" if "lp_state p = 1"
    using assms(1) that by (simp add: llgip_rx_startcode_def arr_set_def llgip_inv_def frame_wf_def word_le_nat_alt)
  moreover have "llgip_inv portno (llgip_lose_lock p)" using assms(1) by (simp add: llgip_inv_def llgip_lose_lock_def)
  ultimately show ?thesis
    using st rx_break_ok [OF assms, of x] rx_slot_ok [OF assms(1) _ assms(2), of x] assms
    by (auto simp: llgip_rx_word_def)
qed

lemma rx_words_ok:
  assumes "llgip_inv portno p" and "P s"
  shows "\<exists>p' s'. llgip_rx_words dl portno ws (p, s) = Some (p', s') \<and> llgip_inv portno p' \<and> P s'"
  using assms
proof (induction ws arbitrary: p s)
  case (Cons w ws)
  obtain p1 s1 where "llgip_rx_word dl portno w (p, s) = Some (p1, s1)" "llgip_inv portno p1" "P s1"
    using rx_word_ok [OF Cons.prems] by blast
  then show ?case using Cons.IH [of p1 s1] by simp
qed simp

lemma check_rx_port_ok:
  assumes "lc_uio c = Some e" and "portno < length (lc_ports c)" and "llgip_inv portno (lc_ports c ! portno)"
    and "fifo_gives D portno e ws e'" and "P s"
  shows "\<exists>p' s'. llgdmx_check_rx_port D dl portno (c, s) =
       Some (c\<lparr>lc_uio := Some e', lc_ports := (lc_ports c)[portno := p']\<rparr>, s') \<and> llgip_inv portno p' \<and> P s'"
proof -
  obtain p' s' where "llgip_rx_words dl portno ws (lc_ports c ! portno, s) = Some (p', s')" "llgip_inv portno p'" "P s'"
    using rx_words_ok [OF assms(3,5)] by blast
  then show ?thesis using rx_loop_words [OF assms(4), of dl "(lc_ports c ! portno, s)"] assms(1,2)
    by (intro exI [of _ p'] exI [of _ s']) (simp add: llgdmx_check_rx_port_def arr_get_def)
qed

end

text \<open>The CUSE device is such a receiver for the first 32 ports; its invariant has the frames and the readers of
  the card.\<close>

definition cuse_holds :: "addr \<Rightarrow> addr multiset \<Rightarrow> req multiset \<Rightarrow> cuse \<Rightarrow> bool" where
  "cuse_holds crd F R s \<longleftrightarrow> cuse_wf s \<and> cu_contexts s crd \<noteq> None \<and> card_frames crd s = F \<and> card_readers crd s = R"

lemma cuse_receives:
  assumes "deliverable (portno mod 32) f" and "cuse_holds crd F R s"
  shows "\<exists>s'. dmx512_cuse_handle_received_frame intr crd f s = Some s' \<and> cuse_holds crd F R s'"
proof -
  obtain cs where cs: "cu_contexts s crd = Some cs" using assms(2) by (auto simp: cuse_holds_def)
  have p: "unat (f_port f) < 32" using assms(1)
    by (simp add: deliverable_def unat_of_nat take_bit_nat_eq_self less_trans [of _ 32])
  obtain s' where s': "dmx512_cuse_handle_received_frame intr crd f s = Some s'" "cuse_wf s'"
      "card_frames crd s' = card_frames crd s" "card_readers crd s' = card_readers crd s"
    using handle_received_ok [OF _ cs p] assms(2) by (auto simp: cuse_holds_def)
  have "length cs = DMX512_CUSE_CONTEXT_COUNT" using assms(2) cs by (simp add: cuse_holds_def cuse_wf_def)
  moreover have "set [0..<DMX512_CUSE_CONTEXT_COUNT] \<subseteq> {..<DMX512_CUSE_CONTEXT_COUNT}" by auto
  ultimately have "cu_contexts s' crd \<noteq> None"
    using offer_frame_to_conserves [OF _ cs, of intr f "[0..<DMX512_CUSE_CONTEXT_COUNT]" s'] s'(1)
    by (auto simp: dmx512_cuse_handle_received_frame_def)
  then show ?thesis using s' assms(2) by (simp add: cuse_holds_def)
qed

interpretation cuse_rx: frame_receiver "dmx512_cuse_handle_received_frame intr crd" "cuse_holds crd F R" "portno mod 32"
  for intr crd F R portno
  by unfold_locales (rule cuse_receives)

section \<open>From one card to another\<close>

text \<open>The words of a frame on the line: the break with its length, the start code, the slots.\<close>

definition break_word :: "u8 \<Rightarrow> u64" where
  "break_word b = 0x100 + of_nat (llgip_breaksize b * 4) + 3"

definition tx_words :: "dmx512frame \<Rightarrow> u64 list" where
  "tx_words f = break_word (f_breaksize f) # map ucast (take (unat (f_payload_size f) + 1) (f_data f))"

lemma break_words: "\<forall>n \<in> set [22..<64]. bit (0x100 + of_nat (n * 4) + 3 :: u64) 8 \<and>
    unat (ucast (drop_bit 2 ((0x100 + of_nat (n * 4) + 3 :: u64) AND 0xff)) :: u8) = n"
  by code_simp

lemma break_word_facts:
  "DMX_RXFIFO_BREAK (break_word b)"
  "unat (ucast (drop_bit 2 (DMX_RXFIFO_DATA (break_word b))) :: u8) = llgip_breaksize b"
proof -
  have "llgip_breaksize b \<in> set [22..<64]" by (simp only: set_upt) (simp add: llgip_breaksize_def)
  then have "bit (break_word b) 8 \<and> unat (ucast (drop_bit 2 (break_word b AND 0xff)) :: u8) = llgip_breaksize b"
    unfolding break_word_def by (rule bspec [OF break_words])
  then show "DMX_RXFIFO_BREAK (break_word b)"
      "unat (ucast (drop_bit 2 (DMX_RXFIFO_DATA (break_word b))) :: u8) = llgip_breaksize b"
    unfolding dmx_field_defs by blast+
qed

lemma for_each_array:
  assumes "n \<le> length xs"
  shows "for_each [0..<n] (\<lambda>i h. do { v \<leftarrow> arr_get xs i; Some (g v h) }) h = Some (fold g (take n xs) h)"
  using assms
proof (induction n)
  case (Suc n)
  then show ?case by (simp add: for_each_append arr_get_def take_Suc_conv_app_nth)
qed simp

lemma fold_write_fifo: "fold (\<lambda>v. write_fifo D p (ucast v)) xs (Some d) = Some (fold (ud_write D (4 + 4 * p)) (map ucast xs) d)"
  by (induction xs arbitrary: d) (simp_all add: write_fifo_Some)

lemma ll_sendFrame_words:
  assumes "frame_wf f" and "f_payload_size f \<le> 512"
  shows "dmxllgip_ll_sendFrame D f (Some d) = Some (Some (fold (ud_write D (4 + 4 * unat (f_port f))) (tx_words f) d))"
proof -
  let ?n = "unat (f_payload_size f)"
  have n: "?n \<le> length (f_payload f)" using assms by (simp add: f_payload_def word_le_nat_alt)
  have d: "take (?n + 1) (f_data f) = f_startcode f # take ?n (f_payload f)"
    using assms(1) by (cases "f_data f") (auto simp: f_startcode_def f_payload_def frame_wf_def)
  show ?thesis
    by (simp add: dmxllgip_ll_sendFrame_def for_each_array [OF n] fold_write_fifo write_fifo_Some tx_words_def d [simplified]
        break_word_def Let_def)
qed

text \<open>Slots are stored one after the other as long as they do not reach a learned size.\<close>

lemma blit_update: "k < length d \<Longrightarrow> blit (d[k := v]) (Suc k) vs = blit d k (v # vs)"
  by (simp add: blit_def take_Suc_conv_app_nth)

lemma slots_stored:
  assumes "llgip_inv portno p" and "lp_state p = 2" and "unat (f_payload_size (lp_frame p)) + length vs \<le> 513"
    and "lr_locked p \<longrightarrow> unat (f_payload_size (lp_frame p)) + length vs < unat (lr_learnedsize p)"
  shows "\<exists>p'. llgip_rx_words dl portno (map ucast vs) (p, s) = Some (p', s) \<and> llgip_inv portno p' \<and> lp_state p' = 2 \<and>
     lp_frame p' = (lp_frame p)\<lparr>f_data := blit (f_data (lp_frame p)) (unat (f_payload_size (lp_frame p))) vs,
       f_payload_size := f_payload_size (lp_frame p) + of_nat (length vs)\<rparr> \<and>
     lr_locked p' = lr_locked p \<and> lr_learnedsize p' = lr_learnedsize p"
  using assms
proof (induction vs arbitrary: p)
  case Nil
  then show ?case by (simp add: blit_def)
next
  case (Cons v vs)
  have sz: "f_payload_size (lp_frame p) < 513" using Cons.prems(3) by (simp add: word_less_nat_alt)
  note suc = size_suc [OF sz]
  have wf: "frame_wf (lp_frame p)" using Cons.prems(1) by (simp add: llgip_inv_def)
  let ?q = "slot_stored v p"
  have ne: "\<not> (lr_locked p \<and> f_payload_size (lp_frame p) + 1 = lr_learnedsize p)"
    using Cons.prems(4) suc by auto
  then have "llgip_rx_slot dl (ucast v) (p, s) = Some (?q, s)"
    using rx_slot_eq [OF wf sz, of dl "ucast v" s] by (simp only: Let_def if_False octet_word)
  then have w: "llgip_rx_words dl portno (map ucast (v # vs)) (p, s) = llgip_rx_words dl portno (map ucast vs) (?q, s)"
    using Cons.prems(2) by (simp add: llgip_rx_word_def)
  obtain p' where p': "llgip_rx_words dl portno (map ucast vs) (?q, s) = Some (p', s)" "llgip_inv portno p'" "lp_state p' = 2"
      "lp_frame p' = (lp_frame ?q)\<lparr>f_data := blit (f_data (lp_frame ?q)) (unat (f_payload_size (lp_frame ?q))) vs,
         f_payload_size := f_payload_size (lp_frame ?q) + of_nat (length vs)\<rparr>"
      "lr_locked p' = lr_locked p" "lr_learnedsize p' = lr_learnedsize p"
    using Cons.IH [of ?q] slot_stored_inv(1) [OF Cons.prems(1,2) sz] Cons.prems(2-4) suc by auto
  have "unat (f_payload_size (lp_frame p)) < length (f_data (lp_frame p))" using wf suc by simp
  then have "lp_frame p' = (lp_frame p)\<lparr>f_data := blit (f_data (lp_frame p)) (unat (f_payload_size (lp_frame p))) (v # vs),
       f_payload_size := f_payload_size (lp_frame p) + of_nat (length (v # vs))\<rparr>"
    using p'(4) suc by (simp add: blit_update slot_stored_def upd_frame_def add.assoc)
  then show ?case using w p' by auto
qed

lemma learn_empty: "f_payload_size (lp_frame p) = 0 \<Longrightarrow> llgip_learn p = p"
  by (simp add: llgip_learn_def Let_def)

lemma after_break_sel [simp]:
  "lr_locked (after_break portno x p) = lr_locked p" "lr_learnedsize (after_break portno x p) = lr_learnedsize p"
  "lp_state (after_break portno x p) = 1"
  "lr_locked (break_counted p) = lr_locked p" "lr_learnedsize (break_counted p) = lr_learnedsize p"
  by (simp_all add: after_break_def break_counted_def)

text \<open>A break and the start code 0 begin a frame.\<close>

lemma frame_begins:
  assumes "llgip_inv portno p" and "f_payload_size (lp_frame p) = 0"
  shows "\<exists>p'. llgip_rx_words dl portno [break_word b, 0] (p, s) = Some (p', s) \<and> llgip_inv portno p' \<and> lp_state p' = 2 \<and>
     f_payload_size (lp_frame p') = 1 \<and> f_data (lp_frame p') = (f_data (lp_frame p))[0 := 0] \<and>
     f_port (lp_frame p') = of_nat portno \<and> f_flags (lp_frame p') = 0 \<and>
     unat (f_breaksize (lp_frame p')) = llgip_breaksize b \<and>
     lr_locked p' = lr_locked p \<and> lr_learnedsize p' = lr_learnedsize p"
proof -
  let ?q = "after_break portno (break_word b) (break_counted p)"
  have wf: "frame_wf (lp_frame p)" using assms(1) by (simp add: llgip_inv_def)
  have "llgip_learn (break_counted p) = break_counted p" using assms(2) by (intro learn_empty) (simp add: break_counted_def)
  then have b: "llgip_rx_word dl portno (break_word b) (p, s) = Some (?q, s)"
    using rx_break_eq [OF wf, of dl portno "break_word b" s] assms(2) break_word_facts(1) by (simp add: llgip_rx_word_def)
  have q: "llgip_inv portno ?q" by (intro llgip_break_inv assms(1))
  have z: "\<not> DMX_RXFIFO_BREAK 0" "DMX_RXFIFO_DATA 0 = 0" by (simp_all add: dmx_field_defs)
  define p' where "p' = (upd_frame (\<lambda>f. f\<lparr>f_payload_size := 1, f_data := (f_data f)[0 := 0]\<rparr>) ?q)\<lparr>lp_state := 2,
      lp_expected_rx_frame_size := (if lr_locked ?q then lr_learnedsize ?q else 520)\<rparr>"
  have "f_data (lp_frame ?q) \<noteq> []" using q by (auto simp: llgip_inv_def frame_wf_def)
  then have w: "llgip_rx_word dl portno 0 (?q, s) = Some (p', s)"
    using z by (simp add: llgip_rx_word_def llgip_rx_startcode_def arr_set_def p'_def upd_frame_def)
  have "llgip_inv portno p'" using q by (simp add: p'_def llgip_inv_def frame_wf_def word_le_nat_alt)
  then show ?thesis using b w break_word_facts(2) [of b]
    by (simp add: p'_def) (simp add: after_break_def break_counted_def)
qed

text \<open>All slots but those that follow: the frame in reception.\<close>

lemma frame_collected:
  assumes "llgip_inv portno p" and "f_payload_size (lp_frame p) = 0" and "length vs \<le> 512"
    and "lr_locked p \<longrightarrow> length vs + 1 < unat (lr_learnedsize p)"
  shows "\<exists>p'. llgip_rx_words dl portno (break_word b # map ucast (0 # vs)) (p, s) = Some (p', s) \<and> llgip_inv portno p' \<and>
     lp_state p' = 2 \<and> f_payload_size (lp_frame p') = of_nat (length vs + 1) \<and>
     take (length vs + 1) (f_data (lp_frame p')) = 0 # vs \<and>
     f_port (lp_frame p') = of_nat portno \<and> f_flags (lp_frame p') = 0 \<and>
     unat (f_breaksize (lp_frame p')) = llgip_breaksize b \<and>
     lr_locked p' = lr_locked p \<and> lr_learnedsize p' = lr_learnedsize p"
proof -
  obtain q where q: "llgip_rx_words dl portno [break_word b, 0] (p, s) = Some (q, s)" "llgip_inv portno q" "lp_state q = 2"
      "f_payload_size (lp_frame q) = 1" "f_data (lp_frame q) = (f_data (lp_frame p))[0 := 0]"
      "f_port (lp_frame q) = of_nat portno" "f_flags (lp_frame q) = 0"
      "unat (f_breaksize (lp_frame q)) = llgip_breaksize b"
      "lr_locked q = lr_locked p" "lr_learnedsize q = lr_learnedsize p"
    using frame_begins [OF assms(1,2), of dl b s] by (elim exE conjE) (rule that)
  obtain p' where p': "llgip_rx_words dl portno (map ucast vs) (q, s) = Some (p', s)" "llgip_inv portno p'" "lp_state p' = 2"
      "lp_frame p' = (lp_frame q)\<lparr>f_data := blit (f_data (lp_frame q)) 1 vs, f_payload_size := 1 + of_nat (length vs)\<rparr>"
      "lr_locked p' = lr_locked p" "lr_learnedsize p' = lr_learnedsize p"
    using slots_stored [OF q(2,3), of vs dl s] q(4,9,10) assms(3,4) by auto
  have "take (length vs + 1) (f_data (lp_frame p')) = 0 # vs"
    using p'(4) q(2,5) by (cases "f_data (lp_frame p)") (auto simp: blit_def llgip_inv_def frame_wf_def)
  moreover have "break_word b # map ucast (0 # vs) = [break_word b, 0] @ map ucast vs" by simp
  ultimately show ?thesis
    using p' q(1,6-8) by (simp only: llgip_rx_words_append Option.bind.bind_lunit) simp
qed

lemma tx_words_eq:
  assumes "frame_wf f" and "f_startcode f = 0"
  shows "tx_words f = break_word (f_breaksize f) # map ucast (0 # take (unat (f_payload_size f)) (f_payload f))"
  using assms by (cases "f_data f") (auto simp: tx_words_def f_startcode_def f_payload_def frame_wf_def)

text \<open>The break after a frame delivers it.\<close>

lemma frame_and_break:
  assumes "llgip_inv portno p" and "f_payload_size (lp_frame p) = 0" and "\<not> lr_locked p"
    and "frame_wf f" and "f_startcode f = 0" and "f_payload_size f \<le> 512" and "DMX_RXFIFO_BREAK w"
  shows "\<exists>g p'. llgip_rx_words dl portno (tx_words f @ [w]) (p, s) = map_option (\<lambda>s. (p', s)) (dl g s) \<and> llgip_inv portno p' \<and>
     f_payload_size g = f_payload_size f + 1 \<and>
     take (unat (f_payload_size f) + 1) (f_data g) = take (unat (f_payload_size f) + 1) (f_data f) \<and>
     f_port g = of_nat portno \<and> f_flags g = 0 \<and> unat (f_breaksize g) = llgip_breaksize (f_breaksize f)"
proof -
  let ?n = "unat (f_payload_size f)" and ?vs = "take (unat (f_payload_size f)) (f_payload f)"
  have n: "?n \<le> 512" using assms(6) by (simp add: word_le_nat_alt)
  have l: "length ?vs = ?n" using assms(4) n by (simp add: f_payload_def)
  have d: "take (?n + 1) (f_data f) = 0 # ?vs"
    using assms(4,5) by (cases "f_data f") (auto simp: f_startcode_def f_payload_def frame_wf_def)
  obtain q where q: "llgip_rx_words dl portno (tx_words f) (p, s) = Some (q, s)" "llgip_inv portno q" "lp_state q = 2"
      "f_payload_size (lp_frame q) = of_nat (length ?vs + 1)" "take (length ?vs + 1) (f_data (lp_frame q)) = 0 # ?vs"
      "f_port (lp_frame q) = of_nat portno" "f_flags (lp_frame q) = 0"
      "unat (f_breaksize (lp_frame q)) = llgip_breaksize (f_breaksize f)"
    using frame_collected [OF assms(1,2), of ?vs dl "f_breaksize f" s] assms(3) l n
    unfolding tx_words_eq [OF assms(4,5)] by auto
  define g where "g = lp_frame (break_counted q)"
  have "f_payload_size (lp_frame q) > 0" using q(4) l n by (simp add: word_less_nat_alt unat_word_ariths)
  then have "llgip_rx_word dl portno w (q, s) =
      map_option (\<lambda>s. (after_break portno w (llgip_learn (break_counted q)), s)) (dl g s)"
    using rx_break_eq [of q dl portno w s] q(2) assms(7) by (simp add: llgip_rx_word_def llgip_inv_def g_def)
  moreover have "llgip_inv portno (after_break portno w (llgip_learn (break_counted q)))"
    by (intro llgip_break_inv(2) learn_inv llgip_break_inv(1) q(2))
  moreover have "f_payload_size g = f_payload_size f + 1" "take (?n + 1) (f_data g) = take (?n + 1) (f_data f)"
      "f_port g = of_nat portno" "f_flags g = 0" "unat (f_breaksize g) = llgip_breaksize (f_breaksize f)"
    using q l d by (simp_all add: g_def break_counted_def)
  ultimately show ?thesis
    using q(1) by (intro exI [of _ g] exI [of _ "after_break portno w (llgip_learn (break_counted q))"])
      (cases "dl g s", simp_all add: llgip_rx_words_append)
qed

text \<open>C34. A frame with start code 0 and 1 to 512 slots, sent by one card and received by another over the line, arrives
  with its octets: sending waits for the transmitter to run empty and writes the break, the start code and all slots in this order to
  the port's fifo, and a card that has no frame in reception on its port, is not locked to a frame size and whose fifo gives these words
  and a further break, passes up one frame with the same octets, marked with the receiving port. Its break length is the one
  sent on the line, which is that of the frame limited to 22 to 63 (\<open>llgip_breaksize\<close>). The size of the received frame counts the
  start code, which the size of a sent frame does not.\<close>

theorem llgip_transfer_roundtrip:
  assumes "frame_wf f" and "f_startcode f = 0" and "0 < f_payload_size f" and "f_payload_size f \<le> 512" and "f_port f < 20"
    and "lc_uio user = Some d" and "dmxllgip_ll_waitForTransmitterToBecomeEmpty D (unat (f_port f)) (Some d) = Some (Some d0)"
    and "lc_uio c = Some e" and "portno < length (lc_ports c)" and "llgip_inv portno (lc_ports c ! portno)"
    and "f_payload_size (lp_frame (lc_ports c ! portno)) = 0" and "\<not> lr_locked (lc_ports c ! portno)"
    and "fifo_gives D' portno e (tx_words f @ [w]) e'" and "DMX_RXFIFO_BREAK w"
  shows "dmxllgip_sendFrame D (Some f) user =
      Some (0, user\<lparr>lc_uio := Some (fold (ud_write D (4 + 4 * unat (f_port f))) (tx_words f) d0)\<rparr>) \<and>
    (\<exists>g c'. llgdmx_check_rx_port D' dl portno (c, s) = map_option (\<lambda>s'. (c', s')) (dl g s) \<and>
       f_payload_size g = f_payload_size f + 1 \<and>
       take (unat (f_payload_size f) + 1) (f_data g) = take (unat (f_payload_size f) + 1) (f_data f) \<and>
       f_port g = of_nat portno \<and> f_flags g = 0 \<and> unat (f_breaksize g) = llgip_breaksize (f_breaksize f))"
proof
  show "dmxllgip_sendFrame D (Some f) user =
      Some (0, user\<lparr>lc_uio := Some (fold (ud_write D (4 + 4 * unat (f_port f))) (tx_words f) d0)\<rparr>)"
    using assms(3,5-7) ll_sendFrame_words [OF assms(1,4), of D d0] by (simp add: dmxllgip_sendFrame_def)
  let ?p = "lc_ports c ! portno"
  obtain g p' where g: "llgip_rx_words dl portno (tx_words f @ [w]) (?p, s) = map_option (\<lambda>s. (p', s)) (dl g s)"
      "f_payload_size g = f_payload_size f + 1"
      "take (unat (f_payload_size f) + 1) (f_data g) = take (unat (f_payload_size f) + 1) (f_data f)"
      "f_port g = of_nat portno" "f_flags g = 0" "unat (f_breaksize g) = llgip_breaksize (f_breaksize f)"
    using frame_and_break [OF assms(10-12,1,2,4,14), of dl s] by (elim exE conjE) (rule that)
  have "llgip_rx_loop D' dl portno (Some e) (?p, s) = map_option (\<lambda>s. (Some e', p', s)) (dl g s)"
    using rx_loop_words [OF assms(13), of dl "(?p, s)"] g(1) by (simp add: option.map_comp comp_def)
  then have "llgdmx_check_rx_port D' dl portno (c, s) =
      map_option (\<lambda>s'. (c\<lparr>lc_uio := Some e', lc_ports := (lc_ports c)[portno := p']\<rparr>, s')) (dl g s)"
    using assms(8,9) by (cases "dl g s") (simp_all add: llgdmx_check_rx_port_def arr_get_def)
  then show "\<exists>g c'. llgdmx_check_rx_port D' dl portno (c, s) = map_option (\<lambda>s'. (c', s')) (dl g s) \<and>
       f_payload_size g = f_payload_size f + 1 \<and>
       take (unat (f_payload_size f) + 1) (f_data g) = take (unat (f_payload_size f) + 1) (f_data f) \<and>
       f_port g = of_nat portno \<and> f_flags g = 0 \<and> unat (f_breaksize g) = llgip_breaksize (f_breaksize f)"
    using g(2-6) by blast
qed

text \<open>C35. Whatever words the fifo of a port gives before it is empty, emptying it into the CUSE device
  returns: the port stays within its frame buffer and in its states, the other ports are left alone, the
  device keeps all frames of its pool and queues, and no pending read is forgotten or answered twice.\<close>

theorem llgip_rx_safe:
  assumes "cuse_wf s" and "cu_contexts s crd \<noteq> None" and "portno < 32" and "length (lc_ports c) = 32"
    and "lc_uio c = Some e" and "llgip_inv portno (lc_ports c ! portno)" and "fifo_gives D portno e ws e'"
  shows "\<exists>p' s'. llgdmx_check_rx_port D (dmx512_cuse_handle_received_frame intr crd) portno (c, s) =
       Some (c\<lparr>lc_uio := Some e', lc_ports := (lc_ports c)[portno := p']\<rparr>, s') \<and> llgip_inv portno p' \<and>
     cuse_wf s' \<and> card_frames crd s' = card_frames crd s \<and> card_readers crd s' = card_readers crd s"
proof -
  have m: "portno mod 32 = portno" using assms(3) by simp
  have "cuse_holds crd (card_frames crd s) (card_readers crd s) s" using assms(1,2) by (simp add: cuse_holds_def)
  from cuse_rx.check_rx_port_ok [where portno = portno, unfolded m, OF assms(5) _ assms(6,7) this, of intr] assms(3,4)
  show ?thesis by (auto simp: cuse_holds_def)
qed

text \<open>A line as a device: what is written to a fifo comes out of it, and the transmitter is always empty.\<close>

definition line_dev :: "u64 list uio_dev" where
  "line_dev = \<lparr>ud_read = (\<lambda>r q. if r mod 4 = 2 then (push_bit 28 1, q) else (case q of [] \<Rightarrow> (push_bit 24 1, []) | w # ws \<Rightarrow> (w, ws))),
     ud_write = (\<lambda>r w q. q @ [w]), ud_irq = (\<lambda>b q. q)\<rparr>"

lemma line_dev_gives: "\<forall>w \<in> set ws. \<not> bit w 24 \<Longrightarrow> fifo_gives line_dev portno ws ws []"
proof (induction ws)
  case Nil
  have "(4 + 4 * portno) mod 4 = 0" by presburger
  then show ?case by (simp add: read_fifo_Some line_dev_def DMX_STATUS_RXFIFOEMPTY_def bit_simps)
next
  case (Cons w ws)
  have "(4 + 4 * portno) mod 4 = 0" by presburger
  then show ?case using Cons by (simp add: read_fifo_Some line_dev_def DMX_STATUS_RXFIFOEMPTY_def)
qed

lemma line_dev_wait: "dmxllgip_ll_waitForTransmitterToBecomeEmpty line_dev port (Some d) = Some (Some d)"
proof -
  have "(6 + 4 * port) mod 4 = 2" by presburger
  then show ?thesis by (subst dmxllgip_ll_waitForTransmitterToBecomeEmpty.simps)
    (simp add: read_status_Some line_dev_def DMX_STATUS_TXFIFOEMPTY_def bit_simps)
qed

lemma tx_words_small: "w \<in> set (tx_words f) \<Longrightarrow> \<not> bit w 24"
proof -
  have b: "\<forall>n \<in> set [22..<64]. \<not> bit (0x100 + of_nat (n * 4) + 3 :: u64) 24" by code_simp
  have "llgip_breaksize c \<in> set [22..<64]" for c by (simp only: set_upt) (simp add: llgip_breaksize_def)
  then have "\<not> bit (break_word c) 24" for c unfolding break_word_def by (rule bspec [OF b])
  moreover have "\<not> bit (v :: u8) 24" for v using bit_imp_le_length [of v 24] by auto
  ultimately show "w \<in> set (tx_words f) \<Longrightarrow> \<not> bit w 24" by (auto simp: tx_words_def bit_simps)
qed

definition demo_llgip :: "u64 list \<Rightarrow> u64 list dmxllgip_card" where
  "demo_llgip q = \<lparr>lc_customer_name = replicate 64 NUL, lc_uio = Some q, lc_card = 1, lc_num_ports = 14,
     lc_ports = replicate 32 (zero_llgdmx_port\<lparr>lr_enabled := True, lr_repetion_count_treshold := 20\<rparr>)\<rparr>"

lemma demo_llgip_facts:
  "lc_uio (demo_llgip q) = Some q" "length (lc_ports (demo_llgip q)) = 32"
  "llgip_inv portno (lc_ports (demo_llgip q) ! 3)" "f_payload_size (lp_frame (lc_ports (demo_llgip q) ! 3)) = 0"
  "\<not> lr_locked (lc_ports (demo_llgip q) ! 3)"
  by (simp_all add: demo_llgip_def llgip_inv_def zero_llgdmx_port_def zero_frame_def frame_wf_def)

theorem llgip_transfer_roundtrip_witness:
  "\<exists>g c'. llgdmx_check_rx_port line_dev (\<lambda>f s. Some (s @ [f])) 3
       (demo_llgip (tx_words (zero_frame\<lparr>f_payload_size := 2\<rparr>) @ [0x100]), []) = Some (c', [g]) \<and>
     f_payload_size g = 3 \<and> f_port g = 3"
proof -
  let ?f = "zero_frame\<lparr>f_payload_size := 2\<rparr>"
  let ?ws = "tx_words ?f @ [0x100]"
  have f: "frame_wf ?f" "f_startcode ?f = 0" "0 < f_payload_size ?f" "f_payload_size ?f \<le> 512" "f_port ?f < 20"
    by (simp_all add: zero_frame_def frame_wf_def f_startcode_def word_le_nat_alt)
  have w: "fifo_gives line_dev 3 ?ws ?ws []"
    by (rule line_dev_gives) (auto dest: tx_words_small)
  have b: "DMX_RXFIFO_BREAK 0x100" by (simp add: DMX_RXFIFO_BREAK_def)
  show ?thesis
    using llgip_transfer_roundtrip [OF f demo_llgip_facts(1) [of "[]"] line_dev_wait demo_llgip_facts(1) _ demo_llgip_facts(3-5) w b,
        where dl = "\<lambda>f s. Some (s @ [f])" and s = "[]"] demo_llgip_facts(2) by auto
qed

theorem llgip_rx_safe_witness:
  "\<exists>p' s'. llgdmx_check_rx_port line_dev (dmx512_cuse_handle_received_frame (\<lambda>_. False) 1) 3
       (demo_llgip [0x158, 0, 7, 0x158], demo_cuse) =
       Some ((demo_llgip [0x158, 0, 7, 0x158])\<lparr>lc_uio := Some [], lc_ports := (lc_ports (demo_llgip [0x158, 0, 7, 0x158]))[3 := p']\<rparr>, s') \<and>
     llgip_inv 3 p' \<and> card_readers 1 s' = card_readers 1 demo_cuse"
proof -
  have w: "fifo_gives line_dev 3 [0x158, 0, 7, 0x158] [0x158, 0, 7, 0x158] []"
    by (rule line_dev_gives) simp
  have "cu_contexts demo_cuse 1 \<noteq> None" using demo_cuse_sel(2) by simp
  then show ?thesis
    using llgip_rx_safe [OF demo_cuse_sel(1) _ _ demo_llgip_facts(2) demo_llgip_facts(1) demo_llgip_facts(3) w, of 1 "\<lambda>_. False"]
    by auto
qed

section \<open>The learned size\<close>

text \<open>How many more frames of size \<open>sz\<close> in a row a port needs until it locks, with the threshold of 20.\<close>

definition frames_to_lock :: "u16 \<Rightarrow> llgdmx_port \<Rightarrow> int" where
  "frames_to_lock sz p = (if lr_lastsize p = sz then 21 - lr_repetion_count p else 22)"

text \<open>A port that learns: \<open>m\<close> frames are missing, or it is locked to the size.\<close>

definition learning :: "u16 \<Rightarrow> int \<Rightarrow> llgdmx_port \<Rightarrow> bool" where
  "learning sz m p \<longleftrightarrow> lr_enabled p \<and> lr_repetion_count_treshold p = 20 \<and>
     (if m > 0 then \<not> lr_locked p \<and> frames_to_lock sz p = m else m = 0 \<and> lr_locked p \<and> lr_learnedsize p = sz \<and> lr_lastsize p = sz)"

lemma learn_step:
  assumes "learning sz m p" and "0 < m" and "0 < sz" and "f_payload_size (lp_frame p) = sz" and "f_startcode (lp_frame p) = 0"
  shows "learning sz (m - 1) (llgip_learn p)"
  using assms by (auto simp: learning_def frames_to_lock_def llgip_learn_def Let_def split: if_splits)

lemma learning_cong:
  assumes "lr_enabled p' = lr_enabled p" and "lr_repetion_count_treshold p' = lr_repetion_count_treshold p"
    and "lr_locked p' = lr_locked p" and "lr_learnedsize p' = lr_learnedsize p" and "lr_lastsize p' = lr_lastsize p"
    and "lr_repetion_count p' = lr_repetion_count p"
  shows "learning sz m p' = learning sz m p"
  using assms by (simp add: learning_def frames_to_lock_def)

lemma learning_break [simp]:
  "learning sz m (break_counted p) = learning sz m p" "learning sz m (after_break portno x p) = learning sz m p"
  by (rule learning_cong; simp add: break_counted_def after_break_def)+

text \<open>Octets leave what an unlocked port has learned alone.\<close>

lemma word_keeps_learning:
  assumes "\<not> DMX_RXFIFO_BREAK x" and "\<not> lr_locked p" and "llgip_rx_word dl portno x (p, s) = Some (p', s')"
  shows "\<not> lr_locked p' \<and> learning sz m p' = learning sz m p"
proof -
  have "lr_enabled p' = lr_enabled p \<and> lr_repetion_count_treshold p' = lr_repetion_count_treshold p \<and> lr_locked p' = lr_locked p \<and>
     lr_learnedsize p' = lr_learnedsize p \<and> lr_lastsize p' = lr_lastsize p \<and> lr_repetion_count p' = lr_repetion_count p"
    using assms by (auto simp: llgip_rx_word_def llgip_rx_startcode_def llgip_rx_slot_def bind_eq_Some Let_def split: if_splits)
  then show ?thesis using learning_cong [of p' p] assms(2) by simp
qed

lemma words_keep_learning:
  assumes "\<forall>x \<in> set ws. \<not> DMX_RXFIFO_BREAK x" and "\<not> lr_locked p" and "llgip_rx_words dl portno ws (p, s) = Some (p', s')"
  shows "learning sz m p' = learning sz m p"
  using assms
proof (induction ws arbitrary: p s)
  case (Cons x ws)
  obtain p1 s1 where w: "llgip_rx_word dl portno x (p, s) = Some (p1, s1)" "llgip_rx_words dl portno ws (p1, s1) = Some (p', s')"
    using Cons.prems(3) by (auto simp: bind_eq_Some)
  have "\<not> lr_locked p1 \<and> learning sz m p1 = learning sz m p"
    using word_keeps_learning [OF _ Cons.prems(2) w(1)] Cons.prems(1) by simp
  then show ?case using Cons.IH [of p1 s1] Cons.prems(1) w(2) by simp
qed simp

text \<open>The octets of a frame after its break.\<close>

lemma body_collected:
  fixes vs :: "u8 list"
  assumes "llgip_inv portno p" and "lp_state p = 1" and "\<not> lr_locked p" and "length vs \<le> 512"
  shows "\<exists>q. llgip_rx_words dl portno (map ucast (0 # vs)) (p, s) = Some (q, s) \<and> llgip_inv portno q \<and>
     f_payload_size (lp_frame q) = of_nat (length vs + 1) \<and> f_startcode (lp_frame q) = 0 \<and> learning sz m q = learning sz m p \<and> \<not> lr_locked q"
proof -
  define p1 where "p1 = (upd_frame (\<lambda>f. f\<lparr>f_payload_size := 1, f_data := (f_data f)[0 := 0]\<rparr>) p)\<lparr>lp_state := 2, lp_expected_rx_frame_size := 520\<rparr>"
  have d: "f_data (lp_frame p) \<noteq> []" using assms(1) by (auto simp: llgip_inv_def frame_wf_def)
  have z: "\<not> DMX_RXFIFO_BREAK 0" "DMX_RXFIFO_DATA 0 = 0" by (simp_all add: dmx_field_defs)
  have w: "llgip_rx_word dl portno 0 (p, s) = Some (p1, s)"
    using z d assms(2,3) by (simp add: llgip_rx_word_def llgip_rx_startcode_def arr_set_def p1_def upd_frame_def)
  have p1: "llgip_inv portno p1" "lp_state p1 = 2" "\<not> lr_locked p1" "f_payload_size (lp_frame p1) = 1" "f_data (lp_frame p1) = (f_data (lp_frame p))[0 := 0]"
    using assms(1-3) by (simp_all add: p1_def llgip_inv_def frame_wf_def word_le_nat_alt)
  obtain q where q: "llgip_rx_words dl portno (map ucast vs) (p1, s) = Some (q, s)" "llgip_inv portno q"
      "lp_frame q = (lp_frame p1)\<lparr>f_data := blit (f_data (lp_frame p1)) 1 vs, f_payload_size := 1 + of_nat (length vs)\<rparr>" "lr_locked q = lr_locked p1"
    using slots_stored [OF p1(1,2), of vs dl s] p1(3,4) assms(4) by auto
  have r: "llgip_rx_words dl portno (map ucast (0 # vs)) (p, s) = Some (q, s)" using w q(1) by simp
  have "\<forall>x \<in> set (map ucast (0 # vs)). \<not> DMX_RXFIFO_BREAK x" using z(1) by (auto simp: octet_word)
  then have "learning sz m q = learning sz m p" by (rule words_keep_learning [OF _ assms(3) r])
  moreover have "f_startcode (lp_frame q) = 0"
    using q(3) p1(5) d by (cases "f_data (lp_frame p)") (simp_all add: f_startcode_def blit_def)
  ultimately show ?thesis using r q p1(3) by simp
qed

text \<open>A frame after its break, and the break that ends it.\<close>

lemma body_and_break:
  fixes vs :: "u8 list"
  assumes "llgip_inv portno p" and "lp_state p = 1" and "learning sz m p" and "0 < m" and "length vs \<le> 512"
    and "sz = of_nat (length vs + 1)" and "DMX_RXFIFO_BREAK w" and "\<forall>g s. \<exists>s'. dl g s = Some s'"
  shows "\<exists>p' s'. llgip_rx_words dl portno (map ucast (0 # vs) @ [w]) (p, s) = Some (p', s') \<and> llgip_inv portno p' \<and> lp_state p' = 1 \<and>
     learning sz (m - 1) p'"
proof -
  have "\<not> lr_locked p" using assms(3,4) by (simp add: learning_def)
  then obtain q where q: "llgip_rx_words dl portno (map ucast (0 # vs)) (p, s) = Some (q, s)" "llgip_inv portno q"
      "f_payload_size (lp_frame q) = sz" "f_startcode (lp_frame q) = 0" "learning sz m q"
    using body_collected [OF assms(1,2) _ assms(5), of dl s sz m] assms(3,6) by auto
  have sz: "0 < sz" using assms(5,6) by (simp add: word_less_nat_alt unat_word_ariths unat_of_nat)
  obtain s' where s': "dl (lp_frame (break_counted q)) s = Some s'" using assms(8) by blast
  have c: "f_payload_size (lp_frame (break_counted q)) = sz" "f_startcode (lp_frame (break_counted q)) = 0"
    using q(3,4) by (simp_all add: break_counted_def f_startcode_def)
  let ?p = "after_break portno w (llgip_learn (break_counted q))"
  have "llgip_rx_word dl portno w (q, s) = Some (?p, s')"
    using rx_break_eq [of q dl portno w s] q(2,3) sz s' assms(7) by (simp add: llgip_rx_word_def llgip_inv_def)
  then have "llgip_rx_words dl portno (map ucast (0 # vs) @ [w]) (p, s) = Some (?p, s')"
    unfolding llgip_rx_words_append q(1) by simp
  moreover have "llgip_inv portno ?p" by (intro llgip_break_inv(2) learn_inv llgip_break_inv(1) q(2))
  moreover have "learning sz (m - 1) ?p"
    using learn_step [OF _ assms(4) sz c] q(5) by simp
  ultimately show ?thesis by auto
qed

lemma concat_replicate_Suc: "concat (replicate (Suc k) xs) = concat (replicate k xs) @ xs"
  by (induction k) simp_all

lemma frames_learned:
  fixes vs :: "u8 list"
  assumes "llgip_inv portno p" and "f_payload_size (lp_frame p) = 0" and "learning sz n p" and "int k \<le> n" and "0 < n"
    and "length vs \<le> 512" and "sz = of_nat (length vs + 1)" and "DMX_RXFIFO_BREAK w" and "DMX_RXFIFO_BREAK b" and "\<forall>g s. \<exists>s'. dl g s = Some s'"
  shows "\<exists>p' s'. llgip_rx_words dl portno (concat (replicate k (b # map ucast (0 # vs))) @ [w]) (p, s) = Some (p', s') \<and>
     llgip_inv portno p' \<and> lp_state p' = 1 \<and> learning sz (n - int k) p'"
  using assms(4,8)
proof (induction k arbitrary: w)
  case 0
  have "llgip_learn (break_counted p) = break_counted p" using assms(2) by (intro learn_empty) (simp add: break_counted_def)
  then have "llgip_rx_word dl portno w (p, s) = Some (after_break portno w (break_counted p), s)"
    using rx_break_eq [of p dl portno w s] assms(1,2) 0(2) by (simp add: llgip_rx_word_def llgip_inv_def)
  then show ?case using assms(1,3) llgip_break_inv by auto
next
  case (Suc k)
  obtain p1 s1 where p1: "llgip_rx_words dl portno (concat (replicate k (b # map ucast (0 # vs))) @ [b]) (p, s) = Some (p1, s1)"
      "llgip_inv portno p1" "lp_state p1 = 1" "learning sz (n - int k) p1"
    using Suc.IH [OF _ assms(9)] Suc.prems(1) by auto
  obtain p2 s2 where p2: "llgip_rx_words dl portno (map ucast (0 # vs) @ [w]) (p1, s1) = Some (p2, s2)" "llgip_inv portno p2" "lp_state p2 = 1"
      "learning sz (n - int k - 1) p2"
    using body_and_break [OF p1(2-4) _ assms(6,7) Suc.prems(2) assms(10), of s1] Suc.prems(1) by auto
  have "concat (replicate (Suc k) (b # map ucast (0 # vs))) @ [w] =
      (concat (replicate k (b # map ucast (0 # vs))) @ [b]) @ (map ucast (0 # vs) @ [w])"
    using concat_replicate_Suc [of k "b # map ucast (0 # vs)"] by simp
  then have "llgip_rx_words dl portno (concat (replicate (Suc k) (b # map ucast (0 # vs))) @ [w]) (p, s) = Some (p2, s2)"
    using p1(1) p2(1) by (simp only: llgip_rx_words_append Option.bind.bind_lunit)
  then show ?case using p2(2-4) by (auto simp: diff_diff_eq algebra_simps)
qed

text \<open>A frame of the learned size is passed up with its last slot.\<close>

lemma locked_frame:
  assumes "llgip_inv portno p" and "f_payload_size (lp_frame p) = 0" and "lr_locked p"
    and "frame_wf f" and "f_startcode f = 0" and "0 < f_payload_size f" and "f_payload_size f \<le> 512"
    and "lr_learnedsize p = f_payload_size f + 1"
  shows "\<exists>g p'. llgip_rx_words dl portno (tx_words f) (p, s) = map_option (\<lambda>s. (p', s)) (dl g s) \<and>
     lp_state p' = 0 \<and> lr_locked p' \<and> f_payload_size g = f_payload_size f + 1 \<and>
     take (unat (f_payload_size f) + 1) (f_data g) = take (unat (f_payload_size f) + 1) (f_data f)"
proof -
  let ?n = "unat (f_payload_size f)" and ?vs = "take (unat (f_payload_size f)) (f_payload f)"
  have n: "?n \<le> 512" "0 < ?n" using assms(6,7) by (simp_all add: word_le_nat_alt word_less_nat_alt)
  have l: "length ?vs = ?n" using assms(4) n by (simp add: f_payload_def)
  then have ne: "?vs \<noteq> []" using n by auto
  have d: "take (?n + 1) (f_data f) = 0 # ?vs"
    using assms(4,5) by (cases "f_data f") (auto simp: f_startcode_def f_payload_def frame_wf_def)
  have learned: "unat (lr_learnedsize p) = ?n + 1" using assms(8) n by (simp add: unat_word_ariths)
  have le: "length (butlast ?vs) \<le> 512" "length (butlast ?vs) + 1 < unat (lr_learnedsize p)"
    using learned l n by simp_all
  obtain q where q: "llgip_rx_words dl portno (break_word (f_breaksize f) # map ucast (0 # butlast ?vs)) (p, s) = Some (q, s)"
      "llgip_inv portno q" "lp_state q = 2" "f_payload_size (lp_frame q) = of_nat (length (butlast ?vs) + 1)"
      "take (length (butlast ?vs) + 1) (f_data (lp_frame q)) = 0 # butlast ?vs"
      "lr_locked q = lr_locked p" "lr_learnedsize q = lr_learnedsize p"
    using frame_collected [OF assms(1,2) le(1) impI [OF le(2)], of dl "f_breaksize f" s] by (elim exE conjE) (rule that)
  have m: "map ucast ?vs = map ucast (butlast ?vs) @ [ucast (last ?vs) :: u64]"
    using arg_cong [OF append_butlast_last_id [OF ne], of "map ucast"] unfolding map_append list.map by (rule sym)
  have sz: "f_payload_size (lp_frame q) = f_payload_size f" using q(4) l n by simp
  then have lt: "f_payload_size (lp_frame q) < 513" using n by (simp add: word_less_nat_alt)
  define g where "g = lp_frame (slot_stored (last ?vs) q)"
  have w: "llgip_rx_word dl portno (ucast (last ?vs)) (q, s) =
      map_option (\<lambda>s. (frame_done (slot_stored (last ?vs) q), s)) (dl g s)"
    using rx_slot_eq [of q dl "ucast (last ?vs)" s] q(2,3,6,7) lt sz assms(3,8)
    by (simp add: llgip_rx_word_def llgip_inv_def g_def Let_def)
  have t: "tx_words f = (break_word (f_breaksize f) # map ucast (0 # butlast ?vs)) @ [ucast (last ?vs)]"
    unfolding tx_words_eq [OF assms(4,5)] using m by (simp only: list.map append.simps)
  have r: "llgip_rx_words dl portno (tx_words f) (p, s) =
      map_option (\<lambda>s. (frame_done (slot_stored (last ?vs) q), s)) (dl g s)"
    unfolding t llgip_rx_words_append q(1) using w by (cases "dl g s") simp_all
  have "take (?n + 1) (f_data g) = take (?n + 1) (f_data f)"
  proof -
    have "take (?n + 1) (f_data g) = take ?n (f_data (lp_frame q)) @ [last ?vs]"
      using sz lt q(2) n by (simp add: g_def take_Suc_conv_app_nth llgip_inv_def word_less_nat_alt)
    also have "take ?n (f_data (lp_frame q)) = 0 # butlast ?vs" using q(5) l n by simp
    finally show ?thesis using d ne by simp
  qed
  then show ?thesis using r q(6) sz assms(3)
    by (intro exI [of _ g] exI [of _ "frame_done (slot_stored (last ?vs) q)"] conjI)
       (simp_all add: g_def frame_done_def)
qed

text \<open>C36. The size of the frames is learned from the words of the fifo: an unlocked port with learning enabled, the threshold of 20 that
  ports are created with and no frame in reception that gets \<open>k\<close> equal frames with start code 0 and 1 to 512 slots, and the break after them,
  is locked exactly when \<open>k\<close> has reached \<open>n\<close>, and then to their size; \<open>n\<close> is 22 when the size differs from the last one the port has seen, and otherwise
  21 less the repetitions counted so far (so 21 after a lost lock, which leaves the size 512 behind). Frames go up to a receiver that returns.
  The locked port passes the next such frame up with its last slot, without waiting for another break, and stays locked.\<close>

theorem llgip_size_lock:
  assumes "llgip_inv portno p" and "f_payload_size (lp_frame p) = 0" and "lr_enabled p" and "lr_repetion_count_treshold p = 20"
    and "\<not> lr_locked p" and "frame_wf f" and "f_startcode f = 0" and "0 < f_payload_size f" and "f_payload_size f \<le> 512"
    and "sz = f_payload_size f + 1" and "n = (if lr_lastsize p = sz then 21 - lr_repetion_count p else 22)" and "0 < n" and "int k \<le> n"
    and "DMX_RXFIFO_BREAK w" and "\<forall>g s. \<exists>s'. dl g s = Some s'"
  shows "\<exists>p' s'. llgip_rx_words dl portno (concat (replicate k (tx_words f)) @ [w]) (p, s) = Some (p', s') \<and> llgip_inv portno p' \<and>
     (lr_locked p' \<longleftrightarrow> int k = n) \<and>
     (int k = n \<longrightarrow> lr_learnedsize p' = sz \<and>
       (\<exists>g q. llgip_rx_words dl portno (tx_words f) (p', s') = map_option (\<lambda>s. (q, s)) (dl g s') \<and>
         lp_state q = 0 \<and> lr_locked q \<and> f_payload_size g = f_payload_size f + 1 \<and>
         take (unat (f_payload_size f) + 1) (f_data g) = take (unat (f_payload_size f) + 1) (f_data f)))"
proof -
  let ?n = "unat (f_payload_size f)" and ?vs = "take (unat (f_payload_size f)) (f_payload f)"
  have le: "?n \<le> 512" using assms(9) by (simp add: word_le_nat_alt)
  have l: "length ?vs = ?n" using assms(6) le by (simp add: f_payload_def)
  have l512: "length ?vs \<le> 512" using l le by simp
  have sz: "sz = of_nat (length ?vs + 1)" using assms(10) l by simp
  have "learning sz n p" using assms(3-5,11,12) by (simp add: learning_def frames_to_lock_def)
  then obtain p' s' where p': "llgip_rx_words dl portno (concat (replicate k (tx_words f)) @ [w]) (p, s) = Some (p', s')"
      "llgip_inv portno p'" "lp_state p' = 1" "learning sz (n - int k) p'"
    using frames_learned [OF assms(1,2) _ assms(13,12) l512 sz assms(14) break_word_facts(1) assms(15), of "f_breaksize f" s]
    unfolding tx_words_eq [OF assms(6,7)] by auto
  have lk: "lr_locked p' \<longleftrightarrow> int k = n" using p'(4) assms(13) by (auto simp: learning_def split: if_splits)
  have "lr_learnedsize p' = sz \<and> (\<exists>g q. llgip_rx_words dl portno (tx_words f) (p', s') = map_option (\<lambda>s. (q, s)) (dl g s') \<and>
         lp_state q = 0 \<and> lr_locked q \<and> f_payload_size g = f_payload_size f + 1 \<and>
         take (unat (f_payload_size f) + 1) (f_data g) = take (unat (f_payload_size f) + 1) (f_data f))" if "int k = n"
  proof -
    have e: "lr_learnedsize p' = sz" "lr_locked p'" using p'(4) that lk by (simp_all add: learning_def)
    have z: "f_payload_size (lp_frame p') = 0" using p'(2,3) by (simp add: llgip_inv_def)
    show ?thesis using locked_frame [OF p'(2) z e(2) assms(6-9), of dl s'] e(1) assms(10) by blast
  qed
  then show ?thesis using p'(1,2) lk by blast
qed

theorem llgip_size_lock_witness:
  "\<exists>p' s' p2 s2 q t. let f = zero_frame\<lparr>f_payload_size := 2\<rparr>; p = lc_ports (demo_llgip []) ! 3; dl = \<lambda>g n. Some (Suc n) in
     llgip_rx_words dl 3 (concat (replicate 22 (tx_words f)) @ [0x100]) (p, 0) = Some (p', s') \<and> lr_locked p' \<and> lr_learnedsize p' = 3 \<and>
     llgip_rx_words dl 3 (tx_words f) (p', s') = Some (q, t) \<and> lr_locked q \<and>
     llgip_rx_words dl 3 (concat (replicate 21 (tx_words f)) @ [0x100]) (p, 0) = Some (p2, s2) \<and> \<not> lr_locked p2"
proof -
  let ?f = "zero_frame\<lparr>f_payload_size := 2\<rparr>" and ?p = "lc_ports (demo_llgip []) ! 3" and ?dl = "\<lambda>(g :: dmx512frame) n. Some (Suc n)"
  have p: "lr_enabled ?p" "lr_repetion_count_treshold ?p = 20" "lr_lastsize ?p \<noteq> 3"
    by (simp_all add: demo_llgip_def zero_llgdmx_port_def)
  have f: "frame_wf ?f" "f_startcode ?f = 0" "0 < f_payload_size ?f" "f_payload_size ?f \<le> 512" "3 = f_payload_size ?f + 1"
    by (simp_all add: zero_frame_def frame_wf_def f_startcode_def word_le_nat_alt)
  have n: "22 = (if lr_lastsize ?p = 3 then 21 - lr_repetion_count ?p else 22)" using p(3) by simp
  have b: "DMX_RXFIFO_BREAK 0x100" by (simp add: DMX_RXFIFO_BREAK_def)
  have d: "\<forall>g s. \<exists>s'. ?dl g s = Some s'" by simp
  note lock = llgip_size_lock [OF demo_llgip_facts(3,4) p(1,2) demo_llgip_facts(5) f n _ _ b d, where s = 0 and portno = 3]
  obtain p' s' q t where a: "llgip_rx_words ?dl 3 (concat (replicate 22 (tx_words ?f)) @ [0x100]) (?p, 0) = Some (p', s')" "lr_locked p'"
      "lr_learnedsize p' = 3" "llgip_rx_words ?dl 3 (tx_words ?f) (p', s') = Some (q, t)" "lr_locked q"
    using lock [of 22] by auto
  obtain p2 s2 where "llgip_rx_words ?dl 3 (concat (replicate 21 (tx_words ?f)) @ [0x100]) (?p, 0) = Some (p2, s2)" "\<not> lr_locked p2"
    using lock [of 21] by auto
  then show ?thesis using a unfolding Let_def by blast
qed

end
