(* ===== verification/Streamuart.thy ===== *)
theory Streamuart
  imports Prelude "HOL-Library.Signed_Division"
begin

text \<open>
  The stream UART (\<^verbatim>\<open>src/src/simulation/suart/\<close>): a UART whose client sends and receives events instead
  of octets, through two fifos of 128 events (\<^verbatim>\<open>streamuart.c\<close>), and the constructors of events, among
  them the one that splits a buffer into events of fourteen octets (\<^verbatim>\<open>streamuart_event.c\<close>).

  The fifo is the \<^verbatim>\<open>kfifo.h\<close> of a git submodule. Its operations are a parameter, a record \<open>kfifo_ops\<close>, and
  \<open>kfifo_ok\<close> is what its documentation promises, over an abstraction of the fifo to the list of its
  elements. \<^term>\<open>None\<close> is an access outside an array.
\<close>

section \<open>Events\<close>

definition SUART_OCTETS_PER_INLINE_DATA_CHUNK :: nat where "SUART_OCTETS_PER_INLINE_DATA_CHUNK = 14"

text \<open>The event type selects a member of the union. Octets of a data event are the first \<open>count\<close> of its
  array or of the buffer it points to.\<close>

datatype suart_event =
    STREAMUART_EVENT_SHUTDOWN
  | STREAMUART_EVENT_ECHO u32
  | STREAMUART_EVENT_SETBAUDRATE u32
  | STREAMUART_EVENT_GETBAUDRATE u32
  | STREAMUART_EVENT_SETFORMAT u8 char u8
  | STREAMUART_EVENT_GETFORMAT u8 char u8
  | STREAMUART_EVENT_SETHANDSHAKE
  | STREAMUART_EVENT_GETHANDSHAKE
  | STREAMUART_EVENT_DATA "u8 list"
  | STREAMUART_EVENT_DATA_INLINE "u8 list"
  | STREAMUART_EVENT_ENABLETX
  | STREAMUART_EVENT_DISABLETX
  | STREAMUART_EVENT_ENABLERX
  | STREAMUART_EVENT_DISABLERX
  | STREAMUART_EVENT_CHANGE_LINE u32 u32
  | STREAMUART_EVENT_ENABLE_NOTIFYCATION
  | STREAMUART_EVENT_DISABLE_NOTIFYCATION
  | STREAMUART_EVENT_LINESTATUS u32 u32

definition suart_event_set_format :: "int \<Rightarrow> char \<Rightarrow> int \<Rightarrow> suart_event" where
  "suart_event_set_format databits parity stopbits =
     STREAMUART_EVENT_SETFORMAT (word_of_int databits) parity (word_of_int stopbits)"

definition suart_event_enable_tx :: suart_event where "suart_event_enable_tx = STREAMUART_EVENT_ENABLETX"
definition suart_event_disable_tx :: suart_event where "suart_event_disable_tx = STREAMUART_EVENT_DISABLETX"
definition suart_event_enable_rx :: suart_event where "suart_event_enable_rx = STREAMUART_EVENT_ENABLERX"
definition suart_event_disable_rx :: suart_event where "suart_event_disable_rx = STREAMUART_EVENT_DISABLERX"

definition suart_event_change_line :: "u32 \<Rightarrow> u32 \<Rightarrow> suart_event" where
  "suart_event_change_line msk val = STREAMUART_EVENT_CHANGE_LINE msk val"

definition suart_event_change_baudrate :: "u64 \<Rightarrow> suart_event" where
  "suart_event_change_baudrate baudrate = STREAMUART_EVENT_SETBAUDRATE (ucast baudrate)"

definition suart_event_query_baudrate :: "u32 \<Rightarrow> suart_event" where
  "suart_event_query_baudrate memory = STREAMUART_EVENT_GETBAUDRATE memory"

definition suart_event_echo :: "u32 \<Rightarrow> suart_event" where
  "suart_event_echo val = STREAMUART_EVENT_ECHO val"

text \<open>One event with at most fourteen octets, given as arguments or in a buffer; 1, or -1 when there are
  more. A negative count makes an event without octets whose count wraps to an octet; no caller has
  one.\<close>

definition suart_event_data_inline_small_va :: "u8 list \<Rightarrow> suart_event \<Rightarrow> int \<times> suart_event" where
  "suart_event_data_inline_small_va args e =
     (if length args > SUART_OCTETS_PER_INLINE_DATA_CHUNK then (-1, e)
      else (1, STREAMUART_EVENT_DATA_INLINE args))"

definition suart_event_data_inline_small :: "u8 list \<Rightarrow> nat \<Rightarrow> suart_event \<Rightarrow> (int \<times> suart_event) option" where
  "suart_event_data_inline_small data cnt e =
     (if cnt > SUART_OCTETS_PER_INLINE_DATA_CHUNK then Some (-1, e)
      else do { octets \<leftarrow> arr_slice data 0 cnt; Some (1, STREAMUART_EVENT_DATA_INLINE octets) })"

text \<open>\<open>suart_event_data_inline(&e[base], maxevents, data, count)\<close>: the loop writes one event per chunk.\<close>

function data_inline_loop ::
  "nat \<Rightarrow> u8 list \<Rightarrow> nat \<Rightarrow> nat \<Rightarrow> int \<Rightarrow> suart_event list \<Rightarrow> (int \<times> suart_event list) option" where
  "data_inline_loop base data pos eventindex remain e = (
     if remain > 0 then
       (let chunksize = (if remain > int SUART_OCTETS_PER_INLINE_DATA_CHUNK
                         then SUART_OCTETS_PER_INLINE_DATA_CHUNK else nat remain) in do {
          octets \<leftarrow> arr_slice data pos chunksize;
          e \<leftarrow> arr_set e (base + eventindex) (STREAMUART_EVENT_DATA_INLINE octets);
          data_inline_loop base data (pos + chunksize) (eventindex + 1) (remain - int chunksize) e })
     else Some (int eventindex, e))"
  by pat_completeness auto

termination data_inline_loop
  by (relation "measure (\<lambda>(base, data, pos, eventindex, remain, e). nat remain)")
     (auto simp: SUART_OCTETS_PER_INLINE_DATA_CHUNK_def)

declare data_inline_loop.simps [simp del]

definition suart_event_data_inline ::
  "nat \<Rightarrow> int \<Rightarrow> u8 list \<Rightarrow> int \<Rightarrow> suart_event list \<Rightarrow> (int \<times> suart_event list) option" where
  "suart_event_data_inline base maxevents data cnt e =
     (if (cnt + 6) sdiv int SUART_OCTETS_PER_INLINE_DATA_CHUNK > maxevents then Some (-1, e)
      else data_inline_loop base data 0 0 cnt e)"

section \<open>Fifos\<close>

text \<open>\<open>kfifo_in fifo buf n\<close> copies from the memory at \<open>buf\<close>; \<open>kfifo_out\<close> returns the elements it copies.\<close>

record ('f, 'a) kfifo_ops =
  kfifo_in :: "nat \<Rightarrow> 'a list \<Rightarrow> 'f \<Rightarrow> (nat \<times> 'f) option"
  kfifo_out :: "nat \<Rightarrow> 'f \<Rightarrow> 'a list \<times> 'f"
  kfifo_peek :: "'f \<Rightarrow> 'a option"
  kfifo_len :: "'f \<Rightarrow> nat"
  kfifo_avail :: "'f \<Rightarrow> nat"
  kfifo_init :: 'f

text \<open>What the fifo promises: putting takes as many elements as there is room for, taking returns the
  oldest, and the length and the room are those of a queue of \<open>cap\<close> elements.\<close>

definition kfifo_ok :: "('f, 'a) kfifo_ops \<Rightarrow> ('f \<Rightarrow> 'a list) \<Rightarrow> nat \<Rightarrow> bool" where
  "kfifo_ok k q cap \<longleftrightarrow>
     (\<forall>n xs f. min n (cap - length (q f)) \<le> length xs \<longrightarrow>
        (\<exists>f'. kfifo_in k n xs f = Some (min n (cap - length (q f)), f') \<and>
              q f' = q f @ take (min n (cap - length (q f))) xs)) \<and>
     (\<forall>n f. fst (kfifo_out k n f) = take n (q f) \<and> q (snd (kfifo_out k n f)) = drop n (q f)) \<and>
     (\<forall>f. kfifo_peek k f = (if q f = [] then None else Some (hd (q f)))) \<and>
     (\<forall>f. kfifo_len k f = length (q f)) \<and>
     (\<forall>f. kfifo_avail k f = cap - length (q f)) \<and>
     q (kfifo_init k) = []"

text \<open>A list with a bound is such a fifo.\<close>

definition list_kfifo :: "nat \<Rightarrow> ('a list, 'a) kfifo_ops" where
  "list_kfifo cap =
     \<lparr>kfifo_in = (\<lambda>n xs f. let m = min n (cap - length f) in if m \<le> length xs then Some (m, f @ take m xs) else None),
      kfifo_out = (\<lambda>n f. (take n f, drop n f)),
      kfifo_peek = (\<lambda>f. if f = [] then None else Some (hd f)),
      kfifo_len = length,
      kfifo_avail = (\<lambda>f. cap - length f),
      kfifo_init = []\<rparr>"

lemma list_kfifo_ok: "kfifo_ok (list_kfifo cap) (\<lambda>f. f) cap"
  by (simp add: kfifo_ok_def list_kfifo_def Let_def)

lemma kfifo_okD:
  assumes "kfifo_ok k q cap"
  shows "kfifo_len k f = length (q f)" "kfifo_avail k f = cap - length (q f)" "q (kfifo_init k) = []"
    "kfifo_peek k f = (if q f = [] then None else Some (hd (q f)))"
    "fst (kfifo_out k n f) = take n (q f)" "q (snd (kfifo_out k n f)) = drop n (q f)"
  using assms unfolding kfifo_ok_def by auto

lemma kfifo_outE:
  assumes "kfifo_ok k q cap"
  obtains f' where "kfifo_out k n f = (take n (q f), f')" "q f' = drop n (q f)"
  using kfifo_okD(5,6) [OF assms, of n f] that [of "snd (kfifo_out k n f)"] by (metis prod.collapse)

lemma kfifo_inE:
  assumes "kfifo_ok k q cap" and "n \<le> length xs" and "length (q f) + n \<le> cap"
  obtains f' where "kfifo_in k n xs f = Some (n, f')" "q f' = q f @ take n xs"
proof -
  have "min n (cap - length (q f)) = n" using assms(3) by simp
  then show thesis using assms(1,2) that unfolding kfifo_ok_def by metis
qed

section \<open>The stream UART\<close>

text \<open>The wait queues are counters of how often a waiting thread was woken.\<close>

record 'e suart_s =
  txfifo :: 'e
  rxfifo :: 'e
  tx_wakeups :: nat
  rx_wakeups :: nat

definition suart_wakeup :: "'e suart_s \<Rightarrow> 'e suart_s" where
  "suart_wakeup u = u\<lparr>tx_wakeups := tx_wakeups u + 1\<rparr>"

text \<open>A count is an \<open>int\<close> that becomes unsigned for the fifo.\<close>

definition fifo_count :: "int \<Rightarrow> nat" where
  "fifo_count n = unat (word_of_int n :: u32)"

lemma fifo_count_nat [simp]: "n < 2 ^ 31 \<Longrightarrow> fifo_count (int n) = n"
  by (simp add: fifo_count_def unat_of_nat take_bit_nat_eq_self)

definition suart_put_txevents ::
  "('e, suart_event) kfifo_ops \<Rightarrow> suart_event list \<Rightarrow> int \<Rightarrow> 'e suart_s \<Rightarrow> 'e suart_s option" where
  "suart_put_txevents k e cnt u = do {
     (ret, f) \<leftarrow> kfifo_in k (fifo_count cnt) e (txfifo u);
     Some (suart_wakeup (u\<lparr>txfifo := f\<rparr>)) }"

definition suart_get_txevents ::
  "('e, suart_event) kfifo_ops \<Rightarrow> nat \<Rightarrow> 'e suart_s \<Rightarrow> suart_event list \<times> 'e suart_s" where
  "suart_get_txevents k cnt u = (case kfifo_out k cnt (txfifo u) of (es, f) \<Rightarrow> (es, u\<lparr>txfifo := f\<rparr>))"

definition suart_peek_txevent :: "('e, suart_event) kfifo_ops \<Rightarrow> 'e suart_s \<Rightarrow> suart_event option" where
  "suart_peek_txevent k u = kfifo_peek k (txfifo u)"

definition suart_put_rxevents ::
  "('e, suart_event) kfifo_ops \<Rightarrow> suart_event list \<Rightarrow> int \<Rightarrow> 'e suart_s \<Rightarrow> 'e suart_s option" where
  "suart_put_rxevents k e cnt u = do {
     (ret, f) \<leftarrow> kfifo_in k (fifo_count cnt) e (rxfifo u);
     Some (u\<lparr>rxfifo := f, rx_wakeups := rx_wakeups u + 1\<rparr>) }"

definition suart_get_rxevents ::
  "('e, suart_event) kfifo_ops \<Rightarrow> nat \<Rightarrow> 'e suart_s \<Rightarrow> suart_event list \<times> 'e suart_s" where
  "suart_get_rxevents k cnt u = (case kfifo_out k cnt (rxfifo u) of (es, f) \<Rightarrow> (es, u\<lparr>rxfifo := f\<rparr>))"

definition suart_txspace :: "('e, suart_event) kfifo_ops \<Rightarrow> 'e suart_s \<Rightarrow> nat" where
  "suart_txspace k u = kfifo_avail k (txfifo u)"

definition suart_txavailable :: "('e, suart_event) kfifo_ops \<Rightarrow> 'e suart_s \<Rightarrow> nat" where
  "suart_txavailable k u = kfifo_len k (txfifo u)"

definition suart_rxspace :: "('e, suart_event) kfifo_ops \<Rightarrow> 'e suart_s \<Rightarrow> nat" where
  "suart_rxspace k u = kfifo_avail k (rxfifo u)"

definition suart_rxavailable :: "('e, suart_event) kfifo_ops \<Rightarrow> 'e suart_s \<Rightarrow> nat" where
  "suart_rxavailable k u = kfifo_len k (rxfifo u)"

definition suart_init :: "('e, suart_event) kfifo_ops \<Rightarrow> 'e suart_s" where
  "suart_init k = \<lparr>txfifo = kfifo_init k, rxfifo = kfifo_init k, tx_wakeups = 0, rx_wakeups = 0\<rparr>"

section \<open>Splitting a buffer into events\<close>

text \<open>The specification: chunks of fourteen octets, the last one shorter.\<close>

function chunks :: "u8 list \<Rightarrow> u8 list list" where
  "chunks xs = (if xs = [] then [] else take 14 xs # chunks (drop 14 xs))"
  by pat_completeness auto

termination chunks
  by (relation "measure length") auto

declare chunks.simps [simp del]

lemma chunks_Nil [simp]: "chunks [] = []"
  by (simp add: chunks.simps)

lemma chunks_rec: "xs \<noteq> [] \<Longrightarrow> chunks xs = take 14 xs # chunks (drop 14 xs)"
  by (subst chunks.simps) simp

lemma concat_chunks [simp]: "concat (chunks xs) = xs"
  by (induction xs rule: chunks.induct) (metis append_take_drop_id chunks_Nil chunks_rec concat.simps)

lemma set_chunks: "c \<in> set (chunks xs) \<Longrightarrow> c \<noteq> [] \<and> length c \<le> 14"
proof (induction xs rule: chunks.induct)
  case (1 xs)
  then show ?case by (cases "xs = []") (auto simp: chunks_rec)
qed

lemma length_chunks: "length (chunks xs) = (length xs + 13) div 14"
proof (induction xs rule: chunks.induct)
  case (1 xs)
  show ?case
  proof (cases "xs = []")
    case False
    then have "length xs \<ge> 1" by (cases xs) auto
    then have "Suc ((length xs - 14 + 13) div 14) = (length xs + 13) div 14"
      by (cases "length xs \<ge> 14") (simp_all add: div_if [of "length xs + 13"] False)
    then show ?thesis using 1 [OF False] by (simp add: chunks_rec [OF False])
  qed simp
qed

lemma data_inline_loop_spec:
  assumes "pos + r \<le> length data" and "base + i + length (chunks (take r (drop pos data))) \<le> length e"
  shows "data_inline_loop base data pos i (int r) e =
     Some (int (i + length (chunks (take r (drop pos data)))),
           blit e (base + i) (map STREAMUART_EVENT_DATA_INLINE (chunks (take r (drop pos data)))))"
  using assms
proof (induction r arbitrary: pos i e rule: less_induct)
  case (less r)
  show ?case
  proof (cases "r = 0")
    case True
    then show ?thesis using less.prems by (simp add: data_inline_loop.simps [of _ _ _ _ 0] blit_def)
  next
    case False
    define c where "c = min r 14"
    let ?x = "take r (drop pos data)"
    have c: "0 < c" "c \<le> r" "int (if int r > 14 then 14 else nat (int r)) = int c"
      using False by (auto simp: c_def min_def)
    have ne: "?x \<noteq> []" using False less.prems(1) by auto
    have ch: "chunks ?x = take c (drop pos data) # chunks (take (r - c) (drop (pos + c) data))"
      using chunks_rec [OF ne] by (simp add: c_def min_def drop_take add.commute)
    let ?e = "e[base + i := STREAMUART_EVENT_DATA_INLINE (take c (drop pos data))]"
    have "data_inline_loop base data pos i (int r) e =
        data_inline_loop base data (pos + c) (i + 1) (int (r - c)) ?e"
      using False less.prems c ch
      by (subst data_inline_loop.simps)
         (auto simp: SUART_OCTETS_PER_INLINE_DATA_CHUNK_def arr_slice_def arr_set_def c_def Let_def min_def of_nat_diff)
    also have "\<dots> = Some (int (i + 1 + length (chunks (take (r - c) (drop (pos + c) data)))),
        blit ?e (base + (i + 1)) (map STREAMUART_EVENT_DATA_INLINE (chunks (take (r - c) (drop (pos + c) data)))))"
      using less.prems c ch by (intro less.IH) auto
    also have "blit ?e (base + (i + 1)) (map STREAMUART_EVENT_DATA_INLINE (chunks (take (r - c) (drop (pos + c) data)))) =
        blit e (base + i) (map STREAMUART_EVENT_DATA_INLINE (chunks ?x))"
      using less.prems(2) ch by (simp add: blit_def take_update_cancel take_Suc_conv_app_nth)
    finally show ?thesis using ch by simp
  qed
qed

text \<open>More chunks than there are events left: the loop writes past the array.\<close>

lemma data_inline_loop_fault:
  assumes "pos + r \<le> length data" and "base + i + length (chunks (take r (drop pos data))) > length e"
    and "base + i \<le> length e"
  shows "data_inline_loop base data pos i (int r) e = None"
  using assms
proof (induction r arbitrary: pos i e rule: less_induct)
  case (less r)
  define c where "c = min r 14"
  let ?x = "take r (drop pos data)"
  have ne: "?x \<noteq> []" using less.prems(2,3) by (cases "?x = []") auto
  then have r: "r \<noteq> 0" by auto
  have c: "0 < c" "c \<le> r" using r by (auto simp: c_def min_def)
  have ch: "chunks ?x = take c (drop pos data) # chunks (take (r - c) (drop (pos + c) data))"
    using chunks_rec [OF ne] by (simp add: c_def min_def drop_take add.commute)
  let ?e = "e[base + i := STREAMUART_EVENT_DATA_INLINE (take c (drop pos data))]"
  have "data_inline_loop base data pos i (int r) e =
      (if base + i < length e then data_inline_loop base data (pos + c) (i + 1) (int (r - c)) ?e else None)"
    using r less.prems(1) c
    by (subst data_inline_loop.simps)
       (auto simp: SUART_OCTETS_PER_INLINE_DATA_CHUNK_def arr_slice_def arr_set_def c_def Let_def min_def of_nat_diff)
  moreover have "data_inline_loop base data (pos + c) (i + 1) (int (r - c)) ?e = None" if "base + i < length e"
    using less.prems c ch that by (intro less.IH) auto
  ultimately show ?case by simp
qed

lemma sdiv_nat: "(int a + 6) sdiv int SUART_OCTETS_PER_INLINE_DATA_CHUNK = int ((a + 6) div 14)"
  by (simp add: signed_divide_int_def SUART_OCTETS_PER_INLINE_DATA_CHUNK_def zdiv_int [symmetric] sgn_if)

lemma chunks_fit_guard:
  assumes "int (length (chunks xs)) \<le> maxevents"
  shows "\<not> (int (length xs) + 6) sdiv int SUART_OCTETS_PER_INLINE_DATA_CHUNK > maxevents"
proof -
  have "(length xs + 6) div 14 \<le> length (chunks xs)" unfolding length_chunks by (rule div_le_mono) simp
  then show ?thesis using assms unfolding sdiv_nat by linarith
qed

lemma data_inline_chunks:
  assumes "cnt \<le> length data" and "int (length (chunks (take cnt data))) \<le> maxevents"
    and "base + length (chunks (take cnt data)) \<le> length e"
  shows "suart_event_data_inline base maxevents data (int cnt) e =
     Some (int (length (chunks (take cnt data))),
           blit e base (map STREAMUART_EVENT_DATA_INLINE (chunks (take cnt data))))"
proof -
  have "\<not> (int cnt + 6) sdiv int SUART_OCTETS_PER_INLINE_DATA_CHUNK > maxevents"
    using chunks_fit_guard [OF assms(2)] assms(1) by (metis length_take min.absorb2)
  then show ?thesis using assms data_inline_loop_spec [of 0 cnt data base 0 e]
    by (simp add: suart_event_data_inline_def)
qed

lemma data_inline_one:
  assumes "xs \<noteq> []" and "length xs \<le> 14"
  shows "suart_event_data_inline 0 1 xs (int (length xs)) [e] = Some (1, [STREAMUART_EVENT_DATA_INLINE xs])"
proof -
  have "chunks xs = [xs]" using assms chunks_rec [OF assms(1)] by simp
  then show ?thesis using data_inline_chunks [of "length xs" xs 1 0 "[e]"] by (simp add: blit_def)
qed

text \<open>What the octets of a list of events are.\<close>

definition event_octets :: "suart_event \<Rightarrow> u8 list" where
  "event_octets ev = (case ev of STREAMUART_EVENT_DATA xs \<Rightarrow> xs | STREAMUART_EVENT_DATA_INLINE xs \<Rightarrow> xs | _ \<Rightarrow> [])"

lemma event_octets_simps [simp]:
  "event_octets (STREAMUART_EVENT_DATA_INLINE xs) = xs" "event_octets (STREAMUART_EVENT_DATA xs) = xs"
  by (simp_all add: event_octets_def)

lemma concat_map_event_octets [simp]: "concat (map event_octets (map STREAMUART_EVENT_DATA_INLINE cs)) = concat cs"
  by (simp add: comp_def)

text \<open>Splitting a buffer of \<open>cnt\<close> octets, where the array has room, writes exactly
  \<open>(cnt + 13) div 14\<close> events and returns that number; each has between one and fourteen octets, together
  they have the octets of the buffer in order, and the events before and behind them stay.\<close>

theorem data_split_roundtrip:
  assumes "cnt \<le> length data" and "int ((cnt + 13) div 14) \<le> maxevents"
    and "base + (cnt + 13) div 14 \<le> length e"
  shows "\<exists>e'. suart_event_data_inline base maxevents data (int cnt) e = Some (int ((cnt + 13) div 14), e') \<and>
     length e' = length e \<and> take base e' = take base e \<and>
     drop (base + (cnt + 13) div 14) e' = drop (base + (cnt + 13) div 14) e \<and>
     concat (map event_octets (take ((cnt + 13) div 14) (drop base e'))) = take cnt data \<and>
     (\<forall>i < (cnt + 13) div 14. \<exists>xs. e' ! (base + i) = STREAMUART_EVENT_DATA_INLINE xs \<and> xs \<noteq> [] \<and> length xs \<le> 14)"
proof -
  let ?cs = "chunks (take cnt data)" and ?n = "(cnt + 13) div 14"
  let ?es = "map STREAMUART_EVENT_DATA_INLINE ?cs"
  have n: "length ?cs = ?n" using assms(1) by (simp add: length_chunks min_def)
  have "take ?n (drop base (blit e base ?es)) = ?es"
    using take_drop_blit [of base ?es e] assms(3) n by simp
  then have o: "concat (map event_octets (take ?n (drop base (blit e base ?es)))) = take cnt data"
    by (simp only: concat_map_event_octets concat_chunks)
  have d: "drop (base + ?n) (blit e base ?es) = drop (base + ?n) e"
    using assms(3) n by (simp add: blit_def)
  have i: "\<exists>xs. blit e base ?es ! (base + i) = STREAMUART_EVENT_DATA_INLINE xs \<and> xs \<noteq> [] \<and> length xs \<le> 14"
    if "i < ?n" for i
  proof -
    have "blit e base ?es ! (base + i) = STREAMUART_EVENT_DATA_INLINE (?cs ! i)"
      using nth_blit_inside [of base ?es e i] that assms(3) n by simp
    then show ?thesis using set_chunks [of "?cs ! i" "take cnt data"] that n by simp
  qed
  have "suart_event_data_inline base maxevents data (int cnt) e = Some (int ?n, blit e base ?es)"
    using data_inline_chunks [of cnt data maxevents base e] assms n by simp
  then show ?thesis using o d i assms(3) n
    by (intro exI [of _ "blit e base ?es"]) (simp add: take_blit_before)
qed

theorem data_split_roundtrip_witness:
  "\<exists>e'. suart_event_data_inline 1 2 (replicate 20 7) 20 (replicate 4 STREAMUART_EVENT_SHUTDOWN) = Some (2, e') \<and>
     concat (map event_octets (take 2 (drop 1 e'))) = replicate 20 7"
  using data_split_roundtrip [of 20 "replicate 20 7" 2 1 "replicate 4 STREAMUART_EVENT_SHUTDOWN"] by auto

text \<open>The check of the room rounds the count down by up to thirteen octets: a buffer with one to
  seven octets more than the events can hold passes it, and the loop writes past the array.\<close>

theorem data_inline_guard_overruns:
  assumes "cnt \<le> length data" and "14 * length e < cnt" and "cnt \<le> 14 * length e + 7"
  shows "suart_event_data_inline 0 (int (length e)) data (int cnt) e = None"
proof -
  have "(cnt + 6) div 14 \<le> length e" using assms(3) by simp
  then have g: "\<not> (int cnt + 6) sdiv int SUART_OCTETS_PER_INLINE_DATA_CHUNK > int (length e)"
    unfolding sdiv_nat by simp
  have "length (chunks (take cnt data)) > length e"
    using assms by (simp add: length_chunks min_def)
  then have "data_inline_loop 0 data 0 0 (int cnt) e = None"
    using data_inline_loop_fault [of 0 cnt data e 0 0] assms(1) by simp
  then show ?thesis using g by (simp add: suart_event_data_inline_def)
qed

theorem data_inline_guard_overruns_witness:
  "suart_event_data_inline 0 1 (replicate 15 0) 15 [STREAMUART_EVENT_SHUTDOWN] = None"
  using data_inline_guard_overruns [of 15 "replicate 15 0" "[STREAMUART_EVENT_SHUTDOWN]"] by simp

end
