(* ===== verification/Pc16x50.thy ===== *)
theory Pc16x50
  imports Uart_Bus
begin

text \<open>
  The register level driver of the simulated UART (\<^verbatim>\<open>src/src/simulation/uart/pc16cx50.c\<close>).

  Its two function pointers are the parameters \<open>rd\<close> and \<open>wr\<close> of every operation; \<open>px_bus\<close> is the state
  behind them. The two write-only or unreliable registers FCR and MCR have shadows in the driver.
\<close>

section \<open>Register bits\<close>

definition PC16C550_FCR_FIFO_ENABLE :: u8 where "PC16C550_FCR_FIFO_ENABLE = 1"
definition PC16C550_FCR_RCVR_FIFO_RESET :: u8 where "PC16C550_FCR_RCVR_FIFO_RESET = 2"
definition PC16C550_FCR_XMIT_FIFO_RESET :: u8 where "PC16C550_FCR_XMIT_FIFO_RESET = 4"
definition PC16C550_FCR_RCVR_TRIGGER_1BYTE :: u8 where "PC16C550_FCR_RCVR_TRIGGER_1BYTE = 0"
definition PC16C550_FCR_RCVR_TRIGGER_4BYTE :: u8 where "PC16C550_FCR_RCVR_TRIGGER_4BYTE = 0x40"
definition PC16C550_FCR_RCVR_TRIGGER_8BYTE :: u8 where "PC16C550_FCR_RCVR_TRIGGER_8BYTE = 0x80"
definition PC16C550_FCR_RCVR_TRIGGER_14BYTE :: u8 where "PC16C550_FCR_RCVR_TRIGGER_14BYTE = 0xC0"
definition PC16C550_FCR_RCVR_TRIGGER_MASK :: u8 where "PC16C550_FCR_RCVR_TRIGGER_MASK = 0xC0"

definition PC16550_LCR_WLS0 :: u8 where "PC16550_LCR_WLS0 = 1"
definition PC16550_LCR_WLS1 :: u8 where "PC16550_LCR_WLS1 = 2"
definition PC16550_LCR_STB :: u8 where "PC16550_LCR_STB = 4"
definition PC16550_LCR_PEN :: u8 where "PC16550_LCR_PEN = 8"
definition PC16550_LCR_EPS :: u8 where "PC16550_LCR_EPS = 0x10"
definition PC16550_LCR_STICK_PARITY :: u8 where "PC16550_LCR_STICK_PARITY = 0x20"
definition PC16550_LCR_BREAK :: u8 where "PC16550_LCR_BREAK = 0x40"

lemmas pc16x50_fcr_defs = PC16C550_FCR_FIFO_ENABLE_def PC16C550_FCR_RCVR_FIFO_RESET_def
  PC16C550_FCR_XMIT_FIFO_RESET_def PC16C550_FCR_RCVR_TRIGGER_1BYTE_def PC16C550_FCR_RCVR_TRIGGER_4BYTE_def
  PC16C550_FCR_RCVR_TRIGGER_8BYTE_def PC16C550_FCR_RCVR_TRIGGER_14BYTE_def PC16C550_FCR_RCVR_TRIGGER_MASK_def

lemmas pc16x50_lcr_defs = PC16550_LCR_WLS0_def PC16550_LCR_WLS1_def PC16550_LCR_STB_def PC16550_LCR_PEN_def
  PC16550_LCR_EPS_def PC16550_LCR_STICK_PARITY_def PC16550_LCR_BREAK_def PC16550_LCR_DLAB_def

section \<open>Register access\<close>

record 'b pc16x50 =
  px_bus :: 'b
  shadow_fcr :: u8
  mcr_shadow :: u8

definition pc16x50_init :: "'b \<Rightarrow> 'b pc16x50" where
  "pc16x50_init reg_context = \<lparr>px_bus = reg_context, shadow_fcr = 0, mcr_shadow = 0\<rparr>"

definition pc16x50_reg_write :: "'b reg_write \<Rightarrow> int \<Rightarrow> u8 \<Rightarrow> 'b pc16x50 \<Rightarrow> 'b pc16x50 option" where
  "pc16x50_reg_write wr reg val u = do { b \<leftarrow> wr reg val (px_bus u); Some (u\<lparr>px_bus := b\<rparr>) }"

definition pc16x50_reg_read :: "'b reg_read \<Rightarrow> int \<Rightarrow> 'b pc16x50 \<Rightarrow> (u8 \<times> 'b pc16x50) option" where
  "pc16x50_reg_read rd reg u = do { (v, b) \<leftarrow> rd reg (px_bus u); Some (v, u\<lparr>px_bus := b\<rparr>) }"

definition pc16x50_reg_set_bits :: "'b reg_read \<Rightarrow> 'b reg_write \<Rightarrow> int \<Rightarrow> u8 \<Rightarrow> 'b pc16x50 \<Rightarrow> 'b pc16x50 option" where
  "pc16x50_reg_set_bits rd wr reg bits u = do {
     (v, u) \<leftarrow> pc16x50_reg_read rd reg u;
     pc16x50_reg_write wr reg (v OR bits) u }"

definition pc16x50_reg_clear_bits :: "'b reg_read \<Rightarrow> 'b reg_write \<Rightarrow> int \<Rightarrow> u8 \<Rightarrow> 'b pc16x50 \<Rightarrow> 'b pc16x50 option" where
  "pc16x50_reg_clear_bits rd wr reg bits u = do {
     (v, u) \<leftarrow> pc16x50_reg_read rd reg u;
     pc16x50_reg_write wr reg (v AND NOT bits) u }"

definition pc16x50_reg_change_bits ::
  "'b reg_read \<Rightarrow> 'b reg_write \<Rightarrow> int \<Rightarrow> u8 \<Rightarrow> u8 \<Rightarrow> 'b pc16x50 \<Rightarrow> 'b pc16x50 option" where
  "pc16x50_reg_change_bits rd wr reg bits msk u = do {
     (v, u) \<leftarrow> pc16x50_reg_read rd reg u;
     pc16x50_reg_write wr reg ((NOT msk AND v) OR (msk AND bits)) u }"

definition pc16x50_write_thr :: "'b reg_write \<Rightarrow> u8 \<Rightarrow> 'b pc16x50 \<Rightarrow> 'b pc16x50 option" where
  "pc16x50_write_thr wr val u = pc16x50_reg_write wr PC16550_REG_THR val u"

definition pc16x50_read_rbr :: "'b reg_read \<Rightarrow> 'b pc16x50 \<Rightarrow> (u8 \<times> 'b pc16x50) option" where
  "pc16x50_read_rbr rd u = pc16x50_reg_read rd PC16550_REG_RBR u"

section \<open>Interrupt enable and identification\<close>

definition pc16x50_read_ier :: "'b reg_read \<Rightarrow> 'b pc16x50 \<Rightarrow> (u8 \<times> 'b pc16x50) option" where
  "pc16x50_read_ier rd u = pc16x50_reg_read rd PC16550_REG_IER u"

definition pc16x50_write_ier :: "'b reg_write \<Rightarrow> u8 \<Rightarrow> 'b pc16x50 \<Rightarrow> 'b pc16x50 option" where
  "pc16x50_write_ier wr ier u = pc16x50_reg_write wr PC16550_REG_IER ier u"

definition pc16x50_set_ier_bits :: "'b reg_read \<Rightarrow> 'b reg_write \<Rightarrow> u8 \<Rightarrow> 'b pc16x50 \<Rightarrow> 'b pc16x50 option" where
  "pc16x50_set_ier_bits rd wr bits u = pc16x50_reg_set_bits rd wr PC16550_REG_IER bits u"

definition pc16x50_clear_ier_bits :: "'b reg_read \<Rightarrow> 'b reg_write \<Rightarrow> u8 \<Rightarrow> 'b pc16x50 \<Rightarrow> 'b pc16x50 option" where
  "pc16x50_clear_ier_bits rd wr bits u = pc16x50_reg_clear_bits rd wr PC16550_REG_IER bits u"

definition pc16x50_change_ier_bits ::
  "'b reg_read \<Rightarrow> 'b reg_write \<Rightarrow> u8 \<Rightarrow> u8 \<Rightarrow> 'b pc16x50 \<Rightarrow> 'b pc16x50 option" where
  "pc16x50_change_ier_bits rd wr bits msk u = pc16x50_reg_change_bits rd wr PC16550_REG_IER bits msk u"

definition pc16x50_read_isr :: "'b reg_read \<Rightarrow> 'b pc16x50 \<Rightarrow> (u8 \<times> 'b pc16x50) option" where
  "pc16x50_read_isr rd u = pc16x50_reg_read rd PC16550_REG_IIR u"

section \<open>FIFO control\<close>

definition pc16x50_flush_tx_fifo :: "'b reg_write \<Rightarrow> 'b pc16x50 \<Rightarrow> 'b pc16x50 option" where
  "pc16x50_flush_tx_fifo wr u =
     pc16x50_reg_write wr PC16550_REG_FCR (shadow_fcr u OR PC16C550_FCR_XMIT_FIFO_RESET) u"

definition pc16x50_flush_rx_fifo :: "'b reg_write \<Rightarrow> 'b pc16x50 \<Rightarrow> 'b pc16x50 option" where
  "pc16x50_flush_rx_fifo wr u =
     pc16x50_reg_write wr PC16550_REG_FCR (shadow_fcr u OR PC16C550_FCR_RCVR_FIFO_RESET) u"

definition pc16x50_flush_txrx_fifo :: "'b reg_write \<Rightarrow> 'b pc16x50 \<Rightarrow> 'b pc16x50 option" where
  "pc16x50_flush_txrx_fifo wr u =
     pc16x50_reg_write wr PC16550_REG_FCR
       (shadow_fcr u OR PC16C550_FCR_RCVR_FIFO_RESET OR PC16C550_FCR_XMIT_FIFO_RESET) u"

definition pc16x50_enable_fifo :: "'b reg_write \<Rightarrow> 'b pc16x50 \<Rightarrow> 'b pc16x50 option" where
  "pc16x50_enable_fifo wr u = (let u = u\<lparr>shadow_fcr := shadow_fcr u OR PC16C550_FCR_FIFO_ENABLE\<rparr> in
     pc16x50_reg_write wr PC16550_REG_FCR (shadow_fcr u) u)"

definition pc16x50_disable_fifo :: "'b reg_write \<Rightarrow> 'b pc16x50 \<Rightarrow> 'b pc16x50 option" where
  "pc16x50_disable_fifo wr u = (let u = u\<lparr>shadow_fcr := shadow_fcr u AND NOT PC16C550_FCR_FIFO_ENABLE\<rparr> in
     pc16x50_reg_write wr PC16550_REG_FCR (shadow_fcr u) u)"

definition trigger_code :: "int \<Rightarrow> u8 option" where
  "trigger_code level =
     (if level = 1 then Some PC16C550_FCR_RCVR_TRIGGER_1BYTE
      else if level = 4 then Some PC16C550_FCR_RCVR_TRIGGER_4BYTE
      else if level = 8 then Some PC16C550_FCR_RCVR_TRIGGER_8BYTE
      else if level = 14 then Some PC16C550_FCR_RCVR_TRIGGER_14BYTE
      else None)"

definition pc16x50_set_fifo_trigger_level :: "'b reg_write \<Rightarrow> int \<Rightarrow> 'b pc16x50 \<Rightarrow> (int \<times> 'b pc16x50) option" where
  "pc16x50_set_fifo_trigger_level wr level u = (
     let fcr = shadow_fcr u AND NOT PC16C550_FCR_RCVR_TRIGGER_MASK in
     case trigger_code level of
       None \<Rightarrow> Some (1, u)
     | Some code \<Rightarrow> do {
         u \<leftarrow> pc16x50_reg_write wr PC16550_REG_FCR (fcr OR code) (u\<lparr>shadow_fcr := fcr OR code\<rparr>);
         Some (0, u) })"

section \<open>Baud rate\<close>

definition pc16x50_set_baudrate_divisor ::
  "'b reg_read \<Rightarrow> 'b reg_write \<Rightarrow> u16 \<Rightarrow> 'b pc16x50 \<Rightarrow> 'b pc16x50 option" where
  "pc16x50_set_baudrate_divisor rd wr divisor u = do {
     (lcr, u) \<leftarrow> pc16x50_reg_read rd PC16550_REG_LCR u;
     u \<leftarrow> pc16x50_reg_write wr PC16550_REG_LCR (lcr OR PC16550_LCR_DLAB) u;
     u \<leftarrow> pc16x50_reg_write wr PC16550_REG_DLL (ucast divisor) u;
     u \<leftarrow> pc16x50_reg_write wr PC16550_REG_DLM (ucast (drop_bit 8 divisor)) u;
     pc16x50_reg_write wr PC16550_REG_LCR lcr u }"

definition pc16x50_get_baudrate_divisor ::
  "'b reg_read \<Rightarrow> 'b reg_write \<Rightarrow> 'b pc16x50 \<Rightarrow> (u16 \<times> 'b pc16x50) option" where
  "pc16x50_get_baudrate_divisor rd wr u = do {
     (lcr, u) \<leftarrow> pc16x50_reg_read rd PC16550_REG_LCR u;
     u \<leftarrow> pc16x50_reg_write wr PC16550_REG_LCR (lcr OR PC16550_LCR_DLAB) u;
     (dll, u) \<leftarrow> pc16x50_reg_read rd PC16550_REG_DLL u;
     (dlm, u) \<leftarrow> pc16x50_reg_read rd PC16550_REG_DLM u;
     u \<leftarrow> pc16x50_reg_write wr PC16550_REG_LCR lcr u;
     Some (ucast dll OR push_bit 8 (ucast dlm), u) }"

section \<open>Line control\<close>

definition pc16x50_read_lcr :: "'b reg_read \<Rightarrow> 'b pc16x50 \<Rightarrow> (u8 \<times> 'b pc16x50) option" where
  "pc16x50_read_lcr rd u = pc16x50_reg_read rd PC16550_REG_LCR u"

definition pc16x50_write_lcr :: "'b reg_write \<Rightarrow> u8 \<Rightarrow> 'b pc16x50 \<Rightarrow> 'b pc16x50 option" where
  "pc16x50_write_lcr wr lcr u = pc16x50_reg_write wr PC16550_REG_LCR lcr u"

definition pc16x50_set_lcr_bits :: "'b reg_read \<Rightarrow> 'b reg_write \<Rightarrow> u8 \<Rightarrow> 'b pc16x50 \<Rightarrow> 'b pc16x50 option" where
  "pc16x50_set_lcr_bits rd wr bits u = pc16x50_reg_set_bits rd wr PC16550_REG_LCR bits u"

definition pc16x50_clear_lcr_bits :: "'b reg_read \<Rightarrow> 'b reg_write \<Rightarrow> u8 \<Rightarrow> 'b pc16x50 \<Rightarrow> 'b pc16x50 option" where
  "pc16x50_clear_lcr_bits rd wr bits u = pc16x50_reg_clear_bits rd wr PC16550_REG_LCR bits u"

definition pc16x50_change_lcr_bits ::
  "'b reg_read \<Rightarrow> 'b reg_write \<Rightarrow> u8 \<Rightarrow> u8 \<Rightarrow> 'b pc16x50 \<Rightarrow> 'b pc16x50 option" where
  "pc16x50_change_lcr_bits rd wr bits msk u = pc16x50_reg_change_bits rd wr PC16550_REG_LCR bits msk u"

definition bits2code :: "u8 list" where
  "bits2code = [0, PC16550_LCR_WLS0, PC16550_LCR_WLS1, PC16550_LCR_WLS0 OR PC16550_LCR_WLS1]"

definition pc16x50_update_format_bits :: "u8 \<Rightarrow> int \<Rightarrow> char \<Rightarrow> int \<Rightarrow> u8" where
  "pc16x50_update_format_bits lcr databits parity stopbits = (
     let lcr = lcr AND NOT (PC16550_LCR_WLS0 OR PC16550_LCR_WLS1 OR PC16550_LCR_STB OR PC16550_LCR_PEN OR
                            PC16550_LCR_EPS OR PC16550_LCR_STICK_PARITY);
         lcr = lcr OR bits2code ! nat ((databits - 5) AND 3);
         lcr = lcr OR (if stopbits > 1 then PC16550_LCR_STB else 0)
     in lcr OR
       (if parity = CHR ''e'' then PC16550_LCR_PEN OR PC16550_LCR_EPS
        else if parity = CHR ''o'' then PC16550_LCR_PEN
        else if parity = CHR ''1'' then PC16550_LCR_STICK_PARITY OR PC16550_LCR_PEN
        else if parity = CHR ''0'' then PC16550_LCR_STICK_PARITY OR PC16550_LCR_PEN OR PC16550_LCR_EPS
        else 0))"

definition pc16x50_set_format ::
  "'b reg_read \<Rightarrow> 'b reg_write \<Rightarrow> int \<Rightarrow> char \<Rightarrow> int \<Rightarrow> 'b pc16x50 \<Rightarrow> 'b pc16x50 option" where
  "pc16x50_set_format rd wr databits parity stopbits u = do {
     (lcr, u) \<leftarrow> pc16x50_read_lcr rd u;
     pc16x50_write_lcr wr (pc16x50_update_format_bits lcr databits parity stopbits) u }"

definition pc16x50_decode_format :: "u8 \<Rightarrow> int \<times> char \<times> int" where
  "pc16x50_decode_format lcr = (
     let m = lcr AND (PC16550_LCR_STICK_PARITY OR PC16550_LCR_PEN OR PC16550_LCR_EPS) in
     (uint (lcr AND 3) + 5,
      if m = PC16550_LCR_STICK_PARITY OR PC16550_LCR_PEN OR PC16550_LCR_EPS then CHR ''0''
      else if m = PC16550_LCR_STICK_PARITY OR PC16550_LCR_PEN then CHR ''1''
      else if m = PC16550_LCR_PEN OR PC16550_LCR_EPS then CHR ''e''
      else if m = PC16550_LCR_PEN then CHR ''o''
      else CHR ''n'',
      if lcr AND PC16550_LCR_STB \<noteq> 0 then 2 else 1))"

definition pc16x50_get_format :: "'b reg_read \<Rightarrow> 'b pc16x50 \<Rightarrow> ((int \<times> char \<times> int) \<times> 'b pc16x50) option" where
  "pc16x50_get_format rd u = do {
     (lcr, u) \<leftarrow> pc16x50_read_lcr rd u;
     Some (pc16x50_decode_format lcr, u) }"

definition pc16x50_enable_break :: "'b reg_read \<Rightarrow> 'b reg_write \<Rightarrow> 'b pc16x50 \<Rightarrow> 'b pc16x50 option" where
  "pc16x50_enable_break rd wr u = pc16x50_set_lcr_bits rd wr PC16550_LCR_BREAK u"

definition pc16x50_disable_break :: "'b reg_read \<Rightarrow> 'b reg_write \<Rightarrow> 'b pc16x50 \<Rightarrow> 'b pc16x50 option" where
  "pc16x50_disable_break rd wr u = pc16x50_clear_lcr_bits rd wr PC16550_LCR_BREAK u"

section \<open>Modem control and status\<close>

definition pc16x50_read_mcr :: "'b pc16x50 \<Rightarrow> u8" where
  "pc16x50_read_mcr u = mcr_shadow u"

definition pc16x50_write_mcr :: "'b reg_write \<Rightarrow> u8 \<Rightarrow> 'b pc16x50 \<Rightarrow> 'b pc16x50 option" where
  "pc16x50_write_mcr wr mcr u = pc16x50_reg_write wr PC16550_REG_MCR mcr (u\<lparr>mcr_shadow := mcr\<rparr>)"

definition pc16x50_set_mcr_bits :: "'b reg_write \<Rightarrow> u8 \<Rightarrow> 'b pc16x50 \<Rightarrow> 'b pc16x50 option" where
  "pc16x50_set_mcr_bits wr bits u = pc16x50_write_mcr wr (mcr_shadow u OR bits) u"

definition pc16x50_clear_mcr_bits :: "'b reg_write \<Rightarrow> u8 \<Rightarrow> 'b pc16x50 \<Rightarrow> 'b pc16x50 option" where
  "pc16x50_clear_mcr_bits wr bits u = pc16x50_write_mcr wr (mcr_shadow u AND NOT bits) u"

definition pc16x50_change_mcr_bits :: "'b reg_write \<Rightarrow> u8 \<Rightarrow> u8 \<Rightarrow> 'b pc16x50 \<Rightarrow> 'b pc16x50 option" where
  "pc16x50_change_mcr_bits wr bits msk u =
     pc16x50_write_mcr wr ((NOT msk AND mcr_shadow u) OR (msk AND bits)) u"

definition pc16x50_read_lsr :: "'b reg_read \<Rightarrow> 'b pc16x50 \<Rightarrow> (u8 \<times> 'b pc16x50) option" where
  "pc16x50_read_lsr rd u = pc16x50_reg_read rd PC16550_REG_LSR u"

definition pc16x50_read_msr :: "'b reg_read \<Rightarrow> 'b pc16x50 \<Rightarrow> (u8 \<times> 'b pc16x50) option" where
  "pc16x50_read_msr rd u = pc16x50_reg_read rd PC16550_REG_MSR u"


section \<open>Formats\<close>

lemma masked_or:
  fixes w c m k :: u8
  assumes "m AND NOT k = 0"
  shows "(w AND NOT k OR c) AND m = c AND m"
proof -
  have "(w AND NOT k) AND m = w AND (m AND NOT k)" by (simp add: ac_simps)
  then show ?thesis using assms by (simp add: bit.conj_disj_distrib2)
qed

text \<open>The six format bits that stand for a format.\<close>

definition format_code :: "int \<Rightarrow> char \<Rightarrow> int \<Rightarrow> u8" where
  "format_code databits parity stopbits = pc16x50_update_format_bits 0 databits parity stopbits"

lemma update_format_code:
  "pc16x50_update_format_bits lcr databits parity stopbits =
     lcr AND NOT 0x3F OR format_code databits parity stopbits"
  by (simp add: pc16x50_update_format_bits_def format_code_def pc16x50_lcr_defs Let_def ac_simps)

definition valid_format :: "int \<Rightarrow> char \<Rightarrow> int \<Rightarrow> bool" where
  "valid_format databits parity stopbits \<longleftrightarrow>
     databits \<in> {5, 6, 7, 8} \<and> parity \<in> {CHR ''n'', CHR ''e'', CHR ''o'', CHR ''1'', CHR ''0''} \<and> stopbits \<in> {1, 2}"



lemma decode_format_low: "pc16x50_decode_format (w AND NOT 0x3F OR c) = pc16x50_decode_format c"
proof -
  have "(w AND NOT 0x3F OR c) AND m = c AND m" if "m \<in> {3, 4, 0x38}" for m
    by (rule masked_or) (use that in auto)
  then have "(w AND NOT 0x3F OR c) AND 3 = c AND 3" "(w AND NOT 0x3F OR c) AND 4 = c AND 4"
      "(w AND NOT 0x3F OR c) AND 0x38 = c AND 0x38"
    by blast+
  moreover have "PC16550_LCR_STICK_PARITY OR PC16550_LCR_PEN OR PC16550_LCR_EPS = 0x38" "PC16550_LCR_STB = 4"
    by (simp_all add: pc16x50_lcr_defs)
  ultimately show ?thesis unfolding pc16x50_decode_format_def by (simp only:)
qed

lemma decode_format_code:
  assumes "valid_format databits parity stopbits"
  shows "pc16x50_decode_format (format_code databits parity stopbits) = (databits, parity, stopbits)"
  using assms unfolding valid_format_def
  by (elim conjE insertE emptyE; simp add: format_code_def pc16x50_update_format_bits_def
      pc16x50_lcr_defs bits2code_def pc16x50_decode_format_def)

lemma format_code_and: 
  assumes "valid_format databits parity stopbits"
  shows "format_code databits parity stopbits AND 0xC0 = 0"
  using assms unfolding valid_format_def
  by (elim conjE insertE emptyE; simp add: format_code_def pc16x50_update_format_bits_def
      pc16x50_lcr_defs bits2code_def)

lemma update_format_upper:
  assumes "valid_format databits parity stopbits"
  shows "pc16x50_update_format_bits w databits parity stopbits AND 0xC0 = w AND 0xC0"
proof -
  have "(w AND NOT 0x3F) AND 0xC0 = w AND (NOT 0x3F AND 0xC0)" by (simp only: and.assoc)
  then show ?thesis
    using format_code_and [OF assms] unfolding update_format_code by (simp add: bit.conj_disj_distrib2)
qed

lemma decode_update_format:
  assumes "valid_format databits parity stopbits"
  shows "pc16x50_decode_format (pc16x50_update_format_bits w databits parity stopbits) = (databits, parity, stopbits)"
  unfolding update_format_code decode_format_low by (rule decode_format_code [OF assms])

lemma octets_of_divisor:
  "ucast (ucast d :: u8) OR push_bit 8 (ucast (ucast (drop_bit 8 d) :: u8)) = (d :: u16)"
  by (rule bit_eqI) (auto simp: bit_simps)

lemma or_dlab: "bit (w OR PC16550_LCR_DLAB) 7"
  by (simp add: PC16550_LCR_DLAB_def bit_or_iff)

section \<open>The driver on a register file\<close>

context uart_registers
begin

abbreviation pview :: "'b pc16x50 \<Rightarrow> uart_view" where
  "pview u \<equiv> view (px_bus u)"

lemma px_write_lcr:
  assumes "ok (px_bus u)"
  obtains u' where "pc16x50_reg_write wr PC16550_REG_LCR v u = Some u'" "ok (px_bus u')"
    "pview u' = (pview u)\<lparr>v_lcr := v\<rparr>" "shadow_fcr u' = shadow_fcr u" "mcr_shadow u' = mcr_shadow u"
  using wr_lcr [OF assms, of v] by (auto simp: pc16x50_reg_write_def)

lemma px_write_dll:
  assumes "ok (px_bus u)" and "bit (v_lcr (pview u)) 7"
  obtains u' where "pc16x50_reg_write wr PC16550_REG_DLL v u = Some u'" "ok (px_bus u')"
    "pview u' = (pview u)\<lparr>v_dll := v\<rparr>" "shadow_fcr u' = shadow_fcr u" "mcr_shadow u' = mcr_shadow u"
  using wr_dll [OF assms, of v] by (auto simp: pc16x50_reg_write_def)

lemma px_write_dlm:
  assumes "ok (px_bus u)" and "bit (v_lcr (pview u)) 7"
  obtains u' where "pc16x50_reg_write wr PC16550_REG_DLM v u = Some u'" "ok (px_bus u')"
    "pview u' = (pview u)\<lparr>v_dlm := v\<rparr>" "shadow_fcr u' = shadow_fcr u" "mcr_shadow u' = mcr_shadow u"
  using wr_dlm [OF assms, of v] by (auto simp: pc16x50_reg_write_def)

lemma px_write_ier:
  assumes "ok (px_bus u)" and "\<not> bit (v_lcr (pview u)) 7"
  obtains u' where "pc16x50_reg_write wr PC16550_REG_IER v u = Some u'" "ok (px_bus u')"
    "pview u' = (pview u)\<lparr>v_ier := v\<rparr>" "shadow_fcr u' = shadow_fcr u" "mcr_shadow u' = mcr_shadow u"
  using wr_ier [OF assms, of v] by (auto simp: pc16x50_reg_write_def)

lemma px_write_mcr:
  assumes "ok (px_bus u)"
  obtains u' where "pc16x50_write_mcr wr v u = Some u'" "ok (px_bus u')"
    "pview u' = (pview u)\<lparr>v_mcr := v\<rparr>" "shadow_fcr u' = shadow_fcr u" "mcr_shadow u' = v"
  using wr_mcr [OF assms, of v] by (auto simp: pc16x50_reg_write_def pc16x50_write_mcr_def)

lemma px_write_fcr:
  assumes "ok (px_bus u)"
  obtains u' where "pc16x50_reg_write wr PC16550_REG_FCR v u = Some u'" "ok (px_bus u')"
    "pview u' = pview u" "shadow_fcr u' = shadow_fcr u" "mcr_shadow u' = mcr_shadow u"
  using wr_fcr [OF assms, of v] by (auto simp: pc16x50_reg_write_def)

lemma px_reads:
  "ok (px_bus u) \<Longrightarrow> pc16x50_reg_read rd PC16550_REG_LCR u = Some (v_lcr (pview u), u)"
  "ok (px_bus u) \<Longrightarrow> bit (v_lcr (pview u)) 7 \<Longrightarrow> pc16x50_reg_read rd PC16550_REG_DLL u = Some (v_dll (pview u), u)"
  "ok (px_bus u) \<Longrightarrow> bit (v_lcr (pview u)) 7 \<Longrightarrow> pc16x50_reg_read rd PC16550_REG_DLM u = Some (v_dlm (pview u), u)"
  "ok (px_bus u) \<Longrightarrow> \<not> bit (v_lcr (pview u)) 7 \<Longrightarrow> pc16x50_reg_read rd PC16550_REG_IER u = Some (v_ier (pview u), u)"
  by (simp_all add: pc16x50_reg_read_def rd_lcr rd_dll rd_dlm rd_ier)

lemma px_set_divisor:
  assumes "ok (px_bus u)"
  obtains u' where "pc16x50_set_baudrate_divisor rd wr d u = Some u'" "ok (px_bus u')"
    "pview u' = (pview u)\<lparr>v_dll := ucast d, v_dlm := ucast (drop_bit 8 d)\<rparr>"
    "shadow_fcr u' = shadow_fcr u" "mcr_shadow u' = mcr_shadow u"
proof -
  let ?l = "v_lcr (pview u)"
  obtain u1 where u1: "pc16x50_reg_write wr PC16550_REG_LCR (?l OR PC16550_LCR_DLAB) u = Some u1" "ok (px_bus u1)"
      "pview u1 = (pview u)\<lparr>v_lcr := ?l OR PC16550_LCR_DLAB\<rparr>" "shadow_fcr u1 = shadow_fcr u" "mcr_shadow u1 = mcr_shadow u"
    by (rule px_write_lcr [OF assms])
  obtain u2 where u2: "pc16x50_reg_write wr PC16550_REG_DLL (ucast d) u1 = Some u2" "ok (px_bus u2)"
      "pview u2 = (pview u1)\<lparr>v_dll := ucast d\<rparr>" "shadow_fcr u2 = shadow_fcr u1" "mcr_shadow u2 = mcr_shadow u1"
    by (rule px_write_dll [OF u1(2)]) (simp_all add: u1(3) or_dlab)
  obtain u3 where u3: "pc16x50_reg_write wr PC16550_REG_DLM (ucast (drop_bit 8 d)) u2 = Some u3" "ok (px_bus u3)"
      "pview u3 = (pview u2)\<lparr>v_dlm := ucast (drop_bit 8 d)\<rparr>" "shadow_fcr u3 = shadow_fcr u2" "mcr_shadow u3 = mcr_shadow u2"
    by (rule px_write_dlm [OF u2(2)]) (simp_all add: u1(3) u2(3) or_dlab)
  obtain u4 where u4: "pc16x50_reg_write wr PC16550_REG_LCR ?l u3 = Some u4" "ok (px_bus u4)"
      "pview u4 = (pview u3)\<lparr>v_lcr := ?l\<rparr>" "shadow_fcr u4 = shadow_fcr u3" "mcr_shadow u4 = mcr_shadow u3"
    by (rule px_write_lcr [OF u3(2)])
  have "pc16x50_set_baudrate_divisor rd wr d u = Some u4"
    by (simp add: pc16x50_set_baudrate_divisor_def px_reads(1) assms u1(1) u2(1) u3(1) u4(1))
  moreover have "pview u4 = (pview u)\<lparr>v_dll := ucast d, v_dlm := ucast (drop_bit 8 d)\<rparr>"
    by (simp add: u4(3) u3(3) u2(3) u1(3))
  ultimately show thesis using that u4(2,4,5) u3(4,5) u2(4,5) u1(4,5) by simp
qed

lemma px_get_divisor:
  assumes "ok (px_bus u)"
  obtains u' where "pc16x50_get_baudrate_divisor rd wr u =
      Some (ucast (v_dll (pview u)) OR push_bit 8 (ucast (v_dlm (pview u))), u')" "ok (px_bus u')" "pview u' = pview u"
    "shadow_fcr u' = shadow_fcr u" "mcr_shadow u' = mcr_shadow u"
proof -
  let ?l = "v_lcr (pview u)"
  obtain u1 where u1: "pc16x50_reg_write wr PC16550_REG_LCR (?l OR PC16550_LCR_DLAB) u = Some u1" "ok (px_bus u1)"
      "pview u1 = (pview u)\<lparr>v_lcr := ?l OR PC16550_LCR_DLAB\<rparr>" "shadow_fcr u1 = shadow_fcr u" "mcr_shadow u1 = mcr_shadow u"
    by (rule px_write_lcr [OF assms])
  obtain u2 where u2: "pc16x50_reg_write wr PC16550_REG_LCR ?l u1 = Some u2" "ok (px_bus u2)"
      "pview u2 = (pview u1)\<lparr>v_lcr := ?l\<rparr>" "shadow_fcr u2 = shadow_fcr u1" "mcr_shadow u2 = mcr_shadow u1"
    by (rule px_write_lcr [OF u1(2)])
  have "pc16x50_get_baudrate_divisor rd wr u =
      Some (ucast (v_dll (pview u)) OR push_bit 8 (ucast (v_dlm (pview u))), u2)"
    by (simp add: pc16x50_get_baudrate_divisor_def px_reads assms u1(1-3) or_dlab u2(1))
  then show thesis using that u2(2-5) u1(3-5) by simp
qed

lemma px_divisor_roundtrip:
  assumes "ok (px_bus u)"
  shows "\<exists>u' u''. pc16x50_set_baudrate_divisor rd wr d u = Some u' \<and> v_lcr (pview u') = v_lcr (pview u) \<and>
     pc16x50_get_baudrate_divisor rd wr u' = Some (d, u'') \<and> pview u'' = pview u'"
proof -
  obtain u' where u': "pc16x50_set_baudrate_divisor rd wr d u = Some u'" "ok (px_bus u')"
      "pview u' = (pview u)\<lparr>v_dll := ucast d, v_dlm := ucast (drop_bit 8 d)\<rparr>"
    by (rule px_set_divisor [OF assms])
  obtain u'' where "pc16x50_get_baudrate_divisor rd wr u' =
      Some (ucast (v_dll (pview u')) OR push_bit 8 (ucast (v_dlm (pview u'))), u'')" "pview u'' = pview u'"
    by (rule px_get_divisor [OF u'(2)])
  then show ?thesis using u' by (simp add: octets_of_divisor)
qed

lemma px_set_format:
  assumes "ok (px_bus u)"
  obtains u' where "pc16x50_set_format rd wr databits parity stopbits u = Some u'" "ok (px_bus u')"
    "pview u' = (pview u)\<lparr>v_lcr := pc16x50_update_format_bits (v_lcr (pview u)) databits parity stopbits\<rparr>"
    "shadow_fcr u' = shadow_fcr u" "mcr_shadow u' = mcr_shadow u"
proof -
  obtain u' where "pc16x50_reg_write wr PC16550_REG_LCR
      (pc16x50_update_format_bits (v_lcr (pview u)) databits parity stopbits) u = Some u'" "ok (px_bus u')"
    "pview u' = (pview u)\<lparr>v_lcr := pc16x50_update_format_bits (v_lcr (pview u)) databits parity stopbits\<rparr>"
    "shadow_fcr u' = shadow_fcr u" "mcr_shadow u' = mcr_shadow u"
    by (rule px_write_lcr [OF assms])
  then show thesis
    using that by (simp add: pc16x50_set_format_def pc16x50_read_lcr_def pc16x50_write_lcr_def px_reads assms)
qed

lemma px_format_roundtrip:
  assumes "ok (px_bus u)" and "valid_format databits parity stopbits"
  shows "\<exists>u'. pc16x50_set_format rd wr databits parity stopbits u = Some u' \<and>
     pc16x50_get_format rd u' = Some ((databits, parity, stopbits), u') \<and>
     v_lcr (pview u') AND 0xC0 = v_lcr (pview u) AND 0xC0 \<and>
     pview u' = (pview u)\<lparr>v_lcr := v_lcr (pview u')\<rparr>"
proof -
  obtain u' where u': "pc16x50_set_format rd wr databits parity stopbits u = Some u'" "ok (px_bus u')"
    "pview u' = (pview u)\<lparr>v_lcr := pc16x50_update_format_bits (v_lcr (pview u)) databits parity stopbits\<rparr>"
    by (rule px_set_format [OF assms(1)])
  have "pc16x50_get_format rd u' = Some ((databits, parity, stopbits), u')"
    using u'(3) by (simp add: pc16x50_get_format_def pc16x50_read_lcr_def px_reads u'(2) decode_update_format
        assms(2))
  then show ?thesis using u'(1,3) update_format_upper [OF assms(2)] by simp
qed

text \<open>The shadows are right: MCR holds its shadow, and FCR's never has a reset bit.\<close>

definition px_inv :: "'b pc16x50 \<Rightarrow> bool" where
  "px_inv u \<longleftrightarrow> ok (px_bus u) \<and> mcr_shadow u = v_mcr (pview u) \<and> \<not> bit (v_lcr (pview u)) 7 \<and>
     \<not> bit (shadow_fcr u) 1 \<and> \<not> bit (shadow_fcr u) 2"

lemma px_inv_mcr:
  assumes "px_inv u"
  shows "\<exists>u'. pc16x50_write_mcr wr v u = Some u' \<and> px_inv u'"
proof -
  have "ok (px_bus u)" using assms by (simp add: px_inv_def)
  then obtain u' where "pc16x50_write_mcr wr v u = Some u'" "ok (px_bus u')"
    "pview u' = (pview u)\<lparr>v_mcr := v\<rparr>" "shadow_fcr u' = shadow_fcr u" "mcr_shadow u' = v"
    by (rule px_write_mcr)
  then show ?thesis using assms by (simp add: px_inv_def)
qed

lemma px_inv_lcr:
  assumes "px_inv u" and "\<not> bit v 7"
  shows "\<exists>u'. pc16x50_reg_write wr PC16550_REG_LCR v u = Some u' \<and> px_inv u'"
proof -
  have "ok (px_bus u)" using assms by (simp add: px_inv_def)
  then obtain u' where "pc16x50_reg_write wr PC16550_REG_LCR v u = Some u'" "ok (px_bus u')"
    "pview u' = (pview u)\<lparr>v_lcr := v\<rparr>" "shadow_fcr u' = shadow_fcr u" "mcr_shadow u' = mcr_shadow u"
    by (rule px_write_lcr)
  then show ?thesis using assms by (simp add: px_inv_def)
qed

lemma px_inv_ier:
  assumes "px_inv u"
  shows "\<exists>u'. pc16x50_reg_write wr PC16550_REG_IER v u = Some u' \<and> px_inv u'"
proof -
  have "ok (px_bus u)" "\<not> bit (v_lcr (pview u)) 7" using assms by (simp_all add: px_inv_def)
  then obtain u' where "pc16x50_reg_write wr PC16550_REG_IER v u = Some u'" "ok (px_bus u')"
    "pview u' = (pview u)\<lparr>v_ier := v\<rparr>" "shadow_fcr u' = shadow_fcr u" "mcr_shadow u' = mcr_shadow u"
    by (rule px_write_ier)
  then show ?thesis using assms by (simp add: px_inv_def)
qed

lemma px_inv_fcr:
  assumes "px_inv u" and "\<not> bit s 1" and "\<not> bit s 2"
  shows "\<exists>u'. pc16x50_reg_write wr PC16550_REG_FCR v (u\<lparr>shadow_fcr := s\<rparr>) = Some u' \<and> px_inv u'"
proof -
  have "ok (px_bus (u\<lparr>shadow_fcr := s\<rparr>))" using assms by (simp add: px_inv_def)
  then obtain u' where "pc16x50_reg_write wr PC16550_REG_FCR v (u\<lparr>shadow_fcr := s\<rparr>) = Some u'" "ok (px_bus u')"
    "pview u' = pview (u\<lparr>shadow_fcr := s\<rparr>)" "shadow_fcr u' = shadow_fcr (u\<lparr>shadow_fcr := s\<rparr>)"
    "mcr_shadow u' = mcr_shadow (u\<lparr>shadow_fcr := s\<rparr>)"
    by (rule px_write_fcr)
  then show ?thesis using assms by (simp add: px_inv_def)
qed

lemma px_inv_thr:
  assumes "px_inv u"
  shows "\<exists>u'. pc16x50_write_thr wr v u = Some u' \<and> px_inv u'"
proof -
  obtain b' where "wr PC16550_REG_THR v (px_bus u) = Some b'" "ok b'" "view b' = pview u"
    using wr_thr [of "px_bus u" v] assms by (auto simp: px_inv_def)
  then show ?thesis using assms by (simp add: px_inv_def pc16x50_write_thr_def pc16x50_reg_write_def)
qed

lemma px_inv_read:
  assumes "px_inv u" and "0 \<le> reg" and "reg < 8"
  shows "\<exists>v u'. pc16x50_reg_read rd reg u = Some (v, u') \<and> px_inv u'"
proof -
  obtain v b' where "rd reg (px_bus u) = Some (v, b')" "ok b'" "view b' = pview u"
    using rd_any [of "px_bus u" reg] assms by (auto simp: px_inv_def)
  then show ?thesis using assms(1) by (simp add: px_inv_def pc16x50_reg_read_def)
qed

end

section \<open>Sequences of operations\<close>

text \<open>Every operation that the driver exports, with its arguments; \<open>pc16x50_read_mcr\<close>, which only returns
  the shadow, has no effect.\<close>

datatype px_op =
    PxWriteThr u8 | PxReadRbr
  | PxReadIer | PxReadIsr | PxReadLcr | PxReadLsr | PxReadMsr
  | PxFormat int char int | PxGetFormat
  | PxDivisor u16 | PxGetDivisor
  | PxWriteLcr u8 | PxSetLcr u8 | PxClearLcr u8 | PxChangeLcr u8 u8
  | PxWriteMcr u8 | PxWriteIer u8
  | PxBreak bool
  | PxSetMcr u8 | PxClearMcr u8 | PxChangeMcr u8 u8
  | PxSetIer u8 | PxClearIer u8 | PxChangeIer u8 u8
  | PxFlush bool bool
  | PxFifo bool
  | PxTrigger int

fun px_exec :: "'b reg_read \<Rightarrow> 'b reg_write \<Rightarrow> px_op \<Rightarrow> 'b pc16x50 \<Rightarrow> 'b pc16x50 option" where
  "px_exec rd wr (PxWriteThr v) u = pc16x50_write_thr wr v u"
| "px_exec rd wr PxReadRbr u = map_option snd (pc16x50_read_rbr rd u)"
| "px_exec rd wr PxReadIer u = map_option snd (pc16x50_read_ier rd u)"
| "px_exec rd wr PxReadIsr u = map_option snd (pc16x50_read_isr rd u)"
| "px_exec rd wr PxReadLcr u = map_option snd (pc16x50_read_lcr rd u)"
| "px_exec rd wr PxReadLsr u = map_option snd (pc16x50_read_lsr rd u)"
| "px_exec rd wr PxReadMsr u = map_option snd (pc16x50_read_msr rd u)"
| "px_exec rd wr PxGetFormat u = map_option snd (pc16x50_get_format rd u)"
| "px_exec rd wr PxGetDivisor u = map_option snd (pc16x50_get_baudrate_divisor rd wr u)"
| "px_exec rd wr (PxWriteLcr v) u = pc16x50_write_lcr wr v u"
| "px_exec rd wr (PxSetLcr bits) u = pc16x50_set_lcr_bits rd wr bits u"
| "px_exec rd wr (PxClearLcr bits) u = pc16x50_clear_lcr_bits rd wr bits u"
| "px_exec rd wr (PxChangeLcr bits msk) u = pc16x50_change_lcr_bits rd wr bits msk u"
| "px_exec rd wr (PxWriteMcr v) u = pc16x50_write_mcr wr v u"
| "px_exec rd wr (PxWriteIer v) u = pc16x50_write_ier wr v u"
| "px_exec rd wr (PxFormat d p s) u = pc16x50_set_format rd wr d p s u"
| "px_exec rd wr (PxDivisor d) u = pc16x50_set_baudrate_divisor rd wr d u"
| "px_exec rd wr (PxBreak on) u = (if on then pc16x50_enable_break rd wr u else pc16x50_disable_break rd wr u)"
| "px_exec rd wr (PxSetMcr bits) u = pc16x50_set_mcr_bits wr bits u"
| "px_exec rd wr (PxClearMcr bits) u = pc16x50_clear_mcr_bits wr bits u"
| "px_exec rd wr (PxChangeMcr bits msk) u = pc16x50_change_mcr_bits wr bits msk u"
| "px_exec rd wr (PxSetIer bits) u = pc16x50_set_ier_bits rd wr bits u"
| "px_exec rd wr (PxClearIer bits) u = pc16x50_clear_ier_bits rd wr bits u"
| "px_exec rd wr (PxChangeIer bits msk) u = pc16x50_change_ier_bits rd wr bits msk u"
| "px_exec rd wr (PxFlush tx rx) u =
     (if tx \<and> rx then pc16x50_flush_txrx_fifo wr u else if tx then pc16x50_flush_tx_fifo wr u
      else if rx then pc16x50_flush_rx_fifo wr u else Some u)"
| "px_exec rd wr (PxFifo on) u = (if on then pc16x50_enable_fifo wr u else pc16x50_disable_fifo wr u)"
| "px_exec rd wr (PxTrigger l) u = map_option snd (pc16x50_set_fifo_trigger_level wr l u)"

fun px_run :: "'b reg_read \<Rightarrow> 'b reg_write \<Rightarrow> px_op list \<Rightarrow> 'b pc16x50 \<Rightarrow> 'b pc16x50 option" where
  "px_run rd wr [] u = Some u"
| "px_run rd wr (x # xs) u = do { u \<leftarrow> px_exec rd wr x u; px_run rd wr xs u }"

text \<open>The operation does not set the top bit (DLAB) of the line control register itself.\<close>

fun leaves_dlab :: "px_op \<Rightarrow> bool" where
  "leaves_dlab (PxWriteLcr v) = (\<not> bit v 7)"
| "leaves_dlab (PxSetLcr bits) = (\<not> bit bits 7)"
| "leaves_dlab (PxChangeLcr bits msk) = (\<not> bit (bits AND msk) 7)"
| "leaves_dlab _ = True"

lemma update_format_bit7:
  assumes "\<not> bit w 7"
  shows "\<not> bit (pc16x50_update_format_bits w databits parity stopbits) 7"
proof -
  have "(databits - 5) AND 3 = (databits - 5) mod 4"
    using take_bit_eq_mask [of 2 "databits - 5"] by (simp add: mask_eq_exp_minus_1 take_bit_eq_mod)
  then have "nat ((databits - 5) AND 3) < 4" by simp
  then have "nat ((databits - 5) AND 3) \<in> {0, 1, 2, 3}" by auto
  then have "\<not> bit (bits2code ! nat ((databits - 5) AND 3)) 7"
    by (auto simp: bits2code_def pc16x50_lcr_defs)
  then show ?thesis
    using assms by (simp add: pc16x50_update_format_bits_def Let_def bit_or_iff bit_and_iff pc16x50_lcr_defs)
qed

lemma trigger_code_bits: "trigger_code l = Some c \<Longrightarrow> \<not> bit c 1 \<and> \<not> bit c 2"
  by (auto simp: trigger_code_def pc16x50_fcr_defs bit_numeral_word_iff split: if_splits)

context uart_registers
begin

lemma px_lcr_inv:
  assumes "px_inv u"
  shows "\<not> bit v 7 \<Longrightarrow> \<exists>u'. pc16x50_write_lcr wr v u = Some u' \<and> px_inv u'"
    and "\<not> bit bits 7 \<Longrightarrow> \<exists>u'. pc16x50_set_lcr_bits rd wr bits u = Some u' \<and> px_inv u'"
    and "\<exists>u'. pc16x50_clear_lcr_bits rd wr bits u = Some u' \<and> px_inv u'"
    and "\<not> bit (bits AND msk) 7 \<Longrightarrow> \<exists>u'. pc16x50_change_lcr_bits rd wr bits msk u = Some u' \<and> px_inv u'"
proof -
  have u: "ok (px_bus u)" "\<not> bit (v_lcr (pview u)) 7" using assms by (simp_all add: px_inv_def)
  note lcr = px_inv_lcr [OF assms] and regs = px_reads(1) [OF u(1)]
  show "\<exists>u'. pc16x50_write_lcr wr v u = Some u' \<and> px_inv u'" if "\<not> bit v 7"
    using lcr that by (simp add: pc16x50_write_lcr_def)
  show "\<exists>u'. pc16x50_set_lcr_bits rd wr bits u = Some u' \<and> px_inv u'" if "\<not> bit bits 7"
    using lcr u(2) that by (simp add: pc16x50_set_lcr_bits_def pc16x50_reg_set_bits_def regs bit_or_iff)
  show "\<exists>u'. pc16x50_clear_lcr_bits rd wr bits u = Some u' \<and> px_inv u'"
    using lcr u(2) by (simp add: pc16x50_clear_lcr_bits_def pc16x50_reg_clear_bits_def regs bit_and_iff)
  show "\<exists>u'. pc16x50_change_lcr_bits rd wr bits msk u = Some u' \<and> px_inv u'" if "\<not> bit (bits AND msk) 7"
    using lcr u(2) that
    by (simp add: pc16x50_change_lcr_bits_def pc16x50_reg_change_bits_def regs bit_or_iff bit_and_iff conj_commute)
qed

lemma px_reads_inv:
  assumes "px_inv u"
  shows "\<exists>v u'. pc16x50_read_rbr rd u = Some (v, u') \<and> px_inv u'"
    and "\<exists>v u'. pc16x50_read_ier rd u = Some (v, u') \<and> px_inv u'"
    and "\<exists>v u'. pc16x50_read_isr rd u = Some (v, u') \<and> px_inv u'"
    and "\<exists>v u'. pc16x50_read_lcr rd u = Some (v, u') \<and> px_inv u'"
    and "\<exists>v u'. pc16x50_read_lsr rd u = Some (v, u') \<and> px_inv u'"
    and "\<exists>v u'. pc16x50_read_msr rd u = Some (v, u') \<and> px_inv u'"
  unfolding pc16x50_read_rbr_def pc16x50_read_ier_def pc16x50_read_isr_def pc16x50_read_lcr_def
    pc16x50_read_lsr_def pc16x50_read_msr_def
  by (rule px_inv_read [OF assms]; simp add: pc16550_reg_defs)+

lemma px_exec_inv:
  assumes "px_inv u" and "leaves_dlab x"
  shows "\<exists>u'. px_exec rd wr x u = Some u' \<and> px_inv u'"
proof (cases x)
  case (PxFormat d p s)
  show ?thesis
    using assms(1) px_inv_lcr [OF assms(1) update_format_bit7, of "v_lcr (pview u)" d p s]
    by (simp add: PxFormat pc16x50_set_format_def pc16x50_read_lcr_def pc16x50_write_lcr_def px_reads px_inv_def)
next
  case (PxDivisor d)
  have "ok (px_bus u)" using assms(1) by (simp add: px_inv_def)
  then obtain u' where "pc16x50_set_baudrate_divisor rd wr d u = Some u'" "ok (px_bus u')"
    "pview u' = (pview u)\<lparr>v_dll := ucast d, v_dlm := ucast (drop_bit 8 d)\<rparr>"
    "shadow_fcr u' = shadow_fcr u" "mcr_shadow u' = mcr_shadow u"
    by (rule px_set_divisor)
  then show ?thesis using assms(1) by (simp add: PxDivisor px_inv_def)
next
  case (PxBreak on)
  have "\<not> bit PC16550_LCR_BREAK 7" by (simp add: PC16550_LCR_BREAK_def)
  then show ?thesis using px_lcr_inv(2,3) [OF assms(1), of PC16550_LCR_BREAK]
    by (simp add: PxBreak pc16x50_enable_break_def pc16x50_disable_break_def)
next
  case (PxTrigger l)
  show ?thesis
  proof (cases "trigger_code l")
    case None
    then show ?thesis using assms(1) by (simp add: PxTrigger pc16x50_set_fifo_trigger_level_def Let_def)
  next
    case (Some c)
    have "\<not> bit (shadow_fcr u AND NOT PC16C550_FCR_RCVR_TRIGGER_MASK OR c) 1"
        "\<not> bit (shadow_fcr u AND NOT PC16C550_FCR_RCVR_TRIGGER_MASK OR c) 2"
      using assms(1) trigger_code_bits [OF Some] by (simp_all add: px_inv_def bit_or_iff bit_and_iff)
    from px_inv_fcr [OF assms(1) this, of "shadow_fcr u AND NOT PC16C550_FCR_RCVR_TRIGGER_MASK OR c"] show ?thesis
      using Some by (auto simp: PxTrigger pc16x50_set_fifo_trigger_level_def Let_def)
  qed
next
  case (PxFifo on)
  have "\<not> bit (shadow_fcr u OR PC16C550_FCR_FIFO_ENABLE) 1" "\<not> bit (shadow_fcr u OR PC16C550_FCR_FIFO_ENABLE) 2"
       "\<not> bit (shadow_fcr u AND NOT PC16C550_FCR_FIFO_ENABLE) 1" "\<not> bit (shadow_fcr u AND NOT PC16C550_FCR_FIFO_ENABLE) 2"
    using assms(1) by (simp_all add: px_inv_def bit_or_iff bit_and_iff PC16C550_FCR_FIFO_ENABLE_def bit_1_iff)
  then show ?thesis using px_inv_fcr [OF assms(1)]
    by (simp add: PxFifo pc16x50_enable_fifo_def pc16x50_disable_fifo_def Let_def)
next
  case (PxFlush tx rx)
  have *: "\<exists>u'. pc16x50_reg_write wr PC16550_REG_FCR v u = Some u' \<and> px_inv u'" for v
    using px_inv_fcr [OF assms(1), of "shadow_fcr u"] assms(1) by (simp add: px_inv_def)
  then show ?thesis using assms(1)
    by (simp add: PxFlush pc16x50_flush_tx_fifo_def pc16x50_flush_rx_fifo_def pc16x50_flush_txrx_fifo_def)
next
  case PxGetDivisor
  have "ok (px_bus u)" using assms(1) by (simp add: px_inv_def)
  from px_get_divisor [OF this] obtain v u' where "pc16x50_get_baudrate_divisor rd wr u = Some (v, u')"
    "ok (px_bus u')" "pview u' = pview u" "shadow_fcr u' = shadow_fcr u" "mcr_shadow u' = mcr_shadow u" by blast
  then show ?thesis using assms(1) by (simp add: PxGetDivisor px_inv_def)
next
  case PxGetFormat
  then show ?thesis using px_reads_inv(4) [OF assms(1)] by (auto simp: pc16x50_get_format_def) (metis prod_cases3)
next
  case (PxWriteIer v)
  then show ?thesis using px_inv_ier [OF assms(1)] by (simp add: pc16x50_write_ier_def)
next
  case (PxSetIer bits)
  then show ?thesis using px_inv_ier [OF assms(1)] assms(1)
    by (simp add: pc16x50_set_ier_bits_def pc16x50_reg_set_bits_def px_reads px_inv_def)
next
  case (PxClearIer bits)
  then show ?thesis using px_inv_ier [OF assms(1)] assms(1)
    by (simp add: pc16x50_clear_ier_bits_def pc16x50_reg_clear_bits_def px_reads px_inv_def)
next
  case (PxChangeIer bits msk)
  then show ?thesis using px_inv_ier [OF assms(1)] assms(1)
    by (simp add: pc16x50_change_ier_bits_def pc16x50_reg_change_bits_def px_reads px_inv_def)
qed (use assms(2) px_inv_mcr [OF assms(1)] px_inv_thr [OF assms(1)] px_lcr_inv [OF assms(1)] in
    \<open>simp_all add: pc16x50_set_mcr_bits_def pc16x50_clear_mcr_bits_def pc16x50_change_mcr_bits_def\<close>,
    use px_reads_inv [OF assms(1)] in auto)

lemma px_run_inv:
  assumes "px_inv u" and "\<forall>x \<in> set xs. leaves_dlab x"
  shows "\<exists>u'. px_run rd wr xs u = Some u' \<and> px_inv u'"
  using assms
proof (induction xs arbitrary: u)
  case (Cons x xs)
  obtain u' where "px_exec rd wr x u = Some u'" "px_inv u'" using px_exec_inv [of u x] Cons.prems by auto
  then show ?case using Cons.IH Cons.prems by simp
qed simp

end

section \<open>Properties on the simulated bus\<close>

definition demo_bus :: dummy_bus where
  "demo_bus = the_default \<lparr>register_values = []\<rparr> (dummy_bus_create (replicate 0x3f 0))"

lemma demo_bus_facts:
  "dummy_bus_create (replicate 0x3f 0) = Some demo_bus" "dummy_ok demo_bus"
  "dummy_view demo_bus = \<lparr>v_lcr = 0, v_dll = 0, v_dlm = 0, v_ier = 0, v_mcr = 0\<rparr>"
  using dummy_bus_create_spec [of "replicate 0x3f 0"] unfolding demo_bus_def by auto

text \<open>
  The baud rate divisor is stored: every 16 bit divisor that was set is read back, and neither
  setting nor reading it changes the line control register, whatever it was.
\<close>

theorem pc16x50_divisor_roundtrip:
  assumes "dummy_ok (px_bus u)"
  shows "\<exists>u' u''. pc16x50_set_baudrate_divisor dummy_read_u8 dummy_write_u8 d u = Some u' \<and>
     register_values (px_bus u') ! 3 = register_values (px_bus u) ! 3 \<and>
     pc16x50_get_baudrate_divisor dummy_read_u8 dummy_write_u8 u' = Some (d, u'') \<and>
     dummy_view (px_bus u'') = dummy_view (px_bus u')"
  using db.px_divisor_roundtrip [OF assms, of d] by (simp add: dummy_view_def Let_def)

theorem pc16x50_divisor_roundtrip_witness:
  "\<exists>u' u''. pc16x50_set_baudrate_divisor dummy_read_u8 dummy_write_u8 0x1234 (pc16x50_init demo_bus) = Some u' \<and>
     pc16x50_get_baudrate_divisor dummy_read_u8 dummy_write_u8 u' = Some (0x1234, u'')"
proof -
  have "dummy_ok (px_bus (pc16x50_init demo_bus))" by (simp add: pc16x50_init_def demo_bus_facts)
  from pc16x50_divisor_roundtrip [OF this, of "0x1234"] show ?thesis by blast
qed

text \<open>
  The line format is stored: with five to eight data bits, no, even, odd, mark or space parity
  and one or two stop bits, what was set is read back, and the break and the divisor latch bit of the
  line control register and all other registers stay as they were.
\<close>

theorem pc16x50_format_roundtrip:
  assumes "dummy_ok (px_bus u)" and "databits \<in> {5, 6, 7, 8}" and "stopbits \<in> {1, 2}"
    and "parity \<in> {CHR ''n'', CHR ''e'', CHR ''o'', CHR ''1'', CHR ''0''}"
  shows "\<exists>u'. pc16x50_set_format dummy_read_u8 dummy_write_u8 databits parity stopbits u = Some u' \<and>
     pc16x50_get_format dummy_read_u8 u' = Some ((databits, parity, stopbits), u') \<and>
     v_lcr (dummy_view (px_bus u')) AND 0xC0 = v_lcr (dummy_view (px_bus u)) AND 0xC0 \<and>
     dummy_view (px_bus u') = (dummy_view (px_bus u))\<lparr>v_lcr := v_lcr (dummy_view (px_bus u'))\<rparr>"
  using db.px_format_roundtrip [OF assms(1), of databits parity stopbits] assms(2-4)
  unfolding valid_format_def by simp

theorem pc16x50_format_roundtrip_witness:
  "\<exists>u'. pc16x50_set_format dummy_read_u8 dummy_write_u8 8 (CHR ''n'') 2 (pc16x50_init demo_bus) = Some u' \<and>
     pc16x50_get_format dummy_read_u8 u' = Some ((8, CHR ''n'', 2), u')"
proof -
  have "dummy_ok (px_bus (pc16x50_init demo_bus))" by (simp add: pc16x50_init_def demo_bus_facts)
  from pc16x50_format_roundtrip [OF this, of 8 2 "CHR ''n''"] show ?thesis by auto
qed

text \<open>
  C40. The shadow registers are right: after any sequence of the driver's operations on a fresh UART, in
  which no direct write of the line control register selects the divisor latch (\<open>leaves_dlab\<close>: an
  operand of \<open>pc16x50_write_lcr\<close>, \<open>pc16x50_set_lcr_bits\<close> or \<open>pc16x50_change_lcr_bits\<close> that sets the bit
  0x80), no access is out of range, the shadow of the modem control register is what the register
  holds, the divisor latch is not selected (setting and reading the divisor and the format put it
  back), and the shadow of the FIFO control register has no reset bit, so that no later write of it
  empties a FIFO by accident. Writing 0x80 to the line control register directly does leave the
  divisor latch selected.
\<close>

theorem pc16x50_shadows_match:
  assumes "dummy_bus_create memory = Some bus" and "length memory \<ge> 0x3f"
  shows "((\<forall>x \<in> set xs. leaves_dlab x) \<longrightarrow>
      (\<exists>u. px_run dummy_read_u8 dummy_write_u8 xs (pc16x50_init bus) = Some u \<and>
         pc16x50_read_mcr u = register_values (px_bus u) ! 4 \<and> \<not> bit (register_values (px_bus u) ! 3) 7 \<and>
         \<not> bit (shadow_fcr u) 1 \<and> \<not> bit (shadow_fcr u) 2)) \<and>
    (\<exists>u. pc16x50_write_lcr dummy_write_u8 0x80 (pc16x50_init bus) = Some u \<and>
         bit (register_values (px_bus u) ! 3) 7)"
proof (intro conjI impI)
  have inv: "db.px_inv (pc16x50_init bus)"
    using dummy_bus_create_spec [OF assms(2)] assms(1) by (auto simp: db.px_inv_def pc16x50_init_def)
  show "\<exists>u. px_run dummy_read_u8 dummy_write_u8 xs (pc16x50_init bus) = Some u \<and>
      pc16x50_read_mcr u = register_values (px_bus u) ! 4 \<and> \<not> bit (register_values (px_bus u) ! 3) 7 \<and>
      \<not> bit (shadow_fcr u) 1 \<and> \<not> bit (shadow_fcr u) 2" if "\<forall>x \<in> set xs. leaves_dlab x"
    using db.px_run_inv [OF inv that]
    by (auto simp: db.px_inv_def dummy_view_def pc16x50_read_mcr_def Let_def)
  have "dummy_ok (px_bus (pc16x50_init bus))" using inv by (simp add: db.px_inv_def)
  from db.px_write_lcr [OF this, of "0x80"]
  obtain u where "pc16x50_reg_write dummy_write_u8 PC16550_REG_LCR 0x80 (pc16x50_init bus) = Some u"
      "dummy_view (px_bus u) = (dummy_view (px_bus (pc16x50_init bus)))\<lparr>v_lcr := 0x80\<rparr>"
    by blast
  then show "\<exists>u. pc16x50_write_lcr dummy_write_u8 0x80 (pc16x50_init bus) = Some u \<and>
         bit (register_values (px_bus u) ! 3) 7"
    by (simp add: pc16x50_write_lcr_def dummy_view_def Let_def)
qed

theorem pc16x50_shadows_match_witness:
  "(\<exists>u. px_run dummy_read_u8 dummy_write_u8
        [PxFlush True True, PxSetMcr 2, PxWriteLcr 3, PxWriteThr 0x55, PxFifo True, PxReadLsr] (pc16x50_init demo_bus) = Some u \<and>
      pc16x50_read_mcr u = register_values (px_bus u) ! 4) \<and>
   (\<exists>u. pc16x50_write_lcr dummy_write_u8 0x80 (pc16x50_init demo_bus) = Some u \<and> bit (register_values (px_bus u) ! 3) 7)"
  using pc16x50_shadows_match [OF demo_bus_facts(1),
      of "[PxFlush True True, PxSetMcr 2, PxWriteLcr 3, PxWriteThr 0x55, PxFifo True, PxReadLsr]"]
  by auto

end
