(* ===== verification/Suart_Pc16x50.thy ===== *)
theory Suart_Pc16x50
  imports Streamuart Pc16x50
begin

text \<open>
  The thread that runs a stream UART on a 16550 (\<^verbatim>\<open>src/src/simulation/dmx512_suart.c\<close>, lines 33 to 580):
  interrupts are turned into receive events, transmit events are executed, octets pass through two
  buffers of 1024 octets.

  The record \<open>suart_env\<close> has the parameters: the register access of the UART and the fifos of events and
  of octets. Loops that depend on the chip or on the fifos are partial functions; not returning is
  \<^term>\<open>None\<close>.
\<close>

section \<open>State\<close>

record ('b, 'e, 'o) suart_env =
  se_rd :: "'b reg_read"
  se_wr :: "'b reg_write"
  se_events :: "('e, suart_event) kfifo_ops"
  se_octets :: "('o, u8) kfifo_ops"

record ('b, 'e, 'o) suart_pc16x50 =
  sp_suart :: "'e suart_s"
  sp_uart :: "'b pc16x50"
  sp_base_clock :: u64
  sp_rxenabled :: bool
  sp_txbuffer :: 'o
  sp_rxbuffer :: 'o

text \<open>An operation of the register level driver on the UART.\<close>

definition on_uart ::
  "('b pc16x50 \<Rightarrow> 'b pc16x50 option) \<Rightarrow> ('b, 'e, 'o) suart_pc16x50 \<Rightarrow> ('b, 'e, 'o) suart_pc16x50 option" where
  "on_uart f s = do { u \<leftarrow> f (sp_uart s); Some (s\<lparr>sp_uart := u\<rparr>) }"

definition from_uart ::
  "('b pc16x50 \<Rightarrow> ('a \<times> 'b pc16x50) option) \<Rightarrow> ('b, 'e, 'o) suart_pc16x50 \<Rightarrow> ('a \<times> ('b, 'e, 'o) suart_pc16x50) option" where
  "from_uart f s = do { (v, u) \<leftarrow> f (sp_uart s); Some (v, s\<lparr>sp_uart := u\<rparr>) }"

definition put_rx ::
  "('b, 'e, 'o) suart_env \<Rightarrow> suart_event \<Rightarrow> ('b, 'e, 'o) suart_pc16x50 \<Rightarrow> ('b, 'e, 'o) suart_pc16x50 option" where
  "put_rx E e s = do { q \<leftarrow> suart_put_rxevents (se_events E) [e] 1 (sp_suart s); Some (s\<lparr>sp_suart := q\<rparr>) }"

section \<open>Modem lines\<close>

definition SUART_LINE_RTS :: u32 where "SUART_LINE_RTS = 1"
definition SUART_LINE_DTR :: u32 where "SUART_LINE_DTR = 4"
definition SUART_LINE_OUT0 :: u32 where "SUART_LINE_OUT0 = 0x40"
definition SUART_LINE_OUT1 :: u32 where "SUART_LINE_OUT1 = 0x80"
definition SUART_LINE_GPIO0 :: u32 where "SUART_LINE_GPIO0 = 0x100"
definition PC16550_MCR_DTR :: u8 where "PC16550_MCR_DTR = 1"
definition PC16550_MCR_RTS :: u8 where "PC16550_MCR_RTS = 2"
definition PC16550_MCR_OUT1 :: u8 where "PC16550_MCR_OUT1 = 4"
definition PC16550_MCR_OUT2 :: u8 where "PC16550_MCR_OUT2 = 8"
definition PC16550_MCR_LOOP :: u8 where "PC16550_MCR_LOOP = 8"

lemmas suart_line_defs = SUART_LINE_RTS_def SUART_LINE_DTR_def SUART_LINE_OUT0_def SUART_LINE_OUT1_def
  SUART_LINE_GPIO0_def PC16550_MCR_DTR_def PC16550_MCR_RTS_def PC16550_MCR_OUT1_def PC16550_MCR_OUT2_def
  PC16550_MCR_LOOP_def

definition suart_line_to_mcr :: "u32 \<Rightarrow> u8" where
  "suart_line_to_mcr v =
     (if v AND SUART_LINE_RTS \<noteq> 0 then PC16550_MCR_RTS else 0) OR
     (if v AND SUART_LINE_DTR \<noteq> 0 then PC16550_MCR_DTR else 0) OR
     (if v AND SUART_LINE_OUT0 \<noteq> 0 then PC16550_MCR_OUT1 else 0) OR
     (if v AND SUART_LINE_OUT1 \<noteq> 0 then PC16550_MCR_OUT2 else 0) OR
     (if v AND SUART_LINE_GPIO0 \<noteq> 0 then PC16550_MCR_LOOP else 0)"

definition suart_pc16x50_change_line ::
  "('b, 'e, 'o) suart_env \<Rightarrow> u32 \<Rightarrow> u32 \<Rightarrow> ('b, 'e, 'o) suart_pc16x50 \<Rightarrow> ('b, 'e, 'o) suart_pc16x50 option" where
  "suart_pc16x50_change_line E msk val s =
     on_uart (pc16x50_change_mcr_bits (se_wr E) (suart_line_to_mcr val) (suart_line_to_mcr msk)) s"

section \<open>Received octets and interrupts\<close>

definition flush_rxbuffer_fifo_one_entry ::
  "('b, 'e, 'o) suart_env \<Rightarrow> ('b, 'e, 'o) suart_pc16x50 \<Rightarrow> ('b, 'e, 'o) suart_pc16x50 option" where
  "flush_rxbuffer_fifo_one_entry E s = (
     case kfifo_out (se_octets E) 14 (sp_rxbuffer s) of (t, f) \<Rightarrow>
       let s = s\<lparr>sp_rxbuffer := f\<rparr>; cnt = int (length t) in
       if cnt > 0 then do {
         (ret, e) \<leftarrow> suart_event_data_inline 0 1 t cnt [STREAMUART_EVENT_SHUTDOWN];
         q \<leftarrow> suart_put_rxevents (se_events E) e 1 (sp_suart s);
         Some (s\<lparr>sp_suart := q\<rparr>) }
       else Some s)"

partial_function (option) flush_rxbuffer_fifo ::
  "('b, 'e, 'o) suart_env \<Rightarrow> ('b, 'e, 'o) suart_pc16x50 \<Rightarrow> ('b, 'e, 'o) suart_pc16x50 option" where
  "flush_rxbuffer_fifo E s = (
     if kfifo_len (se_octets E) (sp_rxbuffer s) > 0
     then do { s \<leftarrow> flush_rxbuffer_fifo_one_entry E s; flush_rxbuffer_fifo E s }
     else Some s)"

definition write_to_rxbuffer_fifo ::
  "('b, 'e, 'o) suart_env \<Rightarrow> u8 \<Rightarrow> ('b, 'e, 'o) suart_pc16x50 \<Rightarrow> ('b, 'e, 'o) suart_pc16x50 option" where
  "write_to_rxbuffer_fifo E c s = do {
     (_, f) \<leftarrow> kfifo_in (se_octets E) 1 [c] (sp_rxbuffer s);
     let s = s\<lparr>sp_rxbuffer := f\<rparr>;
     if kfifo_len (se_octets E) (sp_rxbuffer s) \<ge> 14 then flush_rxbuffer_fifo_one_entry E s else Some s }"

definition PC16C550_IIR_IRQ_MASK :: u8 where "PC16C550_IIR_IRQ_MASK = 0xf"
definition PC16C550_IIR_IRQ_RECEIVER_LINE_STATUS :: u8 where "PC16C550_IIR_IRQ_RECEIVER_LINE_STATUS = 6"
definition PC16C550_IIR_IRQ_RECEIVED_DATA_AVAILABLE :: u8 where "PC16C550_IIR_IRQ_RECEIVED_DATA_AVAILABLE = 4"
definition PC16C550_IIR_IRQ_CHARACTER_TIMEOUT :: u8 where "PC16C550_IIR_IRQ_CHARACTER_TIMEOUT = 0xC"

lemmas iir_defs = PC16C550_IIR_IRQ_MASK_def PC16C550_IIR_IRQ_RECEIVER_LINE_STATUS_def
  PC16C550_IIR_IRQ_RECEIVED_DATA_AVAILABLE_def PC16C550_IIR_IRQ_CHARACTER_TIMEOUT_def

definition is_rxdata_interrupt :: "u8 \<Rightarrow> bool" where
  "is_rxdata_interrupt isr \<longleftrightarrow>
     isr AND PC16C550_IIR_IRQ_MASK = PC16C550_IIR_IRQ_RECEIVED_DATA_AVAILABLE \<or>
     isr AND PC16C550_IIR_IRQ_MASK = PC16C550_IIR_IRQ_CHARACTER_TIMEOUT"

definition send_line_status_event ::
  "('b, 'e, 'o) suart_env \<Rightarrow> u8 \<Rightarrow> ('b, 'e, 'o) suart_pc16x50 \<Rightarrow> ('b, 'e, 'o) suart_pc16x50 option" where
  "send_line_status_event E linestatus s = put_rx E (STREAMUART_EVENT_LINESTATUS 0xff (ucast linestatus)) s"

definition LSR_OVERRUN_ERROR :: u8 where "LSR_OVERRUN_ERROR = 2"
definition LSR_BREAK_INTERRUPT :: u8 where "LSR_BREAK_INTERRUPT = 0x10"
definition LSR_THRE :: u8 where "LSR_THRE = 0x20"
definition LSR_TRANSMITTER_EMPTY :: u8 where "LSR_TRANSMITTER_EMPTY = 0x40"

lemmas lsr_defs = LSR_OVERRUN_ERROR_def LSR_BREAK_INTERRUPT_def LSR_THRE_def LSR_TRANSMITTER_EMPTY_def

definition handle_line_status ::
  "('b, 'e, 'o) suart_env \<Rightarrow> ('b, 'e, 'o) suart_pc16x50 \<Rightarrow> ('b, 'e, 'o) suart_pc16x50 option" where
  "handle_line_status E s = do {
     (lsr, s) \<leftarrow> from_uart (pc16x50_read_lsr (se_rd E)) s;
     s \<leftarrow> (if lsr AND LSR_OVERRUN_ERROR \<noteq> 0 then on_uart (pc16x50_flush_rx_fifo (se_wr E)) s else Some s);
     s \<leftarrow> (if lsr AND LSR_BREAK_INTERRUPT \<noteq> 0
          then do { (_, s) \<leftarrow> from_uart (pc16x50_read_rbr (se_rd E)) s; Some s } else Some s);
     send_line_status_event E lsr s }"

definition handle_interrupt ::
  "('b, 'e, 'o) suart_env \<Rightarrow> u8 \<Rightarrow> ('b, 'e, 'o) suart_pc16x50 \<Rightarrow> ('b, 'e, 'o) suart_pc16x50 option" where
  "handle_interrupt E isr s = (
     if is_rxdata_interrupt isr then do {
       (c, s) \<leftarrow> from_uart (pc16x50_read_rbr (se_rd E)) s;
       s \<leftarrow> write_to_rxbuffer_fifo E c s;
       if isr AND PC16C550_IIR_IRQ_MASK = PC16C550_IIR_IRQ_CHARACTER_TIMEOUT
       then flush_rxbuffer_fifo E s else Some s }
     else do {
       s \<leftarrow> flush_rxbuffer_fifo E s;
       if isr AND PC16C550_IIR_IRQ_MASK = PC16C550_IIR_IRQ_RECEIVER_LINE_STATUS
       then handle_line_status E s else Some s })"

partial_function (option) handle_all_pending_interrupts ::
  "('b, 'e, 'o) suart_env \<Rightarrow> ('b, 'e, 'o) suart_pc16x50 \<Rightarrow> ('b, 'e, 'o) suart_pc16x50 option" where
  "handle_all_pending_interrupts E s = do {
     (isr, s) \<leftarrow> from_uart (pc16x50_read_isr (se_rd E)) s;
     if isr AND 1 = 0
     then do { s \<leftarrow> handle_interrupt E isr s; handle_all_pending_interrupts E s }
     else Some s }"

section \<open>Transmit events\<close>

definition put_txbuffer ::
  "('b, 'e, 'o) suart_env \<Rightarrow> u8 list \<Rightarrow> ('b, 'e, 'o) suart_pc16x50 \<Rightarrow> ('b, 'e, 'o) suart_pc16x50 option" where
  "put_txbuffer E octets s = do {
     (_, f) \<leftarrow> kfifo_in (se_octets E) (length octets) octets (sp_txbuffer s);
     Some (s\<lparr>sp_txbuffer := f\<rparr>) }"

definition IER_RECEIVED_DATA_AVAILABLE :: u8 where "IER_RECEIVED_DATA_AVAILABLE = 1"
definition IER_TRANSMITTER_HOLDING_REGISTER_EMPTY :: u8 where "IER_TRANSMITTER_HOLDING_REGISTER_EMPTY = 2"
definition IER_RECEIVER_LINE_STATUS :: u8 where "IER_RECEIVER_LINE_STATUS = 4"
definition IER_MODEM_STATUS :: u8 where "IER_MODEM_STATUS = 8"

text \<open>The result 2 asks for more data events.\<close>

definition handle_one_event ::
  "('b, 'e, 'o) suart_env \<Rightarrow> suart_event \<Rightarrow> ('b, 'e, 'o) suart_pc16x50 \<Rightarrow> (int \<times> ('b, 'e, 'o) suart_pc16x50) option" where
  "handle_one_event E e s = (
     let done = (\<lambda>m. do { s \<leftarrow> m; Some (0, s) }); rd = se_rd E; wr = se_wr E in
     case e of
       STREAMUART_EVENT_ECHO _ \<Rightarrow> done (put_rx E e s)
     | STREAMUART_EVENT_SETBAUDRATE baud \<Rightarrow>
         if baud = 0 then None
         else done (on_uart (pc16x50_set_baudrate_divisor rd wr
                (ucast ((sp_base_clock s div 16) div ucast baud))) s)
     | STREAMUART_EVENT_GETBAUDRATE _ \<Rightarrow> done (do {
         (divisor, s) \<leftarrow> from_uart (pc16x50_get_baudrate_divisor rd wr) s;
         put_rx E (STREAMUART_EVENT_GETBAUDRATE
           (if divisor \<noteq> 0 then ucast ((sp_base_clock s div 16) div ucast divisor) else 0)) s })
     | STREAMUART_EVENT_SETFORMAT databits parity stopbits \<Rightarrow>
         done (on_uart (pc16x50_set_format rd wr (uint databits) parity (sint stopbits)) s)
     | STREAMUART_EVENT_GETFORMAT _ _ _ \<Rightarrow> done (do {
         ((databits, parity, stopbits), s) \<leftarrow> from_uart (pc16x50_get_format rd) s;
         put_rx E (STREAMUART_EVENT_GETFORMAT (word_of_int databits) parity (word_of_int stopbits)) s })
     | STREAMUART_EVENT_DATA octets \<Rightarrow> do { s \<leftarrow> put_txbuffer E octets s; Some (2, s) }
     | STREAMUART_EVENT_DATA_INLINE octets \<Rightarrow> do { s \<leftarrow> put_txbuffer E octets s; Some (2, s) }
     | STREAMUART_EVENT_ENABLETX \<Rightarrow>
         done (on_uart (pc16x50_set_ier_bits rd wr IER_TRANSMITTER_HOLDING_REGISTER_EMPTY) s)
     | STREAMUART_EVENT_DISABLETX \<Rightarrow>
         done (on_uart (pc16x50_clear_ier_bits rd wr IER_TRANSMITTER_HOLDING_REGISTER_EMPTY) s)
     | STREAMUART_EVENT_ENABLERX \<Rightarrow> done (do {
         s \<leftarrow> on_uart (pc16x50_flush_rx_fifo wr) (s\<lparr>sp_rxenabled := True\<rparr>);
         on_uart (pc16x50_set_ier_bits rd wr IER_RECEIVED_DATA_AVAILABLE) s })
     | STREAMUART_EVENT_DISABLERX \<Rightarrow>
         done (on_uart (pc16x50_clear_ier_bits rd wr IER_RECEIVED_DATA_AVAILABLE) (s\<lparr>sp_rxenabled := False\<rparr>))
     | STREAMUART_EVENT_CHANGE_LINE msk val \<Rightarrow> done (suart_pc16x50_change_line E msk val s)
     | _ \<Rightarrow> Some (0, s))"

partial_function (option) wait_until_transmitter_empty ::
  "('b, 'e, 'o) suart_env \<Rightarrow> ('b, 'e, 'o) suart_pc16x50 \<Rightarrow> ('b, 'e, 'o) suart_pc16x50 option" where
  "wait_until_transmitter_empty E s = do {
     (lsr, s) \<leftarrow> from_uart (pc16x50_read_lsr (se_rd E)) s;
     if lsr AND LSR_TRANSMITTER_EMPTY = 0 then wait_until_transmitter_empty E s else Some s }"

definition data_octets :: "suart_event \<Rightarrow> u8 list option" where
  "data_octets e = (case e of STREAMUART_EVENT_DATA xs \<Rightarrow> Some xs | STREAMUART_EVENT_DATA_INLINE xs \<Rightarrow> Some xs | _ \<Rightarrow> None)"

partial_function (option) fetch_as_much_data_events_as_possible ::
  "('b, 'e, 'o) suart_env \<Rightarrow> ('b, 'e, 'o) suart_pc16x50 \<Rightarrow> ('b, 'e, 'o) suart_pc16x50 option" where
  "fetch_as_much_data_events_as_possible E s = (
     case Option.bind (suart_peek_txevent (se_events E) (sp_suart s)) data_octets of
       None \<Rightarrow> Some s
     | Some _ \<Rightarrow> (case suart_get_txevents (se_events E) 1 (sp_suart s) of (es, q) \<Rightarrow> do {
         s \<leftarrow> (case es of
                [] \<Rightarrow> Some (s\<lparr>sp_suart := q\<rparr>)
              | e # _ \<Rightarrow> (case data_octets e of
                    None \<Rightarrow> Some (s\<lparr>sp_suart := q\<rparr>)
                  | Some octets \<Rightarrow> put_txbuffer E octets (s\<lparr>sp_suart := q\<rparr>)));
         fetch_as_much_data_events_as_possible E s }))"

fun write_thrs :: "'b reg_write \<Rightarrow> u8 list \<Rightarrow> 'b pc16x50 \<Rightarrow> 'b pc16x50 option" where
  "write_thrs wr [] u = Some u"
| "write_thrs wr (c # cs) u = do { u \<leftarrow> pc16x50_write_thr wr c u; write_thrs wr cs u }"

definition transmit_as_much_as_possible ::
  "('b, 'e, 'o) suart_env \<Rightarrow> ('b, 'e, 'o) suart_pc16x50 \<Rightarrow> (nat \<times> ('b, 'e, 'o) suart_pc16x50) option" where
  "transmit_as_much_as_possible E s = (let l = kfifo_len (se_octets E) (sp_txbuffer s) in
     if l > 0 then do {
       (lsr, s) \<leftarrow> from_uart (pc16x50_read_lsr (se_rd E)) s;
       let space = (if lsr AND LSR_TRANSMITTER_EMPTY \<noteq> 0 then 16 + 1
                    else if lsr AND LSR_THRE \<noteq> 0 then 16 else 0);
       s \<leftarrow> (if space > 0
            then (let remain = (if space < l then space else l) in
              case kfifo_out (se_octets E) remain (sp_txbuffer s) of (tmp, f) \<Rightarrow>
                on_uart (write_thrs (se_wr E) tmp) (s\<lparr>sp_txbuffer := f\<rparr>))
            else Some s);
       Some (l, s) }
     else Some (0, s))"

partial_function (option) pending_events_loop ::
  "('b, 'e, 'o) suart_env \<Rightarrow> ('b, 'e, 'o) suart_pc16x50 \<Rightarrow> (int \<times> ('b, 'e, 'o) suart_pc16x50) option" where
  "pending_events_loop E s = (
     if suart_txavailable (se_events E) (sp_suart s) > 0 then
       (case suart_get_txevents (se_events E) 1 (sp_suart s) of (es, q) \<Rightarrow>
          let s = s\<lparr>sp_suart := q\<rparr> in
          case es of
            [] \<Rightarrow> pending_events_loop E s
          | e # _ \<Rightarrow>
              if e = STREAMUART_EVENT_SHUTDOWN then Some (-1, s)
              else do {
                (ret, s) \<leftarrow> handle_one_event E e s;
                if ret = 2 then do {
                  s \<leftarrow> fetch_as_much_data_events_as_possible E s;
                  (_, s) \<leftarrow> transmit_as_much_as_possible E s;
                  Some (2, s) }
                else pending_events_loop E s })
     else Some (0, s))"

definition handle_all_pending_events ::
  "('b, 'e, 'o) suart_env \<Rightarrow> ('b, 'e, 'o) suart_pc16x50 \<Rightarrow> (int \<times> ('b, 'e, 'o) suart_pc16x50) option" where
  "handle_all_pending_events E s = (
     if kfifo_len (se_octets E) (sp_txbuffer s) > 0 then do {
       s \<leftarrow> fetch_as_much_data_events_as_possible E s;
       (_, s) \<leftarrow> transmit_as_much_as_possible E s;
       Some (0, s) }
     else do {
       (lsr, s) \<leftarrow> from_uart (pc16x50_read_lsr (se_rd E)) s;
       if lsr AND LSR_THRE = 0 then Some (0, s)
       else do {
         s \<leftarrow> (if lsr AND LSR_TRANSMITTER_EMPTY = 0 then wait_until_transmitter_empty E s else Some s);
         pending_events_loop E s } })"

text \<open>One round of the thread. \<open>wait\<close> is what the wait for a wake-up returned: 1 after a wake-up without
  a timeout. The result tells whether the thread goes on.\<close>

definition suart_handler_step ::
  "('b, 'e, 'o) suart_env \<Rightarrow> int \<Rightarrow> ('b, 'e, 'o) suart_pc16x50 \<Rightarrow> (bool \<times> ('b, 'e, 'o) suart_pc16x50) option" where
  "suart_handler_step E wait s = do {
     s \<leftarrow> handle_all_pending_interrupts E s;
     (ret, s) \<leftarrow> handle_all_pending_events E s;
     if ret < 0 then Some (False, s)
     else do {
       s \<leftarrow> (if wait = 1 then flush_rxbuffer_fifo E s else Some s);
       Some (True, s) } }"

section \<open>Creation and shutdown\<close>

text \<open>\<open>u\<close> is the UART that \<open>wbuart_pc16x50_create_by_index\<close> returns.\<close>

definition suart_pc16x50_create ::
  "('b, 'e, 'o) suart_env \<Rightarrow> 'b pc16x50 option \<Rightarrow> ('b, 'e, 'o) suart_pc16x50 option option" where
  "suart_pc16x50_create E uart = (case uart of
     None \<Rightarrow> Some None
   | Some u \<Rightarrow> do {
       let s = \<lparr>sp_suart = suart_init (se_events E), sp_uart = u, sp_base_clock = 100000000, sp_rxenabled = True,
                sp_txbuffer = kfifo_init (se_octets E), sp_rxbuffer = kfifo_init (se_octets E)\<rparr>;
       s \<leftarrow> on_uart (pc16x50_flush_rx_fifo (se_wr E)) s;
       s \<leftarrow> on_uart (pc16x50_set_ier_bits (se_rd E) (se_wr E) (IER_RECEIVER_LINE_STATUS OR IER_MODEM_STATUS)) s;
       (_, s) \<leftarrow> from_uart (pc16x50_set_fifo_trigger_level (se_wr E) 14) s;
       Some (Some s) })"

definition suart_pc16x50_shutdown ::
  "('b, 'e, 'o) suart_env \<Rightarrow> ('b, 'e, 'o) suart_pc16x50 \<Rightarrow> ('b, 'e, 'o) suart_pc16x50 option" where
  "suart_pc16x50_shutdown E s = do {
     q \<leftarrow> suart_put_txevents (se_events E) [STREAMUART_EVENT_SHUTDOWN] 1 (sp_suart s);
     Some (s\<lparr>sp_suart := q\<rparr>) }"

section \<open>Received octets become events\<close>

text \<open>The two fifos of the thread keep the promises of \<open>kfifo_ok\<close>, the one of octets with room for a chunk.\<close>

definition suart_env_ok ::
  "('b, 'e, 'o) suart_env \<Rightarrow> ('e \<Rightarrow> suart_event list) \<Rightarrow> nat \<Rightarrow> ('o \<Rightarrow> u8 list) \<Rightarrow> nat \<Rightarrow> bool" where
  "suart_env_ok E qe ce qo co \<longleftrightarrow> kfifo_ok (se_events E) qe ce \<and> kfifo_ok (se_octets E) qo co \<and> 14 \<le> co"

lemma put_rxevents_one:
  assumes "kfifo_ok k q cap" and "length (q (rxfifo u)) < cap"
  shows "\<exists>u'. suart_put_rxevents k [e] 1 u = Some u' \<and> q (rxfifo u') = q (rxfifo u) @ [e] \<and> txfifo u' = txfifo u"
proof -
  have one: "fifo_count 1 = 1" using fifo_count_nat [of 1] by simp
  obtain f where "kfifo_in k 1 [e] (rxfifo u) = Some (1, f)" "q f = q (rxfifo u) @ take 1 [e]"
    using kfifo_inE [OF assms(1), of 1 "[e]" "rxfifo u"] assms(2) by auto
  then show ?thesis by (simp add: suart_put_rxevents_def one)
qed

text \<open>The fifos as bounded lists and the simulated bus, for concrete runs.\<close>

definition demo_env :: "(dummy_bus, suart_event list, u8 list) suart_env" where
  "demo_env = \<lparr>se_rd = dummy_read_u8, se_wr = dummy_write_u8, se_events = list_kfifo 128, se_octets = list_kfifo 1024\<rparr>"

definition demo_thread :: "(dummy_bus, suart_event list, u8 list) suart_pc16x50" where
  "demo_thread = \<lparr>sp_suart = suart_init (se_events demo_env), sp_uart = pc16x50_init demo_bus, sp_base_clock = 100000000,
     sp_rxenabled = True, sp_txbuffer = [], sp_rxbuffer = []\<rparr>"

lemma demo_env_ok: "suart_env_ok demo_env (\<lambda>f. f) 128 (\<lambda>f. f) 1024"
  by (simp add: suart_env_ok_def demo_env_def list_kfifo_ok)

text \<open>What the operations on the receive side leave alone.\<close>

definition same_tx_side :: "('b, 'e, 'o) suart_pc16x50 \<Rightarrow> ('b, 'e, 'o) suart_pc16x50 \<Rightarrow> bool" where
  "same_tx_side s s' \<longleftrightarrow> sp_uart s' = sp_uart s \<and> sp_base_clock s' = sp_base_clock s \<and>
     sp_rxenabled s' = sp_rxenabled s \<and> sp_txbuffer s' = sp_txbuffer s \<and> txfifo (sp_suart s') = txfifo (sp_suart s)"

lemma same_tx_side_trans: "same_tx_side s t \<Longrightarrow> same_tx_side t u \<Longrightarrow> same_tx_side s u"
  by (simp add: same_tx_side_def)

lemma same_tx_side_refl [simp]: "same_tx_side s s"
  by (simp add: same_tx_side_def)

text \<open>Each step moves the next chunk from the buffer to the events.\<close>

lemma flush_one_entry:
  assumes E: "suart_env_ok E qe ce qo co" and ne: "qo (sp_rxbuffer s) \<noteq> []"
    and room: "length (qe (rxfifo (sp_suart s))) < ce"
  shows "\<exists>s'. flush_rxbuffer_fifo_one_entry E s = Some s' \<and> same_tx_side s s' \<and>
     qo (sp_rxbuffer s') = drop 14 (qo (sp_rxbuffer s)) \<and>
     qe (rxfifo (sp_suart s')) = qe (rxfifo (sp_suart s)) @ [STREAMUART_EVENT_DATA_INLINE (take 14 (qo (sp_rxbuffer s)))]"
proof -
  let ?t = "take 14 (qo (sp_rxbuffer s))"
  have ke: "kfifo_ok (se_events E) qe ce" and ko: "kfifo_ok (se_octets E) qo co"
    using E by (simp_all add: suart_env_ok_def)
  obtain f where f: "kfifo_out (se_octets E) 14 (sp_rxbuffer s) = (?t, f)" "qo f = drop 14 (qo (sp_rxbuffer s))"
    by (rule kfifo_outE [OF ko])
  have "suart_event_data_inline 0 1 ?t (int (length ?t)) [STREAMUART_EVENT_SHUTDOWN] =
      Some (1, [STREAMUART_EVENT_DATA_INLINE ?t])"
    using ne by (intro data_inline_one) simp_all
  moreover obtain u where "suart_put_rxevents (se_events E) [STREAMUART_EVENT_DATA_INLINE ?t] 1 (sp_suart s) = Some u"
      "qe (rxfifo u) = qe (rxfifo (sp_suart s)) @ [STREAMUART_EVENT_DATA_INLINE ?t]" "txfifo u = txfifo (sp_suart s)"
    using put_rxevents_one [OF ke room] by blast
  moreover have "int (length ?t) > 0" using ne by simp
  ultimately show ?thesis using f
    by (simp only: flush_rxbuffer_fifo_one_entry_def split_beta fst_conv snd_conv Let_def if_True)
       (simp add: same_tx_side_def)
qed

lemma flush_chunks:
  assumes E: "suart_env_ok E qe ce qo co"
    and "length (qe (rxfifo (sp_suart s))) + length (chunks (qo (sp_rxbuffer s))) \<le> ce"
  shows "\<exists>s'. flush_rxbuffer_fifo E s = Some s' \<and> same_tx_side s s' \<and> qo (sp_rxbuffer s') = [] \<and>
     qe (rxfifo (sp_suart s')) =
       qe (rxfifo (sp_suart s)) @ map STREAMUART_EVENT_DATA_INLINE (chunks (qo (sp_rxbuffer s)))"
  using assms(2)
proof (induction "length (qo (sp_rxbuffer s))" arbitrary: s rule: less_induct)
  case less
  have len: "kfifo_len (se_octets E) (sp_rxbuffer s) = length (qo (sp_rxbuffer s))"
    using E kfifo_okD(1) by (auto simp: suart_env_ok_def)
  show ?case
  proof (cases "qo (sp_rxbuffer s) = []")
    case True
    then show ?thesis using len by (subst flush_rxbuffer_fifo.simps) simp
  next
    case False
    have ch: "chunks (qo (sp_rxbuffer s)) = take 14 (qo (sp_rxbuffer s)) # chunks (drop 14 (qo (sp_rxbuffer s)))"
      by (rule chunks_rec [OF False])
    obtain t where t: "flush_rxbuffer_fifo_one_entry E s = Some t" "same_tx_side s t"
        "qo (sp_rxbuffer t) = drop 14 (qo (sp_rxbuffer s))"
        "qe (rxfifo (sp_suart t)) = qe (rxfifo (sp_suart s)) @ [STREAMUART_EVENT_DATA_INLINE (take 14 (qo (sp_rxbuffer s)))]"
      using flush_one_entry [OF E False] less.prems ch by auto
    obtain s' where s': "flush_rxbuffer_fifo E t = Some s'" "same_tx_side t s'" "qo (sp_rxbuffer s') = []"
        "qe (rxfifo (sp_suart s')) = qe (rxfifo (sp_suart t)) @ map STREAMUART_EVENT_DATA_INLINE (chunks (qo (sp_rxbuffer t)))"
      using less.hyps [of t] less.prems False t(3,4) ch by auto
    have "flush_rxbuffer_fifo E s = flush_rxbuffer_fifo E t"
      using len False t(1) by (subst flush_rxbuffer_fifo.simps) simp
    then show ?thesis using s' t same_tx_side_trans ch by auto
  qed
qed

text \<open>Octet by octet through the receive buffer.\<close>

fun receive_octets ::
  "('b, 'e, 'o) suart_env \<Rightarrow> u8 list \<Rightarrow> ('b, 'e, 'o) suart_pc16x50 \<Rightarrow> ('b, 'e, 'o) suart_pc16x50 option" where
  "receive_octets E [] s = Some s"
| "receive_octets E (c # cs) s = do { s \<leftarrow> write_to_rxbuffer_fifo E c s; receive_octets E cs s }"

lemma chunks_append_14: "length xs = 14 \<Longrightarrow> chunks (xs @ ys) = xs # chunks ys"
  by (subst chunks_rec) auto

lemma write_one_octet:
  assumes E: "suart_env_ok E qe ce qo co" and b: "length (qo (sp_rxbuffer s)) < 14"
    and room: "length (qe (rxfifo (sp_suart s))) + length (chunks (qo (sp_rxbuffer s) @ c # cs)) \<le> ce"
  shows "\<exists>s'. write_to_rxbuffer_fifo E c s = Some s' \<and> same_tx_side s s' \<and> length (qo (sp_rxbuffer s')) < 14 \<and>
     qe (rxfifo (sp_suart s')) @ map STREAMUART_EVENT_DATA_INLINE (chunks (qo (sp_rxbuffer s') @ cs)) =
       qe (rxfifo (sp_suart s)) @ map STREAMUART_EVENT_DATA_INLINE (chunks (qo (sp_rxbuffer s) @ c # cs))"
proof -
  let ?b = "qo (sp_rxbuffer s)"
  have ko: "kfifo_ok (se_octets E) qo co" and co: "14 \<le> co" using E by (simp_all add: suart_env_ok_def)
  obtain f where f: "kfifo_in (se_octets E) 1 [c] (sp_rxbuffer s) = Some (1, f)" "qo f = ?b @ [c]"
    using kfifo_inE [OF ko, of 1 "[c]" "sp_rxbuffer s"] b co by auto
  let ?s = "s\<lparr>sp_rxbuffer := f\<rparr>"
  have w: "write_to_rxbuffer_fifo E c s =
      (if 14 \<le> length (?b @ [c]) then flush_rxbuffer_fifo_one_entry E ?s else Some ?s)"
    using f kfifo_okD(1) [OF ko] by (simp add: write_to_rxbuffer_fifo_def)
  show ?thesis
  proof (cases "14 \<le> length (?b @ [c])")
    case True
    then have l: "length (?b @ [c]) = 14" using b by simp
    then have ch: "chunks (?b @ c # cs) = (?b @ [c]) # chunks cs" using chunks_append_14 [of "?b @ [c]" cs] by simp
    obtain t where "flush_rxbuffer_fifo_one_entry E ?s = Some t" "same_tx_side ?s t"
        "qo (sp_rxbuffer t) = drop 14 (?b @ [c])"
        "qe (rxfifo (sp_suart t)) = qe (rxfifo (sp_suart s)) @ [STREAMUART_EVENT_DATA_INLINE (take 14 (?b @ [c]))]"
      using flush_one_entry [OF E, of ?s] f(2) room ch by auto
    then show ?thesis using w True l ch by (simp add: same_tx_side_def)
  next
    case False
    then show ?thesis using w f(2) by (simp add: same_tx_side_def)
  qed
qed

lemma receive_octets_stream:
  assumes E: "suart_env_ok E qe ce qo co" and "length (qo (sp_rxbuffer s)) < 14"
    and "length (qe (rxfifo (sp_suart s))) + length (chunks (qo (sp_rxbuffer s) @ cs)) \<le> ce"
  shows "\<exists>s'. receive_octets E cs s = Some s' \<and> same_tx_side s s' \<and> length (qo (sp_rxbuffer s')) < 14 \<and>
     qe (rxfifo (sp_suart s')) @ map STREAMUART_EVENT_DATA_INLINE (chunks (qo (sp_rxbuffer s'))) =
       qe (rxfifo (sp_suart s)) @ map STREAMUART_EVENT_DATA_INLINE (chunks (qo (sp_rxbuffer s) @ cs))"
  using assms(2,3)
proof (induction cs arbitrary: s)
  case (Cons c cs)
  obtain t where t: "write_to_rxbuffer_fifo E c s = Some t" "same_tx_side s t" "length (qo (sp_rxbuffer t)) < 14"
      "qe (rxfifo (sp_suart t)) @ map STREAMUART_EVENT_DATA_INLINE (chunks (qo (sp_rxbuffer t) @ cs)) =
         qe (rxfifo (sp_suart s)) @ map STREAMUART_EVENT_DATA_INLINE (chunks (qo (sp_rxbuffer s) @ c # cs))"
    using write_one_octet [OF E Cons.prems] by blast
  have "length (qe (rxfifo (sp_suart t))) + length (chunks (qo (sp_rxbuffer t) @ cs)) \<le> ce"
    using Cons.prems(2) arg_cong [OF t(4), of length] by simp
  from Cons.IH [OF t(3) this] show ?case using t same_tx_side_trans by auto
qed simp

section \<open>Data events become octets to send\<close>

definition is_data_event :: "suart_event \<Rightarrow> bool" where
  "is_data_event e \<longleftrightarrow> data_octets e \<noteq> None"

lemma data_octets_Some: "is_data_event e \<Longrightarrow> data_octets e = Some (event_octets e)"
  by (cases e) (simp_all add: is_data_event_def data_octets_def event_octets_def)

lemma put_txbuffer_room:
  assumes "kfifo_ok (se_octets E) qo co" and "length (qo (sp_txbuffer s)) + length xs \<le> co"
  shows "\<exists>f. put_txbuffer E xs s = Some (s\<lparr>sp_txbuffer := f\<rparr>) \<and> qo f = qo (sp_txbuffer s) @ xs"
proof -
  obtain f where "kfifo_in (se_octets E) (length xs) xs (sp_txbuffer s) = Some (length xs, f)"
      "qo f = qo (sp_txbuffer s) @ take (length xs) xs"
    using kfifo_inE [OF assms(1), of "length xs" xs "sp_txbuffer s"] assms(2) by auto
  then show ?thesis by (intro exI [of _ f]) (simp add: put_txbuffer_def)
qed

text \<open>Fetching data events returns and moves exactly the data events in front of the transmit fifo
  into the transmit buffer, in order, when their octets fit; the first event that is no data stays in
  front.\<close>

theorem fetch_takes_leading_data:
  assumes E: "suart_env_ok E qe ce qo co"
    and "length (qo (sp_txbuffer s)) +
         length (concat (map event_octets (takeWhile is_data_event (qe (txfifo (sp_suart s)))))) \<le> co"
  shows "\<exists>s'. fetch_as_much_data_events_as_possible E s = Some s' \<and> sp_uart s' = sp_uart s \<and>
     sp_rxbuffer s' = sp_rxbuffer s \<and> rxfifo (sp_suart s') = rxfifo (sp_suart s) \<and>
     qe (txfifo (sp_suart s')) = dropWhile is_data_event (qe (txfifo (sp_suart s))) \<and>
     qo (sp_txbuffer s') = qo (sp_txbuffer s) @
       concat (map event_octets (takeWhile is_data_event (qe (txfifo (sp_suart s)))))"
  using assms(2)
proof (induction "qe (txfifo (sp_suart s))" arbitrary: s)
  case Nil
  have ke: "kfifo_ok (se_events E) qe ce" using E by (simp add: suart_env_ok_def)
  show ?case using Nil.hyps kfifo_okD(4) [OF ke]
    by (subst fetch_as_much_data_events_as_possible.simps) (simp add: suart_peek_txevent_def)
next
  case (Cons e es)
  let ?q = "qe (txfifo (sp_suart s))"
  have ke: "kfifo_ok (se_events E) qe ce" and ko: "kfifo_ok (se_octets E) qo co"
    using E by (simp_all add: suart_env_ok_def)
  have q: "?q = e # es" using Cons.hyps(2) by simp
  have peek: "suart_peek_txevent (se_events E) (sp_suart s) = Some e"
    using kfifo_okD(4) [OF ke] q by (simp add: suart_peek_txevent_def)
  show ?case
  proof (cases "is_data_event e")
    case False
    then show ?thesis using peek q
      by (subst fetch_as_much_data_events_as_possible.simps) (simp add: is_data_event_def)
  next
    case True
    obtain g where g: "kfifo_out (se_events E) 1 (txfifo (sp_suart s)) = (take 1 ?q, g)" "qe g = drop 1 ?q"
      by (rule kfifo_outE [OF ke])
    let ?t = "s\<lparr>sp_suart := (sp_suart s)\<lparr>txfifo := g\<rparr>\<rparr>"
    obtain f where f: "put_txbuffer E (event_octets e) ?t = Some (?t\<lparr>sp_txbuffer := f\<rparr>)"
        "qo f = qo (sp_txbuffer s) @ event_octets e"
      using put_txbuffer_room [OF ko, of ?t "event_octets e"] Cons.prems q True by auto
    let ?u = "?t\<lparr>sp_txbuffer := f\<rparr>"
    have "fetch_as_much_data_events_as_possible E s = fetch_as_much_data_events_as_possible E ?u"
      using peek g(1) q f(1) data_octets_Some [OF True]
      by (subst fetch_as_much_data_events_as_possible.simps) (simp add: suart_get_txevents_def)
    moreover have "es = qe (txfifo (sp_suart ?u))" using g(2) q by simp
    moreover have "length (qo (sp_txbuffer ?u)) +
        length (concat (map event_octets (takeWhile is_data_event (qe (txfifo (sp_suart ?u)))))) \<le> co"
      using Cons.prems q True f(2) g(2) by simp
    ultimately show ?thesis using Cons.hyps(1) [of ?u] q True f(2) g(2) by simp
  qed
qed

theorem fetch_takes_leading_data_witness:
  "\<exists>s'. fetch_as_much_data_events_as_possible demo_env (demo_thread\<lparr>sp_suart := (sp_suart demo_thread)\<lparr>txfifo :=
       [STREAMUART_EVENT_DATA_INLINE [1, 2], STREAMUART_EVENT_DATA_INLINE [3], STREAMUART_EVENT_DISABLETX]\<rparr>\<rparr>) = Some s' \<and>
     txfifo (sp_suart s') = [STREAMUART_EVENT_DISABLETX] \<and> sp_txbuffer s' = [1, 2, 3]"
  using fetch_takes_leading_data [OF demo_env_ok, of "demo_thread\<lparr>sp_suart := (sp_suart demo_thread)\<lparr>txfifo :=
       [STREAMUART_EVENT_DATA_INLINE [1, 2], STREAMUART_EVENT_DATA_INLINE [3], STREAMUART_EVENT_DISABLETX]\<rparr>\<rparr>"]
  by (auto simp: is_data_event_def data_octets_def demo_thread_def)

section \<open>Transmission\<close>

text \<open>The room that the line status promises: the fifo, and the shift register when the transmitter is
  empty.\<close>

definition tx_space :: "u8 \<Rightarrow> nat" where
  "tx_space lsr = (if lsr AND LSR_TRANSMITTER_EMPTY \<noteq> 0 then 17 else if lsr AND LSR_THRE \<noteq> 0 then 16 else 0)"

text \<open>With octets to send, one round writes the next ones to the chip, in order and as many as the
  line status says there is room for, at most 17; the rest stays in the buffer.\<close>

lemma transmit_writes_next_octets:
  assumes "suart_env_ok E qe ce qo co" and ne: "qo (sp_txbuffer s) \<noteq> []"
    and lsr: "pc16x50_read_lsr (se_rd E) (sp_uart s) = Some (lsr, u1)"
    and wr: "write_thrs (se_wr E) (take (tx_space lsr) (qo (sp_txbuffer s))) u1 = Some u2"
  shows "\<exists>f. transmit_as_much_as_possible E s = Some (length (qo (sp_txbuffer s)), s\<lparr>sp_txbuffer := f, sp_uart := u2\<rparr>) \<and>
     qo f = drop (tx_space lsr) (qo (sp_txbuffer s))"
proof -
  have ko: "kfifo_ok (se_octets E) qo co" using assms(1) by (simp add: suart_env_ok_def)
  let ?q = "qo (sp_txbuffer s)"
  let ?n = "if tx_space lsr < length ?q then tx_space lsr else length ?q"
  have n: "take ?n ?q = take (tx_space lsr) ?q" "drop ?n ?q = drop (tx_space lsr) ?q" by auto
  obtain f where f: "kfifo_out (se_octets E) ?n (sp_txbuffer s) = (take ?n ?q, f)" "qo f = drop ?n ?q"
    by (rule kfifo_outE [OF ko])
  have t: "transmit_as_much_as_possible E s = (if tx_space lsr > 0
      then (case kfifo_out (se_octets E) ?n (sp_txbuffer s) of (tmp, f) \<Rightarrow>
        (case on_uart (write_thrs (se_wr E) tmp) (s\<lparr>sp_uart := u1, sp_txbuffer := f\<rparr>) of
           None \<Rightarrow> None | Some s \<Rightarrow> Some (length ?q, s)))
      else Some (length ?q, s\<lparr>sp_uart := u1\<rparr>))"
    using ne lsr kfifo_okD(1) [OF ko]
    by (simp add: transmit_as_much_as_possible_def from_uart_def tx_space_def Let_def
        split: prod.split option.split)
  show ?thesis
  proof (cases "tx_space lsr = 0")
    case True
    then have "transmit_as_much_as_possible E s = Some (length ?q, s\<lparr>sp_txbuffer := sp_txbuffer s, sp_uart := u2\<rparr>)"
      using t wr by simp
    then show ?thesis using True by (intro exI [of _ "sp_txbuffer s"]) simp
  next
    case False
    then have "transmit_as_much_as_possible E s = Some (length ?q, s\<lparr>sp_txbuffer := f, sp_uart := u2\<rparr>)"
      using t f(1) wr n(1) by (simp add: on_uart_def)
    then show ?thesis using f(2) n(2) by (intro exI [of _ f]) simp
  qed
qed

end
