(* ===== verification/Dmx512_Suart.thy ===== *)
theory Dmx512_Suart
  imports Suart_Pc16x50 Rdm
begin

text \<open>
  The DMX512 port on a stream UART (\<^verbatim>\<open>src/src/simulation/dmx512_suart.c\<close>, lines 583 to 968): a frame to
  send becomes a sequence of events, received events are collected to frames.

  A port logs the frames it passes to its client. \<^term>\<open>None\<close> is an access outside an array.
\<close>

section \<open>State\<close>

record dmx512suart_port =
  dp_dmxstate :: int
  dp_dmxsize :: nat
  dp_dmx_data :: "u8 list"
  dp_dmx_locked :: bool
  dp_dmx_lock_count :: int
  dp_dmx_lock_size :: nat
  dp_callback :: bool
  dp_received :: "u8 list list"

text \<open>The client gets the octets \<open>dmx_data[0..dmxsize)\<close>; the flags are always 0.\<close>

definition dmx512suart_received_frame :: "u8 list \<Rightarrow> nat \<Rightarrow> dmx512suart_port \<Rightarrow> dmx512suart_port" where
  "dmx512suart_received_frame dmx_data dmxsize p =
     (if dp_callback p then p\<lparr>dp_received := dp_received p @ [take dmxsize dmx_data]\<rparr> else p)"

section \<open>Reception\<close>

text \<open>The first condition assigns 0 to the state instead of comparing, so its branch is never taken.\<close>

definition handle_data_inline :: "u8 list \<Rightarrow> dmx512suart_port \<Rightarrow> dmx512suart_port option" where
  "handle_data_inline octets p = (
     let p = (if dp_dmx_locked p then p\<lparr>dp_dmxstate := 0\<rparr> else p);
         p = p\<lparr>dp_dmxstate := 2\<rparr>
     in if int (length octets) < 512 - int (dp_dmxsize p) then do {
          d \<leftarrow> arr_blit (dp_dmx_data p) (dp_dmxsize p) octets;
          let p = p\<lparr>dp_dmx_data := d, dp_dmxsize := dp_dmxsize p + length octets\<rparr>;
          Some (if dp_dmx_locked p \<and> dp_dmxsize p = dp_dmx_lock_size p
                then (dmx512suart_received_frame (dp_dmx_data p) (dp_dmxsize p) p)\<lparr>dp_dmxsize := 0, dp_dmxstate := 0\<rparr>
                else p) }
        else Some p)"

definition update_dmx_lock :: "dmx512suart_port \<Rightarrow> dmx512suart_port" where
  "update_dmx_lock p = (
     if dp_dmx_locked p then
       (if dp_dmx_lock_size p \<noteq> dp_dmxsize p
        then p\<lparr>dp_dmx_lock_count := 0, dp_dmx_locked := False, dp_dmx_lock_size := dp_dmxsize p\<rparr> else p)
     else
       let p = (if dp_dmx_lock_size p = dp_dmxsize p then p\<lparr>dp_dmx_lock_count := dp_dmx_lock_count p + 1\<rparr> else p);
           p = (if dp_dmx_lock_count p > 3 then p\<lparr>dp_dmx_locked := True\<rparr> else p)
       in p\<lparr>dp_dmx_lock_size := dp_dmxsize p\<rparr>)"

definition handle_break_status :: "dmx512suart_port \<Rightarrow> dmx512suart_port" where
  "handle_break_status p = (
     let p = (if dp_dmxsize p > 0
              then (let p = update_dmx_lock p in
                (dmx512suart_received_frame (dp_dmx_data p) (dp_dmxsize p) p)\<lparr>dp_dmxsize := 0\<rparr>)
              else p)
     in p\<lparr>dp_dmxstate := 1, dp_dmxsize := 0\<rparr>)"

text \<open>A data event with a pointer ends the process.\<close>

datatype rx_outcome = RxExit | RxPort dmx512suart_port

definition dmx512suart_rxevent :: "suart_event \<Rightarrow> dmx512suart_port \<Rightarrow> rx_outcome option" where
  "dmx512suart_rxevent e p = (case e of
     STREAMUART_EVENT_DATA _ \<Rightarrow> Some RxExit
   | STREAMUART_EVENT_DATA_INLINE octets \<Rightarrow> map_option RxPort (handle_data_inline octets p)
   | STREAMUART_EVENT_LINESTATUS _ val \<Rightarrow>
       Some (RxPort (if val AND ucast LSR_BREAK_INTERRUPT \<noteq> 0 then handle_break_status p else p))
   | _ \<Rightarrow> Some (RxPort p))"

text \<open>The inner loop of \<open>dmx512suart_rxfifo_handler\<close>: all events that are there. The outer loop, which waits for further
  events until the handler is stopped, is not modelled: the definition is one emptying of the fifo.\<close>

partial_function (option) dmx512suart_rxfifo_handler ::
  "('e, suart_event) kfifo_ops \<Rightarrow> 'e suart_s \<Rightarrow> dmx512suart_port \<Rightarrow> ('e suart_s \<times> rx_outcome) option" where
  "dmx512suart_rxfifo_handler k u p = (
     if suart_rxavailable k u > 0 then
       (case suart_get_rxevents k 1 u of (es, u) \<Rightarrow>
          (case es of
             [] \<Rightarrow> dmx512suart_rxfifo_handler k u p
           | e # _ \<Rightarrow> do {
               r \<leftarrow> dmx512suart_rxevent e p;
               (case r of RxExit \<Rightarrow> Some (u, RxExit) | RxPort p \<Rightarrow> dmx512suart_rxfifo_handler k u p) }))
     else Some (u, RxPort p))"

section \<open>Transmission\<close>

definition dmx512_calculate_rdm_checksum :: "u8 list \<Rightarrow> u16" where
  "dmx512_calculate_rdm_checksum data = foldl (\<lambda>sum b. sum + ucast b) 0 data"

text \<open>The conditions of \<open>&&\<close> are evaluated from the left until one fails, each reading one octet.\<close>

fun all_octets :: "u8 list \<Rightarrow> (nat \<times> u8) list \<Rightarrow> bool option" where
  "all_octets data [] = Some True"
| "all_octets data ((i, v) # cs) = do {
     b \<leftarrow> arr_get data i;
     if b = v then all_octets data cs else Some False }"

definition dmx512_is_rdm_discover :: "u8 list \<Rightarrow> bool option" where
  "dmx512_is_rdm_discover data = all_octets data
     [(DMX_POS_STARTCODE, SC_RDM), (RDM_POS_SUBSTARTCODE, SC_SUB_MESSAGE), (RDM_POS_COMMAND_CLASS, DISCOVERY_COMMAND),
      (RDM_POS_PID, ucast (drop_bit 8 DISC_UNIQUE_BRANCH)), (RDM_POS_PID + 1, ucast DISC_UNIQUE_BRANCH), (RDM_POS_PDL, 12)]"

definition dmx512_is_rdm_discover_reply :: "u8 list \<Rightarrow> bool option" where
  "dmx512_is_rdm_discover_reply data = all_octets data
     [(DMX_POS_STARTCODE, SC_RDM), (RDM_POS_SUBSTARTCODE, SC_SUB_MESSAGE),
      (RDM_POS_COMMAND_CLASS, DISCOVERY_COMMAND_RESPONSE), (RDM_POS_PID, ucast (drop_bit 8 DISC_UNIQUE_BRANCH)),
      (RDM_POS_PID + 1, ucast DISC_UNIQUE_BRANCH), (RDM_POS_PDL, 0)]"

text \<open>The 24 octets of a discovery response, written one by one.\<close>

definition discovery_buffer :: "u8 list \<Rightarrow> u8 list option" where
  "discovery_buffer dmxdata = do {
     u0 \<leftarrow> arr_get dmxdata RDM_POS_SRC_UID;
     u1 \<leftarrow> arr_get dmxdata (RDM_POS_SRC_UID + 1);
     u2 \<leftarrow> arr_get dmxdata (RDM_POS_SRC_UID + 2);
     u3 \<leftarrow> arr_get dmxdata (RDM_POS_SRC_UID + 3);
     u4 \<leftarrow> arr_get dmxdata (RDM_POS_SRC_UID + 4);
     u5 \<leftarrow> arr_get dmxdata (RDM_POS_SRC_UID + 5);
     let payload = [0xAA OR u0, 0x55 OR u0, 0xAA OR u1, 0x55 OR u1, 0xAA OR u2, 0x55 OR u2,
                    0xAA OR u3, 0x55 OR u3, 0xAA OR u4, 0x55 OR u4, 0xAA OR u5, 0x55 OR u5];
     let checksum = dmx512_calculate_rdm_checksum payload;
     Some ([0xFE, 0xFE, 0xFE, 0xFE, 0xFE, 0xFE, 0xFE, 0xAA] @ payload @
       [0xAA OR ucast (drop_bit 8 checksum), 0x55 OR ucast (drop_bit 8 checksum),
        0xAA OR ucast checksum, 0x55 OR ucast checksum]) }"

text \<open>\<open>put_events es n events\<close> stores \<open>es\<close> from index \<open>n\<close> on, as the statements with \<open>events[count++]\<close> do.\<close>

definition put_events :: "suart_event list \<Rightarrow> nat \<Rightarrow> suart_event list \<Rightarrow> (nat \<times> suart_event list) option" where
  "put_events es n events = do { events \<leftarrow> arr_blit events n es; Some (n + length es, events) }"

definition frame_head :: "suart_event list" where
  "frame_head = [suart_event_disable_rx, suart_event_enable_tx, suart_event_change_line SUART_LINE_RTS SUART_LINE_RTS]"

definition frame_break :: "suart_event list" where
  "frame_break = [suart_event_set_format 8 (CHR ''n'') 1, suart_event_change_baudrate 100500,
     snd (suart_event_data_inline_small_va [0] STREAMUART_EVENT_SHUTDOWN),
     suart_event_set_format 8 (CHR ''n'') 2, suart_event_change_baudrate 250000]"

definition frame_tail :: "suart_event list" where
  "frame_tail = [suart_event_change_line SUART_LINE_RTS 0, suart_event_disable_tx, suart_event_enable_rx,
     suart_event_echo 1]"

definition dmx512suart_create_frame ::
  "suart_event list \<Rightarrow> int \<Rightarrow> u32 \<Rightarrow> u8 list \<Rightarrow> int \<Rightarrow> (int \<times> suart_event list) option" where
  "dmx512suart_create_frame events maxevents flags dmxdata payload_count = (
     if 13 + (payload_count + 13) sdiv 14 > maxevents then Some (-1, events)
     else do {
       (cnt, events) \<leftarrow> put_events frame_head 0 events;
       reply \<leftarrow> dmx512_is_rdm_discover_reply dmxdata;
       if reply then do {
         buffer \<leftarrow> discovery_buffer dmxdata;
         (ret, events) \<leftarrow> suart_event_data_inline cnt (maxevents - 13) buffer (int (length buffer)) events;
         if ret \<le> 0 then Some (-1, events)
         else do {
           (cnt, events) \<leftarrow> put_events frame_tail (cnt + nat ret) events;
           Some (int cnt, events) } }
       else do {
         (cnt, events) \<leftarrow> (if flags AND ucast DMX512_FLAG_NOBREAK = 0
                          then put_events frame_break cnt events else Some (cnt, events));
         (ret, events) \<leftarrow> suart_event_data_inline cnt (maxevents - 13) dmxdata payload_count events;
         if ret \<le> 0 then Some (-1, events)
         else do {
           (cnt, events) \<leftarrow> put_events frame_tail (cnt + nat ret) events;
           Some (int cnt, events) } } })"

text \<open>\<open>memory\<close> is what the uninitialised array of 128 events holds. The count is handed on even when it
  is the error -1.\<close>

definition dmx512suart_send_frame ::
  "('e, suart_event) kfifo_ops \<Rightarrow> suart_event list \<Rightarrow> u32 \<Rightarrow> u8 list \<Rightarrow> int \<Rightarrow> 'e suart_s \<Rightarrow> 'e suart_s option" where
  "dmx512suart_send_frame k memory flags dmxdata cnt u = do {
     (n, events) \<leftarrow> dmx512suart_create_frame memory 128 flags dmxdata cnt;
     suart_put_txevents k events n u }"

definition dmx512suart_send_init_events :: "('e, suart_event) kfifo_ops \<Rightarrow> 'e suart_s \<Rightarrow> 'e suart_s option" where
  "dmx512suart_send_init_events k u = suart_put_txevents k
     [suart_event_set_format 8 (CHR ''n'') 2, suart_event_change_baudrate 250000, suart_event_disable_tx,
      suart_event_enable_rx, suart_event_change_line (SUART_LINE_RTS OR SUART_LINE_DTR) SUART_LINE_DTR,
      suart_event_echo 12345678] 6 u"

definition dmx512suart_set_dtr :: "('e, suart_event) kfifo_ops \<Rightarrow> bool \<Rightarrow> 'e suart_s \<Rightarrow> 'e suart_s option" where
  "dmx512suart_set_dtr k val u =
     suart_put_txevents k [suart_event_change_line SUART_LINE_DTR (if val then SUART_LINE_DTR else 0)] 1 u"

section \<open>Creation\<close>

text \<open>\<open>memory\<close> is the content of the data array in the allocated port.\<close>

definition dmx512suart_port_init :: "u8 list \<Rightarrow> bool \<Rightarrow> dmx512suart_port" where
  "dmx512suart_port_init memory frame_received =
     \<lparr>dp_dmxstate = 0, dp_dmxsize = 0, dp_dmx_data = memory, dp_dmx_locked = False, dp_dmx_lock_count = 0,
      dp_dmx_lock_size = 0, dp_callback = frame_received, dp_received = []\<rparr>"

definition dmx512suart_create_port_with_index ::
  "('b, 'e, 'o) suart_env \<Rightarrow> 'b pc16x50 option \<Rightarrow> u8 list \<Rightarrow> bool \<Rightarrow>
   (dmx512suart_port \<times> ('b, 'e, 'o) suart_pc16x50) option option" where
  "dmx512suart_create_port_with_index E uart memory frame_received = do {
     r \<leftarrow> suart_pc16x50_create E uart;
     (case r of
        None \<Rightarrow> Some None
      | Some s \<Rightarrow> do {
          q \<leftarrow> dmx512suart_send_init_events (se_events E) (sp_suart s);
          Some (Some (dmx512suart_port_init memory frame_received, s\<lparr>sp_suart := q\<rparr>)) }) }"

section \<open>The port keeps within its buffer\<close>

definition suart_port_inv :: "dmx512suart_port \<Rightarrow> bool" where
  "suart_port_inv p \<longleftrightarrow> length (dp_dmx_data p) = 513 \<and> dp_dmxsize p \<le> 511 \<and>
     0 \<le> dp_dmx_lock_count p \<and> dp_dmx_lock_count p \<le> (if dp_dmx_locked p then 4 else 3)"

lemma received_frame_sel [simp]:
  "dp_dmxsize (dmx512suart_received_frame d n p) = dp_dmxsize p"
  "dp_dmx_data (dmx512suart_received_frame d n p) = dp_dmx_data p"
  "dp_dmx_locked (dmx512suart_received_frame d n p) = dp_dmx_locked p"
  "dp_dmx_lock_count (dmx512suart_received_frame d n p) = dp_dmx_lock_count p"
  "dp_dmx_lock_size (dmx512suart_received_frame d n p) = dp_dmx_lock_size p"
  "dp_callback (dmx512suart_received_frame d n p) = dp_callback p"
  by (simp_all add: dmx512suart_received_frame_def)

lemma port_init_inv: "length memory = 513 \<Longrightarrow> suart_port_inv (dmx512suart_port_init memory cb)"
  by (simp add: suart_port_inv_def dmx512suart_port_init_def)

definition stored :: "u8 list \<Rightarrow> dmx512suart_port \<Rightarrow> dmx512suart_port" where
  "stored c p = p\<lparr>dp_dmxstate := 2, dp_dmx_data := blit (dp_dmx_data p) (dp_dmxsize p) c,
     dp_dmxsize := dp_dmxsize p + length c\<rparr>"

definition passed_up :: "dmx512suart_port \<Rightarrow> dmx512suart_port" where
  "passed_up p = (dmx512suart_received_frame (dp_dmx_data p) (dp_dmxsize p) p)\<lparr>dp_dmxsize := 0, dp_dmxstate := 0\<rparr>"

lemma handle_data_inline_fits:
  assumes "suart_port_inv p" and "dp_dmxsize p + length c \<le> 511"
  shows "handle_data_inline c p =
     Some (if dp_dmx_locked p \<and> dp_dmxsize p + length c = dp_dmx_lock_size p then passed_up (stored c p) else stored c p)"
  using assms by (cases "dp_dmx_locked p")
    (simp_all add: handle_data_inline_def suart_port_inv_def arr_blit_def Let_def stored_def passed_up_def)

lemma handle_data_inline_full:
  assumes "dp_dmxsize p + length c > 511"
  shows "handle_data_inline c p = Some (p\<lparr>dp_dmxstate := 2\<rparr>)"
  using assms by (cases "dp_dmx_locked p") (simp_all add: handle_data_inline_def Let_def)

lemma stored_inv:
  "suart_port_inv p \<Longrightarrow> dp_dmxsize p + length c \<le> 511 \<Longrightarrow> suart_port_inv (stored c p)"
  "suart_port_inv p \<Longrightarrow> suart_port_inv (passed_up p)"
  by (simp_all add: suart_port_inv_def stored_def passed_up_def)

lemma data_inline_inv:
  assumes "suart_port_inv p"
  shows "\<exists>p'. handle_data_inline octets p = Some p' \<and> suart_port_inv p'"
proof (cases "dp_dmxsize p + length octets \<le> 511")
  case True
  then show ?thesis using handle_data_inline_fits [OF assms True] stored_inv assms by auto
next
  case False
  then show ?thesis using handle_data_inline_full [of p octets] assms by (auto simp: suart_port_inv_def)
qed

lemma break_inv: "suart_port_inv p \<Longrightarrow> suart_port_inv (handle_break_status p)"
  by (auto simp: handle_break_status_def update_dmx_lock_def suart_port_inv_def Let_def)

definition is_pointer_event :: "suart_event \<Rightarrow> bool" where
  "is_pointer_event e = (case e of STREAMUART_EVENT_DATA _ \<Rightarrow> True | _ \<Rightarrow> False)"

lemma rxevent_inv:
  assumes "suart_port_inv p" and "\<not> is_pointer_event e"
  shows "\<exists>p'. dmx512suart_rxevent e p = Some (RxPort p') \<and> suart_port_inv p'"
proof (cases "\<exists>xs. e = STREAMUART_EVENT_DATA_INLINE xs")
  case True
  then show ?thesis using data_inline_inv [OF assms(1)] by (auto simp: dmx512suart_rxevent_def)
next
  case False
  then show ?thesis using assms break_inv [of p]
    by (cases e) (auto simp: dmx512suart_rxevent_def is_pointer_event_def)
qed

text \<open>The port over a list of events.\<close>

fun rx_run :: "suart_event list \<Rightarrow> dmx512suart_port \<Rightarrow> rx_outcome option" where
  "rx_run [] p = Some (RxPort p)"
| "rx_run (e # es) p = do {
     r \<leftarrow> dmx512suart_rxevent e p;
     (case r of RxExit \<Rightarrow> Some RxExit | RxPort p \<Rightarrow> rx_run es p) }"

lemma rx_run_inv:
  assumes "suart_port_inv p" and "\<forall>e \<in> set es. \<not> is_pointer_event e"
  shows "\<exists>p'. rx_run es p = Some (RxPort p') \<and> suart_port_inv p'"
  using assms
proof (induction es arbitrary: p)
  case (Cons e es)
  obtain p1 where "dmx512suart_rxevent e p = Some (RxPort p1)" "suart_port_inv p1"
    using rxevent_inv [OF Cons.prems(1)] Cons.prems(2) by fastforce
  then show ?case using Cons.IH Cons.prems(2) by simp
qed simp

lemma rx_run_Cons_Port:
  assumes "rx_run (e # es) p = Some (RxPort p')"
  shows "\<exists>p1. dmx512suart_rxevent e p = Some (RxPort p1) \<and> rx_run es p1 = Some (RxPort p')"
proof -
  obtain r where r: "dmx512suart_rxevent e p = Some r" using assms by (cases "dmx512suart_rxevent e p") auto
  then show ?thesis using assms by (cases r) auto
qed

lemma rx_run_append:
  "rx_run es p = Some (RxPort p') \<Longrightarrow> rx_run (es @ fs) p = rx_run fs p'"
proof (induction es arbitrary: p)
  case (Cons e es)
  from rx_run_Cons_Port [OF Cons.prems] show ?case using Cons.IH by auto
qed simp

text \<open>The handler's loop takes all events out of the fifo.\<close>

lemma handler_rx_run:
  assumes k: "kfifo_ok k q cap" and "rx_run (q (rxfifo u)) p = Some (RxPort p')"
  shows "\<exists>u'. dmx512suart_rxfifo_handler k u p = Some (u', RxPort p') \<and> q (rxfifo u') = []"
  using assms(2)
proof (induction "q (rxfifo u)" arbitrary: u p)
  case Nil
  then show ?case
    by (subst dmx512suart_rxfifo_handler.simps) (simp add: suart_rxavailable_def kfifo_okD(1) [OF k])
next
  case (Cons e es)
  obtain f where f: "kfifo_out k 1 (rxfifo u) = (take 1 (q (rxfifo u)), f)" "q f = drop 1 (q (rxfifo u))"
    by (rule kfifo_outE [OF k])
  have q: "q (rxfifo u) = e # es" using Cons.hyps(2) by simp
  obtain p1 where p1: "dmx512suart_rxevent e p = Some (RxPort p1)" "rx_run es p1 = Some (RxPort p')"
    using rx_run_Cons_Port [of e es p p'] Cons.prems q by auto
  have "dmx512suart_rxfifo_handler k u p = dmx512suart_rxfifo_handler k (u\<lparr>rxfifo := f\<rparr>) p1"
    using f p1(1) q by (subst dmx512suart_rxfifo_handler.simps)
       (simp add: suart_rxavailable_def suart_get_rxevents_def kfifo_okD(1) [OF k])
  moreover have "es = q (rxfifo (u\<lparr>rxfifo := f\<rparr>))" using f(2) q by simp
  ultimately show ?case using Cons.hyps(1) [of "u\<lparr>rxfifo := f\<rparr>" p1] p1(2) q f(2) by simp
qed

section \<open>Frames between breaks\<close>

lemma take_stored:
  assumes "suart_port_inv p"
  shows "take (dp_dmxsize (stored c p)) (dp_dmx_data (stored c p)) = take (dp_dmxsize p) (dp_dmx_data p) @ c"
  using assms by (simp add: stored_def blit_def suart_port_inv_def)

lemma stored_sel [simp]:
  "dp_dmxsize (stored c p) = dp_dmxsize p + length c" "dp_dmx_locked (stored c p) = dp_dmx_locked p"
  "dp_dmx_lock_size (stored c p) = dp_dmx_lock_size p" "dp_received (stored c p) = dp_received p"
  "dp_callback (stored c p) = dp_callback p"
  by (simp_all add: stored_def)

lemma passed_up_sel [simp]:
  "dp_dmxsize (passed_up p) = 0" "dp_dmx_locked (passed_up p) = dp_dmx_locked p"
  "dp_dmx_lock_size (passed_up p) = dp_dmx_lock_size p" "dp_callback (passed_up p) = dp_callback p"
  "dp_callback p \<Longrightarrow> dp_received (passed_up p) = dp_received p @ [take (dp_dmxsize p) (dp_dmx_data p)]"
  by (simp_all add: passed_up_def dmx512suart_received_frame_def)

text \<open>Chunks that stay below the lock size are only stored.\<close>

lemma chunks_stored:
  assumes "suart_port_inv p" and "dp_dmxsize p + length (concat cs) \<le> 511"
    and "dp_dmx_locked p \<longrightarrow> dp_dmxsize p + length (concat cs) < dp_dmx_lock_size p"
  shows "\<exists>p'. rx_run (map STREAMUART_EVENT_DATA_INLINE cs) p = Some (RxPort p') \<and> suart_port_inv p' \<and>
     dp_dmxsize p' = dp_dmxsize p + length (concat cs) \<and>
     take (dp_dmxsize p') (dp_dmx_data p') = take (dp_dmxsize p) (dp_dmx_data p) @ concat cs \<and>
     dp_dmx_locked p' = dp_dmx_locked p \<and> dp_dmx_lock_size p' = dp_dmx_lock_size p \<and>
     dp_received p' = dp_received p \<and> dp_callback p' = dp_callback p"
  using assms
proof (induction cs arbitrary: p)
  case (Cons c cs)
  have h: "handle_data_inline c p = Some (stored c p)"
    using handle_data_inline_fits [OF Cons.prems(1), of c] Cons.prems(2,3) by auto
  have i: "suart_port_inv (stored c p)" using stored_inv(1) [OF Cons.prems(1)] Cons.prems(2) by simp
  have "dp_dmxsize (stored c p) + length (concat cs) \<le> 511"
      "dp_dmx_locked (stored c p) \<longrightarrow> dp_dmxsize (stored c p) + length (concat cs) < dp_dmx_lock_size (stored c p)"
    using Cons.prems(2,3) by auto
  from Cons.IH [OF i this] show ?case
    using h take_stored [OF Cons.prems(1), of c] by (auto simp: dmx512suart_rxevent_def add.assoc)
qed simp

lemma break_event:
  assumes "v AND 0x10 \<noteq> 0"
  shows "dmx512suart_rxevent (STREAMUART_EVENT_LINESTATUS m v) p = Some (RxPort (handle_break_status p))"
  using assms by (simp add: dmx512suart_rxevent_def LSR_BREAK_INTERRUPT_def)

lemma handle_break_sel:
  assumes "dp_callback p"
  shows "dp_dmxsize (handle_break_status p) = 0" "dp_callback (handle_break_status p)"
    "dp_received (handle_break_status p) = dp_received p @
       (if dp_dmxsize p > 0 then [take (dp_dmxsize p) (dp_dmx_data p)] else [])"
  using assms by (simp_all add: handle_break_status_def update_dmx_lock_def dmx512suart_received_frame_def Let_def)

text \<open>A frame that arrives in chunks and is followed by a break is passed up once, whether the port is
  locked to its size or not.\<close>

lemma frame_then_break:
  assumes "suart_port_inv p" and "dp_callback p" and "dp_dmxsize p = 0" and "[] \<notin> set cs" and "cs \<noteq> []"
    and "length (concat cs) \<le> 511" and "dp_dmx_locked p \<longrightarrow> length (concat cs) \<le> dp_dmx_lock_size p"
    and "v AND 0x10 \<noteq> 0"
  shows "\<exists>p'. rx_run (map STREAMUART_EVENT_DATA_INLINE cs @ [STREAMUART_EVENT_LINESTATUS m v]) p = Some (RxPort p') \<and>
     suart_port_inv p' \<and> dp_callback p' \<and> dp_dmxsize p' = 0 \<and> dp_received p' = dp_received p @ [concat cs]"
proof -
  obtain ds c where cs: "cs = ds @ [c]" using assms(5) by (metis rev_exhaust)
  have c: "c \<noteq> []" using assms(4) cs by auto
  obtain p1 where p1: "rx_run (map STREAMUART_EVENT_DATA_INLINE ds) p = Some (RxPort p1)" "suart_port_inv p1"
      "dp_dmxsize p1 = length (concat ds)" "take (dp_dmxsize p1) (dp_dmx_data p1) = concat ds"
      "dp_dmx_locked p1 = dp_dmx_locked p" "dp_dmx_lock_size p1 = dp_dmx_lock_size p"
      "dp_received p1 = dp_received p" "dp_callback p1"
    using chunks_stored [OF assms(1), of ds] assms(2,3,6,7) c cs by (cases c) auto
  have fits: "dp_dmxsize p1 + length c \<le> 511" using assms(6) cs p1(3) by simp
  let ?p2 = "stored c p1" and ?now = "dp_dmx_locked p1 \<and> dp_dmxsize p1 + length c = dp_dmx_lock_size p1"
  have t: "take (dp_dmxsize ?p2) (dp_dmx_data ?p2) = concat cs" using take_stored [OF p1(2), of c] p1(4) cs by simp
  define p3 where "p3 = (if ?now then passed_up ?p2 else ?p2)"
  have i3: "suart_port_inv p3" using stored_inv p1(2) fits by (simp add: p3_def)
  have cb: "dp_callback p3" using p1(8) by (simp add: p3_def)
  have r3: "dp_received p3 @ (if dp_dmxsize p3 > 0 then [take (dp_dmxsize p3) (dp_dmx_data p3)] else []) =
      dp_received p @ [concat cs]"
  proof (cases ?now)
    case True
    have "p3 = passed_up ?p2" unfolding p3_def by (rule if_P) (rule True)
    then have "dp_dmxsize p3 = 0" "dp_received p3 = dp_received p @ [concat cs]"
      using passed_up_sel(5) [of ?p2] t p1(7,8) by simp_all
    then show ?thesis by simp
  next
    case False
    have "p3 = ?p2" unfolding p3_def by (rule if_not_P) (rule False)
    then show ?thesis using t c p1(7) by simp
  qed
  have "rx_run (map STREAMUART_EVENT_DATA_INLINE cs @ [STREAMUART_EVENT_LINESTATUS m v]) p =
      rx_run [STREAMUART_EVENT_DATA_INLINE c, STREAMUART_EVENT_LINESTATUS m v] p1"
    using rx_run_append [OF p1(1)] cs by simp
  also have "\<dots> = rx_run [STREAMUART_EVENT_LINESTATUS m v] p3"
    using handle_data_inline_fits [OF p1(2) fits] by (simp add: dmx512suart_rxevent_def p3_def)
  also have "\<dots> = Some (RxPort (handle_break_status p3))" using break_event [OF assms(8)] by simp
  finally show ?thesis using handle_break_sel [OF cb] break_inv [OF i3] r3 by simp
qed

text \<open>The receive handler returns for every content of the event fifo without pointer events: it
  takes all events out and leaves a port whose frame in reception stays within its buffer, with at most
  511 octets, and whose lock counter is between 0 and 4.\<close>

theorem rxfifo_handler_returns:
  assumes "kfifo_ok k q cap" and "\<forall>e \<in> set (q (rxfifo u)). \<not> is_pointer_event e" and "suart_port_inv p"
  shows "\<exists>u' p'. dmx512suart_rxfifo_handler k u p = Some (u', RxPort p') \<and> q (rxfifo u') = [] \<and> suart_port_inv p'"
proof -
  obtain p' where "rx_run (q (rxfifo u)) p = Some (RxPort p')" "suart_port_inv p'"
    using rx_run_inv [OF assms(3,2)] by blast
  then show ?thesis using handler_rx_run [OF assms(1)] by blast
qed

theorem rxfifo_handler_returns_witness:
  "\<exists>u' p'. dmx512suart_rxfifo_handler (list_kfifo 128)
       \<lparr>txfifo = [], rxfifo = [STREAMUART_EVENT_DATA_INLINE [0, 1], STREAMUART_EVENT_LINESTATUS 255 16],
        tx_wakeups = 0, rx_wakeups = 0\<rparr> (dmx512suart_port_init (replicate 513 0) True) = Some (u', RxPort p') \<and>
     rxfifo u' = [] \<and> suart_port_inv p'"
proof -
  let ?u = "\<lparr>txfifo = [], rxfifo = [STREAMUART_EVENT_DATA_INLINE [0, 1], STREAMUART_EVENT_LINESTATUS 255 16],
        tx_wakeups = 0, rx_wakeups = 0\<rparr>"
  have "\<forall>e \<in> set (rxfifo ?u). \<not> is_pointer_event e" by (simp add: is_pointer_event_def)
  then show ?thesis
    using rxfifo_handler_returns [OF list_kfifo_ok, of ?u "dmx512suart_port_init (replicate 513 0) True" 128]
      port_init_inv [of "replicate 513 0" True] by simp
qed

section \<open>From octets to frames\<close>

lemma ucast_bit4: "(lsr :: u8) AND 0x10 \<noteq> 0 \<Longrightarrow> (ucast lsr :: u32) AND 0x10 \<noteq> 0"
  using and_exp_eq_0_iff_not_bit [of lsr 4] and_exp_eq_0_iff_not_bit [of "ucast lsr :: u32" 4]
  by (simp add: bit_simps)

text \<open>The thread's side: octets, then a break.\<close>

lemma octets_then_break:
  assumes E: "suart_env_ok E qe ce qo co" and "qo (sp_rxbuffer s) = []" and "qe (rxfifo (sp_suart s)) = []"
    and room: "length (chunks xs) < ce"
  shows "\<exists>s'. (do { s \<leftarrow> receive_octets E xs s; s \<leftarrow> flush_rxbuffer_fifo E s; send_line_status_event E lsr s }) = Some s' \<and>
     same_tx_side s s' \<and> qo (sp_rxbuffer s') = [] \<and>
     qe (rxfifo (sp_suart s')) =
       map STREAMUART_EVENT_DATA_INLINE (chunks xs) @ [STREAMUART_EVENT_LINESTATUS 0xff (ucast lsr)]"
proof -
  obtain a where a: "receive_octets E xs s = Some a" "same_tx_side s a"
      "qe (rxfifo (sp_suart a)) @ map STREAMUART_EVENT_DATA_INLINE (chunks (qo (sp_rxbuffer a))) =
        map STREAMUART_EVENT_DATA_INLINE (chunks xs)"
    using receive_octets_stream [OF E, of s xs] assms(2-4) by auto
  have "length (qe (rxfifo (sp_suart a))) + length (chunks (qo (sp_rxbuffer a))) \<le> ce"
    using arg_cong [OF a(3), of length] room by simp
  then obtain b where b: "flush_rxbuffer_fifo E a = Some b" "same_tx_side a b" "qo (sp_rxbuffer b) = []"
      "qe (rxfifo (sp_suart b)) = map STREAMUART_EVENT_DATA_INLINE (chunks xs)"
    using flush_chunks [OF E, of a] a(3) by auto
  have "kfifo_ok (se_events E) qe ce" using E by (simp add: suart_env_ok_def)
  then obtain u where u: "suart_put_rxevents (se_events E) [STREAMUART_EVENT_LINESTATUS 0xff (ucast lsr)] 1 (sp_suart b) = Some u"
      "qe (rxfifo u) = qe (rxfifo (sp_suart b)) @ [STREAMUART_EVENT_LINESTATUS 0xff (ucast lsr)]"
      "txfifo u = txfifo (sp_suart b)"
    using put_rxevents_one [of "se_events E" qe ce "sp_suart b"] b(4) room by auto
  then have "send_line_status_event E lsr b = Some (b\<lparr>sp_suart := u\<rparr>)"
    by (simp add: send_line_status_event_def put_rx_def)
  moreover have "same_tx_side s (b\<lparr>sp_suart := u\<rparr>)" using a(2) b(2) u(3) by (simp add: same_tx_side_def)
  ultimately show ?thesis using a(1) b u(2) by simp
qed

text \<open>C26. Between 1 and 511 octets that the thread receives one by one, and a break that follows, reach the client
  of the port as one frame with exactly these octets, and nothing is left in the buffers. The fifo of events must have room
  for them (one event per 14 octets and one for the break) and be empty at first, and the port must have no
  octets collected and be unlocked or locked to at least as many octets: a port that is locked to fewer passes
  the frame up early and splits it.\<close>

theorem received_octets_delivered:
  assumes "suart_env_ok E qe ce qo co" and "qo (sp_rxbuffer s) = []" and "qe (rxfifo (sp_suart s)) = []"
    and "(length xs + 13) div 14 < ce" and "xs \<noteq> []" and "length xs \<le> 511" and "lsr AND 0x10 \<noteq> 0"
    and "suart_port_inv p" and "dp_callback p" and "dp_dmxsize p = 0"
    and "dp_dmx_locked p \<longrightarrow> length xs \<le> dp_dmx_lock_size p"
  shows "\<exists>s' u' p'. (do { s \<leftarrow> receive_octets E xs s; s \<leftarrow> flush_rxbuffer_fifo E s; send_line_status_event E lsr s }) = Some s' \<and>
     qo (sp_rxbuffer s') = [] \<and>
     dmx512suart_rxfifo_handler (se_events E) (sp_suart s') p = Some (u', RxPort p') \<and> qe (rxfifo u') = [] \<and>
     suart_port_inv p' \<and> dp_received p' = dp_received p @ [xs]"
proof -
  have ke: "kfifo_ok (se_events E) qe ce" using assms(1) by (simp add: suart_env_ok_def)
  let ?es = "map STREAMUART_EVENT_DATA_INLINE (chunks xs) @ [STREAMUART_EVENT_LINESTATUS 0xff (ucast lsr)]"
  obtain s' where s': "(do { s \<leftarrow> receive_octets E xs s; s \<leftarrow> flush_rxbuffer_fifo E s; send_line_status_event E lsr s }) = Some s'"
      "qo (sp_rxbuffer s') = []" "qe (rxfifo (sp_suart s')) = ?es"
    using octets_then_break [OF assms(1-3), of xs lsr] assms(4) length_chunks [of xs] by auto
  have cs: "[] \<notin> set (chunks xs)" "chunks xs \<noteq> []"
    using set_chunks assms(5) chunks_rec [OF assms(5)] by auto
  obtain p' where p': "rx_run ?es p = Some (RxPort p')" "suart_port_inv p'" "dp_received p' = dp_received p @ [xs]"
    using frame_then_break [OF assms(8-10) cs, of "ucast lsr" 255] assms(6,11) ucast_bit4 [OF assms(7)] by auto
  then show ?thesis using handler_rx_run [OF ke, of "sp_suart s'" p p'] s' by auto
qed

theorem received_octets_delivered_witness:
  "\<exists>s' u' p'. (do { s \<leftarrow> receive_octets demo_env (replicate 20 3) demo_thread; s \<leftarrow> flush_rxbuffer_fifo demo_env s;
       send_line_status_event demo_env 0x10 s }) = Some s' \<and>
     dmx512suart_rxfifo_handler (se_events demo_env) (sp_suart s') (dmx512suart_port_init (replicate 513 0) True) = Some (u', RxPort p') \<and>
     dp_received p' = [replicate 20 3]"
proof -
  let ?p = "dmx512suart_port_init (replicate 513 0) True"
  have p: "suart_port_inv ?p" by (rule port_init_inv) simp
  have s: "sp_rxbuffer demo_thread = []" "rxfifo (sp_suart demo_thread) = []"
    by (simp_all add: demo_thread_def suart_init_def demo_env_def list_kfifo_def)
  have q: "dp_callback ?p" "dp_dmxsize ?p = 0" "\<not> dp_dmx_locked ?p" "dp_received ?p = []"
    by (simp_all add: dmx512suart_port_init_def)
  show ?thesis
    using received_octets_delivered [OF demo_env_ok s(1,2), of "replicate 20 3" "0x10" ?p] p q by auto
qed

section \<open>Frames too long\<close>

lemma chunks_append: "length xs mod 14 = 0 \<Longrightarrow> chunks (xs @ ys) = chunks xs @ chunks ys"
proof (induction xs rule: chunks.induct)
  case (1 xs)
  show ?case
  proof (cases "xs = []")
    case False
    have l: "14 \<le> length xs" using 1(2) False by (metis dvd_imp_le length_greater_0_conv mod_0_imp_dvd)
    then have "chunks (drop 14 xs @ ys) = chunks (drop 14 xs) @ chunks ys"
      using 1 False by (simp add: le_mod_geq)
    moreover have "take 14 (xs @ ys) = take 14 xs" "drop 14 (xs @ ys) = drop 14 xs @ ys" using l by simp_all
    ultimately show ?thesis using chunks_rec [OF False] chunks_rec [of "xs @ ys"] False by simp
  qed simp
qed

text \<open>A received DMX512 frame of full size, start code and 512 slots, does not reach the client
  whole: the event with the last nine octets no longer counts as fitting and is dropped, and the client
  gets the first 504 octets.\<close>

theorem full_frame_truncated:
  assumes "suart_port_inv p" and "dp_callback p" and "dp_dmxsize p = 0" and "\<not> dp_dmx_locked p"
    and "length xs = 513" and "v AND 0x10 \<noteq> 0"
  shows "\<exists>p'. rx_run (map STREAMUART_EVENT_DATA_INLINE (chunks xs) @ [STREAMUART_EVENT_LINESTATUS m v]) p = Some (RxPort p') \<and>
     dp_received p' = dp_received p @ [take 504 xs]"
proof -
  let ?a = "take 504 xs" and ?b = "drop 504 xs"
  have b: "?b \<noteq> []" "length ?b = 9" using assms(5) by auto
  have "chunks xs = chunks ?a @ chunks ?b" using chunks_append [of ?a ?b] assms(5) by simp
  also have "chunks ?b = [?b]" using chunks_rec [OF b(1)] b(2) by simp
  finally have ch: "chunks xs = chunks ?a @ [?b]" .
  obtain p1 where p1: "rx_run (map STREAMUART_EVENT_DATA_INLINE (chunks ?a)) p = Some (RxPort p1)"
      "dp_dmxsize p1 = 504" "take (dp_dmxsize p1) (dp_dmx_data p1) = ?a"
      "dp_received p1 = dp_received p" "dp_callback p1"
    using chunks_stored [OF assms(1), of "chunks ?a"] assms(2-5) by auto
  let ?p2 = "p1\<lparr>dp_dmxstate := 2\<rparr>"
  have "dmx512suart_rxevent (STREAMUART_EVENT_DATA_INLINE ?b) p1 = Some (RxPort ?p2)"
    using handle_data_inline_full [of p1 ?b] p1(2) b(2) by (simp add: dmx512suart_rxevent_def)
  moreover have "dp_received (handle_break_status ?p2) = dp_received p @ [?a]"
    using handle_break_sel(3) [of ?p2] p1 by simp
  ultimately show ?thesis
    using rx_run_append [OF p1(1), of "[STREAMUART_EVENT_DATA_INLINE ?b, STREAMUART_EVENT_LINESTATUS m v]"]
      break_event [OF assms(6)] ch by simp
qed

theorem full_frame_truncated_witness:
  "\<exists>p'. rx_run (map STREAMUART_EVENT_DATA_INLINE (chunks (replicate 513 1)) @ [STREAMUART_EVENT_LINESTATUS 255 16])
       (dmx512suart_port_init (replicate 513 0) True) = Some (RxPort p') \<and>
     dp_received p' = [replicate 504 1]"
proof -
  let ?p = "dmx512suart_port_init (replicate 513 0) True"
  have q: "dp_callback ?p" "dp_dmxsize ?p = 0" "\<not> dp_dmx_locked ?p" "dp_received ?p = []"
    by (simp_all add: dmx512suart_port_init_def)
  show ?thesis
    using full_frame_truncated [OF port_init_inv q(1-3), of "replicate 513 1" 16 255] q(4) by auto
qed

section \<open>Frames to send\<close>

text \<open>What the events of a frame are.\<close>

definition frame_events :: "u32 \<Rightarrow> bool \<Rightarrow> u8 list \<Rightarrow> nat \<Rightarrow> suart_event list" where
  "frame_events flags reply dmxdata cnt = frame_head @
     (if reply then map STREAMUART_EVENT_DATA_INLINE (chunks (discovery_reply_octets (take 6 (drop RDM_POS_SRC_UID dmxdata))))
      else (if flags AND ucast DMX512_FLAG_NOBREAK = 0 then frame_break else []) @
           map STREAMUART_EVENT_DATA_INLINE (chunks (take cnt dmxdata))) @ frame_tail"

text \<open>The driver of the test bench and this one encode a discovery response to the same octets.\<close>

lemma calculate_checksum_is_sum: "dmx512_calculate_rdm_checksum xs = rdm_sum xs"
  by (simp add: dmx512_calculate_rdm_checksum_def rdm_sum_def)

lemma discovery_buffer_octets:
  assumes "RDM_POS_SRC_UID + 6 \<le> length dmxdata"
  shows "discovery_buffer dmxdata = Some (discovery_reply_octets (take 6 (drop RDM_POS_SRC_UID dmxdata)))"
proof -
  define uid where "uid = take 6 (drop RDM_POS_SRC_UID dmxdata)"
  have uid: "length uid = 6" using assms by (simp add: uid_def)
  have nth: "dmxdata ! (RDM_POS_SRC_UID + i) = uid ! i" if "i < 6" for i using that assms by (simp add: uid_def)
  have e: "concat (map encode_pair uid) =
     [0xAA OR uid ! 0, 0x55 OR uid ! 0, 0xAA OR uid ! 1, 0x55 OR uid ! 1, 0xAA OR uid ! 2, 0x55 OR uid ! 2,
      0xAA OR uid ! 3, 0x55 OR uid ! 3, 0xAA OR uid ! 4, 0x55 OR uid ! 4, 0xAA OR uid ! 5, 0x55 OR uid ! 5]"
    by (subst list_of_length_6 [OF uid]) (simp add: encode_pair_def)
  show ?thesis using assms nth [of 0] nth [of 1] nth [of 2] nth [of 3] nth [of 4] nth [of 5]
    unfolding uid_def [symmetric]
    by (simp add: discovery_buffer_def arr_get_Some discovery_reply_octets_def e calculate_checksum_is_sum
        encode_pair_def numeral_eq_Suc Let_def)
qed

text \<open>Events stored one after the other from the start of an array.\<close>

lemma blit_prefix:
  assumes "take (length es) e = es" and "length es + length xs \<le> length e"
  shows "take (length (es @ xs)) (blit e (length es) xs) = es @ xs"
  using assms by (simp add: blit_def)

lemma put_events_prefix:
  assumes "take (length es) e = es" and "length es + length xs \<le> length e"
  shows "\<exists>e'. put_events xs (length es) e = Some (length (es @ xs), e') \<and> length e' = length e \<and>
     take (length (es @ xs)) e' = es @ xs"
  using blit_prefix [OF assms] assms(2) by (simp add: put_events_def arr_blit_Some)

lemma data_inline_prefix:
  assumes "take (length es) e = es" and "length es + length (chunks (take cnt data)) \<le> length e"
    and "cnt \<le> length data" and "int (length (chunks (take cnt data))) \<le> maxevents"
  shows "\<exists>e'. suart_event_data_inline (length es) maxevents data (int cnt) e = Some (int (length (chunks (take cnt data))), e') \<and>
     length e' = length e \<and> take (length es + length (chunks (take cnt data))) e' =
       es @ map STREAMUART_EVENT_DATA_INLINE (chunks (take cnt data))"
  using blit_prefix [of es e "map STREAMUART_EVENT_DATA_INLINE (chunks (take cnt data))"] assms
    data_inline_chunks [of cnt data maxevents "length es" e] by simp

text \<open>The data events and the tail, after a prefix of events.\<close>

lemma data_and_tail:
  assumes "take (length es) e = es" and "length e = 128" and "length es \<le> 8" and "xs \<noteq> []" and "length xs \<le> 513"
    and "take cnt data = xs" and "cnt = length xs" and "cnt \<le> length data"
  shows "\<exists>e1 e2. suart_event_data_inline (length es) 115 data (int cnt) e = Some (int (length (chunks xs)), e1) \<and>
     length (chunks xs) > 0 \<and>
     put_events frame_tail (length es + length (chunks xs)) e1 =
       Some (length (es @ map STREAMUART_EVENT_DATA_INLINE (chunks xs) @ frame_tail), e2) \<and> length e2 = 128 \<and>
     take (length (es @ map STREAMUART_EVENT_DATA_INLINE (chunks xs) @ frame_tail)) e2 =
       es @ map STREAMUART_EVENT_DATA_INLINE (chunks xs) @ frame_tail"
proof -
  let ?es = "es @ map STREAMUART_EVENT_DATA_INLINE (chunks xs)"
  have n: "length (chunks xs) \<le> 37" using assms(5) div_le_mono [of "length xs + 13" 526 14] by (simp add: length_chunks)
  have pos: "length (chunks xs) > 0" using chunks_rec [OF assms(4)] by simp
  have t: "length frame_tail = 4" by (simp add: frame_tail_def)
  obtain e1 where e1: "suart_event_data_inline (length es) 115 data (int cnt) e = Some (int (length (chunks xs)), e1)"
      "length e1 = 128" "take (length ?es) e1 = ?es"
    using data_inline_prefix [of es e cnt data 115] assms n by auto
  obtain e2 where "put_events frame_tail (length ?es) e1 = Some (length (?es @ frame_tail), e2)" "length e2 = 128"
      "take (length (?es @ frame_tail)) e2 = ?es @ frame_tail"
    using put_events_prefix [OF e1(3), of frame_tail] e1(2) assms(3) n t by auto
  then show ?thesis using e1(1) pos by auto
qed

lemma length_frame_head [simp]: "length frame_head = 3"
  by (simp add: frame_head_def)

lemma data_and_break:
  assumes "length (flags_es :: suart_event list) \<le> 5" and "take 3 e = frame_head" and "length e = 128"
  shows "\<exists>e'. put_events flags_es 3 e = Some (length (frame_head @ flags_es), e') \<and> length e' = 128 \<and>
     take (length (frame_head @ flags_es)) e' = frame_head @ flags_es"
  using put_events_prefix [of frame_head e flags_es] assms by simp

lemma create_frame_prefix:
  assumes "1 \<le> cnt" and "cnt \<le> 513" and "cnt \<le> length dmxdata" and "length events = 128"
    and reply: "dmx512_is_rdm_discover_reply dmxdata = Some reply"
    and uid: "reply \<longrightarrow> RDM_POS_SRC_UID + 6 \<le> length dmxdata"
  shows "\<exists>events'. dmx512suart_create_frame events 128 flags dmxdata (int cnt) =
       Some (int (length (frame_events flags reply dmxdata cnt)), events') \<and>
     take (length (frame_events flags reply dmxdata cnt)) events' = frame_events flags reply dmxdata cnt"
proof -
  have guard: "\<not> 13 + (int cnt + 13) sdiv 14 > 128"
    using assms(2) zdiv_mono1 [of "int cnt + 13" 526 14] by (simp add: signed_divide_int_def sgn_if)
  note h = length_frame_head
  obtain e1 where e1: "put_events frame_head 0 events = Some (3, e1)" "length e1 = 128" "take 3 e1 = frame_head"
    using put_events_prefix [of "[]" events frame_head] assms(4) h by auto
  show ?thesis
  proof (cases reply)
    case True
    let ?xs = "discovery_reply_octets (take 6 (drop RDM_POS_SRC_UID dmxdata))"
    have l: "length ?xs = 24" using uid True by (intro length_discovery_reply_octets) simp
    then have "?xs \<noteq> []" by auto
    then obtain e2 e3 where "suart_event_data_inline 3 115 ?xs (int (length ?xs)) e1 = Some (int (length (chunks ?xs)), e2)"
        "length (chunks ?xs) > 0"
        "put_events frame_tail (3 + length (chunks ?xs)) e2 = Some (length (frame_events flags reply dmxdata cnt), e3)"
        "take (length (frame_events flags reply dmxdata cnt)) e3 = frame_events flags reply dmxdata cnt"
      using data_and_tail [of frame_head e1 ?xs "length ?xs" ?xs] e1 l h True by (auto simp: frame_events_def)
    then show ?thesis using guard e1(1) reply True uid discovery_buffer_octets [of dmxdata]
      by (simp add: dmx512suart_create_frame_def)
  next
    case False
    define b where "b = (if flags AND ucast DMX512_FLAG_NOBREAK = 0 then frame_break else [])"
    have b: "length b \<le> 5" by (simp add: b_def frame_break_def)
    obtain e2 where e2: "put_events b 3 e1 = Some (length (frame_head @ b), e2)" "length e2 = 128"
        "take (length (frame_head @ b)) e2 = frame_head @ b"
      using data_and_break [OF b e1(3,2)] by blast
    let ?xs = "take cnt dmxdata"
    have "?xs \<noteq> []" "length ?xs = cnt" using assms(1,3) by auto
    then obtain e3 e4 where "suart_event_data_inline (length (frame_head @ b)) 115 dmxdata (int cnt) e2 =
          Some (int (length (chunks ?xs)), e3)" "length (chunks ?xs) > 0"
        "put_events frame_tail (length (frame_head @ b) + length (chunks ?xs)) e3 =
          Some (length (frame_events flags reply dmxdata cnt), e4)"
        "take (length (frame_events flags reply dmxdata cnt)) e4 = frame_events flags reply dmxdata cnt"
      using data_and_tail [of "frame_head @ b" e2 ?xs cnt dmxdata] e2 b h assms(2,3) False
      by (auto simp: frame_events_def b_def [symmetric])
    moreover have "(if flags AND ucast DMX512_FLAG_NOBREAK = 0 then put_events frame_break 3 e1 else Some (3, e1)) =
        Some (length (frame_head @ b), e2)"
      using e2(1) e1(2) h by (auto simp: b_def put_events_def arr_blit_def blit_def)
    ultimately show ?thesis using guard e1(1) reply False by (simp add: dmx512suart_create_frame_def)
  qed
qed

section \<open>Putting a frame into the fifo\<close>

lemma length_frame_events:
  assumes "reply \<longrightarrow> RDM_POS_SRC_UID + 6 \<le> length dmxdata" and "cnt \<le> 513"
  shows "length (frame_events flags reply dmxdata cnt) \<le> 49"
proof -
  have "length (take 6 (drop RDM_POS_SRC_UID dmxdata)) = 6" if reply using assms(1) that by simp
  then have "reply \<Longrightarrow> length (discovery_reply_octets (take 6 (drop RDM_POS_SRC_UID dmxdata))) = 24"
    using length_discovery_reply_octets by blast
  moreover have "(min (length dmxdata) cnt + 13) div 14 \<le> 37"
    using assms(2) div_le_mono [of "min (length dmxdata) cnt + 13" 526 14] by simp
  ultimately show ?thesis
    by (auto simp: frame_events_def frame_tail_def frame_break_def length_chunks)
qed

lemma send_frame_queues:
  assumes k: "kfifo_ok k q cap" and "1 \<le> cnt" and "cnt \<le> 513" and "cnt \<le> length dmxdata" and "length memory = 128"
    and reply: "dmx512_is_rdm_discover_reply dmxdata = Some reply"
    and uid: "reply \<longrightarrow> RDM_POS_SRC_UID + 6 \<le> length dmxdata"
    and room: "length (q (txfifo u)) + 49 \<le> cap"
  shows "\<exists>u'. dmx512suart_send_frame k memory flags dmxdata (int cnt) u = Some u' \<and>
     q (txfifo u') = q (txfifo u) @ frame_events flags reply dmxdata cnt \<and>
     rxfifo u' = rxfifo u \<and> tx_wakeups u' = tx_wakeups u + 1"
proof -
  let ?es = "frame_events flags reply dmxdata cnt"
  have n: "length ?es \<le> 49" by (rule length_frame_events [OF uid assms(3)])
  obtain ev where ev: "dmx512suart_create_frame memory 128 flags dmxdata (int cnt) = Some (int (length ?es), ev)"
      "take (length ?es) ev = ?es"
    using create_frame_prefix [OF assms(2-5) reply uid] by blast
  have "length ?es \<le> length ev" using arg_cong [OF ev(2), of length] by simp
  then obtain f where "kfifo_in k (length ?es) ev (txfifo u) = Some (length ?es, f)" "q f = q (txfifo u) @ ?es"
    using kfifo_inE [OF k, of "length ?es" ev "txfifo u"] room n ev(2) by auto
  then show ?thesis using ev n by (simp add: dmx512suart_send_frame_def suart_put_txevents_def suart_wakeup_def)
qed

text \<open>C27. Sending a frame of 1 to 513 octets, when the fifo has room for 49 events, wakes the thread and
  appends exactly the events of the frame to the transmit fifo: those that switch to transmission, a break
  unless the frame asks for none, the octets in order in events of up to fourteen, and those that switch
  back to reception. A frame that is a discovery response has no break and its octets are the encoding of
  the source UID, the same that the driver of the test bench sends.\<close>

theorem send_frame_queues_events:
  assumes k: "kfifo_ok k q cap" and "1 \<le> cnt" and "cnt \<le> 513" and "cnt \<le> length dmxdata" and "length memory = 128"
    and reply: "dmx512_is_rdm_discover_reply dmxdata = Some reply"
    and uid: "reply \<longrightarrow> RDM_POS_SRC_UID + 6 \<le> length dmxdata"
    and room: "length (q (txfifo u)) + 49 \<le> cap"
  shows "\<exists>u'. dmx512suart_send_frame k memory flags dmxdata (int cnt) u = Some u' \<and>
     q (txfifo u') = q (txfifo u) @ frame_events flags reply dmxdata cnt \<and>
     rxfifo u' = rxfifo u \<and> tx_wakeups u' = tx_wakeups u + 1"
  by (rule send_frame_queues [OF assms])

theorem send_frame_queues_events_witness:
  "\<exists>u'. dmx512suart_send_frame (list_kfifo 128) (replicate 128 STREAMUART_EVENT_SHUTDOWN) 0 (replicate 513 0) 513
       (suart_init (list_kfifo 128)) = Some u' \<and>
     txfifo u' = frame_events 0 False (replicate 513 0) 513"
proof -
  have "dmx512_is_rdm_discover_reply (replicate 513 0) = Some False"
    by (simp add: dmx512_is_rdm_discover_reply_def arr_get_def rdm_const_defs)
  moreover have "txfifo (suart_init (list_kfifo 128)) = []" by (simp add: suart_init_def list_kfifo_def)
  ultimately show ?thesis
    using send_frame_queues_events [OF list_kfifo_ok, of 513 "replicate 513 0" "replicate 128 STREAMUART_EVENT_SHUTDOWN"
        False "suart_init (list_kfifo 128)" 128 0] by auto
qed

text \<open>Sending a frame without octets to an idle port hands the whole array of events to the thread: the
  error of the frame builder, -1, is taken as a count, and the 120 events behind the break are what the
  stack held.\<close>

theorem empty_frame_sends_garbage:
  assumes k: "kfifo_ok k q 128" and "length memory = 128" and "q (txfifo u) = []"
    and "dmx512_is_rdm_discover_reply dmxdata = Some False" and "flags AND ucast DMX512_FLAG_NOBREAK = 0"
  shows "\<exists>u'. dmx512suart_send_frame k memory flags dmxdata 0 u = Some u' \<and>
     q (txfifo u') = frame_head @ frame_break @ drop 8 memory"
proof -
  let ?ev = "frame_head @ frame_break @ drop 8 memory"
  have b: "length frame_break = 5" by (simp add: frame_break_def)
  have c: "dmx512suart_create_frame memory 128 flags dmxdata 0 = Some (-1, ?ev)"
    using assms(2,4,5) b
    by (simp add: dmx512suart_create_frame_def put_events_def arr_blit_def blit_def suart_event_data_inline_def
        data_inline_loop.simps [of _ _ _ _ 0] signed_divide_int_def sgn_if SUART_OCTETS_PER_INLINE_DATA_CHUNK_def)
  have m: "min (fifo_count (-1)) (128 - length (q (txfifo u))) = 128"
    using assms(3) by (simp add: fifo_count_def unsigned_minus_1_eq_mask mask_eq_exp_minus_1)
  have l: "length ?ev = 128" using assms(2) b by simp
  obtain f where "kfifo_in k (fifo_count (-1)) ?ev (txfifo u) = Some (128, f)" "q f = q (txfifo u) @ take 128 ?ev"
    using k m l unfolding kfifo_ok_def by (metis order_refl)
  then show ?thesis using c l assms(3)
    by (simp add: dmx512suart_send_frame_def suart_put_txevents_def suart_wakeup_def)
qed

theorem empty_frame_sends_garbage_witness:
  "\<exists>u'. dmx512suart_send_frame (list_kfifo 128) (replicate 128 STREAMUART_EVENT_SHUTDOWN) 0 [0] 0
       (suart_init (list_kfifo 128)) = Some u' \<and>
     txfifo u' = frame_head @ frame_break @ replicate 120 STREAMUART_EVENT_SHUTDOWN"
proof -
  have "dmx512_is_rdm_discover_reply [0] = Some False"
    by (simp add: dmx512_is_rdm_discover_reply_def arr_get_def rdm_const_defs)
  moreover have "txfifo (suart_init (list_kfifo 128)) = []" by (simp add: suart_init_def list_kfifo_def)
  ultimately show ?thesis
    using empty_frame_sends_garbage [OF list_kfifo_ok, of "replicate 128 STREAMUART_EVENT_SHUTDOWN"
        "suart_init (list_kfifo 128)" "[0]" 0] by auto
qed

end
