(* ===== verification/Rtuart_Buffer.thy ===== *)
theory Rtuart_Buffer
  imports Uart_Bus
begin

text \<open>
  The buffered UART interface of the test bench (\<^verbatim>\<open>src/src/uio-testbench/rtuart/\<close>): buffers with triggers
  (\<^verbatim>\<open>rtuart.h\<close>, \<^verbatim>\<open>rtuart.c\<close>), the state a driver keeps, and the callbacks of its client
  (\<^verbatim>\<open>rtuart_priv.h\<close>).

  Buffers are shared between the client and the driver: they live in a store and are passed by address. A
  callback works on the whole state \<open>'r\<close> of a driver, so that it can start and stop buffers and change notifications;
  \<open>r_client\<close> is the state of the client. \<^term>\<open>None\<close> is an access outside an array or through null.
  The types \<open>unsigned long\<close> and \<open>u32\<close>, the same type in the source, have 32 bits, as on the boards with these UARTs.
\<close>

section \<open>Controls, events and notifications\<close>

definition RTUART_CONTROL_LOOP :: u32 where "RTUART_CONTROL_LOOP = 1"
definition RTUART_CONTROL_BREAK :: u32 where "RTUART_CONTROL_BREAK = 2"
definition RTUART_CONTROL_RTS :: u32 where "RTUART_CONTROL_RTS = 4"
definition RTUART_CONTROL_DTR :: u32 where "RTUART_CONTROL_DTR = 8"
definition RTUART_CONTROL_OUT1 :: u32 where "RTUART_CONTROL_OUT1 = 0x10"
definition RTUART_CONTROL_OUT2 :: u32 where "RTUART_CONTROL_OUT2 = 0x20"

lemmas rt_control_defs = RTUART_CONTROL_LOOP_def RTUART_CONTROL_BREAK_def RTUART_CONTROL_RTS_def
  RTUART_CONTROL_DTR_def RTUART_CONTROL_OUT1_def RTUART_CONTROL_OUT2_def

definition RTUART_NOTIFY_TRANSMITTER_READY :: u32 where "RTUART_NOTIFY_TRANSMITTER_READY = 1"
definition RTUART_NOTIFY_TRANSMITTER_EMPTY :: u32 where "RTUART_NOTIFY_TRANSMITTER_EMPTY = 2"
definition RTUART_NOTIFY_RECEIVER_HASDATA :: u32 where "RTUART_NOTIFY_RECEIVER_HASDATA = 4"
definition RTUART_NOTIFY_RECEIVER_TIMEOUT :: u32 where "RTUART_NOTIFY_RECEIVER_TIMEOUT = 8"
definition RTUART_NOTIFY_RECEIVER_EVENT :: u32 where "RTUART_NOTIFY_RECEIVER_EVENT = 0x10"

lemmas rt_notify_defs = RTUART_NOTIFY_TRANSMITTER_READY_def RTUART_NOTIFY_TRANSMITTER_EMPTY_def
  RTUART_NOTIFY_RECEIVER_HASDATA_def RTUART_NOTIFY_RECEIVER_TIMEOUT_def RTUART_NOTIFY_RECEIVER_EVENT_def

definition RTUART_EV_BREAK :: u32 where "RTUART_EV_BREAK = 1"
definition RTUART_EV_CTS_CHANGE :: u32 where "RTUART_EV_CTS_CHANGE = 2"
definition RTUART_EV_DSR_CHANGE :: u32 where "RTUART_EV_DSR_CHANGE = 4"
definition RTUART_EV_DCD_CHANGE :: u32 where "RTUART_EV_DCD_CHANGE = 8"
definition RTUART_EV_RI_CHANGE :: u32 where "RTUART_EV_RI_CHANGE = 0x10"
definition RTUART_EV_OVERRUN_ERROR :: u32 where "RTUART_EV_OVERRUN_ERROR = 0x20"
definition RTUART_EV_FRAME_ERROR :: u32 where "RTUART_EV_FRAME_ERROR = 0x40"
definition RTUART_EV_PARITY_ERROR :: u32 where "RTUART_EV_PARITY_ERROR = 0x80"

section \<open>Buffers\<close>

record rtuart_buffer =
  rb_data :: "u8 list option"
  rb_size :: nat
  rb_validcount :: nat
  rb_transfered :: nat
  rb_triggermask :: u32
  rb_trigger :: "u32 list"

definition RTUART_MAX_TRIGGERS :: nat where "RTUART_MAX_TRIGGERS = 32"

text \<open>The array sizes: \<open>size\<close> octets of data and 32 triggers.\<close>

definition buffer_wf :: "rtuart_buffer \<Rightarrow> bool" where
  "buffer_wf b \<longleftrightarrow> (case rb_data b of None \<Rightarrow> True | Some d \<Rightarrow> length d = rb_size b) \<and>
     length (rb_trigger b) = RTUART_MAX_TRIGGERS"

section \<open>The driver's state\<close>

text \<open>\<open>struct rtuart\<close> with the fields that both drivers have; each adds its own.\<close>

record ('b, 'c) rtuart =
  r_bus :: 'b
  r_notify_mask :: u32
  r_base_clock :: u32
  r_tx_buffer :: addr
  r_rx_buffer :: addr
  r_in_irq :: bool
  r_buffers :: "addr \<rightharpoonup> rtuart_buffer"
  r_client :: 'c

definition get_buffer :: "addr \<Rightarrow> ('b, 'c, 'm) rtuart_scheme \<Rightarrow> rtuart_buffer option" where
  "get_buffer a s = (if a = 0 then None else r_buffers s a)"

definition put_buffer :: "addr \<Rightarrow> rtuart_buffer \<Rightarrow> ('b, 'c, 'm) rtuart_scheme \<Rightarrow> ('b, 'c, 'm) rtuart_scheme" where
  "put_buffer a b s = s\<lparr>r_buffers := (r_buffers s)(a \<mapsto> b)\<rparr>"

lemma get_put_buffer [simp]: "a \<noteq> 0 \<Longrightarrow> get_buffer a (put_buffer a b s) = Some b"
  by (simp add: get_buffer_def put_buffer_def)

lemma get_put_other [simp]: "a \<noteq> a' \<Longrightarrow> get_buffer a (put_buffer a' b s) = get_buffer a s"
  by (simp add: get_buffer_def put_buffer_def)

lemma put_buffer_sel [simp]:
  "r_bus (put_buffer a b s) = r_bus s" "r_notify_mask (put_buffer a b s) = r_notify_mask s"
  "r_tx_buffer (put_buffer a b s) = r_tx_buffer s" "r_rx_buffer (put_buffer a b s) = r_rx_buffer s"
  "r_in_irq (put_buffer a b s) = r_in_irq s" "r_client (put_buffer a b s) = r_client s"
  "r_base_clock (put_buffer a b s) = r_base_clock s"
  by (simp_all add: put_buffer_def)

lemma get_buffer_upd [simp]:
  "get_buffer a (s\<lparr>r_bus := x\<rparr>) = get_buffer a s" "get_buffer a (s\<lparr>r_notify_mask := n\<rparr>) = get_buffer a s"
  "get_buffer a (s\<lparr>r_tx_buffer := t\<rparr>) = get_buffer a s" "get_buffer a (s\<lparr>r_rx_buffer := r\<rparr>) = get_buffer a s"
  "get_buffer a (s\<lparr>r_in_irq := i\<rparr>) = get_buffer a s" "get_buffer a (s\<lparr>r_client := c\<rparr>) = get_buffer a s"
  by (simp_all add: get_buffer_def)

section \<open>Callbacks\<close>

type_synonym 'r buffer_cb = "(addr \<Rightarrow> 'r \<Rightarrow> 'r option) option"

record 'r rtuart_callbacks =
  cb_tx_start :: "'r buffer_cb"
  cb_tx_end1 :: "'r buffer_cb"
  cb_tx_end2 :: "'r buffer_cb"
  cb_input_change :: "(u32 \<Rightarrow> u32 \<Rightarrow> 'r \<Rightarrow> 'r option) option"
  cb_rx_err :: "(u32 \<Rightarrow> 'r \<Rightarrow> 'r option) option"
  cb_rx_char :: "(u16 \<Rightarrow> 'r \<Rightarrow> 'r option) option"
  cb_rx_end :: "'r buffer_cb"
  cb_rx_timeout :: "'r buffer_cb"
  cb_rx_trigger :: "(addr \<Rightarrow> u32 \<Rightarrow> 'r \<Rightarrow> 'r option) option"

text \<open>\<open>uart->cb\<close> may be null. The call functions test it.\<close>

definition rtuart_call_tx_start :: "'r rtuart_callbacks option \<Rightarrow> addr \<Rightarrow> 'r \<Rightarrow> 'r option" where
  "rtuart_call_tx_start cb buffer s = (case Option.bind cb cb_tx_start of Some f \<Rightarrow> f buffer s | None \<Rightarrow> Some s)"

definition rtuart_call_tx_end1 :: "'r rtuart_callbacks option \<Rightarrow> addr \<Rightarrow> 'r \<Rightarrow> 'r option" where
  "rtuart_call_tx_end1 cb buffer s = (case Option.bind cb cb_tx_end1 of Some f \<Rightarrow> f buffer s | None \<Rightarrow> Some s)"

definition rtuart_call_tx_end2 :: "'r rtuart_callbacks option \<Rightarrow> addr \<Rightarrow> 'r \<Rightarrow> 'r option" where
  "rtuart_call_tx_end2 cb buffer s = (case Option.bind cb cb_tx_end2 of Some f \<Rightarrow> f buffer s | None \<Rightarrow> Some s)"

definition rtuart_call_input_change ::
  "'r rtuart_callbacks option \<Rightarrow> u32 \<Rightarrow> u32 \<Rightarrow> 'r \<Rightarrow> 'r option" where
  "rtuart_call_input_change cb eventmask vals s =
     (case Option.bind cb cb_input_change of Some f \<Rightarrow> f eventmask vals s | None \<Rightarrow> Some s)"

definition rtuart_call_rx_char :: "'r rtuart_callbacks option \<Rightarrow> u16 \<Rightarrow> 'r \<Rightarrow> 'r option" where
  "rtuart_call_rx_char cb c s = (case Option.bind cb cb_rx_char of Some f \<Rightarrow> f c s | None \<Rightarrow> Some s)"

definition rtuart_call_rx_end :: "'r rtuart_callbacks option \<Rightarrow> addr \<Rightarrow> 'r \<Rightarrow> 'r option" where
  "rtuart_call_rx_end cb buffer s = (case Option.bind cb cb_rx_end of Some f \<Rightarrow> f buffer s | None \<Rightarrow> Some s)"

definition rtuart_call_rx_timeout :: "'r rtuart_callbacks option \<Rightarrow> addr \<Rightarrow> 'r \<Rightarrow> 'r option" where
  "rtuart_call_rx_timeout cb buffer s = (case Option.bind cb cb_rx_timeout of Some f \<Rightarrow> f buffer s | None \<Rightarrow> Some s)"

definition rtuart_call_rx_trigger ::
  "'r rtuart_callbacks option \<Rightarrow> addr \<Rightarrow> u32 \<Rightarrow> 'r \<Rightarrow> 'r option" where
  "rtuart_call_rx_trigger cb buffer triggermask s =
     (case Option.bind cb cb_rx_trigger of Some f \<Rightarrow> f buffer triggermask s | None \<Rightarrow> Some s)"

section \<open>The operations of a driver\<close>

text \<open>
  \<open>struct rtuart_ops\<close>: a driver may leave operations out. \<open>'r\<close> is the state of the driver. The calls of the
  client go through this table.
\<close>

record 'r rtuart_ops =
  op_set_baudrate :: "(u32 \<Rightarrow> 'r \<Rightarrow> 'r option) option"
  op_get_baudrate :: "('r \<Rightarrow> (u32 \<times> 'r) option) option"
  op_set_format :: "(int \<Rightarrow> char \<Rightarrow> int \<Rightarrow> 'r \<Rightarrow> 'r option) option"
  op_set_handshake :: "(int \<Rightarrow> 'r \<Rightarrow> 'r option) option"
  op_set_control :: "(u32 \<Rightarrow> 'r \<Rightarrow> 'r option) option"
  op_clr_control :: "(u32 \<Rightarrow> 'r \<Rightarrow> 'r option) option"
  op_get_control :: "('r \<Rightarrow> (u32 \<times> 'r) option) option"
  op_set_notify :: "(u32 \<Rightarrow> 'r \<Rightarrow> 'r option) option"
  op_clr_notify :: "(u32 \<Rightarrow> 'r \<Rightarrow> 'r option) option"
  op_get_notify :: "('r \<Rightarrow> u32) option"
  op_tx_start :: "(addr \<Rightarrow> 'r \<Rightarrow> 'r option) option"
  op_tx_stop :: "(addr \<Rightarrow> bool \<Rightarrow> 'r \<Rightarrow> (nat option \<times> 'r) option) option"
  op_tx_written :: "(addr \<Rightarrow> 'r \<Rightarrow> nat option) option"
  op_rx_start :: "(addr \<Rightarrow> 'r \<Rightarrow> 'r option) option"
  op_rx_stop :: "(addr \<Rightarrow> 'r \<Rightarrow> (int \<times> 'r) option) option"
  op_handle_irq :: "('r \<Rightarrow> 'r option) option"

definition rtuart_set_baudrate :: "'r rtuart_ops \<Rightarrow> u32 \<Rightarrow> 'r \<Rightarrow> 'r option" where
  "rtuart_set_baudrate ops baudrate u = (case op_set_baudrate ops of Some f \<Rightarrow> f baudrate u | None \<Rightarrow> Some u)"

text \<open>A query that the driver does not have leaves the variable of the caller as it is.\<close>

definition rtuart_get_baudrate :: "'r rtuart_ops \<Rightarrow> u32 \<Rightarrow> 'r \<Rightarrow> (u32 \<times> 'r) option" where
  "rtuart_get_baudrate ops baudrate u = (case op_get_baudrate ops of Some f \<Rightarrow> f u | None \<Rightarrow> Some (baudrate, u))"

definition rtuart_set_format :: "'r rtuart_ops \<Rightarrow> int \<Rightarrow> char \<Rightarrow> int \<Rightarrow> 'r \<Rightarrow> 'r option" where
  "rtuart_set_format ops databits parity stopbits u =
     (case op_set_format ops of Some f \<Rightarrow> f databits parity stopbits u | None \<Rightarrow> Some u)"

definition rtuart_set_handshake :: "'r rtuart_ops \<Rightarrow> int \<Rightarrow> 'r \<Rightarrow> 'r option" where
  "rtuart_set_handshake ops hs u = (case op_set_handshake ops of Some f \<Rightarrow> f hs u | None \<Rightarrow> Some u)"

definition rtuart_set_control :: "'r rtuart_ops \<Rightarrow> u32 \<Rightarrow> 'r \<Rightarrow> 'r option" where
  "rtuart_set_control ops to_set u = (case op_set_control ops of Some f \<Rightarrow> f to_set u | None \<Rightarrow> Some u)"

definition rtuart_clr_control :: "'r rtuart_ops \<Rightarrow> u32 \<Rightarrow> 'r \<Rightarrow> 'r option" where
  "rtuart_clr_control ops to_clr u = (case op_clr_control ops of Some f \<Rightarrow> f to_clr u | None \<Rightarrow> Some u)"

definition rtuart_get_control :: "'r rtuart_ops \<Rightarrow> u32 \<Rightarrow> 'r \<Rightarrow> (u32 \<times> 'r) option" where
  "rtuart_get_control ops ctrl u = (case op_get_control ops of Some f \<Rightarrow> f u | None \<Rightarrow> Some (ctrl, u))"

text \<open>The test is on another operation than the call; calling an operation that is not there is a fault.\<close>

definition rtuart_set_notify :: "'r rtuart_ops \<Rightarrow> u32 \<Rightarrow> 'r \<Rightarrow> 'r option" where
  "rtuart_set_notify ops notify_mask u =
     (if op_get_notify ops \<noteq> None then do { f \<leftarrow> op_set_notify ops; f notify_mask u } else Some u)"

definition rtuart_clr_notify :: "'r rtuart_ops \<Rightarrow> u32 \<Rightarrow> 'r \<Rightarrow> 'r option" where
  "rtuart_clr_notify ops notify_mask u = (case op_clr_notify ops of Some f \<Rightarrow> f notify_mask u | None \<Rightarrow> Some u)"

definition rtuart_get_notify :: "'r rtuart_ops \<Rightarrow> u32 \<Rightarrow> 'r \<Rightarrow> u32" where
  "rtuart_get_notify ops notify_mask u = (case op_get_notify ops of Some f \<Rightarrow> f u | None \<Rightarrow> notify_mask)"

definition rtuart_tx_start :: "'r rtuart_ops \<Rightarrow> addr \<Rightarrow> 'r \<Rightarrow> 'r option" where
  "rtuart_tx_start ops buffer u = (case op_tx_start ops of Some f \<Rightarrow> f buffer u | None \<Rightarrow> Some u)"

definition rtuart_tx_stop :: "'r rtuart_ops \<Rightarrow> addr \<Rightarrow> bool \<Rightarrow> 'r \<Rightarrow> (nat option \<times> 'r) option" where
  "rtuart_tx_stop ops buffer want u = (case op_tx_stop ops of Some f \<Rightarrow> f buffer want u | None \<Rightarrow> Some (None, u))"

definition rtuart_tx_written :: "'r rtuart_ops \<Rightarrow> addr \<Rightarrow> 'r \<Rightarrow> int option" where
  "rtuart_tx_written ops buffer u = (case op_tx_written ops of Some f \<Rightarrow> map_option int (f buffer u) | None \<Rightarrow> Some (-1))"

definition rtuart_rx_start :: "'r rtuart_ops \<Rightarrow> addr \<Rightarrow> 'r \<Rightarrow> 'r option" where
  "rtuart_rx_start ops buffer u = (case op_rx_start ops of Some f \<Rightarrow> f buffer u | None \<Rightarrow> Some u)"

definition rtuart_rx_stop :: "'r rtuart_ops \<Rightarrow> addr \<Rightarrow> 'r \<Rightarrow> (int \<times> 'r) option" where
  "rtuart_rx_stop ops buffer u = (case op_rx_stop ops of Some f \<Rightarrow> f buffer u | None \<Rightarrow> Some (-1, u))"

text \<open>Here the table itself may be missing.\<close>

definition rtuart_handle_irq :: "'r rtuart_ops option \<Rightarrow> 'r \<Rightarrow> 'r option" where
  "rtuart_handle_irq ops u = (case Option.bind ops op_handle_irq of Some f \<Rightarrow> f u | None \<Rightarrow> Some u)"

section \<open>Triggers\<close>

definition trigger_bit :: "nat \<Rightarrow> u32" where
  "trigger_bit i = push_bit i 1"

definition rtuart_buffer_set_trigger :: "rtuart_buffer option \<Rightarrow> int \<Rightarrow> int \<Rightarrow> (int \<times> rtuart_buffer option) option" where
  "rtuart_buffer_set_trigger buffer triggerno position = (case buffer of
     None \<Rightarrow> Some (-1, None)
   | Some b \<Rightarrow>
       if triggerno \<ge> int RTUART_MAX_TRIGGERS then Some (-1, buffer)
       else if triggerno < 0 then None
       else do {
         t \<leftarrow> arr_set (rb_trigger b) (nat triggerno) (word_of_int position);
         Some (0, Some (b\<lparr>rb_triggermask := rb_triggermask b OR trigger_bit (nat triggerno), rb_trigger := t\<rparr>)) })"

text \<open>The triggers that \<open>reached\<close> selects, of those that are set.\<close>

definition triggers_reached :: "(u32 \<Rightarrow> bool) \<Rightarrow> rtuart_buffer \<Rightarrow> u32 option" where
  "triggers_reached reached b = for_each [0..<RTUART_MAX_TRIGGERS] (\<lambda>i m.
     if rb_triggermask b AND trigger_bit i \<noteq> 0
     then do { t \<leftarrow> arr_get (rb_trigger b) i; Some (if reached t then m OR trigger_bit i else m) }
     else Some m) 0"

text \<open>A trigger fires when it is not below the number of octets.\<close>

definition rtuart_handle_trigger ::
  "('b, 'c, 'm) rtuart_scheme rtuart_callbacks \<Rightarrow> addr \<Rightarrow> ('b, 'c, 'm) rtuart_scheme \<Rightarrow> ('b, 'c, 'm) rtuart_scheme option" where
  "rtuart_handle_trigger cb a s = do {
     b \<leftarrow> get_buffer a s;
     if rb_triggermask b \<noteq> 0 then do {
       m \<leftarrow> triggers_reached (\<lambda>t. unat t \<ge> rb_validcount b) b;
       if m \<noteq> 0 then rtuart_call_rx_trigger (Some cb) a m (put_buffer a (b\<lparr>rb_triggermask := rb_triggermask b AND NOT m\<rparr>) s)
       else Some s }
     else Some s }"

definition rtuart_rx_buffer_valid :: "('b, 'c, 'm) rtuart_scheme \<Rightarrow> addr \<Rightarrow> bool" where
  "rtuart_rx_buffer_valid s a = True"

definition rtuart_handle_buffer_fill ::
  "('b, 'c, 'm) rtuart_scheme rtuart_callbacks \<Rightarrow> addr \<Rightarrow> ('b, 'c, 'm) rtuart_scheme \<Rightarrow> ('b, 'c, 'm) rtuart_scheme option" where
  "rtuart_handle_buffer_fill cb a s = do {
     s \<leftarrow> rtuart_handle_trigger cb a s;
     b \<leftarrow> get_buffer a s;
     if rtuart_rx_buffer_valid s a \<and> rb_validcount b \<ge> rb_size b
     then rtuart_call_rx_end (Some cb) a s else Some s }"

definition rtuart_buffer_put ::
  "('b, 'c, 'm) rtuart_scheme rtuart_callbacks \<Rightarrow> addr \<Rightarrow> u8 \<Rightarrow> ('b, 'c, 'm) rtuart_scheme \<Rightarrow> ('b, 'c, 'm) rtuart_scheme option" where
  "rtuart_buffer_put cb a c s = do {
     b \<leftarrow> get_buffer a s;
     (case rb_data b of
        Some d \<Rightarrow>
          if rb_validcount b < rb_size b then do {
            d \<leftarrow> arr_set d (rb_validcount b) c;
            rtuart_handle_buffer_fill cb a (put_buffer a (b\<lparr>rb_data := Some d, rb_validcount := rb_validcount b + 1\<rparr>) s) }
          else Some s
      | None \<Rightarrow> Some s) }"

text \<open>The loop of \<open>rtuart_buffer_put_vector\<close>, with the octets not yet copied.\<close>

fun put_octets :: "u8 list \<Rightarrow> nat \<Rightarrow> u8 list \<Rightarrow> nat \<Rightarrow> (u8 list \<times> nat) option" where
  "put_octets d sz [] v = Some (d, v)"
| "put_octets d sz (c # cs) v = (
     if v < sz then do { d \<leftarrow> arr_set d v c; put_octets d sz cs (v + 1) } else Some (d, v))"

definition rtuart_buffer_put_vector ::
  "('b, 'c, 'm) rtuart_scheme rtuart_callbacks \<Rightarrow> addr \<Rightarrow> u8 list \<Rightarrow> ('b, 'c, 'm) rtuart_scheme \<Rightarrow> (int \<times> ('b, 'c, 'm) rtuart_scheme) option" where
  "rtuart_buffer_put_vector cb a cs s = do {
     b \<leftarrow> get_buffer a s;
     (case rb_data b of
        Some d \<Rightarrow> do {
          (d, v) \<leftarrow> put_octets d (rb_size b) cs (rb_validcount b);
          s' \<leftarrow> rtuart_handle_buffer_fill cb a (put_buffer a (b\<lparr>rb_data := Some d, rb_validcount := v\<rparr>) s);
          Some (int v - int (rb_validcount b), s') }
      | None \<Rightarrow> Some (-1, s)) }"

section \<open>Steps that both drivers have\<close>

definition buffer_is_complete :: "addr \<Rightarrow> ('b, 'c, 'm) rtuart_scheme \<Rightarrow> bool option" where
  "buffer_is_complete a s = (if a = 0 then Some True else do {
     b \<leftarrow> get_buffer a s;
     Some (rb_transfered b \<ge> rb_size b \<or> rb_transfered b \<ge> rb_validcount b) })"

text \<open>The end of a transmit buffer: it stays active while the client waits for the transmitter to run empty.\<close>

definition rt_tx_complete ::
  "('b, 'c, 'm) rtuart_scheme rtuart_callbacks option \<Rightarrow> ('b, 'c, 'm) rtuart_scheme \<Rightarrow> ('b, 'c, 'm) rtuart_scheme option" where
  "rt_tx_complete cb s = do {
     let b = r_tx_buffer s;
     s \<leftarrow> rtuart_call_tx_end1 cb b
            (s\<lparr>r_notify_mask := r_notify_mask s AND NOT RTUART_NOTIFY_TRANSMITTER_READY, r_tx_buffer := 0\<rparr>);
     Some (if r_tx_buffer s = 0 \<and> r_notify_mask s AND RTUART_NOTIFY_TRANSMITTER_EMPTY \<noteq> 0
           then s\<lparr>r_tx_buffer := b\<rparr> else s) }"

text \<open>A trigger fires when more octets than its value have been received.\<close>

definition rt_rx_triggers ::
  "('b, 'c, 'm) rtuart_scheme rtuart_callbacks option \<Rightarrow> addr \<Rightarrow> ('b, 'c, 'm) rtuart_scheme \<Rightarrow> ('b, 'c, 'm) rtuart_scheme option" where
  "rt_rx_triggers cb a s = do {
     b \<leftarrow> get_buffer a s;
     if rb_triggermask b \<noteq> 0 then do {
       m \<leftarrow> triggers_reached (\<lambda>t. rb_transfered b > unat t) b;
       if m \<noteq> 0 then do {
         s \<leftarrow> rtuart_call_rx_trigger cb a m s;
         b \<leftarrow> get_buffer a s;
         Some (put_buffer a (b\<lparr>rb_triggermask := rb_triggermask b AND NOT m\<rparr>) s) }
       else Some s }
     else Some s }"

section \<open>Transmit buffers\<close>

text \<open>A buffer to send: its octets, and those not yet sent.\<close>

definition tx_octets :: "rtuart_buffer \<Rightarrow> u8 list" where
  "tx_octets b = (case rb_data b of Some d \<Rightarrow> take (min (rb_validcount b) (rb_size b)) d | None \<Rightarrow> [])"

definition sendable :: "rtuart_buffer \<Rightarrow> bool" where
  "sendable b \<longleftrightarrow> rb_validcount b \<le> rb_size b \<and> (\<exists>d. rb_data b = Some d \<and> length d = rb_size b)"

lemma tx_octets_position [simp]: "tx_octets (b\<lparr>rb_transfered := n\<rparr>) = tx_octets b" "sendable (b\<lparr>rb_transfered := n\<rparr>) = sendable b"
  by (simp_all add: tx_octets_def sendable_def split: option.split)

lemma length_tx_octets: "sendable b \<Longrightarrow> length (tx_octets b) = rb_validcount b"
  by (auto simp: sendable_def tx_octets_def)

section \<open>Storing octets\<close>

lemma put_octets_spec:
  assumes "length d = sz" and "v \<le> sz"
  shows "put_octets d sz cs v = Some (blit d v (take (sz - v) cs), v + min (length cs) (sz - v))"
  using assms
proof (induction cs arbitrary: d v)
  case Nil
  then show ?case by (simp add: blit_def)
next
  case (Cons c cs)
  show ?case
  proof (cases "v < sz")
    case True
    obtain k where k: "sz - v = Suc k" using True by (metis Suc_diff_Suc)
    then have k2: "sz - Suc v = k" by simp
    have "blit (d[v := c]) (v + 1) (take (sz - (v + 1)) cs) = blit d v (take (sz - v) (c # cs))"
      using k k2 True Cons.prems(1) by (simp add: blit_def take_Suc_conv_app_nth)
    then show ?thesis using Cons.IH [of "d[v := c]" "v + 1"] Cons.prems True k k2 by (simp add: arr_set_def)
  next
    case False
    then show ?thesis using Cons.prems by (simp add: blit_def)
  qed
qed

end
