(* ===== verification/Rtuart_16550.thy ===== *)
theory Rtuart_16550
  imports Rtuart_Buffer
begin

text \<open>
  The 16550 driver behind the buffered UART interface
  (\<^verbatim>\<open>src/src/uio-testbench/rtuart/rtuart_pc16c550.c\<close>): transmission from and reception into buffers of the
  client, controls, notifications and the interrupt handler.

  \<open>rd\<close> and \<open>wr\<close> are the bus operations; an access that fails is a fault. The loops of the interrupt
  handler depend on the chip and on the client; not returning is \<^term>\<open>None\<close>.
\<close>

record ('b, 'c) rtuart_16550 = "('b, 'c) rtuart" +
  r_shadow_fcr :: u8

section \<open>Registers\<close>

definition rt_read :: "'b reg_read \<Rightarrow> int \<Rightarrow> ('b, 'c) rtuart_16550 \<Rightarrow> (u8 \<times> ('b, 'c) rtuart_16550) option" where
  "rt_read rd reg s = do { (v, b) \<leftarrow> rd reg (r_bus s); Some (v, s\<lparr>r_bus := b\<rparr>) }"

definition rt_write :: "'b reg_write \<Rightarrow> int \<Rightarrow> u8 \<Rightarrow> ('b, 'c) rtuart_16550 \<Rightarrow> ('b, 'c) rtuart_16550 option" where
  "rt_write wr reg v s = do { b \<leftarrow> wr reg v (r_bus s); Some (s\<lparr>r_bus := b\<rparr>) }"

definition RT_IER_RECEIVED_DATA_AVAILABLE :: u8 where "RT_IER_RECEIVED_DATA_AVAILABLE = 1"
definition RT_IER_TRANSMITTER_HOLDING_REGISTER_EMPTY :: u8 where "RT_IER_TRANSMITTER_HOLDING_REGISTER_EMPTY = 2"
definition RT_IER_RECEIVER_LINE_STATUS :: u8 where "RT_IER_RECEIVER_LINE_STATUS = 4"
definition RT_IER_MODEM_STATUS :: u8 where "RT_IER_MODEM_STATUS = 8"
definition RT_IIR_IRQ_NONE :: u8 where "RT_IIR_IRQ_NONE = 1"
definition RT_IIR_IRQ_RECEIVER_LINE_STATUS :: u8 where "RT_IIR_IRQ_RECEIVER_LINE_STATUS = 6"
definition RT_IIR_IRQ_RECEIVED_DATA_AVAILABLE :: u8 where "RT_IIR_IRQ_RECEIVED_DATA_AVAILABLE = 4"
definition RT_IIR_IRQ_CHARACTER_TIMEOUT :: u8 where "RT_IIR_IRQ_CHARACTER_TIMEOUT = 0xC"
definition RT_IIR_IRQ_TRANSMITTER_HOLDING_EMPTY :: u8 where "RT_IIR_IRQ_TRANSMITTER_HOLDING_EMPTY = 2"
definition RT_IIR_IRQ_MODEM_STATUS :: u8 where "RT_IIR_IRQ_MODEM_STATUS = 0"
definition RT_IIR_IRQ_MASK :: u8 where "RT_IIR_IRQ_MASK = 0xf"
definition RT_FCR_FIFO_ENABLE :: u8 where "RT_FCR_FIFO_ENABLE = 1"
definition RT_FCR_RCVR_FIFO_RESET :: u8 where "RT_FCR_RCVR_FIFO_RESET = 2"
definition RT_FCR_XMIT_FIFO_RESET :: u8 where "RT_FCR_XMIT_FIFO_RESET = 4"
definition RT_FCR_RCVR_TRIGGER_4BYTE :: u8 where "RT_FCR_RCVR_TRIGGER_4BYTE = 0x40"
definition RT_LCR_WLS0 :: u8 where "RT_LCR_WLS0 = 1"
definition RT_LCR_WLS1 :: u8 where "RT_LCR_WLS1 = 2"
definition RT_LCR_STB :: u8 where "RT_LCR_STB = 4"
definition RT_LCR_PEN :: u8 where "RT_LCR_PEN = 8"
definition RT_LCR_EPS :: u8 where "RT_LCR_EPS = 0x10"
definition RT_LCR_STICK_PARITY :: u8 where "RT_LCR_STICK_PARITY = 0x20"
definition RT_LCR_BREAK :: u8 where "RT_LCR_BREAK = 0x40"
definition RT_LCR_DLAB :: u8 where "RT_LCR_DLAB = 0x80"
definition RT_MCR_DTR :: u8 where "RT_MCR_DTR = 1"
definition RT_MCR_RTS :: u8 where "RT_MCR_RTS = 2"
definition RT_MCR_OUT1 :: u8 where "RT_MCR_OUT1 = 4"
definition RT_MCR_OUT2 :: u8 where "RT_MCR_OUT2 = 8"
definition RT_MCR_LOOP :: u8 where "RT_MCR_LOOP = 8"
definition RT_LSR_DATA_READY :: u8 where "RT_LSR_DATA_READY = 1"
definition RT_LSR_OVERRUN_ERROR :: u8 where "RT_LSR_OVERRUN_ERROR = 2"
definition RT_LSR_PARITY_ERROR :: u8 where "RT_LSR_PARITY_ERROR = 4"
definition RT_LSR_FRAMING_ERROR :: u8 where "RT_LSR_FRAMING_ERROR = 8"
definition RT_LSR_BREAK_INTERRUPT :: u8 where "RT_LSR_BREAK_INTERRUPT = 0x10"
definition RT_LSR_THRE :: u8 where "RT_LSR_THRE = 0x20"
definition RT_LSR_TRANSMITTER_EMPTY :: u8 where "RT_LSR_TRANSMITTER_EMPTY = 0x40"

lemmas rt_lcr_defs = RT_LCR_WLS0_def RT_LCR_WLS1_def RT_LCR_STB_def RT_LCR_PEN_def RT_LCR_EPS_def
  RT_LCR_STICK_PARITY_def RT_LCR_BREAK_def RT_LCR_DLAB_def
lemmas rt_mcr_defs = RT_MCR_DTR_def RT_MCR_RTS_def RT_MCR_OUT1_def RT_MCR_OUT2_def RT_MCR_LOOP_def
lemmas rt_ier_defs = RT_IER_RECEIVED_DATA_AVAILABLE_def RT_IER_TRANSMITTER_HOLDING_REGISTER_EMPTY_def
  RT_IER_RECEIVER_LINE_STATUS_def RT_IER_MODEM_STATUS_def

section \<open>FIFO, baud rate and format\<close>

definition rt_flush_rx_fifo :: "'b reg_write \<Rightarrow> ('b, 'c) rtuart_16550 \<Rightarrow> ('b, 'c) rtuart_16550 option" where
  "rt_flush_rx_fifo wr s = rt_write wr PC16550_REG_FCR (r_shadow_fcr s OR RT_FCR_RCVR_FIFO_RESET) s"

definition rt_enable_fifo :: "'b reg_write \<Rightarrow> ('b, 'c) rtuart_16550 \<Rightarrow> ('b, 'c) rtuart_16550 option" where
  "rt_enable_fifo wr s = (let s = s\<lparr>r_shadow_fcr := r_shadow_fcr s OR RT_FCR_FIFO_ENABLE\<rparr> in
     rt_write wr PC16550_REG_FCR (r_shadow_fcr s) s)"

definition rt_set_baudrate ::
  "'b reg_read \<Rightarrow> 'b reg_write \<Rightarrow> u32 \<Rightarrow> ('b, 'c) rtuart_16550 \<Rightarrow> ('b, 'c) rtuart_16550 option" where
  "rt_set_baudrate rd wr baudrate s = (
     if baudrate = 0 then None
     else do {
       let divisor = ((r_base_clock s div 16) div baudrate);
       (lcr, s) \<leftarrow> rt_read rd PC16550_REG_LCR s;
       s \<leftarrow> rt_write wr PC16550_REG_LCR (lcr OR RT_LCR_DLAB) s;
       s \<leftarrow> rt_write wr PC16550_REG_DLL (ucast divisor) s;
       s \<leftarrow> rt_write wr PC16550_REG_DLM (ucast (drop_bit 8 divisor)) s;
       rt_write wr PC16550_REG_LCR lcr s })"

definition rt_get_baudrate ::
  "'b reg_read \<Rightarrow> 'b reg_write \<Rightarrow> ('b, 'c) rtuart_16550 \<Rightarrow> (u32 \<times> ('b, 'c) rtuart_16550) option" where
  "rt_get_baudrate rd wr s = do {
     (lcr, s) \<leftarrow> rt_read rd PC16550_REG_LCR s;
     s \<leftarrow> rt_write wr PC16550_REG_LCR (lcr OR RT_LCR_DLAB) s;
     (lsb, s) \<leftarrow> rt_read rd PC16550_REG_DLL s;
     (msb, s) \<leftarrow> rt_read rd PC16550_REG_DLM s;
     s \<leftarrow> rt_write wr PC16550_REG_LCR lcr s;
     let divisor = (push_bit 8 (ucast msb) + ucast lsb :: u32);
     if divisor = 0 then None else Some ((r_base_clock s div 16) div divisor, s) }"

definition rt_format_bits :: "int \<Rightarrow> char \<Rightarrow> int \<Rightarrow> u8" where
  "rt_format_bits databits parity stopbits =
     [0, RT_LCR_WLS0, RT_LCR_WLS1, RT_LCR_WLS0 OR RT_LCR_WLS1] ! unat (word_of_int (databits - 5) AND (3 :: u32)) OR
     (if stopbits > 1 then RT_LCR_STB else 0) OR
     (if parity = CHR ''e'' then RT_LCR_PEN OR RT_LCR_EPS
      else if parity = CHR ''o'' then RT_LCR_PEN
      else if parity = CHR ''1'' then RT_LCR_STICK_PARITY OR RT_LCR_PEN
      else if parity = CHR ''0'' then RT_LCR_STICK_PARITY OR RT_LCR_PEN OR RT_LCR_EPS
      else 0)"

definition rt_set_format ::
  "'b reg_read \<Rightarrow> 'b reg_write \<Rightarrow> int \<Rightarrow> char \<Rightarrow> int \<Rightarrow> ('b, 'c) rtuart_16550 \<Rightarrow> ('b, 'c) rtuart_16550 option" where
  "rt_set_format rd wr databits parity stopbits s = do {
     (lcr, s) \<leftarrow> rt_read rd PC16550_REG_LCR s;
     let lcr = lcr AND NOT (RT_LCR_WLS0 OR RT_LCR_WLS1 OR RT_LCR_STB OR RT_LCR_PEN OR RT_LCR_EPS OR RT_LCR_STICK_PARITY);
     rt_write wr PC16550_REG_LCR (lcr OR rt_format_bits databits parity stopbits) s }"

definition rt_get_format ::
  "'b reg_read \<Rightarrow> ('b, 'c) rtuart_16550 \<Rightarrow> ((int \<times> char \<times> int) \<times> ('b, 'c) rtuart_16550) option" where
  "rt_get_format rd s = do {
     (lcr, s) \<leftarrow> rt_read rd PC16550_REG_LCR s;
     let p = lcr AND (RT_LCR_STICK_PARITY OR RT_LCR_PEN OR RT_LCR_EPS);
     Some ((uint (lcr AND 3) + 5,
            if p = RT_LCR_STICK_PARITY OR RT_LCR_PEN OR RT_LCR_EPS then CHR ''0''
            else if p = RT_LCR_STICK_PARITY OR RT_LCR_PEN then CHR ''1''
            else if p = RT_LCR_PEN OR RT_LCR_EPS then CHR ''e''
            else if p = RT_LCR_PEN then CHR ''o'' else CHR ''n'',
            if lcr AND RT_LCR_STB \<noteq> 0 then 2 else 1), s) }"

text \<open>\<open>set_handshake\<close> and \<open>rx_set_timeout\<close> do nothing.\<close>

definition rt_set_handshake :: "int \<Rightarrow> ('b, 'c) rtuart_16550 \<Rightarrow> ('b, 'c) rtuart_16550" where
  "rt_set_handshake hs s = s"

section \<open>Controls\<close>

definition mcr_of_control :: "u32 \<Rightarrow> u8" where
  "mcr_of_control c =
     (if c AND RTUART_CONTROL_RTS \<noteq> 0 then RT_MCR_RTS else 0) OR
     (if c AND RTUART_CONTROL_DTR \<noteq> 0 then RT_MCR_DTR else 0) OR
     (if c AND RTUART_CONTROL_OUT1 \<noteq> 0 then RT_MCR_OUT1 else 0) OR
     (if c AND RTUART_CONTROL_OUT2 \<noteq> 0 then RT_MCR_OUT2 else 0) OR
     (if c AND RTUART_CONTROL_LOOP \<noteq> 0 then RT_MCR_LOOP else 0)"

definition change_reg ::
  "'b reg_read \<Rightarrow> 'b reg_write \<Rightarrow> int \<Rightarrow> (u8 \<Rightarrow> u8) \<Rightarrow> ('b, 'c) rtuart_16550 \<Rightarrow> ('b, 'c) rtuart_16550 option" where
  "change_reg rd wr reg f s = do {
     (old, s) \<leftarrow> rt_read rd reg s;
     if f old \<noteq> old then rt_write wr reg (f old) s else Some s }"

definition CONTROL_MCR_MASK :: u32 where
  "CONTROL_MCR_MASK = RTUART_CONTROL_RTS OR RTUART_CONTROL_DTR OR RTUART_CONTROL_OUT1 OR RTUART_CONTROL_OUT2 OR
     RTUART_CONTROL_LOOP"

definition rt_set_control ::
  "'b reg_read \<Rightarrow> 'b reg_write \<Rightarrow> u32 \<Rightarrow> ('b, 'c) rtuart_16550 \<Rightarrow> ('b, 'c) rtuart_16550 option" where
  "rt_set_control rd wr control_mask s = do {
     s \<leftarrow> (if control_mask AND RTUART_CONTROL_BREAK \<noteq> 0
          then change_reg rd wr PC16550_REG_LCR (\<lambda>lcr. lcr OR RT_LCR_BREAK) s else Some s);
     (if control_mask AND CONTROL_MCR_MASK \<noteq> 0
      then change_reg rd wr PC16550_REG_MCR (\<lambda>mcr. mcr OR mcr_of_control control_mask) s else Some s) }"

definition rt_clr_control ::
  "'b reg_read \<Rightarrow> 'b reg_write \<Rightarrow> u32 \<Rightarrow> ('b, 'c) rtuart_16550 \<Rightarrow> ('b, 'c) rtuart_16550 option" where
  "rt_clr_control rd wr control_mask s = do {
     s \<leftarrow> (if control_mask AND RTUART_CONTROL_BREAK \<noteq> 0
          then change_reg rd wr PC16550_REG_LCR (\<lambda>lcr. lcr AND NOT RT_LCR_BREAK) s else Some s);
     (if control_mask AND CONTROL_MCR_MASK \<noteq> 0
      then change_reg rd wr PC16550_REG_MCR (\<lambda>mcr. mcr AND NOT (mcr_of_control control_mask)) s else Some s) }"

definition rt_get_control :: "'b reg_read \<Rightarrow> ('b, 'c) rtuart_16550 \<Rightarrow> (u32 \<times> ('b, 'c) rtuart_16550) option" where
  "rt_get_control rd s = do {
     (lcr, s) \<leftarrow> rt_read rd PC16550_REG_LCR s;
     (mcr, s) \<leftarrow> rt_read rd PC16550_REG_MCR s;
     Some ((if lcr AND RT_LCR_BREAK \<noteq> 0 then RTUART_CONTROL_BREAK else 0) OR
           (if mcr AND RT_MCR_RTS \<noteq> 0 then RTUART_CONTROL_RTS else 0) OR
           (if mcr AND RT_MCR_DTR \<noteq> 0 then RTUART_CONTROL_DTR else 0) OR
           (if mcr AND RT_MCR_OUT1 \<noteq> 0 then RTUART_CONTROL_OUT1 else 0) OR
           (if mcr AND RT_MCR_OUT2 \<noteq> 0 then RTUART_CONTROL_OUT2 else 0) OR
           (if mcr AND RT_MCR_LOOP \<noteq> 0 then RTUART_CONTROL_LOOP else 0), s) }"

section \<open>Notifications\<close>

definition rt_ier_of :: "u32 \<Rightarrow> u8" where
  "rt_ier_of n =
     (if n AND RTUART_NOTIFY_TRANSMITTER_READY \<noteq> 0 then RT_IER_TRANSMITTER_HOLDING_REGISTER_EMPTY else 0) OR
     (if n AND RTUART_NOTIFY_TRANSMITTER_EMPTY \<noteq> 0 then RT_IER_TRANSMITTER_HOLDING_REGISTER_EMPTY else 0) OR
     (if n AND RTUART_NOTIFY_RECEIVER_HASDATA \<noteq> 0 then RT_IER_RECEIVED_DATA_AVAILABLE else 0) OR
     (if n AND RTUART_NOTIFY_RECEIVER_TIMEOUT \<noteq> 0 then RT_IER_RECEIVED_DATA_AVAILABLE else 0) OR
     (if n AND RTUART_NOTIFY_RECEIVER_EVENT \<noteq> 0 then RT_IER_RECEIVER_LINE_STATUS OR RT_IER_MODEM_STATUS else 0)"

definition rt_update_notification :: "'b reg_write \<Rightarrow> ('b, 'c) rtuart_16550 \<Rightarrow> ('b, 'c) rtuart_16550 option" where
  "rt_update_notification wr s = rt_write wr PC16550_REG_IER (rt_ier_of (r_notify_mask s)) s"

definition rt_change_notify :: "'b reg_write \<Rightarrow> u32 \<Rightarrow> ('b, 'c) rtuart_16550 \<Rightarrow> ('b, 'c) rtuart_16550 option" where
  "rt_change_notify wr new_notify s = (
     if r_notify_mask s \<noteq> new_notify then
       (let s = s\<lparr>r_notify_mask := new_notify\<rparr> in if \<not> r_in_irq s then rt_update_notification wr s else Some s)
     else Some s)"

definition rt_set_notify :: "'b reg_write \<Rightarrow> u32 \<Rightarrow> ('b, 'c) rtuart_16550 \<Rightarrow> ('b, 'c) rtuart_16550 option" where
  "rt_set_notify wr notify s = rt_change_notify wr (r_notify_mask s OR notify) s"

definition rt_clr_notify :: "'b reg_write \<Rightarrow> u32 \<Rightarrow> ('b, 'c) rtuart_16550 \<Rightarrow> ('b, 'c) rtuart_16550 option" where
  "rt_clr_notify wr notify s = rt_change_notify wr (r_notify_mask s AND NOT notify) s"

definition rt_get_notify :: "('b, 'c) rtuart_16550 \<Rightarrow> u32" where
  "rt_get_notify s = r_notify_mask s"

section \<open>Starting and stopping buffers\<close>

definition rt_tx_written :: "addr \<Rightarrow> ('b, 'c) rtuart_16550 \<Rightarrow> nat option" where
  "rt_tx_written a s = map_option rb_transfered (get_buffer a s)"

text \<open>\<open>want\<close> tells whether the caller passed a pointer for the number of octets already written.\<close>

definition rt_tx_stop :: "addr \<Rightarrow> bool \<Rightarrow> ('b, 'c) rtuart_16550 \<Rightarrow> (nat option \<times> ('b, 'c) rtuart_16550) option" where
  "rt_tx_stop a want s = (
     if r_tx_buffer s = a then do {
       n \<leftarrow> (if want then map_option Some (rt_tx_written (r_tx_buffer s) s) else Some None);
       Some (n, s\<lparr>r_tx_buffer := 0\<rparr>) }
     else Some (None, s))"

definition rt_tx_start :: "'b reg_write \<Rightarrow> addr \<Rightarrow> ('b, 'c) rtuart_16550 \<Rightarrow> ('b, 'c) rtuart_16550 option" where
  "rt_tx_start wr a s = do {
     b \<leftarrow> get_buffer a s;
     let s = put_buffer a (b\<lparr>rb_transfered := 0\<rparr>) s;
     s \<leftarrow> (if r_tx_buffer s \<noteq> 0 then map_option snd (rt_tx_stop a True s) else Some s);
     if r_tx_buffer s = 0 then rt_set_notify wr RTUART_NOTIFY_TRANSMITTER_READY (s\<lparr>r_tx_buffer := a\<rparr>)
     else Some s }"

definition rt_rx_stop :: "'b reg_write \<Rightarrow> addr \<Rightarrow> ('b, 'c) rtuart_16550 \<Rightarrow> (int \<times> ('b, 'c) rtuart_16550) option" where
  "rt_rx_stop wr a s = do {
     s \<leftarrow> rt_clr_notify wr (RTUART_NOTIFY_RECEIVER_HASDATA OR RTUART_NOTIFY_RECEIVER_TIMEOUT) (s\<lparr>r_rx_buffer := 0\<rparr>);
     Some (0, s) }"

definition rt_rx_start :: "'b reg_write \<Rightarrow> addr \<Rightarrow> ('b, 'c) rtuart_16550 \<Rightarrow> ('b, 'c) rtuart_16550 option" where
  "rt_rx_start wr a s = do {
     s \<leftarrow> (if r_rx_buffer s \<noteq> 0 then map_option snd (rt_rx_stop wr (r_rx_buffer s) s) else Some s);
     b \<leftarrow> get_buffer a s;
     rt_set_notify wr (RTUART_NOTIFY_RECEIVER_HASDATA OR RTUART_NOTIFY_RECEIVER_TIMEOUT)
       ((put_buffer a (b\<lparr>rb_transfered := 0\<rparr>) s)\<lparr>r_rx_buffer := a\<rparr>) }"

section \<open>Transmitting\<close>

text \<open>At most eight octets, the first argument counts down.\<close>

fun copy_octets :: "nat \<Rightarrow> 'b reg_write \<Rightarrow> addr \<Rightarrow> ('b, 'c) rtuart_16550 \<Rightarrow> (nat \<times> ('b, 'c) rtuart_16550) option" where
  "copy_octets 0 wr a s = Some (0, s)"
| "copy_octets (Suc n) wr a s = do {
     b \<leftarrow> get_buffer a s;
     if rb_transfered b \<ge> rb_validcount b \<or> rb_transfered b \<ge> rb_size b then Some (0, s)
     else do {
       d \<leftarrow> rb_data b;
       c \<leftarrow> arr_get d (rb_transfered b);
       s \<leftarrow> rt_write wr PC16550_REG_THR c (put_buffer a (b\<lparr>rb_transfered := rb_transfered b + 1\<rparr>) s);
       (k, s) \<leftarrow> copy_octets n wr a s;
       Some (k + 1, s) } }"

definition copy_from_buffer_to_transmitter ::
  "'b reg_write \<Rightarrow> addr \<Rightarrow> int \<Rightarrow> ('b, 'c) rtuart_16550 \<Rightarrow> (nat \<times> ('b, 'c) rtuart_16550) option" where
  "copy_from_buffer_to_transmitter wr a cnt s = copy_octets (min (nat cnt) 8) wr a s"

partial_function (option) rt_thre_loop ::
  "('b, 'c) rtuart_16550 rtuart_callbacks option \<Rightarrow> 'b reg_write \<Rightarrow> int \<Rightarrow> ('b, 'c) rtuart_16550 \<Rightarrow> ('b, 'c) rtuart_16550 option" where
  "rt_thre_loop cb wr available_space s = do {
     s \<leftarrow> (if r_tx_buffer s \<noteq> 0 then do {
            b \<leftarrow> get_buffer (r_tx_buffer s) s;
            if rb_transfered b = 0 then rtuart_call_tx_start cb (r_tx_buffer s) s else Some s }
          else Some s);
     (copied, s) \<leftarrow> copy_from_buffer_to_transmitter wr (r_tx_buffer s) available_space s;
     let available_space = available_space - int copied;
     complete \<leftarrow> buffer_is_complete (r_tx_buffer s) s;
     s \<leftarrow> (if complete then rt_tx_complete cb s else Some s);
     if copied > 0 \<and> available_space > 0 \<and> r_notify_mask s AND RTUART_NOTIFY_TRANSMITTER_READY \<noteq> 0 \<and> r_tx_buffer s \<noteq> 0
     then do {
       b \<leftarrow> get_buffer (r_tx_buffer s) s;
       if rb_transfered b = 0 then rt_thre_loop cb wr available_space s else Some s }
     else Some s }"

section \<open>Receiving\<close>

definition rt_rx_no_buffer ::
  "('b, 'c) rtuart_16550 rtuart_callbacks option \<Rightarrow> 'b reg_read \<Rightarrow> 'b reg_write \<Rightarrow> ('b, 'c) rtuart_16550 \<Rightarrow> ('b, 'c) rtuart_16550 option" where
  "rt_rx_no_buffer cb rd wr s = (case cb of
     None \<Rightarrow> None
   | Some c \<Rightarrow>
       if cb_rx_char c \<noteq> None then do {
         (v, s) \<leftarrow> rt_read rd PC16550_REG_RBR s;
         rtuart_call_rx_char cb (ucast v) (s\<lparr>r_notify_mask := r_notify_mask s AND NOT RTUART_NOTIFY_RECEIVER_HASDATA\<rparr>) }
       else rt_flush_rx_fifo wr s)"

definition rt_handle_received_data ::
  "('b, 'c) rtuart_16550 rtuart_callbacks option \<Rightarrow> 'b reg_read \<Rightarrow> 'b reg_write \<Rightarrow> addr \<Rightarrow> bool \<Rightarrow> ('b, 'c) rtuart_16550 \<Rightarrow> ('b, 'c) rtuart_16550 option" where
  "rt_handle_received_data cb rd wr a due_to_timeout s = do {
     full \<leftarrow> (if a = 0 then Some True else do {
               b \<leftarrow> get_buffer a s;
               Some (rb_transfered b \<ge> rb_validcount b \<or> rb_transfered b \<ge> rb_size b) });
     if full then rt_rx_no_buffer cb rd wr s
     else do {
       b \<leftarrow> get_buffer a s;
       (v, s) \<leftarrow> rt_read rd PC16550_REG_RBR s;
       d \<leftarrow> rb_data b;
       d \<leftarrow> arr_set d (rb_transfered b) v;
       let s = put_buffer a (b\<lparr>rb_data := Some d, rb_transfered := rb_transfered b + 1\<rparr>) s;
       s \<leftarrow> rt_rx_triggers cb a s;
       b \<leftarrow> get_buffer a s;
       if rb_transfered b \<ge> rb_validcount b \<or> rb_transfered b \<ge> rb_size b
       then rtuart_call_rx_end cb a
              (s\<lparr>r_rx_buffer := 0, r_notify_mask := r_notify_mask s AND NOT RTUART_NOTIFY_RECEIVER_HASDATA\<rparr>)
       else if due_to_timeout then rtuart_call_rx_timeout cb a s else Some s } }"

section \<open>Events\<close>

definition uart16c550_msr_to_event :: "u8 \<Rightarrow> u32" where
  "uart16c550_msr_to_event msr =
     (if bit msr 0 then RTUART_EV_CTS_CHANGE else 0) OR (if bit msr 1 then RTUART_EV_DSR_CHANGE else 0) OR
     (if bit msr 2 then RTUART_EV_RI_CHANGE else 0) OR (if bit msr 3 then RTUART_EV_DCD_CHANGE else 0)"

definition uart16c550_lsr_to_event :: "u8 \<Rightarrow> u32" where
  "uart16c550_lsr_to_event lsr =
     (if lsr AND RT_LSR_OVERRUN_ERROR \<noteq> 0 then RTUART_EV_OVERRUN_ERROR else 0) OR
     (if lsr AND RT_LSR_PARITY_ERROR \<noteq> 0 then RTUART_EV_PARITY_ERROR else 0) OR
     (if lsr AND RT_LSR_FRAMING_ERROR \<noteq> 0 then RTUART_EV_FRAME_ERROR else 0) OR
     (if lsr AND RT_LSR_BREAK_INTERRUPT \<noteq> 0 then RTUART_EV_BREAK else 0)"

section \<open>The interrupt handler\<close>

text \<open>The line status is only read with some causes; it keeps its value, at first that of the stack,
  otherwise.\<close>

definition update_iir_and_lsr ::
  "'b reg_read \<Rightarrow> u8 \<Rightarrow> ('b, 'c) rtuart_16550 \<Rightarrow> (u8 \<times> u8 \<times> ('b, 'c) rtuart_16550) option" where
  "update_iir_and_lsr rd lsr s = do {
     (iir, s) \<leftarrow> rt_read rd PC16550_REG_IIR s;
     if iir AND RT_IIR_IRQ_MASK \<in> {RT_IIR_IRQ_RECEIVED_DATA_AVAILABLE, RT_IIR_IRQ_CHARACTER_TIMEOUT, RT_IIR_IRQ_NONE,
          RT_IIR_IRQ_RECEIVER_LINE_STATUS}
     then do { (lsr, s) \<leftarrow> rt_read rd PC16550_REG_LSR s; Some (iir, lsr, s) }
     else Some (iir, lsr, s) }"

definition is_rx_cause :: "u8 \<Rightarrow> bool" where
  "is_rx_cause iir \<longleftrightarrow> iir AND RT_IIR_IRQ_MASK = RT_IIR_IRQ_RECEIVED_DATA_AVAILABLE \<or>
     iir AND RT_IIR_IRQ_MASK = RT_IIR_IRQ_CHARACTER_TIMEOUT"

partial_function (option) rt_receive_loop ::
  "('b, 'c) rtuart_16550 rtuart_callbacks option \<Rightarrow> 'b reg_read \<Rightarrow> 'b reg_write \<Rightarrow> u8 \<Rightarrow> u8 \<Rightarrow> ('b, 'c) rtuart_16550 \<Rightarrow>
   (u8 \<times> u8 \<times> ('b, 'c) rtuart_16550) option" where
  "rt_receive_loop cb rd wr iir lsr s = do {
     s \<leftarrow> rt_handle_received_data cb rd wr (r_rx_buffer s) (iir AND RT_IIR_IRQ_MASK = RT_IIR_IRQ_CHARACTER_TIMEOUT) s;
     (iir, lsr, s) \<leftarrow> update_iir_and_lsr rd lsr s;
     if is_rx_cause iir \<or> lsr AND RT_LSR_DATA_READY \<noteq> 0
     then rt_receive_loop cb rd wr iir lsr s else Some (iir, lsr, s) }"

definition rt_modem_status ::
  "('b, 'c) rtuart_16550 rtuart_callbacks option \<Rightarrow> 'b reg_read \<Rightarrow> ('b, 'c) rtuart_16550 \<Rightarrow> ('b, 'c) rtuart_16550 option" where
  "rt_modem_status cb rd s = do {
     (msr, s) \<leftarrow> rt_read rd PC16550_REG_MSR s;
     let event = uart16c550_msr_to_event msr;
     if event \<noteq> 0 then rtuart_call_input_change cb event (uart16c550_msr_to_event (drop_bit 4 msr)) s else Some s }"

text \<open>\<open>uart->cb->rx_err\<close> is called without a test.\<close>

definition rt_line_status ::
  "('b, 'c) rtuart_16550 rtuart_callbacks option \<Rightarrow> 'b reg_read \<Rightarrow> u8 \<Rightarrow> ('b, 'c) rtuart_16550 \<Rightarrow> ('b, 'c) rtuart_16550 option" where
  "rt_line_status cb rd lsr s = do {
     s \<leftarrow> (if lsr AND RT_LSR_BREAK_INTERRUPT \<noteq> 0
          then map_option snd (rt_read rd PC16550_REG_RBR s) else Some s);
     let event = uart16c550_lsr_to_event lsr;
     if event \<noteq> 0 then do { f \<leftarrow> Option.bind cb cb_rx_err; f event s } else Some s }"

text \<open>No cause is left: the result tells whether the handler has to wait for the transmitter.\<close>

definition rt_idle ::
  "('b, 'c) rtuart_16550 rtuart_callbacks option \<Rightarrow> 'b reg_read \<Rightarrow> 'b reg_write \<Rightarrow> u8 \<Rightarrow> ('b, 'c) rtuart_16550 \<Rightarrow>
   (bool \<times> ('b, 'c) rtuart_16550) option" where
  "rt_idle cb rd wr lsr s = do {
     all_sent \<leftarrow> (if r_notify_mask s AND RTUART_NOTIFY_TRANSMITTER_EMPTY \<noteq> 0
                 then buffer_is_complete (r_tx_buffer s) s else Some False);
     if all_sent then
       (if lsr AND RT_LSR_TRANSMITTER_EMPTY \<noteq> 0 then do {
          let b = r_tx_buffer s;
          s \<leftarrow> rtuart_call_tx_end2 cb b
                 (s\<lparr>r_notify_mask := r_notify_mask s AND NOT RTUART_NOTIFY_TRANSMITTER_EMPTY, r_tx_buffer := 0\<rparr>);
          s \<leftarrow> (if r_tx_buffer s \<noteq> 0 then do {
                 (ier, s) \<leftarrow> rt_read rd PC16550_REG_IER s;
                 rt_write wr PC16550_REG_IER (ier AND NOT RT_IER_TRANSMITTER_HOLDING_REGISTER_EMPTY) s }
               else Some s);
          Some (False, s) }
        else Some (lsr AND RT_LSR_THRE \<noteq> 0, s))
     else Some (False, s) }"

definition rt_irq_leave :: "'b reg_write \<Rightarrow> ('b, 'c) rtuart_16550 \<Rightarrow> ('b, 'c) rtuart_16550 option" where
  "rt_irq_leave wr s = do { s \<leftarrow> rt_update_notification wr s; Some (s\<lparr>r_in_irq := False\<rparr>) }"

text \<open>One round of the handler's loop: whether there is another one, with which cause and line status.\<close>

definition rt_irq_round ::
  "('b, 'c) rtuart_16550 rtuart_callbacks option \<Rightarrow> 'b reg_read \<Rightarrow> 'b reg_write \<Rightarrow> u8 \<Rightarrow> u8 \<Rightarrow> ('b, 'c) rtuart_16550 \<Rightarrow>
   (bool \<times> u8 \<times> u8 \<times> ('b, 'c) rtuart_16550) option" where
  "rt_irq_round cb rd wr iir lsr s = (
     let cause = iir AND RT_IIR_IRQ_MASK;
         next = (\<lambda>s. map_option (Pair True) (update_iir_and_lsr rd lsr s));
         leave = (\<lambda>s. map_option (\<lambda>s. (False, iir, lsr, s)) (rt_irq_leave wr s))
     in if is_rx_cause iir then
          (if r_notify_mask s AND RTUART_NOTIFY_RECEIVER_HASDATA \<noteq> 0
           then map_option (Pair True) (rt_receive_loop cb rd wr iir lsr s)
           else do { s \<leftarrow> rt_flush_rx_fifo wr s; next s })
        else if cause = RT_IIR_IRQ_TRANSMITTER_HOLDING_EMPTY then do {
          s \<leftarrow> (if r_notify_mask s AND RTUART_NOTIFY_TRANSMITTER_READY \<noteq> 0 then rt_thre_loop cb wr 16 s else Some s);
          next s }
        else if cause = RT_IIR_IRQ_MODEM_STATUS then do { s \<leftarrow> rt_modem_status cb rd s; next s }
        else if cause = RT_IIR_IRQ_NONE then do {
          (wait, s) \<leftarrow> rt_idle cb rd wr lsr s;
          if wait then next s else leave s }
        else if cause = RT_IIR_IRQ_RECEIVER_LINE_STATUS then do { s \<leftarrow> rt_line_status cb rd lsr s; next s }
        else leave s)"

partial_function (option) rt_irq_loop ::
  "('b, 'c) rtuart_16550 rtuart_callbacks option \<Rightarrow> 'b reg_read \<Rightarrow> 'b reg_write \<Rightarrow> u8 \<Rightarrow> u8 \<Rightarrow> ('b, 'c) rtuart_16550 \<Rightarrow> ('b, 'c) rtuart_16550 option" where
  "rt_irq_loop cb rd wr iir lsr s = do {
     (again, iir, lsr, s) \<leftarrow> rt_irq_round cb rd wr iir lsr s;
     if again then rt_irq_loop cb rd wr iir lsr s else Some s }"

definition rt_handle_irq ::
  "('b, 'c) rtuart_16550 rtuart_callbacks option \<Rightarrow> 'b reg_read \<Rightarrow> 'b reg_write \<Rightarrow> u8 \<Rightarrow> ('b, 'c) rtuart_16550 \<Rightarrow> ('b, 'c) rtuart_16550 option" where
  "rt_handle_irq cb rd wr stack s = do {
     (iir, lsr, s) \<leftarrow> update_iir_and_lsr rd stack (s\<lparr>r_in_irq := True\<rparr>);
     rt_irq_loop cb rd wr iir lsr s }"

text \<open>The table of the driver; \<open>stack\<close> is the value the line status of the handler starts with.\<close>

definition rtuart_pc16c550_ops ::
  "('b, 'c) rtuart_16550 rtuart_callbacks option \<Rightarrow> 'b reg_read \<Rightarrow> 'b reg_write \<Rightarrow> u8 \<Rightarrow> ('b, 'c) rtuart_16550 rtuart_ops" where
  "rtuart_pc16c550_ops cb rd wr stack =
     \<lparr>op_set_baudrate = Some (rt_set_baudrate rd wr), op_get_baudrate = Some (rt_get_baudrate rd wr),
      op_set_format = Some (rt_set_format rd wr), op_set_handshake = Some (\<lambda>hs s. Some (rt_set_handshake hs s)),
      op_set_control = Some (rt_set_control rd wr), op_clr_control = Some (rt_clr_control rd wr),
      op_get_control = Some (rt_get_control rd), op_set_notify = Some (rt_set_notify wr),
      op_clr_notify = Some (rt_clr_notify wr), op_get_notify = Some rt_get_notify,
      op_tx_start = Some (rt_tx_start wr), op_tx_stop = Some rt_tx_stop, op_tx_written = Some rt_tx_written,
      op_rx_start = Some (rt_rx_start wr), op_rx_stop = Some (rt_rx_stop wr),
      op_handle_irq = Some (rt_handle_irq cb rd wr stack)\<rparr>"

section \<open>Creation\<close>

text \<open>The store of buffers and the client are not the driver's. A failed allocation is \<open>None\<close> inside. The
  memory comes from \<open>malloc\<close>: nobody sets the two buffer pointers, they have the values that \<open>tx\<close> and \<open>rx\<close>
  stand for.\<close>

definition rtuart_pc16c550_create ::
  "'b reg_write \<Rightarrow> (addr \<times> addr) option \<Rightarrow> 'b \<Rightarrow> u32 \<Rightarrow> (addr \<rightharpoonup> rtuart_buffer) \<Rightarrow> 'c \<Rightarrow> ('b, 'c) rtuart_16550 option option" where
  "rtuart_pc16c550_create wr memory bus base_clock_hz buffers client = (case memory of
     None \<Rightarrow> Some None
   | Some (tx, rx) \<Rightarrow> do {
       let s = \<lparr>r_bus = bus, r_notify_mask = 0, r_base_clock = base_clock_hz, r_tx_buffer = tx, r_rx_buffer = rx,
                r_in_irq = False, r_buffers = buffers, r_client = client, r_shadow_fcr = 0\<rparr>;
       s \<leftarrow> rt_update_notification wr s;
       let fcr = RT_FCR_FIFO_ENABLE OR RT_FCR_RCVR_TRIGGER_4BYTE;
       let s = s\<lparr>r_shadow_fcr := fcr\<rparr>;
       s \<leftarrow> rt_write wr PC16550_REG_FCR (fcr OR RT_FCR_RCVR_FIFO_RESET OR RT_FCR_XMIT_FIFO_RESET) s;
       s \<leftarrow> rt_write wr PC16550_REG_FCR fcr s;
       Some (Some s) })"

section \<open>Transmission\<close>

text \<open>Writing octets to the transmitter, on the bus.\<close>

fun write_octets :: "'b reg_write \<Rightarrow> u8 list \<Rightarrow> 'b \<Rightarrow> 'b option" where
  "write_octets wr [] b = Some b"
| "write_octets wr (c # cs) b = do { b \<leftarrow> wr PC16550_REG_THR c b; write_octets wr cs b }"

lemma write_octets_append:
  "write_octets wr (xs @ ys) b = Option.bind (write_octets wr xs b) (write_octets wr ys)"
proof (induction xs arbitrary: b)
  case (Cons x xs)
  then show ?case by (cases "wr PC16550_REG_THR x b") simp_all
qed simp

lemma copy_octets_spec:
  assumes "a \<noteq> 0" and "get_buffer a s = Some b" and "sendable b"
    and "write_octets wr (take n (drop (rb_transfered b) (tx_octets b))) (r_bus s) = Some bus"
    and "k = min n (rb_validcount b - rb_transfered b)"
  shows "copy_octets n wr a s = Some (k, (put_buffer a (b\<lparr>rb_transfered := rb_transfered b + k\<rparr>) s)\<lparr>r_bus := bus\<rparr>)"
  using assms(2-5)
proof (induction n arbitrary: s b k)
  case 0
  then show ?case using assms(1) by (simp add: put_buffer_def get_buffer_def fun_upd_idem)
next
  case (Suc n)
  obtain d where d: "rb_data b = Some d" "length d = rb_size b" using Suc.prems(2) by (auto simp: sendable_def)
  have v: "rb_validcount b \<le> rb_size b" using Suc.prems(2) by (simp add: sendable_def)
  show ?case
  proof (cases "rb_transfered b < rb_validcount b")
    case False
    then have "k = 0" "drop (rb_transfered b) (tx_octets b) = []"
      using Suc.prems(4) length_tx_octets [OF Suc.prems(2)] by auto
    then show ?thesis using Suc.prems(1,3) False assms(1) by (simp add: put_buffer_def get_buffer_def fun_upd_idem)
  next
    case True
    let ?b = "b\<lparr>rb_transfered := rb_transfered b + 1\<rparr>"
    have t: "tx_octets ?b = tx_octets b" "sendable ?b" using Suc.prems(2) by (auto simp: tx_octets_def sendable_def)
    have c: "drop (rb_transfered b) (tx_octets b) = d ! rb_transfered b # drop (rb_transfered b + 1) (tx_octets b)"
      using True v d by (simp add: tx_octets_def Cons_nth_drop_Suc [symmetric])
    obtain bus1 where b1: "wr PC16550_REG_THR (d ! rb_transfered b) (r_bus s) = Some bus1"
        "write_octets wr (take n (drop (rb_transfered b + 1) (tx_octets b))) bus1 = Some bus"
      using Suc.prems(3) c by (auto simp: bind_eq_Some)
    let ?s = "(put_buffer a ?b s)\<lparr>r_bus := bus1\<rparr>"
    have g: "get_buffer a ?s = Some ?b" using assms(1) by simp
    have w: "write_octets wr (take n (drop (rb_transfered ?b) (tx_octets ?b))) (r_bus ?s) = Some bus"
      using b1(2) t(1) by simp
    obtain j where j: "k = Suc j" "j = min n (rb_validcount ?b - rb_transfered ?b)" using Suc.prems(4) True by (cases k) auto
    have "copy_octets n wr a ?s = Some (j, (put_buffer a (?b\<lparr>rb_transfered := rb_transfered ?b + j\<rparr>) ?s)\<lparr>r_bus := bus\<rparr>)"
      by (rule Suc.IH [OF g t(2) w j(2)])
    then show ?thesis using Suc.prems(1) True v d b1(1) unfolding j(1)
      by (simp add: rt_write_def arr_get_def put_buffer_def)
  qed
qed

lemma and_swap: "(x AND y) AND z = (x AND z) AND (y :: u32)"
  by (rule bit_eqI) (auto simp: bit_simps)

text \<open>
  A transmitter interrupt sends up to eight octets; what follows the last one is the client's \<open>tx_end1\<close> and the choice
  whether the buffer stays active (\<open>rt_tx_complete\<close>). The client may do anything at the start of the buffer that leaves the
  driver alone, and at its end anything but starting another buffer.
\<close>

definition tx_sent :: "nat \<Rightarrow> 'b \<Rightarrow> addr \<Rightarrow> rtuart_buffer \<Rightarrow> ('b, 'c) rtuart_16550 \<Rightarrow> ('b, 'c) rtuart_16550" where
  "tx_sent n bus a b s = (put_buffer a (b\<lparr>rb_transfered := n\<rparr>) s)\<lparr>r_bus := bus\<rparr>"

lemma thre_round:
  assumes "r_tx_buffer s = a" and "a \<noteq> 0" and "get_buffer a s = Some b" and "sendable b"
    and "rb_transfered b < rb_validcount b"
    and start: "\<And>s. rtuart_call_tx_start cb a s = Some s"
    and "write_octets wr (take 8 (drop (rb_transfered b) (tx_octets b))) (r_bus s) = Some bus"
    and "k = min 8 (rb_validcount b - rb_transfered b)"
    and finish: "rb_transfered b + k = rb_validcount b \<Longrightarrow> rt_tx_complete cb (tx_sent (rb_validcount b) bus a b s) = Some e \<and>
      r_notify_mask e AND RTUART_NOTIFY_TRANSMITTER_READY = 0"
  shows "rt_thre_loop cb wr 16 s =
     Some (if rb_transfered b + k = rb_validcount b then e else tx_sent (rb_transfered b + k) bus a b s)"
proof -
  define t where "t = tx_sent (rb_transfered b + k) bus a b s"
  let ?full = "rb_transfered b + k = rb_validcount b"
  have k: "0 < k" using assms(5,8) by simp
  have st: "(if r_tx_buffer s \<noteq> 0 then do {
            b \<leftarrow> get_buffer (r_tx_buffer s) s;
            if rb_transfered b = 0 then rtuart_call_tx_start cb (r_tx_buffer s) s else Some s }
          else Some s) = Some s"
    using assms(1-3) start by simp
  have c: "copy_from_buffer_to_transmitter wr a 16 s = Some (k, t)"
    using copy_octets_spec [OF assms(2-4,7,8)] by (simp add: copy_from_buffer_to_transmitter_def t_def tx_sent_def)
  have t: "get_buffer a t = Some (b\<lparr>rb_transfered := rb_transfered b + k\<rparr>)" "r_tx_buffer t = a"
    using assms(1,2) by (simp_all add: t_def tx_sent_def)
  have v: "rb_validcount b \<le> rb_size b" using assms(4) by (simp add: sendable_def)
  have comp: "buffer_is_complete a t = Some ?full"
    using assms(2,5,8) t(1) v by (auto simp: buffer_is_complete_def)
  show ?thesis
    unfolding rt_thre_loop.simps [of cb wr 16 s] st using assms(1) c comp t k finish by (simp add: t_def)
qed

fun thre_interrupts :: "('b, 'c) rtuart_16550 rtuart_callbacks option \<Rightarrow> nat \<Rightarrow> 'b reg_write \<Rightarrow> ('b, 'c) rtuart_16550 \<Rightarrow>
    ('b, 'c) rtuart_16550 option" where
  "thre_interrupts cb 0 wr s = Some s"
| "thre_interrupts cb (Suc n) wr s = do { s \<leftarrow> rt_thre_loop cb wr 16 s; thre_interrupts cb n wr s }"

lemma thre_interrupts_send:
  assumes "a \<noteq> 0" and start: "\<And>s. rtuart_call_tx_start cb a s = Some s"
    and "r_tx_buffer s = a" and "get_buffer a s = Some b" and "sendable b" and "rb_transfered b < rb_validcount b"
    and "write_octets wr (drop (rb_transfered b) (tx_octets b)) (r_bus s) = Some bus"
    and "n = (rb_validcount b - rb_transfered b + 7) div 8"
    and "rt_tx_complete cb (tx_sent (rb_validcount b) bus a b s) = Some e"
    and "r_notify_mask e AND RTUART_NOTIFY_TRANSMITTER_READY = 0"
  shows "thre_interrupts cb n wr s = Some e"
  using assms(3-9)
proof (induction "rb_validcount b - rb_transfered b" arbitrary: s b n rule: less_induct)
  case less
  let ?r = "rb_validcount b - rb_transfered b"
  let ?rest = "drop (rb_transfered b) (tx_octets b)"
  have "write_octets wr (take 8 ?rest @ drop 8 ?rest) (r_bus s) = Some bus" using less.prems(5) by (simp only: append_take_drop_id)
  then obtain bus1 where b1: "write_octets wr (take 8 ?rest) (r_bus s) = Some bus1" "write_octets wr (drop 8 ?rest) bus1 = Some bus"
    unfolding write_octets_append by (auto simp: bind_eq_Some)
  note round = thre_round [OF less.prems(1) assms(1) less.prems(2-4) start b1(1) refl]
  show ?case
  proof (cases "?r \<le> 8")
    case True
    then have n: "n = Suc 0" using less.prems(4,6) by simp
    have "length ?rest \<le> 8" using True length_tx_octets [OF less.prems(3)] by simp
    then have bus: "bus1 = bus" using b1(2) by simp
    have "rt_thre_loop cb wr 16 s = Some e" using round [of e] less.prems(4,7) assms(10) True by (simp add: bus)
    then show ?thesis using n by simp
  next
    case False
    let ?b = "b\<lparr>rb_transfered := rb_transfered b + 8\<rparr>"
    let ?s = "tx_sent (rb_transfered b + 8) bus1 a b s"
    have adv: "rt_thre_loop cb wr 16 s = Some ?s" using round [of e] False by simp
    have tx: "tx_octets ?b = tx_octets b" "sendable ?b"
      using less.prems(3) by (auto simp: tx_octets_def sendable_def)
    obtain m where m: "n = Suc m" "m = (rb_validcount ?b - rb_transfered ?b + 7) div 8"
      using less.prems(6) False by (auto simp: div_if [of "?r + 7"])
    have "write_octets wr (drop (rb_transfered ?b) (tx_octets ?b)) (r_bus ?s) = Some bus"
      using b1(2) tx(1) by (simp add: add.commute tx_sent_def)
    moreover have "tx_sent (rb_validcount ?b) bus a ?b ?s = tx_sent (rb_validcount b) bus a b s"
      by (simp add: tx_sent_def put_buffer_def)
    ultimately have "thre_interrupts cb m wr ?s = Some e"
      using less.hyps [of ?b ?s m] less.prems(1,7) False tx(2) m(2) assms(1) by (simp add: tx_sent_def)
    then show ?thesis using m(1) adv by simp
  qed
qed

lemma tx_start_idle:
  assumes "a \<noteq> 0" and "get_buffer a s = Some b" and "r_tx_buffer s = 0"
  shows "rt_tx_start wr a s = Some s1 \<Longrightarrow> r_tx_buffer s1 = a \<and>
     r_notify_mask s1 = r_notify_mask s OR RTUART_NOTIFY_TRANSMITTER_READY \<and>
     get_buffer a s1 = Some (b\<lparr>rb_transfered := 0\<rparr>)"
  using assms
  by (auto simp: rt_tx_start_def rt_set_notify_def rt_change_notify_def rt_update_notification_def rt_write_def
      bind_eq_Some Let_def split: if_splits)

text \<open>C28. A buffer handed to an idle transmitter is sent completely, with or without a client: with a chip that takes the
  octets and a client whose \<open>tx_start\<close> leaves the driver alone, one transmitter interrupt per eight octets writes all valid octets of
  the buffer in order, and the last of them calls \<open>tx_end1\<close> with the buffer given back and the notification of a ready transmitter
  off. When \<open>tx_end1\<close> (which must not start another buffer) then asks to be told of an empty transmitter, as the DMX512 port
  does, or that was asked for before, the buffer stays active; otherwise it is released. A buffer that is started while another one is
  being sent is not taken over.\<close>

theorem rt_buffer_transmitted:
  assumes "a \<noteq> 0" and "get_buffer a s = Some b" and "sendable b" and "0 < rb_validcount b" and "r_tx_buffer s = 0"
    and "\<And>s. rtuart_call_tx_start cb a s = Some s"
    and "rt_tx_start wr a s = Some s1" and "write_octets wr (tx_octets b) (r_bus s1) = Some bus"
    and "t = (put_buffer a (b\<lparr>rb_transfered := rb_validcount b\<rparr>) s1)\<lparr>r_bus := bus,
      r_notify_mask := r_notify_mask s AND NOT RTUART_NOTIFY_TRANSMITTER_READY, r_tx_buffer := 0\<rparr>"
    and "rtuart_call_tx_end1 cb a t = Some e" and "r_notify_mask e AND RTUART_NOTIFY_TRANSMITTER_READY = 0"
  shows "r_tx_buffer s1 = a \<and> r_notify_mask s1 = r_notify_mask s OR RTUART_NOTIFY_TRANSMITTER_READY \<and>
     thre_interrupts cb ((rb_validcount b + 7) div 8) wr s1 =
       Some (if r_tx_buffer e = 0 \<and> r_notify_mask e AND RTUART_NOTIFY_TRANSMITTER_EMPTY \<noteq> 0 then e\<lparr>r_tx_buffer := a\<rparr> else e) \<and>
     rt_tx_written a t = Some (rb_validcount b) \<and>
     (\<forall>a' b'. a' \<noteq> 0 \<longrightarrow> a' \<noteq> a \<longrightarrow> get_buffer a' s1 = Some b' \<longrightarrow>
       rt_tx_start wr a' s1 = Some (put_buffer a' (b'\<lparr>rb_transfered := 0\<rparr>) s1))"
proof -
  let ?b = "b\<lparr>rb_transfered := 0\<rparr>"
  let ?e = "if r_tx_buffer e = 0 \<and> r_notify_mask e AND RTUART_NOTIFY_TRANSMITTER_EMPTY \<noteq> 0 then e\<lparr>r_tx_buffer := a\<rparr> else e"
  have s1: "r_tx_buffer s1 = a" "r_notify_mask s1 = r_notify_mask s OR RTUART_NOTIFY_TRANSMITTER_READY"
      "get_buffer a s1 = Some ?b"
    using assms(7) tx_start_idle [OF assms(1,2,5)] by auto
  have m: "(x OR RTUART_NOTIFY_TRANSMITTER_READY) AND NOT RTUART_NOTIFY_TRANSMITTER_READY = x AND NOT RTUART_NOTIFY_TRANSMITTER_READY" for x
    by (rule bit_eqI) (auto simp: bit_simps)
  have tx: "sendable ?b" "tx_octets ?b = tx_octets b" using assms(3) by (auto simp: sendable_def tx_octets_def)
  have "rt_tx_complete cb (tx_sent (rb_validcount ?b) bus a ?b s1) = Some ?e"
    using assms(9,10) s1(1,2) m by (simp add: rt_tx_complete_def tx_sent_def put_buffer_def)
  then have t: "thre_interrupts cb ((rb_validcount b + 7) div 8) wr s1 = Some ?e"
    using assms(1,4,6,8,11) tx s1(1,3) by (intro thre_interrupts_send [where b = ?b]) simp_all
  have busy: "rt_tx_start wr a' s1 = Some (put_buffer a' (b'\<lparr>rb_transfered := 0\<rparr>) s1)"
    if "a' \<noteq> 0" "a' \<noteq> a" "get_buffer a' s1 = Some b'" for a' b'
    using that assms(1) s1(1) by (simp add: rt_tx_start_def rt_tx_stop_def Let_def)
  show ?thesis using s1(1,2) t busy assms(1,9) by (simp add: rt_tx_written_def)
qed

text \<open>A chip that logs what is written to the transmitter, and a driver with a buffer of nine octets.\<close>

definition log_write :: "u8 list reg_write" where
  "log_write r v b = Some (if r = PC16550_REG_THR then b @ [v] else b)"

definition demo_rt_buffer :: rtuart_buffer where
  "demo_rt_buffer = \<lparr>rb_data = Some (replicate 9 5), rb_size = 9, rb_validcount = 9, rb_transfered = 0,
     rb_triggermask = 0, rb_trigger = replicate 32 0\<rparr>"

definition demo_rtuart :: "(u8 list, unit) rtuart_16550" where
  "demo_rtuart = \<lparr>r_bus = [], r_notify_mask = 0, r_base_clock = 0, r_tx_buffer = 0, r_rx_buffer = 0, r_in_irq = False,
     r_buffers = [1 \<mapsto> demo_rt_buffer], r_client = (), r_shadow_fcr = 0\<rparr>"

lemma demo_rt_facts:
  "get_buffer 1 demo_rtuart = Some demo_rt_buffer" "sendable demo_rt_buffer" "0 < rb_validcount demo_rt_buffer"
  "r_tx_buffer demo_rtuart = 0" "r_notify_mask demo_rtuart AND RTUART_NOTIFY_TRANSMITTER_EMPTY = 0"
  "rb_validcount demo_rt_buffer = 9" "tx_octets demo_rt_buffer = replicate 9 5" "r_bus demo_rtuart = []"
  by (simp_all add: demo_rtuart_def demo_rt_buffer_def get_buffer_def sendable_def tx_octets_def)

lemma log_write_octets: "write_octets log_write cs b = Some (b @ cs)"
  by (induction cs arbitrary: b) (simp_all add: log_write_def)

text \<open>A client that asks at the end of a buffer to be told of an empty transmitter.\<close>

definition demo_tx_client :: "(u8 list, unit) rtuart_16550 rtuart_callbacks" where
  "demo_tx_client = \<lparr>cb_tx_start = None, cb_tx_end1 = Some (\<lambda>a s. Some (s\<lparr>r_notify_mask := r_notify_mask s OR RTUART_NOTIFY_TRANSMITTER_EMPTY\<rparr>)),
     cb_tx_end2 = None, cb_input_change = None, cb_rx_err = None, cb_rx_char = None, cb_rx_end = None, cb_rx_timeout = None,
     cb_rx_trigger = None\<rparr>"

theorem rt_buffer_transmitted_witness:
  "\<exists>s1 s2 s3. rt_tx_start log_write 1 demo_rtuart = Some s1 \<and> thre_interrupts None 2 log_write s1 = Some s2 \<and>
     r_bus s2 = replicate 9 5 \<and> r_tx_buffer s2 = 0 \<and>
     thre_interrupts (Some demo_tx_client) 2 log_write s1 = Some s3 \<and> r_bus s3 = replicate 9 5 \<and> r_tx_buffer s3 = 1"
proof -
  obtain s1 where s1: "rt_tx_start log_write 1 demo_rtuart = Some s1" "r_bus s1 = []"
    by (simp add: rt_tx_start_def demo_rt_facts rt_set_notify_def rt_change_notify_def rt_update_notification_def rt_write_def
        log_write_def pc16550_reg_defs demo_rtuart_def rt_notify_defs get_buffer_def put_buffer_def Let_def)
  have w: "write_octets log_write (tx_octets demo_rt_buffer) (r_bus s1) = Some (replicate 9 5)"
    using log_write_octets [of "tx_octets demo_rt_buffer" "r_bus s1"] s1(2) demo_rt_facts(7) by simp
  have m: "r_notify_mask demo_rtuart = 0" by (simp add: demo_rtuart_def)
  define t where "t = (put_buffer 1 (demo_rt_buffer\<lparr>rb_transfered := rb_validcount demo_rt_buffer\<rparr>) s1)\<lparr>r_bus := replicate 9 5,
      r_notify_mask := r_notify_mask demo_rtuart AND NOT RTUART_NOTIFY_TRANSMITTER_READY, r_tx_buffer := 0\<rparr>"
  let ?e = "t\<lparr>r_notify_mask := r_notify_mask t OR RTUART_NOTIFY_TRANSMITTER_EMPTY\<rparr>"
  have c: "rtuart_call_tx_start None 1 s = Some s" "rtuart_call_tx_start (Some demo_tx_client) 1 s = Some s"
    "rtuart_call_tx_end1 None 1 t = Some t" "rtuart_call_tx_end1 (Some demo_tx_client) 1 t = Some ?e" for s
    by (simp_all add: rtuart_call_tx_start_def rtuart_call_tx_end1_def demo_tx_client_def)
  have z: "r_notify_mask t = 0" "r_notify_mask ?e AND RTUART_NOTIFY_TRANSMITTER_READY = 0" "r_tx_buffer t = 0" "r_bus t = replicate 9 5"
    "r_notify_mask ?e AND RTUART_NOTIFY_TRANSMITTER_EMPTY \<noteq> 0"
    by (simp_all add: t_def m rt_notify_defs)
  have "thre_interrupts None 2 log_write s1 = Some t"
    using rt_buffer_transmitted [OF _ demo_rt_facts(1-4) c(1) s1(1) w t_def c(3)] z demo_rt_facts(6) by simp
  moreover have "thre_interrupts (Some demo_tx_client) 2 log_write s1 = Some (?e\<lparr>r_tx_buffer := 1\<rparr>)"
    using rt_buffer_transmitted [OF _ demo_rt_facts(1-4) c(2) s1(1) w t_def c(4)] z demo_rt_facts(6) by simp
  ultimately show ?thesis using s1(1) z by simp
qed

section \<open>Leaving the interrupt\<close>

lemma irq_round_leaves:
  assumes "rt_irq_round cb rd wr iir lsr s = Some (False, i, l, s')"
  shows "\<not> r_in_irq s' \<and> (\<exists>b. wr PC16550_REG_IER (rt_ier_of (r_notify_mask s')) b = Some (r_bus s'))"
proof -
  have "\<exists>s0. rt_irq_leave wr s0 = Some s'"
    using assms unfolding rt_irq_round_def Let_def
    by (auto simp: bind_eq_Some split: if_splits prod.splits)
  then show ?thesis
    by (auto simp: rt_irq_leave_def rt_update_notification_def rt_write_def bind_eq_Some)
qed

lemma irq_loop_leaves:
  fixes wr :: "'b reg_write" and s s' :: "('b, 'c) rtuart_16550"
  assumes "rt_irq_loop cb rd wr iir lsr s = Some s'"
  shows "\<not> r_in_irq s' \<and> (\<exists>b. wr PC16550_REG_IER (rt_ier_of (r_notify_mask s')) b = Some (r_bus s'))"
proof -
  define P where "P wr s' \<longleftrightarrow> \<not> r_in_irq s' \<and> (\<exists>b. wr PC16550_REG_IER (rt_ier_of (r_notify_mask s')) b = Some (r_bus s'))"
    for wr :: "'b reg_write" and s' :: "('b, 'c) rtuart_16550"
  have "P wr s'"
    using assms
  proof (rule rt_irq_loop.raw_induct [of "\<lambda>cb rd wr iir lsr s x. P wr x", rotated])
    fix f :: "('b, 'c) rtuart_16550 rtuart_callbacks option \<Rightarrow> 'b reg_read \<Rightarrow> 'b reg_write \<Rightarrow> u8 \<Rightarrow> u8 \<Rightarrow> ('b, 'c) rtuart_16550 \<Rightarrow> ('b, 'c) rtuart_16550 option"
      and cb rd wr iir lsr s and x :: "('b, 'c) rtuart_16550"
    assume IH: "\<And>cb rd wr iir lsr s x. f cb rd wr iir lsr s = Some x \<Longrightarrow> P wr x"
      and st: "do { (again, iir, lsr, s) \<leftarrow> rt_irq_round cb rd wr iir lsr s;
         if again then f cb rd wr iir lsr s else Some s } = Some x"
    then obtain again i l s1 where r: "rt_irq_round cb rd wr iir lsr s = Some (again, i, l, s1)"
        "(if again then f cb rd wr i l s1 else Some s1) = Some x"
      by (auto simp: bind_eq_Some)
    show "P wr x"
    proof (cases again)
      case True
      then show ?thesis using IH r(2) by simp
    next
      case False
      then show ?thesis using irq_round_leaves [of cb rd wr iir lsr s i l s1] r unfolding P_def by auto
    qed
  qed
  then show ?thesis by (simp add: P_def)
qed

text \<open>C30. When the interrupt handler returns, whatever the chip and the callbacks of the client did, the
  driver is out of the interrupt and its last access has written the interrupts that its notifications ask
  for to the interrupt enable register; so the handler and notifications that callbacks change never leave
  the two apart.\<close>

theorem rt_irq_exit_syncs_ier:
  assumes "rt_handle_irq cb rd wr stack s = Some s'"
  shows "\<not> r_in_irq s' \<and> (\<exists>b. wr PC16550_REG_IER (rt_ier_of (r_notify_mask s')) b = Some (r_bus s'))"
proof -
  obtain iir lsr t where "rt_irq_loop cb rd wr iir lsr t = Some s'"
    using assms by (auto simp: rt_handle_irq_def bind_eq_Some)
  then show ?thesis by (rule irq_loop_leaves)
qed

text \<open>A chip without a pending cause.\<close>

theorem rt_irq_exit_syncs_ier_witness:
  "\<exists>s'. rt_handle_irq None (\<lambda>r b. Some (1, b)) log_write 0 demo_rtuart = Some s' \<and> \<not> r_in_irq s'"
proof -
  have e: "rt_irq_loop None (\<lambda>r b. Some (1, b)) log_write 1 1 (demo_rtuart\<lparr>r_in_irq := True\<rparr>) =
      Some (demo_rtuart\<lparr>r_in_irq := False\<rparr>)"
    by (subst rt_irq_loop.simps)
       (simp add: rt_irq_round_def is_rx_cause_def RT_IIR_IRQ_MASK_def RT_IIR_IRQ_RECEIVED_DATA_AVAILABLE_def
        RT_IIR_IRQ_CHARACTER_TIMEOUT_def RT_IIR_IRQ_TRANSMITTER_HOLDING_EMPTY_def RT_IIR_IRQ_MODEM_STATUS_def
        RT_IIR_IRQ_NONE_def rt_idle_def buffer_is_complete_def demo_rtuart_def rt_irq_leave_def rt_update_notification_def
        rt_write_def log_write_def pc16550_reg_defs Let_def)
  have h: "rt_handle_irq None (\<lambda>r b. Some (1, b)) log_write 0 demo_rtuart = Some (demo_rtuart\<lparr>r_in_irq := False\<rparr>)"
    using e by (simp add: rt_handle_irq_def update_iir_and_lsr_def rt_read_def RT_IIR_IRQ_MASK_def RT_IIR_IRQ_NONE_def)
  then show ?thesis using rt_irq_exit_syncs_ier [OF h] by blast
qed

section \<open>Reception\<close>

text \<open>A chip whose receiver gives these octets.\<close>

fun rbr_gives :: "'b reg_read \<Rightarrow> 'b \<Rightarrow> u8 list \<Rightarrow> 'b \<Rightarrow> bool" where
  "rbr_gives rd b [] b' \<longleftrightarrow> b' = b"
| "rbr_gives rd b (c # cs) b' \<longleftrightarrow> (\<exists>b1. rd PC16550_REG_RBR b = Some (c, b1) \<and> rbr_gives rd b1 cs b')"

fun receive_n :: "nat \<Rightarrow> ('b, 'c) rtuart_16550 rtuart_callbacks option \<Rightarrow> 'b reg_read \<Rightarrow> 'b reg_write \<Rightarrow> addr \<Rightarrow> ('b, 'c) rtuart_16550 \<Rightarrow>
  ('b, 'c) rtuart_16550 option" where
  "receive_n 0 cb rd wr a s = Some s"
| "receive_n (Suc n) cb rd wr a s = do { s \<leftarrow> rt_handle_received_data cb rd wr a False s; receive_n n cb rd wr a s }"

lemma receive_n_0_bind: "Option.bind x (receive_n 0 cb rd wr a) = x"
  by (cases x) simp_all

lemma received_one:
  assumes "a \<noteq> 0" and "get_buffer a s = Some b" and "sendable b" and "rb_triggermask b = 0"
    and "rb_transfered b < rb_validcount b" and "rd PC16550_REG_RBR (r_bus s) = Some (c, bus)"
    and "b' = b\<lparr>rb_data := Some ((the (rb_data b))[rb_transfered b := c]), rb_transfered := rb_transfered b + 1\<rparr>"
    and "s' = (put_buffer a b' s)\<lparr>r_bus := bus\<rparr>"
  shows "rt_handle_received_data cb rd wr a False s =
     (if rb_transfered b + 1 < rb_validcount b then Some s'
      else rtuart_call_rx_end cb a
        (s'\<lparr>r_rx_buffer := 0, r_notify_mask := r_notify_mask s' AND NOT RTUART_NOTIFY_RECEIVER_HASDATA\<rparr>))"
proof -
  obtain d where d: "rb_data b = Some d" "length d = rb_size b" and v: "rb_validcount b \<le> rb_size b"
    using assms(3) by (auto simp: sendable_def)
  have lt: "\<not> rb_transfered b \<ge> rb_validcount b" "\<not> rb_transfered b \<ge> rb_size b" using assms(5) v by auto
  have b': "rb_validcount b' = rb_validcount b" "rb_size b' = rb_size b" "rb_transfered b' = rb_transfered b + 1"
      "rb_triggermask b' = 0" using assms(4,7) by simp_all
  have s': "get_buffer a s' = Some b'" using assms(1,8) by simp
  have e: "put_buffer a (b\<lparr>rb_data := Some (d[rb_transfered b := c]), rb_transfered := rb_transfered b + 1\<rparr>) (s\<lparr>r_bus := bus\<rparr>) = s'"
    using d(1) assms(7,8) by (simp add: put_buffer_def)
  show ?thesis
    using assms(1,2,6) lt d v e s' b'
    by (auto simp: rt_handle_received_data_def rt_read_def arr_set_def rt_rx_triggers_def)
qed

lemma receive_n_spec:
  assumes "a \<noteq> 0" and "get_buffer a s = Some b" and "sendable b" and "rb_triggermask b = 0"
    and "rb_transfered b + length cs = rb_validcount b" and "cs \<noteq> []" and "rbr_gives rd (r_bus s) cs bus"
    and "b' = b\<lparr>rb_data := Some (blit (the (rb_data b)) (rb_transfered b) cs), rb_transfered := rb_validcount b\<rparr>"
  shows "receive_n (length cs) cb rd wr a s =
     rtuart_call_rx_end cb a ((put_buffer a b' s)\<lparr>r_bus := bus, r_rx_buffer := 0,
       r_notify_mask := r_notify_mask s AND NOT RTUART_NOTIFY_RECEIVER_HASDATA\<rparr>)"
  using assms(2-8)
proof (induction cs arbitrary: s b b')
  case (Cons c cs)
  obtain bus1 where bus1: "rd PC16550_REG_RBR (r_bus s) = Some (c, bus1)" "rbr_gives rd bus1 cs bus"
    using Cons.prems(6) by auto
  obtain d where d: "rb_data b = Some d" "length d = rb_size b" "rb_validcount b \<le> rb_size b"
    using Cons.prems(2) by (auto simp: sendable_def)
  define b1 where "b1 = b\<lparr>rb_data := Some ((the (rb_data b))[rb_transfered b := c]), rb_transfered := rb_transfered b + 1\<rparr>"
  define s1 where "s1 = (put_buffer a b1 s)\<lparr>r_bus := bus1\<rparr>"
  have lt: "rb_transfered b < rb_validcount b" using Cons.prems(4) by simp
  have one: "rt_handle_received_data cb rd wr a False s =
     (if rb_transfered b + 1 < rb_validcount b then Some s1
      else rtuart_call_rx_end cb a
        (s1\<lparr>r_rx_buffer := 0, r_notify_mask := r_notify_mask s1 AND NOT RTUART_NOTIFY_RECEIVER_HASDATA\<rparr>))"
    by (rule received_one [where b = b and c = c and bus = bus1 and b' = b1])
       (use assms(1) Cons.prems(1-3) lt bus1(1) b1_def s1_def in simp_all)
  show ?case
  proof (cases "cs = []")
    case True
    have "blit d (rb_transfered b) [c] = d[rb_transfered b := c]"
      using lt d(2,3) by (simp add: blit_def upd_conv_take_nth_drop)
    then have "b' = b1" "bus1 = bus" using Cons.prems(4,7) True d(1) bus1(2) by (simp_all add: b1_def)
    then show ?thesis using one True Cons.prems(4)
      by (simp add: s1_def put_buffer_def receive_n_0_bind)
  next
    case False
    have b1: "get_buffer a s1 = Some b1" "sendable b1" "rb_triggermask b1 = 0"
        "rb_transfered b1 + length cs = rb_validcount b1" "rbr_gives rd (r_bus s1) cs bus"
      using assms(1) Cons.prems(3,4) d bus1(2) by (simp_all add: s1_def b1_def sendable_def)
    have "blit (the (rb_data b1)) (rb_transfered b1) cs = blit d (rb_transfered b) (c # cs)"
      using d lt by (simp add: b1_def blit_def take_Suc_conv_app_nth)
    then have b': "b' = b1\<lparr>rb_data := Some (blit (the (rb_data b1)) (rb_transfered b1) cs), rb_transfered := rb_validcount b1\<rparr>"
      using Cons.prems(7) d(1) by (simp add: b1_def)
    have "rb_transfered b + 1 < rb_validcount b" using Cons.prems(4) False by (cases cs) auto
    then have "receive_n (length (c # cs)) cb rd wr a s = receive_n (length cs) cb rd wr a s1" using one by simp
    also have "\<dots> = rtuart_call_rx_end cb a ((put_buffer a b' s1)\<lparr>r_bus := bus, r_rx_buffer := 0,
       r_notify_mask := r_notify_mask s1 AND NOT RTUART_NOTIFY_RECEIVER_HASDATA\<rparr>)"
      by (rule Cons.IH [OF b1(1-4) False b1(5) b'])
    finally show ?thesis by (simp add: s1_def put_buffer_def)
  qed
qed simp

text \<open>A receive buffer for \<open>n\<close> octets is filled with the next \<open>n\<close> octets of the receiver in order; with the
  last one, and not before, the reception is over and the client gets the buffer. A buffer whose count of
  valid octets is zero, as the interface asks for, receives nothing.\<close>

theorem rt_reception_fills_buffer:
  assumes "a \<noteq> 0" and "get_buffer a s = Some b" and "sendable b" and "rb_triggermask b = 0" and "rb_transfered b = 0"
    and "length cs = rb_validcount b" and "cs \<noteq> []" and "rbr_gives rd (r_bus s) cs bus"
  shows "receive_n (length cs) cb rd wr a s =
       rtuart_call_rx_end cb a ((put_buffer a (b\<lparr>rb_data := Some (cs @ drop (length cs) (the (rb_data b))),
           rb_transfered := length cs\<rparr>) s)\<lparr>r_bus := bus, r_rx_buffer := 0,
         r_notify_mask := r_notify_mask s AND NOT RTUART_NOTIFY_RECEIVER_HASDATA\<rparr>) \<and>
     rt_handle_received_data cb rd wr a t (put_buffer a (b\<lparr>rb_validcount := 0\<rparr>) s) =
       rt_rx_no_buffer cb rd wr (put_buffer a (b\<lparr>rb_validcount := 0\<rparr>) s)"
proof
  show "receive_n (length cs) cb rd wr a s =
       rtuart_call_rx_end cb a ((put_buffer a (b\<lparr>rb_data := Some (cs @ drop (length cs) (the (rb_data b))),
           rb_transfered := length cs\<rparr>) s)\<lparr>r_bus := bus, r_rx_buffer := 0,
         r_notify_mask := r_notify_mask s AND NOT RTUART_NOTIFY_RECEIVER_HASDATA\<rparr>)"
    using receive_n_spec [OF assms(1-4) _ assms(7,8) refl, of cb wr] assms(5,6) by (simp add: blit_def)
  show "rt_handle_received_data cb rd wr a t (put_buffer a (b\<lparr>rb_validcount := 0\<rparr>) s) =
       rt_rx_no_buffer cb rd wr (put_buffer a (b\<lparr>rb_validcount := 0\<rparr>) s)"
    using assms(1) by (simp add: rt_handle_received_data_def)
qed

theorem rt_reception_fills_buffer_witness:
  "\<exists>s'. receive_n 9 None (\<lambda>r b. Some (hd b, tl b)) log_write 1 (demo_rtuart\<lparr>r_bus := replicate 9 7\<rparr>) = Some s' \<and>
     r_rx_buffer s' = 0 \<and> get_buffer 1 s' = Some (demo_rt_buffer\<lparr>rb_data := Some (replicate 9 7), rb_transfered := 9\<rparr>)"
proof -
  have g: "rbr_gives (\<lambda>r b. Some (hd b, tl b)) cs cs []" for cs by (induction cs) simp_all
  have b: "get_buffer 1 (demo_rtuart\<lparr>r_bus := replicate 9 7\<rparr>) = Some demo_rt_buffer" using demo_rt_facts(1) by simp
  have f: "rb_triggermask demo_rt_buffer = 0" "rb_transfered demo_rt_buffer = 0" "the (rb_data demo_rt_buffer) = replicate 9 5"
    by (simp_all add: demo_rt_buffer_def)
  show ?thesis
    using rt_reception_fills_buffer [OF _ b demo_rt_facts(2) f(1,2), of "replicate 9 7" "\<lambda>r b. Some (hd b, tl b)" "[]" None log_write]
      g [of "replicate 9 7"] demo_rt_facts(6) f(3)
    by (simp add: rtuart_call_rx_end_def)
qed

end
