(* ===== verification/Mapped_Bus.thy ===== *)
theory Mapped_Bus
  imports Prelude
begin

text \<open>
  Register access through a memory window: \<^verbatim>\<open>src/src/uio-testbench/bus/mmap32_bus.c\<close>, where the client gives the
  window, and \<^verbatim>\<open>uio32_bus.c\<close>, where it is mapped from a device, with \<^verbatim>\<open>rtuart_bus.c\<close> that dispatches to one of
  them. Every register is a 32 bit word; octet and 16 bit accesses use its lower part, the host being
  little endian. The source spells the word \<open>u32\<close>, a name for \<open>unsigned long\<close>: the model is of a host where that
  type has 32 bits, as on the boards with these devices, and of windows that start at a word.

  The window is what the device shows at the moment; an access outside it is a fault, the outer \<^term>\<open>None\<close>. The
  inner \<^term>\<open>None\<close> of a read and \<^term>\<open>False\<close> of a write stand for an error code.
\<close>

type_synonym window = "u32 list"
type_synonym ('w, 'b) bus_read = "int \<Rightarrow> 'b \<Rightarrow> ('w option \<times> 'b) option"
type_synonym ('w, 'b) bus_write = "int \<Rightarrow> 'w \<Rightarrow> 'b \<Rightarrow> (bool \<times> 'b) option"

section \<open>The window of the client\<close>

definition window_get :: "window \<Rightarrow> int \<Rightarrow> u32 option" where
  "window_get w reg = (if reg < 0 then None else arr_get w (nat reg))"

definition window_set :: "window \<Rightarrow> int \<Rightarrow> u32 \<Rightarrow> window option" where
  "window_set w reg v = (if reg < 0 then None else arr_set w (nat reg) v)"

text \<open>Replacing the lower \<open>n\<close> bits.\<close>

definition low_part :: "nat \<Rightarrow> u32 \<Rightarrow> u32 \<Rightarrow> u32" where
  "low_part n old v = (old AND NOT (mask n)) OR (v AND mask n)"

definition mmap32_read_u8 :: "(u8, window) bus_read" where
  "mmap32_read_u8 reg w = map_option (\<lambda>v. (Some (ucast v), w)) (window_get w reg)"

definition mmap32_read_u16 :: "(u16, window) bus_read" where
  "mmap32_read_u16 reg w = map_option (\<lambda>v. (Some (ucast v), w)) (window_get w reg)"

definition mmap32_read_u32 :: "(u32, window) bus_read" where
  "mmap32_read_u32 reg w = map_option (\<lambda>v. (Some v, w)) (window_get w reg)"

definition mmap32_write_u8 :: "(u8, window) bus_write" where
  "mmap32_write_u8 reg v w = do {
     old \<leftarrow> window_get w reg;
     map_option (Pair True) (window_set w reg (low_part 8 old (ucast v))) }"

definition mmap32_write_u16 :: "(u16, window) bus_write" where
  "mmap32_write_u16 reg v w = do {
     old \<leftarrow> window_get w reg;
     map_option (Pair True) (window_set w reg (low_part 16 old (ucast v))) }"

definition mmap32_write_u32 :: "(u32, window) bus_write" where
  "mmap32_write_u32 reg v w = map_option (Pair True) (window_set w reg v)"

section \<open>The window of a device\<close>

text \<open>\<open>ub_mem\<close> is the mapping, \<open>ub_regs\<close> the word in it where the registers start.\<close>

record uio32_bus =
  ub_mem :: window
  ub_regs :: int

definition uio32_read_u8 :: "(u8, uio32_bus) bus_read" where
  "uio32_read_u8 reg u = map_option (\<lambda>v. (Some (ucast v), u)) (window_get (ub_mem u) (ub_regs u + reg))"

definition uio32_read_u16 :: "(u16, uio32_bus) bus_read" where
  "uio32_read_u16 reg u = map_option (\<lambda>v. (Some (ucast v), u)) (window_get (ub_mem u) (ub_regs u + reg))"

definition uio32_read_u32 :: "(u32, uio32_bus) bus_read" where
  "uio32_read_u32 reg u = map_option (\<lambda>v. (Some v, u)) (window_get (ub_mem u) (ub_regs u + reg))"

definition uio32_write_u8 :: "(u8, uio32_bus) bus_write" where
  "uio32_write_u8 reg v u = do {
     old \<leftarrow> window_get (ub_mem u) (ub_regs u + reg);
     m \<leftarrow> window_set (ub_mem u) (ub_regs u + reg) (low_part 8 old (ucast v));
     Some (True, u\<lparr>ub_mem := m\<rparr>) }"

definition uio32_write_u16 :: "(u16, uio32_bus) bus_write" where
  "uio32_write_u16 reg v u = do {
     old \<leftarrow> window_get (ub_mem u) (ub_regs u + reg);
     m \<leftarrow> window_set (ub_mem u) (ub_regs u + reg) (low_part 16 old (ucast v));
     Some (True, u\<lparr>ub_mem := m\<rparr>) }"

definition uio32_write_u32 :: "(u32, uio32_bus) bus_write" where
  "uio32_write_u32 reg v u = do {
     m \<leftarrow> window_set (ub_mem u) (ub_regs u + reg) v;
     Some (True, u\<lparr>ub_mem := m\<rparr>) }"

text \<open>
  \<open>map\<close> is the memory that \<open>mmap\<close> gives for a number of octets from the start of the device, nothing when
  it fails; the offset, in octets, is added to the address afterwards. Inside, \<^term>\<open>None\<close> is the null
  pointer of a failure.
\<close>

definition uio32_create :: "(nat \<Rightarrow> window option) \<Rightarrow> bool \<Rightarrow> int \<Rightarrow> nat \<Rightarrow> uio32_bus option" where
  "uio32_create mmap malloc_ok offset sz = (case mmap sz of
     None \<Rightarrow> None
   | Some mem \<Rightarrow> if malloc_ok then Some \<lparr>ub_mem = mem, ub_regs = offset div 4\<rparr> else None)"

section \<open>Dispatch\<close>

text \<open>\<open>struct rtuart_bus_ops\<close> and \<^verbatim>\<open>rtuart_bus.c\<close>: an access that a bus does not have fails.\<close>

record 'b rtuart_bus_ops =
  bo_read_u8 :: "(u8, 'b) bus_read option"
  bo_read_u16 :: "(u16, 'b) bus_read option"
  bo_read_u32 :: "(u32, 'b) bus_read option"
  bo_write_u8 :: "(u8, 'b) bus_write option"
  bo_write_u16 :: "(u16, 'b) bus_write option"
  bo_write_u32 :: "(u32, 'b) bus_write option"
  bo_irq_pending :: "('b \<Rightarrow> (u32 option \<times> 'b) option) option"

definition rtuart_bus_read_u8 :: "'b rtuart_bus_ops \<Rightarrow> (u8, 'b) bus_read" where
  "rtuart_bus_read_u8 ops reg b = (case bo_read_u8 ops of Some f \<Rightarrow> f reg b | None \<Rightarrow> Some (None, b))"

definition rtuart_bus_read_u16 :: "'b rtuart_bus_ops \<Rightarrow> (u16, 'b) bus_read" where
  "rtuart_bus_read_u16 ops reg b = (case bo_read_u16 ops of Some f \<Rightarrow> f reg b | None \<Rightarrow> Some (None, b))"

definition rtuart_bus_read_u32 :: "'b rtuart_bus_ops \<Rightarrow> (u32, 'b) bus_read" where
  "rtuart_bus_read_u32 ops reg b = (case bo_read_u32 ops of Some f \<Rightarrow> f reg b | None \<Rightarrow> Some (None, b))"

definition rtuart_bus_write_u8 :: "'b rtuart_bus_ops \<Rightarrow> (u8, 'b) bus_write" where
  "rtuart_bus_write_u8 ops reg v b = (case bo_write_u8 ops of Some f \<Rightarrow> f reg v b | None \<Rightarrow> Some (False, b))"

definition rtuart_bus_write_u16 :: "'b rtuart_bus_ops \<Rightarrow> (u16, 'b) bus_write" where
  "rtuart_bus_write_u16 ops reg v b = (case bo_write_u16 ops of Some f \<Rightarrow> f reg v b | None \<Rightarrow> Some (False, b))"

definition rtuart_bus_write_u32 :: "'b rtuart_bus_ops \<Rightarrow> (u32, 'b) bus_write" where
  "rtuart_bus_write_u32 ops reg v b = (case bo_write_u32 ops of Some f \<Rightarrow> f reg v b | None \<Rightarrow> Some (False, b))"

definition rtuart_bus_irq_pending :: "'b rtuart_bus_ops \<Rightarrow> 'b \<Rightarrow> (u32 option \<times> 'b) option" where
  "rtuart_bus_irq_pending ops b = (case bo_irq_pending ops of Some f \<Rightarrow> f b | None \<Rightarrow> Some (None, b))"

definition uart_mmap32_bus_ops :: "window rtuart_bus_ops" where
  "uart_mmap32_bus_ops =
     \<lparr>bo_read_u8 = Some mmap32_read_u8, bo_read_u16 = Some mmap32_read_u16, bo_read_u32 = Some mmap32_read_u32,
      bo_write_u8 = Some mmap32_write_u8, bo_write_u16 = Some mmap32_write_u16, bo_write_u32 = Some mmap32_write_u32,
      bo_irq_pending = None\<rparr>"

definition uart_uio32_bus_ops :: "uio32_bus rtuart_bus_ops" where
  "uart_uio32_bus_ops =
     \<lparr>bo_read_u8 = Some uio32_read_u8, bo_read_u16 = Some uio32_read_u16, bo_read_u32 = Some uio32_read_u32,
      bo_write_u8 = Some uio32_write_u8, bo_write_u16 = Some uio32_write_u16, bo_write_u32 = Some uio32_write_u32,
      bo_irq_pending = None\<rparr>"

section \<open>The registers of a word addressed bus\<close>

text \<open>
  What the PL011 drivers rely on: registers from a range are there, hold what was written and do not
  affect each other. \<open>ok\<close> are the well-formed states of the bus, \<open>val\<close> reads a register off a state.
\<close>

locale word_registers =
  fixes rd :: "(u32, 'b) bus_read" and wr :: "(u32, 'b) bus_write"
    and ok :: "'b \<Rightarrow> bool" and val :: "'b \<Rightarrow> int \<Rightarrow> u32" and limit :: int
  assumes rd_val: "ok b \<Longrightarrow> 0 \<le> r \<Longrightarrow> r < limit \<Longrightarrow> rd r b = Some (Some (val b r), b)"
    and wr_val: "ok b \<Longrightarrow> 0 \<le> r \<Longrightarrow> r < limit \<Longrightarrow> \<exists>b'. wr r v b = Some (True, b') \<and> ok b' \<and>
        (\<forall>q. 0 \<le> q \<longrightarrow> q < limit \<longrightarrow> val b' q = ((val b)(r := v)) q)"
begin

lemma write_read: "ok b \<Longrightarrow> 0 \<le> r \<Longrightarrow> r < limit \<Longrightarrow> \<exists>b'. wr r v b = Some (True, b') \<and> rd r b' = Some (Some v, b')"
  using wr_val [of b r v] rd_val [of _ r] by fastforce

end

text \<open>The eighteen registers of the chip.\<close>

definition window_ok :: "window \<Rightarrow> bool" where
  "window_ok w \<longleftrightarrow> 18 \<le> length w"

definition window_val :: "window \<Rightarrow> int \<Rightarrow> u32" where
  "window_val w r = w ! nat r"

lemmas window_defs = window_get_def window_set_def arr_get_def arr_set_def

interpretation mmap_words: word_registers mmap32_read_u32 mmap32_write_u32 window_ok window_val 18
  by unfold_locales
     (auto simp: mmap32_read_u32_def mmap32_write_u32_def window_defs window_ok_def window_val_def nth_list_update)

definition uio32_ok :: "uio32_bus \<Rightarrow> bool" where
  "uio32_ok u \<longleftrightarrow> 0 \<le> ub_regs u \<and> ub_regs u + 18 \<le> int (length (ub_mem u))"

definition uio32_val :: "uio32_bus \<Rightarrow> int \<Rightarrow> u32" where
  "uio32_val u r = ub_mem u ! nat (ub_regs u + r)"

interpretation uio_words: word_registers uio32_read_u32 uio32_write_u32 uio32_ok uio32_val 18
  by unfold_locales
     (auto simp: uio32_read_u32_def uio32_write_u32_def window_defs uio32_ok_def uio32_val_def nth_list_update eq_nat_nat_iff)

end
