(* ===== verification/Pl011_Regs.thy ===== *)
theory Pl011_Regs
  imports Mapped_Bus
begin

text \<open>
  The registers of the PL011 and their bits, as both drivers have them
  (\<^verbatim>\<open>src/src/uio-testbench/rtuart/rtuart_pl011.c\<close> and \<^verbatim>\<open>uart/pl011.c\<close>).
\<close>

definition PL011_REG_DR :: int where "PL011_REG_DR = 0"
definition PL011_REG_RSRECR :: int where "PL011_REG_RSRECR = 1"
definition PL011_REG_FR :: int where "PL011_REG_FR = 6"
definition PL011_REG_IBRD :: int where "PL011_REG_IBRD = 9"
definition PL011_REG_FBRD :: int where "PL011_REG_FBRD = 10"
definition PL011_REG_LCRH :: int where "PL011_REG_LCRH = 11"
definition PL011_REG_CR :: int where "PL011_REG_CR = 12"
definition PL011_REG_IFLS :: int where "PL011_REG_IFLS = 13"
definition PL011_REG_IMSC :: int where "PL011_REG_IMSC = 14"
definition PL011_REG_RIS :: int where "PL011_REG_RIS = 15"
definition PL011_REG_MIS :: int where "PL011_REG_MIS = 16"
definition PL011_REG_ICR :: int where "PL011_REG_ICR = 17"

lemmas pl011_reg_defs = PL011_REG_DR_def PL011_REG_RSRECR_def PL011_REG_FR_def PL011_REG_IBRD_def PL011_REG_FBRD_def PL011_REG_LCRH_def PL011_REG_CR_def PL011_REG_IFLS_def PL011_REG_IMSC_def PL011_REG_RIS_def PL011_REG_MIS_def PL011_REG_ICR_def

definition PL011_LCRH_WLEN_MASK :: u32 where "PL011_LCRH_WLEN_MASK = 0x60"
definition PL011_LCRH_FEN :: u32 where "PL011_LCRH_FEN = 0x10"
definition PL011_LCRH_STP2 :: u32 where "PL011_LCRH_STP2 = 8"
definition PL011_LCRH_EPS :: u32 where "PL011_LCRH_EPS = 4"
definition PL011_LCRH_PEN :: u32 where "PL011_LCRH_PEN = 2"
definition PL011_LCRH_BRK :: u32 where "PL011_LCRH_BRK = 1"

lemmas pl011_lcrh_defs = PL011_LCRH_WLEN_MASK_def PL011_LCRH_FEN_def PL011_LCRH_STP2_def PL011_LCRH_EPS_def
  PL011_LCRH_PEN_def PL011_LCRH_BRK_def

definition PL011_DR_OE :: u32 where "PL011_DR_OE = 0x800"
definition PL011_DR_BE :: u32 where "PL011_DR_BE = 0x400"
definition PL011_DR_PE :: u32 where "PL011_DR_PE = 0x200"
definition PL011_DR_FE :: u32 where "PL011_DR_FE = 0x100"

lemmas pl011_dr_defs = PL011_DR_OE_def PL011_DR_BE_def PL011_DR_PE_def PL011_DR_FE_def

definition PL011_CR_CTSEN :: u32 where "PL011_CR_CTSEN = 0x8000"
definition PL011_CR_RTSEN :: u32 where "PL011_CR_RTSEN = 0x4000"
definition PL011_CR_OUT2 :: u32 where "PL011_CR_OUT2 = 0x2000"
definition PL011_CR_OUT1 :: u32 where "PL011_CR_OUT1 = 0x1000"
definition PL011_CR_RTS :: u32 where "PL011_CR_RTS = 0x800"
definition PL011_CR_DTR :: u32 where "PL011_CR_DTR = 0x400"
definition PL011_CR_RXE :: u32 where "PL011_CR_RXE = 0x200"
definition PL011_CR_TXE :: u32 where "PL011_CR_TXE = 0x100"
definition PL011_CR_LBE :: u32 where "PL011_CR_LBE = 0x80"
definition PL011_CR_UARTEN :: u32 where "PL011_CR_UARTEN = 1"

lemmas pl011_cr_defs = PL011_CR_CTSEN_def PL011_CR_RTSEN_def PL011_CR_OUT2_def PL011_CR_OUT1_def
  PL011_CR_RTS_def PL011_CR_DTR_def PL011_CR_RXE_def PL011_CR_TXE_def PL011_CR_LBE_def PL011_CR_UARTEN_def

definition PL011_IFLS_RXIFLSEL_MASK :: u32 where "PL011_IFLS_RXIFLSEL_MASK = 0x18"
definition PL011_IFLS_RXIFLSEL_2BYTE :: u32 where "PL011_IFLS_RXIFLSEL_2BYTE = 0"
definition PL011_IFLS_RXIFLSEL_4BYTE :: u32 where "PL011_IFLS_RXIFLSEL_4BYTE = 8"
definition PL011_IFLS_RXIFLSEL_8BYTE :: u32 where "PL011_IFLS_RXIFLSEL_8BYTE = 0x10"
definition PL011_IFLS_RXIFLSEL_12BYTE :: u32 where "PL011_IFLS_RXIFLSEL_12BYTE = 0x18"
definition PL011_IFLS_RXIFLSEL_14BYTE :: u32 where "PL011_IFLS_RXIFLSEL_14BYTE = 0x20"
definition PL011_IFLS_TXIFLSEL_MASK :: u32 where "PL011_IFLS_TXIFLSEL_MASK = 3"
definition PL011_IFLS_TXIFLSEL_2BYTE :: u32 where "PL011_IFLS_TXIFLSEL_2BYTE = 0"
definition PL011_IFLS_TXIFLSEL_4BYTE :: u32 where "PL011_IFLS_TXIFLSEL_4BYTE = 1"
definition PL011_IFLS_TXIFLSEL_8BYTE :: u32 where "PL011_IFLS_TXIFLSEL_8BYTE = 2"
definition PL011_IFLS_TXIFLSEL_12BYTE :: u32 where "PL011_IFLS_TXIFLSEL_12BYTE = 3"
definition PL011_IFLS_TXIFLSEL_14BYTE :: u32 where "PL011_IFLS_TXIFLSEL_14BYTE = 4"

lemmas pl011_ifls_defs = PL011_IFLS_RXIFLSEL_MASK_def PL011_IFLS_RXIFLSEL_2BYTE_def
  PL011_IFLS_RXIFLSEL_4BYTE_def PL011_IFLS_RXIFLSEL_8BYTE_def PL011_IFLS_RXIFLSEL_12BYTE_def
  PL011_IFLS_RXIFLSEL_14BYTE_def PL011_IFLS_TXIFLSEL_MASK_def PL011_IFLS_TXIFLSEL_2BYTE_def
  PL011_IFLS_TXIFLSEL_4BYTE_def PL011_IFLS_TXIFLSEL_8BYTE_def PL011_IFLS_TXIFLSEL_12BYTE_def
  PL011_IFLS_TXIFLSEL_14BYTE_def

definition PL011_MIS_OE :: u32 where "PL011_MIS_OE = 0x400"
definition PL011_MIS_BE :: u32 where "PL011_MIS_BE = 0x200"
definition PL011_MIS_PE :: u32 where "PL011_MIS_PE = 0x100"
definition PL011_MIS_FE :: u32 where "PL011_MIS_FE = 0x80"
definition PL011_MIS_RT :: u32 where "PL011_MIS_RT = 0x40"
definition PL011_MIS_TX :: u32 where "PL011_MIS_TX = 0x20"
definition PL011_MIS_RX :: u32 where "PL011_MIS_RX = 0x10"
definition PL011_MIS_DSR :: u32 where "PL011_MIS_DSR = 8"
definition PL011_MIS_DCD :: u32 where "PL011_MIS_DCD = 4"
definition PL011_MIS_CTS :: u32 where "PL011_MIS_CTS = 2"
definition PL011_MIS_RI :: u32 where "PL011_MIS_RI = 1"

lemmas pl011_mis_defs = PL011_MIS_OE_def PL011_MIS_BE_def PL011_MIS_PE_def PL011_MIS_FE_def PL011_MIS_RT_def
  PL011_MIS_TX_def PL011_MIS_RX_def PL011_MIS_DSR_def PL011_MIS_DCD_def PL011_MIS_CTS_def PL011_MIS_RI_def

definition PL011_RSRECR_OE :: u32 where "PL011_RSRECR_OE = 8"
definition PL011_RSRECR_BE :: u32 where "PL011_RSRECR_BE = 4"
definition PL011_RSRECR_PE :: u32 where "PL011_RSRECR_PE = 2"
definition PL011_RSRECR_FE :: u32 where "PL011_RSRECR_FE = 1"

lemmas pl011_rsrecr_defs = PL011_RSRECR_OE_def PL011_RSRECR_BE_def PL011_RSRECR_PE_def PL011_RSRECR_FE_def

definition PL011_FR_RI :: u32 where "PL011_FR_RI = 0x100"
definition PL011_FR_TXFE :: u32 where "PL011_FR_TXFE = 0x80"
definition PL011_FR_RXFF :: u32 where "PL011_FR_RXFF = 0x40"
definition PL011_FR_TXFF :: u32 where "PL011_FR_TXFF = 0x20"
definition PL011_FR_RXFE :: u32 where "PL011_FR_RXFE = 0x10"
definition PL011_FR_BUSY :: u32 where "PL011_FR_BUSY = 8"
definition PL011_FR_DCD :: u32 where "PL011_FR_DCD = 4"
definition PL011_FR_DSR :: u32 where "PL011_FR_DSR = 2"
definition PL011_FR_CTS :: u32 where "PL011_FR_CTS = 1"

lemmas pl011_fr_defs = PL011_FR_RI_def PL011_FR_TXFE_def PL011_FR_RXFF_def PL011_FR_TXFF_def
  PL011_FR_RXFE_def PL011_FR_BUSY_def PL011_FR_DCD_def PL011_FR_DSR_def PL011_FR_CTS_def

text \<open>The flags of the transmitter and the receiver.\<close>

definition PL011_FR_ISTXFIFOEMPTY :: "u32 \<Rightarrow> bool" where
  "PL011_FR_ISTXFIFOEMPTY fr \<longleftrightarrow> fr AND PL011_FR_TXFE \<noteq> 0"

definition PL011_FR_ISRXFIFOFULL :: "u32 \<Rightarrow> bool" where
  "PL011_FR_ISRXFIFOFULL fr \<longleftrightarrow> fr AND PL011_FR_RXFF \<noteq> 0"

definition PL011_FR_ISTXFIFOFULL :: "u32 \<Rightarrow> bool" where
  "PL011_FR_ISTXFIFOFULL fr \<longleftrightarrow> fr AND PL011_FR_TXFF \<noteq> 0"

definition PL011_FR_ISRXFIFOEMPTY :: "u32 \<Rightarrow> bool" where
  "PL011_FR_ISRXFIFOEMPTY fr \<longleftrightarrow> fr AND PL011_FR_RXFE \<noteq> 0"

definition PL011_FR_ISTXBUSY :: "u32 \<Rightarrow> bool" where
  "PL011_FR_ISTXBUSY fr \<longleftrightarrow> fr AND PL011_FR_BUSY \<noteq> 0"

section \<open>A bus with the registers of the chip\<close>

locale pl011_bus = word_registers +
  assumes lim: "18 \<le> limit"

interpretation mmap_pl011: pl011_bus mmap32_read_u32 mmap32_write_u32 window_ok window_val 18
  by unfold_locales simp

interpretation uio_pl011: pl011_bus uio32_read_u32 uio32_write_u32 uio32_ok uio32_val 18
  by unfold_locales simp

end
