(* ===== verification/Rtuart_Pl011.thy ===== *)
theory Rtuart_Pl011
  imports Rtuart_Buffer Pl011_Regs
begin

text \<open>
  The PL011 driver behind the buffered UART interface
  (\<^verbatim>\<open>src/src/uio-testbench/rtuart/rtuart_pl011.c\<close>): registers, FIFO levels, baud rate, format, controls and
  notifications, starting and stopping buffers, transmission, reception and the interrupt handler.

  \<open>rd\<close> and \<open>wr\<close> are the accesses of the bus. Their error codes are followed where the code looks at them; a value
  that was not read because of one is a fault, \<^term>\<open>None\<close>, as are accesses outside a buffer or through null. Not
  returning is \<^term>\<open>None\<close> as well.
\<close>

section \<open>State and registers\<close>

text \<open>\<open>p_scheduled\<close>: the tasklet that runs the interrupt handler is in the list of tasklets.\<close>

record ('b, 'c) rtuart_pl011 = "('b, 'c) rtuart" +
  p_do_tx_polling :: bool
  p_scheduled :: bool

definition pl011_regnames :: "string list" where
  "pl011_regnames = [''DR'', ''RSRECR'', ''0x08'', ''0x0C'', ''0x10'', ''0x14'', ''FR'', ''0x1C'', ''0x20'', ''IBRD'', ''FBRD'',
     ''LCRH'', ''CR'', ''IFLS'', ''IMSC'', ''RIS'', ''MIS'', ''ICR'']"

definition pl011_regname :: "int \<Rightarrow> string option" where
  "pl011_regname regno =
     (if regno \<le> 0x44 div 4 then if regno < 0 then None else arr_get pl011_regnames (nat regno) else Some ''???'')"

definition pl011_fr_to_event :: "u32 \<Rightarrow> u32" where
  "pl011_fr_to_event fr =
     (if fr AND PL011_FR_CTS \<noteq> 0 then RTUART_EV_CTS_CHANGE else 0) OR
     (if fr AND PL011_FR_DSR \<noteq> 0 then RTUART_EV_DSR_CHANGE else 0) OR
     (if fr AND PL011_FR_RI \<noteq> 0 then RTUART_EV_RI_CHANGE else 0) OR
     (if fr AND PL011_FR_DCD \<noteq> 0 then RTUART_EV_DCD_CHANGE else 0)"

definition pl011_is_to_event :: "u32 \<Rightarrow> u32" where
  "pl011_is_to_event is =
     (if is AND PL011_MIS_CTS \<noteq> 0 then RTUART_EV_CTS_CHANGE else 0) OR
     (if is AND PL011_MIS_DSR \<noteq> 0 then RTUART_EV_DSR_CHANGE else 0) OR
     (if is AND PL011_MIS_RI \<noteq> 0 then RTUART_EV_RI_CHANGE else 0) OR
     (if is AND PL011_MIS_DCD \<noteq> 0 then RTUART_EV_DCD_CHANGE else 0) OR
     (if is AND PL011_MIS_OE \<noteq> 0 then RTUART_EV_OVERRUN_ERROR else 0) OR
     (if is AND PL011_MIS_PE \<noteq> 0 then RTUART_EV_PARITY_ERROR else 0) OR
     (if is AND PL011_MIS_FE \<noteq> 0 then RTUART_EV_FRAME_ERROR else 0) OR
     (if is AND PL011_MIS_BE \<noteq> 0 then RTUART_EV_BREAK else 0)"

text \<open>The parameters of these two are octets; the bits of the data register are tested after the
  truncation.\<close>

definition pl011_rsrecr_to_event :: "u8 \<Rightarrow> u32" where
  "pl011_rsrecr_to_event rsrecr =
     (if ucast rsrecr AND PL011_RSRECR_OE \<noteq> 0 then RTUART_EV_OVERRUN_ERROR else 0) OR
     (if ucast rsrecr AND PL011_RSRECR_PE \<noteq> 0 then RTUART_EV_PARITY_ERROR else 0) OR
     (if ucast rsrecr AND PL011_RSRECR_FE \<noteq> 0 then RTUART_EV_FRAME_ERROR else 0) OR
     (if ucast rsrecr AND PL011_RSRECR_BE \<noteq> 0 then RTUART_EV_BREAK else 0)"

definition pl011_dr_to_event :: "u8 \<Rightarrow> u32" where
  "pl011_dr_to_event rsrecr =
     (if ucast rsrecr AND PL011_DR_OE \<noteq> 0 then RTUART_EV_OVERRUN_ERROR else 0) OR
     (if ucast rsrecr AND PL011_DR_PE \<noteq> 0 then RTUART_EV_PARITY_ERROR else 0) OR
     (if ucast rsrecr AND PL011_DR_FE \<noteq> 0 then RTUART_EV_FRAME_ERROR else 0) OR
     (if ucast rsrecr AND PL011_DR_BE \<noteq> 0 then RTUART_EV_BREAK else 0)"

definition rp_read :: "(u32, 'b) bus_read \<Rightarrow> int \<Rightarrow> ('b, 'c) rtuart_pl011 \<Rightarrow> (u32 option \<times> ('b, 'c) rtuart_pl011) option" where
  "rp_read rd reg s = do { (v, b) \<leftarrow> rd reg (r_bus s); Some (v, s\<lparr>r_bus := b\<rparr>) }"

definition rp_write ::
  "(u32, 'b) bus_write \<Rightarrow> int \<Rightarrow> u32 \<Rightarrow> ('b, 'c) rtuart_pl011 \<Rightarrow> (bool \<times> ('b, 'c) rtuart_pl011) option" where
  "rp_write wr reg v s = do { (ok, b) \<leftarrow> wr reg v (r_bus s); Some (ok, s\<lparr>r_bus := b\<rparr>) }"

text \<open>A write whose result nobody looks at, and a read whose value is used whatever the result was.\<close>

abbreviation rp_put ::
  "(u32, 'b) bus_write \<Rightarrow> int \<Rightarrow> u32 \<Rightarrow> ('b, 'c) rtuart_pl011 \<Rightarrow> ('b, 'c) rtuart_pl011 option" where
  "rp_put wr reg v s \<equiv> map_option snd (rp_write wr reg v s)"

abbreviation rp_get ::
  "(u32, 'b) bus_read \<Rightarrow> int \<Rightarrow> ('b, 'c) rtuart_pl011 \<Rightarrow> (u32 \<times> ('b, 'c) rtuart_pl011) option" where
  "rp_get rd reg s \<equiv> Option.bind (rp_read rd reg s) (\<lambda>(v, s). map_option (\<lambda>v. (v, s)) v)"

text \<open>The result is true for the return value zero.\<close>

definition rp_change_register ::
  "(u32, 'b) bus_read \<Rightarrow> (u32, 'b) bus_write \<Rightarrow> int \<Rightarrow> u32 \<Rightarrow> u32 \<Rightarrow> ('b, 'c) rtuart_pl011 \<Rightarrow>
   (bool \<times> ('b, 'c) rtuart_pl011) option" where
  "rp_change_register rd wr regno msk value s = (
     if msk = 0 then Some (True, s)
     else do {
       (old, s) \<leftarrow> rp_read rd regno s;
       (case old of
          None \<Rightarrow> Some (False, s)
        | Some old_lcrh \<Rightarrow>
            let lcrh = (old_lcrh AND NOT msk) OR (value AND msk) in
            if lcrh \<noteq> old_lcrh then rp_write wr regno lcrh s else Some (True, s)) })"

section \<open>FIFOs\<close>

text \<open>A flag that could not be read counts as set.\<close>

definition rp_flag ::
  "(u32 \<Rightarrow> bool) \<Rightarrow> (u32, 'b) bus_read \<Rightarrow> ('b, 'c) rtuart_pl011 \<Rightarrow> (bool \<times> ('b, 'c) rtuart_pl011) option" where
  "rp_flag P rd s = do { (fr, s) \<leftarrow> rp_read rd PL011_REG_FR s; Some (case fr of None \<Rightarrow> True | Some v \<Rightarrow> P v, s) }"

definition rp_txfifo_is_full :: "(u32, 'b) bus_read \<Rightarrow> ('b, 'c) rtuart_pl011 \<Rightarrow> (bool \<times> ('b, 'c) rtuart_pl011) option" where
  "rp_txfifo_is_full rd s = rp_flag PL011_FR_ISTXFIFOFULL rd s"

definition rp_txfifo_is_empty :: "(u32, 'b) bus_read \<Rightarrow> ('b, 'c) rtuart_pl011 \<Rightarrow> (bool \<times> ('b, 'c) rtuart_pl011) option" where
  "rp_txfifo_is_empty rd s = rp_flag PL011_FR_ISTXFIFOEMPTY rd s"

definition rp_rxfifo_is_full :: "(u32, 'b) bus_read \<Rightarrow> ('b, 'c) rtuart_pl011 \<Rightarrow> (bool \<times> ('b, 'c) rtuart_pl011) option" where
  "rp_rxfifo_is_full rd s = rp_flag PL011_FR_ISRXFIFOFULL rd s"

definition rp_rxfifo_is_empty :: "(u32, 'b) bus_read \<Rightarrow> ('b, 'c) rtuart_pl011 \<Rightarrow> (bool \<times> ('b, 'c) rtuart_pl011) option" where
  "rp_rxfifo_is_empty rd s = rp_flag PL011_FR_ISRXFIFOEMPTY rd s"

text \<open>Here the program ends when the flag cannot be read.\<close>

definition rp_tx_is_not_empty :: "(u32, 'b) bus_read \<Rightarrow> ('b, 'c) rtuart_pl011 \<Rightarrow> (bool \<times> ('b, 'c) rtuart_pl011) option" where
  "rp_tx_is_not_empty rd s = do { (fr, s) \<leftarrow> rp_get rd PL011_REG_FR s; Some (PL011_FR_ISTXBUSY fr, s) }"

definition rx_fifo_level_value :: "int \<Rightarrow> u32" where
  "rx_fifo_level_value level =
     (if level \<le> 2 then PL011_IFLS_RXIFLSEL_2BYTE else if level \<le> 4 then PL011_IFLS_RXIFLSEL_4BYTE
      else if level \<le> 8 then PL011_IFLS_RXIFLSEL_8BYTE else if level \<le> 12 then PL011_IFLS_RXIFLSEL_12BYTE
      else PL011_IFLS_RXIFLSEL_14BYTE)"

definition spl011_set_rx_fifo_level ::
  "(u32, 'b) bus_read \<Rightarrow> (u32, 'b) bus_write \<Rightarrow> int \<Rightarrow> ('b, 'c) rtuart_pl011 \<Rightarrow> ('b, 'c) rtuart_pl011 option" where
  "spl011_set_rx_fifo_level rd wr level s = map_option snd
     (rp_change_register rd wr PL011_REG_IFLS PL011_IFLS_RXIFLSEL_MASK (rx_fifo_level_value level) s)"

text \<open>The case of 14 octets can not be reached with two bits.\<close>

definition spl011_rx_fifo_level :: "(u32, 'b) bus_read \<Rightarrow> ('b, 'c) rtuart_pl011 \<Rightarrow> (int \<times> ('b, 'c) rtuart_pl011) option" where
  "spl011_rx_fifo_level rd s = do {
     (value, s) \<leftarrow> rp_read rd PL011_REG_IFLS s;
     Some (case value of
       None \<Rightarrow> -1
     | Some v \<Rightarrow>
         let c = v AND PL011_IFLS_RXIFLSEL_MASK in
         if c = PL011_IFLS_RXIFLSEL_2BYTE then 2 else if c = PL011_IFLS_RXIFLSEL_4BYTE then 4
         else if c = PL011_IFLS_RXIFLSEL_8BYTE then 8 else if c = PL011_IFLS_RXIFLSEL_12BYTE then 12
         else if c = PL011_IFLS_RXIFLSEL_14BYTE then 14 else -1, s) }"

definition tx_fifo_level_value :: "int \<Rightarrow> u32" where
  "tx_fifo_level_value level =
     (if level < 4 then PL011_IFLS_TXIFLSEL_2BYTE else if level < 8 then PL011_IFLS_TXIFLSEL_4BYTE
      else if level < 12 then PL011_IFLS_TXIFLSEL_8BYTE else if level < 14 then PL011_IFLS_TXIFLSEL_12BYTE
      else PL011_IFLS_TXIFLSEL_14BYTE)"

definition spl011_set_tx_fifo_level ::
  "(u32, 'b) bus_read \<Rightarrow> (u32, 'b) bus_write \<Rightarrow> int \<Rightarrow> ('b, 'c) rtuart_pl011 \<Rightarrow> ('b, 'c) rtuart_pl011 option" where
  "spl011_set_tx_fifo_level rd wr level s = map_option snd
     (rp_change_register rd wr PL011_REG_IFLS PL011_IFLS_TXIFLSEL_MASK (tx_fifo_level_value level) s)"

definition spl011_tx_fifo_level :: "(u32, 'b) bus_read \<Rightarrow> ('b, 'c) rtuart_pl011 \<Rightarrow> (int \<times> ('b, 'c) rtuart_pl011) option" where
  "spl011_tx_fifo_level rd s = do {
     (value, s) \<leftarrow> rp_read rd PL011_REG_IFLS s;
     Some (case value of
       None \<Rightarrow> -1
     | Some v \<Rightarrow>
         let c = v AND PL011_IFLS_TXIFLSEL_MASK in
         if c = PL011_IFLS_TXIFLSEL_2BYTE then 2 else if c = PL011_IFLS_TXIFLSEL_4BYTE then 4
         else if c = PL011_IFLS_TXIFLSEL_8BYTE then 8 else if c = PL011_IFLS_TXIFLSEL_12BYTE then 12
         else if c = PL011_IFLS_TXIFLSEL_14BYTE then 14 else -1, s) }"

definition rp_set_fifo_enable ::
  "(u32, 'b) bus_read \<Rightarrow> (u32, 'b) bus_write \<Rightarrow> bool \<Rightarrow> ('b, 'c) rtuart_pl011 \<Rightarrow> ('b, 'c) rtuart_pl011 option" where
  "rp_set_fifo_enable rd wr on s = do {
     (ok, s) \<leftarrow> rp_change_register rd wr PL011_REG_LCRH PL011_LCRH_FEN (if on then PL011_LCRH_FEN else 0) s;
     if \<not> ok then Some s
     else do {
       s \<leftarrow> spl011_set_rx_fifo_level rd wr 4 s;
       spl011_set_tx_fifo_level rd wr 8 s } }"

definition rp_mod_control ::
  "(u32, 'b) bus_read \<Rightarrow> (u32, 'b) bus_write \<Rightarrow> u32 \<Rightarrow> u32 \<Rightarrow> u32 \<Rightarrow> u32 \<Rightarrow> ('b, 'c) rtuart_pl011 \<Rightarrow>
   (bool \<times> ('b, 'c) rtuart_pl011) option" where
  "rp_mod_control rd wr lcrh_mask lcrh_value cr_mask cr_value s = do {
     (ok, s) \<leftarrow> rp_change_register rd wr PL011_REG_LCRH lcrh_mask lcrh_value s;
     if \<not> ok then Some (False, s) else rp_change_register rd wr PL011_REG_CR cr_mask cr_value s }"

definition rp_enable_uart ::
  "(u32, 'b) bus_read \<Rightarrow> (u32, 'b) bus_write \<Rightarrow> bool \<Rightarrow> ('b, 'c) rtuart_pl011 \<Rightarrow> ('b, 'c) rtuart_pl011 option" where
  "rp_enable_uart rd wr on s = map_option snd
     (rp_mod_control rd wr 0 0 (PL011_CR_RXE OR PL011_CR_TXE OR PL011_CR_UARTEN)
        (if on then PL011_CR_RXE OR PL011_CR_TXE OR PL011_CR_UARTEN else 0) s)"

section \<open>Baud rate and format\<close>

text \<open>Both products wrap around at 32 bits. Dividing by zero is a fault.\<close>

definition rp_divisor :: "u32 \<Rightarrow> u32 \<Rightarrow> u32 option" where
  "rp_divisor base_clock baudrate = (
     if 16 * baudrate = 0 then None
     else Some ((base_clock * 64) div (16 * baudrate)))"

definition rp_set_baudrate ::
  "(u32, 'b) bus_read \<Rightarrow> (u32, 'b) bus_write \<Rightarrow> u32 \<Rightarrow> ('b, 'c) rtuart_pl011 \<Rightarrow> ('b, 'c) rtuart_pl011 option" where
  "rp_set_baudrate rd wr baudrate s = do {
     divisor \<leftarrow> rp_divisor (r_base_clock s) baudrate;
     s \<leftarrow> rp_put wr PL011_REG_IBRD (ucast (ucast (drop_bit 6 divisor) :: u16)) s;
     s \<leftarrow> rp_put wr PL011_REG_FBRD (divisor AND 0x63) s;
     (lcrh, s) \<leftarrow> rp_read rd PL011_REG_LCRH s;
     (case lcrh of Some v \<Rightarrow> rp_put wr PL011_REG_LCRH v s | None \<Rightarrow> Some s) }"

definition rp_get_baudrate :: "(u32, 'b) bus_read \<Rightarrow> ('b, 'c) rtuart_pl011 \<Rightarrow> (u32 \<times> ('b, 'c) rtuart_pl011) option" where
  "rp_get_baudrate rd s = do {
     (ibrd, s) \<leftarrow> rp_get rd PL011_REG_IBRD s;
     (fbrd, s) \<leftarrow> rp_get rd PL011_REG_FBRD s;
     let divisor = (push_bit 6 (ibrd AND 0xffff)) OR (fbrd AND 0x3f);
     if 16 * divisor = 0 then None
     else Some ((r_base_clock s * 64) div (16 * divisor), s) }"

definition rp_format_value :: "int \<Rightarrow> char \<Rightarrow> int \<Rightarrow> u32" where
  "rp_format_value databits parity stopbits =
     (push_bit 5 (word_of_int (databits - 5)) AND PL011_LCRH_WLEN_MASK) OR
     (if parity = CHR ''e'' then PL011_LCRH_PEN OR PL011_LCRH_EPS else if parity = CHR ''o'' then PL011_LCRH_PEN else 0) OR
     (if stopbits > 1 then PL011_LCRH_STP2 else 0)"

definition rp_format_mask :: u32 where
  "rp_format_mask = PL011_LCRH_WLEN_MASK OR PL011_LCRH_PEN OR PL011_LCRH_EPS OR PL011_LCRH_STP2"

definition rp_set_format ::
  "(u32, 'b) bus_read \<Rightarrow> (u32, 'b) bus_write \<Rightarrow> int \<Rightarrow> char \<Rightarrow> int \<Rightarrow> ('b, 'c) rtuart_pl011 \<Rightarrow> ('b, 'c) rtuart_pl011 option" where
  "rp_set_format rd wr databits parity stopbits s = map_option snd
     (rp_change_register rd wr PL011_REG_LCRH rp_format_mask (rp_format_value databits parity stopbits) s)"

definition rp_get_format ::
  "(u32, 'b) bus_read \<Rightarrow> ('b, 'c) rtuart_pl011 \<Rightarrow> ((int \<times> char \<times> int) option \<times> ('b, 'c) rtuart_pl011) option" where
  "rp_get_format rd s = do {
     (lcr, s) \<leftarrow> rp_read rd PL011_REG_LCRH s;
     Some (map_option (\<lambda>lcr. (uint (drop_bit 5 lcr AND 3) + 5,
              if lcr AND PL011_LCRH_PEN \<noteq> 0 then if lcr AND PL011_LCRH_EPS \<noteq> 0 then CHR ''e'' else CHR ''o'' else CHR ''n'',
              if lcr AND PL011_LCRH_STP2 \<noteq> 0 then 2 else 1)) lcr, s) }"

section \<open>Handshake and controls\<close>

text \<open>The values 1 and 3 of \<open>rtuart_handshake_t\<close> use RTS and CTS.\<close>

definition rp_set_handshake ::
  "(u32, 'b) bus_read \<Rightarrow> (u32, 'b) bus_write \<Rightarrow> int \<Rightarrow> ('b, 'c) rtuart_pl011 \<Rightarrow> ('b, 'c) rtuart_pl011 option" where
  "rp_set_handshake rd wr hs s = map_option snd
     (rp_mod_control rd wr 0 0 (PL011_CR_CTSEN OR PL011_CR_RTSEN)
        (if hs = 1 \<or> hs = 3 then PL011_CR_CTSEN OR PL011_CR_RTSEN else 0) s)"

definition control_to_pl011_lcrh :: "u32 \<Rightarrow> u32" where
  "control_to_pl011_lcrh control_mask = (if control_mask AND RTUART_CONTROL_BREAK \<noteq> 0 then PL011_LCRH_BRK else 0)"

definition control_to_pl011_cr :: "u32 \<Rightarrow> u32" where
  "control_to_pl011_cr control_mask =
     (if control_mask AND RTUART_CONTROL_RTS \<noteq> 0 then PL011_CR_RTS else 0) OR
     (if control_mask AND RTUART_CONTROL_DTR \<noteq> 0 then PL011_CR_DTR else 0) OR
     (if control_mask AND RTUART_CONTROL_OUT1 \<noteq> 0 then PL011_CR_OUT1 else 0) OR
     (if control_mask AND RTUART_CONTROL_OUT2 \<noteq> 0 then PL011_CR_OUT2 else 0) OR
     (if control_mask AND RTUART_CONTROL_LOOP \<noteq> 0 then PL011_CR_LBE else 0)"

definition rp_set_control ::
  "(u32, 'b) bus_read \<Rightarrow> (u32, 'b) bus_write \<Rightarrow> u32 \<Rightarrow> ('b, 'c) rtuart_pl011 \<Rightarrow> ('b, 'c) rtuart_pl011 option" where
  "rp_set_control rd wr control_mask s = (
     let lcrh = control_to_pl011_lcrh control_mask; cr = control_to_pl011_cr control_mask
     in map_option snd (rp_mod_control rd wr lcrh lcrh cr cr s))"

definition rp_clr_control ::
  "(u32, 'b) bus_read \<Rightarrow> (u32, 'b) bus_write \<Rightarrow> u32 \<Rightarrow> ('b, 'c) rtuart_pl011 \<Rightarrow> ('b, 'c) rtuart_pl011 option" where
  "rp_clr_control rd wr control_mask s = (
     let lcrh = control_to_pl011_lcrh control_mask; cr = control_to_pl011_cr control_mask
     in map_option snd (rp_mod_control rd wr lcrh 0 cr 0 s))"

definition lcrh_to_control :: "u32 \<Rightarrow> u32" where
  "lcrh_to_control lcrh = (if lcrh AND PL011_LCRH_BRK \<noteq> 0 then RTUART_CONTROL_BREAK else 0)"

definition cr_to_control :: "u32 \<Rightarrow> u32" where
  "cr_to_control cr =
     (if cr AND PL011_CR_RTS \<noteq> 0 then RTUART_CONTROL_RTS else 0) OR
     (if cr AND PL011_CR_DTR \<noteq> 0 then RTUART_CONTROL_DTR else 0) OR
     (if cr AND PL011_CR_OUT1 \<noteq> 0 then RTUART_CONTROL_OUT1 else 0) OR
     (if cr AND PL011_CR_OUT2 \<noteq> 0 then RTUART_CONTROL_OUT2 else 0) OR
     (if cr AND PL011_CR_LBE \<noteq> 0 then RTUART_CONTROL_LOOP else 0)"

definition rp_get_control :: "(u32, 'b) bus_read \<Rightarrow> ('b, 'c) rtuart_pl011 \<Rightarrow> (u32 \<times> ('b, 'c) rtuart_pl011) option" where
  "rp_get_control rd s = do {
     (lcrh, s) \<leftarrow> rp_read rd PL011_REG_LCRH s;
     (cr, s) \<leftarrow> rp_read rd PL011_REG_CR s;
     Some ((case lcrh of None \<Rightarrow> 0 | Some v \<Rightarrow> lcrh_to_control v) OR (case cr of None \<Rightarrow> 0 | Some v \<Rightarrow> cr_to_control v), s) }"

section \<open>Notifications\<close>

definition rp_imsc_of :: "u32 \<Rightarrow> u32" where
  "rp_imsc_of n =
     (if n AND RTUART_NOTIFY_RECEIVER_HASDATA \<noteq> 0 \<or> n AND RTUART_NOTIFY_RECEIVER_TIMEOUT \<noteq> 0
      then PL011_MIS_RT OR PL011_MIS_RX else 0) OR
     (if n AND RTUART_NOTIFY_TRANSMITTER_READY \<noteq> 0 then PL011_MIS_TX else 0) OR
     (if n AND RTUART_NOTIFY_TRANSMITTER_EMPTY \<noteq> 0 then PL011_MIS_TX else 0) OR
     (if n AND RTUART_NOTIFY_RECEIVER_EVENT \<noteq> 0 then PL011_MIS_OE OR PL011_MIS_BE OR PL011_MIS_PE OR PL011_MIS_FE else 0) OR
     (if n AND RTUART_NOTIFY_RECEIVER_EVENT \<noteq> 0 then PL011_MIS_CTS else 0)"

definition rp_rxe_of :: "u32 \<Rightarrow> u32" where
  "rp_rxe_of n =
     (if n AND (RTUART_NOTIFY_RECEIVER_HASDATA OR RTUART_NOTIFY_RECEIVER_TIMEOUT OR RTUART_NOTIFY_RECEIVER_EVENT) \<noteq> 0
      then PL011_CR_RXE else 0)"

text \<open>The interrupt mask is read when the transmitter is asked for; nothing uses the value.\<close>

definition rp_update_notification ::
  "(u32, 'b) bus_read \<Rightarrow> (u32, 'b) bus_write \<Rightarrow> ('b, 'c) rtuart_pl011 \<Rightarrow> ('b, 'c) rtuart_pl011 option" where
  "rp_update_notification rd wr s = do {
     s \<leftarrow> (if r_notify_mask s AND RTUART_NOTIFY_TRANSMITTER_READY \<noteq> 0
          then map_option snd (rp_read rd PL011_REG_IMSC s) else Some s);
     (_, s) \<leftarrow> rp_change_register rd wr PL011_REG_CR (PL011_CR_RXE OR PL011_CR_TXE)
                (rp_rxe_of (r_notify_mask s) OR PL011_CR_TXE) s;
     rp_put wr PL011_REG_IMSC (rp_imsc_of (r_notify_mask s)) s }"

definition rp_change_notify ::
  "(u32, 'b) bus_read \<Rightarrow> (u32, 'b) bus_write \<Rightarrow> u32 \<Rightarrow> ('b, 'c) rtuart_pl011 \<Rightarrow> ('b, 'c) rtuart_pl011 option" where
  "rp_change_notify rd wr new_notify s = (
     if r_notify_mask s \<noteq> new_notify then
       (let s = s\<lparr>r_notify_mask := new_notify\<rparr> in if \<not> r_in_irq s then rp_update_notification rd wr s else Some s)
     else Some s)"

definition rp_set_notify ::
  "(u32, 'b) bus_read \<Rightarrow> (u32, 'b) bus_write \<Rightarrow> u32 \<Rightarrow> ('b, 'c) rtuart_pl011 \<Rightarrow> ('b, 'c) rtuart_pl011 option" where
  "rp_set_notify rd wr notify s = rp_change_notify rd wr (r_notify_mask s OR notify) s"

definition rp_clr_notify ::
  "(u32, 'b) bus_read \<Rightarrow> (u32, 'b) bus_write \<Rightarrow> u32 \<Rightarrow> ('b, 'c) rtuart_pl011 \<Rightarrow> ('b, 'c) rtuart_pl011 option" where
  "rp_clr_notify rd wr notify s = rp_change_notify rd wr (r_notify_mask s AND NOT notify) s"

definition rp_get_notify :: "('b, 'c) rtuart_pl011 \<Rightarrow> u32" where
  "rp_get_notify s = r_notify_mask s"

section \<open>Starting and stopping buffers\<close>

text \<open>\<open>tasklet_schedule\<close> puts the tasklet of the driver into the list unless it is there already.\<close>

definition rp_schedule :: "('b, 'c) rtuart_pl011 \<Rightarrow> ('b, 'c) rtuart_pl011" where
  "rp_schedule s = s\<lparr>p_scheduled := True\<rparr>"

definition rp_tx_written :: "addr \<Rightarrow> ('b, 'c) rtuart_pl011 \<Rightarrow> nat option" where
  "rp_tx_written a s = map_option rb_transfered (get_buffer a s)"

definition rp_tx_stop :: "addr \<Rightarrow> bool \<Rightarrow> ('b, 'c) rtuart_pl011 \<Rightarrow> (nat option \<times> ('b, 'c) rtuart_pl011) option" where
  "rp_tx_stop a want s = (
     if r_tx_buffer s = a then do {
       n \<leftarrow> (if want then map_option Some (rp_tx_written (r_tx_buffer s) s) else Some None);
       Some (n, s\<lparr>r_tx_buffer := 0\<rparr>) }
     else Some (None, s))"

definition rp_tx_start ::
  "(u32, 'b) bus_read \<Rightarrow> (u32, 'b) bus_write \<Rightarrow> addr \<Rightarrow> ('b, 'c) rtuart_pl011 \<Rightarrow> ('b, 'c) rtuart_pl011 option" where
  "rp_tx_start rd wr a s = do {
     b \<leftarrow> get_buffer a s;
     let s = put_buffer a (b\<lparr>rb_transfered := 0\<rparr>) s;
     if rb_validcount b > rb_size b then Some s
     else do {
       s \<leftarrow> (if r_tx_buffer s \<noteq> 0 then map_option snd (rp_tx_stop a True s) else Some s);
       if r_tx_buffer s = 0
       then map_option rp_schedule (rp_set_notify rd wr RTUART_NOTIFY_TRANSMITTER_READY
              (s\<lparr>r_tx_buffer := a, p_do_tx_polling := False\<rparr>))
       else Some s } }"

definition rp_rx_stop ::
  "(u32, 'b) bus_read \<Rightarrow> (u32, 'b) bus_write \<Rightarrow> addr \<Rightarrow> ('b, 'c) rtuart_pl011 \<Rightarrow> (int \<times> ('b, 'c) rtuart_pl011) option" where
  "rp_rx_stop rd wr a s = do {
     s \<leftarrow> rp_clr_notify rd wr (RTUART_NOTIFY_RECEIVER_HASDATA OR RTUART_NOTIFY_RECEIVER_TIMEOUT) (s\<lparr>r_rx_buffer := 0\<rparr>);
     Some (0, s) }"

definition rp_rx_start ::
  "(u32, 'b) bus_read \<Rightarrow> (u32, 'b) bus_write \<Rightarrow> addr \<Rightarrow> ('b, 'c) rtuart_pl011 \<Rightarrow> ('b, 'c) rtuart_pl011 option" where
  "rp_rx_start rd wr a s = do {
     s \<leftarrow> (if r_rx_buffer s \<noteq> 0 then map_option snd (rp_rx_stop rd wr (r_rx_buffer s) s) else Some s);
     b \<leftarrow> get_buffer a s;
     rp_set_notify rd wr (RTUART_NOTIFY_RECEIVER_HASDATA OR RTUART_NOTIFY_RECEIVER_TIMEOUT)
       ((put_buffer a (b\<lparr>rb_transfered := 0\<rparr>) s)\<lparr>r_rx_buffer := a\<rparr>) }"

section \<open>Transmitting\<close>

text \<open>One octet of the copy loop, with whether there is more to do.\<close>

definition rp_copy_octet ::
  "(u32, 'b) bus_read \<Rightarrow> (u32, 'b) bus_write \<Rightarrow> addr \<Rightarrow> ('b, 'c) rtuart_pl011 \<Rightarrow> (bool \<times> ('b, 'c) rtuart_pl011) option" where
  "rp_copy_octet rd wr a s = do {
     (full, s) \<leftarrow> rp_txfifo_is_full rd s;
     if full then Some (False, s)
     else do {
       b \<leftarrow> get_buffer a s;
       if rb_transfered b \<ge> rb_validcount b \<or> rb_transfered b \<ge> rb_size b then Some (False, s)
       else do {
         d \<leftarrow> rb_data b;
         c \<leftarrow> arr_get d (rb_transfered b);
         s \<leftarrow> rp_put wr PL011_REG_DR (ucast c) (put_buffer a (b\<lparr>rb_transfered := rb_transfered b + 1\<rparr>) s);
         Some (True, s) } } }"

partial_function (option) rp_copy_from_buffer_to_transmitter ::
  "(u32, 'b) bus_read \<Rightarrow> (u32, 'b) bus_write \<Rightarrow> addr \<Rightarrow> nat \<Rightarrow> ('b, 'c) rtuart_pl011 \<Rightarrow> (nat \<times> ('b, 'c) rtuart_pl011) option" where
  "rp_copy_from_buffer_to_transmitter rd wr a copied s = do {
     (more, s) \<leftarrow> rp_copy_octet rd wr a s;
     if more then rp_copy_from_buffer_to_transmitter rd wr a (copied + 1) s else Some (copied, s) }"

text \<open>One round of the loop over buffers; the client starts the next buffer in its callbacks.\<close>

definition rp_send_round ::
  "('b, 'c) rtuart_pl011 rtuart_callbacks option \<Rightarrow> (u32, 'b) bus_read \<Rightarrow> (u32, 'b) bus_write \<Rightarrow> ('b, 'c) rtuart_pl011 \<Rightarrow>
   (bool \<times> ('b, 'c) rtuart_pl011) option" where
  "rp_send_round cb rd wr s = do {
     s \<leftarrow> (if r_tx_buffer s \<noteq> 0 then do {
            b \<leftarrow> get_buffer (r_tx_buffer s) s;
            if rb_transfered b = 0 then rtuart_call_tx_start cb (r_tx_buffer s) s else Some s }
          else Some s);
     (copied, s) \<leftarrow> rp_copy_from_buffer_to_transmitter rd wr (r_tx_buffer s) 0 s;
     all_sent \<leftarrow> buffer_is_complete (r_tx_buffer s) s;
     s \<leftarrow> (if all_sent then rt_tx_complete cb s else Some s);
     if copied > 0 then do {
       (full, s) \<leftarrow> rp_txfifo_is_full rd s;
       if \<not> full \<and> r_notify_mask s AND RTUART_NOTIFY_TRANSMITTER_READY \<noteq> 0 \<and> r_tx_buffer s \<noteq> 0 then do {
         b \<leftarrow> get_buffer (r_tx_buffer s) s;
         Some (rb_transfered b = 0, s) }
       else Some (False, s) }
     else Some (False, s) }"

partial_function (option) rp_send_as_much_as_possible ::
  "('b, 'c) rtuart_pl011 rtuart_callbacks option \<Rightarrow> (u32, 'b) bus_read \<Rightarrow> (u32, 'b) bus_write \<Rightarrow> ('b, 'c) rtuart_pl011 \<Rightarrow>
   ('b, 'c) rtuart_pl011 option" where
  "rp_send_as_much_as_possible cb rd wr s = do {
     (more, s) \<leftarrow> rp_send_round cb rd wr s;
     if more then rp_send_as_much_as_possible cb rd wr s else Some s }"

text \<open>The number of octets left is taken as an \<open>int\<close>.\<close>

definition rp_fill_transmitter ::
  "('b, 'c) rtuart_pl011 rtuart_callbacks option \<Rightarrow> (u32, 'b) bus_read \<Rightarrow> (u32, 'b) bus_write \<Rightarrow> ('b, 'c) rtuart_pl011 \<Rightarrow>
   ('b, 'c) rtuart_pl011 option" where
  "rp_fill_transmitter cb rd wr s = do {
     b \<leftarrow> get_buffer (r_tx_buffer s) s;
     let remaining_tx_count = sint (word_of_int (int (rb_validcount b) - int (rb_transfered b)) :: u32);
     s \<leftarrow> (if remaining_tx_count < 2 + 2 then Some (s\<lparr>p_do_tx_polling := True\<rparr>)
          else spl011_set_tx_fifo_level rd wr (remaining_tx_count - 2) (s\<lparr>p_do_tx_polling := False\<rparr>));
     rp_send_as_much_as_possible cb rd wr s }"

definition rp_handle_transmitter_empty ::
  "('b, 'c) rtuart_pl011 rtuart_callbacks option \<Rightarrow> (u32, 'b) bus_read \<Rightarrow> (u32, 'b) bus_write \<Rightarrow> ('b, 'c) rtuart_pl011 \<Rightarrow>
   ('b, 'c) rtuart_pl011 option" where
  "rp_handle_transmitter_empty cb rd wr s =
     (if r_notify_mask s AND RTUART_NOTIFY_TRANSMITTER_READY \<noteq> 0 then rp_fill_transmitter cb rd wr s else Some s)"

section \<open>Receiving\<close>

definition buffer_full :: "rtuart_buffer \<Rightarrow> bool" where
  "buffer_full b \<longleftrightarrow> rb_transfered b \<ge> rb_validcount b \<or> rb_transfered b \<ge> rb_size b"

text \<open>An octet while data is asked for: into the buffer, or to the client when there is no room. \<open>a\<close> is the buffer
  that was active when the handler was entered.\<close>

definition rp_store_octet ::
  "('b, 'c) rtuart_pl011 rtuart_callbacks option \<Rightarrow> addr \<Rightarrow> u8 \<Rightarrow> ('b, 'c) rtuart_pl011 \<Rightarrow> ('b, 'c) rtuart_pl011 option" where
  "rp_store_octet cb a v s = do {
     full \<leftarrow> (if a = 0 then Some True else map_option buffer_full (get_buffer a s));
     if full then rtuart_call_rx_char cb (ucast v) (s\<lparr>r_notify_mask := r_notify_mask s AND NOT RTUART_NOTIFY_RECEIVER_HASDATA\<rparr>)
     else do {
       b \<leftarrow> get_buffer a s;
       d \<leftarrow> rb_data b;
       d \<leftarrow> arr_set d (rb_transfered b) v;
       rt_rx_triggers cb a (put_buffer a (b\<lparr>rb_data := Some d, rb_transfered := rb_transfered b + 1\<rparr>) s) } }"

definition rp_after_octet ::
  "('b, 'c) rtuart_pl011 rtuart_callbacks option \<Rightarrow> addr \<Rightarrow> bool \<Rightarrow> ('b, 'c) rtuart_pl011 \<Rightarrow> ('b, 'c) rtuart_pl011 option" where
  "rp_after_octet cb a due_to_timeout s = (
     if a = 0 then Some s
     else do {
       b \<leftarrow> get_buffer a s;
       if buffer_full b
       then rtuart_call_rx_end cb a
              (s\<lparr>r_rx_buffer := 0, r_notify_mask := r_notify_mask s AND NOT RTUART_NOTIFY_RECEIVER_HASDATA\<rparr>)
       else if due_to_timeout then rtuart_call_rx_timeout cb a s else Some s })"

definition PL011_DR_ERRORS :: u32 where
  "PL011_DR_ERRORS = PL011_DR_OE OR PL011_DR_BE OR PL011_DR_PE OR PL011_DR_FE OR PL011_DR_OE"

text \<open>What was read from the data register. The error callback is called without a test.\<close>

definition rp_receive_word ::
  "('b, 'c) rtuart_pl011 rtuart_callbacks option \<Rightarrow> addr \<Rightarrow> bool \<Rightarrow> u32 \<Rightarrow> ('b, 'c) rtuart_pl011 \<Rightarrow> ('b, 'c) rtuart_pl011 option" where
  "rp_receive_word cb a due_to_timeout d s = (
     if d AND PL011_DR_ERRORS \<noteq> 0 then
       (let event = pl011_dr_to_event (ucast d) in
        if event \<noteq> 0 then do { f \<leftarrow> Option.bind cb cb_rx_err; f event s } else Some s)
     else if r_notify_mask s AND RTUART_NOTIFY_RECEIVER_HASDATA \<noteq> 0 then do {
       s \<leftarrow> rp_store_octet cb a (ucast d) s;
       rp_after_octet cb a due_to_timeout s }
     else Some s)"

partial_function (option) rp_handle_received_data ::
  "('b, 'c) rtuart_pl011 rtuart_callbacks option \<Rightarrow> (u32, 'b) bus_read \<Rightarrow> addr \<Rightarrow> bool \<Rightarrow> ('b, 'c) rtuart_pl011 \<Rightarrow>
   ('b, 'c) rtuart_pl011 option" where
  "rp_handle_received_data cb rd a due_to_timeout s = do {
     (none, s) \<leftarrow> rp_rxfifo_is_empty rd s;
     if none then Some s
     else do {
       (d, s) \<leftarrow> rp_read rd PL011_REG_DR s;
       (case d of
          None \<Rightarrow> Some s
        | Some d \<Rightarrow> do {
            s \<leftarrow> rp_receive_word cb a due_to_timeout d s;
            rp_handle_received_data cb rd a due_to_timeout s }) } }"

section \<open>The interrupt handler\<close>

definition ERRORS_INT_MASK :: u32 where
  "ERRORS_INT_MASK = PL011_MIS_OE OR PL011_MIS_BE OR PL011_MIS_PE OR PL011_MIS_FE"

definition rp_call_rx_err ::
  "'r rtuart_callbacks option \<Rightarrow> u32 \<Rightarrow> 'r \<Rightarrow> 'r option" where
  "rp_call_rx_err cb errmask s = (case Option.bind cb cb_rx_err of Some f \<Rightarrow> f errmask s | None \<Rightarrow> Some s)"

text \<open>No cause is left: the result tells whether the handler loops until the transmitter is empty.\<close>

definition rp_idle ::
  "('b, 'c) rtuart_pl011 rtuart_callbacks option \<Rightarrow> (u32, 'b) bus_read \<Rightarrow> ('b, 'c) rtuart_pl011 \<Rightarrow>
   (bool \<times> ('b, 'c) rtuart_pl011) option" where
  "rp_idle cb rd s = do {
     all_sent \<leftarrow> (if r_notify_mask s AND RTUART_NOTIFY_TRANSMITTER_EMPTY \<noteq> 0
                 then buffer_is_complete (r_tx_buffer s) s else Some False);
     if \<not> all_sent then Some (False, s)
     else do {
       (none, s) \<leftarrow> rp_txfifo_is_empty rd s;
       if \<not> none then Some (False, s\<lparr>p_do_tx_polling := True\<rparr>)
       else do {
         (busy, s) \<leftarrow> rp_tx_is_not_empty rd s;
         if busy then Some (True, s)
         else do {
           s' \<leftarrow> rtuart_call_tx_end2 cb (r_tx_buffer s)
                   (s\<lparr>r_notify_mask := r_notify_mask s AND NOT RTUART_NOTIFY_TRANSMITTER_EMPTY, r_tx_buffer := 0\<rparr>);
           Some (False, s') } } } }"

definition rp_irq_leave ::
  "(u32, 'b) bus_read \<Rightarrow> (u32, 'b) bus_write \<Rightarrow> ('b, 'c) rtuart_pl011 \<Rightarrow> ('b, 'c) rtuart_pl011 option" where
  "rp_irq_leave rd wr s = do {
     s \<leftarrow> rp_update_notification rd wr s;
     let s = s\<lparr>r_in_irq := False\<rparr>;
     Some (if p_do_tx_polling s then rp_schedule s else s) }"

definition PL011_MIS_HANDLED :: u32 where
  "PL011_MIS_HANDLED = PL011_MIS_OE OR PL011_MIS_BE OR PL011_MIS_PE OR PL011_MIS_FE OR PL011_MIS_RT OR PL011_MIS_TX OR
     PL011_MIS_RX OR PL011_MIS_CTS"

text \<open>The change of CTS is reported when the flags could not be read; the value is what the stack held.\<close>

definition rp_cts_changed ::
  "('b, 'c) rtuart_pl011 rtuart_callbacks option \<Rightarrow> (u32, 'b) bus_read \<Rightarrow> u32 \<Rightarrow> ('b, 'c) rtuart_pl011 \<Rightarrow>
   ('b, 'c) rtuart_pl011 option" where
  "rp_cts_changed cb rd stack s = do {
     (fr, s) \<leftarrow> rp_read rd PL011_REG_FR s;
     if fr = None
     then rtuart_call_input_change cb RTUART_EV_CTS_CHANGE (if stack AND PL011_FR_CTS \<noteq> 0 then RTUART_EV_CTS_CHANGE else 0) s
     else Some s }"

definition rp_have_remaining_tx_data :: "('b, 'c) rtuart_pl011 \<Rightarrow> bool option" where
  "rp_have_remaining_tx_data s = (
     if r_tx_buffer s = 0 then Some False
     else map_option (\<lambda>b. rb_transfered b < rb_validcount b) (get_buffer (r_tx_buffer s) s))"

text \<open>The causes, once the transmitter does not have to be filled without one.\<close>

definition rp_irq_causes ::
  "('b, 'c) rtuart_pl011 rtuart_callbacks option \<Rightarrow> (u32, 'b) bus_read \<Rightarrow> (u32, 'b) bus_write \<Rightarrow> u32 \<Rightarrow> u32 \<Rightarrow>
   ('b, 'c) rtuart_pl011 \<Rightarrow> (bool \<times> ('b, 'c) rtuart_pl011) option" where
  "rp_irq_causes cb rd wr stack mis s = (
     if mis AND PL011_MIS_HANDLED = 0 then do {
       (wait, s) \<leftarrow> rp_idle cb rd s;
       if wait then Some (True, s) else map_option (Pair False) (rp_irq_leave rd wr s) }
     else if mis AND (PL011_MIS_RX OR PL011_MIS_RT) \<noteq> 0 then do {
       s \<leftarrow> rp_put wr PL011_REG_ICR (mis AND (PL011_MIS_RX OR PL011_MIS_RT)) s;
       map_option (Pair True) (rp_handle_received_data cb rd (r_rx_buffer s) (mis AND PL011_MIS_RT \<noteq> 0) s) }
     else if mis AND ERRORS_INT_MASK \<noteq> 0 then do {
       s \<leftarrow> rp_put wr PL011_REG_ICR (mis AND ERRORS_INT_MASK) s;
       map_option (Pair True) (rp_call_rx_err cb (pl011_is_to_event (mis AND ERRORS_INT_MASK)) s) }
     else if mis AND PL011_MIS_TX \<noteq> 0 then do {
       s \<leftarrow> rp_put wr PL011_REG_ICR PL011_MIS_TX s;
       map_option (Pair True) (rp_handle_transmitter_empty cb rd wr s) }
     else do {
       s \<leftarrow> rp_put wr PL011_REG_ICR PL011_MIS_CTS s;
       map_option (Pair True) (rp_cts_changed cb rd stack s) })"

definition rp_irq_round ::
  "('b, 'c) rtuart_pl011 rtuart_callbacks option \<Rightarrow> (u32, 'b) bus_read \<Rightarrow> (u32, 'b) bus_write \<Rightarrow> u32 \<Rightarrow>
   ('b, 'c) rtuart_pl011 \<Rightarrow> (bool \<times> ('b, 'c) rtuart_pl011) option" where
  "rp_irq_round cb rd wr stack s = do {
     (mis, s) \<leftarrow> rp_get rd PL011_REG_MIS s;
     remaining \<leftarrow> rp_have_remaining_tx_data s;
     (fill, s) \<leftarrow> (if mis AND PL011_MIS_TX = 0 \<and> remaining then rp_txfifo_is_empty rd s else Some (False, s));
     if fill then map_option (Pair True) (rp_fill_transmitter cb rd wr s)
     else rp_irq_causes cb rd wr stack mis s }"

partial_function (option) rp_irq_loop ::
  "('b, 'c) rtuart_pl011 rtuart_callbacks option \<Rightarrow> (u32, 'b) bus_read \<Rightarrow> (u32, 'b) bus_write \<Rightarrow> u32 \<Rightarrow>
   ('b, 'c) rtuart_pl011 \<Rightarrow> ('b, 'c) rtuart_pl011 option" where
  "rp_irq_loop cb rd wr stack s = do {
     (again, s) \<leftarrow> rp_irq_round cb rd wr stack s;
     if again then rp_irq_loop cb rd wr stack s else Some s }"

definition pl011_interrupt_handler_function ::
  "('b, 'c) rtuart_pl011 rtuart_callbacks option \<Rightarrow> (u32, 'b) bus_read \<Rightarrow> (u32, 'b) bus_write \<Rightarrow> u32 \<Rightarrow>
   ('b, 'c) rtuart_pl011 \<Rightarrow> ('b, 'c) rtuart_pl011 option" where
  "pl011_interrupt_handler_function cb rd wr stack s = rp_irq_loop cb rd wr stack (s\<lparr>r_in_irq := True\<rparr>)"

text \<open>The interrupt itself only schedules the tasklet; \<open>run_all_tasklets\<close> takes it off the list and runs the handler.\<close>

definition rp_handle_irq :: "('b, 'c) rtuart_pl011 \<Rightarrow> ('b, 'c) rtuart_pl011" where
  "rp_handle_irq s = rp_schedule s"

definition pl011_irq_tasklet ::
  "('b, 'c) rtuart_pl011 rtuart_callbacks option \<Rightarrow> (u32, 'b) bus_read \<Rightarrow> (u32, 'b) bus_write \<Rightarrow> u32 \<Rightarrow>
   ('b, 'c) rtuart_pl011 \<Rightarrow> ('b, 'c) rtuart_pl011 option" where
  "pl011_irq_tasklet cb rd wr stack s = pl011_interrupt_handler_function cb rd wr stack s"

definition rtuart_pl011_ops ::
  "(u32, 'b) bus_read \<Rightarrow> (u32, 'b) bus_write \<Rightarrow> ('b, 'c) rtuart_pl011 rtuart_ops" where
  "rtuart_pl011_ops rd wr =
     \<lparr>op_set_baudrate = Some (rp_set_baudrate rd wr), op_get_baudrate = Some (rp_get_baudrate rd),
      op_set_format = Some (rp_set_format rd wr), op_set_handshake = Some (rp_set_handshake rd wr),
      op_set_control = Some (rp_set_control rd wr), op_clr_control = Some (rp_clr_control rd wr),
      op_get_control = Some (rp_get_control rd), op_set_notify = Some (rp_set_notify rd wr),
      op_clr_notify = Some (rp_clr_notify rd wr), op_get_notify = Some rp_get_notify,
      op_tx_start = Some (rp_tx_start rd wr), op_tx_stop = Some rp_tx_stop, op_tx_written = Some rp_tx_written,
      op_rx_start = Some (rp_rx_start rd wr), op_rx_stop = Some (rp_rx_stop rd wr),
      op_handle_irq = Some (\<lambda>s. Some (rp_handle_irq s))\<rparr>"

text \<open>The buffer pointers are not initialised: \<open>tx\<close> and \<open>rx\<close> are what the memory held.\<close>

definition rtuart_pl011_create ::
  "(u32, 'b) bus_read \<Rightarrow> (u32, 'b) bus_write \<Rightarrow> (addr \<times> addr) option \<Rightarrow> 'b \<Rightarrow> u32 \<Rightarrow> (addr \<rightharpoonup> rtuart_buffer) \<Rightarrow> 'c \<Rightarrow>
   ('b, 'c) rtuart_pl011 option option" where
  "rtuart_pl011_create rd wr memory bus base_clock_hz buffers client = (case memory of
     None \<Rightarrow> Some None
   | Some (tx, rx) \<Rightarrow> do {
       let s = \<lparr>r_bus = bus, r_notify_mask = 0, r_base_clock = base_clock_hz, r_tx_buffer = tx, r_rx_buffer = rx,
                r_in_irq = False, r_buffers = buffers, r_client = client, p_do_tx_polling = False, p_scheduled = False\<rparr>;
       s \<leftarrow> rp_enable_uart rd wr True s;
       s \<leftarrow> rp_set_fifo_enable rd wr True s;
       s \<leftarrow> rp_update_notification rd wr s;
       Some (Some s) })"

end
