(* ===== verification/Rtuart_Pl011_Regs.thy ===== *)
theory Rtuart_Pl011_Regs
  imports Rtuart_Pl011
begin

text \<open>
  The register operations of the buffered PL011 driver on a bus whose registers hold what was written: the
  controls, the line format, the FIFO levels and the interrupt mask. The lemmas are proved once for every
  bus with this contract and hold for the memory windows of \<open>Mapped_Bus\<close>.
\<close>

section \<open>Bits\<close>

lemma pl011_bits:
  "w AND PL011_LCRH_BRK \<noteq> 0 \<longleftrightarrow> bit w 0" "w AND PL011_CR_RTS \<noteq> 0 \<longleftrightarrow> bit w 11" "w AND PL011_CR_DTR \<noteq> 0 \<longleftrightarrow> bit w 10"
  "w AND PL011_CR_OUT1 \<noteq> 0 \<longleftrightarrow> bit w 12" "w AND PL011_CR_OUT2 \<noteq> 0 \<longleftrightarrow> bit w 13" "w AND PL011_CR_LBE \<noteq> 0 \<longleftrightarrow> bit w 7"
  by (intro single_bit, simp add: pl011_lcrh_defs pl011_cr_defs)+

lemma control_bits:
  "c AND RTUART_CONTROL_LOOP \<noteq> 0 \<longleftrightarrow> bit c 0" "c AND RTUART_CONTROL_BREAK \<noteq> 0 \<longleftrightarrow> bit c 1"
  "c AND RTUART_CONTROL_RTS \<noteq> 0 \<longleftrightarrow> bit c 2" "c AND RTUART_CONTROL_DTR \<noteq> 0 \<longleftrightarrow> bit c 3"
  "c AND RTUART_CONTROL_OUT1 \<noteq> 0 \<longleftrightarrow> bit c 4" "c AND RTUART_CONTROL_OUT2 \<noteq> 0 \<longleftrightarrow> bit c 5"
  by (intro single_bit, simp add: rt_control_defs)+

text \<open>The controls that a mask selects.\<close>

definition all_controls :: u32 where "all_controls = 0x3F"

lemma bit_control_mask:
  "bit (control_to_pl011_cr c) 11 = bit c 2" "bit (control_to_pl011_cr c) 10 = bit c 3"
  "bit (control_to_pl011_cr c) 12 = bit c 4" "bit (control_to_pl011_cr c) 13 = bit c 5"
  "bit (control_to_pl011_cr c) 7 = bit c 0" "bit (control_to_pl011_lcrh c) 0 = bit c 1"
  unfolding control_to_pl011_cr_def control_to_pl011_lcrh_def control_bits pl011_cr_defs pl011_lcrh_defs
  by (simp_all add: bit_or_iff bit_numeral_rec)

lemma control_bit_iff:
  "bit RTUART_CONTROL_LOOP n \<longleftrightarrow> n = 0" "bit RTUART_CONTROL_BREAK n \<longleftrightarrow> n = 1" "bit RTUART_CONTROL_RTS n \<longleftrightarrow> n = 2"
  "bit RTUART_CONTROL_DTR n \<longleftrightarrow> n = 3" "bit RTUART_CONTROL_OUT1 n \<longleftrightarrow> n = 4" "bit RTUART_CONTROL_OUT2 n \<longleftrightarrow> n = 5"
  by (intro bit_power_iff, simp add: rt_control_defs, simp)+

lemma bit_all_controls: "bit all_controls n \<longleftrightarrow> n = 0 \<or> n = 1 \<or> n = 2 \<or> n = 3 \<or> n = 4 \<or> n = 5"
proof -
  have "all_controls = mask 6" by (simp add: all_controls_def mask_eq_exp_minus_1)
  moreover have "bit (mask 6 :: u32) n \<longleftrightarrow> n < 6" by (simp only: bit_mask_iff) auto
  ultimately have "bit all_controls n \<longleftrightarrow> n < 6" by (simp only:)
  then show ?thesis by auto
qed

lemma control_split:
  "c AND all_controls =
     (if bit c 1 then RTUART_CONTROL_BREAK else 0) OR (if bit c 2 then RTUART_CONTROL_RTS else 0) OR
     (if bit c 3 then RTUART_CONTROL_DTR else 0) OR (if bit c 4 then RTUART_CONTROL_OUT1 else 0) OR
     (if bit c 5 then RTUART_CONTROL_OUT2 else 0) OR (if bit c 0 then RTUART_CONTROL_LOOP else 0)"
proof (rule bit_word_eqI)
  fix n :: nat
  assume "n < LENGTH(32)"
  then show "bit (c AND all_controls) n = bit
     ((if bit c 1 then RTUART_CONTROL_BREAK else 0) OR (if bit c 2 then RTUART_CONTROL_RTS else 0) OR
     (if bit c 3 then RTUART_CONTROL_DTR else 0) OR (if bit c 4 then RTUART_CONTROL_OUT1 else 0) OR
     (if bit c 5 then RTUART_CONTROL_OUT2 else 0) OR (if bit c 0 then RTUART_CONTROL_LOOP else 0)) n"
    by (cases "n = 0") (auto simp: bit_and_iff bit_or_iff control_bit_iff bit_all_controls)
qed


text \<open>What the two registers show of the controls, and how setting and clearing a mask changes it.\<close>

definition controls_of :: "u32 \<Rightarrow> u32 \<Rightarrow> u32" where
  "controls_of lcrh cr = lcrh_to_control lcrh OR cr_to_control cr"

lemma bit_controls_of:
  "bit (controls_of lcrh cr) n \<longleftrightarrow> n = 1 \<and> bit lcrh 0 \<or> n = 2 \<and> bit cr 11 \<or> n = 3 \<and> bit cr 10 \<or> n = 4 \<and> bit cr 12 \<or>
     n = 5 \<and> bit cr 13 \<or> n = 0 \<and> bit cr 7"
  unfolding controls_of_def lcrh_to_control_def cr_to_control_def pl011_bits
  by (auto simp: bit_or_iff control_bit_iff)

lemma controls_set:
  "controls_of ((lcrh AND NOT (control_to_pl011_lcrh c)) OR (control_to_pl011_lcrh c AND control_to_pl011_lcrh c))
     ((cr AND NOT (control_to_pl011_cr c)) OR (control_to_pl011_cr c AND control_to_pl011_cr c)) =
   controls_of lcrh cr OR (c AND all_controls)"
  by (rule bit_word_eqI)
     (auto simp: bit_controls_of bit_or_iff bit_and_iff bit_not_iff bit_control_mask bit_all_controls)

lemma controls_clr:
  "controls_of ((lcrh AND NOT (control_to_pl011_lcrh c)) OR (0 AND control_to_pl011_lcrh c))
     ((cr AND NOT (control_to_pl011_cr c)) OR (0 AND control_to_pl011_cr c)) =
   controls_of lcrh cr AND NOT c"
  by (rule bit_word_eqI)
     (auto simp: bit_controls_of bit_or_iff bit_and_iff bit_not_iff bit_control_mask)


section \<open>Register changes\<close>

context pl011_bus
begin

lemma change_val:
  assumes "ok (r_bus s)" and "0 \<le> r" and "r < 18"
  shows "\<exists>b'. rp_change_register rd wr r m v s = Some (True, s\<lparr>r_bus := b'\<rparr>) \<and> ok b' \<and>
     (\<forall>q. 0 \<le> q \<longrightarrow> q < 18 \<longrightarrow> val b' q = ((val (r_bus s))(r := (val (r_bus s) r AND NOT m) OR (v AND m))) q)"
proof (cases "m = 0 \<or> (val (r_bus s) r AND NOT m) OR (v AND m) = val (r_bus s) r")
  case True
  then show ?thesis
    using assms lim rd_val [of "r_bus s" r]
    by (intro exI [of _ "r_bus s"]) (auto simp: rp_change_register_def rp_read_def)
next
  case False
  obtain b' where "wr r ((val (r_bus s) r AND NOT m) OR (v AND m)) (r_bus s) = Some (True, b')" "ok b'"
     "\<forall>q. 0 \<le> q \<longrightarrow> q < limit \<longrightarrow> val b' q = ((val (r_bus s))(r := (val (r_bus s) r AND NOT m) OR (v AND m))) q"
    using wr_val [of "r_bus s" r] assms lim by fastforce
  then show ?thesis
    using False assms lim rd_val [of "r_bus s" r]
    by (intro exI [of _ b']) (auto simp: rp_change_register_def rp_read_def rp_write_def)
qed

lemma mod_control_val:
  assumes "ok (r_bus s)"
  shows "\<exists>b'. rp_mod_control rd wr lm lv cm cv s = Some (True, s\<lparr>r_bus := b'\<rparr>) \<and> ok b' \<and>
     val b' PL011_REG_LCRH = (val (r_bus s) PL011_REG_LCRH AND NOT lm) OR (lv AND lm) \<and>
     val b' PL011_REG_CR = (val (r_bus s) PL011_REG_CR AND NOT cm) OR (cv AND cm)"
proof -
  obtain b1 where b1: "rp_change_register rd wr PL011_REG_LCRH lm lv s = Some (True, s\<lparr>r_bus := b1\<rparr>)" "ok b1"
      "\<forall>q. 0 \<le> q \<longrightarrow> q < 18 \<longrightarrow> val b1 q =
         ((val (r_bus s))(PL011_REG_LCRH := (val (r_bus s) PL011_REG_LCRH AND NOT lm) OR (lv AND lm))) q"
    using change_val [OF assms, of PL011_REG_LCRH lm lv] by (auto simp: pl011_reg_defs)
  obtain b2 where b2: "rp_change_register rd wr PL011_REG_CR cm cv (s\<lparr>r_bus := b1\<rparr>) = Some (True, s\<lparr>r_bus := b2\<rparr>)" "ok b2"
      "\<forall>q. 0 \<le> q \<longrightarrow> q < 18 \<longrightarrow> val b2 q =
         ((val b1)(PL011_REG_CR := (val b1 PL011_REG_CR AND NOT cm) OR (cv AND cm))) q"
    using change_val [of "s\<lparr>r_bus := b1\<rparr>" PL011_REG_CR cm cv] b1(2) by (auto simp: pl011_reg_defs)
  show ?thesis
    using b1 b2 by (intro exI [of _ b2]) (simp add: rp_mod_control_def pl011_reg_defs)
qed

lemma get_control_val:
  assumes "ok (r_bus s)"
  shows "rp_get_control rd s = Some (controls_of (val (r_bus s) PL011_REG_LCRH) (val (r_bus s) PL011_REG_CR), s)"
  using rd_val [OF assms, of PL011_REG_LCRH] rd_val [OF assms, of PL011_REG_CR] lim
  by (simp add: rp_get_control_def rp_read_def controls_of_def pl011_reg_defs)

lemma controls_roundtrip:
  assumes "ok (r_bus s)" and "rp_get_control rd s = Some (c0, s0)"
  shows "\<exists>s1 s2. rp_set_control rd wr c s = Some s1 \<and> rp_get_control rd s1 = Some (c0 OR (c AND all_controls), s1) \<and>
     rp_clr_control rd wr c s = Some s2 \<and> rp_get_control rd s2 = Some (c0 AND NOT c, s2)"
proof -
  let ?l = "control_to_pl011_lcrh c" and ?m = "control_to_pl011_cr c"
  have c0: "c0 = controls_of (val (r_bus s) PL011_REG_LCRH) (val (r_bus s) PL011_REG_CR)"
    using get_control_val [OF assms(1)] assms(2) by simp
  obtain b1 where b1: "rp_mod_control rd wr ?l ?l ?m ?m s = Some (True, s\<lparr>r_bus := b1\<rparr>)" "ok b1"
      "val b1 PL011_REG_LCRH = (val (r_bus s) PL011_REG_LCRH AND NOT ?l) OR (?l AND ?l)"
      "val b1 PL011_REG_CR = (val (r_bus s) PL011_REG_CR AND NOT ?m) OR (?m AND ?m)"
    using mod_control_val [OF assms(1)] by blast
  obtain b2 where b2: "rp_mod_control rd wr ?l 0 ?m 0 s = Some (True, s\<lparr>r_bus := b2\<rparr>)" "ok b2"
      "val b2 PL011_REG_LCRH = (val (r_bus s) PL011_REG_LCRH AND NOT ?l) OR (0 AND ?l)"
      "val b2 PL011_REG_CR = (val (r_bus s) PL011_REG_CR AND NOT ?m) OR (0 AND ?m)"
    using mod_control_val [OF assms(1)] by blast
  have "rp_set_control rd wr c s = Some (s\<lparr>r_bus := b1\<rparr>)" "rp_clr_control rd wr c s = Some (s\<lparr>r_bus := b2\<rparr>)"
    using b1(1) b2(1) by (simp_all add: rp_set_control_def rp_clr_control_def)
  moreover have "rp_get_control rd (s\<lparr>r_bus := b1\<rparr>) = Some (c0 OR (c AND all_controls), s\<lparr>r_bus := b1\<rparr>)"
    using get_control_val [of "s\<lparr>r_bus := b1\<rparr>"] b1(2-4) controls_set c0 by simp
  moreover have "rp_get_control rd (s\<lparr>r_bus := b2\<rparr>) = Some (c0 AND NOT c, s\<lparr>r_bus := b2\<rparr>)"
    using get_control_val [of "s\<lparr>r_bus := b2\<rparr>"] b2(2-4) controls_clr [of _ c] c0 by simp
  ultimately show ?thesis by blast
qed

end

section \<open>Line format\<close>

lemma format_bits:
  "w AND PL011_LCRH_PEN \<noteq> 0 \<longleftrightarrow> bit w 1" "w AND PL011_LCRH_EPS \<noteq> 0 \<longleftrightarrow> bit w 2" "w AND PL011_LCRH_STP2 \<noteq> 0 \<longleftrightarrow> bit w 3"
  by (intro single_bit, simp add: pl011_lcrh_defs)+

lemma format_mask_bits:
  "bit rp_format_mask 1" "bit rp_format_mask 2" "bit rp_format_mask 3" "bit rp_format_mask 5" "bit rp_format_mask 6"
  by (simp_all add: rp_format_mask_def pl011_lcrh_defs bit_numeral_rec)

lemma merged_bit: "bit m n \<Longrightarrow> bit ((old AND NOT m) OR (v AND m)) n = bit (v :: u32) n"
  by (auto simp: bit_or_iff bit_and_iff bit_not_iff)

lemma low_two: "uint (w AND 3 :: u32) = (if bit w 0 then 1 else 0) + (if bit w 1 then 2 else 0)"
proof -
  have "w AND 3 = (if bit w 0 then 1 else 0) OR (if bit w 1 then 2 else 0)"
  proof (rule bit_word_eqI)
    fix n :: nat
    assume "n < LENGTH(32)"
    have b: "bit (3 :: u32) n \<longleftrightarrow> n = 0 \<or> n = 1" "bit (2 :: u32) n \<longleftrightarrow> n = 1" "bit (1 :: u32) n \<longleftrightarrow> n = 0"
      using bit_mask_iff [of 2 n, where 'a = u32] bit_power_iff [of "2 :: u32" 1 n] bit_power_iff [of "1 :: u32" 0 n]
      by (auto simp: mask_eq_exp_minus_1)
    show "bit (w AND 3) n = bit ((if bit w 0 then 1 else 0) OR (if bit w 1 then 2 else 0) :: u32) n"
      using b by (cases "n = 0") (auto simp: bit_or_iff bit_and_iff)
  qed
  then show ?thesis by simp
qed

lemma format_value_bits:
  "bit (rp_format_value db par sb) 1 \<longleftrightarrow> par = CHR ''e'' \<or> par = CHR ''o''"
  "bit (rp_format_value db par sb) 2 \<longleftrightarrow> par = CHR ''e''"
  "bit (rp_format_value db par sb) 3 \<longleftrightarrow> sb > 1"
  "bit (rp_format_value db par sb) 5 \<longleftrightarrow> bit (word_of_int (db - 5) :: u32) 0"
  "bit (rp_format_value db par sb) 6 \<longleftrightarrow> bit (word_of_int (db - 5) :: u32) 1"
  unfolding rp_format_value_def bit_or_iff bit_and_iff bit_push_bit_iff pl011_lcrh_defs
  by (simp_all add: bit_numeral_rec bit_or_iff)
lemma format_recovered:
  assumes "5 \<le> databits" and "databits \<le> 8" and "parity \<in> {CHR ''n'', CHR ''e'', CHR ''o''}" and "stopbits \<in> {1, 2}"
    and "lcr = (old AND NOT rp_format_mask) OR (rp_format_value databits parity stopbits AND rp_format_mask)"
  shows "uint (drop_bit 5 lcr AND 3) + 5 = databits"
    and "(if lcr AND PL011_LCRH_PEN \<noteq> 0 then if lcr AND PL011_LCRH_EPS \<noteq> 0 then CHR ''e'' else CHR ''o'' else CHR ''n'') = parity"
    and "(if lcr AND PL011_LCRH_STP2 \<noteq> 0 then 2 else 1) = stopbits"
proof -
  have d: "databits \<in> {5, 6, 7, 8}" using assms(1,2) by auto
  have v: "bit lcr 1 = (parity \<noteq> CHR ''n'')" "bit lcr 2 = (parity = CHR ''e'')" "bit lcr 3 = (stopbits = 2)"
      "bit lcr 5 = (databits = 6 \<or> databits = 8)" "bit lcr 6 = (databits = 7 \<or> databits = 8)"
    using d assms(3,4) unfolding assms(5)
    by (simp_all only: merged_bit format_mask_bits format_value_bits) (auto simp: bit_numeral_rec)
  show "uint (drop_bit 5 lcr AND 3) + 5 = databits"
    using d v(4,5) by (auto simp: low_two bit_drop_bit_eq)
  show "(if lcr AND PL011_LCRH_PEN \<noteq> 0 then if lcr AND PL011_LCRH_EPS \<noteq> 0 then CHR ''e'' else CHR ''o'' else CHR ''n'') = parity"
    using assms(3) v(1,2) unfolding format_bits by auto
  show "(if lcr AND PL011_LCRH_STP2 \<noteq> 0 then 2 else 1) = stopbits"
    using assms(4) v(3) unfolding format_bits by auto
qed

lemma level_recovered:
  "((old AND NOT PL011_IFLS_RXIFLSEL_MASK) OR (rx_fifo_level_value level AND PL011_IFLS_RXIFLSEL_MASK)) AND PL011_IFLS_RXIFLSEL_MASK =
     rx_fifo_level_value level AND PL011_IFLS_RXIFLSEL_MASK"
  "((old AND NOT PL011_IFLS_TXIFLSEL_MASK) OR (tx_fifo_level_value level AND PL011_IFLS_TXIFLSEL_MASK)) AND PL011_IFLS_TXIFLSEL_MASK =
     tx_fifo_level_value level AND PL011_IFLS_TXIFLSEL_MASK"
  by (rule bit_word_eqI; auto simp: bit_or_iff bit_and_iff bit_not_iff)+

section \<open>Settings on a bus\<close>

context pl011_bus
begin

lemma read_val: "ok (r_bus s) \<Longrightarrow> 0 \<le> r \<Longrightarrow> r < 18 \<Longrightarrow> rp_read rd r s = Some (Some (val (r_bus s) r), s)"
  using rd_val [of "r_bus s" r] lim by (simp add: rp_read_def)

lemma format_roundtrip:
  assumes "ok (r_bus s)" and "5 \<le> databits" and "databits \<le> 8" and "parity \<in> {CHR ''n'', CHR ''e'', CHR ''o''}"
    and "stopbits \<in> {1, 2}"
  shows "\<exists>s'. rp_set_format rd wr databits parity stopbits s = Some s' \<and>
     rp_get_format rd s' = Some (Some (databits, parity, stopbits), s')"
proof -
  obtain b' where b': "rp_change_register rd wr PL011_REG_LCRH rp_format_mask (rp_format_value databits parity stopbits) s =
        Some (True, s\<lparr>r_bus := b'\<rparr>)" "ok b'"
      "val b' PL011_REG_LCRH = (val (r_bus s) PL011_REG_LCRH AND NOT rp_format_mask) OR
         (rp_format_value databits parity stopbits AND rp_format_mask)"
    using change_val [OF assms(1), of PL011_REG_LCRH rp_format_mask] by (fastforce simp: pl011_reg_defs)
  have "rp_read rd PL011_REG_LCRH (s\<lparr>r_bus := b'\<rparr>) = Some (Some (val b' PL011_REG_LCRH), s\<lparr>r_bus := b'\<rparr>)"
    using read_val [of "s\<lparr>r_bus := b'\<rparr>"] b'(2) by (simp add: pl011_reg_defs)
  then have "rp_get_format rd (s\<lparr>r_bus := b'\<rparr>) = Some (Some (databits, parity, stopbits), s\<lparr>r_bus := b'\<rparr>)"
    using format_recovered [OF assms(2-5) b'(3)] by (simp add: rp_get_format_def)
  then show ?thesis using b'(1) by (auto simp: rp_set_format_def)
qed

lemma rx_level_set:
  assumes "ok (r_bus s)"
  shows "\<exists>s'. spl011_set_rx_fifo_level rd wr level s = Some s' \<and> spl011_rx_fifo_level rd s' = Some
     (if level \<le> 2 then 2 else if level \<le> 4 then 4 else if level \<le> 8 then 8 else if level \<le> 12 then 12 else 2, s')"
proof -
  obtain b' where b': "rp_change_register rd wr PL011_REG_IFLS PL011_IFLS_RXIFLSEL_MASK (rx_fifo_level_value level) s =
        Some (True, s\<lparr>r_bus := b'\<rparr>)" "ok b'"
      "val b' PL011_REG_IFLS = (val (r_bus s) PL011_REG_IFLS AND NOT PL011_IFLS_RXIFLSEL_MASK) OR
         (rx_fifo_level_value level AND PL011_IFLS_RXIFLSEL_MASK)"
    using change_val [OF assms(1), of PL011_REG_IFLS PL011_IFLS_RXIFLSEL_MASK] by (fastforce simp: pl011_reg_defs)
  have "rp_read rd PL011_REG_IFLS (s\<lparr>r_bus := b'\<rparr>) = Some (Some (val b' PL011_REG_IFLS), s\<lparr>r_bus := b'\<rparr>)"
    using read_val [of "s\<lparr>r_bus := b'\<rparr>"] b'(2) by (simp add: pl011_reg_defs)
  then have "spl011_rx_fifo_level rd (s\<lparr>r_bus := b'\<rparr>) = Some
     (if level \<le> 2 then 2 else if level \<le> 4 then 4 else if level \<le> 8 then 8 else if level \<le> 12 then 12 else 2, s\<lparr>r_bus := b'\<rparr>)"
    by (simp add: spl011_rx_fifo_level_def b'(3) level_recovered Let_def) (simp add: rx_fifo_level_value_def pl011_ifls_defs)
  then show ?thesis using b'(1) by (auto simp: spl011_set_rx_fifo_level_def)
qed

lemma notification_programmed:
  assumes "ok (r_bus s)"
  shows "\<exists>b'. rp_update_notification rd wr s = Some (s\<lparr>r_bus := b'\<rparr>) \<and> ok b' \<and>
     val b' PL011_REG_IMSC = rp_imsc_of (r_notify_mask s) \<and>
     val b' PL011_REG_CR = (val (r_bus s) PL011_REG_CR AND NOT PL011_CR_RXE) OR rp_rxe_of (r_notify_mask s) OR PL011_CR_TXE"
proof -
  obtain b1 where b1: "rp_change_register rd wr PL011_REG_CR (PL011_CR_RXE OR PL011_CR_TXE)
        (rp_rxe_of (r_notify_mask s) OR PL011_CR_TXE) s = Some (True, s\<lparr>r_bus := b1\<rparr>)" "ok b1"
      "val b1 PL011_REG_CR = (val (r_bus s) PL011_REG_CR AND NOT (PL011_CR_RXE OR PL011_CR_TXE)) OR
         ((rp_rxe_of (r_notify_mask s) OR PL011_CR_TXE) AND (PL011_CR_RXE OR PL011_CR_TXE))"
    using change_val [OF assms(1), of PL011_REG_CR "PL011_CR_RXE OR PL011_CR_TXE"] by (fastforce simp: pl011_reg_defs)
  obtain b2 where b2: "wr PL011_REG_IMSC (rp_imsc_of (r_notify_mask s)) b1 = Some (True, b2)" "ok b2"
      "\<forall>q. 0 \<le> q \<longrightarrow> q < limit \<longrightarrow> val b2 q = ((val b1)(PL011_REG_IMSC := rp_imsc_of (r_notify_mask s))) q"
    using wr_val [OF b1(2), of PL011_REG_IMSC] lim by (fastforce simp: pl011_reg_defs)
  have cr: "val b2 PL011_REG_CR = val b1 PL011_REG_CR" "val b2 PL011_REG_IMSC = rp_imsc_of (r_notify_mask s)"
    using b2(3) lim by (simp_all add: pl011_reg_defs)
  have m: "(w AND NOT (PL011_CR_RXE OR PL011_CR_TXE)) OR ((rp_rxe_of n OR PL011_CR_TXE) AND (PL011_CR_RXE OR PL011_CR_TXE)) =
      (w AND NOT PL011_CR_RXE) OR rp_rxe_of n OR PL011_CR_TXE" for w n
    by (rule bit_word_eqI) (auto simp: rp_rxe_of_def bit_or_iff bit_and_iff bit_not_iff)
  have r: "rp_read rd PL011_REG_IMSC s = Some (Some (val (r_bus s) PL011_REG_IMSC), s)"
    using read_val [OF assms] by (simp add: pl011_reg_defs)
  show ?thesis
    using b1 b2 cr r m by (intro exI [of _ b2]) (simp add: rp_update_notification_def rp_write_def)
qed

end

section \<open>Baud rate\<close>

lemma below_six: "w = w AND mask 6 \<Longrightarrow> bit (w :: u32) n \<Longrightarrow> n < 6"
  by (metis bit_and_iff bit_mask_iff)

lemma split_divisor:
  fixes d :: u32
  assumes "d < 2 ^ 22"
  shows "push_bit 6 (ucast (ucast (drop_bit 6 d) :: u16) AND 0xffff) OR ((d AND 0x63) AND 0x3f) = d AND NOT 0x1C"
proof (rule bit_word_eqI)
  fix n :: nat
  assume n: "n < LENGTH(32)"
  have f: "(0xffff :: u32) = mask 16" by (simp add: mask_eq_exp_minus_1)
  have d: "bit d k \<Longrightarrow> k < 22" for k
    using less_mask_eq [OF assms] by (metis bit_and_iff bit_mask_iff)
  show "bit (push_bit 6 (ucast (ucast (drop_bit 6 d) :: u16) AND 0xffff) OR ((d AND 0x63) AND 0x3f)) n = bit (d AND NOT 0x1C) n"
  proof (cases "n < 6")
    case True
    then have "n \<in> {0, 1, 2, 3, 4, 5}" by auto
    then show ?thesis
      by (elim insertE) (simp_all add: bit_or_iff bit_and_iff bit_not_iff bit_push_bit_iff bit_numeral_rec)
  next
    case False
    have c: "\<not> bit (0x3f :: u32) n" "\<not> bit (0x1C :: u32) n"
      using False below_six [of "0x3f" n] below_six [of "0x1C" n] by (auto simp: mask_eq_exp_minus_1)
    have "bit (NOT 0x1C :: u32) n" using c(2) n by (simp only: bit_not_iff) auto
    then show ?thesis
      using False c n d [of n] unfolding f
      by (auto simp: bit_or_iff bit_and_iff bit_not_iff bit_push_bit_iff bit_mask_iff bit_ucast_iff bit_drop_bit_eq)
  qed
qed


context pl011_bus
begin

lemma baudrate_programmed:
  assumes "ok (r_bus s)" and "rp_divisor (r_base_clock s) baudrate = Some d" and "d < 2 ^ 22" and "16 * (d AND NOT 0x1C) \<noteq> 0"
  shows "\<exists>s'. rp_set_baudrate rd wr baudrate s = Some s' \<and>
     rp_get_baudrate rd s' = Some ((r_base_clock s * 64) div (16 * (d AND NOT 0x1C)), s')"
proof -
  define i where "i = (ucast (ucast (drop_bit 6 d) :: u16) :: u32)"
  obtain b1 where b1: "wr PL011_REG_IBRD i (r_bus s) = Some (True, b1)" "ok b1"
      "\<forall>q. 0 \<le> q \<longrightarrow> q < limit \<longrightarrow> val b1 q = ((val (r_bus s))(PL011_REG_IBRD := i)) q"
    using wr_val [OF assms(1), of PL011_REG_IBRD] lim by (fastforce simp: pl011_reg_defs)
  obtain b2 where b2: "wr PL011_REG_FBRD (d AND 0x63) b1 = Some (True, b2)" "ok b2"
      "\<forall>q. 0 \<le> q \<longrightarrow> q < limit \<longrightarrow> val b2 q = ((val b1)(PL011_REG_FBRD := d AND 0x63)) q"
    using wr_val [OF b1(2), of PL011_REG_FBRD] lim by (fastforce simp: pl011_reg_defs)
  obtain b3 where b3: "wr PL011_REG_LCRH (val b2 PL011_REG_LCRH) b2 = Some (True, b3)" "ok b3"
      "\<forall>q. 0 \<le> q \<longrightarrow> q < limit \<longrightarrow> val b3 q = ((val b2)(PL011_REG_LCRH := val b2 PL011_REG_LCRH)) q"
    using wr_val [OF b2(2), of PL011_REG_LCRH] lim by (fastforce simp: pl011_reg_defs)
  have r: "rp_read rd PL011_REG_LCRH (s\<lparr>r_bus := b2\<rparr>) = Some (Some (val b2 PL011_REG_LCRH), s\<lparr>r_bus := b2\<rparr>)"
      "rp_read rd PL011_REG_IBRD (s\<lparr>r_bus := b3\<rparr>) = Some (Some i, s\<lparr>r_bus := b3\<rparr>)"
      "rp_read rd PL011_REG_FBRD (s\<lparr>r_bus := b3\<rparr>) = Some (Some (d AND 0x63), s\<lparr>r_bus := b3\<rparr>)"
    using read_val [of "s\<lparr>r_bus := b2\<rparr>"] read_val [of "s\<lparr>r_bus := b3\<rparr>"] b1 b2 b3 lim by (simp_all add: pl011_reg_defs)
  have "rp_set_baudrate rd wr baudrate s = Some (s\<lparr>r_bus := b3\<rparr>)"
    using assms(2) b1(1) b2(1) b3(1) r(1) by (simp add: rp_set_baudrate_def rp_write_def flip: i_def)
  moreover have "push_bit 6 (i AND 0xffff) OR ((d AND 0x63) AND 0x3f) = d AND NOT 0x1C"
    unfolding i_def by (rule split_divisor [OF assms(3)])
  then have "rp_get_baudrate rd (s\<lparr>r_bus := b3\<rparr>) =
      Some ((r_base_clock s * 64) div (16 * (d AND NOT 0x1C)), s\<lparr>r_bus := b3\<rparr>)"
    unfolding rp_get_baudrate_def using r(2,3) assms(4) by (simp only: bind.bind_lunit prod.case option.map) simp
  ultimately show ?thesis by blast
qed

end

section \<open>On the mapped buses\<close>

definition demo_pl011 :: "(uio32_bus, unit) rtuart_pl011" where
  "demo_pl011 = \<lparr>r_bus = \<lparr>ub_mem = replicate 18 0, ub_regs = 0\<rparr>, r_notify_mask = 0, r_base_clock = 48000000, r_tx_buffer = 0,
     r_rx_buffer = 0, r_in_irq = False, r_buffers = Map.empty, r_client = (), p_do_tx_polling = False, p_scheduled = False\<rparr>"

lemma demo_pl011_ok: "uio32_ok (r_bus demo_pl011)" "r_base_clock demo_pl011 = 48000000"
  by (simp_all add: demo_pl011_def uio32_ok_def)

text \<open>The controls of the buffered PL011 driver are read back as they were set: after setting a mask the query
  gives the controls from before with the controls of the mask, after clearing it those from before
  without them, for break, RTS, DTR, both outputs and the loop back.\<close>

theorem pl011_controls_roundtrip:
  assumes "uio32_ok (r_bus s)" and "rp_get_control uio32_read_u32 s = Some (c0, s0)"
  shows "\<exists>s1 s2. rp_set_control uio32_read_u32 uio32_write_u32 c s = Some s1 \<and>
     rp_get_control uio32_read_u32 s1 = Some (c0 OR (c AND all_controls), s1) \<and>
     rp_clr_control uio32_read_u32 uio32_write_u32 c s = Some s2 \<and>
     rp_get_control uio32_read_u32 s2 = Some (c0 AND NOT c, s2)"
  using assms by (rule uio_pl011.controls_roundtrip)

theorem pl011_controls_roundtrip_witness:
  "\<exists>s1. rp_set_control uio32_read_u32 uio32_write_u32 6 demo_pl011 = Some s1 \<and> rp_get_control uio32_read_u32 s1 = Some (6, s1)"
proof -
  have g: "rp_get_control uio32_read_u32 demo_pl011 = Some (0, demo_pl011)"
    by (simp add: rp_get_control_def rp_read_def uio32_read_u32_def window_defs demo_pl011_def pl011_reg_defs
        lcrh_to_control_def cr_to_control_def)
  show ?thesis
    using pl011_controls_roundtrip [OF demo_pl011_ok(1) g, of 6] by (auto simp: all_controls_def)
qed

text \<open>The fraction of the divisor is masked with the decimal number 63 written as a hexadecimal one, so three of
  its bits are lost: with the clock of 48 MHz that the factory uses, the rate of DMX is set exactly, but
  38400 baud are set as 38461.\<close>

theorem pl011_baudrate_fraction_lost:
  assumes "uio32_ok (r_bus s)" and "r_base_clock s = 48000000"
  shows "(\<exists>s'. rp_set_baudrate uio32_read_u32 uio32_write_u32 250000 s = Some s' \<and>
       rp_get_baudrate uio32_read_u32 s' = Some (250000, s')) \<and>
     (\<exists>s'. rp_set_baudrate uio32_read_u32 uio32_write_u32 38400 s = Some s' \<and>
       rp_get_baudrate uio32_read_u32 s' = Some (38461, s'))"
proof -
  have d: "rp_divisor (r_base_clock s) 250000 = Some 768" "rp_divisor (r_base_clock s) 38400 = Some 5000"
    using assms(2) by (simp_all add: rp_divisor_def)
  have q: "(r_base_clock s * 64) div (16 * (768 AND NOT 0x1C)) = 250000"
      "(r_base_clock s * 64) div (16 * (5000 AND NOT 0x1C)) = 38461"
    using assms(2) by simp_all
  show ?thesis
    using uio_pl011.baudrate_programmed [OF assms(1) d(1)] uio_pl011.baudrate_programmed [OF assms(1) d(2)] q by simp
qed

theorem pl011_baudrate_fraction_lost_witness:
  "\<exists>s'. rp_set_baudrate uio32_read_u32 uio32_write_u32 38400 demo_pl011 = Some s' \<and>
     rp_get_baudrate uio32_read_u32 s' = Some (38461, s')"
  using pl011_baudrate_fraction_lost [OF demo_pl011_ok] by blast

end
