(* ===== verification/Rtuart_Pl011_Transfer.thy ===== *)
theory Rtuart_Pl011_Transfer
  imports Rtuart_Pl011
begin

text \<open>
  Transmission, reception and the interrupt handler of the buffered PL011 driver. The chip is a parameter;
  \<open>fifo_takes\<close> and \<open>fifo_supplies\<close> say which octets its FIFOs accept and deliver.
\<close>

section \<open>The FIFOs of the chip\<close>

fun fifo_takes :: "(u32, 'b) bus_read \<Rightarrow> (u32, 'b) bus_write \<Rightarrow> u8 list \<Rightarrow> 'b \<Rightarrow> 'b \<Rightarrow> bool" where
  "fifo_takes rd wr [] b b' \<longleftrightarrow> b' = b"
| "fifo_takes rd wr (c # cs) b b' \<longleftrightarrow> (\<exists>fr b1 ok b2. rd PL011_REG_FR b = Some (Some fr, b1) \<and> \<not> PL011_FR_ISTXFIFOFULL fr \<and>
     wr PL011_REG_DR (ucast c) b1 = Some (ok, b2) \<and> fifo_takes rd wr cs b2 b')"

fun fifo_supplies :: "(u32, 'b) bus_read \<Rightarrow> u32 list \<Rightarrow> 'b \<Rightarrow> 'b \<Rightarrow> bool" where
  "fifo_supplies rd [] b b' \<longleftrightarrow> (\<exists>fr. rd PL011_REG_FR b = Some (Some fr, b') \<and> PL011_FR_ISRXFIFOEMPTY fr)"
| "fifo_supplies rd (d # ds) b b' \<longleftrightarrow> (\<exists>fr b1 b2. rd PL011_REG_FR b = Some (Some fr, b1) \<and> \<not> PL011_FR_ISRXFIFOEMPTY fr \<and>
     rd PL011_REG_DR b1 = Some (Some d, b2) \<and> fifo_supplies rd ds b2 b')"

section \<open>Transmission\<close>

lemma copy_octet_takes:
  assumes "a \<noteq> 0" and "get_buffer a s = Some b" and "sendable b" and "rb_transfered b < rb_validcount b"
    and "rd PL011_REG_FR (r_bus s) = Some (Some fr, bx)" and "\<not> PL011_FR_ISTXFIFOFULL fr"
    and "wr PL011_REG_DR (ucast (tx_octets b ! rb_transfered b)) bx = Some (ok, bo)"
  shows "rp_copy_octet rd wr a s =
     Some (True, (put_buffer a (b\<lparr>rb_transfered := rb_transfered b + 1\<rparr>) s)\<lparr>r_bus := bo\<rparr>)"
proof -
  obtain d where d: "rb_data b = Some d" "length d = rb_size b" "rb_validcount b \<le> rb_size b"
    using assms(3) by (auto simp: sendable_def)
  then have "arr_get d (rb_transfered b) = Some (tx_octets b ! rb_transfered b)"
    using assms(4) by (simp add: arr_get_def tx_octets_def)
  then show ?thesis
    using assms d by (simp add: rp_copy_octet_def rp_txfifo_is_full_def rp_flag_def rp_read_def rp_write_def put_buffer_def)
qed

lemma copy_octet_stops:
  assumes "get_buffer a s = Some b" and "rd PL011_REG_FR (r_bus s) = Some (fr, b1)"
    and "rb_validcount b \<le> rb_transfered b \<or> (case fr of None \<Rightarrow> True | Some v \<Rightarrow> PL011_FR_ISTXFIFOFULL v)"
  shows "rp_copy_octet rd wr a s = Some (False, s\<lparr>r_bus := b1\<rparr>)"
  using assms by (auto simp: rp_copy_octet_def rp_txfifo_is_full_def rp_flag_def rp_read_def split: option.splits)

lemma copy_takes:
  assumes "a \<noteq> 0" and "get_buffer a s = Some b" and "sendable b" and "cs = take n (drop (rb_transfered b) (tx_octets b))"
    and "fifo_takes rd wr cs (r_bus s) b1" and "rd PL011_REG_FR b1 = Some (fr, b2)"
    and "rb_validcount b \<le> rb_transfered b + length cs \<or> (case fr of None \<Rightarrow> True | Some v \<Rightarrow> PL011_FR_ISTXFIFOFULL v)"
  shows "rp_copy_from_buffer_to_transmitter rd wr a k s = Some (k + length cs,
     (put_buffer a (b\<lparr>rb_transfered := rb_transfered b + length cs\<rparr>) s)\<lparr>r_bus := b2\<rparr>)"
  using assms(2-7)
proof (induction cs arbitrary: s b k n)
  case Nil
  then have "rp_copy_octet rd wr a s = Some (False, s\<lparr>r_bus := b2\<rparr>)"
    using copy_octet_stops [OF Nil.prems(1), of rd fr b2] by simp
  moreover have "put_buffer a b s = s" using Nil.prems(1) assms(1) by (simp add: put_buffer_def get_buffer_def fun_upd_idem)
  ultimately show ?case by (subst rp_copy_from_buffer_to_transmitter.simps) simp
next
  case (Cons c cs)
  have len: "length (tx_octets b) = rb_validcount b"
    using Cons.prems(2) by (rule length_tx_octets)
  have lt: "rb_transfered b < rb_validcount b"
    using Cons.prems(3) len by (metis drop_all linorder_not_less list.discI take_Nil)
  obtain m where n: "n = Suc m" using Cons.prems(3) by (cases n) auto
  have c: "c = tx_octets b ! rb_transfered b" "cs = take m (drop (rb_transfered b + 1) (tx_octets b))"
    using Cons.prems(3) lt len n by (simp_all add: Cons_nth_drop_Suc [symmetric])
  obtain fr' b1' ok b2' where st: "rd PL011_REG_FR (r_bus s) = Some (Some fr', b1')" "\<not> PL011_FR_ISTXFIFOFULL fr'"
      "wr PL011_REG_DR (ucast c) b1' = Some (ok, b2')" "fifo_takes rd wr cs b2' b1"
    using Cons.prems(4) by auto
  let ?b = "b\<lparr>rb_transfered := rb_transfered b + 1\<rparr>"
  let ?s = "(put_buffer a ?b s)\<lparr>r_bus := b2'\<rparr>"
  have "rp_copy_octet rd wr a s = Some (True, ?s)"
    by (rule copy_octet_takes [where b = b and bx = b1' and ok = ok and fr = fr'])
       (use assms(1) Cons.prems(1,2) lt c(1) st(1-3) in simp_all)
  then have "rp_copy_from_buffer_to_transmitter rd wr a k s = rp_copy_from_buffer_to_transmitter rd wr a (k + 1) ?s"
    by (subst rp_copy_from_buffer_to_transmitter.simps) simp
  also have "\<dots> = Some (k + 1 + length cs,
     (put_buffer a (?b\<lparr>rb_transfered := rb_transfered ?b + length cs\<rparr>) ?s)\<lparr>r_bus := b2\<rparr>)"
  proof (rule Cons.IH)
    show "cs = take m (drop (rb_transfered ?b) (tx_octets ?b))" using c(2) by simp
  qed (use assms(1) Cons.prems(2,5,6) st(4) in simp_all)
  finally show ?case by (simp add: put_buffer_def)
qed


text \<open>One round, for a client that leaves the driver alone at the start of a buffer and starts no other buffer at its end.\<close>

lemma send_round_takes:
  assumes "a = r_tx_buffer s" and "a \<noteq> 0" and "get_buffer a s = Some b" and "sendable b"
    and "cs = take n (drop (rb_transfered b) (tx_octets b))" and "cs \<noteq> []"
    and "fifo_takes rd wr cs (r_bus s) b1" and "rd PL011_REG_FR b1 = Some (fr, b2)"
    and "rb_validcount b \<le> rb_transfered b + length cs \<or> (case fr of None \<Rightarrow> True | Some v \<Rightarrow> PL011_FR_ISTXFIFOFULL v)"
    and start: "\<And>s. rtuart_call_tx_start cb a s = Some s"
    and "t = (put_buffer a (b\<lparr>rb_transfered := rb_transfered b + length cs\<rparr>) s)\<lparr>r_bus := b2\<rparr>"
    and "(if rb_transfered b + length cs < rb_validcount b then Some t else rt_tx_complete cb t) = Some e"
    and "rb_validcount b \<le> rb_transfered b + length cs \<Longrightarrow> r_notify_mask e AND RTUART_NOTIFY_TRANSMITTER_READY = 0"
    and "rd PL011_REG_FR (r_bus e) = Some (fr', b3)"
  shows "rp_send_round cb rd wr s = Some (False, e\<lparr>r_bus := b3\<rparr>)"
proof -
  define b' where "b' = b\<lparr>rb_transfered := rb_transfered b + length cs\<rparr>"
  have t: "r_tx_buffer t = a" "get_buffer a t = Some b'" using assms(1,2,11) by (simp_all add: b'_def)
  have copy: "rp_copy_from_buffer_to_transmitter rd wr a 0 s = Some (length cs, t)"
    unfolding assms(11) using copy_takes [OF assms(2-5,7-9), of 0] by simp
  have st: "(if a \<noteq> 0 then do { b \<leftarrow> get_buffer a s; if rb_transfered b = 0 then rtuart_call_tx_start cb a s else Some s }
      else Some s) = Some s"
    using assms(3) start by simp
  have full: "rp_txfifo_is_full rd e = Some (case fr' of None \<Rightarrow> True | Some v \<Rightarrow> PL011_FR_ISTXFIFOFULL v, e\<lparr>r_bus := b3\<rparr>)"
    using assms(14) by (simp add: rp_txfifo_is_full_def rp_flag_def rp_read_def)
  have pos: "0 < length cs" "rb_transfered b' \<noteq> 0" using assms(6) by (simp_all add: b'_def)
  show ?thesis
  proof (cases "rb_transfered b + length cs < rb_validcount b")
    case True
    then have "buffer_is_complete a t = Some False" "e = t"
      using assms(2,4,12) t(2) by (auto simp: buffer_is_complete_def sendable_def b'_def)
    then show ?thesis
      unfolding rp_send_round_def assms(1) [symmetric] st using copy t pos full by (simp flip: assms(1))
  next
    case False
    then have "buffer_is_complete a t = Some True" "rt_tx_complete cb t = Some e" "r_notify_mask e AND RTUART_NOTIFY_TRANSMITTER_READY = 0"
      using t(2) assms(12,13) by (auto simp: buffer_is_complete_def b'_def)
    then show ?thesis
      unfolding rp_send_round_def assms(1) [symmetric] st using copy t pos full by (simp flip: assms(1))
  qed
qed

text \<open>C31. Filling the transmitter writes the next octets of the buffer, as many as the FIFO of the chip takes, in order and
  each once, for a client whose \<open>tx_start\<close> leaves the driver alone. When octets of the buffer are left, the buffer stays active.
  When the last octet is written, and not before, the driver stops asking for the transmitter, gives the buffer back and calls \<open>tx_end1\<close>;
  if the client, which must not start another buffer there, then waits for the transmitter to run empty, the buffer stays active,
  otherwise it is released.\<close>

theorem pl011_send_fills_fifo:
  assumes "a = r_tx_buffer s" and "a \<noteq> 0" and "get_buffer a s = Some b" and "sendable b"
    and "cs = take n (drop (rb_transfered b) (tx_octets b))" and "cs \<noteq> []"
    and "fifo_takes rd wr cs (r_bus s) b1" and "rd PL011_REG_FR b1 = Some (fr, b2)"
    and "rb_validcount b \<le> rb_transfered b + length cs \<or> (case fr of None \<Rightarrow> True | Some v \<Rightarrow> PL011_FR_ISTXFIFOFULL v)"
    and "\<And>s. rtuart_call_tx_start cb a s = Some s"
    and "t = (put_buffer a (b\<lparr>rb_transfered := rb_transfered b + length cs\<rparr>) s)\<lparr>r_bus := b2\<rparr>"
  shows "(rb_transfered b + length cs < rb_validcount b \<and> rd PL011_REG_FR b2 = Some (fr', b3) \<longrightarrow>
       rp_send_as_much_as_possible cb rd wr s = Some (t\<lparr>r_bus := b3\<rparr>)) \<and>
     (rb_transfered b + length cs = rb_validcount b \<and>
      rtuart_call_tx_end1 cb a (t\<lparr>r_notify_mask := r_notify_mask s AND NOT RTUART_NOTIFY_TRANSMITTER_READY, r_tx_buffer := 0\<rparr>) = Some e \<and>
      r_notify_mask e AND RTUART_NOTIFY_TRANSMITTER_READY = 0 \<and> rd PL011_REG_FR (r_bus e) = Some (fr', b3) \<longrightarrow>
       rp_send_as_much_as_possible cb rd wr s =
         Some ((if r_tx_buffer e = 0 \<and> r_notify_mask e AND RTUART_NOTIFY_TRANSMITTER_EMPTY \<noteq> 0 then e\<lparr>r_tx_buffer := a\<rparr> else e)\<lparr>r_bus := b3\<rparr>))"
proof (intro conjI impI; (elim conjE)?)
  assume "rb_transfered b + length cs < rb_validcount b" "rd PL011_REG_FR b2 = Some (fr', b3)"
  then have "rp_send_round cb rd wr s = Some (False, t\<lparr>r_bus := b3\<rparr>)"
    by (intro send_round_takes [OF assms, where fr' = fr']) (simp_all add: assms(11))
  then show "rp_send_as_much_as_possible cb rd wr s = Some (t\<lparr>r_bus := b3\<rparr>)" by (subst rp_send_as_much_as_possible.simps) simp
next
  let ?e = "if r_tx_buffer e = 0 \<and> r_notify_mask e AND RTUART_NOTIFY_TRANSMITTER_EMPTY \<noteq> 0 then e\<lparr>r_tx_buffer := a\<rparr> else e"
  assume *: "rb_transfered b + length cs = rb_validcount b"
    "rtuart_call_tx_end1 cb a (t\<lparr>r_notify_mask := r_notify_mask s AND NOT RTUART_NOTIFY_TRANSMITTER_READY, r_tx_buffer := 0\<rparr>) = Some e"
    "r_notify_mask e AND RTUART_NOTIFY_TRANSMITTER_READY = 0" "rd PL011_REG_FR (r_bus e) = Some (fr', b3)"
  have "r_tx_buffer t = a" "r_notify_mask t = r_notify_mask s" using assms(1,11) by simp_all
  then have "rt_tx_complete cb t = Some ?e" using *(2) by (simp add: rt_tx_complete_def)
  then have "rp_send_round cb rd wr s = Some (False, ?e\<lparr>r_bus := b3\<rparr>)"
    using * by (intro send_round_takes [OF assms, where fr' = fr']) simp_all
  then show "rp_send_as_much_as_possible cb rd wr s = Some (?e\<lparr>r_bus := b3\<rparr>)" by (subst rp_send_as_much_as_possible.simps) simp
qed

section \<open>Reception\<close>

lemma handle_word:
  assumes "rd PL011_REG_FR (r_bus s) = Some (Some fr, b1)" and "\<not> PL011_FR_ISRXFIFOEMPTY fr"
    and "rd PL011_REG_DR b1 = Some (Some d, b2)"
  shows "rp_handle_received_data cb rd a t s = do {
     s \<leftarrow> rp_receive_word cb a t d (s\<lparr>r_bus := b2\<rparr>); rp_handle_received_data cb rd a t s }"
  using assms by (subst rp_handle_received_data.simps) (simp add: rp_rxfifo_is_empty_def rp_flag_def rp_read_def)

lemma handle_none:
  assumes "rd PL011_REG_FR (r_bus s) = Some (Some fr, b1)" and "PL011_FR_ISRXFIFOEMPTY fr"
  shows "rp_handle_received_data cb rd a t s = Some (s\<lparr>r_bus := b1\<rparr>)"
  using assms by (subst rp_handle_received_data.simps) (simp add: rp_rxfifo_is_empty_def rp_flag_def rp_read_def)

text \<open>Once the client does not ask for data, what arrives is dropped.\<close>

lemma unwanted_words_dropped:
  assumes "r_notify_mask s AND RTUART_NOTIFY_RECEIVER_HASDATA = 0" and "\<forall>d \<in> set ds. d AND PL011_DR_ERRORS = 0"
    and "fifo_supplies rd ds (r_bus s) b'"
  shows "rp_handle_received_data cb rd a t s = Some (s\<lparr>r_bus := b'\<rparr>)"
  using assms
proof (induction ds arbitrary: s)
  case Nil
  then show ?case using handle_none by fastforce
next
  case (Cons d ds)
  obtain fr b1 b2 where w: "rd PL011_REG_FR (r_bus s) = Some (Some fr, b1)" "\<not> PL011_FR_ISRXFIFOEMPTY fr"
      "rd PL011_REG_DR b1 = Some (Some d, b2)" "fifo_supplies rd ds b2 b'"
    using Cons.prems(3) by auto
  have "rp_receive_word cb a t d (s\<lparr>r_bus := b2\<rparr>) = Some (s\<lparr>r_bus := b2\<rparr>)"
    using Cons.prems(1,2) by (simp add: rp_receive_word_def)
  then show ?case
    using handle_word [OF w(1-3), of cb a t] Cons.IH [of "s\<lparr>r_bus := b2\<rparr>"] Cons.prems(1,2) w(4) by simp
qed

definition HASDATA_OFF :: "u32 \<Rightarrow> u32" where
  "HASDATA_OFF n = n AND NOT RTUART_NOTIFY_RECEIVER_HASDATA"

lemma hasdata_off: "HASDATA_OFF n AND RTUART_NOTIFY_RECEIVER_HASDATA = 0"
  by (simp add: HASDATA_OFF_def and.assoc)

text \<open>The state after \<open>cs\<close> have been stored in the buffer \<open>a\<close>, without callbacks.\<close>

definition after_receiving :: "u8 list \<Rightarrow> addr \<Rightarrow> rtuart_buffer \<Rightarrow> 'b \<Rightarrow> ('b, 'c) rtuart_pl011 \<Rightarrow> ('b, 'c) rtuart_pl011" where
  "after_receiving cs a b bus s = (
     let s' = (put_buffer a (b\<lparr>rb_data := Some (blit (the (rb_data b)) (rb_transfered b) cs),
                 rb_transfered := rb_transfered b + length cs\<rparr>) s)\<lparr>r_bus := bus\<rparr>
     in if rb_transfered b + length cs < rb_validcount b then s'
        else s'\<lparr>r_rx_buffer := 0, r_notify_mask := HASDATA_OFF (r_notify_mask s)\<rparr>)"

lemma receive_word_stores:
  assumes "a \<noteq> 0" and "get_buffer a s = Some b" and "sendable b" and "rb_triggermask b = 0"
    and "rb_transfered b < rb_validcount b" and "r_notify_mask s AND RTUART_NOTIFY_RECEIVER_HASDATA \<noteq> 0"
    and "d AND PL011_DR_ERRORS = 0"
  shows "rp_receive_word None a t d s = Some (after_receiving [ucast d] a b (r_bus s) s)"
proof -
  obtain x where x: "rb_data b = Some x" "length x = rb_size b" "rb_validcount b \<le> rb_size b"
    using assms(3) by (auto simp: sendable_def)
  define b' where "b' = b\<lparr>rb_data := Some (x[rb_transfered b := ucast d]), rb_transfered := rb_transfered b + 1\<rparr>"
  have bl: "blit x (rb_transfered b) [ucast d] = x[rb_transfered b := ucast d]"
    using assms(5) x(2,3) by (simp add: blit_def upd_conv_take_nth_drop)
  have st: "rp_store_octet None a (ucast d) s = Some (put_buffer a b' s)"
    using assms(1,2,4,5) x
    by (simp add: rp_store_octet_def buffer_full_def arr_set_def rt_rx_triggers_def b'_def)
  have f: "buffer_full b' \<longleftrightarrow> \<not> rb_transfered b + 1 < rb_validcount b"
    using x(3) by (auto simp: buffer_full_def b'_def)
  have "rp_after_octet None a t (put_buffer a b' s) =
      Some (if rb_transfered b + 1 < rb_validcount b then put_buffer a b' s
            else (put_buffer a b' s)\<lparr>r_rx_buffer := 0, r_notify_mask := HASDATA_OFF (r_notify_mask s)\<rparr>)"
    using assms(1) f by (simp add: rp_after_octet_def rtuart_call_rx_end_def rtuart_call_rx_timeout_def HASDATA_OFF_def)
  then show ?thesis
    using assms(6,7) st by (simp add: rp_receive_word_def after_receiving_def x(1) bl b'_def put_buffer_def Let_def)
qed

lemma blit_Cons: "i < length x \<Longrightarrow> blit (blit x i [c]) (Suc i) cs = blit x i (c # cs)"
  by (simp add: blit_def add.commute)

lemma reception_stores:
  assumes "a \<noteq> 0" and "get_buffer a s = Some b" and "sendable b" and "rb_triggermask b = 0"
    and "rb_transfered b < rb_validcount b" and "r_notify_mask s AND RTUART_NOTIFY_RECEIVER_HASDATA \<noteq> 0"
    and "\<forall>d \<in> set ds. d AND PL011_DR_ERRORS = 0" and "fifo_supplies rd ds (r_bus s) b'"
  shows "rp_handle_received_data None rd a t s =
     Some (after_receiving (map ucast (take (rb_validcount b - rb_transfered b) ds)) a b b' s)"
  using assms(2-8)
proof (induction ds arbitrary: s b)
  case Nil
  then have "put_buffer a (b\<lparr>rb_data := Some (blit (the (rb_data b)) (rb_transfered b) [])\<rparr>) s = s"
    using assms(1) by (auto simp: put_buffer_def get_buffer_def blit_def sendable_def fun_upd_idem)
  then show ?case
    using Nil.prems(4,7) handle_none [of rd s _ b' None a t] by (auto simp: after_receiving_def Let_def)
next
  case (Cons d ds)
  obtain fr b1 b2 where w: "rd PL011_REG_FR (r_bus s) = Some (Some fr, b1)" "\<not> PL011_FR_ISRXFIFOEMPTY fr"
      "rd PL011_REG_DR b1 = Some (Some d, b2)" "fifo_supplies rd ds b2 b'"
    using Cons.prems(7) by auto
  define s1 where "s1 = after_receiving [ucast d] a b b2 (s\<lparr>r_bus := b2\<rparr>)"
  have one: "rp_handle_received_data None rd a t s = rp_handle_received_data None rd a t s1"
    using handle_word [OF w(1-3), of None a t] receive_word_stores [OF assms(1), of "s\<lparr>r_bus := b2\<rparr>" b d t] Cons.prems(1-6)
    by (simp add: s1_def)
  obtain x where x: "rb_data b = Some x" "length x = rb_size b" "rb_validcount b \<le> rb_size b"
    using Cons.prems(2) by (auto simp: sendable_def)
  show ?case
  proof (cases "rb_transfered b + 1 < rb_validcount b")
    case True
    define y where "y = b\<lparr>rb_data := Some (blit x (rb_transfered b) [ucast d]), rb_transfered := rb_transfered b + 1\<rparr>"
    have s1: "s1 = (put_buffer a y s)\<lparr>r_bus := b2\<rparr>" using True by (simp add: s1_def after_receiving_def y_def x(1) put_buffer_def)
    have "rp_handle_received_data None rd a t s1 =
        Some (after_receiving (map ucast (take (rb_validcount y - rb_transfered y) ds)) a y b' s1)"
      by (rule Cons.IH) (use assms(1) Cons.prems True x w(4) in \<open>simp_all add: s1 y_def sendable_def\<close>)
    moreover have "after_receiving (map ucast (take (rb_validcount y - rb_transfered y) ds)) a y b' s1 =
        after_receiving (map ucast (take (rb_validcount b - rb_transfered b) (d # ds))) a b b' s"
    proof -
      have k: "rb_validcount b - rb_transfered b = Suc (rb_validcount y - rb_transfered y)" using True by (simp add: y_def)
      have i: "rb_transfered b < length x" using True x(2,3) by simp
      show ?thesis unfolding k
        by (simp add: after_receiving_def Let_def y_def s1 x(1) blit_Cons [OF i] put_buffer_def)
    qed
    ultimately show ?thesis using one by simp
  next
    case False
    have "rp_handle_received_data None rd a t s1 = Some (s1\<lparr>r_bus := b'\<rparr>)"
      by (rule unwanted_words_dropped [where ds = ds])
         (use False Cons.prems(6) w(4) in \<open>simp_all add: s1_def after_receiving_def hasdata_off Let_def\<close>)
    moreover have "rb_validcount b - rb_transfered b = 1" using False Cons.prems(4) by simp
    ultimately show ?thesis using one by (simp add: s1_def after_receiving_def put_buffer_def Let_def)
  qed
qed

section \<open>Lost events\<close>

lemma dr_to_event_none: "pl011_dr_to_event x = 0"
proof -
  have "(ucast x :: u32) AND v = 0" if "v = 2 ^ n" "8 \<le> n" for v n
    using that single_bit [OF that(1), of "ucast x :: u32"] bit_imp_le_length [of x n] by (auto simp: bit_ucast_iff)
  from this [of PL011_DR_OE 11] this [of PL011_DR_BE 10] this [of PL011_DR_PE 9] this [of PL011_DR_FE 8]
  show ?thesis by (simp add: pl011_dr_to_event_def pl011_dr_defs)
qed

text \<open>Two kinds of events never reach the client of the buffered PL011 driver: a received word with an error or a
  break is dropped without a call, because its flags are looked for in an octet, and a change of CTS is not
  reported when the flags of the chip can be read.\<close>

theorem pl011_events_lost:
  assumes "d AND PL011_DR_ERRORS \<noteq> 0" and "rd PL011_REG_FR (r_bus s) = Some (Some fr, bus)"
  shows "rp_receive_word cb a t d s = Some s \<and> rp_cts_changed cb rd stack s = Some (s\<lparr>r_bus := bus\<rparr>)"
  using assms by (simp add: rp_receive_word_def dr_to_event_none rp_cts_changed_def rp_read_def)

section \<open>Changing the buffer at its end\<close>

text \<open>A client that notes the buffers it gets back and starts the next one from the callback.\<close>

definition switching_client ::
  "(u32, 'b) bus_read \<Rightarrow> (u32, 'b) bus_write \<Rightarrow> addr \<Rightarrow> ('b, addr list) rtuart_pl011 rtuart_callbacks" where
  "switching_client rd wr a' =
     \<lparr>cb_tx_start = None, cb_tx_end1 = None, cb_tx_end2 = None, cb_input_change = None, cb_rx_err = None, cb_rx_char = None,
      cb_rx_end = Some (\<lambda>a s. rp_rx_start rd wr a' (s\<lparr>r_client := r_client s @ [a]\<rparr>)), cb_rx_timeout = None,
      cb_rx_trigger = None\<rparr>"

lemma switch_at_end:
  assumes "a' \<noteq> 0" and "r_rx_buffer s = 0" and "r_in_irq s" and "get_buffer a' s = Some b'" and "rb_transfered b' = 0"
  shows "\<exists>s1. rtuart_call_rx_end (Some (switching_client rd wr a')) a s = Some s1 \<and> r_client s1 = r_client s @ [a] \<and>
     r_rx_buffer s1 = a' \<and> (\<forall>x. get_buffer x s1 = get_buffer x s) \<and> r_bus s1 = r_bus s \<and> r_in_irq s1 \<and>
     r_notify_mask s1 AND RTUART_NOTIFY_RECEIVER_HASDATA \<noteq> 0"
proof -
  let ?n = "r_notify_mask s OR (RTUART_NOTIFY_RECEIVER_HASDATA OR RTUART_NOTIFY_RECEIVER_TIMEOUT)"
  let ?s = "s\<lparr>r_client := r_client s @ [a], r_rx_buffer := a', r_notify_mask := ?n\<rparr>"
  have "put_buffer a' (b'\<lparr>rb_transfered := 0\<rparr>) s = s" "b'\<lparr>rb_transfered := 0\<rparr> = b'"
    using assms(1,4,5) by (simp_all add: put_buffer_def get_buffer_def fun_upd_idem)
  then have "rtuart_call_rx_end (Some (switching_client rd wr a')) a s = Some ?s"
    using assms(2-4)
    by (auto simp: rtuart_call_rx_end_def switching_client_def rp_rx_start_def rp_set_notify_def rp_change_notify_def put_buffer_def
        get_buffer_def fun_upd_idem split: if_splits)
  moreover have "?n AND RTUART_NOTIFY_RECEIVER_HASDATA \<noteq> 0"
  proof -
    have "bit ?n 2" by (simp add: bit_or_iff rt_notify_defs bit_numeral_rec)
    then show ?thesis using single_bit [of RTUART_NOTIFY_RECEIVER_HASDATA 2 ?n] by (simp add: RTUART_NOTIFY_RECEIVER_HASDATA_def)
  qed
  ultimately show ?thesis using assms(3) by (simp add: get_buffer_def)
qed


lemma last_octet_ends:
  assumes "a \<noteq> 0" and "get_buffer a s = Some b" and "sendable b" and "rb_triggermask b = 0"
    and "rb_transfered b + 1 = rb_validcount b" and "r_notify_mask s AND RTUART_NOTIFY_RECEIVER_HASDATA \<noteq> 0"
    and "d AND PL011_DR_ERRORS = 0"
  shows "\<exists>b1. rp_receive_word cb a t d s = rtuart_call_rx_end cb a
     ((put_buffer a b1 s)\<lparr>r_rx_buffer := 0, r_notify_mask := HASDATA_OFF (r_notify_mask s)\<rparr>) \<and>
     buffer_full b1 \<and> rb_data b1 = Some (blit (the (rb_data b)) (rb_transfered b) [ucast d])"
proof -
  obtain x where x: "rb_data b = Some x" "length x = rb_size b" "rb_validcount b \<le> rb_size b"
    using assms(3) by (auto simp: sendable_def)
  define b1 where "b1 = b\<lparr>rb_data := Some (x[rb_transfered b := ucast d]), rb_transfered := rb_transfered b + 1\<rparr>"
  have bl: "blit x (rb_transfered b) [ucast d] = x[rb_transfered b := ucast d]"
    using assms(5) x(2,3) by (simp add: blit_def upd_conv_take_nth_drop)
  have st: "rp_store_octet cb a (ucast d) s = Some (put_buffer a b1 s)"
    using assms(1,2,4,5) x
    by (simp add: rp_store_octet_def buffer_full_def arr_set_def rt_rx_triggers_def b1_def)
  have f: "buffer_full b1" using assms(5) by (simp add: buffer_full_def b1_def)
  have "rp_receive_word cb a t d s = rtuart_call_rx_end cb a
     ((put_buffer a b1 s)\<lparr>r_rx_buffer := 0, r_notify_mask := HASDATA_OFF (r_notify_mask s)\<rparr>)"
    using assms(1,6,7) st f by (simp add: rp_receive_word_def rp_after_octet_def HASDATA_OFF_def)
  then show ?thesis using f bl x(1) by (auto simp: b1_def)
qed

lemma full_buffer_ends_again:
  assumes "a \<noteq> 0" and "get_buffer a s = Some b" and "buffer_full b" and "r_notify_mask s AND RTUART_NOTIFY_RECEIVER_HASDATA \<noteq> 0"
    and "d AND PL011_DR_ERRORS = 0" and "cb_rx_char c = None"
  shows "rp_receive_word (Some c) a t d s =
     rtuart_call_rx_end (Some c) a (s\<lparr>r_rx_buffer := 0, r_notify_mask := HASDATA_OFF (r_notify_mask s)\<rparr>)"
proof -
  have "rp_store_octet (Some c) a (ucast d) s = Some (s\<lparr>r_notify_mask := HASDATA_OFF (r_notify_mask s)\<rparr>)"
    using assms(1-3,6) by (simp add: rp_store_octet_def rtuart_call_rx_char_def HASDATA_OFF_def)
  then show ?thesis
    using assms(1-5) by (simp add: rp_receive_word_def rp_after_octet_def HASDATA_OFF_def and.assoc)
qed

text \<open>The handler keeps the buffer that was active when it was entered. When the octet that completes it is
  followed by another one in the FIFO and the client starts the next buffer from the callback, the second
  octet reaches neither buffer and the client gets the first buffer back twice.\<close>

theorem rx_buffer_switch_loses_octet:
  assumes "a \<noteq> 0" and "a' \<noteq> 0" and "a \<noteq> a'" and "get_buffer a s = Some b" and "sendable b" and "rb_triggermask b = 0"
    and "rb_transfered b + 1 = rb_validcount b" and "get_buffer a' s = Some b'" and "rb_transfered b' = 0" and "r_in_irq s"
    and "r_notify_mask s AND RTUART_NOTIFY_RECEIVER_HASDATA \<noteq> 0" and "d1 AND PL011_DR_ERRORS = 0" and "d2 AND PL011_DR_ERRORS = 0"
    and "fifo_supplies rd [d1, d2] (r_bus s) bus"
  shows "\<exists>s'. rp_handle_received_data (Some (switching_client rd wr a')) rd a t s = Some s' \<and> r_bus s' = bus \<and>
     r_client s' = r_client s @ [a, a] \<and> r_rx_buffer s' = a' \<and> get_buffer a' s' = Some b' \<and>
     map_option rb_data (get_buffer a s') = Some (Some (blit (the (rb_data b)) (rb_transfered b) [ucast d1]))"
proof -
  let ?cb = "Some (switching_client rd wr a')"
  obtain f1 b1 c1 f2 b2 c2 f3 where w: "rd PL011_REG_FR (r_bus s) = Some (Some f1, b1)" "\<not> PL011_FR_ISRXFIFOEMPTY f1"
      "rd PL011_REG_DR b1 = Some (Some d1, c1)" "rd PL011_REG_FR c1 = Some (Some f2, b2)" "\<not> PL011_FR_ISRXFIFOEMPTY f2"
      "rd PL011_REG_DR b2 = Some (Some d2, c2)" "rd PL011_REG_FR c2 = Some (Some f3, bus)" "PL011_FR_ISRXFIFOEMPTY f3"
    using assms(14) by auto
  obtain y where y: "rp_receive_word ?cb a t d1 (s\<lparr>r_bus := c1\<rparr>) = rtuart_call_rx_end ?cb a
       ((put_buffer a y (s\<lparr>r_bus := c1\<rparr>))\<lparr>r_rx_buffer := 0, r_notify_mask := HASDATA_OFF (r_notify_mask s)\<rparr>)"
      "buffer_full y" "rb_data y = Some (blit (the (rb_data b)) (rb_transfered b) [ucast d1])"
    using last_octet_ends [OF assms(1), of "s\<lparr>r_bus := c1\<rparr>" b d1 ?cb t] assms by auto
  let ?t1 = "(put_buffer a y (s\<lparr>r_bus := c1\<rparr>))\<lparr>r_rx_buffer := 0, r_notify_mask := HASDATA_OFF (r_notify_mask s)\<rparr>"
  have "r_rx_buffer ?t1 = 0" "r_in_irq ?t1" "get_buffer a' ?t1 = Some b'" "get_buffer a ?t1 = Some y" "r_client ?t1 = r_client s"
      "r_bus ?t1 = c1"
    using assms(1,3,8,10) by simp_all
  then obtain s1 where s1: "rp_receive_word ?cb a t d1 (s\<lparr>r_bus := c1\<rparr>) = Some s1" "r_client s1 = r_client s @ [a]" "r_bus s1 = c1"
      "r_in_irq s1" "r_notify_mask s1 AND RTUART_NOTIFY_RECEIVER_HASDATA \<noteq> 0" "get_buffer a s1 = Some y" "get_buffer a' s1 = Some b'"
    using switch_at_end [OF assms(2), of ?t1 b' rd wr a] y(1) assms(9) by (auto simp del: put_buffer_sel)
  let ?t = "s1\<lparr>r_bus := c2, r_rx_buffer := 0, r_notify_mask := HASDATA_OFF (r_notify_mask s1)\<rparr>"
  have r2: "rp_receive_word ?cb a t d2 (s1\<lparr>r_bus := c2\<rparr>) = rtuart_call_rx_end ?cb a ?t"
    using full_buffer_ends_again [OF assms(1), of "s1\<lparr>r_bus := c2\<rparr>" y d2 "switching_client rd wr a'" t] s1 y(2) assms(13)
    by (simp add: switching_client_def)
  obtain s2 where s2: "rp_receive_word ?cb a t d2 (s1\<lparr>r_bus := c2\<rparr>) = Some s2" "r_client s2 = r_client s @ [a, a]" "r_rx_buffer s2 = a'"
      "r_bus s2 = c2" "get_buffer a s2 = Some y" "get_buffer a' s2 = Some b'"
    using switch_at_end [OF assms(2), of ?t b' rd wr a] r2 s1 assms(9) by auto
  have "rp_handle_received_data ?cb rd a t s = Some (s2\<lparr>r_bus := bus\<rparr>)"
    using handle_word [OF w(1-3), of ?cb a t] handle_word [of rd s1 f2 b2 d2 c2 ?cb a t] handle_none [of rd s2 f3 bus ?cb a t]
      w(4-8) s1(1,3) s2(1,4) by simp
  then show ?thesis using s2 y(3) by simp
qed


section \<open>Leaving the interrupt\<close>

lemma update_notification_last:
  assumes "rp_update_notification rd wr s = Some s'"
  shows "\<exists>b ok. wr PL011_REG_IMSC (rp_imsc_of (r_notify_mask s')) b = Some (ok, r_bus s')"
proof -
  obtain t ok where "rp_write wr PL011_REG_IMSC (rp_imsc_of (r_notify_mask t)) t = Some (ok, s')"
    using assms unfolding rp_update_notification_def by (auto simp: bind_eq_Some)
  then have "wr PL011_REG_IMSC (rp_imsc_of (r_notify_mask s')) (r_bus t) = Some (ok, r_bus s')"
    by (auto simp: rp_write_def bind_eq_Some)
  then show ?thesis by blast
qed

lemma irq_leave_state:
  assumes "rp_irq_leave rd wr s = Some s'"
  shows "\<not> r_in_irq s' \<and> (p_do_tx_polling s' \<longrightarrow> p_scheduled s') \<and>
     (\<exists>b ok. wr PL011_REG_IMSC (rp_imsc_of (r_notify_mask s')) b = Some (ok, r_bus s'))"
proof -
  obtain t where t: "rp_update_notification rd wr s = Some t"
      "s' = (if p_do_tx_polling t then rp_schedule (t\<lparr>r_in_irq := False\<rparr>) else t\<lparr>r_in_irq := False\<rparr>)"
    using assms by (auto simp: rp_irq_leave_def bind_eq_Some Let_def)
  show ?thesis using update_notification_last [OF t(1)] t(2) by (simp add: rp_schedule_def)
qed

lemma irq_causes_leave: "rp_irq_causes cb rd wr stack mis s = Some (False, s') \<Longrightarrow> \<exists>s0. rp_irq_leave rd wr s0 = Some s'"
  unfolding rp_irq_causes_def by (auto simp: bind_eq_Some split: if_splits)

lemma rp_irq_round_leaves:
  assumes "rp_irq_round cb rd wr stack s = Some (False, s')"
  shows "\<exists>s0. rp_irq_leave rd wr s0 = Some s'"
proof -
  obtain mis s1 fill s2 where "(if fill then map_option (Pair True) (rp_fill_transmitter cb rd wr s2)
      else rp_irq_causes cb rd wr stack mis s2) = Some (False, s')"
    using assms unfolding rp_irq_round_def by (auto simp: bind_eq_Some)
  then show ?thesis using irq_causes_leave by (auto split: if_splits)
qed

text \<open>When the interrupt handler of the buffered PL011 driver returns, whatever the chip and the callbacks did, the driver
  is out of the interrupt, its last access has written the interrupts that its notifications ask for to
  the mask register, and if it has to poll the transmitter its tasklet is scheduled again.\<close>

theorem pl011_irq_exit_syncs_mask:
  fixes s s' :: "('b, 'c) rtuart_pl011" and wr :: "(u32, 'b) bus_write"
  assumes "pl011_interrupt_handler_function cb rd wr stack s = Some s'"
  shows "\<not> r_in_irq s' \<and> (p_do_tx_polling s' \<longrightarrow> p_scheduled s') \<and>
     (\<exists>b ok. wr PL011_REG_IMSC (rp_imsc_of (r_notify_mask s')) b = Some (ok, r_bus s'))"
proof -
  have "rp_irq_loop cb rd wr stack (s\<lparr>r_in_irq := True\<rparr>) = Some s'"
    using assms by (simp add: pl011_interrupt_handler_function_def)
  then have "\<exists>s0. rp_irq_leave rd wr s0 = Some s'"
  proof (rule rp_irq_loop.raw_induct [of "\<lambda>cb rd wr stack s x. \<exists>s0. rp_irq_leave rd wr s0 = Some x", rotated])
    fix f :: "('b, 'c) rtuart_pl011 rtuart_callbacks option \<Rightarrow> (u32, 'b) bus_read \<Rightarrow> (u32, 'b) bus_write \<Rightarrow> u32 \<Rightarrow>
        ('b, 'c) rtuart_pl011 \<Rightarrow> ('b, 'c) rtuart_pl011 option"
      and cb rd wr stack s x
    assume IH: "\<And>cb rd wr stack s x. f cb rd wr stack s = Some x \<Longrightarrow> \<exists>s0. rp_irq_leave rd wr s0 = Some x"
      and st: "do { (again, s) \<leftarrow> rp_irq_round cb rd wr stack s; if again then f cb rd wr stack s else Some s } = Some x"
    then obtain again s1 where r: "rp_irq_round cb rd wr stack s = Some (again, s1)" "(if again then f cb rd wr stack s1 else Some s1) = Some x"
      by (auto simp: bind_eq_Some)
    show "\<exists>s0. rp_irq_leave rd wr s0 = Some x"
      using IH rp_irq_round_leaves [of cb rd wr stack s s1] r by (cases again) auto
  qed
  then show ?thesis using irq_leave_state by blast
qed

section \<open>A small chip\<close>

text \<open>A receiver with given words and a transmit FIFO of four octets; the other registers read as zero.\<close>

definition chip_rd :: "(u32, u32 list \<times> u8 list) bus_read" where
  "chip_rd r c = (
     if r = PL011_REG_FR
     then Some (Some ((if fst c = [] then PL011_FR_RXFE else 0) OR (if 4 \<le> length (snd c) then PL011_FR_TXFF else 0)), c)
     else if r = PL011_REG_DR then Some (Some (if fst c = [] then 0 else hd (fst c)), (tl (fst c), snd c))
     else Some (Some 0, c))"

definition chip_wr :: "(u32, u32 list \<times> u8 list) bus_write" where
  "chip_wr r v c = Some (True, if r = PL011_REG_DR then (fst c, snd c @ [ucast v]) else c)"

definition demo_buffer :: "u8 list \<Rightarrow> rtuart_buffer" where
  "demo_buffer d = \<lparr>rb_data = Some d, rb_size = length d, rb_validcount = length d, rb_transfered = 0, rb_triggermask = 0,
     rb_trigger = replicate 32 0\<rparr>"

definition demo_driver :: "u32 list \<Rightarrow> (u32 list \<times> u8 list, addr list) rtuart_pl011" where
  "demo_driver ws = \<lparr>r_bus = (ws, []), r_notify_mask = 0xD, r_base_clock = 48000000, r_tx_buffer = 1,
     r_rx_buffer = 2, r_in_irq = True, r_buffers = [1 \<mapsto> demo_buffer [1, 2, 3, 4, 5, 6], 2 \<mapsto> demo_buffer [0], 3 \<mapsto> demo_buffer [0, 0]],
     r_client = [], p_do_tx_polling = False, p_scheduled = False\<rparr>"

lemmas chip_defs = chip_rd_def chip_wr_def pl011_reg_defs pl011_fr_defs PL011_FR_ISTXFIFOFULL_def PL011_FR_ISRXFIFOEMPTY_def

lemma demo_buffers:
  "get_buffer 1 (demo_driver ws) = Some (demo_buffer [1, 2, 3, 4, 5, 6])" "get_buffer 2 (demo_driver ws) = Some (demo_buffer [0])"
  "get_buffer 3 (demo_driver ws) = Some (demo_buffer [0, 0])" "sendable (demo_buffer d)" "tx_octets (demo_buffer d) = d"
  "r_notify_mask (demo_driver ws) AND RTUART_NOTIFY_RECEIVER_HASDATA \<noteq> 0" "r_in_irq (demo_driver ws)" "r_bus (demo_driver ws) = (ws, [])"
  by (simp_all add: demo_driver_def get_buffer_def demo_buffer_def sendable_def tx_octets_def rt_notify_defs)

theorem pl011_send_fills_fifo_witness:
  "\<exists>s' s''. rp_send_as_much_as_possible None chip_rd chip_wr (demo_driver []) = Some s' \<and> r_bus s' = ([], [1, 2, 3, 4]) \<and>
     r_tx_buffer s' = 1 \<and>
     rp_send_as_much_as_possible None chip_rd chip_wr ((demo_driver [])\<lparr>r_tx_buffer := 3\<rparr>) = Some s'' \<and> r_bus s'' = ([], [0, 0]) \<and>
     r_tx_buffer s'' = 0"
proof -
  let ?s = "demo_driver []" and ?b = "demo_buffer [1, 2, 3, 4, 5, 6]" and ?c = "([], [1, 2, 3, 4]) :: u32 list \<times> u8 list"
  let ?s2 = "(demo_driver [])\<lparr>r_tx_buffer := 3\<rparr>" and ?b2 = "demo_buffer [0, 0]" and ?c2 = "([], [0, 0]) :: u32 list \<times> u8 list"
  have tx: "1 = r_tx_buffer ?s" "3 = r_tx_buffer ?s2" "get_buffer 3 ?s2 = Some ?b2"
    using demo_buffers(3) [of "[]"] by (simp_all add: demo_driver_def get_buffer_def)
  have b: "rb_transfered (demo_buffer d) = 0" "rb_validcount (demo_buffer d) = length d" for d by (simp_all add: demo_buffer_def)
  have cs: "[1, 2, 3, 4] = take 4 (drop (rb_transfered ?b) (tx_octets ?b))" "[0, 0] = take 2 (drop (rb_transfered ?b2) (tx_octets ?b2))"
    by (simp_all add: demo_buffers(5) b)
  have t: "fifo_takes chip_rd chip_wr [1, 2, 3, 4] (r_bus ?s) ?c" "fifo_takes chip_rd chip_wr [0, 0] (r_bus ?s2) ?c2"
    by (auto simp: demo_buffers(8) chip_defs)
  have fr: "chip_rd PL011_REG_FR ?c = Some (Some 0x30, ?c)" "chip_rd PL011_REG_FR ?c2 = Some (Some 0x10, ?c2)" by (simp_all add: chip_defs)
  have full: "rb_validcount ?b \<le> rb_transfered ?b + length [1 :: u8, 2, 3, 4] \<or>
      (case Some 0x30 of None \<Rightarrow> True | Some v \<Rightarrow> PL011_FR_ISTXFIFOFULL v)"
      "rb_validcount ?b2 \<le> rb_transfered ?b2 + length [0 :: u8, 0] \<or>
      (case Some 0x10 of None \<Rightarrow> True | Some v \<Rightarrow> PL011_FR_ISTXFIFOFULL v)"
    by (simp_all add: chip_defs b)
  have st: "rtuart_call_tx_start None a s = Some s" for a and s :: "(u32 list \<times> u8 list, addr list) rtuart_pl011"
    by (simp add: rtuart_call_tx_start_def)
  define e where "e = (put_buffer 3 (?b2\<lparr>rb_transfered := rb_transfered ?b2 + length [0 :: u8, 0]\<rparr>) ?s2)\<lparr>r_bus := ?c2,
    r_notify_mask := r_notify_mask ?s2 AND NOT RTUART_NOTIFY_TRANSMITTER_READY, r_tx_buffer := 0\<rparr>"
  have e: "r_notify_mask e = 0xC" "r_bus e = ?c2" "r_tx_buffer e = 0" by (simp_all add: e_def demo_driver_def rt_notify_defs)
  have "\<exists>s'. rp_send_as_much_as_possible None chip_rd chip_wr ?s = Some s' \<and> r_bus s' = ?c \<and> r_tx_buffer s' = 1"
    using pl011_send_fills_fifo [OF tx(1) _ demo_buffers(1,4) cs(1) _ t(1) fr(1) full(1) st refl] fr(1) tx(1) b by simp
  moreover have "rp_send_as_much_as_possible None chip_rd chip_wr ?s2 = Some ((if r_tx_buffer e = 0 \<and>
      r_notify_mask e AND RTUART_NOTIFY_TRANSMITTER_EMPTY \<noteq> 0 then e\<lparr>r_tx_buffer := 3\<rparr> else e)\<lparr>r_bus := ?c2\<rparr>)"
  proof (rule mp [OF conjunct2 [OF pl011_send_fills_fifo [OF tx(2) _ tx(3) demo_buffers(4) cs(2) _ t(2) fr(2) full(2) st refl]]])
    show "rb_transfered ?b2 + length [0 :: u8, 0] = rb_validcount ?b2 \<and>
      rtuart_call_tx_end1 None 3 ((put_buffer 3 (?b2\<lparr>rb_transfered := rb_transfered ?b2 + length [0 :: u8, 0]\<rparr>) ?s2)\<lparr>r_bus := ?c2,
        r_notify_mask := r_notify_mask ?s2 AND NOT RTUART_NOTIFY_TRANSMITTER_READY, r_tx_buffer := 0\<rparr>) = Some e \<and>
      r_notify_mask e AND RTUART_NOTIFY_TRANSMITTER_READY = 0 \<and> chip_rd PL011_REG_FR (r_bus e) = Some (Some 0x10, ?c2)"
      using fr(2) e b by (simp add: rtuart_call_tx_end1_def rt_notify_defs) (simp add: e_def rt_notify_defs)
  qed simp_all
  moreover have "r_notify_mask e AND RTUART_NOTIFY_TRANSMITTER_EMPTY = 0" using e(1) by (simp add: rt_notify_defs)
  ultimately show ?thesis using e(3) by simp
qed

theorem pl011_events_lost_witness:
  "rp_receive_word None 2 False 0x400 (demo_driver []) = Some (demo_driver [])"
proof -
  have "chip_rd PL011_REG_FR (r_bus (demo_driver [])) = Some (Some 0x10, ([], []))" by (simp add: demo_buffers(8) chip_defs)
  then show ?thesis
    using pl011_events_lost [of "0x400" chip_rd "demo_driver []" "0x10" "([], [])" None 2 False]
    by (simp add: PL011_DR_ERRORS_def pl011_dr_defs)
qed

theorem rx_buffer_switch_loses_octet_witness:
  "\<exists>s'. rp_handle_received_data (Some (switching_client chip_rd chip_wr 3)) chip_rd 2 False (demo_driver [7, 9]) = Some s' \<and>
     r_client s' = [2, 2] \<and> get_buffer 3 s' = Some (demo_buffer [0, 0])"
proof -
  have g: "fifo_supplies chip_rd [7, 9] (r_bus (demo_driver [7, 9])) ([], [])"
    by (simp add: demo_buffers(8) chip_defs)
  have e: "(7 :: u32) AND PL011_DR_ERRORS = 0" "(9 :: u32) AND PL011_DR_ERRORS = 0"
    by (simp_all add: PL011_DR_ERRORS_def pl011_dr_defs)
  have b: "rb_triggermask (demo_buffer [0]) = 0" "rb_transfered (demo_buffer [0]) + 1 = rb_validcount (demo_buffer [0])"
      "rb_transfered (demo_buffer [0, 0]) = 0" "r_client (demo_driver [7, 9]) = []"
    by (simp_all add: demo_buffer_def demo_driver_def)
  show ?thesis
    using rx_buffer_switch_loses_octet [OF _ _ _ demo_buffers(2,4) b(1,2) demo_buffers(3) b(3) demo_buffers(7,6) e g, of chip_wr False] b(4)
    by auto
qed

theorem pl011_irq_exit_syncs_mask_witness:
  "\<exists>s'. pl011_interrupt_handler_function None chip_rd chip_wr 0 ((demo_driver [])\<lparr>r_tx_buffer := 0\<rparr>) = Some s' \<and> \<not> r_in_irq s'"
proof -
  let ?s = "(demo_driver [])\<lparr>r_tx_buffer := 0\<rparr>"
  have r: "rp_irq_round None chip_rd chip_wr 0 ?s = Some (False, ?s\<lparr>r_in_irq := False\<rparr>)"
    by (simp add: rp_irq_round_def rp_read_def rp_have_remaining_tx_data_def rp_irq_causes_def rp_idle_def
        rp_irq_leave_def rp_update_notification_def rp_change_register_def rp_write_def chip_defs demo_driver_def rt_notify_defs
        pl011_cr_defs rp_rxe_of_def Let_def)
  have "pl011_interrupt_handler_function None chip_rd chip_wr 0 ?s = Some (?s\<lparr>r_in_irq := False\<rparr>)"
    unfolding pl011_interrupt_handler_function_def
    by (subst rp_irq_loop.simps) (use r in \<open>simp add: demo_driver_def\<close>)
  then show ?thesis using pl011_irq_exit_syncs_mask by blast
qed

text \<open>The handler of the receive interrupt stores the words of the FIFO in the active buffer, in order, as far as it
  has room; with the octet that fills it, and not before, reception is over. What is still in the FIFO then
  is read and dropped.\<close>

theorem pl011_reception_fills_buffer:
  assumes "a \<noteq> 0" and "get_buffer a s = Some b" and "sendable b" and "rb_triggermask b = 0"
    and "rb_transfered b < rb_validcount b" and "r_notify_mask s AND RTUART_NOTIFY_RECEIVER_HASDATA \<noteq> 0"
    and "\<forall>d \<in> set ds. d AND PL011_DR_ERRORS = 0" and "fifo_supplies rd ds (r_bus s) b'"
  shows "rp_handle_received_data None rd a t s =
     Some (after_receiving (map ucast (take (rb_validcount b - rb_transfered b) ds)) a b b' s)"
  using assms by (rule reception_stores)

theorem pl011_reception_fills_buffer_witness:
  "\<exists>s'. rp_handle_received_data None chip_rd 3 False (demo_driver [7, 9, 11]) = Some s' \<and> r_bus s' = ([], []) \<and> r_rx_buffer s' = 0 \<and>
     map_option rb_data (get_buffer 3 s') = Some (Some [7, 9])"
proof -
  have g: "fifo_supplies chip_rd [7, 9, 11] (r_bus (demo_driver [7, 9, 11])) ([], [])"
    by (simp add: demo_buffers(8) chip_defs)
  have e: "\<forall>d \<in> set [7, 9, 11 :: u32]. d AND PL011_DR_ERRORS = 0"
    by (simp add: PL011_DR_ERRORS_def pl011_dr_defs)
  have b: "rb_triggermask (demo_buffer [0, 0]) = 0" "rb_transfered (demo_buffer [0, 0]) < rb_validcount (demo_buffer [0, 0])"
    by (simp_all add: demo_buffer_def)
  show ?thesis
    using pl011_reception_fills_buffer [OF _ demo_buffers(3,4) b demo_buffers(6) e g, of False]
    by (simp add: after_receiving_def demo_buffer_def blit_def)
qed

end
