(* ===== verification/Pl011_Ring.thy ===== *)
theory Pl011_Ring
  imports Prelude
begin

text \<open>
  The receive FIFO that the PL011 driver keeps in memory (\<^verbatim>\<open>src/src/uio-testbench/uart/pl011.c\<close>): a ring of 64
  octets with two octet wide positions. The locale \<open>octet_queue\<close> is what the driver relies on, a bounded
  queue; the ring provides it.
\<close>

section \<open>The ring\<close>

record rx_ring =
  rx_fifo :: "u8 list"
  rx_inptr :: u8
  rx_outptr :: u8

definition pl011_rx_fifo_flush :: "rx_ring \<Rightarrow> rx_ring" where
  "pl011_rx_fifo_flush r = r\<lparr>rx_inptr := rx_outptr r\<rparr>"

text \<open>The sums are taken as \<open>int\<close>.\<close>

definition next_pos :: "u8 \<Rightarrow> nat" where
  "next_pos p = (unat p + 1) mod 64"

definition pl011_rx_fifo_full :: "rx_ring \<Rightarrow> bool" where
  "pl011_rx_fifo_full r \<longleftrightarrow> next_pos (rx_inptr r) = unat (rx_outptr r)"

definition pl011_rx_fifo_empty :: "rx_ring \<Rightarrow> bool" where
  "pl011_rx_fifo_empty r \<longleftrightarrow> rx_inptr r = rx_outptr r"

definition pl011_rx_fifo_level :: "rx_ring \<Rightarrow> int" where
  "pl011_rx_fifo_level r = (
     if pl011_rx_fifo_empty r then 0
     else if rx_inptr r > rx_outptr r then uint (rx_inptr r) - uint (rx_outptr r)
     else (uint (rx_inptr r) + 64) - uint (rx_outptr r))"

definition pl011_rx_fifo_put :: "u8 \<Rightarrow> rx_ring \<Rightarrow> rx_ring option" where
  "pl011_rx_fifo_put v r = (
     if \<not> pl011_rx_fifo_full r then do {
       f \<leftarrow> arr_set (rx_fifo r) (unat (rx_inptr r)) v;
       Some (r\<lparr>rx_fifo := f, rx_inptr := word_of_nat (next_pos (rx_inptr r))\<rparr>) }
     else Some r)"

definition pl011_rx_fifo_get :: "rx_ring \<Rightarrow> (u8 option \<times> rx_ring) option" where
  "pl011_rx_fifo_get r = (
     if \<not> pl011_rx_fifo_empty r then do {
       v \<leftarrow> arr_get (rx_fifo r) (unat (rx_outptr r));
       Some (Some v, r\<lparr>rx_outptr := word_of_nat (next_pos (rx_outptr r))\<rparr>) }
     else Some (None, r))"

section \<open>A bounded queue of octets\<close>

locale octet_queue =
  fixes put :: "u8 \<Rightarrow> 'q \<Rightarrow> 'q option" and get :: "'q \<Rightarrow> (u8 option \<times> 'q) option" and level :: "'q \<Rightarrow> int"
    and flush :: "'q \<Rightarrow> 'q" and ok :: "'q \<Rightarrow> bool" and abs :: "'q \<Rightarrow> u8 list" and cap :: nat
  assumes level_abs: "ok q \<Longrightarrow> level q = int (length (abs q)) \<and> length (abs q) \<le> cap"
    and put_abs: "ok q \<Longrightarrow> \<exists>q'. put v q = Some q' \<and> ok q' \<and> abs q' = (if length (abs q) < cap then abs q @ [v] else abs q)"
    and get_abs: "ok q \<Longrightarrow> \<exists>q'. get q = Some (if abs q = [] then None else Some (hd (abs q)), q') \<and> ok q' \<and> abs q' = tl (abs q)"
    and flush_abs: "ok q \<Longrightarrow> ok (flush q) \<and> abs (flush q) = []"
begin

fun put_all :: "u8 list \<Rightarrow> 'q \<Rightarrow> 'q option" where
  "put_all [] q = Some q"
| "put_all (v # vs) q = do { q \<leftarrow> put v q; put_all vs q }"

fun get_n :: "nat \<Rightarrow> 'q \<Rightarrow> (u8 list \<times> 'q) option" where
  "get_n 0 q = Some ([], q)"
| "get_n (Suc n) q = do {
     (v, q) \<leftarrow> get q;
     (case v of None \<Rightarrow> Some ([], q) | Some v \<Rightarrow> do { (vs, q) \<leftarrow> get_n n q; Some (v # vs, q) }) }"

lemma put_all_abs: "ok q \<Longrightarrow> \<exists>q'. put_all vs q = Some q' \<and> ok q' \<and> abs q' = abs q @ take (cap - length (abs q)) vs"
proof (induction vs arbitrary: q)
  case (Cons v vs)
  obtain q1 where q1: "put v q = Some q1" "ok q1" "abs q1 = (if length (abs q) < cap then abs q @ [v] else abs q)"
    using put_abs [OF Cons.prems] by blast
  obtain q' where q': "put_all vs q1 = Some q'" "ok q'" "abs q' = abs q1 @ take (cap - length (abs q1)) vs"
    using Cons.IH [OF q1(2)] by blast
  have "abs q' = abs q @ take (cap - length (abs q)) (v # vs)"
  proof (cases "length (abs q) < cap")
    case True
    then have "cap - length (abs q) = Suc (cap - length (abs q1))" using q1(3) by simp
    then show ?thesis using True q'(3) q1(3) by simp
  next
    case False
    then show ?thesis using q'(3) q1(3) by simp
  qed
  then show ?case using q1(1) q'(1,2) by simp
qed simp

lemma get_n_abs: "ok q \<Longrightarrow> \<exists>q'. get_n n q = Some (take n (abs q), q') \<and> ok q' \<and> abs q' = drop n (abs q)"
proof (induction n arbitrary: q)
  case (Suc n)
  obtain q1 where q1: "get q = Some (if abs q = [] then None else Some (hd (abs q)), q1)" "ok q1" "abs q1 = tl (abs q)"
    using get_abs [OF Suc.prems] by blast
  show ?case
  proof (cases "abs q")
    case Nil
    then show ?thesis using q1 by simp
  next
    case (Cons v vs)
    then show ?thesis using q1 Suc.IH [OF q1(2)] by auto
  qed
qed simp

end

section \<open>The ring is such a queue\<close>

definition ring_ok :: "rx_ring \<Rightarrow> bool" where
  "ring_ok r \<longleftrightarrow> length (rx_fifo r) = 64 \<and> unat (rx_inptr r) < 64 \<and> unat (rx_outptr r) < 64"

definition ring_level :: "rx_ring \<Rightarrow> nat" where
  "ring_level r = (unat (rx_inptr r) + 64 - unat (rx_outptr r)) mod 64"

definition ring_abs :: "rx_ring \<Rightarrow> u8 list" where
  "ring_abs r = map (\<lambda>i. rx_fifo r ! ((unat (rx_outptr r) + i) mod 64)) [0..<ring_level r]"

text \<open>Positions without the modulus.\<close>

lemma next_pos_cases: "unat p < 64 \<Longrightarrow> next_pos p = (if unat p = 63 then 0 else unat p + 1)"
  by (simp add: next_pos_def)

lemma unat_next_pos: "unat (word_of_nat (next_pos p) :: u8) = next_pos p"
proof -
  have "next_pos p < 64" by (simp add: next_pos_def)
  then have "next_pos p < 2 ^ LENGTH(8)" by (rule less_trans) simp
  then show ?thesis by (simp only: unsigned_of_nat take_bit_nat_eq_self of_nat_id)
qed

lemma wrap_pos: "o' < 64 \<Longrightarrow> k < 64 \<Longrightarrow> (o' + k) mod 64 = (if o' + k < 64 then o' + k else o' + k - (64 :: nat))"
  by (simp add: mod_if)

lemma ring_level_cases:
  assumes "ring_ok r"
  shows "ring_level r = (if unat (rx_outptr r) \<le> unat (rx_inptr r) then unat (rx_inptr r) - unat (rx_outptr r)
     else unat (rx_inptr r) + 64 - unat (rx_outptr r))"
proof (cases "unat (rx_outptr r) \<le> unat (rx_inptr r)")
  case True
  then have e: "unat (rx_inptr r) + 64 - unat (rx_outptr r) = (unat (rx_inptr r) - unat (rx_outptr r)) + 64" by simp
  have "ring_level r = (unat (rx_inptr r) - unat (rx_outptr r)) mod 64"
    by (simp only: ring_level_def e mod_add_self2)
  also have "\<dots> = unat (rx_inptr r) - unat (rx_outptr r)"
    by (rule mod_less) (use assms in \<open>auto simp: ring_ok_def intro: less_imp_diff_less\<close>)
  finally show ?thesis using True by simp
next
  case False
  then show ?thesis using assms by (simp add: ring_level_def ring_ok_def)
qed

lemma ring_level_less: "ring_ok r \<Longrightarrow> ring_level r < 64"
  by (simp add: ring_level_def)

lemma ring_level_abs:
  assumes "ring_ok r"
  shows "pl011_rx_fifo_level r = int (length (ring_abs r)) \<and> length (ring_abs r) \<le> 63"
proof -
  define i o' where "i = unat (rx_inptr r)" and "o' = unat (rx_outptr r)"
  have u: "uint (rx_inptr r) = int i" "uint (rx_outptr r) = int o'" "rx_inptr r = rx_outptr r \<longleftrightarrow> i = o'"
      "rx_outptr r < rx_inptr r \<longleftrightarrow> o' < i"
    by (simp_all add: i_def o'_def word_unat_eq_iff word_less_nat_alt)
  have pos: "i < 64" "o' < 64" using assms by (simp_all add: ring_ok_def i_def o'_def)
  have l: "length (ring_abs r) = (if o' \<le> i then i - o' else i + 64 - o')"
    using ring_level_cases [OF assms] by (simp add: ring_abs_def i_def o'_def)
  show ?thesis
    using pos unfolding l pl011_rx_fifo_level_def pl011_rx_fifo_empty_def u by auto
qed

lemma ring_put_abs:
  assumes "ring_ok r"
  shows "\<exists>r'. pl011_rx_fifo_put v r = Some r' \<and> ring_ok r' \<and>
     ring_abs r' = (if length (ring_abs r) < 63 then ring_abs r @ [v] else ring_abs r)"
proof -
  have l: "length (ring_abs r) = ring_level r" by (simp add: ring_abs_def)
  have pos: "unat (rx_inptr r) < 64" "unat (rx_outptr r) < 64" "length (rx_fifo r) = 64" using assms by (simp_all add: ring_ok_def)
  note lvl = ring_level_cases [OF assms]
  have full: "pl011_rx_fifo_full r \<longleftrightarrow> ring_level r = 63"
    using pos lvl by (auto simp: pl011_rx_fifo_full_def next_pos_cases split: if_splits)
  show ?thesis
  proof (cases "ring_level r = 63")
    case True
    then show ?thesis using assms full l by (simp add: pl011_rx_fifo_put_def)
  next
    case False
    define w where "w = (word_of_nat (next_pos (rx_inptr r)) :: u8)"
    have w: "unat w = next_pos (rx_inptr r)" by (simp only: w_def unat_next_pos)
    define r' where "r' = r\<lparr>rx_fifo := (rx_fifo r)[unat (rx_inptr r) := v], rx_inptr := w\<rparr>"
    have lt: "ring_level r < 63" using False ring_level_less [OF assms] by simp
    have put: "pl011_rx_fifo_put v r = Some r'"
      using pos False full by (simp add: pl011_rx_fifo_put_def arr_set_def r'_def flip: w_def)
    have r': "unat (rx_inptr r') = (if unat (rx_inptr r) = 63 then 0 else unat (rx_inptr r) + 1)" "rx_outptr r' = rx_outptr r"
        "rx_fifo r' = (rx_fifo r)[unat (rx_inptr r) := v]"
    proof -
      have "unat (rx_inptr r') = next_pos (rx_inptr r)" by (simp add: r'_def w)
      then show "unat (rx_inptr r') = (if unat (rx_inptr r) = 63 then 0 else unat (rx_inptr r) + 1)" using next_pos_cases [OF pos(1)] by simp
    qed (simp_all add: r'_def)
    have ok: "ring_ok r'" using pos r' by (simp add: ring_ok_def)
    have lvl': "ring_level r' = ring_level r + 1"
      using pos r'(1,2) lt lvl ring_level_cases [OF ok] by (auto split: if_splits)
    have at: "(unat (rx_outptr r) + i) mod 64 \<noteq> unat (rx_inptr r)" if "i < ring_level r" for i
      using that pos lt lvl wrap_pos [of "unat (rx_outptr r)" i] by (auto split: if_splits)
    have last: "(unat (rx_outptr r) + ring_level r) mod 64 = unat (rx_inptr r)"
      using pos lt lvl wrap_pos [of "unat (rx_outptr r)" "ring_level r"] by (auto split: if_splits)
    have "ring_abs r' = ring_abs r @ [v]"
      using pos at last by (simp add: ring_abs_def lvl' r'(2,3)) (metis atLeastLessThan_iff nth_list_update_neq)
    then show ?thesis using put ok lt l by simp
  qed
qed

lemma ring_get_abs:
  assumes "ring_ok r"
  shows "\<exists>r'. pl011_rx_fifo_get r = Some (if ring_abs r = [] then None else Some (hd (ring_abs r)), r') \<and> ring_ok r' \<and>
     ring_abs r' = tl (ring_abs r)"
proof (cases "ring_level r")
  case 0
  have e: "pl011_rx_fifo_empty r"
    using 0 ring_level_cases [OF assms] assms
    by (auto simp: pl011_rx_fifo_empty_def ring_ok_def word_unat_eq_iff split: if_splits)
  show ?thesis using e 0 assms by (simp add: pl011_rx_fifo_get_def ring_abs_def)
next
  case (Suc n)
  have pos: "unat (rx_inptr r) < 64" "unat (rx_outptr r) < 64" "length (rx_fifo r) = 64" using assms by (simp_all add: ring_ok_def)
  define w where "w = (word_of_nat (next_pos (rx_outptr r)) :: u8)"
  have w: "unat w = next_pos (rx_outptr r)" by (simp only: w_def unat_next_pos)
  define r' where "r' = r\<lparr>rx_outptr := w\<rparr>"
  have e: "\<not> pl011_rx_fifo_empty r" using Suc ring_level_cases [OF assms] by (auto simp: pl011_rx_fifo_empty_def)
  have r': "unat (rx_outptr r') = next_pos (rx_outptr r)" "rx_inptr r' = rx_inptr r" "rx_fifo r' = rx_fifo r"
    by (simp_all add: r'_def w)
  have ok: "ring_ok r'" using pos r' by (simp add: ring_ok_def next_pos_def)
  have lvl: "ring_level r' = n"
    using pos Suc r' ring_level_cases [OF assms] ring_level_cases [OF ok] by (auto simp: next_pos_cases split: if_splits)
  have sh: "(next_pos (rx_outptr r) + i) mod 64 = (unat (rx_outptr r) + Suc i) mod 64" for i
    by (simp add: next_pos_def mod_simps)
  have "ring_abs r = rx_fifo r ! unat (rx_outptr r) # map (\<lambda>i. rx_fifo r ! ((unat (rx_outptr r) + Suc i) mod 64)) [0..<n]"
    using pos unfolding ring_abs_def Suc by (simp add: upt_conv_Cons map_Suc_upt [symmetric] comp_def del: upt_Suc)
  then have a: "ring_abs r = rx_fifo r ! unat (rx_outptr r) # ring_abs r'"
    by (simp add: ring_abs_def lvl r' sh)
  have "pl011_rx_fifo_get r = Some (Some (rx_fifo r ! unat (rx_outptr r)), r')"
    using e pos by (simp add: pl011_rx_fifo_get_def arr_get_def r'_def flip: w_def)
  then show ?thesis using a ok by simp
qed

interpretation ring: octet_queue pl011_rx_fifo_put pl011_rx_fifo_get pl011_rx_fifo_level pl011_rx_fifo_flush ring_ok ring_abs 63
proof unfold_locales
  fix q v
  assume ok: "ring_ok q"
  show "pl011_rx_fifo_level q = int (length (ring_abs q)) \<and> length (ring_abs q) \<le> 63" by (rule ring_level_abs [OF ok])
  show "\<exists>q'. pl011_rx_fifo_put v q = Some q' \<and> ring_ok q' \<and> ring_abs q' = (if length (ring_abs q) < 63 then ring_abs q @ [v] else ring_abs q)"
    by (rule ring_put_abs [OF ok])
  show "\<exists>q'. pl011_rx_fifo_get q = Some (if ring_abs q = [] then None else Some (hd (ring_abs q)), q') \<and> ring_ok q' \<and> ring_abs q' = tl (ring_abs q)"
    by (rule ring_get_abs [OF ok])
  show "ring_ok (pl011_rx_fifo_flush q) \<and> ring_abs (pl011_rx_fifo_flush q) = []"
    using ok by (simp add: ring_ok_def pl011_rx_fifo_flush_def ring_abs_def ring_level_def)
qed

end
