(* ===== verification/Pl011.thy ===== *)
theory Pl011
  imports Rtuart Pl011_Regs Pl011_Ring
begin

text \<open>
  The PL011 driver of the test bench behind the UART interface with notifications
  (\<^verbatim>\<open>src/src/uio-testbench/uart/pl011.c\<close>). What the chip has received is kept in a ring in memory
  (\<open>Pl011_Ring\<close>) until the client reads it.

  \<open>rd\<close> and \<open>wr\<close> are the accesses of the bus, with their error codes as in \<open>Mapped_Bus\<close>; using a value that could
  not be read is a fault, \<^term>\<open>None\<close>. \<open>gpio\<close> stands for \<open>gpiod_line_set_value\<close> of the library for GPIO lines: what
  the level of the transmit enable line does to the outside.
\<close>

section \<open>State\<close>

record 'b pl011_uart =
  l_bus :: 'b
  l_notify_mask :: u32
  l_address_offset :: u32
  l_base_clock :: u32
  l_old_input_state :: u32
  l_rx :: rx_ring

definition lp_at :: "'b pl011_uart \<Rightarrow> int \<Rightarrow> int" where
  "lp_at u reg = sint (word_of_int reg + l_address_offset u)"

definition lp_read :: "(u32, 'b) bus_read \<Rightarrow> int \<Rightarrow> 'b pl011_uart \<Rightarrow> (u32 option \<times> 'b pl011_uart) option" where
  "lp_read rd reg u = do { (v, b) \<leftarrow> rd (lp_at u reg) (l_bus u); Some (v, u\<lparr>l_bus := b\<rparr>) }"

definition lp_write :: "(u32, 'b) bus_write \<Rightarrow> int \<Rightarrow> u32 \<Rightarrow> 'b pl011_uart \<Rightarrow> (bool \<times> 'b pl011_uart) option" where
  "lp_write wr reg v u = do { (ok, b) \<leftarrow> wr (lp_at u reg) v (l_bus u); Some (ok, u\<lparr>l_bus := b\<rparr>) }"

abbreviation lp_get :: "(u32, 'b) bus_read \<Rightarrow> int \<Rightarrow> 'b pl011_uart \<Rightarrow> (u32 \<times> 'b pl011_uart) option" where
  "lp_get rd reg u \<equiv> Option.bind (lp_read rd reg u) (\<lambda>(v, u). map_option (\<lambda>v. (v, u)) v)"

abbreviation lp_put :: "(u32, 'b) bus_write \<Rightarrow> int \<Rightarrow> u32 \<Rightarrow> 'b pl011_uart \<Rightarrow> 'b pl011_uart option" where
  "lp_put wr reg v u \<equiv> map_option snd (lp_write wr reg v u)"

text \<open>The value a register function returns: zero, or what the write returned.\<close>

definition ret_of :: "(bool \<times> 'b pl011_uart) option \<Rightarrow> (int \<times> 'b pl011_uart) option" where
  "ret_of r = map_option (\<lambda>(ok, u). (if ok then 0 else -1, u)) r"

definition pl011_irqstatus_to_event :: "u32 \<Rightarrow> u32" where
  "pl011_irqstatus_to_event is =
     (if is AND PL011_MIS_OE \<noteq> 0 then RTUART_EVENT_OVERRUN_ERROR else 0) OR
     (if is AND PL011_MIS_PE \<noteq> 0 then RTUART_EVENT_PARITY_ERROR else 0) OR
     (if is AND PL011_MIS_FE \<noteq> 0 then RTUART_EVENT_FRAMING_ERROR else 0) OR
     (if is AND PL011_MIS_BE \<noteq> 0 then RTUART_EVENT_BREAK else 0)"

section \<open>Format, baud rate and break\<close>

definition pl011_format_lcr :: "int \<Rightarrow> char \<Rightarrow> int \<Rightarrow> u32 \<Rightarrow> u32" where
  "pl011_format_lcr databits parity stopbits lcr = (
     let lcr = lcr AND NOT PL011_LCRH_WLEN_MASK;
         lcr = lcr OR (push_bit 5 (word_of_int (databits - 5)) AND PL011_LCRH_WLEN_MASK);
         lcr = lcr AND NOT (PL011_LCRH_PEN OR PL011_LCRH_EPS);
         lcr = lcr OR (if parity = CHR ''e'' then PL011_LCRH_PEN OR PL011_LCRH_EPS
                       else if parity = CHR ''o'' then PL011_LCRH_PEN else 0);
         lcr = lcr AND NOT PL011_LCRH_STP2
     in lcr OR (if stopbits > 10 then PL011_LCRH_STP2 else 0))"

definition pl011_set_format ::
  "(u32, 'b) bus_read \<Rightarrow> (u32, 'b) bus_write \<Rightarrow> int \<Rightarrow> char \<Rightarrow> int \<Rightarrow> 'b pl011_uart \<Rightarrow> 'b pl011_uart option" where
  "pl011_set_format rd wr databits parity stopbits u = do {
     (lcr, u) \<leftarrow> lp_get rd PL011_REG_LCRH u;
     lp_put wr PL011_REG_LCRH (pl011_format_lcr databits parity stopbits lcr) u }"

definition pl011_get_format :: "(u32, 'b) bus_read \<Rightarrow> 'b pl011_uart \<Rightarrow> ((int \<times> char \<times> int) \<times> 'b pl011_uart) option" where
  "pl011_get_format rd u = do {
     (lcr, u) \<leftarrow> lp_get rd PL011_REG_LCRH u;
     Some ((uint (drop_bit 5 lcr AND 3) + 5,
            if lcr AND PL011_LCRH_PEN \<noteq> 0 then if lcr AND PL011_LCRH_EPS \<noteq> 0 then CHR ''e'' else CHR ''o'' else CHR ''n'',
            if lcr AND PL011_LCRH_STP2 \<noteq> 0 then 20 else 10), u) }"

text \<open>Both products are taken in 32 bits; dividing by zero is a fault.\<close>

definition pl011_set_baudrate ::
  "(u32, 'b) bus_read \<Rightarrow> (u32, 'b) bus_write \<Rightarrow> u32 \<Rightarrow> 'b pl011_uart \<Rightarrow> 'b pl011_uart option" where
  "pl011_set_baudrate rd wr baudrate u = (
     if 16 * baudrate = 0 then None
     else do {
       let divisor = (l_base_clock u * 64) div (16 * baudrate);
       u \<leftarrow> lp_put wr PL011_REG_IBRD (ucast (ucast (drop_bit 6 divisor) :: u16)) u;
       u \<leftarrow> lp_put wr PL011_REG_FBRD (divisor AND 0x63) u;
       (lcrh, u) \<leftarrow> lp_read rd PL011_REG_LCRH u;
       (case lcrh of Some v \<Rightarrow> lp_put wr PL011_REG_LCRH v u | None \<Rightarrow> Some u) })"

definition pl011_get_baudrate :: "(u32, 'b) bus_read \<Rightarrow> 'b pl011_uart \<Rightarrow> (u32 \<times> 'b pl011_uart) option" where
  "pl011_get_baudrate rd u = do {
     (ibrd, u) \<leftarrow> lp_get rd PL011_REG_IBRD u;
     (fbrd, u) \<leftarrow> lp_get rd PL011_REG_FBRD u;
     let divisor = (push_bit 6 (ibrd AND 0xffff)) OR (fbrd AND 0x3f);
     if 16 * divisor = 0 then None else Some ((l_base_clock u * 64) div (16 * divisor), u) }"

definition pl011_set_break ::
  "(u32, 'b) bus_read \<Rightarrow> (u32, 'b) bus_write \<Rightarrow> bool \<Rightarrow> 'b pl011_uart \<Rightarrow> 'b pl011_uart option" where
  "pl011_set_break rd wr on u = do {
     (lcrh, u) \<leftarrow> lp_get rd PL011_REG_LCRH u;
     lp_put wr PL011_REG_LCRH (if on then lcrh OR PL011_LCRH_BRK else lcrh AND NOT PL011_LCRH_BRK) u }"

definition pl011_get_break :: "(u32, 'b) bus_read \<Rightarrow> 'b pl011_uart \<Rightarrow> (bool \<times> 'b pl011_uart) option" where
  "pl011_get_break rd u = do {
     (lcrh, u) \<leftarrow> lp_get rd PL011_REG_LCRH u;
     Some (lcrh AND PL011_LCRH_BRK \<noteq> 0, u) }"

definition pl011_get_line_status :: int where "pl011_get_line_status = -1"

section \<open>Modem lines\<close>

definition pl011_lines :: "u32 \<Rightarrow> u32" where
  "pl011_lines m =
     (if m AND RTUART_OUTPUT_RTS \<noteq> 0 then PL011_CR_RTS else 0) OR (if m AND RTUART_OUTPUT_DTR \<noteq> 0 then PL011_CR_DTR else 0) OR
     (if m AND RTUART_OUTPUT_GENERIC0 \<noteq> 0 then PL011_CR_OUT1 else 0) OR
     (if m AND RTUART_OUTPUT_GENERIC1 \<noteq> 0 then PL011_CR_OUT2 else 0)"

text \<open>The transmit enable line is active low.\<close>

definition pl011_set_modem_lines ::
  "(bool \<Rightarrow> 'b \<Rightarrow> 'b) \<Rightarrow> (u32, 'b) bus_read \<Rightarrow> (u32, 'b) bus_write \<Rightarrow> u32 \<Rightarrow> u32 \<Rightarrow> 'b pl011_uart \<Rightarrow> (int \<times> 'b pl011_uart) option" where
  "pl011_set_modem_lines gpio rd wr msk line u = do {
     let u = (if msk AND RTUART_OUTPUT_RTS \<noteq> 0
              then u\<lparr>l_bus := gpio (\<not> line AND RTUART_OUTPUT_RTS \<noteq> 0) (l_bus u)\<rparr> else u);
     (cr, u) \<leftarrow> lp_read rd PL011_REG_CR u;
     (case cr of
        None \<Rightarrow> Some (-1, u)
      | Some cr \<Rightarrow>
          let m = pl011_lines msk in
          ret_of (lp_write wr PL011_REG_CR ((cr AND NOT m) OR (m AND pl011_lines line)) u)) }"

section \<open>FIFOs of the chip\<close>

definition pl011_set_fifo_enable ::
  "(u32, 'b) bus_read \<Rightarrow> (u32, 'b) bus_write \<Rightarrow> bool \<Rightarrow> 'b pl011_uart \<Rightarrow> (int \<times> 'b pl011_uart) option" where
  "pl011_set_fifo_enable rd wr on u = do {
     (cr, u) \<leftarrow> lp_read rd PL011_REG_LCRH u;
     (case cr of
        None \<Rightarrow> Some (-1, u)
      | Some cr \<Rightarrow> ret_of (lp_write wr PL011_REG_LCRH (if on then cr OR PL011_LCRH_FEN else cr AND NOT PL011_LCRH_FEN) u)) }"

text \<open>The bit that is toggled is bit 4 of the control register.\<close>

definition pl011_flush_fifo ::
  "(u32, 'b) bus_read \<Rightarrow> (u32, 'b) bus_write \<Rightarrow> bool \<Rightarrow> bool \<Rightarrow> 'b pl011_uart \<Rightarrow> (int \<times> 'b pl011_uart) option" where
  "pl011_flush_fifo rd wr flush_tx flush_rx u = do {
     (ok, u) \<leftarrow> (if flush_tx then do {
                  (cr, u) \<leftarrow> lp_read rd PL011_REG_CR u;
                  (case cr of
                     None \<Rightarrow> Some (False, u)
                   | Some cr \<Rightarrow>
                       if cr AND 0x10 \<noteq> 0 then do {
                         u \<leftarrow> lp_put wr PL011_REG_CR (cr AND NOT 0x10) u;
                         u \<leftarrow> lp_put wr PL011_REG_CR cr u;
                         Some (True, u) }
                       else Some (True, u)) }
                else Some (True, u));
     if \<not> ok then Some (-1, u)
     else Some (0, if flush_rx then u\<lparr>l_rx := pl011_rx_fifo_flush (l_rx u)\<rparr> else u) }"

definition pl011_fifo_level_to_code :: "int \<Rightarrow> int" where
  "pl011_fifo_level_to_code level =
     (if level = 14 then 4 else if level = 12 then 3 else if level = 8 then 2 else if level = 4 then 1
      else if level = 2 then 0 else -1)"

definition pl011_set_fifo_trigger_level ::
  "(u32, 'b) bus_read \<Rightarrow> (u32, 'b) bus_write \<Rightarrow> int \<Rightarrow> nat \<Rightarrow> 'b pl011_uart \<Rightarrow> (int \<times> 'b pl011_uart) option" where
  "pl011_set_fifo_trigger_level rd wr level bitOffset u = (
     let rxcode = pl011_fifo_level_to_code level in
     if rxcode < 0 then Some (-1, u)
     else do {
       (ifls, u) \<leftarrow> lp_read rd PL011_REG_IFLS u;
       (case ifls of
          None \<Rightarrow> Some (-1, u)
        | Some ifls \<Rightarrow> do {
            u \<leftarrow> lp_put wr PL011_REG_IFLS
                   ((ifls AND NOT (push_bit bitOffset 7)) OR push_bit bitOffset (word_of_int rxcode)) u;
            Some (0, u) }) })"

definition pl011_set_rxfifo_trigger_level ::
  "(u32, 'b) bus_read \<Rightarrow> (u32, 'b) bus_write \<Rightarrow> int \<Rightarrow> 'b pl011_uart \<Rightarrow> (int \<times> 'b pl011_uart) option" where
  "pl011_set_rxfifo_trigger_level rd wr level u = pl011_set_fifo_trigger_level rd wr level 3 u"

definition pl011_set_txfifo_trigger_level ::
  "(u32, 'b) bus_read \<Rightarrow> (u32, 'b) bus_write \<Rightarrow> int \<Rightarrow> 'b pl011_uart \<Rightarrow> (int \<times> 'b pl011_uart) option" where
  "pl011_set_txfifo_trigger_level rd wr level u = pl011_set_fifo_trigger_level rd wr level 0 u"

text \<open>These return the level, or nothing for the error code.\<close>

definition pl011_get_tx_fifo_size :: "(u32, 'b) bus_read \<Rightarrow> 'b pl011_uart \<Rightarrow> (int option \<times> 'b pl011_uart) option" where
  "pl011_get_tx_fifo_size rd u = do {
     (lcrh, u) \<leftarrow> lp_read rd PL011_REG_LCRH u;
     Some (map_option (\<lambda>lcrh. if lcrh AND PL011_LCRH_FEN \<noteq> 0 then 16 else 1) lcrh, u) }"

definition pl011_get_rx_fifo_size :: "(u32, 'b) bus_read \<Rightarrow> 'b pl011_uart \<Rightarrow> (int option \<times> 'b pl011_uart) option" where
  "pl011_get_rx_fifo_size rd u = pl011_get_tx_fifo_size rd u"

definition pl011_get_tx_fifo_free :: "(u32, 'b) bus_read \<Rightarrow> 'b pl011_uart \<Rightarrow> (int option \<times> 'b pl011_uart) option" where
  "pl011_get_tx_fifo_free rd u = do {
     (fr, u) \<leftarrow> lp_read rd PL011_REG_FR u;
     Some (map_option (\<lambda>fr. if fr AND 0x80 \<noteq> 0 then 16 else if fr AND 0x20 \<noteq> 0 then 0 else 1) fr, u) }"

definition pl011_get_rx_fifo_level :: int where "pl011_get_rx_fifo_level = -1"

section \<open>Octets\<close>

text \<open>The loop ends when the FIFO of the chip is full; the result does not tell.\<close>

fun pl011_write_chars ::
  "(u32, 'b) bus_read \<Rightarrow> (u32, 'b) bus_write \<Rightarrow> u8 list \<Rightarrow> 'b pl011_uart \<Rightarrow> (int \<times> 'b pl011_uart) option" where
  "pl011_write_chars rd wr [] u = Some (0, u)"
| "pl011_write_chars rd wr (c # cs) u = do {
     (fr, u) \<leftarrow> lp_read rd PL011_REG_FR u;
     (case fr of
        None \<Rightarrow> Some (-1, u)
      | Some fr \<Rightarrow>
          if PL011_FR_ISTXFIFOFULL fr then Some (0, u)
          else do { u \<leftarrow> lp_put wr PL011_REG_DR (ucast c) u; pl011_write_chars rd wr cs u }) }"

text \<open>The octets read; the number of them is what the function returns.\<close>

fun pl011_read_chars :: "nat \<Rightarrow> 'b pl011_uart \<Rightarrow> (u8 list \<times> 'b pl011_uart) option" where
  "pl011_read_chars 0 u = Some ([], u)"
| "pl011_read_chars (Suc n) u = do {
     (v, r) \<leftarrow> pl011_rx_fifo_get (l_rx u);
     let u = u\<lparr>l_rx := r\<rparr>;
     (case v of None \<Rightarrow> Some ([], u) | Some v \<Rightarrow> do { (vs, u) \<leftarrow> pl011_read_chars n u; Some (v # vs, u) }) }"

section \<open>Notifications\<close>

type_synonym ('b, 'c) lst = "'b pl011_uart \<times> 'c"

definition imsc_of :: "u32 \<Rightarrow> u32" where
  "imsc_of n =
     (if n AND UART_NOTIFY_RXAVAILABLE \<noteq> 0 then 0x10 OR 0x40 else 0) OR
     (if n AND UART_NOTIFY_TXREADY \<noteq> 0 then 0x20 else 0) OR
     (if n AND UART_NOTIFY_LINEEVENT \<noteq> 0 then 0x780 else 0) OR
     (if n AND UART_NOTIFY_INPUTCHANGED \<noteq> 0 then 2 else 0)"

text \<open>The client is asked for octets as long as it has asked to be told about room; the mask that is tested
  is the one being built, in which the bit is not yet set.\<close>

definition offer_space ::
  "(u32, 'b) bus_read \<Rightarrow> ('b, 'c) lst rtuart_client_callbacks \<Rightarrow> ('b, 'c) lst \<Rightarrow> ('b, 'c) lst option" where
  "offer_space rd cb = (\<lambda>(u, c). (case cb_transmitter_has_space cb of
     None \<Rightarrow> Some (u, c)
   | Some f \<Rightarrow> do {
       (space, u) \<leftarrow> pl011_get_tx_fifo_size rd u;
       (case space of None \<Rightarrow> Some (u, c) | Some n \<Rightarrow> f n (u, c)) }))"

definition pl011_uart_update_notification ::
  "(u32, 'b) bus_read \<Rightarrow> (u32, 'b) bus_write \<Rightarrow> ('b, 'c) lst rtuart_client_callbacks \<Rightarrow> ('b, 'c) lst \<Rightarrow> ('b, 'c) lst option" where
  "pl011_uart_update_notification rd wr cb = (\<lambda>(u, c). do {
     let start_tx = l_notify_mask u AND UART_NOTIFY_TXREADY \<noteq> 0;
     u \<leftarrow> lp_put wr PL011_REG_IMSC (imsc_of (l_notify_mask u)) u;
     (cr, u) \<leftarrow> lp_read rd PL011_REG_CR u;
     u \<leftarrow> (case cr of
            None \<Rightarrow> Some u
          | Some cr \<Rightarrow>
              let cr = (if l_notify_mask u AND (UART_NOTIFY_RXAVAILABLE OR UART_NOTIFY_LINEEVENT) \<noteq> 0
                        then cr OR PL011_CR_RXE else cr AND NOT PL011_CR_RXE)
              in lp_put wr PL011_REG_CR (cr OR PL011_CR_TXE) u);
     if start_tx then offer_space rd cb (u, c) else Some (u, c) })"

definition pl011_uart_enable_notification ::
  "(u32, 'b) bus_read \<Rightarrow> (u32, 'b) bus_write \<Rightarrow> ('b, 'c) lst rtuart_client_callbacks \<Rightarrow> u32 \<Rightarrow> ('b, 'c) lst \<Rightarrow> ('b, 'c) lst option" where
  "pl011_uart_enable_notification rd wr cb n = (\<lambda>(u, c).
     if l_notify_mask u AND n \<noteq> n
     then pl011_uart_update_notification rd wr cb (u\<lparr>l_notify_mask := l_notify_mask u OR n\<rparr>, c)
     else Some (u, c))"

definition pl011_uart_disable_notification ::
  "(u32, 'b) bus_read \<Rightarrow> (u32, 'b) bus_write \<Rightarrow> ('b, 'c) lst rtuart_client_callbacks \<Rightarrow> u32 \<Rightarrow> ('b, 'c) lst \<Rightarrow> ('b, 'c) lst option" where
  "pl011_uart_disable_notification rd wr cb n = (\<lambda>(u, c).
     if l_notify_mask u AND n \<noteq> n
     then pl011_uart_update_notification rd wr cb (u\<lparr>l_notify_mask := l_notify_mask u AND NOT n\<rparr>, c)
     else Some (u, c))"

section \<open>The interrupt handler\<close>

partial_function (option) lp_wait_idle :: "(u32, 'b) bus_read \<Rightarrow> 'b pl011_uart \<Rightarrow> 'b pl011_uart option" where
  "lp_wait_idle rd u = do {
     (fr, u) \<leftarrow> lp_read rd PL011_REG_FR u;
     (case fr of None \<Rightarrow> Some u | Some fr \<Rightarrow> if PL011_FR_ISTXBUSY fr then lp_wait_idle rd u else Some u) }"

definition pl011_handle_receiver_empty ::
  "(u32, 'b) bus_read \<Rightarrow> ('b, 'c) lst rtuart_client_callbacks \<Rightarrow> ('b, 'c) lst \<Rightarrow> ('b, 'c) lst option" where
  "pl011_handle_receiver_empty rd cb = (\<lambda>(u, c). do {
     (fr, u) \<leftarrow> lp_read rd PL011_REG_FR u;
     (case fr of
        None \<Rightarrow> Some (u, c)
      | Some fr \<Rightarrow>
          if PL011_FR_ISTXFIFOEMPTY fr \<and> l_notify_mask u AND UART_NOTIFY_TXEMPTY \<noteq> 0 then
            (let u = u\<lparr>l_notify_mask := l_notify_mask u AND NOT UART_NOTIFY_TXEMPTY\<rparr> in
             case cb_transmitter_empty cb of
               None \<Rightarrow> Some (u, c)
             | Some f \<Rightarrow> do { u \<leftarrow> (if PL011_FR_ISTXBUSY fr then lp_wait_idle rd u else Some u); f (u, c) })
          else Some (u, c)) })"

definition lp_line_event :: "('b, 'c) lst rtuart_client_callbacks \<Rightarrow> u32 \<Rightarrow> ('b, 'c) lst \<Rightarrow> ('b, 'c) lst option" where
  "lp_line_event cb ev s =
     (if ev \<noteq> 0 then (case cb_line_status_event cb of None \<Rightarrow> Some s | Some f \<Rightarrow> f ev s) else Some s)"

definition pl011_handle_lsr :: "('b, 'c) lst rtuart_client_callbacks \<Rightarrow> u32 \<Rightarrow> ('b, 'c) lst \<Rightarrow> ('b, 'c) lst option" where
  "pl011_handle_lsr cb is s = lp_line_event cb (pl011_irqstatus_to_event is) s"

definition pl011_rxempty_task_handler ::
  "(u32, 'b) bus_read \<Rightarrow> ('b, 'c) lst rtuart_client_callbacks \<Rightarrow> ('b, 'c) lst \<Rightarrow> ('b, 'c) lst option" where
  "pl011_rxempty_task_handler rd cb = (\<lambda>(u, c).
     if l_notify_mask u AND UART_NOTIFY_TXEMPTY \<noteq> 0 then do {
       (mis, u) \<leftarrow> lp_read rd PL011_REG_MIS u;
       s \<leftarrow> (case mis of None \<Rightarrow> Some (u, c) | Some mis \<Rightarrow> pl011_handle_lsr cb mis (u, c));
       pl011_handle_receiver_empty rd cb s }
     else Some (u, c))"

text \<open>Emptying the FIFO of the chip into the ring, up to a word with an error, whose flags are the result. A word
  that could not be read is tried again.\<close>

partial_function (option) lp_fill_ring :: "(u32, 'b) bus_read \<Rightarrow> 'b pl011_uart \<Rightarrow> (u32 \<times> 'b pl011_uart) option" where
  "lp_fill_ring rd u = do {
     (fr, u) \<leftarrow> lp_read rd PL011_REG_FR u;
     (case fr of
        None \<Rightarrow> Some (0, u)
      | Some fr \<Rightarrow>
          if PL011_FR_ISRXFIFOEMPTY fr then Some (0, u)
          else do {
            (dr, u) \<leftarrow> lp_read rd PL011_REG_DR u;
            (case dr of
               None \<Rightarrow> lp_fill_ring rd u
             | Some dr \<Rightarrow>
                 if dr AND 0xF00 \<noteq> 0 then Some (dr AND 0xF00, u)
                 else do { r \<leftarrow> pl011_rx_fifo_put (ucast dr) (l_rx u); lp_fill_ring rd (u\<lparr>l_rx := r\<rparr>) }) }) }"

definition lp_deliver :: "('b, 'c) lst rtuart_client_callbacks \<Rightarrow> ('b, 'c) lst \<Rightarrow> ('b, 'c) lst option" where
  "lp_deliver cb = (\<lambda>(u, c).
     if l_notify_mask u AND UART_NOTIFY_RXAVAILABLE \<noteq> 0 then
       (let rxfifo_level = pl011_rx_fifo_level (l_rx u) in
        if rxfifo_level \<noteq> 0 then
          (let u = u\<lparr>l_notify_mask := l_notify_mask u AND NOT UART_NOTIFY_RXAVAILABLE\<rparr> in
           case cb_receiver_data_available cb of
             None \<Rightarrow> Some (u\<lparr>l_rx := pl011_rx_fifo_flush (l_rx u)\<rparr>, c)
           | Some f \<Rightarrow> f rxfifo_level (u, c))
        else Some (u, c))
     else Some (u\<lparr>l_rx := pl011_rx_fifo_flush (l_rx u)\<rparr>, c))"

definition lp_error_event :: "u32 \<Rightarrow> u32" where
  "lp_error_event error =
     (if error AND 0x800 \<noteq> 0 then RTUART_EVENT_OVERRUN_ERROR else 0) OR
     (if error AND 0x200 \<noteq> 0 then RTUART_EVENT_PARITY_ERROR else 0) OR
     (if error AND 0x100 \<noteq> 0 then RTUART_EVENT_FRAMING_ERROR else 0) OR
     (if error AND 0x400 \<noteq> 0 then RTUART_EVENT_BREAK else 0)"

definition lp_irq_rx ::
  "(u32, 'b) bus_read \<Rightarrow> (u32, 'b) bus_write \<Rightarrow> ('b, 'c) lst rtuart_client_callbacks \<Rightarrow> ('b, 'c) lst \<Rightarrow> ('b, 'c) lst option" where
  "lp_irq_rx rd wr cb = (\<lambda>(u, c). do {
     u \<leftarrow> lp_put wr PL011_REG_ICR (PL011_MIS_RX OR PL011_MIS_RT) u;
     (error, u) \<leftarrow> lp_fill_ring rd u;
     s \<leftarrow> lp_deliver cb (u, c);
     (if error \<noteq> 0 then lp_line_event cb (lp_error_event error) s else Some s) })"

definition lp_irq_tx ::
  "(u32, 'b) bus_read \<Rightarrow> (u32, 'b) bus_write \<Rightarrow> ('b, 'c) lst rtuart_client_callbacks \<Rightarrow> ('b, 'c) lst \<Rightarrow> ('b, 'c) lst option" where
  "lp_irq_tx rd wr cb = (\<lambda>(u, c). do {
     u \<leftarrow> lp_put wr PL011_REG_ICR PL011_MIS_TX u;
     if l_notify_mask u AND UART_NOTIFY_TXREADY \<noteq> 0
     then offer_space rd cb (u\<lparr>l_notify_mask := l_notify_mask u AND NOT UART_NOTIFY_TXREADY\<rparr>, c)
     else Some (u, c) })"

text \<open>The value of CTS that is passed on is always one.\<close>

definition lp_irq_cts ::
  "(u32, 'b) bus_write \<Rightarrow> ('b, 'c) lst rtuart_client_callbacks \<Rightarrow> ('b, 'c) lst \<Rightarrow> ('b, 'c) lst option" where
  "lp_irq_cts wr cb = (\<lambda>(u, c). do {
     u \<leftarrow> lp_put wr PL011_REG_ICR PL011_MIS_CTS u;
     (u, c) \<leftarrow> (if l_old_input_state u \<noteq> 1
               then (case cb_modem_input_changed cb of None \<Rightarrow> Some (u, c) | Some f \<Rightarrow> f 1 1 (u, c)) else Some (u, c));
     Some (u\<lparr>l_old_input_state := 1\<rparr>, c) })"

definition LP_ERRORS :: u32 where
  "LP_ERRORS = PL011_MIS_OE OR PL011_MIS_BE OR PL011_MIS_PE OR PL011_MIS_FE"

definition LP_CAUSES :: u32 where
  "LP_CAUSES = LP_ERRORS OR PL011_MIS_RT OR PL011_MIS_TX OR PL011_MIS_RX OR PL011_MIS_CTS"

text \<open>One round of the handler's loop, with whether there is another one. Received data ends the loop without
  updating the notifications.\<close>

definition lp_irq_round ::
  "(u32, 'b) bus_read \<Rightarrow> (u32, 'b) bus_write \<Rightarrow> ('b, 'c) lst rtuart_client_callbacks \<Rightarrow> ('b, 'c) lst \<Rightarrow> (bool \<times> ('b, 'c) lst) option" where
  "lp_irq_round rd wr cb = (\<lambda>(u, c). do {
     (mis, u) \<leftarrow> lp_get rd PL011_REG_MIS u;
     if mis AND LP_CAUSES = 0 then do {
       s \<leftarrow> pl011_handle_receiver_empty rd cb (u, c);
       s \<leftarrow> pl011_uart_update_notification rd wr cb s;
       Some (False, s) }
     else do {
       s \<leftarrow> (if mis AND LP_ERRORS \<noteq> 0
            then do { u \<leftarrow> lp_put wr PL011_REG_ICR LP_ERRORS u; pl011_handle_lsr cb mis (u, c) } else Some (u, c));
       if mis AND (PL011_MIS_RX OR PL011_MIS_RT) \<noteq> 0 then map_option (Pair False) (lp_irq_rx rd wr cb s)
       else do {
         s \<leftarrow> (if mis AND PL011_MIS_TX \<noteq> 0 then lp_irq_tx rd wr cb s else Some s);
         s \<leftarrow> (if mis AND PL011_MIS_CTS \<noteq> 0 then lp_irq_cts wr cb s else Some s);
         Some (True, s) } } })"

partial_function (option) pl011_handle_irq ::
  "(u32, 'b) bus_read \<Rightarrow> (u32, 'b) bus_write \<Rightarrow> ('b, 'c) lst rtuart_client_callbacks \<Rightarrow> ('b, 'c) lst \<Rightarrow> (int \<times> ('b, 'c) lst) option" where
  "pl011_handle_irq rd wr cb s = do {
     (again, s) \<leftarrow> lp_irq_round rd wr cb s;
     if again then pl011_handle_irq rd wr cb s else Some (0, s) }"

definition pl011_periodic_check ::
  "(u32, 'b) bus_read \<Rightarrow> ('b, 'c) lst rtuart_client_callbacks \<Rightarrow> ('b, 'c) lst \<Rightarrow> ('b, 'c) lst option" where
  "pl011_periodic_check rd cb s = pl011_rxempty_task_handler rd cb s"

text \<open>The memory comes from \<open>malloc\<close>: \<open>memory\<close> is what the fields that nobody sets held. The GPIO line is the library's.\<close>

definition pl011_create :: "'b pl011_uart \<Rightarrow> u32 \<Rightarrow> 'b pl011_uart" where
  "pl011_create memory base_clock = memory\<lparr>l_base_clock := base_clock\<rparr>"

section \<open>Reception\<close>

text \<open>What the FIFO of the chip delivers.\<close>

fun chip_delivers :: "(u32, 'b) bus_read \<Rightarrow> int \<Rightarrow> int \<Rightarrow> u8 list \<Rightarrow> 'b \<Rightarrow> 'b \<Rightarrow> bool" where
  "chip_delivers rd fr dr [] b b' \<longleftrightarrow> (\<exists>v. rd fr b = Some (Some v, b') \<and> PL011_FR_ISRXFIFOEMPTY v)"
| "chip_delivers rd fr dr (c # cs) b b' \<longleftrightarrow> (\<exists>v b1 b2. rd fr b = Some (Some v, b1) \<and> \<not> PL011_FR_ISRXFIFOEMPTY v \<and>
     rd dr b1 = Some (Some (ucast c), b2) \<and> chip_delivers rd fr dr cs b2 b')"

lemma octet_no_error: "(ucast (c :: u8) :: u32) AND 0xF00 = 0"
proof (rule bit_word_eqI)
  fix n :: nat
  assume "n < LENGTH(32)"
  have "\<not> bit (0xF00 :: u32) n" if "n < 8"
  proof -
    have "n \<in> {0, 1, 2, 3, 4, 5, 6, 7}" using that by auto
    then show ?thesis by (elim insertE) (simp_all add: bit_numeral_rec)
  qed
  then show "bit ((ucast c :: u32) AND 0xF00) n = bit 0 n"
    using bit_imp_le_length [of c n] by (auto simp: bit_and_iff bit_ucast_iff)
qed

lemma fill_ring_delivers:
  assumes "ring_ok (l_rx u)" and "chip_delivers rd (lp_at u PL011_REG_FR) (lp_at u PL011_REG_DR) cs (l_bus u) b'"
  shows "\<exists>r. lp_fill_ring rd u = Some (0, u\<lparr>l_bus := b', l_rx := r\<rparr>) \<and> ring_ok r \<and>
     ring_abs r = ring_abs (l_rx u) @ take (63 - length (ring_abs (l_rx u))) cs"
  using assms
proof (induction cs arbitrary: u)
  case Nil
  then obtain v where "rd (lp_at u PL011_REG_FR) (l_bus u) = Some (Some v, b')" "PL011_FR_ISRXFIFOEMPTY v" by auto
  then show ?case using Nil.prems(1)
    by (subst lp_fill_ring.simps) (auto simp: lp_read_def intro!: exI [of _ "l_rx u"])
next
  case (Cons c cs)
  obtain v b1 b2 where w: "rd (lp_at u PL011_REG_FR) (l_bus u) = Some (Some v, b1)" "\<not> PL011_FR_ISRXFIFOEMPTY v"
      "rd (lp_at u PL011_REG_DR) b1 = Some (Some (ucast c), b2)"
      "chip_delivers rd (lp_at u PL011_REG_FR) (lp_at u PL011_REG_DR) cs b2 b'"
    using Cons.prems(2) by auto
  obtain r where r: "pl011_rx_fifo_put c (l_rx u) = Some r" "ring_ok r"
      "ring_abs r = (if length (ring_abs (l_rx u)) < 63 then ring_abs (l_rx u) @ [c] else ring_abs (l_rx u))"
    using ring.put_abs [OF Cons.prems(1)] by blast
  let ?u = "u\<lparr>l_bus := b2, l_rx := r\<rparr>"
  have at: "lp_at (u\<lparr>l_bus := x\<rparr>) = lp_at u" "lp_at ?u = lp_at u" for x by (simp_all add: lp_at_def fun_eq_iff)
  have c: "(ucast (ucast c :: u32) :: u8) = c" by (rule bit_word_eqI) (simp add: bit_ucast_iff)
  have step: "lp_fill_ring rd u = lp_fill_ring rd ?u"
    using w(1-3) r(1) octet_no_error [of c] by (subst lp_fill_ring.simps) (simp add: lp_read_def at(1) c)
  obtain r' where r': "lp_fill_ring rd ?u = Some (0, ?u\<lparr>l_bus := b', l_rx := r'\<rparr>)" "ring_ok r'"
      "ring_abs r' = ring_abs r @ take (63 - length (ring_abs r)) cs"
    using Cons.IH [of ?u] r(2) w(4) at(2) by auto
  have "ring_abs r' = ring_abs (l_rx u) @ take (63 - length (ring_abs (l_rx u))) (c # cs)"
  proof (cases "length (ring_abs (l_rx u)) < 63")
    case True
    then have "63 - length (ring_abs (l_rx u)) = Suc (63 - length (ring_abs r))" using r(3) by simp
    then show ?thesis using True r'(3) r(3) by simp
  next
    case False
    then show ?thesis using r'(3) r(3) by simp
  qed
  then show ?case using step r'(1,2) by auto
qed

lemma read_chars_abs:
  assumes "ring_ok (l_rx u)"
  shows "\<exists>r. pl011_read_chars n u = Some (take n (ring_abs (l_rx u)), u\<lparr>l_rx := r\<rparr>) \<and> ring_ok r \<and> ring_abs r = drop n (ring_abs (l_rx u))"
  using assms
proof (induction n arbitrary: u)
  case (Suc n)
  obtain r where r: "pl011_rx_fifo_get (l_rx u) = Some (if ring_abs (l_rx u) = [] then None else Some (hd (ring_abs (l_rx u))), r)"
      "ring_ok r" "ring_abs r = tl (ring_abs (l_rx u))"
    using ring.get_abs [OF Suc.prems] by blast
  show ?case
  proof (cases "ring_abs (l_rx u)")
    case Nil
    then show ?thesis using r by auto
  next
    case (Cons v vs)
    obtain r' where "pl011_read_chars n (u\<lparr>l_rx := r\<rparr>) = Some (take n (ring_abs r), u\<lparr>l_rx := r'\<rparr>)" "ring_ok r'" "ring_abs r' = drop n (ring_abs r)"
      using Suc.IH [of "u\<lparr>l_rx := r\<rparr>"] r(2) by auto
    then show ?thesis using Cons r by auto
  qed
qed (auto intro!: exI [of _ "l_rx _"])

lemma rx_cause_handled: "mis AND (PL011_MIS_RX OR PL011_MIS_RT) \<noteq> 0 \<Longrightarrow> mis AND LP_CAUSES \<noteq> 0"
proof -
  have "PL011_MIS_RX OR PL011_MIS_RT = LP_CAUSES AND (PL011_MIS_RX OR PL011_MIS_RT)"
    by (simp add: LP_CAUSES_def LP_ERRORS_def pl011_mis_defs)
  then have "mis AND (PL011_MIS_RX OR PL011_MIS_RT) = (mis AND LP_CAUSES) AND (PL011_MIS_RX OR PL011_MIS_RT)"
    by (metis and.assoc)
  then show "mis AND (PL011_MIS_RX OR PL011_MIS_RT) \<noteq> 0 \<Longrightarrow> mis AND LP_CAUSES \<noteq> 0" by auto
qed

text \<open>C32. A receive interrupt hands over what the chip has: the client that asked for data is called once with the
  number of octets, the ones from before followed by those of the FIFO of the chip and at most 63, and
  reading that many octets then gives exactly these, in order, and leaves nothing. The notification is
  taken back before the call.\<close>

theorem pl011_irq_delivers_octets:
  assumes "ring_ok (l_rx u)" and "l_notify_mask u AND UART_NOTIFY_RXAVAILABLE \<noteq> 0" and "cb_receiver_data_available cb = Some f"
    and "rd (lp_at u PL011_REG_MIS) (l_bus u) = Some (Some mis, b1)" and "mis AND (PL011_MIS_RX OR PL011_MIS_RT) \<noteq> 0"
    and "mis AND LP_ERRORS = 0" and "wr (lp_at u PL011_REG_ICR) (PL011_MIS_RX OR PL011_MIS_RT) b1 = Some (ok, b2)"
    and "chip_delivers rd (lp_at u PL011_REG_FR) (lp_at u PL011_REG_DR) cs b2 b3" and "cs \<noteq> []"
    and "octets = take 63 (ring_abs (l_rx u) @ cs)"
  shows "\<exists>u' u''. pl011_handle_irq rd wr cb (u, c) = map_option (Pair 0) (f (int (length octets)) (u', c)) \<and>
     l_notify_mask u' = l_notify_mask u AND NOT UART_NOTIFY_RXAVAILABLE \<and>
     pl011_read_chars (length octets) u' = Some (octets, u'') \<and> ring_abs (l_rx u'') = []"
proof -
  let ?u = "u\<lparr>l_bus := b2\<rparr>"
  have at: "lp_at (u\<lparr>l_bus := x\<rparr>) = lp_at u" for x by (simp add: lp_at_def fun_eq_iff)
  obtain r where r: "lp_fill_ring rd ?u = Some (0, ?u\<lparr>l_bus := b3, l_rx := r\<rparr>)" "ring_ok r"
      "ring_abs r = ring_abs (l_rx u) @ take (63 - length (ring_abs (l_rx u))) cs"
    using fill_ring_delivers [of ?u rd cs b3] assms(1,8) at by auto
  have len: "length (ring_abs (l_rx u)) \<le> 63" using ring.level_abs [OF assms(1)] by simp
  have o: "ring_abs r = octets" using r(3) len by (simp add: assms(10))
  have ne: "octets \<noteq> []" using assms(9,10) len by (cases "ring_abs (l_rx u)") auto
  have lvl: "pl011_rx_fifo_level r = int (length octets)" using ring.level_abs [OF r(2)] o by simp
  define u' where "u' = u\<lparr>l_bus := b3, l_rx := r, l_notify_mask := l_notify_mask u AND NOT UART_NOTIFY_RXAVAILABLE\<rparr>"
  have d: "lp_deliver cb (u\<lparr>l_bus := b3, l_rx := r\<rparr>, c) = f (int (length octets)) (u', c)"
    using assms(2,3) lvl ne by (simp add: lp_deliver_def u'_def)
  have "lp_irq_rx rd wr cb (u\<lparr>l_bus := b1\<rparr>, c) = f (int (length octets)) (u', c)"
    using assms(7) r(1) d by (simp add: lp_irq_rx_def lp_write_def at)
  then have "lp_irq_round rd wr cb (u, c) = map_option (Pair False) (f (int (length octets)) (u', c))"
    using assms(4-6) rx_cause_handled [OF assms(5)] by (simp add: lp_irq_round_def lp_read_def)
  then have "pl011_handle_irq rd wr cb (u, c) = map_option (Pair 0) (f (int (length octets)) (u', c))"
    by (subst pl011_handle_irq.simps) (cases "f (int (length octets)) (u', c)", simp_all)
  moreover obtain r' where "pl011_read_chars (length octets) u' = Some (octets, u'\<lparr>l_rx := r'\<rparr>)" "ring_abs r' = []"
    using read_chars_abs [of u' "length octets"] r(2) o by (auto simp: u'_def)
  ultimately show ?thesis by (auto simp: u'_def)
qed

text \<open>A chip that has received octets, with the receive interrupt pending.\<close>

definition demo_rx_rd :: "(u32, u8 list) bus_read" where
  "demo_rx_rd r b = Some (
     if r = 16 then (Some 0x10, b) else if r = 6 then (Some (if b = [] then 0x10 else 0), b)
     else if r = 0 then (Some (ucast (hd b)), tl b) else (Some 0, b))"

definition demo_rx_uart :: "u8 list pl011_uart" where
  "demo_rx_uart = \<lparr>l_bus = [1, 2, 3], l_notify_mask = 4, l_address_offset = 0, l_base_clock = 48000000, l_old_input_state = 0,
     l_rx = \<lparr>rx_fifo = replicate 64 0, rx_inptr = 63, rx_outptr = 63\<rparr>\<rparr>"

definition demo_note :: "int \<Rightarrow> (u8 list, int list) lst \<Rightarrow> (u8 list, int list) lst option" where
  "demo_note n s = Some (fst s, [n])"

definition demo_rx_client :: "(u8 list, int list) lst rtuart_client_callbacks" where
  "demo_rx_client = \<lparr>cb_transmitter_has_space = Some demo_note, cb_transmitter_empty = None, cb_receiver_data_available = Some demo_note,
     cb_modem_input_changed = None, cb_line_status_event = None\<rparr>"

theorem pl011_irq_delivers_octets_witness:
  "\<exists>u' u''. pl011_handle_irq demo_rx_rd (\<lambda>r v b. Some (True, b)) demo_rx_client (demo_rx_uart, []) = Some (0, u', [3]) \<and>
     pl011_read_chars 3 u' = Some ([1, 2, 3], u'')"
proof -
  have at: "lp_at demo_rx_uart r = r" if "r \<in> {0, 6, 16, 17}" for r
    using that by (auto simp: lp_at_def demo_rx_uart_def)
  have ring: "ring_ok (l_rx demo_rx_uart)" "ring_abs (l_rx demo_rx_uart) = []"
    by (simp_all add: demo_rx_uart_def ring_ok_def ring_abs_def ring_level_def)
  have mis: "demo_rx_rd (lp_at demo_rx_uart PL011_REG_MIS) (l_bus demo_rx_uart) = Some (Some 0x10, [1, 2, 3])"
    by (simp add: at pl011_reg_defs demo_rx_rd_def) (simp add: demo_rx_uart_def)
  have cs: "chip_delivers demo_rx_rd (lp_at demo_rx_uart PL011_REG_FR) (lp_at demo_rx_uart PL011_REG_DR) [1, 2, 3] [1, 2, 3] []"
    by (simp add: at pl011_reg_defs demo_rx_rd_def PL011_FR_ISRXFIFOEMPTY_def pl011_fr_defs)
  have n: "l_notify_mask demo_rx_uart AND UART_NOTIFY_RXAVAILABLE \<noteq> 0" by (simp add: demo_rx_uart_def rtuart_const_defs)
  have m: "(0x10 :: u32) AND (PL011_MIS_RX OR PL011_MIS_RT) \<noteq> 0" "(0x10 :: u32) AND LP_ERRORS = 0"
    by (simp_all add: LP_ERRORS_def pl011_mis_defs)
  have "\<exists>u' u''. pl011_handle_irq demo_rx_rd (\<lambda>r v b. Some (True, b)) demo_rx_client (demo_rx_uart, []) =
       map_option (Pair 0) (demo_note (int (length [1 :: u8, 2, 3])) (u', [])) \<and>
     l_notify_mask u' = l_notify_mask demo_rx_uart AND NOT UART_NOTIFY_RXAVAILABLE \<and>
     pl011_read_chars (length [1 :: u8, 2, 3]) u' = Some ([1, 2, 3], u'') \<and> ring_abs (l_rx u'') = []"
    by (rule pl011_irq_delivers_octets [OF ring(1) n _ mis m _ cs]) (simp_all add: ring(2) demo_rx_client_def)
  then show ?thesis by (auto simp: demo_note_def numeral_3_eq_3 simp del: pl011_read_chars.simps)
qed


section \<open>Asking for room\<close>

lemma lp_at_register: "l_address_offset u = 0 \<Longrightarrow> 0 \<le> r \<Longrightarrow> r < 18 \<Longrightarrow> lp_at u r = r"
  by (simp add: lp_at_def signed_of_int signed_take_bit_int_eq_self)

context pl011_bus
begin

lemma lp_read_val:
  "ok (l_bus u) \<Longrightarrow> l_address_offset u = 0 \<Longrightarrow> 0 \<le> r \<Longrightarrow> r < 18 \<Longrightarrow> lp_read rd r u = Some (Some (val (l_bus u) r), u)"
  using rd_val [of "l_bus u" r] lim by (simp add: lp_read_def lp_at_register)

lemma lp_write_val:
  assumes "ok (l_bus u)" and "l_address_offset u = 0" and "0 \<le> r" and "r < 18"
  shows "\<exists>b'. lp_write wr r v u = Some (True, u\<lparr>l_bus := b'\<rparr>) \<and> ok b' \<and> (\<forall>q. 0 \<le> q \<longrightarrow> q < 18 \<longrightarrow> val b' q = ((val (l_bus u))(r := v)) q)"
proof -
  obtain b' where "wr r v (l_bus u) = Some (True, b')" "ok b'" "\<forall>q. 0 \<le> q \<longrightarrow> q < limit \<longrightarrow> val b' q = ((val (l_bus u))(r := v)) q"
    using wr_val [OF assms(1), of r v] assms(3,4) lim by fastforce
  then show ?thesis using assms lim by (auto simp: lp_write_def lp_at_register)
qed

lemma asking_for_room_calls:
  assumes "ok (l_bus u)" and "l_address_offset u = 0" and "l_notify_mask u AND UART_NOTIFY_TXREADY = 0"
    and "cb_transmitter_has_space cb = Some f"
  shows "\<exists>u'. pl011_uart_enable_notification rd wr cb UART_NOTIFY_TXREADY (u, c) =
       f (if val (l_bus u) PL011_REG_LCRH AND PL011_LCRH_FEN \<noteq> 0 then 16 else 1) (u', c) \<and>
     l_notify_mask u' = l_notify_mask u OR UART_NOTIFY_TXREADY \<and> val (l_bus u') PL011_REG_IMSC = imsc_of (l_notify_mask u')"
proof -
  define m where "m = l_notify_mask u OR UART_NOTIFY_TXREADY"
  define v where "v = u\<lparr>l_notify_mask := m\<rparr>"
  have v: "ok (l_bus v)" "l_address_offset v = 0" "l_notify_mask v = m" "l_bus v = l_bus u" using assms by (simp_all add: v_def)
  have on: "m AND UART_NOTIFY_TXREADY \<noteq> 0"
    using single_bit [of UART_NOTIFY_TXREADY 1 m] by (simp add: m_def bit_or_iff) (simp add: rtuart_const_defs)
  obtain b1 where b1: "lp_write wr PL011_REG_IMSC (imsc_of m) v = Some (True, v\<lparr>l_bus := b1\<rparr>)" "ok b1"
      "\<forall>q. 0 \<le> q \<longrightarrow> q < 18 \<longrightarrow> val b1 q = ((val (l_bus u))(PL011_REG_IMSC := imsc_of m)) q"
    using lp_write_val [OF v(1,2), of PL011_REG_IMSC "imsc_of m"] v(4) by (auto simp: pl011_reg_defs)
  have cr: "lp_read rd PL011_REG_CR (v\<lparr>l_bus := b1\<rparr>) = Some (Some (val b1 PL011_REG_CR), v\<lparr>l_bus := b1\<rparr>)"
    using lp_read_val [of "v\<lparr>l_bus := b1\<rparr>"] b1(2) v(2) by (simp add: pl011_reg_defs)
  define k where "k = (if m AND (UART_NOTIFY_RXAVAILABLE OR UART_NOTIFY_LINEEVENT) \<noteq> 0
     then val b1 PL011_REG_CR OR PL011_CR_RXE else val b1 PL011_REG_CR AND NOT PL011_CR_RXE) OR PL011_CR_TXE"
  obtain b2 where b2: "lp_write wr PL011_REG_CR k (v\<lparr>l_bus := b1\<rparr>) = Some (True, v\<lparr>l_bus := b2\<rparr>)" "ok b2"
      "\<forall>q. 0 \<le> q \<longrightarrow> q < 18 \<longrightarrow> val b2 q = ((val b1)(PL011_REG_CR := k)) q"
    using lp_write_val [of "v\<lparr>l_bus := b1\<rparr>" PL011_REG_CR k] b1(2) v(2) by (auto simp: pl011_reg_defs)
  have size: "pl011_get_tx_fifo_size rd (v\<lparr>l_bus := b2\<rparr>) =
      Some (Some (if val (l_bus u) PL011_REG_LCRH AND PL011_LCRH_FEN \<noteq> 0 then 16 else 1), v\<lparr>l_bus := b2\<rparr>)"
    using lp_read_val [of "v\<lparr>l_bus := b2\<rparr>" PL011_REG_LCRH] b1(3) b2(2,3) v(2)
    by (simp add: pl011_get_tx_fifo_size_def pl011_reg_defs)
  have "pl011_uart_update_notification rd wr cb (v, c) = offer_space rd cb (v\<lparr>l_bus := b2\<rparr>, c)"
    using b1(1) b2(1) cr on v(3) by (simp add: pl011_uart_update_notification_def k_def Let_def)
  then have "pl011_uart_enable_notification rd wr cb UART_NOTIFY_TXREADY (u, c) =
      f (if val (l_bus u) PL011_REG_LCRH AND PL011_LCRH_FEN \<noteq> 0 then 16 else 1) (v\<lparr>l_bus := b2\<rparr>, c)"
    using assms(3,4) size on by (simp add: pl011_uart_enable_notification_def offer_space_def v_def m_def)
  moreover have "val b2 PL011_REG_IMSC = imsc_of m" using b1(3) b2(3) by (simp add: pl011_reg_defs)
  ultimately show ?thesis using v(3) by (auto simp: m_def)
qed

end

text \<open>Asking the PL011 driver to be told about room in the transmitter calls the client at once, with the size of the
  FIFO and without waiting for an interrupt; unlike what the interface promises, the notification is
  still enabled during the call, and so is the interrupt.\<close>

theorem pl011_space_notification_kept:
  assumes "uio32_ok (l_bus u)" and "l_address_offset u = 0" and "l_notify_mask u AND UART_NOTIFY_TXREADY = 0"
    and "cb_transmitter_has_space cb = Some f"
  shows "\<exists>u'. pl011_uart_enable_notification uio32_read_u32 uio32_write_u32 cb UART_NOTIFY_TXREADY (u, c) =
       f (if uio32_val (l_bus u) PL011_REG_LCRH AND PL011_LCRH_FEN \<noteq> 0 then 16 else 1) (u', c) \<and>
     l_notify_mask u' = l_notify_mask u OR UART_NOTIFY_TXREADY \<and> uio32_val (l_bus u') PL011_REG_IMSC = imsc_of (l_notify_mask u')"
  using assms by (rule uio_pl011.asking_for_room_calls)

definition demo_space_uart :: "uio32_bus pl011_uart" where
  "demo_space_uart = \<lparr>l_bus = \<lparr>ub_mem = replicate 18 0, ub_regs = 0\<rparr>, l_notify_mask = 0, l_address_offset = 0, l_base_clock = 48000000,
     l_old_input_state = 0, l_rx = \<lparr>rx_fifo = replicate 64 0, rx_inptr = 0, rx_outptr = 0\<rparr>\<rparr>"

definition demo_space :: "int \<Rightarrow> (uio32_bus, int list) lst \<Rightarrow> (uio32_bus, int list) lst option" where
  "demo_space n s = Some (fst s, [n])"

theorem pl011_space_notification_kept_witness:
  "\<exists>u'. pl011_uart_enable_notification uio32_read_u32 uio32_write_u32
      \<lparr>cb_transmitter_has_space = Some demo_space, cb_transmitter_empty = None, cb_receiver_data_available = None,
       cb_modem_input_changed = None, cb_line_status_event = None\<rparr> UART_NOTIFY_TXREADY (demo_space_uart, []) = Some (u', [1]) \<and>
     l_notify_mask u' = UART_NOTIFY_TXREADY"
proof -
  let ?cb = "\<lparr>cb_transmitter_has_space = Some demo_space, cb_transmitter_empty = None, cb_receiver_data_available = None,
       cb_modem_input_changed = None, cb_line_status_event = None\<rparr>"
  have d: "uio32_ok (l_bus demo_space_uart)" "l_address_offset demo_space_uart = 0" "l_notify_mask demo_space_uart = 0"
      "uio32_val (l_bus demo_space_uart) PL011_REG_LCRH = 0"
    by (simp_all add: demo_space_uart_def uio32_ok_def uio32_val_def pl011_reg_defs)
  show ?thesis
    using pl011_space_notification_kept [OF d(1,2), of ?cb demo_space "[]"] d by (auto simp: demo_space_def)
qed

end
