(* ===== verification/Tasklet.thy ===== *)
theory Tasklet
  imports Prelude
begin

text \<open>
  The emulation of tasklets of the test bench (\<^verbatim>\<open>src/src/uio-testbench/kernel.c\<close>, \<^verbatim>\<open>kernel.h\<close>): a global list
  of scheduled tasklets, linked through the tasklets. \<open>t_next\<close> are the link fields of the tasklets that exist,
  \<open>t_call\<close> their function pointers and the values to pass; the fields for the state and the count are only ever
  set to zero. Address zero is the null pointer; using a tasklet that does not exist is a fault, \<^term>\<open>None\<close>, as is a loop
  that does not end.
\<close>

section \<open>The list\<close>

record tasklets =
  g_tasklet_list :: addr
  t_next :: "addr \<rightharpoonup> addr"
  t_call :: "addr \<rightharpoonup> nat \<times> nat"

text \<open>Where a pointer to a tasklet is stored: the global variable or the link field of a tasklet.\<close>

datatype cell = Head | NextOf addr

fun cell_value :: "cell \<Rightarrow> tasklets \<Rightarrow> addr option" where
  "cell_value Head s = Some (g_tasklet_list s)"
| "cell_value (NextOf a) s = t_next s a"

fun set_cell :: "cell \<Rightarrow> addr \<Rightarrow> tasklets \<Rightarrow> tasklets" where
  "set_cell Head v s = s\<lparr>g_tasklet_list := v\<rparr>"
| "set_cell (NextOf a) v s = s\<lparr>t_next := (t_next s)(a \<mapsto> v)\<rparr>"

definition tasklet_init :: "addr \<Rightarrow> nat \<Rightarrow> nat \<Rightarrow> tasklets \<Rightarrow> tasklets" where
  "tasklet_init t func data s = s\<lparr>t_next := (t_next s)(t \<mapsto> 0), t_call := (t_call s)(t \<mapsto> (func, data))\<rparr>"

text \<open>The walk along the list: nothing when the tasklet is found, else the cell at its end.\<close>

partial_function (option) schedule_walk :: "addr \<Rightarrow> cell \<Rightarrow> tasklets \<Rightarrow> cell option option" where
  "schedule_walk t l s = do {
     v \<leftarrow> cell_value l s;
     if v = 0 then Some (Some l) else if v = t then Some None else schedule_walk t (NextOf v) s }"

definition tasklet_schedule :: "addr \<Rightarrow> tasklets \<Rightarrow> tasklets option" where
  "tasklet_schedule t s = do {
     r \<leftarrow> schedule_walk t Head s;
     Some (case r of None \<Rightarrow> s | Some l \<Rightarrow> set_cell l t s) }"

text \<open>Taking the first tasklet off the list; its link field keeps its value.\<close>

definition tasklet_pop :: "tasklets \<Rightarrow> (addr \<times> tasklets) option" where
  "tasklet_pop s = (let t = g_tasklet_list s in
     if t = 0 then Some (0, s) else do { n \<leftarrow> t_next s t; Some (t, s\<lparr>g_tasklet_list := n\<rparr>) })"

text \<open>\<open>call\<close> are the functions of the program, on the list and whatever else they work on.\<close>

partial_function (option) run_all_tasklets ::
  "(nat \<Rightarrow> nat \<Rightarrow> tasklets \<times> 'w \<Rightarrow> (tasklets \<times> 'w) option) \<Rightarrow> tasklets \<times> 'w \<Rightarrow> (tasklets \<times> 'w) option" where
  "run_all_tasklets call s = do {
     (t, l) \<leftarrow> tasklet_pop (fst s);
     if t = 0 then Some (l, snd s)
     else do { (func, data) \<leftarrow> t_call l t; s \<leftarrow> call func data (l, snd s); run_all_tasklets call s } }"

section \<open>The scheduled tasklets as a list\<close>

fun path :: "tasklets \<Rightarrow> addr \<Rightarrow> addr list \<Rightarrow> bool" where
  "path s h [] \<longleftrightarrow> h = 0"
| "path s h (x # xs) \<longleftrightarrow> h = x \<and> x \<noteq> 0 \<and> (\<exists>n. t_next s x = Some n \<and> path s n xs)"

definition scheduled :: "tasklets \<Rightarrow> addr list \<Rightarrow> bool" where
  "scheduled s xs \<longleftrightarrow> path s (g_tasklet_list s) xs \<and> distinct xs"

lemma path_other: "x \<notin> set xs \<Longrightarrow> path (s\<lparr>t_next := (t_next s)(x \<mapsto> v)\<rparr>) h xs = path s h xs"
  by (induction xs arbitrary: h) auto

lemma path_head [simp]: "path (s\<lparr>g_tasklet_list := v\<rparr>) h xs = path s h xs"
  by (induction xs arbitrary: h) auto

text \<open>The last cell of a path that starts in the cell \<open>l\<close>.\<close>

fun end_cell :: "cell \<Rightarrow> addr list \<Rightarrow> cell" where
  "end_cell l [] = l"
| "end_cell l (x # xs) = end_cell (NextOf x) xs"

lemma walk_path:
  assumes "cell_value l s = Some h" and "path s h xs"
  shows "schedule_walk t l s = Some (if t \<in> set xs then None else Some (end_cell l xs))"
  using assms
proof (induction xs arbitrary: l h)
  case Nil
  then show ?case by (subst schedule_walk.simps) simp
next
  case (Cons x xs)
  obtain n where n: "t_next s x = Some n" "path s n xs" using Cons.prems(2) by auto
  have "schedule_walk t (NextOf x) s = Some (if t \<in> set xs then None else Some (end_cell (NextOf x) xs))"
    using Cons.IH [of "NextOf x" n] n by simp
  then show ?case using Cons.prems by (subst schedule_walk.simps) auto
qed

lemma end_cell_NextOf: "end_cell (NextOf y) xs = NextOf (last (y # xs))"
  by (induction xs arbitrary: y) auto

lemma path_extend:
  assumes "path s h xs" and "distinct xs" and "xs \<noteq> []" and "t \<noteq> 0" and "t \<notin> set xs" and "t_next s t = Some 0"
  shows "path (s\<lparr>t_next := (t_next s)(last xs \<mapsto> t)\<rparr>) h (xs @ [t])"
  using assms
proof (induction xs arbitrary: h)
  case (Cons x xs)
  obtain n where n: "h = x" "x \<noteq> 0" "t_next s x = Some n" "path s n xs" using Cons.prems(1) by auto
  show ?case
  proof (cases "xs = []")
    case True
    then show ?thesis using Cons.prems n by auto
  next
    case False
    then have "x \<noteq> last xs" using Cons.prems(2) by auto
    then show ?thesis using Cons.IH [OF n(4)] Cons.prems False n by simp
  qed
qed simp

lemma schedule_appends:
  assumes "scheduled s xs" and "t \<noteq> 0" and "t \<in> set xs \<or> t_next s t = Some 0"
  shows "\<exists>s'. tasklet_schedule t s = Some s' \<and> scheduled s' (if t \<in> set xs then xs else xs @ [t])"
proof -
  have p: "path s (g_tasklet_list s) xs" "distinct xs" using assms(1) by (simp_all add: scheduled_def)
  have w: "schedule_walk t Head s = Some (if t \<in> set xs then None else Some (end_cell Head xs))"
    using walk_path [of Head s _ xs t] p(1) by simp
  show ?thesis
  proof (cases "t \<in> set xs")
    case True
    then show ?thesis using w assms(1) by (simp add: tasklet_schedule_def)
  next
    case new: False
    then have nt: "t_next s t = Some 0" using assms(3) by simp
    show ?thesis
    proof (cases xs)
      case Nil
      then show ?thesis using w nt assms(2) by (simp add: tasklet_schedule_def scheduled_def)
    next
      case (Cons y ys)
      then have "tasklet_schedule t s = Some (s\<lparr>t_next := (t_next s)(last xs \<mapsto> t)\<rparr>)"
        using w new by (simp add: tasklet_schedule_def end_cell_NextOf)
      moreover have "path (s\<lparr>t_next := (t_next s)(last xs \<mapsto> t)\<rparr>) (g_tasklet_list s) (xs @ [t])"
        by (rule path_extend [OF p _ assms(2) new nt]) (simp add: Cons)
      ultimately show ?thesis using new p(2) by (simp add: scheduled_def)
    qed
  qed
qed

lemma pop_takes_first:
  assumes "scheduled s (t # xs)"
  shows "\<exists>s'. tasklet_pop s = Some (t, s') \<and> scheduled s' xs \<and> t_next s' = t_next s"
  using assms by (auto simp: scheduled_def tasklet_pop_def)

text \<open>C33. The list of tasklets is a queue without duplicates, as long as only tasklets are scheduled that are in the list or whose link is
  null: scheduling a tasklet with a null link that is not in the list appends it, scheduling one that is in the list changes
  nothing, and the next tasklet to run is the one that was scheduled first. Taking it off the list changes no link, also not its own, so
  the condition holds again for it only when it was the last one of the list.\<close>

theorem tasklet_queue_refines:
  assumes "scheduled s xs" and "t \<noteq> 0" and "t \<in> set xs \<or> t_next s t = Some 0"
  shows "\<exists>s' t' s''. tasklet_schedule t s = Some s' \<and> scheduled s' (if t \<in> set xs then xs else xs @ [t]) \<and>
     tasklet_pop s' = Some (t', s'') \<and> t' = hd (xs @ [t]) \<and> scheduled s'' (tl (if t \<in> set xs then xs else xs @ [t])) \<and>
     t_next s'' = t_next s' \<and> (t_next s'' t' = Some 0 \<longleftrightarrow> tl (if t \<in> set xs then xs else xs @ [t]) = [])"
proof -
  obtain s' where s': "tasklet_schedule t s = Some s'" "scheduled s' (if t \<in> set xs then xs else xs @ [t])"
    using schedule_appends [OF assms] by blast
  let ?ys = "if t \<in> set xs then xs else xs @ [t]"
  have "?ys = hd (xs @ [t]) # tl ?ys" by (cases xs) auto
  then have sc: "scheduled s' (hd (xs @ [t]) # tl ?ys)" using s'(2) by metis
  obtain s'' where p: "tasklet_pop s' = Some (hd (xs @ [t]), s'')" "scheduled s'' (tl ?ys)" "t_next s'' = t_next s'"
    using pop_takes_first [OF sc] by blast
  have "t_next s'' (hd (xs @ [t])) = Some 0 \<longleftrightarrow> tl ?ys = []"
    using sc p(3) by (cases "tl ?ys") (auto simp: scheduled_def)
  then show ?thesis using s' p by blast
qed

definition demo_tasklets :: tasklets where
  "demo_tasklets = \<lparr>g_tasklet_list = 1, t_next = [1 \<mapsto> 2, 2 \<mapsto> 0, 3 \<mapsto> 0],
     t_call = [1 \<mapsto> (10, 0), 2 \<mapsto> (11, 0), 3 \<mapsto> (12, 0)]\<rparr>"

lemma demo_scheduled: "scheduled demo_tasklets [1, 2]"
  by (simp add: scheduled_def demo_tasklets_def)

theorem tasklet_queue_refines_witness:
  "\<exists>s'. tasklet_schedule 3 demo_tasklets = Some s' \<and> scheduled s' [1, 2, 3]"
  using tasklet_queue_refines [OF demo_scheduled, of 3] by (auto simp: demo_tasklets_def)

section \<open>Scheduling again\<close>

text \<open>Two tasklets that point at each other: the walk does not come to an end.\<close>

lemma walk_in_cycle:
  assumes "schedule_walk c l s = Some r" and "t_next s a = Some b" and "t_next s b = Some a" and "a \<noteq> 0" and "b \<noteq> 0" and "c \<noteq> a" and "c \<noteq> b"
    and "l = NextOf a \<or> l = NextOf b"
  shows False
proof -
  have "t_next s a = Some b \<and> t_next s b = Some a \<and> a \<noteq> 0 \<and> b \<noteq> 0 \<and> c \<noteq> a \<and> c \<noteq> b \<and> (l = NextOf a \<or> l = NextOf b) \<longrightarrow> False"
    using assms(1)
  proof (rule schedule_walk.raw_induct [of "\<lambda>c l s r. t_next s a = Some b \<and> t_next s b = Some a \<and> a \<noteq> 0 \<and> b \<noteq> 0 \<and> c \<noteq> a \<and> c \<noteq> b \<and>
       (l = NextOf a \<or> l = NextOf b) \<longrightarrow> False", rotated])
    fix f :: "addr \<Rightarrow> cell \<Rightarrow> tasklets \<Rightarrow> cell option option" and c l s r
    assume IH: "\<And>c l s r. f c l s = Some r \<Longrightarrow> t_next s a = Some b \<and> t_next s b = Some a \<and> a \<noteq> 0 \<and> b \<noteq> 0 \<and> c \<noteq> a \<and> c \<noteq> b \<and>
         (l = NextOf a \<or> l = NextOf b) \<longrightarrow> False"
      and st: "do { v \<leftarrow> cell_value l s; if v = 0 then Some (Some l) else if v = c then Some None else f c (NextOf v) s } = Some r"
    show "t_next s a = Some b \<and> t_next s b = Some a \<and> a \<noteq> 0 \<and> b \<noteq> 0 \<and> c \<noteq> a \<and> c \<noteq> b \<and> (l = NextOf a \<or> l = NextOf b) \<longrightarrow> False"
      using IH [of c "NextOf a" s r] IH [of c "NextOf b" s r] st by auto
  qed
  then show False using assms(2-8) by blast
qed

text \<open>C18. A tasklet keeps its link when it is taken off the list. If it schedules itself again while another one is
  scheduled, the two point at each other; from then on scheduling any third tasklet never returns.\<close>

theorem tasklet_reschedule_makes_cycle:
  assumes "scheduled s [a, b]" and "c \<noteq> a" and "c \<noteq> b"
  shows "\<exists>s1 s2. tasklet_pop s = Some (a, s1) \<and> tasklet_schedule a s1 = Some s2 \<and> t_next s2 a = Some b \<and> t_next s2 b = Some a \<and>
     tasklet_schedule c s2 = None"
proof -
  have l: "g_tasklet_list s = a" "a \<noteq> 0" "t_next s a = Some b" "b \<noteq> 0" "t_next s b = Some 0" "a \<noteq> b"
    using assms(1) by (auto simp: scheduled_def)
  define s1 where "s1 = s\<lparr>g_tasklet_list := b\<rparr>"
  define s2 where "s2 = s1\<lparr>t_next := (t_next s1)(b \<mapsto> a)\<rparr>"
  have pop: "tasklet_pop s = Some (a, s1)" using l by (simp add: tasklet_pop_def s1_def)
  have "schedule_walk a Head s1 = Some (Some (NextOf b))"
    using walk_path [of Head s1 b "[b]" a] l by (simp add: s1_def)
  then have sch: "tasklet_schedule a s1 = Some s2" by (simp add: tasklet_schedule_def s2_def)
  have n: "t_next s2 a = Some b" "t_next s2 b = Some a" "g_tasklet_list s2 = b" using l by (simp_all add: s2_def s1_def)
  have "schedule_walk c (NextOf b) s2 = None"
    using walk_in_cycle [OF _ n(1,2) l(2,4) assms(2,3)] by (cases "schedule_walk c (NextOf b) s2") auto
  then have "schedule_walk c Head s2 = None" using n(3) l(4) assms(3) by (subst schedule_walk.simps) simp
  then show ?thesis using pop sch n by (simp add: tasklet_schedule_def)
qed

theorem tasklet_reschedule_makes_cycle_witness:
  "\<exists>s1 s2. tasklet_pop demo_tasklets = Some (1, s1) \<and> tasklet_schedule 1 s1 = Some s2 \<and> tasklet_schedule 3 s2 = None"
  using tasklet_reschedule_makes_cycle [OF demo_scheduled, of 3] by auto

end
