(* ===== verification/Rtuart_Interface.thy ===== *)
theory Rtuart_Interface
  imports Rtuart_16550 Rtuart_Pl011_Regs
begin

text \<open>
  What a client of the buffered UART interface relies on: the operations that it calls return, start and stop the
  buffers, and leave everything else that the client sees alone. Both drivers provide it: the one for the 16550
  on the simulated bus and the one for the PL011 on a mapped device.
\<close>

section \<open>The interface\<close>

definition uart_kept :: "('b, 'c, 'm) rtuart_scheme \<Rightarrow> ('b, 'c, 'm) rtuart_scheme \<Rightarrow> bool" where
  "uart_kept s s' \<longleftrightarrow> r_client s' = r_client s \<and> r_buffers s' = r_buffers s \<and> r_tx_buffer s' = r_tx_buffer s \<and>
     r_rx_buffer s' = r_rx_buffer s \<and> r_in_irq s' = r_in_irq s"

lemma uart_kept_sel:
  assumes "uart_kept s s'"
  shows "r_client s' = r_client s" "r_tx_buffer s' = r_tx_buffer s" "r_rx_buffer s' = r_rx_buffer s" "get_buffer a s' = get_buffer a s"
  using assms by (simp_all add: uart_kept_def get_buffer_def)

locale buffered_uart =
  fixes ops :: "('b, 'c, 'm) rtuart_scheme rtuart_ops" and ok :: "('b, 'c, 'm) rtuart_scheme \<Rightarrow> bool"
  assumes set_notify: "ok s \<Longrightarrow> \<exists>s'. rtuart_set_notify ops n s = Some s' \<and> ok s' \<and> uart_kept s s'"
    and clr_notify: "ok s \<Longrightarrow> \<exists>s'. rtuart_clr_notify ops n s = Some s' \<and> ok s' \<and> uart_kept s s'"
    and set_control: "ok s \<Longrightarrow> \<exists>s'. rtuart_set_control ops n s = Some s' \<and> ok s' \<and> uart_kept s s'"
    and clr_control: "ok s \<Longrightarrow> \<exists>s'. rtuart_clr_control ops n s = Some s' \<and> ok s' \<and> uart_kept s s'"
    and rx_start: "ok s \<Longrightarrow> get_buffer a s = Some b \<Longrightarrow> \<exists>s'. rtuart_rx_start ops a s = Some s' \<and> ok s' \<and>
      uart_kept ((put_buffer a (b\<lparr>rb_transfered := 0\<rparr>) s)\<lparr>r_rx_buffer := a\<rparr>) s'"
    and rx_stop: "ok s \<Longrightarrow> \<exists>r s'. rtuart_rx_stop ops a s = Some (r, s') \<and> ok s' \<and> uart_kept (s\<lparr>r_rx_buffer := 0\<rparr>) s'"
    and tx_start: "ok s \<Longrightarrow> get_buffer a s = Some b \<Longrightarrow> rb_validcount b \<le> rb_size b \<Longrightarrow> r_tx_buffer s = 0 \<or> r_tx_buffer s = a \<Longrightarrow>
      \<exists>s'. rtuart_tx_start ops a s = Some s' \<and> ok s' \<and>
        uart_kept ((put_buffer a (b\<lparr>rb_transfered := 0\<rparr>) s)\<lparr>r_tx_buffer := a\<rparr>) s'"
    and ok_client: "ok (s\<lparr>r_client := c\<rparr>) = ok s"
    and ok_buffers: "ok (s\<lparr>r_buffers := B\<rparr>) = ok s"

text \<open>A client that sets the line up for DMX512 relies on more: 250000 baud, eight data bits, two stop bits, no handshake.\<close>

locale dmx_line_uart = buffered_uart ops ok
  for ops :: "('b, 'c, 'm) rtuart_scheme rtuart_ops" and ok :: "('b, 'c, 'm) rtuart_scheme \<Rightarrow> bool" +
  assumes dmx_baudrate: "ok s \<Longrightarrow> \<exists>s'. rtuart_set_baudrate ops 250000 s = Some s' \<and> ok s' \<and> uart_kept s s'"
    and dmx_format: "ok s \<Longrightarrow> \<exists>s'. rtuart_set_format ops 8 (CHR ''n'') 2 s = Some s' \<and> ok s' \<and> uart_kept s s'"
    and dmx_handshake: "ok s \<Longrightarrow> \<exists>s'. rtuart_set_handshake ops 0 s = Some s' \<and> ok s' \<and> uart_kept s s'"
    and ok_tx_buffer: "ok (s\<lparr>r_tx_buffer := a\<rparr>) = ok s"

section \<open>The 16550\<close>

definition ok_16550 :: "(dummy_bus, 'c) rtuart_16550 \<Rightarrow> bool" where
  "ok_16550 s \<longleftrightarrow> dummy_ok (r_bus s) \<and> \<not> bit (v_lcr (dummy_view (r_bus s))) 7"

abbreviation ops_16550 :: "(dummy_bus, 'c) rtuart_16550 rtuart_ops" where
  "ops_16550 \<equiv> rtuart_pc16c550_ops None dummy_read_u8 dummy_write_u8 0"

lemma change_notify_16550:
  assumes "ok_16550 s"
  shows "\<exists>s'. rt_change_notify dummy_write_u8 n s = Some s' \<and> ok_16550 s' \<and> uart_kept s s'"
proof -
  obtain b where "dummy_write_u8 PC16550_REG_IER (rt_ier_of n) (r_bus s) = Some b" "dummy_ok b"
      "v_lcr (dummy_view b) = v_lcr (dummy_view (r_bus s))"
    using db.wr_ier [of "r_bus s" "rt_ier_of n"] assms by (auto simp: ok_16550_def)
  then show ?thesis
    using assms by (auto simp: rt_change_notify_def rt_update_notification_def rt_write_def Let_def ok_16550_def uart_kept_def)
qed

lemma change_lcr_16550:
  assumes "ok_16550 s" and "\<And>v. \<not> bit v 7 \<Longrightarrow> \<not> bit (f v) 7"
  shows "\<exists>s'. change_reg dummy_read_u8 dummy_write_u8 PC16550_REG_LCR f s = Some s' \<and> ok_16550 s' \<and> uart_kept s s'"
proof -
  let ?v = "v_lcr (dummy_view (r_bus s))"
  obtain b where "dummy_write_u8 PC16550_REG_LCR (f ?v) (r_bus s) = Some b" "dummy_ok b" "v_lcr (dummy_view b) = f ?v"
    using db.wr_lcr [of "r_bus s" "f ?v"] assms(1) by (auto simp: ok_16550_def)
  then show ?thesis
    using assms db.rd_lcr [of "r_bus s"]
    by (auto simp: change_reg_def rt_read_def rt_write_def ok_16550_def uart_kept_def)
qed

lemma change_mcr_16550:
  assumes "ok_16550 s"
  shows "\<exists>s'. change_reg dummy_read_u8 dummy_write_u8 PC16550_REG_MCR f s = Some s' \<and> ok_16550 s' \<and> uart_kept s s'"
proof -
  let ?v = "v_mcr (dummy_view (r_bus s))"
  obtain b where "dummy_write_u8 PC16550_REG_MCR (f ?v) (r_bus s) = Some b" "dummy_ok b"
      "v_lcr (dummy_view b) = v_lcr (dummy_view (r_bus s))"
    using db.wr_mcr [of "r_bus s" "f ?v"] assms(1) by (auto simp: ok_16550_def)
  then show ?thesis
    using assms db.rd_mcr [of "r_bus s"]
    by (auto simp: change_reg_def rt_read_def rt_write_def ok_16550_def uart_kept_def)
qed

lemma uart_kept_refl [simp]: "uart_kept s s"
  by (simp add: uart_kept_def)

lemma uart_kept_trans: "uart_kept s s' \<Longrightarrow> uart_kept s' s'' \<Longrightarrow> uart_kept s s''"
  by (simp add: uart_kept_def)

lemma lcr_break_dlab: "\<not> bit v 7 \<Longrightarrow> \<not> bit (v OR RT_LCR_BREAK) 7" "\<not> bit v 7 \<Longrightarrow> \<not> bit (v AND NOT RT_LCR_BREAK) 7"
  by (simp_all add: bit_or_iff bit_and_iff RT_LCR_BREAK_def bit_numeral_rec)

text \<open>Two optional steps.\<close>

lemma two_steps:
  assumes "ok s" and "\<And>s. ok s \<Longrightarrow> \<exists>s'. f s = Some s' \<and> ok s' \<and> uart_kept s s'"
    and "\<And>s. ok s \<Longrightarrow> \<exists>s'. g s = Some s' \<and> ok s' \<and> uart_kept s s'"
  shows "\<exists>s'. Option.bind (if P then f s else Some s) (\<lambda>s. if Q then g s else Some s) = Some s' \<and> ok s' \<and> uart_kept s s'"
proof -
  obtain s1 where s1: "(if P then f s else Some s) = Some s1" "ok s1" "uart_kept s s1" using assms(1,2) by (cases P) auto
  obtain s2 where "(if Q then g s1 else Some s1) = Some s2" "ok s2" "uart_kept s1 s2" using s1(2) assms(3) by (cases Q) auto
  then show ?thesis using s1 by (auto intro: uart_kept_trans)
qed

lemma control_16550:
  assumes "ok_16550 s"
  shows "\<exists>s'. rt_set_control dummy_read_u8 dummy_write_u8 c s = Some s' \<and> ok_16550 s' \<and> uart_kept s s'"
    "\<exists>s'. rt_clr_control dummy_read_u8 dummy_write_u8 c s = Some s' \<and> ok_16550 s' \<and> uart_kept s s'"
  unfolding rt_set_control_def rt_clr_control_def
  by (rule two_steps [where ok = ok_16550 and s = s, OF assms]; intro change_lcr_16550 change_mcr_16550 lcr_break_dlab; assumption)+

text \<open>Starting a receive buffer, over a driver's own way to change notifications.\<close>

lemma started:
  assumes "\<And>s. ok s \<Longrightarrow> \<exists>s'. stop s = Some s' \<and> ok s' \<and> uart_kept (s\<lparr>r_rx_buffer := 0\<rparr>) s'"
    and "\<And>s. ok s \<Longrightarrow> \<exists>s'. notify s = Some s' \<and> ok s' \<and> uart_kept s s'"
    and "ok s" and "get_buffer a s = Some b" and "\<And>s B x. ok (s\<lparr>r_buffers := B, r_rx_buffer := x\<rparr>) = ok s"
  shows "\<exists>s'. Option.bind (if r_rx_buffer s \<noteq> 0 then stop s else Some s)
       (\<lambda>s. Option.bind (get_buffer a s) (\<lambda>b. notify ((put_buffer a (b\<lparr>rb_transfered := 0\<rparr>) s)\<lparr>r_rx_buffer := a\<rparr>))) = Some s' \<and> ok s' \<and>
     uart_kept ((put_buffer a (b\<lparr>rb_transfered := 0\<rparr>) s)\<lparr>r_rx_buffer := a\<rparr>) s'"
proof -
  obtain s1 where s1: "(if r_rx_buffer s \<noteq> 0 then stop s else Some s) = Some s1" "ok s1" "uart_kept (s\<lparr>r_rx_buffer := 0\<rparr>) s1"
  proof (cases "r_rx_buffer s = 0")
    case True
    then show thesis using that [of s] assms(3) by (simp add: uart_kept_def)
  next
    case False
    then show thesis using that assms(1) [OF assms(3)] by auto
  qed
  have b1: "get_buffer a s1 = Some b" using uart_kept_sel(4) [OF s1(3), of a] assms(4) by simp
  have ok1: "ok ((put_buffer a (b\<lparr>rb_transfered := 0\<rparr>) s1)\<lparr>r_rx_buffer := a\<rparr>)"
    using s1(2) by (simp add: put_buffer_def assms(5))
  obtain s2 where s2: "notify ((put_buffer a (b\<lparr>rb_transfered := 0\<rparr>) s1)\<lparr>r_rx_buffer := a\<rparr>) = Some s2" "ok s2"
      "uart_kept ((put_buffer a (b\<lparr>rb_transfered := 0\<rparr>) s1)\<lparr>r_rx_buffer := a\<rparr>) s2"
    using assms(2) [OF ok1] by blast
  have "uart_kept ((put_buffer a (b\<lparr>rb_transfered := 0\<rparr>) s)\<lparr>r_rx_buffer := a\<rparr>) s2"
    using s1(3) s2(3) by (simp add: uart_kept_def put_buffer_def)
  then show ?thesis using s1(1) b1 s2 by simp
qed

lemma ok_16550_upd [simp]:
  "ok_16550 (s\<lparr>r_client := c\<rparr>) = ok_16550 s" "ok_16550 (s\<lparr>r_buffers := B\<rparr>) = ok_16550 s" "ok_16550 (s\<lparr>r_rx_buffer := x\<rparr>) = ok_16550 s"
  "ok_16550 (s\<lparr>r_tx_buffer := x\<rparr>) = ok_16550 s" "ok_16550 (put_buffer a b s) = ok_16550 s"
  by (simp_all add: ok_16550_def put_buffer_def)

lemma rx_stop_16550:
  assumes "ok_16550 s"
  shows "\<exists>s'. rt_rx_stop dummy_write_u8 a s = Some (0, s') \<and> ok_16550 s' \<and> uart_kept (s\<lparr>r_rx_buffer := 0\<rparr>) s'"
proof -
  let ?n = "r_notify_mask s AND NOT (RTUART_NOTIFY_RECEIVER_HASDATA OR RTUART_NOTIFY_RECEIVER_TIMEOUT)"
  obtain s' where "rt_change_notify dummy_write_u8 ?n (s\<lparr>r_rx_buffer := 0\<rparr>) = Some s'" "ok_16550 s'" "uart_kept (s\<lparr>r_rx_buffer := 0\<rparr>) s'"
    using change_notify_16550 [of "s\<lparr>r_rx_buffer := 0\<rparr>" ?n] assms by auto
  then show ?thesis by (simp add: rt_rx_stop_def rt_clr_notify_def)
qed

lemma rx_start_16550:
  assumes "ok_16550 s" and "get_buffer a s = Some b"
  shows "\<exists>s'. rt_rx_start dummy_write_u8 a s = Some s' \<and> ok_16550 s' \<and>
     uart_kept ((put_buffer a (b\<lparr>rb_transfered := 0\<rparr>) s)\<lparr>r_rx_buffer := a\<rparr>) s'"
  unfolding rt_rx_start_def rt_set_notify_def
proof (rule started [where ok = ok_16550 and stop = "\<lambda>s. map_option snd (rt_rx_stop dummy_write_u8 (r_rx_buffer s) s)", OF _ _ assms])
  fix s :: "(dummy_bus, 'c) rtuart_16550"
  assume "ok_16550 s"
  then show "\<exists>s'. map_option snd (rt_rx_stop dummy_write_u8 (r_rx_buffer s) s) = Some s' \<and> ok_16550 s' \<and> uart_kept (s\<lparr>r_rx_buffer := 0\<rparr>) s'"
    using rx_stop_16550 [of s "r_rx_buffer s"] by auto
qed (simp_all add: change_notify_16550)

lemma tx_start_16550:
  assumes "ok_16550 s" and "get_buffer a s = Some b" and "r_tx_buffer s = 0 \<or> r_tx_buffer s = a"
  shows "\<exists>s'. rt_tx_start dummy_write_u8 a s = Some s' \<and> ok_16550 s' \<and>
     uart_kept ((put_buffer a (b\<lparr>rb_transfered := 0\<rparr>) s)\<lparr>r_tx_buffer := a\<rparr>) s'"
proof -
  let ?s = "(put_buffer a (b\<lparr>rb_transfered := 0\<rparr>) s)\<lparr>r_tx_buffer := a\<rparr>"
  have "a \<noteq> 0" using assms(2) by (auto simp: get_buffer_def split: if_splits)
  then have "rt_tx_start dummy_write_u8 a s = rt_set_notify dummy_write_u8 RTUART_NOTIFY_TRANSMITTER_READY ?s"
    using assms(2,3) by (auto simp: rt_tx_start_def rt_tx_stop_def rt_tx_written_def)
  then show ?thesis using change_notify_16550 [of ?s] assms(1) by (simp add: rt_set_notify_def)
qed

lemmas rt_ops_defs = rtuart_set_notify_def rtuart_clr_notify_def rtuart_set_control_def rtuart_clr_control_def rtuart_rx_start_def
  rtuart_rx_stop_def rtuart_tx_start_def

interpretation u16550: buffered_uart ops_16550 ok_16550
proof unfold_locales
  fix s :: "(dummy_bus, 'c) rtuart_16550" and n a b
  assume s: "ok_16550 s"
  show "\<exists>s'. rtuart_set_notify ops_16550 n s = Some s' \<and> ok_16550 s' \<and> uart_kept s s'"
    "\<exists>s'. rtuart_clr_notify ops_16550 n s = Some s' \<and> ok_16550 s' \<and> uart_kept s s'"
    using change_notify_16550 [OF s] by (simp_all add: rt_ops_defs rtuart_pc16c550_ops_def rt_set_notify_def rt_clr_notify_def)
  show "\<exists>s'. rtuart_set_control ops_16550 n s = Some s' \<and> ok_16550 s' \<and> uart_kept s s'"
    "\<exists>s'. rtuart_clr_control ops_16550 n s = Some s' \<and> ok_16550 s' \<and> uart_kept s s'"
    using control_16550 [OF s] by (simp_all add: rt_ops_defs rtuart_pc16c550_ops_def)
  show "\<exists>r s'. rtuart_rx_stop ops_16550 a s = Some (r, s') \<and> ok_16550 s' \<and> uart_kept (s\<lparr>r_rx_buffer := 0\<rparr>) s'"
    using rx_stop_16550 [OF s] by (simp add: rt_ops_defs rtuart_pc16c550_ops_def) blast
  assume b: "get_buffer a s = Some b"
  show "\<exists>s'. rtuart_rx_start ops_16550 a s = Some s' \<and> ok_16550 s' \<and>
     uart_kept ((put_buffer a (b\<lparr>rb_transfered := 0\<rparr>) s)\<lparr>r_rx_buffer := a\<rparr>) s'"
    using rx_start_16550 [OF s b] by (simp add: rt_ops_defs rtuart_pc16c550_ops_def)
  assume "r_tx_buffer s = 0 \<or> r_tx_buffer s = a"
  then show "\<exists>s'. rtuart_tx_start ops_16550 a s = Some s' \<and> ok_16550 s' \<and>
     uart_kept ((put_buffer a (b\<lparr>rb_transfered := 0\<rparr>) s)\<lparr>r_tx_buffer := a\<rparr>) s'"
    using tx_start_16550 [OF s b] by (simp add: rt_ops_defs rtuart_pc16c550_ops_def)
qed simp_all

lemma baudrate_16550:
  assumes "ok_16550 s"
  shows "\<exists>s'. rt_set_baudrate dummy_read_u8 dummy_write_u8 250000 s = Some s' \<and> ok_16550 s' \<and> uart_kept s s'"
proof -
  let ?v = "v_lcr (dummy_view (r_bus s))" and ?d = "(r_base_clock s div 16) div 250000"
  have s: "dummy_ok (r_bus s)" "\<not> bit ?v 7" using assms by (simp_all add: ok_16550_def)
  have dlab: "bit (?v OR RT_LCR_DLAB) 7" by (simp add: bit_or_iff RT_LCR_DLAB_def bit_numeral_rec)
  obtain b1 where b1: "dummy_write_u8 PC16550_REG_LCR (?v OR RT_LCR_DLAB) (r_bus s) = Some b1" "dummy_ok b1" "v_lcr (dummy_view b1) = ?v OR RT_LCR_DLAB"
    using db.wr_lcr [OF s(1), of "?v OR RT_LCR_DLAB"] by auto
  obtain b2 where b2: "dummy_write_u8 PC16550_REG_DLL (ucast ?d) b1 = Some b2" "dummy_ok b2" "v_lcr (dummy_view b2) = ?v OR RT_LCR_DLAB"
    using db.wr_dll [of b1 "ucast ?d"] b1(2,3) dlab by auto
  obtain b3 where b3: "dummy_write_u8 PC16550_REG_DLM (ucast (drop_bit 8 ?d)) b2 = Some b3" "dummy_ok b3"
    using db.wr_dlm [of b2 "ucast (drop_bit 8 ?d)"] b2(2,3) dlab by auto
  obtain b4 where b4: "dummy_write_u8 PC16550_REG_LCR ?v b3 = Some b4" "dummy_ok b4" "v_lcr (dummy_view b4) = ?v"
    using db.wr_lcr [OF b3(2), of ?v] by auto
  have "rt_set_baudrate dummy_read_u8 dummy_write_u8 250000 s = Some (s\<lparr>r_bus := b4\<rparr>)"
    using db.rd_lcr [OF s(1)] b1(1) b2(1) b3(1) b4(1) by (simp add: rt_set_baudrate_def rt_read_def rt_write_def)
  then show ?thesis using b4(2,3) s(2) by (simp add: ok_16550_def uart_kept_def)
qed

lemma format_16550:
  assumes "ok_16550 s"
  shows "\<exists>s'. rt_set_format dummy_read_u8 dummy_write_u8 8 (CHR ''n'') 2 s = Some s' \<and> ok_16550 s' \<and> uart_kept s s'"
proof -
  let ?v = "v_lcr (dummy_view (r_bus s))"
  let ?w = "?v AND NOT (RT_LCR_WLS0 OR RT_LCR_WLS1 OR RT_LCR_STB OR RT_LCR_PEN OR RT_LCR_EPS OR RT_LCR_STICK_PARITY) OR rt_format_bits 8 (CHR ''n'') 2"
  have s: "dummy_ok (r_bus s)" "\<not> bit ?v 7" using assms by (simp_all add: ok_16550_def)
  have "rt_format_bits 8 (CHR ''n'') 2 = 7" by (simp add: rt_format_bits_def rt_lcr_defs)
  then have w: "\<not> bit ?w 7" using s(2) by (simp add: bit_or_iff bit_and_iff bit_numeral_rec)
  obtain b where b: "dummy_write_u8 PC16550_REG_LCR ?w (r_bus s) = Some b" "dummy_ok b" "v_lcr (dummy_view b) = ?w"
    using db.wr_lcr [OF s(1), of ?w] by auto
  then have "rt_set_format dummy_read_u8 dummy_write_u8 8 (CHR ''n'') 2 s = Some (s\<lparr>r_bus := b\<rparr>)"
    using db.rd_lcr [OF s(1)] by (simp add: rt_set_format_def rt_read_def rt_write_def)
  then show ?thesis using b(2,3) w by (simp add: ok_16550_def uart_kept_def)
qed

interpretation d16550: dmx_line_uart ops_16550 ok_16550
  by unfold_locales
    (use baudrate_16550 format_16550 in \<open>simp_all add: rtuart_set_baudrate_def rtuart_set_format_def rtuart_set_handshake_def
      rtuart_pc16c550_ops_def rt_set_handshake_def\<close>)

section \<open>The PL011\<close>

definition ok_pl011 :: "(uio32_bus, 'c) rtuart_pl011 \<Rightarrow> bool" where
  "ok_pl011 s \<longleftrightarrow> uio32_ok (r_bus s)"

abbreviation ops_pl011 :: "(uio32_bus, 'c) rtuart_pl011 rtuart_ops" where
  "ops_pl011 \<equiv> rtuart_pl011_ops uio32_read_u32 uio32_write_u32"

lemma ok_pl011_upd [simp]:
  "ok_pl011 (s\<lparr>r_client := c\<rparr>) = ok_pl011 s" "ok_pl011 (s\<lparr>r_buffers := B\<rparr>) = ok_pl011 s" "ok_pl011 (s\<lparr>r_rx_buffer := x\<rparr>) = ok_pl011 s"
  "ok_pl011 (s\<lparr>r_tx_buffer := x\<rparr>) = ok_pl011 s" "ok_pl011 (put_buffer a b s) = ok_pl011 s" "ok_pl011 (s\<lparr>p_do_tx_polling := q\<rparr>) = ok_pl011 s"
  "ok_pl011 (rp_schedule s) = ok_pl011 s"
  by (simp_all add: ok_pl011_def put_buffer_def rp_schedule_def)

lemma change_notify_pl011:
  assumes "ok_pl011 s"
  shows "\<exists>s'. rp_change_notify uio32_read_u32 uio32_write_u32 n s = Some s' \<and> ok_pl011 s' \<and> uart_kept s s'"
proof -
  obtain b where "rp_update_notification uio32_read_u32 uio32_write_u32 (s\<lparr>r_notify_mask := n\<rparr>) = Some (s\<lparr>r_notify_mask := n, r_bus := b\<rparr>)"
      "uio32_ok b"
    using uio_pl011.notification_programmed [of "s\<lparr>r_notify_mask := n\<rparr>"] assms by (auto simp: ok_pl011_def)
  then show ?thesis using assms by (auto simp: rp_change_notify_def Let_def ok_pl011_def uart_kept_def)
qed

lemma control_pl011:
  assumes "ok_pl011 s"
  shows "\<exists>s'. map_option snd (rp_mod_control uio32_read_u32 uio32_write_u32 lm lv cm cv s) = Some s' \<and> ok_pl011 s' \<and> uart_kept s s'"
proof -
  obtain b where "rp_mod_control uio32_read_u32 uio32_write_u32 lm lv cm cv s = Some (True, s\<lparr>r_bus := b\<rparr>)" "uio32_ok b"
    using uio_pl011.mod_control_val [of s lm lv cm cv] assms by (auto simp: ok_pl011_def)
  then show ?thesis by (simp add: ok_pl011_def uart_kept_def)
qed

lemma rx_stop_pl011:
  assumes "ok_pl011 s"
  shows "\<exists>s'. rp_rx_stop uio32_read_u32 uio32_write_u32 a s = Some (0, s') \<and> ok_pl011 s' \<and> uart_kept (s\<lparr>r_rx_buffer := 0\<rparr>) s'"
proof -
  let ?n = "r_notify_mask s AND NOT (RTUART_NOTIFY_RECEIVER_HASDATA OR RTUART_NOTIFY_RECEIVER_TIMEOUT)"
  obtain s' where "rp_change_notify uio32_read_u32 uio32_write_u32 ?n (s\<lparr>r_rx_buffer := 0\<rparr>) = Some s'" "ok_pl011 s'"
      "uart_kept (s\<lparr>r_rx_buffer := 0\<rparr>) s'"
    using change_notify_pl011 [of "s\<lparr>r_rx_buffer := 0\<rparr>" ?n] assms by auto
  then show ?thesis by (simp add: rp_rx_stop_def rp_clr_notify_def)
qed

lemma rx_start_pl011:
  assumes "ok_pl011 s" and "get_buffer a s = Some b"
  shows "\<exists>s'. rp_rx_start uio32_read_u32 uio32_write_u32 a s = Some s' \<and> ok_pl011 s' \<and>
     uart_kept ((put_buffer a (b\<lparr>rb_transfered := 0\<rparr>) s)\<lparr>r_rx_buffer := a\<rparr>) s'"
  unfolding rp_rx_start_def rp_set_notify_def
proof (rule started [where ok = ok_pl011 and stop = "\<lambda>s. map_option snd (rp_rx_stop uio32_read_u32 uio32_write_u32 (r_rx_buffer s) s)",
      OF _ _ assms])
  fix s :: "(uio32_bus, 'c) rtuart_pl011"
  assume "ok_pl011 s"
  then show "\<exists>s'. map_option snd (rp_rx_stop uio32_read_u32 uio32_write_u32 (r_rx_buffer s) s) = Some s' \<and> ok_pl011 s' \<and>
     uart_kept (s\<lparr>r_rx_buffer := 0\<rparr>) s'"
    using rx_stop_pl011 [of s "r_rx_buffer s"] by auto
qed (simp_all add: change_notify_pl011)

lemma tx_start_pl011:
  assumes "ok_pl011 s" and "get_buffer a s = Some b" and "rb_validcount b \<le> rb_size b" and "r_tx_buffer s = 0 \<or> r_tx_buffer s = a"
  shows "\<exists>s'. rp_tx_start uio32_read_u32 uio32_write_u32 a s = Some s' \<and> ok_pl011 s' \<and>
     uart_kept ((put_buffer a (b\<lparr>rb_transfered := 0\<rparr>) s)\<lparr>r_tx_buffer := a\<rparr>) s'"
proof -
  let ?s = "(put_buffer a (b\<lparr>rb_transfered := 0\<rparr>) s)\<lparr>r_tx_buffer := a, p_do_tx_polling := False\<rparr>"
  have "a \<noteq> 0" using assms(2) by (auto simp: get_buffer_def split: if_splits)
  then have "rp_tx_start uio32_read_u32 uio32_write_u32 a s =
      map_option rp_schedule (rp_set_notify uio32_read_u32 uio32_write_u32 RTUART_NOTIFY_TRANSMITTER_READY ?s)"
    using assms(2-4) by (auto simp: rp_tx_start_def rp_tx_stop_def rp_tx_written_def)
  moreover obtain s' where "rp_change_notify uio32_read_u32 uio32_write_u32 (r_notify_mask ?s OR RTUART_NOTIFY_TRANSMITTER_READY) ?s = Some s'"
      "ok_pl011 s'" "uart_kept ?s s'"
    using change_notify_pl011 [of ?s "r_notify_mask ?s OR RTUART_NOTIFY_TRANSMITTER_READY"] assms(1) by auto
  ultimately show ?thesis by (auto simp: rp_set_notify_def uart_kept_def rp_schedule_def ok_pl011_def)
qed

interpretation upl011: buffered_uart ops_pl011 ok_pl011
proof unfold_locales
  fix s :: "(uio32_bus, 'c) rtuart_pl011" and n a b
  assume s: "ok_pl011 s"
  show "\<exists>s'. rtuart_set_notify ops_pl011 n s = Some s' \<and> ok_pl011 s' \<and> uart_kept s s'"
    "\<exists>s'. rtuart_clr_notify ops_pl011 n s = Some s' \<and> ok_pl011 s' \<and> uart_kept s s'"
    using change_notify_pl011 [OF s] by (simp_all add: rt_ops_defs rtuart_pl011_ops_def rp_set_notify_def rp_clr_notify_def)
  show "\<exists>s'. rtuart_set_control ops_pl011 n s = Some s' \<and> ok_pl011 s' \<and> uart_kept s s'"
    "\<exists>s'. rtuart_clr_control ops_pl011 n s = Some s' \<and> ok_pl011 s' \<and> uart_kept s s'"
    using control_pl011 [OF s] by (simp_all add: rt_ops_defs rtuart_pl011_ops_def rp_set_control_def rp_clr_control_def Let_def)
  show "\<exists>r s'. rtuart_rx_stop ops_pl011 a s = Some (r, s') \<and> ok_pl011 s' \<and> uart_kept (s\<lparr>r_rx_buffer := 0\<rparr>) s'"
    using rx_stop_pl011 [OF s] by (simp add: rt_ops_defs rtuart_pl011_ops_def) blast
  assume b: "get_buffer a s = Some b"
  show "\<exists>s'. rtuart_rx_start ops_pl011 a s = Some s' \<and> ok_pl011 s' \<and>
     uart_kept ((put_buffer a (b\<lparr>rb_transfered := 0\<rparr>) s)\<lparr>r_rx_buffer := a\<rparr>) s'"
    using rx_start_pl011 [OF s b] by (simp add: rt_ops_defs rtuart_pl011_ops_def)
  assume "rb_validcount b \<le> rb_size b" "r_tx_buffer s = 0 \<or> r_tx_buffer s = a"
  then show "\<exists>s'. rtuart_tx_start ops_pl011 a s = Some s' \<and> ok_pl011 s' \<and>
     uart_kept ((put_buffer a (b\<lparr>rb_transfered := 0\<rparr>) s)\<lparr>r_tx_buffer := a\<rparr>) s'"
    using tx_start_pl011 [OF s b] by (simp add: rt_ops_defs rtuart_pl011_ops_def)
qed simp_all

lemma put_pl011:
  assumes "uio32_ok (r_bus s)" and "0 \<le> r" and "r < 18"
  shows "\<exists>b. rp_put uio32_write_u32 r v s = Some (s\<lparr>r_bus := b\<rparr>) \<and> uio32_ok b"
  using uio_words.wr_val [OF assms, of v] by (auto simp: rp_write_def)

lemma baudrate_pl011:
  assumes "ok_pl011 s"
  shows "\<exists>s'. rp_set_baudrate uio32_read_u32 uio32_write_u32 250000 s = Some s' \<and> ok_pl011 s' \<and> uart_kept s s'"
proof -
  let ?d = "(r_base_clock s * 64) div (16 * 250000)"
  obtain b1 where b1: "rp_put uio32_write_u32 PL011_REG_IBRD (ucast (ucast (drop_bit 6 ?d) :: u16)) s = Some (s\<lparr>r_bus := b1\<rparr>)" "uio32_ok b1"
    using put_pl011 [of s PL011_REG_IBRD] assms by (force simp: ok_pl011_def pl011_reg_defs)
  obtain b2 where b2: "rp_put uio32_write_u32 PL011_REG_FBRD (?d AND 0x63) (s\<lparr>r_bus := b1\<rparr>) = Some (s\<lparr>r_bus := b2\<rparr>)" "uio32_ok b2"
    using put_pl011 [of "s\<lparr>r_bus := b1\<rparr>" PL011_REG_FBRD] b1(2) by (force simp: pl011_reg_defs)
  obtain v where v: "rp_read uio32_read_u32 PL011_REG_LCRH (s\<lparr>r_bus := b2\<rparr>) = Some (Some v, s\<lparr>r_bus := b2\<rparr>)"
    using uio_words.rd_val [OF b2(2), of PL011_REG_LCRH] by (simp add: rp_read_def pl011_reg_defs)
  obtain b3 where b3: "rp_put uio32_write_u32 PL011_REG_LCRH v (s\<lparr>r_bus := b2\<rparr>) = Some (s\<lparr>r_bus := b3\<rparr>)" "uio32_ok b3"
    using put_pl011 [of "s\<lparr>r_bus := b2\<rparr>" PL011_REG_LCRH] b2(2) by (force simp: pl011_reg_defs)
  have "rp_set_baudrate uio32_read_u32 uio32_write_u32 250000 s = Some (s\<lparr>r_bus := b3\<rparr>)"
    using b1(1) b2(1) v b3(1) by (auto simp: rp_set_baudrate_def rp_divisor_def)
  then show ?thesis using b3(2) by (simp add: ok_pl011_def uart_kept_def)
qed

lemma format_pl011:
  assumes "ok_pl011 s"
  shows "\<exists>s'. rp_set_format uio32_read_u32 uio32_write_u32 d p st s = Some s' \<and> ok_pl011 s' \<and> uart_kept s s'"
proof -
  obtain b where "rp_change_register uio32_read_u32 uio32_write_u32 PL011_REG_LCRH rp_format_mask (rp_format_value d p st) s = Some (True, s\<lparr>r_bus := b\<rparr>)"
      "uio32_ok b"
    using uio_pl011.change_val [of s PL011_REG_LCRH rp_format_mask "rp_format_value d p st"] assms by (auto simp: ok_pl011_def pl011_reg_defs)
  then show ?thesis by (simp add: rp_set_format_def ok_pl011_def uart_kept_def)
qed

lemma handshake_pl011:
  assumes "ok_pl011 s"
  shows "\<exists>s'. rp_set_handshake uio32_read_u32 uio32_write_u32 h s = Some s' \<and> ok_pl011 s' \<and> uart_kept s s'"
  unfolding rp_set_handshake_def by (rule control_pl011 [OF assms])

interpretation dpl011: dmx_line_uart ops_pl011 ok_pl011
  by unfold_locales
    (use baudrate_pl011 format_pl011 handshake_pl011 in \<open>simp_all add: rtuart_set_baudrate_def rtuart_set_format_def
      rtuart_set_handshake_def rtuart_pl011_ops_def\<close>)

end
