(* ===== verification/Dmx_Rtuart.thy ===== *)
theory Dmx_Rtuart
  imports Rtuart_Buffer Rdm
begin

text \<open>
  DMX512 and RDM over the buffered UART interface (\<^verbatim>\<open>src/src/uio-testbench/rtuart/t_dmxrtuart.c\<close>): the slot count
  lock, recognition of RDM frames, the port with its callbacks and timer, and the main loop that moves
  frames between the port and a card.

  The port is the client of a driver: its state is \<open>r_client\<close>, and it calls the driver through the table
  \<open>ops\<close>. Frames are in a store and are passed by address, zero is the null pointer. The data pointer of a
  buffer points into a frame: \<open>d_rx_data\<close> and \<open>d_tx_data\<close> tell into which one and where, and what the receive
  buffer holds is what the frame shows there (\<open>deref\<close>). Releasing a frame makes the pointers into it invalid.
  Names that an earlier theory uses for another file have the prefix \<open>rtc\<close>, the states \<open>RTPORT\<close> for
  \<open>PORT_STATE\<close>.
\<close>

section \<open>The slot count lock\<close>

record rtc_slot_count_lock =
  sl_enabled :: bool
  sl_locked :: bool
  sl_required_count :: "6 word"
  sl_matching_frame_count :: "6 word"
  sl_matching_slot_count :: "10 word"

definition slot_count_lock__init :: rtc_slot_count_lock where
  "slot_count_lock__init = \<lparr>sl_enabled = False, sl_locked = False, sl_required_count = 10, sl_matching_frame_count = 0,
     sl_matching_slot_count = 0\<rparr>"

definition slot_count_lock__lost_lock :: "rtc_slot_count_lock \<Rightarrow> rtc_slot_count_lock" where
  "slot_count_lock__lost_lock l = l\<lparr>sl_locked := False, sl_matching_frame_count := 0, sl_matching_slot_count := 0\<rparr>"

definition slot_count_lock__received_frame :: "rtc_slot_count_lock \<Rightarrow> dmx512frame \<Rightarrow> rtc_slot_count_lock" where
  "slot_count_lock__received_frame l frame = (
     if sl_enabled l \<and> f_startcode frame = 0 then
       (if sl_locked l then
          (if f_payload_size frame \<noteq> ucast (sl_matching_slot_count l) then slot_count_lock__lost_lock l else l)
        else if sl_matching_frame_count l \<noteq> 0 \<and> ucast (sl_matching_slot_count l) = f_payload_size frame then
          (if sl_matching_frame_count l = sl_required_count l then l\<lparr>sl_locked := True\<rparr>
           else l\<lparr>sl_matching_frame_count := sl_matching_frame_count l + 1\<rparr>)
        else l\<lparr>sl_matching_frame_count := 1, sl_matching_slot_count := ucast (f_payload_size frame)\<rparr>)
     else l)"

section \<open>RDM frames\<close>

definition GET_COMMAND :: u8 where "GET_COMMAND = 0x20"
definition GET_COMMAND_RESPONSE :: u8 where "GET_COMMAND_RESPONSE = 0x21"
definition SET_COMMAND :: u8 where "SET_COMMAND = 0x30"
definition SET_COMMAND_RESPONSE :: u8 where "SET_COMMAND_RESPONSE = 0x31"
definition RESPONSE_TYPE_ACK :: u8 where "RESPONSE_TYPE_ACK = 0"

definition dmx512_is_rdm_frame :: "dmx512frame \<Rightarrow> bool" where
  "dmx512_is_rdm_frame frame \<longleftrightarrow>
     f_data frame ! DMX_POS_STARTCODE = SC_RDM \<and> f_data frame ! RDM_POS_SUBSTARTCODE = SC_SUB_MESSAGE"

definition dmx512_is_rdm_disc_unique_branch_request :: "dmx512frame \<Rightarrow> bool" where
  "dmx512_is_rdm_disc_unique_branch_request frame \<longleftrightarrow>
     dmx512_is_rdm_frame frame \<and>
     f_data frame ! RDM_POS_COMMAND_CLASS = DISCOVERY_COMMAND \<and>
     f_data frame ! RDM_POS_PID = ucast (drop_bit 8 DISC_UNIQUE_BRANCH) \<and>
     f_data frame ! (RDM_POS_PID + 1) = ucast DISC_UNIQUE_BRANCH \<and>
     f_data frame ! RDM_POS_PDL = 12"

definition dmx512_is_rdm_disc_unique_branch_reply :: "dmx512frame \<Rightarrow> bool" where
  "dmx512_is_rdm_disc_unique_branch_reply frame \<longleftrightarrow>
     dmx512_is_rdm_frame frame \<and>
     f_data frame ! RDM_POS_COMMAND_CLASS = DISCOVERY_COMMAND_RESPONSE \<and>
     f_data frame ! RDM_POS_PID = ucast (drop_bit 8 DISC_UNIQUE_BRANCH) \<and>
     f_data frame ! (RDM_POS_PID + 1) = ucast DISC_UNIQUE_BRANCH \<and>
     f_data frame ! RDM_POS_PDL = 0"

definition dmx512_is_rdm_request :: "dmx512frame \<Rightarrow> bool" where
  "dmx512_is_rdm_request frame \<longleftrightarrow>
     dmx512_is_rdm_frame frame \<and>
     (f_data frame ! RDM_POS_COMMAND_CLASS = DISCOVERY_COMMAND \<or>
      f_data frame ! RDM_POS_COMMAND_CLASS = GET_COMMAND \<or>
      f_data frame ! RDM_POS_COMMAND_CLASS = SET_COMMAND)"

definition dmx512_is_rdm_reply :: "dmx512frame \<Rightarrow> bool" where
  "dmx512_is_rdm_reply frame \<longleftrightarrow>
     dmx512_is_rdm_frame frame \<and>
     (f_data frame ! RDM_POS_COMMAND_CLASS = DISCOVERY_COMMAND_RESPONSE \<or>
      f_data frame ! RDM_POS_COMMAND_CLASS = GET_COMMAND_RESPONSE \<or>
      f_data frame ! RDM_POS_COMMAND_CLASS = SET_COMMAND_RESPONSE)"

definition dmx512_rdm_frame_dest :: "dmx512frame \<Rightarrow> u64" where
  "dmx512_rdm_frame_dest frame =
     foldl (\<lambda>uid i. push_bit 8 uid OR ucast (f_data frame ! (RDM_POS_DEST_UID + i))) 0 [0..<6]"

definition dmx512_is_rdm_frame_is_broadcast :: "dmx512frame \<Rightarrow> bool" where
  "dmx512_is_rdm_frame_is_broadcast frame \<longleftrightarrow> (\<forall>i \<in> set [0..<6]. f_data frame ! (RDM_POS_DEST_UID + i) = 0xFF)"

definition dmx512_rdm_build_rdmdiscovery_reply :: "dmx512frame \<Rightarrow> u8 list" where
  "dmx512_rdm_build_rdmdiscovery_reply frame = (
     let d = f_data frame;
         uid = concat (map (\<lambda>i. [0xAA OR d ! (RDM_POS_SRC_UID + i), 0x55 OR d ! (RDM_POS_SRC_UID + i)]) [0..<6]);
         checksum = rdm_sum uid
     in [0xFE, 0xFE, 0xFE, 0xFE, 0xFE, 0xFE, 0xFE, 0xAA] @ uid @
        [0xAA OR ucast (drop_bit 8 checksum), 0x55 OR ucast (drop_bit 8 checksum), 0xAA OR ucast checksum, 0x55 OR ucast checksum])"

definition RDM_POS_DISC_UNIQUE_BANCH_DATA :: nat where "RDM_POS_DISC_UNIQUE_BANCH_DATA = 256 + 2"

definition RTC_DISCOVERY_REQUEST_REPLY_TIMEOUT :: u32 where "RTC_DISCOVERY_REQUEST_REPLY_TIMEOUT = 15000"
definition RTC_TIMEOUT_RDMDISCOVERY_LENGTH :: u32 where "RTC_TIMEOUT_RDMDISCOVERY_LENGTH = 15000"

section \<open>The port\<close>

datatype rtc_state =
    RTPORT_DOWN | RTPORT_IDLE | RTPORT_IDLE_AFTER_DMXDATA00
  | RTPORT_EXPECT_STARTCODE | RTPORT_RECEIVE_DMXDATA
  | RTPORT_TRANSMIT_BREAK_ONEWAY | RTPORT_TRANSMIT_DATA_ONEWAY
  | RTPORT_TRANSMIT_BREAK_TWOWAY | RTPORT_TRANSMIT_DATA_TWOWAY
  | RTPORT_RECV_RDMDISC_REPLY | RTPORT_RECV_RDMDISC_REPLY_COLLISION
  | RTPORT_EXPECT_RDM_REPLY_BREAK | RTPORT_RECV_RDM_REPLY_DATA

fun statename :: "rtc_state \<Rightarrow> string" where
  "statename RTPORT_DOWN = ''DOWN''"
| "statename RTPORT_IDLE = ''IDLE''"
| "statename RTPORT_IDLE_AFTER_DMXDATA00 = ''IDLE_AFTER_DMXDATA00''"
| "statename RTPORT_EXPECT_STARTCODE = ''EXPECT_STARTCODE''"
| "statename RTPORT_RECEIVE_DMXDATA = ''RECEIVE_DMXDATA''"
| "statename RTPORT_TRANSMIT_BREAK_ONEWAY = ''TRANSMIT_BREAK_ONEWAY''"
| "statename RTPORT_TRANSMIT_DATA_ONEWAY = ''TRANSMIT_DATA_ONEWAY''"
| "statename RTPORT_TRANSMIT_BREAK_TWOWAY = ''TRANSMIT_BREAK_TWOWAY''"
| "statename RTPORT_TRANSMIT_DATA_TWOWAY = ''TRANSMIT_DATA_TWOWAY''"
| "statename RTPORT_RECV_RDMDISC_REPLY = ''RECV_RDMDISC_REPLY''"
| "statename RTPORT_RECV_RDMDISC_REPLY_COLLISION = ''RECV_RDMDISC_REPLY_COLLISION''"
| "statename RTPORT_EXPECT_RDM_REPLY_BREAK = ''EXPECT_RDM_REPLY_BREAK''"
| "statename RTPORT_RECV_RDM_REPLY_DATA = ''RECV_RDM_REPLY_DATA''"

text \<open>How the transmitter of the line is switched on: \<open>enable_rs485_transmitter\<close>.\<close>

datatype rs485_switch = Rs485_Gpio | Rs485_Rts

text \<open>
  Below the fields of the structure are those of the surroundings: the frames that are allocated, the next
  address and the number of frames that \<open>malloc\<close> can give, the list of received frames (\<open>received_frames\<close>,
  first element first), what was written to the pipe and to the card, the value of the GPIO line, and whether
  \<open>timer_create\<close> succeeds.
\<close>

record rtc_port =
  d_state :: rtc_state
  d_tx_frame :: addr
  d_tx_data :: "(addr \<times> nat) option"
  d_rx_frame :: addr
  d_rx_data :: "(addr \<times> nat) option"
  d_lock :: rtc_slot_count_lock
  d_rs485 :: "rs485_switch option"
  d_gpio_line :: bool
  d_timer_active :: bool
  d_timer_set :: "(int \<times> int) option"
  d_timer_call :: bool
  d_frames :: "addr \<rightharpoonup> dmx512frame"
  d_next :: addr
  d_room :: nat
  d_received :: "addr list"
  d_signals :: nat
  d_card :: "dmx512frame list"
  d_gpio :: bool
  d_timer_ok :: bool

type_synonym ('b, 'm) rtc = "('b, rtc_port, 'm) rtuart_scheme"
type_synonym ('b, 'm) rtc_ops = "('b, 'm) rtc rtuart_ops"

abbreviation upd :: "(rtc_port \<Rightarrow> rtc_port) \<Rightarrow> ('b, 'm) rtc \<Rightarrow> ('b, 'm) rtc" where
  "upd f s \<equiv> s\<lparr>r_client := f (r_client s)\<rparr>"

definition rtc_next_state :: "rtc_state \<Rightarrow> ('b, 'm) rtc \<Rightarrow> ('b, 'm) rtc" where
  "rtc_next_state st s = upd (\<lambda>p. p\<lparr>d_state := st\<rparr>) s"

text \<open>The addresses of the two buffers of the port.\<close>

definition TX_BUFFER :: addr where "TX_BUFFER = 1"
definition RX_BUFFER :: addr where "RX_BUFFER = 2"

section \<open>Frames\<close>

definition rtc_get_frame :: "('b, 'm) rtc \<Rightarrow> addr \<times> ('b, 'm) rtc" where
  "rtc_get_frame s = (let p = r_client s in
     if d_room p = 0 then (0, s)
     else (d_next p, s\<lparr>r_client := p\<lparr>d_frames := (d_frames p)(d_next p \<mapsto> zero_frame), d_next := d_next p + 1, d_room := d_room p - 1\<rparr>\<rparr>))"

text \<open>A pointer of a buffer into a frame that is released becomes invalid.\<close>

definition invalidate :: "(addr \<times> nat) option \<Rightarrow> addr \<Rightarrow> addr \<Rightarrow> ('b, 'm) rtc \<Rightarrow> ('b, 'm) rtc" where
  "invalidate ptr buffer a s = (case ptr of
     Some (owner, off) \<Rightarrow>
       if owner = a then (case get_buffer buffer s of Some b \<Rightarrow> put_buffer buffer (b\<lparr>rb_data := None\<rparr>) s | None \<Rightarrow> s) else s
   | None \<Rightarrow> s)"

definition rtc_release :: "addr \<Rightarrow> ('b, 'm) rtc \<Rightarrow> ('b, 'm) rtc" where
  "rtc_release a s = upd (\<lambda>p. p\<lparr>d_frames := (d_frames p)(a := None), d_room := d_room p + 1\<rparr>)
     (invalidate (d_tx_data (r_client s)) TX_BUFFER a (invalidate (d_rx_data (r_client s)) RX_BUFFER a s))"

definition rtc_put_frame :: "addr \<Rightarrow> ('b, 'm) rtc \<Rightarrow> ('b, 'm) rtc option" where
  "rtc_put_frame a s = (
     if a = 0 then Some s else if d_frames (r_client s) a = None then None else Some (rtc_release a s))"

text \<open>The frame at an address, with what has been received into it.\<close>

definition deref :: "addr \<Rightarrow> ('b, 'm) rtc \<Rightarrow> dmx512frame option" where
  "deref a s = (if a = 0 then None else do {
     f \<leftarrow> d_frames (r_client s) a;
     Some (case d_rx_data (r_client s) of
       Some (owner, off) \<Rightarrow>
         if owner = a then
           (case Option.bind (get_buffer RX_BUFFER s) rb_data of Some d \<Rightarrow> f\<lparr>f_data := blit (f_data f) off d\<rparr> | None \<Rightarrow> f)
         else f
     | None \<Rightarrow> f) })"

definition store_frame :: "addr \<Rightarrow> dmx512frame \<Rightarrow> ('b, 'm) rtc \<Rightarrow> ('b, 'm) rtc" where
  "store_frame a f s = upd (\<lambda>p. p\<lparr>d_frames := (d_frames p)(a \<mapsto> f)\<rparr>) s"

definition rtc_received_frame :: "addr \<Rightarrow> ('b, 'm) rtc \<Rightarrow> ('b, 'm) rtc" where
  "rtc_received_frame a s = (if a = 0 then s else upd (\<lambda>p. p\<lparr>d_received := a # d_received p, d_signals := d_signals p + 1\<rparr>) s)"

section \<open>Timer\<close>

definition rtc_stop_rdm_timer :: "('b, 'm) rtc \<Rightarrow> ('b, 'm) rtc" where
  "rtc_stop_rdm_timer s = (if d_timer_active (r_client s) then upd (\<lambda>p. p\<lparr>d_timer_active := False, d_timer_set := None\<rparr>) s else s)"

text \<open>The timer runs out: the handler of the timer thread.\<close>

definition rtc_timer_thread_handler :: "('b, 'm) rtc \<Rightarrow> ('b, 'm) rtc" where
  "rtc_timer_thread_handler s = upd (\<lambda>p. p\<lparr>d_timer_call := True\<rparr>) s"

definition rtc_start_rdm_timer :: "u32 \<Rightarrow> ('b, 'm) rtc \<Rightarrow> ('b, 'm) rtc" where
  "rtc_start_rdm_timer timeout_microseconds s = (
     if \<not> d_timer_active (r_client s) \<and> \<not> d_timer_ok (r_client s) then s
     else let nanosecs = uint (timeout_microseconds * 1000)
          in upd (\<lambda>p. p\<lparr>d_timer_active := True, d_timer_set := Some (nanosecs div 1000000000, nanosecs mod 1000000000)\<rparr>) s)"

section \<open>Switching the line\<close>

definition dmxrtuart_enable_rs485_transmitter_rts :: "('b, 'm) rtc_ops \<Rightarrow> bool \<Rightarrow> ('b, 'm) rtc \<Rightarrow> ('b, 'm) rtc option" where
  "dmxrtuart_enable_rs485_transmitter_rts ops en s =
     (if en then rtuart_clr_control ops RTUART_CONTROL_RTS s else rtuart_set_control ops RTUART_CONTROL_RTS s)"

definition dmxrtuart_enable_rs485_transmitter_gpio :: "bool \<Rightarrow> ('b, 'm) rtc \<Rightarrow> ('b, 'm) rtc option" where
  "dmxrtuart_enable_rs485_transmitter_gpio en s =
     Some (if d_gpio_line (r_client s) then upd (\<lambda>p. p\<lparr>d_gpio := en\<rparr>) s else s)"

definition enable_rs485_transmitter :: "('b, 'm) rtc_ops \<Rightarrow> bool \<Rightarrow> ('b, 'm) rtc \<Rightarrow> ('b, 'm) rtc option" where
  "enable_rs485_transmitter ops en s = (case d_rs485 (r_client s) of
     Some Rs485_Rts \<Rightarrow> dmxrtuart_enable_rs485_transmitter_rts ops en s
   | Some Rs485_Gpio \<Rightarrow> dmxrtuart_enable_rs485_transmitter_gpio en s
   | None \<Rightarrow> Some s)"

text \<open>\<open>chip\<close>, \<open>line\<close> and \<open>request\<close> are what the three calls of the GPIO library give.\<close>

definition dmxrtuart_rs485txen_init ::
  "('b, 'm) rtc_ops \<Rightarrow> bool \<Rightarrow> bool \<Rightarrow> bool \<Rightarrow> string \<Rightarrow> ('b, 'm) rtc \<Rightarrow> ('b, 'm) rtc option" where
  "dmxrtuart_rs485txen_init ops chip line request rs485_io s = (
     let s = upd (\<lambda>p. p\<lparr>d_gpio_line := False\<rparr>) s;
         s = (if rs485_io = ''gpiochip0.18'' then
                (if chip \<and> line \<and> request then upd (\<lambda>p. p\<lparr>d_gpio_line := True, d_gpio := False, d_rs485 := Some Rs485_Gpio\<rparr>) s else s)
              else if rs485_io = ''rts'' then upd (\<lambda>p. p\<lparr>d_rs485 := Some Rs485_Rts\<rparr>) s
              else s)
     in enable_rs485_transmitter ops False s)"

section \<open>Receiving\<close>

definition dmx512_rtuart_complete_rxframe :: "('b, 'm) rtc \<Rightarrow> (addr \<times> ('b, 'm) rtc) option" where
  "dmx512_rtuart_complete_rxframe s = (
     let frame = d_rx_frame (r_client s) in do {
     b \<leftarrow> get_buffer RX_BUFFER s;
     f \<leftarrow> deref frame s;
     let s = upd (\<lambda>p. p\<lparr>d_rx_frame := 0\<rparr>) s;
     Some (frame, store_frame frame (f\<lparr>f_payload_size := word_of_int (int (rb_transfered b) - 1)\<rparr>) s) })"

definition dmx512_rtuart_start_receive_data ::
  "('b, 'm) rtc_ops \<Rightarrow> nat \<Rightarrow> bool \<Rightarrow> ('b, 'm) rtc \<Rightarrow> ('b, 'm) rtc option" where
  "dmx512_rtuart_start_receive_data ops buffer_offset startcode_trigger s = do {
     s \<leftarrow> rtuart_set_notify ops RTUART_NOTIFY_RECEIVER_EVENT s;
     s \<leftarrow> rtuart_set_notify ops RTUART_NOTIFY_RECEIVER_HASDATA s;
     let (frame, s) = rtc_get_frame s;
     let s = upd (\<lambda>p. p\<lparr>d_rx_frame := frame\<rparr>) s;
     if frame \<noteq> 0 then do {
       f \<leftarrow> deref frame s;
       b \<leftarrow> get_buffer RX_BUFFER s;
       let b = b\<lparr>rb_data := Some (drop buffer_offset (f_data f)), rb_size := 513 - buffer_offset, rb_validcount := 513 - buffer_offset\<rparr>;
       t \<leftarrow> (if startcode_trigger then arr_set (rb_trigger b) 0 1 else Some (rb_trigger b));
       let b = (if startcode_trigger then b\<lparr>rb_triggermask := 1, rb_trigger := t\<rparr> else b);
       rtuart_rx_start ops RX_BUFFER (upd (\<lambda>p. p\<lparr>d_rx_data := Some (frame, buffer_offset)\<rparr>) (put_buffer RX_BUFFER b s)) }
     else Some s }"

section \<open>Callbacks of the transmitter\<close>

definition dmx512_rtuart_tx_start :: "addr \<Rightarrow> ('b, 'm) rtc \<Rightarrow> ('b, 'm) rtc option" where
  "dmx512_rtuart_tx_start buffer s = Some s"

definition dmx512_rtuart_tx_end1 :: "('b, 'm) rtc_ops \<Rightarrow> addr \<Rightarrow> ('b, 'm) rtc \<Rightarrow> ('b, 'm) rtc option" where
  "dmx512_rtuart_tx_end1 ops buffer s = rtuart_set_notify ops RTUART_NOTIFY_TRANSMITTER_EMPTY s"

definition rtc_tx_end2_oneway :: "('b, 'm) rtc_ops \<Rightarrow> ('b, 'm) rtc \<Rightarrow> ('b, 'm) rtc option" where
  "rtc_tx_end2_oneway ops s = do {
     s \<leftarrow> enable_rs485_transmitter ops False s;
     s \<leftarrow> (if d_tx_frame (r_client s) \<noteq> 0
          then map_option (upd (\<lambda>p. p\<lparr>d_tx_frame := 0\<rparr>)) (rtc_put_frame (d_tx_frame (r_client s)) s) else Some s);
     s \<leftarrow> rtuart_set_notify ops RTUART_NOTIFY_RECEIVER_EVENT s;
     Some (rtc_next_state RTPORT_IDLE s) }"

definition rtc_tx_end2_twoway :: "('b, 'm) rtc_ops \<Rightarrow> ('b, 'm) rtc \<Rightarrow> ('b, 'm) rtc option" where
  "rtc_tx_end2_twoway ops s = do {
     s \<leftarrow> enable_rs485_transmitter ops False s;
     if d_tx_frame (r_client s) \<noteq> 0 then do {
       f \<leftarrow> deref (d_tx_frame (r_client s)) s;
       if dmx512_is_rdm_disc_unique_branch_request f
       then dmx512_rtuart_start_receive_data ops RDM_POS_DISC_UNIQUE_BANCH_DATA False (rtc_next_state RTPORT_RECV_RDMDISC_REPLY s)
       else rtuart_set_notify ops RTUART_NOTIFY_RECEIVER_EVENT (rtc_next_state RTPORT_EXPECT_RDM_REPLY_BREAK s) }
     else Some (rtc_next_state RTPORT_IDLE s) }"

definition dmx512_rtuart_tx_end2 :: "('b, 'm) rtc_ops \<Rightarrow> addr \<Rightarrow> ('b, 'm) rtc \<Rightarrow> ('b, 'm) rtc option" where
  "dmx512_rtuart_tx_end2 ops buffer s = (case d_state (r_client s) of
     RTPORT_TRANSMIT_DATA_ONEWAY \<Rightarrow> rtc_tx_end2_oneway ops s
   | RTPORT_TRANSMIT_DATA_TWOWAY \<Rightarrow> rtc_tx_end2_twoway ops s
   | _ \<Rightarrow> Some s)"

definition dmx512_rtuart_input_change :: "u32 \<Rightarrow> u32 \<Rightarrow> ('b, 'm) rtc \<Rightarrow> ('b, 'm) rtc option" where
  "dmx512_rtuart_input_change eventmask vals s = Some s"

section \<open>Discovery replies\<close>

definition dmx512_rtuart_discovery_reply :: "u8 list \<Rightarrow> u8 \<Rightarrow> ('b, 'm) rtc \<Rightarrow> ('b, 'm) rtc option" where
  "dmx512_rtuart_discovery_reply src ack s = (
     let txframe = d_tx_frame (r_client s); rxframe = d_rx_frame (r_client s);
         s = upd (\<lambda>p. p\<lparr>d_tx_frame := 0, d_rx_frame := 0\<rparr>) s in do {
     f \<leftarrow> deref txframe s;
     requester \<leftarrow> arr_slice (f_data f) RDM_POS_SRC_UID 6;
     d \<leftarrow> arr_blit (f_data f) RDM_POS_DEST_UID requester;
     d \<leftarrow> arr_blit d RDM_POS_SRC_UID (take 6 src);
     d \<leftarrow> arr_set d RDM_POS_RESPONSE_TYPE ack;
     d \<leftarrow> arr_set d RDM_POS_COMMAND_CLASS DISCOVERY_COMMAND_RESPONSE;
     s \<leftarrow> rtc_put_frame rxframe (store_frame txframe (f\<lparr>f_data := d\<rparr>) s);
     Some (rtc_received_frame txframe s) })"

definition dmx512_rtuart_discovery_reply_collision :: "('b, 'm) rtc \<Rightarrow> ('b, 'm) rtc option" where
  "dmx512_rtuart_discovery_reply_collision s = dmx512_rtuart_discovery_reply (replicate 6 0xFF) RESPONSE_TYPE_ACK s"

definition dmx512_rtuart_discovery_reply_timeout :: "('b, 'm) rtc \<Rightarrow> ('b, 'm) rtc option" where
  "dmx512_rtuart_discovery_reply_timeout s = dmx512_rtuart_discovery_reply (replicate 6 0) RESPONSE_TYPE_NOREPLY s"

text \<open>\<open>while (p *reply_data && j < transfered)\<close>: the octet is read before the position is compared.\<close>

function skip_octets :: "(u8 \<Rightarrow> bool) \<Rightarrow> u8 list \<Rightarrow> nat \<Rightarrow> nat \<Rightarrow> nat option" where
  "skip_octets p d transfered j = do {
     c \<leftarrow> arr_get d (RDM_POS_DISC_UNIQUE_BANCH_DATA + j);
     if p c \<and> j < transfered then skip_octets p d transfered (j + 1) else Some j }"
  by auto
termination by (relation "measure (\<lambda>(p, d, transfered, j). transfered - j)") auto

declare skip_octets.simps [simp del]

text \<open>The loop over pairs of octets; the inner \<^term>\<open>None\<close> is a pair that is not an encoded octet.\<close>

fun decode_pairs :: "nat \<Rightarrow> u8 list \<Rightarrow> nat \<Rightarrow> u8 list option option" where
  "decode_pairs 0 d pos = Some (Some [])"
| "decode_pairs (Suc n) d pos = do {
     a \<leftarrow> arr_get d pos;
     if a AND 0xAA \<noteq> 0xAA then Some None
     else do {
       b \<leftarrow> arr_get d (pos + 1);
       if b AND 0x55 \<noteq> 0x55 then Some None
       else do { r \<leftarrow> decode_pairs n d (pos + 2); Some (map_option (Cons (a AND b)) r) } } }"

text \<open>What has been received, as the UID of the responder, or \<^term>\<open>None\<close> inside for a collision.\<close>

definition decode_discovery_reply :: "u8 list \<Rightarrow> nat \<Rightarrow> u8 list option option" where
  "decode_discovery_reply d transfered = do {
     j \<leftarrow> skip_octets (\<lambda>c. c \<noteq> 0xFE) d transfered 0;
     j \<leftarrow> skip_octets (\<lambda>c. c = 0xFE) d transfered j;
     c \<leftarrow> arr_get d (RDM_POS_DISC_UNIQUE_BANCH_DATA + j);
     if c \<noteq> 0xAA then Some None
     else if transfered < j + 1 + 16 then Some None
     else do {
       let pos = RDM_POS_DISC_UNIQUE_BANCH_DATA + (j + 1);
       calc_checksum \<leftarrow> map_option rdm_sum (arr_slice d pos 12);
       r \<leftarrow> decode_pairs 8 d pos;
       Some (case r of
         None \<Rightarrow> None
       | Some tmp \<Rightarrow>
           if push_bit 8 (ucast (tmp ! 6)) OR ucast (tmp ! 7) \<noteq> calc_checksum then None else Some tmp) } }"

text \<open>What was received is printed first, which reads the frame.\<close>

definition dmx512_rtuart_handle_discovery_reply :: "('b, 'm) rtc \<Rightarrow> ('b, 'm) rtc option" where
  "dmx512_rtuart_handle_discovery_reply s = do {
     b \<leftarrow> get_buffer RX_BUFFER s;
     shown \<leftarrow> (if rb_transfered b > 0 then do {
                 f \<leftarrow> deref (d_rx_frame (r_client s)) s;
                 arr_slice (f_data f) RDM_POS_DISC_UNIQUE_BANCH_DATA (rb_transfered b) }
               else Some []);
     if d_state (r_client s) = RTPORT_RECV_RDMDISC_REPLY_COLLISION then dmx512_rtuart_discovery_reply_collision s
     else if rb_transfered b = 0 then dmx512_rtuart_discovery_reply_timeout s
     else do {
       f \<leftarrow> deref (d_rx_frame (r_client s)) s;
       r \<leftarrow> decode_discovery_reply (f_data f) (rb_transfered b);
       (case r of
          None \<Rightarrow> dmx512_rtuart_discovery_reply_collision s
        | Some tmp \<Rightarrow> dmx512_rtuart_discovery_reply tmp RESPONSE_TYPE_ACK s) } }"

definition dmx512_rtuart_handle_rdm_reply_timeout :: "('b, 'm) rtc \<Rightarrow> ('b, 'm) rtc option" where
  "dmx512_rtuart_handle_rdm_reply_timeout s = (
     let txframe = d_tx_frame (r_client s); rxframe = d_rx_frame (r_client s) in do {
     s \<leftarrow> rtc_put_frame rxframe (upd (\<lambda>p. p\<lparr>d_tx_frame := 0, d_rx_frame := 0\<rparr>) s);
     Some (rtc_received_frame txframe s) })"

section \<open>Callbacks of the receiver\<close>

text \<open>A break ends the frame under reception.\<close>

definition rtc_flush_rx :: "('b, 'm) rtc_ops \<Rightarrow> ('b, 'm) rtc \<Rightarrow> ('b, 'm) rtc option" where
  "rtc_flush_rx ops s = (
     if d_rx_frame (r_client s) \<noteq> 0 then do {
       (r, s) \<leftarrow> rtuart_rx_stop ops RX_BUFFER s;
       (frame, s) \<leftarrow> dmx512_rtuart_complete_rxframe s;
       f \<leftarrow> deref frame s;
       let s = (if f_startcode f = 0 then upd (\<lambda>p. p\<lparr>d_lock := slot_count_lock__received_frame (d_lock p) f\<rparr>) s else s);
       Some (rtc_received_frame frame s) }
     else Some s)"

definition rtc_received_break :: "('b, 'm) rtc_ops \<Rightarrow> ('b, 'm) rtc \<Rightarrow> ('b, 'm) rtc option" where
  "rtc_received_break ops s = (case d_state (r_client s) of
     RTPORT_IDLE \<Rightarrow> dmx512_rtuart_start_receive_data ops 0 True (rtc_next_state RTPORT_EXPECT_STARTCODE s)
   | RTPORT_IDLE_AFTER_DMXDATA00 \<Rightarrow> dmx512_rtuart_start_receive_data ops 0 True (rtc_next_state RTPORT_EXPECT_STARTCODE s)
   | RTPORT_EXPECT_RDM_REPLY_BREAK \<Rightarrow> dmx512_rtuart_start_receive_data ops 0 True (rtc_next_state RTPORT_RECV_RDM_REPLY_DATA s)
   | RTPORT_RECEIVE_DMXDATA \<Rightarrow> do {
       s \<leftarrow> rtc_flush_rx ops s;
       dmx512_rtuart_start_receive_data ops 0 True (rtc_next_state RTPORT_EXPECT_STARTCODE s) }
   | RTPORT_RECV_RDMDISC_REPLY \<Rightarrow> Some (rtc_next_state RTPORT_RECV_RDMDISC_REPLY_COLLISION s)
   | _ \<Rightarrow> Some s)"

definition dmx512_rtuart_rx_err :: "('b, 'm) rtc_ops \<Rightarrow> u32 \<Rightarrow> ('b, 'm) rtc \<Rightarrow> ('b, 'm) rtc option" where
  "dmx512_rtuart_rx_err ops errmask s = (if errmask AND RTUART_EV_BREAK \<noteq> 0 then rtc_received_break ops s else Some s)"

definition dmx512_rtuart_rx_char :: "u16 \<Rightarrow> ('b, 'm) rtc \<Rightarrow> ('b, 'm) rtc option" where
  "dmx512_rtuart_rx_char c s = Some (
     if d_state (r_client s) = RTPORT_IDLE_AFTER_DMXDATA00 then
       rtc_next_state RTPORT_IDLE
         (if sl_matching_slot_count (d_lock (r_client s)) < 512
          then upd (\<lambda>p. p\<lparr>d_lock := slot_count_lock__lost_lock (d_lock p)\<rparr>) s else s)
     else s)"

definition rtc_rx_end_dmx :: "('b, 'm) rtc \<Rightarrow> ('b, 'm) rtc option" where
  "rtc_rx_end_dmx s = do {
     f \<leftarrow> deref (d_rx_frame (r_client s)) s;
     let s = rtc_next_state (if f_startcode f = 0 then RTPORT_IDLE_AFTER_DMXDATA00 else RTPORT_IDLE) s;
     (frame, s) \<leftarrow> dmx512_rtuart_complete_rxframe s;
     Some (rtc_received_frame frame s) }"

definition rtc_rx_end_rdm :: "('b, 'm) rtc \<Rightarrow> ('b, 'm) rtc option" where
  "rtc_rx_end_rdm s = do {
     s \<leftarrow> (if d_tx_frame (r_client s) \<noteq> 0
          then map_option (upd (\<lambda>p. p\<lparr>d_tx_frame := 0\<rparr>)) (rtc_put_frame (d_tx_frame (r_client s)) s) else Some s);
     (frame, s) \<leftarrow> dmx512_rtuart_complete_rxframe s;
     Some (rtc_next_state RTPORT_IDLE (rtc_received_frame frame s)) }"

definition dmx512_rtuart_rx_end :: "addr \<Rightarrow> ('b, 'm) rtc \<Rightarrow> ('b, 'm) rtc option" where
  "dmx512_rtuart_rx_end buffer s = (
     if d_rx_frame (r_client s) \<noteq> 0 then
       (case d_state (r_client s) of
          RTPORT_RECEIVE_DMXDATA \<Rightarrow> rtc_rx_end_dmx s
        | RTPORT_RECV_RDM_REPLY_DATA \<Rightarrow> rtc_rx_end_rdm s
        | RTPORT_RECV_RDMDISC_REPLY \<Rightarrow>
            map_option (rtc_next_state RTPORT_IDLE) (dmx512_rtuart_handle_discovery_reply (rtc_stop_rdm_timer s))
        | RTPORT_RECV_RDMDISC_REPLY_COLLISION \<Rightarrow>
            map_option (rtc_next_state RTPORT_IDLE) (dmx512_rtuart_handle_discovery_reply (rtc_stop_rdm_timer s))
        | _ \<Rightarrow> Some s)
     else Some s)"

definition dmx512_rtuart_rx_timeout :: "addr \<Rightarrow> ('b, 'm) rtc \<Rightarrow> ('b, 'm) rtc option" where
  "dmx512_rtuart_rx_timeout buffer s = Some s"

text \<open>The length of an RDM frame, once its octet is there.\<close>

definition rtc_take_rdm_length :: "rtuart_buffer \<Rightarrow> rtuart_buffer option" where
  "rtc_take_rdm_length b = do {
     d \<leftarrow> rb_data b;
     sub \<leftarrow> arr_get d RDM_POS_SUBSTARTCODE;
     if sub = SC_SUB_MESSAGE then do {
       len \<leftarrow> arr_get d RDM_POS_LENGTH;
       Some (b\<lparr>rb_validcount := unat len + 2\<rparr>) }
     else Some b }"

definition rtc_rdm_trigger :: "rtuart_buffer \<Rightarrow> rtuart_buffer option" where
  "rtc_rdm_trigger b = (
     if rb_transfered b > RDM_POS_LENGTH then rtc_take_rdm_length b
     else do {
       t \<leftarrow> arr_set (rb_trigger b) 1 (of_nat RDM_POS_LENGTH);
       Some (b\<lparr>rb_triggermask := rb_triggermask b OR 2, rb_trigger := t\<rparr>) })"

definition rtc_startcode_trigger :: "addr \<Rightarrow> ('b, 'm) rtc \<Rightarrow> ('b, 'm) rtc option" where
  "rtc_startcode_trigger a s = (case d_state (r_client s) of
     RTPORT_EXPECT_STARTCODE \<Rightarrow> do {
       b \<leftarrow> get_buffer a s;
       d \<leftarrow> rb_data b;
       c \<leftarrow> arr_get d 0;
       b \<leftarrow> (if c = SC_RDM then rtc_rdm_trigger b
            else if c = 0 \<and> sl_locked (d_lock (r_client s))
            then Some (b\<lparr>rb_validcount := unat (sl_matching_slot_count (d_lock (r_client s))) + 1\<rparr>)
            else Some b);
       Some (rtc_next_state RTPORT_RECEIVE_DMXDATA (put_buffer a b s)) }
   | RTPORT_RECV_RDM_REPLY_DATA \<Rightarrow> do {
       b \<leftarrow> get_buffer a s;
       d \<leftarrow> rb_data b;
       c \<leftarrow> arr_get d 0;
       if c = SC_RDM then map_option (\<lambda>b. put_buffer a b s) (rtc_rdm_trigger b) else Some s }
   | _ \<Rightarrow> Some s)"

definition rtc_length_trigger :: "addr \<Rightarrow> ('b, 'm) rtc \<Rightarrow> ('b, 'm) rtc option" where
  "rtc_length_trigger a s = (
     if d_state (r_client s) = RTPORT_RECEIVE_DMXDATA \<or> d_state (r_client s) = RTPORT_RECV_RDM_REPLY_DATA then do {
       b \<leftarrow> get_buffer a s;
       if rb_transfered b > RDM_POS_LENGTH then map_option (\<lambda>b. put_buffer a b s) (rtc_take_rdm_length b) else Some s }
     else Some s)"

definition dmx512_rtuart_rx_trigger :: "addr \<Rightarrow> u32 \<Rightarrow> ('b, 'm) rtc \<Rightarrow> ('b, 'm) rtc option" where
  "dmx512_rtuart_rx_trigger buffer triggermask s = do {
     s \<leftarrow> (if triggermask AND 1 \<noteq> 0 then rtc_startcode_trigger buffer s else Some s);
     if triggermask AND 2 \<noteq> 0 then rtc_length_trigger buffer s else Some s }"

definition dmx512_rtuart_callbacks :: "('b, 'm) rtc_ops \<Rightarrow> ('b, 'm) rtc rtuart_callbacks" where
  "dmx512_rtuart_callbacks ops =
     \<lparr>cb_tx_start = Some dmx512_rtuart_tx_start, cb_tx_end1 = Some (dmx512_rtuart_tx_end1 ops),
      cb_tx_end2 = Some (dmx512_rtuart_tx_end2 ops), cb_input_change = Some dmx512_rtuart_input_change,
      cb_rx_err = Some (dmx512_rtuart_rx_err ops), cb_rx_char = Some dmx512_rtuart_rx_char,
      cb_rx_end = Some dmx512_rtuart_rx_end, cb_rx_timeout = Some dmx512_rtuart_rx_timeout,
      cb_rx_trigger = Some dmx512_rtuart_rx_trigger\<rparr>"

section \<open>Timeouts\<close>

definition rtc_handle_rdm_timeout :: "('b, 'm) rtc \<Rightarrow> ('b, 'm) rtc option" where
  "rtc_handle_rdm_timeout s = (
     if d_tx_frame (r_client s) = 0 then Some s
     else
       let s = rtc_stop_rdm_timer s in
       if d_state (r_client s) = RTPORT_RECV_RDMDISC_REPLY \<or> d_state (r_client s) = RTPORT_RECV_RDMDISC_REPLY_COLLISION
       then map_option (rtc_next_state RTPORT_IDLE) (dmx512_rtuart_handle_discovery_reply s)
       else if d_state (r_client s) = RTPORT_EXPECT_RDM_REPLY_BREAK \<or> d_state (r_client s) = RTPORT_RECV_RDM_REPLY_DATA
       then map_option (rtc_next_state RTPORT_IDLE) (dmx512_rtuart_handle_rdm_reply_timeout s)
       else Some s)"

definition rtc_periodical :: "('b, 'm) rtc \<Rightarrow> ('b, 'm) rtc option" where
  "rtc_periodical s = (
     if d_timer_call (r_client s) then rtc_handle_rdm_timeout (upd (\<lambda>p. p\<lparr>d_timer_call := False\<rparr>) s) else Some s)"

section \<open>Sending\<close>

definition rtc_is_twoway :: "dmx512frame \<Rightarrow> bool" where
  "rtc_is_twoway f \<longleftrightarrow> dmx512_is_rdm_disc_unique_branch_request f \<or>
     (dmx512_is_rdm_request f \<and> dmx512_rdm_frame_dest f \<noteq> 0xFFFFFFFFFFFF)"

text \<open>The transmit buffer for octets from \<open>off\<close> on; it shows at most what the frame has there.\<close>

definition rtc_set_tx_buffer :: "addr \<Rightarrow> dmx512frame \<Rightarrow> nat \<Rightarrow> nat \<Rightarrow> ('b, 'm) rtc \<Rightarrow> ('b, 'm) rtc option" where
  "rtc_set_tx_buffer frame f off sz s = do {
     b \<leftarrow> get_buffer TX_BUFFER s;
     Some (upd (\<lambda>p. p\<lparr>d_tx_data := Some (frame, off)\<rparr>) (put_buffer TX_BUFFER
       (b\<lparr>rb_data := Some (take sz (drop off (f_data f))), rb_size := sz, rb_validcount := sz, rb_triggermask := 0\<rparr>) s)) }"

text \<open>The preparation by the kind of frame: timer, and the octets of a discovery reply.\<close>

definition rtc_prepare :: "addr \<Rightarrow> ('b, 'm) rtc \<Rightarrow> (dmx512frame \<times> ('b, 'm) rtc) option" where
  "rtc_prepare frame s = do {
     f \<leftarrow> deref frame s;
     s \<leftarrow> rtc_set_tx_buffer frame f 0 (unat (f_payload_size f) + 1) s;
     if dmx512_is_rdm_frame f then
       (if dmx512_is_rdm_disc_unique_branch_request f then Some (f, rtc_start_rdm_timer RTC_TIMEOUT_RDMDISCOVERY_LENGTH s)
        else if dmx512_is_rdm_request f then Some (f, rtc_start_rdm_timer RTC_DISCOVERY_REQUEST_REPLY_TIMEOUT s)
        else if dmx512_is_rdm_disc_unique_branch_reply f then do {
          let octets = dmx512_rdm_build_rdmdiscovery_reply f;
          d \<leftarrow> arr_blit (f_data f) RDM_POS_DISC_UNIQUE_BANCH_DATA octets;
          let f = f\<lparr>f_flags := f_flags f OR DMX512_FLAG_NOBREAK, f_data := d\<rparr>;
          s \<leftarrow> rtc_set_tx_buffer frame f RDM_POS_DISC_UNIQUE_BANCH_DATA (length octets) (store_frame frame f s);
          Some (f, s) }
        else Some (f, s))
     else Some (f, s) }"

definition dmx512_rtuart_start_frame :: "('b, 'm) rtc_ops \<Rightarrow> addr \<Rightarrow> ('b, 'm) rtc \<Rightarrow> ('b, 'm) rtc option" where
  "dmx512_rtuart_start_frame ops frame s = do {
     s \<leftarrow> rtuart_clr_notify ops (RTUART_NOTIFY_RECEIVER_EVENT OR RTUART_NOTIFY_RECEIVER_HASDATA) s;
     let s = upd (\<lambda>p. p\<lparr>d_tx_frame := frame\<rparr>) s;
     twoway \<leftarrow> map_option rtc_is_twoway (deref frame s);
     (f, s) \<leftarrow> rtc_prepare frame s;
     let s = rtc_next_state (if twoway then RTPORT_TRANSMIT_BREAK_TWOWAY else RTPORT_TRANSMIT_BREAK_ONEWAY) s;
     s \<leftarrow> enable_rs485_transmitter ops True s;
     s \<leftarrow> (if f_flags f AND DMX512_FLAG_NOBREAK = 0 then do {
            s \<leftarrow> rtuart_set_control ops RTUART_CONTROL_BREAK s;
            rtuart_clr_control ops RTUART_CONTROL_BREAK s }
          else Some s);
     let s = (if d_state (r_client s) = RTPORT_TRANSMIT_BREAK_TWOWAY then rtc_next_state RTPORT_TRANSMIT_DATA_TWOWAY s
              else if d_state (r_client s) = RTPORT_TRANSMIT_BREAK_ONEWAY then rtc_next_state RTPORT_TRANSMIT_DATA_ONEWAY s
              else s);
     rtuart_tx_start ops TX_BUFFER s }"

definition rtc_is_busy :: "rtc_state \<Rightarrow> bool" where
  "rtc_is_busy st \<longleftrightarrow> st \<in> {RTPORT_TRANSMIT_BREAK_ONEWAY, RTPORT_TRANSMIT_DATA_ONEWAY, RTPORT_TRANSMIT_BREAK_TWOWAY,
     RTPORT_TRANSMIT_DATA_TWOWAY, RTPORT_RECV_RDMDISC_REPLY, RTPORT_RECV_RDMDISC_REPLY_COLLISION,
     RTPORT_EXPECT_RDM_REPLY_BREAK, RTPORT_RECV_RDM_REPLY_DATA}"

definition rtc_client_send_frame ::
  "('b, 'm) rtc_ops \<Rightarrow> addr \<Rightarrow> ('b, 'm) rtc \<Rightarrow> (int \<times> ('b, 'm) rtc) option" where
  "rtc_client_send_frame ops frame s = (
     if d_tx_frame (r_client s) \<noteq> 0 then Some (-1, s)
     else if rtc_is_busy (d_state (r_client s)) then Some (-1, s)
     else map_option (Pair 0) (dmx512_rtuart_start_frame ops frame s))"

section \<open>Creation\<close>

definition zero_buffer :: rtuart_buffer where
  "zero_buffer = \<lparr>rb_data = None, rb_size = 0, rb_validcount = 0, rb_transfered = 0, rb_triggermask = 0, rb_trigger = replicate 32 0\<rparr>"

text \<open>
  The surroundings \<open>env\<close> come as a port whose own fields are cleared by \<open>bzero\<close>. Assigning the callbacks to the
  UART is part of its interrupt handler, which gets them as an argument.
\<close>

definition rtc_client_create ::
  "('b, 'm) rtc_ops \<Rightarrow> bool \<Rightarrow> bool \<Rightarrow> bool \<Rightarrow> string \<Rightarrow> rtc_port \<Rightarrow> ('b, 'm) rtc \<Rightarrow> ('b, 'm) rtc option" where
  "rtc_client_create ops chip line request rs485_io env u = do {
     let p = env\<lparr>d_state := RTPORT_DOWN, d_tx_frame := 0, d_tx_data := None, d_rx_frame := 0, d_rx_data := None,
                d_lock := slot_count_lock__init, d_rs485 := None, d_gpio_line := False, d_timer_active := False,
                d_timer_set := None, d_timer_call := False\<rparr>;
     let s = put_buffer TX_BUFFER zero_buffer (put_buffer RX_BUFFER zero_buffer (u\<lparr>r_client := p\<rparr>));
     s \<leftarrow> rtuart_set_baudrate ops 250000 s;
     s \<leftarrow> rtuart_set_format ops 8 (CHR ''n'') 2 s;
     s \<leftarrow> rtuart_set_handshake ops 0 s;
     s \<leftarrow> rtuart_clr_control ops RTUART_CONTROL_LOOP s;
     s \<leftarrow> rtuart_set_notify ops RTUART_NOTIFY_RECEIVER_EVENT s;
     s \<leftarrow> dmxrtuart_rs485txen_init ops chip line request rs485_io s;
     Some (upd (\<lambda>p. p\<lparr>d_lock := (d_lock p)\<lparr>sl_enabled := True\<rparr>\<rparr>) (rtc_next_state RTPORT_IDLE s)) }"

section \<open>The main loop\<close>

text \<open>Writing the received frames to the card: \<open>results\<close> tells which writes were complete. A frame whose write
  is not complete is neither kept nor released.\<close>

fun rtc_write_received :: "addr list \<Rightarrow> bool list \<Rightarrow> ('b, 'm) rtc \<Rightarrow> ('b, 'm) rtc option" where
  "rtc_write_received [] results s = Some s"
| "rtc_write_received (a # as) results s = do {
     f \<leftarrow> deref a s;
     if results \<noteq> [] \<and> hd results
     then do {
       s \<leftarrow> rtc_put_frame a (upd (\<lambda>p. p\<lparr>d_card := d_card p @ [f]\<rparr>) s);
       rtc_write_received as (tl results) s }
     else rtc_write_received as (tl results) s }"

text \<open>A frame of the card: \<^term>\<open>None\<close> is a read that is not complete.\<close>

definition rtc_read_card :: "('b, 'm) rtc_ops \<Rightarrow> dmx512frame option \<Rightarrow> ('b, 'm) rtc \<Rightarrow> ('b, 'm) rtc option" where
  "rtc_read_card ops input s = (
     let (frame, s) = rtc_get_frame s in
     if frame = 0 then Some s
     else case input of
       Some f \<Rightarrow>
         if f_port f = 0 then do {
           (ret, s) \<leftarrow> rtc_client_send_frame ops frame (store_frame frame f s);
           if ret < 0 then rtc_put_frame frame s else Some s }
         else rtc_put_frame frame (store_frame frame f s)
     | None \<Rightarrow> rtc_put_frame frame s)"

text \<open>One round after \<open>poll\<close>: what the card gave, if it was readable, whether the pipe was readable, and the results
  of the writes. The result tells whether the loop goes on.\<close>

definition rtc_main_round ::
  "('b, 'm) rtc_ops \<Rightarrow> int \<Rightarrow> dmx512frame option option \<Rightarrow> bool \<Rightarrow> bool list \<Rightarrow> ('b, 'm) rtc \<Rightarrow> (bool \<times> ('b, 'm) rtc) option" where
  "rtc_main_round ops ret from_card pipe results s = (
     if ret < 0 then Some (False, s)
     else if ret = 0 then map_option (Pair True) (rtc_periodical s)
     else do {
       s \<leftarrow> (case from_card of Some input \<Rightarrow> rtc_read_card ops input s | None \<Rightarrow> Some s);
       s \<leftarrow> (if pipe then
              (let as = d_received (r_client s)
               in rtc_write_received as results (upd (\<lambda>p. p\<lparr>d_received := [], d_signals := d_signals p - 1\<rparr>) s))
            else Some s);
       map_option (Pair True) (rtc_periodical s) })"

end
