(* ===== verification/Dmx_Rtuart_Rdm.thy ===== *)
theory Dmx_Rtuart_Rdm
  imports Dmx_Rtuart
begin

text \<open>
  RDM in the port on the buffered UART interface: its functions agree with those of the other UART client, and the
  decoder of discovery replies recovers what a responder sends.
\<close>

section \<open>Agreement with the other client\<close>

lemma upt_6: "[0..<6] = [0, 1, 2, 3, 4, 5 :: nat]"
  by (simp add: upt_rec)

lemma uid_slice:
  assumes "frame_wf f"
  shows "take 6 (drop 9 (f_data f)) = map (\<lambda>i. f_data f ! (9 + i)) [0..<6]"
  using assms by (intro nth_equalityI) (auto simp: upt_6 nth_append less_Suc_eq numeral_eq_Suc)

lemma build_reply_agrees:
  assumes "frame_wf f"
  shows "dmx512_rdm_build_rdmdiscovery_reply f = discovery_reply_octets (take 6 (drop RDM_POS_SRC_UID (f_data f)))"
  unfolding uid_slice [OF assms] dmx512_rdm_build_rdmdiscovery_reply_def discovery_reply_octets_def Let_def
  by (simp add: upt_6 encode_pair_def numeral_eq_Suc del: rdm_sum_simps)

text \<open>The destination as a number is that of a broadcast exactly when all its octets are set.\<close>

definition add_octet :: "u64 \<Rightarrow> u8 \<Rightarrow> u64" where
  "add_octet uid b = push_bit 8 uid OR ucast b"

lemma add_octet_octet: "ucast (add_octet x b) = b"
  by (rule bit_word_eqI) (simp add: add_octet_def bit_simps)

lemma bit_of_small: "take_bit k (x :: u64) = x \<Longrightarrow> bit x n \<Longrightarrow> n < k"
  by (metis bit_take_bit_iff)

lemma add_octet_rest:
  assumes "take_bit k x = x" and "k \<le> 56"
  shows "drop_bit 8 (add_octet x b) = x"
proof (rule bit_word_eqI)
  fix n
  assume n: "n < LENGTH(64)"
  have "bit x n \<Longrightarrow> n < 56" using bit_of_small [OF assms(1)] assms(2) by fastforce
  then show "bit (drop_bit 8 (add_octet x b)) n = bit x n"
    using n by (auto simp: add_octet_def bit_simps dest: bit_imp_le_length)
qed

lemma add_octet_small: "take_bit k x = x \<Longrightarrow> take_bit (k + 8) (add_octet x b) = add_octet x b"
  by (rule bit_word_eqI) (auto simp: add_octet_def bit_simps dest: bit_of_small bit_imp_le_length)

lemma add_octet_eq:
  assumes "take_bit k x = x" and "take_bit k y = y" and "k \<le> 56"
  shows "add_octet x b = add_octet y c \<longleftrightarrow> x = y \<and> b = c"
  using add_octet_octet [of x b] add_octet_octet [of y c] add_octet_rest [OF assms(1,3), of b] add_octet_rest [OF assms(2,3), of c]
  by metis

lemma foldl_add_octet_eq:
  assumes "length xs = length ys" and "take_bit k x = x" and "take_bit k y = y" and "k + 8 * length xs \<le> 64"
  shows "foldl add_octet x xs = foldl add_octet y ys \<longleftrightarrow> x = y \<and> xs = ys"
  using assms
proof (induction xs ys arbitrary: x y k rule: list_induct2)
  case (Cons a xs b ys)
  have "foldl add_octet (add_octet x a) xs = foldl add_octet (add_octet y b) ys \<longleftrightarrow> add_octet x a = add_octet y b \<and> xs = ys"
    using Cons.prems by (intro Cons.IH [where k = "k + 8"] add_octet_small) simp_all
  then show ?case using add_octet_eq [OF Cons.prems(1,2), of a b] Cons.prems(3) by auto
qed simp

lemma dest_is_broadcast: "dmx512_rdm_frame_dest f = 0xFFFFFFFFFFFF \<longleftrightarrow> dmx512_is_rdm_frame_is_broadcast f"
proof -
  let ?ds = "map (\<lambda>i. f_data f ! (3 + i)) [0..<6]"
  have "dmx512_rdm_frame_dest f = foldl add_octet 0 ?ds"
    by (simp add: dmx512_rdm_frame_dest_def add_octet_def upt_6)
  moreover have "foldl add_octet 0 [0xFF, 0xFF, 0xFF, 0xFF, 0xFF, 0xFF] = 0xFFFFFFFFFFFF"
    by (simp add: add_octet_def)
  ultimately have "dmx512_rdm_frame_dest f = 0xFFFFFFFFFFFF \<longleftrightarrow> ?ds = [0xFF, 0xFF, 0xFF, 0xFF, 0xFF, 0xFF]"
    using foldl_add_octet_eq [of ?ds "[0xFF, 0xFF, 0xFF, 0xFF, 0xFF, 0xFF]" 0 0 0] by simp
  also have "\<dots> \<longleftrightarrow> dmx512_is_rdm_frame_is_broadcast f"
    by (simp add: dmx512_is_rdm_frame_is_broadcast_def upt_6)
  finally show ?thesis .
qed

text \<open>The RDM functions of the port on the buffered interface that have a counterpart in the other UART client agree with it: the
  same frames are discovery requests and replies, and the octets of a discovery reply are the same. The destination, for which that
  client has no function, is the broadcast address as a number exactly when it is octet by octet.\<close>

theorem rdm_functions_agree:
  assumes "frame_wf f"
  shows "dmx512_is_rdm_frame f = dmx512frame_is_rdm (f_data f) \<and>
     dmx512_is_rdm_disc_unique_branch_request f = dmx512frame_is_rdm_discover (f_data f) \<and>
     dmx512_is_rdm_disc_unique_branch_reply f = dmx512frame_is_rdm_discover_reply (f_data f) \<and>
     dmx512_rdm_build_rdmdiscovery_reply f = discovery_reply_octets (take 6 (drop RDM_POS_SRC_UID (f_data f))) \<and>
     (dmx512_rdm_frame_dest f = 0xFFFFFFFFFFFF \<longleftrightarrow> dmx512_is_rdm_frame_is_broadcast f)"
  using build_reply_agrees [OF assms] dest_is_broadcast [of f]
  by (auto simp: dmx512_is_rdm_frame_def dmx512frame_is_rdm_def dmx512_is_rdm_disc_unique_branch_request_def
      dmx512frame_is_rdm_discover_def dmx512_is_rdm_disc_unique_branch_reply_def dmx512frame_is_rdm_discover_reply_def)

theorem rdm_functions_agree_witness:
  "dmx512_rdm_build_rdmdiscovery_reply zero_frame = discovery_reply_octets (take 6 (drop 9 (f_data zero_frame)))"
  using rdm_functions_agree [OF frame_wf_zero] by blast

section \<open>The decoder\<close>

text \<open>The octets \<open>w\<close> that were received, at their place in the frame.\<close>

definition holds_reply :: "u8 list \<Rightarrow> u8 list \<Rightarrow> bool" where
  "holds_reply d w \<longleftrightarrow> RDM_POS_DISC_UNIQUE_BANCH_DATA + length w < length d \<and>
     take (length w) (drop RDM_POS_DISC_UNIQUE_BANCH_DATA d) = w"

lemma holds_reply_nth:
  assumes "holds_reply d w" and "i < length w"
  shows "arr_get d (RDM_POS_DISC_UNIQUE_BANCH_DATA + i) = Some (w ! i)"
proof -
  have "w ! i = take (length w) (drop RDM_POS_DISC_UNIQUE_BANCH_DATA d) ! i" using assms by (simp add: holds_reply_def)
  then show ?thesis using assms by (simp add: holds_reply_def arr_get_def)
qed

lemma skip_run:
  assumes "holds_reply d w" and "\<forall>i < k. p (w ! (j + i))" and "\<not> p (w ! (j + k))" and "j + k < length w"
  shows "skip_octets p d (length w) j = Some (j + k)"
  using assms(2-4)
proof (induction k arbitrary: j)
  case 0
  then show ?case using holds_reply_nth [OF assms(1), of j] by (subst skip_octets.simps) simp
next
  case (Suc k)
  have "p (w ! j)" using Suc.prems(1) by (auto dest: spec [of _ 0])
  moreover have "skip_octets p d (length w) (Suc j) = Some (Suc j + k)"
    using Suc.prems by (intro Suc.IH) (auto dest: spec [of _ "Suc _"])
  ultimately show ?case using holds_reply_nth [OF assms(1), of j] Suc.prems(3) by (subst skip_octets.simps) simp
qed

lemma decode_pairs_encoded:
  assumes "\<forall>i < 2 * length uid. arr_get d (pos + i) = Some (concat (map encode_pair uid) ! i)"
  shows "decode_pairs (length uid) d pos = Some (Some uid)"
  using assms
proof (induction uid arbitrary: pos)
  case (Cons b uid)
  have "arr_get d pos = Some (0xAA OR b)" "arr_get d (pos + 1) = Some (0x55 OR b)"
    using Cons.prems [rule_format, of 0] Cons.prems [rule_format, of 1] by (simp_all add: encode_pair_def)
  moreover have "decode_pairs (length uid) d (pos + 2) = Some (Some uid)"
  proof (rule Cons.IH, intro allI impI)
    fix i assume "i < 2 * length uid"
    then show "arr_get d (pos + 2 + i) = Some (concat (map encode_pair uid) ! i)"
      using Cons.prems [rule_format, of "i + 2"] by (simp add: encode_pair_def ac_simps)
  qed
  ultimately show ?case by (simp add: encode_pair_masks encode_pair_decode)
qed simp

lemma join_octets: "push_bit 8 (ucast (ucast (drop_bit 8 c) :: u8)) OR ucast (ucast c :: u8) = (c :: u16)"
  by (rule bit_word_eqI) (auto simp: bit_simps)

text \<open>The octets behind the separator: the UID and its checksum, every octet as a pair.\<close>

definition reply_body :: "u8 list \<Rightarrow> u8 list" where
  "reply_body uid = (let checksum = rdm_sum (concat (map encode_pair uid)) in
     uid @ [ucast (drop_bit 8 checksum), ucast checksum])"

lemma discovery_reply_octets_body:
  "discovery_reply_octets uid = replicate 7 0xFE @ 0xAA # concat (map encode_pair (reply_body uid))"
  by (simp add: discovery_reply_octets_def reply_body_def Let_def)

lemma decode_reply:
  assumes "holds_reply d w" and "w = junk @ replicate (Suc n) 0xFE @ 0xAA # concat (map encode_pair (reply_body uid)) @ rest"
    and "0xFE \<notin> set junk" and "length uid = 6"
  shows "decode_discovery_reply d (length w) = Some (Some (reply_body uid))"
proof -
  let ?j = "length junk + Suc n" and ?B = "RDM_POS_DISC_UNIQUE_BANCH_DATA"
  let ?e = "concat (map encode_pair (reply_body uid))"
  have lb: "length (reply_body uid) = 8" using assms(4) by (simp add: reply_body_def Let_def)
  have le: "length ?e = 16" using lb by (simp only: length_encoded)
  have lw: "length w = ?j + 17 + length rest" using le by (simp add: assms(2))
  have at: "w ! (?j + 1 + i) = ?e ! i" if "i < 16" for i using that le by (simp add: assms(2) nth_append)
  have sep: "w ! ?j = 0xAA" by (simp add: assms(2) nth_append)
  have s1: "skip_octets (\<lambda>c. c \<noteq> 0xFE) d (length w) 0 = Some (length junk)"
  proof -
    have "skip_octets (\<lambda>c. c \<noteq> 0xFE) d (length w) 0 = Some (0 + length junk)"
      using assms(3) lw by (intro skip_run [OF assms(1)]) (auto simp: assms(2) nth_append in_set_conv_nth)
    then show ?thesis by simp
  qed
  have s2: "skip_octets (\<lambda>c. c = 0xFE) d (length w) (length junk) = Some ?j"
    using lw sep by (intro skip_run [OF assms(1)]) (auto simp: assms(2) nth_append simp del: replicate_Suc)
  have g: "arr_get d (?B + (?j + 1) + i) = Some (?e ! i)" if "i < 16" for i
    using holds_reply_nth [OF assms(1), of "?j + 1 + i"] at [OF that] that lw by (simp add: add.assoc)
  have slice: "arr_slice d (?B + (?j + 1)) 12 = Some (concat (map encode_pair uid))"
  proof -
    have l: "length (concat (map encode_pair uid)) = 12" using assms(4) by (simp only: length_encoded)
    have "?e ! i = concat (map encode_pair uid) ! i" if "i < 12" for i
      using that l by (simp add: reply_body_def Let_def nth_append)
    then have "d ! (?B + (?j + 1) + i) = concat (map encode_pair uid) ! i" if "i < 12" for i
      using g [of i] that by (auto simp: arr_get_def split: if_splits)
    then have "take 12 (drop (?B + (?j + 1)) d) = concat (map encode_pair uid)"
      using l assms(1) lw by (intro nth_equalityI) (auto simp: holds_reply_def)
    then show ?thesis using assms(1) lw by (simp add: arr_slice_def holds_reply_def)
  qed
  have "decode_pairs 8 d (?B + (?j + 1)) = Some (Some (reply_body uid))"
    using decode_pairs_encoded [of "reply_body uid" d "?B + (?j + 1)"] g lb by simp
  then show ?thesis
    unfolding decode_discovery_reply_def
    using s1 s2 sep slice lw holds_reply_nth [OF assms(1), of ?j]
    by (simp add: reply_body_def Let_def nth_append assms(4) join_octets)
qed

text \<open>The decoder does not leave the frame as long as one octet behind the received ones is in it.\<close>

lemma skip_total:
  assumes "RDM_POS_DISC_UNIQUE_BANCH_DATA + t < length d" and "j \<le> t"
  shows "\<exists>k. skip_octets p d t j = Some k \<and> k \<le> t"
  using assms
proof (induction p d t j rule: skip_octets.induct)
  case (1 p d t j)
  show ?case
  proof (cases "p (d ! (RDM_POS_DISC_UNIQUE_BANCH_DATA + j)) \<and> j < t")
    case True
    then show ?thesis using 1 by (subst skip_octets.simps) (auto simp: arr_get_def)
  next
    case False
    then show ?thesis using 1 by (subst skip_octets.simps) (auto simp: arr_get_def)
  qed
qed

lemma decode_pairs_total:
  assumes "pos + 2 * n \<le> length d"
  shows "\<exists>r. decode_pairs n d pos = Some r \<and> (case r of None \<Rightarrow> True | Some tmp \<Rightarrow> length tmp = n)"
  using assms
proof (induction n arbitrary: pos)
  case (Suc n)
  obtain r where "decode_pairs n d (pos + 2) = Some r" "case r of None \<Rightarrow> True | Some tmp \<Rightarrow> length tmp = n"
    using Suc.IH [of "pos + 2"] Suc.prems by auto
  then show ?case using Suc.prems by (cases r) (auto simp: arr_get_def)
qed simp

lemma decode_total:
  assumes "RDM_POS_DISC_UNIQUE_BANCH_DATA + t < length d"
  shows "\<exists>r. decode_discovery_reply d t = Some r \<and> (case r of None \<Rightarrow> True | Some tmp \<Rightarrow> length tmp = 8)"
proof -
  let ?B = "RDM_POS_DISC_UNIQUE_BANCH_DATA"
  obtain i where i: "skip_octets (\<lambda>c. c \<noteq> 0xFE) d t 0 = Some i" "i \<le> t" using skip_total [OF assms, of 0] by auto
  obtain j where j: "skip_octets (\<lambda>c. c = 0xFE) d t i = Some j" "j \<le> t" using skip_total [OF assms i(2)] by auto
  have c: "arr_get d (?B + j) = Some (d ! (?B + j))" using j(2) assms by (simp add: arr_get_def)
  show ?thesis
  proof (cases "d ! (?B + j) = 0xAA \<and> j + 17 \<le> t")
    case True
    obtain r where "decode_pairs 8 d (?B + (j + 1)) = Some r" "case r of None \<Rightarrow> True | Some tmp \<Rightarrow> length tmp = 8"
      using decode_pairs_total [of "?B + (j + 1)" 8 d] True assms by auto
    moreover have "arr_slice d (?B + (j + 1)) 12 = Some (take 12 (drop (?B + (j + 1)) d))"
      using True assms by (simp add: arr_slice_def)
    ultimately show ?thesis using i(1) j(1) c True
      by (auto simp: decode_discovery_reply_def Let_def split: option.splits)
  next
    case False
    then show ?thesis using i(1) j(1) c by (auto simp: decode_discovery_reply_def)
  qed
qed

text \<open>C19. The decoder of discovery replies returns for every content of the frame when at most 254 octets were received, with
  a collision or eight octets. When the buffer is full with 255 preamble octets, it reads behind the frame.\<close>

theorem discovery_decoder_bounds:
  assumes "length d = 513"
  shows "(\<forall>t \<le> 254. \<exists>r. decode_discovery_reply d t = Some r \<and> (case r of None \<Rightarrow> True | Some tmp \<Rightarrow> length tmp = 8)) \<and>
     (drop 258 d = replicate 255 0xFE \<longrightarrow> decode_discovery_reply d 255 = None)"
proof (intro conjI allI impI)
  fix t :: nat assume "t \<le> 254"
  then show "\<exists>r. decode_discovery_reply d t = Some r \<and> (case r of None \<Rightarrow> True | Some tmp \<Rightarrow> length tmp = 8)"
    using decode_total [of t d] assms by (simp add: RDM_POS_DISC_UNIQUE_BANCH_DATA_def)
next
  assume fe: "drop 258 d = replicate 255 0xFE"
  have at: "d ! (258 + i) = 0xFE" if "i < 255" for i
  proof -
    have "d ! (258 + i) = drop 258 d ! i" using assms by simp
    then show ?thesis using fe that by simp
  qed
  have "skip_octets (\<lambda>c. c \<noteq> 0xFE) d 255 0 = Some 0"
    using at [of 0] assms by (subst skip_octets.simps) (simp add: arr_get_def RDM_POS_DISC_UNIQUE_BANCH_DATA_def)
  moreover have "skip_octets (\<lambda>c. c = 0xFE) d 255 (255 - k) = None" if "k \<le> 255" for k
    using that
  proof (induction k)
    case (Suc k)
    then have "arr_get d (258 + (255 - Suc k)) = Some 0xFE" "Suc (255 - Suc k) = 255 - k" using at [of "255 - Suc k"] assms
      by (simp_all add: arr_get_def)
    then show ?case using Suc by (subst skip_octets.simps) (simp add: RDM_POS_DISC_UNIQUE_BANCH_DATA_def)
  qed (subst skip_octets.simps, simp add: arr_get_def assms RDM_POS_DISC_UNIQUE_BANCH_DATA_def)
  from this [of 255] have "skip_octets (\<lambda>c. c = 0xFE) d 255 0 = None" by simp
  ultimately show "decode_discovery_reply d 255 = None" by (simp add: decode_discovery_reply_def)
qed

theorem discovery_decoder_bounds_witness:
  "decode_discovery_reply (replicate 513 0xFE) 255 = None"
  using discovery_decoder_bounds [of "replicate 513 0xFE"] by simp

end
