(* ===== verification/Dmx_Rtuart_Frames.thy ===== *)
theory Dmx_Rtuart_Frames
  imports Dmx_Rtuart_Rdm
begin

text \<open>
  What the operations of the port on the buffered UART interface do to the frames: the fields they leave alone, and the
  answer to a discovery request.
\<close>

section \<open>Releasing and storing\<close>

lemmas buffer_addr_defs = TX_BUFFER_def RX_BUFFER_def

lemma invalidate_sel [simp]:
  "r_client (invalidate ptr b a s) = r_client s" "r_bus (invalidate ptr b a s) = r_bus s"
  "r_notify_mask (invalidate ptr b a s) = r_notify_mask s" "r_tx_buffer (invalidate ptr b a s) = r_tx_buffer s"
  "r_rx_buffer (invalidate ptr b a s) = r_rx_buffer s" "r_in_irq (invalidate ptr b a s) = r_in_irq s"
  by (simp_all add: invalidate_def split: option.split)

lemma get_buffer_invalidate:
  assumes "b \<noteq> 0"
  shows "get_buffer c (invalidate ptr b a s) = (
     if c = b \<and> (\<exists>off. ptr = Some (a, off)) then map_option (\<lambda>x. x\<lparr>rb_data := None\<rparr>) (get_buffer b s) else get_buffer c s)"
  using assms by (auto simp: invalidate_def split: option.split)

lemma release_sel [simp]:
  "r_client (rtc_release a s) = (r_client s)\<lparr>d_frames := (d_frames (r_client s))(a := None), d_room := d_room (r_client s) + 1\<rparr>"
  "r_bus (rtc_release a s) = r_bus s" "r_notify_mask (rtc_release a s) = r_notify_mask s"
  "r_tx_buffer (rtc_release a s) = r_tx_buffer s" "r_rx_buffer (rtc_release a s) = r_rx_buffer s"
  "r_in_irq (rtc_release a s) = r_in_irq s"
  by (simp_all add: rtc_release_def)

lemma get_buffer_release:
  "get_buffer RX_BUFFER (rtc_release a s) = (
     if \<exists>off. d_rx_data (r_client s) = Some (a, off) then map_option (\<lambda>x. x\<lparr>rb_data := None\<rparr>) (get_buffer RX_BUFFER s)
     else get_buffer RX_BUFFER s)"
  "get_buffer TX_BUFFER (rtc_release a s) = (
     if \<exists>off. d_tx_data (r_client s) = Some (a, off) then map_option (\<lambda>x. x\<lparr>rb_data := None\<rparr>) (get_buffer TX_BUFFER s)
     else get_buffer TX_BUFFER s)"
  by (simp_all add: rtc_release_def get_buffer_invalidate buffer_addr_defs)

lemma rtc_upd_sel [simp]:
  "r_client (rtc_next_state st s) = (r_client s)\<lparr>d_state := st\<rparr>" "r_client (store_frame a f s) = (r_client s)\<lparr>d_frames := (d_frames (r_client s))(a \<mapsto> f)\<rparr>"
  "get_buffer b (rtc_next_state st s) = get_buffer b s" "get_buffer b (store_frame a f s) = get_buffer b s"
  "get_buffer b (rtc_received_frame a s) = get_buffer b s" "get_buffer b (rtc_stop_rdm_timer s) = get_buffer b s"
  "get_buffer b (rtc_start_rdm_timer t s) = get_buffer b s"
  by (simp_all add: rtc_next_state_def store_frame_def rtc_received_frame_def rtc_stop_rdm_timer_def rtc_start_rdm_timer_def Let_def)

lemma received_frame_client [simp]:
  "a \<noteq> 0 \<Longrightarrow> r_client (rtc_received_frame a s) = (r_client s)\<lparr>d_received := a # d_received (r_client s), d_signals := d_signals (r_client s) + 1\<rparr>"
  by (simp add: rtc_received_frame_def)

text \<open>What a pointer shows depends on the frame, the pointer of the receive buffer and its content only.\<close>

lemma deref_cong:
  "d_frames (r_client s') a = d_frames (r_client s) a \<Longrightarrow> d_rx_data (r_client s') = d_rx_data (r_client s) \<Longrightarrow>
   get_buffer RX_BUFFER s' = get_buffer RX_BUFFER s \<Longrightarrow> deref a s' = deref a s"
  by (simp add: deref_def cong: if_cong option.case_cong)

text \<open>A frame that nothing is received into.\<close>

lemma deref_plain:
  assumes "a \<noteq> 0" and "\<forall>off. d_rx_data (r_client s) \<noteq> Some (a, off)"
  shows "deref a s = d_frames (r_client s) a"
  using assms by (cases "d_frames (r_client s) a"; cases "d_rx_data (r_client s)") (auto simp: deref_def)

section \<open>Answers to a discovery request\<close>

text \<open>The request with the source and the destination of the answer.\<close>

definition answer :: "u8 list \<Rightarrow> u8 \<Rightarrow> dmx512frame \<Rightarrow> dmx512frame" where
  "answer src ack f = f\<lparr>f_data := (blit (blit (f_data f) 3 (take 6 (drop 9 (f_data f)))) 9 (take 6 src))
     [16 := ack, 20 := DISCOVERY_COMMAND_RESPONSE]\<rparr>"

lemma answer_fields:
  assumes "frame_wf f" and "6 \<le> length src"
  shows "frame_wf (answer src ack f) \<and> take 6 (drop 9 (f_data (answer src ack f))) = take 6 src \<and>
     take 6 (drop 3 (f_data (answer src ack f))) = take 6 (drop 9 (f_data f)) \<and>
     f_data (answer src ack f) ! 16 = ack \<and> f_data (answer src ack f) ! 20 = DISCOVERY_COMMAND_RESPONSE"
proof -
  have l: "length (f_data f) = 513" using assms(1) by simp
  then show ?thesis using assms
    by (auto simp: answer_def frame_wf_def nth_list_update nth_blit intro!: nth_equalityI)
qed

lemma discovery_reply_answers:
  assumes "d_tx_frame (r_client s) = a" and "a \<noteq> 0" and "d_frames (r_client s) a = Some f" and "frame_wf f"
    and "d_rx_frame (r_client s) = r" and "r \<noteq> a" and "r = 0 \<or> d_frames (r_client s) r \<noteq> None"
    and "\<forall>off. d_rx_data (r_client s) \<noteq> Some (a, off)" and "6 \<le> length src"
  shows "dmx512_rtuart_discovery_reply src ack s = Some (rtc_received_frame a
     ((if r = 0 then id else rtc_release r) (store_frame a (answer src ack f) (upd (\<lambda>p. p\<lparr>d_tx_frame := 0, d_rx_frame := 0\<rparr>) s))))"
proof -
  have d: "deref a (upd (\<lambda>p. p\<lparr>d_tx_frame := 0, d_rx_frame := 0\<rparr>) s) = Some f"
    using assms(2,3,8) by (subst deref_plain) simp_all
  have l: "length (f_data f) = 513" using assms(4) by simp
  show ?thesis
    using assms(1,5,6,7,9) d l
    by (auto simp: dmx512_rtuart_discovery_reply_def Let_def fault_simps rtc_put_frame_def answer_def)
qed

text \<open>The port waits for the reply to the discovery request \<open>f\<close> in frame \<open>a\<close> and has received \<open>w\<close> into frame \<open>r\<close>.\<close>

definition awaits_reply :: "addr \<Rightarrow> dmx512frame \<Rightarrow> addr \<Rightarrow> u8 list \<Rightarrow> ('b, 'm) rtc \<Rightarrow> bool" where
  "awaits_reply a f r w s \<longleftrightarrow> (let p = r_client s in
     d_tx_frame p = a \<and> a \<noteq> 0 \<and> d_frames p a = Some f \<and> frame_wf f \<and> d_rx_frame p = r \<and> r \<noteq> 0 \<and> r \<noteq> a \<and>
     (\<exists>fr. d_frames p r = Some fr \<and> frame_wf fr) \<and> d_rx_data p = Some (r, RDM_POS_DISC_UNIQUE_BANCH_DATA) \<and>
     (\<exists>b d. get_buffer RX_BUFFER s = Some b \<and> rb_data b = Some d \<and> length d = 255 \<and> rb_transfered b = length w \<and>
        length w \<le> 254 \<and> take (length w) d = w))"

text \<open>The frame becomes the answer, the one received into is released.\<close>

definition after_reply :: "addr \<Rightarrow> addr \<Rightarrow> dmx512frame \<Rightarrow> ('b, 'm) rtc \<Rightarrow> ('b, 'm) rtc" where
  "after_reply a r f s = rtc_received_frame a (rtc_release r (store_frame a f (upd (\<lambda>p. p\<lparr>d_tx_frame := 0, d_rx_frame := 0\<rparr>) s)))"

lemma awaits_reply_frame:
  assumes "awaits_reply a f r w s"
  shows "\<exists>g. deref r s = Some g \<and> length (f_data g) = 513 \<and> holds_reply (f_data g) w"
proof -
  obtain fr b d where "d_frames (r_client s) r = Some fr" "frame_wf fr" "get_buffer RX_BUFFER s = Some b" "rb_data b = Some d"
      "length d = 255" "length w \<le> 254" "take (length w) d = w" "d_rx_data (r_client s) = Some (r, 258)" "r \<noteq> 0"
    using assms by (auto simp: awaits_reply_def Let_def RDM_POS_DISC_UNIQUE_BANCH_DATA_def)
  then show ?thesis by (simp add: deref_def holds_reply_def RDM_POS_DISC_UNIQUE_BANCH_DATA_def blit_def)
qed

lemma handle_reply:
  assumes "awaits_reply a f r w s" and "d_state (r_client s) \<noteq> RTPORT_RECV_RDMDISC_REPLY_COLLISION" and "w \<noteq> []"
    and "deref r s = Some g" and "decode_discovery_reply (f_data g) (length w) = Some res"
  shows "dmx512_rtuart_handle_discovery_reply s = Some (after_reply a r
     (answer (case res of None \<Rightarrow> replicate 6 0xFF | Some tmp \<Rightarrow> tmp) RESPONSE_TYPE_ACK f) s)"
proof -
  have p: "d_tx_frame (r_client s) = a" "a \<noteq> 0" "d_frames (r_client s) a = Some f" "frame_wf f" "d_rx_frame (r_client s) = r"
      "r \<noteq> a" "r \<noteq> 0" "d_frames (r_client s) r \<noteq> None" "\<forall>off. d_rx_data (r_client s) \<noteq> Some (a, off)"
    using assms(1) by (auto simp: awaits_reply_def Let_def)
  obtain b where b: "get_buffer RX_BUFFER s = Some b" "rb_transfered b = length w" "length w \<le> 254"
    using assms(1) by (auto simp: awaits_reply_def Let_def)
  have g: "length (f_data g) = 513" using awaits_reply_frame [OF assms(1)] assms(4) by simp
  have len: "6 \<le> length tmp" if "res = Some tmp" for tmp
    using decode_total [of "length w" "f_data g"] assms(5) that b(3) g by (auto simp: RDM_POS_DISC_UNIQUE_BANCH_DATA_def)
  have reply: "6 \<le> length src \<Longrightarrow> dmx512_rtuart_discovery_reply src ack s = Some (after_reply a r (answer src ack f) s)" for src ack
    using discovery_reply_answers [OF p(1-4,5,6) _ p(9), of src ack] p(7,8) by (simp add: after_reply_def)
  have sl: "arr_slice (f_data g) RDM_POS_DISC_UNIQUE_BANCH_DATA (length w) \<noteq> None"
    using g b(3) by (simp add: arr_slice_def RDM_POS_DISC_UNIQUE_BANCH_DATA_def)
  then show ?thesis
    unfolding dmx512_rtuart_handle_discovery_reply_def
    using assms(2-5) b p(5) reply len
    by (auto simp: dmx512_rtuart_discovery_reply_collision_def split: option.split)
qed

lemma awaits_reply_timer: "awaits_reply a f r w (rtc_stop_rdm_timer s) = awaits_reply a f r w s"
  by (simp add: awaits_reply_def rtc_stop_rdm_timer_def Let_def)

lemma stop_timer_client [simp]:
  "d_state (r_client (rtc_stop_rdm_timer s)) = d_state (r_client s)" "d_frames (r_client (rtc_stop_rdm_timer s)) = d_frames (r_client s)"
  "d_received (r_client (rtc_stop_rdm_timer s)) = d_received (r_client s)" "d_rx_data (r_client (rtc_stop_rdm_timer s)) = d_rx_data (r_client s)"
  "d_tx_frame (r_client (rtc_stop_rdm_timer s)) = d_tx_frame (r_client s)" "d_rx_frame (r_client (rtc_stop_rdm_timer s)) = d_rx_frame (r_client s)"
  "d_room (r_client (rtc_stop_rdm_timer s)) = d_room (r_client s)" "d_next (r_client (rtc_stop_rdm_timer s)) = d_next (r_client s)"
  "r_rx_buffer (rtc_stop_rdm_timer s) = r_rx_buffer s"
  by (simp_all add: rtc_stop_rdm_timer_def)

lemma deref_stop_timer [simp]: "deref a (rtc_stop_rdm_timer s) = deref a s"
  by (rule deref_cong) simp_all

lemma after_reply_client:
  assumes "a \<noteq> 0"
  shows "d_received (r_client (after_reply a r f s)) = a # d_received (r_client s)"
    "d_tx_frame (r_client (after_reply a r f s)) = 0" "d_rx_frame (r_client (after_reply a r f s)) = 0"
    "d_frames (r_client (after_reply a r f s)) = (d_frames (r_client s))(a \<mapsto> f, r := None)"
    "d_rx_data (r_client (after_reply a r f s)) = d_rx_data (r_client s)"
    "d_tx_data (r_client (after_reply a r f s)) = d_tx_data (r_client s)"
    "d_room (r_client (after_reply a r f s)) = d_room (r_client s) + 1" "d_next (r_client (after_reply a r f s)) = d_next (r_client s)"
  using assms by (simp_all add: after_reply_def)

lemma after_reply_rx_buffer:
  assumes "d_rx_data (r_client s) = Some (r, off)" and "a \<noteq> 0"
  shows "get_buffer RX_BUFFER (after_reply a r f s) = map_option (\<lambda>b. b\<lparr>rb_data := None\<rparr>) (get_buffer RX_BUFFER s)"
    "r_rx_buffer (after_reply a r f s) = r_rx_buffer s"
  using assms by (simp_all add: after_reply_def get_buffer_release rtc_received_frame_def store_frame_def)

text \<open>C17. A responder's answer to a discovery request comes through: when the port has sent a request and has received the
  encoded UID behind any octets that are not preamble octets, at least one preamble octet and the separator, and
  with anything behind it, the timeout hands the request back as the answer: its source is the UID of the
  responder, its destination the requester. The frame received into is released and the port is idle.\<close>

theorem rtc_discovery_roundtrip:
  assumes "awaits_reply a f r w s" and "d_state (r_client s) = RTPORT_RECV_RDMDISC_REPLY"
    and "w = junk @ replicate (Suc n) 0xFE @ 0xAA # concat (map encode_pair (reply_body uid)) @ rest"
    and "0xFE \<notin> set junk" and "length uid = 6"
  shows "\<exists>s' f'. rtc_handle_rdm_timeout s = Some s' \<and> d_state (r_client s') = RTPORT_IDLE \<and>
     d_received (r_client s') = a # d_received (r_client s) \<and> d_frames (r_client s') = (d_frames (r_client s))(a \<mapsto> f', r := None) \<and>
     d_tx_frame (r_client s') = 0 \<and> d_rx_frame (r_client s') = 0 \<and>
     take 6 (drop RDM_POS_SRC_UID (f_data f')) = uid \<and>
     take 6 (drop RDM_POS_DEST_UID (f_data f')) = take 6 (drop RDM_POS_SRC_UID (f_data f)) \<and>
     f_data f' ! RDM_POS_COMMAND_CLASS = DISCOVERY_COMMAND_RESPONSE \<and> f_data f' ! RDM_POS_RESPONSE_TYPE = RESPONSE_TYPE_ACK"
proof -
  let ?s = "rtc_stop_rdm_timer s"
  have a: "awaits_reply a f r w ?s" "d_tx_frame (r_client s) = a" "a \<noteq> 0" "frame_wf f"
    using assms(1) by (auto simp: awaits_reply_timer) (auto simp: awaits_reply_def Let_def)
  obtain g where g: "deref r ?s = Some g" "holds_reply (f_data g) w" using awaits_reply_frame [OF a(1)] by auto
  have "decode_discovery_reply (f_data g) (length w) = Some (Some (reply_body uid))"
    by (rule decode_reply [OF g(2) assms(3-5)])
  then have "dmx512_rtuart_handle_discovery_reply ?s = Some (after_reply a r (answer (reply_body uid) RESPONSE_TYPE_ACK f) ?s)"
    using handle_reply [OF a(1) _ _ g(1)] assms(2,3) by simp
  then have "rtc_handle_rdm_timeout s = Some (rtc_next_state RTPORT_IDLE (after_reply a r (answer (reply_body uid) RESPONSE_TYPE_ACK f) ?s))"
    using a(2,3) assms(2) by (simp add: rtc_handle_rdm_timeout_def Let_def)
  moreover have "take 6 (reply_body uid) = uid" "6 \<le> length (reply_body uid)" using assms(5) by (simp_all add: reply_body_def Let_def)
  ultimately show ?thesis
    using answer_fields [OF a(4), of "reply_body uid" RESPONSE_TYPE_ACK] a(3) by (auto simp: after_reply_client)
qed

text \<open>A port that has sent a request and received the reply of the responder 1.2.3.4.5.6.\<close>

definition demo_reply :: "u8 list" where
  "demo_reply = discovery_reply_octets [1, 2, 3, 4, 5, 6]"

definition demo_rtc :: "(unit, unit) rtc" where
  "demo_rtc = \<lparr>r_bus = (), r_notify_mask = 0, r_base_clock = 0, r_tx_buffer = 0, r_rx_buffer = RX_BUFFER, r_in_irq = False,
     r_buffers = [TX_BUFFER \<mapsto> zero_buffer,
       RX_BUFFER \<mapsto> zero_buffer\<lparr>rb_data := Some (demo_reply @ replicate 231 0), rb_size := 255, rb_validcount := 255, rb_transfered := 24\<rparr>],
     r_client = \<lparr>d_state = RTPORT_RECV_RDMDISC_REPLY, d_tx_frame = 1, d_tx_data = Some (1, 0), d_rx_frame = 2,
       d_rx_data = Some (2, RDM_POS_DISC_UNIQUE_BANCH_DATA), d_lock = slot_count_lock__init, d_rs485 = None, d_gpio_line = False,
       d_timer_active = True, d_timer_set = None, d_timer_call = False, d_frames = [1 \<mapsto> zero_frame, 2 \<mapsto> zero_frame], d_next = 3,
       d_room = 5, d_received = [], d_signals = 0, d_card = [], d_gpio = False, d_timer_ok = True\<rparr>\<rparr>"

lemma length_demo_reply: "length demo_reply = 24"
  by (simp add: demo_reply_def discovery_reply_octets_def Let_def encode_pair_def)

lemma demo_awaits: "awaits_reply 1 zero_frame 2 demo_reply demo_rtc"
proof -
  have "get_buffer RX_BUFFER demo_rtc =
      Some (zero_buffer\<lparr>rb_data := Some (demo_reply @ replicate 231 0), rb_size := 255, rb_validcount := 255, rb_transfered := 24\<rparr>)"
    by (simp add: demo_rtc_def get_buffer_def buffer_addr_defs)
  then show ?thesis
    by (simp add: awaits_reply_def length_demo_reply) (simp add: demo_rtc_def)
qed

theorem rtc_discovery_roundtrip_witness:
  "\<exists>s' f'. rtc_handle_rdm_timeout demo_rtc = Some s' \<and> d_received (r_client s') = [1] \<and>
     d_frames (r_client s') 1 = Some f' \<and> take 6 (drop 9 (f_data f')) = [1, 2, 3, 4, 5, 6]"
proof -
  have st: "d_state (r_client demo_rtc) = RTPORT_RECV_RDMDISC_REPLY" "d_received (r_client demo_rtc) = []"
    by (simp_all add: demo_rtc_def)
  have w: "demo_reply = [] @ replicate (Suc 6) 0xFE @ 0xAA # concat (map encode_pair (reply_body [1, 2, 3, 4, 5, 6])) @ []"
    by (simp add: demo_reply_def discovery_reply_octets_body numeral_eq_Suc)
  show ?thesis
    using rtc_discovery_roundtrip [OF demo_awaits st(1) w] st(2) by fastforce
qed

end
