(* ===== verification/Dmx_Rtuart_Port.thy ===== *)
theory Dmx_Rtuart_Port
  imports Rtuart_Interface Dmx_Rtuart_Frames
begin

text \<open>
  The invariant of the port on the buffered UART interface: every frame that is allocated is in exactly one place, the
  frames and buffers that a state works on are there, and every event returns. The lemmas rest on the interface
  of the driver only; they hold for both drivers.
\<close>

section \<open>The invariant\<close>

text \<open>Where the port has frames.\<close>

definition held :: "rtc_port \<Rightarrow> addr list" where
  "held p = filter (\<lambda>a. a \<noteq> 0) [d_tx_frame p, d_rx_frame p] @ d_received p"

definition frames_ok :: "rtc_port \<Rightarrow> bool" where
  "frames_ok p \<longleftrightarrow> distinct (held p) \<and> set (held p) = dom (d_frames p) \<and> (\<forall>a \<in> set (held p). 0 < a \<and> a < d_next p) \<and>
     (\<forall>a f. d_frames p a = Some f \<longrightarrow> frame_wf f) \<and> 0 < d_next p \<and>
     (\<forall>a off. d_rx_data p = Some (a, off) \<longrightarrow> 0 < a \<and> a \<noteq> d_tx_frame p \<and> a < d_next p)"

definition buffers_ok :: "('b, 'm) rtc \<Rightarrow> bool" where
  "buffers_ok s \<longleftrightarrow> (\<exists>b. get_buffer TX_BUFFER s = Some b) \<and> (\<exists>b. get_buffer RX_BUFFER s = Some b \<and> length (rb_trigger b) = 32) \<and>
     (r_tx_buffer s = 0 \<or> r_tx_buffer s = TX_BUFFER)"

text \<open>The port receives into its frame, from an offset on; at most \<open>limit\<close> octets have come.\<close>

definition attached :: "nat \<Rightarrow> nat \<Rightarrow> ('b, 'm) rtc \<Rightarrow> bool" where
  "attached off limit s \<longleftrightarrow> d_rx_frame (r_client s) \<noteq> 0 \<and> d_rx_data (r_client s) = Some (d_rx_frame (r_client s), off) \<and>
     (\<exists>b d. get_buffer RX_BUFFER s = Some b \<and> rb_data b = Some d \<and> length d = 513 - off \<and> rb_size b = 513 - off \<and>
        rb_transfered b \<le> limit)"

fun state_ok :: "rtc_state \<Rightarrow> ('b, 'm) rtc \<Rightarrow> bool" where
  "state_ok RTPORT_DOWN s \<longleftrightarrow> d_tx_frame (r_client s) = 0 \<and> d_rx_frame (r_client s) = 0"
| "state_ok RTPORT_IDLE s \<longleftrightarrow> d_tx_frame (r_client s) = 0 \<and> d_rx_frame (r_client s) = 0"
| "state_ok RTPORT_IDLE_AFTER_DMXDATA00 s \<longleftrightarrow> d_tx_frame (r_client s) = 0 \<and> d_rx_frame (r_client s) = 0"
| "state_ok RTPORT_EXPECT_STARTCODE s \<longleftrightarrow> d_tx_frame (r_client s) = 0 \<and> (d_rx_frame (r_client s) = 0 \<or> attached 0 513 s)"
| "state_ok RTPORT_RECEIVE_DMXDATA s \<longleftrightarrow> d_tx_frame (r_client s) = 0 \<and> (d_rx_frame (r_client s) = 0 \<or> attached 0 513 s)"
| "state_ok RTPORT_TRANSMIT_BREAK_ONEWAY s \<longleftrightarrow> False"
| "state_ok RTPORT_TRANSMIT_DATA_ONEWAY s \<longleftrightarrow> d_tx_frame (r_client s) \<noteq> 0 \<and> d_rx_frame (r_client s) = 0"
| "state_ok RTPORT_TRANSMIT_BREAK_TWOWAY s \<longleftrightarrow> False"
| "state_ok RTPORT_TRANSMIT_DATA_TWOWAY s \<longleftrightarrow> d_tx_frame (r_client s) \<noteq> 0 \<and> d_rx_frame (r_client s) = 0"
| "state_ok RTPORT_RECV_RDMDISC_REPLY s \<longleftrightarrow> d_tx_frame (r_client s) \<noteq> 0 \<and> attached RDM_POS_DISC_UNIQUE_BANCH_DATA 254 s"
| "state_ok RTPORT_RECV_RDMDISC_REPLY_COLLISION s \<longleftrightarrow> d_tx_frame (r_client s) \<noteq> 0 \<and> attached RDM_POS_DISC_UNIQUE_BANCH_DATA 254 s"
| "state_ok RTPORT_EXPECT_RDM_REPLY_BREAK s \<longleftrightarrow> d_tx_frame (r_client s) \<noteq> 0 \<and> d_rx_frame (r_client s) = 0"
| "state_ok RTPORT_RECV_RDM_REPLY_DATA s \<longleftrightarrow> d_tx_frame (r_client s) \<noteq> 0 \<and> (d_rx_frame (r_client s) = 0 \<or> attached 0 513 s)"

definition rtc_inv :: "('b, 'm) rtc \<Rightarrow> bool" where
  "rtc_inv s \<longleftrightarrow> frames_ok (r_client s) \<and> buffers_ok s \<and> state_ok (d_state (r_client s)) s"

text \<open>The invariant sees the client, the two buffers and which buffer is being sent.\<close>

lemma attached_cong:
  "r_client s' = r_client s \<Longrightarrow> get_buffer RX_BUFFER s' = get_buffer RX_BUFFER s \<Longrightarrow> attached off n s' = attached off n s"
  by (simp add: attached_def)

lemma state_ok_cong:
  "r_client s' = r_client s \<Longrightarrow> get_buffer RX_BUFFER s' = get_buffer RX_BUFFER s \<Longrightarrow> state_ok st s' = state_ok st s"
  by (cases st) (simp_all add: attached_cong [of s' s])

lemma buffers_ok_cong:
  "get_buffer RX_BUFFER s' = get_buffer RX_BUFFER s \<Longrightarrow> get_buffer TX_BUFFER s' = get_buffer TX_BUFFER s \<Longrightarrow>
   r_tx_buffer s' = r_tx_buffer s \<Longrightarrow> buffers_ok s' = buffers_ok s"
  by (simp add: buffers_ok_def)

lemma kept_inv: "uart_kept s s' \<Longrightarrow> rtc_inv s' = rtc_inv s"
  using uart_kept_sel [of s s'] by (simp add: rtc_inv_def state_ok_cong [of s' s] buffers_ok_cong [of s' s])

lemma kept_parts:
  assumes "uart_kept s s'"
  shows "frames_ok (r_client s') = frames_ok (r_client s)" "buffers_ok s' = buffers_ok s" "attached off n s' = attached off n s"
    "r_client s' = r_client s" "deref a s' = deref a s"
  using uart_kept_sel [OF assms]
  by (simp_all add: buffers_ok_cong [of s' s] attached_cong [of s' s] deref_cong [of s' _ s])

section \<open>Frames come and go\<close>

lemma frames_ok_next_state [simp]: "frames_ok (p\<lparr>d_state := st\<rparr>) = frames_ok p"
  by (simp add: frames_ok_def held_def)

lemma held_simps [simp]:
  "held (p\<lparr>d_state := st\<rparr>) = held p" "held (p\<lparr>d_lock := l\<rparr>) = held p" "held (p\<lparr>d_rx_data := x\<rparr>) = held p"
  "held (p\<lparr>d_tx_data := x\<rparr>) = held p" "held (p\<lparr>d_frames := F\<rparr>) = held p" "held (p\<lparr>d_room := n\<rparr>) = held p" "held (p\<lparr>d_next := n\<rparr>) = held p"
  by (simp_all add: held_def)

lemma frames_ok_get:
  assumes "frames_ok p" and "d_rx_frame p = 0" and "a = d_next p"
  shows "frames_ok (p\<lparr>d_frames := (d_frames p)(a \<mapsto> zero_frame), d_next := a + 1, d_room := n, d_rx_frame := a, d_rx_data := Some (a, off)\<rparr>)"
proof -
  have n: "a \<notin> dom (d_frames p)" using assms(1,3) unfolding frames_ok_def by blast
  then have "d_frames p a = None" "a \<notin> set (held p)" using assms(1) by (auto simp: frames_ok_def)
  then show ?thesis using assms by (auto simp: frames_ok_def held_def less_Suc_eq)
qed

lemma held_frame:
  assumes "frames_ok p" and "a \<in> set (held p)"
  shows "\<exists>f. d_frames p a = Some f \<and> frame_wf f"
proof -
  have "a \<in> dom (d_frames p)" using assms unfolding frames_ok_def by blast
  then obtain f where "d_frames p a = Some f" by auto
  then show ?thesis using assms(1) unfolding frames_ok_def by blast
qed

lemma held_tx: "d_tx_frame p \<noteq> 0 \<Longrightarrow> d_tx_frame p \<in> set (held p)"
  and held_rx: "d_rx_frame p \<noteq> 0 \<Longrightarrow> d_rx_frame p \<in> set (held p)"
  by (simp_all add: held_def)

lemma frames_ok_change:
  assumes "frames_ok p" and "distinct (held p')" and "set (held p') = dom (d_frames p')" and "set (held p') \<subseteq> set (held p)"
    and "\<And>a f. d_frames p' a = Some f \<Longrightarrow> frame_wf f" and "d_next p' = d_next p" and "d_rx_data p' = d_rx_data p"
    and "d_tx_frame p' = d_tx_frame p \<or> d_tx_frame p' = 0"
  shows "frames_ok p'"
  using assms unfolding frames_ok_def by (metis subsetD less_numeral_extra(3))

lemma frames_ok_release_tx:
  assumes "frames_ok p" and "d_tx_frame p = a" and "a \<noteq> 0"
  shows "frames_ok (p\<lparr>d_tx_frame := 0, d_frames := (d_frames p)(a := None), d_room := n\<rparr>)"
proof -
  let ?q = "p\<lparr>d_tx_frame := 0, d_frames := (d_frames p)(a := None), d_room := n\<rparr>"
  have h: "held p = a # held ?q" using assms(2,3) by (simp add: held_def)
  have d: "distinct (held p)" "set (held p) = dom (d_frames p)" "\<forall>b f. d_frames p b = Some f \<longrightarrow> frame_wf f"
    using assms(1) by (auto simp: frames_ok_def)
  have "set (held ?q) = dom ((d_frames p)(a := None))" using h d(1) by (simp flip: d(2))
  then show ?thesis using assms(1) h d by (intro frames_ok_change [OF assms(1)]) (auto split: if_splits)
qed

lemma frames_ok_same_held:
  assumes "frames_ok p" and "held p' = held p" and "dom (d_frames p') = dom (d_frames p)"
    and "\<And>a f. d_frames p' a = Some f \<Longrightarrow> frame_wf f" and "d_next p' = d_next p" and "d_rx_data p' = d_rx_data p"
    and "d_tx_frame p' = d_tx_frame p \<or> d_tx_frame p' = 0"
  shows "frames_ok p'"
  using assms by (intro frames_ok_change [OF assms(1)]) (simp_all add: frames_ok_def)

lemma frames_ok_deliver_rx:
  assumes "frames_ok p" and "d_rx_frame p = a" and "a \<noteq> 0" and "frame_wf f"
  shows "frames_ok (p\<lparr>d_rx_frame := 0, d_frames := (d_frames p)(a \<mapsto> f), d_received := a # d_received p, d_signals := n\<rparr>)"
proof (rule frames_ok_same_held [OF assms(1)])
  fix b g
  assume "d_frames (p\<lparr>d_rx_frame := 0, d_frames := (d_frames p)(a \<mapsto> f), d_received := a # d_received p, d_signals := n\<rparr>) b = Some g"
  then show "frame_wf g" using assms(1,4) by (auto simp: frames_ok_def split: if_splits)
next
  have "a \<in> set (held p)" using assms(2,3) by (simp add: held_def)
  then have "a \<in> dom (d_frames p)" using assms(1) unfolding frames_ok_def by blast
  then show "dom (d_frames (p\<lparr>d_rx_frame := 0, d_frames := (d_frames p)(a \<mapsto> f), d_received := a # d_received p, d_signals := n\<rparr>)) =
      dom (d_frames p)" by auto
qed (use assms(2,3) in \<open>auto simp: held_def\<close>)

lemma frames_ok_hand_back:
  assumes "frames_ok p" and "d_tx_frame p = a" and "a \<noteq> 0" and "d_rx_frame p = 0"
  shows "frames_ok (p\<lparr>d_tx_frame := 0, d_received := a # d_received p, d_signals := n\<rparr>)"
  by (rule frames_ok_same_held [OF assms(1)]) (use assms in \<open>auto simp: held_def frames_ok_def\<close>)

lemma frames_ok_answer:
  assumes "frames_ok p" and "d_tx_frame p = a" and "a \<noteq> 0" and "d_rx_frame p = r" and "r \<noteq> 0" and "frame_wf f"
  shows "frames_ok (p\<lparr>d_tx_frame := 0, d_rx_frame := 0, d_frames := (d_frames p)(a \<mapsto> f, r := None), d_room := m,
     d_received := a # d_received p, d_signals := n\<rparr>)"
proof -
  let ?q = "p\<lparr>d_tx_frame := 0, d_rx_frame := 0, d_frames := (d_frames p)(a \<mapsto> f, r := None), d_room := m,
     d_received := a # d_received p, d_signals := n\<rparr>"
  have h: "held p = a # r # d_received p" "held ?q = a # d_received p" using assms(2-5) by (simp_all add: held_def)
  have d: "distinct (held p)" "set (held p) = dom (d_frames p)" "\<forall>b f. d_frames p b = Some f \<longrightarrow> frame_wf f"
    using assms(1) by (auto simp: frames_ok_def)
  have "dom (d_frames ?q) = dom (d_frames p) - {r} \<union> {a}" using d(1) h(1) by auto
  then have "set (held ?q) = dom (d_frames ?q)" using h d(1) by (simp flip: d(2)) auto
  then show ?thesis using h d assms(6) by (intro frames_ok_change [OF assms(1)]) (auto split: if_splits)
qed

text \<open>Changes of the port that do not concern its frames: the lock, the timer, the GPIO line.\<close>

definition same_frames :: "rtc_port \<Rightarrow> rtc_port \<Rightarrow> bool" where
  "same_frames p p' \<longleftrightarrow> d_tx_frame p' = d_tx_frame p \<and> d_rx_frame p' = d_rx_frame p \<and> d_rx_data p' = d_rx_data p \<and>
     d_frames p' = d_frames p \<and> d_next p' = d_next p \<and> d_received p' = d_received p"

lemma same_frames_ok: "same_frames p p' \<Longrightarrow> frames_ok p' = frames_ok p"
  by (simp add: same_frames_def frames_ok_def held_def)

lemma same_frames_attached:
  "same_frames (r_client s) (r_client s') \<Longrightarrow> get_buffer RX_BUFFER s' = get_buffer RX_BUFFER s \<Longrightarrow> attached off n s' = attached off n s"
  by (simp add: same_frames_def attached_def)

lemma same_frames_state:
  assumes "same_frames (r_client s) (r_client s')" and "get_buffer RX_BUFFER s' = get_buffer RX_BUFFER s"
  shows "state_ok st s' = state_ok st s"
proof -
  have "d_tx_frame (r_client s') = d_tx_frame (r_client s)" "d_rx_frame (r_client s') = d_rx_frame (r_client s)"
    using assms(1) by (simp_all add: same_frames_def)
  then show ?thesis using same_frames_attached [OF assms] by (cases st) simp_all
qed

lemma same_frames_upd [simp]:
  "same_frames p p" "same_frames p (p\<lparr>d_gpio := g\<rparr>)" "same_frames p (p\<lparr>d_state := st\<rparr>)" "same_frames p (p\<lparr>d_lock := l\<rparr>)"
  "same_frames p (p\<lparr>d_timer_call := c\<rparr>)" "same_frames p (p\<lparr>d_timer_active := c, d_timer_set := t\<rparr>)" "same_frames p (p\<lparr>d_lock := l, d_state := st\<rparr>)"
  "same_frames p (p\<lparr>d_gpio := g, d_state := st\<rparr>)" "same_frames p (p\<lparr>d_tx_data := x\<rparr>)"
  by (simp_all add: same_frames_def)

lemma same_frames_buffers: "buffers_ok (s\<lparr>r_client := p\<rparr>) = buffers_ok s" "buffers_ok (rtc_next_state st s) = buffers_ok s"
  by (simp_all add: buffers_ok_def rtc_next_state_def)

lemma buffers_ok_release [simp]: "buffers_ok (rtc_release a s) = buffers_ok s"
  by (auto simp: buffers_ok_def get_buffer_release)

lemma attached_mono: "attached off n s \<Longrightarrow> n \<le> m \<Longrightarrow> attached off m s"
  by (auto simp: attached_def)

section \<open>Steps of the port\<close>

locale dmx_client = dmx_line_uart ops ok
  for ops :: "('b, 'm) rtc_ops" and ok :: "('b, 'm) rtc \<Rightarrow> bool"
begin

lemma rs485_kept:
  assumes "ok s"
  shows "\<exists>s'. enable_rs485_transmitter ops en s = Some s' \<and> ok s' \<and> uart_kept (upd (\<lambda>p. p\<lparr>d_gpio := d_gpio (r_client s')\<rparr>) s) s'"
proof (cases "d_rs485 (r_client s)")
  case None
  then show ?thesis using assms by (simp add: enable_rs485_transmitter_def)
next
  case (Some m)
  show ?thesis
  proof (cases m)
    case Rs485_Gpio
    then show ?thesis
      using Some assms by (simp add: enable_rs485_transmitter_def dmxrtuart_enable_rs485_transmitter_gpio_def ok_client uart_kept_def)
  next
    case Rs485_Rts
    then show ?thesis
      using Some set_control [OF assms, of RTUART_CONTROL_RTS] clr_control [OF assms, of RTUART_CONTROL_RTS]
      by (fastforce simp: enable_rs485_transmitter_def dmxrtuart_enable_rs485_transmitter_rts_def uart_kept_def)
  qed
qed

lemma ok_put_buffer: "ok (put_buffer a b s) = ok s"
  by (simp add: put_buffer_def ok_buffers)

lemma ok_steps:
  "ok (rtc_next_state st s) = ok s" "ok (store_frame a f s) = ok s" "ok (rtc_received_frame a s) = ok s" "ok (rtc_stop_rdm_timer s) = ok s"
  "ok (rtc_start_rdm_timer t s) = ok s" "ok (invalidate ptr b a s) = ok s"
  by (simp_all add: rtc_next_state_def store_frame_def rtc_received_frame_def rtc_stop_rdm_timer_def rtc_start_rdm_timer_def Let_def
      invalidate_def ok_client ok_put_buffer split: option.split)

lemma ok_release: "ok (rtc_release a s) = ok s"
  by (simp add: rtc_release_def ok_client ok_steps)

lemma start_receive:
  assumes "ok s" and "frames_ok (r_client s)" and "buffers_ok s" and "d_rx_frame (r_client s) = 0" and "off = 0 \<or> off = RDM_POS_DISC_UNIQUE_BANCH_DATA"
  shows "\<exists>s'. dmx512_rtuart_start_receive_data ops off trig s = Some s' \<and> ok s' \<and> frames_ok (r_client s') \<and> buffers_ok s' \<and>
     d_state (r_client s') = d_state (r_client s) \<and> d_tx_frame (r_client s') = d_tx_frame (r_client s) \<and>
     d_received (r_client s') = d_received (r_client s) \<and>
     (\<forall>b. d_frames (r_client s) b \<noteq> None \<longrightarrow> d_frames (r_client s') b = d_frames (r_client s) b) \<and>
     (if d_room (r_client s) = 0 then d_rx_frame (r_client s') = 0 else attached off 0 s')"
proof -
  obtain s1 where s1: "rtuart_set_notify ops RTUART_NOTIFY_RECEIVER_EVENT s = Some s1" "ok s1" "uart_kept s s1"
    using set_notify [OF assms(1)] by blast
  obtain s2 where s2: "rtuart_set_notify ops RTUART_NOTIFY_RECEIVER_HASDATA s1 = Some s2" "ok s2" "uart_kept s s2"
    using set_notify [OF s1(2)] s1(3) by (blast intro: uart_kept_trans)
  note k = kept_parts [OF s2(3)]
  show ?thesis
  proof (cases "d_room (r_client s) = 0")
    case True
    have "(r_client s)\<lparr>d_rx_frame := 0\<rparr> = r_client s" using assms(4) by simp
    moreover have "s2\<lparr>r_client := r_client s\<rparr> = s2" by (simp flip: k(4))
    ultimately have "dmx512_rtuart_start_receive_data ops off trig s = Some s2"
      using s1(1) s2(1) k(4) True by (simp add: dmx512_rtuart_start_receive_data_def rtc_get_frame_def)
    then show ?thesis using s2(2) k True assms(2-4) by simp
  next
    case False
    let ?p = "r_client s" and ?a = "d_next (r_client s)"
    define p' where "p' = ?p\<lparr>d_frames := (d_frames ?p)(?a \<mapsto> zero_frame), d_next := ?a + 1, d_room := d_room ?p - 1, d_rx_frame := ?a\<rparr>"
    define s3 where "s3 = s2\<lparr>r_client := p'\<rparr>"
    obtain b where b: "get_buffer RX_BUFFER s2 = Some b" "length (rb_trigger b) = 32" using assms(3) k(2) by (auto simp: buffers_ok_def)
    define b' where "b' = b\<lparr>rb_data := Some (drop off (replicate 513 0)), rb_size := 513 - off, rb_validcount := 513 - off,
       rb_triggermask := (if trig then 1 else rb_triggermask b), rb_trigger := (if trig then (rb_trigger b)[0 := 1] else rb_trigger b)\<rparr>"
    define s4 where "s4 = upd (\<lambda>p. p\<lparr>d_rx_data := Some (?a, off)\<rparr>) (put_buffer RX_BUFFER b' s3)"
    have new: "?a \<noteq> 0" "\<forall>o'. d_rx_data p' \<noteq> Some (?a, o')" using assms(2) by (auto simp: frames_ok_def p'_def)
    have d: "deref ?a s3 = Some zero_frame" using new by (subst deref_plain) (simp_all add: s3_def p'_def)
    have ok4: "ok s4" using s2(2) by (simp add: s4_def s3_def ok_client ok_put_buffer)
    have b4: "get_buffer RX_BUFFER s4 = Some b'" by (simp add: s4_def buffer_addr_defs)
    obtain s5 where s5: "rtuart_rx_start ops RX_BUFFER s4 = Some s5" "ok s5"
        "uart_kept ((put_buffer RX_BUFFER (b'\<lparr>rb_transfered := 0\<rparr>) s4)\<lparr>r_rx_buffer := RX_BUFFER\<rparr>) s5"
      using rx_start [OF ok4 b4] by blast
    have "dmx512_rtuart_start_receive_data ops off trig s = Some s5"
      using s1(1) s2(1) k(4) False new(1) d b s5(1)
      by (auto simp: dmx512_rtuart_start_receive_data_def rtc_get_frame_def Let_def s3_def p'_def s4_def b'_def zero_frame_def fault_simps)
    moreover have c5: "r_client s5 = p'\<lparr>d_rx_data := Some (?a, off)\<rparr>"
      using uart_kept_sel(1) [OF s5(3)] by (simp add: s4_def s3_def)
    moreover have "frames_ok (p'\<lparr>d_rx_data := Some (?a, off)\<rparr>)"
      using frames_ok_get [OF assms(2,4) refl, where n = "d_room ?p - 1" and off = off] by (simp add: p'_def)
    moreover have "get_buffer RX_BUFFER s5 = Some (b'\<lparr>rb_transfered := 0\<rparr>)" "get_buffer TX_BUFFER s5 = get_buffer TX_BUFFER s2"
        "r_tx_buffer s5 = r_tx_buffer s2"
      using uart_kept_sel [OF s5(3)] by (simp_all add: s4_def s3_def buffer_addr_defs)
    moreover have "length (rb_trigger b') = 32" using b(2) by (simp add: b'_def)
    moreover have "d_frames ?p ?a = None" using assms(2) unfolding frames_ok_def by auto
    ultimately show ?thesis
      using s5(2) False new(1) assms(3) k(2)
      by (auto simp: buffers_ok_def attached_def p'_def b'_def)
  qed
qed

lemma rs485_parts:
  assumes "ok s"
  shows "\<exists>s'. enable_rs485_transmitter ops en s = Some s' \<and> ok s' \<and> same_frames (r_client s) (r_client s') \<and>
     d_state (r_client s') = d_state (r_client s) \<and> d_room (r_client s') = d_room (r_client s) \<and>
     (\<forall>a. get_buffer a s' = get_buffer a s) \<and> r_tx_buffer s' = r_tx_buffer s \<and> (\<forall>a. deref a s' = deref a s)"
proof -
  obtain s' where s': "enable_rs485_transmitter ops en s = Some s'" "ok s'" "uart_kept (upd (\<lambda>p. p\<lparr>d_gpio := d_gpio (r_client s')\<rparr>) s) s'"
    using rs485_kept [OF assms] by blast
  have c: "r_client s' = (r_client s)\<lparr>d_gpio := d_gpio (r_client s')\<rparr>" "\<forall>a. get_buffer a s' = get_buffer a s" "r_tx_buffer s' = r_tx_buffer s"
    using uart_kept_sel [OF s'(3)] by simp_all
  have eqs: "d_state (r_client s') = d_state (r_client s)" "d_room (r_client s') = d_room (r_client s)"
      "d_frames (r_client s') = d_frames (r_client s)" "d_rx_data (r_client s') = d_rx_data (r_client s)"
    by (subst c(1); simp)+
  moreover have "same_frames (r_client s) (r_client s')" by (subst c(1)) simp
  moreover have "deref a s' = deref a s" for a using eqs c(2) by (intro deref_cong) simp_all
  ultimately show ?thesis using s'(1,2) c(2,3) by blast
qed

lemma tx_end1_ok:
  assumes "ok s" and "rtc_inv s"
  shows "\<exists>s'. dmx512_rtuart_tx_end1 ops a s = Some s' \<and> ok s' \<and> rtc_inv s'"
  using set_notify [OF assms(1)] kept_inv assms(2) by (fastforce simp: dmx512_rtuart_tx_end1_def)

lemma tx_end2_oneway_ok:
  assumes "ok s" and "rtc_inv s" and "d_state (r_client s) = RTPORT_TRANSMIT_DATA_ONEWAY"
  shows "\<exists>s'. rtc_tx_end2_oneway ops s = Some s' \<and> ok s' \<and> rtc_inv s'"
proof -
  obtain s1 where s1: "enable_rs485_transmitter ops False s = Some s1" "ok s1" "same_frames (r_client s) (r_client s1)"
      "\<forall>a. get_buffer a s1 = get_buffer a s" "r_tx_buffer s1 = r_tx_buffer s"
    using rs485_parts [OF assms(1)] by blast
  let ?a = "d_tx_frame (r_client s1)"
  have tx: "?a \<noteq> 0" "d_rx_frame (r_client s1) = 0" "frames_ok (r_client s1)" "buffers_ok s1"
    using assms(2,3) s1(3) same_frames_ok [OF s1(3)] buffers_ok_cong [of s1 s] s1(4,5)
    by (simp_all add: rtc_inv_def same_frames_def)
  then have fr: "d_frames (r_client s1) ?a \<noteq> None" by (auto simp: frames_ok_def held_def)
  define s2 where "s2 = upd (\<lambda>p. p\<lparr>d_tx_frame := 0\<rparr>) (rtc_release ?a s1)"
  have c2: "r_client s2 = (r_client s1)\<lparr>d_tx_frame := 0, d_frames := (d_frames (r_client s1))(?a := None), d_room := d_room (r_client s1) + 1\<rparr>"
    by (simp add: s2_def)
  have "ok s2" using s1(2) by (simp add: s2_def ok_client ok_release)
  then obtain s3 where s3: "rtuart_set_notify ops RTUART_NOTIFY_RECEIVER_EVENT s2 = Some s3" "ok s3" "uart_kept s2 s3"
    using set_notify by blast
  have "rtc_tx_end2_oneway ops s = Some (rtc_next_state RTPORT_IDLE s3)"
    using s1(1) tx(1) fr s3(1) by (simp add: rtc_tx_end2_oneway_def rtc_put_frame_def s2_def)
  moreover have "frames_ok (r_client s3)" "d_tx_frame (r_client s3) = 0" "d_rx_frame (r_client s3) = 0"
    using frames_ok_release_tx [OF tx(3) refl tx(1)] kept_parts(4) [OF s3(3)] c2 tx(2) by simp_all
  moreover have "buffers_ok s3" using kept_parts(2) [OF s3(3)] tx(4) by (simp add: s2_def same_frames_buffers)
  ultimately show ?thesis using s3(2) by (simp add: rtc_inv_def same_frames_buffers) (simp add: rtc_next_state_def ok_client)
qed

lemma tx_end2_twoway_ok:
  assumes "ok s" and "rtc_inv s" and "d_state (r_client s) = RTPORT_TRANSMIT_DATA_TWOWAY" and "d_room (r_client s) \<noteq> 0"
  shows "\<exists>s'. rtc_tx_end2_twoway ops s = Some s' \<and> ok s' \<and> rtc_inv s'"
proof -
  obtain s1 where s1: "enable_rs485_transmitter ops False s = Some s1" "ok s1" "same_frames (r_client s) (r_client s1)"
      "d_room (r_client s1) = d_room (r_client s)" "\<forall>a. get_buffer a s1 = get_buffer a s" "r_tx_buffer s1 = r_tx_buffer s"
    using rs485_parts [OF assms(1)] by blast
  let ?a = "d_tx_frame (r_client s1)"
  have tx: "?a \<noteq> 0" "d_rx_frame (r_client s1) = 0" "frames_ok (r_client s1)" "buffers_ok s1"
    using assms(2,3) s1(3) same_frames_ok [OF s1(3)] buffers_ok_cong [of s1 s] s1(5,6)
    by (simp_all add: rtc_inv_def same_frames_def)
  obtain f where f: "d_frames (r_client s1) ?a = Some f" using held_frame [OF tx(3) held_tx [OF tx(1)]] by blast
  have d: "deref ?a s1 = Some f" using tx(1,3) f by (subst deref_plain) (auto simp: frames_ok_def)
  show ?thesis
  proof (cases "dmx512_is_rdm_disc_unique_branch_request f")
    case True
    let ?s = "rtc_next_state RTPORT_RECV_RDMDISC_REPLY s1"
    obtain s2 where s2: "dmx512_rtuart_start_receive_data ops RDM_POS_DISC_UNIQUE_BANCH_DATA False ?s = Some s2" "ok s2"
        "frames_ok (r_client s2)" "buffers_ok s2" "d_state (r_client s2) = RTPORT_RECV_RDMDISC_REPLY" "d_tx_frame (r_client s2) = ?a"
        "attached RDM_POS_DISC_UNIQUE_BANCH_DATA 0 s2"
      using start_receive [of ?s RDM_POS_DISC_UNIQUE_BANCH_DATA False] s1(2,4) tx assms(4) by (auto simp: ok_steps same_frames_buffers)
    then have "rtc_inv s2" using tx(1) attached_mono [of _ 0 s2 254] by (simp add: rtc_inv_def)
    moreover have "rtc_tx_end2_twoway ops s = Some s2" using s1(1) tx(1) d True s2(1) by (simp add: rtc_tx_end2_twoway_def)
    ultimately show ?thesis using s2(2) by blast
  next
    case False
    let ?s = "rtc_next_state RTPORT_EXPECT_RDM_REPLY_BREAK s1"
    obtain s2 where s2: "rtuart_set_notify ops RTUART_NOTIFY_RECEIVER_EVENT ?s = Some s2" "ok s2" "uart_kept ?s s2"
      using set_notify [of ?s] s1(2) by (auto simp: ok_steps)
    have "rtc_inv ?s" using tx by (simp add: rtc_inv_def same_frames_buffers)
    then have "rtc_inv s2" using kept_inv [OF s2(3)] by simp
    moreover have "rtc_tx_end2_twoway ops s = Some s2" using s1(1) tx(1) d False s2(1) by (simp add: rtc_tx_end2_twoway_def)
    ultimately show ?thesis using s2(2) by blast
  qed
qed

lemma tx_end2_ok:
  assumes "ok s" and "rtc_inv s" and "d_room (r_client s) \<noteq> 0"
  shows "\<exists>s'. dmx512_rtuart_tx_end2 ops a s = Some s' \<and> ok s' \<and> rtc_inv s'"
  using tx_end2_oneway_ok [OF assms(1,2)] tx_end2_twoway_ok [OF assms(1,2) _ assms(3)] assms
  by (cases "d_state (r_client s)") (simp_all add: dmx512_rtuart_tx_end2_def)

end

section \<open>Completing a reception\<close>

lemma attached_deref:
  assumes "attached off n s" and "frames_ok (r_client s)" and "off \<le> 513"
  shows "\<exists>f. deref (d_rx_frame (r_client s)) s = Some f \<and> frame_wf f"
proof -
  let ?a = "d_rx_frame (r_client s)"
  obtain b d where a: "?a \<noteq> 0" "d_rx_data (r_client s) = Some (?a, off)" "get_buffer RX_BUFFER s = Some b" "rb_data b = Some d"
      "length d = 513 - off"
    using assms(1) by (auto simp: attached_def)
  obtain f where f: "d_frames (r_client s) ?a = Some f" "frame_wf f" using held_frame [OF assms(2) held_rx [OF a(1)]] by blast
  have "frame_wf (f\<lparr>f_data := blit (f_data f) off d\<rparr>)" using f(2) a(5) assms(3) by simp
  then show ?thesis using a f by (simp add: deref_def)
qed

text \<open>The frame that a reception gives: what has been received, with its size.\<close>

lemma complete_rxframe_ok:
  assumes "attached 0 n s" and "frames_ok (r_client s)"
  shows "\<exists>b f. get_buffer RX_BUFFER s = Some b \<and> deref (d_rx_frame (r_client s)) s = Some f \<and> frame_wf f \<and>
     dmx512_rtuart_complete_rxframe s = Some (d_rx_frame (r_client s),
       store_frame (d_rx_frame (r_client s)) (f\<lparr>f_payload_size := word_of_int (int (rb_transfered b) - 1)\<rparr>) (upd (\<lambda>p. p\<lparr>d_rx_frame := 0\<rparr>) s))"
proof -
  obtain f where f: "deref (d_rx_frame (r_client s)) s = Some f" "frame_wf f" using attached_deref [OF assms] by auto
  obtain b where "get_buffer RX_BUFFER s = Some b" using assms(1) by (auto simp: attached_def)
  then show ?thesis using f by (simp add: dmx512_rtuart_complete_rxframe_def Let_def)
qed

text \<open>The state after handing the frame up.\<close>

lemma delivered_ok:
  assumes "frames_ok (r_client s)" and "buffers_ok s" and "d_rx_frame (r_client s) = a" and "a \<noteq> 0" and "frame_wf f"
    and "s' = rtc_received_frame a (store_frame a f (upd (\<lambda>p. p\<lparr>d_rx_frame := 0\<rparr>) s))"
  shows "frames_ok (r_client s') \<and> buffers_ok s' \<and> d_rx_frame (r_client s') = 0 \<and> d_tx_frame (r_client s') = d_tx_frame (r_client s) \<and>
     d_state (r_client s') = d_state (r_client s) \<and> d_room (r_client s') = d_room (r_client s) \<and>
     d_received (r_client s') = a # d_received (r_client s) \<and> d_frames (r_client s') = (d_frames (r_client s))(a \<mapsto> f)"
proof -
  have "r_client s' = (r_client s)\<lparr>d_rx_frame := 0, d_frames := (d_frames (r_client s))(a \<mapsto> f), d_received := a # d_received (r_client s),
      d_signals := d_signals (r_client s) + 1\<rparr>"
    using assms(4,6) by simp
  moreover have "buffers_ok s'" using assms(2,6) by (simp add: buffers_ok_def rtc_received_frame_def store_frame_def)
  ultimately show ?thesis using frames_ok_deliver_rx [OF assms(1,3,4,5)] by simp
qed

end
