(* ===== verification/Dmx_Rtuart_Steps.thy ===== *)
theory Dmx_Rtuart_Steps
  imports Dmx_Rtuart_Port
begin

text \<open>
  The receiver, the timer and the main loop of the port on the buffered UART interface keep its invariant.
\<close>

section \<open>A break\<close>

lemma buffers_ok_upd [simp]:
  "buffers_ok (s\<lparr>r_client := p\<rparr>) = buffers_ok s" "buffers_ok (rtc_next_state st s) = buffers_ok s"
  "buffers_ok (rtc_received_frame a s) = buffers_ok s" "buffers_ok (store_frame a f s) = buffers_ok s"
  "buffers_ok (rtc_stop_rdm_timer s) = buffers_ok s" "buffers_ok (rtc_start_rdm_timer t s) = buffers_ok s"
  "buffers_ok (s\<lparr>r_rx_buffer := x\<rparr>) = buffers_ok s"
  by (simp_all add: buffers_ok_def rtc_next_state_def rtc_received_frame_def store_frame_def rtc_stop_rdm_timer_def
      rtc_start_rdm_timer_def Let_def)

lemma attached_upd [simp]:
  "attached off n (rtc_next_state st s) = attached off n s" "attached off n (rtc_stop_rdm_timer s) = attached off n s"
  "attached off n (s\<lparr>r_rx_buffer := x\<rparr>) = attached off n s"
  by (simp_all add: attached_def)

lemma deref_stored:
  assumes "a \<noteq> 0"
  shows "deref a (store_frame a f s) \<noteq> None"
  using assms by (simp add: deref_def)

context dmx_client
begin

lemma flush_rx_ok:
  assumes "ok s" and "frames_ok (r_client s)" and "buffers_ok s" and "d_rx_frame (r_client s) = 0 \<or> attached 0 n s"
  shows "\<exists>s'. rtc_flush_rx ops s = Some s' \<and> ok s' \<and> frames_ok (r_client s') \<and> buffers_ok s' \<and> d_rx_frame (r_client s') = 0 \<and>
     d_tx_frame (r_client s') = d_tx_frame (r_client s) \<and>
     (d_rx_frame (r_client s) \<noteq> 0 \<longrightarrow> (\<exists>b f. get_buffer RX_BUFFER s = Some b \<and> deref (d_rx_frame (r_client s)) s = Some f \<and>
        d_received (r_client s') = d_rx_frame (r_client s) # d_received (r_client s) \<and>
        d_frames (r_client s') (d_rx_frame (r_client s)) = Some (f\<lparr>f_payload_size := word_of_int (int (rb_transfered b) - 1)\<rparr>)))"
proof (cases "d_rx_frame (r_client s) = 0")
  case True
  then show ?thesis using assms by (simp add: rtc_flush_rx_def)
next
  case False
  obtain r s1 where s1: "rtuart_rx_stop ops RX_BUFFER s = Some (r, s1)" "ok s1" "uart_kept (s\<lparr>r_rx_buffer := 0\<rparr>) s1"
    using rx_stop [OF assms(1)] by blast
  note k = kept_parts [OF s1(3)]
  let ?a = "d_rx_frame (r_client s1)"
  have p1: "frames_ok (r_client s1)" "buffers_ok s1" "attached 0 n s1" "?a \<noteq> 0"
    using k False assms by simp_all
  obtain b f where f: "get_buffer RX_BUFFER s1 = Some b" "frame_wf f" "deref ?a s1 = Some f" and c: "dmx512_rtuart_complete_rxframe s1 = Some (?a,
       store_frame ?a (f\<lparr>f_payload_size := word_of_int (int (rb_transfered b) - 1)\<rparr>) (upd (\<lambda>p. p\<lparr>d_rx_frame := 0\<rparr>) s1))"
    using complete_rxframe_ok [OF p1(3,1)] by blast
  define g where "g = f\<lparr>f_payload_size := word_of_int (int (rb_transfered b) - 1)\<rparr>"
  define s2 where "s2 = store_frame ?a g (upd (\<lambda>p. p\<lparr>d_rx_frame := 0\<rparr>) s1)"
  obtain h where h: "deref ?a s2 = Some h" using deref_stored [OF p1(4)] by (auto simp: s2_def)
  define s3 where "s3 = (if f_startcode h = 0 then upd (\<lambda>p. p\<lparr>d_lock := slot_count_lock__received_frame (d_lock p) h\<rparr>) s2 else s2)"
  have "rtc_flush_rx ops s = Some (rtc_received_frame ?a s3)"
    using False s1(1) c h by (simp add: rtc_flush_rx_def s2_def g_def s3_def)
  moreover have "frame_wf g" using f(2) by (simp add: g_def frame_wf_def)
  then have fin: "frames_ok (r_client (rtc_received_frame ?a s2))" "d_rx_frame (r_client (rtc_received_frame ?a s2)) = 0"
      "d_tx_frame (r_client (rtc_received_frame ?a s2)) = d_tx_frame (r_client s)" "buffers_ok s2"
    using delivered_ok [OF p1(1,2) refl p1(4), of g "rtc_received_frame ?a s2"] k(4) p1(2) by (simp_all add: s2_def)
  have sf: "same_frames (r_client (rtc_received_frame ?a s2)) (r_client (rtc_received_frame ?a s3))"
    using p1(4) by (simp add: s3_def same_frames_def)
  have "frames_ok (r_client (rtc_received_frame ?a s3))" "d_rx_frame (r_client (rtc_received_frame ?a s3)) = 0"
      "d_tx_frame (r_client (rtc_received_frame ?a s3)) = d_tx_frame (r_client s)"
    using fin(1-3) same_frames_ok [OF sf] sf by (simp_all add: same_frames_def)
  moreover have "ok (rtc_received_frame ?a s3)" "buffers_ok (rtc_received_frame ?a s3)"
    using s1(2) fin(4) by (simp_all add: ok_steps s3_def s2_def ok_client)
  moreover have "d_received (r_client (rtc_received_frame ?a s3)) = ?a # d_received (r_client s)"
      "d_frames (r_client (rtc_received_frame ?a s3)) ?a = Some g"
    using p1(4) k(4) by (simp_all add: s3_def s2_def)
  moreover have "?a = d_rx_frame (r_client s)" "get_buffer RX_BUFFER s = Some b" "deref ?a s = Some f"
    using k(4,5) f uart_kept_sel(4) [OF s1(3), of RX_BUFFER] by (simp_all add: deref_cong [of "s\<lparr>r_rx_buffer := 0\<rparr>" _ s])
  ultimately show ?thesis unfolding g_def by auto
qed

lemma start_frame_reception:
  assumes "ok s" and "frames_ok (r_client s)" and "buffers_ok s" and "d_rx_frame (r_client s) = 0"
    and "st = RTPORT_EXPECT_STARTCODE \<and> d_tx_frame (r_client s) = 0 \<or> st = RTPORT_RECV_RDM_REPLY_DATA \<and> d_tx_frame (r_client s) \<noteq> 0"
  shows "\<exists>s'. dmx512_rtuart_start_receive_data ops 0 True (rtc_next_state st s) = Some s' \<and> ok s' \<and> rtc_inv s'"
proof -
  obtain s' where s': "dmx512_rtuart_start_receive_data ops 0 True (rtc_next_state st s) = Some s'" "ok s'" "frames_ok (r_client s')" "buffers_ok s'"
      "d_state (r_client s') = st" "d_tx_frame (r_client s') = d_tx_frame (r_client s)"
      "d_rx_frame (r_client s') = 0 \<or> attached 0 0 s'"
    using start_receive [of "rtc_next_state st s" 0 True] assms(1-4) by (auto simp: ok_steps split: if_splits)
  then have "d_rx_frame (r_client s') = 0 \<or> attached 0 513 s'" using attached_mono [of 0 0 s' 513] by blast
  then show ?thesis using s' assms(5) by (auto simp: rtc_inv_def)
qed

lemma received_break_ok:
  assumes "ok s" and "rtc_inv s"
  shows "\<exists>s'. rtc_received_break ops s = Some s' \<and> ok s' \<and> rtc_inv s'"
proof -
  have p: "frames_ok (r_client s)" "buffers_ok s" "state_ok (d_state (r_client s)) s" using assms(2) by (simp_all add: rtc_inv_def)
  note start = start_frame_reception [OF assms(1) p(1,2)]
  show ?thesis
  proof (cases "d_state (r_client s)")
    case RTPORT_RECEIVE_DMXDATA
    then obtain s1 where s1: "rtc_flush_rx ops s = Some s1" "ok s1" "frames_ok (r_client s1)" "buffers_ok s1" "d_rx_frame (r_client s1) = 0"
        "d_tx_frame (r_client s1) = 0"
      using flush_rx_ok [OF assms(1) p(1,2), of 513] p(3) by auto
    then show ?thesis using RTPORT_RECEIVE_DMXDATA start_frame_reception [OF s1(2-5)] by (simp add: rtc_received_break_def)
  next
    case RTPORT_RECV_RDMDISC_REPLY
    then show ?thesis using assms p by (simp add: rtc_received_break_def ok_steps rtc_inv_def)
  qed (use assms p start in \<open>simp_all add: rtc_received_break_def\<close>)
qed

lemma rx_err_ok: "ok s \<Longrightarrow> rtc_inv s \<Longrightarrow> \<exists>s'. dmx512_rtuart_rx_err ops m s = Some s' \<and> ok s' \<and> rtc_inv s'"
  using received_break_ok by (simp add: dmx512_rtuart_rx_err_def)

lemma rx_char_ok:
  assumes "ok s" and "rtc_inv s"
  shows "\<exists>s'. dmx512_rtuart_rx_char c s = Some s' \<and> ok s' \<and> rtc_inv s'"
proof (cases "d_state (r_client s) = RTPORT_IDLE_AFTER_DMXDATA00")
  case True
  let ?s = "rtc_next_state RTPORT_IDLE (if sl_matching_slot_count (d_lock (r_client s)) < 512
      then upd (\<lambda>p. p\<lparr>d_lock := slot_count_lock__lost_lock (d_lock p)\<rparr>) s else s)"
  have sf: "same_frames (r_client s) (r_client ?s)" by (simp add: same_frames_def)
  have "state_ok RTPORT_IDLE s" using assms(2) True by (simp add: rtc_inv_def)
  then have "rtc_inv ?s"
    using assms(2) same_frames_ok [OF sf] same_frames_state [OF sf] by (simp add: rtc_inv_def)
  then show ?thesis using True assms(1) by (simp add: dmx512_rtuart_rx_char_def ok_steps ok_client)
qed (use assms in \<open>simp add: dmx512_rtuart_rx_char_def\<close>)

section \<open>The end of a buffer\<close>

lemma rx_end_dmx_ok:
  assumes "ok s" and "rtc_inv s" and "d_state (r_client s) = RTPORT_RECEIVE_DMXDATA" and "d_rx_frame (r_client s) \<noteq> 0"
  shows "\<exists>s'. rtc_rx_end_dmx s = Some s' \<and> ok s' \<and> rtc_inv s'"
proof -
  let ?a = "d_rx_frame (r_client s)"
  have p: "frames_ok (r_client s)" "buffers_ok s" "attached 0 513 s" "d_tx_frame (r_client s) = 0" using assms by (simp_all add: rtc_inv_def)
  obtain f where f: "deref ?a s = Some f" using attached_deref [OF p(3,1)] by auto
  define st where "st = (if f_startcode f = 0 then RTPORT_IDLE_AFTER_DMXDATA00 else RTPORT_IDLE)"
  let ?s = "rtc_next_state st s"
  obtain b g where g: "get_buffer RX_BUFFER ?s = Some b" "frame_wf g" "dmx512_rtuart_complete_rxframe ?s = Some (?a,
       store_frame ?a (g\<lparr>f_payload_size := word_of_int (int (rb_transfered b) - 1)\<rparr>) (upd (\<lambda>p. p\<lparr>d_rx_frame := 0\<rparr>) ?s))"
    using complete_rxframe_ok [of 513 ?s] p(1,3) by auto
  define s' where "s' = rtc_received_frame ?a (store_frame ?a (g\<lparr>f_payload_size := word_of_int (int (rb_transfered b) - 1)\<rparr>) (upd (\<lambda>p. p\<lparr>d_rx_frame := 0\<rparr>) ?s))"
  have "frame_wf (g\<lparr>f_payload_size := word_of_int (int (rb_transfered b) - 1)\<rparr>)" using g(2) by (simp add: frame_wf_def)
  then have "frames_ok (r_client s')" "buffers_ok s'" "d_rx_frame (r_client s') = 0" "d_tx_frame (r_client s') = 0" "d_state (r_client s') = st"
    using delivered_ok [of ?s ?a _ s'] p assms(4) by (simp_all add: s'_def)
  moreover have "rtc_rx_end_dmx s = Some s'" using f g(3) by (simp add: rtc_rx_end_dmx_def st_def s'_def)
  moreover have "ok s'" using assms(1) by (simp add: s'_def ok_steps ok_client)
  ultimately show ?thesis by (auto simp: rtc_inv_def st_def)
qed

text \<open>Releasing the frame that was sent does not touch the one received into.\<close>

lemma release_tx_attached:
  assumes "frames_ok (r_client s)" and "attached off n s" and "a = d_tx_frame (r_client s)" and "a \<noteq> 0"
  shows "attached off n (upd (\<lambda>p. p\<lparr>d_tx_frame := 0\<rparr>) (rtc_release a s))"
proof -
  have "\<not> (\<exists>off. d_rx_data (r_client s) = Some (a, off))" using assms(1,3) by (auto simp: frames_ok_def)
  then show ?thesis using assms(2) by (simp add: attached_def get_buffer_release)
qed

lemma rx_end_rdm_ok:
  assumes "ok s" and "rtc_inv s" and "d_state (r_client s) = RTPORT_RECV_RDM_REPLY_DATA" and "d_rx_frame (r_client s) \<noteq> 0"
  shows "\<exists>s'. rtc_rx_end_rdm s = Some s' \<and> ok s' \<and> rtc_inv s'"
proof -
  let ?a = "d_tx_frame (r_client s)" and ?r = "d_rx_frame (r_client s)"
  have p: "frames_ok (r_client s)" "buffers_ok s" "attached 0 513 s" "?a \<noteq> 0" using assms by (simp_all add: rtc_inv_def)
  define s1 where "s1 = upd (\<lambda>p. p\<lparr>d_tx_frame := 0\<rparr>) (rtc_release ?a s)"
  have c1: "r_client s1 = (r_client s)\<lparr>d_tx_frame := 0, d_frames := (d_frames (r_client s))(?a := None), d_room := d_room (r_client s) + 1\<rparr>"
    by (simp add: s1_def)
  have p1: "frames_ok (r_client s1)" "d_rx_frame (r_client s1) = ?r" "d_tx_frame (r_client s1) = 0"
    using frames_ok_release_tx [OF p(1) refl p(4)] unfolding c1 by simp_all
  have b1: "buffers_ok s1" "attached 0 513 s1"
    using p(2) release_tx_attached [OF p(1,3) refl p(4)] by (simp_all add: s1_def)
  have put: "rtc_put_frame ?a s = Some (rtc_release ?a s)"
    using held_frame [OF p(1) held_tx [OF p(4)]] p(4) by (auto simp: rtc_put_frame_def)
  obtain b g where g: "get_buffer RX_BUFFER s1 = Some b" "frame_wf g" "dmx512_rtuart_complete_rxframe s1 = Some (?r,
       store_frame ?r (g\<lparr>f_payload_size := word_of_int (int (rb_transfered b) - 1)\<rparr>) (upd (\<lambda>p. p\<lparr>d_rx_frame := 0\<rparr>) s1))"
    using complete_rxframe_ok [OF b1(2) p1(1)] p1(2) by auto
  define s2 where "s2 = rtc_received_frame ?r (store_frame ?r (g\<lparr>f_payload_size := word_of_int (int (rb_transfered b) - 1)\<rparr>) (upd (\<lambda>p. p\<lparr>d_rx_frame := 0\<rparr>) s1))"
  have "frame_wf (g\<lparr>f_payload_size := word_of_int (int (rb_transfered b) - 1)\<rparr>)" using g(2) by (simp add: frame_wf_def)
  then have "frames_ok (r_client s2)" "buffers_ok s2" "d_rx_frame (r_client s2) = 0" "d_tx_frame (r_client s2) = 0"
    using delivered_ok [OF p1(1) b1(1) p1(2) assms(4), of _ s2] p1(3) by (simp_all add: s2_def)
  moreover have "rtc_rx_end_rdm s = Some (rtc_next_state RTPORT_IDLE s2)"
    using p(4) put g(3) by (simp add: rtc_rx_end_rdm_def s2_def s1_def)
  moreover have "ok s2" using assms(1) by (simp add: s2_def s1_def ok_steps ok_client ok_release)
  ultimately show ?thesis by (simp add: rtc_inv_def ok_steps)
qed

section \<open>Answers\<close>

lemma attached_awaits:
  assumes "frames_ok (r_client s)" and "attached RDM_POS_DISC_UNIQUE_BANCH_DATA 254 s" and "d_tx_frame (r_client s) \<noteq> 0"
  shows "\<exists>f w. awaits_reply (d_tx_frame (r_client s)) f (d_rx_frame (r_client s)) w s"
proof -
  let ?a = "d_tx_frame (r_client s)" and ?r = "d_rx_frame (r_client s)"
  have r: "?r \<noteq> 0" "?r \<noteq> ?a" using assms(1,2) by (auto simp: attached_def frames_ok_def)
  obtain f where f: "d_frames (r_client s) ?a = Some f" "frame_wf f" using held_frame [OF assms(1) held_tx [OF assms(3)]] by blast
  obtain g where g: "d_frames (r_client s) ?r = Some g" "frame_wf g" using held_frame [OF assms(1) held_rx [OF r(1)]] by blast
  obtain b d where b: "get_buffer RX_BUFFER s = Some b" "rb_data b = Some d" "length d = 255" "rb_transfered b \<le> 254"
      "d_rx_data (r_client s) = Some (?r, RDM_POS_DISC_UNIQUE_BANCH_DATA)"
    using assms(2) by (auto simp: attached_def RDM_POS_DISC_UNIQUE_BANCH_DATA_def)
  then have "awaits_reply ?a f ?r (take (rb_transfered b) d) s"
    using assms(3) r f g by (simp add: awaits_reply_def min_absorb2)
  then show ?thesis by blast
qed

lemma discovery_answered:
  assumes "awaits_reply a f r w s"
  shows "\<exists>src ack. 6 \<le> length src \<and> dmx512_rtuart_handle_discovery_reply s = Some (after_reply a r (answer src ack f) s)"
proof -
  have p: "d_tx_frame (r_client s) = a" "a \<noteq> 0" "d_frames (r_client s) a = Some f" "frame_wf f" "d_rx_frame (r_client s) = r"
      "r \<noteq> a" "r \<noteq> 0" "d_frames (r_client s) r \<noteq> None" "\<forall>off. d_rx_data (r_client s) \<noteq> Some (a, off)"
    using assms by (auto simp: awaits_reply_def Let_def)
  obtain b where b: "get_buffer RX_BUFFER s = Some b" "rb_transfered b = length w" "length w \<le> 254"
    using assms by (auto simp: awaits_reply_def Let_def)
  obtain g where g: "deref r s = Some g" "length (f_data g) = 513" using awaits_reply_frame [OF assms] by blast
  have reply: "6 \<le> length src \<Longrightarrow> dmx512_rtuart_discovery_reply src ack s = Some (after_reply a r (answer src ack f) s)" for src ack
    using discovery_reply_answers [OF p(1-4,5,6) _ p(9), of src ack] p(7,8) by (simp add: after_reply_def)
  have sl: "\<exists>x. arr_slice (f_data g) RDM_POS_DISC_UNIQUE_BANCH_DATA (length w) = Some x"
    using g(2) b(3) by (simp add: arr_slice_def RDM_POS_DISC_UNIQUE_BANCH_DATA_def)
  consider "d_state (r_client s) = RTPORT_RECV_RDMDISC_REPLY_COLLISION" | "d_state (r_client s) \<noteq> RTPORT_RECV_RDMDISC_REPLY_COLLISION" "w = []"
    | "d_state (r_client s) \<noteq> RTPORT_RECV_RDMDISC_REPLY_COLLISION" "w \<noteq> []" by blast
  then show ?thesis
  proof cases
    case 1
    then have "dmx512_rtuart_handle_discovery_reply s = dmx512_rtuart_discovery_reply (replicate 6 0xFF) RESPONSE_TYPE_ACK s"
      using b g(1) p(5) sl by (auto simp: dmx512_rtuart_handle_discovery_reply_def dmx512_rtuart_discovery_reply_collision_def)
    then show ?thesis using reply [of "replicate 6 0xFF"] by force
  next
    case 2
    then have "dmx512_rtuart_handle_discovery_reply s = dmx512_rtuart_discovery_reply (replicate 6 0) RESPONSE_TYPE_NOREPLY s"
      using b by (simp add: dmx512_rtuart_handle_discovery_reply_def dmx512_rtuart_discovery_reply_timeout_def)
    then show ?thesis using reply [of "replicate 6 0"] by force
  next
    case 3
    obtain res where res: "decode_discovery_reply (f_data g) (length w) = Some res" "\<forall>tmp. res = Some tmp \<longrightarrow> 6 \<le> length tmp"
      using decode_total [of "length w" "f_data g"] b(3) g(2) by (fastforce simp: RDM_POS_DISC_UNIQUE_BANCH_DATA_def)
    show ?thesis
      using handle_reply [OF assms 3 g(1) res(1)] res(2) by (cases res) force+
  qed
qed

lemma after_reply_inv:
  assumes "rtc_inv s" and "awaits_reply a f r w s" and "6 \<le> length src"
  shows "rtc_inv (rtc_next_state RTPORT_IDLE (after_reply a r (answer src ack f) s))"
proof -
  have p: "d_tx_frame (r_client s) = a" "a \<noteq> 0" "frame_wf f" "d_rx_frame (r_client s) = r" "r \<noteq> 0"
    using assms(2) by (auto simp: awaits_reply_def Let_def)
  have f: "frames_ok (r_client s)" "buffers_ok s" using assms(1) by (simp_all add: rtc_inv_def)
  have w: "frame_wf (answer src ack f)" using answer_fields [OF p(3) assms(3)] by blast
  have "frames_ok (r_client (after_reply a r (answer src ack f) s))"
    using frames_ok_answer [OF f(1) p(1,2,4,5) w, where m = "d_room (r_client s) + 1" and n = "d_signals (r_client s) + 1"]
      p(2) by (simp add: after_reply_def)
  moreover have "buffers_ok (after_reply a r (answer src ack f) s)" using f(2) by (simp add: after_reply_def)
  ultimately show ?thesis by (simp add: rtc_inv_def after_reply_client p(2))
qed

lemma discovery_ok:
  assumes "ok s" and "rtc_inv s" and "d_state (r_client s) = RTPORT_RECV_RDMDISC_REPLY \<or> d_state (r_client s) = RTPORT_RECV_RDMDISC_REPLY_COLLISION"
  shows "\<exists>s'. map_option (rtc_next_state RTPORT_IDLE) (dmx512_rtuart_handle_discovery_reply s) = Some s' \<and> ok s' \<and> rtc_inv s'"
proof -
  have "frames_ok (r_client s)" "attached RDM_POS_DISC_UNIQUE_BANCH_DATA 254 s" "d_tx_frame (r_client s) \<noteq> 0"
    using assms by (auto simp: rtc_inv_def)
  then obtain f w where aw: "awaits_reply (d_tx_frame (r_client s)) f (d_rx_frame (r_client s)) w s" using attached_awaits by blast
  have "ok (rtc_next_state RTPORT_IDLE (after_reply a r f s))" for a r f
    using assms(1) by (simp add: after_reply_def ok_steps ok_client ok_release)
  then show ?thesis using discovery_answered [OF aw] after_reply_inv [OF assms(2) aw] by fastforce
qed

lemma timer_inv: "rtc_inv s \<Longrightarrow> rtc_inv (rtc_stop_rdm_timer s)"
  using same_frames_ok [of "r_client s" "r_client (rtc_stop_rdm_timer s)"] same_frames_state [of s "rtc_stop_rdm_timer s"]
  by (simp add: rtc_inv_def same_frames_def)

lemma rx_end_ok:
  assumes "ok s" and "rtc_inv s"
  shows "\<exists>s'. dmx512_rtuart_rx_end a s = Some s' \<and> ok s' \<and> rtc_inv s'"
proof (cases "d_rx_frame (r_client s) = 0")
  case True
  then show ?thesis using assms by (simp add: dmx512_rtuart_rx_end_def)
next
  case False
  have "ok (rtc_stop_rdm_timer s)" using assms(1) by (simp add: ok_steps)
  note disc = discovery_ok [OF this timer_inv [OF assms(2)]]
  show ?thesis
    using False assms rx_end_dmx_ok [OF assms _ False] rx_end_rdm_ok [OF assms _ False] disc
    by (cases "d_state (r_client s)") (simp_all add: dmx512_rtuart_rx_end_def)
qed

end

section \<open>Octets and triggers\<close>

text \<open>A change of the receive buffer that keeps where its data are.\<close>

lemma rx_buffer_change:
  assumes "rtc_inv s" and "get_buffer RX_BUFFER s = Some b" and "rb_size b' = rb_size b"
    and "map_option length (rb_data b') = map_option length (rb_data b)" and "length (rb_trigger b') = 32"
    and "d_state (r_client s) \<in> {RTPORT_RECV_RDMDISC_REPLY, RTPORT_RECV_RDMDISC_REPLY_COLLISION} \<Longrightarrow> rb_transfered b' \<le> 254"
    and "rb_transfered b' \<le> 513"
  shows "rtc_inv (put_buffer RX_BUFFER b' s)"
proof -
  have r: "RX_BUFFER \<noteq> 0" "TX_BUFFER \<noteq> RX_BUFFER" by (simp_all add: buffer_addr_defs)
  have at: "attached off m s \<Longrightarrow> rb_transfered b' \<le> m' \<Longrightarrow> attached off m' (put_buffer RX_BUFFER b' s)" for off m m'
    using assms(2,3,4) r by (auto simp: attached_def)
  have "buffers_ok (put_buffer RX_BUFFER b' s)" using assms(1,5) r by (auto simp: rtc_inv_def buffers_ok_def)
  moreover have "state_ok (d_state (r_client s)) (put_buffer RX_BUFFER b' s)"
    using assms(1,6,7) at by (cases "d_state (r_client s)") (auto simp: rtc_inv_def)
  ultimately show ?thesis using assms(1) by (simp add: rtc_inv_def)
qed

definition same_rx :: "rtuart_buffer \<Rightarrow> rtuart_buffer \<Rightarrow> bool" where
  "same_rx b b' \<longleftrightarrow> rb_data b' = rb_data b \<and> rb_size b' = rb_size b \<and> rb_transfered b' = rb_transfered b \<and>
     length (rb_trigger b') = length (rb_trigger b)"

lemma take_length_same: "rb_data b = Some d \<Longrightarrow> 3 \<le> length d \<Longrightarrow> \<exists>b'. rtc_take_rdm_length b = Some b' \<and> same_rx b b'"
  by (simp add: rtc_take_rdm_length_def same_rx_def arr_get_def)

lemma rdm_trigger_same:
  "rb_data b = Some d \<Longrightarrow> 3 \<le> length d \<Longrightarrow> length (rb_trigger b) = 32 \<Longrightarrow> \<exists>b'. rtc_rdm_trigger b = Some b' \<and> same_rx b b'"
  using take_length_same [of b d] by (simp add: rtc_rdm_trigger_def same_rx_def arr_set_def)

lemma attached_limit: "attached off n s \<Longrightarrow> get_buffer RX_BUFFER s = Some b \<Longrightarrow> rb_transfered b \<le> n"
  by (auto simp: attached_def)

lemma same_rx_inv:
  assumes "rtc_inv s" and "d_rx_frame (r_client s) \<noteq> 0" and "get_buffer RX_BUFFER s = Some b" and "same_rx b b'"
  shows "rtc_inv (put_buffer RX_BUFFER b' s)"
proof -
  have "length (rb_trigger b) = 32" using assms(1,3) by (auto simp: rtc_inv_def buffers_ok_def)
  moreover have "rb_transfered b \<le> 254" if "d_state (r_client s) \<in> {RTPORT_RECV_RDMDISC_REPLY, RTPORT_RECV_RDMDISC_REPLY_COLLISION}"
    using assms(1,3) that attached_limit by (auto simp: rtc_inv_def)
  moreover have "rb_transfered b \<le> 513"
    using assms(1-3) attached_limit by (cases "d_state (r_client s)") (fastforce simp: rtc_inv_def)+
  ultimately show ?thesis using assms by (intro rx_buffer_change [OF assms(1,3)]) (simp_all add: same_rx_def)
qed

lemma rx_data_there:
  assumes "rtc_inv s" and "d_rx_frame (r_client s) \<noteq> 0"
    and "d_state (r_client s) \<in> {RTPORT_EXPECT_STARTCODE, RTPORT_RECEIVE_DMXDATA, RTPORT_RECV_RDM_REPLY_DATA}"
  shows "\<exists>b d. get_buffer RX_BUFFER s = Some b \<and> rb_data b = Some d \<and> length d = 513 \<and> length (rb_trigger b) = 32"
proof -
  have "attached 0 513 s" "buffers_ok s" using assms by (auto simp: rtc_inv_def)
  then show ?thesis by (auto simp: attached_def buffers_ok_def)
qed

text \<open>From the start code on the port receives data.\<close>

lemma receives_data:
  assumes "rtc_inv s" and "d_state (r_client s) = RTPORT_EXPECT_STARTCODE"
  shows "rtc_inv (rtc_next_state RTPORT_RECEIVE_DMXDATA s)"
  using assms by (simp add: rtc_inv_def)

lemma arr_get_first: "length d = 513 \<Longrightarrow> arr_get d 0 = Some (d ! 0)"
  by (simp add: arr_get_def flip: length_greater_0_conv)

lemma startcode_expected:
  assumes "rtc_inv s" and "d_state (r_client s) = RTPORT_EXPECT_STARTCODE" and "d_rx_frame (r_client s) \<noteq> 0"
  shows "\<exists>b b'. get_buffer RX_BUFFER s = Some b \<and> same_rx b b' \<and>
     rtc_startcode_trigger RX_BUFFER s = Some (rtc_next_state RTPORT_RECEIVE_DMXDATA (put_buffer RX_BUFFER b' s))"
proof -
  obtain b d where b: "get_buffer RX_BUFFER s = Some b" "rb_data b = Some d" "length d = 513" "length (rb_trigger b) = 32"
    using rx_data_there [OF assms(1,3)] assms(2) by auto
  have sd: "same_rx b b" "same_rx b (b\<lparr>rb_validcount := n\<rparr>)" for n by (simp_all add: same_rx_def)
  obtain b1 where b1: "rtc_rdm_trigger b = Some b1" "same_rx b b1" using rdm_trigger_same [OF b(2) _ b(4)] b(3) by auto
  obtain b2 where b2: "(if d ! 0 = SC_RDM then rtc_rdm_trigger b
      else if d ! 0 = 0 \<and> sl_locked (d_lock (r_client s)) then Some (b\<lparr>rb_validcount := unat (sl_matching_slot_count (d_lock (r_client s))) + 1\<rparr>)
      else Some b) = Some b2" "same_rx b b2"
    using b1 sd by (cases "d ! 0 = SC_RDM"; cases "d ! 0 = 0 \<and> sl_locked (d_lock (r_client s))") auto
  then show ?thesis using assms(2) b(1,2) arr_get_first [OF b(3)] by (intro exI [of _ b] exI [of _ b2]) (simp add: rtc_startcode_trigger_def)
qed

context dmx_client
begin

lemma startcode_trigger_ok:
  assumes "ok s" and "rtc_inv s" and "d_rx_frame (r_client s) \<noteq> 0"
  shows "\<exists>s'. rtc_startcode_trigger RX_BUFFER s = Some s' \<and> ok s' \<and> rtc_inv s' \<and> d_rx_frame (r_client s') \<noteq> 0"
proof -
  have oks: "ok (put_buffer RX_BUFFER x s)" for x using assms(1) by (simp add: ok_put_buffer)
  consider "d_state (r_client s) = RTPORT_EXPECT_STARTCODE" | "d_state (r_client s) = RTPORT_RECV_RDM_REPLY_DATA"
    | "d_state (r_client s) \<noteq> RTPORT_EXPECT_STARTCODE" "d_state (r_client s) \<noteq> RTPORT_RECV_RDM_REPLY_DATA" by blast
  then show ?thesis
  proof cases
    case 1
    obtain b b' where b: "get_buffer RX_BUFFER s = Some b" "same_rx b b'"
        "rtc_startcode_trigger RX_BUFFER s = Some (rtc_next_state RTPORT_RECEIVE_DMXDATA (put_buffer RX_BUFFER b' s))"
      using startcode_expected [OF assms(2) 1 assms(3)] by blast
    then show ?thesis
      using receives_data [OF same_rx_inv [OF assms(2,3) b(1,2)]] 1 oks assms(3) by (simp add: ok_steps)
  next
    case 2
    obtain b d where b: "get_buffer RX_BUFFER s = Some b" "rb_data b = Some d" "length d = 513" "length (rb_trigger b) = 32"
      using rx_data_there [OF assms(2,3)] 2 by auto
    obtain b1 where b1: "rtc_rdm_trigger b = Some b1" "same_rx b b1" using rdm_trigger_same [OF b(2) _ b(4)] b(3) by auto
    then show ?thesis
      using 2 b(1,2) arr_get_first [OF b(3)] same_rx_inv [OF assms(2,3) b(1) b1(2)] oks assms by (simp add: rtc_startcode_trigger_def)
  next
    case 3
    then show ?thesis using assms by (cases "d_state (r_client s)") (simp_all add: rtc_startcode_trigger_def)
  qed
qed

lemma length_trigger_ok:
  assumes "ok s" and "rtc_inv s" and "d_rx_frame (r_client s) \<noteq> 0"
  shows "\<exists>s'. rtc_length_trigger RX_BUFFER s = Some s' \<and> ok s' \<and> rtc_inv s'"
proof (cases "d_state (r_client s) = RTPORT_RECEIVE_DMXDATA \<or> d_state (r_client s) = RTPORT_RECV_RDM_REPLY_DATA")
  case True
  obtain b d where b: "get_buffer RX_BUFFER s = Some b" "rb_data b = Some d" "length d = 513"
    using rx_data_there [OF assms(2,3)] True by auto
  obtain b1 where b1: "rtc_take_rdm_length b = Some b1" "same_rx b b1" using take_length_same [OF b(2)] b(3) by auto
  show ?thesis
    using True b(1) b1 same_rx_inv [OF assms(2,3) b(1) b1(2)] assms by (simp add: rtc_length_trigger_def ok_put_buffer)
qed (use assms in \<open>simp add: rtc_length_trigger_def\<close>)

lemma rx_trigger_ok:
  assumes "ok s" and "rtc_inv s" and "d_rx_frame (r_client s) \<noteq> 0"
  shows "\<exists>s'. dmx512_rtuart_rx_trigger RX_BUFFER m s = Some s' \<and> ok s' \<and> rtc_inv s'"
proof -
  obtain s1 where "(if m AND 1 \<noteq> 0 then rtc_startcode_trigger RX_BUFFER s else Some s) = Some s1" "ok s1" "rtc_inv s1" "d_rx_frame (r_client s1) \<noteq> 0"
    using startcode_trigger_ok [OF assms] assms by (cases "m AND 1 = 0") auto
  then show ?thesis using length_trigger_ok [of s1] by (simp add: dmx512_rtuart_rx_trigger_def)
qed

end

end
