(* ===== verification/Dmx_Rtuart_Run.thy ===== *)
theory Dmx_Rtuart_Run
  imports Dmx_Rtuart_Steps
begin

text \<open>
  Timeouts, sending, the main loop and creation of the port on the buffered UART interface, and its runs: sequences of
  events from the driver, the timer and the card.
\<close>

section \<open>Timeouts\<close>

lemma state_ok_mono:
  assumes "state_ok st s" and "d_tx_frame (r_client s') = d_tx_frame (r_client s)" and "d_rx_frame (r_client s') = d_rx_frame (r_client s)"
    and "\<And>off n. attached off n s \<Longrightarrow> attached off n s'"
  shows "state_ok st s'"
  using assms by (cases st) auto

lemma frames_ok_timeout:
  assumes "frames_ok p" and "d_tx_frame p = a" and "a \<noteq> 0" and "d_rx_frame p = r" and "r \<noteq> 0"
  shows "frames_ok (p\<lparr>d_tx_frame := 0, d_rx_frame := 0, d_frames := (d_frames p)(r := None), d_room := m,
     d_received := a # d_received p, d_signals := n\<rparr>)"
proof -
  obtain f where f: "d_frames p a = Some f" "frame_wf f" using held_frame [OF assms(1) held_tx] assms(2,3) by auto
  have "(d_frames p)(a \<mapsto> f) = d_frames p" using f(1) by auto
  then show ?thesis using frames_ok_answer [OF assms f(2), of n m] by simp
qed

context dmx_client
begin

lemma reply_timeout_ok:
  assumes "ok s" and "rtc_inv s" and "d_state (r_client s) = RTPORT_EXPECT_RDM_REPLY_BREAK \<or> d_state (r_client s) = RTPORT_RECV_RDM_REPLY_DATA"
  shows "\<exists>s'. map_option (rtc_next_state RTPORT_IDLE) (dmx512_rtuart_handle_rdm_reply_timeout s) = Some s' \<and> ok s' \<and> rtc_inv s'"
proof -
  let ?a = "d_tx_frame (r_client s)" and ?r = "d_rx_frame (r_client s)"
  define s1 where "s1 = upd (\<lambda>p. p\<lparr>d_tx_frame := 0, d_rx_frame := 0\<rparr>) s"
  have p: "frames_ok (r_client s)" "buffers_ok s" "?a \<noteq> 0" using assms by (auto simp: rtc_inv_def)
  have ok1: "ok s1" "buffers_ok s1" using assms(1) p(2) by (simp_all add: s1_def ok_client)
  define s2 where "s2 = (if ?r = 0 then s1 else rtc_release ?r s1)"
  have "rtc_put_frame ?r s1 = Some s2"
    using held_frame [OF p(1) held_rx] by (cases "?r = 0") (auto simp: rtc_put_frame_def s2_def s1_def)
  then have "dmx512_rtuart_handle_rdm_reply_timeout s = Some (rtc_received_frame ?a s2)"
    by (simp add: dmx512_rtuart_handle_rdm_reply_timeout_def s1_def Let_def)
  moreover have "frames_ok (r_client (rtc_received_frame ?a s2))"
  proof (cases "?r = 0")
    case True
    let ?p = "(r_client s)\<lparr>d_tx_frame := 0, d_received := ?a # d_received (r_client s), d_signals := d_signals (r_client s) + 1\<rparr>"
    have "same_frames ?p (r_client (rtc_received_frame ?a s2))" using True p(3) by (simp add: same_frames_def s2_def s1_def)
    then show ?thesis using frames_ok_hand_back [OF p(1) refl p(3) True, of "d_signals (r_client s) + 1"] same_frames_ok by blast
  next
    case False
    then show ?thesis
      using p(3) frames_ok_timeout [OF p(1) refl p(3) refl False, where m = "d_room (r_client s) + 1" and n = "d_signals (r_client s) + 1"]
      by (simp add: s2_def s1_def)
  qed
  moreover have "ok s2" "buffers_ok s2" "d_tx_frame (r_client s2) = 0" "d_rx_frame (r_client s2) = 0"
    using ok1 by (simp_all add: s2_def ok_release) (simp_all add: s1_def)
  ultimately show ?thesis using p(3) by (simp add: rtc_inv_def ok_steps)
qed

lemma handle_timeout_ok:
  assumes "ok s" and "rtc_inv s"
  shows "\<exists>s'. rtc_handle_rdm_timeout s = Some s' \<and> ok s' \<and> rtc_inv s'"
proof -
  have "ok (rtc_stop_rdm_timer s)" using assms(1) by (simp add: ok_steps)
  note t = this timer_inv [OF assms(2)]
  show ?thesis
    using assms discovery_ok [OF t] reply_timeout_ok [OF t] t by (auto simp: rtc_handle_rdm_timeout_def Let_def)
qed

lemma periodical_ok:
  assumes "ok s" and "rtc_inv s"
  shows "\<exists>s'. rtc_periodical s = Some s' \<and> ok s' \<and> rtc_inv s'"
proof -
  let ?s = "upd (\<lambda>p. p\<lparr>d_timer_call := False\<rparr>) s"
  have "rtc_inv ?s"
    using assms(2) same_frames_ok [of "r_client s" "r_client ?s"] same_frames_state [of s ?s] by (simp add: rtc_inv_def)
  then show ?thesis using handle_timeout_ok [of ?s] assms by (simp add: rtc_periodical_def ok_client)
qed

end

section \<open>The transmit buffer\<close>

text \<open>The port has a frame to send and is not receiving; \<open>as\<close> are the received frames, \<open>filled\<close>: the transmit buffer
  has been set.\<close>

definition sends :: "addr list \<Rightarrow> addr \<Rightarrow> bool \<Rightarrow> ('b, 'm) rtc \<Rightarrow> bool" where
  "sends as a filled s \<longleftrightarrow> frames_ok (r_client s) \<and> d_received (r_client s) = as \<and> buffers_ok s \<and> d_tx_frame (r_client s) = a \<and> a \<noteq> 0 \<and> d_rx_frame (r_client s) = 0 \<and>
     (filled \<longrightarrow> (\<exists>b. get_buffer TX_BUFFER s = Some b \<and> rb_validcount b = rb_size b))"

lemma sends_change:
  assumes "sends as a filled s" and "same_frames (r_client s) (r_client s')" and "\<forall>b. get_buffer b s' = get_buffer b s" and "r_tx_buffer s' = r_tx_buffer s"
  shows "sends as a filled s'"
  using assms same_frames_ok [OF assms(2)] buffers_ok_cong [of s' s] by (simp add: sends_def same_frames_def)

lemma sends_kept: "sends as a filled s \<Longrightarrow> uart_kept s s' \<Longrightarrow> sends as a filled s'"
  using sends_change [of as a filled s s'] uart_kept_sel [of s s'] by simp

lemma sends_frame:
  assumes "sends as a filled s"
  shows "\<exists>f. d_frames (r_client s) a = Some f \<and> frame_wf f \<and> deref a s = Some f"
proof -
  have p: "frames_ok (r_client s)" "d_tx_frame (r_client s) = a" "a \<noteq> 0" using assms by (simp_all add: sends_def)
  then obtain f where f: "d_frames (r_client s) a = Some f" "frame_wf f" using held_frame [OF p(1) held_tx] by auto
  moreover have "deref a s = d_frames (r_client s) a" using p by (intro deref_plain) (auto simp: frames_ok_def)
  ultimately show ?thesis by simp
qed

lemma sends_set_tx_buffer:
  assumes "sends as a filled s"
  shows "\<exists>s'. rtc_set_tx_buffer a f off n s = Some s' \<and> sends as a True s' \<and> r_client s' = (r_client s)\<lparr>d_tx_data := Some (a, off)\<rparr> \<and>
     (\<exists>B c. s' = s\<lparr>r_buffers := B, r_client := c\<rparr>)"
proof -
  obtain b where b: "get_buffer TX_BUFFER s = Some b" using assms by (auto simp: sends_def buffers_ok_def)
  define b' where "b' = b\<lparr>rb_data := Some (take n (drop off (f_data f))), rb_size := n, rb_validcount := n, rb_triggermask := 0\<rparr>"
  define s' where "s' = upd (\<lambda>p. p\<lparr>d_tx_data := Some (a, off)\<rparr>) (put_buffer TX_BUFFER b' s)"
  have t: "get_buffer TX_BUFFER s' = Some b'" "get_buffer RX_BUFFER s' = get_buffer RX_BUFFER s" "r_tx_buffer s' = r_tx_buffer s"
    by (simp_all add: s'_def buffer_addr_defs)
  have c: "r_client s' = (r_client s)\<lparr>d_tx_data := Some (a, off)\<rparr>" by (simp add: s'_def)
  have "frames_ok (r_client s')" using assms same_frames_ok [of "r_client s" "r_client s'"] c by (simp add: sends_def)
  then have "sends as a True s'" using assms t c by (auto simp: sends_def buffers_ok_def b'_def)
  moreover have "\<exists>B c. s' = s\<lparr>r_buffers := B, r_client := c\<rparr>" by (auto simp: s'_def put_buffer_def)
  ultimately show ?thesis using b c by (simp add: rtc_set_tx_buffer_def s'_def b'_def)
qed

lemma sends_store:
  assumes "sends as a filled s" and "frame_wf f"
  shows "sends as a filled (store_frame a f s)"
proof -
  obtain g where g: "d_frames (r_client s) a = Some g" using sends_frame [OF assms(1)] by blast
  have p: "frames_ok (r_client s)" using assms(1) by (simp add: sends_def)
  have "frames_ok ((r_client s)\<lparr>d_frames := (d_frames (r_client s))(a \<mapsto> f)\<rparr>)"
    using p g assms(2) by (intro frames_ok_same_held [OF p]) (auto simp: frames_ok_def split: if_splits)
  then show ?thesis using assms(1) by (simp add: sends_def)
qed


section \<open>Sending a frame\<close>

lemma sends_timer: "sends as a filled s \<Longrightarrow> sends as a filled (rtc_start_rdm_timer t s)"
  by (rule sends_change [of as a filled s]) (simp_all add: rtc_start_rdm_timer_def Let_def)

lemma sends_next_state: "sends as a filled s \<Longrightarrow> sends as a filled (rtc_next_state st s)"
  by (rule sends_change [of as a filled s]) (simp_all add: rtc_next_state_def)

lemma prepare_ok:
  assumes "sends as a filled s"
  shows "\<exists>f s'. rtc_prepare a s = Some (f, s') \<and> sends as a True s' \<and> (\<exists>B c. s' = s\<lparr>r_buffers := B, r_client := c\<rparr>)"
proof -
  obtain f where f: "frame_wf f" "deref a s = Some f" using sends_frame [OF assms] by blast
  obtain s1 B1 c1 where s1: "rtc_set_tx_buffer a f 0 (unat (f_payload_size f) + 1) s = Some s1" "sends as a True s1"
      "s1 = s\<lparr>r_buffers := B1, r_client := c1\<rparr>"
    using sends_set_tx_buffer [OF assms] by blast
  define octets where "octets = dmx512_rdm_build_rdmdiscovery_reply f"
  define g where "g = f\<lparr>f_flags := f_flags f OR DMX512_FLAG_NOBREAK, f_data := blit (f_data f) RDM_POS_DISC_UNIQUE_BANCH_DATA octets\<rparr>"
  have l: "length octets = 24" by (simp add: octets_def dmx512_rdm_build_rdmdiscovery_reply_def Let_def numeral_eq_Suc)
  have d: "arr_blit (f_data f) RDM_POS_DISC_UNIQUE_BANCH_DATA octets = Some (f_data g)" and g: "frame_wf g"
    using f(1) l by (simp_all add: arr_blit_def g_def RDM_POS_DISC_UNIQUE_BANCH_DATA_def frame_wf_def)
  obtain s2 B2 c2 where s2: "rtc_set_tx_buffer a g RDM_POS_DISC_UNIQUE_BANCH_DATA (length octets) (store_frame a g s1) = Some s2" "sends as a True s2"
      "s2 = (store_frame a g s1)\<lparr>r_buffers := B2, r_client := c2\<rparr>"
    using sends_set_tx_buffer [OF sends_store [OF s1(2) g]] by blast
  have t: "\<exists>B c. rtc_start_rdm_timer t s1 = s\<lparr>r_buffers := B, r_client := c\<rparr>" for t
    by (auto simp: rtc_start_rdm_timer_def Let_def s1(3))
  have u: "\<exists>B c. s2 = s\<lparr>r_buffers := B, r_client := c\<rparr>" "\<exists>B c. s1 = s\<lparr>r_buffers := B, r_client := c\<rparr>"
    using s2(3) s1(3) by (auto simp: store_frame_def)
  show ?thesis
    using f(2) s1(1,2) d s2(1,2) sends_timer [OF s1(2)] t u
    unfolding rtc_prepare_def octets_def [symmetric] g_def [symmetric]
    by (auto simp: Let_def octets_def [symmetric] g_def)
qed

context dmx_client
begin

lemma rs485_sends:
  assumes "ok s" and "sends as a filled s"
  shows "\<exists>s'. enable_rs485_transmitter ops en s = Some s' \<and> ok s' \<and> sends as a filled s' \<and> d_state (r_client s') = d_state (r_client s)"
  using rs485_parts [OF assms(1), of en] sends_change [OF assms(2)] by blast

lemma break_sends:
  assumes "ok s" and "sends as a filled s"
  shows "\<exists>s'. (if p then do { s \<leftarrow> rtuart_set_control ops RTUART_CONTROL_BREAK s; rtuart_clr_control ops RTUART_CONTROL_BREAK s }
     else Some s) = Some s' \<and> ok s' \<and> sends as a filled s' \<and> d_state (r_client s') = d_state (r_client s)"
proof -
  obtain s1 where s1: "rtuart_set_control ops RTUART_CONTROL_BREAK s = Some s1" "ok s1" "uart_kept s s1" using set_control [OF assms(1)] by blast
  obtain s2 where s2: "rtuart_clr_control ops RTUART_CONTROL_BREAK s1 = Some s2" "ok s2" "uart_kept s1 s2" using clr_control [OF s1(2)] by blast
  have "sends as a filled s2" using assms(2) s1(3) s2(3) by (blast intro: sends_kept)
  moreover have "d_state (r_client s2) = d_state (r_client s)" using uart_kept_sel(1) [OF s1(3)] uart_kept_sel(1) [OF s2(3)] by simp
  ultimately show ?thesis using assms s1(1) s2(1,2) by simp
qed

lemma tx_start_sends:
  assumes "ok s" and "sends as a True s"
  shows "\<exists>s'. rtuart_tx_start ops TX_BUFFER s = Some s' \<and> ok s' \<and> sends as a True s' \<and> d_state (r_client s') = d_state (r_client s)"
proof -
  obtain b where b: "get_buffer TX_BUFFER s = Some b" "rb_validcount b = rb_size b" "r_tx_buffer s = 0 \<or> r_tx_buffer s = TX_BUFFER"
    using assms(2) by (auto simp: sends_def buffers_ok_def)
  let ?s = "(put_buffer TX_BUFFER (b\<lparr>rb_transfered := 0\<rparr>) s)\<lparr>r_tx_buffer := TX_BUFFER\<rparr>"
  obtain s' where s': "rtuart_tx_start ops TX_BUFFER s = Some s'" "ok s'" "uart_kept ?s s'"
    using tx_start [OF assms(1) b(1) _ b(3)] b(2) by auto
  have "get_buffer TX_BUFFER ?s = Some (b\<lparr>rb_transfered := 0\<rparr>)" "get_buffer RX_BUFFER ?s = get_buffer RX_BUFFER s"
    by (simp_all add: buffer_addr_defs)
  then have "sends as a True ?s" using assms(2) b(2) by (auto simp: sends_def buffers_ok_def)
  then show ?thesis using s' sends_kept [OF _ s'(3)] uart_kept_sel(1) [OF s'(3)] by simp
qed

lemma start_frame_ok:
  assumes "ok s" and "frames_ok ((r_client s)\<lparr>d_tx_frame := a\<rparr>)" and "buffers_ok s" and "d_rx_frame (r_client s) = 0" and "a \<noteq> 0"
  shows "\<exists>s'. dmx512_rtuart_start_frame ops a s = Some s' \<and> ok s' \<and> rtc_inv s' \<and> d_received (r_client s') = d_received (r_client s)"
proof -
  obtain s1 where s1: "rtuart_clr_notify ops (RTUART_NOTIFY_RECEIVER_EVENT OR RTUART_NOTIFY_RECEIVER_HASDATA) s = Some s1" "ok s1" "uart_kept s s1"
    using clr_notify [OF assms(1)] by blast
  define s2 where "s2 = upd (\<lambda>p. p\<lparr>d_tx_frame := a\<rparr>) s1"
  let ?as = "d_received (r_client s)"
  have ok2: "ok s2" "sends ?as a False s2"
    using s1(2) assms(2-5) kept_parts [OF s1(3)] by (simp_all add: s2_def ok_client sends_def)
  obtain f where f: "deref a s2 = Some f" using sends_frame [OF ok2(2)] by blast
  obtain g s3 B c where s3: "rtc_prepare a s2 = Some (g, s3)" "sends ?as a True s3" "s3 = s2\<lparr>r_buffers := B, r_client := c\<rparr>"
    using prepare_ok [OF ok2(2)] by blast
  have ok3: "ok s3" using ok2(1) by (simp add: s3(3) ok_client ok_buffers)
  define st where "st = (if rtc_is_twoway f then RTPORT_TRANSMIT_BREAK_TWOWAY else RTPORT_TRANSMIT_BREAK_ONEWAY)"
  obtain s4 where s4: "enable_rs485_transmitter ops True (rtc_next_state st s3) = Some s4" "ok s4" "sends ?as a True s4" "d_state (r_client s4) = st"
    using rs485_sends [OF _ sends_next_state [OF s3(2)], of st True] ok3 by (auto simp: ok_steps)
  obtain s5 where s5: "(if f_flags g AND DMX512_FLAG_NOBREAK = 0 then do { s \<leftarrow> rtuart_set_control ops RTUART_CONTROL_BREAK s4;
       rtuart_clr_control ops RTUART_CONTROL_BREAK s } else Some s4) = Some s5" "ok s5" "sends ?as a True s5" "d_state (r_client s5) = st"
    using break_sends [OF s4(2,3), of "f_flags g AND DMX512_FLAG_NOBREAK = 0"] s4(4) by auto
  define st' where "st' = (if rtc_is_twoway f then RTPORT_TRANSMIT_DATA_TWOWAY else RTPORT_TRANSMIT_DATA_ONEWAY)"
  obtain s6 where s6: "rtuart_tx_start ops TX_BUFFER (rtc_next_state st' s5) = Some s6" "ok s6" "sends ?as a True s6" "d_state (r_client s6) = st'"
    using tx_start_sends [OF _ sends_next_state [OF s5(3)], of st'] s5(2) by (auto simp: ok_steps)
  have "dmx512_rtuart_start_frame ops a s = Some s6"
    using s1(1) f s3(1) s4(1) s5(1,4) s6(1) unfolding dmx512_rtuart_start_frame_def
    by (simp add: st_def st'_def split: if_splits flip: s2_def)
  moreover have "rtc_inv s6" "d_received (r_client s6) = ?as" using s6(3,4) by (simp_all add: rtc_inv_def sends_def st'_def)
  ultimately show ?thesis using s6(2) by blast
qed

end

end
