(* ===== verification/Dmx_Rtuart_Loop.thy ===== *)
theory Dmx_Rtuart_Loop
  imports Dmx_Rtuart_Run
begin

text \<open>
  The main loop of the port on the buffered UART interface: frames from the card, frames to the card, and runs of the
  port from its creation on.
\<close>

section \<open>Frames from the card\<close>

text \<open>A frame is allocated and filled.\<close>

definition rtc_taken :: "addr \<Rightarrow> dmx512frame \<Rightarrow> ('b, 'm) rtc \<Rightarrow> ('b, 'm) rtc" where
  "rtc_taken a f s = upd (\<lambda>p. p\<lparr>d_frames := (d_frames p)(a \<mapsto> f), d_next := a + 1, d_room := d_room p - 1\<rparr>) s"

lemma frames_ok_next:
  assumes "frames_ok p" and "d_next p \<le> n"
  shows "frames_ok (p\<lparr>d_next := n\<rparr>)"
proof -
  have "held (p\<lparr>d_next := n\<rparr>) = held p" by (simp add: held_def)
  moreover have "\<forall>a \<in> set (held p). 0 < a \<and> a < d_next p"
      "\<forall>a off. d_rx_data p = Some (a, off) \<longrightarrow> 0 < a \<and> a \<noteq> d_tx_frame p \<and> a < d_next p" "0 < d_next p"
    using assms(1) unfolding frames_ok_def by blast+
  then have "\<forall>a \<in> set (held p). 0 < a \<and> a < n" "\<forall>a off. d_rx_data p = Some (a, off) \<longrightarrow> 0 < a \<and> a \<noteq> d_tx_frame p \<and> a < n" "0 < n"
    using order.strict_trans2 [OF _ assms(2)] by blast+
  ultimately show ?thesis using assms(1) unfolding frames_ok_def by simp
qed

lemma next_fresh:
  assumes "frames_ok p"
  shows "d_next p \<notin> set (held p)" "d_frames p (d_next p) = None" "d_next p \<noteq> 0" "d_rx_data p \<noteq> Some (d_next p, off)"
proof -
  have n: "d_next p \<notin> dom (d_frames p)" using assms unfolding frames_ok_def by blast
  then show "d_frames p (d_next p) = None" by auto
  show "d_next p \<notin> set (held p)" "d_next p \<noteq> 0" "d_rx_data p \<noteq> Some (d_next p, off)" using assms n unfolding frames_ok_def by auto
qed

lemma invalidate_parts: "\<exists>B. invalidate ptr b a s = s\<lparr>r_buffers := B\<rparr>"
proof -
  have "\<exists>B. s = s\<lparr>r_buffers := B\<rparr>" by (rule exI [of _ "r_buffers s"]) simp
  moreover have "\<exists>B. s\<lparr>r_buffers := B'\<rparr> = s\<lparr>r_buffers := B\<rparr>" for B' by blast
  ultimately show ?thesis by (cases ptr; cases "get_buffer b s") (auto simp: invalidate_def put_buffer_def)
qed

lemma release_parts: "\<exists>B c. rtc_release a s = s\<lparr>r_buffers := B, r_client := c\<rparr>"
proof -
  obtain B where B: "invalidate (d_rx_data (r_client s)) RX_BUFFER a s = s\<lparr>r_buffers := B\<rparr>" using invalidate_parts by blast
  obtain B' where "invalidate (d_tx_data (r_client s)) TX_BUFFER a (s\<lparr>r_buffers := B\<rparr>) = s\<lparr>r_buffers := B'\<rparr>"
    using invalidate_parts [of "d_tx_data (r_client s)" TX_BUFFER a "s\<lparr>r_buffers := B\<rparr>"] by auto
  then have "rtc_release a s = s\<lparr>r_buffers := B', r_client := r_client (rtc_release a s)\<rparr>" using B by (simp add: rtc_release_def)
  then show ?thesis by blast
qed

text \<open>A frame that is not sent is released again.\<close>

lemma taken_released:
  assumes "rtc_inv s" and "a = d_next (r_client s)" and "d_room (r_client s) \<noteq> 0"
  shows "\<exists>s'. rtc_put_frame a (rtc_taken a f s) = Some s' \<and> rtc_inv s' \<and> d_received (r_client s') = d_received (r_client s) \<and> (\<exists>B c. s' = s\<lparr>r_buffers := B, r_client := c\<rparr>)"
proof -
  let ?p = "r_client s"
  have p: "frames_ok ?p" "buffers_ok s" using assms(1) by (simp_all add: rtc_inv_def)
  note fr = next_fresh [OF p(1), folded assms(2)]
  define s' where "s' = rtc_release a (rtc_taken a f s)"
  have c: "r_client s' = ?p\<lparr>d_next := a + 1\<rparr>"
    using fr(2) assms(3) by (simp add: s'_def rtc_taken_def fun_upd_idem)
  have "frames_ok (r_client s')" unfolding c using frames_ok_next [OF p(1), of "a + 1"] assms(2) by simp
  moreover have "buffers_ok s'" using p(2) by (simp add: s'_def rtc_taken_def)
  moreover have "get_buffer RX_BUFFER s' = get_buffer RX_BUFFER s" using fr(4) by (simp add: s'_def get_buffer_release rtc_taken_def)
  then have at: "attached off n s \<Longrightarrow> attached off n s'" for off n by (simp add: attached_def c)
  have "state_ok (d_state ?p) s'" by (rule state_ok_mono [of _ s]) (use assms(1) c at in \<open>simp_all add: rtc_inv_def\<close>)
  moreover have "\<exists>B c. s' = s\<lparr>r_buffers := B, r_client := c\<rparr>"
    using release_parts [of a "rtc_taken a f s"] by (auto simp: s'_def rtc_taken_def)
  ultimately show ?thesis using fr(3) c by (auto simp: rtc_put_frame_def rtc_inv_def s'_def rtc_taken_def)
qed

lemma taken_sent:
  assumes "frames_ok (r_client s)" and "a = d_next (r_client s)" and "frame_wf f" and "d_tx_frame (r_client s) = 0" and "d_rx_frame (r_client s) = 0"
  shows "frames_ok ((r_client (rtc_taken a f s))\<lparr>d_tx_frame := a\<rparr>)"
proof -
  let ?p = "r_client s"
  note fr = next_fresh [OF assms(1), folded assms(2)]
  have h: "held ((r_client (rtc_taken a f s))\<lparr>d_tx_frame := a\<rparr>) = a # held ?p" using fr(3) assms(4,5) by (simp add: held_def rtc_taken_def)
  have d: "set (held ?p) = dom (d_frames ?p)" "distinct (held ?p)" "\<forall>b \<in> set (held ?p). 0 < b \<and> b < a" "\<forall>b f. d_frames ?p b = Some f \<longrightarrow> frame_wf f"
      "\<forall>b off. d_rx_data ?p = Some (b, off) \<longrightarrow> 0 < b \<and> b < a"
    using assms(1,2) by (auto simp: frames_ok_def)
  show ?thesis
    unfolding frames_ok_def h using d fr assms(3) by (auto simp: rtc_taken_def less_Suc_eq split: if_splits)
qed

context dmx_client
begin

lemma ok_taken_released: "ok s \<Longrightarrow> s' = s\<lparr>r_buffers := B, r_client := c\<rparr> \<Longrightarrow> ok s'"
  by (simp add: ok_client ok_buffers)

lemma read_card_ok:
  assumes "ok s" and "rtc_inv s" and "d_rx_frame (r_client s) = 0" and "\<And>f. input = Some f \<Longrightarrow> frame_wf f"
  shows "\<exists>s'. rtc_read_card ops input s = Some s' \<and> ok s' \<and> rtc_inv s' \<and> d_received (r_client s') = d_received (r_client s)"
proof (cases "d_room (r_client s) = 0")
  case True
  then show ?thesis using assms by (simp add: rtc_read_card_def rtc_get_frame_def)
next
  case False
  let ?a = "d_next (r_client s)"
  have p: "frames_ok (r_client s)" "buffers_ok s" "state_ok (d_state (r_client s)) s" using assms(2) by (simp_all add: rtc_inv_def)
  have g: "rtc_get_frame s = (?a, rtc_taken ?a zero_frame s)" using False by (simp add: rtc_get_frame_def rtc_taken_def Let_def)
  have st: "store_frame ?a f (rtc_taken ?a zero_frame s) = rtc_taken ?a f s" for f by (simp add: store_frame_def rtc_taken_def)
  have a: "?a \<noteq> 0" by (rule next_fresh(3) [OF p(1)])
  have rel: "\<exists>s'. rtc_put_frame ?a (rtc_taken ?a f s) = Some s' \<and> ok s' \<and> rtc_inv s' \<and> d_received (r_client s') = d_received (r_client s)" for f
    using taken_released [OF assms(2) refl False, of f] ok_taken_released [OF assms(1)] by blast
  consider "input = None" | f where "input = Some f" "f_port f \<noteq> 0" | f where "input = Some f" "f_port f = 0" by (cases input) auto
  then show ?thesis
  proof cases
    case 3
    let ?s = "rtc_taken ?a f s"
    have q: "d_tx_frame (r_client ?s) = d_tx_frame (r_client s)" "d_state (r_client ?s) = d_state (r_client s)" "ok ?s" "buffers_ok ?s"
        "d_rx_frame (r_client ?s) = 0" "d_received (r_client ?s) = d_received (r_client s)"
      using assms(1,3) p(2) by (simp_all add: rtc_taken_def ok_client)
    show ?thesis
    proof (cases "d_tx_frame (r_client s) \<noteq> 0 \<or> rtc_is_busy (d_state (r_client s))")
      case True
      then have "rtc_client_send_frame ops ?a ?s = Some (-1, ?s)" using q by (auto simp: rtc_client_send_frame_def)
      then show ?thesis using 3 g st a rel by (simp add: rtc_read_card_def)
    next
      case F: False
      obtain s' where "dmx512_rtuart_start_frame ops ?a ?s = Some s'" "ok s'" "rtc_inv s'" "d_received (r_client s') = d_received (r_client s)"
        using start_frame_ok [OF q(3) taken_sent [OF p(1) refl assms(4) [OF 3(1)] _ assms(3)] q(4,5) a] F q(6) by auto
      moreover from this have "rtc_client_send_frame ops ?a ?s = Some (0, s')" using F q by (simp add: rtc_client_send_frame_def)
      ultimately show ?thesis using 3 g st a by (simp add: rtc_read_card_def)
    qed
  qed (use g st a rel in \<open>simp_all add: rtc_read_card_def\<close>)
qed

end

section \<open>Frames to the card\<close>

text \<open>The invariant while the loop has taken the list of received frames over.\<close>

definition handing :: "addr list \<Rightarrow> ('b, 'm) rtc \<Rightarrow> bool" where
  "handing as s \<longleftrightarrow> d_received (r_client s) = [] \<and> rtc_inv (upd (\<lambda>p. p\<lparr>d_received := as\<rparr>) s)"

lemma handing_Nil: "handing [] s \<longleftrightarrow> d_received (r_client s) = [] \<and> rtc_inv s"
proof -
  have "d_received (r_client s) = [] \<Longrightarrow> upd (\<lambda>p. p\<lparr>d_received := []\<rparr>) s = s"
    by (cases s, cases "r_client s") simp
  then show ?thesis unfolding handing_def by metis
qed

lemma frames_ok_handed:
  assumes "frames_ok (p\<lparr>d_received := a # as\<rparr>)"
  shows "frames_ok (p\<lparr>d_card := c, d_frames := (d_frames p)(a := None), d_room := n, d_received := as\<rparr>)"
proof -
  let ?q = "p\<lparr>d_received := a # as\<rparr>" and ?p = "p\<lparr>d_card := c, d_frames := (d_frames p)(a := None), d_room := n, d_received := as\<rparr>"
  have h: "set (held ?q) = insert a (set (held ?p))" "distinct (held ?q) \<Longrightarrow> distinct (held ?p) \<and> a \<notin> set (held ?p)"
    by (auto simp: held_def)
  have d: "distinct (held ?q)" "set (held ?q) = dom (d_frames p)" "\<forall>b f. d_frames p b = Some f \<longrightarrow> frame_wf f"
    using assms by (auto simp: frames_ok_def)
  have "set (held ?p) = dom (d_frames ?p)" using h d(1) by (simp flip: d(2))
  then show ?thesis using h d by (intro frames_ok_change [OF assms]) (auto split: if_splits)
qed

lemma hand_over_one:
  assumes "handing (a # as) s"
  shows "\<exists>f. deref a s = Some f \<and> rtc_put_frame a (upd (\<lambda>p. p\<lparr>d_card := c\<rparr>) s) = Some (rtc_release a (upd (\<lambda>p. p\<lparr>d_card := c\<rparr>) s)) \<and>
     handing as (rtc_release a (upd (\<lambda>p. p\<lparr>d_card := c\<rparr>) s))"
proof -
  let ?q = "upd (\<lambda>p. p\<lparr>d_received := a # as\<rparr>) s" and ?s = "rtc_release a (upd (\<lambda>p. p\<lparr>d_card := c\<rparr>) s)"
  let ?t = "upd (\<lambda>p. p\<lparr>d_received := as\<rparr>) ?s"
  have q: "frames_ok (r_client ?q)" "buffers_ok s" "state_ok (d_state (r_client s)) ?q" using assms by (simp_all add: handing_def rtc_inv_def)
  have in_held: "a \<in> set (held (r_client ?q))" by (simp add: held_def)
  obtain f where f: "d_frames (r_client s) a = Some f" using held_frame [OF q(1) in_held] by auto
  have a: "a \<noteq> 0" using q(1) in_held unfolding frames_ok_def by blast
  have ne: "d_rx_frame (r_client s) = a \<Longrightarrow> False" using q(1) a by (auto simp: frames_ok_def held_def)
  have at: "attached off n ?t" if "attached off n ?q" for off n
    using that ne by (auto simp: attached_def get_buffer_release)
  have "state_ok (d_state (r_client s)) ?t" by (rule state_ok_mono [OF q(3)]) (use at in simp_all)
  moreover have "frames_ok (r_client ?t)"
    using frames_ok_handed [where p = "r_client s" and n = "d_room (r_client s) + 1" and c = c] q(1) by simp
  ultimately have "handing as ?s" using assms q(2) by (simp add: handing_def rtc_inv_def)
  moreover have "\<exists>g. deref a s = Some g" using f a by (simp add: deref_def)
  ultimately show ?thesis using f a by (auto simp: rtc_put_frame_def)
qed

context dmx_client
begin

lemma write_received_ok:
  assumes "ok s" and "handing as s" and "length as \<le> length results" and "\<forall>r \<in> set results. r"
  shows "\<exists>s'. rtc_write_received as results s = Some s' \<and> ok s' \<and> rtc_inv s'"
  using assms
proof (induction as arbitrary: s results)
  case Nil
  then show ?case by (simp add: handing_Nil)
next
  case (Cons a as)
  obtain f where f: "deref a s = Some f" using hand_over_one [OF Cons.prems(2)] by blast
  let ?s = "rtc_release a (upd (\<lambda>p. p\<lparr>d_card := d_card p @ [f]\<rparr>) s)"
  have one: "rtc_put_frame a (upd (\<lambda>p. p\<lparr>d_card := d_card p @ [f]\<rparr>) s) = Some ?s" "handing as ?s"
    using hand_over_one [OF Cons.prems(2), of "d_card (r_client s) @ [f]"] by blast+
  obtain rs where rs: "results = True # rs" using Cons.prems(3,4) by (cases results) auto
  have "\<exists>s'. rtc_write_received as rs ?s = Some s' \<and> ok s' \<and> rtc_inv s'"
    using Cons.prems(1,3,4) rs by (intro Cons.IH [OF _ one(2)]) (simp_all add: ok_release ok_client)
  then show ?case using f one(1) rs by simp
qed

text \<open>One round of the main loop, when the writes are complete and nothing is sent while a frame comes in.\<close>

lemma main_round_ok:
  assumes "ok s" and "rtc_inv s"
    and "from_card \<noteq> None \<Longrightarrow> d_rx_frame (r_client s) = 0" and "\<And>f. from_card = Some (Some f) \<Longrightarrow> frame_wf f"
    and "pipe \<Longrightarrow> length (d_received (r_client s)) \<le> length results" and "\<forall>r \<in> set results. r"
  shows "\<exists>c s'. rtc_main_round ops ret from_card pipe results s = Some (c, s') \<and> ok s' \<and> rtc_inv s'"
proof -
  obtain s1 where s1: "(case from_card of Some input \<Rightarrow> rtc_read_card ops input s | None \<Rightarrow> Some s) = Some s1" "ok s1" "rtc_inv s1"
      "d_received (r_client s1) = d_received (r_client s)"
  proof (cases from_card)
    case None
    then show thesis using that [of s] assms(1,2) by simp
  next
    case (Some input)
    then show thesis using that read_card_ok [OF assms(1,2), of input] assms(3,4) by auto
  qed
  let ?s = "upd (\<lambda>p. p\<lparr>d_received := [], d_signals := d_signals p - 1\<rparr>) s1"
  have sf: "same_frames (r_client s1) (r_client (upd (\<lambda>p. p\<lparr>d_received := d_received (r_client s1)\<rparr>) ?s))" by (simp add: same_frames_def)
  have "rtc_inv (upd (\<lambda>p. p\<lparr>d_received := d_received (r_client s1)\<rparr>) ?s)"
    using s1(3) same_frames_ok [OF sf] same_frames_state [OF sf] by (simp add: rtc_inv_def)
  then have h: "handing (d_received (r_client s1)) ?s" by (simp add: handing_def)
  obtain s2 where s2: "(if pipe then (let as = d_received (r_client s1) in rtc_write_received as results ?s) else Some s1) = Some s2" "ok s2" "rtc_inv s2"
    using write_received_ok [OF _ h] assms(5,6) s1 by (cases pipe) (auto simp: ok_client)
  show ?thesis
  proof (cases "ret \<le> 0")
    case True
    then show ?thesis using assms(1,2) periodical_ok [OF assms(1,2)] by (auto simp: rtc_main_round_def)
  next
    case False
    obtain s3 where "rtc_periodical s2 = Some s3" "ok s3" "rtc_inv s3" using periodical_ok [OF s2(2,3)] by blast
    moreover from this have "rtc_main_round ops ret from_card pipe results s = Some (True, s3)"
      unfolding rtc_main_round_def s1(1) using False s2(1) by simp
    ultimately show ?thesis by blast
  qed
qed

end

section \<open>Runs\<close>

text \<open>
  Events: an octet that the driver puts into the receive buffer, the end of a transmission in the driver, the callbacks,
  the timer, and rounds of the main loop.
\<close>

datatype rtc_event =
    Ev_Octet u8 | Ev_Sent | Ev_Tx_Start | Ev_Tx_End1 | Ev_Tx_End2 | Ev_Input_Change u32 u32 | Ev_Rx_Err u32 | Ev_Rx_Char u16 | Ev_Rx_End
  | Ev_Rx_Timeout | Ev_Rx_Trigger u32 | Ev_Timer | Ev_Round int "dmx512frame option option" bool "bool list"

definition rtc_driver_octet :: "u8 \<Rightarrow> ('b, 'm) rtc \<Rightarrow> ('b, 'm) rtc option" where
  "rtc_driver_octet c s = do {
     b \<leftarrow> get_buffer RX_BUFFER s;
     d \<leftarrow> rb_data b;
     d \<leftarrow> arr_set d (rb_transfered b) c;
     Some (put_buffer RX_BUFFER (b\<lparr>rb_data := Some d, rb_transfered := rb_transfered b + 1\<rparr>) s) }"

fun rtc_event_step :: "('b, 'm) rtc_ops \<Rightarrow> rtc_event \<Rightarrow> ('b, 'm) rtc \<Rightarrow> ('b, 'm) rtc option" where
  "rtc_event_step ops (Ev_Octet c) s = rtc_driver_octet c s"
| "rtc_event_step ops Ev_Sent s = Some (s\<lparr>r_tx_buffer := 0\<rparr>)"
| "rtc_event_step ops Ev_Tx_Start s = rtuart_call_tx_start (Some (dmx512_rtuart_callbacks ops)) TX_BUFFER s"
| "rtc_event_step ops Ev_Tx_End1 s = rtuart_call_tx_end1 (Some (dmx512_rtuart_callbacks ops)) TX_BUFFER s"
| "rtc_event_step ops Ev_Tx_End2 s = rtuart_call_tx_end2 (Some (dmx512_rtuart_callbacks ops)) TX_BUFFER s"
| "rtc_event_step ops (Ev_Input_Change e v) s = rtuart_call_input_change (Some (dmx512_rtuart_callbacks ops)) e v s"
| "rtc_event_step ops (Ev_Rx_Err m) s = Option.bind (cb_rx_err (dmx512_rtuart_callbacks ops)) (\<lambda>f. f m s)"
| "rtc_event_step ops (Ev_Rx_Char c) s = rtuart_call_rx_char (Some (dmx512_rtuart_callbacks ops)) c s"
| "rtc_event_step ops Ev_Rx_End s = rtuart_call_rx_end (Some (dmx512_rtuart_callbacks ops)) RX_BUFFER s"
| "rtc_event_step ops Ev_Rx_Timeout s = rtuart_call_rx_timeout (Some (dmx512_rtuart_callbacks ops)) RX_BUFFER s"
| "rtc_event_step ops (Ev_Rx_Trigger m) s = rtuart_call_rx_trigger (Some (dmx512_rtuart_callbacks ops)) RX_BUFFER m s"
| "rtc_event_step ops Ev_Timer s = Some (rtc_timer_thread_handler s)"
| "rtc_event_step ops (Ev_Round ret from_card pipe results) s =
     map_option snd (rtc_main_round ops ret from_card pipe results s)"

text \<open>
  \<open>rtc_driver_octet\<close> is the part of the driver's receive routine that stores an octet; the triggers and the end of the buffer,
  which the routine then may call back, are events of their own here, so that runs with either driver are covered.
  When an event is expected: octets and triggers while the port receives, octets while the buffer has room (and at most 254
  in a discovery reply); the end of a request while a frame can be allocated; the card sends only while the port does
  not receive, and takes every frame that is written.
\<close>

fun rtc_expected :: "rtc_event \<Rightarrow> ('b, 'm) rtc \<Rightarrow> bool" where
  "rtc_expected (Ev_Octet c) s \<longleftrightarrow> d_rx_frame (r_client s) \<noteq> 0 \<and> (case get_buffer RX_BUFFER s of None \<Rightarrow> False
     | Some b \<Rightarrow> rb_transfered b < rb_size b \<and>
         (d_state (r_client s) \<in> {RTPORT_RECV_RDMDISC_REPLY, RTPORT_RECV_RDMDISC_REPLY_COLLISION} \<longrightarrow> rb_transfered b < 254))"
| "rtc_expected Ev_Tx_End2 s \<longleftrightarrow> d_room (r_client s) \<noteq> 0"
| "rtc_expected (Ev_Rx_Trigger m) s \<longleftrightarrow> d_rx_frame (r_client s) \<noteq> 0"
| "rtc_expected (Ev_Round ret from_card pipe results) s \<longleftrightarrow>
     (from_card \<noteq> None \<longrightarrow> d_rx_frame (r_client s) = 0) \<and> (case from_card of Some (Some f) \<Rightarrow> frame_wf f | _ \<Rightarrow> True) \<and>
     (pipe \<longrightarrow> length (d_received (r_client s)) \<le> length results) \<and> list_all id results"
| "rtc_expected _ s \<longleftrightarrow> True"

fun rtc_run :: "('b, 'm) rtc_ops \<Rightarrow> rtc_event list \<Rightarrow> ('b, 'm) rtc \<Rightarrow> ('b, 'm) rtc option" where
  "rtc_run ops [] s = Some s"
| "rtc_run ops (e # es) s = Option.bind (rtc_event_step ops e s) (rtc_run ops es)"

fun rtc_all_expected :: "('b, 'm) rtc_ops \<Rightarrow> rtc_event list \<Rightarrow> ('b, 'm) rtc \<Rightarrow> bool" where
  "rtc_all_expected ops [] s \<longleftrightarrow> True"
| "rtc_all_expected ops (e # es) s \<longleftrightarrow> rtc_expected e s \<and>
     (case rtc_event_step ops e s of None \<Rightarrow> True | Some s' \<Rightarrow> rtc_all_expected ops es s')"

lemmas rtc_call_defs = rtuart_call_tx_start_def rtuart_call_tx_end1_def rtuart_call_tx_end2_def rtuart_call_input_change_def
  rtuart_call_rx_char_def rtuart_call_rx_end_def rtuart_call_rx_timeout_def rtuart_call_rx_trigger_def dmx512_rtuart_callbacks_def

lemma driver_octet_inv:
  assumes "rtc_inv s" and "rtc_expected (Ev_Octet c) s"
  shows "\<exists>b'. rtc_driver_octet c s = Some (put_buffer RX_BUFFER b' s) \<and> rtc_inv (put_buffer RX_BUFFER b' s)"
proof -
  obtain b where b: "get_buffer RX_BUFFER s = Some b" "rb_transfered b < rb_size b"
      "d_state (r_client s) \<in> {RTPORT_RECV_RDMDISC_REPLY, RTPORT_RECV_RDMDISC_REPLY_COLLISION} \<Longrightarrow> rb_transfered b < 254"
      "d_rx_frame (r_client s) \<noteq> 0"
    using assms(2) by (auto split: option.splits)
  have "\<exists>off n. attached off n s \<and> off \<le> 513" using assms(1) b(4)
    by (cases "d_state (r_client s)") (auto simp: rtc_inv_def RDM_POS_DISC_UNIQUE_BANCH_DATA_def)
  then obtain d where d: "rb_data b = Some d" "length d = rb_size b" "rb_size b \<le> 513" using b(1) by (auto simp: attached_def)
  let ?b = "b\<lparr>rb_data := Some (d[rb_transfered b := c]), rb_transfered := rb_transfered b + 1\<rparr>"
  have "length (rb_trigger b) = 32" using assms(1) b(1) by (auto simp: rtc_inv_def buffers_ok_def)
  then have "rtc_inv (put_buffer RX_BUFFER ?b s)"
    using b(2,3) d by (intro rx_buffer_change [OF assms(1) b(1)]) force+
  moreover have "rtc_driver_octet c s = Some (put_buffer RX_BUFFER ?b s)" using b(1,2) d by (simp add: rtc_driver_octet_def arr_set_def)
  ultimately show ?thesis by blast
qed

text \<open>What the buffer of the driver does not change.\<close>

lemma rtc_inv_sent: "rtc_inv s \<Longrightarrow> rtc_inv (s\<lparr>r_tx_buffer := 0\<rparr>)"
  using state_ok_cong [of "s\<lparr>r_tx_buffer := 0\<rparr>" s] by (simp add: rtc_inv_def buffers_ok_def)

lemma rtc_inv_timer: "rtc_inv s \<Longrightarrow> rtc_inv (rtc_timer_thread_handler s)"
  using same_frames_ok [of "r_client s" "r_client (rtc_timer_thread_handler s)"] same_frames_state [of s "rtc_timer_thread_handler s"]
  by (simp add: rtc_inv_def rtc_timer_thread_handler_def)

text \<open>Creation: the surroundings have no frames yet.\<close>

definition no_frames :: "rtc_port \<Rightarrow> bool" where
  "no_frames env \<longleftrightarrow> d_frames env = Map.empty \<and> d_received env = [] \<and> 0 < d_next env"

context dmx_client
begin

lemma event_ok:
  assumes "ok s" and "rtc_inv s" and "rtc_expected e s"
  shows "\<exists>s'. rtc_event_step ops e s = Some s' \<and> ok s' \<and> rtc_inv s'"
proof (cases e)
  case (Ev_Octet c)
  then show ?thesis using driver_octet_inv [OF assms(2), of c] assms by (auto simp: ok_put_buffer)
next
  case (Ev_Round ret from_card pipe results)
  have "\<exists>c s'. rtc_main_round ops ret from_card pipe results s = Some (c, s') \<and> ok s' \<and> rtc_inv s'"
    using assms(3) Ev_Round by (intro main_round_ok [OF assms(1,2)]) (auto simp: list_all_iff split: option.splits)
  then show ?thesis using Ev_Round by auto
next
  case (Ev_Rx_Trigger m)
  then show ?thesis using rx_trigger_ok [OF assms(1,2)] assms(3) by (simp add: rtc_call_defs)
next
  case Ev_Tx_End2
  then show ?thesis using tx_end2_ok [OF assms(1,2)] assms(3) by (simp add: rtc_call_defs)
qed (use assms(1,2) rtc_inv_sent rtc_inv_timer tx_end1_ok rx_err_ok rx_char_ok rx_end_ok in
  \<open>simp_all add: rtc_call_defs ok_tx_buffer dmx512_rtuart_tx_start_def dmx512_rtuart_input_change_def dmx512_rtuart_rx_timeout_def
     rtc_timer_thread_handler_def ok_client\<close>)

lemma run_ok:
  assumes "ok s" and "rtc_inv s" and "rtc_all_expected ops es s"
  shows "\<exists>s'. rtc_run ops es s = Some s' \<and> ok s' \<and> rtc_inv s'"
  using assms
proof (induction es arbitrary: s)
  case (Cons e es)
  obtain s1 where s1: "rtc_event_step ops e s = Some s1" "ok s1" "rtc_inv s1" using event_ok [OF Cons.prems(1,2)] Cons.prems(3) by auto
  then show ?case using Cons.IH [OF s1(2,3)] Cons.prems(3) by simp
qed simp

text \<open>Creation.\<close>

lemma rs485txen_ok:
  assumes "ok s" and "rtc_inv s"
  shows "\<exists>s'. dmxrtuart_rs485txen_init ops chip line request rs485_io s = Some s' \<and> ok s' \<and> rtc_inv s' \<and>
     d_state (r_client s') = d_state (r_client s) \<and> d_room (r_client s') = d_room (r_client s)"
proof -
  define s1 where "s1 = (let s = upd (\<lambda>p. p\<lparr>d_gpio_line := False\<rparr>) s in
       if rs485_io = ''gpiochip0.18'' then
         (if chip \<and> line \<and> request then upd (\<lambda>p. p\<lparr>d_gpio_line := True, d_gpio := False, d_rs485 := Some Rs485_Gpio\<rparr>) s else s)
       else if rs485_io = ''rts'' then upd (\<lambda>p. p\<lparr>d_rs485 := Some Rs485_Rts\<rparr>) s else s)"
  have s1: "same_frames (r_client s) (r_client s1)" "\<forall>a. get_buffer a s1 = get_buffer a s" "ok s1" "r_tx_buffer s1 = r_tx_buffer s"
      "d_state (r_client s1) = d_state (r_client s)" "d_room (r_client s1) = d_room (r_client s)"
    using assms(1) by (simp_all add: s1_def Let_def same_frames_def ok_client)
  obtain s2 where s2: "enable_rs485_transmitter ops False s1 = Some s2" "ok s2" "same_frames (r_client s1) (r_client s2)"
      "d_state (r_client s2) = d_state (r_client s1)" "\<forall>a. get_buffer a s2 = get_buffer a s1" "r_tx_buffer s2 = r_tx_buffer s1"
      "d_room (r_client s2) = d_room (r_client s1)"
    using rs485_parts [OF s1(3)] by blast
  have sf: "same_frames (r_client s) (r_client s2)" using s1(1) s2(3) by (simp add: same_frames_def)
  have "buffers_ok s2 = buffers_ok s" using s1(2,4) s2(5,6) by (intro buffers_ok_cong) simp_all
  then have "rtc_inv s2"
    using assms(2) same_frames_ok [OF sf] same_frames_state [OF sf] s1(2,5) s2(4,5) by (simp add: rtc_inv_def)
  moreover have "dmxrtuart_rs485txen_init ops chip line request rs485_io s = Some s2"
    using s2(1) by (simp add: dmxrtuart_rs485txen_init_def s1_def Let_def)
  ultimately show ?thesis using s2(2,4,7) s1(5,6) by (intro exI [of _ s2]) simp
qed

lemma create_ok:
  assumes "ok u" and "no_frames env" and "r_tx_buffer u = 0"
  shows "\<exists>s. rtc_client_create ops chip line request rs485_io env u = Some s \<and> ok s \<and> rtc_inv s \<and>
     d_state (r_client s) = RTPORT_IDLE \<and> d_room (r_client s) = d_room env"
proof -
  define p where "p = env\<lparr>d_state := RTPORT_DOWN, d_tx_frame := 0, d_tx_data := None, d_rx_frame := 0, d_rx_data := None,
     d_lock := slot_count_lock__init, d_rs485 := None, d_gpio_line := False, d_timer_active := False, d_timer_set := None, d_timer_call := False\<rparr>"
  define s0 where "s0 = put_buffer TX_BUFFER zero_buffer (put_buffer RX_BUFFER zero_buffer (u\<lparr>r_client := p\<rparr>))"
  have ok0: "ok s0" using assms(1) by (simp add: s0_def ok_put_buffer ok_client)
  have "frames_ok p" using assms(2) by (simp add: p_def frames_ok_def held_def no_frames_def)
  moreover have "buffers_ok s0" using assms(3) by (simp add: s0_def buffers_ok_def buffer_addr_defs zero_buffer_def)
  moreover have c0: "r_client s0 = p" "d_state p = RTPORT_DOWN" by (simp_all add: s0_def p_def)
  ultimately have inv0: "rtc_inv s0" "d_state (r_client s0) = RTPORT_DOWN" by (simp_all add: rtc_inv_def) (simp_all add: p_def)
  obtain s1 where s1: "rtuart_set_baudrate ops 250000 s0 = Some s1" "ok s1" "uart_kept s0 s1" using dmx_baudrate [OF ok0] by blast
  obtain s2 where s2: "rtuart_set_format ops 8 (CHR ''n'') 2 s1 = Some s2" "ok s2" "uart_kept s1 s2" using dmx_format [OF s1(2)] by blast
  obtain s3 where s3: "rtuart_set_handshake ops 0 s2 = Some s3" "ok s3" "uart_kept s2 s3" using dmx_handshake [OF s2(2)] by blast
  obtain s4 where s4: "rtuart_clr_control ops RTUART_CONTROL_LOOP s3 = Some s4" "ok s4" "uart_kept s3 s4" using clr_control [OF s3(2)] by blast
  obtain s5 where s5: "rtuart_set_notify ops RTUART_NOTIFY_RECEIVER_EVENT s4 = Some s5" "ok s5" "uart_kept s4 s5" using set_notify [OF s4(2)] by blast
  have k: "uart_kept s0 s5" using s1(3) s2(3) s3(3) s4(3) s5(3) by (blast intro: uart_kept_trans)
  have "rtc_inv s5" "d_state (r_client s5) = RTPORT_DOWN" using kept_inv [OF k] uart_kept_sel(1) [OF k] inv0 by simp_all
  then obtain s6 where s6: "dmxrtuart_rs485txen_init ops chip line request rs485_io s5 = Some s6" "ok s6" "rtc_inv s6" "d_state (r_client s6) = RTPORT_DOWN"
      "d_room (r_client s6) = d_room (r_client s5)"
    using rs485txen_ok [OF s5(2)] by metis
  let ?s = "upd (\<lambda>p. p\<lparr>d_lock := (d_lock p)\<lparr>sl_enabled := True\<rparr>\<rparr>) (rtc_next_state RTPORT_IDLE s6)"
  have sf: "same_frames (r_client s6) (r_client ?s)" by (simp add: same_frames_def)
  have "rtc_inv ?s"
    using s6(3,4) same_frames_ok [OF sf] same_frames_state [OF sf] by (simp add: rtc_inv_def)
  moreover have "rtc_client_create ops chip line request rs485_io env u = Some ?s"
    using s1(1) s2(1) s3(1) s4(1) s5(1) s6(1)
    unfolding rtc_client_create_def Let_def p_def [symmetric] s0_def [symmetric] by simp
  moreover have "d_room (r_client s5) = d_room env" using uart_kept_sel(1) [OF k] c0(1) by (simp add: p_def)
  ultimately show ?thesis using s6(2,5) by (simp add: ok_client ok_steps)
qed

end

interpretation rtc16550: dmx_client ops_16550 ok_16550
  by unfold_locales

interpretation rtcpl011: dmx_client ops_pl011 ok_pl011
  by unfold_locales


text \<open>Surroundings with room for eight frames, and the two UARTs before the port is created.\<close>

definition rtc_demo_env :: rtc_port where
  "rtc_demo_env = \<lparr>d_state = RTPORT_DOWN, d_tx_frame = 0, d_tx_data = None, d_rx_frame = 0, d_rx_data = None, d_lock = slot_count_lock__init,
     d_rs485 = None, d_gpio_line = False, d_timer_active = False, d_timer_set = None, d_timer_call = False, d_frames = Map.empty, d_next = 1,
     d_room = 8, d_received = [], d_signals = 0, d_card = [], d_gpio = False, d_timer_ok = True\<rparr>"

definition demo_u16550 :: "(dummy_bus, rtc_port) rtuart_16550" where
  "demo_u16550 = \<lparr>r_bus = the (dummy_bus_create (replicate 0x3f 0)), r_notify_mask = 0, r_base_clock = 1843200, r_tx_buffer = 0, r_rx_buffer = 0,
     r_in_irq = False, r_buffers = Map.empty, r_client = rtc_demo_env, r_shadow_fcr = 0\<rparr>"

definition demo_upl011 :: "(uio32_bus, rtc_port) rtuart_pl011" where
  "demo_upl011 = \<lparr>r_bus = \<lparr>ub_mem = replicate 18 0, ub_regs = 0\<rparr>, r_notify_mask = 0, r_base_clock = 48000000, r_tx_buffer = 0, r_rx_buffer = 0,
     r_in_irq = False, r_buffers = Map.empty, r_client = rtc_demo_env, p_do_tx_polling = False, p_scheduled = False\<rparr>"

lemma demo_uarts:
  "no_frames rtc_demo_env" "ok_16550 demo_u16550" "r_tx_buffer demo_u16550 = 0" "ok_pl011 demo_upl011" "r_tx_buffer demo_upl011 = 0"
proof -
  obtain bus where "dummy_bus_create (replicate 0x3f 0) = Some bus" "dummy_ok bus" "v_lcr (dummy_view bus) = 0"
    using dummy_bus_create_spec [of "replicate 0x3f 0"] by auto
  then show "ok_16550 demo_u16550" by (simp add: ok_16550_def demo_u16550_def)
qed (simp_all add: no_frames_def rtc_demo_env_def ok_pl011_def demo_upl011_def demo_u16550_def uio32_ok_def)


end
