(* ===== verification/Dmx_Rtuart_Reception.thy ===== *)
theory Dmx_Rtuart_Reception
  imports Dmx_Rtuart_Loop
begin

text \<open>
  Reception on the buffered UART interface: a DMX512 frame through the receive routine of the PC16x50 driver and the callbacks of
  the port, from the first break to the last octet or the next break, and what a timeout leaves behind.
\<close>

section \<open>Octets of a frame\<close>

text \<open>The port receives into frame \<open>a\<close>; the octets \<open>cs\<close> have come.\<close>

definition receives :: "addr \<Rightarrow> u8 list \<Rightarrow> rtc_port \<Rightarrow> ('b, 'm) rtc \<Rightarrow> bool" where
  "receives a cs p s \<longleftrightarrow> rtc_inv s \<and> r_client s = p \<and> d_rx_frame p = a \<and> a \<noteq> 0 \<and>
     d_state p \<in> {RTPORT_EXPECT_STARTCODE, RTPORT_RECEIVE_DMXDATA} \<and>
     (\<exists>b d. get_buffer RX_BUFFER s = Some b \<and> rb_data b = Some d \<and> rb_transfered b = length cs \<and> take (length cs) d = cs)"

lemma receives_buffer:
  assumes "receives a cs p s"
  shows "\<exists>b d. get_buffer RX_BUFFER s = Some b \<and> rb_data b = Some d \<and> rb_transfered b = length cs \<and> take (length cs) d = cs \<and>
     length d = 513 \<and> rb_size b = 513 \<and> d_rx_data p = Some (a, 0)"
proof -
  have "attached 0 513 s" using assms by (auto simp: receives_def rtc_inv_def)
  then show ?thesis using assms by (auto simp: receives_def attached_def)
qed

lemma receives_octet:
  assumes "receives a cs p s" and "length cs < 513"
  shows "\<exists>s' b'. rtc_driver_octet c s = Some s' \<and> receives a (cs @ [c]) p s' \<and> s' = put_buffer RX_BUFFER b' s"
proof -
  obtain b d where b: "get_buffer RX_BUFFER s = Some b" "rb_data b = Some d" "rb_transfered b = length cs" "take (length cs) d = cs"
      "length d = 513" "rb_size b = 513"
    using receives_buffer [OF assms(1)] by blast
  let ?b = "b\<lparr>rb_data := Some (d[rb_transfered b := c]), rb_transfered := rb_transfered b + 1\<rparr>"
  have st: "rtc_inv s" "r_client s = p" "d_state p \<in> {RTPORT_EXPECT_STARTCODE, RTPORT_RECEIVE_DMXDATA}" using assms(1) by (simp_all add: receives_def)
  have "rtc_expected (Ev_Octet c) s" using assms b st by (auto simp: receives_def)
  moreover have o: "rtc_driver_octet c s = Some (put_buffer RX_BUFFER ?b s)" using b assms(2) by (simp add: rtc_driver_octet_def arr_set_def)
  ultimately obtain b' where "put_buffer RX_BUFFER ?b s = put_buffer RX_BUFFER b' s" "rtc_inv (put_buffer RX_BUFFER b' s)"
    using driver_octet_inv [OF st(1), of c] by auto
  then have "rtc_inv (put_buffer RX_BUFFER ?b s)" by simp
  moreover have "take (Suc (length cs)) (d[length cs := c]) = cs @ [c]" using b(4,5) assms(2) by (simp add: take_Suc_conv_app_nth)
  moreover have "get_buffer RX_BUFFER (put_buffer RX_BUFFER ?b s) = Some ?b" by (simp add: buffer_addr_defs)
  ultimately have "receives a (cs @ [c]) p (put_buffer RX_BUFFER ?b s)" using assms(1) b(2,3) by (simp add: receives_def)
  then show ?thesis using o by blast
qed

context dmx_client
begin

lemma break_starts:
  assumes "ok s" and "rtc_inv s" and "d_state (r_client s) \<in> {RTPORT_IDLE, RTPORT_IDLE_AFTER_DMXDATA00}" and "d_room (r_client s) \<noteq> 0"
  shows "\<exists>s'. dmx512_rtuart_rx_err ops RTUART_EV_BREAK s = Some s' \<and> ok s' \<and> receives (d_rx_frame (r_client s')) [] (r_client s') s' \<and>
     d_state (r_client s') = RTPORT_EXPECT_STARTCODE \<and> d_received (r_client s') = d_received (r_client s)"
proof -
  let ?s = "rtc_next_state RTPORT_EXPECT_STARTCODE s"
  have p: "frames_ok (r_client s)" "buffers_ok s" "d_rx_frame (r_client s) = 0" "d_tx_frame (r_client s) = 0"
    using assms(2,3) by (auto simp: rtc_inv_def)
  obtain s' where s': "dmx512_rtuart_start_receive_data ops 0 True ?s = Some s'" "ok s'" "frames_ok (r_client s')" "buffers_ok s'"
      "d_state (r_client s') = RTPORT_EXPECT_STARTCODE" "d_tx_frame (r_client s') = 0" "d_received (r_client s') = d_received (r_client s)"
      "attached 0 0 s'"
    using start_receive [of ?s 0 True] assms(1,4) p by (auto simp: ok_steps)
  have "rtc_inv s'" using s'(3-6) attached_mono [OF s'(8), of 513] by (simp add: rtc_inv_def)
  then have "receives (d_rx_frame (r_client s')) [] (r_client s') s'" using s'(5,8) by (auto simp: receives_def attached_def)
  moreover have "rtc_received_break ops s = Some s'" using assms(3) s'(1) by (auto simp: rtc_received_break_def)
  ultimately show ?thesis using s'(2,5,7) by (simp add: dmx512_rtuart_rx_err_def RTUART_EV_BREAK_def)
qed

lemma break_delivers:
  assumes "receives a cs p s" and "ok s" and "d_state p = RTPORT_RECEIVE_DMXDATA" and "cs \<noteq> []"
  shows "\<exists>s' f. dmx512_rtuart_rx_err ops RTUART_EV_BREAK s = Some s' \<and> ok s' \<and> rtc_inv s' \<and> d_received (r_client s') = a # d_received p \<and>
     d_frames (r_client s') a = Some f \<and> take (length cs) (f_data f) = cs \<and> f_payload_size f = of_nat (length cs - 1)"
proof -
  have p: "rtc_inv s" "r_client s = p" "d_rx_frame p = a" "a \<noteq> 0" using assms(1) by (simp_all add: receives_def)
  have i: "frames_ok (r_client s)" "buffers_ok s" "attached 0 513 s" "d_tx_frame p = 0" using p assms(3) by (auto simp: rtc_inv_def)
  obtain b d where b: "get_buffer RX_BUFFER s = Some b" "rb_data b = Some d" "rb_transfered b = length cs" "take (length cs) d = cs"
      "length d = 513" "d_rx_data p = Some (a, 0)"
    using receives_buffer [OF assms(1)] by blast
  obtain s1 f where s1: "rtc_flush_rx ops s = Some s1" "ok s1" "frames_ok (r_client s1)" "buffers_ok s1" "d_rx_frame (r_client s1) = 0"
      "d_tx_frame (r_client s1) = 0" "deref a s = Some f" "d_received (r_client s1) = a # d_received p"
      "d_frames (r_client s1) a = Some (f\<lparr>f_payload_size := word_of_int (int (length cs) - 1)\<rparr>)"
    using flush_rx_ok [OF assms(2) i(1,2), of 513] i(3,4) p b(1,3) by auto
  obtain g where "d_frames (r_client s) a = Some g" "frame_wf g" using held_frame [OF i(1) held_rx] p by auto
  then have f: "take (length cs) (f_data f) = cs"
    using s1(7) b p(2,4) by (auto simp: deref_def blit_def)
  obtain s2 where s2: "dmx512_rtuart_start_receive_data ops 0 True (rtc_next_state RTPORT_EXPECT_STARTCODE s1) = Some s2" "ok s2" "rtc_inv s2"
    using start_frame_reception [OF s1(2-5), of RTPORT_EXPECT_STARTCODE] s1(6) by blast
  have kept: "d_received (r_client s2) = d_received (r_client s1)" "d_frames (r_client s2) a = d_frames (r_client s1) a"
    using start_receive [of "rtc_next_state RTPORT_EXPECT_STARTCODE s1" 0 True] s1(2-5,9) s2(1) by (auto simp: ok_steps)
  have "rtc_received_break ops s = Some s2" using p(2) assms(3) s1(1) s2(1) by (simp add: rtc_received_break_def)
  moreover have "word_of_int (int (length cs) - 1) = (of_nat (length cs - 1) :: u16)" using assms(4) by (cases cs) simp_all
  ultimately show ?thesis
    using s2(2,3) kept s1(8,9) f by (simp add: dmx512_rtuart_rx_err_def RTUART_EV_BREAK_def)
qed

text \<open>The buffer that reception starts with: all of the frame is expected, and one trigger is set.\<close>

lemma start_receive_buffer:
  assumes "ok s" and "frames_ok (r_client s)" and "buffers_ok s" and "d_room (r_client s) \<noteq> 0"
    and "dmx512_rtuart_start_receive_data ops 0 True s = Some s'"
  shows "r_rx_buffer s' = RX_BUFFER \<and> d_lock (r_client s') = d_lock (r_client s) \<and>
     (\<exists>b. get_buffer RX_BUFFER s' = Some b \<and> rb_validcount b = 513 \<and> rb_triggermask b = 1 \<and> rb_trigger b ! 0 = 1 \<and>
        length (rb_trigger b) = 32)"
proof -
  obtain s1 where s1: "rtuart_set_notify ops RTUART_NOTIFY_RECEIVER_EVENT s = Some s1" "ok s1" "uart_kept s s1"
    using set_notify [OF assms(1)] by blast
  obtain s2 where s2: "rtuart_set_notify ops RTUART_NOTIFY_RECEIVER_HASDATA s1 = Some s2" "ok s2" "uart_kept s s2"
    using set_notify [OF s1(2)] s1(3) by (blast intro: uart_kept_trans)
  note k = kept_parts [OF s2(3)]
  let ?p = "r_client s" and ?a = "d_next (r_client s)"
  obtain b where b: "get_buffer RX_BUFFER s2 = Some b" "length (rb_trigger b) = 32" using assms(3) k(2) by (auto simp: buffers_ok_def)
  define p' where "p' = ?p\<lparr>d_frames := (d_frames ?p)(?a \<mapsto> zero_frame), d_next := ?a + 1, d_room := d_room ?p - 1, d_rx_frame := ?a\<rparr>"
  define b' where "b' = b\<lparr>rb_data := Some (replicate 513 0), rb_size := 513, rb_validcount := 513, rb_triggermask := 1, rb_trigger := (rb_trigger b)[0 := 1]\<rparr>"
  define s4 where "s4 = upd (\<lambda>p. p\<lparr>d_rx_data := Some (?a, 0)\<rparr>) (put_buffer RX_BUFFER b' (s2\<lparr>r_client := p'\<rparr>))"
  have new: "?a \<noteq> 0" "\<forall>o'. d_rx_data p' \<noteq> Some (?a, o')" using assms(2) by (auto simp: frames_ok_def p'_def)
  have d: "deref ?a (s2\<lparr>r_client := p'\<rparr>) = Some zero_frame" using new by (subst deref_plain) (simp_all add: p'_def)
  have ok4: "ok s4" using s2(2) by (simp add: s4_def ok_client ok_put_buffer)
  have b4: "get_buffer RX_BUFFER s4 = Some b'" by (simp add: s4_def buffer_addr_defs)
  obtain s5 where s5: "rtuart_rx_start ops RX_BUFFER s4 = Some s5"
      "uart_kept ((put_buffer RX_BUFFER (b'\<lparr>rb_transfered := 0\<rparr>) s4)\<lparr>r_rx_buffer := RX_BUFFER\<rparr>) s5"
    using rx_start [OF ok4 b4] by blast
  have "dmx512_rtuart_start_receive_data ops 0 True s = Some s5"
    using s1(1) s2(1) k(4) assms(4) new(1) d b s5(1)
    by (auto simp: dmx512_rtuart_start_receive_data_def rtc_get_frame_def Let_def p'_def s4_def b'_def zero_frame_def fault_simps)
  then have "s' = s5" using assms(5) by simp
  moreover have "r_client s5 = p'\<lparr>d_rx_data := Some (?a, 0)\<rparr>" using uart_kept_sel(1) [OF s5(2)] by (simp add: s4_def)
  moreover have "get_buffer RX_BUFFER s5 = Some (b'\<lparr>rb_transfered := 0\<rparr>)" "r_rx_buffer s5 = RX_BUFFER"
    using uart_kept_sel [OF s5(2)] by (simp_all add: buffer_addr_defs)
  moreover have "rb_trigger b \<noteq> []" using b(2) by auto
  ultimately show ?thesis using b(2) by (simp add: p'_def b'_def)
qed

end

section \<open>Octets through the PC16x50 driver\<close>

text \<open>
  The driver takes the octets one by one from the receive buffer register of the chip, each with the cause of its
  interrupt (a character timeout or not), and calls the port back for the triggers and the end of the buffer.
\<close>

fun driver_octets :: "('b, rtc_port) rtuart_16550 rtuart_callbacks option \<Rightarrow> 'b reg_write \<Rightarrow> (u8 \<times> bool) list \<Rightarrow>
    ('b, rtc_port) rtuart_16550 \<Rightarrow> ('b, rtc_port) rtuart_16550 option" where
  "driver_octets cb wr [] s = Some s"
| "driver_octets cb wr ((c, due) # cs) s = do {
     s \<leftarrow> rt_handle_received_data cb (\<lambda>r bus. Some (c, bus)) wr (r_rx_buffer s) due s;
     driver_octets cb wr cs s }"

lemma driver_octets_append: "driver_octets cb wr (xs @ ys) s = Option.bind (driver_octets cb wr xs s) (driver_octets cb wr ys)"
  by (induction cb wr xs s rule: driver_octets.induct) (simp_all split: bind_split)

text \<open>What follows the storing of an octet.\<close>

definition octet_stored :: "('b, 'm) rtc rtuart_callbacks option \<Rightarrow> bool \<Rightarrow> ('b, 'm) rtc \<Rightarrow> ('b, 'm) rtc option" where
  "octet_stored cb due s = do {
     b \<leftarrow> get_buffer RX_BUFFER s;
     if rb_transfered b \<ge> rb_validcount b \<or> rb_transfered b \<ge> rb_size b
     then rtuart_call_rx_end cb RX_BUFFER
            (s\<lparr>r_rx_buffer := 0, r_notify_mask := r_notify_mask s AND NOT RTUART_NOTIFY_RECEIVER_HASDATA\<rparr>)
     else if due then rtuart_call_rx_timeout cb RX_BUFFER s else Some s }"

lemma received_data_parts:
  assumes "get_buffer RX_BUFFER s = Some b" and "rb_transfered b < rb_validcount b" and "rb_transfered b < rb_size b"
  shows "rt_handle_received_data cb (\<lambda>r bus. Some (c, bus)) wr RX_BUFFER due s =
     do { s \<leftarrow> rtc_driver_octet c s; s \<leftarrow> rt_rx_triggers cb RX_BUFFER s; octet_stored cb due s }"
  using assms
  by (cases "rb_data b") (simp_all add: rt_handle_received_data_def rtc_driver_octet_def rt_read_def octet_stored_def buffer_addr_defs Let_def
      split: bind_split)

text \<open>The driver receives into the buffer of the port: \<open>n\<close> octets are expected, \<open>m\<close> is the trigger mask.\<close>

definition receiving :: "addr \<Rightarrow> u8 list \<Rightarrow> nat \<Rightarrow> u32 \<Rightarrow> rtc_port \<Rightarrow> ('b, 'm) rtc \<Rightarrow> bool" where
  "receiving a cs n m p s \<longleftrightarrow> receives a cs p s \<and> r_rx_buffer s = RX_BUFFER \<and> n \<le> 513 \<and>
     (\<exists>b. get_buffer RX_BUFFER s = Some b \<and> rb_validcount b = n \<and> rb_triggermask b = m \<and>
        (m \<noteq> 0 \<longrightarrow> m = 1 \<and> rb_trigger b ! 0 = 1 \<and> length (rb_trigger b) = 32))"

text \<open>The port has taken over a frame with these octets, as the newest of the received ones.\<close>

definition delivered :: "u8 list \<Rightarrow> ('b, 'm) rtc \<Rightarrow> ('b, 'm) rtc \<Rightarrow> bool" where
  "delivered cs s s' \<longleftrightarrow> (\<exists>a f. rtc_inv s' \<and> d_received (r_client s') = a # d_received (r_client s) \<and> d_frames (r_client s') a = Some f \<and>
     take (length cs) (f_data f) = cs \<and> f_payload_size f = of_nat (length cs - 1))"

lemma one_trigger:
  assumes "rb_triggermask b = 1" and "rb_trigger b ! 0 = t" and "length (rb_trigger b) = 32"
  shows "triggers_reached R b = Some (if R t then 1 else 0)"
  using assms
  by (simp add: triggers_reached_def RTUART_MAX_TRIGGERS_def upt_conv_Cons trigger_bit_def arr_get_def numeral_eq_Suc)

lemma octet_put:
  assumes "receiving a cs n m p s" and "length cs < n"
  shows "\<exists>s'. rtc_driver_octet c s = Some s' \<and> receiving a (cs @ [c]) n m p s' \<and> r_bus s' = r_bus s \<and>
     rt_handle_received_data cb (\<lambda>r bus. Some (c, bus)) wr (r_rx_buffer s) due s =
       do { s \<leftarrow> rt_rx_triggers cb RX_BUFFER s'; octet_stored cb due s }"
proof -
  have r: "receives a cs p s" "r_rx_buffer s = RX_BUFFER" "n \<le> 513" using assms(1) by (simp_all add: receiving_def)
  obtain b d where b: "get_buffer RX_BUFFER s = Some b" "rb_data b = Some d" "rb_transfered b = length cs" "length d = 513" "rb_size b = 513"
    using receives_buffer [OF r(1)] by blast
  have v: "rb_validcount b = n" "rb_triggermask b = m" "m \<noteq> 0 \<longrightarrow> m = 1 \<and> rb_trigger b ! 0 = 1 \<and> length (rb_trigger b) = 32"
    using assms(1) b(1) by (auto simp: receiving_def)
  let ?b = "b\<lparr>rb_data := Some (d[rb_transfered b := c]), rb_transfered := rb_transfered b + 1\<rparr>"
  have o: "rtc_driver_octet c s = Some (put_buffer RX_BUFFER ?b s)" using b r(3) assms(2) by (simp add: rtc_driver_octet_def arr_set_def)
  then have "receives a (cs @ [c]) p (put_buffer RX_BUFFER ?b s)" using receives_octet [OF r(1), of c] assms(2) r(3) by auto
  then have "receiving a (cs @ [c]) n m p (put_buffer RX_BUFFER ?b s)" using r v by (simp add: receiving_def buffer_addr_defs)
  moreover have "rt_handle_received_data cb (\<lambda>r bus. Some (c, bus)) wr RX_BUFFER due s =
      do { s \<leftarrow> rtc_driver_octet c s; s \<leftarrow> rt_rx_triggers cb RX_BUFFER s; octet_stored cb due s }"
    using received_data_parts [OF b(1)] b v(1) assms(2) r(3) by simp
  ultimately show ?thesis using o r(2) by simp
qed

lemma no_trigger:
  assumes "receiving a cs n m p s" and "m = 0 \<or> length cs \<le> 1"
  shows "rt_rx_triggers cb RX_BUFFER s = Some s"
proof -
  obtain b where b: "get_buffer RX_BUFFER s = Some b" "rb_transfered b = length cs" using receives_buffer assms(1) unfolding receiving_def by blast
  have "m \<noteq> 0 \<longrightarrow> m = 1 \<and> rb_trigger b ! 0 = 1 \<and> length (rb_trigger b) = 32" "rb_triggermask b = m" using assms(1) b(1) by (auto simp: receiving_def)
  then show ?thesis using b assms(2) one_trigger [of b 1] by (auto simp: rt_rx_triggers_def)
qed

text \<open>The trigger after the second octet looks at the start code.\<close>

definition frame_octets :: "u8 \<Rightarrow> rtc_slot_count_lock \<Rightarrow> nat" where
  "frame_octets c l = (if c = 0 \<and> sl_locked l then unat (sl_matching_slot_count l) + 1 else 513)"

lemma startcode_trigger:
  assumes "receiving a (c # c1 # cs) 513 1 p s" and "d_state p = RTPORT_EXPECT_STARTCODE" and "c \<noteq> SC_RDM"
    and "n = frame_octets c (d_lock p)" and "n \<le> 513"
  shows "\<exists>s'. rt_rx_triggers (Some (dmx512_rtuart_callbacks ops)) RX_BUFFER s = Some s' \<and> r_bus s' = r_bus s \<and>
     receiving a (c # c1 # cs) n 0 (p\<lparr>d_state := RTPORT_RECEIVE_DMXDATA\<rparr>) s'"
proof -
  have r: "receives a (c # c1 # cs) p s" "r_rx_buffer s = RX_BUFFER" using assms(1) by (simp_all add: receiving_def)
  have s: "rtc_inv s" "r_client s = p" "d_rx_frame p = a" "a \<noteq> 0" using r(1) by (simp_all add: receives_def)
  obtain b d where b: "get_buffer RX_BUFFER s = Some b" "rb_data b = Some d" "rb_transfered b = length (c # c1 # cs)"
      "take (length (c # c1 # cs)) d = c # c1 # cs" "length d = 513" "rb_size b = 513"
    using receives_buffer [OF r(1)] by blast
  have v: "rb_validcount b = 513" "rb_triggermask b = 1" "rb_trigger b ! 0 = 1" "length (rb_trigger b) = 32"
    using assms(1) b(1) by (auto simp: receiving_def)
  have d0: "arr_get d 0 = Some c"
    using b(4,5) by (cases d) (simp_all add: arr_get_def)
  let ?b = "b\<lparr>rb_validcount := n, rb_triggermask := 0\<rparr>" and ?s = "rtc_next_state RTPORT_RECEIVE_DMXDATA s"
  have t: "triggers_reached (\<lambda>t. rb_transfered b > unat t) b = Some 1" using one_trigger [OF v(2,3,4)] b(3) by simp
  have e: "b\<lparr>rb_validcount := 513, rb_triggermask := 0\<rparr> = b\<lparr>rb_triggermask := 0\<rparr>" using v(1) by (cases b) simp
  have "rt_rx_triggers (Some (dmx512_rtuart_callbacks ops)) RX_BUFFER s = Some (put_buffer RX_BUFFER ?b ?s)"
    using b(1,2) v t d0 s(2) assms(2-4)
    by (auto simp: e rt_rx_triggers_def rtuart_call_rx_trigger_def dmx512_rtuart_callbacks_def dmx512_rtuart_rx_trigger_def
        rtc_startcode_trigger_def frame_octets_def rtc_next_state_def buffer_addr_defs put_buffer_def get_buffer_def)
  moreover have "same_rx b ?b" by (simp add: same_rx_def)
  then have "rtc_inv (rtc_next_state RTPORT_RECEIVE_DMXDATA (put_buffer RX_BUFFER ?b s))"
    using receives_data [OF same_rx_inv [OF s(1) _ b(1)]] s assms(2) by simp
  moreover have "rtc_next_state RTPORT_RECEIVE_DMXDATA (put_buffer RX_BUFFER ?b s) = put_buffer RX_BUFFER ?b ?s"
    by (simp add: rtc_next_state_def put_buffer_def)
  ultimately show ?thesis
    using r s b v(1) assms(5) by (auto simp: receiving_def receives_def rtc_next_state_def buffer_addr_defs)
qed

lemma rx_end_delivers:
  assumes "receives a cs p s" and "d_state p = RTPORT_RECEIVE_DMXDATA" and "cs \<noteq> []"
    and "t = s\<lparr>r_rx_buffer := 0, r_notify_mask := k\<rparr>"
  shows "\<exists>s'. dmx512_rtuart_rx_end RX_BUFFER t = Some s' \<and> delivered cs s s' \<and> r_rx_buffer s' = 0 \<and>
     d_state (r_client s') = (if cs ! 0 = 0 then RTPORT_IDLE_AFTER_DMXDATA00 else RTPORT_IDLE)"
proof -
  have p: "rtc_inv s" "r_client s = p" "d_rx_frame p = a" "a \<noteq> 0" using assms(1) by (simp_all add: receives_def)
  have t: "r_client t = p" "get_buffer RX_BUFFER t = get_buffer RX_BUFFER s" "buffers_ok t = buffers_ok s" "attached 0 513 t = attached 0 513 s"
    using assms(4) p(2) attached_cong [of t s 0 513] buffers_ok_cong [of t s] by (simp_all add: get_buffer_def)
  have i: "frames_ok p" "buffers_ok t" "attached 0 513 t" "d_tx_frame p = 0" using p assms(2) t by (auto simp: rtc_inv_def)
  obtain b d where b: "get_buffer RX_BUFFER t = Some b" "rb_data b = Some d" "rb_transfered b = length cs" "take (length cs) d = cs"
      "length d = 513" "d_rx_data p = Some (a, 0)"
    using receives_buffer [OF assms(1)] t(2) by auto
  obtain g where g: "d_frames p a = Some g" "frame_wf g" using held_frame [OF i(1) held_rx] p by auto
  let ?f = "g\<lparr>f_data := d\<rparr>" and ?st = "if cs ! 0 = 0 then RTPORT_IDLE_AFTER_DMXDATA00 else RTPORT_IDLE"
  have blit: "blit (f_data g) 0 d = d" using g(2) b(5) by (simp add: blit_def frame_wf_def)
  have deref: "deref a (rtc_next_state st t) = Some ?f" "deref a t = Some ?f" for st
    using b g t(1) p(4) blit by (simp_all add: deref_def)
  have sc: "f_startcode ?f = cs ! 0" using b(4,5) assms(3) by (cases d; cases cs) (simp_all add: f_startcode_def)
  let ?s' = "rtc_received_frame a (store_frame a (?f\<lparr>f_payload_size := word_of_int (int (length cs) - 1)\<rparr>)
      (upd (\<lambda>p. p\<lparr>d_rx_frame := 0\<rparr>) (rtc_next_state ?st t)))"
  have e: "dmx512_rtuart_rx_end RX_BUFFER t = Some ?s'"
    using t(1) p assms(2) deref b(1,3) sc
    by (simp add: dmx512_rtuart_rx_end_def rtc_rx_end_dmx_def dmx512_rtuart_complete_rxframe_def Let_def)
  have "frame_wf (?f\<lparr>f_payload_size := word_of_int (int (length cs) - 1)\<rparr>)" using b(5) g(2) by (simp add: frame_wf_def)
  then have o: "frames_ok (r_client ?s')" "buffers_ok ?s'" "d_rx_frame (r_client ?s') = 0" "d_tx_frame (r_client ?s') = 0"
      "d_state (r_client ?s') = ?st" "d_received (r_client ?s') = a # d_received p"
      "d_frames (r_client ?s') a = Some (?f\<lparr>f_payload_size := word_of_int (int (length cs) - 1)\<rparr>)"
    using delivered_ok [of "rtc_next_state ?st t" a _ ?s'] i t(1) p(3,4) by simp_all
  have "word_of_int (int (length cs) - 1) = (of_nat (length cs - 1) :: u16)" using assms(3) by (cases cs) simp_all
  then have "delivered cs s ?s'" using o b(4) p(2) by (auto simp: delivered_def rtc_inv_def)
  moreover have "r_rx_buffer ?s' = 0" using assms(4) by (simp add: rtc_received_frame_def store_frame_def rtc_next_state_def)
  ultimately show ?thesis using e o(5) by blast
qed

lemma octet_finished:
  assumes "receiving a cs n 0 p s" and "d_state p = RTPORT_RECEIVE_DMXDATA" and "cs \<noteq> []"
  shows "(length cs < n \<longrightarrow> octet_stored (Some (dmx512_rtuart_callbacks ops)) due s = Some s) \<and>
     (length cs = n \<longrightarrow> (\<exists>s'. octet_stored (Some (dmx512_rtuart_callbacks ops)) due s = Some s' \<and> delivered cs s s' \<and> r_rx_buffer s' = 0 \<and>
        d_state (r_client s') = (if cs ! 0 = 0 then RTPORT_IDLE_AFTER_DMXDATA00 else RTPORT_IDLE)))"
proof -
  have r: "receives a cs p s" "n \<le> 513" using assms(1) by (simp_all add: receiving_def)
  obtain b where b: "get_buffer RX_BUFFER s = Some b" "rb_transfered b = length cs" "rb_size b = 513" using receives_buffer [OF r(1)] by blast
  have "rb_validcount b = n" using assms(1) b(1) by (auto simp: receiving_def)
  then show ?thesis
    using b r(2) rx_end_delivers [OF r(1) assms(2,3) refl, of "r_notify_mask s AND NOT RTUART_NOTIFY_RECEIVER_HASDATA"]
    by (auto simp: octet_stored_def rtc_call_defs dmx512_rtuart_rx_timeout_def)
qed

abbreviation port_callbacks :: "(dummy_bus, rtc_port) rtuart_16550 rtuart_callbacks option" where
  "port_callbacks \<equiv> Some (dmx512_rtuart_callbacks ops_16550)"

lemma more_octets:
  assumes "receiving a cs n 0 p s" and "d_state p = RTPORT_RECEIVE_DMXDATA" and "length cs + length xs \<le> n" and "cs \<noteq> []" and "length cs < n"
    and "ok_16550 s"
  shows "\<exists>s'. driver_octets port_callbacks wr xs s = Some s' \<and>
     (length cs + length xs < n \<longrightarrow> receiving a (cs @ map fst xs) n 0 p s' \<and> ok_16550 s') \<and>
     (length cs + length xs = n \<longrightarrow> delivered (cs @ map fst xs) s s' \<and> r_rx_buffer s' = 0 \<and>
        d_state (r_client s') = (if cs ! 0 = 0 then RTPORT_IDLE_AFTER_DMXDATA00 else RTPORT_IDLE))"
  using assms
proof (induction xs arbitrary: cs s)
  case (Cons x xs)
  obtain c due where x: "x = (c, due)" by fastforce
  obtain s1 where s1: "receiving a (cs @ [c]) n 0 p s1" "r_bus s1 = r_bus s"
      "rt_handle_received_data port_callbacks (\<lambda>r bus. Some (c, bus)) wr (r_rx_buffer s) due s = octet_stored port_callbacks due s1"
    using octet_put [OF Cons.prems(1,5), of c port_callbacks wr due] no_trigger by fastforce
  have rc: "r_client s1 = r_client s" using s1(1) Cons.prems(1) by (simp add: receiving_def receives_def)
  have fin: "length (cs @ [c]) < n \<Longrightarrow> octet_stored port_callbacks due s1 = Some s1"
    "length (cs @ [c]) = n \<Longrightarrow> \<exists>s'. octet_stored port_callbacks due s1 = Some s' \<and> delivered (cs @ [c]) s1 s' \<and> r_rx_buffer s' = 0 \<and>
        d_state (r_client s') = (if (cs @ [c]) ! 0 = 0 then RTPORT_IDLE_AFTER_DMXDATA00 else RTPORT_IDLE)"
    using octet_finished [OF s1(1) Cons.prems(2)] by blast+
  have ok: "ok_16550 s1" using Cons.prems(6) s1(2) by (simp add: ok_16550_def)
  have h: "(cs @ [c]) ! 0 = cs ! 0" using Cons.prems(4) by (cases cs) simp_all
  have del: "delivered ys s1 t = delivered ys s t" for ys t using rc by (simp add: delivered_def)
  show ?case
  proof (cases "length (cs @ [c]) < n")
    case True
    then show ?thesis
      using Cons.IH [OF s1(1) Cons.prems(2) _ _ True ok] Cons.prems(3) fin(1) s1(3) x h by (simp add: del)
  next
    case False
    then have "length (cs @ [c]) = n" "length xs = 0" using Cons.prems(3,5) unfolding length_append length_Cons list.size(3) by linarith+
    then show ?thesis using fin(2) s1(3) x h by (auto simp: del)
  qed
qed simp

lemma first_octets:
  assumes "receiving a [] 513 1 p s" and "d_state p = RTPORT_EXPECT_STARTCODE" and "c \<noteq> SC_RDM"
    and "n = frame_octets c (d_lock p)" and "n \<le> 513" and "1 < n"
  shows "\<exists>s'. r_bus s' = r_bus s \<and> receiving a [c, c1] n 0 (p\<lparr>d_state := RTPORT_RECEIVE_DMXDATA\<rparr>) s' \<and>
     driver_octets (Some (dmx512_rtuart_callbacks ops)) wr ((c, due) # (c1, due1) # xs) s =
       Option.bind (octet_stored (Some (dmx512_rtuart_callbacks ops)) due1 s') (driver_octets (Some (dmx512_rtuart_callbacks ops)) wr xs)"
proof -
  let ?cb = "Some (dmx512_rtuart_callbacks ops)"
  obtain s1 where s1: "receiving a [c] 513 1 p s1" "r_bus s1 = r_bus s"
      "rt_handle_received_data ?cb (\<lambda>r bus. Some (c, bus)) wr (r_rx_buffer s) due s = octet_stored ?cb due s1"
    using octet_put [OF assms(1), of c ?cb wr due] no_trigger [of a "[c]" 513 1] by fastforce
  obtain b where b: "get_buffer RX_BUFFER s1 = Some b" "rb_validcount b = 513" "rb_transfered b = 1" "rb_size b = 513"
    using s1(1) receives_buffer [of a "[c]" p s1] by (auto simp: receiving_def)
  have st: "octet_stored ?cb due s1 = Some s1" using b by (simp add: octet_stored_def rtc_call_defs dmx512_rtuart_rx_timeout_def)
  obtain s2 where s2: "receiving a [c, c1] 513 1 p s2" "r_bus s2 = r_bus s1"
      "rt_handle_received_data ?cb (\<lambda>r bus. Some (c1, bus)) wr (r_rx_buffer s1) due1 s1 =
         do { s \<leftarrow> rt_rx_triggers ?cb RX_BUFFER s2; octet_stored ?cb due1 s }"
    using octet_put [OF s1(1), of c1 ?cb wr due1] by auto
  obtain s3 where s3: "rt_rx_triggers ?cb RX_BUFFER s2 = Some s3" "r_bus s3 = r_bus s2"
      "receiving a [c, c1] n 0 (p\<lparr>d_state := RTPORT_RECEIVE_DMXDATA\<rparr>) s3"
    using startcode_trigger [OF s2(1) assms(2-5)] by blast
  show ?thesis using s1(2,3) st s2(2,3) s3 by (intro exI [of _ s3]) simp
qed

lemma frame_octets_received:
  assumes "receiving a [] 513 1 p s" and "d_state p = RTPORT_EXPECT_STARTCODE" and "c \<noteq> SC_RDM" and "ok_16550 s"
    and "map fst octets = c # slots" and "slots \<noteq> []" and "n = frame_octets c (d_lock p)" and "n \<le> 513" and "1 + length slots \<le> n"
  shows "\<exists>s'. driver_octets port_callbacks wr octets s = Some s' \<and>
     (1 + length slots < n \<longrightarrow> receiving a (c # slots) n 0 (p\<lparr>d_state := RTPORT_RECEIVE_DMXDATA\<rparr>) s' \<and> ok_16550 s') \<and>
     (1 + length slots = n \<longrightarrow> delivered (c # slots) s s' \<and> r_rx_buffer s' = 0 \<and>
        d_state (r_client s') = (if c = 0 then RTPORT_IDLE_AFTER_DMXDATA00 else RTPORT_IDLE))"
proof -
  obtain due c1 due1 xs where o: "octets = (c, due) # (c1, due1) # xs" "slots = c1 # map fst xs"
    using assms(5,6) by (cases slots) (auto simp: map_eq_Cons_conv)
  let ?p = "p\<lparr>d_state := RTPORT_RECEIVE_DMXDATA\<rparr>"
  obtain s1 where s1: "r_bus s1 = r_bus s" "receiving a [c, c1] n 0 ?p s1"
      "driver_octets port_callbacks wr octets s = Option.bind (octet_stored port_callbacks due1 s1) (driver_octets port_callbacks wr xs)"
    using first_octets [OF assms(1-3,7,8), where ops = ops_16550 and wr = wr and ?c1.0 = c1 and due = due and ?due1.0 = due1 and xs = xs]
      assms(6,9) o by auto
  have ok: "ok_16550 s1" using assms(4) s1(1) by (simp add: ok_16550_def)
  have rc: "r_client s = p" "r_client s1 = ?p" using assms(1) s1(2) by (simp_all add: receiving_def receives_def)
  have del: "delivered ys s1 t = delivered ys s t" for ys t using rc by (simp add: delivered_def)
  have n2: "2 + length xs \<le> n" using assms(9) o(2) by simp
  have fin: "2 < n \<longrightarrow> octet_stored port_callbacks due1 s1 = Some s1"
    "2 = n \<longrightarrow> (\<exists>s'. octet_stored port_callbacks due1 s1 = Some s' \<and> delivered [c, c1] s1 s' \<and> r_rx_buffer s' = 0 \<and>
        d_state (r_client s') = (if c = 0 then RTPORT_IDLE_AFTER_DMXDATA00 else RTPORT_IDLE))"
    using octet_finished [OF s1(2), of ops_16550 due1] by simp_all
  show ?thesis
  proof (cases "2 < n")
    case True
    then show ?thesis using more_octets [OF s1(2) _ _ _ _ ok, of xs wr] fin(1) s1(3) n2 o by (simp add: del)
  next
    case False
    then have "n = 2" "length xs = 0" using n2 by linarith+
    then show ?thesis using fin(2) s1(3) o by (auto simp: del)
  qed
qed

lemma break_starts_driver:
  fixes s :: "(dummy_bus, rtc_port) rtuart_16550"
  assumes "ok_16550 s" and "rtc_inv s" and "d_state (r_client s) \<in> {RTPORT_IDLE, RTPORT_IDLE_AFTER_DMXDATA00}" and "d_room (r_client s) \<noteq> 0"
  shows "\<exists>s'. dmx512_rtuart_rx_err ops_16550 RTUART_EV_BREAK s = Some s' \<and> ok_16550 s' \<and>
     receiving (d_rx_frame (r_client s')) [] 513 1 (r_client s') s' \<and> d_state (r_client s') = RTPORT_EXPECT_STARTCODE \<and>
     d_received (r_client s') = d_received (r_client s) \<and> d_lock (r_client s') = d_lock (r_client s)"
proof -
  let ?s = "rtc_next_state RTPORT_EXPECT_STARTCODE s"
  obtain s' where s': "dmx512_rtuart_rx_err ops_16550 RTUART_EV_BREAK s = Some s'" "ok_16550 s'"
      "receives (d_rx_frame (r_client s')) [] (r_client s') s'" "d_state (r_client s') = RTPORT_EXPECT_STARTCODE"
      "d_received (r_client s') = d_received (r_client s)"
    using rtc16550.break_starts [OF assms] by blast
  have "dmx512_rtuart_start_receive_data ops_16550 0 True ?s = Some s'"
    using s'(1) assms(3) by (auto simp: dmx512_rtuart_rx_err_def RTUART_EV_BREAK_def rtc_received_break_def)
  moreover have "frames_ok (r_client ?s)" "buffers_ok ?s" using assms(2) by (simp_all add: rtc_inv_def)
  ultimately have "r_rx_buffer s' = RX_BUFFER \<and> d_lock (r_client s') = d_lock (r_client ?s) \<and>
     (\<exists>b. get_buffer RX_BUFFER s' = Some b \<and> rb_validcount b = 513 \<and> rb_triggermask b = 1 \<and> rb_trigger b ! 0 = 1 \<and>
        length (rb_trigger b) = 32)"
    using rtc16550.start_receive_buffer [of ?s s'] assms(1,4) by (simp add: rtc16550.ok_steps)
  then show ?thesis using s' by (auto simp: receiving_def)
qed

text \<open>C16. A DMX512 frame comes through the PC16x50 driver to the port: an idle port with its UART ready, that can allocate a
  frame, sees a break, a start code other than the one of RDM and at least one slot, which the driver's
  receive routine takes octet by octet from the chip, calling the port back for the trigger that looks at the start code and
  for the end of the buffer. A frame shorter than expected (512 slots, or the number the slot count lock has for
  start code 0, when that is at most 512) is delivered by the next break, one with exactly that many slots with its
  last octet; it is then the newest of the received frames, with all the octets in order and the number of slots. After
  the last octet the port is idle, waiting for surplus octets when the start code was 0, and the driver's buffer is free.\<close>

theorem rtc_dmx_frame_received:
  fixes s :: "(dummy_bus, rtc_port) rtuart_16550"
  assumes "ok_16550 s" and "rtc_inv s" and "d_state (r_client s) \<in> {RTPORT_IDLE, RTPORT_IDLE_AFTER_DMXDATA00}" and "d_room (r_client s) \<noteq> 0"
    and "c \<noteq> SC_RDM" and "map fst octets = c # slots" and "slots \<noteq> []"
    and "n = (if c = 0 \<and> sl_locked (d_lock (r_client s)) then unat (sl_matching_slot_count (d_lock (r_client s))) else 512)"
    and "n \<le> 512" and "length slots \<le> n"
  shows "\<exists>s1 s2. dmx512_rtuart_rx_err ops_16550 RTUART_EV_BREAK s = Some s1 \<and>
     driver_octets (Some (dmx512_rtuart_callbacks ops_16550)) wr octets s1 = Some s2 \<and>
     (length slots < n \<longrightarrow> d_received (r_client s2) = d_received (r_client s) \<and>
        (\<exists>s3. dmx512_rtuart_rx_err ops_16550 RTUART_EV_BREAK s2 = Some s3 \<and> delivered (c # slots) s s3)) \<and>
     (length slots = n \<longrightarrow> delivered (c # slots) s s2 \<and> r_rx_buffer s2 = 0 \<and>
        d_state (r_client s2) = (if c = 0 then RTPORT_IDLE_AFTER_DMXDATA00 else RTPORT_IDLE))"
proof -
  let ?a = "\<lambda>s1. d_rx_frame (r_client s1)"
  obtain s1 where s1: "dmx512_rtuart_rx_err ops_16550 RTUART_EV_BREAK s = Some s1" "ok_16550 s1" "receiving (?a s1) [] 513 1 (r_client s1) s1"
      "d_state (r_client s1) = RTPORT_EXPECT_STARTCODE" "d_received (r_client s1) = d_received (r_client s)"
      "d_lock (r_client s1) = d_lock (r_client s)"
    using break_starts_driver [OF assms(1-4)] by blast
  let ?p = "(r_client s1)\<lparr>d_state := RTPORT_RECEIVE_DMXDATA\<rparr>"
  have n: "n + 1 = frame_octets c (d_lock (r_client s1))" using assms(8) s1(6) by (auto simp: frame_octets_def)
  have le: "n + 1 \<le> 513" "1 + length slots \<le> n + 1" using assms(9,10) by simp_all
  obtain s2 where s2: "driver_octets port_callbacks wr octets s1 = Some s2"
      "1 + length slots < n + 1 \<longrightarrow> receiving (?a s1) (c # slots) (n + 1) 0 ?p s2 \<and> ok_16550 s2"
      "1 + length slots = n + 1 \<longrightarrow> delivered (c # slots) s1 s2 \<and> r_rx_buffer s2 = 0 \<and>
        d_state (r_client s2) = (if c = 0 then RTPORT_IDLE_AFTER_DMXDATA00 else RTPORT_IDLE)"
    using frame_octets_received [OF s1(3,4) assms(5) s1(2) assms(6,7) n le, of wr] by blast
  have "\<exists>s3. dmx512_rtuart_rx_err ops_16550 RTUART_EV_BREAK s2 = Some s3 \<and> delivered (c # slots) s s3" "d_received (r_client s2) = d_received (r_client s)"
    if "length slots < n"
  proof -
    have r: "receives (?a s1) (c # slots) ?p s2" "ok_16550 s2" using s2(2) that by (simp_all add: receiving_def)
    show "\<exists>s3. dmx512_rtuart_rx_err ops_16550 RTUART_EV_BREAK s2 = Some s3 \<and> delivered (c # slots) s s3"
      using rtc16550.break_delivers [OF r] s1(5) by (fastforce simp: delivered_def)
    show "d_received (r_client s2) = d_received (r_client s)" using r(1) s1(5) by (simp add: receives_def)
  qed
  then show ?thesis using s1(1,5) s2(1,3) by (auto simp: delivered_def)
qed

theorem rtc_dmx_frame_received_witness:
  "\<exists>s s1 s2 s3 t1 t2. rtc_client_create ops_16550 False False False ''rts'' rtc_demo_env demo_u16550 = Some s \<and>
     dmx512_rtuart_rx_err ops_16550 RTUART_EV_BREAK s = Some s1 \<and>
     driver_octets (Some (dmx512_rtuart_callbacks ops_16550)) dummy_write_u8 [(0x17, False), (11, False), (22, True)] s1 = Some s2 \<and>
     dmx512_rtuart_rx_err ops_16550 RTUART_EV_BREAK s2 = Some s3 \<and> delivered [0x17, 11, 22] s s3 \<and>
     dmx512_rtuart_rx_err ops_16550 RTUART_EV_BREAK s = Some t1 \<and>
     driver_octets (Some (dmx512_rtuart_callbacks ops_16550)) dummy_write_u8 (map (\<lambda>c. (c, False)) (1 # replicate 512 7)) t1 = Some t2 \<and>
     delivered (1 # replicate 512 7) s t2"
proof -
  obtain s where s: "rtc_client_create ops_16550 False False False ''rts'' rtc_demo_env demo_u16550 = Some s" "ok_16550 s" "rtc_inv s"
      "d_state (r_client s) = RTPORT_IDLE" "d_room (r_client s) = d_room rtc_demo_env"
    using rtc16550.create_ok [OF demo_uarts(2,1,3), of False False False "''rts''"] by blast
  have idle: "d_state (r_client s) \<in> {RTPORT_IDLE, RTPORT_IDLE_AFTER_DMXDATA00}" "d_room (r_client s) \<noteq> 0"
    using s(4,5) by (simp_all add: rtc_demo_env_def)
  have n: "512 = (if (c :: u8) = 0 \<and> sl_locked (d_lock (r_client s)) then unat (sl_matching_slot_count (d_lock (r_client s))) else 512)"
    if "c \<noteq> 0" for c
    using that by simp
  have m: "map fst [(0x17 :: u8, False), (11, False), (22, True)] = 0x17 # [11, 22]"
    "map fst (map (\<lambda>c. (c, False)) (1 # replicate 512 7)) = (1 :: u8) # replicate 512 7" by (simp_all only: list.map map_replicate fst_conv map_map comp_def)
  have c: "(0x17 :: u8) \<noteq> SC_RDM" "(1 :: u8) \<noteq> SC_RDM" by (simp_all add: SC_RDM_def)
  have a: "\<exists>s1 s2 s3. dmx512_rtuart_rx_err ops_16550 RTUART_EV_BREAK s = Some s1 \<and>
     driver_octets (Some (dmx512_rtuart_callbacks ops_16550)) dummy_write_u8 [(0x17, False), (11, False), (22, True)] s1 = Some s2 \<and>
     dmx512_rtuart_rx_err ops_16550 RTUART_EV_BREAK s2 = Some s3 \<and> delivered [0x17, 11, 22] s s3"
    using rtc_dmx_frame_received [OF s(2,3) idle c(1) m(1) _ n [of "0x17"], of dummy_write_u8] by auto
  have b: "\<exists>t1 t2. dmx512_rtuart_rx_err ops_16550 RTUART_EV_BREAK s = Some t1 \<and>
     driver_octets (Some (dmx512_rtuart_callbacks ops_16550)) dummy_write_u8 (map (\<lambda>c. (c, False)) (1 # replicate 512 7)) t1 = Some t2 \<and>
     delivered (1 # replicate 512 7) s t2"
    using rtc_dmx_frame_received [OF s(2,3) idle c(2) m(2) _ n [of 1], of dummy_write_u8] by auto
  show ?thesis using s(1) a b by blast
qed

section \<open>What a timeout leaves behind\<close>

text \<open>C14. When the reply to a request is not complete in time, a port that is receiving it with room left in the receive buffer
  releases the frame it was receiving into and becomes idle, but does not stop the driver: the
  receive buffer is still in use and points into released memory. The next octet makes the PC16x50 driver write there.\<close>

theorem rtc_timeout_dangles:
  fixes s :: "('b, rtc_port) rtuart_16550"
  assumes "rtc_inv s" and "d_state (r_client s) = RTPORT_RECV_RDM_REPLY_DATA" and "d_rx_frame (r_client s) \<noteq> 0"
    and "r_rx_buffer s = RX_BUFFER" and "get_buffer RX_BUFFER s = Some b" and "rb_transfered b < rb_validcount b" and "rb_transfered b < rb_size b"
    and "rd PC16550_REG_RBR (r_bus s) = Some (v, bus)"
  shows "\<exists>s'. rtc_handle_rdm_timeout s = Some s' \<and> d_state (r_client s') = RTPORT_IDLE \<and> d_rx_frame (r_client s') = 0 \<and> r_rx_buffer s' = RX_BUFFER \<and>
     rt_handle_received_data cb rd wr (r_rx_buffer s') due s' = None"
proof -
  let ?r = "d_rx_frame (r_client s)" and ?a = "d_tx_frame (r_client s)" and ?s = "rtc_stop_rdm_timer s"
  have p: "frames_ok (r_client s)" "?a \<noteq> 0" "d_rx_data (r_client s) = Some (?r, 0)" using assms(1-3) by (auto simp: rtc_inv_def attached_def)
  define s1 where "s1 = rtc_release ?r (upd (\<lambda>p. p\<lparr>d_tx_frame := 0, d_rx_frame := 0\<rparr>) ?s)"
  have "rtc_put_frame ?r (upd (\<lambda>p. p\<lparr>d_tx_frame := 0, d_rx_frame := 0\<rparr>) ?s) = Some s1"
    using held_frame [OF p(1) held_rx [OF assms(3)]] assms(3) by (auto simp: rtc_put_frame_def s1_def)
  then have "rtc_handle_rdm_timeout s = Some (rtc_next_state RTPORT_IDLE (rtc_received_frame ?a s1))"
    using p(2) assms(2) by (simp add: rtc_handle_rdm_timeout_def dmx512_rtuart_handle_rdm_reply_timeout_def Let_def)
  moreover have b: "get_buffer RX_BUFFER s1 = Some (b\<lparr>rb_data := None\<rparr>)" using p(3) assms(5) by (simp add: s1_def get_buffer_release)
  moreover have bus: "r_bus s1 = r_bus s" "r_rx_buffer s1 = RX_BUFFER" using assms(4) by (simp_all add: s1_def rtc_stop_rdm_timer_def)
  moreover have "r_bus (rtc_next_state RTPORT_IDLE (rtc_received_frame ?a s1)) = r_bus s1" "r_rx_buffer (rtc_next_state RTPORT_IDLE (rtc_received_frame ?a s1)) = RX_BUFFER"
    using bus by (simp_all add: rtc_next_state_def rtc_received_frame_def)
  ultimately show ?thesis
    using assms(6-8) p(2) by (simp add: rt_handle_received_data_def rt_read_def buffer_addr_defs s1_def)
qed

text \<open>A port that receives a reply: one octet has come.\<close>

definition demo_late :: "(unit, rtc_port) rtuart_16550" where
  "demo_late = \<lparr>r_bus = (), r_notify_mask = 0, r_base_clock = 0, r_tx_buffer = 0, r_rx_buffer = RX_BUFFER, r_in_irq = False,
     r_buffers = [TX_BUFFER \<mapsto> zero_buffer,
       RX_BUFFER \<mapsto> zero_buffer\<lparr>rb_data := Some (SC_RDM # replicate 512 0), rb_size := 513, rb_validcount := 513, rb_transfered := 1\<rparr>],
     r_client = rtc_demo_env\<lparr>d_state := RTPORT_RECV_RDM_REPLY_DATA, d_tx_frame := 1, d_rx_frame := 2, d_rx_data := Some (2, 0),
       d_frames := [1 \<mapsto> zero_frame, 2 \<mapsto> zero_frame], d_next := 3\<rparr>, r_shadow_fcr = 0\<rparr>"

theorem rtc_timeout_dangles_witness:
  "\<exists>s'. rtc_handle_rdm_timeout demo_late = Some s' \<and> d_state (r_client s') = RTPORT_IDLE \<and> r_rx_buffer s' = RX_BUFFER \<and>
     rt_handle_received_data None (\<lambda>r b. Some (5, b)) (\<lambda>r v b. Some b) (r_rx_buffer s') False s' = None"
proof -
  let ?b = "zero_buffer\<lparr>rb_data := Some (SC_RDM # replicate 512 0), rb_size := 513, rb_validcount := 513, rb_transfered := 1\<rparr>"
  have b: "get_buffer RX_BUFFER demo_late = Some ?b" "get_buffer TX_BUFFER demo_late = Some zero_buffer"
    by (simp_all add: demo_late_def get_buffer_def buffer_addr_defs)
  have "frames_ok (r_client demo_late)"
    by (auto simp: demo_late_def rtc_demo_env_def frames_ok_def held_def frame_wf_def zero_frame_def split: if_splits)
  moreover have "buffers_ok demo_late" using b by (simp add: buffers_ok_def) (simp add: demo_late_def zero_buffer_def)
  moreover have "attached 0 513 demo_late" using b by (simp add: attached_def) (simp add: demo_late_def)
  ultimately have "rtc_inv demo_late" by (simp add: rtc_inv_def) (simp add: demo_late_def)
  then show ?thesis
    using rtc_timeout_dangles [of demo_late ?b "\<lambda>r b. Some (5, b)" 5 "()" None "\<lambda>r v b. Some b" False] b
    by (auto simp: demo_late_def)
qed

end
