(* ===== verification/Cuse_Cards.thy ===== *)
theory Cuse_Cards
  imports Cuse_Loop Dmx_Controller Dmx512_Suart
begin

text \<open>
  Three user space cards: one on a serial line of the system (\<^verbatim>\<open>src/src/cuse-drivers/dmx512_cuse_uart.c\<close>), one that sets the
  channels of a PWM controller (\<^verbatim>\<open>dmx512_cuse_pwm.c\<close>), and one with up to 32 ports on stream UARTs
  (\<^verbatim>\<open>src/src/simulation/dmx512_cuse_suart.c\<close>). Their information requests are the same up to the name of the
  product; the serial line is the operating system's.
\<close>

section \<open>Information requests\<close>

text \<open>What the three cards have in common.\<close>

record named_card =
  nc_customer_name :: string
  nc_port_label :: string

definition uart_card_tuples :: "u32 list" where
  "uart_card_tuples = [DMX4LINUX2_ID_MANUFACTURER, DMX4LINUX2_ID_PRODUCT, DMX4LINUX2_ID_SERIAL_NUMBER]"

definition uart_port_tuples :: "u32 list" where
  "uart_port_tuples = [DMX4LINUX2_ID_PORT_LABEL]"

text \<open>The table of keys is read for every tuple that has no key.\<close>

definition named_card_key :: "nat \<Rightarrow> kv list \<Rightarrow> kv list option" where
  "named_card_key i ts = do {
     t \<leftarrow> arr_get ts i;
     if kv_key t = DMX4LINUX2_ID_NONE then do {
       k \<leftarrow> arr_get uart_card_tuples i;
       arr_set ts i (t\<lparr>kv_key := k\<rparr>) }
     else Some ts }"

definition named_card_value :: "string \<Rightarrow> nat \<Rightarrow> kv list \<Rightarrow> kv list option" where
  "named_card_value product i ts = do {
     t \<leftarrow> arr_get ts i;
     v \<leftarrow> c_strcpy (kv_value t)
       (if kv_key t = DMX4LINUX2_ID_MANUFACTURER then ''LLG''
        else if kv_key t = DMX4LINUX2_ID_PRODUCT then product
        else if kv_key t = DMX4LINUX2_ID_SERIAL_NUMBER then ''????????'' else '''');
     arr_set ts i (t\<lparr>kv_value := v\<rparr>) }"

definition named_queryCardInfo ::
  "string \<Rightarrow> int \<Rightarrow> 'm named_card_scheme option \<Rightarrow> dmx4linux2_info \<Rightarrow> kv list option \<Rightarrow>
   (int \<times> dmx4linux2_info \<times> kv list option) option" where
  "named_queryCardInfo product cardno user cardinfo tuples = (
     if user = None then Some (-1, cardinfo, tuples)
     else
       let cardinfo = cardinfo\<lparr>in_card_index := cardno, in_number := 1\<rparr>; n = nat (in_tuple_count cardinfo)
       in case tuples of
         Some ts \<Rightarrow> do {
           ts \<leftarrow> for_each [0..<n] named_card_key ts;
           ts \<leftarrow> for_each [0..<min n (length uart_card_tuples)] (named_card_value product) ts;
           Some (0, cardinfo, Some ts) }
       | None \<Rightarrow> Some (0, cardinfo\<lparr>in_tuple_count := int (length uart_card_tuples)\<rparr>, None))"

definition named_change_name :: "kv list \<Rightarrow> nat \<Rightarrow> 'm named_card_scheme \<Rightarrow> 'm named_card_scheme option" where
  "named_change_name ts i user = do {
     t \<leftarrow> arr_get ts i;
     if kv_key t = DMX4LINUX2_ID_CUSTOMER_NAME then do {
       v \<leftarrow> c_strncpy (nc_customer_name user) (kv_value t);
       Some (user\<lparr>nc_customer_name := v\<rparr>) }
     else Some user }"

definition named_changeCardInfo ::
  "int \<Rightarrow> dmx4linux2_info \<Rightarrow> kv list option \<Rightarrow> 'm named_card_scheme option \<Rightarrow> (int \<times> 'm named_card_scheme option) option" where
  "named_changeCardInfo cardno cardinfo tuples user = (case user of
     None \<Rightarrow> Some (-1, None)
   | Some u \<Rightarrow>
       if in_card_index cardinfo \<noteq> cardno then Some (-1, user)
       else case tuples of
         None \<Rightarrow> Some (0, user)
       | Some ts \<Rightarrow>
           if in_tuple_count cardinfo > 0 then do {
             u \<leftarrow> for_each [0..<nat (in_tuple_count cardinfo)] (named_change_name ts) u;
             Some (0, Some u) }
           else Some (0, user))"

definition named_port_key :: "nat \<Rightarrow> kv list \<Rightarrow> kv list option" where
  "named_port_key i ts = do {
     t \<leftarrow> arr_get ts i;
     if kv_key t = DMX4LINUX2_ID_NONE then do {
       k \<leftarrow> arr_get uart_port_tuples i;
       arr_set ts i (t\<lparr>kv_key := k\<rparr>) }
     else Some ts }"

definition named_port_value :: "'m named_card_scheme \<Rightarrow> nat \<Rightarrow> kv list \<Rightarrow> kv list option" where
  "named_port_value user i ts = do {
     t \<leftarrow> arr_get ts i;
     t \<leftarrow> (if kv_key t = DMX4LINUX2_ID_PORT_LABEL then do {
               v \<leftarrow> c_strncpy (kv_value t) (nc_port_label user);
               Some (t\<lparr>kv_value := v, kv_changable := False, kv_maxlength := 63\<rparr>) }
           else Some (t\<lparr>kv_key := DMX4LINUX2_ID_NONE\<rparr>));
     arr_set ts i t }"

definition named_queryPortInfo ::
  "int \<Rightarrow> 'm named_card_scheme option \<Rightarrow> dmx4linux2_info \<Rightarrow> kv list option \<Rightarrow> int \<Rightarrow>
   (int \<times> dmx4linux2_info \<times> kv list option) option" where
  "named_queryPortInfo cardno user portinfo tuples portIndex = (case user of
     None \<Rightarrow> Some (-1, portinfo, tuples)
   | Some u \<Rightarrow>
       if portIndex \<ge> 1 then Some (-1, portinfo, tuples)
       else
         let portinfo = portinfo\<lparr>in_card_index := cardno, in_number := portIndex\<rparr>; n = nat (in_tuple_count portinfo)
         in case (if in_tuple_count portinfo > 0 then tuples else None) of
           Some ts \<Rightarrow> do {
             ts \<leftarrow> for_each [0..<min n (length uart_port_tuples)] named_port_key ts;
             ts \<leftarrow> for_each [0..<n] (named_port_value u) ts;
             Some (0, portinfo, Some ts) }
         | None \<Rightarrow> Some (0, portinfo\<lparr>in_tuple_count := int (length uart_port_tuples)\<rparr>, tuples))"

definition named_change_label :: "kv list \<Rightarrow> nat \<Rightarrow> 'm named_card_scheme \<Rightarrow> 'm named_card_scheme option" where
  "named_change_label ts i user = do {
     t \<leftarrow> arr_get ts i;
     if kv_key t = DMX4LINUX2_ID_PORT_LABEL then do {
       v \<leftarrow> c_strncpy (nc_port_label user) (kv_value t);
       Some (user\<lparr>nc_port_label := v\<rparr>) }
     else Some user }"

definition named_changePortInfo ::
  "int \<Rightarrow> dmx4linux2_info \<Rightarrow> kv list option \<Rightarrow> int \<Rightarrow> 'm named_card_scheme option \<Rightarrow> (int \<times> 'm named_card_scheme option) option" where
  "named_changePortInfo cardno portinfo tuples portIndex user = (case user of
     None \<Rightarrow> Some (-1, None)
   | Some u \<Rightarrow>
       if portIndex \<ge> 1 then Some (-1, user)
       else if in_card_index portinfo \<noteq> cardno then Some (-1, user)
       else if in_number portinfo \<noteq> portIndex then Some (-1, user)
       else case tuples of
         None \<Rightarrow> Some (0, user)
       | Some ts \<Rightarrow>
           if in_tuple_count portinfo > 0 then do {
             u \<leftarrow> for_each [0..<nat (in_tuple_count portinfo)] (named_change_label ts) u;
             Some (0, Some u) }
           else Some (0, user))"

section \<open>The serial line of the system\<close>

text \<open>
  \<open>tty_os\<close> is what the system calls give: whether the requests succeed, the results of successive queries of the line status, and
  whether the sleep between them is not interrupted. \<open>tty\<close> is the line: modem outputs, speed, the settings of
  \<open>serial_struct\<close> and \<open>termios\<close>, and the octets that were written with the speed they were written at.
\<close>

record tty_os =
  te_mget :: bool
  te_mset :: bool
  te_gserial :: bool
  te_sserial :: bool
  te_setattr :: bool
  te_lsr :: "nat \<Rightarrow> u32 option"
  te_sleep :: "nat \<Rightarrow> bool"

record tty =
  ty_status :: u32
  ty_speed :: nat
  ty_baud_base :: int
  ty_divisor :: int
  ty_flags :: u32
  ty_cflag :: u32
  ty_raw :: bool
  ty_out :: "(nat \<times> u8) list"

definition TIOCM_RTS :: u32 where "TIOCM_RTS = 4"
definition TIOCSER_TEMT :: u32 where "TIOCSER_TEMT = 1"
definition ASYNC_SPD_MASK :: u32 where "ASYNC_SPD_MASK = 0x1030"
definition ASYNC_SPD_CUST :: u32 where "ASYNC_SPD_CUST = 0x30"
definition TTY_CSIZE :: u32 where "TTY_CSIZE = 0x30"
definition TTY_CS8 :: u32 where "TTY_CS8 = 0x30"
definition TTY_CSTOPB :: u32 where "TTY_CSTOPB = 0x40"
definition TTY_PARENB :: u32 where "TTY_PARENB = 0x100"
definition TTY_PARODD :: u32 where "TTY_PARODD = 0x200"
definition TTY_CRTSCTS :: u32 where "TTY_CRTSCTS = 0x80000000"

definition uartdmx_set_rts :: "tty_os \<Rightarrow> bool \<Rightarrow> tty \<Rightarrow> int \<times> tty" where
  "uartdmx_set_rts E level t = (
     if \<not> te_mget E then (0, t)
     else
       let status = (if level then ty_status t OR TIOCM_RTS else ty_status t AND NOT TIOCM_RTS)
       in if \<not> te_mset E then (0, t) else (1, t\<lparr>ty_status := status\<rparr>))"

definition tty_set_speed :: "tty_os \<Rightarrow> nat \<Rightarrow> tty \<Rightarrow> int \<times> tty" where
  "tty_set_speed E speed t = (if te_setattr E then (0, t\<lparr>ty_speed := speed\<rparr>) else (-1, t))"

definition uartdmx_select_dmx_baudrate :: "tty_os \<Rightarrow> tty \<Rightarrow> int \<times> tty" where
  "uartdmx_select_dmx_baudrate E t = tty_set_speed E 38400 t"

definition uartdmx_select_break_baudrate :: "tty_os \<Rightarrow> tty \<Rightarrow> int \<times> tty" where
  "uartdmx_select_break_baudrate E t = tty_set_speed E 19200 t"

text \<open>The loop from the \<open>i\<close>-th query on. It does not return while the line is busy and every sleep is interrupted.\<close>

partial_function (option) wait_from :: "tty_os \<Rightarrow> nat \<Rightarrow> int \<Rightarrow> int option" where
  "wait_from E i timeoutUs = (case te_lsr E i of
     None \<Rightarrow> Some 0
   | Some result \<Rightarrow>
       if result = TIOCSER_TEMT then Some 0
       else
         let timeoutUs = (if te_sleep E i then timeoutUs - 500 else timeoutUs)
         in if timeoutUs < 0 then Some (-1) else wait_from E (i + 1) timeoutUs)"

definition uartdmx_waitUntilTransmitterEmpty :: "tty_os \<Rightarrow> int \<Rightarrow> int option" where
  "uartdmx_waitUntilTransmitterEmpty E timeoutMicroseconds = wait_from E 0 timeoutMicroseconds"

definition DMX_BAUDRATE :: int where "DMX_BAUDRATE = 250000"

definition uartdmx_configure_uart :: "tty_os \<Rightarrow> int \<Rightarrow> tty \<Rightarrow> int \<times> tty" where
  "uartdmx_configure_uart E fh t = (
     if fh = -1 then (5, t)
     else if \<not> te_gserial E then (1, t)
     else if ty_baud_base t < DMX_BAUDRATE then (2, t)
     else if \<not> te_sserial E then (3, t)
     else
       let t = t\<lparr>ty_divisor := ty_baud_base t div DMX_BAUDRATE, ty_flags := ty_flags t AND NOT ASYNC_SPD_MASK OR ASYNC_SPD_CUST\<rparr>;
           cflag = ty_cflag t AND NOT (TTY_CSIZE OR TTY_PARENB) OR TTY_CS8;
           cflag = cflag AND NOT TTY_CSIZE;
           cflag = cflag OR TTY_CS8;
           cflag = cflag AND NOT (TTY_PARENB OR TTY_PARODD);
           cflag = cflag OR TTY_CSTOPB;
           cflag = cflag AND NOT TTY_CRTSCTS
       in if te_setattr E then (0, t\<lparr>ty_speed := 38400, ty_cflag := cflag, ty_raw := True\<rparr>) else (4, t))"

definition uartdmx_send_break :: "tty_os \<Rightarrow> tty \<Rightarrow> tty option" where
  "uartdmx_send_break E t = (
     let t = snd (uartdmx_select_break_baudrate E t);
         t = t\<lparr>ty_out := ty_out t @ [(ty_speed t, 0)]\<rparr> in do {
     r \<leftarrow> uartdmx_waitUntilTransmitterEmpty E 1000;
     Some (snd (uartdmx_select_dmx_baudrate E t)) })"

section \<open>The card on a serial line\<close>

record uartdmx_card = named_card +
  uc_uartname :: string
  uc_uartfd :: int

definition uartdmx_queryCardInfo ::
  "int \<Rightarrow> uartdmx_card option \<Rightarrow> dmx4linux2_info \<Rightarrow> kv list option \<Rightarrow> (int \<times> dmx4linux2_info \<times> kv list option) option" where
  "uartdmx_queryCardInfo cardno user cardinfo tuples = named_queryCardInfo ''UART'' cardno user cardinfo tuples"

definition uartdmx_changeCardInfo ::
  "int \<Rightarrow> dmx4linux2_info \<Rightarrow> kv list option \<Rightarrow> uartdmx_card option \<Rightarrow> (int \<times> uartdmx_card option) option" where
  "uartdmx_changeCardInfo cardno cardinfo tuples user = named_changeCardInfo cardno cardinfo tuples user"

definition uartdmx_queryPortInfo ::
  "int \<Rightarrow> uartdmx_card option \<Rightarrow> dmx4linux2_info \<Rightarrow> kv list option \<Rightarrow> int \<Rightarrow> (int \<times> dmx4linux2_info \<times> kv list option) option" where
  "uartdmx_queryPortInfo cardno user portinfo tuples portIndex = named_queryPortInfo cardno user portinfo tuples portIndex"

definition uartdmx_changePortInfo ::
  "int \<Rightarrow> dmx4linux2_info \<Rightarrow> kv list option \<Rightarrow> int \<Rightarrow> uartdmx_card option \<Rightarrow> (int \<times> uartdmx_card option) option" where
  "uartdmx_changePortInfo cardno portinfo tuples portIndex user = named_changePortInfo cardno portinfo tuples portIndex user"

text \<open>\<open>fd\<close> is the result of \<open>open\<close>.\<close>

definition uartdmx_init :: "tty_os \<Rightarrow> int \<Rightarrow> uartdmx_card \<Rightarrow> tty \<Rightarrow> int \<times> uartdmx_card \<times> tty" where
  "uartdmx_init E fd user t = (
     let user = user\<lparr>uc_uartfd := fd\<rparr>
     in if fd < 0 then (-1, user, t)
        else case uartdmx_configure_uart E fd t of (r, t) \<Rightarrow> (r, user, t))"

text \<open>The descriptor that is closed.\<close>

definition uartdmx_cleanup :: "uartdmx_card \<Rightarrow> int option" where
  "uartdmx_cleanup user = (if uc_uartfd user \<ge> 0 then Some (uc_uartfd user) else None)"

text \<open>The code that writes the data of the frame is disabled.\<close>

definition uartdmx_sendFrame :: "tty_os \<Rightarrow> uartdmx_card \<Rightarrow> dmx512frame \<Rightarrow> tty \<Rightarrow> tty option" where
  "uartdmx_sendFrame E user frame t = (
     if uc_uartfd user \<ge> 0 \<and> f_port frame = 0 then do {
       let t = snd (uartdmx_set_rts E True t);
       t \<leftarrow> (if f_flags frame AND DMX512_FLAG_NOBREAK = 0 then uartdmx_send_break E t else Some t);
       Some (snd (uartdmx_set_rts E False t)) }
     else Some t)"

text \<open>The cards that \<open>main\<close> sets up, at most four; the name of the device is copied without a check of its length.\<close>

definition uartdmx_main_card :: "nat \<Rightarrow> string \<Rightarrow> uartdmx_card option" where
  "uartdmx_main_card i name = do {
     uartname \<leftarrow> c_strcpy (replicate 64 NUL) name;
     customer_name \<leftarrow> c_strcpy (replicate 64 NUL) ''customer label'';
     port_label \<leftarrow> c_strcpy (replicate 64 NUL) (''UART'' @ [char_of (48 + i)]);
     Some \<lparr>nc_customer_name = customer_name, nc_port_label = port_label, uc_uartname = uartname, uc_uartfd = -1\<rparr> }"

definition uartdmx_main_cards :: "string list \<Rightarrow> uartdmx_card list option" where
  "uartdmx_main_cards args = those (map (\<lambda>i. uartdmx_main_card i (args ! i)) [0..<min 4 (length args)])"

section \<open>The PWM card\<close>

record 'd pwmdmx_card = named_card +
  pw_uio_name :: string
  pw_uio :: "'d option"

definition pwmdmx_queryCardInfo ::
  "int \<Rightarrow> 'd pwmdmx_card option \<Rightarrow> dmx4linux2_info \<Rightarrow> kv list option \<Rightarrow> (int \<times> dmx4linux2_info \<times> kv list option) option" where
  "pwmdmx_queryCardInfo cardno user cardinfo tuples = named_queryCardInfo ''PWM'' cardno user cardinfo tuples"

definition pwmdmx_changeCardInfo ::
  "int \<Rightarrow> dmx4linux2_info \<Rightarrow> kv list option \<Rightarrow> 'd pwmdmx_card option \<Rightarrow> (int \<times> 'd pwmdmx_card option) option" where
  "pwmdmx_changeCardInfo cardno cardinfo tuples user = named_changeCardInfo cardno cardinfo tuples user"

definition pwmdmx_queryPortInfo ::
  "int \<Rightarrow> 'd pwmdmx_card option \<Rightarrow> dmx4linux2_info \<Rightarrow> kv list option \<Rightarrow> int \<Rightarrow> (int \<times> dmx4linux2_info \<times> kv list option) option" where
  "pwmdmx_queryPortInfo cardno user portinfo tuples portIndex = named_queryPortInfo cardno user portinfo tuples portIndex"

definition pwmdmx_changePortInfo ::
  "int \<Rightarrow> dmx4linux2_info \<Rightarrow> kv list option \<Rightarrow> int \<Rightarrow> 'd pwmdmx_card option \<Rightarrow> (int \<times> 'd pwmdmx_card option) option" where
  "pwmdmx_changePortInfo cardno portinfo tuples portIndex user = named_changePortInfo cardno portinfo tuples portIndex user"

text \<open>\<open>opened\<close> is the result of \<open>uio_open\<close>.\<close>

definition pwmdmx_init :: "'d option \<Rightarrow> 'd pwmdmx_card \<Rightarrow> int \<times> 'd pwmdmx_card" where
  "pwmdmx_init opened user = (let user = user\<lparr>pw_uio := opened\<rparr> in if pw_uio user = None then (-1, user) else (0, user))"

text \<open>The handle that is closed.\<close>

definition pwmdmx_cleanup :: "'d pwmdmx_card \<Rightarrow> 'd option" where
  "pwmdmx_cleanup user = pw_uio user"

definition pwmdmx_sendFrame :: "'d uio_dev \<Rightarrow> 'd pwmdmx_card \<Rightarrow> dmx512frame option \<Rightarrow> (int \<times> 'd pwmdmx_card) option" where
  "pwmdmx_sendFrame D user frame = (case frame of
     None \<Rightarrow> Some (-1, user)
   | Some f \<Rightarrow>
       if pw_uio user \<noteq> None \<and> f_port f = 0 \<and> f_payload_size f > 0 then do {
         c \<leftarrow> arr_get (f_data f) 0;
         if c = 0 then do {
           h \<leftarrow> for_each [0..<min 512 (unat (f_payload_size f) - 1)]
             (\<lambda>i h. do { v \<leftarrow> arr_get (f_data f) (i + 1); Some (uio_poke D (i * 4) (ucast v) h) }) (pw_uio user);
           Some (0, user\<lparr>pw_uio := h\<rparr>) }
         else Some (-1, user) }
       else Some (-1, user))"

section \<open>The card on stream UARTs\<close>

text \<open>\<open>sp_uart\<close> is the port of the stream UART or null; \<open>sp_has_card\<close> whether the back pointer is set.\<close>

record 'e scard_port =
  sp_uart :: "'e suart_s option"
  sp_has_card :: bool
  sp_portno :: int
  sp_uio_index :: int

record 'e scard = named_card +
  sc_ports :: "'e scard_port list"
  sc_num_ports :: int
  sc_card :: addr

definition suartdmx_queryCardInfo ::
  "int \<Rightarrow> 'e scard option \<Rightarrow> dmx4linux2_info \<Rightarrow> kv list option \<Rightarrow> (int \<times> dmx4linux2_info \<times> kv list option) option" where
  "suartdmx_queryCardInfo cardno user cardinfo tuples = named_queryCardInfo ''UART'' cardno user cardinfo tuples"

definition suartdmx_changeCardInfo ::
  "int \<Rightarrow> dmx4linux2_info \<Rightarrow> kv list option \<Rightarrow> 'e scard option \<Rightarrow> (int \<times> 'e scard option) option" where
  "suartdmx_changeCardInfo cardno cardinfo tuples user = named_changeCardInfo cardno cardinfo tuples user"

definition suartdmx_queryPortInfo ::
  "int \<Rightarrow> 'e scard option \<Rightarrow> dmx4linux2_info \<Rightarrow> kv list option \<Rightarrow> int \<Rightarrow> (int \<times> dmx4linux2_info \<times> kv list option) option" where
  "suartdmx_queryPortInfo cardno user portinfo tuples portIndex = named_queryPortInfo cardno user portinfo tuples portIndex"

definition suartdmx_changePortInfo ::
  "int \<Rightarrow> dmx4linux2_info \<Rightarrow> kv list option \<Rightarrow> int \<Rightarrow> 'e scard option \<Rightarrow> (int \<times> 'e scard option) option" where
  "suartdmx_changePortInfo cardno portinfo tuples portIndex user = named_changePortInfo cardno portinfo tuples portIndex user"

text \<open>The callback of a port: \<open>handle\<close> is the port, \<open>dmx_data\<close> points to its data.\<close>

definition suartdmx_frame :: "int \<Rightarrow> int \<Rightarrow> u8 list \<Rightarrow> int \<Rightarrow> dmx512frame option" where
  "suartdmx_frame portno flags dmx_data dmxsize = (
     let n = (word_of_int (if dmxsize < 513 then dmxsize else 513) :: u16) in do {
     octets \<leftarrow> arr_slice dmx_data 0 (unat n);
     d \<leftarrow> arr_blit (f_data zero_frame) 0 octets;
     Some (zero_frame\<lparr>f_port := word_of_int portno, f_flags := word_of_int flags, f_breaksize := 88 div 4, f_payload_size := n, f_data := d\<rparr>) })"

definition suartdmx_receive_frame ::
  "(req \<Rightarrow> bool) \<Rightarrow> addr \<Rightarrow> 'e scard_port option \<Rightarrow> int \<Rightarrow> u8 list \<Rightarrow> int \<Rightarrow> cuse \<Rightarrow> cuse option" where
  "suartdmx_receive_frame interrupted card_addr handle flags dmx_data dmxsize s = (case handle of
     None \<Rightarrow> Some s
   | Some port \<Rightarrow>
       if sp_has_card port then do {
         frame \<leftarrow> suartdmx_frame (sp_portno port) flags dmx_data dmxsize;
         dmx512_cuse_handle_received_frame interrupted card_addr frame s }
       else Some s)"

text \<open>The ports from \<open>i\<close> on; \<open>create\<close> is the creation of the port with an index. A failure leaves the ports created before.\<close>

fun suartdmx_init_ports :: "nat \<Rightarrow> nat \<Rightarrow> (int \<Rightarrow> 'e suart_s option) \<Rightarrow> 'e scard_port list \<Rightarrow> (bool \<times> 'e scard_port list) option" where
  "suartdmx_init_ports 0 i create ports = Some (True, ports)"
| "suartdmx_init_ports (Suc n) i create ports = do {
     p \<leftarrow> arr_get ports i;
     (case create (sp_uio_index p) of
        None \<Rightarrow> map_option (Pair False) (arr_set ports i (p\<lparr>sp_uart := None\<rparr>))
      | Some u \<Rightarrow> do {
          ports \<leftarrow> arr_set ports i (p\<lparr>sp_uart := Some u, sp_has_card := True, sp_portno := int i\<rparr>);
          suartdmx_init_ports n (i + 1) create ports }) }"

definition suartdmx_init :: "(int \<Rightarrow> 'e suart_s option) \<Rightarrow> addr \<Rightarrow> 'e scard \<Rightarrow> (int \<times> 'e scard) option" where
  "suartdmx_init create crd user = do {
     (done, ports) \<leftarrow> suartdmx_init_ports (nat (sc_num_ports user)) 0 create (sc_ports user);
     Some (if done then (0, user\<lparr>sc_ports := ports, sc_card := crd\<rparr>) else (-1, user\<lparr>sc_ports := ports\<rparr>)) }"

text \<open>The ports that are deleted.\<close>

definition suartdmx_cleanup :: "'e scard \<Rightarrow> 'e suart_s option list option" where
  "suartdmx_cleanup user = map_option (map sp_uart) (arr_slice (sc_ports user) 0 (nat (sc_num_ports user)))"

text \<open>Calls with a null port do nothing.\<close>

definition on_port :: "('e suart_s \<Rightarrow> 'e suart_s option) \<Rightarrow> 'e suart_s option \<Rightarrow> 'e suart_s option option" where
  "on_port f u = (case u of None \<Rightarrow> Some None | Some u \<Rightarrow> map_option Some (f u))"

definition suartdmx_sendFrame ::
  "('e, suart_event) kfifo_ops \<Rightarrow> suart_event list \<Rightarrow> dmx512frame \<Rightarrow> 'e scard \<Rightarrow> 'e scard option" where
  "suartdmx_sendFrame k memory frame user = (
     if int (unat (f_port frame)) < sc_num_ports user \<and> f_payload_size frame \<le> 513 then do {
       p \<leftarrow> arr_get (sc_ports user) (unat (f_port frame));
       u \<leftarrow> on_port (dmx512suart_set_dtr k True) (sp_uart p);
       u \<leftarrow> on_port (dmx512suart_send_frame k memory (ucast (f_flags frame)) (f_data frame) (int (unat (f_payload_size frame)))) u;
       u \<leftarrow> on_port (dmx512suart_set_dtr k False) u;
       ports \<leftarrow> arr_set (sc_ports user) (unat (f_port frame)) (p\<lparr>sp_uart := u\<rparr>);
       Some (user\<lparr>sc_ports := ports\<rparr>) }
     else Some user)"

text \<open>What \<open>main\<close> sets up: \<open>indices\<close> are the numbers behind the card number, at most 32 are used.\<close>

definition suartdmx_main_card :: "int list \<Rightarrow> 'e scard option" where
  "suartdmx_main_card indices = do {
     let n = min (length indices) 32;
     let port = \<lparr>sp_uart = None, sp_has_card = False, sp_portno = 0, sp_uio_index = 0\<rparr>;
     let ports = map (\<lambda>i. port\<lparr>sp_uio_index := indices ! i\<rparr>) [0..<n] @ replicate (32 - n) port;
     customer_name \<leftarrow> c_strcpy (replicate 64 NUL) ''customer label'';
     port_label \<leftarrow> c_strcpy (replicate 64 NUL) ''UART0'';
     Some \<lparr>nc_customer_name = customer_name, nc_port_label = port_label, sc_ports = ports, sc_num_ports = int n, sc_card = 0\<rparr> }"

section \<open>Labels\<close>

text \<open>The label of the port of a card can be changed and read back, for each of the three cards; the answer says that it cannot be
  changed.\<close>

lemma named_label_roundtrip:
  assumes "length (nc_port_label u) = 64" and "kv_key t = DMX4LINUX2_ID_PORT_LABEL" and "length (kv_value t) = 256"
    and "length (c_string (kv_value t)) < 64" and "in_card_index pi = cardno" and "in_number pi = 0" and "in_tuple_count pi = 1"
    and "kv_key t' = DMX4LINUX2_ID_PORT_LABEL" and "length (kv_value t') = 256" and "in_tuple_count pi' = 1"
  shows "\<exists>u' out r. named_changePortInfo cardno pi (Some [t]) 0 (Some u) = Some (0, Some u') \<and> length (nc_port_label u') = 64 \<and>
     named_queryPortInfo cardno (Some u') pi' (Some [t']) 0 = Some (0, out, Some [r]) \<and>
     c_string (kv_value r) = c_string (kv_value t) \<and> \<not> kv_changable r"
proof -
  obtain a where a: "c_strncpy (nc_port_label u) (kv_value t) = Some a" "length a = 64" "c_string a = c_string (kv_value t)"
    using c_strncpy_spec [of "kv_value t" "nc_port_label u"] assms(1,3,4) by auto
  obtain b where b: "c_strncpy (kv_value t') a = Some b" "c_string b = c_string a"
    using c_strncpy_spec [of a "kv_value t'"] assms(4,9) a by auto
  have "named_changePortInfo cardno pi (Some [t]) 0 (Some u) = Some (0, Some (u\<lparr>nc_port_label := a\<rparr>))"
    using assms(2,5-7) a(1) by (simp add: named_changePortInfo_def named_change_label_def arr_get_def)
  moreover have "named_queryPortInfo cardno (Some (u\<lparr>nc_port_label := a\<rparr>)) pi' (Some [t']) 0 =
      Some (0, pi'\<lparr>in_card_index := cardno, in_number := 0\<rparr>, Some [t'\<lparr>kv_value := b, kv_changable := False, kv_maxlength := 63\<rparr>])"
    using assms(8,10) b(1)
    by (simp add: named_queryPortInfo_def named_port_key_def named_port_value_def arr_get_def arr_set_def Let_def
        uart_port_tuples_def tuple_id_defs)
  ultimately show ?thesis using a b(2) by auto
qed

text \<open>A query of a card with four tuples without keys reads behind the table of keys.\<close>

theorem card_query_overruns:
  assumes "length ts = 4" and "\<forall>t \<in> set ts. kv_key t = DMX4LINUX2_ID_NONE" and "in_tuple_count ci = 4"
  shows "named_queryCardInfo product cardno (Some u) ci (Some ts) = None"
proof -
  obtain a b c d where ts: "ts = [a, b, c, d]" using assms(1) by (auto simp: length_Suc_conv numeral_eq_Suc)
  have k: "kv_key a = DMX4LINUX2_ID_NONE" "kv_key b = DMX4LINUX2_ID_NONE" "kv_key c = DMX4LINUX2_ID_NONE" "kv_key d = DMX4LINUX2_ID_NONE"
    using assms(2) ts by simp_all
  have "[0..<4] = [0, 1, 2, 3 :: nat]" by (simp add: upt_rec)
  then have "for_each [0..<4] named_card_key ts = None"
    using k by (simp add: ts named_card_key_def arr_get_def arr_set_def uart_card_tuples_def numeral_eq_Suc)
  then show ?thesis using assms(3) by (simp add: named_queryCardInfo_def Let_def)
qed

section \<open>The PWM card sets the channels\<close>

lemma pokes:
  fixes m :: "nat \<Rightarrow> u64"
  assumes "\<And>r v m. ud_write D r v m = m(r := v)" and "n < length d"
  shows "for_each [0..<n] (\<lambda>i h. do { v \<leftarrow> arr_get d (i + 1); Some (uio_poke D (i * 4) (ucast v) h) }) (Some m) =
     Some (Some (\<lambda>r. if r < n then ucast (d ! (r + 1)) else m r))"
  using assms(2)
proof (induction n)
  case (Suc n)
  show ?case using Suc assms(1) by (simp add: for_each_append arr_get_def uio_poke_def fun_eq_iff less_Suc_eq)
qed simp

text \<open>C37. A frame with start code 0 for port 0 sets the channels of the PWM controller: channel \<open>i\<close> gets slot \<open>i\<close> for all slots but the
  last that the frame counts, and at most 512; the other channels keep their values. Every other frame is refused and
  changes nothing.\<close>

theorem pwm_sets_channels:
  fixes user :: "(nat \<Rightarrow> u64) pwmdmx_card"
  assumes "\<And>r v m. ud_write D r v m = m(r := v)" and "frame_wf f" and "pw_uio user = Some m"
    and "n = min 512 (unat (f_payload_size f) - 1)"
  shows "pwmdmx_sendFrame D user (Some f) = (
     if f_port f = 0 \<and> f_payload_size f \<noteq> 0 \<and> f_data f ! 0 = 0
     then Some (0, user\<lparr>pw_uio := Some (\<lambda>r. if r < n then ucast (f_data f ! (r + 1)) else m r)\<rparr>)
     else Some (-1, user))"
proof -
  have l: "length (f_data f) = 513" using assms(2) by simp
  have c: "arr_get (f_data f) 0 = Some (f_data f ! 0)" using l by (simp add: arr_get_def flip: length_greater_0_conv)
  have "n < length (f_data f)" using assms(4) l by simp
  then show ?thesis
    using pokes [OF assms(1), of n "f_data f" m] assms(3) c unfolding assms(4)
    by (auto simp: pwmdmx_sendFrame_def word_gt_0)
qed

text \<open>A controller whose registers hold what was written.\<close>

definition demo_pwm :: "(nat \<Rightarrow> u64) uio_dev" where
  "demo_pwm = \<lparr>ud_read = (\<lambda>r m. (m r, m)), ud_write = (\<lambda>r v m. m(r := v)), ud_irq = (\<lambda>b m. m)\<rparr>"

definition demo_pwm_card :: "(nat \<Rightarrow> u64) pwmdmx_card" where
  "demo_pwm_card = \<lparr>nc_customer_name = replicate 64 NUL, nc_port_label = replicate 64 NUL, pw_uio_name = replicate 64 NUL, pw_uio = Some (\<lambda>_. 0)\<rparr>"

theorem pwm_sets_channels_witness:
  "\<exists>user'. pwmdmx_sendFrame demo_pwm demo_pwm_card (Some (zero_frame\<lparr>f_payload_size := 3, f_data := [0, 7, 8, 9] @ replicate 509 0\<rparr>)) = Some (0, user') \<and>
     map_option (\<lambda>m. (m 0, m 1, m 2)) (pw_uio user') = Some (7, 8, 0)"
proof -
  let ?f = "zero_frame\<lparr>f_payload_size := 3, f_data := [0, 7, 8, 9] @ replicate 509 0\<rparr>"
  have w: "ud_write demo_pwm r v m = m(r := v)" for r v m by (simp add: demo_pwm_def)
  have f: "frame_wf ?f" by (simp add: frame_wf_def zero_frame_def)
  have u: "pw_uio demo_pwm_card = Some (\<lambda>_. 0)" by (simp add: demo_pwm_card_def)
  show ?thesis
    using pwm_sets_channels [OF w f u refl] by (simp add: zero_frame_def)
qed

section \<open>Waiting for the serial line\<close>

lemma ex_le_Suc0: "(\<exists>j \<le> Suc n. P j) \<longleftrightarrow> P 0 \<or> (\<exists>j \<le> n. P (Suc j))"
  by (metis Suc_le_mono le0 not0_implies_Suc)

lemma wait_from_bounded:
  assumes "\<And>j. i \<le> j \<Longrightarrow> te_sleep E j" and "0 \<le> timeout"
  shows "wait_from E i timeout = Some (if \<exists>j \<le> nat timeout div 500. te_lsr E (i + j) \<in> {None, Some TIOCSER_TEMT} then 0 else -1)"
  using assms
proof (induction "nat timeout" arbitrary: i timeout rule: less_induct)
  case less
  show ?case
  proof (cases "te_lsr E i \<in> {None, Some TIOCSER_TEMT}")
    case True
    have "\<exists>j \<le> nat timeout div 500. te_lsr E (i + j) \<in> {None, Some TIOCSER_TEMT}" using True by (intro exI [of _ 0]) simp
    then show ?thesis using True by (subst wait_from.simps) auto
  next
    case False
    then obtain r where r: "te_lsr E i = Some r" "r \<noteq> TIOCSER_TEMT" by (cases "te_lsr E i") auto
    show ?thesis
    proof (cases "timeout < 500")
      case True
      then have "nat timeout div 500 = 0" using less.prems(2) by simp
      then show ?thesis using r True less.prems(1) [of i] by (subst wait_from.simps) simp
    next
      case False
      have d: "nat timeout div 500 = Suc (nat (timeout - 500) div 500)" using False by (simp add: nat_diff_distrib le_div_geq)
      have "wait_from E (i + 1) (timeout - 500) =
          Some (if \<exists>j \<le> nat (timeout - 500) div 500. te_lsr E (i + 1 + j) \<in> {None, Some TIOCSER_TEMT} then 0 else -1)"
        using False less.prems by (intro less.hyps) simp_all
      moreover have "(\<exists>j \<le> nat timeout div 500. te_lsr E (i + j) \<in> {None, Some TIOCSER_TEMT}) =
          (\<exists>j \<le> nat (timeout - 500) div 500. te_lsr E (i + 1 + j) \<in> {None, Some TIOCSER_TEMT})"
        unfolding d ex_le_Suc0 using r by simp
      ultimately show ?thesis using r False less.prems(1) [of i] by (subst wait_from.simps) simp
    qed
  qed
qed

lemma wait_from_stuck:
  assumes "\<forall>j \<ge> i. \<not> te_sleep E j \<and> te_lsr E j \<notin> {None, Some TIOCSER_TEMT}" and "0 \<le> timeout"
  shows "wait_from E i timeout = None"
proof -
  define busy where "busy E i = (\<forall>j \<ge> i. \<not> te_sleep E j \<and> te_lsr E j \<notin> {None, Some TIOCSER_TEMT})" for E :: tty_os and i :: nat
  have step: "busy E (i + 1)" "\<not> te_sleep E i" "\<exists>r. te_lsr E i = Some r \<and> r \<noteq> TIOCSER_TEMT" if "busy E i" for E i
    using that by (auto simp: busy_def)
  have "\<not> (busy E i \<and> 0 \<le> timeout)" if "wait_from E i timeout = Some y" for y
    using that
  proof (rule wait_from.raw_induct [where P = "\<lambda>E i timeout y. \<not> (busy E i \<and> 0 \<le> timeout)", rotated])
    fix f E i and timeout y :: int
    assume IH: "\<And>E i timeout y. f E i timeout = Some (y :: int) \<Longrightarrow> \<not> (busy E i \<and> 0 \<le> timeout)"
      and body: "(case te_lsr E i of None \<Rightarrow> Some 0
        | Some r \<Rightarrow> if r = TIOCSER_TEMT then Some 0
            else let timeoutUs = if te_sleep E i then timeout - 500 else timeout
                 in if timeoutUs < 0 then Some (- 1) else f E (i + 1) timeoutUs) = Some y"
    show "\<not> (busy E i \<and> 0 \<le> timeout)"
    proof
      assume a: "busy E i \<and> 0 \<le> timeout"
      then obtain r where "te_lsr E i = Some r" "r \<noteq> TIOCSER_TEMT" "\<not> te_sleep E i" "\<not> timeout < 0" using step [of E i] by auto
      then have "f E (i + 1) timeout = Some y" using body by simp
      from IH [OF this] a step [of E i] show False by blast
    qed
  qed
  then show ?thesis using assms by (cases "wait_from E i timeout") (auto simp: busy_def)
qed

text \<open>C38. Waiting for the serial line to become empty returns when the sleeps between the queries are not interrupted: with 0 exactly when
  one of the queries within the time says so or fails, otherwise with the timeout. When the line stays busy and every
  sleep is interrupted, the time never elapses and the call never returns.\<close>

theorem uart_wait_returns:
  assumes "0 \<le> timeout"
  shows "((\<forall>j. te_sleep E j) \<longrightarrow> uartdmx_waitUntilTransmitterEmpty E timeout =
       Some (if \<exists>j \<le> nat timeout div 500. te_lsr E j \<in> {None, Some TIOCSER_TEMT} then 0 else -1)) \<and>
     ((\<forall>j. \<not> te_sleep E j \<and> te_lsr E j \<notin> {None, Some TIOCSER_TEMT}) \<longrightarrow> uartdmx_waitUntilTransmitterEmpty E timeout = None)"
  using wait_from_bounded [of 0 E, OF _ assms] wait_from_stuck [of 0 E, OF _ assms]
  by (simp add: uartdmx_waitUntilTransmitterEmpty_def)

definition demo_os :: "(nat \<Rightarrow> u32 option) \<Rightarrow> bool \<Rightarrow> tty_os" where
  "demo_os lsr sleep = \<lparr>te_mget = True, te_mset = True, te_gserial = True, te_sserial = True, te_setattr = True, te_lsr = lsr, te_sleep = (\<lambda>_. sleep)\<rparr>"

theorem uart_wait_returns_witness:
  "uartdmx_waitUntilTransmitterEmpty (demo_os (\<lambda>j. Some (if j < 2 then 0 else 1)) True) 1000 = Some 0 \<and>
   uartdmx_waitUntilTransmitterEmpty (demo_os (\<lambda>j. Some 0) True) 1000 = Some (-1) \<and>
   uartdmx_waitUntilTransmitterEmpty (demo_os (\<lambda>j. Some 0) False) 1000 = None"
proof -
  have "\<exists>j \<le> nat 1000 div 500. te_lsr (demo_os (\<lambda>j. Some (if j < 2 then 0 else 1)) True) j \<in> {None, Some TIOCSER_TEMT}"
    by (intro exI [of _ 2]) (simp add: demo_os_def TIOCSER_TEMT_def)
  then show ?thesis
    using uart_wait_returns [of 1000 "demo_os (\<lambda>j. Some (if j < 2 then 0 else 1)) True"] uart_wait_returns [of 1000 "demo_os (\<lambda>j. Some 0) True"]
      uart_wait_returns [of 1000 "demo_os (\<lambda>j. Some 0) False"]
    by (simp add: demo_os_def TIOCSER_TEMT_def)
qed

section \<open>What the card on a serial line sends\<close>

text \<open>A frame for port 0 makes the card send a break, as one octet at half the speed, and nothing else: the slots are not written, whatever
  the frame holds. The line is back at its speed and RTS is off.\<close>

theorem uart_card_sends_no_data:
  assumes "\<forall>j. te_sleep E j" and "te_mget E" and "te_mset E" and "te_setattr E" and "uc_uartfd user \<ge> 0" and "f_port frame = 0"
    and "ty_speed t = 38400"
  shows "\<exists>t'. uartdmx_sendFrame E user frame t = Some t' \<and> ty_speed t' = 38400 \<and> ty_status t' = ty_status t AND NOT TIOCM_RTS \<and>
     ty_out t' = ty_out t @ (if f_flags frame AND DMX512_FLAG_NOBREAK = 0 then [(19200, 0)] else [])"
proof -
  have s: "(v OR r) AND NOT r = v AND NOT r" for v r :: u32 by (rule bit_word_eqI) (auto simp: bit_and_iff bit_or_iff bit_not_iff)
  show ?thesis
    using assms wait_from_bounded [of 0 E 1000]
    by (simp add: uartdmx_sendFrame_def uartdmx_send_break_def uartdmx_waitUntilTransmitterEmpty_def uartdmx_select_break_baudrate_def
        uartdmx_select_dmx_baudrate_def tty_set_speed_def uartdmx_set_rts_def Let_def s)
qed

lemma tty_bits:
  "bit TTY_CSTOPB n \<longleftrightarrow> n = 6" "bit TTY_PARENB n \<longleftrightarrow> n = 8" "bit TTY_PARODD n \<longleftrightarrow> n = 9" "bit TTY_CRTSCTS n \<longleftrightarrow> n = 31"
  "bit TTY_CSIZE n \<longleftrightarrow> n = 4 \<or> n = 5" "bit TTY_CS8 n \<longleftrightarrow> n = 4 \<or> n = 5"
proof -
  show "bit TTY_CSTOPB n \<longleftrightarrow> n = 6" "bit TTY_PARENB n \<longleftrightarrow> n = 8" "bit TTY_PARODD n \<longleftrightarrow> n = 9" "bit TTY_CRTSCTS n \<longleftrightarrow> n = 31"
    by (intro bit_power_iff, simp add: TTY_CSTOPB_def TTY_PARENB_def TTY_PARODD_def TTY_CRTSCTS_def, simp)+
  have "bit (16 :: u32) n \<longleftrightarrow> n = 4" "bit (32 :: u32) n \<longleftrightarrow> n = 5" by (intro bit_power_iff, simp, simp)+
  then have b: "bit (16 OR 32 :: u32) n \<longleftrightarrow> n = 4 \<or> n = 5" by (simp only: bit_or_iff)
  have "TTY_CSIZE = 16 OR 32" by (simp add: TTY_CSIZE_def)
  then show "bit TTY_CSIZE n \<longleftrightarrow> n = 4 \<or> n = 5" using b by (simp only:)
  have "TTY_CS8 = 16 OR 32" by (simp add: TTY_CS8_def)
  then show "bit TTY_CS8 n \<longleftrightarrow> n = 4 \<or> n = 5" using b by (simp only:)
qed

text \<open>A card that was configured runs at the DMX speed exactly when the base of the line is a multiple of it.\<close>

theorem uart_card_configured:
  assumes "uartdmx_configure_uart E fh t = (0, t')"
  shows "ty_speed t' = 38400 \<and> 0 < ty_divisor t' \<and> ty_flags t' AND ASYNC_SPD_MASK = ASYNC_SPD_CUST \<and>
     ty_cflag t' AND (TTY_CSIZE OR TTY_CSTOPB OR TTY_PARENB OR TTY_CRTSCTS) = TTY_CS8 OR TTY_CSTOPB \<and>
     (ty_baud_base t' div ty_divisor t' = 250000 \<or> \<not> 250000 dvd ty_baud_base t')"
proof -
  have t': "ty_baud_base t \<ge> 250000" "t' = t\<lparr>ty_divisor := ty_baud_base t div 250000, ty_flags := ty_flags t AND NOT ASYNC_SPD_MASK OR ASYNC_SPD_CUST,
      ty_speed := 38400, ty_cflag := ((((ty_cflag t AND NOT (TTY_CSIZE OR TTY_PARENB) OR TTY_CS8) AND NOT TTY_CSIZE) OR TTY_CS8)
        AND NOT (TTY_PARENB OR TTY_PARODD) OR TTY_CSTOPB) AND NOT TTY_CRTSCTS, ty_raw := True\<rparr>"
    using assms by (auto simp: uartdmx_configure_uart_def DMX_BAUDRATE_def Let_def split: if_splits)
  have "(x AND NOT ASYNC_SPD_MASK OR ASYNC_SPD_CUST) AND ASYNC_SPD_MASK = ASYNC_SPD_CUST" for x :: u32
  proof (rule bit_word_eqI)
    fix n :: nat
    assume "n < LENGTH(32)"
    have "bit ASYNC_SPD_CUST n \<longrightarrow> bit ASYNC_SPD_MASK n"
      by (simp add: ASYNC_SPD_CUST_def ASYNC_SPD_MASK_def bit_numeral_rec split: nat.split)
    then show "bit ((x AND NOT ASYNC_SPD_MASK OR ASYNC_SPD_CUST) AND ASYNC_SPD_MASK) n = bit ASYNC_SPD_CUST n"
      by (auto simp: bit_and_iff bit_or_iff bit_not_iff)
  qed
  moreover have "(((((x AND NOT (TTY_CSIZE OR TTY_PARENB) OR TTY_CS8) AND NOT TTY_CSIZE) OR TTY_CS8)
      AND NOT (TTY_PARENB OR TTY_PARODD) OR TTY_CSTOPB) AND NOT TTY_CRTSCTS) AND (TTY_CSIZE OR TTY_CSTOPB OR TTY_PARENB OR TTY_CRTSCTS) =
      TTY_CS8 OR TTY_CSTOPB" for x :: u32
    by (rule bit_word_eqI) (auto simp: bit_and_iff bit_or_iff bit_not_iff tty_bits)
  moreover have "0 < ty_baud_base t div 250000" using t'(1) by simp
  moreover have "ty_baud_base t div (ty_baud_base t div 250000) = 250000 \<or> \<not> 250000 dvd ty_baud_base t" using t'(1) by (auto elim!: dvdE)
  ultimately show ?thesis using t'(2) by simp
qed

section \<open>The card on stream UARTs transmits and delivers\<close>

lemma all_octets_decided: "\<forall>(i, v) \<in> set ps. i < length data \<Longrightarrow> \<exists>b. all_octets data ps = Some b"
  by (induction data ps rule: all_octets.induct) (auto simp: arr_get_def)

lemma discover_reply_decided: "24 \<le> length data \<Longrightarrow> \<exists>b. dmx512_is_rdm_discover_reply data = Some b"
  unfolding dmx512_is_rdm_discover_reply_def by (rule all_octets_decided) (auto simp: rdm_const_defs)

lemma set_dtr_queues:
  assumes "kfifo_ok k q cap" and "length (q (txfifo u)) < cap"
  obtains u' where "dmx512suart_set_dtr k val u = Some u'"
    "q (txfifo u') = q (txfifo u) @ [suart_event_change_line SUART_LINE_DTR (if val then SUART_LINE_DTR else 0)]"
    "rxfifo u' = rxfifo u"
proof -
  let ?e = "suart_event_change_line SUART_LINE_DTR (if val then SUART_LINE_DTR else 0)"
  obtain f where "kfifo_in k 1 [?e] (txfifo u) = Some (1, f)" "q f = q (txfifo u) @ [?e]"
    using kfifo_inE [OF assms(1), of 1 "[?e]" "txfifo u"] assms(2) by auto
  then show thesis
    using that by (simp add: dmx512suart_set_dtr_def suart_put_txevents_def suart_wakeup_def fifo_count_def)
qed

text \<open>What a card puts into the fifo of a port for a frame.\<close>

definition card_events :: "dmx512frame \<Rightarrow> suart_event list" where
  "card_events frame = suart_event_change_line SUART_LINE_DTR SUART_LINE_DTR #
     frame_events (ucast (f_flags frame)) (dmx512_is_rdm_discover_reply (f_data frame) = Some True) (f_data frame)
       (unat (f_payload_size frame)) @ [suart_event_change_line SUART_LINE_DTR 0]"

text \<open>C25. A frame of 1 to 513 octets for one of its ports, when the fifo of the port has room for 51 events, makes the card append to the transmit fifo of exactly this port: DTR on, the
  events of the frame, DTR off. The other ports and what was received keep as they are.\<close>

theorem suart_card_transmits:
  assumes "kfifo_ok k q cap" and "frame_wf frame" and "1 \<le> f_payload_size frame" and "f_payload_size frame \<le> 513" and "length memory = 128"
    and "int (unat (f_port frame)) < sc_num_ports user" and "unat (f_port frame) < length (sc_ports user)"
    and "sp_uart (sc_ports user ! unat (f_port frame)) = Some u" and "length (q (txfifo u)) + 51 \<le> cap"
  shows "\<exists>u'. suartdmx_sendFrame k memory frame user =
       Some (user\<lparr>sc_ports := (sc_ports user)[unat (f_port frame) := (sc_ports user ! unat (f_port frame))\<lparr>sp_uart := Some u'\<rparr>]\<rparr>) \<and>
     q (txfifo u') = q (txfifo u) @ card_events frame \<and> rxfifo u' = rxfifo u"
proof -
  have l: "length (f_data frame) = 513" using assms(2) by simp
  then obtain reply where reply: "dmx512_is_rdm_discover_reply (f_data frame) = Some reply"
    using discover_reply_decided [of "f_data frame"] by auto
  have n: "1 \<le> unat (f_payload_size frame)" "unat (f_payload_size frame) \<le> 513"
    using assms(3,4) by (simp_all add: word_le_nat_alt)
  obtain u1 where u1: "dmx512suart_set_dtr k True u = Some u1"
      "q (txfifo u1) = q (txfifo u) @ [suart_event_change_line SUART_LINE_DTR SUART_LINE_DTR]" "rxfifo u1 = rxfifo u"
    using set_dtr_queues [OF assms(1), of u True] assms(9) by auto
  have uid: "reply \<longrightarrow> RDM_POS_SRC_UID + 6 \<le> length (f_data frame)" using l by (simp add: rdm_const_defs)
  obtain u2 where u2: "dmx512suart_send_frame k memory (ucast (f_flags frame)) (f_data frame) (int (unat (f_payload_size frame))) u1 = Some u2"
      "q (txfifo u2) = q (txfifo u1) @ frame_events (ucast (f_flags frame)) reply (f_data frame) (unat (f_payload_size frame))"
      "rxfifo u2 = rxfifo u1"
    using send_frame_queues [OF assms(1) n _ assms(5) reply uid, of u1 "ucast (f_flags frame)"] l n(2) u1(2) assms(9) by auto
  have "length (q (txfifo u2)) < cap"
    using length_frame_events [OF uid n(2), of "ucast (f_flags frame)"] u1(2) u2(2) assms(9) by simp
  then obtain u3 where u3: "dmx512suart_set_dtr k False u2 = Some u3"
      "q (txfifo u3) = q (txfifo u2) @ [suart_event_change_line SUART_LINE_DTR 0]" "rxfifo u3 = rxfifo u2"
    using set_dtr_queues [OF assms(1), of u2 False] by auto
  have "suartdmx_sendFrame k memory frame user =
      Some (user\<lparr>sc_ports := (sc_ports user)[unat (f_port frame) := (sc_ports user ! unat (f_port frame))\<lparr>sp_uart := Some u3\<rparr>]\<rparr>)"
    using assms(4,6-8) u1(1) u2(1) u3(1)
    by (simp add: suartdmx_sendFrame_def on_port_def arr_get_def arr_set_def)
  moreover have "q (txfifo u3) = q (txfifo u) @ card_events frame"
    using u1(2) u2(2) u3(2) reply by (cases reply) (simp_all add: card_events_def)
  ultimately show ?thesis using u1(3) u2(3) u3(3) by auto
qed

definition demo_scard :: "suart_event list scard" where
  "demo_scard = \<lparr>nc_customer_name = [], nc_port_label = [],
     sc_ports = [\<lparr>sp_uart = Some (suart_init (list_kfifo 128)), sp_has_card = True, sp_portno = 0, sp_uio_index = 0\<rparr>,
                 \<lparr>sp_uart = Some (suart_init (list_kfifo 128)), sp_has_card = True, sp_portno = 1, sp_uio_index = 1\<rparr>],
     sc_num_ports = 2, sc_card = 1\<rparr>"

theorem suart_card_transmits_witness:
  "\<exists>u'. suartdmx_sendFrame (list_kfifo 128) (replicate 128 STREAMUART_EVENT_SHUTDOWN) (zero_frame\<lparr>f_port := 1, f_payload_size := 513\<rparr>) demo_scard =
       Some (demo_scard\<lparr>sc_ports := (sc_ports demo_scard)[1 := (sc_ports demo_scard ! 1)\<lparr>sp_uart := Some u'\<rparr>]\<rparr>) \<and>
     txfifo u' = card_events (zero_frame\<lparr>f_port := 1, f_payload_size := 513\<rparr>)"
proof -
  have t: "txfifo (suart_init (list_kfifo 128)) = ([] :: suart_event list)" by (simp add: suart_init_def list_kfifo_def)
  have "frame_wf (zero_frame\<lparr>f_port := 1, f_payload_size := 513\<rparr>)" by (simp add: frame_wf_def zero_frame_def)
  from suart_card_transmits [OF list_kfifo_ok this, where cap = 128 and user = demo_scard
      and memory = "replicate 128 STREAMUART_EVENT_SHUTDOWN" and u = "suart_init (list_kfifo 128)"]
  show ?thesis by (auto simp: demo_scard_def t)
qed

lemma suartdmx_frame_spec:
  assumes "n \<le> length dmx_data" and "n \<le> 513"
  obtains fr where "suartdmx_frame portno flags dmx_data (int n) = Some fr" "take n (f_data fr) = take n dmx_data"
    "f_payload_size fr = of_nat n" "f_port fr = word_of_int portno" "f_flags fr = word_of_int flags" "frame_wf fr"
proof -
  have "unat (of_nat n :: u16) = n" using assms(2) by (simp add: unat_of_nat take_bit_nat_eq_self)
  moreover have "(if int n < 513 then int n else 513) = int n" using assms(2) by simp
  ultimately show thesis
    using that assms by (simp add: suartdmx_frame_def arr_slice_def arr_blit_def blit_def zero_frame_def frame_wf_def)
qed

text \<open>The octets that a port hands to its card reach the files that select the port: a pending read, not interrupted, of a file
  whose filter has the bit of the port is answered with a frame that has these octets, their number and the number of the port.\<close>

theorem suart_card_delivers:
  assumes "cuse_wf s" and "sp_has_card port" and "0 \<le> sp_portno port" and "sp_portno port < 31" and "n \<le> length dmx_data" and "n \<le> 513"
    and "dmx512_cuse_context crd (int i) s = Some ctx" and "cx_in_use ctx" and "cx_read_req ctx = Some r" and "\<not> intr r"
    and "bit (if has_flag (word_of_int flags) DMX512_FLAGS_IS_TRANSMIT_FRAME then cx_port_txmask ctx else cx_port_mask ctx) (nat (sp_portno port))"
  shows "\<exists>s' fr. suartdmx_receive_frame intr crd (Some port) flags dmx_data (int n) s = Some s' \<and> ReplyBuf r (Some fr) \<in> set (cu_log s') \<and>
     take n (f_data fr) = take n dmx_data \<and> f_payload_size fr = of_nat n \<and> unat (f_port fr) = nat (sp_portno port)"
proof -
  obtain fr where fr: "suartdmx_frame (sp_portno port) flags dmx_data (int n) = Some fr" "take n (f_data fr) = take n dmx_data"
      "f_payload_size fr = of_nat n" "f_port fr = word_of_int (sp_portno port)" "f_flags fr = word_of_int flags"
    using suartdmx_frame_spec [OF assms(5,6)] by blast
  have p: "unat (f_port fr) = nat (sp_portno port)"
    using assms(3,4) fr(4) by (simp add: unat_eq_nat_uint uint_word_of_int take_bit_int_eq_self)
  then have p31: "unat (f_port fr) < 31" "unat (f_port fr) < 32" using assms(3,4) by simp_all
  obtain cs where cs: "cu_contexts s crd = Some cs" using context_Some [OF assms(7)] by blast
  obtain s' where s': "dmx512_cuse_handle_received_frame intr crd fr s = Some s'"
    using handle_received_ok [OF assms(1) cs p31(2), of intr] by blast
  have "ReplyBuf r (Some fr) \<in> set (cu_log s')"
    using received_frame_at [OF assms(1) s' assms(7,8) p31(1) refl] assms(9-11) fr(5) p by auto
  moreover have "suartdmx_receive_frame intr crd (Some port) flags dmx_data (int n) s = Some s'"
    using assms(2) fr(1) s' by (simp add: suartdmx_receive_frame_def)
  ultimately show ?thesis using fr(2,3) p by blast
qed

theorem suart_card_delivers_witness:
  "\<exists>s' fr. suartdmx_receive_frame (\<lambda>_. False) 1
       (Some \<lparr>sp_uart = Some (suart_init (list_kfifo 128)) :: suart_event list suart_s option, sp_has_card = True, sp_portno = 2, sp_uio_index = 0\<rparr>) 0 [0, 7, 9] 3 demo_cuse = Some s' \<and>
     ReplyBuf 9 (Some fr) \<in> set (cu_log s') \<and> take 3 (f_data fr) = [0, 7, 9]"
proof -
  let ?p = "\<lparr>sp_uart = Some (suart_init (list_kfifo 128)) :: suart_event list suart_s option, sp_has_card = True, sp_portno = 2, sp_uio_index = 0\<rparr>"
  have c: "dmx512_cuse_context 1 (int 0) demo_cuse = Some demo_ctx" "cx_in_use demo_ctx" "cx_read_req demo_ctx = Some 9"
    using demo_cuse_sel(3) by (simp_all add: demo_ctx_def)
  have b: "bit (if has_flag (word_of_int 0) DMX512_FLAGS_IS_TRANSMIT_FRAME then cx_port_txmask demo_ctx else cx_port_mask demo_ctx)
      (nat (sp_portno ?p))"
    by (simp add: demo_ctx_def has_flag_def bit_numeral_rec)
  show ?thesis
    using suart_card_delivers [where port = ?p and dmx_data = "[0, 7, 9]" and n = 3 and flags = 0 and intr = "\<lambda>_. False", OF demo_cuse_sel(1) _ _ _ _ _ c _ b] by auto
qed

end
