(* ===== verification/Rdm_Packet.thy ===== *)
theory Rdm_Packet
  imports Rdm
begin

text \<open>
  The packets of the RDM library (\<^verbatim>\<open>src/src/librdm/rdmvalues.hpp\<close>): UIDs, the packed header, the decoder and the
  encoder. The library lays the header over the octets of a buffer; \<open>Packet_at\<close> is that view of a buffer of at least 24
  octets and \<open>packet_octets\<close> the octets again. The octets behind the header are the array of parameter data; writing behind
  the end of the buffer is the fault \<^term>\<open>None\<close>.
\<close>

section \<open>Values of the specification\<close>

definition rdm_SC_RDM :: int where "rdm_SC_RDM = 0xCC"
definition rdm_SC_SUB_MESSAGE :: int where "rdm_SC_SUB_MESSAGE = 0x01"
definition rdm_DISCOVERY_COMMAND :: int where "rdm_DISCOVERY_COMMAND = 0x10"
definition rdm_DISCOVERY_COMMAND_RESPONSE :: int where "rdm_DISCOVERY_COMMAND_RESPONSE = 0x11"
definition rdm_GET_COMMAND :: int where "rdm_GET_COMMAND = 0x20"
definition rdm_GET_COMMAND_RESPONSE :: int where "rdm_GET_COMMAND_RESPONSE = 0x21"
definition rdm_SET_COMMAND :: int where "rdm_SET_COMMAND = 0x30"
definition rdm_RESPONSE_TYPE_ACK :: int where "rdm_RESPONSE_TYPE_ACK = 0x00"
definition rdm_RESPONSE_TYPE_UNKNOWN_PID :: int where "rdm_RESPONSE_TYPE_UNKNOWN_PID = 0xfe"
definition rdm_DISC_UNIQUE_BRANCH :: int where "rdm_DISC_UNIQUE_BRANCH = 0x0001"
definition rdm_DISC_MUTE :: int where "rdm_DISC_MUTE = 0x0002"
definition rdm_DISC_UN_MUTE :: int where "rdm_DISC_UN_MUTE = 0x0003"
definition rdm_DEVICE_INFO :: int where "rdm_DEVICE_INFO = 0x0060"
definition rdm_SOFTWARE_VERSION_LABEL :: int where "rdm_SOFTWARE_VERSION_LABEL = 0x00C0"
definition rdm_DMX_START_ADDRESS :: int where "rdm_DMX_START_ADDRESS = 0x00F0"
definition rdm_IDENTIFY_DEVICE :: int where "rdm_IDENTIFY_DEVICE = 0x1000"

lemmas rdm_value_defs = rdm_SC_RDM_def rdm_SC_SUB_MESSAGE_def rdm_DISCOVERY_COMMAND_def rdm_DISCOVERY_COMMAND_RESPONSE_def
  rdm_GET_COMMAND_def rdm_GET_COMMAND_RESPONSE_def rdm_SET_COMMAND_def rdm_RESPONSE_TYPE_ACK_def
  rdm_RESPONSE_TYPE_UNKNOWN_PID_def rdm_DISC_UNIQUE_BRANCH_def rdm_DISC_MUTE_def rdm_DISC_UN_MUTE_def rdm_DEVICE_INFO_def
  rdm_SOFTWARE_VERSION_LABEL_def rdm_DMX_START_ADDRESS_def rdm_IDENTIFY_DEVICE_def

section \<open>Network byte order\<close>

text \<open>The \<open>n\<close> octets of a value, the most significant first, and their value.\<close>

definition net_octets :: "nat \<Rightarrow> u64 \<Rightarrow> u8 list" where
  "net_octets n v = map (\<lambda>i. ucast (drop_bit (8 * (n - 1 - i)) v)) [0..<n]"

fun net_value :: "u8 list \<Rightarrow> u64 \<Rightarrow> u64" where
  "net_value [] acc = acc"
| "net_value (b # bs) acc = net_value bs (push_bit 8 acc OR ucast b)"

section \<open>UIDs\<close>

text \<open>The two fields hold network byte order; \<open>manufacturer\<close> and \<open>device\<close> convert when they are set and read, so the
  record has the values and \<open>uid_octets\<close> the memory.\<close>

record Uid =
  manufacturer :: u16
  device :: u32

definition Uid_of :: "u64 \<Rightarrow> Uid" where
  "Uid_of u = \<lparr>manufacturer = ucast (drop_bit 32 u), device = ucast u\<rparr>"

definition uid_value :: "Uid \<Rightarrow> u64" where
  "uid_value u = push_bit 32 (ucast (manufacturer u)) + ucast (device u)"

definition uid_octets :: "Uid \<Rightarrow> u8 list" where
  "uid_octets u = net_octets 2 (ucast (manufacturer u)) @ net_octets 4 (ucast (device u))"

definition Uid_broadcast :: Uid where "Uid_broadcast = Uid_of 0xFFFFFFFFFFFF"
definition Uid_any :: Uid where "Uid_any = Uid_of 0"

section \<open>Packets\<close>

record Packet =
  h_startCode :: u8
  h_subStartCode :: u8
  h_msgLength :: u8
  h_dstUid :: Uid
  h_srcUid :: Uid
  h_TN :: u8
  h_portId :: u8
  h_msgCount :: u8
  h_subDevice :: u16
  h_CC :: u8
  h_PID :: u16
  h_PDL :: u8
  pkt_data :: "u8 list"

definition header_octets :: "Packet \<Rightarrow> u8 list" where
  "header_octets p = [h_startCode p, h_subStartCode p, h_msgLength p] @ uid_octets (h_dstUid p) @ uid_octets (h_srcUid p) @
     [h_TN p, h_portId p, h_msgCount p] @ net_octets 2 (ucast (h_subDevice p)) @ [h_CC p] @ net_octets 2 (ucast (h_PID p)) @ [h_PDL p]"

definition packet_octets :: "Packet \<Rightarrow> u8 list" where
  "packet_octets p = header_octets p @ pkt_data p"

definition uid_at :: "u8 list \<Rightarrow> nat \<Rightarrow> Uid" where
  "uid_at b i = \<lparr>manufacturer = ucast (net_value (take 2 (drop i b)) 0), device = ucast (net_value (take 4 (drop (i + 2) b)) 0)\<rparr>"

definition Packet_at :: "u8 list \<Rightarrow> Packet option" where
  "Packet_at b = (if length b < 24 then None else Some
     \<lparr>h_startCode = b ! 0, h_subStartCode = b ! 1, h_msgLength = b ! 2, h_dstUid = uid_at b 3, h_srcUid = uid_at b 9,
      h_TN = b ! 15, h_portId = b ! 16, h_msgCount = b ! 17, h_subDevice = ucast (net_value (take 2 (drop 18 b)) 0),
      h_CC = b ! 20, h_PID = ucast (net_value (take 2 (drop 21 b)) 0), h_PDL = b ! 23, pkt_data = drop 24 b\<rparr>)"

text \<open>The sum over the first \<open>size\<close> octets, kept in 16 bits.\<close>

definition calculateChecksum :: "u8 list \<Rightarrow> nat \<Rightarrow> u16 option" where
  "calculateChecksum b sz = map_option (\<lambda>xs. foldl (\<lambda>sum x. sum + ucast x) 0 xs) (arr_slice b 0 sz)"

definition memcpy_reverse :: "u8 list \<Rightarrow> u8 list" where
  "memcpy_reverse src = rev src"

text \<open>The machines that the drivers are built for are little endian: the memory of a value of \<open>n\<close> octets has the least
  significant octet first.\<close>

definition machineIsBigEndian :: bool where "machineIsBigEndian = False"

definition host_octets :: "nat \<Rightarrow> u64 \<Rightarrow> u8 list" where
  "host_octets n v = (if machineIsBigEndian then net_octets n v else rev (net_octets n v))"

definition host_value :: "u8 list \<Rightarrow> u64" where
  "host_value m = net_value (if machineIsBigEndian then m else rev m) 0"

section \<open>Decoder\<close>

definition StartCode :: "Packet \<Rightarrow> int" where "StartCode p = uint (h_startCode p)"
definition SubStartCode :: "Packet \<Rightarrow> int" where "SubStartCode p = uint (h_subStartCode p)"
definition CommandClass :: "Packet \<Rightarrow> int" where "CommandClass p = uint (h_CC p)"
definition SubDevice :: "Packet \<Rightarrow> int" where "SubDevice p = uint (h_subDevice p)"
definition Pid :: "Packet \<Rightarrow> int" where "Pid p = uint (h_PID p)"
definition Pdl :: "Packet \<Rightarrow> int" where "Pdl p = uint (h_PDL p)"
definition Source :: "Packet \<Rightarrow> u64" where "Source p = uid_value (h_srcUid p)"
definition Destination :: "Packet \<Rightarrow> u64" where "Destination p = uid_value (h_dstUid p)"

definition isRdm :: "Packet \<Rightarrow> bool" where
  "isRdm p \<longleftrightarrow> StartCode p = rdm_SC_RDM \<and> SubStartCode p = rdm_SC_SUB_MESSAGE"

definition isDmx :: "Packet \<Rightarrow> bool" where
  "isDmx p \<longleftrightarrow> StartCode p = 0"

definition isRequest :: "Packet \<Rightarrow> bool" where
  "isRequest p \<longleftrightarrow> CommandClass p AND 0xf0 \<ge> rdm_DISCOVERY_COMMAND \<and> CommandClass p AND 0xf0 \<le> rdm_SET_COMMAND \<and> CommandClass p AND 0xF = 0"

definition ItIsForMe :: "u64 \<Rightarrow> Packet \<Rightarrow> bool" where
  "ItIsForMe myUid p \<longleftrightarrow> Destination p = myUid \<or> Destination p = 0xFFFFFFFFFFFF"

text \<open>\<open>PdAt\<close> into a variable of \<open>n\<close> octets, of which \<open>size\<close> are filled; the result is \<open>None\<close> inside when the parameter data is shorter.\<close>

definition PdAt :: "nat \<Rightarrow> nat \<Rightarrow> nat \<Rightarrow> Packet \<Rightarrow> u64 option option" where
  "PdAt n pos sz p = (
     if int (pos + sz) > Pdl p then Some None
     else do {
       xs \<leftarrow> arr_slice (pkt_data p) pos sz;
       v \<leftarrow> arr_blit (replicate n 0) 0 (memcpy_reverse xs);
       Some (Some (host_value v)) })"

definition PdAt_string :: "nat \<Rightarrow> nat \<Rightarrow> Packet \<Rightarrow> u8 list option option" where
  "PdAt_string pos sz p = (if int (pos + sz) > Pdl p then Some None else map_option Some (arr_slice (pkt_data p) pos sz))"

section \<open>Encoder\<close>

definition PacketEncoder :: "u8 list \<Rightarrow> Packet option" where
  "PacketEncoder b = map_option (\<lambda>p. p\<lparr>h_startCode := word_of_int rdm_SC_RDM, h_subStartCode := word_of_int rdm_SC_SUB_MESSAGE, h_PDL := 0\<rparr>)
     (Packet_at b)"

definition enc_Source :: "u64 \<Rightarrow> Packet \<Rightarrow> Packet" where "enc_Source src p = p\<lparr>h_srcUid := Uid_of src\<rparr>"
definition enc_Destination :: "u64 \<Rightarrow> Packet \<Rightarrow> Packet" where "enc_Destination src p = p\<lparr>h_dstUid := Uid_of src\<rparr>"
definition enc_TransactionNumber :: "int \<Rightarrow> Packet \<Rightarrow> Packet" where "enc_TransactionNumber tn p = p\<lparr>h_TN := word_of_int tn\<rparr>"
definition enc_PortId :: "int \<Rightarrow> Packet \<Rightarrow> Packet" where "enc_PortId i p = p\<lparr>h_portId := word_of_int i\<rparr>"
definition enc_ResponseType :: "int \<Rightarrow> Packet \<Rightarrow> Packet" where "enc_ResponseType t p = p\<lparr>h_portId := word_of_int t\<rparr>"
definition enc_MessageCount :: "int \<Rightarrow> Packet \<Rightarrow> Packet" where "enc_MessageCount c p = p\<lparr>h_msgCount := word_of_int c\<rparr>"
definition enc_SubDevice :: "int \<Rightarrow> Packet \<Rightarrow> Packet" where "enc_SubDevice sd p = p\<lparr>h_subDevice := word_of_int sd\<rparr>"
definition enc_CommandClass :: "int \<Rightarrow> Packet \<Rightarrow> Packet" where "enc_CommandClass cc p = p\<lparr>h_CC := word_of_int cc\<rparr>"
definition enc_Pid :: "int \<Rightarrow> Packet \<Rightarrow> Packet" where "enc_Pid pid p = p\<lparr>h_PID := word_of_int pid\<rparr>"

lemmas enc_defs = enc_Source_def enc_Destination_def enc_TransactionNumber_def enc_PortId_def enc_ResponseType_def
  enc_MessageCount_def enc_SubDevice_def enc_CommandClass_def enc_Pid_def

text \<open>What all ways of adding parameter data do: the octets go behind those that are there, the length is an octet.\<close>

definition add_pd_octets :: "u8 list \<Rightarrow> Packet \<Rightarrow> Packet option" where
  "add_pd_octets xs p = do {
     d \<leftarrow> arr_blit (pkt_data p) (unat (h_PDL p)) xs;
     Some (p\<lparr>pkt_data := d, h_PDL := h_PDL p + of_nat (length xs)\<rparr>) }"

definition addPd_u8 :: "u8 \<Rightarrow> Packet \<Rightarrow> Packet option" where
  "addPd_u8 v p = add_pd_octets [v] p"

text \<open>A value of \<open>n\<close> octets.\<close>

definition addPd :: "nat \<Rightarrow> u64 \<Rightarrow> Packet \<Rightarrow> Packet option" where
  "addPd n v p = add_pd_octets (if machineIsBigEndian then host_octets n v else memcpy_reverse (host_octets n v)) p"

text \<open>The first octets in memory of a variable, \<open>mem\<close>.\<close>

definition addPd_sized :: "u8 list \<Rightarrow> nat \<Rightarrow> Packet \<Rightarrow> Packet option" where
  "addPd_sized mem sz p = (
     let sz = (if sz < length mem then sz else length mem)
     in add_pd_octets (if machineIsBigEndian then take sz mem else memcpy_reverse (take sz mem)) p)"

definition addPd_array :: "u8 list \<Rightarrow> Packet \<Rightarrow> Packet option" where
  "addPd_array v p = foldl (\<lambda>p x. Option.bind p (addPd_u8 x)) (Some p) v"

definition addPd_string :: "string \<Rightarrow> Packet \<Rightarrow> Packet option" where
  "addPd_string str p = add_pd_octets (map of_char str) p"

definition addPd_Uid :: "Uid \<Rightarrow> Packet \<Rightarrow> Packet option" where
  "addPd_Uid v p = addPd_sized (uid_octets v) 6 p"

definition finalize :: "Packet \<Rightarrow> Packet option" where
  "finalize p = do {
     let p = p\<lparr>h_msgLength := 24 + h_PDL p\<rparr>;
     c \<leftarrow> calculateChecksum (packet_octets p) (unat (h_msgLength p));
     d \<leftarrow> arr_set (pkt_data p) (unat (h_PDL p)) (ucast (drop_bit 8 c));
     d \<leftarrow> arr_set d (unat (h_PDL p) + 1) (ucast c);
     Some (p\<lparr>pkt_data := d\<rparr>) }"

definition enc_size :: "Packet \<Rightarrow> nat" where
  "enc_size p = unat (h_msgLength p) + 2"

section \<open>Frames that are handed around\<close>

text \<open>A frame is the memory it points to and a size.\<close>

record IDmxData =
  dd_data :: "u8 list"
  dd_size :: int

definition ConstDmxData :: "u8 list \<Rightarrow> int \<Rightarrow> IDmxData" where
  "ConstDmxData d n = \<lparr>dd_data = d, dd_size = n\<rparr>"

section \<open>Octets and values\<close>

lemma length_net_octets [simp]: "length (net_octets n v) = n"
  by (simp add: net_octets_def)

lemma net_octets_0 [simp]: "net_octets 0 v = []"
  by (simp add: net_octets_def)

lemma net_octets_Suc: "net_octets (Suc n) v = ucast (drop_bit (8 * n) v) # net_octets n v"
  unfolding net_octets_def by (simp add: upt_conv_Cons flip: map_Suc_upt del: upt_Suc)

lemma net_value_octets: "net_value (net_octets n v) acc = push_bit (8 * n) acc OR take_bit (8 * n) v"
proof (induction n arbitrary: acc)
  case (Suc n)
  have "push_bit (8 * n) (push_bit 8 acc OR ucast (ucast (drop_bit (8 * n) v) :: u8)) OR take_bit (8 * n) v =
      push_bit (8 * Suc n) acc OR take_bit (8 * Suc n) v"
    by (rule bit_word_eqI) (auto simp: bit_simps add.commute)
  then show ?case using Suc by (simp only: net_octets_Suc net_value.simps)
qed simp

lemma net_value_acc: "net_value xs acc = push_bit (8 * length xs) acc OR net_value xs 0"
proof (induction xs arbitrary: acc)
  case (Cons x xs)
  have "push_bit (8 * length xs) (push_bit 8 acc OR ucast x) OR net_value xs 0 =
      push_bit (8 * length (x # xs)) acc OR (push_bit (8 * length xs) (push_bit 8 0 OR ucast x) OR net_value xs 0)"
    by (rule bit_word_eqI) (auto simp: bit_simps add.commute)
  then show ?case using Cons [of "push_bit 8 acc OR ucast x"] Cons [of "push_bit 8 0 OR ucast x"] by simp
qed simp

lemma net_value_bound: "length xs \<le> 8 \<Longrightarrow> take_bit (8 * length xs) (net_value xs 0) = net_value xs 0"
proof (induction xs)
  case (Cons x xs)
  have h: "net_value (x # xs) 0 = push_bit (8 * length xs) (ucast x) OR take_bit (8 * length xs) (net_value xs 0)"
    using net_value_acc [of xs "ucast x"] Cons by simp
  show ?case unfolding h by (rule bit_word_eqI) (auto simp: bit_simps dest: bit_imp_le_length)
qed simp

lemma net_octets_value: "length xs \<le> 8 \<Longrightarrow> net_octets (length xs) (net_value xs 0) = xs"
proof (induction xs)
  case (Cons x xs)
  have h: "net_value xs (ucast x) = push_bit (8 * length xs) (ucast x) OR net_value xs 0"
    by (rule net_value_acc)
  have b: "take_bit (8 * length xs) (net_value xs 0) = net_value xs 0" using Cons.prems by (intro net_value_bound) simp
  have low: "net_octets (length xs) (push_bit (8 * length xs) (ucast x) OR net_value xs 0) = net_octets (length xs) (net_value xs 0)"
    unfolding net_octets_def
    by (rule map_cong [OF refl], rule bit_word_eqI) (auto simp: bit_simps)
  have "ucast (drop_bit (8 * length xs) (push_bit (8 * length xs) (ucast x) OR take_bit (8 * length xs) (net_value xs 0))) = x"
    using Cons.prems by (intro bit_word_eqI) (auto simp: bit_simps)
  then show ?case using Cons low by (simp add: net_octets_Suc h b)
qed simp

lemma uid_value_or: "uid_value u = push_bit 32 (ucast (manufacturer u)) OR ucast (device u)"
  unfolding uid_value_def by (subst disjunctive_add) (auto simp: bit_simps dest: bit_imp_le_length)

lemma uid_value_Uid_of: "uid_value (Uid_of u) = take_bit 48 u"
  unfolding uid_value_or by (rule bit_word_eqI) (auto simp: Uid_of_def bit_simps)

lemma Uid_of_uid_value [simp]: "Uid_of (uid_value u) = u"
proof -
  have "ucast (drop_bit 32 (push_bit 32 (ucast (manufacturer u)) OR ucast (device u) :: u64)) = manufacturer u"
    by (rule bit_word_eqI) (auto simp: bit_simps dest: bit_imp_le_length)
  moreover have "ucast (push_bit 32 (ucast (manufacturer u)) OR ucast (device u) :: u64) = device u"
    by (rule bit_word_eqI) (auto simp: bit_simps dest: bit_imp_le_length)
  ultimately show ?thesis by (simp add: Uid_of_def uid_value_or)
qed

section \<open>The view of a buffer\<close>

lemma length_uid_octets [simp]: "length (uid_octets u) = 6"
  by (simp add: uid_octets_def)

lemma length_header_octets [simp]: "length (header_octets p) = 24"
  by (simp add: header_octets_def)

lemma header_octets_data [simp]: "header_octets (p\<lparr>pkt_data := d\<rparr>) = header_octets p"
  by (simp add: header_octets_def)

lemma net_value_ucast: "net_value (net_octets n v) 0 = take_bit (8 * n) v"
  by (simp add: net_value_octets)

lemma uid_at_octets: "length xs = i \<Longrightarrow> uid_at (xs @ uid_octets u @ ys) i = u"
proof -
  have "ucast (take_bit 16 (ucast (manufacturer u)) :: u64) = manufacturer u" "ucast (take_bit 32 (ucast (device u)) :: u64) = device u"
    by (rule bit_word_eqI; auto simp: bit_simps dest: bit_imp_le_length)+
  then show "length xs = i \<Longrightarrow> uid_at (xs @ uid_octets u @ ys) i = u"
    by (simp add: uid_at_def uid_octets_def net_value_ucast)
qed

lemma Packet_at_octets [simp]: "Packet_at (packet_octets p) = Some p"
proof -
  have w: "ucast (take_bit 16 (ucast v) :: u64) = v" for v :: u16
    by (rule bit_word_eqI) (auto simp: bit_simps dest: bit_imp_le_length)
  have d: "uid_at (packet_octets p) 3 = h_dstUid p"
    using uid_at_octets [of "[h_startCode p, h_subStartCode p, h_msgLength p]" 3 "h_dstUid p"]
    by (simp add: packet_octets_def header_octets_def)
  have s: "uid_at (packet_octets p) 9 = h_srcUid p"
    using uid_at_octets [of "[h_startCode p, h_subStartCode p, h_msgLength p] @ uid_octets (h_dstUid p)" 9 "h_srcUid p"]
    by (simp add: packet_octets_def header_octets_def)
  have "packet_octets p ! 0 = h_startCode p" "packet_octets p ! 1 = h_subStartCode p" "packet_octets p ! 2 = h_msgLength p"
     "packet_octets p ! 15 = h_TN p" "packet_octets p ! 16 = h_portId p" "packet_octets p ! 17 = h_msgCount p"
     "packet_octets p ! 20 = h_CC p" "packet_octets p ! 23 = h_PDL p" "drop 24 (packet_octets p) = pkt_data p"
     "take 2 (drop 18 (packet_octets p)) = net_octets 2 (ucast (h_subDevice p))"
     "take 2 (drop 21 (packet_octets p)) = net_octets 2 (ucast (h_PID p))"
    by (simp_all add: packet_octets_def header_octets_def nth_append nth_Cons')
  then show ?thesis using d s by (simp add: Packet_at_def net_value_ucast w packet_octets_def [of p, THEN arg_cong [where f = length]])
qed

lemma slice_nth: "i + n \<le> length b \<Longrightarrow> take n (drop i b) = map (\<lambda>j. b ! (i + j)) [0..<n]"
  by (rule nth_equalityI) simp_all

lemma net_octets_u16: "length xs = 2 \<Longrightarrow> net_octets 2 (ucast (ucast (net_value xs 0) :: u16)) = xs"
proof -
  have "ucast (ucast w :: u16) = take_bit 16 w" for w :: u64 by (rule bit_word_eqI) (auto simp: bit_simps)
  then show "length xs = 2 \<Longrightarrow> net_octets 2 (ucast (ucast (net_value xs 0) :: u16)) = xs"
    using net_octets_value [of xs] net_value_bound [of xs] by simp
qed

lemma net_octets_u32: "length xs = 4 \<Longrightarrow> net_octets 4 (ucast (ucast (net_value xs 0) :: u32)) = xs"
proof -
  have "ucast (ucast w :: u32) = take_bit 32 w" for w :: u64 by (rule bit_word_eqI) (auto simp: bit_simps)
  then show "length xs = 4 \<Longrightarrow> net_octets 4 (ucast (ucast (net_value xs 0) :: u32)) = xs"
    using net_octets_value [of xs] net_value_bound [of xs] by simp
qed

lemma uid_octets_at:
  assumes "i + 6 \<le> length b"
  shows "uid_octets (uid_at b i) = take 6 (drop i b)"
proof -
  have "uid_octets (uid_at b i) = take 2 (drop i b) @ take 4 (drop (i + 2) b)"
    using assms by (simp add: uid_octets_def uid_at_def net_octets_u16 net_octets_u32)
  also have "\<dots> = take 6 (drop i b)" using assms by (simp add: slice_nth upt_rec [of _ "numeral _"])
  finally show ?thesis .
qed

lemma octets_Packet_at:
  assumes "Packet_at b = Some p"
  shows "packet_octets p = b"
proof -
  have l: "24 \<le> length b" using assms by (simp add: Packet_at_def split: if_splits)
  then have p: "packet_octets p = [b ! 0, b ! 1, b ! 2] @ take 6 (drop 3 b) @ take 6 (drop 9 b) @ [b ! 15, b ! 16, b ! 17] @
      take 2 (drop 18 b) @ [b ! 20] @ take 2 (drop 21 b) @ [b ! 23] @ drop 24 b"
    using assms by (auto simp: Packet_at_def packet_octets_def header_octets_def uid_octets_at net_octets_u16)
  also have "\<dots> = map ((!) b) [0..<24] @ drop 24 b"
    using l by (simp add: slice_nth upt_rec [of _ "numeral _"]) (simp add: numeral_eq_Suc)
  also have "\<dots> = b" using l slice_nth [of 0 24 b] append_take_drop_id [of 24 b] by simp
  finally show ?thesis .
qed

section \<open>Parameter data\<close>

lemma drop_net_octets: "drop m (net_octets (m + n) v) = net_octets n v"
  by (induction m) (simp_all add: net_octets_Suc)

lemma addPd_net: "addPd n v p = add_pd_octets (net_octets n v) p"
  by (simp add: addPd_def host_octets_def memcpy_reverse_def machineIsBigEndian_def)

lemma addPd_sized_net: "addPd_sized (host_octets 8 v) 6 p = add_pd_octets (net_octets 6 v) p"
proof -
  have "rev (take 6 (rev (net_octets 8 v))) = net_octets 6 v"
    using drop_net_octets [of 2 6 v] by (simp add: rev_take)
  then show ?thesis by (simp add: addPd_sized_def host_octets_def memcpy_reverse_def machineIsBigEndian_def Let_def)
qed

lemma net_value_zeros: "net_value (replicate k 0 @ xs) 0 = net_value xs 0"
  by (induction k) simp_all

lemma Pdl_unat: "Pdl p = int (unat (h_PDL p))"
  by (simp add: Pdl_def)

lemma PdAt_value:
  assumes "pos + sz \<le> unat (h_PDL p)" and "pos + sz \<le> length (pkt_data p)" and "sz \<le> n"
  shows "PdAt n pos sz p = Some (Some (net_value (take sz (drop pos (pkt_data p))) 0))"
proof -
  let ?xs = "take sz (drop pos (pkt_data p))"
  have "\<not> int (pos + sz) > Pdl p" unfolding Pdl_unat of_nat_less_iff using assms(1) by simp
  moreover have "host_value (rev ?xs @ replicate (n - length ?xs) 0) = net_value ?xs 0"
    by (simp add: host_value_def machineIsBigEndian_def net_value_zeros)
  ultimately show ?thesis
    using assms(2,3) by (simp add: PdAt_def arr_slice_def arr_blit_def blit_def memcpy_reverse_def)
qed

lemma add_pd_octets_Some:
  assumes "unat (h_PDL p) + length xs \<le> length (pkt_data p)"
  shows "add_pd_octets xs p = Some (p\<lparr>pkt_data := blit (pkt_data p) (unat (h_PDL p)) xs, h_PDL := h_PDL p + of_nat (length xs)\<rparr>)"
  using assms by (simp add: add_pd_octets_def arr_blit_def)

text \<open>The end of a packet: the checksum over header and parameter data goes behind them.\<close>

lemma finalize_Some:
  assumes "unat (h_PDL p) \<le> 231" and "unat (h_PDL p) + 2 \<le> length (pkt_data p)" and "c = rdm_sum (packet_octets (p\<lparr>h_msgLength := 24 + h_PDL p,
    pkt_data := take (unat (h_PDL p)) (pkt_data p)\<rparr>))"
  shows "finalize p = Some (p\<lparr>h_msgLength := 24 + h_PDL p,
      pkt_data := blit (pkt_data p) (unat (h_PDL p)) [ucast (drop_bit 8 c), ucast c]\<rparr>)"
    and "unat (24 + h_PDL p) = 24 + unat (h_PDL p)"
proof -
  show u: "unat (24 + h_PDL p) = 24 + unat (h_PDL p)" using assms(1) by (subst unat_add_lem [THEN iffD1]) simp_all
  have "calculateChecksum (packet_octets (p\<lparr>h_msgLength := 24 + h_PDL p\<rparr>)) (unat (24 + h_PDL p)) = Some c"
    using assms(2) unfolding assms(3)
    by (simp add: calculateChecksum_def arr_slice_def u packet_octets_def rdm_sum_def)
  moreover have "(xs[i := a])[Suc i := b] = blit xs i [a, b]" if "Suc i < length xs" for xs :: "u8 list" and i a b
    using that by (intro nth_equalityI) (auto simp: nth_blit nth_list_update nth_Cons' less_Suc_eq)
  ultimately show "finalize p = Some (p\<lparr>h_msgLength := 24 + h_PDL p,
      pkt_data := blit (pkt_data p) (unat (h_PDL p)) [ucast (drop_bit 8 c), ucast c]\<rparr>)"
    using assms(2) by (simp add: finalize_def arr_set_def Let_def)
qed

end
