(* ===== verification/Rdm_Device.thy ===== *)
theory Rdm_Device
  imports Rdm_Packet
begin

text \<open>
  The devices of the RDM library (\<^verbatim>\<open>src/src/librdm/rdmdevice.cpp\<close>) and the bus that connects several of them to one master
  (\<^verbatim>\<open>src/src/librdm/dmxbus.cpp\<close>). A device answers a frame by handing frames to its receiver; here they are part of the
  result. \<open>mem\<close> is what the 256 octets of a buffer on the stack hold before they are written.
\<close>

section \<open>Devices\<close>

record RdmDeviceP =
  dv_name :: string
  dv_myUid :: u64
  dv_muted :: bool
  dv_deviceModelId :: u16
  dv_productCategory :: u16
  dv_softwareVersion :: u32
  dv_dmx512Footprint :: u16
  dv_dmx512Personality :: u16
  dv_dmxAddress :: u16
  dv_identifyOn :: u8

definition RdmDevice_new :: "string \<Rightarrow> u64 \<Rightarrow> RdmDeviceP" where
  "RdmDevice_new nm uid = \<lparr>dv_name = nm, dv_myUid = uid, dv_muted = False, dv_deviceModelId = 0x4711, dv_productCategory = 0,
     dv_softwareVersion = 0x12345678, dv_dmx512Footprint = 20, dv_dmx512Personality = 0, dv_dmxAddress = 0, dv_identifyOn = 0\<rparr>"

definition RdmDevice_isMe :: "u64 \<Rightarrow> RdmDeviceP \<Rightarrow> bool" where
  "RdmDevice_isMe uid d \<longleftrightarrow> uid = uid_value Uid_broadcast \<or> uid = dv_myUid d"

definition RdmDevice_dmx512Address :: "int \<Rightarrow> RdmDeviceP \<Rightarrow> RdmDeviceP" where
  "RdmDevice_dmx512Address a d = d\<lparr>dv_dmxAddress := word_of_int a\<rparr>"

definition sendReply :: "Packet \<Rightarrow> IDmxData" where
  "sendReply p = ConstDmxData (packet_octets p) (int (enc_size p))"

text \<open>The start of every answer, in a buffer whose first 24 octets are cleared.\<close>

definition reply_packet :: "u8 list \<Rightarrow> u64 \<Rightarrow> u64 \<Rightarrow> int \<Rightarrow> int \<Rightarrow> Packet option" where
  "reply_packet mem src dst cc pid = do {
     b \<leftarrow> arr_blit mem 0 (replicate 24 0);
     p \<leftarrow> PacketEncoder b;
     Some (enc_Pid pid (enc_CommandClass cc (enc_Destination dst (enc_Source src p)))) }"

text \<open>The answers of the discovery commands.\<close>

definition discovery_answer :: "u8 list \<Rightarrow> Packet \<Rightarrow> int \<Rightarrow> RdmDeviceP \<Rightarrow> IDmxData list option" where
  "discovery_answer mem rdm pid d = do {
     p \<leftarrow> reply_packet mem (dv_myUid d) (Source rdm) rdm_DISCOVERY_COMMAND_RESPONSE pid;
     p \<leftarrow> finalize (enc_ResponseType rdm_RESPONSE_TYPE_ACK p);
     Some [sendReply p] }"

definition handle_unique_branch :: "u8 list \<Rightarrow> Packet \<Rightarrow> RdmDeviceP \<Rightarrow> (RdmDeviceP \<times> IDmxData list) option" where
  "handle_unique_branch mem rdm d = (
     if dv_muted d then Some (d, [])
     else do {
       from \<leftarrow> PdAt 8 0 6 rdm;
       (case from of
          None \<Rightarrow> Some (d, [])
        | Some from \<Rightarrow> do {
            to \<leftarrow> PdAt 8 6 6 rdm;
            (case to of
               None \<Rightarrow> Some (d, [])
             | Some to \<Rightarrow>
                 if dv_myUid d \<ge> from \<and> dv_myUid d \<le> to
                 then map_option (Pair d) (discovery_answer mem rdm rdm_DISC_UNIQUE_BRANCH d)
                 else Some (d, [])) }) })"

definition handle_discovery :: "u8 list \<Rightarrow> Packet \<Rightarrow> RdmDeviceP \<Rightarrow> (RdmDeviceP \<times> IDmxData list) option" where
  "handle_discovery mem rdm d = (
     if Pid rdm = rdm_DISC_UNIQUE_BRANCH then handle_unique_branch mem rdm d
     else if Pid rdm = rdm_DISC_MUTE then (
       let d = d\<lparr>dv_muted := True\<rparr>
       in if Destination rdm \<noteq> uid_value Uid_broadcast then map_option (Pair d) (discovery_answer mem rdm rdm_DISC_MUTE d) else Some (d, []))
     else if Pid rdm = rdm_DISC_UN_MUTE then (
       let d = d\<lparr>dv_muted := False\<rparr>
       in if Destination rdm \<noteq> uid_value Uid_broadcast then map_option (Pair d) (discovery_answer mem rdm rdm_DISC_UN_MUTE d) else Some (d, []))
     else Some (d, []))"

text \<open>The start of the answers of get and set commands: both name the parameter \<open>DEVICE_INFO\<close> and the class of a get response.\<close>

definition command_answer :: "u8 list \<Rightarrow> Packet \<Rightarrow> RdmDeviceP \<Rightarrow> Packet option" where
  "command_answer mem rdm d = map_option (enc_ResponseType rdm_RESPONSE_TYPE_ACK)
     (reply_packet mem (dv_myUid d) (Source rdm) rdm_GET_COMMAND_RESPONSE rdm_DEVICE_INFO)"

definition add_device_info :: "RdmDeviceP \<Rightarrow> Packet \<Rightarrow> Packet option" where
  "add_device_info d e = do {
     e \<leftarrow> addPd 2 0x100 e;
     e \<leftarrow> addPd 2 (ucast (dv_deviceModelId d)) e;
     e \<leftarrow> addPd 2 (ucast (dv_productCategory d)) e;
     e \<leftarrow> addPd 4 (ucast (dv_softwareVersion d)) e;
     e \<leftarrow> addPd 2 (ucast (dv_dmx512Footprint d)) e;
     e \<leftarrow> addPd 2 (ucast (dv_dmx512Personality d)) e;
     e \<leftarrow> addPd 2 (ucast (dv_dmxAddress d)) e;
     e \<leftarrow> addPd 2 0 e;
     addPd_u8 0 e }"

definition get_parameter :: "int \<Rightarrow> RdmDeviceP \<Rightarrow> Packet \<Rightarrow> Packet option" where
  "get_parameter pid d e = (
     if pid = rdm_DEVICE_INFO then add_device_info d e
     else if pid = rdm_SOFTWARE_VERSION_LABEL then addPd_string ''V1.0.0'' e
     else if pid = rdm_DMX_START_ADDRESS then addPd 2 (ucast (dv_dmxAddress d)) e
     else if pid = rdm_IDENTIFY_DEVICE then addPd_u8 (dv_identifyOn d) e
     else Some (enc_ResponseType rdm_RESPONSE_TYPE_UNKNOWN_PID e))"

definition handle_get :: "u8 list \<Rightarrow> Packet \<Rightarrow> RdmDeviceP \<Rightarrow> (RdmDeviceP \<times> IDmxData list) option" where
  "handle_get mem rdm d = do {
     e \<leftarrow> command_answer mem rdm d;
     e \<leftarrow> get_parameter (Pid rdm) d e;
     e \<leftarrow> finalize e;
     Some (d, [sendReply e]) }"

text \<open>A parameter that is too short leaves the device as it was, but is acknowledged.\<close>

definition set_parameter :: "Packet \<Rightarrow> RdmDeviceP \<Rightarrow> RdmDeviceP option" where
  "set_parameter rdm d = (
     if Pid rdm = rdm_DMX_START_ADDRESS then
       map_option (\<lambda>v. case v of None \<Rightarrow> d | Some a \<Rightarrow> d\<lparr>dv_dmxAddress := ucast a\<rparr>) (PdAt 2 0 2 rdm)
     else if Pid rdm = rdm_IDENTIFY_DEVICE then
       map_option (\<lambda>v. case v of None \<Rightarrow> d | Some a \<Rightarrow> d\<lparr>dv_identifyOn := ucast a\<rparr>) (PdAt 1 0 1 rdm)
     else if Pid rdm = 0xFEED then
       map_option (\<lambda>v. case v of None \<Rightarrow> d | Some a \<Rightarrow> d\<lparr>dv_myUid := a\<rparr>) (PdAt 8 0 6 rdm)
     else Some d)"

definition handle_set :: "u8 list \<Rightarrow> Packet \<Rightarrow> RdmDeviceP \<Rightarrow> (RdmDeviceP \<times> IDmxData list) option" where
  "handle_set mem rdm d = do {
     e \<leftarrow> command_answer mem rdm d;
     d \<leftarrow> set_parameter rdm d;
     let e = (if Pid rdm \<in> {rdm_DMX_START_ADDRESS, rdm_IDENTIFY_DEVICE, 0xFEED} then e else enc_ResponseType rdm_RESPONSE_TYPE_UNKNOWN_PID e);
     e \<leftarrow> finalize e;
     Some (d, [sendReply e]) }"

definition RdmDevice_handle :: "u8 list \<Rightarrow> IDmxData \<Rightarrow> RdmDeviceP \<Rightarrow> (RdmDeviceP \<times> IDmxData list) option" where
  "RdmDevice_handle mem f d = do {
     rdm \<leftarrow> Packet_at (dd_data f);
     if isRdm rdm \<and> isRequest rdm \<and> ItIsForMe (dv_myUid d) rdm then
       if CommandClass rdm = rdm_DISCOVERY_COMMAND then handle_discovery mem rdm d
       else if CommandClass rdm = rdm_GET_COMMAND then handle_get mem rdm d
       else if CommandClass rdm = rdm_SET_COMMAND then handle_set mem rdm d
       else Some (d, [])
     else Some (d, []) }"

section \<open>The bus\<close>

text \<open>\<open>bus_master\<close> is whether a master is registered.\<close>

record DmxBusP =
  bus_master :: bool
  bus_slaves :: "RdmDeviceP list"
  bus_requestActive :: bool
  bus_rxqueue :: "u8 list list"

definition DmxBus_new :: DmxBusP where
  "DmxBus_new = \<lparr>bus_master = False, bus_slaves = [], bus_requestActive = False, bus_rxqueue = []\<rparr>"

definition registerMasterReceiver :: "DmxBusP \<Rightarrow> DmxBusP" where
  "registerMasterReceiver b = b\<lparr>bus_master := True\<rparr>"

definition registerSlaveReceiver :: "RdmDeviceP \<Rightarrow> DmxBusP \<Rightarrow> DmxBusP" where
  "registerSlaveReceiver d b = b\<lparr>bus_slaves := bus_slaves b @ [d]\<rparr>"

definition handleSlave :: "IDmxData \<Rightarrow> DmxBusP \<Rightarrow> DmxBusP option" where
  "handleSlave f b = (
     if bus_requestActive b then do {
       v \<leftarrow> arr_slice (dd_data f) 0 (nat (dd_size f));
       Some (b\<lparr>bus_rxqueue := bus_rxqueue b @ [v]\<rparr>) }
     else Some b)"

fun handleSlaves :: "IDmxData list \<Rightarrow> DmxBusP \<Rightarrow> DmxBusP option" where
  "handleSlaves [] b = Some b"
| "handleSlaves (f # fs) b = do { b \<leftarrow> handleSlave f b; handleSlaves fs b }"

text \<open>The loop over the slaves; their answers come back through the slave port.\<close>

fun slaves_handle :: "u8 list \<Rightarrow> IDmxData \<Rightarrow> RdmDeviceP list \<Rightarrow> DmxBusP \<Rightarrow> (RdmDeviceP list \<times> DmxBusP) option" where
  "slaves_handle mem f [] b = Some ([], b)"
| "slaves_handle mem f (d # ds) b = do {
     (d, rs) \<leftarrow> RdmDevice_handle mem f d;
     b \<leftarrow> handleSlaves rs b;
     (ds, b) \<leftarrow> slaves_handle mem f ds b;
     Some (d # ds, b) }"

text \<open>The frame that the bus makes of none or several answers to a discovery request.\<close>

definition condensed_reply :: "u8 list \<Rightarrow> Packet \<Rightarrow> nat \<Rightarrow> IDmxData option" where
  "condensed_reply mem rdm replies = do {
     p \<leftarrow> reply_packet mem (if replies > 1 then 0xFFFFFFFFFFFF else 0) (Source rdm) rdm_DISCOVERY_COMMAND_RESPONSE rdm_DISC_UNIQUE_BRANCH;
     p \<leftarrow> finalize p;
     Some (ConstDmxData (packet_octets p) (int (enc_size p))) }"

text \<open>What the master is handed; without a master that is a call through a null pointer.\<close>

definition to_master :: "DmxBusP \<Rightarrow> IDmxData list \<Rightarrow> (IDmxData list \<times> DmxBusP) option" where
  "to_master b fs = (if fs \<noteq> [] \<and> \<not> bus_master b then None else Some (fs, b\<lparr>bus_rxqueue := []\<rparr>))"

definition handleMaster :: "u8 list \<Rightarrow> IDmxData \<Rightarrow> DmxBusP \<Rightarrow> (IDmxData list \<times> DmxBusP) option" where
  "handleMaster mem f b = do {
     (ds, b) \<leftarrow> slaves_handle mem f (bus_slaves b) (b\<lparr>bus_requestActive := True\<rparr>);
     let b = b\<lparr>bus_slaves := ds, bus_requestActive := False\<rparr>;
     let front = map (\<lambda>v. ConstDmxData v (int (length v))) (take 1 (bus_rxqueue b));
     if length (bus_rxqueue b) = 1 then to_master b front
     else do {
       rdm \<leftarrow> Packet_at (dd_data f);
       if isRdm rdm \<and> isRequest rdm \<and> CommandClass rdm = rdm_DISCOVERY_COMMAND \<and> Pid rdm = rdm_DISC_UNIQUE_BRANCH then do {
         r \<leftarrow> condensed_reply mem rdm (length (bus_rxqueue b));
         to_master b [r] }
       else to_master b front } }"

section \<open>Plain packets\<close>

text \<open>A packet with the fields that the library sets, the others zero.\<close>

definition plain_packet :: "u8 \<Rightarrow> u64 \<Rightarrow> u64 \<Rightarrow> int \<Rightarrow> int \<Rightarrow> u8 \<Rightarrow> u8 list \<Rightarrow> Packet" where
  "plain_packet len dst src cc pid pdl d = \<lparr>h_startCode = 0xCC, h_subStartCode = 1, h_msgLength = len, h_dstUid = Uid_of dst,
     h_srcUid = Uid_of src, h_TN = 0, h_portId = 0, h_msgCount = 0, h_subDevice = 0, h_CC = word_of_int cc, h_PID = word_of_int pid,
     h_PDL = pdl, pkt_data = d\<rparr>"

lemma uid48:
  assumes "u < 2 ^ 48"
  shows "take_bit 48 (u :: u64) = u"
proof -
  have "unat u < 2 ^ 48" using assms by (simp add: word_less_nat_alt)
  then have "unat (take_bit 48 u) = unat u" by (simp add: unsigned_take_bit_eq take_bit_nat_eq_self)
  then show ?thesis by (simp only: word_unat_eq_iff)
qed

lemma plain_packet_sel:
  shows "isRdm (plain_packet len dst src cc pid pdl d)" "StartCode (plain_packet len dst src cc pid pdl d) = rdm_SC_RDM"
    "SubStartCode (plain_packet len dst src cc pid pdl d) = rdm_SC_SUB_MESSAGE"
    "0 \<le> cc \<Longrightarrow> cc < 256 \<Longrightarrow> CommandClass (plain_packet len dst src cc pid pdl d) = cc"
    "0 \<le> pid \<Longrightarrow> pid < 65536 \<Longrightarrow> Pid (plain_packet len dst src cc pid pdl d) = pid"
    "src < 2 ^ 48 \<Longrightarrow> Source (plain_packet len dst src cc pid pdl d) = src"
    "dst < 2 ^ 48 \<Longrightarrow> Destination (plain_packet len dst src cc pid pdl d) = dst"
    "h_PDL (plain_packet len dst src cc pid pdl d) = pdl" "pkt_data (plain_packet len dst src cc pid pdl d) = d"
    "h_msgLength (plain_packet len dst src cc pid pdl d) = len"
    "Pdl (plain_packet len dst src cc pid pdl d) = uint pdl"
  by (simp_all add: plain_packet_def isRdm_def StartCode_def SubStartCode_def CommandClass_def Pid_def Pdl_def Source_def
      Destination_def rdm_value_defs uid_value_Uid_of uid48 uint_word_of_int take_bit_int_eq_self)

lemma plain_packet_upd [simp]:
  "(plain_packet len dst src cc pid pdl d)\<lparr>pkt_data := d', h_PDL := pdl'\<rparr> = plain_packet len dst src cc pid pdl' d'"
  "(plain_packet len dst src cc pid pdl d)\<lparr>h_msgLength := len', pkt_data := d'\<rparr> = plain_packet len' dst src cc pid pdl d'"
  "enc_ResponseType rdm_RESPONSE_TYPE_ACK (plain_packet len dst src cc pid pdl d) = plain_packet len dst src cc pid pdl d"
  by (simp_all add: plain_packet_def enc_ResponseType_def rdm_value_defs)

lemma PacketEncoder_cleared:
  "PacketEncoder (replicate 24 0 @ d) = Some (plain_packet 0 0 0 0 0 0 d)"
proof -
  have "packet_octets \<lparr>h_startCode = 0, h_subStartCode = 0, h_msgLength = 0, h_dstUid = Uid_of 0, h_srcUid = Uid_of 0, h_TN = 0, h_portId = 0,
      h_msgCount = 0, h_subDevice = 0, h_CC = 0, h_PID = 0, h_PDL = 0, pkt_data = d\<rparr> = replicate 24 0 @ d"
    by (simp add: packet_octets_def header_octets_def uid_octets_def net_octets_def Uid_of_def upt_rec numeral_eq_Suc)
  from arg_cong [OF this [symmetric], of Packet_at] show ?thesis
    by (simp only: PacketEncoder_def Packet_at_octets) (simp add: plain_packet_def rdm_value_defs)
qed

lemma reply_packet_plain:
  assumes "24 \<le> length mem"
  shows "reply_packet mem src dst cc pid = Some (plain_packet 0 dst src cc pid 0 (drop 24 mem))"
proof -
  have "blit mem 0 (replicate 24 0) = replicate 24 0 @ drop 24 mem" by (simp add: blit_def)
  then show ?thesis
    using assms by (simp add: reply_packet_def arr_blit_def PacketEncoder_cleared enc_defs) (simp add: plain_packet_def)
qed

lemma finalize_plain:
  assumes "2 \<le> length d"
  shows "\<exists>x y. finalize (plain_packet len dst src cc pid 0 d) = Some (plain_packet 24 dst src cc pid 0 (x # y # drop 2 d))"
  using finalize_Some(1) [of "plain_packet len dst src cc pid 0 d", OF _ _ refl] assms
  by (auto simp: plain_packet_sel blit_def numeral_2_eq_2)

lemma enc_size_plain: "enc_size (plain_packet len dst src cc pid pdl d) = unat len + 2"
  by (simp add: enc_size_def plain_packet_sel)

text \<open>A frame with a packet whose parameter data is \<open>xs\<close>.\<close>

definition data_frame :: "u64 \<Rightarrow> u64 \<Rightarrow> int \<Rightarrow> int \<Rightarrow> u8 list \<Rightarrow> IDmxData \<Rightarrow> bool" where
  "data_frame dst src cc pid xs f \<longleftrightarrow> length xs \<le> 229 \<and> dd_size f = 26 + int (length xs) \<and>
     (\<exists>d. 2 \<le> length d \<and> dd_data f = packet_octets (plain_packet (24 + of_nat (length xs)) dst src cc pid (of_nat (length xs)) (xs @ d)))"

abbreviation short_frame :: "u64 \<Rightarrow> u64 \<Rightarrow> int \<Rightarrow> int \<Rightarrow> IDmxData \<Rightarrow> bool" where
  "short_frame dst src cc pid f \<equiv> data_frame dst src cc pid [] f"

lemma short_frameI:
  "short_frame dst src cc pid \<lparr>dd_data = packet_octets (plain_packet 24 dst src cc pid 0 (x # y # d)), dd_size = 26\<rparr>"
  unfolding data_frame_def by (intro conjI exI [of _ "x # y # d"]) simp_all

lemma header_octets_plain:
  "header_octets (plain_packet len dst src cc pid pdl e) = header_octets (plain_packet len dst src cc pid pdl [])"
  by (simp add: header_octets_def plain_packet_def)

lemma packet_octets_plain:
  "packet_octets (plain_packet len dst src cc pid pdl e) = header_octets (plain_packet len dst src cc pid pdl []) @ e"
  by (simp add: packet_octets_def plain_packet_sel header_octets_plain [of _ _ _ _ _ _ e])

lemma discovery_answer_short:
  assumes "length mem = 256"
  shows "\<exists>f. discovery_answer mem rdm pid d = Some [f] \<and> short_frame (Source rdm) (dv_myUid d) rdm_DISCOVERY_COMMAND_RESPONSE pid f"
  using finalize_plain [of "drop 24 mem" 0 "Source rdm" "dv_myUid d" rdm_DISCOVERY_COMMAND_RESPONSE pid] assms
  by (auto simp: discovery_answer_def reply_packet_plain sendReply_def ConstDmxData_def enc_size_plain intro: short_frameI)

lemma condensed_reply_short:
  assumes "length mem = 256"
  shows "\<exists>f. condensed_reply mem rdm n = Some f \<and>
    short_frame (Source rdm) (if n > 1 then 0xFFFFFFFFFFFF else 0) rdm_DISCOVERY_COMMAND_RESPONSE rdm_DISC_UNIQUE_BRANCH f"
  using finalize_plain [of "drop 24 mem" 0 "Source rdm" "if n > 1 then 0xFFFFFFFFFFFF else 0" rdm_DISCOVERY_COMMAND_RESPONSE
      rdm_DISC_UNIQUE_BRANCH] assms
  by (auto simp: condensed_reply_def reply_packet_plain ConstDmxData_def enc_size_plain intro: short_frameI)

section \<open>Requests of the discovery\<close>

definition branch_request :: "u64 \<Rightarrow> u64 \<Rightarrow> u64 \<Rightarrow> IDmxData \<Rightarrow> bool" where
  "branch_request src from to f \<longleftrightarrow> (\<exists>q. Packet_at (dd_data f) = Some q \<and> isRdm q \<and> CommandClass q = rdm_DISCOVERY_COMMAND \<and>
     Pid q = rdm_DISC_UNIQUE_BRANCH \<and> Source q = src \<and> Destination q = 0xFFFFFFFFFFFF \<and>
     PdAt 8 0 6 q = Some (Some from) \<and> PdAt 8 6 6 q = Some (Some to))"

definition mute_request :: "u64 \<Rightarrow> u64 \<Rightarrow> IDmxData \<Rightarrow> bool" where
  "mute_request src u f \<longleftrightarrow> (\<exists>q. Packet_at (dd_data f) = Some q \<and> isRdm q \<and> CommandClass q = rdm_DISCOVERY_COMMAND \<and>
     Pid q = rdm_DISC_MUTE \<and> Source q = src \<and> Destination q = u)"

definition answers :: "u64 \<Rightarrow> u64 \<Rightarrow> RdmDeviceP \<Rightarrow> bool" where
  "answers from to d \<longleftrightarrow> \<not> dv_muted d \<and> from \<le> dv_myUid d \<and> dv_myUid d \<le> to"

lemma discovery_is_request: "CommandClass q = rdm_DISCOVERY_COMMAND \<Longrightarrow> isRequest q"
  by (simp add: isRequest_def rdm_value_defs)

text \<open>A device answers a branch request exactly when it is not muted and its UID is in the range.\<close>

lemma device_branch:
  assumes "branch_request src from to f" and "length mem = 256"
  obtains r where "RdmDevice_handle mem f d = Some (d, if answers from to d then [r] else [])"
    "short_frame src (dv_myUid d) rdm_DISCOVERY_COMMAND_RESPONSE rdm_DISC_UNIQUE_BRANCH r"
proof -
  obtain q where q: "Packet_at (dd_data f) = Some q" "isRdm q" "CommandClass q = rdm_DISCOVERY_COMMAND"
      "Pid q = rdm_DISC_UNIQUE_BRANCH" "Source q = src" "Destination q = 0xFFFFFFFFFFFF"
      "PdAt 8 0 6 q = Some (Some from)" "PdAt 8 6 6 q = Some (Some to)"
    using assms(1) by (auto simp: branch_request_def)
  obtain r where "discovery_answer mem q rdm_DISC_UNIQUE_BRANCH d = Some [r]"
      "short_frame src (dv_myUid d) rdm_DISCOVERY_COMMAND_RESPONSE rdm_DISC_UNIQUE_BRANCH r"
    using discovery_answer_short [OF assms(2), of q rdm_DISC_UNIQUE_BRANCH d] q(5) by auto
  then show thesis
    using that [of r] q
    by (auto simp: RdmDevice_handle_def discovery_is_request ItIsForMe_def handle_discovery_def handle_unique_branch_def answers_def)
qed

text \<open>A mute request mutes the device with that UID, which acknowledges it, and no other.\<close>

lemma device_mute:
  assumes "mute_request src u f" and "length mem = 256" and "u \<noteq> 0xFFFFFFFFFFFF"
  obtains r where "RdmDevice_handle mem f d = Some (if dv_myUid d = u then (d\<lparr>dv_muted := True\<rparr>, [r]) else (d, []))"
    "short_frame src (dv_myUid d) rdm_DISCOVERY_COMMAND_RESPONSE rdm_DISC_MUTE r"
proof -
  obtain q where q: "Packet_at (dd_data f) = Some q" "isRdm q" "CommandClass q = rdm_DISCOVERY_COMMAND"
      "Pid q = rdm_DISC_MUTE" "Source q = src" "Destination q = u"
    using assms(1) by (auto simp: mute_request_def)
  obtain r where "discovery_answer mem q rdm_DISC_MUTE (d\<lparr>dv_muted := True\<rparr>) = Some [r]"
      "short_frame src (dv_myUid d) rdm_DISCOVERY_COMMAND_RESPONSE rdm_DISC_MUTE r"
    using discovery_answer_short [OF assms(2), of q rdm_DISC_MUTE "d\<lparr>dv_muted := True\<rparr>"] q(5) by auto
  moreover have "uid_value Uid_broadcast = 0xFFFFFFFFFFFF" by (simp add: Uid_broadcast_def uid_value_Uid_of)
  moreover have "Pid q \<noteq> rdm_DISC_UNIQUE_BRANCH" using q(4) by (simp add: rdm_value_defs)
  ultimately show thesis
    using that [of r] q assms(3)
    by (auto simp: RdmDevice_handle_def discovery_is_request ItIsForMe_def handle_discovery_def Let_def)
qed

text \<open>What the bus queues of an answer is again a frame of 26 octets.\<close>

lemma data_frame_copy:
  assumes "data_frame dst src cc pid xs f"
  obtains v where "arr_slice (dd_data f) 0 (nat (dd_size f)) = Some v" "data_frame dst src cc pid xs (ConstDmxData v (int (length v)))"
proof -
  let ?n = "of_nat (length xs) :: u8"
  obtain d where d: "2 \<le> length d" "dd_data f = packet_octets (plain_packet (24 + ?n) dst src cc pid ?n (xs @ d))"
      "dd_size f = 26 + int (length xs)" "length xs \<le> 229"
    using assms by (auto simp: data_frame_def)
  let ?v = "packet_octets (plain_packet (24 + ?n) dst src cc pid ?n (xs @ take 2 d))"
  have n: "nat (26 + int (length xs)) = 26 + length xs" by simp
  have "arr_slice (dd_data f) 0 (nat (dd_size f)) = Some ?v"
    using d(1) unfolding d(2,3) n by (simp add: arr_slice_def packet_octets_plain)
  moreover have "data_frame dst src cc pid xs (ConstDmxData ?v (int (length ?v)))"
    unfolding data_frame_def using d(1,4) by (auto simp: ConstDmxData_def packet_octets_plain intro!: exI [of _ "take 2 d"])
  ultimately show thesis using that by blast
qed

text \<open>What the queue holds of the answers of the devices \<open>ds\<close>.\<close>

definition queued :: "u64 \<Rightarrow> int \<Rightarrow> u8 list list \<Rightarrow> RdmDeviceP list \<Rightarrow> bool" where
  "queued src pid vs ds \<longleftrightarrow>
     list_all2 (\<lambda>v d. short_frame src (dv_myUid d) rdm_DISCOVERY_COMMAND_RESPONSE pid (ConstDmxData v (int (length v)))) vs ds"

lemma slaves_answer:
  assumes "\<And>d. \<exists>r. RdmDevice_handle mem f d = Some (g d, if P d then [r] else []) \<and>
      short_frame src (dv_myUid d) rdm_DISCOVERY_COMMAND_RESPONSE pid r"
    and "bus_requestActive b"
  shows "\<exists>vs. slaves_handle mem f ds b = Some (map g ds, b\<lparr>bus_rxqueue := bus_rxqueue b @ vs\<rparr>) \<and> queued src pid vs (filter P ds)"
  using assms(2)
proof (induction ds arbitrary: b)
  case Nil
  show ?case by (rule exI [of _ "[]"]) (simp add: queued_def)
next
  case (Cons d ds)
  obtain r where r: "RdmDevice_handle mem f d = Some (g d, if P d then [r] else [])"
      "short_frame src (dv_myUid d) rdm_DISCOVERY_COMMAND_RESPONSE pid r"
    using assms(1) by blast
  obtain v where v: "arr_slice (dd_data r) 0 (nat (dd_size r)) = Some v"
      "short_frame src (dv_myUid d) rdm_DISCOVERY_COMMAND_RESPONSE pid (ConstDmxData v (int (length v)))"
    using data_frame_copy [OF r(2)] by blast
  let ?b = "if P d then b\<lparr>bus_rxqueue := bus_rxqueue b @ [v]\<rparr> else b"
  have act: "bus_requestActive ?b" using Cons.prems by simp
  obtain vs where vs: "slaves_handle mem f ds ?b = Some (map g ds, ?b\<lparr>bus_rxqueue := bus_rxqueue ?b @ vs\<rparr>)"
      "queued src pid vs (filter P ds)"
    using Cons.IH [OF act] by blast
  have "handleSlaves (if P d then [r] else []) b = Some ?b" using Cons.prems v(1) by (simp add: handleSlave_def)
  then show ?case
    using vs r(1) v(2) by (intro exI [of _ "if P d then v # vs else vs"]) (auto simp: queued_def)
qed

section \<open>The bus as a line\<close>

definition bus_inv :: "DmxBusP \<Rightarrow> bool" where
  "bus_inv b \<longleftrightarrow> bus_master b \<and> \<not> bus_requestActive b \<and> bus_rxqueue b = [] \<and> distinct (map dv_myUid (bus_slaves b)) \<and>
     (\<forall>d \<in> set (bus_slaves b). 0 < dv_myUid d \<and> dv_myUid d < 0xFFFFFFFFFFFF)"

definition bus_active :: "DmxBusP \<Rightarrow> u64 set" where
  "bus_active b = dv_myUid ` {d \<in> set (bus_slaves b). \<not> dv_muted d}"

text \<open>The source of the frame that the master gets for a branch request when the devices in \<open>S\<close> answer.\<close>

definition branch_source :: "u64 set \<Rightarrow> u64" where
  "branch_source S = (if S = {} then 0 else if is_singleton S then the_elem S else 0xFFFFFFFFFFFF)"

lemma queued_length: "queued src pid vs ds \<Longrightarrow> length vs = length ds"
  by (simp add: queued_def list_all2_lengthD)

lemma branch_source_list:
  assumes "distinct xs"
  shows "branch_source (set xs) = (case xs of [] \<Rightarrow> 0 | [u] \<Rightarrow> u | _ \<Rightarrow> 0xFFFFFFFFFFFF)"
  using assms by (auto simp: branch_source_def is_singleton_def split: list.split)

lemma bus_branch:
  assumes "bus_inv b" and "branch_request src from to f" and "length mem = 256"
  shows "\<exists>r. handleMaster mem f b = Some ([r], b) \<and>
     short_frame src (branch_source (bus_active b \<inter> {from..to})) rdm_DISCOVERY_COMMAND_RESPONSE rdm_DISC_UNIQUE_BRANCH r"
proof -
  let ?A = "filter (answers from to) (bus_slaves b)"
  have "\<exists>r. RdmDevice_handle mem f d = Some (id d, if answers from to d then [r] else []) \<and>
      short_frame src (dv_myUid d) rdm_DISCOVERY_COMMAND_RESPONSE rdm_DISC_UNIQUE_BRANCH r" for d
    using device_branch [OF assms(2,3), of d] by (metis id_apply)
  then obtain vs where vs: "slaves_handle mem f (bus_slaves b) (b\<lparr>bus_requestActive := True\<rparr>) =
        Some (bus_slaves b, b\<lparr>bus_requestActive := True, bus_rxqueue := vs\<rparr>)"
      "queued src rdm_DISC_UNIQUE_BRANCH vs ?A"
    using slaves_answer [where g = id and b = "b\<lparr>bus_requestActive := True\<rparr>" and ds = "bus_slaves b"] assms(1)
    by (simp add: bus_inv_def) blast
  have b: "b\<lparr>bus_requestActive := False, bus_rxqueue := [], bus_slaves := bus_slaves b\<rparr> = b" using assms(1) by (simp add: bus_inv_def)
  have S: "bus_active b \<inter> {from..to} = set (map dv_myUid ?A)" by (auto simp: bus_active_def answers_def)
  have "distinct (map dv_myUid ?A)" using assms(1) by (simp add: bus_inv_def distinct_map_filter)
  note src = branch_source_list [OF this]
  obtain q where q: "Packet_at (dd_data f) = Some q" "isRdm q" "CommandClass q = rdm_DISCOVERY_COMMAND"
      "Pid q = rdm_DISC_UNIQUE_BRANCH" "Source q = src"
    using assms(2) by (auto simp: branch_request_def)
  show ?thesis
  proof (cases "length vs = 1")
    case True
    then obtain v d where "vs = [v]" "?A = [d]" using queued_length [OF vs(2)] by (auto simp: length_Suc_conv)
    then show ?thesis
      using vs assms(1) src unfolding S
      by (simp add: handleMaster_def to_master_def queued_def bus_inv_def)
  next
    case False
    obtain r where r: "condensed_reply mem q (length vs) = Some r"
        "short_frame src (if length vs > 1 then 0xFFFFFFFFFFFF else 0) rdm_DISCOVERY_COMMAND_RESPONSE rdm_DISC_UNIQUE_BRANCH r"
      using condensed_reply_short [OF assms(3), of q "length vs"] q(5) by auto
    have "branch_source (set (map dv_myUid ?A)) = (if length vs > 1 then 0xFFFFFFFFFFFF else 0)"
      using False queued_length [OF vs(2)] unfolding src by (cases ?A; cases "tl ?A") auto
    then show ?thesis
      using vs(1) assms(1) r q False unfolding S
      by (simp add: handleMaster_def to_master_def bus_inv_def discovery_is_request)
  qed
qed

lemma filter_unique: "distinct (map g ds) \<Longrightarrow> d \<in> set ds \<Longrightarrow> filter (\<lambda>x. g x = g d) ds = [d]"
  by (induction ds) (auto simp: filter_empty_conv image_iff)

lemma bus_mute:
  assumes "bus_inv b" and "mute_request src u f" and "length mem = 256" and "u \<in> bus_active b"
  shows "\<exists>r b'. handleMaster mem f b = Some ([r], b') \<and> bus_inv b' \<and> bus_active b' = bus_active b - {u} \<and>
     short_frame src u rdm_DISCOVERY_COMMAND_RESPONSE rdm_DISC_MUTE r"
proof -
  let ?g = "\<lambda>d :: RdmDeviceP. if dv_myUid d = u then d\<lparr>dv_muted := True\<rparr> else d"
  obtain d where d: "d \<in> set (bus_slaves b)" "dv_myUid d = u" using assms(4) by (auto simp: bus_active_def)
  then have u: "u \<noteq> 0xFFFFFFFFFFFF" using assms(1) by (auto simp: bus_inv_def)
  have A: "filter (\<lambda>d. dv_myUid d = u) (bus_slaves b) = [d]"
    using filter_unique [of dv_myUid "bus_slaves b" d] assms(1) d by (simp add: bus_inv_def)
  have "\<exists>r. RdmDevice_handle mem f d = Some (?g d, if dv_myUid d = u then [r] else []) \<and>
      short_frame src (dv_myUid d) rdm_DISCOVERY_COMMAND_RESPONSE rdm_DISC_MUTE r" for d
  proof -
    obtain r where "RdmDevice_handle mem f d = Some (if dv_myUid d = u then (d\<lparr>dv_muted := True\<rparr>, [r]) else (d, []))"
        "short_frame src (dv_myUid d) rdm_DISCOVERY_COMMAND_RESPONSE rdm_DISC_MUTE r"
      using device_mute [OF assms(2,3) u] by blast
    then show ?thesis by (intro exI [of _ r]) auto
  qed
  then obtain vs where vs: "slaves_handle mem f (bus_slaves b) (b\<lparr>bus_requestActive := True\<rparr>) =
        Some (map ?g (bus_slaves b), b\<lparr>bus_requestActive := True, bus_rxqueue := vs\<rparr>)" "queued src rdm_DISC_MUTE vs [d]"
    using slaves_answer [where g = ?g and P = "\<lambda>d. dv_myUid d = u" and b = "b\<lparr>bus_requestActive := True\<rparr>" and ds = "bus_slaves b"] assms(1) A
    by (simp add: bus_inv_def) blast
  then obtain v where v: "vs = [v]" using queued_length [OF vs(2)] by (auto simp: length_Suc_conv)
  let ?b = "b\<lparr>bus_requestActive := False, bus_rxqueue := [], bus_slaves := map ?g (bus_slaves b)\<rparr>"
  have "dv_myUid \<circ> ?g = dv_myUid" by (rule ext) auto
  then have "bus_inv ?b" using assms(1) by (auto simp: bus_inv_def)
  moreover have "bus_active ?b = bus_active b - {u}"
  proof -
    have sl: "bus_slaves ?b = map ?g (bus_slaves b)" by simp
    have "{d \<in> set (map ?g ds). \<not> dv_muted d} = {d \<in> set ds. \<not> dv_muted d \<and> dv_myUid d \<noteq> u}" for ds
      by (induction ds) auto
    then have "bus_active ?b = dv_myUid ` {d \<in> set (bus_slaves b). \<not> dv_muted d \<and> dv_myUid d \<noteq> u}" by (simp only: bus_active_def sl)
    then show ?thesis by (auto simp: bus_active_def)
  qed
  moreover have "handleMaster mem f b = Some ([ConstDmxData v (int (length v))], ?b)"
    using vs(1) assms(1) v by (simp add: handleMaster_def to_master_def bus_inv_def)
  ultimately show ?thesis using vs(2) v d(2) by (auto simp: queued_def)
qed

end
