(* ===== verification/Rdm_Api.thy ===== *)
theory Rdm_Api
  imports Rdm_Device
begin

text \<open>
  The master side of the RDM library (\<^verbatim>\<open>src/src/librdm/rdmapi.cpp\<close>, \<^verbatim>\<open>rdmapi.hpp\<close>): futures for answers, muting, get
  and set commands and the discovery of devices by a search over ranges of UIDs.

  \<open>'w line\<close> is what the frames are sent on: for a frame it gives the frames that are handed to \<open>RdmApi::handle\<close> until the
  caller has its answer or has waited long enough. A future is an object at an address; addresses are not used again, and a
  write through the address of a future that has gone is the fault \<^term>\<open>None\<close>. \<open>mem\<close> is what 256 octets of memory hold
  before they are written.
\<close>

type_synonym 'w line = "IDmxData \<Rightarrow> 'w \<Rightarrow> (IDmxData list \<times> 'w) option"

section \<open>Futures\<close>

datatype FutureState = Busy | Ready | Timeout

record RdmFuture =
  fu_buffer :: "u8 list"
  fu_state :: FutureState

definition RdmFuture_new :: "u8 list \<Rightarrow> RdmFuture" where
  "RdmFuture_new mem = \<lparr>fu_buffer = mem, fu_state = Busy\<rparr>"

definition RdmFuture_set :: "IDmxData \<Rightarrow> RdmFuture \<Rightarrow> RdmFuture option" where
  "RdmFuture_set f fu = do {
     let s = (if 0 \<le> dd_size f \<and> dd_size f < int (length (fu_buffer fu)) then nat (dd_size f) else length (fu_buffer fu));
     xs \<leftarrow> arr_slice (dd_data f) 0 s;
     b \<leftarrow> arr_blit (fu_buffer fu) 0 xs;
     Some (fu\<lparr>fu_buffer := b, fu_state := Ready\<rparr>) }"

text \<open>When the waiting time has elapsed.\<close>

definition RdmFuture_wait :: "RdmFuture \<Rightarrow> RdmFuture" where
  "RdmFuture_wait fu = (if fu_state fu = Busy then fu\<lparr>fu_state := Timeout\<rparr> else fu)"

definition RdmFuture_okay :: "RdmFuture \<Rightarrow> bool" where
  "RdmFuture_okay fu \<longleftrightarrow> fu_state fu = Ready"

definition RdmFuture_size :: "RdmFuture \<Rightarrow> int option" where
  "RdmFuture_size fu = (if RdmFuture_okay (RdmFuture_wait fu) then map_option Pdl (Packet_at (fu_buffer fu)) else Some 0)"

text \<open>The value of \<open>n\<close> octets at an offset; behind the parameter data the variable is returned without having been set.\<close>

definition RdmFuture_at :: "nat \<Rightarrow> nat \<Rightarrow> RdmFuture \<Rightarrow> u64 option" where
  "RdmFuture_at n offset fu = (
     if RdmFuture_okay (RdmFuture_wait fu) then do {
       p \<leftarrow> Packet_at (fu_buffer fu);
       v \<leftarrow> PdAt n offset n p;
       v }
     else Some 0)"

definition RdmFuture_at_string :: "nat \<Rightarrow> nat \<Rightarrow> u8 list \<Rightarrow> RdmFuture \<Rightarrow> u8 list option" where
  "RdmFuture_at_string offset sz s fu = (
     if RdmFuture_okay (RdmFuture_wait fu) then do {
       p \<leftarrow> Packet_at (fu_buffer fu);
       v \<leftarrow> PdAt_string offset sz p;
       (case v of None \<Rightarrow> Some s | Some xs \<Rightarrow> arr_blit s 0 xs) }
     else Some s)"

section \<open>The master\<close>

text \<open>The buffers are static variables of the functions.\<close>

record RdmApi =
  api_futures :: "addr list"
  api_store :: "addr \<rightharpoonup> RdmFuture"
  api_next :: addr
  api_discovered :: "Uid list"
  api_discover_buffer :: "u8 list"
  api_mute_buffer :: "u8 list"
  api_unmute_buffer :: "u8 list"
  api_get_buffer :: "u8 list"

definition RdmApi_new :: RdmApi where
  "RdmApi_new = \<lparr>api_futures = [], api_store = Map.empty, api_next = 1,
     api_discovered = [Uid_of 0x4D530000AAAA, Uid_of 0x4D5300000005], api_discover_buffer = replicate 258 0,
     api_mute_buffer = replicate 258 0, api_unmute_buffer = replicate 258 0, api_get_buffer = replicate 258 0\<rparr>"

definition api_myUid :: Uid where "api_myUid = Uid_of 0x123400000001"

definition addFuture :: "addr \<Rightarrow> RdmApi \<Rightarrow> RdmApi" where
  "addFuture a api = api\<lparr>api_futures := api_futures api @ [a]\<rparr>"

text \<open>The first future gets the frame, the others are forgotten.\<close>

definition RdmApi_handle :: "IDmxData \<Rightarrow> RdmApi \<Rightarrow> RdmApi option" where
  "RdmApi_handle f api = (case api_futures api of
     [] \<Rightarrow> Some api
   | a # _ \<Rightarrow> do {
       fu \<leftarrow> api_store api a;
       fu \<leftarrow> RdmFuture_set f fu;
       Some (api\<lparr>api_store := (api_store api)(a \<mapsto> fu), api_futures := []\<rparr>) })"

fun RdmApi_handles :: "IDmxData list \<Rightarrow> RdmApi \<Rightarrow> RdmApi option" where
  "RdmApi_handles [] api = Some api"
| "RdmApi_handles (f # fs) api = do { api \<leftarrow> RdmApi_handle f api; RdmApi_handles fs api }"

definition api_handleTx :: "'w line \<Rightarrow> IDmxData \<Rightarrow> 'w \<Rightarrow> RdmApi \<Rightarrow> ('w \<times> RdmApi) option" where
  "api_handleTx line f w api = do {
     (fs, w) \<leftarrow> line f w;
     api \<leftarrow> RdmApi_handles fs api;
     Some (w, api) }"

text \<open>A request with a future that is a local variable: it is gone when the function returns, its address stays in the list
  unless a frame has come.\<close>

definition request_with_future :: "u8 list \<Rightarrow> 'w line \<Rightarrow> IDmxData \<Rightarrow> 'w \<Rightarrow> RdmApi \<Rightarrow> (RdmFuture \<times> 'w \<times> RdmApi) option" where
  "request_with_future mem line f w api = do {
     let a = api_next api;
     let api = addFuture a (api\<lparr>api_next := a + 1, api_store := (api_store api)(a \<mapsto> RdmFuture_new mem)\<rparr>);
     (w, api) \<leftarrow> api_handleTx line f w api;
     fu \<leftarrow> api_store api a;
     Some (RdmFuture_wait fu, w, api\<lparr>api_store := (api_store api)(a := None)\<rparr>) }"

text \<open>What \<open>mute\<close> and \<open>unmute\<close> have in common; \<open>b\<close> is the buffer.\<close>

definition mute_packet :: "u8 list \<Rightarrow> Uid \<Rightarrow> int \<Rightarrow> Packet option" where
  "mute_packet b whom pid = do {
     p \<leftarrow> PacketEncoder b;
     finalize (enc_Pid pid (enc_CommandClass rdm_DISCOVERY_COMMAND (enc_Destination (uid_value whom)
       (enc_Source (uid_value api_myUid) p)))) }"

definition send_mute :: "u8 list \<Rightarrow> 'w line \<Rightarrow> Uid \<Rightarrow> Packet \<Rightarrow> 'w \<Rightarrow> RdmApi \<Rightarrow> ('w \<times> RdmApi) option" where
  "send_mute mem line whom p w api = (
     let f = ConstDmxData (packet_octets p) (int (enc_size p))
     in if whom = Uid_broadcast then api_handleTx line f w api
        else map_option snd (request_with_future mem line f w api))"

definition RdmApi_mute :: "u8 list \<Rightarrow> 'w line \<Rightarrow> Uid \<Rightarrow> 'w \<Rightarrow> RdmApi \<Rightarrow> ('w \<times> RdmApi) option" where
  "RdmApi_mute mem line whom w api = do {
     p \<leftarrow> mute_packet (api_mute_buffer api) whom rdm_DISC_MUTE;
     send_mute mem line whom p w (api\<lparr>api_mute_buffer := packet_octets p\<rparr>) }"

definition RdmApi_unmute :: "u8 list \<Rightarrow> 'w line \<Rightarrow> Uid \<Rightarrow> 'w \<Rightarrow> RdmApi \<Rightarrow> ('w \<times> RdmApi) option" where
  "RdmApi_unmute mem line whom w api = do {
     p \<leftarrow> mute_packet (api_unmute_buffer api) whom rdm_DISC_UN_MUTE;
     send_mute mem line whom p w (api\<lparr>api_unmute_buffer := packet_octets p\<rparr>) }"

section \<open>Discovery\<close>

definition buildDiscoveryRequest :: "u64 \<Rightarrow> u64 \<Rightarrow> u64 \<Rightarrow> Packet \<Rightarrow> Packet option" where
  "buildDiscoveryRequest src from to e = do {
     e \<leftarrow> addPd_sized (host_octets 8 from) 6 (enc_Pid rdm_DISC_UNIQUE_BRANCH (enc_CommandClass rdm_DISCOVERY_COMMAND
       (enc_Destination 0xffffffffffff (enc_Source src e))));
     e \<leftarrow> addPd_sized (host_octets 8 to) 6 e;
     finalize e }"

text \<open>What the answer makes of the search: the devices found and the ranges that are searched again.\<close>

definition is_discovery_reply :: "Packet \<Rightarrow> bool" where
  "is_discovery_reply d \<longleftrightarrow> StartCode d = rdm_SC_RDM \<and> SubStartCode d = rdm_SC_SUB_MESSAGE \<and>
     CommandClass d = rdm_DISCOVERY_COMMAND_RESPONSE \<and> Pid d = rdm_DISC_UNIQUE_BRANCH \<and> Destination d = uid_value api_myUid"

definition discover_reply ::
  "u8 list \<Rightarrow> 'w line \<Rightarrow> u64 \<times> u64 \<Rightarrow> Uid list \<Rightarrow> Packet \<Rightarrow> 'w \<Rightarrow> RdmApi \<Rightarrow> ((u64 \<times> u64) list \<times> Uid list \<times> 'w \<times> RdmApi) option" where
  "discover_reply mem line a found d w api = (
     if \<not> is_discovery_reply d then Some ([], found, w, api)
     else if Source d = uid_value Uid_broadcast then
       Some ([(fst a, (fst a + snd a) div 2 - 1), ((fst a + snd a) div 2, snd a)], found, w, api)
     else if Source d = uid_value Uid_any then Some ([], found, w, api)
     else do {
       let found = (if Uid_of (Source d) \<in> set found then found else found @ [Uid_of (Source d)]);
       (w, api) \<leftarrow> RdmApi_mute mem line (Uid_of (Source d)) w api;
       Some ([a], found, w, api) })"

text \<open>The request for a range, in a buffer whose header is cleared.\<close>

definition discovery_packet :: "u8 list \<Rightarrow> u64 \<times> u64 \<Rightarrow> Packet option" where
  "discovery_packet b a = do {
     b \<leftarrow> arr_blit b 0 (replicate 24 0);
     e \<leftarrow> PacketEncoder b;
     buildDiscoveryRequest (uid_value api_myUid) (fst a) (snd a) e }"

definition discover_step ::
  "u8 list \<Rightarrow> 'w line \<Rightarrow> u64 \<times> u64 \<Rightarrow> Uid list \<Rightarrow> 'w \<Rightarrow> RdmApi \<Rightarrow> ((u64 \<times> u64) list \<times> Uid list \<times> 'w \<times> RdmApi) option" where
  "discover_step mem line a found w api = do {
     e \<leftarrow> discovery_packet (api_discover_buffer api) a;
     (fu, w, api) \<leftarrow> request_with_future mem line (ConstDmxData (packet_octets e) (int (enc_size e))) w
       (api\<lparr>api_discover_buffer := packet_octets e\<rparr>);
     if \<not> RdmFuture_okay fu then Some ([], found, w, api)
     else do {
       d \<leftarrow> Packet_at (fu_buffer fu);
       discover_reply mem line a found d w api } }"

fun discover_loop ::
  "nat \<Rightarrow> u8 list \<Rightarrow> 'w line \<Rightarrow> (u64 \<times> u64) list \<Rightarrow> Uid list \<Rightarrow> 'w \<Rightarrow> RdmApi \<Rightarrow> (Uid list \<times> 'w \<times> RdmApi) option" where
  "discover_loop searchCount mem line [] found w api = Some (found, w, api)"
| "discover_loop 0 mem line (a # searchSpace) found w api = Some (found, w, api)"
| "discover_loop (Suc searchCount) mem line (a # searchSpace) found w api = do {
     (ranges, found, w, api) \<leftarrow> discover_step mem line a found w api;
     discover_loop searchCount mem line (searchSpace @ ranges) found w api }"

definition discoverDevices ::
  "u8 list \<Rightarrow> 'w line \<Rightarrow> Uid \<Rightarrow> Uid \<Rightarrow> u64 \<Rightarrow> 'w \<Rightarrow> RdmApi \<Rightarrow> (Uid list \<times> 'w \<times> RdmApi) option" where
  "discoverDevices mem line from to maxSearchCount w api =
     discover_loop (unat maxSearchCount) mem line [(uid_value from, uid_value to)] [] w api"

definition startDiscovery :: "u8 list \<Rightarrow> 'w line \<Rightarrow> Uid \<Rightarrow> Uid \<Rightarrow> u64 \<Rightarrow> 'w \<Rightarrow> RdmApi \<Rightarrow> ('w \<times> RdmApi) option" where
  "startDiscovery mem line from to maxSearchCount w api = do {
     (found, w, api) \<leftarrow> discoverDevices mem line from to maxSearchCount w api;
     Some (w, api\<lparr>api_discovered := found\<rparr>) }"

definition startDiscovery_all :: "u8 list \<Rightarrow> 'w line \<Rightarrow> u64 \<Rightarrow> 'w \<Rightarrow> RdmApi \<Rightarrow> ('w \<times> RdmApi) option" where
  "startDiscovery_all mem line maxSearchCount w api =
     startDiscovery mem line (Uid_of 0x000000000001) (Uid_of 0xFFFFFFFFFFFE) maxSearchCount w api"

section \<open>Get and set\<close>

text \<open>\<open>add\<close> is what the caller adds before the setter is destroyed.\<close>

definition set_packet :: "u8 list \<Rightarrow> Uid \<Rightarrow> int \<Rightarrow> (Packet \<Rightarrow> Packet option) \<Rightarrow> Packet option" where
  "set_packet mem who pid add = do {
     e \<leftarrow> PacketEncoder mem;
     e \<leftarrow> add (enc_Pid pid (enc_CommandClass rdm_SET_COMMAND (enc_Destination (uid_value who) e)));
     finalize (enc_SubDevice 0 (enc_MessageCount 0 (enc_PortId 0 (enc_TransactionNumber 0 (enc_Source (uid_value api_myUid) e))))) }"

definition RdmApi_set ::
  "u8 list \<Rightarrow> 'w line \<Rightarrow> Uid \<Rightarrow> int \<Rightarrow> (Packet \<Rightarrow> Packet option) \<Rightarrow> 'w \<Rightarrow> RdmApi \<Rightarrow> ('w \<times> RdmApi) option" where
  "RdmApi_set mem line who pid add w api = do {
     e \<leftarrow> set_packet mem who pid add;
     api_handleTx line (ConstDmxData (packet_octets e) (int (enc_size e))) w api }"

definition get_packet :: "u8 list \<Rightarrow> Uid \<Rightarrow> int \<Rightarrow> Packet option" where
  "get_packet b who pid = do {
     e \<leftarrow> PacketEncoder b;
     finalize (enc_SubDevice 0 (enc_MessageCount 0 (enc_PortId 0 (enc_TransactionNumber 0 (enc_Pid pid
       (enc_CommandClass rdm_GET_COMMAND (enc_Destination (uid_value who) (enc_Source (uid_value api_myUid) e)))))))) }"

text \<open>The future that is returned is never given back.\<close>

definition RdmApi_get :: "u8 list \<Rightarrow> 'w line \<Rightarrow> Uid \<Rightarrow> int \<Rightarrow> 'w \<Rightarrow> RdmApi \<Rightarrow> (addr \<times> 'w \<times> RdmApi) option" where
  "RdmApi_get mem line who pid w api = do {
     e \<leftarrow> get_packet (api_get_buffer api) who pid;
     let a = api_next api;
     let api = addFuture a (api\<lparr>api_get_buffer := packet_octets e, api_next := a + 1, api_store := (api_store api)(a \<mapsto> RdmFuture_new mem)\<rparr>);
     (w, api) \<leftarrow> api_handleTx line (ConstDmxData (packet_octets e) (int (enc_size e))) w api;
     Some (a, w, api) }"

end
