(* ===== verification/Rdm_Discovery.thy ===== *)
theory Rdm_Discovery
  imports Rdm_Api
begin

text \<open>
  The discovery of the RDM library (\<open>Rdm_Api\<close>) finds the devices on a line. The locale \<open>rdm_line\<close> states what the search
  relies on: a branch request is answered with the UID of the only device that is not muted and in the range, with the
  broadcast UID when there are several and with zero when there is none, and a mute request mutes its device. The bus of the
  library with its devices is such a line.
\<close>

section \<open>Requests and their answers\<close>

definition api_ok :: "RdmApi \<Rightarrow> bool" where
  "api_ok api \<longleftrightarrow> api_futures api = [] \<and> length (api_discover_buffer api) = 258 \<and> length (api_mute_buffer api) = 258"

lemma myUid_value: "uid_value api_myUid = 0x123400000001"
  by (simp add: api_myUid_def uid_value_Uid_of)

lemma broadcast_value: "uid_value Uid_broadcast = 0xFFFFFFFFFFFF"
  by (simp add: Uid_broadcast_def uid_value_Uid_of)

text \<open>A frame that a future takes over.\<close>

lemma future_takes:
  assumes "data_frame dst src cc pid xs r" and "length mem = 256"
  obtains d where "RdmFuture_set r (RdmFuture_new mem) =
      Some \<lparr>fu_buffer = packet_octets (plain_packet (24 + of_nat (length xs)) dst src cc pid (of_nat (length xs)) (xs @ d)), fu_state = Ready\<rparr>"
proof -
  let ?P = "plain_packet (24 + of_nat (length xs)) dst src cc pid (of_nat (length xs))"
  obtain d where d: "2 \<le> length d" "dd_data r = packet_octets (?P (xs @ d))" "dd_size r = 26 + int (length xs)" "length xs \<le> 229"
    using assms(1) by (auto simp: data_frame_def)
  have n: "nat (26 + int (length xs)) = 26 + length xs" by simp
  have "arr_slice (dd_data r) 0 (26 + length xs) = Some (packet_octets (?P (xs @ take 2 d)))"
    using d(1) unfolding d(2) by (simp add: arr_slice_def packet_octets_plain)
  moreover have "arr_blit mem 0 (packet_octets (?P (xs @ take 2 d))) = Some (packet_octets (?P (xs @ take 2 d @ drop (26 + length xs) mem)))"
    using d(1,4) assms(2) by (simp add: arr_blit_def blit_def packet_octets_plain min_def)
  ultimately show thesis
    using that [of "take 2 d @ drop (26 + length xs) mem"] assms(2) d(3,4) by (simp add: RdmFuture_set_def RdmFuture_new_def n Let_def)
qed

lemma request_answered:
  assumes "line f w = Some ([r], w')" and "data_frame dst src cc pid xs r" and "length mem = 256" and "api_ok api"
  shows "\<exists>fu d api'. request_with_future mem line f w api = Some (fu, w', api') \<and> api_ok api' \<and> RdmFuture_okay fu \<and>
    Packet_at (fu_buffer fu) = Some (plain_packet (24 + of_nat (length xs)) dst src cc pid (of_nat (length xs)) (xs @ d))"
proof -
  obtain d where "RdmFuture_set r (RdmFuture_new mem) =
      Some \<lparr>fu_buffer = packet_octets (plain_packet (24 + of_nat (length xs)) dst src cc pid (of_nat (length xs)) (xs @ d)), fu_state = Ready\<rparr>"
    using future_takes [OF assms(2,3)] by blast
  then show ?thesis
    using assms(1,4)
    by (auto simp: api_ok_def request_with_future_def addFuture_def api_handleTx_def RdmApi_handle_def RdmFuture_wait_def RdmFuture_okay_def Let_def)
qed

lemma branch_frame:
  assumes "length b = 258" and "from < 2 ^ 48" and "to < 2 ^ 48"
  obtains e where "discovery_packet b (from, to) = Some e"
    "length (packet_octets e) = 258" "\<And>n. branch_request (uid_value api_myUid) from to (ConstDmxData (packet_octets e) n)"
proof -
  let ?P = "\<lambda>len pdl d. plain_packet len 0xffffffffffff (uid_value api_myUid) rdm_DISCOVERY_COMMAND rdm_DISC_UNIQUE_BRANCH pdl d"
  let ?F = "net_octets 6 from" and ?T = "net_octets 6 to" and ?d = "drop 24 b"
  have e0: "enc_Pid rdm_DISC_UNIQUE_BRANCH (enc_CommandClass rdm_DISCOVERY_COMMAND (enc_Destination 0xffffffffffff (enc_Source (uid_value api_myUid)
      (plain_packet 0 0 0 0 0 0 ?d)))) = ?P 0 0 ?d"
    by (simp add: enc_defs plain_packet_def)
  have e1: "add_pd_octets ?F (?P 0 0 ?d) = Some (?P 0 6 (?F @ drop 6 ?d))"
    using assms(1) by (subst add_pd_octets_Some) (simp_all add: plain_packet_sel blit_def)
  have e2: "add_pd_octets ?T (?P 0 6 (?F @ drop 6 ?d)) = Some (?P 0 12 (?F @ ?T @ drop 12 ?d))"
    using assms(1) by (subst add_pd_octets_Some) (simp_all add: plain_packet_sel blit_def)
  obtain x y where e3: "finalize (?P 0 12 (?F @ ?T @ drop 12 ?d)) = Some (?P 36 12 (?F @ ?T @ [x, y] @ drop 14 ?d))"
    using finalize_Some(1) [of "?P 0 12 (?F @ ?T @ drop 12 ?d)", OF _ _ refl] assms(1) by (simp add: plain_packet_sel blit_def)
  let ?e = "?P 36 12 (?F @ ?T @ [x, y] @ drop 14 ?d)"
  have "PdAt 8 0 6 ?e = Some (Some from)"
    using PdAt_value [of 0 6 ?e 8] assms(2) by (simp add: plain_packet_sel net_value_ucast uid48)
  moreover have "PdAt 8 6 6 ?e = Some (Some to)"
    using PdAt_value [of 6 6 ?e 8] assms(3) by (simp add: plain_packet_sel net_value_ucast uid48)
  moreover have "CommandClass ?e = rdm_DISCOVERY_COMMAND" "Pid ?e = rdm_DISC_UNIQUE_BRANCH" "Source ?e = uid_value api_myUid"
      "Destination ?e = 0xFFFFFFFFFFFF"
    by (subst plain_packet_sel; simp add: rdm_value_defs myUid_value)+
  ultimately have req: "branch_request (uid_value api_myUid) from to (ConstDmxData (packet_octets ?e) n)" for n
    by (simp add: branch_request_def ConstDmxData_def plain_packet_sel)
  have "discovery_packet b (from, to) = Some ?e"
    using assms(1) e0 e1 e2 e3 by (simp add: arr_blit_def blit_def PacketEncoder_cleared discovery_packet_def buildDiscoveryRequest_def addPd_sized_net)
  moreover have "length (packet_octets ?e) = 258" using assms(1) by (simp add: packet_octets_def plain_packet_sel)
  ultimately show thesis using that req by blast
qed

lemma mute_frame:
  assumes "length b = 258" and "u < 2 ^ 48"
  obtains p where "mute_packet b (Uid_of u) rdm_DISC_MUTE = Some p" "length (packet_octets p) = 258"
    "\<And>n. mute_request (uid_value api_myUid) u (ConstDmxData (packet_octets p) n)"
proof -
  obtain q where q: "Packet_at b = Some q" using assms(1) by (auto simp: Packet_at_def)
  then have lq: "length (pkt_data q) = 234" using assms(1) by (auto simp: Packet_at_def)
  let ?q = "enc_Pid rdm_DISC_MUTE (enc_CommandClass rdm_DISCOVERY_COMMAND (enc_Destination (uid_value (Uid_of u)) (enc_Source (uid_value api_myUid)
      (q\<lparr>h_startCode := word_of_int rdm_SC_RDM, h_subStartCode := word_of_int rdm_SC_SUB_MESSAGE, h_PDL := 0\<rparr>))))"
  have z: "h_PDL ?q = 0" "pkt_data ?q = pkt_data q" by (simp_all add: enc_defs)
  obtain p where p: "finalize ?q = Some p" "p = ?q\<lparr>h_msgLength := h_msgLength p, pkt_data := pkt_data p\<rparr>" "length (pkt_data p) = 234"
    using finalize_Some(1) [of ?q, OF _ _ refl] lq by (simp add: z)
  have f: "isRdm p" "CommandClass p = rdm_DISCOVERY_COMMAND" "Pid p = rdm_DISC_MUTE" "Source p = uid_value api_myUid" "Destination p = u"
    using assms(2)
    by (subst p(2), simp add: enc_defs isRdm_def StartCode_def SubStartCode_def CommandClass_def Pid_def Source_def Destination_def
        rdm_value_defs uid_value_Uid_of uid48)+
  have "mute_request (uid_value api_myUid) u (ConstDmxData (packet_octets p) n)" for n
    using f by (simp add: mute_request_def ConstDmxData_def)
  moreover have "mute_packet b (Uid_of u) rdm_DISC_MUTE = Some p"
    using q p(1) by (simp add: mute_packet_def PacketEncoder_def)
  ultimately show thesis using that p(3) by (simp add: packet_octets_def)
qed

section \<open>The cost of a search\<close>

text \<open>How often a range can be halved. The upper half of a range keeps the lower bound of the split, so a range of two UIDs is not
  made smaller.\<close>

fun halvings :: "nat \<Rightarrow> nat" where
  "halvings x = (if x = 0 then 0 else Suc (halvings (x div 2)))"

declare halvings.simps [simp del]

definition search_cost :: "u64 set \<Rightarrow> u64 \<times> u64 \<Rightarrow> nat" where
  "search_cost A r = 1 + card (A \<inter> {fst r..snd r}) * (halvings (unat (snd r) - unat (fst r) - 1) + 1)"

text \<open>No two devices have adjacent UIDs.\<close>

definition sparse :: "u64 set \<Rightarrow> bool" where
  "sparse A \<longleftrightarrow> (\<forall>u \<in> A. \<forall>v \<in> A. u < v \<longrightarrow> unat u + 2 \<le> unat v)"

lemma halvings_0 [simp]: "halvings 0 = 0"
  by (subst halvings.simps) simp

lemma halvings_pos: "x \<noteq> 0 \<Longrightarrow> halvings x = Suc (halvings (x div 2))"
  by (subst halvings.simps) simp

lemma halvings_mono: "x \<le> y \<Longrightarrow> halvings x \<le> halvings y"
proof (induction y arbitrary: x rule: less_induct)
  case (less y)
  show ?case
  proof (cases "x = 0")
    case True
    then show ?thesis by simp
  next
    case False
    then have "halvings (x div 2) \<le> halvings (y div 2)" using less.prems by (intro less.IH) (auto simp: div_le_mono)
    then show ?thesis using False less.prems by (simp add: halvings_pos)
  qed
qed

lemma halvings_bound: "x < 2 ^ n \<Longrightarrow> halvings x \<le> n"
proof (induction n arbitrary: x)
  case 0
  then show ?case by simp
next
  case (Suc n)
  then have "halvings (x div 2) \<le> n" by (intro Suc.IH) (simp add: less_mult_imp_div_less mult.commute)
  then show ?case by (cases "x = 0") (simp_all add: halvings_pos)
qed

lemma search_cost_pos: "0 < search_cost A r"
  by (simp add: search_cost_def)

lemma search_cost_mono: "finite A \<Longrightarrow> B \<subseteq> A \<Longrightarrow> search_cost B r \<le> search_cost A r"
  unfolding search_cost_def by (intro add_left_mono mult_right_mono card_mono) auto

lemma search_cost_bound:
  assumes "hi < 2 ^ 48"
  shows "search_cost A (lo, hi) \<le> 1 + 49 * card (A \<inter> {lo..hi})"
proof -
  have "unat hi < 2 ^ 48" using assms by (simp add: word_less_nat_alt)
  then have "halvings (unat hi - unat lo - 1) \<le> 48" by (intro halvings_bound) simp
  then have "card (A \<inter> {lo..hi}) * (halvings (unat hi - unat lo - 1) + 1) \<le> card (A \<inter> {lo..hi}) * 49" by (intro mult_left_mono) simp_all
  then show ?thesis by (simp add: search_cost_def mult.commute)
qed

lemma middle:
  fixes lo hi :: u64
  assumes "lo < 2 ^ 48" and "hi < 2 ^ 48" and "unat lo + 2 \<le> unat hi" and "m = (lo + hi) div 2"
  shows "unat m = (unat lo + unat hi) div 2" "unat (m - 1) = unat m - 1" "lo \<le> m - 1" "m \<le> hi" "m < 2 ^ 48" "m - 1 < 2 ^ 48"
    "{lo..hi} = {lo..m - 1} \<union> {m..hi}" "{lo..m - 1} \<inter> {m..hi} = {}"
proof -
  have b: "unat lo < 2 ^ 48" "unat hi < 2 ^ 48" using assms(1,2) by (simp_all add: word_less_nat_alt)
  then have "unat (lo + hi) = unat lo + unat hi" by (subst unat_add_lem [THEN iffD1]) simp_all
  then show m: "unat m = (unat lo + unat hi) div 2" using assms(4) by (simp add: unat_div)
  then have m1: "unat lo + 1 \<le> unat m" "unat m < unat hi" using assms(3) by linarith+
  then have "m \<noteq> 0" by (intro notI) simp
  then show d: "unat (m - 1) = unat m - 1" by (rule unat_minus_one)
  show "lo \<le> m - 1" "m \<le> hi" using m1 d by (simp_all add: word_le_nat_alt)
  show "m < 2 ^ 48" "m - 1 < 2 ^ 48" using m1 d b by (simp_all add: word_less_nat_alt)
  show "{lo..hi} = {lo..m - 1} \<union> {m..hi}" "{lo..m - 1} \<inter> {m..hi} = {}"
    using m1 d by (auto simp: word_le_nat_alt)
qed

lemma search_cost_split:
  fixes lo hi :: u64
  assumes "finite A" and "lo < 2 ^ 48" and "hi < 2 ^ 48" and "unat lo + 2 \<le> unat hi" and "m = (lo + hi) div 2" and "2 \<le> card (A \<inter> {lo..hi})"
  shows "search_cost A (lo, m - 1) + search_cost A (m, hi) < search_cost A (lo, hi)"
proof -
  note mid = middle [OF assms(2-5)]
  define x where "x = unat hi - unat lo - 1"
  define d where "d = halvings (x div 2)"
  have k: "card (A \<inter> {lo..hi}) = card (A \<inter> {lo..m - 1}) + card (A \<inter> {m..hi})"
    unfolding mid(7) using assms(1) mid(8) by (subst Int_Un_distrib, intro card_Un_disjoint) auto
  have hx: "halvings x = Suc d" unfolding d_def using assms(4) by (intro halvings_pos) (simp add: x_def)
  have "halvings (unat (m - 1) - unat lo - 1) \<le> d" "halvings (unat hi - unat m - 1) \<le> d"
    unfolding d_def x_def mid(1,2) by (intro halvings_mono; linarith)+
  then have "card (A \<inter> {lo..m - 1}) * (halvings (unat (m - 1) - unat lo - 1) + 1) \<le> card (A \<inter> {lo..m - 1}) * (d + 1)"
      "card (A \<inter> {m..hi}) * (halvings (unat hi - unat m - 1) + 1) \<le> card (A \<inter> {m..hi}) * (d + 1)"
    by (intro mult_left_mono; simp)+
  then have "search_cost A (lo, m - 1) + search_cost A (m, hi) \<le> 2 + card (A \<inter> {lo..hi}) * (d + 1)"
    unfolding search_cost_def k fst_conv snd_conv add_mult_distrib by linarith
  also have "\<dots> < search_cost A (lo, hi)" using assms(6) hx by (simp add: search_cost_def x_def algebra_simps)
  finally show ?thesis .
qed

lemma sparse_range:
  assumes "sparse A" and "finite A" and "A \<inter> {lo..hi} \<noteq> {}" and "\<not> is_singleton (A \<inter> {lo..hi})"
  shows "unat lo + 2 \<le> unat hi" "2 \<le> card (A \<inter> {lo..hi})"
proof -
  show "2 \<le> card (A \<inter> {lo..hi})"
    using assms(2-4) by (metis One_nat_def Suc_leI card_gt_0_iff finite_Int is_singleton_altdef le_neq_implies_less numeral_2_eq_2)
  then obtain u v where "u \<in> A \<inter> {lo..hi}" "v \<in> A \<inter> {lo..hi}" "u \<noteq> v"
    using card_le_Suc0_iff_eq [of "A \<inter> {lo..hi}"] assms(2) by fastforce
  then obtain u v where uv: "u \<in> A" "v \<in> A" "u < v" "lo \<le> u" "v \<le> hi" by (metis IntE atLeastAtMost_iff linorder_less_linear)
  then have "unat u + 2 \<le> unat v" using assms(1) by (simp add: sparse_def)
  moreover have "unat lo \<le> unat u" "unat v \<le> unat hi" using uv by (simp_all add: word_le_nat_alt)
  ultimately show "unat lo + 2 \<le> unat hi" by simp
qed

text \<open>The UIDs of pending ranges, and the state of a search that can end within \<open>n\<close> rounds.\<close>

definition covered :: "(u64 \<times> u64) list \<Rightarrow> u64 set" where
  "covered space = (\<Union>(lo, hi) \<in> set space. {lo..hi})"

definition search_state :: "('w \<Rightarrow> bool) \<Rightarrow> ('w \<Rightarrow> u64 set) \<Rightarrow> nat \<Rightarrow> (u64 \<times> u64) list \<Rightarrow> Uid list \<Rightarrow> 'w \<Rightarrow> RdmApi \<Rightarrow> bool" where
  "search_state ok active n space found w api \<longleftrightarrow> ok w \<and> api_ok api \<and> sparse (active w) \<and> (\<forall>(lo, hi) \<in> set space. lo < 2 ^ 48 \<and> hi < 2 ^ 48) \<and>
     sum_list (map (search_cost (active w)) space) \<le> n \<and> uid_value ` set found \<inter> active w = {} \<and> distinct found"

text \<open>A round keeps the devices found together with those still to be found, and those outside of the ranges.\<close>

definition same_devices :: "(u64 \<times> u64) list \<Rightarrow> Uid list \<Rightarrow> u64 set \<Rightarrow> (u64 \<times> u64) list \<Rightarrow> Uid list \<Rightarrow> u64 set \<Rightarrow> bool" where
  "same_devices space found A space' found' A' \<longleftrightarrow>
     uid_value ` set found' \<union> (A' \<inter> covered space') = uid_value ` set found \<union> (A \<inter> covered space) \<and> A' - covered space' = A - covered space"

lemma covered_simps [simp]: "covered [] = {}" "covered ((lo, hi) # space) = {lo..hi} \<union> covered space" "covered (xs @ ys) = covered xs \<union> covered ys"
  by (auto simp: covered_def)

section \<open>What the search relies on\<close>

locale rdm_line =
  fixes line :: "'w line" and inv :: "'w \<Rightarrow> bool" and active :: "'w \<Rightarrow> u64 set"
  assumes branch: "inv w \<Longrightarrow> branch_request src from to f \<Longrightarrow>
      \<exists>r. line f w = Some ([r], w) \<and>
        short_frame src (branch_source (active w \<inter> {from..to})) rdm_DISCOVERY_COMMAND_RESPONSE rdm_DISC_UNIQUE_BRANCH r"
    and mute: "inv w \<Longrightarrow> mute_request src u f \<Longrightarrow> u \<in> active w \<Longrightarrow>
      \<exists>r w'. line f w = Some ([r], w') \<and> inv w' \<and> active w' = active w - {u} \<and>
        short_frame src u rdm_DISCOVERY_COMMAND_RESPONSE rdm_DISC_MUTE r"
    and uids: "inv w \<Longrightarrow> u \<in> active w \<Longrightarrow> 0 < u \<and> u < 0xFFFFFFFFFFFF"
    and finite_active: "inv w \<Longrightarrow> finite (active w)"
begin

lemma uid_bound: "inv w \<Longrightarrow> u \<in> active w \<Longrightarrow> u < 2 ^ 48"
  using uids [of w u] by (auto intro: less_trans)

lemma branch_source_bound:
  assumes "inv w"
  shows "branch_source (active w \<inter> S) < 2 ^ 48"
proof (cases "is_singleton (active w \<inter> S)")
  case True
  then obtain u where u: "active w \<inter> S = {u}" by (auto simp: is_singleton_def)
  then have "u \<in> active w" by blast
  then show ?thesis using uid_bound [OF assms] u by (simp add: branch_source_def)
qed (simp add: branch_source_def)

lemma step_reply:
  assumes "inv w" and "api_ok api" and "length mem = 256" and "lo < 2 ^ 48" and "hi < 2 ^ 48"
  obtains d api' where "discover_step mem line (lo, hi) found w api = discover_reply mem line (lo, hi) found d w api'"
    "api_ok api'" "is_discovery_reply d" "Source d = branch_source (active w \<inter> {lo..hi})"
proof -
  obtain e where e: "discovery_packet (api_discover_buffer api) (lo, hi) = Some e"
      "length (packet_octets e) = 258" "\<And>n. branch_request (uid_value api_myUid) lo hi (ConstDmxData (packet_octets e) n)"
    using branch_frame [OF _ assms(4,5), of "api_discover_buffer api"] assms(2) by (auto simp: api_ok_def)
  let ?S = "branch_source (active w \<inter> {lo..hi})"
  obtain r where r: "line (ConstDmxData (packet_octets e) (int (enc_size e))) w = Some ([r], w)"
      "short_frame (uid_value api_myUid) ?S rdm_DISCOVERY_COMMAND_RESPONSE rdm_DISC_UNIQUE_BRANCH r"
    using branch [OF assms(1) e(3)] by blast
  obtain fu d api' where q: "request_with_future mem line (ConstDmxData (packet_octets e) (int (enc_size e))) w
        (api\<lparr>api_discover_buffer := packet_octets e\<rparr>) = Some (fu, w, api')" "api_ok api'" "RdmFuture_okay fu"
      "Packet_at (fu_buffer fu) = Some (plain_packet 24 (uid_value api_myUid) ?S rdm_DISCOVERY_COMMAND_RESPONSE rdm_DISC_UNIQUE_BRANCH 0 d)"
    using request_answered [where line = line and api = "api\<lparr>api_discover_buffer := packet_octets e\<rparr>", OF r assms(3)] assms(2) e(2)
    by (simp add: api_ok_def) blast
  let ?d = "plain_packet 24 (uid_value api_myUid) ?S rdm_DISCOVERY_COMMAND_RESPONSE rdm_DISC_UNIQUE_BRANCH 0 d"
  have "is_discovery_reply ?d"
    unfolding is_discovery_reply_def by (intro conjI; subst plain_packet_sel; simp add: rdm_value_defs myUid_value)
  moreover have "discover_step mem line (lo, hi) found w api = discover_reply mem line (lo, hi) found ?d w api'"
    using e(1) q by (simp add: discover_step_def)
  ultimately show thesis
    using that q(2) branch_source_bound [OF assms(1), of "{lo..hi}"] by (simp add: plain_packet_sel)
qed

lemma mute_device:
  assumes "inv w" and "api_ok api" and "length mem = 256" and "u \<in> active w"
  obtains w' api' where "RdmApi_mute mem line (Uid_of u) w api = Some (w', api')" "api_ok api'" "inv w'" "active w' = active w - {u}"
proof -
  have u: "u < 2 ^ 48" using uid_bound assms(1,4) by blast
  obtain p where p: "mute_packet (api_mute_buffer api) (Uid_of u) rdm_DISC_MUTE = Some p" "length (packet_octets p) = 258"
      "\<And>n. mute_request (uid_value api_myUid) u (ConstDmxData (packet_octets p) n)"
    using mute_frame [OF _ u, of "api_mute_buffer api"] assms(2) by (auto simp: api_ok_def)
  obtain r w' where r: "line (ConstDmxData (packet_octets p) (int (enc_size p))) w = Some ([r], w')" "inv w'" "active w' = active w - {u}"
      "short_frame (uid_value api_myUid) u rdm_DISCOVERY_COMMAND_RESPONSE rdm_DISC_MUTE r"
    using mute [OF assms(1) p(3) assms(4)] by blast
  have "uid_value (Uid_of u) \<noteq> uid_value Uid_broadcast"
    using u uids [OF assms(1,4)] by (auto simp: uid_value_Uid_of uid48 broadcast_value)
  then have nb: "Uid_of u \<noteq> Uid_broadcast" by metis
  obtain fu d api' where "request_with_future mem line (ConstDmxData (packet_octets p) (int (enc_size p))) w
      (api\<lparr>api_mute_buffer := packet_octets p\<rparr>) = Some (fu, w', api')" "api_ok api'"
    using request_answered [where line = line and api = "api\<lparr>api_mute_buffer := packet_octets p\<rparr>", OF r(1,4) assms(3)] assms(2) p(2)
    by (simp add: api_ok_def) blast
  then show thesis using that r(2,3) p(1) nb by (simp add: RdmApi_mute_def send_mute_def Let_def)
qed

lemma step_empty:
  assumes "inv w" and "api_ok api" and "length mem = 256" and "lo < 2 ^ 48" and "hi < 2 ^ 48" and "active w \<inter> {lo..hi} = {}"
  shows "\<exists>api'. discover_step mem line (lo, hi) found w api = Some ([], found, w, api') \<and> api_ok api'"
proof -
  obtain d api' where q: "discover_step mem line (lo, hi) found w api = discover_reply mem line (lo, hi) found d w api'" "api_ok api'"
      "is_discovery_reply d" "Source d = branch_source (active w \<inter> {lo..hi})"
    using step_reply [OF assms(1-5)] by blast
  have "Source d = 0" using q(4) assms(6) by (simp add: branch_source_def)
  then show ?thesis using q(1-3) by (simp add: discover_reply_def Uid_any_def uid_value_Uid_of broadcast_value)
qed

lemma step_collision:
  assumes "inv w" and "api_ok api" and "length mem = 256" and "lo < 2 ^ 48" and "hi < 2 ^ 48"
    and "active w \<inter> {lo..hi} \<noteq> {}" and "\<not> is_singleton (active w \<inter> {lo..hi})"
  shows "\<exists>api'. discover_step mem line (lo, hi) found w api =
      Some ([(lo, (lo + hi) div 2 - 1), ((lo + hi) div 2, hi)], found, w, api') \<and> api_ok api'"
proof -
  obtain d api' where q: "discover_step mem line (lo, hi) found w api = discover_reply mem line (lo, hi) found d w api'" "api_ok api'"
      "is_discovery_reply d" "Source d = branch_source (active w \<inter> {lo..hi})"
    using step_reply [OF assms(1-5)] by blast
  have "Source d = 0xFFFFFFFFFFFF" using q(4) assms(6,7) by (simp add: branch_source_def)
  then show ?thesis using q(1-3) by (simp add: discover_reply_def broadcast_value)
qed

lemma step_found:
  assumes "inv w" and "api_ok api" and "length mem = 256" and "lo < 2 ^ 48" and "hi < 2 ^ 48" and "active w \<inter> {lo..hi} = {u}"
  shows "\<exists>w' api'. discover_step mem line (lo, hi) found w api =
      Some ([(lo, hi)], if Uid_of u \<in> set found then found else found @ [Uid_of u], w', api') \<and>
      api_ok api' \<and> inv w' \<and> active w' = active w - {u}"
proof -
  obtain d api1 where q: "discover_step mem line (lo, hi) found w api = discover_reply mem line (lo, hi) found d w api1" "api_ok api1"
      "is_discovery_reply d" "Source d = branch_source (active w \<inter> {lo..hi})"
    using step_reply [OF assms(1-5)] by blast
  have u: "u \<in> active w" using assms(6) by blast
  have s: "Source d = u" using q(4) assms(6) by (simp add: branch_source_def)
  have n: "u \<noteq> 0" "u \<noteq> 0xFFFFFFFFFFFF" using uids [OF assms(1) u] by auto
  obtain w' api' where m: "RdmApi_mute mem line (Uid_of u) w api1 = Some (w', api')" "api_ok api'" "inv w'" "active w' = active w - {u}"
    using mute_device [OF assms(1) q(2) assms(3) u] by blast
  have "discover_reply mem line (lo, hi) found d w api1 =
      Some ([(lo, hi)], if Uid_of u \<in> set found then found else found @ [Uid_of u], w', api')"
    using q(3) s n m(1) by (simp add: discover_reply_def Uid_any_def uid_value_Uid_of broadcast_value Let_def)
  then show ?thesis using q(1) m(2-4) by simp
qed

lemma round_empty:
  assumes "search_state inv active (Suc n) ((lo, hi) # rest) found w api" and "length mem = 256" and "active w \<inter> {lo..hi} = {}"
  shows "\<exists>ranges found' w' api'. discover_step mem line (lo, hi) found w api = Some (ranges, found', w', api') \<and>
     search_state inv active n (rest @ ranges) found' w' api' \<and> same_devices ((lo, hi) # rest) found (active w) (rest @ ranges) found' (active w')"
proof -
  obtain api' where "discover_step mem line (lo, hi) found w api = Some ([], found, w, api')" "api_ok api'"
    using step_empty [of w api mem lo hi found] assms by (auto simp: search_state_def)
  moreover have "sum_list (map (search_cost (active w)) rest) \<le> n"
    using assms(1) search_cost_pos [of "active w" "(lo, hi)"] by (simp add: search_state_def)
  ultimately show ?thesis using assms(1,3) by (auto simp: search_state_def same_devices_def)
qed

lemma round_collision:
  assumes "search_state inv active (Suc n) ((lo, hi) # rest) found w api" and "length mem = 256"
    and "active w \<inter> {lo..hi} \<noteq> {}" and "\<not> is_singleton (active w \<inter> {lo..hi})"
  shows "\<exists>ranges found' w' api'. discover_step mem line (lo, hi) found w api = Some (ranges, found', w', api') \<and>
     search_state inv active n (rest @ ranges) found' w' api' \<and> same_devices ((lo, hi) # rest) found (active w) (rest @ ranges) found' (active w')"
proof -
  let ?m = "(lo + hi) div 2"
  have st: "inv w" "api_ok api" "sparse (active w)" "lo < 2 ^ 48" "hi < 2 ^ 48" using assms(1) by (auto simp: search_state_def)
  note fin = finite_active [OF st(1)]
  note wide = sparse_range [OF st(3) fin assms(3,4)]
  note mid = middle [OF st(4,5) wide(1) refl]
  obtain api' where "discover_step mem line (lo, hi) found w api = Some ([(lo, ?m - 1), (?m, hi)], found, w, api')" "api_ok api'"
    using step_collision [OF st(1,2) assms(2) st(4,5) assms(3,4)] by blast
  moreover have "sum_list (map (search_cost (active w)) (rest @ [(lo, ?m - 1), (?m, hi)])) \<le> n"
    using search_cost_split [OF fin st(4,5) wide(1) refl wide(2)] assms(1) by (simp add: search_state_def)
  moreover have "covered (rest @ [(lo, ?m - 1), (?m, hi)]) = covered ((lo, hi) # rest)" using mid(7) by auto
  ultimately show ?thesis using assms(1) mid(5,6) by (auto simp: search_state_def same_devices_def)
qed

lemma round_found:
  assumes "search_state inv active (Suc n) ((lo, hi) # rest) found w api" and "length mem = 256" and u: "active w \<inter> {lo..hi} = {u}"
  shows "\<exists>ranges found' w' api'. discover_step mem line (lo, hi) found w api = Some (ranges, found', w', api') \<and>
     search_state inv active n (rest @ ranges) found' w' api' \<and> same_devices ((lo, hi) # rest) found (active w) (rest @ ranges) found' (active w')"
proof -
  have st: "inv w" "api_ok api" "sparse (active w)" "lo < 2 ^ 48" "hi < 2 ^ 48" using assms(1) by (auto simp: search_state_def)
  note fin = finite_active [OF st(1)]
  have um: "u \<in> active w" "u \<in> {lo..hi}" using u by auto
  have uv: "uid_value (Uid_of u) = u" using uid_bound [OF st(1) um(1)] by (simp add: uid_value_Uid_of uid48)
  then have new: "Uid_of u \<notin> set found" using assms(1) um(1) by (force simp: search_state_def)
  obtain w1 api1 where w1: "discover_step mem line (lo, hi) found w api = Some ([(lo, hi)], found @ [Uid_of u], w1, api1)"
      "api_ok api1" "inv w1" "active w1 = active w - {u}"
    using step_found [OF st(1,2) assms(2) st(4,5) u, of found] new by auto
  have "search_cost (active w1) (lo, hi) = 1" using u um unfolding w1(4) search_cost_def by (simp add: Diff_Int_distrib2 Int_Diff)
  moreover have "2 \<le> search_cost (active w) (lo, hi)" using u by (simp add: search_cost_def)
  moreover have "sum_list (map (search_cost (active w1)) rest) \<le> sum_list (map (search_cost (active w)) rest)"
    unfolding w1(4) by (intro sum_list_mono search_cost_mono [OF fin]) auto
  ultimately have "sum_list (map (search_cost (active w1)) (rest @ [(lo, hi)])) \<le> n" using assms(1) by (simp add: search_state_def)
  moreover have "uid_value ` set (found @ [Uid_of u]) \<inter> active w1 = {}" "distinct (found @ [Uid_of u])" "sparse (active w1)"
    using assms(1) uv new unfolding w1(4) by (auto simp: search_state_def sparse_def)
  ultimately have "search_state inv active n (rest @ [(lo, hi)]) (found @ [Uid_of u]) w1 api1"
    using assms(1) w1(2,3) by (auto simp: search_state_def)
  moreover have "same_devices ((lo, hi) # rest) found (active w) (rest @ [(lo, hi)]) (found @ [Uid_of u]) (active w1)"
    using um uv unfolding w1(4) same_devices_def by auto
  ultimately show ?thesis using w1(1) by blast
qed

text \<open>With enough rounds the search ends with all devices of the ranges found and muted.\<close>

lemma discover_loop_complete:
  assumes "search_state inv active n space found w api" and "length mem = 256"
  shows "\<exists>found' w' api'. discover_loop n mem line space found w api = Some (found', w', api') \<and> inv w' \<and> api_ok api' \<and> distinct found' \<and>
     uid_value ` set found' = uid_value ` set found \<union> (active w \<inter> covered space) \<and> active w' = active w - covered space"
  using assms(1)
proof (induction n arbitrary: space found w api)
  case 0
  then have "space = []" by (cases space) (auto simp: search_state_def search_cost_def)
  then show ?case using "0.prems" by (auto simp: search_state_def)
next
  case (Suc n)
  show ?case
  proof (cases space)
    case Nil
    then show ?thesis using Suc.prems by (auto simp: search_state_def)
  next
    case (Cons a rest)
    obtain lo hi where a: "a = (lo, hi)" by (cases a)
    note st = Suc.prems [unfolded Cons a]
    consider "active w \<inter> {lo..hi} = {}" | u where "active w \<inter> {lo..hi} = {u}" |
      "active w \<inter> {lo..hi} \<noteq> {}" "\<not> is_singleton (active w \<inter> {lo..hi})"
      by (auto simp: is_singleton_def)
    then obtain ranges found1 w1 api1 where r: "discover_step mem line (lo, hi) found w api = Some (ranges, found1, w1, api1)"
        "search_state inv active n (rest @ ranges) found1 w1 api1"
        "same_devices ((lo, hi) # rest) found (active w) (rest @ ranges) found1 (active w1)"
      by cases (use round_empty [OF st assms(2)] round_found [OF st assms(2)] round_collision [OF st assms(2)] in blast)+
    from Suc.IH [OF r(2)] r(1,3) show ?thesis by (simp add: Cons a same_devices_def)
  qed
qed

text \<open>Two devices with adjacent UIDs in a range of just these two are never found, whatever the number of rounds.\<close>

lemma discover_loop_stuck:
  assumes "inv w" and "length mem = 256" and "a + 1 < 2 ^ 48" and "active w \<inter> {a..a + 1} = {a, a + 1}" and "api_ok api"
  shows "(\<exists>api'. discover_loop n mem line [(a, a + 1)] [] w api = Some ([], w, api')) \<and>
     (\<exists>api'. discover_loop n mem line [(a, a - 1), (a, a + 1)] [] w api = Some ([], w, api'))"
  using assms(5)
proof (induction n arbitrary: api)
  case (Suc n)
  have "unat (a + 1) < 2 ^ 48" using assms(3) by (simp add: word_less_nat_alt)
  have "a \<in> active w" using assms(4) by blast
  then have a0: "a \<noteq> 0" "a < 2 ^ 48" using uids [OF assms(1)] uid_bound [OF assms(1)] by auto
  have "unat a < 2 ^ 48" using a0(2) by (simp add: word_less_nat_alt)
  then have u: "unat (a + 1) = unat a + 1" by (subst unat_add_lem [THEN iffD1]) simp_all
  then have "unat (a + (a + 1)) = 2 * unat a + 1" using \<open>unat a < 2 ^ 48\<close> by (subst unat_add_lem [THEN iffD1]) simp_all
  then have "unat ((a + (a + 1)) div 2) = unat a" by (simp add: unat_div)
  then have m: "(a + (a + 1)) div 2 = a" by (simp only: word_unat_eq_iff)
  have "a \<noteq> a + 1" using u by auto
  then have ns: "\<not> is_singleton (active w \<inter> {a..a + 1})" "active w \<inter> {a..a + 1} \<noteq> {}" unfolding assms(4) by (auto simp: is_singleton_def)
  have e: "active w \<inter> {a..a - 1} = {}" using unat_minus_one [OF a0(1)] a0(1) by (auto simp: word_le_nat_alt unat_eq_0)
  have l: "a - 1 < 2 ^ 48" using unat_minus_one [OF a0(1)] \<open>unat a < 2 ^ 48\<close> by (simp add: word_less_nat_alt)
  obtain api1 where "discover_step mem line (a, a + 1) [] w api = Some ([(a, a - 1), (a, a + 1)], [], w, api1)" "api_ok api1"
    using step_collision [OF assms(1) Suc.prems assms(2) a0(2) assms(3) ns(2,1)] m by auto
  moreover obtain api2 where "discover_step mem line (a, a - 1) [] w api = Some ([], [], w, api2)" "api_ok api2"
    using step_empty [OF assms(1) Suc.prems assms(2) a0(2) l e] by blast
  ultimately show ?case using Suc.IH [of api1] Suc.IH [of api2] by simp
qed simp_all

end

section \<open>The bus of the library is such a line\<close>

text \<open>The master is connected to the bus; the world is what the stack holds and the bus.\<close>

definition bus_line :: "(u8 list \<times> DmxBusP) line" where
  "bus_line f w = map_option (\<lambda>(fs, b). (fs, (fst w, b))) (handleMaster (fst w) f (snd w))"

definition bus_line_inv :: "u8 list \<times> DmxBusP \<Rightarrow> bool" where
  "bus_line_inv w \<longleftrightarrow> length (fst w) = 256 \<and> bus_inv (snd w)"

interpretation bus: rdm_line bus_line bus_line_inv "\<lambda>w. bus_active (snd w)"
proof
  fix w :: "u8 list \<times> DmxBusP" and src lo hi :: u64 and f
  assume "bus_line_inv w" "branch_request src lo hi f"
  then obtain r where "handleMaster (fst w) f (snd w) = Some ([r], snd w)"
      "short_frame src (branch_source (bus_active (snd w) \<inter> {lo..hi})) rdm_DISCOVERY_COMMAND_RESPONSE rdm_DISC_UNIQUE_BRANCH r"
    using bus_branch [of "snd w" src lo hi f "fst w"] by (auto simp: bus_line_inv_def)
  then show "\<exists>r. bus_line f w = Some ([r], w) \<and> short_frame src (branch_source (bus_active (snd w) \<inter> {lo..hi}))
      rdm_DISCOVERY_COMMAND_RESPONSE rdm_DISC_UNIQUE_BRANCH r"
    by (simp add: bus_line_def)
next
  fix w :: "u8 list \<times> DmxBusP" and src u :: u64 and f
  assume w: "bus_line_inv w" "mute_request src u f" "u \<in> bus_active (snd w)"
  then obtain r b where b: "handleMaster (fst w) f (snd w) = Some ([r], b)" "bus_inv b" "bus_active b = bus_active (snd w) - {u}"
      "short_frame src u rdm_DISCOVERY_COMMAND_RESPONSE rdm_DISC_MUTE r"
    using bus_mute [of "snd w" src u f "fst w"] by (auto simp: bus_line_inv_def)
  then show "\<exists>r w'. bus_line f w = Some ([r], w') \<and> bus_line_inv w' \<and> bus_active (snd w') = bus_active (snd w) - {u} \<and>
      short_frame src u rdm_DISCOVERY_COMMAND_RESPONSE rdm_DISC_MUTE r"
    using w(1) by (intro exI [of _ r] exI [of _ "(fst w, b)"]) (simp add: bus_line_def bus_line_inv_def)
next
  fix w :: "u8 list \<times> DmxBusP" and u
  assume "bus_line_inv w" "u \<in> bus_active (snd w)"
  then show "0 < u \<and> u < 0xFFFFFFFFFFFF" by (auto simp: bus_line_inv_def bus_inv_def bus_active_def)
next
  fix w :: "u8 list \<times> DmxBusP"
  show "finite (bus_active (snd w))" by (simp add: bus_active_def)
qed

lemma uid_value_less: "uid_value u < 2 ^ 48"
proof -
  have "uid_value u = take_bit 48 (uid_value u)" using uid_value_Uid_of [of "uid_value u"] by simp
  then have "unat (uid_value u) < 2 ^ 48" using take_bit_nat_less_exp [of 48 "unat (uid_value u)"] by (metis unsigned_take_bit_eq)
  then show ?thesis by (simp add: word_less_nat_alt)
qed

text \<open>C6. The discovery over the bus finds the devices: when no two devices have adjacent UIDs and the number of searches is at least 49 for each
  device in the range and one more, it returns, without an invalid access, the UIDs of exactly those devices in the range that
  were not muted, each once, and has muted them and no others.\<close>

theorem rdm_discovery_complete:
  assumes "bus_inv b" and "length stack = 256" and "length mem = 256" and "api_ok api" and "sparse (bus_active b)"
    and "A = bus_active b \<inter> {uid_value from..uid_value to}" and "1 + 49 * card A \<le> unat maxSearchCount"
  shows "\<exists>found w' api'. discoverDevices mem bus_line from to maxSearchCount (stack, b) api = Some (found, w', api') \<and>
     distinct found \<and> uid_value ` set found = A \<and> bus_active (snd w') = bus_active b - A \<and> bus_inv (snd w') \<and> api_ok api'"
proof -
  have "search_state bus_line_inv (\<lambda>w. bus_active (snd w)) (unat maxSearchCount) [(uid_value from, uid_value to)] [] (stack, b) api"
    using assms search_cost_bound [OF uid_value_less [of to], of "bus_active b" "uid_value from"]
    by (simp add: search_state_def bus_line_inv_def uid_value_less [simplified])
  from bus.discover_loop_complete [OF this assms(3)] show ?thesis
    using assms(6) by (auto simp: discoverDevices_def bus_line_inv_def)
qed

text \<open>The devices of the responder program.\<close>

definition demo_rdm_bus :: DmxBusP where
  "demo_rdm_bus = registerMasterReceiver (registerSlaveReceiver (RdmDevice_new ''3'' 0x123400100000)
     (registerSlaveReceiver (RdmDevice_new ''2'' 0x123400040000) (registerSlaveReceiver (RdmDevice_new ''1'' 0x123400000815) DmxBus_new)))"

lemma bus_active_list: "bus_active b = set (map dv_myUid (filter (\<lambda>d. \<not> dv_muted d) (bus_slaves b)))"
  by (auto simp: bus_active_def)

lemma demo_rdm_bus: "bus_inv demo_rdm_bus" "bus_active demo_rdm_bus = {0x123400000815, 0x123400040000, 0x123400100000}"
  "bus_slaves demo_rdm_bus = [RdmDevice_new ''1'' 0x123400000815, RdmDevice_new ''2'' 0x123400040000, RdmDevice_new ''3'' 0x123400100000]"
  by (auto simp: demo_rdm_bus_def registerMasterReceiver_def registerSlaveReceiver_def DmxBus_new_def RdmDevice_new_def bus_inv_def bus_active_list)

lemma api_ok_new: "api_ok RdmApi_new"
  by (simp add: api_ok_def RdmApi_new_def)

theorem rdm_discovery_complete_witness:
  "\<exists>found w' api'. discoverDevices (replicate 256 0) bus_line (Uid_of 1) (Uid_of 0xFFFFFFFFFFFE) 0xffffffff (replicate 256 0, demo_rdm_bus) RdmApi_new =
       Some (found, w', api') \<and> uid_value ` set found = {0x123400000815, 0x123400040000, 0x123400100000} \<and> bus_active (snd w') = {}"
proof -
  have A: "bus_active demo_rdm_bus \<inter> {uid_value (Uid_of 1)..uid_value (Uid_of 0xFFFFFFFFFFFE)} = {0x123400000815, 0x123400040000, 0x123400100000}"
    by (auto simp: demo_rdm_bus(2) uid_value_Uid_of)
  have "sparse (bus_active demo_rdm_bus)" by (auto simp: demo_rdm_bus(2) sparse_def)
  from rdm_discovery_complete [OF demo_rdm_bus(1) _ _ api_ok_new this A [symmetric], where stack = "replicate 256 0" and mem = "replicate 256 0" and maxSearchCount = "0xffffffff"]
  show ?thesis by (auto simp: demo_rdm_bus(2))
qed

text \<open>C9. Two devices with adjacent UIDs in the range of just these two are not found, whatever the number of searches: the upper half of
  the range is the range again.\<close>

theorem rdm_discovery_stuck:
  assumes "bus_inv b" and "length stack = 256" and "length mem = 256" and "api_ok api" and "{a, a + 1} \<subseteq> bus_active b"
  shows "\<exists>api'. discoverDevices mem bus_line (Uid_of a) (Uid_of (a + 1)) maxSearchCount (stack, b) api = Some ([], (stack, b), api')"
proof -
  have l: "a < 2 ^ 48" "a + 1 < 2 ^ 48"
    using bus.uid_bound [of "(stack, b)"] assms(1,2,5) by (auto simp: bus_line_inv_def)
  have "unat a < 2 ^ 48" using l(1) by (simp add: word_less_nat_alt)
  then have "unat (a + 1) = unat a + 1" by (subst unat_add_lem [THEN iffD1]) simp_all
  then have "{a..a + 1} = {a, a + 1}" by (auto simp: word_le_nat_alt word_unat_eq_iff)
  then have "bus_active b \<inter> {a..a + 1} = {a, a + 1}" using assms(5) by auto
  then show ?thesis
    using bus.discover_loop_stuck [of "(stack, b)" mem a api "unat maxSearchCount"] assms(1-4) l
    by (simp add: discoverDevices_def uid_value_Uid_of uid48 bus_line_inv_def)
qed

theorem rdm_discovery_stuck_witness:
  "\<exists>api'. discoverDevices (replicate 256 0) bus_line (Uid_of 0x100) (Uid_of 0x101) 0xffffffff
     (replicate 256 0, registerMasterReceiver (registerSlaveReceiver (RdmDevice_new ''2'' 0x101) (registerSlaveReceiver (RdmDevice_new ''1'' 0x100) DmxBus_new)))
     RdmApi_new = Some ([], (replicate 256 0,
       registerMasterReceiver (registerSlaveReceiver (RdmDevice_new ''2'' 0x101) (registerSlaveReceiver (RdmDevice_new ''1'' 0x100) DmxBus_new))), api')"
proof -
  let ?b = "registerMasterReceiver (registerSlaveReceiver (RdmDevice_new ''2'' 0x101) (registerSlaveReceiver (RdmDevice_new ''1'' 0x100) DmxBus_new))"
  have "bus_inv ?b" "{0x100, 0x100 + 1} \<subseteq> bus_active ?b"
    by (auto simp: registerMasterReceiver_def registerSlaveReceiver_def DmxBus_new_def RdmDevice_new_def bus_inv_def bus_active_list)
  from rdm_discovery_stuck [OF this(1) _ _ api_ok_new this(2), where stack = "replicate 256 0" and mem = "replicate 256 0" and maxSearchCount = "0xffffffff"] show ?thesis by simp
qed

text \<open>C10. A request that is not answered in time leaves the address of its future behind: the answer to the next request is written to the
  future that is gone.\<close>

theorem rdm_timeout_dangles:
  assumes "api_futures api = []" and "line f w = Some ([], w1)" and "line g w1 = Some ([r], w2)"
  shows "\<exists>fu api1. request_with_future mem line f w api = Some (fu, w1, api1) \<and> fu_state fu = Timeout \<and> request_with_future mem line g w1 api1 = None"
  using assms
  by (simp add: request_with_future_def addFuture_def api_handleTx_def RdmFuture_wait_def RdmFuture_new_def RdmApi_handle_def Let_def)

text \<open>A line on which the first frame is lost and the others come back.\<close>

definition lossy_line :: "nat line" where
  "lossy_line f n = Some (if n = 0 then [] else [f], n + 1)"

theorem rdm_timeout_dangles_witness:
  "\<exists>fu api1. request_with_future (replicate 256 0) lossy_line (ConstDmxData (replicate 26 0) 26) 0 RdmApi_new = Some (fu, 1, api1) \<and>
     fu_state fu = Timeout \<and> request_with_future (replicate 256 0) lossy_line (ConstDmxData (replicate 26 0) 26) 1 api1 = None"
proof -
  have "api_futures RdmApi_new = []" by (simp add: RdmApi_new_def)
  then show ?thesis by (rule rdm_timeout_dangles) (simp_all add: lossy_line_def)
qed

end
