(* ===== verification/Rdm_Parameters.thy ===== *)
theory Rdm_Parameters
  imports Rdm_Discovery
begin

text \<open>
  Get and set commands of the RDM library over its bus: what a device answers, that a parameter that was set is what a later get returns,
  and what a device makes of the factory UID command.
\<close>

section \<open>Answers of a device\<close>

lemma add_plain:
  assumes "unat pdl = length ys" and "length xs \<le> length d"
  shows "add_pd_octets xs (plain_packet len dst src cc pid pdl (ys @ d)) =
     Some (plain_packet len dst src cc pid (pdl + of_nat (length xs)) (ys @ xs @ drop (length xs) d))"
  using assms by (subst add_pd_octets_Some) (simp_all add: plain_packet_sel blit_def)

lemma finalize_data:
  assumes "length xs \<le> 229" and "2 \<le> length d"
  shows "\<exists>p. finalize (plain_packet len dst src cc pid (of_nat (length xs)) (xs @ d)) = Some p \<and>
     data_frame dst src cc pid xs (ConstDmxData (packet_octets p) (int (enc_size p)))"
proof -
  let ?n = "of_nat (length xs) :: u8" and ?p = "plain_packet len dst src cc pid (of_nat (length xs)) (xs @ d)"
  have "unat ?n = length xs" using assms(1) by (simp add: unat_of_nat take_bit_nat_eq_self)
  then obtain x y where f: "finalize ?p = Some (plain_packet (24 + ?n) dst src cc pid ?n (xs @ x # y # drop 2 d))" "unat (24 + ?n) = 24 + length xs"
    using finalize_Some [of ?p, OF _ _ refl] assms by (simp add: plain_packet_sel blit_def numeral_2_eq_2)
  then show ?thesis
    using assms(1) by (auto simp: data_frame_def ConstDmxData_def enc_size_plain intro!: exI [of _ "x # y # drop 2 d"])
qed

text \<open>The parameter data of the answer to a get command.\<close>

definition parameter_octets :: "int \<Rightarrow> RdmDeviceP \<Rightarrow> u8 list" where
  "parameter_octets pid d = (
     if pid = rdm_DEVICE_INFO then
       net_octets 2 0x100 @ net_octets 2 (ucast (dv_deviceModelId d)) @ net_octets 2 (ucast (dv_productCategory d)) @
       net_octets 4 (ucast (dv_softwareVersion d)) @ net_octets 2 (ucast (dv_dmx512Footprint d)) @
       net_octets 2 (ucast (dv_dmx512Personality d)) @ net_octets 2 (ucast (dv_dmxAddress d)) @ net_octets 2 0 @ [0]
     else if pid = rdm_SOFTWARE_VERSION_LABEL then map of_char ''V1.0.0''
     else if pid = rdm_DMX_START_ADDRESS then net_octets 2 (ucast (dv_dmxAddress d))
     else [dv_identifyOn d])"

definition known_pids :: "int set" where
  "known_pids = {rdm_DEVICE_INFO, rdm_SOFTWARE_VERSION_LABEL, rdm_DMX_START_ADDRESS, rdm_IDENTIFY_DEVICE}"

lemma command_answer_plain:
  assumes "length mem = 256"
  shows "command_answer mem rdm d =
     Some (plain_packet 0 (Source rdm) (dv_myUid d) rdm_GET_COMMAND_RESPONSE rdm_DEVICE_INFO 0 ([] @ drop 24 mem))"
  using assms by (simp add: command_answer_def reply_packet_plain)

lemma device_info_octets:
  assumes "length mem = 256"
  shows "add_device_info d (plain_packet 0 dst src cc pid 0 ([] @ drop 24 mem)) =
     Some (plain_packet 0 dst src cc pid 19 (parameter_octets rdm_DEVICE_INFO d @ drop 43 mem))"
  using assms unfolding add_device_info_def addPd_u8_def addPd_net
  by (simp add: add_pd_octets_Some plain_packet_sel blit_def parameter_octets_def rdm_value_defs)

lemma get_parameter_octets:
  assumes "length mem = 256" and "pid \<in> known_pids"
  shows "get_parameter pid d (plain_packet 0 dst src cc p 0 ([] @ drop 24 mem)) = Some (plain_packet 0 dst src cc p
     (of_nat (length (parameter_octets pid d))) (parameter_octets pid d @ drop (24 + length (parameter_octets pid d)) mem))"
proof (cases "pid = rdm_DEVICE_INFO")
  case True
  then show ?thesis using device_info_octets [OF assms(1)] by (simp add: get_parameter_def parameter_octets_def rdm_value_defs)
next
  case False
  then show ?thesis
    using assms add_plain [of 0 "[]" _ "drop 24 mem"]
    by (auto simp: get_parameter_def known_pids_def addPd_string_def addPd_u8_def addPd_net parameter_octets_def rdm_value_defs)
qed

text \<open>A request with parameter data \<open>xs\<close> for one device.\<close>

definition unicast :: "int \<Rightarrow> int \<Rightarrow> u64 \<Rightarrow> u64 \<Rightarrow> u8 list \<Rightarrow> IDmxData \<Rightarrow> bool" where
  "unicast cc pid src u xs f \<longleftrightarrow> u \<noteq> 0xFFFFFFFFFFFF \<and> (\<exists>q. Packet_at (dd_data f) = Some q \<and> isRdm q \<and> CommandClass q = cc \<and> Pid q = pid \<and>
     Source q = src \<and> Destination q = u \<and> unat (h_PDL q) = length xs \<and> (\<exists>d. pkt_data q = xs @ d))"

lemma device_get:
  assumes "unicast rdm_GET_COMMAND pid src (dv_myUid d) [] f" and "length mem = 256" and "pid \<in> known_pids"
  shows "\<exists>r. RdmDevice_handle mem f d = Some (d, [r]) \<and>
     data_frame src (dv_myUid d) rdm_GET_COMMAND_RESPONSE rdm_DEVICE_INFO (parameter_octets pid d) r"
proof -
  let ?xs = "parameter_octets pid d"
  obtain q where q: "Packet_at (dd_data f) = Some q" "isRdm q" "CommandClass q = rdm_GET_COMMAND" "Pid q = pid" "Source q = src" "Destination q = dv_myUid d"
    using assms(1) by (auto simp: unicast_def)
  have l: "length ?xs \<le> 19" by (simp add: parameter_octets_def)
  then have l2: "2 \<le> length (drop (24 + length ?xs) mem)" unfolding length_drop assms(2) by linarith
  obtain p where p: "finalize (plain_packet 0 src (dv_myUid d) rdm_GET_COMMAND_RESPONSE rdm_DEVICE_INFO (of_nat (length ?xs)) (?xs @ drop (24 + length ?xs) mem)) = Some p"
      "data_frame src (dv_myUid d) rdm_GET_COMMAND_RESPONSE rdm_DEVICE_INFO ?xs (ConstDmxData (packet_octets p) (int (enc_size p)))"
    using finalize_data [OF _ l2, of ?xs 0 src "dv_myUid d" rdm_GET_COMMAND_RESPONSE rdm_DEVICE_INFO] l by auto
  have "isRequest q" "ItIsForMe (dv_myUid d) q" "CommandClass q \<noteq> rdm_DISCOVERY_COMMAND"
    using q by (simp_all add: isRequest_def ItIsForMe_def rdm_value_defs)
  then have "RdmDevice_handle mem f d = Some (d, [ConstDmxData (packet_octets p) (int (enc_size p))])"
    using q p(1) get_parameter_octets [OF assms(2,3), of d src "dv_myUid d"]
    by (simp add: RdmDevice_handle_def handle_get_def command_answer_plain [OF assms(2)] sendReply_def)
  then show ?thesis using p(2) by blast
qed

text \<open>What a set command makes of a device; a parameter of another length leaves it as it was.\<close>

definition parameter_set :: "int \<Rightarrow> u8 list \<Rightarrow> RdmDeviceP \<Rightarrow> RdmDeviceP" where
  "parameter_set pid xs d = (
     if pid = rdm_DMX_START_ADDRESS \<and> 2 \<le> length xs then d\<lparr>dv_dmxAddress := ucast (net_value (take 2 xs) 0)\<rparr>
     else if pid = rdm_IDENTIFY_DEVICE \<and> 1 \<le> length xs then d\<lparr>dv_identifyOn := ucast (net_value (take 1 xs) 0)\<rparr>
     else if pid = 0xFEED \<and> 6 \<le> length xs then d\<lparr>dv_myUid := net_value (take 6 xs) 0\<rparr>
     else d)"

lemma PdAt_parameters:
  assumes "unat (h_PDL q) = length xs" and "pkt_data q = xs @ d" and "sz \<le> n"
  shows "PdAt n 0 sz q = Some (if sz \<le> length xs then Some (net_value (take sz xs) 0) else None)"
proof (cases "sz \<le> length xs")
  case True
  then show ?thesis using PdAt_value [of 0 sz q n] assms by simp
next
  case False
  then have "int (0 + sz) > Pdl q" unfolding Pdl_unat assms(1) by simp
  then show ?thesis using False by (simp add: PdAt_def)
qed

lemma device_set:
  assumes "unicast rdm_SET_COMMAND pid src (dv_myUid d) xs f" and "length mem = 256" and "pid \<in> {rdm_DMX_START_ADDRESS, rdm_IDENTIFY_DEVICE, 0xFEED}"
  shows "\<exists>r. RdmDevice_handle mem f d = Some (parameter_set pid xs d, [r]) \<and>
     short_frame src (dv_myUid d) rdm_GET_COMMAND_RESPONSE rdm_DEVICE_INFO r"
proof -
  obtain q e where q: "Packet_at (dd_data f) = Some q" "isRdm q" "CommandClass q = rdm_SET_COMMAND" "Pid q = pid" "Source q = src"
      "Destination q = dv_myUid d" "unat (h_PDL q) = length xs" "pkt_data q = xs @ e"
    using assms(1) by (auto simp: unicast_def)
  let ?P = "plain_packet 0 src (dv_myUid d) rdm_GET_COMMAND_RESPONSE rdm_DEVICE_INFO"
  obtain p where p: "finalize (?P 0 ([] @ drop 24 mem)) = Some p"
      "short_frame src (dv_myUid d) rdm_GET_COMMAND_RESPONSE rdm_DEVICE_INFO (ConstDmxData (packet_octets p) (int (enc_size p)))"
    using finalize_data [of "[]" "drop 24 mem" 0 src "dv_myUid d" rdm_GET_COMMAND_RESPONSE rdm_DEVICE_INFO] assms(2) by auto
  have "set_parameter q d = Some (parameter_set pid xs d)"
    using assms(3) q(4) PdAt_parameters [OF q(7,8), of 2 2] PdAt_parameters [OF q(7,8), of 1 1] PdAt_parameters [OF q(7,8), of 6 8]
    by (auto simp: set_parameter_def parameter_set_def rdm_value_defs)
  moreover have "isRequest q" "ItIsForMe (dv_myUid d) q" "CommandClass q \<noteq> rdm_DISCOVERY_COMMAND" "CommandClass q \<noteq> rdm_GET_COMMAND"
    using q by (simp_all add: isRequest_def ItIsForMe_def rdm_value_defs)
  ultimately show ?thesis
    using q(1-5) p assms(3) by (simp add: RdmDevice_handle_def handle_set_def command_answer_plain [OF assms(2)] sendReply_def Let_def)
qed

section \<open>Requests to one device of the bus\<close>

lemma device_other:
  assumes "unicast cc pid src u xs f" and "dv_myUid d \<noteq> u"
  shows "RdmDevice_handle mem f d = Some (d, [])"
  using assms by (auto simp: unicast_def RdmDevice_handle_def ItIsForMe_def)

lemma slaves_unicast:
  assumes "unicast cc pid src u xs f" and "RdmDevice_handle mem f d = Some (d', [r])" and "arr_slice (dd_data r) 0 (nat (dd_size r)) = Some v"
    and "bus_requestActive b" and "\<forall>x \<in> set ds. dv_myUid x = u \<longrightarrow> x = d"
  shows "slaves_handle mem f ds b = Some (map (\<lambda>x. if dv_myUid x = u then d' else x) ds,
     b\<lparr>bus_rxqueue := bus_rxqueue b @ replicate (length (filter (\<lambda>x. dv_myUid x = u) ds)) v\<rparr>)"
  using assms(4,5)
proof (induction ds arbitrary: b)
  case (Cons x ds)
  show ?case
  proof (cases "dv_myUid x = u")
    case True
    then show ?thesis using Cons.IH [of "b\<lparr>bus_rxqueue := bus_rxqueue b @ [v]\<rparr>"] Cons.prems assms(2,3) by (simp add: handleSlave_def)
  next
    case False
    then show ?thesis using Cons.IH [of b] Cons.prems device_other [OF assms(1) False, of mem] by simp
  qed
qed simp

lemma bus_unicast:
  assumes "bus_inv b" and "length mem = 256" and "unicast cc pid src (dv_myUid d) xs f" and "d \<in> set (bus_slaves b)"
    and "RdmDevice_handle mem f d = Some (d', [r])" and "data_frame dst s c p ys r"
  obtains r' where "handleMaster mem f b = Some ([r'], b\<lparr>bus_slaves := map (\<lambda>x. if dv_myUid x = dv_myUid d then d' else x) (bus_slaves b)\<rparr>)"
    "data_frame dst s c p ys r'"
proof -
  obtain v where v: "arr_slice (dd_data r) 0 (nat (dd_size r)) = Some v" "data_frame dst s c p ys (ConstDmxData v (int (length v)))"
    using data_frame_copy [OF assms(6)] by blast
  have u: "\<forall>x \<in> set (bus_slaves b). dv_myUid x = dv_myUid d \<longrightarrow> x = d" "filter (\<lambda>x. dv_myUid x = dv_myUid d) (bus_slaves b) = [d]"
    using assms(1,4) filter_unique [of dv_myUid "bus_slaves b" d] by (auto simp: bus_inv_def distinct_map dest: inj_onD)
  have "bus_requestActive (b\<lparr>bus_requestActive := True\<rparr>)" by simp
  note s = slaves_unicast [OF assms(3,5) v(1) this u(1)]
  have "handleMaster mem f b = Some ([ConstDmxData v (int (length v))],
      b\<lparr>bus_slaves := map (\<lambda>x. if dv_myUid x = dv_myUid d then d' else x) (bus_slaves b)\<rparr>)"
    using s assms(1) u(2) by (simp add: handleMaster_def to_master_def bus_inv_def)
  then show thesis using that v(2) by blast
qed

section \<open>Set and get over the bus\<close>

lemma set_frame:
  assumes "length mem = 256" and "length xs \<le> 229" and "u < 2 ^ 48" and "u \<noteq> 0xFFFFFFFFFFFF" and "0 \<le> pid" and "pid < 65536"
  obtains e where "set_packet mem (Uid_of u) pid (add_pd_octets xs) = Some e"
    "\<And>n. unicast rdm_SET_COMMAND pid (uid_value api_myUid) u xs (ConstDmxData (packet_octets e) n)"
proof -
  obtain q where q: "Packet_at mem = Some q" using assms(1) by (auto simp: Packet_at_def)
  then have lq: "length (pkt_data q) = 232" using assms(1) by (auto simp: Packet_at_def)
  let ?q = "enc_Pid pid (enc_CommandClass rdm_SET_COMMAND (enc_Destination (uid_value (Uid_of u))
      (q\<lparr>h_startCode := word_of_int rdm_SC_RDM, h_subStartCode := word_of_int rdm_SC_SUB_MESSAGE, h_PDL := 0\<rparr>)))"
  let ?r = "?q\<lparr>pkt_data := xs @ drop (length xs) (pkt_data q), h_PDL := of_nat (length xs)\<rparr>"
  have n: "unat (of_nat (length xs) :: u8) = length xs" using assms(2) by (simp add: unat_of_nat take_bit_nat_eq_self)
  have r: "add_pd_octets xs ?q = Some ?r" using assms(2) lq by (subst add_pd_octets_Some) (simp_all add: enc_defs blit_def)
  let ?s = "enc_SubDevice 0 (enc_MessageCount 0 (enc_PortId 0 (enc_TransactionNumber 0 (enc_Source (uid_value api_myUid) ?r))))"
  have z: "h_PDL ?s = of_nat (length xs)" "pkt_data ?s = xs @ drop (length xs) (pkt_data q)" by (simp_all add: enc_defs)
  obtain x y where e: "finalize ?s = Some (?s\<lparr>h_msgLength := 24 + of_nat (length xs),
      pkt_data := blit (xs @ drop (length xs) (pkt_data q)) (length xs) [x, y]\<rparr>)"
    using finalize_Some(1) [of ?s, OF _ _ refl] assms(2) lq unfolding z n by simp
  let ?e = "?s\<lparr>h_msgLength := 24 + of_nat (length xs), pkt_data := blit (xs @ drop (length xs) (pkt_data q)) (length xs) [x, y]\<rparr>"
  have f: "isRdm ?e" "CommandClass ?e = rdm_SET_COMMAND" "Pid ?e = pid" "Source ?e = uid_value api_myUid" "Destination ?e = u"
      "unat (h_PDL ?e) = length xs" "\<exists>d. pkt_data ?e = xs @ d"
    using assms(3,5,6) n
    by (simp_all add: enc_defs isRdm_def StartCode_def SubStartCode_def CommandClass_def Pid_def Source_def Destination_def
        rdm_value_defs uid_value_Uid_of uid48 uint_word_of_int take_bit_int_eq_self blit_def)
  have "unicast rdm_SET_COMMAND pid (uid_value api_myUid) u xs (ConstDmxData (packet_octets ?e) n)" for n
    using f assms(4) unfolding unicast_def ConstDmxData_def by (intro conjI exI [of _ ?e]) simp_all
  moreover have "set_packet mem (Uid_of u) pid (add_pd_octets xs) = Some ?e"
    using q r e by (simp add: set_packet_def PacketEncoder_def)
  ultimately show thesis using that by blast
qed

lemma get_frame:
  assumes "length b = 258" and "u < 2 ^ 48" and "u \<noteq> 0xFFFFFFFFFFFF" and "0 \<le> pid" and "pid < 65536"
  obtains e where "get_packet b (Uid_of u) pid = Some e"
    "\<And>n. unicast rdm_GET_COMMAND pid (uid_value api_myUid) u [] (ConstDmxData (packet_octets e) n)"
proof -
  obtain q where q: "Packet_at b = Some q" using assms(1) by (auto simp: Packet_at_def)
  then have lq: "length (pkt_data q) = 234" using assms(1) by (auto simp: Packet_at_def)
  let ?s = "enc_SubDevice 0 (enc_MessageCount 0 (enc_PortId 0 (enc_TransactionNumber 0 (enc_Pid pid (enc_CommandClass rdm_GET_COMMAND
      (enc_Destination (uid_value (Uid_of u)) (enc_Source (uid_value api_myUid)
      (q\<lparr>h_startCode := word_of_int rdm_SC_RDM, h_subStartCode := word_of_int rdm_SC_SUB_MESSAGE, h_PDL := 0\<rparr>))))))))"
  have z: "h_PDL ?s = 0" "pkt_data ?s = pkt_data q" by (simp_all add: enc_defs)
  obtain d where e: "finalize ?s = Some (?s\<lparr>h_msgLength := 24, pkt_data := d\<rparr>)"
    using finalize_Some(1) [of ?s, OF _ _ refl] lq unfolding z by simp
  let ?e = "?s\<lparr>h_msgLength := 24, pkt_data := d\<rparr>"
  have f: "isRdm ?e" "CommandClass ?e = rdm_GET_COMMAND" "Pid ?e = pid" "Source ?e = uid_value api_myUid" "Destination ?e = u" "unat (h_PDL ?e) = 0"
    using assms(2,4,5)
    by (simp_all add: enc_defs isRdm_def StartCode_def SubStartCode_def CommandClass_def Pid_def Source_def Destination_def
        rdm_value_defs uid_value_Uid_of uid48 uint_word_of_int take_bit_int_eq_self)
  have "unicast rdm_GET_COMMAND pid (uid_value api_myUid) u [] (ConstDmxData (packet_octets ?e) n)" for n
    using f assms(3) unfolding unicast_def ConstDmxData_def by (intro conjI exI [of _ ?e]) simp_all
  moreover have "get_packet b (Uid_of u) pid = Some ?e" using q e by (simp add: get_packet_def PacketEncoder_def)
  ultimately show thesis using that by blast
qed

text \<open>A set command changes exactly its device; the answer finds no future and is dropped.\<close>

lemma api_set:
  assumes "bus_inv b" and "length stack = 256" and "length mem = 256" and "api_futures api = []" and "d \<in> set (bus_slaves b)"
    and "pid \<in> {rdm_DMX_START_ADDRESS, rdm_IDENTIFY_DEVICE, 0xFEED}" and "length xs \<le> 229"
  shows "RdmApi_set mem bus_line (Uid_of (dv_myUid d)) pid (add_pd_octets xs) (stack, b) api =
     Some ((stack, b\<lparr>bus_slaves := map (\<lambda>x. if dv_myUid x = dv_myUid d then parameter_set pid xs d else x) (bus_slaves b)\<rparr>), api)"
proof -
  have b: "dv_myUid d < 0xFFFFFFFFFFFF" using assms(1,5) by (simp add: bus_inv_def)
  then have u: "dv_myUid d < 2 ^ 48" "dv_myUid d \<noteq> 0xFFFFFFFFFFFF" by (auto intro: less_trans)
  have p: "0 \<le> pid" "pid < 65536" using assms(6) by (auto simp: rdm_value_defs)
  obtain e where e: "set_packet mem (Uid_of (dv_myUid d)) pid (add_pd_octets xs) = Some e"
      "\<And>n. unicast rdm_SET_COMMAND pid (uid_value api_myUid) (dv_myUid d) xs (ConstDmxData (packet_octets e) n)"
    using set_frame [OF assms(3,7) u p] by blast
  obtain r where r: "RdmDevice_handle stack (ConstDmxData (packet_octets e) (int (enc_size e))) d = Some (parameter_set pid xs d, [r])"
      "short_frame (uid_value api_myUid) (dv_myUid d) rdm_GET_COMMAND_RESPONSE rdm_DEVICE_INFO r"
    using device_set [OF e(2) assms(2,6)] by blast
  obtain r' where "handleMaster stack (ConstDmxData (packet_octets e) (int (enc_size e))) b =
      Some ([r'], b\<lparr>bus_slaves := map (\<lambda>x. if dv_myUid x = dv_myUid d then parameter_set pid xs d else x) (bus_slaves b)\<rparr>)"
    using bus_unicast [OF assms(1,2) e(2) assms(5) r] by blast
  then show ?thesis using e(1) assms(4) by (simp add: RdmApi_set_def api_handleTx_def bus_line_def RdmApi_handle_def)
qed

text \<open>A get command returns a future with the parameter data of the device.\<close>

lemma api_get:
  assumes "bus_inv b" and "length stack = 256" and "length mem = 256" and "api_futures api = []" and "length (api_get_buffer api) = 258"
    and "d \<in> set (bus_slaves b)" and "pid \<in> known_pids" and "off + n \<le> length (parameter_octets pid d)"
  shows "\<exists>a api' fu. RdmApi_get mem bus_line (Uid_of (dv_myUid d)) pid (stack, b) api = Some (a, (stack, b), api') \<and>
     api_store api' a = Some fu \<and> RdmFuture_at n off fu = Some (net_value (take n (drop off (parameter_octets pid d))) 0)"
proof -
  let ?xs = "parameter_octets pid d"
  have b: "dv_myUid d < 0xFFFFFFFFFFFF" using assms(1,6) by (simp add: bus_inv_def)
  then have u: "dv_myUid d < 2 ^ 48" "dv_myUid d \<noteq> 0xFFFFFFFFFFFF" by (auto intro: less_trans)
  have p: "0 \<le> pid" "pid < 65536" using assms(7) by (auto simp: known_pids_def rdm_value_defs)
  obtain e where e: "get_packet (api_get_buffer api) (Uid_of (dv_myUid d)) pid = Some e"
      "\<And>n. unicast rdm_GET_COMMAND pid (uid_value api_myUid) (dv_myUid d) [] (ConstDmxData (packet_octets e) n)"
    using get_frame [OF assms(5) u p] by blast
  obtain r where r: "RdmDevice_handle stack (ConstDmxData (packet_octets e) (int (enc_size e))) d = Some (d, [r])"
      "data_frame (uid_value api_myUid) (dv_myUid d) rdm_GET_COMMAND_RESPONSE rdm_DEVICE_INFO ?xs r"
    using device_get [OF e(2) assms(2,7)] by blast
  obtain r' where r': "handleMaster stack (ConstDmxData (packet_octets e) (int (enc_size e))) b =
      Some ([r'], b\<lparr>bus_slaves := map (\<lambda>x. if dv_myUid x = dv_myUid d then d else x) (bus_slaves b)\<rparr>)"
      "data_frame (uid_value api_myUid) (dv_myUid d) rdm_GET_COMMAND_RESPONSE rdm_DEVICE_INFO ?xs r'"
    using bus_unicast [OF assms(1,2) e(2) assms(6) r] by blast
  have "map (\<lambda>x. if dv_myUid x = dv_myUid d then d else x) (bus_slaves b) = bus_slaves b"
    using assms(1,6) by (intro map_idI) (auto simp: bus_inv_def distinct_map dest: inj_onD)
  then have s: "b\<lparr>bus_slaves := map (\<lambda>x. if dv_myUid x = dv_myUid d then d else x) (bus_slaves b)\<rparr> = b" by simp
  let ?P = "\<lambda>e. plain_packet (24 + of_nat (length ?xs)) (uid_value api_myUid) (dv_myUid d) rdm_GET_COMMAND_RESPONSE rdm_DEVICE_INFO (of_nat (length ?xs)) (?xs @ e)"
  obtain g where g: "RdmFuture_set r' (RdmFuture_new mem) = Some \<lparr>fu_buffer = packet_octets (?P g), fu_state = Ready\<rparr>"
    using future_takes [OF r'(2) assms(3)] by blast
  let ?fu = "\<lparr>fu_buffer = packet_octets (?P g), fu_state = Ready\<rparr>"
  have "length ?xs \<le> 19" by (simp add: parameter_octets_def)
  then have "unat (h_PDL (?P g)) = length ?xs" by (simp add: plain_packet_sel unat_of_nat take_bit_nat_eq_self)
  then have "PdAt n off n (?P g) = Some (Some (net_value (take n (drop off ?xs)) 0))"
    using PdAt_value [of off n "?P g" n] assms(8) by (simp add: plain_packet_sel)
  then have "RdmFuture_at n off ?fu = Some (net_value (take n (drop off ?xs)) 0)"
    by (simp add: RdmFuture_at_def RdmFuture_okay_def RdmFuture_wait_def)
  moreover have "\<exists>api'. RdmApi_get mem bus_line (Uid_of (dv_myUid d)) pid (stack, b) api = Some (api_next api, (stack, b), api') \<and>
      api_store api' (api_next api) = Some ?fu"
    using e(1) r'(1) g assms(4) unfolding s
    by (simp add: RdmApi_get_def api_handleTx_def bus_line_def RdmApi_handle_def addFuture_def Let_def)
  ultimately show ?thesis by blast
qed

lemma bus_inv_upd:
  assumes "bus_inv b" and "\<And>x. dv_myUid (g x) = dv_myUid x"
  shows "bus_inv (b\<lparr>bus_slaves := map g (bus_slaves b)\<rparr>)"
proof -
  have "dv_myUid \<circ> g = dv_myUid" using assms(2) by auto
  then show ?thesis using assms by (auto simp: bus_inv_def)
qed

text \<open>C7. The start address that was set is what a get command returns: setting it over the bus changes the address of that device and nothing
  else, and the future of a get command that follows has it at offset 0.\<close>

theorem rdm_start_address_roundtrip:
  assumes "bus_inv b" and "length stack = 256" and "length mem = 256" and "api_futures api = []" and "length (api_get_buffer api) = 258"
    and "d \<in> set (bus_slaves b)" and "b' = b\<lparr>bus_slaves := map (\<lambda>x. if dv_myUid x = dv_myUid d then d\<lparr>dv_dmxAddress := v\<rparr> else x) (bus_slaves b)\<rparr>"
  shows "RdmApi_set mem bus_line (Uid_of (dv_myUid d)) rdm_DMX_START_ADDRESS (addPd 2 (ucast v)) (stack, b) api = Some ((stack, b'), api) \<and>
     (\<exists>a api' fu. RdmApi_get mem bus_line (Uid_of (dv_myUid d)) rdm_DMX_START_ADDRESS (stack, b') api = Some (a, (stack, b'), api') \<and>
        api_store api' a = Some fu \<and> RdmFuture_at 2 0 fu = Some (ucast v))"
proof -
  let ?d = "d\<lparr>dv_dmxAddress := v\<rparr>"
  have v: "net_value (net_octets 2 (ucast v)) 0 = (ucast v :: u64)"
    unfolding net_value_ucast by (rule bit_word_eqI) (auto simp: bit_simps dest: bit_imp_le_length)
  have "ucast (ucast v :: u64) = v" by (rule bit_word_eqI) (auto simp: bit_simps)
  then have ps: "parameter_set rdm_DMX_START_ADDRESS (net_octets 2 (ucast v)) d = ?d" by (simp add: parameter_set_def v)
  have add: "addPd 2 (ucast v) = add_pd_octets (net_octets 2 (ucast v))" by (rule ext) (rule addPd_net)
  have s: "RdmApi_set mem bus_line (Uid_of (dv_myUid d)) rdm_DMX_START_ADDRESS (addPd 2 (ucast v)) (stack, b) api = Some ((stack, b'), api)"
    using api_set [OF assms(1-4,6), of rdm_DMX_START_ADDRESS "net_octets 2 (ucast v)"] unfolding add ps assms(7) by simp
  have b': "bus_inv b'" unfolding assms(7) by (rule bus_inv_upd [OF assms(1)]) simp
  have d: "?d \<in> set (bus_slaves b')" using assms(6) by (auto simp: assms(7) image_iff)
  have "rdm_DMX_START_ADDRESS \<in> known_pids" by (simp add: known_pids_def)
  moreover have "parameter_octets rdm_DMX_START_ADDRESS ?d = net_octets 2 (ucast v)" by (simp add: parameter_octets_def rdm_value_defs)
  ultimately show ?thesis
    using api_get [OF b' assms(2-5) d, of rdm_DMX_START_ADDRESS 0 2] s v by simp
qed

theorem rdm_start_address_roundtrip_witness:
  "\<exists>b'. RdmApi_set (replicate 256 0) bus_line (Uid_of 0x123400040000) rdm_DMX_START_ADDRESS (addPd 2 (ucast (300 :: u16))) (replicate 256 0, demo_rdm_bus) RdmApi_new =
       Some ((replicate 256 0, b'), RdmApi_new) \<and>
     (\<exists>a api' fu. RdmApi_get (replicate 256 0) bus_line (Uid_of 0x123400040000) rdm_DMX_START_ADDRESS (replicate 256 0, b') RdmApi_new =
         Some (a, (replicate 256 0, b'), api') \<and> api_store api' a = Some fu \<and> RdmFuture_at 2 0 fu = Some (ucast (300 :: u16)))"
proof -
  have d: "RdmDevice_new ''2'' 0x123400040000 \<in> set (bus_slaves demo_rdm_bus)" by (simp add: demo_rdm_bus(3))
  have u: "dv_myUid (RdmDevice_new ''2'' 0x123400040000) = 0x123400040000" by (simp add: RdmDevice_new_def)
  have a: "api_futures RdmApi_new = []" "length (api_get_buffer RdmApi_new) = 258" by (simp_all add: RdmApi_new_def)
  have l: "length (replicate 256 (0 :: u8)) = 256" by simp
  show ?thesis
    using rdm_start_address_roundtrip [OF demo_rdm_bus(1) l l a d refl, of 300] unfolding u by blast
qed

text \<open>The factory UID command gives a device the octets of the UID in reverse order: the encoder reverses an object that is stored in network
  order.\<close>

theorem rdm_factory_uid_reversed:
  assumes "bus_inv b" and "length stack = 256" and "length mem = 256" and "api_futures api = []" and "d \<in> set (bus_slaves b)"
  shows "RdmApi_set mem bus_line (Uid_of (dv_myUid d)) 0xFEED (addPd_Uid v) (stack, b) api =
     Some ((stack, b\<lparr>bus_slaves := map (\<lambda>x. if dv_myUid x = dv_myUid d then d\<lparr>dv_myUid := net_value (rev (uid_octets v)) 0\<rparr> else x) (bus_slaves b)\<rparr>), api)"
proof -
  have add: "addPd_Uid v = add_pd_octets (rev (uid_octets v))"
    by (rule ext) (simp add: addPd_Uid_def addPd_sized_def memcpy_reverse_def machineIsBigEndian_def)
  have "parameter_set 0xFEED (rev (uid_octets v)) d = d\<lparr>dv_myUid := net_value (rev (uid_octets v)) 0\<rparr>"
    by (simp add: parameter_set_def rdm_value_defs)
  then show ?thesis using api_set [OF assms, of "0xFEED" "rev (uid_octets v)"] unfolding add by simp
qed

theorem rdm_factory_uid_reversed_witness:
  "\<exists>b'. RdmApi_set (replicate 256 0) bus_line (Uid_of 0x123400040000) 0xFEED (addPd_Uid (Uid_of 0x4D5300000005)) (replicate 256 0, demo_rdm_bus) RdmApi_new =
       Some ((replicate 256 0, b'), RdmApi_new) \<and> map dv_myUid (bus_slaves b') = [0x123400000815, 0x05000000534D, 0x123400100000]"
proof -
  have d: "RdmDevice_new ''2'' 0x123400040000 \<in> set (bus_slaves demo_rdm_bus)" by (simp add: demo_rdm_bus(3))
  have u: "dv_myUid (RdmDevice_new ''2'' 0x123400040000) = 0x123400040000" by (simp add: RdmDevice_new_def)
  have a: "api_futures RdmApi_new = []" by (simp add: RdmApi_new_def)
  have l: "length (replicate 256 (0 :: u8)) = 256" by simp
  have "uid_octets (Uid_of 0x4D5300000005) = [0x4D, 0x53, 0, 0, 0, 5]"
    by (simp add: uid_octets_def Uid_of_def net_octets_def upt_rec [of _ "numeral _"] drop_bit_eq_div)
  then have "net_value (rev (uid_octets (Uid_of 0x4D5300000005))) 0 = 0x05000000534D" by simp
  then show ?thesis
    using rdm_factory_uid_reversed [OF demo_rdm_bus(1) l l a d, of "Uid_of 0x4D5300000005"] unfolding u
    by (simp add: demo_rdm_bus(3) RdmDevice_new_def)
qed

section \<open>Every frame is handled\<close>

text \<open>What an answer of the device \<open>d\<close> to the packet \<open>q\<close> looks like.\<close>

definition is_answer :: "Packet \<Rightarrow> RdmDeviceP \<Rightarrow> IDmxData \<Rightarrow> bool" where
  "is_answer q d r \<longleftrightarrow> (\<exists>p. Packet_at (dd_data r) = Some p \<and> isRdm p \<and> \<not> isRequest p \<and> Destination p = Source q \<and>
     Source p = take_bit 48 (dv_myUid d) \<and> dd_size r = 26 + Pdl p \<and> dd_size r \<le> int (length (dd_data r)))"

definition answer_packet :: "Packet \<Rightarrow> RdmDeviceP \<Rightarrow> Packet \<Rightarrow> bool" where
  "answer_packet q d p \<longleftrightarrow> isRdm p \<and> CommandClass p \<in> {rdm_DISCOVERY_COMMAND_RESPONSE, rdm_GET_COMMAND_RESPONSE} \<and> Destination p = Source q \<and>
     Source p = take_bit 48 (dv_myUid d) \<and> unat (h_PDL p) \<le> 19 \<and> length (pkt_data p) = 232"

lemma answer_final:
  assumes "answer_packet q d p"
  shows "\<exists>p'. finalize p = Some p' \<and> is_answer q d (sendReply p')"
proof -
  have l: "unat (h_PDL p) \<le> 231" "unat (h_PDL p) + 2 \<le> length (pkt_data p)" using assms by (simp_all add: answer_packet_def)
  have "length (blit (pkt_data p) (unat (h_PDL p)) [x, y]) = 232" for x y
    using assms by (subst length_blit) (simp_all add: answer_packet_def)
  then obtain e where e: "finalize p = Some (p\<lparr>h_msgLength := 24 + h_PDL p, pkt_data := e\<rparr>)" "length e = 232"
    using finalize_Some(1) [OF l refl] by blast
  let ?p = "p\<lparr>h_msgLength := 24 + h_PDL p, pkt_data := e\<rparr>"
  have "isRdm ?p" "Destination ?p = Source q" "Source ?p = take_bit 48 (dv_myUid d)" and c: "CommandClass ?p = CommandClass p"
    using assms by (simp_all add: answer_packet_def isRdm_def StartCode_def SubStartCode_def CommandClass_def Source_def Destination_def)
  moreover have "CommandClass ?p = 0x11 \<or> CommandClass ?p = 0x21" using assms unfolding c by (simp add: answer_packet_def rdm_value_defs)
  then have "\<not> isRequest ?p" unfolding isRequest_def by (elim disjE; simp)
  moreover have "int (enc_size ?p) = 26 + Pdl ?p" using finalize_Some(2) [OF l refl] unfolding Pdl_unat by (simp add: enc_size_def)
  moreover have "enc_size ?p \<le> length (packet_octets ?p)"
    using finalize_Some(2) [OF l refl] assms e(2) by (simp add: enc_size_def packet_octets_def answer_packet_def)
  ultimately show ?thesis using e(1) by (auto simp: is_answer_def sendReply_def ConstDmxData_def)
qed

lemma Source_48: "take_bit 48 (Source q) = Source q"
  using uid_value_less [of "h_srcUid q"] by (intro uid48) (simp add: Source_def)

lemma answer_plain:
  assumes "cc \<in> {rdm_DISCOVERY_COMMAND_RESPONSE, rdm_GET_COMMAND_RESPONSE}" and "unat pdl \<le> 19" and "length e = 232"
  shows "answer_packet q d (plain_packet len (Source q) (dv_myUid d) cc pid pdl e)"
    and "answer_packet q d (enc_ResponseType t (plain_packet len (Source q) (dv_myUid d) cc pid pdl e))"
proof -
  have "answer_packet q d (plain_packet len (Source q) (dv_myUid d) cc pid pdl e)"
    using assms Source_48 [of q] unfolding answer_packet_def
    by (auto simp: plain_packet_sel rdm_value_defs) (simp_all add: plain_packet_def Source_def Destination_def uid_value_Uid_of)
  then show "answer_packet q d (plain_packet len (Source q) (dv_myUid d) cc pid pdl e)"
    "answer_packet q d (enc_ResponseType t (plain_packet len (Source q) (dv_myUid d) cc pid pdl e))"
    by (simp_all add: answer_packet_def enc_ResponseType_def isRdm_def StartCode_def SubStartCode_def CommandClass_def Source_def Destination_def)
qed

lemma discovery_answer_is_answer:
  assumes "length mem = 256"
  shows "\<exists>r. discovery_answer mem q pid (d\<lparr>dv_muted := m\<rparr>) = Some [r] \<and> is_answer q d r"
proof -
  have "answer_packet q d (plain_packet 0 (Source q) (dv_myUid d) rdm_DISCOVERY_COMMAND_RESPONSE pid 0 (drop 24 mem))"
    using assms by (intro answer_plain) simp_all
  from answer_final [OF this] show ?thesis using assms by (auto simp: discovery_answer_def reply_packet_plain)
qed

lemma PdAt_total: "pos + sz \<le> length (pkt_data p) \<Longrightarrow> sz \<le> n \<Longrightarrow> \<exists>v. PdAt n pos sz p = Some v"
  by (auto simp: PdAt_def arr_slice_def arr_blit_def memcpy_reverse_def)

lemma get_parameter_answer:
  assumes "length mem = 256"
  shows "\<exists>e. get_parameter pid d (plain_packet 0 (Source q) (dv_myUid d) rdm_GET_COMMAND_RESPONSE rdm_DEVICE_INFO 0 ([] @ drop 24 mem)) = Some e \<and>
     answer_packet q d e"
proof (cases "pid \<in> known_pids")
  case True
  have l: "length (parameter_octets pid d) \<le> 19" by (simp add: parameter_octets_def)
  then have "unat (of_nat (length (parameter_octets pid d)) :: u8) \<le> 19" by (simp add: unat_of_nat take_bit_nat_eq_self)
  moreover have "length (parameter_octets pid d @ drop (24 + length (parameter_octets pid d)) mem) = 232" using l assms by simp
  ultimately have "answer_packet q d (plain_packet 0 (Source q) (dv_myUid d) rdm_GET_COMMAND_RESPONSE rdm_DEVICE_INFO
      (of_nat (length (parameter_octets pid d))) (parameter_octets pid d @ drop (24 + length (parameter_octets pid d)) mem))"
    by (intro answer_plain(1)) simp
  then show ?thesis unfolding get_parameter_octets [OF assms True] by blast
next
  case False
  then show ?thesis
    using assms by (auto simp: get_parameter_def known_pids_def intro!: answer_plain(2))
qed

lemma set_parameter_total: "6 \<le> length (pkt_data q) \<Longrightarrow> \<exists>d'. set_parameter q d = Some d'"
  using PdAt_total [of 0 2 q 2] PdAt_total [of 0 1 q 1] PdAt_total [of 0 6 q 8] by (auto simp: set_parameter_def)

text \<open>C8. A device handles every frame of which at least 36 octets can be read: it returns without an invalid access, with at most one answer, and an
  answer is an RDM response from the device to the sender of the frame, as long as its header says and inside its buffer.\<close>

theorem rdm_device_total:
  assumes "length mem = 256" and "36 \<le> length (dd_data f)"
  shows "\<exists>q d' rs. Packet_at (dd_data f) = Some q \<and> RdmDevice_handle mem f d = Some (d', rs) \<and> length rs \<le> 1 \<and> (\<forall>r \<in> set rs. is_answer q d r)"
proof -
  obtain q where q: "Packet_at (dd_data f) = Some q" "12 \<le> length (pkt_data q)" using assms(2) by (auto simp: Packet_at_def)
  have a: "\<exists>r. discovery_answer mem q pid d = Some [r] \<and> is_answer q d r" for pid
    using discovery_answer_is_answer [OF assms(1), where d = d and m = "dv_muted d"] by simp
  have "\<exists>d' rs. handle_unique_branch mem q d = Some (d', rs) \<and> length rs \<le> 1 \<and> (\<forall>r \<in> set rs. is_answer q d r)"
    using PdAt_total [of 0 6 q 8] PdAt_total [of 6 6 q 8] q(2) a [of rdm_DISC_UNIQUE_BRANCH]
    by (auto simp: handle_unique_branch_def split: option.splits)
  then have 1: "\<exists>d' rs. handle_discovery mem q d = Some (d', rs) \<and> length rs \<le> 1 \<and> (\<forall>r \<in> set rs. is_answer q d r)"
    using discovery_answer_is_answer [OF assms(1), where q = q and d = d and m = True and pid = rdm_DISC_MUTE]
      discovery_answer_is_answer [OF assms(1), where q = q and d = d and m = False and pid = rdm_DISC_UN_MUTE]
    by (auto simp: handle_discovery_def Let_def)
  have 2: "\<exists>d' rs. handle_get mem q d = Some (d', rs) \<and> length rs \<le> 1 \<and> (\<forall>r \<in> set rs. is_answer q d r)"
    using get_parameter_answer [OF assms(1), of "Pid q" d q] answer_final [of q d]
    by (fastforce simp: handle_get_def command_answer_plain [OF assms(1)])
  have "answer_packet q d (if Pid q \<in> {rdm_DMX_START_ADDRESS, rdm_IDENTIFY_DEVICE, 0xFEED} then e else enc_ResponseType rdm_RESPONSE_TYPE_UNKNOWN_PID e)"
    if "e = plain_packet 0 (Source q) (dv_myUid d) rdm_GET_COMMAND_RESPONSE rdm_DEVICE_INFO 0 ([] @ drop 24 mem)" for e
    using that answer_plain [of rdm_GET_COMMAND_RESPONSE 0 "drop 24 mem" q d] assms(1) by simp
  then have 3: "\<exists>d' rs. handle_set mem q d = Some (d', rs) \<and> length rs \<le> 1 \<and> (\<forall>r \<in> set rs. is_answer q d r)"
    using set_parameter_total [of q d] q(2) answer_final [of q d] by (fastforce simp: handle_set_def command_answer_plain [OF assms(1)] Let_def)
  show ?thesis using q(1) 1 2 3 by (auto simp: RdmDevice_handle_def)
qed

theorem rdm_device_total_witness:
  "\<exists>q d' rs. Packet_at (replicate 513 0) = Some q \<and> RdmDevice_handle (replicate 256 0) (ConstDmxData (replicate 513 0) 513) (RdmDevice_new ''1'' 5) = Some (d', rs) \<and>
     length rs \<le> 1 \<and> (\<forall>r \<in> set rs. is_answer q (RdmDevice_new ''1'' 5) r)"
  using rdm_device_total [of "replicate 256 0" "ConstDmxData (replicate 513 0) 513" "RdmDevice_new ''1'' 5"] by (simp add: ConstDmxData_def)

end
