(* ===== verification/Rdm_Shell.thy ===== *)
theory Rdm_Shell
  imports Rdm_Parameters "HOL-Library.AList" "HOL-Library.List_Lexorder" "HOL-Library.Char_ord"
begin

text \<open>
  The command line of the RDM library: splitting of commands and their table (\<^verbatim>\<open>src/src/librdm/commandinterpreter.hpp\<close>), the commands on the
  master (\<^verbatim>\<open>src/src/librdm/rdmcommands.cpp\<close>), and the interface that sends and receives its frames over a DMX512 device
  (\<^verbatim>\<open>src/src/librdm/dmx4linux2interface.cpp\<close>). The numbers in arguments are read as the C library does; what is printed is a list of
  texts and numbers.
\<close>

section \<open>Splitting commands\<close>

definition is_blank :: "char \<Rightarrow> bool" where
  "is_blank c \<longleftrightarrow> c = CHR '' '' \<or> c = CHR 0x09"

definition trim :: "string \<Rightarrow> string" where
  "trim str = rev (dropWhile is_blank (rev (dropWhile is_blank str)))"

text \<open>\<open>std::string::find\<close> of a character from a position on.\<close>

definition string_find :: "char \<Rightarrow> string \<Rightarrow> nat \<Rightarrow> nat option" where
  "string_find c s pos = (case filter (\<lambda>i. s ! i = c) [pos..<length s] of [] \<Rightarrow> None | i # _ \<Rightarrow> Some i)"

lemma string_find_bounds: "string_find c s pos = Some i \<Longrightarrow> pos \<le> i \<and> i < length s \<and> s ! i = c \<and> (\<forall>j. pos \<le> j \<and> j < i \<longrightarrow> s ! j \<noteq> c)"
proof -
  assume a: "string_find c s pos = Some i"
  then obtain js where f: "filter (\<lambda>i. s ! i = c) [pos..<length s] = i # js" by (auto simp: string_find_def split: list.splits)
  then obtain us vs where u: "[pos..<length s] = us @ i # vs" "\<forall>u \<in> set us. s ! u \<noteq> c" "s ! i = c" by (auto simp: filter_eq_Cons_iff)
  have i: "i \<in> set [pos..<length s]" unfolding u(1) by simp
  have "sorted_wrt (<) [pos..<length s]" by simp
  then have v: "\<forall>x \<in> set vs. i < x" unfolding u(1) by (simp add: sorted_wrt_append)
  have "s ! j \<noteq> c" if "pos \<le> j" "j < i" for j
  proof -
    have "j \<in> set (us @ i # vs)" using that i unfolding u(1) [symmetric] by simp
    then show ?thesis using u(2) v that by fastforce
  qed
  then show ?thesis using i u(3) by simp
qed

lemma string_find_None: "string_find c s pos = None \<Longrightarrow> \<forall>j. pos \<le> j \<and> j < length s \<longrightarrow> s ! j \<noteq> c"
  by (auto simp: string_find_def filter_empty_conv split: list.splits)

text \<open>The loop with the positions \<open>prev_pos = pos\<close>.\<close>

function split_from :: "string \<Rightarrow> nat \<Rightarrow> string list" where
  "split_from command pos = (case string_find CHR '' '' command pos of
     Some i \<Rightarrow> take (i - pos) (drop pos command) # split_from command (i + 1)
   | None \<Rightarrow> [drop pos command])"
  by pat_completeness auto
termination
  by (relation "measure (\<lambda>(command, pos). length command - pos)") (auto dest: string_find_bounds)

declare split_from.simps [simp del]

definition split_command :: "string \<Rightarrow> string list" where
  "split_command command = split_from (trim command) 0"

section \<open>The table of commands\<close>

type_synonym 's command = "string list \<Rightarrow> 's \<Rightarrow> 's option"

definition addCommand :: "string \<Rightarrow> 's command \<Rightarrow> (string \<times> 's command) list \<Rightarrow> (string \<times> 's command) list" where
  "addCommand nm f fs = AList.update nm f fs"

definition commandNames :: "(string \<times> 's command) list \<Rightarrow> string list" where
  "commandNames fs = sort (map fst fs)"

definition listMatchings :: "(string \<times> 's command) list \<Rightarrow> string \<Rightarrow> string \<Rightarrow> string list" where
  "listMatchings fs cmdlineSoFar txt = filter (\<lambda>word. length word \<ge> length txt \<and> take (length txt) word = txt) (commandNames fs)"

text \<open>The result says whether the command was found.\<close>

definition Execute_args :: "(string \<times> 's command) list \<Rightarrow> string list \<Rightarrow> 's \<Rightarrow> (bool \<times> 's) option" where
  "Execute_args fs args s = (case args of
     [] \<Rightarrow> Some (False, s)
   | nm # _ \<Rightarrow> (case map_of fs nm of
       Some f \<Rightarrow> map_option (Pair True) (f args s)
     | None \<Rightarrow> Some (False, s)))"

definition Execute :: "(string \<times> 's command) list \<Rightarrow> string \<Rightarrow> 's \<Rightarrow> (bool \<times> 's) option" where
  "Execute fs command s = Execute_args fs (split_command command) s"

text \<open>The lines of a file; a line that starts with a hash sign is skipped.\<close>

fun execute_lines :: "(string \<times> 's command) list \<Rightarrow> string list \<Rightarrow> 's \<Rightarrow> 's option" where
  "execute_lines fs [] s = Some s"
| "execute_lines fs (l # ls) s = do {
     s \<leftarrow> (if l \<noteq> [] \<and> hd l = CHR ''#'' then Some s else map_option snd (Execute fs l s));
     execute_lines fs ls s }"

text \<open>\<open>file\<close> gives the lines of a file that can be opened.\<close>

definition execute_file :: "(string \<Rightarrow> string list option) \<Rightarrow> (string \<times> 's command) list \<Rightarrow> 's command" where
  "execute_file file fs args s = (
     if length args > 1 then (case file (args ! 1) of None \<Rightarrow> Some s | Some ls \<Rightarrow> execute_lines fs ls s) else Some s)"

section \<open>Numbers of the C library\<close>

definition digit_value :: "char \<Rightarrow> nat option" where
  "digit_value c = (let n = of_char c in
     if 48 \<le> n \<and> n \<le> 57 then Some (n - 48) else if 97 \<le> n \<and> n \<le> 122 then Some (n - 87)
     else if 65 \<le> n \<and> n \<le> 90 then Some (n - 55) else None)"

fun digits_value :: "nat \<Rightarrow> string \<Rightarrow> nat \<Rightarrow> nat" where
  "digits_value base [] acc = acc"
| "digits_value base (c # cs) acc = (case digit_value c of
     Some d \<Rightarrow> if d < base then digits_value base cs (acc * base + d) else acc
   | None \<Rightarrow> acc)"

definition is_space :: "char \<Rightarrow> bool" where
  "is_space c \<longleftrightarrow> c = CHR '' '' \<or> (9 \<le> (of_char c :: nat) \<and> (of_char c :: nat) \<le> 13)"

text \<open>Sign and magnitude; base 0 is told by the prefix.\<close>

definition c_number :: "nat \<Rightarrow> string \<Rightarrow> bool \<times> nat" where
  "c_number base s = (
     let s = dropWhile is_space s;
         neg = (s \<noteq> [] \<and> hd s = CHR ''-'');
         s = (if s \<noteq> [] \<and> (hd s = CHR ''-'' \<or> hd s = CHR ''+'') then tl s else s);
         hex = (length s > 2 \<and> s ! 0 = CHR ''0'' \<and> (s ! 1 = CHR ''x'' \<or> s ! 1 = CHR ''X'') \<and>
           (case digit_value (s ! 2) of None \<Rightarrow> False | Some d \<Rightarrow> d < 16));
         b = (if base = 0 then (if hex then 16 else if s \<noteq> [] \<and> hd s = CHR ''0'' then 8 else 10) else base)
     in (neg, digits_value b (if hex \<and> b = 16 then drop 2 s else s) 0))"

definition c_strtoull :: "string \<Rightarrow> nat \<Rightarrow> u64" where
  "c_strtoull s base = (case c_number base s of (neg, n) \<Rightarrow>
     if n \<ge> 2 ^ 64 then - 1 else if neg then - of_nat n else of_nat n)"

definition c_strtol :: "string \<Rightarrow> nat \<Rightarrow> int" where
  "c_strtol s base = (case c_number base s of (neg, n) \<Rightarrow> if neg then max (- (2 ^ 63)) (- int n) else min (2 ^ 63 - 1) (int n))"

definition Uid_of_string :: "string \<Rightarrow> Uid" where
  "Uid_of_string s = Uid_of (c_strtoull s 16)"

section \<open>The commands\<close>

datatype shell_out = OutNumber string u64 | OutText string "u8 list"

record 'w shell =
  sh_world :: 'w
  sh_api :: RdmApi
  sh_out :: "shell_out list"

definition on_api :: "('w \<Rightarrow> RdmApi \<Rightarrow> ('w \<times> RdmApi) option) \<Rightarrow> 'w shell \<Rightarrow> 'w shell option" where
  "on_api f s = map_option (\<lambda>(w, api). s\<lparr>sh_world := w, sh_api := api\<rparr>) (f (sh_world s) (sh_api s))"

definition shell_mute :: "u8 list \<Rightarrow> 'w line \<Rightarrow> 'w shell command" where
  "shell_mute mem line args s = (if length args > 1 then on_api (RdmApi_mute mem line (Uid_of_string (args ! 1))) s else Some s)"

definition shell_unmute :: "u8 list \<Rightarrow> 'w line \<Rightarrow> 'w shell command" where
  "shell_unmute mem line args s = (if length args > 1 then on_api (RdmApi_unmute mem line (Uid_of_string (args ! 1))) s else Some s)"

definition shell_discovery :: "u8 list \<Rightarrow> 'w line \<Rightarrow> 'w shell command" where
  "shell_discovery mem line args s = (
     if length args = 3 then on_api (startDiscovery mem line (Uid_of_string (args ! 1)) (Uid_of_string (args ! 2)) 0xffffffff) s
     else if length args = 2 then on_api (startDiscovery mem line (Uid_of_string (args ! 1)) (Uid_of_string (args ! 1)) 1) s
     else on_api (startDiscovery_all mem line 0xffffffff) s)"

definition shell_listdevices :: "'w shell command" where
  "shell_listdevices args s = Some (s\<lparr>sh_out := sh_out s @ map (\<lambda>u. OutNumber '''' (uid_value u)) (api_discovered (sh_api s))\<rparr>)"

definition shell_set :: "u8 list \<Rightarrow> 'w line \<Rightarrow> 'w shell command" where
  "shell_set mem line args s = (
     if length args > 3 then
       let who = Uid_of_string (args ! 1) in
       if args ! 2 = ''address'' then
         on_api (RdmApi_set mem line who rdm_DMX_START_ADDRESS (addPd 2 (ucast (word_of_int (c_strtol (args ! 3) 0) :: u16)))) s
       else if args ! 2 = ''identify'' then
         on_api (RdmApi_set mem line who rdm_IDENTIFY_DEVICE (addPd_u8 (word_of_int (c_strtol (args ! 3) 0)))) s
       else if args ! 2 = ''factory-uid'' then
         on_api (RdmApi_set mem line who 0xFEED (addPd_Uid (Uid_of_string (args ! 3)))) s
       else Some s
     else Some s)"

text \<open>A get command and what is read from its future.\<close>

definition shell_query ::
  "u8 list \<Rightarrow> 'w line \<Rightarrow> Uid \<Rightarrow> int \<Rightarrow> (RdmFuture \<Rightarrow> shell_out list option) \<Rightarrow> 'w shell \<Rightarrow> 'w shell option" where
  "shell_query mem line who pid out s = do {
     (a, w, api) \<leftarrow> RdmApi_get mem line who pid (sh_world s) (sh_api s);
     fu \<leftarrow> api_store api a;
     os \<leftarrow> out fu;
     Some (s\<lparr>sh_world := w, sh_api := api\<lparr>api_store := (api_store api)(a \<mapsto> RdmFuture_wait fu)\<rparr>, sh_out := sh_out s @ os\<rparr>) }"

fun read_fields :: "(string \<times> nat \<times> nat) list \<Rightarrow> RdmFuture \<Rightarrow> shell_out list option" where
  "read_fields [] fu = Some []"
| "read_fields ((nm, n, offset) # xs) fu = do {
     v \<leftarrow> RdmFuture_at n offset fu;
     os \<leftarrow> read_fields xs fu;
     Some (OutNumber nm v # os) }"

definition info_fields :: "(string \<times> nat \<times> nat) list" where
  "info_fields = [(''RDM Protocol Version'', 2, 0), (''DeviceModel ID'', 2, 2), (''Product Category'', 2, 4), (''Software Version'', 4, 6),
     (''DMX512 Footprint'', 2, 10), (''DMX512 Personality'', 2, 12), (''DMX512 Start Address'', 2, 14), (''SubDevice Count'', 2, 16),
     (''Sensor Count'', 1, 18)]"

definition read_version :: "RdmFuture \<Rightarrow> shell_out list option" where
  "read_version fu = do {
     n \<leftarrow> RdmFuture_size fu;
     str \<leftarrow> RdmFuture_at_string 0 (nat n) (replicate 256 0) fu;
     str \<leftarrow> arr_set str (nat n) 0;
     Some [OutText ''SW-Version'' (takeWhile (\<lambda>c. c \<noteq> 0) str)] }"

definition shell_get :: "u8 list \<Rightarrow> 'w line \<Rightarrow> 'w shell command" where
  "shell_get mem line args s = (
     if length args > 2 then
       let who = Uid_of_string (args ! 1) in
       if args ! 2 = ''address'' then shell_query mem line who rdm_DMX_START_ADDRESS (read_fields [(''dmx-address'', 2, 0)]) s
       else if args ! 2 = ''identify'' then shell_query mem line who rdm_IDENTIFY_DEVICE (read_fields [(''identify'', 1, 0)]) s
       else if args ! 2 = ''info'' then shell_query mem line who rdm_DEVICE_INFO (read_fields info_fields) s
       else if args ! 2 = ''swversion'' then shell_query mem line who rdm_SOFTWARE_VERSION_LABEL read_version s
       else Some s
     else Some s)"

fun shell_test_rounds :: "nat \<Rightarrow> u8 list \<Rightarrow> 'w line \<Rightarrow> 'w shell \<Rightarrow> 'w shell option" where
  "shell_test_rounds 0 mem line s = Some s"
| "shell_test_rounds (Suc n) mem line s = do {
     s \<leftarrow> on_api (startDiscovery_all mem line 0xffffffff) s;
     s \<leftarrow> shell_listdevices [] s;
     s \<leftarrow> on_api (RdmApi_unmute mem line Uid_broadcast) s;
     shell_test_rounds n mem line s }"

definition shell_test :: "u8 list \<Rightarrow> 'w line \<Rightarrow> 'w shell command" where
  "shell_test mem line args s = (if length args > 1 then shell_test_rounds (nat (sint (word_of_int (c_strtol (args ! 1) 0) :: u32))) mem line s else Some s)"

definition shell_functions :: "u8 list \<Rightarrow> 'w line \<Rightarrow> (string \<times> 'w shell command) list" where
  "shell_functions mem line = foldl (\<lambda>fs (nm, f). addCommand nm f fs) []
     [(''mute'', shell_mute mem line), (''unmute'', shell_unmute mem line), (''discovery'', shell_discovery mem line),
      (''listdevices'', shell_listdevices), (''get'', shell_get mem line), (''set'', shell_set mem line), (''test'', shell_test mem line)]"

section \<open>The interface to a DMX512 device\<close>

text \<open>The frame that is written to the device, and what a received frame is for the receiver.\<close>

definition interface_frame :: "IDmxData \<Rightarrow> dmx512frame option" where
  "interface_frame f = do {
     xs \<leftarrow> arr_slice (dd_data f) 0 (nat (dd_size f));
     d \<leftarrow> arr_blit (f_data zero_frame) 0 xs;
     Some (zero_frame\<lparr>f_port := 0, f_payload_size := word_of_int (dd_size f - 1), f_data := d\<rparr>) }"

definition interface_data :: "dmx512frame \<Rightarrow> IDmxData" where
  "interface_data fr = ConstDmxData (f_data fr) (int (unat (f_payload_size fr)) + 1)"

text \<open>\<open>received\<close> is the frame that could be read, if any.\<close>

definition handleIngressData :: "dmx512frame option \<Rightarrow> IDmxData list" where
  "handleIngressData received = (case received of None \<Rightarrow> [] | Some fr \<Rightarrow> if f_port fr = 0 then [interface_data fr] else [])"

section \<open>What splitting and the interface keep\<close>

fun join_words :: "string list \<Rightarrow> string" where
  "join_words [] = []"
| "join_words [w] = w"
| "join_words (w # ws) = w @ CHR '' '' # join_words ws"

lemma split_from_join: "pos \<le> length s \<Longrightarrow> split_from s pos \<noteq> [] \<and> join_words (split_from s pos) = drop pos s \<and> (\<forall>w \<in> set (split_from s pos). CHR '' '' \<notin> set w)"
proof (induction s pos rule: split_from.induct)
  case (1 s pos)
  show ?case
  proof (cases "string_find CHR '' '' s pos")
    case None
    have "CHR '' '' \<notin> set (drop pos s)"
      using string_find_None [OF None] by (auto simp: in_set_conv_nth)
    then show ?thesis using None by (simp add: split_from.simps [of s pos])
  next
    case (Some i)
    note b = string_find_bounds [OF Some]
    have IH: "split_from s (i + 1) \<noteq> []" "join_words (split_from s (i + 1)) = drop (i + 1) s" "\<forall>w \<in> set (split_from s (i + 1)). CHR '' '' \<notin> set w"
      using "1.IH" [OF Some] b by simp_all
    have "drop pos s = take (i - pos) (drop pos s) @ drop (i - pos) (drop pos s)" by (rule append_take_drop_id [symmetric])
    also have "drop (i - pos) (drop pos s) = CHR '' '' # drop (i + 1) s" using b Cons_nth_drop_Suc [of i s] by simp
    finally have d: "drop pos s = take (i - pos) (drop pos s) @ CHR '' '' # drop (i + 1) s" .
    have "CHR '' '' \<notin> set (take (i - pos) (drop pos s))" using b by (auto simp: in_set_conv_nth)
    moreover have "join_words (w # split_from s (i + 1)) = w @ CHR '' '' # join_words (split_from s (i + 1))" for w
      using IH(1) by (cases "split_from s (i + 1)") auto
    ultimately show ?thesis using Some IH d by (simp add: split_from.simps [of s pos])
  qed
qed

text \<open>Splitting a command loses nothing but the blanks at its ends: the words have no spaces, and joined with spaces they are the command again. Two
  spaces in a row give an empty word.\<close>

theorem split_command_join:
  "join_words (split_command s) = trim s \<and> (\<forall>w \<in> set (split_command s). CHR '' '' \<notin> set w) \<and> split_command s \<noteq> []"
  using split_from_join [of 0 "trim s"] by (simp add: split_command_def)

theorem split_command_join_witness:
  "join_words (split_command '' set 1  x'') = trim '' set 1  x'' \<and> (\<forall>w \<in> set (split_command '' set 1  x''). CHR '' '' \<notin> set w)"
  using split_command_join [of "'' set 1  x''"] by blast

text \<open>A frame of 1 to 513 octets that the interface writes to a device is, when it is read from a device, handed to the receiver with the same octets
  and size.\<close>

theorem interface_roundtrip:
  assumes "1 \<le> dd_size f" and "dd_size f \<le> 513" and "dd_size f \<le> int (length (dd_data f))"
  shows "\<exists>fr r. interface_frame f = Some fr \<and> frame_wf fr \<and> handleIngressData (Some fr) = [r] \<and> dd_size r = dd_size f \<and>
     take (nat (dd_size f)) (dd_data r) = take (nat (dd_size f)) (dd_data f)"
proof -
  let ?n = "nat (dd_size f)"
  have n: "?n \<le> length (dd_data f)" "?n \<le> 513" using assms by simp_all
  have l: "length (f_data zero_frame) = 513" "length (f_unused zero_frame) = 3" by (simp_all add: zero_frame_def)
  have u: "int (unat (word_of_int (dd_size f - 1) :: u16)) + 1 = dd_size f"
  proof -
    have "uint (word_of_int (dd_size f - 1) :: u16) = dd_size f - 1"
      using assms(1,2) by (subst uint_word_of_int) (simp add: take_bit_int_eq_self)
    moreover have "int (unat w) = uint w" for w :: u16 by simp
    ultimately show ?thesis by (simp only:)
  qed
  have "arr_blit (f_data zero_frame) 0 (take ?n (dd_data f)) = Some (take ?n (dd_data f) @ drop ?n (f_data zero_frame))"
    using n l by (simp add: arr_blit_def blit_def min_def)
  then show ?thesis
    using n l u by (simp add: interface_frame_def arr_slice_def handleIngressData_def interface_data_def ConstDmxData_def frame_wf_def)
qed

theorem interface_roundtrip_witness:
  "\<exists>fr r. interface_frame (ConstDmxData (replicate 26 7) 26) = Some fr \<and> handleIngressData (Some fr) = [r] \<and> take 26 (dd_data r) = replicate 26 7"
  using interface_roundtrip [of "ConstDmxData (replicate 26 7) 26"] by (auto simp: ConstDmxData_def)

end
