(* ===== verification/Kernel_List_Sort.thy ===== *)
theory Kernel_List_Sort
  imports Kernel_List "HOL-Library.Sorting_Algorithms"
begin

text \<open>
  The rest of \<^verbatim>\<open>src/src/kernel_emulation/include/linux/list.h\<close>: first and last entry, the other two iterations, and the merge sort
  of a list. The sort works on singly linked lists that end with a null pointer and keeps sorted partial lists in an array, as the digits of a
  binary counter; the last merge restores the backward links.

  \<open>cmp\<close> is the comparison function with its \<open>data\<close>; it reads the entries around the nodes, which the sort does not write. \<open>sp\<close> is
  the address of the local variable \<open>head\<close> of \<open>merge\<close>, whose memory belongs to the heap. An offset from a node to its entry is a parameter.
\<close>

section \<open>Entries and iterations\<close>

text \<open>\<open>list_entry\<close> subtracts the offset of the node in its entry; the result \<^term>\<open>0\<close> is the null pointer.\<close>

definition list_entry :: "nat \<Rightarrow> addr \<Rightarrow> addr" where
  "list_entry offset ptr = ptr - offset"

definition list_first_entry :: "nat \<Rightarrow> addr \<Rightarrow> lheap \<Rightarrow> addr option" where
  "list_first_entry offset head h = (
     if head = 0 then Some 0
     else do { n \<leftarrow> get_next head h; Some (if n \<noteq> head then list_entry offset n else 0) })"

definition list_last_entry :: "nat \<Rightarrow> addr \<Rightarrow> lheap \<Rightarrow> addr option" where
  "list_last_entry offset head h = (
     if head = 0 then Some 0
     else do { p \<leftarrow> get_prev head h; Some (if p \<noteq> head then list_entry offset p else 0) })"

text \<open>The nodes that \<open>list_for_each_backwardly\<close> visits from \<open>pos\<close> on, and \<open>list_for_each_safe\<close> with a body that may change the heap;
  the number of rounds is bounded by \<open>fuel\<close>.\<close>

fun list_for_each_backwardly :: "nat \<Rightarrow> addr \<Rightarrow> addr \<Rightarrow> lheap \<Rightarrow> addr list option" where
  "list_for_each_backwardly 0 pos head h = None"
| "list_for_each_backwardly (Suc fuel) pos head h =
     (if pos = head then Some []
      else do { p \<leftarrow> get_prev pos h;
                xs \<leftarrow> list_for_each_backwardly fuel p head h;
                Some (pos # xs) })"

fun list_for_each_safe_loop :: "nat \<Rightarrow> (addr \<Rightarrow> lheap \<Rightarrow> lheap option) \<Rightarrow> addr \<Rightarrow> addr \<Rightarrow> addr \<Rightarrow> lheap \<Rightarrow> lheap option" where
  "list_for_each_safe_loop 0 body pos pnext head h = None"
| "list_for_each_safe_loop (Suc fuel) body pos pnext head h =
     (if pos = head then Some h
      else do { h \<leftarrow> body pos h;
                n \<leftarrow> get_next pnext h;
                list_for_each_safe_loop fuel body pnext n head h })"

definition list_for_each_safe :: "nat \<Rightarrow> (addr \<Rightarrow> lheap \<Rightarrow> lheap option) \<Rightarrow> addr \<Rightarrow> lheap \<Rightarrow> lheap option" where
  "list_for_each_safe fuel body head h = do {
     pos \<leftarrow> get_next head h;
     pnext \<leftarrow> get_next pos h;
     list_for_each_safe_loop fuel body pos pnext head h }"

section \<open>The sort\<close>

definition MAX_LIST_LENGTH_BITS :: nat where "MAX_LIST_LENGTH_BITS = 20"

text \<open>The loop of \<open>merge\<close> and the assignment after it.\<close>

partial_function (option) merge_loop :: "(addr \<Rightarrow> addr \<Rightarrow> int) \<Rightarrow> addr \<Rightarrow> addr \<Rightarrow> addr \<Rightarrow> lheap \<Rightarrow> lheap option" where
  "merge_loop cmp a b tail h = (
     if a \<noteq> 0 \<and> b \<noteq> 0 then
       if cmp a b \<le> 0 then do {
         h \<leftarrow> set_next tail a h;
         a \<leftarrow> get_next a h;
         tail \<leftarrow> get_next tail h;
         merge_loop cmp a b tail h }
       else do {
         h \<leftarrow> set_next tail b h;
         b \<leftarrow> get_next b h;
         tail \<leftarrow> get_next tail h;
         merge_loop cmp a b tail h }
     else set_next tail (if a \<noteq> 0 then a else b) h)"

definition list_merge :: "addr \<Rightarrow> (addr \<Rightarrow> addr \<Rightarrow> int) \<Rightarrow> addr \<Rightarrow> addr \<Rightarrow> lheap \<Rightarrow> (addr \<times> lheap) option" where
  "list_merge sp cmp a b h = do {
     h \<leftarrow> merge_loop cmp a b sp h;
     r \<leftarrow> get_next sp h;
     Some (r, h) }"

text \<open>The second loop of \<open>merge_and_restore_back_links\<close>, which runs at least once, and the end of the function. The comparison of a node
  with itself has no effect.\<close>

partial_function (option) restore_loop :: "addr \<Rightarrow> addr \<Rightarrow> lheap \<Rightarrow> lheap option" where
  "restore_loop head tail h = do {
     n \<leftarrow> get_next tail h;
     h \<leftarrow> set_prev n tail h;
     tail \<leftarrow> get_next tail h;
     m \<leftarrow> get_next tail h;
     if m \<noteq> 0 then restore_loop head tail h
     else do {
       h \<leftarrow> set_next tail head h;
       set_prev head tail h } }"

partial_function (option) merge_back_loop :: "(addr \<Rightarrow> addr \<Rightarrow> int) \<Rightarrow> addr \<Rightarrow> addr \<Rightarrow> addr \<Rightarrow> addr \<Rightarrow> lheap \<Rightarrow> lheap option" where
  "merge_back_loop cmp head a b tail h = (
     if a \<noteq> 0 \<and> b \<noteq> 0 then
       if cmp a b \<le> 0 then do {
         h \<leftarrow> set_next tail a h;
         h \<leftarrow> set_prev a tail h;
         a \<leftarrow> get_next a h;
         tail \<leftarrow> get_next tail h;
         merge_back_loop cmp head a b tail h }
       else do {
         h \<leftarrow> set_next tail b h;
         h \<leftarrow> set_prev b tail h;
         b \<leftarrow> get_next b h;
         tail \<leftarrow> get_next tail h;
         merge_back_loop cmp head a b tail h }
     else do {
       h \<leftarrow> set_next tail (if a \<noteq> 0 then a else b) h;
       restore_loop head tail h })"

definition merge_and_restore_back_links :: "(addr \<Rightarrow> addr \<Rightarrow> int) \<Rightarrow> addr \<Rightarrow> addr \<Rightarrow> addr \<Rightarrow> lheap \<Rightarrow> lheap option" where
  "merge_and_restore_back_links cmp head a b h = merge_back_loop cmp head a b head h"

text \<open>The loop over the levels that are in use, for the node list \<open>cur\<close>.\<close>

partial_function (option) carry_loop ::
  "addr \<Rightarrow> (addr \<Rightarrow> addr \<Rightarrow> int) \<Rightarrow> nat \<Rightarrow> addr \<Rightarrow> addr list \<Rightarrow> lheap \<Rightarrow> (nat \<times> addr \<times> addr list \<times> lheap) option" where
  "carry_loop sp cmp lev cur part h = do {
     p \<leftarrow> arr_get part lev;
     if p \<noteq> 0 then do {
       (cur, h) \<leftarrow> list_merge sp cmp p cur h;
       part \<leftarrow> arr_set part lev 0;
       carry_loop sp cmp (lev + 1) cur part h }
     else Some (lev, cur, part, h) }"

partial_function (option) sort_loop ::
  "addr \<Rightarrow> (addr \<Rightarrow> addr \<Rightarrow> int) \<Rightarrow> addr \<Rightarrow> addr list \<Rightarrow> nat \<Rightarrow> lheap \<Rightarrow> (addr list \<times> nat \<times> lheap) option" where
  "sort_loop sp cmp lst part max_lev h = (
     if lst \<noteq> 0 then do {
       let cur = lst;
       lst \<leftarrow> get_next lst h;
       h \<leftarrow> set_next cur 0 h;
       (lev, cur, part, h) \<leftarrow> carry_loop sp cmp 0 cur part h;
       let lev' = (if lev > max_lev \<and> lev \<ge> length part - 1 then lev - 1 else lev);
       let max_lev = (if lev > max_lev then lev' else max_lev);
       part \<leftarrow> arr_set part lev' cur;
       sort_loop sp cmp lst part max_lev h }
     else Some (part, max_lev, h))"

text \<open>A round of the loop that merges the levels below the highest one.\<close>

definition merge_level :: "addr \<Rightarrow> (addr \<Rightarrow> addr \<Rightarrow> int) \<Rightarrow> addr list \<Rightarrow> nat \<Rightarrow> addr \<times> lheap \<Rightarrow> (addr \<times> lheap) option" where
  "merge_level sp cmp part lev = (\<lambda>(lst, h). do {
     p \<leftarrow> arr_get part lev;
     if p \<noteq> 0 then list_merge sp cmp p lst h else Some (lst, h) })"

definition list_sort :: "addr \<Rightarrow> addr \<Rightarrow> (addr \<Rightarrow> addr \<Rightarrow> int) \<Rightarrow> lheap \<Rightarrow> lheap option" where
  "list_sort sp head cmp h = do {
     e \<leftarrow> list_empty head h;
     if e then Some h
     else do {
       l \<leftarrow> get_prev head h;
       h \<leftarrow> set_next l 0 h;
       lst \<leftarrow> get_next head h;
       (part, max_lev, h) \<leftarrow> sort_loop sp cmp lst (replicate (MAX_LIST_LENGTH_BITS + 1) 0) 0 h;
       (lst, h) \<leftarrow> for_each [0..<max_lev] (merge_level sp cmp part) (0, h);
       p \<leftarrow> arr_get part max_lev;
       merge_and_restore_back_links cmp head p lst h } }"

section \<open>What the iterations visit\<close>

lemma list_for_each_backwardly_chain:
  "chain h p xs q \<Longrightarrow> p = hp \<Longrightarrow> hp \<notin> set xs \<Longrightarrow>
   list_for_each_backwardly (Suc (length xs)) (last (p # xs)) hp h = Some (rev xs)"
proof (induction xs arbitrary: q rule: rev_induct)
  case (snoc x xs)
  have "chain h p xs x" using snoc.prems by (simp add: chain_append)
  then show ?case using snoc chain_last [of h p xs x] by (cases "xs = []") auto
qed simp

text \<open>The backward iteration visits the nodes in reverse order; one round more than the list is long is enough.\<close>

lemma list_for_each_backwardly_dll:
  assumes "dll h hp xs"
  shows "\<exists>p. get_prev hp h = Some p \<and> list_for_each_backwardly (Suc (length xs)) p hp h = Some (rev xs)"
  using list_for_each_backwardly_chain [of h hp xs hp] chain_last [of h hp xs hp] assms by (auto simp: dll_def split: if_splits)

lemma list_entries_dll:
  assumes "dll h hp xs" and "hp \<noteq> 0"
  shows "list_first_entry offset hp h = Some (if xs = [] then 0 else list_entry offset (hd xs))"
    and "list_last_entry offset hp h = Some (if xs = [] then 0 else list_entry offset (last xs))"
proof -
  have c: "chain h hp xs hp" "hp \<notin> set xs" using assms(1) by (auto simp: dll_def)
  show "list_first_entry offset hp h = Some (if xs = [] then 0 else list_entry offset (hd xs))"
    using chain_first [OF c(1)] c(2) assms(2) by (cases xs) (auto simp: list_first_entry_def)
  show "list_last_entry offset hp h = Some (if xs = [] then 0 else list_entry offset (last xs))"
    using chain_last [OF c(1)] c(2) assms(2) by (auto simp: list_last_entry_def dest: last_in_set)
qed

lemma list_del_each_loop:
  assumes "dll h hp xs" and "pos = hd (xs @ [hp])" and "get_next pos h = Some pnext"
  shows "\<exists>h'. list_for_each_safe_loop (Suc (length xs)) list_del pos pnext hp h = Some h' \<and> dll h' hp []"
  using assms
proof (induction xs arbitrary: pos pnext h)
  case (Cons x xs)
  have c: "chain h x xs hp" "x \<noteq> hp" using Cons.prems(1) by (auto simp: dll_def)
  have pn: "pnext = hd (xs @ [hp])" using chain_first [OF c(1)] Cons.prems(2,3) by (cases xs) auto
  obtain h1 where h1: "list_del x h = Some h1" "dll h1 hp xs" using list_del_dll [of h hp "[]" x xs] Cons.prems(1) by (metis append_Nil)
  have "hd (xs @ [hp]) \<in> dom h1" using chain_dom [of h1 hp xs hp] h1(2) by (cases xs) (auto simp: dll_def)
  then obtain n where n: "get_next (hd (xs @ [hp])) h1 = Some n" by (auto simp: get_next_def)
  show ?case using Cons.IH [OF h1(2) refl n] Cons.prems(2) c(2) h1(1) n by (simp add: pn)
qed simp

text \<open>The iteration that may free its nodes: unlinking every node returns and leaves an empty list.\<close>

lemma list_for_each_safe_deletes:
  assumes "dll h hp xs"
  shows "\<exists>h'. list_for_each_safe (Suc (length xs)) list_del hp h = Some h' \<and> dll h' hp []"
proof -
  have c: "chain h hp xs hp" using assms by (simp add: dll_def)
  have "get_next hp h = Some (hd (xs @ [hp]))" using chain_first [OF c] by (cases xs) auto
  moreover have "hd (xs @ [hp]) \<in> dom h" using chain_dom [OF c] by (cases xs) auto
  then obtain n where "get_next (hd (xs @ [hp])) h = Some n" by (auto simp: get_next_def)
  ultimately show ?thesis using list_del_each_loop [OF assms refl] by (simp add: list_for_each_safe_def)
qed

section \<open>Lists that end with a null pointer\<close>

fun nlist :: "lheap \<Rightarrow> addr \<Rightarrow> addr list \<Rightarrow> bool" where
  "nlist h p [] = (p = 0)"
| "nlist h p (x # xs) = (p = x \<and> x \<noteq> 0 \<and> (\<exists>n. get_next x h = Some n \<and> nlist h n xs))"

lemma nlist_0: "nlist h p xs \<Longrightarrow> p = 0 \<longleftrightarrow> xs = []"
  by (cases xs) auto

lemma nlist_dom: "nlist h p xs \<Longrightarrow> set xs \<subseteq> dom h"
  by (induction xs arbitrary: p) (auto simp: get_next_def)

lemma nlist_cong: "(\<And>x. x \<in> set xs \<Longrightarrow> get_next x h' = get_next x h) \<Longrightarrow> nlist h' p xs = nlist h p xs"
  by (induction xs arbitrary: p) auto

lemma set_nextE:
  assumes "p \<in> dom h"
  obtains h' where "set_next p v h = Some h'" "\<And>q. get_next q h' = (if q = p then Some v else get_next q h)"
    "\<And>q. get_prev q h' = get_prev q h" "\<And>q. q \<noteq> p \<Longrightarrow> h' q = h q" "dom h' = dom h"
  using set_next_ex [OF assms, of v] get_set_next by metis

lemma set_prevE:
  assumes "p \<in> dom h"
  obtains h' where "set_prev p v h = Some h'" "\<And>q. get_prev q h' = (if q = p then Some v else get_prev q h)"
    "\<And>q. get_next q h' = get_next q h" "\<And>q. q \<noteq> p \<Longrightarrow> h' q = h q" "dom h' = dom h"
  using set_prev_ex [OF assms, of v] get_set_prev by metis

text \<open>What a comparison function returns, in terms of an order of the nodes.\<close>

definition compares :: "addr comparator \<Rightarrow> (addr \<Rightarrow> addr \<Rightarrow> int) \<Rightarrow> bool" where
  "compares C cmp \<longleftrightarrow> (\<forall>a b. (cmp a b < 0 \<longleftrightarrow> compare C a b = Less) \<and> (cmp a b > 0 \<longleftrightarrow> compare C a b = Greater))"

lemma compares_le: "compares C cmp \<Longrightarrow> cmp a b \<le> 0 \<longleftrightarrow> compare C a b \<noteq> Greater"
  unfolding compares_def by (metis not_less)

text \<open>What a merge leaves as it was: everything but the forward links of its nodes and of the node before.\<close>

definition next_frame :: "addr set \<Rightarrow> lheap \<Rightarrow> lheap \<Rightarrow> bool" where
  "next_frame A h h' \<longleftrightarrow> (\<forall>x. x \<notin> A \<longrightarrow> h' x = h x) \<and> (\<forall>x. get_prev x h' = get_prev x h) \<and> dom h' = dom h"

lemma next_frame_trans: "next_frame A h h1 \<Longrightarrow> next_frame B h1 h2 \<Longrightarrow> A \<union> B \<subseteq> D \<Longrightarrow> next_frame D h h2"
  unfolding next_frame_def by (metis UnCI subset_iff)

lemma next_frame_get: "next_frame A h h' \<Longrightarrow> x \<notin> A \<Longrightarrow> get_next x h' = get_next x h"
  by (simp add: next_frame_def get_next_def)

lemma set_next_frame:
  assumes "p \<in> dom h"
  shows "\<exists>h'. set_next p v h = Some h' \<and> get_next p h' = Some v \<and> next_frame {p} h h'"
  using assms by (elim set_nextE [where v = v]) (auto simp: next_frame_def)

lemma nlist_next: "nlist h p xs \<Longrightarrow> next_frame A h h' \<Longrightarrow> A \<inter> set xs = {} \<Longrightarrow> nlist h' p xs"
  using nlist_cong [of xs h' h p] next_frame_get [of A h h'] by blast

lemma nlist_Cons_dom: "nlist h p (x # xs) \<Longrightarrow> next_frame A h h' \<Longrightarrow> x \<in> dom h'"
  using nlist_dom [of h p "x # xs"] by (auto simp: next_frame_def)

text \<open>The node before, \<open>tail\<close>, gets the rest of a list or its first node as next.\<close>

lemma append_rest:
  assumes "tail \<in> dom h" and "nlist h r rs" and "tail \<notin> set rs"
  shows "\<exists>h'. set_next tail r h = Some h' \<and> get_next tail h' = Some r \<and> nlist h' r rs \<and> next_frame {tail} h h'"
  using set_next_frame [OF assms(1), of r] nlist_next [OF assms(2)] assms(3) by blast

lemma append_first:
  assumes "tail \<in> dom h" and "nlist h p (x # xs)" and "nlist h q qs" and "distinct (tail # x # xs)" and "tail \<notin> set qs"
  shows "\<exists>h1 n. set_next tail x h = Some h1 \<and> get_next x h1 = Some n \<and> get_next tail h1 = Some x \<and> nlist h1 n xs \<and> nlist h1 q qs \<and>
     next_frame {tail} h h1 \<and> x \<in> dom h1"
proof -
  obtain h1 where h1: "set_next tail x h = Some h1" "get_next tail h1 = Some x" "next_frame {tail} h h1"
    using set_next_frame [OF assms(1)] by blast
  have "nlist h1 p (x # xs)" "nlist h1 q qs" using nlist_next [OF assms(2) h1(3)] nlist_next [OF assms(3) h1(3)] assms(4,5) by auto
  then show ?thesis using h1 nlist_Cons_dom [OF assms(2) h1(3)] by auto
qed

lemma append_done:
  assumes "get_next tail h1 = Some x" and "next_frame {tail} h h1" and "next_frame (insert x A) h1 h'" and "get_next x h' = Some p"
    and "nlist h' p zs" and "tail \<notin> insert x A" and "x \<noteq> 0" and "insert x A \<subseteq> B"
  shows "get_next tail h' = Some x \<and> nlist h' x (x # zs) \<and> next_frame (insert tail B) h h'"
  using next_frame_get [OF assms(3,6)] next_frame_trans [OF assms(2,3)] assms by auto

lemma merge_loop_end:
  assumes "tail \<in> dom h" and "nlist h a as" and "nlist h b bs" and "as = [] \<or> bs = []" and "tail \<notin> set as" and "tail \<notin> set bs"
  shows "\<exists>h' p. merge_loop cmp a b tail h = Some h' \<and> get_next tail h' = Some p \<and> nlist h' p (as @ bs) \<and> next_frame {tail} h h'"
proof -
  have m: "merge_loop cmp a b tail h = set_next tail (if a \<noteq> 0 then a else b) h"
    using assms(4) nlist_0 [OF assms(2)] nlist_0 [OF assms(3)] by (subst merge_loop.simps) auto
  have "nlist h (if a \<noteq> 0 then a else b) (as @ bs)" using assms(2-4) nlist_0 [OF assms(2)] by auto
  then show ?thesis unfolding m using append_rest [OF assms(1)] assms(5,6) by (metis Un_iff set_append)
qed

lemma merge_loop_correct:
  assumes "compares C cmp" and "nlist h a as" and "nlist h b bs" and "distinct (tail # as @ bs)" and "tail \<in> dom h"
  shows "\<exists>h' p. merge_loop cmp a b tail h = Some h' \<and> get_next tail h' = Some p \<and> nlist h' p (Sorting_Algorithms.merge C as bs) \<and>
     next_frame (insert tail (set as \<union> set bs)) h h'"
  using assms(2-)
proof (induction as bs arbitrary: a b tail h rule: Sorting_Algorithms.merge.induct [where cmp = C])
  case (1 ys)
  then show ?case using merge_loop_end [of tail h a "[]" b ys cmp] by (auto simp: next_frame_def)
next
  case (2 xs)
  then show ?case using merge_loop_end [of tail h a xs b "[]" cmp] by (auto simp: next_frame_def)
next
  case (3 x xs y ys)
  then have ab: "a = x" "x \<noteq> 0" "b = y" "y \<noteq> 0" by auto
  show ?case
  proof (cases "compare C x y = Greater")
    case True
    obtain h1 n where h1: "set_next tail y h = Some h1" "get_next y h1 = Some n" "get_next tail h1 = Some y" "nlist h1 n ys" "nlist h1 x (x # xs)"
      "next_frame {tail} h h1" "y \<in> dom h1"
      using append_first [OF "3.prems"(4,2,1)] "3.prems"(3) ab by auto
    obtain h' p where h': "merge_loop cmp x n y h1 = Some h'" "get_next y h' = Some p" "nlist h' p (Sorting_Algorithms.merge C (x # xs) ys)"
      "next_frame (insert y (set (x # xs) \<union> set ys)) h1 h'"
      using "3.IH"(1) [OF True h1(5,4) _ h1(7)] "3.prems"(3) by auto
    have "merge_loop cmp a b tail h = Some h'"
      using compares_le [OF assms(1), of x y] True unfolding ab(1,3) by (subst merge_loop.simps) (simp add: ab(2,4) h1(1-3) h'(1))
    then show ?thesis
      using append_done [OF h1(3,6) h'(4,2,3) _ ab(4), of "set (x # xs) \<union> set (y # ys)"] True "3.prems"(3) by auto
  next
    case False
    obtain h1 n where h1: "set_next tail x h = Some h1" "get_next x h1 = Some n" "get_next tail h1 = Some x" "nlist h1 n xs" "nlist h1 y (y # ys)"
      "next_frame {tail} h h1" "x \<in> dom h1"
      using append_first [OF "3.prems"(4,1,2)] "3.prems"(3) ab by auto
    obtain h' p where h': "merge_loop cmp n y x h1 = Some h'" "get_next x h' = Some p" "nlist h' p (Sorting_Algorithms.merge C xs (y # ys))"
      "next_frame (insert x (set xs \<union> set (y # ys))) h1 h'"
      using "3.IH"(2) [OF False h1(4,5) _ h1(7)] "3.prems"(3) by auto
    have "merge_loop cmp a b tail h = Some h'"
      using compares_le [OF assms(1), of x y] False unfolding ab(1,3) by (subst merge_loop.simps) (simp add: ab(2,4) h1(1-3) h'(1))
    then show ?thesis
      using append_done [OF h1(3,6) h'(4,2,3) _ ab(2), of "set (x # xs) \<union> set (y # ys)"] False "3.prems"(3) by auto
  qed
qed

lemma list_merge_correct:
  assumes "compares C cmp" and "nlist h a as" and "nlist h b bs" and "distinct (sp # as @ bs)" and "sp \<in> dom h"
  shows "\<exists>h' p. list_merge sp cmp a b h = Some (p, h') \<and> nlist h' p (Sorting_Algorithms.merge C as bs) \<and>
     next_frame (insert sp (set as \<union> set bs)) h h'"
  using merge_loop_correct [OF assms] by (auto simp: list_merge_def)

lemma merge_sort_append: "Sorting_Algorithms.merge C (sort C xs) (sort C ys) = sort C (xs @ ys)"
proof (rule sort_eqI [symmetric])
  show "mset (xs @ ys) = mset (Sorting_Algorithms.merge C (sort C xs) (sort C ys))" by (simp add: mset_merge)
  show "sorted C (Sorting_Algorithms.merge C (sort C xs) (sort C ys))" by (simp add: sorted_merge)
  fix l
  show "stable_segment C l (xs @ ys) = stable_segment C l (Sorting_Algorithms.merge C (sort C xs) (sort C ys))"
    by (simp add: filter_merge stable_sort merge_stable_segments)
qed

section \<open>Backward links\<close>

text \<open>What the last merge leaves as it was: \<open>A\<close> are the nodes whose forward link changes, \<open>B\<close> those whose backward link does.\<close>

definition links_frame :: "addr set \<Rightarrow> addr set \<Rightarrow> lheap \<Rightarrow> lheap \<Rightarrow> bool" where
  "links_frame A B h h' \<longleftrightarrow> (\<forall>x. x \<notin> A \<longrightarrow> get_next x h' = get_next x h) \<and> (\<forall>x. x \<notin> B \<longrightarrow> get_prev x h' = get_prev x h) \<and>
     (\<forall>x. x \<notin> A \<union> B \<longrightarrow> h' x = h x) \<and> dom h' = dom h"

lemma links_frame_trans: "links_frame A B h h1 \<Longrightarrow> links_frame A' B' h1 h2 \<Longrightarrow> A \<union> A' \<subseteq> A'' \<Longrightarrow> B \<union> B' \<subseteq> B'' \<Longrightarrow> links_frame A'' B'' h h2"
  unfolding links_frame_def by (smt (verit, best) Un_iff subset_iff)

lemma nlist_links: "nlist h p xs \<Longrightarrow> links_frame A B h h' \<Longrightarrow> A \<inter> set xs = {} \<Longrightarrow> nlist h' p xs"
  using nlist_cong [of xs h' h p] by (auto simp: links_frame_def)

lemma set_prev_frame: "x \<in> dom h \<Longrightarrow> \<exists>h'. set_prev x v h = Some h' \<and> get_prev x h' = Some v \<and> links_frame {} {x} h h'"
  by (elim set_prevE [where v = v]) (auto simp: links_frame_def)

text \<open>Linking \<open>x\<close> behind \<open>tail\<close> in both directions.\<close>

lemma link_both:
  assumes "tail \<in> dom h" and "x \<in> dom h"
  shows "\<exists>h1 h2. set_next tail x h = Some h1 \<and> set_prev x tail h1 = Some h2 \<and> link h2 tail x \<and> links_frame {tail} {x} h h2"
proof -
  obtain h1 where h1: "set_next tail x h = Some h1" "get_next tail h1 = Some x" "next_frame {tail} h h1" using set_next_frame [OF assms(1)] by blast
  have "x \<in> dom h1" using assms(2) h1(3) by (simp add: next_frame_def)
  then obtain h2 where h2: "set_prev x tail h1 = Some h2" "get_prev x h2 = Some tail" "links_frame {} {x} h1 h2" using set_prev_frame by blast
  have "links_frame {tail} {} h h1" using h1(3) next_frame_get [OF h1(3)] by (auto simp: links_frame_def next_frame_def)
  then have "links_frame {tail} {x} h h2" by (rule links_frame_trans [OF _ h2(3)]) auto
  moreover have "get_next tail h2 = Some x" using h1(2) h2(3) by (simp add: links_frame_def)
  ultimately show ?thesis using h1(1) h2(1,2) by (auto simp: link_def)
qed

lemma restore_loop_correct:
  assumes "get_next tail h = Some x" and "nlist h x (x # xs)" and "distinct (tail # x # xs)" and "hp \<notin> set (x # xs)" and "hp \<in> dom h"
  shows "\<exists>h'. restore_loop hp tail h = Some h' \<and> chain h' tail (x # xs) hp \<and> links_frame (set (x # xs)) (insert hp (set (x # xs))) h h'"
  using assms
proof (induction xs arbitrary: tail x h)
  case Nil
  obtain h1 where h1: "set_prev x tail h = Some h1" "get_prev x h1 = Some tail" "links_frame {} {x} h h1"
    using set_prev_frame [of x h tail] nlist_dom [OF Nil(2)] by auto
  have g: "get_next tail h1 = Some x" "get_next x h1 = Some 0" "x \<in> dom h1" "hp \<in> dom h1"
    using h1(3) Nil by (auto simp: links_frame_def get_next_def)
  obtain h2 h3 where h3: "set_next x hp h1 = Some h2" "set_prev hp x h2 = Some h3" "link h3 x hp" "links_frame {x} {hp} h1 h3"
    using link_both [OF g(3,4)] by blast
  have "restore_loop hp tail h = Some h3" by (subst restore_loop.simps) (simp add: Nil(1) h1(1) g(1,2) h3(1,2))
  moreover have "link h3 tail x" using h3(4) g(1) h1(2) Nil(3,4) by (auto simp: link_def links_frame_def)
  moreover have "links_frame {x} {hp, x} h h3" by (rule links_frame_trans [OF h1(3) h3(4)]) auto
  ultimately show ?case using h3(3) by auto
next
  case (Cons y xs)
  obtain h1 where h1: "set_prev x tail h = Some h1" "get_prev x h1 = Some tail" "links_frame {} {x} h h1"
    using set_prev_frame [of x h tail] nlist_dom [OF Cons(3)] by auto
  have l: "nlist h1 x (x # y # xs)" by (rule nlist_links [OF Cons(3) h1(3)]) simp
  have g: "get_next tail h1 = Some x" "get_next x h1 = Some y" "nlist h1 y (y # xs)" "hp \<in> dom h1" "y \<noteq> 0"
    using l h1(3) Cons by (auto simp: links_frame_def)
  obtain h2 where h2: "restore_loop hp x h1 = Some h2" "chain h2 x (y # xs) hp" "links_frame (set (y # xs)) (insert hp (set (y # xs))) h1 h2"
    using Cons.IH [OF g(2,3) _ _ g(4)] Cons(4,5) by auto
  have "restore_loop hp tail h = Some h2" by (subst restore_loop.simps) (simp add: Cons(2) h1(1) g(1,2,5) h2(1))
  moreover have "link h2 tail x" using h2(3) g(1) h1(2) Cons(4,5) by (auto simp: link_def links_frame_def)
  moreover have "links_frame (set (x # y # xs)) (insert hp (set (x # y # xs))) h h2" by (rule links_frame_trans [OF h1(3) h2(3)]) auto
  ultimately show ?case using h2(2) by auto
qed

lemma merge_back_end:
  assumes "tail \<in> dom h" and "hp \<in> dom h" and "nlist h a as" and "nlist h b bs" and "as = [] \<or> bs = []" and "as @ bs \<noteq> []"
    and "distinct (tail # as @ bs)" and "hp \<notin> set (as @ bs)"
  shows "\<exists>h'. merge_back_loop cmp hp a b tail h = Some h' \<and> chain h' tail (as @ bs) hp \<and>
     links_frame (insert tail (set (as @ bs))) (insert hp (set (as @ bs))) h h'"
proof -
  let ?r = "if a \<noteq> 0 then a else b"
  have m: "merge_back_loop cmp hp a b tail h = Option.bind (set_next tail ?r h) (restore_loop hp tail)"
    using assms(5) nlist_0 [OF assms(3)] nlist_0 [OF assms(4)] by (subst merge_back_loop.simps) auto
  obtain x xs where x: "as @ bs = x # xs" using assms(6) by (cases "as @ bs") auto
  have r: "nlist h ?r (x # xs)" unfolding x [symmetric] using assms(3-5) nlist_0 [OF assms(3)] by auto
  obtain h1 where h1: "set_next tail ?r h = Some h1" "get_next tail h1 = Some ?r" "nlist h1 ?r (x # xs)" "next_frame {tail} h h1"
    using append_rest [OF assms(1) r] assms(7) x by (metis distinct.simps(2))
  have n: "?r = x" using r by simp
  obtain h2 where h2: "restore_loop hp tail h1 = Some h2" "chain h2 tail (x # xs) hp" "links_frame (set (x # xs)) (insert hp (set (x # xs))) h1 h2"
    using restore_loop_correct [OF h1(2,3) [unfolded n], of hp] assms(2,7,8) h1(4) unfolding x by (auto simp: next_frame_def)
  have "links_frame {tail} {} h h1" using h1(4) next_frame_get [OF h1(4)] by (auto simp: links_frame_def next_frame_def)
  from links_frame_trans [OF this h2(3)] show ?thesis unfolding m x using h1(1) h2(1,2) by (auto simp: subset_insertI2)
qed

lemma merge_back_first:
  assumes "tail \<in> dom h" and "nlist h p (x # xs)" and "nlist h q qs" and "distinct (tail # x # xs)" and "tail \<notin> set qs"
  shows "\<exists>h1 h2 n. set_next tail x h = Some h1 \<and> set_prev x tail h1 = Some h2 \<and> get_next x h2 = Some n \<and> get_next tail h2 = Some x \<and>
     nlist h2 n xs \<and> nlist h2 q qs \<and> link h2 tail x \<and> links_frame {tail} {x} h h2 \<and> x \<in> dom h2"
proof -
  have x: "x \<in> dom h" using nlist_dom [OF assms(2)] by simp
  obtain h1 h2 where h2: "set_next tail x h = Some h1" "set_prev x tail h1 = Some h2" "link h2 tail x" "links_frame {tail} {x} h h2"
    using link_both [OF assms(1) x] by blast
  have "nlist h2 p (x # xs)" "nlist h2 q qs" using nlist_links [OF assms(2) h2(4)] nlist_links [OF assms(3) h2(4)] assms(4,5) by auto
  then show ?thesis using h2 x by (auto simp: links_frame_def link_def)
qed

lemma merge_back_done:
  assumes "link h2 tail x" and "links_frame {tail} {x} h h2" and "links_frame (insert x A) (insert hp A) h2 h'" and "chain h' x zs hp"
    and "tail \<notin> insert x A" and "x \<notin> A" and "x \<noteq> hp"
  shows "chain h' tail (x # zs) hp \<and> links_frame (insert tail (insert x A)) (insert hp (insert x A)) h h'"
proof -
  have "link h' tail x" using assms by (auto simp: link_def links_frame_def)
  moreover have "links_frame (insert tail (insert x A)) (insert hp (insert x A)) h h'" by (rule links_frame_trans [OF assms(2,3)]) auto
  ultimately show ?thesis using assms(4) by simp
qed

lemma merge_back_correct:
  assumes "compares C cmp" and "nlist h a as" and "nlist h b bs" and "distinct (tail # as @ bs)" and "tail \<in> dom h" and "hp \<in> dom h"
    and "as @ bs \<noteq> []" and "hp \<notin> set (as @ bs)"
  shows "\<exists>h'. merge_back_loop cmp hp a b tail h = Some h' \<and> chain h' tail (Sorting_Algorithms.merge C as bs) hp \<and>
     links_frame (insert tail (set as \<union> set bs)) (insert hp (set as \<union> set bs)) h h'"
  using assms(2-)
proof (induction as bs arbitrary: a b tail h rule: Sorting_Algorithms.merge.induct [where cmp = C])
  case (1 ys)
  then show ?case using merge_back_end [of tail h hp a "[]" b ys cmp] by auto
next
  case (2 xs)
  then show ?case using merge_back_end [of tail h hp a xs b "[]" cmp] by auto
next
  case (3 x xs y ys)
  then have ab: "a = x" "x \<noteq> 0" "b = y" "y \<noteq> 0" by auto
  show ?case
  proof (cases "compare C x y = Greater")
    case True
    obtain h1 h2 n where h2: "set_next tail y h = Some h1" "set_prev y tail h1 = Some h2" "get_next y h2 = Some n" "get_next tail h2 = Some y"
      "nlist h2 n ys" "nlist h2 x (x # xs)" "link h2 tail y" "links_frame {tail} {y} h h2" "y \<in> dom h2"
      using merge_back_first [OF "3.prems"(4,2,1)] "3.prems"(3) ab by auto
    obtain h' where h': "merge_back_loop cmp hp x n y h2 = Some h'" "chain h' y (Sorting_Algorithms.merge C (x # xs) ys) hp"
      "links_frame (insert y (set (x # xs) \<union> set ys)) (insert hp (set (x # xs) \<union> set ys)) h2 h'"
      using "3.IH"(1) [OF True h2(6,5) _ h2(9)] "3.prems"(3,5,7) h2(8) by (auto simp: links_frame_def)
    have "merge_back_loop cmp hp a b tail h = Some h'"
      using compares_le [OF assms(1), of x y] True unfolding ab(1,3) by (subst merge_back_loop.simps) (simp add: ab(2,4) h2(1-4) h'(1))
    then show ?thesis
      using merge_back_done [OF h2(7,8) h'(3,2)] True "3.prems"(3,7) by (auto simp: insert_commute)
  next
    case False
    obtain h1 h2 n where h2: "set_next tail x h = Some h1" "set_prev x tail h1 = Some h2" "get_next x h2 = Some n" "get_next tail h2 = Some x"
      "nlist h2 n xs" "nlist h2 y (y # ys)" "link h2 tail x" "links_frame {tail} {x} h h2" "x \<in> dom h2"
      using merge_back_first [OF "3.prems"(4,1,2)] "3.prems"(3) ab by auto
    obtain h' where h': "merge_back_loop cmp hp n y x h2 = Some h'" "chain h' x (Sorting_Algorithms.merge C xs (y # ys)) hp"
      "links_frame (insert x (set xs \<union> set (y # ys))) (insert hp (set xs \<union> set (y # ys))) h2 h'"
      using "3.IH"(2) [OF False h2(5,6) _ h2(9)] "3.prems"(3,5,7) h2(8) by (auto simp: links_frame_def)
    have "merge_back_loop cmp hp a b tail h = Some h'"
      using compares_le [OF assms(1), of x y] False unfolding ab(1,3) by (subst merge_back_loop.simps) (simp add: ab(2,4) h2(1-4) h'(1))
    then show ?thesis
      using merge_back_done [OF h2(7,8) h'(3,2)] False "3.prems"(3,7) by (auto simp: insert_commute)
  qed
qed

section \<open>The partial lists\<close>

text \<open>\<open>segs\<close> are the pieces of the list behind the partial lists, the higher levels before the lower ones.\<close>

definition parts :: "addr comparator \<Rightarrow> lheap \<Rightarrow> addr list \<Rightarrow> addr list list \<Rightarrow> bool" where
  "parts C h part segs \<longleftrightarrow> length part = 21 \<and> length segs = 21 \<and> (\<forall>l < 21. nlist h (part ! l) (sort C (segs ! l)))"

lemma distinct_concat_nth: "distinct (concat xss) \<Longrightarrow> i < length xss \<Longrightarrow> j < length xss \<Longrightarrow> i \<noteq> j \<Longrightarrow> set (xss ! i) \<inter> set (xss ! j) = {}"
proof (induction xss arbitrary: i j)
  case (Cons xs xss)
  have "set xs \<inter> set (xss ! k) = {}" if "k < length xss" for k using Cons.prems(1) that by (auto dest: nth_mem)
  then show ?case using Cons by (cases i; cases j) auto
qed simp

lemma segs_disjoint:
  assumes "distinct (concat (rev segs) @ cs)" and "l < length segs"
  shows "set (segs ! l) \<subseteq> set (concat (rev segs))" and "set (segs ! l) \<inter> set cs = {}" and "distinct (segs ! l)"
    and "k < length segs \<Longrightarrow> k \<noteq> l \<Longrightarrow> set (segs ! k) \<inter> set (segs ! l) = {}"
proof -
  show s: "set (segs ! l) \<subseteq> set (concat (rev segs))" using assms(2) by (auto dest: nth_mem)
  then show "set (segs ! l) \<inter> set cs = {}" using assms(1) by auto
  show "distinct (segs ! l)" using assms by (auto simp: distinct_concat_iff)
  assume "k < length segs" "k \<noteq> l"
  then show "set (segs ! k) \<inter> set (segs ! l) = {}"
    using distinct_concat_nth [of "rev segs" "length segs - Suc k" "length segs - Suc l"] assms by (auto simp: rev_nth)
qed

text \<open>A level that is empty, with the levels below it empty, takes a piece.\<close>

lemma concat_rev_clear:
  assumes "l < length segs" and "\<forall>k < l. segs ! k = []"
  shows "concat (rev segs) = concat (rev (segs[l := []])) @ segs ! l"
proof -
  have "segs = take l segs @ segs ! l # drop (Suc l) segs" using assms(1) by (rule id_take_nth_drop)
  moreover have "segs[l := []] = take l segs @ [] # drop (Suc l) segs" using assms(1) by (rule upd_conv_take_nth_drop)
  moreover have "concat (rev (take l segs)) = []" using assms by (auto simp: concat_eq_Nil_conv in_set_conv_nth)
  ultimately show ?thesis by (metis (no_types, lifting) append.right_neutral append_assoc concat.simps(1,2) concat_append rev.simps(2) rev_append)
qed

lemma concat_rev_fill:
  assumes "l < length segs" and "\<forall>k \<le> l. segs ! k = []"
  shows "concat (rev (segs[l := cs])) = concat (rev segs) @ cs"
  using concat_rev_clear [of l "segs[l := cs]"] assms list_update_id [of segs l] by simp

lemma parts_frame:
  assumes "parts C h part segs" and "next_frame A h h'" and "\<And>l. l < 21 \<Longrightarrow> A \<inter> set (segs ! l) = {}"
  shows "parts C h' part segs"
  using assms nlist_next [OF _ assms(2)] by (auto simp: parts_def)

lemma parts_upd:
  assumes "parts C h part segs" and "l < 21" and "nlist h p (sort C cs)"
  shows "parts C h (part[l := p]) (segs[l := cs])"
  using assms by (auto simp: parts_def nth_list_update)

definition carry_result ::
  "addr comparator \<Rightarrow> addr \<Rightarrow> nat \<Rightarrow> addr list list \<Rightarrow> addr list \<Rightarrow> lheap \<Rightarrow> nat \<times> addr \<times> addr list \<times> lheap \<Rightarrow> bool" where
  "carry_result C sp lev segs cs h r \<longleftrightarrow> (\<exists>lev' cur' part' h' segs' cs'. r = (lev', cur', part', h') \<and> parts C h' part' segs' \<and>
     nlist h' cur' (sort C cs') \<and> cs' \<noteq> [] \<and> lev \<le> lev' \<and> lev' \<le> 20 \<and> segs ! lev' = [] \<and> (\<forall>k \<le> lev'. segs' ! k = []) \<and>
     (\<forall>k. lev' < k \<longrightarrow> segs' ! k = segs ! k) \<and> concat (rev segs') @ cs' = concat (rev segs) @ cs \<and>
     next_frame (insert sp (set (concat (rev segs) @ cs))) h h')"

lemma distinct_sort_by: "distinct (sort C xs) = distinct xs"
  by (metis mset_eq_imp_distinct_iff mset_sort)

lemma carry_result_lift:
  assumes "carry_result C sp (lev + 1) (segs[lev := []]) cs1 h1 r" and "next_frame A h h1" and "concat (rev (segs[lev := []])) @ cs1 = concat (rev segs) @ cs"
    and "A \<subseteq> insert sp (set (concat (rev segs) @ cs))"
  shows "carry_result C sp lev segs cs h r"
proof -
  obtain lev' cur' part' h' segs' cs' where r: "r = (lev', cur', part', h')" "parts C h' part' segs'" "nlist h' cur' (sort C cs')" "cs' \<noteq> []" "lev + 1 \<le> lev'" "lev' \<le> 20"
    "segs[lev := []] ! lev' = []" "\<forall>k \<le> lev'. segs' ! k = []" "\<forall>k. lev' < k \<longrightarrow> segs' ! k = segs[lev := []] ! k"
    "concat (rev segs') @ cs' = concat (rev segs) @ cs" "next_frame (insert sp (set (concat (rev segs) @ cs))) h1 h'"
    using assms(1) unfolding carry_result_def assms(3) by blast
  have "next_frame (insert sp (set (concat (rev segs) @ cs))) h h'" by (rule next_frame_trans [OF assms(2) r(11)]) (use assms(4) in auto)
  then show ?thesis using r unfolding carry_result_def by auto
qed

lemma carry_loop_correct:
  assumes "compares C cmp" and "parts C h part segs" and "nlist h cur (sort C cs)" and "cs \<noteq> []" and "sp \<in> dom h"
    and "distinct (sp # concat (rev segs) @ cs)" and "\<forall>k < lev. segs ! k = []" and "segs ! 20 = []" and "lev \<le> 20"
  shows "\<exists>r. carry_loop sp cmp lev cur part h = Some r \<and> carry_result C sp lev segs cs h r"
  using assms(2-)
proof (induction "20 - lev" arbitrary: lev cur part h segs cs)
  case 0
  then have l: "lev = 20" by simp
  have "length part = 21" "nlist h (part ! 20) (sort C (segs ! 20))" using 0(2) by (simp_all add: parts_def)
  then have "length part = 21" "part ! lev = 0" using 0(8) by (simp_all add: l)
  then have "carry_loop sp cmp lev cur part h = Some (lev, cur, part, h)" by (subst carry_loop.simps) (simp add: arr_get_def l)
  then show ?case using 0 by (auto simp: carry_result_def next_frame_def l le_less)
next
  case (Suc d)
  have p: "nlist h (part ! lev) (sort C (segs ! lev))" and len: "length part = 21" "length segs = 21" and lev: "lev < 20" using Suc(2,3) by (auto simp: parts_def)
  show ?case
  proof (cases "segs ! lev = []")
    case True
    then have "part ! lev = 0" using p by simp
    then have "carry_loop sp cmp lev cur part h = Some (lev, cur, part, h)" using len lev by (subst carry_loop.simps) (simp add: arr_get_def)
    then show ?thesis using Suc True by (auto simp: carry_result_def next_frame_def le_less)
  next
    case False
    then have p0: "part ! lev \<noteq> 0" using nlist_0 [OF p] by (metis mset_sort mset_zero_iff)
    have dc: "distinct (concat (rev segs) @ cs)" and "sp \<notin> set (concat (rev segs) @ cs)" using Suc(7) by auto
    then have dd: "distinct (sp # sort C (segs ! lev) @ sort C cs)"
      using segs_disjoint(1-3) [OF dc, of lev] len lev by (auto simp: distinct_sort_by)
    obtain h1 q where h1: "list_merge sp cmp (part ! lev) cur h = Some (q, h1)" "nlist h1 q (sort C (segs ! lev @ cs))"
      "next_frame (insert sp (set (segs ! lev) \<union> set cs)) h h1"
      using list_merge_correct [OF assms(1) p Suc(4) dd Suc(6)] by (auto simp: merge_sort_append)
    let ?segs = "segs[lev := []]"
    have eq: "concat (rev ?segs) @ (segs ! lev @ cs) = concat (rev segs) @ cs" using concat_rev_clear [of lev segs] Suc(8) len lev by simp
    have "parts C h1 (part[lev := 0]) ?segs"
    proof (rule parts_frame [OF parts_upd [OF Suc(3)] h1(3)])
      fix l :: nat assume "l < 21"
      then show "insert sp (set (segs ! lev) \<union> set cs) \<inter> set (?segs ! l) = {}"
        using segs_disjoint(1,2) [OF dc, of l] segs_disjoint(4) [OF dc, of l lev] Suc(7) len lev by (cases "l = lev") auto
    qed (use lev in auto)
    moreover have "sp \<in> dom h1" using h1(3) Suc(6) by (simp add: next_frame_def)
    moreover have "distinct (sp # concat (rev ?segs) @ (segs ! lev @ cs))" using Suc(7) unfolding eq .
    moreover have "\<forall>k < lev + 1. ?segs ! k = []" "?segs ! 20 = []" "d = 20 - (lev + 1)" "lev + 1 \<le> 20"
      using Suc(2,8,9) lev len by (auto simp: nth_list_update)
    ultimately obtain r where r: "carry_loop sp cmp (lev + 1) q (part[lev := 0]) h1 = Some r" "carry_result C sp (lev + 1) ?segs (segs ! lev @ cs) h1 r"
      using Suc(1) [of "lev + 1" h1 "part[lev := 0]" ?segs q "segs ! lev @ cs"] h1(2) Suc(5) by auto
    have "carry_loop sp cmp lev cur part h = Some r"
      using len lev p0 by (subst carry_loop.simps) (simp add: arr_get_def arr_set_def h1(1) r(1) [simplified])
    moreover have "carry_result C sp lev segs cs h r"
      by (rule carry_result_lift [OF r(2) h1(3) eq]) (use segs_disjoint(1) [OF dc, of lev] len lev in auto)
    ultimately show ?thesis by blast
  qed
qed

section \<open>The sort is the stable sort\<close>

text \<open>The state of the main loop: \<open>ws\<close> are the nodes that have been taken, \<open>ys\<close> those that follow.\<close>

definition sort_state :: "addr comparator \<Rightarrow> addr \<Rightarrow> addr list \<Rightarrow> addr list \<Rightarrow> addr \<Rightarrow> addr list \<Rightarrow> nat \<Rightarrow> lheap \<Rightarrow> addr list list \<Rightarrow> bool" where
  "sort_state C sp ws ys lst part max_lev h segs \<longleftrightarrow> parts C h part segs \<and> nlist h lst ys \<and> distinct (sp # ws @ ys) \<and> sp \<in> dom h \<and>
     concat (rev segs) = ws \<and> max_lev \<le> 19 \<and> (\<forall>k. max_lev < k \<and> k < 21 \<longrightarrow> segs ! k = []) \<and> (if ws = [] then max_lev = 0 else segs ! max_lev \<noteq> [])"

lemma level_taken:
  assumes "\<forall>k. max_lev < k \<and> k < 21 \<longrightarrow> segs ! k = []" and "if ws = [] then max_lev = 0 else segs ! max_lev \<noteq> []" and "max_lev \<le> 19"
    and "length segs' = 21" and "cs \<noteq> []" and "lev \<le> 20" and "segs ! lev = []" and "\<forall>k \<le> lev. segs' ! k = []" and "\<forall>k. lev < k \<longrightarrow> segs' ! k = segs ! k"
    and "lev1 = (if lev > max_lev \<and> lev \<ge> 20 then lev - 1 else lev)" and "max1 = (if lev > max_lev then lev1 else max_lev)"
  shows "lev1 < 20" and "max1 \<le> 19" and "\<forall>k \<le> lev1. segs' ! k = []" and "segs'[lev1 := cs] ! max1 \<noteq> []"
    and "\<forall>k. max1 < k \<and> k < 21 \<longrightarrow> segs'[lev1 := cs] ! k = []"
proof -
  show 1: "lev1 < 20" and "max1 \<le> 19" and 2: "\<forall>k \<le> lev1. segs' ! k = []" using assms by auto
  show "segs'[lev1 := cs] ! max1 \<noteq> []"
  proof (cases "lev > max_lev \<or> ws = []")
    case True
    then have "max1 = lev1" using assms by (auto split: if_splits)
    then show ?thesis using assms(4,5) 1 by simp
  next
    case False
    then have "segs ! max_lev \<noteq> []" "lev \<le> max_lev" using assms(2) by auto
    moreover have "lev \<noteq> max_lev" using calculation(1) assms(7) by auto
    ultimately have "lev < max_lev" "lev1 = lev" "max1 = max_lev" "segs ! max_lev \<noteq> []" using assms(10,11) by auto
    then show ?thesis using assms(9) by simp
  qed
  show "\<forall>k. max1 < k \<and> k < 21 \<longrightarrow> segs'[lev1 := cs] ! k = []"
  proof (intro allI impI)
    fix k assume k: "max1 < k \<and> k < 21"
    then have "k \<noteq> lev1" "k \<le> lev \<or> segs' ! k = segs ! k \<and> max_lev < k" using assms(9,10,11) by (auto split: if_splits)
    then show "segs'[lev1 := cs] ! k = []" using assms(1,8) k by auto
  qed
qed

lemma sort_state_step:
  assumes "compares C cmp" and "sort_state C sp ws (y # ys) lst part max_lev h segs"
  shows "\<exists>lst' part' max_lev' h' segs'. sort_loop sp cmp lst part max_lev h = sort_loop sp cmp lst' part' max_lev' h' \<and>
     sort_state C sp (ws @ [y]) ys lst' part' max_lev' h' segs' \<and> next_frame (insert sp (set (ws @ y # ys))) h h'"
proof -
  have st: "parts C h part segs" "nlist h lst (y # ys)" "distinct (sp # ws @ y # ys)" "sp \<in> dom h" "concat (rev segs) = ws" "max_lev \<le> 19"
    "\<forall>k. max_lev < k \<and> k < 21 \<longrightarrow> segs ! k = []" "if ws = [] then max_lev = 0 else segs ! max_lev \<noteq> []"
    using assms(2) by (auto simp: sort_state_def)
  have len: "length part = 21" "length segs = 21" using st(1) by (auto simp: parts_def)
  obtain n where n: "get_next y h = Some n" "nlist h n ys" and lst: "lst = y" "y \<noteq> 0" using st(2) by auto
  obtain h1 where h1: "set_next y 0 h = Some h1" "get_next y h1 = Some 0" "next_frame {y} h h1" using set_next_frame [of y h 0] n(1) by (auto simp: get_next_def)
  have p1: "parts C h1 part segs"
  proof (rule parts_frame [OF st(1) h1(3)])
    fix l :: nat assume "l < 21"
    then show "{y} \<inter> set (segs ! l) = {}" using segs_disjoint(1) [of segs "[]" l] st(3,5) len by auto
  qed
  have y1: "nlist h1 y (sort C [y])" using h1(2) lst(2) by simp
  have d: "sp \<in> dom h1" "distinct (sp # concat (rev segs) @ [y])" "segs ! 20 = []" using st h1(3) by (auto simp: next_frame_def)
  obtain r where r: "carry_loop sp cmp 0 y part h1 = Some r" "carry_result C sp 0 segs [y] h1 r"
    using carry_loop_correct [OF assms(1) p1 y1 _ d(1,2) _ d(3), of 0] by auto
  then obtain lev cur part1 h2 segs1 cs where c: "r = (lev, cur, part1, h2)" "parts C h2 part1 segs1" "nlist h2 cur (sort C cs)" "cs \<noteq> []" "lev \<le> 20" "segs ! lev = []"
    "\<forall>k \<le> lev. segs1 ! k = []" "\<forall>k. lev < k \<longrightarrow> segs1 ! k = segs ! k" "concat (rev segs1) @ cs = ws @ [y]" "next_frame (insert sp (set (ws @ [y]))) h1 h2"
    unfolding carry_result_def st(5) by blast
  have len1: "length part1 = 21" "length segs1 = 21" using c(2) by (auto simp: parts_def)
  define lev1 where "lev1 = (if lev > max_lev \<and> lev \<ge> 20 then lev - 1 else lev)"
  define max1 where "max1 = (if lev > max_lev then lev1 else max_lev)"
  note t = level_taken [OF st(7,8,6) len1(2) c(4-8) lev1_def max1_def]
  have fr: "next_frame (insert sp (set (ws @ y # ys))) h h2" by (rule next_frame_trans [OF h1(3) c(10)]) auto
  have "sort_loop sp cmp lst part max_lev h = sort_loop sp cmp n (part1[lev1 := cur]) max1 h2"
    using t(1) by (subst sort_loop.simps) (simp add: lst n(1) h1(1) r(1) c(1) len1 arr_set_def Let_def lev1_def max1_def)
  moreover have "nlist h2 n ys"
    using nlist_next [OF nlist_next [OF n(2) h1(3)] c(10)] st(3) by auto
  then have "sort_state C sp (ws @ [y]) ys n (part1[lev1 := cur]) max1 h2 (segs1[lev1 := cs])"
    using parts_upd [OF c(2) _ c(3), of lev1] t st(3,4) fr concat_rev_fill [of lev1 segs1 cs] len1 c(9) by (auto simp: sort_state_def next_frame_def)
  ultimately show ?thesis using fr by blast
qed

lemma sort_loop_correct:
  assumes "compares C cmp" and "sort_state C sp ws ys lst part max_lev h segs"
  shows "\<exists>part' max_lev' h' segs'. sort_loop sp cmp lst part max_lev h = Some (part', max_lev', h') \<and>
     sort_state C sp (ws @ ys) [] 0 part' max_lev' h' segs' \<and> next_frame (insert sp (set (ws @ ys))) h h'"
  using assms(2)
proof (induction ys arbitrary: ws lst part max_lev h segs)
  case Nil
  then have "lst = 0" by (simp add: sort_state_def)
  then have "sort_loop sp cmp lst part max_lev h = Some (part, max_lev, h)" by (subst sort_loop.simps) simp
  then show ?case using Nil \<open>lst = 0\<close> by (auto simp: next_frame_def)
next
  case (Cons y ys)
  obtain lst' part' max_lev' h1 segs' where 1: "sort_loop sp cmp lst part max_lev h = sort_loop sp cmp lst' part' max_lev' h1"
    "sort_state C sp (ws @ [y]) ys lst' part' max_lev' h1 segs'" "next_frame (insert sp (set (ws @ y # ys))) h h1"
    using sort_state_step [OF assms(1) Cons.prems] by blast
  from Cons.IH [OF 1(2)] obtain part2 max2 h2 segs2 where 2: "sort_loop sp cmp lst' part' max_lev' h1 = Some (part2, max2, h2)"
    "sort_state C sp ((ws @ [y]) @ ys) [] 0 part2 max2 h2 segs2" "next_frame (insert sp (set ((ws @ [y]) @ ys))) h1 h2" by blast
  have "next_frame (insert sp (set (ws @ y # ys))) h h2" by (rule next_frame_trans [OF 1(3) 2(3)]) auto
  then show ?case using 1(1) 2 by auto
qed

text \<open>The last loop.\<close>

lemma merge_levels:
  assumes "compares C cmp" and "parts C h part segs" and "distinct (sp # concat (rev segs))" and "sp \<in> dom h" and "m \<le> 20"
  shows "\<exists>lst h'. for_each [0..<m] (merge_level sp cmp part) (0, h) = Some (lst, h') \<and> nlist h' lst (sort C (concat (rev (take m segs)))) \<and>
     (\<forall>l. m \<le> l \<and> l < 21 \<longrightarrow> nlist h' (part ! l) (sort C (segs ! l))) \<and> next_frame (insert sp (set (concat (rev (take m segs))))) h h'"
  using assms(5)
proof (induction m)
  case 0
  then show ?case using assms(2) by (simp add: parts_def next_frame_def)
next
  case (Suc m)
  then obtain lst h1 where 1: "for_each [0..<m] (merge_level sp cmp part) (0, h) = Some (lst, h1)" "nlist h1 lst (sort C (concat (rev (take m segs))))"
    "\<forall>l. m \<le> l \<and> l < 21 \<longrightarrow> nlist h1 (part ! l) (sort C (segs ! l))" "next_frame (insert sp (set (concat (rev (take m segs))))) h h1" by auto
  have len: "length part = 21" "length segs = 21" and m: "m < 20" using assms(2) Suc.prems by (auto simp: parts_def)
  have p: "nlist h1 (part ! m) (sort C (segs ! m))" using 1(3) m by simp
  have tk: "concat (rev (take (Suc m) segs)) = segs ! m @ concat (rev (take m segs))" using len m by (simp add: take_Suc_conv_app_nth)
  have all: "concat (rev segs) = concat (rev (drop (Suc m) segs)) @ concat (rev (take (Suc m) segs))"
    by (metis append_take_drop_id concat_append rev_append)
  then have ds: "distinct (concat (rev (drop (Suc m) segs)) @ segs ! m @ concat (rev (take m segs)))" "sp \<notin> set (concat (rev segs))" using assms(3) tk by auto
  show ?case
  proof (cases "segs ! m = []")
    case True
    then have "merge_level sp cmp part m (lst, h1) = Some (lst, h1)" using p len m by (simp add: merge_level_def arr_get_def)
    then show ?thesis using 1 True tk by (auto simp: for_each_append)
  next
    case False
    then have p0: "part ! m \<noteq> 0" using nlist_0 [OF p] by (metis mset_sort mset_zero_iff)
    have "distinct (sp # sort C (segs ! m) @ sort C (concat (rev (take m segs))))" using ds all tk by (auto simp: distinct_sort_by)
    moreover have "sp \<in> dom h1" using assms(4) 1(4) by (simp add: next_frame_def)
    ultimately obtain lst' h2 where 2: "list_merge sp cmp (part ! m) lst h1 = Some (lst', h2)" "nlist h2 lst' (sort C (concat (rev (take (Suc m) segs))))"
      "next_frame (insert sp (set (concat (rev (take (Suc m) segs))))) h1 h2"
      using list_merge_correct [OF assms(1) p 1(2), of sp] unfolding merge_sort_append tk by auto
    have "merge_level sp cmp part m (lst, h1) = Some (lst', h2)" using 2(1) p0 len m by (simp add: merge_level_def arr_get_def)
    then have "for_each [0..<Suc m] (merge_level sp cmp part) (0, h) = Some (lst', h2)" using 1(1) by (simp add: for_each_append)
    moreover have "nlist h2 (part ! l) (sort C (segs ! l))" if "Suc m \<le> l" "l < 21" for l
    proof (rule nlist_next [OF _ 2(3)])
      have "segs ! l \<in> set (drop (Suc m) segs)" using that len by (auto simp: in_set_conv_nth intro!: exI [of _ "l - Suc m"])
      then have "set (segs ! l) \<subseteq> set (concat (rev (drop (Suc m) segs)))" by auto
      then show "insert sp (set (concat (rev (take (Suc m) segs)))) \<inter> set (sort C (segs ! l)) = {}" using ds all tk by auto
    qed (use 1(3) that in auto)
    moreover have "next_frame (insert sp (set (concat (rev (take (Suc m) segs))))) h h2" by (rule next_frame_trans [OF 1(4) 2(3)]) (auto simp: tk)
    ultimately show ?thesis using 2(2) by blast
  qed
qed

lemma chain_next_nlist: "chain h p xs q \<Longrightarrow> distinct (p # xs) \<Longrightarrow> q \<notin> set xs \<Longrightarrow> 0 \<notin> set xs \<Longrightarrow> xs \<noteq> [] \<Longrightarrow>
    set_next (last xs) 0 h = Some h' \<Longrightarrow> nlist h' (hd xs) xs"
proof (induction xs arbitrary: p)
  case (Cons x xs)
  show ?case
  proof (cases xs)
    case Nil
    then show ?thesis using Cons.prems get_set_next(1) by fastforce
  next
    case (Cons y ys)
    have "nlist h' (hd xs) xs" using Cons.IH [of x] Cons.prems \<open>xs = y # ys\<close> by auto
    moreover have "get_next x h' = Some y" using Cons.prems get_set_next(1) [OF Cons.prems(6)] \<open>xs = y # ys\<close> by (auto dest: linkD)
    ultimately show ?thesis using Cons.prems \<open>xs = y # ys\<close> by auto
  qed
qed simp

lemma top_levels_empty:
  assumes "\<forall>k. m < k \<and> k < length segs \<longrightarrow> segs ! k = []" and "m < length segs"
  shows "concat (rev segs) = segs ! m @ concat (rev (take m segs))"
proof -
  have "segs = take m segs @ segs ! m # drop (Suc m) segs" using assms(2) by (rule id_take_nth_drop)
  moreover have "concat (rev (drop (Suc m) segs)) = []" using assms by (auto simp: concat_eq_Nil_conv in_set_conv_nth)
  ultimately show ?thesis by (metis (no_types, lifting) append_assoc append_self_conv2 concat.simps(1,2) concat_append rev.simps(2) rev_append self_append_conv)
qed

lemma sort_state_start:
  assumes "nlist h lst xs" and "distinct (sp # xs)" and "sp \<in> dom h"
  shows "sort_state C sp [] xs lst (replicate (MAX_LIST_LENGTH_BITS + 1) 0) 0 h (replicate 21 [])"
  using assms by (auto simp: sort_state_def parts_def MAX_LIST_LENGTH_BITS_def concat_eq_Nil_conv)

lemma sort_cut:
  assumes "dll h hp xs" and "xs \<noteq> []" and "0 \<notin> set xs"
  shows "\<exists>h1. get_prev hp h = Some (last xs) \<and> set_next (last xs) 0 h = Some h1 \<and> get_next hp h1 = Some (hd xs) \<and> nlist h1 (hd xs) xs \<and>
     next_frame (set xs) h h1"
proof -
  have c: "chain h hp xs hp" "distinct (hp # xs)" using assms(1) by (auto simp: dll_def)
  have l: "get_prev hp h = Some (last xs)" "last xs \<in> dom h" "last xs \<in> set xs"
    using chain_last [OF c(1)] chain_dom [OF c(1)] assms(2) by (auto simp: subset_iff dest: last_in_set)
  obtain h1 where h1: "set_next (last xs) 0 h = Some h1" "next_frame {last xs} h h1" using set_next_frame [OF l(2)] by blast
  have "nlist h1 (hd xs) xs" using chain_next_nlist [OF c(1,2) _ assms(3,2) h1(1)] c(2) by simp
  moreover have "get_next hp h1 = Some (hd xs)" using next_frame_get [OF h1(2), of hp] chain_first [OF c(1)] c(2) assms(2) l(3) by (cases xs) auto
  moreover have "next_frame (set xs) h h1" using h1(2) l(3) unfolding next_frame_def by (metis singletonD)
  ultimately show ?thesis using l(1) h1(1) by blast
qed

lemma sort_finish:
  assumes "compares C cmp" and "sort_state C sp xs [] 0 part m h segs" and "xs \<noteq> []" and "hp \<in> dom h" and "hp \<notin> insert sp (set xs)"
  shows "\<exists>lst h1 h'. for_each [0..<m] (merge_level sp cmp part) (0, h) = Some (lst, h1) \<and> arr_get part m = Some (part ! m) \<and>
     merge_and_restore_back_links cmp hp (part ! m) lst h1 = Some h' \<and> chain h' hp (sort C xs) hp \<and> (\<forall>x. x \<notin> insert sp (insert hp (set xs)) \<longrightarrow> h' x = h x)"
proof -
  have st: "parts C h part segs" "concat (rev segs) = xs" "m \<le> 19" "\<forall>k. m < k \<and> k < 21 \<longrightarrow> segs ! k = []" "length segs = 21" "length part = 21" "sp \<in> dom h"
    "distinct (sp # xs)" using assms(2) by (auto simp: sort_state_def parts_def)
  obtain lst h1 where h1: "for_each [0..<m] (merge_level sp cmp part) (0, h) = Some (lst, h1)" "nlist h1 lst (sort C (concat (rev (take m segs))))"
    "nlist h1 (part ! m) (sort C (segs ! m))" "next_frame (insert sp (set (concat (rev (take m segs))))) h h1"
    using merge_levels [OF assms(1) st(1) _ st(7), of m] st(2,3,8) by auto
  have xs: "xs = segs ! m @ concat (rev (take m segs))" using top_levels_empty [of m segs] st by simp
  have ps: "set (sort C (segs ! m) @ sort C (concat (rev (take m segs)))) = set xs" unfolding xs by simp
  have "distinct (hp # sort C (segs ! m) @ sort C (concat (rev (take m segs))))"
    using st(8) assms(5) unfolding xs by (auto simp: distinct_sort_by)
  moreover have "hp \<in> dom h1" using h1(4) assms(4) by (simp add: next_frame_def)
  moreover have "sort C (segs ! m) @ sort C (concat (rev (take m segs))) \<noteq> []" using ps assms(3) by (metis set_empty)
  ultimately obtain h' where h': "merge_back_loop cmp hp (part ! m) lst hp h1 = Some h'" "chain h' hp (sort C xs) hp"
    "links_frame (insert hp (set xs)) (insert hp (set xs)) h1 h'"
    using merge_back_correct [OF assms(1) h1(3,2), of hp hp] assms(5) ps unfolding merge_sort_append xs [symmetric] by (auto simp: xs [symmetric])
  have "h' x = h x" if "x \<notin> insert sp (insert hp (set xs))" for x
    using that h'(3) h1(4) xs by (auto simp: links_frame_def next_frame_def)
  then show ?thesis using h1(1) h'(1,2) st(3,6) by (auto simp: merge_and_restore_back_links_def arr_get_def)
qed

text \<open>C21. Sorting a list of any length returns without an invalid access and leaves, with forward and backward links, the list of the same nodes
  in the order of the stable sort: sorted by the comparison function, equivalent nodes in their old order. It changes no memory outside the list
  but its own local variable.\<close>

theorem list_sort_stable:
  assumes "dll h hp xs" and "compares C cmp" and "0 \<notin> set xs" and "sp \<in> dom h" and "sp \<notin> set (hp # xs)"
  shows "\<exists>h'. list_sort sp hp cmp h = Some h' \<and> dll h' hp (sort C xs) \<and> (\<forall>x. x \<notin> insert sp (set (hp # xs)) \<longrightarrow> h' x = h x)"
proof (cases "xs = []")
  case True
  then show ?thesis using assms(1) list_empty_dll [OF assms(1)] by (auto simp: list_sort_def)
next
  case False
  obtain h1 where h1: "get_prev hp h = Some (last xs)" "set_next (last xs) 0 h = Some h1" "get_next hp h1 = Some (hd xs)" "nlist h1 (hd xs) xs"
    "next_frame (set xs) h h1" using sort_cut [OF assms(1) False assms(3)] by blast
  have d: "distinct (hp # xs)" "hp \<in> dom h" using assms(1) chain_dom [of h hp xs hp] by (auto simp: dll_def)
  have s: "distinct (sp # xs)" "sp \<in> dom h1" using assms(4,5) d h1(5) by (auto simp: next_frame_def)
  obtain part m h2 segs where h2: "sort_loop sp cmp (hd xs) (replicate (MAX_LIST_LENGTH_BITS + 1) 0) 0 h1 = Some (part, m, h2)"
    "sort_state C sp xs [] 0 part m h2 segs" "next_frame (insert sp (set xs)) h1 h2"
    using sort_loop_correct [OF assms(2) sort_state_start [OF h1(4) s]] by auto
  have hp: "hp \<in> dom h2" "hp \<notin> insert sp (set xs)" using d assms(5) h1(5) h2(3) by (auto simp: next_frame_def)
  obtain lst h3 h4 where h4: "for_each [0..<m] (merge_level sp cmp part) (0, h2) = Some (lst, h3)" "arr_get part m = Some (part ! m)"
    "merge_and_restore_back_links cmp hp (part ! m) lst h3 = Some h4" "chain h4 hp (sort C xs) hp"
    "\<forall>x. x \<notin> insert sp (insert hp (set xs)) \<longrightarrow> h4 x = h2 x" using sort_finish [OF assms(2) h2(2) False hp] by blast
  have "list_sort sp hp cmp h = Some h4"
    using list_empty_dll [OF assms(1)] False by (simp add: list_sort_def h1(1-3) h2(1) [simplified] h4(1-3))
  moreover have "dll h4 hp (sort C xs)" using h4(4) d(1) by (simp add: dll_def distinct_sort_by)
  moreover have "h4 x = h x" if "x \<notin> insert sp (set (hp # xs))" for x using that h4(5) h2(3) h1(5) by (simp add: next_frame_def)
  ultimately show ?thesis by blast
qed

text \<open>Three nodes whose keys are their addresses modulo 3, sorted by their keys.\<close>

definition demo_nodes :: lheap where
  "demo_nodes = [1 \<mapsto> \<lparr>lh_next = 5, lh_prev = 6\<rparr>, 5 \<mapsto> \<lparr>lh_next = 8, lh_prev = 1\<rparr>, 8 \<mapsto> \<lparr>lh_next = 6, lh_prev = 5\<rparr>,
     6 \<mapsto> \<lparr>lh_next = 1, lh_prev = 8\<rparr>, 100 \<mapsto> \<lparr>lh_next = 0, lh_prev = 0\<rparr>]"

lemma compares_key: "compares (key f default) (\<lambda>a b. int (f a) - int (f b))" for f :: "addr \<Rightarrow> nat"
  by (simp add: compares_def)

theorem list_sort_stable_witness:
  "\<exists>h'. list_sort 100 1 (\<lambda>a b. int (a mod 3) - int (b mod 3)) demo_nodes = Some h' \<and> dll h' 1 [6, 5, 8]"
proof -
  have d: "dll demo_nodes 1 [5, 8, 6]" by (simp add: dll_def link_def get_next_def get_prev_def demo_nodes_def)
  have "sort (key (\<lambda>a. a mod 3) default) [5, 8, 6] = [6, 5, 8 :: addr]"
    by (simp add: sort_def)
  then show ?thesis
    using list_sort_stable [OF d compares_key [of "\<lambda>a. a mod 3"], of 100] by (auto simp: demo_nodes_def)
qed

end
