(* ===== verification/Waitqueue.thy ===== *)
theory Waitqueue
  imports Prelude
begin

text \<open>
  The wait queue of the kernel emulation (\<^verbatim>\<open>src/src/kernel_emulation/waitqueue/waitqueue.c\<close>, \<^verbatim>\<open>waitqueue.h\<close>). The clock, the result of
  \<open>pthread_cond_timedwait\<close> and the value of the condition after a wait are what the environment gives for each round of the waiting macro.
  Seconds and nanoseconds are integers without overflow; the conversions of the result to \<open>unsigned long\<close> and to \<open>int\<close> are written out.
\<close>

section \<open>Points in time\<close>

record timespec =
  tv_sec :: int
  tv_nsec :: int

definition timespec_add_milliseconds :: "timespec \<Rightarrow> u64 \<Rightarrow> timespec" where
  "timespec_add_milliseconds ts milliseconds = (
     let ts = ts\<lparr>tv_sec := tv_sec ts + uint milliseconds div 1000\<rparr>
     in if uint milliseconds mod 1000 \<noteq> 0 then
          let ts = ts\<lparr>tv_nsec := tv_nsec ts + (uint milliseconds mod 1000) * 1000000\<rparr>;
              ts = ts\<lparr>tv_sec := tv_sec ts + tv_nsec ts div 1000000000\<rparr>
          in ts\<lparr>tv_nsec := tv_nsec ts mod 1000000000\<rparr>
        else ts)"

function timespec_carry :: "timespec \<Rightarrow> timespec" where
  "timespec_carry ts = (
     if tv_nsec ts < 0 then timespec_carry (ts\<lparr>tv_sec := tv_sec ts - 1, tv_nsec := tv_nsec ts + 1000000000\<rparr>) else ts)"
  by pat_completeness auto
termination by (relation "measure (\<lambda>ts. nat (- tv_nsec ts))") auto

declare timespec_carry.simps [simp del]

definition timespec_sub :: "timespec \<Rightarrow> timespec \<Rightarrow> timespec" where
  "timespec_sub ts subtractor = timespec_carry
     (ts\<lparr>tv_nsec := tv_nsec ts - tv_nsec subtractor, tv_sec := tv_sec ts - tv_sec subtractor\<rparr>)"

definition timespec_to_milliseconds :: "timespec \<Rightarrow> u64" where
  "timespec_to_milliseconds ts = word_of_int (tv_nsec ts div 1000000 + 1000 * tv_sec ts)"

definition milliseconds_to_jiffies :: "u64 \<Rightarrow> u64" where "milliseconds_to_jiffies ms = ms"
definition jiffies_to_milliseconds :: "u64 \<Rightarrow> u64" where "jiffies_to_milliseconds jiffies = jiffies"

section \<open>Waiting\<close>

definition ETIMEDOUT :: int where "ETIMEDOUT = 110"
definition ERESTART :: int where "ERESTART = 85"

text \<open>A round of waiting: the time when it starts, the result of \<open>pthread_cond_timedwait\<close>, the time when that returns and the condition then.\<close>

record wait_round =
  wr_start :: timespec
  wr_result :: int
  wr_end :: timespec
  wr_condition :: bool

definition ll_wait_event_interruptible_timeout :: "u64 \<Rightarrow> wait_round \<Rightarrow> int" where
  "ll_wait_event_interruptible_timeout timeout_jiffies r = (
     let ts_then = timespec_add_milliseconds (wr_start r) (jiffies_to_milliseconds timeout_jiffies);
         ret = wr_result r
     in if ret = 0 then sint (word_of_int (uint (timespec_to_milliseconds (timespec_sub ts_then (wr_end r)))) :: 32 word)
        else if ret = ETIMEDOUT then 0
        else if ret < 0 then - ERESTART
        else - ret)"

text \<open>The condition for the end of the macro, and \<open>__ret\<close> after it.\<close>

definition ll_wait_cond_timeout :: "bool \<Rightarrow> int \<Rightarrow> bool \<times> int" where
  "ll_wait_cond_timeout condition ret = (
     let ret = (if condition \<and> ret = 0 then 1 else ret)
     in (condition \<or> ret = 0, ret))"

text \<open>The macro over the rounds that the environment gives; \<^term>\<open>None\<close> when it waits after all of them.\<close>

fun wait_event_interruptible_timeout :: "u64 \<Rightarrow> wait_round list \<Rightarrow> int option" where
  "wait_event_interruptible_timeout timeout_jiffies [] = None"
| "wait_event_interruptible_timeout timeout_jiffies (r # rs) = (
     case ll_wait_cond_timeout (wr_condition r) (ll_wait_event_interruptible_timeout timeout_jiffies r) of
       (stop, ret) \<Rightarrow> if stop then Some ret else wait_event_interruptible_timeout timeout_jiffies rs)"

section \<open>Arithmetic of points in time\<close>

definition nanoseconds :: "timespec \<Rightarrow> int" where
  "nanoseconds ts = 1000000000 * tv_sec ts + tv_nsec ts"

definition normal_time :: "timespec \<Rightarrow> bool" where
  "normal_time ts \<longleftrightarrow> 0 \<le> tv_nsec ts \<and> tv_nsec ts < 1000000000"

lemma timespec_add_nanoseconds:
  assumes "normal_time ts"
  shows "nanoseconds (timespec_add_milliseconds ts ms) = nanoseconds ts + 1000000 * uint ms" and "normal_time (timespec_add_milliseconds ts ms)"
proof -
  define q r where qr: "q = uint ms div 1000" "r = uint ms mod 1000"
  have ms: "uint ms = 1000 * q + r" by (simp add: qr)
  define n where "n = tv_nsec ts + (uint ms mod 1000) * 1000000"
  have n: "n = 1000000000 * (n div 1000000000) + n mod 1000000000" by simp
  show "nanoseconds (timespec_add_milliseconds ts ms) = nanoseconds ts + 1000000 * uint ms"
    using n by (simp add: timespec_add_milliseconds_def nanoseconds_def Let_def qr [symmetric] n_def [folded qr, symmetric]) (simp add: n_def [folded qr] ms)
  show "normal_time (timespec_add_milliseconds ts ms)"
    using assms by (simp add: timespec_add_milliseconds_def normal_time_def Let_def)
qed

lemma timespec_carry_nanoseconds:
  "nanoseconds (timespec_carry ts) = nanoseconds ts" "tv_nsec ts < 1000000000 \<Longrightarrow> normal_time (timespec_carry ts)"
proof (induction ts rule: timespec_carry.induct)
  case (1 ts)
  {
    case 1
    then show ?case by (subst timespec_carry.simps) (simp add: nanoseconds_def "1.IH"(1) [simplified nanoseconds_def])
  next
    case 2
    then show ?case using "1.IH"(2) by (subst timespec_carry.simps) (auto simp: normal_time_def)
  }
qed

lemma timespec_sub_nanoseconds:
  assumes "normal_time ts" and "normal_time s"
  shows "nanoseconds (timespec_sub ts s) = nanoseconds ts - nanoseconds s" and "normal_time (timespec_sub ts s)"
  using assms timespec_carry_nanoseconds [of "ts\<lparr>tv_nsec := tv_nsec ts - tv_nsec s, tv_sec := tv_sec ts - tv_sec s\<rparr>"]
  by (auto simp: timespec_sub_def nanoseconds_def normal_time_def)

lemma to_milliseconds: "normal_time ts \<Longrightarrow> tv_nsec ts div 1000000 + 1000 * tv_sec ts = nanoseconds ts div 1000000"
  by (simp add: nanoseconds_def)

text \<open>A round of waiting with sane times, shorter than twelve days, and its length in nanoseconds.\<close>

definition elapsed :: "wait_round \<Rightarrow> int" where
  "elapsed r = nanoseconds (wr_end r) - nanoseconds (wr_start r)"

definition round_ok :: "wait_round \<Rightarrow> bool" where
  "round_ok r \<longleftrightarrow> normal_time (wr_start r) \<and> normal_time (wr_end r) \<and> 0 \<le> elapsed r \<and> elapsed r < 2 ^ 30 * 1000000"

lemma sint_u64_u32:
  assumes "- (2 ^ 31) \<le> x" and "x < 2 ^ 31"
  shows "sint (word_of_int (uint (word_of_int x :: u64)) :: 32 word) = x"
proof -
  have "(word_of_int (uint (word_of_int x :: u64)) :: 32 word) = word_of_int x"
    by (rule bit_word_eqI) (auto simp: bit_simps)
  then show ?thesis using assms by (simp add: signed_of_int signed_take_bit_int_eq_self)
qed

text \<open>The milliseconds that are left, rounded down: negative when the thread runs too late after it was woken.\<close>

lemma wait_remaining:
  assumes "wr_result r = 0" and "round_ok r" and "uint timeout < 2 ^ 30"
  shows "ll_wait_event_interruptible_timeout timeout r = uint timeout + (- elapsed r) div 1000000"
proof -
  let ?then = "timespec_add_milliseconds (wr_start r) timeout"
  have n: "normal_time (wr_start r)" "normal_time (wr_end r)" using assms(2) by (auto simp: round_ok_def)
  note a = timespec_add_nanoseconds [OF n(1), of timeout]
  have "nanoseconds (timespec_sub ?then (wr_end r)) div 1000000 = (- elapsed r + uint timeout * 1000000) div 1000000"
    using timespec_sub_nanoseconds(1) [OF a(2) n(2)] a(1) by (simp add: elapsed_def algebra_simps)
  then have d: "nanoseconds (timespec_sub ?then (wr_end r)) div 1000000 = uint timeout + (- elapsed r) div 1000000" by simp
  have b: "- (2 ^ 31) \<le> uint timeout + (- elapsed r) div 1000000" "uint timeout + (- elapsed r) div 1000000 < 2 ^ 31"
    using assms(2,3) zdiv_mono1 [of "- 1073741824000000" "- elapsed r" 1000000] add_increasing [of "uint timeout" "- (2 ^ 31)" "(- elapsed r) div 1000000"]
    by (auto simp: round_ok_def)
  have "sint (word_of_int (uint (timespec_to_milliseconds (timespec_sub ?then (wr_end r)))) :: 32 word) = uint timeout + (- elapsed r) div 1000000"
    unfolding timespec_to_milliseconds_def to_milliseconds [OF timespec_sub_nanoseconds(2) [OF a(2) n(2)]] d by (rule sint_u64_u32 [OF b])
  then show ?thesis using assms(1) by (simp add: ll_wait_event_interruptible_timeout_def jiffies_to_milliseconds_def)
qed

text \<open>C39. What waiting for a condition returns, round by round, for timeouts and rounds below \<open>2 ^ 30\<close> milliseconds. After a wake-up, with \<open>left\<close> the
  milliseconds that are left, rounded down: when the condition holds the macro returns \<open>left\<close>, or 1 when that is 0 (\<open>left\<close> is negative when the thread
  runs again only after the timeout); when it does not hold the macro returns 0 if \<open>left\<close> is 0, and otherwise waits for the whole timeout again. After the
  timeout it returns 1 or 0 as the condition says. After any other result of the wait, an interruption, it returns a negative number, \<open>- ERESTART\<close> or the
  negated result, only when the condition holds; when it does not, the macro waits for the whole timeout again (the comment in the header instead
  promises to return \<open>- ERESTARTSYS\<close>).\<close>

theorem wait_event_result:
  assumes "round_ok r" and "uint timeout < 2 ^ 30" and "left = (uint timeout * 1000000 - elapsed r) div 1000000"
  shows "wait_event_interruptible_timeout timeout (r # rs) =
     (if wr_result r = 0 then
        (if wr_condition r then Some (if left = 0 then 1 else left)
         else if left = 0 then Some 0 else wait_event_interruptible_timeout timeout rs)
      else if wr_result r = ETIMEDOUT then Some (of_bool (wr_condition r))
      else if wr_condition r then Some (if wr_result r < 0 then - ERESTART else - wr_result r)
      else wait_event_interruptible_timeout timeout rs)"
proof -
  have q: "left = uint timeout + (- elapsed r) div 1000000" using assms(3) by (simp add: algebra_simps)
  have "wr_result r \<noteq> 0 \<Longrightarrow> ll_wait_event_interruptible_timeout timeout r =
      (if wr_result r = ETIMEDOUT then 0 else if wr_result r < 0 then - ERESTART else - wr_result r)"
    by (simp add: ll_wait_event_interruptible_timeout_def Let_def)
  then show ?thesis
    using wait_remaining [OF _ assms(1,2), folded q] by (auto simp: ll_wait_cond_timeout_def ERESTART_def Let_def)
qed

definition demo_round :: "int \<Rightarrow> bool \<Rightarrow> wait_round" where
  "demo_round ret c = \<lparr>wr_start = \<lparr>tv_sec = 7, tv_nsec = 999000000\<rparr>, wr_result = ret, wr_end = \<lparr>tv_sec = 8, tv_nsec = 500000\<rparr>, wr_condition = c\<rparr>"

theorem wait_event_result_witness:
  "wait_event_interruptible_timeout 2000 [demo_round 0 False, demo_round (- 1) False, demo_round 0 True] = Some 1998 \<and>
   wait_event_interruptible_timeout 2 [demo_round 0 False] = Some 0"
proof -
  have r: "round_ok (demo_round n c)" "elapsed (demo_round n c) = 1500000" for n c
    by (simp_all add: round_ok_def normal_time_def elapsed_def nanoseconds_def demo_round_def)
  have l: "1998 = (uint (2000 :: u64) * 1000000 - elapsed (demo_round n c)) div 1000000"
    "0 = (uint (2 :: u64) * 1000000 - elapsed (demo_round n c)) div 1000000" for n c by (simp_all add: r(2))
  show ?thesis
    using wait_event_result [OF r(1) _ l(1)] wait_event_result [OF r(1) _ l(2)] by (simp add: demo_round_def ETIMEDOUT_def)
qed

text \<open>So a condition that stays false while the queue is woken or interrupted keeps the caller waiting, however often the timeout has passed.\<close>

lemma wait_never_times_out:
  assumes "\<forall>r \<in> set rs. round_ok r \<and> \<not> wr_condition r \<and> wr_result r = 0 \<and> elapsed r + 1000000 \<le> uint timeout * 1000000" and "uint timeout < 2 ^ 30"
  shows "wait_event_interruptible_timeout timeout rs = None"
  using assms(1)
proof (induction rs)
  case (Cons r rs)
  have "elapsed r + 1000000 \<le> uint timeout * 1000000" using Cons.prems by simp
  then have "1 \<le> (uint timeout * 1000000 - elapsed r) div 1000000" by simp
  then have "ll_wait_event_interruptible_timeout timeout r > 0"
    using wait_remaining [OF _ _ assms(2), of r] Cons.prems by (simp add: algebra_simps)
  then show ?case using Cons by (simp add: ll_wait_cond_timeout_def)
qed simp

end
