(* ===== verification/Uart_Chardev.thy ===== *)
theory Uart_Chardev
  imports Rtuart_Interface
begin

text \<open>
  The character device for a UART of the buffered interface (\<^verbatim>\<open>src/src/cuse-drivers/cuse/rtuart_dev.c\<close>): the callbacks of the driver become
  events in a linked queue that is read from the device; writes start a transmission, ioctls call the driver.

  The queue lives in a store of entries. \<open>alloc\<close> is the allocation: the address of free memory, or \<^term>\<open>0\<close> when there is none. The calls
  of the FUSE library are the replies; \<open>sp\<close> is the address of the local buffer of \<open>cusetest_write\<close>, which is gone when it returns.
\<close>

section \<open>Events\<close>

datatype rtuart_what = RTUART_WHAT_CALLBACK_TX_START | RTUART_WHAT_CALLBACK_TX_END1 | RTUART_WHAT_CALLBACK_TX_END2 |
  RTUART_WHAT_CALLBACK_INPUT_CHANGE | RTUART_WHAT_CALLBACK_RX_ERR | RTUART_WHAT_CALLBACK_RX_CHAR | RTUART_WHAT_CALLBACK_RX_END | RTUART_WHAT_CALLBACK_RX_TIMEOUT | RTUART_WHAT_CALLBACK_RX_TRIGGER

text \<open>The union of the event; after \<open>memset\<close> it is zero.\<close>

datatype rtuart_event_data = EvZero | EvRxErr u32 | EvInputChange u32 u32 | EvRxTrigger u32

record rtuart_read_event =
  ev_what :: rtuart_what
  ev_data :: rtuart_event_data

record rtuart_read_event_entry =
  ee_next :: addr
  ee_e :: rtuart_read_event

record uart_dev =
  event_head :: addr
  event_tail :: addr
  event_store :: "addr \<rightharpoonup> rtuart_read_event_entry"

definition entry_next :: "addr \<Rightarrow> addr \<Rightarrow> uart_dev \<Rightarrow> uart_dev option" where
  "entry_next a n d = do {
     x \<leftarrow> event_store d a;
     Some (d\<lparr>event_store := (event_store d)(a \<mapsto> x\<lparr>ee_next := n\<rparr>)\<rparr>) }"

definition add_event :: "addr \<Rightarrow> uart_dev \<Rightarrow> uart_dev option" where
  "add_event e d = do {
     d \<leftarrow> entry_next e 0 d;
     d \<leftarrow> (if event_tail d \<noteq> 0 then entry_next (event_tail d) e d else Some d);
     let d = d\<lparr>event_tail := e\<rparr>;
     Some (if event_head d = 0 then d\<lparr>event_head := e\<rparr> else d) }"

definition get_event :: "uart_dev \<Rightarrow> (addr \<times> uart_dev) option" where
  "get_event d = (
     if event_head d \<noteq> 0 then do {
       let e = event_head d;
       x \<leftarrow> event_store d e;
       let d = d\<lparr>event_head := ee_next x\<rparr>;
       Some (e, if event_head d = 0 then d\<lparr>event_tail := 0\<rparr> else d) }
     else Some (0, d))"

definition alloc_event :: "(uart_dev \<Rightarrow> addr) \<Rightarrow> uart_dev \<Rightarrow> addr \<times> uart_dev" where
  "alloc_event alloc d = (
     let e = alloc d
     in if e \<noteq> 0 then (e, d\<lparr>event_store := (event_store d)(e \<mapsto> \<lparr>ee_next = 0, ee_e = \<lparr>ev_what = RTUART_WHAT_CALLBACK_TX_START, ev_data = EvZero\<rparr>\<rparr>)\<rparr>) else (0, d))"

text \<open>What all callbacks do, with the event that they fill in.\<close>

definition dev_event :: "(uart_dev \<Rightarrow> addr) \<Rightarrow> rtuart_read_event \<Rightarrow> uart_dev \<Rightarrow> uart_dev option" where
  "dev_event alloc ev d = (case alloc_event alloc d of (e, d) \<Rightarrow>
     if e \<noteq> 0 then do {
       x \<leftarrow> event_store d e;
       add_event e (d\<lparr>event_store := (event_store d)(e \<mapsto> x\<lparr>ee_e := ev\<rparr>)\<rparr>) }
     else Some d)"

definition on_dev :: "(uart_dev \<Rightarrow> uart_dev option) \<Rightarrow> ('b, uart_dev, 'm) rtuart_scheme \<Rightarrow> ('b, uart_dev, 'm) rtuart_scheme option" where
  "on_dev f s = map_option (\<lambda>d. s\<lparr>r_client := d\<rparr>) (f (r_client s))"

definition rtuart_dev_tx_start :: "(uart_dev \<Rightarrow> addr) \<Rightarrow> addr \<Rightarrow> ('b, uart_dev, 'm) rtuart_scheme \<Rightarrow> ('b, uart_dev, 'm) rtuart_scheme option" where
  "rtuart_dev_tx_start alloc buffer = on_dev (dev_event alloc \<lparr>ev_what = RTUART_WHAT_CALLBACK_TX_START, ev_data = EvZero\<rparr>)"

definition rtuart_dev_tx_end1 :: "(uart_dev \<Rightarrow> addr) \<Rightarrow> addr \<Rightarrow> ('b, uart_dev, 'm) rtuart_scheme \<Rightarrow> ('b, uart_dev, 'm) rtuart_scheme option" where
  "rtuart_dev_tx_end1 alloc buffer = on_dev (dev_event alloc \<lparr>ev_what = RTUART_WHAT_CALLBACK_TX_END1, ev_data = EvZero\<rparr>)"

definition rtuart_dev_tx_end2 :: "(uart_dev \<Rightarrow> addr) \<Rightarrow> addr \<Rightarrow> ('b, uart_dev, 'm) rtuart_scheme \<Rightarrow> ('b, uart_dev, 'm) rtuart_scheme option" where
  "rtuart_dev_tx_end2 alloc buffer = on_dev (dev_event alloc \<lparr>ev_what = RTUART_WHAT_CALLBACK_TX_END2, ev_data = EvZero\<rparr>)"

definition rtuart_dev_input_change :: "(uart_dev \<Rightarrow> addr) \<Rightarrow> u32 \<Rightarrow> u32 \<Rightarrow> ('b, uart_dev, 'm) rtuart_scheme \<Rightarrow> ('b, uart_dev, 'm) rtuart_scheme option" where
  "rtuart_dev_input_change alloc eventmask vals = on_dev (dev_event alloc \<lparr>ev_what = RTUART_WHAT_CALLBACK_INPUT_CHANGE, ev_data = EvInputChange eventmask vals\<rparr>)"

definition rtuart_dev_rx_err :: "(uart_dev \<Rightarrow> addr) \<Rightarrow> u32 \<Rightarrow> ('b, uart_dev, 'm) rtuart_scheme \<Rightarrow> ('b, uart_dev, 'm) rtuart_scheme option" where
  "rtuart_dev_rx_err alloc errmask = on_dev (dev_event alloc \<lparr>ev_what = RTUART_WHAT_CALLBACK_RX_ERR, ev_data = EvRxErr errmask\<rparr>)"

text \<open>The octet is not put into the event.\<close>

definition rtuart_dev_rx_char :: "(uart_dev \<Rightarrow> addr) \<Rightarrow> u16 \<Rightarrow> ('b, uart_dev, 'm) rtuart_scheme \<Rightarrow> ('b, uart_dev, 'm) rtuart_scheme option" where
  "rtuart_dev_rx_char alloc c = on_dev (dev_event alloc \<lparr>ev_what = RTUART_WHAT_CALLBACK_RX_CHAR, ev_data = EvZero\<rparr>)"

definition rtuart_dev_rx_end :: "(uart_dev \<Rightarrow> addr) \<Rightarrow> addr \<Rightarrow> ('b, uart_dev, 'm) rtuart_scheme \<Rightarrow> ('b, uart_dev, 'm) rtuart_scheme option" where
  "rtuart_dev_rx_end alloc buffer = on_dev (dev_event alloc \<lparr>ev_what = RTUART_WHAT_CALLBACK_RX_END, ev_data = EvZero\<rparr>)"

definition rtuart_dev_rx_timeout :: "(uart_dev \<Rightarrow> addr) \<Rightarrow> addr \<Rightarrow> ('b, uart_dev, 'm) rtuart_scheme \<Rightarrow> ('b, uart_dev, 'm) rtuart_scheme option" where
  "rtuart_dev_rx_timeout alloc buffer = on_dev (dev_event alloc \<lparr>ev_what = RTUART_WHAT_CALLBACK_RX_TIMEOUT, ev_data = EvZero\<rparr>)"

definition rtuart_dev_rx_trigger :: "(uart_dev \<Rightarrow> addr) \<Rightarrow> addr \<Rightarrow> u32 \<Rightarrow> ('b, uart_dev, 'm) rtuart_scheme \<Rightarrow> ('b, uart_dev, 'm) rtuart_scheme option" where
  "rtuart_dev_rx_trigger alloc buffer triggermask = on_dev (dev_event alloc \<lparr>ev_what = RTUART_WHAT_CALLBACK_RX_TRIGGER, ev_data = EvRxTrigger triggermask\<rparr>)"

definition rtuart_dev_callbacks :: "(uart_dev \<Rightarrow> addr) \<Rightarrow> ('b, uart_dev, 'm) rtuart_scheme rtuart_callbacks" where
  "rtuart_dev_callbacks alloc =
     \<lparr>cb_tx_start = Some (rtuart_dev_tx_start alloc), cb_tx_end1 = Some (rtuart_dev_tx_end1 alloc), cb_tx_end2 = Some (rtuart_dev_tx_end2 alloc),
      cb_input_change = Some (rtuart_dev_input_change alloc), cb_rx_err = Some (rtuart_dev_rx_err alloc), cb_rx_char = Some (rtuart_dev_rx_char alloc),
      cb_rx_end = Some (rtuart_dev_rx_end alloc), cb_rx_timeout = Some (rtuart_dev_rx_timeout alloc), cb_rx_trigger = Some (rtuart_dev_rx_trigger alloc)\<rparr>"

section \<open>File operations\<close>

datatype fuse_reply = ReplyOpen | ReplyBuf "rtuart_read_event option" | ReplyWrite nat | RetryIn | RetryOut | ReplyIoctl "u32 option"

datatype rtuart_ioctl =
  RTUART_IOCTL_S_FMT | RTUART_IOCTL_G_FMT | RTUART_IOCTL_S_BAUDRATE | RTUART_IOCTL_G_BAUDRATE | RTUART_IOCTL_S_CONTROL | RTUART_IOCTL_C_CONTROL | RTUART_IOCTL_G_CONTROL |
  RTUART_IOCTL_S_NOTIFY | RTUART_IOCTL_C_NOTIFY | RTUART_IOCTL_G_NOTIFY | RTUART_IOCTL_TX_ENABLE | RTUART_IOCTL_RX_ENABLE

definition cusetest_open :: "'s \<Rightarrow> fuse_reply \<times> 's" where
  "cusetest_open s = (ReplyOpen, s)"

text \<open>The event is given as a whole, whatever the size that the reader asks for.\<close>

definition cusetest_read :: "nat \<Rightarrow> uart_dev \<Rightarrow> (fuse_reply \<times> uart_dev) option" where
  "cusetest_read size' d = do {
     (e, d) \<leftarrow> get_event d;
     if e \<noteq> 0 then do {
       x \<leftarrow> event_store d e;
       Some (ReplyBuf (Some (ee_e x)), d\<lparr>event_store := (event_store d)(e := None)\<rparr>) }
     else Some (ReplyBuf None, d) }"

definition write_buffer :: "u8 list \<Rightarrow> rtuart_buffer" where
  "write_buffer buf = \<lparr>rb_data = Some buf, rb_size = 0, rb_validcount = length buf, rb_transfered = 0, rb_triggermask = 1 OR 2,
     rb_trigger = (replicate RTUART_MAX_TRIGGERS 0)[0 := 2, 1 := 12]\<rparr>"

definition cusetest_write ::
  "('b, uart_dev, 'm) rtuart_scheme rtuart_ops \<Rightarrow> addr \<Rightarrow> u8 list \<Rightarrow> ('b, uart_dev, 'm) rtuart_scheme \<Rightarrow> (fuse_reply \<times> ('b, uart_dev, 'm) rtuart_scheme) option" where
  "cusetest_write ops sp buf s = do {
     s \<leftarrow> rtuart_tx_start ops sp (put_buffer sp (write_buffer buf) s);
     Some (ReplyWrite (length buf), s\<lparr>r_buffers := (r_buffers s)(sp := None)\<rparr>) }"

text \<open>\<open>in_buf\<close> is the argument, unless no input was given; \<open>out\<close> is whether there is room for the result. A command that is not known gets no reply.
  The \<open>unsigned long\<close> of the source is 32 bits wide, as on the controllers the drivers are for.\<close>

definition ioctl_set :: "('b, uart_dev, 'm) rtuart_scheme rtuart_ops \<Rightarrow> rtuart_ioctl \<Rightarrow> u32 \<Rightarrow> ('b, uart_dev, 'm) rtuart_scheme \<Rightarrow> ('b, uart_dev, 'm) rtuart_scheme option" where
  "ioctl_set ops cmd val s = (case cmd of
     RTUART_IOCTL_S_FMT \<Rightarrow> rtuart_set_format ops (uint (ucast (drop_bit 16 val) :: u8)) (char_of (unat (ucast (drop_bit 8 val) :: u8))) (uint (ucast val :: u8)) s
   | RTUART_IOCTL_S_BAUDRATE \<Rightarrow> rtuart_set_baudrate ops val s
   | RTUART_IOCTL_S_CONTROL \<Rightarrow> rtuart_set_control ops val s
   | RTUART_IOCTL_C_CONTROL \<Rightarrow> rtuart_clr_control ops val s
   | RTUART_IOCTL_S_NOTIFY \<Rightarrow> rtuart_set_notify ops val s
   | RTUART_IOCTL_C_NOTIFY \<Rightarrow> rtuart_clr_notify ops val s
   | _ \<Rightarrow> Some s)"

definition ioctl_get :: "('b, uart_dev, 'm) rtuart_scheme rtuart_ops \<Rightarrow> rtuart_ioctl \<Rightarrow> ('b, uart_dev, 'm) rtuart_scheme \<Rightarrow> (u32 \<times> ('b, uart_dev, 'm) rtuart_scheme) option" where
  "ioctl_get ops cmd s = (case cmd of
     RTUART_IOCTL_G_BAUDRATE \<Rightarrow> rtuart_get_baudrate ops 0 s
   | RTUART_IOCTL_G_CONTROL \<Rightarrow> rtuart_get_control ops 0 s
   | RTUART_IOCTL_G_NOTIFY \<Rightarrow> Some (rtuart_get_notify ops 0 s, s)
   | _ \<Rightarrow> Some (0, s))"

definition cusetest_ioctl ::
  "('b, uart_dev, 'm) rtuart_scheme rtuart_ops \<Rightarrow> rtuart_ioctl \<Rightarrow> u32 option \<Rightarrow> bool \<Rightarrow> ('b, uart_dev, 'm) rtuart_scheme \<Rightarrow> (fuse_reply option \<times> ('b, uart_dev, 'm) rtuart_scheme) option" where
  "cusetest_ioctl ops cmd in_buf out s = (
     if cmd \<in> {RTUART_IOCTL_S_FMT, RTUART_IOCTL_S_BAUDRATE, RTUART_IOCTL_S_CONTROL, RTUART_IOCTL_C_CONTROL, RTUART_IOCTL_S_NOTIFY, RTUART_IOCTL_C_NOTIFY} then
       (case in_buf of
          None \<Rightarrow> Some (Some RetryIn, s)
        | Some val \<Rightarrow> map_option (\<lambda>s. (Some (ReplyIoctl None), s)) (ioctl_set ops cmd val s))
     else if cmd \<in> {RTUART_IOCTL_G_FMT, RTUART_IOCTL_G_BAUDRATE, RTUART_IOCTL_G_CONTROL, RTUART_IOCTL_G_NOTIFY} then
       (if \<not> out then Some (Some RetryOut, s)
        else map_option (\<lambda>(val, s). (Some (ReplyIoctl (Some val)), s)) (ioctl_get ops cmd s))
     else Some (None, s))"

section \<open>The queue of events\<close>

text \<open>\<open>events d as es\<close>: the entries at the addresses \<open>as\<close> are linked in this order and hold the events \<open>es\<close>.\<close>

fun entries :: "(addr \<rightharpoonup> rtuart_read_event_entry) \<Rightarrow> addr \<Rightarrow> addr list \<Rightarrow> rtuart_read_event list \<Rightarrow> bool" where
  "entries m p [] es = (p = 0 \<and> es = [])"
| "entries m p (a # as) es = (p = a \<and> a \<noteq> 0 \<and> (\<exists>n e es'. m a = Some \<lparr>ee_next = n, ee_e = e\<rparr> \<and> es = e # es' \<and> entries m n as es'))"

definition event_queue :: "uart_dev \<Rightarrow> rtuart_read_event list \<Rightarrow> bool" where
  "event_queue d es \<longleftrightarrow> (\<exists>as. entries (event_store d) (event_head d) as es \<and> distinct as \<and> dom (event_store d) = set as \<and>
     event_tail d = (if as = [] then 0 else last as))"

lemma entries_cong: "(\<And>a. a \<in> set as \<Longrightarrow> m' a = m a) \<Longrightarrow> entries m' p as es = entries m p as es"
  by (induction as arbitrary: p es) auto

lemma entries_upd [simp]: "a \<notin> set as \<Longrightarrow> entries (m(a := x)) p as es = entries m p as es"
  by (rule entries_cong) auto

lemma entries_not_null: "entries m p as es \<Longrightarrow> 0 \<notin> set as \<and> (p = 0 \<longleftrightarrow> as = []) \<and> (as = [] \<longleftrightarrow> es = [])"
  by (induction as arbitrary: p es) auto

lemma entries_append:
  assumes "entries m p as es" and "distinct as" and "e \<notin> set as" and "e \<noteq> 0" and "as \<noteq> []" and "m (last as) = Some x"
    and "m e = Some \<lparr>ee_next = 0, ee_e = ev\<rparr>"
  shows "entries (m(last as \<mapsto> x\<lparr>ee_next := e\<rparr>)) p (as @ [e]) (es @ [ev])"
  using assms
proof (induction as arbitrary: p es)
  case (Cons a as)
  then show ?case by (cases "as = []") (auto dest: last_in_set)
qed simp

lemma dev_event_queue:
  assumes "event_queue d es" and "alloc d = 0 \<or> alloc d \<notin> dom (event_store d)"
  shows "\<exists>d'. dev_event alloc ev d = Some d' \<and> event_queue d' (if alloc d = 0 then es else es @ [ev])"
proof (cases "alloc d = 0")
  case True
  then show ?thesis using assms(1) by (simp add: dev_event_def alloc_event_def)
next
  case False
  obtain as where as: "entries (event_store d) (event_head d) as es" "distinct as" "dom (event_store d) = set as"
    "event_tail d = (if as = [] then 0 else last as)" using assms(1) by (auto simp: event_queue_def)
  let ?e = "alloc d"
  have e: "?e \<notin> set as" using assms(2) False as(3) by auto
  show ?thesis
  proof (cases "as = []")
    case True
    let ?d = "d\<lparr>event_store := (event_store d)(?e \<mapsto> \<lparr>ee_next = 0, ee_e = ev\<rparr>), event_tail := ?e, event_head := ?e\<rparr>"
    have "dev_event alloc ev d = Some ?d"
      using True False as by (simp add: dev_event_def alloc_event_def add_event_def entry_next_def Let_def)
    moreover have "event_queue ?d (es @ [ev])" using True False as unfolding event_queue_def by (intro exI [of _ "[?e]"]) auto
    ultimately show ?thesis using False by simp
  next
    case nonempty: False
    define m where "m = (event_store d)(?e \<mapsto> \<lparr>ee_next = 0, ee_e = ev\<rparr>)"
    have l: "last as \<in> set as" "last as \<noteq> 0" "last as \<noteq> ?e" using nonempty entries_not_null [OF as(1)] e last_in_set [of as] by metis+
    then obtain x where x: "m (last as) = Some x" using as(3) by (auto simp: m_def)
    have h: "event_head d \<noteq> 0" using entries_not_null [OF as(1)] nonempty by simp
    let ?d = "d\<lparr>event_store := m(last as \<mapsto> x\<lparr>ee_next := ?e\<rparr>), event_tail := ?e\<rparr>"
    have "dev_event alloc ev d = Some ?d"
      using False nonempty l x h as(4) by (simp add: dev_event_def alloc_event_def add_event_def entry_next_def m_def Let_def)
    moreover have "entries (m(last as \<mapsto> x\<lparr>ee_next := ?e\<rparr>)) (event_head d) (as @ [?e]) (es @ [ev])"
      by (rule entries_append [where m = m, OF _ as(2) e False nonempty x]) (use as(1) e in \<open>simp_all add: m_def\<close>)
    moreover have "dom (m(last as \<mapsto> x\<lparr>ee_next := ?e\<rparr>)) = set (as @ [?e])" using as(3) l by (auto simp: m_def)
    ultimately show ?thesis using as(2) e False by (auto simp: event_queue_def intro!: exI [of _ "as @ [?e]"])
  qed
qed

lemma read_queue:
  assumes "event_queue d es"
  shows "\<exists>d'. cusetest_read n d = Some (ReplyBuf (case es of [] \<Rightarrow> None | e # _ \<Rightarrow> Some e), d') \<and> event_queue d' (tl es)"
proof -
  obtain as where as: "entries (event_store d) (event_head d) as es" "distinct as" "dom (event_store d) = set as"
    "event_tail d = (if as = [] then 0 else last as)" using assms by (auto simp: event_queue_def)
  show ?thesis
  proof (cases as)
    case Nil
    then show ?thesis using as assms by (auto simp: cusetest_read_def get_event_def)
  next
    case (Cons a bs)
    obtain n' e es' where e: "event_store d a = Some \<lparr>ee_next = n', ee_e = e\<rparr>" "es = e # es'" "entries (event_store d) n' bs es'" "event_head d = a" "a \<noteq> 0"
      using as(1) Cons by auto
    have n: "n' = 0 \<longleftrightarrow> bs = []" using entries_not_null [OF e(3)] by simp
    let ?d = "d\<lparr>event_head := n', event_tail := (if n' = 0 then 0 else event_tail d), event_store := (event_store d)(a := None)\<rparr>"
    have "cusetest_read n d = Some (ReplyBuf (Some e), ?d)" using e by (auto simp: cusetest_read_def get_event_def)
    moreover have "event_queue ?d es'"
      using e(3) as Cons n by (auto simp: event_queue_def intro!: exI [of _ bs])
    ultimately show ?thesis using e(2) by auto
  qed
qed

text \<open>The calls that a driver makes, what they report, and the calls over the table of callbacks.\<close>

datatype uart_call = CallTxStart addr | CallTxEnd1 addr | CallTxEnd2 addr | CallInputChange u32 u32 | CallRxErr u32 | CallRxChar u16 |
  CallRxEnd addr | CallRxTimeout addr | CallRxTrigger addr u32

fun call_event :: "uart_call \<Rightarrow> rtuart_read_event" where
  "call_event (CallTxStart a) = \<lparr>ev_what = RTUART_WHAT_CALLBACK_TX_START, ev_data = EvZero\<rparr>"
| "call_event (CallTxEnd1 a) = \<lparr>ev_what = RTUART_WHAT_CALLBACK_TX_END1, ev_data = EvZero\<rparr>"
| "call_event (CallTxEnd2 a) = \<lparr>ev_what = RTUART_WHAT_CALLBACK_TX_END2, ev_data = EvZero\<rparr>"
| "call_event (CallInputChange m v) = \<lparr>ev_what = RTUART_WHAT_CALLBACK_INPUT_CHANGE, ev_data = EvInputChange m v\<rparr>"
| "call_event (CallRxErr m) = \<lparr>ev_what = RTUART_WHAT_CALLBACK_RX_ERR, ev_data = EvRxErr m\<rparr>"
| "call_event (CallRxChar c) = \<lparr>ev_what = RTUART_WHAT_CALLBACK_RX_CHAR, ev_data = EvZero\<rparr>"
| "call_event (CallRxEnd a) = \<lparr>ev_what = RTUART_WHAT_CALLBACK_RX_END, ev_data = EvZero\<rparr>"
| "call_event (CallRxTimeout a) = \<lparr>ev_what = RTUART_WHAT_CALLBACK_RX_TIMEOUT, ev_data = EvZero\<rparr>"
| "call_event (CallRxTrigger a m) = \<lparr>ev_what = RTUART_WHAT_CALLBACK_RX_TRIGGER, ev_data = EvRxTrigger m\<rparr>"

fun call_back :: "'r rtuart_callbacks \<Rightarrow> uart_call \<Rightarrow> 'r \<Rightarrow> 'r option" where
  "call_back cb (CallTxStart a) s = rtuart_call_tx_start (Some cb) a s"
| "call_back cb (CallTxEnd1 a) s = rtuart_call_tx_end1 (Some cb) a s"
| "call_back cb (CallTxEnd2 a) s = rtuart_call_tx_end2 (Some cb) a s"
| "call_back cb (CallInputChange m v) s = rtuart_call_input_change (Some cb) m v s"
| "call_back cb (CallRxErr m) s = (case cb_rx_err cb of Some f \<Rightarrow> f m s | None \<Rightarrow> Some s)"
| "call_back cb (CallRxChar c) s = rtuart_call_rx_char (Some cb) c s"
| "call_back cb (CallRxEnd a) s = rtuart_call_rx_end (Some cb) a s"
| "call_back cb (CallRxTimeout a) s = rtuart_call_rx_timeout (Some cb) a s"
| "call_back cb (CallRxTrigger a m) s = rtuart_call_rx_trigger (Some cb) a m s"

lemmas chardev_call_defs = rtuart_dev_callbacks_def rtuart_call_tx_start_def rtuart_call_tx_end1_def rtuart_call_tx_end2_def rtuart_call_rx_end_def
  rtuart_call_rx_timeout_def rtuart_call_rx_char_def rtuart_call_rx_trigger_def rtuart_call_input_change_def rtuart_dev_tx_start_def
  rtuart_dev_tx_end1_def rtuart_dev_tx_end2_def rtuart_dev_rx_end_def rtuart_dev_rx_timeout_def rtuart_dev_rx_char_def rtuart_dev_rx_trigger_def
  rtuart_dev_input_change_def rtuart_dev_rx_err_def

lemma call_back_event: "call_back (rtuart_dev_callbacks alloc) c s = on_dev (dev_event alloc (call_event c)) s"
  by (cases c) (simp_all add: chardev_call_defs)

text \<open>C29. What the driver's callbacks report is read from the device in its order: a callback appends its event, with its kind and masks, to the queue, or drops
  it when there is no memory; a read takes the first event and gives its memory back; an empty queue is an empty read.\<close>

theorem chardev_events_in_order:
  assumes "event_queue (r_client s) es" and "alloc (r_client s) = 0 \<or> alloc (r_client s) \<notin> dom (event_store (r_client s))"
  shows "(\<exists>d'. call_back (rtuart_dev_callbacks alloc) c s = Some (s\<lparr>r_client := d'\<rparr>) \<and>
        event_queue d' (if alloc (r_client s) = 0 then es else es @ [call_event c])) \<and>
     (\<exists>d'. cusetest_read n (r_client s) = Some (ReplyBuf (case es of [] \<Rightarrow> None | e # _ \<Rightarrow> Some e), d') \<and> event_queue d' (tl es))"
  using dev_event_queue [where alloc = alloc and ev = "call_event c", OF assms] read_queue [OF assms(1), of n]
  by (auto simp: call_back_event on_dev_def)

definition demo_uart :: "(unit, uart_dev) rtuart" where
  "demo_uart = \<lparr>r_bus = (), r_notify_mask = 0, r_base_clock = 0, r_tx_buffer = 0, r_rx_buffer = 0, r_in_irq = False, r_buffers = Map.empty,
     r_client = \<lparr>event_head = 0, event_tail = 0, event_store = Map.empty\<rparr>\<rparr>"

theorem chardev_events_in_order_witness:
  "\<exists>d' d''. call_back (rtuart_dev_callbacks (\<lambda>d. 7)) (CallRxErr 3) demo_uart = Some (demo_uart\<lparr>r_client := d'\<rparr>) \<and>
     cusetest_read 64 d' = Some (ReplyBuf (Some \<lparr>ev_what = RTUART_WHAT_CALLBACK_RX_ERR, ev_data = EvRxErr 3\<rparr>), d'') \<and> event_queue d'' []"
proof -
  have q: "event_queue (r_client demo_uart) []" by (simp add: event_queue_def demo_uart_def)
  obtain d' where d': "call_back (rtuart_dev_callbacks (\<lambda>d. 7)) (CallRxErr 3) demo_uart = Some (demo_uart\<lparr>r_client := d'\<rparr>)"
    "event_queue d' [call_event (CallRxErr 3)]"
    using chardev_events_in_order [OF q, of "\<lambda>d. 7" "CallRxErr 3"] by (auto simp: demo_uart_def)
  show ?thesis using d' chardev_events_in_order [of "demo_uart\<lparr>r_client := d'\<rparr>" "[call_event (CallRxErr 3)]" "\<lambda>d. 0" _ 64] by auto
qed

section \<open>A write leaves a pointer to its local buffer\<close>

text \<open>A write to the device replies success, but the driver keeps the address of a buffer on the stack that is gone: on the 16550 the next transmitter interrupt
  accesses it.\<close>

theorem chardev_write_dangles:
  fixes s :: "(dummy_bus, uart_dev) rtuart_16550"
  assumes "ok_16550 s" and "r_tx_buffer s = 0" and "sp \<noteq> 0"
  shows "\<exists>s'. cusetest_write (rtuart_pc16c550_ops (Some (rtuart_dev_callbacks alloc)) dummy_read_u8 dummy_write_u8 0) sp buf s = Some (ReplyWrite (length buf), s') \<and>
     r_tx_buffer s' = sp \<and> get_buffer sp s' = None \<and> rt_thre_loop (Some (rtuart_dev_callbacks alloc)) dummy_write_u8 16 s' = None"
proof -
  let ?s = "(put_buffer sp (write_buffer buf) s)\<lparr>r_tx_buffer := sp\<rparr>"
  have "ok_16550 ?s" using assms(1) by (simp add: ok_16550_def put_buffer_def)
  then obtain s1 where s1: "rt_set_notify dummy_write_u8 RTUART_NOTIFY_TRANSMITTER_READY ?s = Some s1" "uart_kept ?s s1"
    using change_notify_16550 [of ?s] by (auto simp: rt_set_notify_def)
  let ?s' = "s1\<lparr>r_buffers := (r_buffers s1)(sp := None)\<rparr>"
  have "rt_tx_start dummy_write_u8 sp (put_buffer sp (write_buffer buf) s) = Some s1"
    using assms(2,3) s1(1) by (simp add: rt_tx_start_def put_buffer_def get_buffer_def write_buffer_def)
  then have "cusetest_write (rtuart_pc16c550_ops (Some (rtuart_dev_callbacks alloc)) dummy_read_u8 dummy_write_u8 0) sp buf s = Some (ReplyWrite (length buf), ?s')"
    by (simp add: cusetest_write_def rtuart_tx_start_def rtuart_pc16c550_ops_def)
  moreover have "r_tx_buffer ?s' = sp" "get_buffer sp ?s' = None" using s1(2) by (auto simp: uart_kept_def get_buffer_def)
  moreover from this have "rt_thre_loop (Some (rtuart_dev_callbacks alloc)) dummy_write_u8 16 ?s' = None"
    using assms(3) by (subst rt_thre_loop.simps) simp
  ultimately show ?thesis by blast
qed

theorem chardev_write_dangles_witness:
  "\<exists>bus s'. cusetest_write (rtuart_pc16c550_ops (Some (rtuart_dev_callbacks (\<lambda>d. 0))) dummy_read_u8 dummy_write_u8 0) 99 [1, 2]
       \<lparr>r_bus = bus, r_notify_mask = 0, r_base_clock = 0, r_tx_buffer = 0, r_rx_buffer = 0, r_in_irq = False, r_buffers = Map.empty,
        r_client = \<lparr>event_head = 0, event_tail = 0, event_store = Map.empty\<rparr>, r_shadow_fcr = 0\<rparr> = Some (ReplyWrite 2, s') \<and>
     rt_thre_loop (Some (rtuart_dev_callbacks (\<lambda>d. 0))) dummy_write_u8 16 s' = None"
proof -
  obtain bus where b: "dummy_ok bus" "v_lcr (dummy_view bus) = 0" using dummy_bus_create_spec [of "replicate 0x3f 0"] by auto
  let ?s = "\<lparr>r_bus = bus, r_notify_mask = 0, r_base_clock = 0, r_tx_buffer = 0, r_rx_buffer = 0, r_in_irq = False, r_buffers = Map.empty,
        r_client = \<lparr>event_head = 0, event_tail = 0, event_store = Map.empty\<rparr>, r_shadow_fcr = 0\<rparr> :: (dummy_bus, uart_dev) rtuart_16550"
  have "ok_16550 ?s" using b by (simp add: ok_16550_def)
  from chardev_write_dangles [OF this, of 99 "\<lambda>d. 0" "[1, 2]"] show ?thesis by (intro exI [of _ bus]) auto
qed

end
