(* ===== verification/Spec2Isabelle.thy ===== *)
theory Spec2Isabelle
  imports Uart_Port_Irq Dmx512_Dummy Cuse_Llgip Dmx512_Suart Rtuart_16550 Rtuart_Pl011_Regs
    Rtuart_Pl011_Transfer Pl011 Tasklet Dmx_Rtuart_Reception Cuse_Cards Rdm_Shell
  Kernel_List_Sort Waitqueue Uart_Chardev
begin

text \<open>
  Verification of dmx4linux2, drivers for DMX512 and RDM on Linux. All paths are below
  \<^verbatim>\<open>src/src/\<close>.

  \<^bold>\<open>The program.\<close> A DMX512 frame is a start code and up to 512 slots; RDM frames and the discovery
  of RDM devices share the same line. Frames travel in entries that are taken from a pool, wait in
  frame queues and go back to the pool. The kernel side (\<^verbatim>\<open>drivers/dmx512\<close>) has a core with devices and
  ports and a character device per card, and board drivers behind it. The user space side
  (\<^verbatim>\<open>cuse-drivers\<close>) offers the same cards through CUSE. A port can be a plain UART
  (\<^verbatim>\<open>uio-testbench/dmx512/rtuart_dmx512_client.c\<close>): a state machine that is driven by the interrupts of
  a 16550 driver (\<^verbatim>\<open>uio-testbench/uart/pc16c550.c\<close>), which reaches the chip over a bus.

  \<^bold>\<open>Conventions.\<close> Undefined behaviour of C (an access outside an array, a null pointer, a shift out
  of range) and a loop that does not end are \<^term>\<open>None\<close>; error returns are values. Machine integers are
  words of their width where wrap-around or bits matter. Entries are identified by their address, so
  that "no frame is lost or duplicated" is an equation between multisets of addresses. Locks make the
  functions they enclose atomic; concurrency is the order in which operations happen. Output for
  debugging is left out.

  \<^bold>\<open>The theories.\<close>
  \<^item> \<open>Prelude\<close>: integers, arrays with faults, character arrays, shared lemmas.
  \<^item> \<open>Kernel_List\<close> (\<^verbatim>\<open>kernel_emulation/include/linux/list.h\<close>): the doubly linked list on a heap of nodes;
    what each operation does to the sequence of nodes, and that it touches no other list.
  \<^item> \<open>Dmx512_Frame\<close> (\<^verbatim>\<open>include/linux/dmx512/dmx512frame.h\<close>): the frame.
  \<^item> \<open>Framequeue\<close> (\<^verbatim>\<open>drivers/dmx512/core/dmx512framequeue.c\<close>): the queue at pointer level, an abstract
    queue of entries (\<open>fq_put\<close>, \<open>fq_get\<close>), and the refinement between them. The components above use the
    abstract queue.
  \<^item> \<open>Rdm\<close> (\<^verbatim>\<open>rtuart_dmx512_client.c\<close>, first part): recognition of RDM frames, checksums, synthesised
    replies, the encoding of discovery responses and its decoder.
  \<^item> \<open>Rtuart\<close> (\<^verbatim>\<open>uio-testbench/uart/rtuart.h\<close>): notification masks; the locale \<open>notification_mask\<close>.
  \<^item> \<open>Dmx_Uart_Port\<close> (\<^verbatim>\<open>rtuart_dmx512_client.c\<close>, second part): the port with every callback, the timer,
    \<open>send_frame\<close> and creation; its events, the reachable states and the invariant that all of them keep.
    Calls to the UART, the timer and the owner of the frames are entries of a log.
  \<^item> \<open>Dmx_Uart_Transfer\<close>: whole transfers of a port. Sending a frame takes at most 44 transmitter
    interrupts with room for twelve octets each, since 513 octets are sent in chunks of at least twelve.
  \<^item> \<open>Uart_Bus\<close> (\<^verbatim>\<open>uio-testbench/bus/dummy_bus.c\<close>): the locale \<open>uart_registers\<close> of what drivers rely on, and
    the simulated bus that provides it.
  \<^item> \<open>Pc16c550\<close> (\<^verbatim>\<open>uio-testbench/uart/pc16c550.c\<close>): the 16550 driver over any bus and any client.
  \<^item> \<open>Uart_Port_Irq\<close>: the port as client of that driver; the interrupts that call the port back are events of
    the port model, so the invariant of the port holds under the interrupt handler. The notification mask of
    the UART is taken to be 0 when the port is created; \<open>pc16c550_create\<close> leaves it uninitialised.
  \<^item> \<open>Pc16x50\<close> (\<^verbatim>\<open>simulation/uart/pc16cx50.c\<close>): the register level driver of the simulation; its shadow registers under
    any sequence of its operations that does not select the divisor latch directly.
  \<^item> \<open>Streamuart\<close> (\<^verbatim>\<open>simulation/suart/\<close>): the events of a stream UART, the splitter of buffers into events and
    the event fifos; the fifo of a git submodule is a parameter with its documented laws (\<open>kfifo_ok\<close>).
  \<^item> \<open>Suart_Pc16x50\<close> (\<^verbatim>\<open>simulation/dmx512_suart.c\<close>, first part): the thread that runs a stream UART on a 16550.
  \<^item> \<open>Dmx512_Suart\<close> (\<^verbatim>\<open>simulation/dmx512_suart.c\<close>, second part): the DMX512 port on a stream UART; octets on the
    line to frames, and frames to events. The receive handler is one emptying of the event fifo; its loop until it is
    stopped is left out.
  \<^item> \<open>Dmx512_Core\<close> (\<^verbatim>\<open>drivers/dmx512/core/dmx512.c\<close>): devices, ports, pool and file operations; the board
    is the locale \<open>dmx512_driver\<close>.
  \<^item> \<open>Dmx512_Dummy\<close> (\<^verbatim>\<open>drivers/dmx512/boards/dmx512_dummy.c\<close>): the two cross-connected dummy boards, which
    provide that locale; loading the driver, a frame from one card to the other.
  \<^item> \<open>Cuse_Dev\<close> (\<^verbatim>\<open>cuse-drivers/dmx512_cuse_dev.c\<close>): contexts of open files, reads, writes, polls, ioctls,
    distribution of received frames, descriptor watchers; FUSE and the card are parameters.
  \<^item> \<open>Cuse_Loop\<close> (\<^verbatim>\<open>cuse-drivers/dmx512_cuse_loop_device.c\<close>): the loop-back cards and their information.
  \<^item> \<open>Dmx_Controller\<close> (\<^verbatim>\<open>uio/uio.c\<close>, \<^verbatim>\<open>cuse-drivers/uio_dmxcontroller.h\<close>): the registers of the DMX controller core
    over a memory window; the device is a parameter.
  \<^item> \<open>Cuse_Llgip\<close> (\<^verbatim>\<open>cuse-drivers/dmx512_cuse_llgip.c\<close>): the card on that core. The locale \<open>frame_receiver\<close> is
    what its ports rely on when they pass frames up; the CUSE device provides it.

  \<^item> \<open>Rtuart_Buffer\<close> (\<^verbatim>\<open>uio-testbench/rtuart/rtuart.c\<close>, \<^verbatim>\<open>rtuart.h\<close>, \<^verbatim>\<open>rtuart_priv.h\<close>): the UART interface with buffers and
    triggers; buffers live in a store shared with the client.
  \<^item> \<open>Rtuart_16550\<close> (\<^verbatim>\<open>uio-testbench/rtuart/rtuart_pc16c550.c\<close>): its driver for the 16550 with the interrupt handler;
    a buffer is transmitted completely, whatever the client asks for at its end.

  \<^item> \<open>Mapped_Bus\<close> (\<^verbatim>\<open>uio-testbench/bus/mmap32_bus.c\<close>, \<^verbatim>\<open>uio32_bus.c\<close>, \<^verbatim>\<open>rtuart_bus.c\<close>): registers in a memory window;
    the locale \<open>word_registers\<close> of what the PL011 drivers rely on, and the two buses that provide it.
  \<^item> \<open>Pl011_Regs\<close>, \<open>Rtuart_Pl011\<close> (\<^verbatim>\<open>uio-testbench/rtuart/rtuart_pl011.c\<close>): registers and driver of the buffered interface for
    the PL011; \<open>Rtuart_Pl011_Regs\<close> shows what its settings do to the registers, \<open>Rtuart_Pl011_Transfer\<close> how it moves
    octets between buffers and the chip.
  \<^item> \<open>Pl011_Ring\<close>, \<open>Pl011\<close> (\<^verbatim>\<open>uio-testbench/uart/pl011.c\<close>): the driver with a receive ring in memory; the locale
    \<open>octet_queue\<close> is what it relies on.
  \<^item> \<open>Tasklet\<close> (\<^verbatim>\<open>uio-testbench/kernel.c\<close>): the list of scheduled tasklets.

  \<^item> \<open>Rtuart_Interface\<close>: the locales \<open>buffered_uart\<close> and \<open>dmx_line_uart\<close> of what a client of the buffered interface relies on,
    interpreted on both drivers.
  \<^item> \<open>Dmx_Rtuart\<close> (\<^verbatim>\<open>uio-testbench/rtuart/t_dmxrtuart.c\<close>): DMX512 and RDM on the buffered interface, with frames in a store;
    \<open>Dmx_Rtuart_Rdm\<close> and \<open>Dmx_Rtuart_Frames\<close> show its coding of discovery replies, \<open>Dmx_Rtuart_Port\<close>, \<open>Dmx_Rtuart_Steps\<close>,
    \<open>Dmx_Rtuart_Run\<close> and \<open>Dmx_Rtuart_Loop\<close> the invariant of the port over all events and rounds of its main loop (the
    locale \<open>dmx_client\<close>, for both drivers) as long as the events are ones the port expects, \<open>Dmx_Rtuart_Reception\<close> the reception
    of a frame through the receive routine of the PC16x50 driver with its triggers, and what an unexpected octet after a timeout does.
  \<^item> \<open>Cuse_Cards\<close> (\<^verbatim>\<open>cuse-drivers/dmx512_cuse_uart.c\<close>, \<^verbatim>\<open>dmx512_cuse_pwm.c\<close>,
    \<^verbatim>\<open>simulation/dmx512_cuse_suart.c\<close>): the user space cards on a serial line, on a PWM controller and on stream UARTs, with
    their common information requests.
  \<^item> \<open>Rdm_Packet\<close> (\<^verbatim>\<open>librdm/rdmvalues.hpp\<close>): UIDs and packets of the RDM library as octets, with its decoder and encoder.
  \<^item> \<open>Rdm_Device\<close> (\<^verbatim>\<open>librdm/rdmdevice.cpp\<close>, \<^verbatim>\<open>dmxbus.cpp\<close>): the devices and the bus that connects them to one master.
  \<^item> \<open>Rdm_Api\<close> (\<^verbatim>\<open>librdm/rdmapi.cpp\<close>, \<^verbatim>\<open>rdmapi.hpp\<close>): futures, muting, discovery, get and set. \<open>Rdm_Discovery\<close> shows what the
    discovery finds, for every line that provides the locale \<open>rdm_line\<close>; the bus does. \<open>Rdm_Parameters\<close> shows get and set over
    the bus, and that a device handles every frame.
  \<^item> \<open>Rdm_Shell\<close> (\<^verbatim>\<open>librdm/commandinterpreter.hpp\<close>, \<^verbatim>\<open>rdmcommands.cpp\<close>, \<^verbatim>\<open>dmx4linux2interface.cpp\<close>): commands on the master and
    the frames of a DMX512 device that carry its packets.
  \<^item> \<open>Kernel_List_Sort\<close> (the rest of \<^verbatim>\<open>list.h\<close>): entries, iterations and the merge sort of linked lists, which is the stable sort of
    \<open>HOL-Library\<close>.
  \<^item> \<open>Waitqueue\<close> (\<^verbatim>\<open>kernel_emulation/waitqueue/waitqueue.c\<close>): waiting for a condition with a timeout.
  \<^item> \<open>Uart_Chardev\<close> (\<^verbatim>\<open>cuse-drivers/cuse/rtuart_dev.c\<close>): a UART of the buffered interface as a character device.

  \<^bold>\<open>What is shown.\<close> Ownership: ports, core and CUSE device account for every frame, and the CUSE device
  for every pending read. Consistency: the states of a port, its notifications, its frames and the
  interrupt enable register fit together. Function: frames that an idle port takes over are sent completely and in order; discovery
  responses come through whatever their chunks; received frames reach exactly the files that select
  their port; the queue is first in, first out; the dummy boards loop back. Round trips: discovery
  encoding, line formats, divisors, port indices, filters, names and labels. Faults: a group of theorems
  states where the code does not do what it means to, each with the input that shows it.

  \<^bold>\<open>Loops.\<close> Loops over lists in memory, the wait for the transmitter and the loop of the interrupt handler
  are partial functions; that the list loops return is proved. The loops that depend on the chip have
  no bound in the code, so what is proved about them holds when they return.

  \<^bold>\<open>Not modelled.\<close> Session set-up and the event loops of libfuse, memory mapped and UIO access (system
  calls only); the main programs of librdm and
  the console, the co-simulation, examples and tests.
\<close>

end
